(* ===== verification/Benes_Prelude.thy ===== *)
theory Benes_Prelude
  imports Complex_Main "HOL-Library.Char_ord" "HOL-Library.List_Lexorder" "HOL-Library.Sublist"
begin

text \<open>
  Shared ground of the development: what the TypeScript sources use of the language and its
  standard library, and the generic lemmas the components share.

  Text is a \<^typ>\<open>string\<close>, read as the UTF-8 bytes of the JavaScript string. The operations the
  sources use of \<^verbatim>\<open>String\<close> and \<^verbatim>\<open>RegExp\<close> are given on ASCII: \<^verbatim>\<open>trim\<close> and \<open>\s\<close> know the six ASCII
  blanks, \<^verbatim>\<open>toLowerCase\<close> and \<^verbatim>\<open>toUpperCase\<close> change ASCII letters, and every other byte is left
  alone. Exceptions are values \<open>Inl e\<close> of a sum type; \<^verbatim>\<open>null\<close> and \<^verbatim>\<open>undefined\<close> are \<^term>\<open>None\<close>.
\<close>

named_theorems text_simps \<open>rewriting of the text operations\<close>
named_theorems result_simps \<open>rewriting of the error monad\<close>

section \<open>Results that may fail\<close>

type_synonym ('e, 'a) result = "'e + 'a"

definition bindR :: "('e, 'a) result \<Rightarrow> ('a \<Rightarrow> ('e, 'b) result) \<Rightarrow> ('e, 'b) result" where
  "bindR m f = (case m of Inl e \<Rightarrow> Inl e | Inr x \<Rightarrow> f x)"

fun mapR :: "('a \<Rightarrow> ('e, 'b) result) \<Rightarrow> 'a list \<Rightarrow> ('e, 'b list) result" where
  "mapR f [] = Inr []"
| "mapR f (x # xs) = bindR (f x) (\<lambda>y. bindR (mapR f xs) (\<lambda>ys. Inr (y # ys)))"

definition guardR :: "bool \<Rightarrow> 'e \<Rightarrow> ('e, unit) result" where
  "guardR b e = (if b then Inr () else Inl e)"

definition is_ok :: "('e, 'a) result \<Rightarrow> bool" where
  "is_ok r = (case r of Inl _ \<Rightarrow> False | Inr _ \<Rightarrow> True)"

section \<open>Text\<close>

abbreviation is_digit :: "char \<Rightarrow> bool" where
  "is_digit c \<equiv> CHR ''0'' \<le> c \<and> c \<le> CHR ''9''"

abbreviation is_lower :: "char \<Rightarrow> bool" where
  "is_lower c \<equiv> CHR ''a'' \<le> c \<and> c \<le> CHR ''z''"

abbreviation is_upper :: "char \<Rightarrow> bool" where
  "is_upper c \<equiv> CHR ''A'' \<le> c \<and> c \<le> CHR ''Z''"

abbreviation is_alnum :: "char \<Rightarrow> bool" where
  "is_alnum c \<equiv> is_digit c \<or> is_lower c \<or> is_upper c"

definition blanks :: "char list" where
  "blanks = [CHR 9, CHR 10, CHR 11, CHR 12, CHR 13, CHR 32]"

definition is_blank :: "char \<Rightarrow> bool" where
  "is_blank c \<longleftrightarrow> c \<in> set blanks"

definition trim_start :: "string \<Rightarrow> string" where
  "trim_start s = dropWhile is_blank s"

definition trim_end :: "string \<Rightarrow> string" where
  "trim_end s = rev (dropWhile is_blank (rev s))"

definition trim :: "string \<Rightarrow> string" where
  "trim s = trim_end (trim_start s)"

definition to_lower_char :: "char \<Rightarrow> char" where
  "to_lower_char c = (if is_upper c then char_of (of_char c + 32 :: nat) else c)"

definition to_upper_char :: "char \<Rightarrow> char" where
  "to_upper_char c = (if is_lower c then char_of (of_char c - 32 :: nat) else c)"

definition to_lower :: "string \<Rightarrow> string" where
  "to_lower s = map to_lower_char s"

definition starts_with :: "string \<Rightarrow> string \<Rightarrow> bool" where
  "starts_with s p \<longleftrightarrow> take (length p) s = p"

fun str_includes :: "string \<Rightarrow> string \<Rightarrow> bool" where
  "str_includes [] n = (n = [])"
| "str_includes (c # s) n = (starts_with (c # s) n \<or> str_includes s n)"

fun split_on :: "char \<Rightarrow> string \<Rightarrow> string list" where
  "split_on d [] = [[]]"
| "split_on d (c # s) =
     (if c = d then [] # split_on d s
      else (case split_on d s of [] \<Rightarrow> [[c]] | w # ws \<Rightarrow> (c # w) # ws))"

fun join_with :: "string \<Rightarrow> string list \<Rightarrow> string" where
  "join_with d [] = []"
| "join_with d [w] = w"
| "join_with d (w # v # ws) = w @ d @ join_with d (v # ws)"

definition newline :: string where
  "newline = [CHR 10]"

fun show_nat :: "nat \<Rightarrow> string" where
  "show_nat n =
     (if n < 10 then [char_of (n + 48)] else show_nat (n div 10) @ [char_of (n mod 10 + 48)])"

declare show_nat.simps [simp del]

definition show_int :: "int \<Rightarrow> string" where
  "show_int i = (if i < 0 then CHR ''-'' # show_nat (nat (- i)) else show_nat (nat i))"

definition hex_digit :: "nat \<Rightarrow> char" where
  "hex_digit n = (if n < 10 then char_of (n + 48) else char_of (n + 87))"

text \<open>\<^verbatim>\<open>JSON.stringify\<close> of a string.\<close>

definition json_escape :: "char \<Rightarrow> string" where
  "json_escape c =
     (if c = CHR 34 \<or> c = CHR 92 then [CHR 92, c]
      else if c = CHR 8 then [CHR 92, CHR ''b''] else if c = CHR 9 then [CHR 92, CHR ''t'']
      else if c = CHR 10 then [CHR 92, CHR ''n''] else if c = CHR 12 then [CHR 92, CHR ''f'']
      else if c = CHR 13 then [CHR 92, CHR ''r'']
      else if of_char c < (32 :: nat)
      then [CHR 92, CHR ''u'', CHR ''0'', CHR ''0'', hex_digit (of_char c div 16), hex_digit (of_char c mod 16)]
      else [c])"

definition json_quote :: "string \<Rightarrow> string" where
  "json_quote s = CHR 34 # concat (map json_escape s) @ [CHR 34]"

definition read_digits :: "string \<Rightarrow> nat" where
  "read_digits s = foldl (\<lambda>n c. 10 * n + (of_char c - 48)) 0 s"

section \<open>Numbers\<close>

text \<open>
  \<^verbatim>\<open>Number(s)\<close> on a string of digits is the IEEE double nearest to the decimal value, ties to
  even. It is exact below \<open>2 ^ 53\<close>; above, \<open>js_double\<close> keeps 53 significant bits. Values of more
  than 308 digits, where the double is \<^verbatim>\<open>Infinity\<close>, are outside the model.
\<close>

fun bit_count :: "nat \<Rightarrow> nat" where
  "bit_count n = (if n = 0 then 0 else Suc (bit_count (n div 2)))"

declare bit_count.simps [simp del]

definition js_double :: "nat \<Rightarrow> nat" where
  "js_double n =
     (if int n < 2 ^ 53 then n
      else let e = bit_count n - 53; q = n div 2 ^ e; r = n mod 2 ^ e; h = 2 ^ (e - 1)
           in (if r < h \<or> (r = h \<and> even q) then q else Suc q) * 2 ^ e)"

text \<open>A JavaScript number as decoded JSON carries it: a finite value, or one of the specials.\<close>

datatype jsnum = Fin rat | PosInf | NegInf | NaN

fun num_is_integer :: "jsnum \<Rightarrow> bool" where
  "num_is_integer (Fin r) = (of_int \<lfloor>r\<rfloor> = r)"
| "num_is_integer _ = False"

fun num_is_finite :: "jsnum \<Rightarrow> bool" where
  "num_is_finite (Fin r) = True"
| "num_is_finite _ = False"

text \<open>\<^verbatim>\<open>Number.isSafeInteger\<close>: an integer of absolute value below \<open>2 ^ 53\<close>.\<close>

fun safe_integer :: "jsnum \<Rightarrow> bool" where
  "safe_integer (Fin r) = (of_int \<lfloor>r\<rfloor> = r \<and> \<bar>r\<bar> \<le> 2 ^ 53 - 1)"
| "safe_integer _ = False"

section \<open>Decoded JSON\<close>

text \<open>
  What \<^verbatim>\<open>JSON.parse\<close> returns. An object is the list of its own properties; reading a property
  that is absent gives \<^verbatim>\<open>undefined\<close>, the value \<^term>\<open>None\<close>, which is not the same as a stored
  \<^verbatim>\<open>null\<close>, \<open>Some JNull\<close>.
\<close>

datatype json =
    JNull
  | JBool bool
  | JNum jsnum
  | JStr string
  | JArr "json list"
  | JObj "(string \<times> json) list"

fun own_props :: "json \<Rightarrow> (string \<times> json) list" where
  "own_props (JObj ps) = ps"
| "own_props _ = []"

definition prop_of :: "json \<Rightarrow> string \<Rightarrow> json option" where
  "prop_of v k = map_of (own_props v) k"

text \<open>A JSON value in a condition.\<close>

fun json_truthy :: "json \<Rightarrow> bool" where
  "json_truthy JNull = False"
| "json_truthy (JBool b) = b"
| "json_truthy (JNum n) = (n \<noteq> Fin 0 \<and> n \<noteq> NaN)"
| "json_truthy (JStr s) = (s \<noteq> [])"
| "json_truthy _ = True"

text \<open>\<^verbatim>\<open>a ?? b\<close>: the right side when the left is \<^verbatim>\<open>null\<close> or \<^verbatim>\<open>undefined\<close>.\<close>

definition nullish_or :: "json option \<Rightarrow> json option \<Rightarrow> json option" where
  "nullish_or a b = (case a of None \<Rightarrow> b | Some JNull \<Rightarrow> b | Some v \<Rightarrow> Some v)"

section \<open>Maps in insertion order\<close>

text \<open>
  A \<^verbatim>\<open>Map\<close> is iterated in the order its keys were first set: an association list whose entries are updated in place.
\<close>

definition get_or :: "'v \<Rightarrow> ('k \<times> 'v) list \<Rightarrow> 'k \<Rightarrow> 'v" where
  "get_or d m k = (case map_of m k of Some v \<Rightarrow> v | None \<Rightarrow> d)"

fun map_set :: "'k \<Rightarrow> 'v \<Rightarrow> ('k \<times> 'v) list \<Rightarrow> ('k \<times> 'v) list" where
  "map_set k v [] = [(k, v)]"
| "map_set k v ((k', v') # m) = (if k' = k then (k, v) # m else (k', v') # map_set k v m)"

section \<open>Stable sorting by a comparator\<close>

text \<open>
  \<^verbatim>\<open>Array.prototype.sort\<close> is stable and orders by the sign of the comparator. For a comparator
  that is a total preorder its result is the one stable sorted permutation, which insertion
  computes.
\<close>

fun insert_by :: "('a \<Rightarrow> 'a \<Rightarrow> int) \<Rightarrow> 'a \<Rightarrow> 'a list \<Rightarrow> 'a list" where
  "insert_by cmp x [] = [x]"
| "insert_by cmp x (y # ys) = (if cmp x y \<le> 0 then x # y # ys else y # insert_by cmp x ys)"

fun sort_by :: "('a \<Rightarrow> 'a \<Rightarrow> int) \<Rightarrow> 'a list \<Rightarrow> 'a list" where
  "sort_by cmp [] = []"
| "sort_by cmp (x # xs) = insert_by cmp x (sort_by cmp xs)"

section \<open>Lemmas on results\<close>

lemma bindR_simps [simp, result_simps]:
  "bindR (Inl e) f = Inl e"
  "bindR (Inr x) f = f x"
  by (simp_all add: bindR_def)

lemma bindR_eq_Inr [result_simps]: "bindR m f = Inr y \<longleftrightarrow> (\<exists>x. m = Inr x \<and> f x = Inr y)"
  by (cases m) simp_all

lemma bindR_eq_Inl [result_simps]:
  "bindR m f = Inl e \<longleftrightarrow> m = Inl e \<or> (\<exists>x. m = Inr x \<and> f x = Inl e)"
  by (cases m) auto

lemma guardR_eq [result_simps]:
  "guardR b e = Inr u \<longleftrightarrow> b"
  "guardR b e = Inl e' \<longleftrightarrow> \<not> b \<and> e' = e"
  by (auto simp: guardR_def)

lemma guardR_simps [simp]: "guardR True e = Inr ()" "guardR False e = Inl e"
  by (simp_all add: guardR_def)

lemma is_ok_iff: "is_ok r \<longleftrightarrow> (\<exists>x. r = Inr x)"
  by (cases r) (simp_all add: is_ok_def)

lemma mapR_Inr_length: "mapR f xs = Inr ys \<Longrightarrow> length ys = length xs"
  by (induction xs arbitrary: ys) (auto simp: bindR_eq_Inr)

section \<open>Lemmas on text\<close>

lemma dropWhile_dropWhile: "dropWhile P (dropWhile P xs) = dropWhile P xs"
  by (induction xs) auto

lemma trim_start_end_no_blank:
  assumes "xs = [] \<or> \<not> is_blank (hd xs)"
  shows "trim_end xs = [] \<or> \<not> is_blank (hd (trim_end xs))"
proof (cases "trim_end xs")
  case (Cons y ys)
  have "prefix (trim_end xs) xs"
    unfolding trim_end_def using suffix_dropWhile [of is_blank "rev xs"]
    by (simp add: suffix_to_prefix)
  with Cons obtain zs where "xs = y # zs" by (auto simp: prefix_def)
  with assms Cons show ?thesis by simp
qed simp

lemma dropWhile_id: "xs = [] \<or> \<not> P (hd xs) \<Longrightarrow> dropWhile P xs = xs"
  by (cases xs) auto

lemma hd_dropWhile_blank: "dropWhile P xs = [] \<or> \<not> P (hd (dropWhile P xs))"
  by (meson hd_dropWhile)

lemma trim_end_idem [simp]: "trim_end (trim_end s) = trim_end s"
  by (simp add: trim_end_def dropWhile_dropWhile)

lemma trim_idem [simp, text_simps]: "trim (trim s) = trim s"
proof -
  have "trim_start (trim s) = trim s"
    unfolding trim_def trim_start_def
    by (rule dropWhile_id, rule trim_start_end_no_blank, rule hd_dropWhile_blank)
  then show ?thesis by (simp add: trim_def)
qed

lemma trim_Nil [simp]: "trim [] = []"
  by (simp add: trim_def trim_start_def trim_end_def)

lemma trim_no_blank: "(\<And>c. c \<in> set s \<Longrightarrow> \<not> is_blank c) \<Longrightarrow> trim s = s"
proof -
  assume nb: "\<And>c. c \<in> set s \<Longrightarrow> \<not> is_blank c"
  have keep: "dropWhile is_blank t = t" if "set t \<subseteq> set s" for t
    using that nb by (cases t) auto
  show ?thesis by (simp add: trim_def trim_start_def trim_end_def keep)
qed

lemma starts_with_iff: "starts_with s p \<longleftrightarrow> prefix p s"
  by (auto simp: starts_with_def prefix_def) (metis append_take_drop_id)

lemma str_includes_iff: "str_includes s n \<longleftrightarrow> sublist n s"
  by (induction s) (auto simp: starts_with_iff sublist_Cons_right)

lemma split_on_not_Nil [simp]: "split_on d s \<noteq> []"
  by (cases s) (auto split: list.split)

lemma join_split: "join_with [d] (split_on d s) = s"
proof (induction s)
  case (Cons c s)
  then show ?case
    by (cases "split_on d s") (auto simp: neq_Nil_conv, (metis join_with.simps append_Cons list.exhaust)+)
qed simp

lemma split_on_none: "d \<notin> set s \<Longrightarrow> split_on d s = [s]"
  by (induction s) auto

lemma set_split_on: "w \<in> set (split_on d s) \<Longrightarrow> set w \<subseteq> set s - {d}"
  by (induction s arbitrary: w) (fastforce split: list.splits if_splits)+

lemma split_on_append: "d \<notin> set w \<Longrightarrow> split_on d (w @ d # s) = w # split_on d s"
  by (induction w) auto

lemma split_join: "ws \<noteq> [] \<Longrightarrow> \<forall>w \<in> set ws. d \<notin> set w \<Longrightarrow> split_on d (join_with [d] ws) = ws"
  by (induction "[d]" ws rule: join_with.induct) (auto simp: split_on_none split_on_append)

lemma sublist_append_mid: "sublist n s \<Longrightarrow> sublist n (a @ s @ b)"
  by (meson sublist_appendI sublist_order.order_trans)

lemma sublist_append_end: "sublist n s \<Longrightarrow> sublist n (a @ s)"
  using sublist_append_mid [of n s a "[]"] by simp

lemma sublist_append_front: "sublist n s \<Longrightarrow> sublist n (s @ b)"
  using sublist_append_mid [of n s "[]" b] by simp

lemma sublist_join: "w \<in> set ws \<Longrightarrow> sublist w (join_with d ws)"
proof (induction d ws rule: join_with.induct)
  case (3 d w' v ws)
  then consider "w = w'" | "sublist w (join_with d (v # ws))" by auto
  then show ?case
  proof cases
    case 2
    then have "sublist w ((w' @ d) @ join_with d (v # ws))" by (rule sublist_append_end)
    then show ?thesis by simp
  qed (simp add: sublist_append_front)
qed auto

section \<open>Lemmas on numerals\<close>

lemma digit_of_code: "n < 10 \<Longrightarrow> is_digit (char_of (n + 48 :: nat))"
  by (auto simp: less_eq_char_def)

lemma show_nat_not_Nil [simp]: "show_nat n \<noteq> []"
  by (subst show_nat.simps) simp

lemma show_nat_digits: "c \<in> set (show_nat n) \<Longrightarrow> is_digit c"
proof (induction n arbitrary: c rule: show_nat.induct)
  case (1 n)
  then show ?case
    by (cases "n < 10") (auto simp: show_nat.simps [of n] digit_of_code split: if_splits)
qed

lemma int_less_pow53: "int n < 2 ^ 53 \<longleftrightarrow> n < 2 ^ 53"
  by simp

lemma js_double_small [simp]: "n < 2 ^ 53 \<Longrightarrow> js_double n = n"
  by (simp add: js_double_def)

lemma bit_count_lower: "0 < n \<Longrightarrow> 2 ^ (bit_count n - 1) \<le> n"
proof (induction n rule: bit_count.induct)
  case (1 n)
  show ?case
  proof (cases "n div 2 = 0")
    case True
    with 1 have "n = 1" by arith
    then show ?thesis by (simp add: bit_count.simps)
  next
    case False
    with 1 have ih: "2 ^ (bit_count (n div 2) - 1) \<le> n div 2" by simp
    from False have "bit_count (n div 2) = Suc (bit_count (n div 2 div 2))"
      by (simp add: bit_count.simps [of "n div 2"])
    then have "2 ^ (bit_count n - 1) = 2 * (2 ^ (bit_count (n div 2) - 1) :: nat)"
      using 1 by (simp add: bit_count.simps [of n])
    also have "\<dots> \<le> 2 * (n div 2)" using ih by simp
    also have "\<dots> \<le> n" by simp
    finally show ?thesis .
  qed
qed

lemma bit_count_upper: "n < 2 ^ bit_count n"
proof (induction n rule: bit_count.induct)
  case (1 n)
  show ?case
  proof (cases "n = 0")
    case False
    with 1 have "n div 2 < 2 ^ bit_count (n div 2)" by simp
    then have "n < 2 * 2 ^ bit_count (n div 2)" by simp
    with False show ?thesis by (simp add: bit_count.simps [of n])
  qed (simp add: bit_count.simps)
qed

text \<open>A double below \<open>2 ^ 53\<close> was not rounded, so it determines the integer it came from.\<close>

lemma js_double_exact:
  assumes "js_double n < 2 ^ 53"
  shows "js_double n = n"
proof (rule ccontr)
  assume "js_double n \<noteq> n"
  then have big: "2 ^ 53 \<le> n" by (metis js_double_small not_le)
  define e where "e = bit_count n - 53"
  have "53 < bit_count n"
  proof (rule ccontr)
    assume "\<not> 53 < bit_count n"
    then have "(2::nat) ^ bit_count n \<le> 2 ^ 53" by (intro power_increasing) auto
    with bit_count_upper [of n] big show False by simp
  qed
  then have e: "bit_count n - 1 = 52 + e" "0 < e" by (simp_all add: e_def)
  have "2 ^ (52 + e) \<le> n" using bit_count_lower [of n] big e by simp
  then have "(2::nat) ^ (52 + e) div 2 ^ e \<le> n div 2 ^ e" by (rule div_le_mono)
  then have q: "2 ^ 52 \<le> n div 2 ^ e" by (simp add: power_add)
  have "(2::nat) ^ 53 \<le> 2 ^ (52 + e)" using e(2) by (intro power_increasing) auto
  also have "\<dots> = 2 ^ 52 * 2 ^ e" by (rule power_add)
  also have "\<dots> \<le> n div 2 ^ e * 2 ^ e" using q by (rule mult_le_mono1)
  also have "\<dots> \<le> js_double n"
    using big by (auto simp: js_double_def e_def [symmetric] Let_def)
  finally show False using assms by simp
qed

lemma js_double_inj: "js_double m = js_double n \<Longrightarrow> js_double m < 2 ^ 53 \<Longrightarrow> m = n"
  using js_double_exact [of m] js_double_exact [of n] by simp

lemma read_show_nat: "read_digits (show_nat n) = n"
proof (induction n rule: show_nat.induct)
  case (1 n)
  then show ?case
    by (cases "n < 10") (simp_all add: show_nat.simps [of n] read_digits_def)
qed

lemma show_nat_inj: "show_nat m = show_nat n \<Longrightarrow> m = n"
  by (metis read_show_nat)

lemma show_nat_snoc: "0 < n \<Longrightarrow> d < 10 \<Longrightarrow> show_nat (10 * n + d) = show_nat n @ [char_of (d + 48)]"
  by (simp add: show_nat.simps [of "10 * n + d"])

lemma read_digits_snoc: "read_digits (s @ [c]) = 10 * read_digits s + (of_char c - 48)"
  by (simp add: read_digits_def)

lemma digit_code: "is_digit c \<Longrightarrow> of_char c - 48 < (10::nat) \<and> char_of (of_char c - 48 + 48 :: nat) = c"
  by (auto simp: less_eq_char_def)

text \<open>Digits without a redundant leading zero are the decimal text of the number they read as.\<close>

lemma show_read_digits:
  "s \<noteq> [] \<Longrightarrow> list_all is_digit s \<Longrightarrow> s = ''0'' \<or> hd s \<noteq> CHR ''0'' \<Longrightarrow>
   show_nat (read_digits s) = s \<and> (s = ''0'' \<or> 0 < read_digits s)"
proof (induction s rule: rev_induct)
  case (snoc c s)
  then have c: "is_digit c" and s: "list_all is_digit s" by simp_all
  show ?case
  proof (cases "s = []")
    case True
    have "0 < of_char c - (48::nat)" if "c \<noteq> CHR ''0''"
    proof -
      have "c = CHR ''0''" if "of_char c = (48::nat)"
      proof -
        have "of_char (CHR ''0'') = (48::nat)" by simp
        with that have "of_char c = (of_char (CHR ''0'') :: nat)" by simp
        then show ?thesis by (simp only: of_char_eq_iff)
      qed
      with that have "of_char c \<noteq> (48::nat)" by blast
      with c show ?thesis by (auto simp: less_eq_char_def)
    qed
    with True c digit_code [OF c] snoc.prems show ?thesis
      by (auto simp: read_digits_def show_nat.simps)
  next
    case False
    with snoc.prems have "hd s \<noteq> CHR ''0''" by simp
    with snoc.IH False s have ih: "show_nat (read_digits s) = s" "0 < read_digits s"
      by (auto)
    then show ?thesis
      using digit_code [OF c] show_nat_snoc [of "read_digits s" "of_char c - 48"]
      by (simp add: read_digits_snoc)
  qed
qed simp

section \<open>Lemmas on maps\<close>

lemma map_of_map_set [simp]: "map_of (map_set k v m) = (map_of m)(k \<mapsto> v)"
  by (induction m) (auto simp: fun_eq_iff)

lemma get_or_map_set [simp]: "get_or d (map_set k v m) j = (if j = k then v else get_or d m j)"
  by (simp add: get_or_def)

lemma get_or_Nil [simp]: "get_or d [] k = d"
  by (simp add: get_or_def)

lemma keys_map_set: "map fst (map_set k v m) = (if k \<in> fst ` set m then map fst m else map fst m @ [k])"
  by (induction k v m rule: map_set.induct) (auto simp: rev_image_eqI)

lemma distinct_map_set: "distinct (map fst m) \<Longrightarrow> distinct (map fst (map_set k v m))"
  by (simp add: keys_map_set)

section \<open>Lemmas on sorting\<close>

lemma set_insert_by [simp]: "set (insert_by cmp x ys) = insert x (set ys)"
  by (induction ys) auto

lemma set_sort_by [simp]: "set (sort_by cmp xs) = set xs"
  by (induction xs) auto

lemma length_insert_by [simp]: "length (insert_by cmp x ys) = Suc (length ys)"
  by (induction ys) auto

lemma length_sort_by [simp]: "length (sort_by cmp xs) = length xs"
  by (induction xs) auto

lemma sum_sort_by: "sum_list (map f (sort_by cmp xs)) = sum_list (map f xs)" for f :: "'a \<Rightarrow> 'n :: comm_monoid_add"
proof -
  have "sum_list (map f (insert_by cmp x ys)) = f x + sum_list (map f ys)" for x ys
    by (induction ys) (auto simp: ac_simps)
  then show ?thesis by (induction xs) auto
qed

lemma distinct_sort_by: "distinct (map f (sort_by cmp xs)) = distinct (map f xs)"
proof -
  have "distinct (map f (insert_by cmp x ys)) = (f x \<notin> f ` set ys \<and> distinct (map f ys))" for x ys
    by (induction ys) auto
  then show ?thesis by (induction xs) auto
qed

text \<open>What the sources rely on when they sort: the comparator is a total preorder.\<close>

locale comparator =
  fixes cmp :: "'a \<Rightarrow> 'a \<Rightarrow> int" and ok :: "'a \<Rightarrow> bool"
  assumes total: "ok x \<Longrightarrow> ok y \<Longrightarrow> cmp x y \<le> 0 \<or> cmp y x \<le> 0"
    and trans: "ok x \<Longrightarrow> ok y \<Longrightarrow> ok z \<Longrightarrow> cmp x y \<le> 0 \<Longrightarrow> cmp y z \<le> 0 \<Longrightarrow> cmp x z \<le> 0"
begin

lemma sorted_insert_by:
  "list_all ok (x # ys) \<Longrightarrow> sorted_wrt (\<lambda>a b. cmp a b \<le> 0) ys \<Longrightarrow>
   sorted_wrt (\<lambda>a b. cmp a b \<le> 0) (insert_by cmp x ys)"
proof (induction ys)
  case (Cons y ys)
  show ?case
  proof (cases "cmp x y \<le> 0")
    case True
    have "cmp x z \<le> 0" if "z \<in> set ys" for z
      using that Cons.prems True by (intro trans [of x y z]) (auto simp: list_all_iff)
    with True Cons.prems show ?thesis by simp
  next
    case False
    with Cons.prems have "cmp y x \<le> 0" using total [of x y] by (simp add: list_all_iff)
    with False Cons show ?thesis by simp
  qed
qed simp

lemma sorted_sort_by:
  "list_all ok xs \<Longrightarrow> sorted_wrt (\<lambda>a b. cmp a b \<le> 0) (sort_by cmp xs)"
  by (induction xs) (auto intro!: sorted_insert_by simp: list_all_iff)

lemma last_sort_by_max:
  assumes "list_all ok xs" "x \<in> set xs"
  shows "cmp x (last (sort_by cmp xs)) \<le> 0"
proof -
  let ?s = "sort_by cmp xs"
  from assms have x: "x \<in> set ?s" by simp
  then have ne: "?s \<noteq> []" by (metis empty_iff empty_set)
  from ne have split: "?s = butlast ?s @ [last ?s]" by simp
  have "sorted_wrt (\<lambda>a b. cmp a b \<le> 0) (butlast ?s @ [last ?s])"
    using sorted_sort_by [OF assms(1)] split by simp
  then have below: "\<forall>a \<in> set (butlast ?s). cmp a (last ?s) \<le> 0"
    by (simp add: sorted_wrt_append)
  from x have "x \<in> set (butlast ?s) \<or> x = last ?s"
    by (subst (asm) split) auto
  then show ?thesis
    using below total [of x x] assms by (auto simp: list_all_iff)
qed

end

text \<open>
  A collation, such as \<^verbatim>\<open>localeCompare\<close>, is a comparator that answers oppositely for exchanged
  arguments. Comparing by one key and then by another is a comparator again.
\<close>

locale collation = comparator cmp "\<lambda>_. True" for cmp :: "'a \<Rightarrow> 'a \<Rightarrow> int" +
  assumes opposite: "sgn (cmp y x) = - sgn (cmp x y)"
begin

lemma zero_both: "cmp x y = 0 \<longleftrightarrow> cmp y x = 0"
  using opposite [of x y] by (auto simp: sgn_if split: if_splits)

lemma less_opposite: "cmp x y < 0 \<longleftrightarrow> 0 < cmp y x"
  using opposite [of x y] by (auto simp: sgn_if split: if_splits)

lemma then_by: "comparator (\<lambda>l r. if cmp (f l) (f r) \<noteq> 0 then cmp (f l) (f r) else cmp (g l) (g r)) (\<lambda>_. True)"
proof
  fix l r
  show "(if cmp (f l) (f r) \<noteq> 0 then cmp (f l) (f r) else cmp (g l) (g r)) \<le> 0
      \<or> (if cmp (f r) (f l) \<noteq> 0 then cmp (f r) (f l) else cmp (g r) (g l)) \<le> 0"
    using total [of "f l" "f r"] total [of "g l" "g r"] zero_both [of "f l" "f r"] by auto
next
  fix l m r
  assume a: "(if cmp (f l) (f m) \<noteq> 0 then cmp (f l) (f m) else cmp (g l) (g m)) \<le> 0"
    and b: "(if cmp (f m) (f r) \<noteq> 0 then cmp (f m) (f r) else cmp (g m) (g r)) \<le> 0"
  have le: "cmp (f l) (f m) \<le> 0" "cmp (f m) (f r) \<le> 0" using a b by (auto split: if_splits)
  then have lr: "cmp (f l) (f r) \<le> 0" using trans [of "f l" "f m" "f r"] by simp
  show "(if cmp (f l) (f r) \<noteq> 0 then cmp (f l) (f r) else cmp (g l) (g r)) \<le> 0"
  proof (cases "cmp (f l) (f r) = 0")
    case True
    then have rl: "cmp (f r) (f l) \<le> 0" using zero_both [of "f l" "f r"] by simp
    have "cmp (f m) (f l) \<le> 0" using trans [of "f m" "f r" "f l"] le(2) rl by simp
    then have "cmp (f l) (f m) = 0" using le(1) less_opposite [of "f l" "f m"] by linarith
    moreover have "cmp (f r) (f m) \<le> 0" using trans [of "f r" "f l" "f m"] le(1) rl by simp
    then have "cmp (f m) (f r) = 0" using le(2) less_opposite [of "f m" "f r"] by linarith
    ultimately show ?thesis using True a b trans [of "g l" "g m" "g r"] by simp
  qed (use lr in simp)
qed

end

section \<open>Machines\<close>

text \<open>
  A component that reacts to events is a step relation on its state. The contract between such a
  component and the properties stated of it is an invariant: it holds initially and every step
  keeps it; then it holds in every reachable state.
\<close>

inductive reach :: "('s \<Rightarrow> bool) \<Rightarrow> ('s \<Rightarrow> 's \<Rightarrow> bool) \<Rightarrow> 's \<Rightarrow> bool" for init step where
  reach_init: "init s \<Longrightarrow> reach init step s"
| reach_step: "reach init step s \<Longrightarrow> step s t \<Longrightarrow> reach init step t"

locale machine =
  fixes init :: "'s \<Rightarrow> bool" and step :: "'s \<Rightarrow> 's \<Rightarrow> bool" and inv :: "'s \<Rightarrow> bool"
  assumes inv_init: "init s \<Longrightarrow> inv s" and inv_step: "inv s \<Longrightarrow> step s t \<Longrightarrow> inv t"
begin

lemma reachable_inv: "reach init step s \<Longrightarrow> inv s"
  by (induction rule: reach.induct) (auto intro: inv_init inv_step)

lemma steps_inv: "step\<^sup>*\<^sup>* s t \<Longrightarrow> inv s \<Longrightarrow> inv t"
  by (induction rule: rtranclp_induct) (auto intro: inv_step)

end

end
