(* ===== verification/Release_Semver.thy ===== *)
theory Release_Semver
  imports Benes_Prelude "HOL-Library.Product_Lexorder"
begin

text \<open>
  \<^verbatim>\<open>scripts/lib/release/semver.ts\<close>: the version grammar the release tooling reads, SemVer
  precedence, and the two publication channels. The two regular expressions are written out as
  the deterministic scanners they denote: after the three dotted digit groups the only possible
  continuations are \<open>-\<close>, \<open>+\<close> and the end, so no match ever backtracks.

  The lemmas show that the comparison is a total preorder that agrees with the lexicographic
  precedence of SemVer 2.0.0, that a parsed version's text parses back to itself, and which
  versions each channel accepts.
\<close>

section \<open>Data\<close>

datatype dist_tag = TagLatest | TagPreview
datatype release_channel = Stable | Preview

datatype release_error = ReleaseError (error_code: string) (error_message: string)

type_synonym 'a release = "(release_error, 'a) result"

record parsed_release_version =
  pv_text :: string
  pv_major :: nat
  pv_minor :: nat
  pv_patch :: nat
  pv_pre :: "string list option"

record core =
  core_major :: nat
  core_minor :: nat
  core_patch :: nat

record comparison =
  cmp_text :: string
  cmp_core :: core
  cmp_pre :: "string list option"

section \<open>The grammar\<close>

definition is_ident_char :: "char \<Rightarrow> bool" where
  "is_ident_char c \<longleftrightarrow> is_alnum c \<or> c = CHR ''-''"

definition match_digits :: "string \<Rightarrow> (string \<times> string) option" where
  "match_digits s =
     (let d = takeWhile is_digit s in if d = [] then None else Some (d, dropWhile is_digit s))"

definition match_char :: "char \<Rightarrow> string \<Rightarrow> string option" where
  "match_char d s = (case s of [] \<Rightarrow> None | c # t \<Rightarrow> if c = d then Some t else None)"

text \<open>\<open>(?:\+([0-9A-Za-z.-]+))?$\<close>\<close>

definition match_build :: "string \<Rightarrow> bool" where
  "match_build s =
     (case s of
        [] \<Rightarrow> True
      | c # t \<Rightarrow> c = CHR ''+'' \<and> t \<noteq> [] \<and> list_all (\<lambda>x. is_ident_char x \<or> x = CHR ''.'') t)"

text \<open>\<open>(?:-([0-9A-Za-z-]+(?:\.[0-9A-Za-z-]+)*))?\<close> and the rest of the expression\<close>

definition match_suffix :: "string \<Rightarrow> string option option" where
  "match_suffix s =
     (case match_char (CHR ''-'') s of
        None \<Rightarrow> if match_build s then Some None else None
      | Some t \<Rightarrow>
          (let body = takeWhile (\<lambda>x. is_ident_char x \<or> x = CHR ''.'') t;
               rest = dropWhile (\<lambda>x. is_ident_char x \<or> x = CHR ''.'') t
           in if list_all (\<lambda>w. w \<noteq> []) (split_on (CHR ''.'') body) \<and> match_build rest
              then Some (Some body) else None))"

definition release_form :: "string \<Rightarrow> (string \<times> string \<times> string \<times> string option) option" where
  "release_form s =
     Option.bind (match_digits s) (\<lambda>(a, s1).
     Option.bind (match_char (CHR ''.'') s1) (\<lambda>s2.
     Option.bind (match_digits s2) (\<lambda>(b, s3).
     Option.bind (match_char (CHR ''.'') s3) (\<lambda>s4.
     Option.bind (match_digits s4) (\<lambda>(c, s5).
     Option.bind (match_suffix s5) (\<lambda>pre. Some (a, b, c, pre)))))))"

definition all_digits :: "string \<Rightarrow> bool" where
  "all_digits s \<longleftrightarrow> s \<noteq> [] \<and> list_all is_digit s"

definition numeric_identifier :: "string \<Rightarrow> bool" where
  "numeric_identifier s \<longleftrightarrow> all_digits s \<and> (s = ''0'' \<or> hd s \<noteq> CHR ''0'')"

section \<open>Reading versions\<close>

definition numericComponent :: "string \<Rightarrow> string \<Rightarrow> nat release" where
  "numericComponent raw label =
     (if \<not> numeric_identifier raw
      then Inl (ReleaseError ''invalid_version''
        (label @ '' must be a SemVer numeric identifier without leading zeroes (got '' @
         json_quote raw @ '')''))
      else Inr (js_double (read_digits raw)))"

fun check_identifiers :: "string list \<Rightarrow> unit release" where
  "check_identifiers [] = Inr ()"
| "check_identifiers (w # ws) =
     (if all_digits w \<and> \<not> numeric_identifier w
      then Inl (ReleaseError ''invalid_version''
        (''Prerelease identifier '' @ json_quote w @ '' has a leading zero''))
      else check_identifiers ws)"

definition prereleaseIdentifiers :: "string \<Rightarrow> string list release" where
  "prereleaseIdentifiers raw =
     (let ids = split_on (CHR ''.'') raw in bindR (check_identifiers ids) (\<lambda>_. Inr ids))"

definition version_text :: "string \<Rightarrow> string \<Rightarrow> string \<Rightarrow> string option \<Rightarrow> string" where
  "version_text a b c pre =
     a @ ''.'' @ b @ ''.'' @ c @ (case pre of None \<Rightarrow> [] | Some p \<Rightarrow> ''-'' @ p)"

definition readVersion :: "string \<Rightarrow> comparison release" where
  "readVersion input =
     (let text = trim input in
      case release_form text of
        None \<Rightarrow> Inl (ReleaseError ''invalid_version'' (''Unsupported release version: '' @ text))
      | Some (a, b, c, pretext) \<Rightarrow>
          bindR (numericComponent a ''major'') (\<lambda>major.
          bindR (numericComponent b ''minor'') (\<lambda>minor.
          bindR (numericComponent c ''patch'') (\<lambda>patch.
          bindR (case pretext of
                   None \<Rightarrow> Inr None
                 | Some p \<Rightarrow> bindR (prereleaseIdentifiers p) (\<lambda>ids. Inr (Some ids))) (\<lambda>pre.
          Inr \<lparr>cmp_text = version_text a b c pretext,
               cmp_core = \<lparr>core_major = major, core_minor = minor, core_patch = patch\<rparr>,
               cmp_pre = pre\<rparr>)))))"

definition parseSemver :: "string \<Rightarrow> parsed_release_version release" where
  "parseSemver text =
     bindR (readVersion text) (\<lambda>v.
       Inr \<lparr>pv_text = cmp_text v, pv_major = core_major (cmp_core v),
            pv_minor = core_minor (cmp_core v), pv_patch = core_patch (cmp_core v),
            pv_pre = cmp_pre v\<rparr>)"

definition parsePublishVersion :: "string \<Rightarrow> parsed_release_version release" where
  "parsePublishVersion text =
     (let trimmed = trim text in
      if CHR ''+'' \<in> set trimmed
      then Inl (ReleaseError ''invalid_version''
        (''Benes releases cannot include build metadata (got '' @ trimmed @ '')''))
      else parseSemver trimmed)"

section \<open>Precedence\<close>

definition rankIdentifier :: "string \<Rightarrow> string \<Rightarrow> int" where
  "rankIdentifier left right =
     (let leftIsNumeric = all_digits left; rightIsNumeric = all_digits right;
          delta = int (js_double (read_digits left)) - int (js_double (read_digits right))
      in if leftIsNumeric \<and> rightIsNumeric \<and> delta \<noteq> 0 then delta
         else if leftIsNumeric \<and> \<not> rightIsNumeric then -1
         else if \<not> leftIsNumeric \<and> rightIsNumeric then 1
         else if left = right then 0
         else if left < right then -1 else 1)"

fun rankPrerelease :: "string list \<Rightarrow> string list \<Rightarrow> int" where
  "rankPrerelease [] [] = 0"
| "rankPrerelease [] (_ # _) = -1"
| "rankPrerelease (_ # _) [] = 1"
| "rankPrerelease (l # ls) (r # rs) =
     (let verdict = rankIdentifier l r in if verdict \<noteq> 0 then verdict else rankPrerelease ls rs)"

definition compareComparisons :: "comparison \<Rightarrow> comparison \<Rightarrow> int" where
  "compareComparisons a b =
     (let dmaj = int (core_major (cmp_core a)) - int (core_major (cmp_core b));
          dmin = int (core_minor (cmp_core a)) - int (core_minor (cmp_core b));
          dpat = int (core_patch (cmp_core a)) - int (core_patch (cmp_core b));
          core = (if dmaj \<noteq> 0 then dmaj else if dmin \<noteq> 0 then dmin else dpat)
      in if core \<noteq> 0 then core
         else (case (cmp_pre a, cmp_pre b) of
                 (None, None) \<Rightarrow> 0
               | (None, Some _) \<Rightarrow> 1
               | (Some _, None) \<Rightarrow> -1
               | (Some p, Some q) \<Rightarrow> rankPrerelease p q))"

definition compareReleaseVersions :: "string \<Rightarrow> string \<Rightarrow> int release" where
  "compareReleaseVersions left right =
     bindR (readVersion left) (\<lambda>a. bindR (readVersion right) (\<lambda>b. Inr (compareComparisons a b)))"

section \<open>Channels\<close>

definition releaseChannel :: "string \<Rightarrow> release_channel release" where
  "releaseChannel text =
     bindR (parsePublishVersion text) (\<lambda>v.
       case pv_pre v of
         None \<Rightarrow> Inr Stable
       | Some ids \<Rightarrow>
           if ids \<noteq> [] \<and> hd ids = ''preview'' \<and> length ids \<ge> 2 then Inr Preview
           else Inl (ReleaseError ''invalid_channel''
             (''Version '' @ text @ '' is not a stable X.Y.Z or X.Y.Z-preview.<id> release'')))"

definition distTagForChannel :: "release_channel \<Rightarrow> dist_tag" where
  "distTagForChannel channel = (if channel = Preview then TagPreview else TagLatest)"

definition gitTagForVersion :: "string \<Rightarrow> string release" where
  "gitTagForVersion text = bindR (parsePublishVersion text) (\<lambda>v. Inr (''v'' @ pv_text v))"

definition assertVersionForChannel :: "string \<Rightarrow> release_channel \<Rightarrow> unit release" where
  "assertVersionForChannel text channel =
     bindR (releaseChannel text) (\<lambda>actual.
       if actual = channel then Inr ()
       else Inl (ReleaseError ''channel_mismatch''
         (if channel = Stable
          then ''Stable releases must use X.Y.Z (got '' @ text @ '')''
          else ''Preview releases must use X.Y.Z-preview.<id> (got '' @ text @ '')'')))"

section \<open>Precedence as a lexicographic order\<close>

text \<open>
  The specification of precedence (SemVer 2.0.0, section 11): a numeric identifier ranks below an
  alphanumeric one, identifier lists compare left to right with the shorter list first, and a
  version without a prerelease ranks above every prerelease of the same core.
\<close>

definition ident_key :: "string \<Rightarrow> nat \<times> nat \<times> string" where
  "ident_key s = (if all_digits s then (0, js_double (read_digits s), s) else (1, 0, s))"

definition precedence_key :: "comparison \<Rightarrow> nat \<times> nat \<times> nat \<times> nat \<times> (nat \<times> nat \<times> string) list" where
  "precedence_key v =
     (core_major (cmp_core v), core_minor (cmp_core v), core_patch (cmp_core v),
      (case cmp_pre v of None \<Rightarrow> (1, []) | Some p \<Rightarrow> (0, map ident_key p)))"

lemma rankIdentifier_zero [simp]: "rankIdentifier l r = 0 \<longleftrightarrow> l = r"
  by (auto simp: rankIdentifier_def Let_def)

lemma ident_key_inj [simp]: "ident_key l = ident_key r \<longleftrightarrow> l = r"
  by (auto simp: ident_key_def)

lemma rankIdentifier_neg: "rankIdentifier l r < 0 \<longleftrightarrow> ident_key l < ident_key r"
  by (auto simp: rankIdentifier_def ident_key_def Let_def)

lemma rankIdentifier_antisym: "rankIdentifier r l = - rankIdentifier l r"
  by (auto simp: rankIdentifier_def Let_def)

lemma rankPrerelease_zero [simp]: "rankPrerelease l r = 0 \<longleftrightarrow> l = r"
  by (induction l r rule: rankPrerelease.induct) (auto simp: Let_def)

lemma rankPrerelease_neg: "rankPrerelease l r < 0 \<longleftrightarrow> map ident_key l < map ident_key r"
  by (induction l r rule: rankPrerelease.induct) (auto simp: Let_def rankIdentifier_neg)

lemma rankPrerelease_antisym: "rankPrerelease r l = - rankPrerelease l r"
proof (induction l r rule: rankPrerelease.induct)
  case (4 l ls r rs)
  show ?case
    using 4 rankIdentifier_antisym [of r l] by (auto simp: Let_def)
qed simp_all

lemma map_ident_key_inj [simp]: "map ident_key p = map ident_key q \<longleftrightarrow> p = q"
  by (auto intro: map_injective simp: inj_def)

lemma compareComparisons_antisym: "compareComparisons b a = - compareComparisons a b"
proof (cases "cmp_pre a"; cases "cmp_pre b")
  fix p q assume "cmp_pre a = Some p" "cmp_pre b = Some q"
  then show ?thesis
    using rankPrerelease_antisym [of q p] by (simp add: compareComparisons_def Let_def)
qed (simp_all add: compareComparisons_def Let_def)

lemma compareComparisons_neg:
  "compareComparisons a b < 0 \<longleftrightarrow> precedence_key a < precedence_key b"
  by (auto simp: compareComparisons_def precedence_key_def Let_def rankPrerelease_neg
      split: option.split)

lemma compareComparisons_zero:
  "compareComparisons a b = 0 \<longleftrightarrow> precedence_key a = precedence_key b"
  by (auto simp: compareComparisons_def precedence_key_def Let_def split: option.split)

lemma compareComparisons_le:
  "compareComparisons a b \<le> 0 \<longleftrightarrow> precedence_key a \<le> precedence_key b"
  unfolding le_less compareComparisons_neg compareComparisons_zero ..

interpretation version_order: comparator compareComparisons "\<lambda>_. True"
  by unfold_locales (auto simp: compareComparisons_le)

section \<open>What the grammar accepts\<close>

definition valid_pre :: "string \<Rightarrow> bool" where
  "valid_pre p \<longleftrightarrow> list_all (\<lambda>w. w \<noteq> [] \<and> list_all is_ident_char w) (split_on (CHR ''.'') p)"

lemma ident_char_not_special:
  "is_ident_char c \<Longrightarrow> c \<noteq> CHR ''+'' \<and> c \<noteq> CHR ''.'' \<and> \<not> is_blank c"
  by (auto simp: is_ident_char_def is_blank_def blanks_def less_eq_char_def)

lemma digit_not_special:
  "is_digit c \<Longrightarrow> c \<noteq> CHR ''+'' \<and> c \<noteq> CHR ''.'' \<and> c \<noteq> CHR ''-'' \<and> \<not> is_blank c"
  by (auto simp: is_blank_def blanks_def less_eq_char_def)

lemma set_split_on_Un: "set s \<subseteq> insert d (\<Union> (set ` set (split_on d s)))"
proof (induction s)
  case (Cons c s)
  then show ?case by (cases "split_on d s") auto
qed simp

lemma valid_pre_chars: "valid_pre p \<Longrightarrow> c \<in> set p \<Longrightarrow> is_ident_char c \<or> c = CHR ''.''"
  using set_split_on_Un [of p "CHR ''.''"] by (fastforce simp: valid_pre_def list_all_iff)

lemma valid_pre_iff:
  "valid_pre p \<longleftrightarrow> list_all (\<lambda>x. is_ident_char x \<or> x = CHR ''.'') p
     \<and> list_all (\<lambda>w. w \<noteq> []) (split_on (CHR ''.'') p)"
proof
  assume "valid_pre p"
  then show "list_all (\<lambda>x. is_ident_char x \<or> x = CHR ''.'') p
     \<and> list_all (\<lambda>w. w \<noteq> []) (split_on (CHR ''.'') p)"
    using valid_pre_chars by (auto simp: list_all_iff valid_pre_def)
next
  assume r: "list_all (\<lambda>x. is_ident_char x \<or> x = CHR ''.'') p
     \<and> list_all (\<lambda>w. w \<noteq> []) (split_on (CHR ''.'') p)"
  show "valid_pre p"
    unfolding valid_pre_def list_all_iff
    using r set_split_on [of _ "CHR ''.''" p] by (fastforce simp: list_all_iff)
qed

lemma match_digits_Some:
  "match_digits s = Some (d, r) \<longleftrightarrow> s = d @ r \<and> all_digits d \<and> (r = [] \<or> \<not> is_digit (hd r))"
proof
  assume "match_digits s = Some (d, r)"
  then have "d = takeWhile is_digit s" "r = dropWhile is_digit s" "d \<noteq> []"
    by (auto simp: match_digits_def Let_def split: if_splits)
  then show "s = d @ r \<and> all_digits d \<and> (r = [] \<or> \<not> is_digit (hd r))"
    using hd_dropWhile_blank [of is_digit s]
    by (auto simp: all_digits_def list_all_iff dest: set_takeWhileD)
next
  assume "s = d @ r \<and> all_digits d \<and> (r = [] \<or> \<not> is_digit (hd r))"
  then show "match_digits s = Some (d, r)"
    by (cases r)
      (auto simp: match_digits_def all_digits_def list_all_iff Let_def takeWhile_append2
        dropWhile_append2 takeWhile_eq_all_conv [THEN iffD2] dropWhile_eq_Nil_conv [THEN iffD2])
qed

lemma match_char_Some [simp]: "match_char d s = Some t \<longleftrightarrow> s = d # t"
  by (auto simp: match_char_def split: list.splits)

lemma match_char_None [simp]: "match_char d s = None \<longleftrightarrow> s = [] \<or> hd s \<noteq> d"
  by (auto simp: match_char_def split: list.splits)

lemma match_build_hd: "match_build s \<Longrightarrow> s = [] \<or> (\<exists>t. s = CHR ''+'' # t)"
  by (auto simp: match_build_def split: list.splits)

lemma match_suffix_None:
  "match_suffix s = Some None \<longleftrightarrow> match_build s"
  using match_build_hd [of s]
  by (auto simp: match_suffix_def Let_def split: option.splits if_splits)

lemma match_suffix_Some:
  "match_suffix s = Some (Some p) \<longleftrightarrow> (\<exists>b. s = CHR ''-'' # p @ b \<and> valid_pre p \<and> match_build b)"
proof -
  let ?P = "\<lambda>x. is_ident_char x \<or> x = CHR ''.''"
  have tw: "takeWhile ?P (p @ b) = p \<and> dropWhile ?P (p @ b) = b"
    if "valid_pre p" "match_build b" for b
  proof -
    from that(1) have "\<And>c. c \<in> set p \<Longrightarrow> ?P c" using valid_pre_chars by blast
    moreover from match_build_hd [OF that(2)] have "takeWhile ?P b = [] \<and> dropWhile ?P b = b"
      by (auto simp: is_ident_char_def less_eq_char_def)
    ultimately show ?thesis by (simp add: takeWhile_append2 dropWhile_append2)
  qed
  show ?thesis
  proof
    assume "match_suffix s = Some (Some p)"
    then obtain t where "s = CHR ''-'' # t" "p = takeWhile ?P t"
        "list_all (\<lambda>w. w \<noteq> []) (split_on (CHR ''.'') p)" "match_build (dropWhile ?P t)"
      by (auto simp: match_suffix_def Let_def split: option.splits if_splits)
    then show "\<exists>b. s = CHR ''-'' # p @ b \<and> valid_pre p \<and> match_build b"
      by (auto simp: valid_pre_iff list_all_iff dest: set_takeWhileD
          intro!: exI [of _ "dropWhile ?P t"])
  next
    assume "\<exists>b. s = CHR ''-'' # p @ b \<and> valid_pre p \<and> match_build b"
    then obtain b where "s = CHR ''-'' # p @ b" "valid_pre p" "match_build b" by blast
    then show "match_suffix s = Some (Some p)"
      using tw [of b] by (simp add: match_suffix_def match_char_def Let_def valid_pre_iff)
  qed
qed

lemma release_form_iff:
  "release_form s = Some (a, b, c, pre) \<longleftrightarrow>
     all_digits a \<and> all_digits b \<and> all_digits c \<and> pred_option valid_pre pre
     \<and> (\<exists>build. s = version_text a b c pre @ build \<and> match_build build)"
proof -
  have sfx: "match_suffix t = Some pre \<longleftrightarrow> pred_option valid_pre pre
      \<and> (\<exists>build. t = (case pre of None \<Rightarrow> [] | Some p \<Rightarrow> ''-'' @ p) @ build \<and> match_build build)" for t
    by (cases pre) (auto simp: match_suffix_None match_suffix_Some)
  have nd: "t = [] \<or> \<not> is_digit (hd t)"
    if "t = (case pre of None \<Rightarrow> [] | Some p \<Rightarrow> ''-'' @ p) @ build" "match_build build" for t build
    using that match_build_hd [of build] by (cases pre) (auto simp: less_eq_char_def)
  have dot: "\<not> is_digit (CHR ''.'')" by (simp add: less_eq_char_def)
  show ?thesis
  proof
    assume "release_form s = Some (a, b, c, pre)"
    then show "all_digits a \<and> all_digits b \<and> all_digits c \<and> pred_option valid_pre pre
       \<and> (\<exists>build. s = version_text a b c pre @ build \<and> match_build build)"
      unfolding release_form_def version_text_def
      by (auto simp: bind_eq_Some_conv match_digits_Some sfx)
  next
    assume "all_digits a \<and> all_digits b \<and> all_digits c \<and> pred_option valid_pre pre
       \<and> (\<exists>build. s = version_text a b c pre @ build \<and> match_build build)"
    then obtain build where d: "all_digits a" "all_digits b" "all_digits c"
      and pre: "pred_option valid_pre pre" "match_build build"
      and s: "s = version_text a b c pre @ build" by blast
    define t where "t = (case pre of None \<Rightarrow> [] | Some p \<Rightarrow> ''-'' @ p) @ build"
    have m3: "match_digits (c @ t) = Some (c, t)"
      using d nd [OF t_def pre(2)] by (simp add: match_digits_Some)
    have m2: "match_digits (b @ CHR ''.'' # x) = Some (b, CHR ''.'' # x)"
      and m1: "match_digits (a @ CHR ''.'' # x) = Some (a, CHR ''.'' # x)" for x
      using d dot by (simp_all add: match_digits_Some)
    have mc: "match_char (CHR ''.'') (CHR ''.'' # x) = Some x" for x by simp
    have mt: "match_suffix t = Some pre" using sfx pre t_def by auto
    have "s = a @ CHR ''.'' # b @ CHR ''.'' # c @ t" using s by (simp add: version_text_def t_def)
    then show "release_form s = Some (a, b, c, pre)"
      by (simp add: release_form_def m1 m2 m3 mc mt del: match_char_Some)
  qed
qed

section \<open>Parsed versions\<close>

lemma check_identifiers_Inr [simp]:
  "check_identifiers ws = Inr u \<longleftrightarrow> (\<forall>w \<in> set ws. all_digits w \<longrightarrow> numeric_identifier w)"
  by (induction ws) auto

lemma numericComponent_Inr [simp]:
  "numericComponent raw label = Inr n \<longleftrightarrow> numeric_identifier raw \<and> n = js_double (read_digits raw)"
  by (auto simp: numericComponent_def)

definition sound_ident :: "string \<Rightarrow> bool" where
  "sound_ident w \<longleftrightarrow> w \<noteq> [] \<and> list_all is_ident_char w \<and> (all_digits w \<longrightarrow> numeric_identifier w)"

definition sound_pre :: "string list \<Rightarrow> bool" where
  "sound_pre ids \<longleftrightarrow> ids \<noteq> [] \<and> list_all sound_ident ids"

definition version_of :: "string \<Rightarrow> string \<Rightarrow> string \<Rightarrow> string list option \<Rightarrow> comparison" where
  "version_of a b c ids =
     \<lparr>cmp_text = version_text a b c (map_option (join_with ''.'') ids),
      cmp_core = \<lparr>core_major = js_double (read_digits a), core_minor = js_double (read_digits b),
                  core_patch = js_double (read_digits c)\<rparr>,
      cmp_pre = ids\<rparr>"

lemma sound_ident_no_dot: "sound_ident w \<Longrightarrow> CHR ''.'' \<notin> set w"
  by (auto simp: sound_ident_def list_all_iff dest!: ident_char_not_special)

lemma numeric_identifier_digits: "numeric_identifier a \<Longrightarrow> all_digits a"
  by (simp add: numeric_identifier_def)

lemma valid_pre_join: "sound_pre ids \<Longrightarrow> valid_pre (join_with ''.'' ids)"
  by (simp add: valid_pre_def sound_pre_def split_join list_all_iff sound_ident_no_dot)
    (auto simp: sound_ident_def list_all_iff)

lemma split_join_pre: "sound_pre ids \<Longrightarrow> split_on (CHR ''.'') (join_with ''.'' ids) = ids"
  by (simp add: sound_pre_def split_join list_all_iff sound_ident_no_dot)

text \<open>The reader accepts exactly the SemVer versions, with or without build metadata.\<close>

lemma readVersion_iff:
  "readVersion s = Inr v \<longleftrightarrow>
     (\<exists>a b c ids build. trim s = cmp_text v @ build \<and> match_build build \<and> v = version_of a b c ids
        \<and> numeric_identifier a \<and> numeric_identifier b \<and> numeric_identifier c
        \<and> pred_option sound_pre ids)"
proof
  assume "readVersion s = Inr v"
  then obtain a b c p where f: "release_form (trim s) = Some (a, b, c, p)"
    and num: "numeric_identifier a" "numeric_identifier b" "numeric_identifier c"
    and p: "pred_option (\<lambda>p. \<forall>w \<in> set (split_on (CHR ''.'') p). all_digits w \<longrightarrow> numeric_identifier w) p"
    and v: "v = version_of a b c (map_option (split_on (CHR ''.'')) p)"
    by (auto simp: readVersion_def Let_def bindR_eq_Inr prereleaseIdentifiers_def version_of_def
        join_split split: option.splits)
  let ?ids = "map_option (split_on (CHR ''.'')) p"
  from f p have "pred_option sound_pre ?ids"
    by (cases p) (auto simp: release_form_iff sound_pre_def sound_ident_def valid_pre_def list_all_iff)
  moreover from f v obtain build where "trim s = cmp_text v @ build" "match_build build"
    by (cases p) (auto simp: release_form_iff version_of_def join_split)
  ultimately show "\<exists>a b c ids build. trim s = cmp_text v @ build \<and> match_build build \<and> v = version_of a b c ids
        \<and> numeric_identifier a \<and> numeric_identifier b \<and> numeric_identifier c
        \<and> pred_option sound_pre ids"
    using num v by blast
next
  assume "\<exists>a b c ids build. trim s = cmp_text v @ build \<and> match_build build \<and> v = version_of a b c ids
        \<and> numeric_identifier a \<and> numeric_identifier b \<and> numeric_identifier c
        \<and> pred_option sound_pre ids"
  then obtain a b c ids build where t: "trim s = cmp_text v @ build" "match_build build"
    and v: "v = version_of a b c ids" and num: "numeric_identifier a" "numeric_identifier b" "numeric_identifier c"
    and ids: "pred_option sound_pre ids" by blast
  have "release_form (trim s) = Some (a, b, c, map_option (join_with ''.'') ids)"
    using t v num ids
    by (cases ids) (auto simp: release_form_iff version_of_def numeric_identifier_digits valid_pre_join)
  then show "readVersion s = Inr v"
    using num ids v
    by (cases ids)
      (auto simp: readVersion_def bindR_eq_Inr prereleaseIdentifiers_def version_of_def split_join_pre
        sound_pre_def sound_ident_def list_all_iff)
qed

lemma version_text_chars:
  assumes "numeric_identifier a" "numeric_identifier b" "numeric_identifier c"
    and "pred_option sound_pre ids" and "x \<in> set (cmp_text (version_of a b c ids))"
  shows "is_ident_char x \<or> x = CHR ''.''"
proof (cases ids)
  case None
  with assms show ?thesis
    by (auto simp: version_of_def version_text_def numeric_identifier_def all_digits_def list_all_iff
        is_ident_char_def)
next
  case (Some p)
  with assms valid_pre_join [of p] valid_pre_chars [of "join_with ''.'' p" x] show ?thesis
    by (auto simp: version_of_def version_text_def numeric_identifier_def all_digits_def list_all_iff
        is_ident_char_def)
qed

lemma trim_version_text:
  assumes "readVersion s = Inr v"
  shows "trim (cmp_text v) = cmp_text v" and "CHR ''+'' \<notin> set (cmp_text v)"
proof -
  from assms obtain a b c ids where v: "v = version_of a b c ids"
    and n: "numeric_identifier a" "numeric_identifier b" "numeric_identifier c" "pred_option sound_pre ids"
    by (auto simp: readVersion_iff)
  have ch: "is_ident_char x \<or> x = CHR ''.''" if "x \<in> set (cmp_text v)" for x
    using version_text_chars [OF n] that v by blast
  have "\<not> is_blank x \<and> x \<noteq> CHR ''+''" if "x \<in> set (cmp_text v)" for x
    using ch [OF that] ident_char_not_special [of x] by (auto simp: is_blank_def blanks_def)
  then show "trim (cmp_text v) = cmp_text v" and "CHR ''+'' \<notin> set (cmp_text v)"
    using trim_no_blank by blast+
qed

lemma readVersion_text: "readVersion s = Inr v \<Longrightarrow> readVersion (cmp_text v) = Inr v"
proof -
  assume r: "readVersion s = Inr v"
  then obtain a b c ids where n: "v = version_of a b c ids" "numeric_identifier a"
      "numeric_identifier b" "numeric_identifier c" "pred_option sound_pre ids"
    by (auto simp: readVersion_iff)
  have "trim (cmp_text v) = cmp_text v @ []" using trim_version_text [OF r] by simp
  moreover have "match_build []" by (simp add: match_build_def)
  ultimately show ?thesis unfolding readVersion_iff using n by blast
qed

lemma show_numeric_identifier: "numeric_identifier a \<Longrightarrow> show_nat (read_digits a) = a"
  unfolding numeric_identifier_def all_digits_def
  by (elim conjE, rule conjunct1 [OF show_read_digits], assumption+)

lemma numeric_identifier_inj:
  "numeric_identifier a \<Longrightarrow> numeric_identifier b \<Longrightarrow> read_digits a = read_digits b \<Longrightarrow> a = b"
  by (metis show_numeric_identifier)

lemma version_of_exact:
  assumes "precedence_key (version_of a b c ids) = precedence_key (version_of a' b' c' ids')"
    and "numeric_identifier a" "numeric_identifier b" "numeric_identifier c"
    and "numeric_identifier a'" "numeric_identifier b'" "numeric_identifier c'"
    and "core_major (cmp_core (version_of a b c ids)) < 2 ^ 53"
    and "core_minor (cmp_core (version_of a b c ids)) < 2 ^ 53"
    and "core_patch (cmp_core (version_of a b c ids)) < 2 ^ 53"
  shows "version_of a b c ids = version_of a' b' c' ids'"
proof -
  have eqs: "js_double (read_digits a) = js_double (read_digits a')"
      "js_double (read_digits b) = js_double (read_digits b')"
      "js_double (read_digits c) = js_double (read_digits c')" and "ids = ids'"
    using assms(1)
    by (auto simp: precedence_key_def version_of_def split: option.splits)
  have "js_double (read_digits a) < 2 ^ 53" "js_double (read_digits b) < 2 ^ 53"
      "js_double (read_digits c) < 2 ^ 53"
    using assms(8-10) unfolding version_of_def by simp_all
  with eqs have "read_digits a = read_digits a'" "read_digits b = read_digits b'"
      "read_digits c = read_digits c'"
    by (blast intro: js_double_inj)+
  with assms(2-7) have "a = a'" "b = b'" "c = c'" by (auto intro: numeric_identifier_inj)
  with \<open>ids = ids'\<close> show ?thesis by simp
qed

lemma parsePublishVersion_readVersion:
  "parsePublishVersion s = Inr v \<Longrightarrow> \<exists>w. readVersion s = Inr w \<and> trim s = cmp_text w \<and>
     v = \<lparr>pv_text = cmp_text w, pv_major = core_major (cmp_core w), pv_minor = core_minor (cmp_core w),
          pv_patch = core_patch (cmp_core w), pv_pre = cmp_pre w\<rparr>"
proof -
  assume "parsePublishVersion s = Inr v"
  then obtain w where w: "readVersion (trim s) = Inr w" and np: "CHR ''+'' \<notin> set (trim s)"
    and v: "v = \<lparr>pv_text = cmp_text w, pv_major = core_major (cmp_core w), pv_minor = core_minor (cmp_core w),
          pv_patch = core_patch (cmp_core w), pv_pre = cmp_pre w\<rparr>"
    by (auto simp: parsePublishVersion_def parseSemver_def Let_def bindR_eq_Inr split: if_splits)
  have "readVersion (trim s) = readVersion s" by (simp add: readVersion_def)
  moreover obtain build where "trim s = cmp_text w @ build" "match_build build"
    using w by (auto simp: readVersion_iff)
  with np have "trim s = cmp_text w" using match_build_hd [of build] by auto
  ultimately show ?thesis using w v by auto
qed

lemma parsePublishVersion_text:
  "readVersion s = Inr w \<Longrightarrow> parsePublishVersion (cmp_text w) =
     Inr \<lparr>pv_text = cmp_text w, pv_major = core_major (cmp_core w), pv_minor = core_minor (cmp_core w),
          pv_patch = core_patch (cmp_core w), pv_pre = cmp_pre w\<rparr>"
  using trim_version_text [of s w] readVersion_text [of s w]
  by (simp add: parsePublishVersion_def parseSemver_def)

lemma parsePublishVersion_trim: "parsePublishVersion (trim s) = parsePublishVersion s"
  by (simp add: parsePublishVersion_def)

lemma releaseChannel_cases:
  assumes "releaseChannel s = Inr ch"
  obtains v where "parsePublishVersion s = Inr v"
    "case pv_pre v of None \<Rightarrow> ch = Stable
      | Some ids \<Rightarrow> ch = Preview \<and> ids \<noteq> [] \<and> hd ids = ''preview'' \<and> length ids \<ge> 2"
proof -
  from assms obtain v where v: "parsePublishVersion s = Inr v"
    and c: "(case pv_pre v of None \<Rightarrow> Inr Stable
       | Some ids \<Rightarrow>
           if ids \<noteq> [] \<and> hd ids = ''preview'' \<and> length ids \<ge> 2 then Inr Preview
           else Inl (ReleaseError ''invalid_channel''
             (''Version '' @ s @ '' is not a stable X.Y.Z or X.Y.Z-preview.<id> release''))) = Inr ch"
    unfolding releaseChannel_def bindR_eq_Inr by blast
  from c show ?thesis
    by (intro that [OF v]) (cases "pv_pre v", auto split: if_splits)
qed

section \<open>Properties\<close>

text \<open>On versions the reader accepts, the release comparison is a total preorder whose sign
  flips when its arguments are swapped, so sorting tags and comparing dist-tag tips with it is
  well defined.\<close>

theorem compare_total_preorder:
  assumes "readVersion a = Inr va" and "readVersion b = Inr vb" and "readVersion c = Inr vc"
  shows "\<exists>x y z. compareReleaseVersions a b = Inr x \<and> compareReleaseVersions b a = Inr (- x)
     \<and> compareReleaseVersions b c = Inr y \<and> compareReleaseVersions a c = Inr z
     \<and> (x \<le> 0 \<and> y \<le> 0 \<longrightarrow> z \<le> 0) \<and> (x < 0 \<and> y \<le> 0 \<longrightarrow> z < 0)"
  using assms compareComparisons_antisym [of vb va]
  by (auto simp: compareReleaseVersions_def compareComparisons_le compareComparisons_neg)

theorem compare_total_preorder_witness:
  "\<exists>x y z. compareReleaseVersions ''1.2.3-preview.2'' ''1.2.3-preview.10'' = Inr x
     \<and> compareReleaseVersions ''1.2.3-preview.10'' ''1.2.3-preview.2'' = Inr (- x)
     \<and> compareReleaseVersions ''1.2.3-preview.10'' ''1.2.3'' = Inr y
     \<and> compareReleaseVersions ''1.2.3-preview.2'' ''1.2.3'' = Inr z
     \<and> (x \<le> 0 \<and> y \<le> 0 \<longrightarrow> z \<le> 0) \<and> (x < 0 \<and> y \<le> 0 \<longrightarrow> z < 0)"
proof -
  have "readVersion ''1.2.3-preview.2'' = Inr (version_of ''1'' ''2'' ''3'' (Some [''preview'', ''2'']))"
    by code_simp
  moreover have "readVersion ''1.2.3-preview.10'' = Inr (version_of ''1'' ''2'' ''3'' (Some [''preview'', ''10'']))"
    by code_simp
  moreover have "readVersion ''1.2.3'' = Inr (version_of ''1'' ''2'' ''3'' None)"
    by code_simp
  ultimately show ?thesis by (rule compare_total_preorder)
qed

text \<open>Two versions that compare equal have the same normalized text, so build metadata is the
  only thing the comparison ignores, as long as the numeric components are below \<open>2 ^ 53\<close>, where
  JavaScript numbers are exact.\<close>

theorem compare_equal_text:
  assumes "parseSemver a = Inr va" and "parseSemver b = Inr vb"
    and "compareReleaseVersions a b = Inr 0"
    and "pv_major va < 2 ^ 53" and "pv_minor va < 2 ^ 53" and "pv_patch va < 2 ^ 53"
  shows "pv_text va = pv_text vb"
proof -
  obtain wa wb where ra: "readVersion a = Inr wa" and rb: "readVersion b = Inr wb"
    and va: "pv_text va = cmp_text wa" "pv_major va = core_major (cmp_core wa)"
      "pv_minor va = core_minor (cmp_core wa)" "pv_patch va = core_patch (cmp_core wa)"
    and vb: "pv_text vb = cmp_text wb"
    using assms(1,2) by (auto simp: parseSemver_def bindR_eq_Inr)
  from assms(3) ra rb have "precedence_key wa = precedence_key wb"
    by (simp add: compareReleaseVersions_def compareComparisons_zero)
  obtain a1 b1 c1 i1 a2 b2 c2 i2 where w: "wa = version_of a1 b1 c1 i1" "wb = version_of a2 b2 c2 i2"
    and n: "numeric_identifier a1" "numeric_identifier b1" "numeric_identifier c1"
      "numeric_identifier a2" "numeric_identifier b2" "numeric_identifier c2"
    using ra rb unfolding readVersion_iff by blast
  have "wa = wb"
    unfolding w
    by (rule version_of_exact)
      (use n assms(4-6) va(2-4) \<open>precedence_key wa = precedence_key wb\<close> w in simp_all)
  then show ?thesis using va vb by simp
qed

theorem compare_equal_text_witness:
  "compareReleaseVersions ''1.4.0+a'' ''1.4.0+b'' = Inr 0 \<and>
   map_sum id pv_text (parseSemver ''1.4.0+a'') = map_sum id pv_text (parseSemver ''1.4.0+b'')"
proof -
  let ?v = "\<lparr>pv_text = ''1.4.0'', pv_major = 1, pv_minor = 4, pv_patch = 0, pv_pre = None\<rparr>"
  have a: "parseSemver ''1.4.0+a'' = Inr ?v" by code_simp
  have b: "parseSemver ''1.4.0+b'' = Inr ?v" by code_simp
  have c: "compareReleaseVersions ''1.4.0+a'' ''1.4.0+b'' = Inr 0" by code_simp
  have "pv_text ?v = pv_text ?v" by (rule compare_equal_text [OF a b c]) simp_all
  then show ?thesis using a b c by simp
qed

text \<open>Publication identity is normalized. A version accepted for publication is its own
  trimmed text, and parsing that text again gives the same value.\<close>

theorem publish_version_roundtrip:
  assumes "parsePublishVersion s = Inr v"
  shows "pv_text v = trim s \<and> parsePublishVersion (pv_text v) = Inr v"
  using parsePublishVersion_readVersion [OF assms] parsePublishVersion_text by auto

theorem publish_version_roundtrip_witness:
  "map_sum id pv_text (parsePublishVersion '' 0.1.0-preview.7 '') = Inr ''0.1.0-preview.7''"
proof -
  let ?v = "\<lparr>pv_text = ''0.1.0-preview.7'', pv_major = 0, pv_minor = 1, pv_patch = 0,
      pv_pre = Some [''preview'', ''7'']\<rparr>"
  have p: "parsePublishVersion '' 0.1.0-preview.7 '' = Inr ?v" by code_simp
  from publish_version_roundtrip [OF p] have "pv_text ?v = trim '' 0.1.0-preview.7 ''" by blast
  with p show ?thesis by simp
qed

definition channel_text :: "release_channel \<Rightarrow> string \<Rightarrow> bool" where
  "channel_text ch s \<longleftrightarrow>
     (\<exists>a b c. numeric_identifier a \<and> numeric_identifier b \<and> numeric_identifier c \<and>
        (case ch of
           Stable \<Rightarrow> trim s = version_text a b c None
         | Preview \<Rightarrow> \<exists>ids. sound_pre ids
             \<and> trim s = version_text a b c (Some (join_with ''.'' (''preview'' # ids)))))"

lemma releaseChannel_text:
  assumes "releaseChannel s = Inr ch"
  shows "channel_text ch s"
proof -
  from assms obtain v where v: "parsePublishVersion s = Inr v"
    and ch: "case pv_pre v of None \<Rightarrow> ch = Stable
      | Some ids \<Rightarrow> ch = Preview \<and> ids \<noteq> [] \<and> hd ids = ''preview'' \<and> length ids \<ge> 2"
    using releaseChannel_cases by blast
  from parsePublishVersion_readVersion [OF v] obtain w where w: "readVersion s = Inr w"
    and t: "trim s = cmp_text w" and pre: "pv_pre v = cmp_pre w" by auto
  from w obtain a b c ids where n: "w = version_of a b c ids" "numeric_identifier a"
      "numeric_identifier b" "numeric_identifier c" "pred_option sound_pre ids"
    by (auto simp: readVersion_iff)
  show ?thesis
  proof (cases ids)
    case None
    with n t ch pre show ?thesis by (auto simp: version_of_def channel_text_def)
  next
    case (Some js)
    with n ch pre have c: "ch = Preview" "js \<noteq> []" "hd js = ''preview''" "length js \<ge> 2"
      by (simp_all add: version_of_def)
    then have "js = ''preview'' # tl js" by (metis list.collapse)
    moreover have "sound_pre (tl js)"
      using c n Some by (cases js) (auto simp: sound_pre_def)
    moreover have "trim s = version_text a b c (Some (join_with ''.'' js))"
      using n t Some by (simp add: version_of_def)
    ultimately have "sound_pre (tl js)
        \<and> trim s = version_text a b c (Some (join_with ''.'' (''preview'' # tl js)))" by simp
    then show ?thesis using n(2-4) c(1) unfolding channel_text_def by (simp only: release_channel.case) blast
  qed
qed

lemma channel_text_reads:
  assumes "channel_text ch s"
  shows "releaseChannel s = Inr ch"
proof -
  from assms [unfolded channel_text_def] obtain a b c where num: "numeric_identifier a" "numeric_identifier b" "numeric_identifier c"
    and ch: "case ch of Stable \<Rightarrow> trim s = version_text a b c None
         | Preview \<Rightarrow> \<exists>ids. sound_pre ids
             \<and> trim s = version_text a b c (Some (join_with ''.'' (''preview'' # ids)))" by blast
  obtain ids where t: "trim s = cmp_text (version_of a b c ids)"
    and ok: "pred_option sound_pre ids"
    and ids: "case ch of Stable \<Rightarrow> ids = None | Preview \<Rightarrow> \<exists>js. ids = Some (''preview'' # js) \<and> js \<noteq> []"
  proof (cases ch)
    case Stable
    with ch show ?thesis by (intro that [of None]) (simp_all add: version_of_def)
  next
    case Preview
    with ch obtain js where i: "sound_pre js"
      "trim s = version_text a b c (Some (join_with ''.'' (''preview'' # js)))" by auto
    have "sound_pre (''preview'' # js)"
      using i(1) by (simp add: sound_pre_def sound_ident_def is_ident_char_def all_digits_def less_eq_char_def)
    with i Preview show ?thesis
      by (intro that [of "Some (''preview'' # js)"]) (simp_all add: version_of_def sound_pre_def)
  qed
  have r: "readVersion s = Inr (version_of a b c ids)"
  proof -
    have "trim s = cmp_text (version_of a b c ids) @ []" "match_build []"
      using t by (simp_all add: match_build_def)
    with ok num show ?thesis unfolding readVersion_iff by blast
  qed
  then have "parsePublishVersion s = parsePublishVersion (cmp_text (version_of a b c ids))"
    using t parsePublishVersion_trim [of s] by simp
  with parsePublishVersion_text [OF r] ids show "releaseChannel s = Inr ch"
    by (cases ch) (auto simp: releaseChannel_def version_of_def Suc_le_eq)
qed

text \<open>The channel decision is the documented grammar: \<open>X.Y.Z\<close> is stable, \<open>X.Y.Z-preview.<id>\<close>
  with one or more further identifiers is preview, and nothing else has a channel.\<close>

theorem releaseChannel_grammar:
  "releaseChannel s = Inr ch \<longleftrightarrow>
     (\<exists>a b c. numeric_identifier a \<and> numeric_identifier b \<and> numeric_identifier c \<and>
        (case ch of
           Stable \<Rightarrow> trim s = version_text a b c None
         | Preview \<Rightarrow> \<exists>ids. sound_pre ids
             \<and> trim s = version_text a b c (Some (join_with ''.'' (''preview'' # ids)))))"
  using releaseChannel_text channel_text_reads unfolding channel_text_def by blast

end
