(* ===== verification/Release_Identity.thy ===== *)
theory Release_Identity
  imports Release_Semver
begin

text \<open>
  \<^verbatim>\<open>scripts/lib/release/identity.ts\<close> and \<^verbatim>\<open>scripts/lib/release/args.ts\<close>: what a release is
  (package, version, tag, channel, commit, branch) and the command line that asks for one. Every
  \<^verbatim>\<open>throw\<close> of the source is an \<open>Inl\<close> result, in the order the source evaluates its checks.
\<close>

section \<open>Identity\<close>

datatype publishable_branch = Main | PreviewBranch

record release_identity =
  packageName :: string
  version :: string
  gitTag :: string
  distTag :: dist_tag
  channel :: release_channel
  sourceSha :: string
  branch :: publishable_branch

definition is_lower_hex :: "char \<Rightarrow> bool" where
  "is_lower_hex c \<longleftrightarrow> is_digit c \<or> (CHR ''a'' \<le> c \<and> c \<le> CHR ''f'')"

definition full_sha :: "string \<Rightarrow> bool" where
  "full_sha s \<longleftrightarrow> length s = 40 \<and> list_all is_lower_hex s"

definition simple_package_name :: "string \<Rightarrow> bool" where
  "simple_package_name s =
     (case s of
        [] \<Rightarrow> False
      | c # t \<Rightarrow> (is_lower c \<or> is_digit c)
          \<and> list_all (\<lambda>x. is_lower x \<or> is_digit x \<or> x \<in> {CHR ''.'', CHR ''_'', CHR ''-''}) t)"

definition package_name_form :: "string \<Rightarrow> bool" where
  "package_name_form s =
     (case s of
        [] \<Rightarrow> False
      | c # t \<Rightarrow>
          if c = CHR ''@''
          then simple_package_name (takeWhile (\<lambda>x. x \<noteq> CHR ''/'') t)
               \<and> dropWhile (\<lambda>x. x \<noteq> CHR ''/'') t \<noteq> []
               \<and> simple_package_name (tl (dropWhile (\<lambda>x. x \<noteq> CHR ''/'') t))
          else simple_package_name s)"

definition repository_part :: "string \<Rightarrow> bool" where
  "repository_part s \<longleftrightarrow>
     s \<noteq> [] \<and> list_all (\<lambda>x. is_alnum x \<or> x \<in> {CHR ''_'', CHR ''.'', CHR ''-''}) s"

definition repository_form :: "string \<Rightarrow> bool" where
  "repository_form s =
     (case split_on (CHR ''/'') s of [a, b] \<Rightarrow> repository_part a \<and> repository_part b | _ \<Rightarrow> False)"

definition parseFullSha :: "string \<Rightarrow> string release" where
  "parseFullSha value =
     (let sha = trim value in
      if \<not> full_sha sha
      then Inl (ReleaseError ''invalid_sha'' ''expected-sha must be a 40-character lowercase hex commit'')
      else Inr sha)"

definition parsePackageName :: "string \<Rightarrow> string release" where
  "parsePackageName value =
     (let name = trim value in
      if \<not> package_name_form name
      then Inl (ReleaseError ''invalid_package'' ''package.json is missing a valid name'')
      else Inr name)"

definition parseRepository :: "string \<Rightarrow> string release" where
  "parseRepository value =
     (let repo = trim value in
      if \<not> repository_form repo
      then Inl (ReleaseError ''invalid_repository'' (''Invalid repository id: '' @ repo))
      else Inr repo)"

definition branchFromRef :: "string \<Rightarrow> publishable_branch release" where
  "branchFromRef ref =
     (if ref = ''main'' \<or> ref = ''refs/heads/main'' then Inr Main
      else if ref = ''preview'' \<or> ref = ''refs/heads/preview'' then Inr PreviewBranch
      else Inl (ReleaseError ''invalid_branch''
        (''Release is limited to main and preview (received '' @
         (if ref = [] then ''nothing'' else ref) @ '')'')))"

definition channelForBranch :: "publishable_branch \<Rightarrow> release_channel" where
  "channelForBranch b = (if b = PreviewBranch then Preview else Stable)"

definition branch_name :: "publishable_branch \<Rightarrow> string" where
  "branch_name b = (case b of Main \<Rightarrow> ''main'' | PreviewBranch \<Rightarrow> ''preview'')"

definition tag_name :: "dist_tag \<Rightarrow> string" where
  "tag_name t = (case t of TagLatest \<Rightarrow> ''latest'' | TagPreview \<Rightarrow> ''preview'')"

record identity_input =
  in_packageName :: string
  in_version :: string
  in_sourceSha :: string
  in_branch :: string
  in_distTag :: "dist_tag option"

definition resolveIdentity :: "identity_input \<Rightarrow> release_identity release" where
  "resolveIdentity inp =
     bindR (branchFromRef (in_branch inp)) (\<lambda>br.
     let ch = channelForBranch br in
     bindR (parsePublishVersion (in_version inp)) (\<lambda>pv.
     let v = pv_text pv in
     bindR (assertVersionForChannel v ch) (\<lambda>_.
     let tag = (case in_distTag inp of None \<Rightarrow> distTagForChannel ch | Some t \<Rightarrow> t) in
     if tag \<noteq> distTagForChannel ch
     then Inl (ReleaseError ''dist_tag_mismatch''
       (branch_name br @ '' releases must use npm dist-tag '' @ [CHR 39] @
        tag_name (distTagForChannel ch) @ [CHR 39] @ '' (got '' @ [CHR 39] @ tag_name tag @ [CHR 39] @ '')''))
     else
     bindR (parsePackageName (in_packageName inp)) (\<lambda>name.
     bindR (gitTagForVersion v) (\<lambda>gtag.
     bindR (parseFullSha (in_sourceSha inp)) (\<lambda>sha.
     Inr \<lparr>packageName = name, version = v, gitTag = gtag, distTag = tag, channel = ch,
          sourceSha = sha, branch = br\<rparr>))))))"

definition assertPackageVersion :: "release_identity \<Rightarrow> string \<Rightarrow> unit release" where
  "assertPackageVersion idn packageVersion =
     (if trim packageVersion \<noteq> version idn
      then Inl (ReleaseError ''package_version_mismatch''
        (''package.json ('' @ packageVersion @ '') does not match requested '' @ version idn))
      else Inr ())"

section \<open>Command line\<close>

record cut_command =
  cut_version :: string
  cut_distTag :: "dist_tag option"
  cut_publish :: bool
  cut_planOnly :: bool

record publish_command =
  pub_version :: string
  pub_distTag :: dist_tag
  pub_expectedSha :: string
  pub_dryRun :: bool

datatype cli_command = Watch | Cut cut_command | Publish publish_command

type_synonym process_env = "string \<Rightarrow> string option"

fun index_of :: "'a list \<Rightarrow> 'a \<Rightarrow> nat option" where
  "index_of [] x = None"
| "index_of (y # ys) x = (if y = x then Some 0 else map_option Suc (index_of ys x))"

definition at_index :: "'a list \<Rightarrow> nat \<Rightarrow> 'a option" where
  "at_index xs i = (if i < length xs then Some (xs ! i) else None)"

definition flagValue :: "string list \<Rightarrow> string \<Rightarrow> string option release" where
  "flagValue argv name =
     (case index_of argv name of
        None \<Rightarrow> Inr None
      | Some i \<Rightarrow>
          (let missing = Inl (ReleaseError ''invalid_args'' (''Missing value for '' @ name)) in
           case at_index argv (Suc i) of
             None \<Rightarrow> missing
           | Some v \<Rightarrow> if v = [] \<or> starts_with v ''--'' then missing else Inr (Some v)))"

definition parseDistTag :: "string option \<Rightarrow> dist_tag option release" where
  "parseDistTag value =
     (case value of
        None \<Rightarrow> Inr None
      | Some v \<Rightarrow>
          if v = ''latest'' then Inr (Some TagLatest)
          else if v = ''preview'' then Inr (Some TagPreview)
          else Inl (ReleaseError ''invalid_args''
            ([CHR 96] @ ''--tag'' @ [CHR 96] @ '' must be latest or preview.'')))"

definition env_value :: "string \<Rightarrow> process_env \<Rightarrow> string" where
  "env_value name src = (case src name of None \<Rightarrow> [] | Some v \<Rightarrow> trim v)"

definition parseBoolean :: "string option \<Rightarrow> bool \<Rightarrow> bool release" where
  "parseBoolean value fallback =
     (case value of
        None \<Rightarrow> Inr fallback
      | Some v \<Rightarrow>
          if v = [] then Inr fallback
          else if v = ''true'' \<or> v = ''1'' then Inr True
          else if v = ''false'' \<or> v = ''0'' then Inr False
          else Inl (ReleaseError ''invalid_args'' (''Expected true/false, got '' @ v)))"

text \<open>\<^verbatim>\<open>a || b\<close> on strings and \<^verbatim>\<open>null\<close>: the empty string counts as absent.\<close>

definition or_str :: "string option \<Rightarrow> string \<Rightarrow> string" where
  "or_str a b = (case a of None \<Rightarrow> b | Some v \<Rightarrow> if v = [] then b else v)"

definition non_empty :: "string \<Rightarrow> string option" where
  "non_empty s = (if s = [] then None else Some s)"

definition parsePublishArgv :: "string list \<Rightarrow> process_env \<Rightarrow> cli_command release" where
  "parsePublishArgv argv src =
     bindR (flagValue argv ''--version'') (\<lambda>vflag.
     let vers = or_str vflag (env_value ''RELEASE_VERSION'' src) in
     bindR (flagValue argv ''--tag'') (\<lambda>tflag.
     bindR (parseDistTag (non_empty (or_str tflag (env_value ''NPM_DIST_TAG'' src)))) (\<lambda>tag.
     bindR (flagValue argv ''--expected-sha'') (\<lambda>sflag.
     let expected = or_str sflag (or_str (non_empty (env_value ''EXPECTED_SHA'' src)) (env_value ''GITHUB_SHA'' src)) in
     bindR (if ''--dry-run'' \<in> set argv then Inr True
            else if ''--publish'' \<in> set argv then Inr False
            else parseBoolean (non_empty (env_value ''RELEASE_DRY_RUN'' src)) True) (\<lambda>dryFlag.
     case tag of
       None \<Rightarrow> Inl (ReleaseError ''invalid_args''
         ''publish requires --version, --tag, and --expected-sha (or RELEASE_VERSION, NPM_DIST_TAG, EXPECTED_SHA)'')
     | Some t \<Rightarrow>
         if vers = [] \<or> expected = []
         then Inl (ReleaseError ''invalid_args''
           ''publish requires --version, --tag, and --expected-sha (or RELEASE_VERSION, NPM_DIST_TAG, EXPECTED_SHA)'')
         else
         bindR (parsePublishVersion vers) (\<lambda>pv.
         bindR (parseFullSha expected) (\<lambda>sha.
         Inr (Publish \<lparr>pub_version = pv_text pv, pub_distTag = t, pub_expectedSha = sha,
                       pub_dryRun = dryFlag\<rparr>))))))))"

definition parseCutArgv :: "string list \<Rightarrow> cli_command release" where
  "parseCutArgv rest =
     (let usage = Inl (ReleaseError ''invalid_args''
        (''Usage: release <version> [--tag latest|preview] [--publish] [--plan-only]'' @ newline @
         ''       release publish --version <version> --tag <latest|preview> --expected-sha <sha> [--dry-run]'' @
         newline @ ''       release watch'')) in
      case at_index rest 0 of
        None \<Rightarrow> usage
      | Some v \<Rightarrow>
          if v = [] \<or> starts_with v ''--'' then usage
          else
          bindR (parsePublishVersion v) (\<lambda>pv.
          bindR (flagValue rest ''--tag'') (\<lambda>tflag.
          bindR (parseDistTag tflag) (\<lambda>tag.
          Inr (Cut \<lparr>cut_version = pv_text pv, cut_distTag = tag,
                    cut_publish = (''--publish'' \<in> set rest),
                    cut_planOnly = (''--plan-only'' \<in> set rest)\<rparr>)))))"

definition parseReleaseArgv :: "string list \<Rightarrow> process_env \<Rightarrow> cli_command release" where
  "parseReleaseArgv argv src =
     (if at_index argv 0 = Some ''watch'' then Inr Watch
      else if at_index argv 0 = Some ''publish'' then parsePublishArgv argv src
      else parseCutArgv (if at_index argv 0 = Some ''cut'' then drop 1 argv else argv))"

section \<open>Lemmas\<close>

lemma parseFullSha_Inr: "parseFullSha v = Inr sha \<longleftrightarrow> sha = trim v \<and> full_sha sha"
  by (auto simp: parseFullSha_def Let_def)

lemma parsePackageName_Inr: "parsePackageName v = Inr n \<longleftrightarrow> n = trim v \<and> package_name_form n"
  by (auto simp: parsePackageName_def Let_def)

lemma assertVersionForChannel_Inr:
  "assertVersionForChannel v ch = Inr u \<longleftrightarrow> releaseChannel v = Inr ch"
  by (auto simp: assertVersionForChannel_def bindR_eq_Inr split: if_splits)

lemma parsePublishVersion_normal:
  "parsePublishVersion s = Inr v \<Longrightarrow> parsePublishVersion (pv_text v) = Inr v"
  using parsePublishVersion_readVersion [of s v] parsePublishVersion_text by auto

text \<open>What the rest of the tooling relies on when it holds an identity.\<close>

definition identity_wf :: "release_identity \<Rightarrow> bool" where
  "identity_wf idn \<longleftrightarrow>
     channel idn = channelForBranch (branch idn)
     \<and> distTag idn = distTagForChannel (channel idn)
     \<and> releaseChannel (version idn) = Inr (channel idn)
     \<and> gitTag idn = ''v'' @ version idn
     \<and> full_sha (sourceSha idn)
     \<and> package_name_form (packageName idn)"

lemma resolveIdentity_cases:
  assumes "resolveIdentity inp = Inr idn"
  obtains pv where "branchFromRef (in_branch inp) = Inr (branch idn)"
    "parsePublishVersion (in_version inp) = Inr pv" "version idn = pv_text pv"
    "releaseChannel (version idn) = Inr (channel idn)" "channel idn = channelForBranch (branch idn)"
    "distTag idn = distTagForChannel (channel idn)" "\<forall>t. in_distTag inp = Some t \<longrightarrow> distTag idn = t"
    "parsePackageName (in_packageName inp) = Inr (packageName idn)"
    "gitTagForVersion (version idn) = Inr (gitTag idn)"
    "parseFullSha (in_sourceSha inp) = Inr (sourceSha idn)"
proof -
  from assms obtain br where br: "branchFromRef (in_branch inp) = Inr br" (is ?B)
    unfolding resolveIdentity_def bindR_eq_Inr by blast
  define ch where "ch = channelForBranch br"
  define tag where "tag = (case in_distTag inp of None \<Rightarrow> distTagForChannel ch | Some t \<Rightarrow> t)"
  from assms obtain pv where pv: "parsePublishVersion (in_version inp) = Inr pv"
    and as: "assertVersionForChannel (pv_text pv) ch = Inr ()"
    by (auto simp: resolveIdentity_def bindR_eq_Inr br ch_def Let_def)
  have tg: "tag = distTagForChannel ch"
  proof (rule ccontr)
    assume "tag \<noteq> distTagForChannel ch"
    with assms br pv as show False
      unfolding tag_def ch_def by (simp add: resolveIdentity_def Let_def)
  qed
  from assms br pv as tg obtain name gtag sha where
      r: "parsePackageName (in_packageName inp) = Inr name" "gitTagForVersion (pv_text pv) = Inr gtag"
         "parseFullSha (in_sourceSha inp) = Inr sha"
    and idn: "idn = \<lparr>packageName = name, version = pv_text pv, gitTag = gtag, distTag = tag,
        channel = ch, sourceSha = sha, branch = br\<rparr>"
    unfolding tag_def ch_def by (simp add: resolveIdentity_def Let_def bindR_eq_Inr) blast
  show ?thesis
    by (rule that [of pv])
      (use br pv as r tg idn in \<open>auto simp: ch_def assertVersionForChannel_Inr tag_def\<close>)
qed

section \<open>Properties\<close>

text \<open>An identity is only ever resolved in a consistent form: the branch decides the channel,
  the channel decides the dist-tag and the version shape, the git tag is \<open>v\<close> and the normalized
  version, and the commit is a full lowercase SHA. The fields are the trimmed inputs.\<close>

theorem resolveIdentity_sound:
  assumes "resolveIdentity inp = Inr idn"
  shows "identity_wf idn \<and> version idn = trim (in_version inp)
     \<and> sourceSha idn = trim (in_sourceSha inp) \<and> packageName idn = trim (in_packageName inp)
     \<and> branchFromRef (in_branch inp) = Inr (branch idn)
     \<and> (\<forall>t. in_distTag inp = Some t \<longrightarrow> distTag idn = t)"
proof -
  from assms obtain pv where b: "branchFromRef (in_branch inp) = Inr (branch idn)"
    and pv: "parsePublishVersion (in_version inp) = Inr pv" "version idn = pv_text pv"
    and ch: "releaseChannel (version idn) = Inr (channel idn)" "channel idn = channelForBranch (branch idn)"
    and tag: "distTag idn = distTagForChannel (channel idn)"
        "\<forall>t. in_distTag inp = Some t \<longrightarrow> distTag idn = t"
    and name: "parsePackageName (in_packageName inp) = Inr (packageName idn)"
    and gt: "gitTagForVersion (version idn) = Inr (gitTag idn)"
    and sha: "parseFullSha (in_sourceSha inp) = Inr (sourceSha idn)"
    by (rule resolveIdentity_cases)
  have "pv_text pv = trim (in_version inp)"
    using parsePublishVersion_readVersion [OF pv(1)] by auto
  moreover have "gitTag idn = ''v'' @ version idn"
    using gt parsePublishVersion_normal [OF pv(1)] pv(2)
    by (simp add: gitTagForVersion_def)
  ultimately show ?thesis
    using b pv ch tag name sha
    by (auto simp: identity_wf_def parseFullSha_Inr parsePackageName_Inr)
qed

theorem resolveIdentity_sound_witness:
  "\<exists>idn. resolveIdentity \<lparr>in_packageName = ''@wibias/benes'', in_version = ''0.1.0-preview.3'',
      in_sourceSha = replicate 40 (CHR ''a''), in_branch = ''refs/heads/preview'', in_distTag = None\<rparr> = Inr idn
     \<and> identity_wf idn"
proof -
  let ?inp = "\<lparr>in_packageName = ''@wibias/benes'', in_version = ''0.1.0-preview.3'',
      in_sourceSha = replicate 40 (CHR ''a''), in_branch = ''refs/heads/preview'', in_distTag = None\<rparr>"
  have r: "resolveIdentity ?inp = Inr \<lparr>packageName = ''@wibias/benes'', version = ''0.1.0-preview.3'',
      gitTag = ''v0.1.0-preview.3'', distTag = TagPreview, channel = Preview,
      sourceSha = replicate 40 (CHR ''a''), branch = PreviewBranch\<rparr>" by code_simp
  from resolveIdentity_sound [OF r] r show ?thesis by blast
qed

text \<open>Publishing is opt-in. A publish command mutates the public registries only when the
  command line says \<^verbatim>\<open>--publish\<close> or the environment explicitly turns the dry run off, and a
  \<^verbatim>\<open>--dry-run\<close> flag always wins; its version and commit are already normalized.\<close>

theorem publish_is_opt_in:
  assumes "parseReleaseArgv argv src = Inr (Publish p)"
  shows "hd argv = ''publish'' \<and> argv \<noteq> []
     \<and> (pub_dryRun p \<or> (''--dry-run'' \<notin> set argv
          \<and> (''--publish'' \<in> set argv \<or> env_value ''RELEASE_DRY_RUN'' src \<in> {''false'', ''0''})))
     \<and> full_sha (pub_expectedSha p)
     \<and> (\<exists>pv. parsePublishVersion (pub_version p) = Inr pv \<and> pv_text pv = pub_version p)"
proof -
  have a0: "at_index argv 0 = Some ''publish''" and p: "parsePublishArgv argv src = Inr (Publish p)"
    using assms
    by (auto simp: parseReleaseArgv_def parseCutArgv_def Let_def bindR_eq_Inr
        split: if_splits option.splits)
  then obtain vers pv expected where
      pv: "parsePublishVersion vers = Inr pv" "pub_version p = pv_text pv"
    and sha: "parseFullSha expected = Inr (pub_expectedSha p)"
    and dry: "(if ''--dry-run'' \<in> set argv then Inr True
            else if ''--publish'' \<in> set argv then Inr False
            else parseBoolean (non_empty (env_value ''RELEASE_DRY_RUN'' src)) True) = Inr (pub_dryRun p)"
    by (auto simp: parsePublishArgv_def Let_def bindR_eq_Inr split: option.splits if_splits)
  have "pub_dryRun p \<or> (''--dry-run'' \<notin> set argv
          \<and> (''--publish'' \<in> set argv \<or> env_value ''RELEASE_DRY_RUN'' src \<in> {''false'', ''0''}))"
    using dry by (auto simp: parseBoolean_def non_empty_def split: if_splits option.splits)
  moreover have "hd argv = ''publish'' \<and> argv \<noteq> []"
    using a0 by (auto simp: at_index_def hd_conv_nth split: if_splits)
  ultimately show ?thesis
    using pv sha parsePublishVersion_normal by (auto simp: parseFullSha_Inr)
qed

theorem publish_is_opt_in_witness:
  "parseReleaseArgv [''publish'', ''--version'', ''1.0.0'', ''--tag'', ''latest'', ''--expected-sha'',
       replicate 40 (CHR ''0'')] (\<lambda>_. None)
     = Inr (Publish \<lparr>pub_version = ''1.0.0'', pub_distTag = TagLatest,
         pub_expectedSha = replicate 40 (CHR ''0''), pub_dryRun = True\<rparr>)
   \<and> full_sha (replicate 40 (CHR ''0''))"
proof -
  have r: "parseReleaseArgv [''publish'', ''--version'', ''1.0.0'', ''--tag'', ''latest'', ''--expected-sha'',
       replicate 40 (CHR ''0'')] (\<lambda>_. None)
     = Inr (Publish \<lparr>pub_version = ''1.0.0'', pub_distTag = TagLatest,
         pub_expectedSha = replicate 40 (CHR ''0''), pub_dryRun = True\<rparr>)" by code_simp
  from publish_is_opt_in [OF r] r show ?thesis by simp
qed

end
