(* ===== verification/Release_Notes.thy ===== *)
theory Release_Notes
  imports Release_Semver
begin

text \<open>
  \<^verbatim>\<open>scripts/lib/release/notes.ts\<close>: from the commits since the last release and GitHub's generated
  notes to the published markdown, and the check that every releasable commit can be traced in it.

  The regular expressions are written out as scanners. Pull request numbers are natural numbers.
  A category is read from a plain object by a key taken from text, so the two inherited keys that
  can occur (\<^verbatim>\<open>constructor\<close>, and \<^verbatim>\<open>__proto__\<close> in a heading) yield a value that is none of the five
  categories: \<open>Inherited\<close>.
\<close>

section \<open>Data\<close>

datatype note_category = Features | Fixes | Documentation | Maintenance | Other | Inherited

definition NOTE_CATEGORIES :: "note_category list" where
  "NOTE_CATEGORIES = [Features, Fixes, Documentation, Maintenance, Other]"

definition category_name :: "note_category \<Rightarrow> string" where
  "category_name c =
     (case c of Features \<Rightarrow> ''Features'' | Fixes \<Rightarrow> ''Fixes'' | Documentation \<Rightarrow> ''Documentation''
      | Maintenance \<Rightarrow> ''Maintenance'' | Other \<Rightarrow> ''Other'' | Inherited \<Rightarrow> ''[object]'')"

record associated_pull =
  pull_number :: nat
  pull_title :: string
  pull_author :: string
  pull_labels :: "string list"
  pull_merged :: bool

record history_row =
  row_sha :: string
  row_subject :: string
  row_body :: string

record history_commit =
  sha :: string
  subject :: string
  body :: string
  pulls :: "associated_pull list"

datatype visible_change =
    PrChange note_category nat string string
  | CommitChange note_category string string

fun change_category :: "visible_change \<Rightarrow> note_category" where
  "change_category (PrChange c n t a) = c"
| "change_category (CommitChange c s t) = c"

record notes_model =
  notes_baseline :: "string option"
  notes_changes :: "visible_change list"
  notes_skipped :: "(string \<times> string) list"
  notes_markdown :: string
  notes_errors :: "string list"

definition CATEGORY_BY_TYPE :: "string \<Rightarrow> note_category option" where
  "CATEGORY_BY_TYPE t = map_of
     [(''feat'', Features), (''fix'', Fixes), (''docs'', Documentation), (''chore'', Maintenance),
      (''build'', Maintenance), (''ci'', Maintenance), (''test'', Maintenance),
      (''refactor'', Maintenance), (''style'', Maintenance), (''constructor'', Inherited)] t"

definition CATEGORY_BY_HEADING :: "string \<Rightarrow> note_category option" where
  "CATEGORY_BY_HEADING t = map_of
     [(''features'', Features), (''fixes'', Fixes), (''documentation'', Documentation),
      (''maintenance'', Maintenance), (''other'', Other),
      (''constructor'', Inherited), (''__proto__'', Inherited)] t"

section \<open>Scanners\<close>

definition is_line_break :: "char \<Rightarrow> bool" where
  "is_line_break c \<longleftrightarrow> c = CHR 10 \<or> c = CHR 13"

definition strip_prefix :: "string \<Rightarrow> string \<Rightarrow> string option" where
  "strip_prefix p s = (if starts_with s p then Some (drop (length p) s) else None)"

definition strip_suffix :: "string \<Rightarrow> string \<Rightarrow> string option" where
  "strip_suffix p s = map_option rev (strip_prefix (rev p) (rev s))"

text \<open>\<open>^(?:release|chore\(release\)):\s*v?\d+\.\d+\.\d+(?:-[0-9A-Za-z.-]+)?\s*$\<close>, ignoring case\<close>

definition bump_prefix :: "string \<Rightarrow> string option" where
  "bump_prefix s =
     (case strip_prefix ''release:'' s of Some r \<Rightarrow> Some r | None \<Rightarrow> strip_prefix ''chore(release):'' s)"

definition bump_rest :: "string \<Rightarrow> bool" where
  "bump_rest s =
     (let t = (case match_char (CHR ''-'') s of
                 None \<Rightarrow> Some s
               | Some r \<Rightarrow>
                   (let b = takeWhile (\<lambda>x. is_ident_char x \<or> x = CHR ''.'') r in
                    if b = [] then None else Some (dropWhile (\<lambda>x. is_ident_char x \<or> x = CHR ''.'') r)))
      in case t of None \<Rightarrow> False | Some r \<Rightarrow> list_all is_blank r)"

definition bump_subject :: "string \<Rightarrow> bool" where
  "bump_subject s =
     (case Option.bind (bump_prefix (to_lower s)) (\<lambda>r0.
        let r1 = trim_start r0; r2 = (case match_char (CHR ''v'') r1 of Some r \<Rightarrow> r | None \<Rightarrow> r1) in
        Option.bind (match_digits r2) (\<lambda>(_, r3).
        Option.bind (match_char (CHR ''.'') r3) (\<lambda>r4.
        Option.bind (match_digits r4) (\<lambda>(_, r5).
        Option.bind (match_char (CHR ''.'') r5) (\<lambda>r6.
        Option.bind (match_digits r6) (\<lambda>(_, r7). Some r7)))))) of
        None \<Rightarrow> False
      | Some rest \<Rightarrow> bump_rest rest)"

definition isVersionBumpCommit :: "string \<Rightarrow> bool" where
  "isVersionBumpCommit subj = bump_subject (trim subj)"

definition gitTagName :: "string \<Rightarrow> string release" where
  "gitTagName v =
     (if starts_with v ''v'' then Inr v else bindR (parseSemver v) (\<lambda>pv. Inr (''v'' @ pv_text pv)))"

text \<open>\<open>^([a-z]+)(?:\([^)]+\))?!?:\s*(.+)$\<close>, ignoring case, on trimmed text\<close>

definition skip_scope :: "string \<Rightarrow> string option" where
  "skip_scope s =
     (case match_char (CHR ''('') s of
        None \<Rightarrow> Some s
      | Some r \<Rightarrow>
          if takeWhile (\<lambda>x. x \<noteq> CHR '')'') r = [] then None
          else match_char (CHR '')'') (dropWhile (\<lambda>x. x \<noteq> CHR '')'') r))"

definition conventional :: "string \<Rightarrow> (string \<times> string) option" where
  "conventional s =
     (let letters = takeWhile (\<lambda>x. is_lower x \<or> is_upper x) s;
          r0 = dropWhile (\<lambda>x. is_lower x \<or> is_upper x) s
      in if letters = [] then None
         else Option.bind (skip_scope r0) (\<lambda>r1.
           Option.bind (match_char (CHR '':'') (case match_char (CHR ''!'') r1 of Some r \<Rightarrow> r | None \<Rightarrow> r1)) (\<lambda>r2.
           let b = trim_start r2 in
           if b = [] \<or> list_ex is_line_break b then None else Some (letters, b))))"

definition categoryFromTitle :: "string \<Rightarrow> note_category" where
  "categoryFromTitle title =
     (case conventional (trim title) of
        None \<Rightarrow> Other
      | Some (t, _) \<Rightarrow> (case CATEGORY_BY_TYPE (to_lower t) of None \<Rightarrow> Other | Some c \<Rightarrow> c))"

definition categoryFromPull :: "associated_pull \<Rightarrow> note_category" where
  "categoryFromPull p =
     (let labels = set (map to_lower (pull_labels p)) in
      if ''enhancement'' \<in> labels then Features
      else if ''bug'' \<in> labels then Fixes
      else if ''documentation'' \<in> labels then Documentation
      else if ''chore'' \<in> labels then Maintenance
      else categoryFromTitle (pull_title p))"

definition hasSkipChangelog :: "associated_pull \<Rightarrow> bool" where
  "hasSkipChangelog p = list_ex (\<lambda>l. to_lower l = ''skip-changelog'') (pull_labels p)"

text \<open>\<open>\(#(\d+)\)\s*$\<close>: the digits and what stands before the parenthesis\<close>

definition trailing_pr :: "string \<Rightarrow> (string \<times> string) option" where
  "trailing_pr s =
     Option.bind (strip_suffix '')'' (trim_end s)) (\<lambda>r.
       let d = rev (takeWhile is_digit (rev r)); front = rev (dropWhile is_digit (rev r)) in
       if d = [] then None else map_option (\<lambda>f. (f, d)) (strip_suffix ''(#'' front))"

definition trailingPullNumber :: "string \<Rightarrow> nat option" where
  "trailingPullNumber subj =
     (case trailing_pr (trim subj) of
        None \<Rightarrow> None
      | Some (_, d) \<Rightarrow> (let n = js_double (read_digits d) in if n > 0 then Some n else None))"

fun mentionsPull :: "string \<Rightarrow> nat \<Rightarrow> bool" where
  "mentionsPull [] n = False"
| "mentionsPull (c # s) n =
     ((case strip_prefix (CHR ''#'' # show_nat n) (c # s) of
         None \<Rightarrow> False
       | Some r \<Rightarrow> r = [] \<or> \<not> is_digit (hd r))
      \<or> mentionsPull s n)"

section \<open>Text of one entry\<close>

definition zwsp :: string where
  "zwsp = [CHR 0xE2, CHR 0x80, CHR 0x8B]"

fun flatten_newlines :: "string \<Rightarrow> string" where
  "flatten_newlines [] = []"
| "flatten_newlines [c] = (if c = CHR 10 then '' '' else [c])"
| "flatten_newlines (c # d # s) =
     (if c = CHR 13 \<and> d = CHR 10 then CHR 32 # flatten_newlines s
      else if c = CHR 10 then CHR 32 # flatten_newlines (d # s)
      else c # flatten_newlines (d # s))"

definition blank_controls :: "string \<Rightarrow> string" where
  "blank_controls s = map (\<lambda>c. if of_char c < (32 :: nat) then CHR 32 else c) s"

definition escape_markdown :: "string \<Rightarrow> string" where
  "escape_markdown s =
     concat (map (\<lambda>c. if c \<in> set [CHR 96, CHR ''<'', CHR ''>'', CHR ''|'', CHR ''['', CHR '']'', CHR 92]
                      then [CHR 92, c] else [c]) s)"

definition mention_char :: "char \<Rightarrow> bool" where
  "mention_char c \<longleftrightarrow> is_alnum c \<or> c = CHR ''_'' \<or> c = CHR ''-''"

fun neutralize_mentions :: "string \<Rightarrow> string" where
  "neutralize_mentions [] = []"
| "neutralize_mentions [c] = [c]"
| "neutralize_mentions (c # d # s) =
     (if c = CHR ''@'' \<and> mention_char d then CHR ''@'' # zwsp @ neutralize_mentions (d # s)
      else c # neutralize_mentions (d # s))"

fun collapse_blanks :: "string \<Rightarrow> string" where
  "collapse_blanks [] = []"
| "collapse_blanks [c] = (if is_blank c then '' '' else [c])"
| "collapse_blanks (c # d # s) =
     (if is_blank c
      then (if is_blank d then collapse_blanks (d # s) else CHR 32 # collapse_blanks (d # s))
      else c # collapse_blanks (d # s))"

definition sanitizeNoteText :: "string \<Rightarrow> string" where
  "sanitizeNoteText text =
     trim (collapse_blanks (neutralize_mentions (escape_markdown (blank_controls (flatten_newlines text)))))"

definition capitalize :: "string \<Rightarrow> string" where
  "capitalize s = (case s of [] \<Rightarrow> [] | c # t \<Rightarrow> to_upper_char c # t)"

definition strip_pr_marker :: "string \<Rightarrow> nat option \<Rightarrow> string" where
  "strip_pr_marker text prNumber =
     (case prNumber of
        Some n \<Rightarrow>
          (case strip_suffix (''(#'' @ show_nat n @ '')'') (trim_end text) of
             None \<Rightarrow> text | Some f \<Rightarrow> trim_end f)
      | None \<Rightarrow> (case trailing_pr text of None \<Rightarrow> text | Some (f, _) \<Rightarrow> trim_end f))"

definition cleanChangeTitle :: "string \<Rightarrow> nat option \<Rightarrow> string" where
  "cleanChangeTitle title prNumber =
     (let text0 = trim title;
          text1 = (case conventional text0 of Some (_, b) \<Rightarrow> b | None \<Rightarrow> text0);
          text2 = trim (strip_pr_marker text1 prNumber)
      in if text2 = [] then trim title else capitalize text2)"

section \<open>Normalizing the inputs\<close>

text \<open>
  A heading line sets the category when its text is a known heading. A line that starts like a
  heading is never a generated entry, so only the lookup matters.
\<close>

definition heading_text :: "string \<Rightarrow> string option" where
  "heading_text raw =
     (let after = (\<lambda>p. case strip_prefix p raw of
                         Some (c # r) \<Rightarrow> if is_blank c then Some (c # r) else None
                       | _ \<Rightarrow> None)
      in case after ''##'' of Some r \<Rightarrow> Some (trim r)
         | None \<Rightarrow> map_option trim (after ''###''))"

text \<open>\<open>\s+by\s+@([A-Za-z0-9-]+(?:\[bot\])?).*\/pull\/(\d+)\s*$\<close>: the author and the number\<close>

definition generated_tail :: "string \<Rightarrow> (string \<times> nat) option" where
  "generated_tail s =
     (if s = [] \<or> \<not> is_blank (hd s) then None
      else Option.bind (strip_prefix ''by'' (trim_start s)) (\<lambda>r1.
        if r1 = [] \<or> \<not> is_blank (hd r1) then None
        else Option.bind (match_char (CHR ''@'') (trim_start r1)) (\<lambda>r2.
          let login = takeWhile is_ident_char r2; r3 = dropWhile is_ident_char r2;
              bot = starts_with r3 ''[bot]'';
              r4 = (if bot then drop 5 r3 else r3);
              t = trim_end r4;
              d = rev (takeWhile is_digit (rev t));
              front = rev (dropWhile is_digit (rev t))
          in if login = [] \<or> d = [] then None
             else Option.bind (strip_suffix ''/pull/'' front) (\<lambda>mid.
               if list_ex is_line_break mid then None
               else Some (login @ (if bot then ''[bot]'' else []), js_double (read_digits d))))))"

fun generated_entry_from :: "string \<Rightarrow> string \<Rightarrow> (string \<times> string \<times> nat) option" where
  "generated_entry_from acc rest =
     (case (if acc = [] then None else generated_tail rest) of
        Some (a, n) \<Rightarrow> Some (acc, a, n)
      | None \<Rightarrow>
          (case rest of
             [] \<Rightarrow> None
           | c # t \<Rightarrow> if is_line_break c then None else generated_entry_from (acc @ [c]) t))"

fun first_entry :: "string list \<Rightarrow> (string \<times> string \<times> nat) option" where
  "first_entry [] = None"
| "first_entry (s # ss) =
     (case generated_entry_from [] s of Some e \<Rightarrow> Some e | None \<Rightarrow> first_entry ss)"

definition generated_line :: "string \<Rightarrow> (string \<times> string \<times> nat) option" where
  "generated_line raw =
     Option.bind (match_char (CHR ''*'') raw) (\<lambda>r.
       first_entry (map (\<lambda>k. drop k r) (rev [0 ..< Suc (length (takeWhile is_blank r))])))"

fun drop_carriage_returns :: "string \<Rightarrow> string" where
  "drop_carriage_returns (c # d # s) =
     (if c = CHR 13 \<and> d = CHR 10 then CHR 10 # drop_carriage_returns s
      else c # drop_carriage_returns (d # s))"
| "drop_carriage_returns s = s"

type_synonym pull_map = "(nat \<times> visible_change) list"

fun generated_lines :: "note_category \<Rightarrow> pull_map \<Rightarrow> string list \<Rightarrow> pull_map" where
  "generated_lines cat covered [] = covered"
| "generated_lines cat covered (raw # rest) =
     (case heading_text raw of
        Some h \<Rightarrow>
          generated_lines (case CATEGORY_BY_HEADING (to_lower h) of None \<Rightarrow> cat | Some c \<Rightarrow> c) covered rest
      | None \<Rightarrow>
          (case generated_line raw of
             None \<Rightarrow> generated_lines cat covered rest
           | Some (t, a, n) \<Rightarrow>
               if map_of covered n \<noteq> None then generated_lines cat covered rest
               else generated_lines cat (covered @ [(n, PrChange cat n (trim t) a)]) rest))"

definition parseGeneratedNotePulls :: "string \<Rightarrow> pull_map" where
  "parseGeneratedNotePulls txt =
     generated_lines Other [] (split_on (CHR 10) (drop_carriage_returns txt))"

fun parse_records :: "string list \<Rightarrow> history_row list release" where
  "parse_records [] = Inr []"
| "parse_records (rec # rest) =
     (if trim rec = [] then parse_records rest
      else
        (case split_on (CHR 31) (dropWhile (\<lambda>c. c = CHR 10) rec) of
           s # subj # bodyParts \<Rightarrow>
             if trim s = [] \<or> trim subj = []
             then Inl (ReleaseError ''malformed_git_log'' ''git log produced a malformed commit record'')
             else bindR (parse_records rest) (\<lambda>rows.
               Inr (\<lparr>row_sha = trim s, row_subject = trim subj,
                     row_body = trim (join_with [CHR 31] bodyParts)\<rparr> # rows))
         | _ \<Rightarrow> Inl (ReleaseError ''malformed_git_log'' ''git log produced a malformed commit record'')))"

definition parseGitLogRecords :: "string \<Rightarrow> history_row list release" where
  "parseGitLogRecords raw = parse_records (split_on (CHR 30) raw)"

section \<open>The floor of the notes\<close>

definition rankAgainstSelf :: "string \<Rightarrow> string \<Rightarrow> int option" where
  "rankAgainstSelf tag self =
     (case compareReleaseVersions (drop 1 tag) (drop 1 self) of Inl _ \<Rightarrow> None | Inr r \<Rightarrow> Some r)"

definition version_tag :: "string \<Rightarrow> bool" where
  "version_tag tag = (case tag of c # d # _ \<Rightarrow> c = CHR ''v'' \<and> is_digit d | _ \<Rightarrow> False)"

definition is_prerelease_tag :: "string \<Rightarrow> bool" where
  "is_prerelease_tag tag =
     (case parseSemver (drop 1 tag) of Inl _ \<Rightarrow> True | Inr v \<Rightarrow> pv_pre v \<noteq> None)"

definition eligible_baseline :: "string \<Rightarrow> bool \<Rightarrow> (string \<Rightarrow> bool) \<Rightarrow> string \<Rightarrow> bool" where
  "eligible_baseline self previewTarget isAncestor tag \<longleftrightarrow>
     version_tag tag
     \<and> (case rankAgainstSelf tag self of None \<Rightarrow> False | Some r \<Rightarrow> r < 0)
     \<and> (previewTarget \<or> \<not> is_prerelease_tag tag)
     \<and> isAncestor tag"

definition compareTags :: "string \<Rightarrow> string \<Rightarrow> int" where
  "compareTags l r = (case compareReleaseVersions (drop 1 l) (drop 1 r) of Inl _ \<Rightarrow> 0 | Inr c \<Rightarrow> c)"

definition selectNotesBaseline :: "string \<Rightarrow> string list \<Rightarrow> (string \<Rightarrow> bool) \<Rightarrow> string option release" where
  "selectNotesBaseline vers tags isAncestor =
     bindR (gitTagName vers) (\<lambda>self.
     bindR (parseSemver vers) (\<lambda>pv.
     let eligible = filter (eligible_baseline self (pv_pre pv \<noteq> None) isAncestor) (map trim tags) in
     Inr (if eligible = [] then None else Some (last (sort_by compareTags eligible)))))"

section \<open>Rendering\<close>

record render_context =
  ctx_packageName :: string
  ctx_version :: string
  ctx_distTag :: string
  ctx_repository :: string
  ctx_baseline :: "string option"
  ctx_gitTag :: string

definition commitUrl :: "string \<Rightarrow> string \<Rightarrow> string" where
  "commitUrl repository s = ''https://github.com/'' @ repository @ ''/commit/'' @ s"

fun renderChange :: "visible_change \<Rightarrow> string \<Rightarrow> string" where
  "renderChange (PrChange cat n title a) repository =
     ''- '' @ sanitizeNoteText (cleanChangeTitle title (Some n)) @ '' (#'' @ show_nat n @ '')''"
| "renderChange (CommitChange cat s title) repository =
     ''- '' @ sanitizeNoteText (cleanChangeTitle title None) @ '' (['' @ take 8 s @ ''](''
       @ commitUrl repository s @ ''))''"

definition strip_newlines :: "string \<Rightarrow> string" where
  "strip_newlines s = rev (dropWhile (\<lambda>c. c = CHR 10) (rev s))"

definition render_section :: "visible_change list \<Rightarrow> string \<Rightarrow> note_category \<Rightarrow> string" where
  "render_section changes repository cat =
     join_with newline ([''## '' @ category_name cat, []]
       @ map (\<lambda>c. renderChange c repository) (filter (\<lambda>c. change_category c = cat) changes))"

fun pr_number :: "visible_change \<Rightarrow> nat" where
  "pr_number (PrChange cat n t a) = n"
| "pr_number (CommitChange cat s t) = 0"

fun is_pr :: "visible_change \<Rightarrow> bool" where
  "is_pr (PrChange cat n t a) = True"
| "is_pr (CommitChange cat s t) = False"

definition author_label :: "string \<Rightarrow> string" where
  "author_label a =
     (let s = sanitizeNoteText (if a = [] then ''unknown'' else a) in
      case strip_prefix (CHR ''@'' # zwsp) s of None \<Rightarrow> s | Some r \<Rightarrow> r)"

fun catalog_line :: "string \<Rightarrow> visible_change \<Rightarrow> string" where
  "catalog_line repository (PrChange cat n t a) =
     ''- #'' @ show_nat n @ '' '' @ sanitizeNoteText (trim t) @ '' @'' @ zwsp @ author_label a"
| "catalog_line repository (CommitChange cat s t) =
     ''- ['' @ take 8 s @ ''](''  @ commitUrl repository s @ '') '' @ sanitizeNoteText t"

definition render_catalog :: "render_context \<Rightarrow> visible_change list \<Rightarrow> string" where
  "render_catalog ctx changes =
     strip_newlines (join_with newline (
       [''## Changelog'', []]
       @ (case ctx_baseline ctx of
            None \<Rightarrow> []
          | Some b \<Rightarrow>
              if b = [] then []
              else [''Full Changelog: https://github.com/'' @ ctx_repository ctx @ ''/compare/'' @ b @ ''...'' @ ctx_gitTag ctx, []])
       @ map (catalog_line (ctx_repository ctx))
           (sort_by (\<lambda>l r. int (pr_number l) - int (pr_number r)) (filter is_pr changes))
       @ map (catalog_line (ctx_repository ctx)) (filter (\<lambda>c. \<not> is_pr c) changes)))"

definition renderMarkdown :: "render_context \<Rightarrow> visible_change list \<Rightarrow> string" where
  "renderMarkdown ctx changes =
     strip_newlines (join_with (newline @ newline) (
       [''Published to npm as '' @ [CHR 96] @ ctx_packageName ctx @ ''@'' @ ctx_version ctx @ [CHR 96] @
        '' with dist-tag '' @ [CHR 96] @ ctx_distTag ctx @ [CHR 96] @ ''.'']
       @ map (render_section changes (ctx_repository ctx))
           (filter (\<lambda>c. c \<in> set (map change_category changes)) NOTE_CATEGORIES)
       @ [render_catalog ctx changes])) @ newline"

section \<open>Attribution and verification\<close>

datatype coverage = PrCoverage "nat list" | CommitCoverage | SkipCoverage

datatype commit_evidence =
    ViaGenerated "nat list"
  | ViaFallback "associated_pull list"
  | ViaSkipped "associated_pull list"
  | ViaDirect

definition attributeCommit :: "history_commit \<Rightarrow> pull_map \<Rightarrow> commit_evidence" where
  "attributeCommit c generated =
     (let landing = trailingPullNumber (subject c);
          merged = filter pull_merged (pulls c);
          visible = filter (\<lambda>p. \<not> hasSkipChangelog p) merged;
          already = filter (\<lambda>p. map_of generated (pull_number p) \<noteq> None) visible
      in case landing of
           Some n \<Rightarrow>
             if map_of generated n \<noteq> None then ViaGenerated [n]
             else if already \<noteq> [] then ViaGenerated (map pull_number already)
             else if visible \<noteq> [] then ViaFallback visible
             else if merged \<noteq> [] \<and> list_all hasSkipChangelog merged then ViaSkipped merged
             else ViaDirect
         | None \<Rightarrow>
             if already \<noteq> [] then ViaGenerated (map pull_number already)
             else if visible \<noteq> [] then ViaFallback visible
             else if merged \<noteq> [] \<and> list_all hasSkipChangelog merged then ViaSkipped merged
             else ViaDirect)"

definition pullChange :: "associated_pull \<Rightarrow> visible_change" where
  "pullChange p = PrChange (categoryFromPull p) (pull_number p) (pull_title p) (pull_author p)"

record notes_acc =
  acc_fallback :: pull_map
  acc_direct :: "visible_change list"
  acc_skipped :: "(string \<times> string) list"
  acc_coverage :: "string \<Rightarrow> coverage option"

fun add_fallback :: "pull_map \<Rightarrow> associated_pull list \<Rightarrow> pull_map \<Rightarrow> pull_map" where
  "add_fallback generated [] fb = fb"
| "add_fallback generated (p # ps) fb =
     add_fallback generated ps
       (if map_of fb (pull_number p) \<noteq> None \<or> map_of generated (pull_number p) \<noteq> None then fb
        else fb @ [(pull_number p, pullChange p)])"

definition absorb_commit :: "pull_map \<Rightarrow> notes_acc \<Rightarrow> history_commit \<Rightarrow> notes_acc" where
  "absorb_commit generated st c =
     (case attributeCommit c generated of
        ViaGenerated ids \<Rightarrow> st\<lparr>acc_coverage := (acc_coverage st)(sha c \<mapsto> PrCoverage ids)\<rparr>
      | ViaFallback ps \<Rightarrow>
          st\<lparr>acc_fallback := add_fallback generated ps (acc_fallback st),
             acc_coverage := (acc_coverage st)(sha c \<mapsto> PrCoverage (map pull_number ps))\<rparr>
      | ViaSkipped ps \<Rightarrow>
          st\<lparr>acc_skipped := acc_skipped st @
               [(sha c, join_with '', '' (map (\<lambda>p. ''#'' @ show_nat (pull_number p)) ps) @
                        '' labeled skip-changelog'')],
             acc_coverage := (acc_coverage st)(sha c \<mapsto> SkipCoverage)\<rparr>
      | ViaDirect \<Rightarrow>
          st\<lparr>acc_direct := acc_direct st @ [CommitChange (categoryFromTitle (subject c)) (sha c) (subject c)],
             acc_coverage := (acc_coverage st)(sha c \<mapsto> CommitCoverage)\<rparr>)"

definition commit_errors :: "string \<Rightarrow> (string \<Rightarrow> coverage option) \<Rightarrow> history_commit \<Rightarrow> string list" where
  "commit_errors markdown cov c =
     (case cov (sha c) of
        None \<Rightarrow> [''commit '' @ take 12 (sha c) @ '' is not represented'']
      | Some CommitCoverage \<Rightarrow>
          if str_includes markdown (take 8 (sha c)) then []
          else [''direct commit '' @ take 12 (sha c) @ '' is missing from the notes'']
      | Some (PrCoverage ids) \<Rightarrow>
          if list_ex (mentionsPull markdown) ids then []
          else [''commit '' @ take 12 (sha c) @ '' maps to '' @
                join_with '', '' (map (\<lambda>i. ''#'' @ show_nat i) ids) @ '', but none were rendered'']
      | Some SkipCoverage \<Rightarrow> [])"

record notes_input =
  ni_version :: string
  ni_packageName :: string
  ni_distTag :: string
  ni_repository :: string
  ni_tags :: "string list"
  ni_commits :: "history_commit list"
  ni_generatedNotes :: string
  ni_isAncestor :: "string \<Rightarrow> bool"

definition releasable_commits :: "notes_input \<Rightarrow> history_commit list" where
  "releasable_commits inp = filter (\<lambda>c. \<not> isVersionBumpCommit (subject c)) (ni_commits inp)"

definition notes_of :: "notes_input \<Rightarrow> string option \<Rightarrow> string \<Rightarrow> string \<Rightarrow> notes_model" where
  "notes_of inp baseline gitTag versionText =
     (let generated = parseGeneratedNotePulls (ni_generatedNotes inp);
         releasable = releasable_commits inp;
         st = foldl (absorb_commit generated)
                \<lparr>acc_fallback = [], acc_direct = [], acc_skipped = [], acc_coverage = Map.empty\<rparr> releasable;
         changes = map snd generated @ map snd (acc_fallback st) @ acc_direct st;
         markdown = renderMarkdown
           \<lparr>ctx_packageName = ni_packageName inp, ctx_version = versionText, ctx_distTag = ni_distTag inp,
            ctx_repository = ni_repository inp, ctx_baseline = baseline, ctx_gitTag = gitTag\<rparr> changes;
         errors = concat (map (commit_errors markdown (acc_coverage st)) releasable)
           @ (if releasable \<noteq> [] \<and> changes = []
              then [show_nat (length releasable) @ '' changed commit(s) exist, but the notes have no visible entries'']
              else [])
     in \<lparr>notes_baseline = baseline, notes_changes = changes, notes_skipped = acc_skipped st,
         notes_markdown = markdown, notes_errors = errors\<rparr>)"

definition buildNotes :: "notes_input \<Rightarrow> notes_model release" where
  "buildNotes inp =
     bindR (selectNotesBaseline (ni_version inp) (ni_tags inp) (ni_isAncestor inp)) (\<lambda>baseline.
     bindR (gitTagName (ni_version inp)) (\<lambda>gitTag.
     bindR (parseSemver (ni_version inp)) (\<lambda>pv.
     Inr (notes_of inp baseline gitTag (pv_text pv)))))"

section \<open>Lemmas: what the markdown contains\<close>

lemma strip_newlines_append:
  "n \<noteq> [] \<Longrightarrow> last n \<noteq> CHR 10 \<Longrightarrow> strip_newlines (a @ n @ b) = a @ n @ strip_newlines b"
  by (cases n rule: rev_cases) (simp_all add: strip_newlines_def dropWhile_append)

lemma sublist_strip_newlines:
  assumes "sublist n s" "n \<noteq> []" "last n \<noteq> CHR 10"
  shows "sublist n (strip_newlines s)"
proof -
  from assms(1) obtain a b where "s = a @ n @ b" by (auto simp: sublist_def)
  then show ?thesis using assms(2,3) by (simp add: strip_newlines_append)
qed

lemma strip_prefix_self [simp]: "strip_prefix p (p @ r) = Some r"
  by (simp add: strip_prefix_def starts_with_def)

lemma mentionsPull_sublist: "sublist (''#'' @ show_nat n @ '' '') s \<Longrightarrow> mentionsPull s n"
proof (induction s)
  case (Cons c s)
  from Cons.prems consider "prefix (''#'' @ show_nat n @ '' '') (c # s)"
    | "sublist (''#'' @ show_nat n @ '' '') s"
    by (auto simp: sublist_Cons_right)
  then show ?case
  proof cases
    case 1
    then obtain r where "c # s = (CHR ''#'' # show_nat n) @ CHR '' '' # r"
      by (auto simp: prefix_def)
    then have "strip_prefix (CHR ''#'' # show_nat n) (c # s) = Some (CHR '' '' # r)"
      by (simp only: strip_prefix_self)
    then show ?thesis by (simp add: less_eq_char_def)
  next
    case 2
    with Cons.IH show ?thesis by simp
  qed
qed simp

fun change_needle :: "visible_change \<Rightarrow> string" where
  "change_needle (PrChange cat n t a) = ''#'' @ show_nat n @ '' ''"
| "change_needle (CommitChange cat s t) = ''['' @ take 8 s @ ''](''"

lemma change_needle_last [simp]: "change_needle c \<noteq> []" "last (change_needle c) \<noteq> CHR 10"
  by (cases c; simp)+

lemma needle_catalog_line: "sublist (change_needle c) (catalog_line repo c)"
proof (cases c)
  case (PrChange cat n t a)
  have "catalog_line repo c = ''- '' @ change_needle c @ (sanitizeNoteText (trim t) @ '' @'' @ zwsp @ author_label a)"
    by (simp add: PrChange)
  then show ?thesis by (simp only: sublist_appendI)
next
  case (CommitChange cat s t)
  have "catalog_line repo c = ''- '' @ change_needle c @ (commitUrl repo s @ '') '' @ sanitizeNoteText t)"
    by (simp add: CommitChange)
  then show ?thesis by (simp only: sublist_appendI)
qed

lemma needle_render_catalog:
  assumes "c \<in> set changes"
  shows "sublist (change_needle c) (render_catalog ctx changes)"
proof -
  have inc: "sublist (change_needle c) (join_with newline ls)"
    if "catalog_line (ctx_repository ctx) c \<in> set ls" for ls
    using sublist_join [OF that] needle_catalog_line [of c "ctx_repository ctx"]
    by (rule sublist_order.order_trans [rotated])
  have mem: "catalog_line r c \<in> set (a @ b
       @ map (catalog_line r) (sort_by (\<lambda>l r. int (pr_number l) - int (pr_number r)) (filter is_pr changes))
       @ map (catalog_line r) (filter (\<lambda>c. \<not> is_pr c) changes))" for r a b
    using assms by (cases "is_pr c") auto
  show ?thesis
    unfolding render_catalog_def
    by (rule sublist_strip_newlines, rule inc, rule mem, rule change_needle_last(1),
        rule change_needle_last(2))
qed

lemma needle_renderMarkdown:
  assumes "c \<in> set changes"
  shows "sublist (change_needle c) (renderMarkdown ctx changes)"
proof -
  let ?parts = "[''Published to npm as '' @ [CHR 96] @ ctx_packageName ctx @ ''@'' @ ctx_version ctx @ [CHR 96] @
        '' with dist-tag '' @ [CHR 96] @ ctx_distTag ctx @ [CHR 96] @ ''.'']
       @ map (render_section changes (ctx_repository ctx))
           (filter (\<lambda>c. c \<in> set (map change_category changes)) NOTE_CATEGORIES)
       @ [render_catalog ctx changes]"
  have "sublist (render_catalog ctx changes) (join_with (newline @ newline) ?parts)"
    by (rule sublist_join) simp
  with needle_render_catalog [OF assms] have "sublist (change_needle c) (join_with (newline @ newline) ?parts)"
    by (rule sublist_order.order_trans)
  then have "sublist (change_needle c) (strip_newlines (join_with (newline @ newline) ?parts))"
    by (rule sublist_strip_newlines) simp_all
  then show ?thesis unfolding renderMarkdown_def by (rule sublist_append_front)
qed

section \<open>Lemmas: attribution\<close>

definition pull_map_wf :: "pull_map \<Rightarrow> bool" where
  "pull_map_wf m \<longleftrightarrow> (\<forall>(n, c) \<in> set m. \<exists>cat t a. c = PrChange cat n t a)"

lemma pull_map_wf_simps [simp]:
  "pull_map_wf []"
  "pull_map_wf (m @ m') \<longleftrightarrow> pull_map_wf m \<and> pull_map_wf m'"
  "pull_map_wf [(n, PrChange cat n t a)]"
  by (simp_all add: pull_map_wf_def ball_Un)

lemma generated_lines_wf: "pull_map_wf m \<Longrightarrow> pull_map_wf (generated_lines cat m ls)"
proof (induction cat m ls rule: generated_lines.induct)
  case (2 cat m raw rest)
  show ?case
  proof (cases "heading_text raw")
    case None
    then show ?thesis
      using 2 by (cases "generated_line raw") auto
  qed (use 2 in simp)
qed simp

lemma parseGeneratedNotePulls_wf: "pull_map_wf (parseGeneratedNotePulls t)"
  unfolding parseGeneratedNotePulls_def by (rule generated_lines_wf) (simp add: pull_map_wf_def)

lemma add_fallback_wf: "pull_map_wf fb \<Longrightarrow> pull_map_wf (add_fallback g ps fb)"
  by (induction g ps fb rule: add_fallback.induct) (simp_all add: pullChange_def)

lemma add_fallback_mono: "set fb \<subseteq> set (add_fallback g ps fb)"
  by (induction g ps fb rule: add_fallback.induct) auto

lemma add_fallback_covers:
  "p \<in> set ps \<Longrightarrow> pull_number p \<in> fst ` (set g \<union> set (add_fallback g ps fb))"
proof (induction g ps fb rule: add_fallback.induct)
  case (2 g q ps fb)
  let ?fb = "if map_of fb (pull_number q) \<noteq> None \<or> map_of g (pull_number q) \<noteq> None then fb
      else fb @ [(pull_number q, pullChange q)]"
  show ?case
  proof (cases "p = q")
    case True
    then have "pull_number p \<in> fst ` (set g \<union> set ?fb)"
      by (auto simp: map_of_eq_None_iff)
    also have "\<dots> \<subseteq> fst ` (set g \<union> set (add_fallback g ps ?fb))"
      using add_fallback_mono [of ?fb g ps] by (intro image_mono) blast
    finally show ?thesis by simp
  next
    case False
    with 2 show ?thesis by simp
  qed
qed simp

lemma attributeCommit_generated:
  "attributeCommit c g = ViaGenerated ids \<Longrightarrow> ids \<noteq> [] \<and> set ids \<subseteq> fst ` set g"
  by (auto simp: attributeCommit_def Let_def map_of_eq_None_iff split: option.splits if_splits) force

lemma attributeCommit_fallback: "attributeCommit c g = ViaFallback ps \<Longrightarrow> ps \<noteq> []"
  by (auto simp: attributeCommit_def Let_def split: option.splits if_splits)

text \<open>While commits are absorbed, whatever the coverage map promises has a visible change.\<close>

definition covered_by :: "pull_map \<Rightarrow> notes_acc \<Rightarrow> coverage \<Rightarrow> string \<Rightarrow> bool" where
  "covered_by g st cov s =
     (case cov of
        CommitCoverage \<Rightarrow> \<exists>cat t. CommitChange cat s t \<in> set (acc_direct st)
      | PrCoverage ids \<Rightarrow> \<exists>i \<in> set ids. i \<in> fst ` (set g \<union> set (acc_fallback st))
      | SkipCoverage \<Rightarrow> True)"

definition acc_inv :: "pull_map \<Rightarrow> notes_acc \<Rightarrow> bool" where
  "acc_inv g st \<longleftrightarrow> pull_map_wf (acc_fallback st)
     \<and> (\<forall>s cov. acc_coverage st s = Some cov \<longrightarrow> covered_by g st cov s)"

lemma covered_by_mono:
  "covered_by g st cov s \<Longrightarrow> set (acc_direct st) \<subseteq> set (acc_direct st') \<Longrightarrow>
   set (acc_fallback st) \<subseteq> set (acc_fallback st') \<Longrightarrow> covered_by g st' cov s"
  by (auto simp: covered_by_def split: coverage.splits)

lemma absorb_commit_inv:
  assumes "acc_inv g st"
  shows "acc_inv g (absorb_commit g st c)"
proof -
  let ?st = "absorb_commit g st c"
  have mono: "set (acc_direct st) \<subseteq> set (acc_direct ?st)" "set (acc_fallback st) \<subseteq> set (acc_fallback ?st)"
    using add_fallback_mono by (auto simp: absorb_commit_def split: commit_evidence.split)
  have own: "covered_by g ?st cov (sha c)" if "acc_coverage ?st (sha c) = Some cov" for cov
  proof (cases "attributeCommit c g")
    case (ViaGenerated ids)
    from attributeCommit_generated [OF ViaGenerated] have "hd ids \<in> set ids" "hd ids \<in> fst ` set g"
      by (auto intro!: hd_in_set)
    moreover from that ViaGenerated have "cov = PrCoverage ids" by (simp add: absorb_commit_def)
    ultimately show ?thesis unfolding covered_by_def by (simp only: coverage.case image_Un) blast
  next
    case (ViaFallback ps)
    from attributeCommit_fallback [OF ViaFallback] obtain p where p: "p \<in> set ps" by (cases ps) auto
    from ViaFallback that have "cov = PrCoverage (map pull_number ps)"
      "acc_fallback ?st = add_fallback g ps (acc_fallback st)" by (auto simp: absorb_commit_def)
    with p add_fallback_covers [OF p, of g "acc_fallback st"] show ?thesis
      by (auto simp: covered_by_def)
  qed (use that in \<open>auto simp: absorb_commit_def covered_by_def\<close>)
  have "covered_by g ?st cov s" if "acc_coverage ?st s = Some cov" for s cov
  proof (cases "s = sha c")
    case False
    with that have "acc_coverage st s = Some cov"
      by (auto simp: absorb_commit_def split: commit_evidence.splits)
    with assms have "covered_by g st cov s" by (simp add: acc_inv_def)
    then show ?thesis using mono by (rule covered_by_mono)
  qed (use own that in simp)
  moreover have "pull_map_wf (acc_fallback ?st)"
    using assms add_fallback_wf by (auto simp: absorb_commit_def acc_inv_def split: commit_evidence.split)
  ultimately show ?thesis by (simp add: acc_inv_def)
qed

lemma absorb_commits_inv: "acc_inv g st \<Longrightarrow> acc_inv g (foldl (absorb_commit g) st cs)"
  by (induction cs arbitrary: st) (simp_all add: absorb_commit_inv)

lemma absorb_commit_dom: "dom (acc_coverage (absorb_commit g st c)) = insert (sha c) (dom (acc_coverage st))"
  by (auto simp: absorb_commit_def split: commit_evidence.splits)

lemma absorb_commits_dom:
  "dom (acc_coverage (foldl (absorb_commit g) st cs)) = dom (acc_coverage st) \<union> sha ` set cs"
  by (induction cs arbitrary: st) (auto simp: absorb_commit_dom)

lemma covered_commit_no_error:
  assumes cov: "acc_coverage st (sha c) = Some k" "covered_by g st k (sha c)"
    and wf: "pull_map_wf g" "pull_map_wf (acc_fallback st)"
    and ch: "changes = map snd g @ map snd (acc_fallback st) @ acc_direct st"
  shows "commit_errors (renderMarkdown ctx changes) (acc_coverage st) c = []"
proof (cases k)
  case CommitCoverage
  with cov obtain cat t where "CommitChange cat (sha c) t \<in> set changes"
    by (auto simp: covered_by_def ch)
  from needle_renderMarkdown [OF this, of ctx]
  have "sublist (''['' @ take 8 (sha c) @ '']('') (renderMarkdown ctx changes)" by simp
  with sublist_appendI [of "take 8 (sha c)" "''[''" "''](''"]
  have "sublist (take 8 (sha c)) (renderMarkdown ctx changes)" by (rule sublist_order.order_trans)
  then show ?thesis using CommitCoverage cov by (simp add: commit_errors_def str_includes_iff)
next
  case (PrCoverage ids)
  with cov obtain i x where i: "i \<in> set ids" "(i, x) \<in> set g \<union> set (acc_fallback st)"
    by (fastforce simp: covered_by_def)
  with wf obtain cat t a where "x = PrChange cat i t a" by (fastforce simp: pull_map_wf_def)
  moreover from i have "x \<in> set changes" by (force simp: ch image_iff)
  ultimately have "mentionsPull (renderMarkdown ctx changes) i"
    using needle_renderMarkdown [of x changes ctx] by (auto intro: mentionsPull_sublist)
  then show ?thesis using PrCoverage cov i by (auto simp: commit_errors_def list_ex_iff)
next
  case SkipCoverage
  then show ?thesis using cov by (simp add: commit_errors_def)
qed

lemma buildNotes_cases:
  assumes "buildNotes inp = Inr m"
  obtains g st ctx where "pull_map_wf g" "acc_inv g st"
    "sha ` set (releasable_commits inp) \<subseteq> dom (acc_coverage st)"
    "notes_changes m = map snd g @ map snd (acc_fallback st) @ acc_direct st"
    "notes_markdown m = renderMarkdown ctx (notes_changes m)"
    "notes_errors m = concat (map (commit_errors (notes_markdown m) (acc_coverage st)) (releasable_commits inp))
       @ (if releasable_commits inp \<noteq> [] \<and> notes_changes m = []
          then [show_nat (length (releasable_commits inp)) @ '' changed commit(s) exist, but the notes have no visible entries'']
          else [])"
proof -
  let ?g = "parseGeneratedNotePulls (ni_generatedNotes inp)"
  let ?st0 = "\<lparr>acc_fallback = [], acc_direct = [], acc_skipped = [], acc_coverage = Map.empty\<rparr>"
  let ?st = "foldl (absorb_commit ?g) ?st0 (releasable_commits inp)"
  have inv: "acc_inv ?g ?st" by (rule absorb_commits_inv) (simp add: acc_inv_def)
  have dom: "sha ` set (releasable_commits inp) \<subseteq> dom (acc_coverage ?st)"
    by (simp add: absorb_commits_dom)
  from assms obtain bl gt v where m: "m = notes_of inp bl gt v"
    by (auto simp: buildNotes_def bindR_eq_Inr)
  show ?thesis
    by (rule that [OF parseGeneratedNotePulls_wf inv dom])
      (simp_all only: m notes_of_def Let_def notes_model.simps)
qed

section \<open>Lemmas: sanitized text\<close>

fun mention_free :: "string \<Rightarrow> bool" where
  "mention_free (c # d # s) = (\<not> (c = CHR ''@'' \<and> mention_char d) \<and> mention_free (d # s))"
| "mention_free s = True"

lemma mention_free_Cons:
  "mention_free (c # s) \<longleftrightarrow> (s = [] \<or> \<not> (c = CHR ''@'' \<and> mention_char (hd s))) \<and> mention_free s"
  by (cases s) auto

lemma mention_free_iff: "mention_free s \<longleftrightarrow> (\<forall>a d b. s = a @ CHR ''@'' # d # b \<longrightarrow> \<not> mention_char d)"
proof (induction s)
  case (Cons c s)
  show ?case
  proof
    assume f: "mention_free (c # s)"
    show "\<forall>a d b. c # s = a @ CHR ''@'' # d # b \<longrightarrow> \<not> mention_char d"
    proof (intro allI impI)
      fix a d b assume eq: "c # s = a @ CHR ''@'' # d # b"
      then show "\<not> mention_char d"
        using f Cons.IH by (cases a) (auto simp: mention_free_Cons)
    qed
  next
    assume r: "\<forall>a d b. c # s = a @ CHR ''@'' # d # b \<longrightarrow> \<not> mention_char d"
    have "mention_free s"
      unfolding Cons.IH by (metis r append_Cons)
    moreover have "s = [] \<or> \<not> (c = CHR ''@'' \<and> mention_char (hd s))"
    proof (cases s)
      case (Cons d b)
      then show ?thesis using r [rule_format, of "[]" d b] by auto
    qed simp
    ultimately show "mention_free (c # s)" by (simp add: mention_free_Cons)
  qed
qed simp

lemma mention_free_sublist: "mention_free s \<Longrightarrow> sublist t s \<Longrightarrow> mention_free t"
  unfolding mention_free_iff sublist_def by (metis append_Cons append_assoc)

lemma blank_not_mention: "is_blank c \<Longrightarrow> \<not> mention_char c \<and> c \<noteq> CHR ''@''"
  by (auto simp: is_blank_def blanks_def mention_char_def less_eq_char_def)

lemma hd_neutralize: "s \<noteq> [] \<Longrightarrow> neutralize_mentions s \<noteq> [] \<and> hd (neutralize_mentions s) = hd s"
  by (cases s rule: neutralize_mentions.cases) auto

lemma mention_free_neutralize: "mention_free (neutralize_mentions s)"
proof (induction s rule: neutralize_mentions.induct)
  case (3 c d s)
  have "hd (neutralize_mentions (d # s)) = d" using hd_neutralize [of "d # s"] by simp
  with 3 show ?case
    by (auto simp: mention_free_Cons zwsp_def mention_char_def less_eq_char_def)
qed simp_all

lemma hd_collapse:
  "s \<noteq> [] \<Longrightarrow> collapse_blanks s \<noteq> [] \<and>
     hd (collapse_blanks s) = (if is_blank (hd s) then CHR 32 else hd s)"
  by (induction s rule: collapse_blanks.induct) auto

lemma mention_free_collapse: "mention_free s \<Longrightarrow> mention_free (collapse_blanks s)"
proof (induction s rule: collapse_blanks.induct)
  case (3 c d s)
  have "is_blank (CHR 32)" by (simp add: is_blank_def blanks_def)
  then show ?case
    using 3 hd_collapse [of "d # s"] blank_not_mention [of "CHR 32"]
    by (auto simp: mention_free_Cons)
qed simp_all

lemma trim_sublist: "sublist (trim s) s"
proof -
  have "prefix (trim_end x) x" for x
    unfolding trim_end_def using suffix_dropWhile [of is_blank "rev x"] by (simp add: suffix_to_prefix)
  moreover have "sublist (trim_start s) s"
    unfolding trim_start_def by (intro suffix_imp_sublist suffix_dropWhile)
  ultimately show ?thesis
    unfolding trim_def by (meson prefix_imp_sublist sublist_order.order_trans)
qed

definition printable :: "char \<Rightarrow> bool" where
  "printable c \<longleftrightarrow> (32::nat) \<le> of_char c"

lemma printable_collapse: "list_all printable s \<Longrightarrow> list_all printable (collapse_blanks s)"
  by (induction s rule: collapse_blanks.induct) (auto simp: printable_def)

lemma printable_neutralize: "list_all printable s \<Longrightarrow> list_all printable (neutralize_mentions s)"
  by (induction s rule: neutralize_mentions.induct) (auto simp: printable_def zwsp_def)

lemma printable_escape: "list_all printable s \<Longrightarrow> list_all printable (escape_markdown s)"
  by (auto simp: escape_markdown_def list_all_iff printable_def)

lemma printable_controls: "list_all printable (blank_controls s)"
  by (auto simp: blank_controls_def list_all_iff printable_def)

lemma sanitize_printable: "list_all printable (sanitizeNoteText t)"
proof -
  have tr: "list_all printable s \<Longrightarrow> list_all printable (trim s)" for s
    using set_mono_sublist [OF trim_sublist [of s]] by (auto simp: list_all_iff)
  show ?thesis
    unfolding sanitizeNoteText_def
    by (intro tr printable_collapse printable_neutralize printable_escape printable_controls)
qed

section \<open>Lemmas: the baseline\<close>

lemma compareTags_ok:
  "readVersion (drop 1 l) = Inr a \<Longrightarrow> readVersion (drop 1 r) = Inr b \<Longrightarrow>
   compareTags l r = compareComparisons a b"
  by (simp add: compareTags_def compareReleaseVersions_def)

interpretation tag_order: comparator compareTags "\<lambda>t. is_ok (readVersion (drop 1 t))"
  by unfold_locales (auto simp: is_ok_iff compareTags_ok compareComparisons_le)

lemma eligible_ok: "eligible_baseline self pt anc t \<Longrightarrow> is_ok (readVersion (drop 1 t))"
  by (auto simp: eligible_baseline_def rankAgainstSelf_def compareReleaseVersions_def is_ok_def bindR_def
      split: option.splits sum.splits)

section \<open>Properties\<close>


definition sample_notes_input :: notes_input where
  "sample_notes_input =
     \<lparr>ni_version = ''1.0.0'', ni_packageName = ''@wibias/benes'', ni_distTag = ''latest'',
      ni_repository = ''Wibias/Benes'', ni_tags = [''v0.9.0''],
      ni_commits = [\<lparr>sha = ''0123456789abcdef'', subject = ''fix: bounds'', body = [], pulls = []\<rparr>],
      ni_generatedNotes = [], ni_isAncestor = (\<lambda>_. True)\<rparr>"


text \<open>The floor of the notes is the newest release that may be one: an ancestor of the released
  commit that is strictly older than the release and, for a stable release, itself stable. Without
  such a tag there is no floor.\<close>

theorem baseline_newest_eligible:
  assumes "selectNotesBaseline v tags anc = Inr r"
  shows "\<exists>self pv. gitTagName v = Inr self \<and> parseSemver v = Inr pv \<and>
     (let ok = eligible_baseline self (pv_pre pv \<noteq> None) anc in
      case r of
        None \<Rightarrow> \<forall>t \<in> set tags. \<not> ok (trim t)
      | Some b \<Rightarrow> b \<in> trim ` set tags \<and> ok b \<and> anc b
          \<and> (\<forall>t \<in> set tags. ok (trim t) \<longrightarrow> compareTags (trim t) b \<le> 0))"
proof -
  from assms obtain self pv where sp: "gitTagName v = Inr self" "parseSemver v = Inr pv"
    and r: "r = (let el = filter (eligible_baseline self (pv_pre pv \<noteq> None) anc) (map trim tags) in
       if el = [] then None else Some (last (sort_by compareTags el)))"
    by (auto simp: selectNotesBaseline_def bindR_eq_Inr Let_def)
  let ?ok = "eligible_baseline self (pv_pre pv \<noteq> None) anc"
  let ?el = "filter ?ok (map trim tags)"
  have all: "list_all (\<lambda>t. is_ok (readVersion (drop 1 t))) ?el"
    by (auto simp: list_all_iff dest: eligible_ok)
  show ?thesis
  proof (cases "?el = []")
    case True
    with r sp show ?thesis by (auto simp: Let_def filter_empty_conv)
  next
    case False
    then have "sort_by compareTags ?el \<noteq> []"
      by (metis length_0_conv length_sort_by)
    then have "last (sort_by compareTags ?el) \<in> set ?el"
      using last_in_set set_sort_by by metis
    moreover have "compareTags (trim t) (last (sort_by compareTags ?el)) \<le> 0"
      if "t \<in> set tags" "?ok (trim t)" for t
      using that by (intro tag_order.last_sort_by_max [OF all]) auto
    moreover have "r = Some (last (sort_by compareTags ?el))" using r False by (simp add: Let_def)
    ultimately show ?thesis
      using sp by (auto simp: Let_def eligible_baseline_def)
  qed
qed

theorem baseline_newest_eligible_witness:
  "selectNotesBaseline ''1.1.0'' [''v0.9.0'', ''v1.0.0'', ''v1.1.0-preview.1'', ''v2.0.0''] (\<lambda>_. True) = Inr (Some ''v1.0.0'')
   \<and> eligible_baseline ''v1.1.0'' False (\<lambda>_. True) ''v1.0.0''"
proof -
  have r: "selectNotesBaseline ''1.1.0'' [''v0.9.0'', ''v1.0.0'', ''v1.1.0-preview.1'', ''v2.0.0''] (\<lambda>_. True)
      = Inr (Some ''v1.0.0'')" by code_simp
  have "gitTagName ''1.1.0'' = Inr ''v1.1.0''" "map_sum id pv_pre (parseSemver ''1.1.0'') = Inr None"
    by code_simp+
  with baseline_newest_eligible [OF r] r show ?thesis by (auto simp: Let_def)
qed

text \<open>Text taken from titles, subjects and logins cannot break out of its bullet or mention
  anyone: what the sanitizer returns holds no control character, so no line break, and no \<open>@\<close>
  directly before a character of a login.\<close>

theorem sanitize_safe:
  "list_all printable (sanitizeNoteText t)
   \<and> (\<forall>a d b. sanitizeNoteText t = a @ CHR ''@'' # d # b \<longrightarrow> \<not> mention_char d)"
proof -
  have "mention_free (sanitizeNoteText t)"
    unfolding sanitizeNoteText_def
    by (rule mention_free_sublist [OF _ trim_sublist])
      (intro mention_free_collapse mention_free_neutralize)
  then show ?thesis using sanitize_printable by (simp add: mention_free_iff)
qed

theorem sanitize_safe_witness:
  "sanitizeNoteText ''ping @team now'' = ''ping @'' @ zwsp @ ''team now''
   \<and> \<not> mention_char (CHR 0xE2)"
proof -
  have e: "sanitizeNoteText ''ping @team now'' = ''ping @'' @ zwsp @ ''team now''" by code_simp
  then have "sanitizeNoteText ''ping @team now'' = ''ping '' @ CHR ''@'' # CHR 0xE2 # ([CHR 0x80, CHR 0x8B] @ ''team now'')"
    by (simp add: zwsp_def)
  with sanitize_safe e show ?thesis by blast
qed

text \<open>A title of type \<open>constructor\<close> is given no category at all: the lookup finds the inherited
  \<^verbatim>\<open>constructor\<close> of the plain object, so the change gets a section of none of the five headings and
  appears only in the changelog at the end.\<close>

theorem constructor_title_uncategorized:
  "categoryFromTitle ''constructor: drop the field'' = Inherited \<and> Inherited \<notin> set NOTE_CATEGORIES
   \<and> categoryFromTitle ''feat: add it'' = Features"
  by code_simp

end
