(* ===== verification/Release_Plan.thy ===== *)
theory Release_Plan
  imports Release_Identity Release_Notes
begin

text \<open>
  \<^verbatim>\<open>scripts/lib/release/plan.ts\<close> and the snapshot types of \<^verbatim>\<open>scripts/lib/release/world.ts\<close>: from what
  the registries already hold to the list of mutations still needed, or a conflict, and the gates
  a plan has to pass. A \<^verbatim>\<open>string | null\<close> that the source tests for truth is \<open>truthy\<close> only when it is
  a non-empty string.
\<close>

section \<open>Data\<close>

record github_release_state =
  gr_tag :: string
  gr_draft :: bool
  gr_prerelease :: bool

record public_snapshot =
  npmHasVersion :: bool
  npmGitHead :: "string option"
  distTags :: "string \<Rightarrow> string option"
  tagSha :: "string option"
  githubRelease :: "github_release_state option"
  ciPushUrl :: "string option"
  serviceLifecycleUrl :: "string option"

datatype mutation_kind = StageNpm | CreateTag | CreateGithubRelease

datatype plan_intent =
    Fresh "mutation_kind list"
  | Recover "mutation_kind list"
  | Complete
  | Conflict "string list"

record publication_plan =
  plan_identity :: release_identity
  plan_repository :: string
  plan_notes :: notes_model
  plan_intent :: plan_intent
  plan_ciPushUrl :: "string option"
  plan_serviceLifecycleRequired :: bool
  plan_serviceLifecycleUrl :: "string option"

definition truthy :: "string option \<Rightarrow> bool" where
  "truthy v = (case v of None \<Rightarrow> False | Some s \<Rightarrow> s \<noteq> [])"

fun intent_mutations :: "plan_intent \<Rightarrow> mutation_kind list" where
  "intent_mutations (Fresh ms) = ms"
| "intent_mutations (Recover ms) = ms"
| "intent_mutations Complete = []"
| "intent_mutations (Conflict rs) = []"

section \<open>Service files\<close>

definition SERVICE_FILES :: "string list" where
  "SERVICE_FILES =
     [''cmd/benes/service.go'', ''cmd/benes/service_launchd.go'', ''cmd/benes/service_native.go'',
      ''cmd/benes/stop.go'', ''go.mod'', ''go.sum'', ''.github/workflows/service-lifecycle.yml'']"

definition SERVICE_PREFIXES :: "string list" where
  "SERVICE_PREFIXES = [''internal/servicectl/'', ''internal/winsw/'']"

definition serviceFilesChanged :: "string list \<Rightarrow> bool" where
  "serviceFilesChanged paths =
     list_ex (\<lambda>path.
       let normalized = map (\<lambda>c. if c = CHR 92 then CHR ''/'' else c) path in
       normalized \<in> set SERVICE_FILES \<or> list_ex (starts_with normalized) SERVICE_PREFIXES) paths"

section \<open>What is already public\<close>

definition githubReleaseMismatch :: "release_identity \<Rightarrow> github_release_state option \<Rightarrow> string option" where
  "githubReleaseMismatch idn release =
     (case release of
        None \<Rightarrow> Some ''GitHub Release is missing''
      | Some r \<Rightarrow>
          if gr_tag r \<noteq> gitTag idn
          then Some (''GitHub Release tag '' @ json_quote (gr_tag r) @ '' does not match '' @ gitTag idn)
          else if gr_draft r then Some (''GitHub Release '' @ gr_tag r @ '' is still a draft'')
          else if channel idn = Preview \<and> \<not> gr_prerelease r
          then Some (''Preview GitHub Release '' @ gr_tag r @ '' must be marked prerelease'')
          else if channel idn = Stable \<and> gr_prerelease r
          then Some (''Stable GitHub Release '' @ gr_tag r @ '' must not be marked prerelease'')
          else None)"

definition missing_mutations :: "public_snapshot \<Rightarrow> mutation_kind list" where
  "missing_mutations snap =
     (if npmHasVersion snap then [] else [StageNpm])
     @ (if truthy (tagSha snap) then [] else [CreateTag])
     @ (if githubRelease snap = None then [CreateGithubRelease] else [])"

definition classifyPublic :: "release_identity \<Rightarrow> public_snapshot \<Rightarrow> plan_intent" where
  "classifyPublic idn snap =
     (if truthy (tagSha snap) \<and> tagSha snap \<noteq> Some (sourceSha idn)
      then Conflict [gitTag idn @ '' already points at '' @ the (tagSha snap) @ '', not '' @ sourceSha idn]
      else if npmHasVersion snap \<and> \<not> truthy (npmGitHead snap)
      then Conflict [''npm already has '' @ packageName idn @ ''@'' @ version idn @
                     '', but gitHead is missing so this SHA cannot be proven'']
      else if npmHasVersion snap \<and> npmGitHead snap \<noteq> Some (sourceSha idn)
      then Conflict [''npm '' @ packageName idn @ ''@'' @ version idn @ '' was published from '' @
                     the (npmGitHead snap) @ '', not '' @ sourceSha idn]
      else
        (case (if githubRelease snap = None then None
               else githubReleaseMismatch idn (githubRelease snap)) of
           Some mismatch \<Rightarrow> Conflict [mismatch]
         | None \<Rightarrow>
             if githubRelease snap \<noteq> None \<and> \<not> npmHasVersion snap \<and> \<not> truthy (tagSha snap)
             then Conflict [''GitHub Release '' @ gitTag idn @ '' exists without npm '' @
                            packageName idn @ ''@'' @ version idn]
             else
               (let mutations = missing_mutations snap in
                if mutations = [] then Complete
                else if npmHasVersion snap \<or> truthy (tagSha snap) \<or> githubRelease snap \<noteq> None
                then Recover mutations
                else Fresh mutations)))"

section \<open>Gates\<close>

definition assertDistTagAdvance :: "release_identity \<Rightarrow> (string \<Rightarrow> string option) \<Rightarrow> bool \<Rightarrow> unit release" where
  "assertDistTagAdvance idn tags willPublishNpm =
     (if \<not> willPublishNpm then Inr ()
      else
        (case tags (tag_name (distTag idn)) of
           None \<Rightarrow> Inr ()
         | Some current \<Rightarrow>
             if current = [] then Inr ()
             else
               (case compareReleaseVersions (version idn) current of
                  Inl e \<Rightarrow> Inl (ReleaseError ''dist_tag_unreadable''
                    (''Cannot compare '' @ version idn @ '' with '' @ tag_name (distTag idn) @ '' tip '' @
                     json_quote current @ '': '' @ error_message e))
                | Inr forward \<Rightarrow>
                    if forward \<le> 0
                    then Inl (ReleaseError ''dist_tag_regression''
                      (''Version '' @ version idn @ '' does not move dist-tag '' @ [CHR 39] @
                       tag_name (distTag idn) @ [CHR 39] @ '' forward (current: '' @ current @ '')''))
                    else Inr ())))"

record ci_evidence =
  ce_ciPushUrl :: "string option"
  ce_serviceLifecycleRequired :: bool
  ce_serviceLifecycleUrl :: "string option"
  ce_sourceSha :: string
  ce_branch :: string

definition assertCiEvidence :: "ci_evidence \<Rightarrow> unit release" where
  "assertCiEvidence inp =
     (if \<not> truthy (ce_ciPushUrl inp)
      then Inl (ReleaseError ''ci_evidence_missing''
        (''No successful Cross-platform CI (ci.yml, push event) for '' @ ce_sourceSha inp @ '' on '' @
         ce_branch inp @ ''. Hosted Actions are the release gate; a pull-request run or local ci:pr is not a substitute.''))
      else if ce_serviceLifecycleRequired inp \<and> \<not> truthy (ce_serviceLifecycleUrl inp)
      then Inl (ReleaseError ''service_lifecycle_missing''
        (''Service-control files changed, but no successful service-lifecycle.yml run exists for '' @
         ce_sourceSha inp @ ''.''))
      else Inr ())"

definition assertNotes :: "notes_model \<Rightarrow> unit release" where
  "assertNotes notes =
     (if notes_errors notes \<noteq> []
      then Inl (ReleaseError ''notes_coverage'' (join_with newline (notes_errors notes)))
      else if trim (notes_markdown notes) = []
      then Inl (ReleaseError ''notes_empty'' ''Release notes were empty'')
      else Inr ())"

definition mutation_name :: "mutation_kind \<Rightarrow> string" where
  "mutation_name m =
     (case m of StageNpm \<Rightarrow> ''stage-npm'' | CreateTag \<Rightarrow> ''create-tag''
      | CreateGithubRelease \<Rightarrow> ''create-github-release'')"

definition intent_name :: "plan_intent \<Rightarrow> string" where
  "intent_name i =
     (case i of Fresh _ \<Rightarrow> ''fresh'' | Recover _ \<Rightarrow> ''recover'' | Complete \<Rightarrow> ''complete''
      | Conflict _ \<Rightarrow> ''conflict'')"

definition formatPlan :: "publication_plan \<Rightarrow> bool \<Rightarrow> string" where
  "formatPlan plan dryRun =
     (let idn = plan_identity plan;
          names = join_with '', '' (map mutation_name (intent_mutations (plan_intent plan)));
          mutations = (case plan_intent plan of
                         Conflict _ \<Rightarrow> ''none (conflict)''
                       | _ \<Rightarrow> if names = [] then ''none'' else names)
      in join_with newline
        [''package: '' @ packageName idn @ ''@'' @ version idn,
         ''git tag: '' @ gitTag idn,
         ''dist-tag: '' @ tag_name (distTag idn),
         ''source SHA: '' @ sourceSha idn,
         ''branch: '' @ branch_name (branch idn),
         ''intent: '' @ intent_name (plan_intent plan) @
           (case plan_intent plan of Conflict rs \<Rightarrow> newline @ join_with newline rs | _ \<Rightarrow> []),
         ''mutations: '' @ mutations,
         ''dry-run: '' @ (if dryRun then ''true'' else ''false''),
         ''notes baseline: '' @ (case notes_baseline (plan_notes plan) of None \<Rightarrow> ''(initial)'' | Some b \<Rightarrow> b)])"

record plan_input =
  pi_identity :: release_identity
  pi_packageVersion :: string
  pi_repository :: string
  pi_snapshot :: public_snapshot
  pi_tags :: "string list"
  pi_commits :: "history_commit list"
  pi_generatedNotes :: string
  pi_changedPaths :: "string list"
  pi_isAncestor :: "string \<Rightarrow> bool"

definition plan_notes_input :: "plan_input \<Rightarrow> notes_input" where
  "plan_notes_input inp =
     \<lparr>ni_version = version (pi_identity inp), ni_packageName = packageName (pi_identity inp),
      ni_distTag = tag_name (distTag (pi_identity inp)), ni_repository = pi_repository inp,
      ni_tags = pi_tags inp, ni_commits = pi_commits inp, ni_generatedNotes = pi_generatedNotes inp,
      ni_isAncestor = pi_isAncestor inp\<rparr>"

definition assemblePublicationPlan :: "plan_input \<Rightarrow> publication_plan release" where
  "assemblePublicationPlan inp =
     (let idn = pi_identity inp; snap = pi_snapshot inp in
      bindR (assertPackageVersion idn (pi_packageVersion inp)) (\<lambda>_.
      let intent = classifyPublic idn snap in
      case intent of
        Conflict reasons \<Rightarrow> Inl (ReleaseError ''public_conflict'' (join_with newline reasons))
      | _ \<Rightarrow>
        (let required = serviceFilesChanged (pi_changedPaths inp) in
         bindR (assertCiEvidence \<lparr>ce_ciPushUrl = ciPushUrl snap, ce_serviceLifecycleRequired = required,
                  ce_serviceLifecycleUrl = serviceLifecycleUrl snap, ce_sourceSha = sourceSha idn,
                  ce_branch = branch_name (branch idn)\<rparr>) (\<lambda>_.
         bindR (assertDistTagAdvance idn (distTags snap) (StageNpm \<in> set (intent_mutations intent))) (\<lambda>_.
         bindR (buildNotes (plan_notes_input inp)) (\<lambda>notes.
         bindR (assertNotes notes) (\<lambda>_.
         Inr \<lparr>plan_identity = idn, plan_repository = pi_repository inp, plan_notes = notes,
              plan_intent = intent, plan_ciPushUrl = ciPushUrl snap,
              plan_serviceLifecycleRequired = required,
              plan_serviceLifecycleUrl = serviceLifecycleUrl snap\<rparr>)))))))"

section \<open>Lemmas\<close>

definition is_conflict :: "plan_intent \<Rightarrow> bool" where
  "is_conflict i = (case i of Conflict _ \<Rightarrow> True | _ \<Rightarrow> False)"

text \<open>The public facts a release may build on: whatever exists was made from this commit.\<close>

definition consistent_public :: "release_identity \<Rightarrow> public_snapshot \<Rightarrow> bool" where
  "consistent_public idn snap \<longleftrightarrow>
     (truthy (tagSha snap) \<longrightarrow> tagSha snap = Some (sourceSha idn))
     \<and> (npmHasVersion snap \<longrightarrow> truthy (npmGitHead snap) \<and> npmGitHead snap = Some (sourceSha idn))
     \<and> (githubRelease snap \<noteq> None \<longrightarrow>
          githubReleaseMismatch idn (githubRelease snap) = None
          \<and> (npmHasVersion snap \<or> truthy (tagSha snap)))"

lemma classifyPublic_cases:
  "classifyPublic idn snap =
     (if consistent_public idn snap
      then (if missing_mutations snap = [] then Complete
            else if npmHasVersion snap \<or> truthy (tagSha snap) \<or> githubRelease snap \<noteq> None
            then Recover (missing_mutations snap) else Fresh (missing_mutations snap))
      else classifyPublic idn snap)
   \<and> (is_conflict (classifyPublic idn snap) \<longleftrightarrow> \<not> consistent_public idn snap)"
  by (auto simp: classifyPublic_def consistent_public_def is_conflict_def Let_def split: option.splits)

lemma missing_mutations_iff:
  "StageNpm \<in> set (missing_mutations snap) \<longleftrightarrow> \<not> npmHasVersion snap"
  "CreateTag \<in> set (missing_mutations snap) \<longleftrightarrow> \<not> truthy (tagSha snap)"
  "CreateGithubRelease \<in> set (missing_mutations snap) \<longleftrightarrow> githubRelease snap = None"
  "missing_mutations snap = [] \<longleftrightarrow> npmHasVersion snap \<and> truthy (tagSha snap) \<and> githubRelease snap \<noteq> None"
  by (auto simp: missing_mutations_def)

lemma assertDistTagAdvance_Inr:
  "assertDistTagAdvance idn tags will = Inr u \<longleftrightarrow>
     (will \<longrightarrow> (\<forall>current. tags (tag_name (distTag idn)) = Some current \<longrightarrow> current \<noteq> [] \<longrightarrow>
        (\<exists>d. compareReleaseVersions (version idn) current = Inr d \<and> d > 0)))"
  by (auto simp: assertDistTagAdvance_def split: option.splits sum.splits)

lemma assertCiEvidence_Inr:
  "assertCiEvidence e = Inr u \<longleftrightarrow> truthy (ce_ciPushUrl e)
     \<and> (ce_serviceLifecycleRequired e \<longrightarrow> truthy (ce_serviceLifecycleUrl e))"
  by (auto simp: assertCiEvidence_def)

lemma assertNotes_Inr:
  "assertNotes n = Inr u \<longleftrightarrow> notes_errors n = [] \<and> trim (notes_markdown n) \<noteq> []"
  by (auto simp: assertNotes_def)

lemma assertPackageVersion_Inr:
  "assertPackageVersion idn v = Inr u \<longleftrightarrow> trim v = version idn"
  by (auto simp: assertPackageVersion_def)

lemma assemblePublicationPlan_cases:
  assumes "assemblePublicationPlan inp = Inr plan"
  shows "plan_identity plan = pi_identity inp"
    and "plan_intent plan = classifyPublic (pi_identity inp) (pi_snapshot inp)"
    and "consistent_public (pi_identity inp) (pi_snapshot inp)"
    and "trim (pi_packageVersion inp) = version (pi_identity inp)"
    and "truthy (ciPushUrl (pi_snapshot inp))"
    and "serviceFilesChanged (pi_changedPaths inp) \<longrightarrow> truthy (serviceLifecycleUrl (pi_snapshot inp))"
    and "assertDistTagAdvance (pi_identity inp) (distTags (pi_snapshot inp))
           (StageNpm \<in> set (intent_mutations (plan_intent plan))) = Inr ()"
    and "buildNotes (plan_notes_input inp) = Inr (plan_notes plan)"
    and "notes_errors (plan_notes plan) = []" and "trim (notes_markdown (plan_notes plan)) \<noteq> []"
proof -
  let ?i = "classifyPublic (pi_identity inp) (pi_snapshot inp)"
  have nc: "\<not> is_conflict ?i"
    using assms by (auto simp: assemblePublicationPlan_def is_conflict_def Let_def bindR_eq_Inr
        split: plan_intent.splits)
  then show "consistent_public (pi_identity inp) (pi_snapshot inp)"
    using classifyPublic_cases by blast
  show "plan_identity plan = pi_identity inp" "plan_intent plan = ?i"
    "trim (pi_packageVersion inp) = version (pi_identity inp)"
    "truthy (ciPushUrl (pi_snapshot inp))"
    "serviceFilesChanged (pi_changedPaths inp) \<longrightarrow> truthy (serviceLifecycleUrl (pi_snapshot inp))"
    "assertDistTagAdvance (pi_identity inp) (distTags (pi_snapshot inp))
           (StageNpm \<in> set (intent_mutations (plan_intent plan))) = Inr ()"
    "buildNotes (plan_notes_input inp) = Inr (plan_notes plan)"
    "notes_errors (plan_notes plan) = []" "trim (notes_markdown (plan_notes plan)) \<noteq> []"
    using assms nc
    by (cases ?i; auto simp: assemblePublicationPlan_def is_conflict_def Let_def bindR_eq_Inr
        assertCiEvidence_Inr assertNotes_Inr assertPackageVersion_Inr)+
qed

section \<open>Properties\<close>


definition sample_identity :: release_identity where
  "sample_identity =
     \<lparr>packageName = ''@wibias/benes'', version = ''1.0.0'', gitTag = ''v1.0.0'', distTag = TagLatest,
      channel = Stable, sourceSha = replicate 40 (CHR ''a''), branch = Main\<rparr>"

definition sample_snapshot :: public_snapshot where
  "sample_snapshot =
     \<lparr>npmHasVersion = True, npmGitHead = Some (replicate 40 (CHR ''a'')), distTags = (\<lambda>_. None),
      tagSha = None, githubRelease = None, ciPushUrl = Some ''https://ci'', serviceLifecycleUrl = None\<rparr>"


text \<open>C5: a publication plan only exists behind its gates: the working copy is the requested
  version, a push CI run succeeded for the commit, a changed service file has its lifecycle run, a
  new npm version is strictly newer than the tip of its dist-tag, and the notes cover the history.\<close>

theorem plan_behind_gates:
  assumes "assemblePublicationPlan inp = Inr plan"
  shows "plan_identity plan = pi_identity inp
     \<and> plan_intent plan = classifyPublic (pi_identity inp) (pi_snapshot inp)
     \<and> \<not> is_conflict (plan_intent plan)
     \<and> trim (pi_packageVersion inp) = version (pi_identity inp)
     \<and> truthy (ciPushUrl (pi_snapshot inp))
     \<and> (serviceFilesChanged (pi_changedPaths inp) \<longrightarrow> truthy (serviceLifecycleUrl (pi_snapshot inp)))
     \<and> (\<forall>tip. StageNpm \<in> set (intent_mutations (plan_intent plan)) \<longrightarrow>
          distTags (pi_snapshot inp) (tag_name (distTag (pi_identity inp))) = Some tip \<longrightarrow> tip \<noteq> [] \<longrightarrow>
          (\<exists>d > 0. compareReleaseVersions (version (pi_identity inp)) tip = Inr d))
     \<and> notes_errors (plan_notes plan) = []"
  using assemblePublicationPlan_cases [OF assms] classifyPublic_cases [of "pi_identity inp" "pi_snapshot inp"]
  by (auto simp: assertDistTagAdvance_Inr)

definition sample_plan_input :: plan_input where
  "sample_plan_input =
     \<lparr>pi_identity = sample_identity, pi_packageVersion = ''1.0.0'', pi_repository = ''Wibias/Benes'',
      pi_snapshot = sample_snapshot, pi_tags = [''v0.9.0''],
      pi_commits = [\<lparr>sha = ''0123456789abcdef'', subject = ''fix: bounds'', body = [], pulls = []\<rparr>],
      pi_generatedNotes = [], pi_changedPaths = [''gui/src/app.ts''], pi_isAncestor = (\<lambda>_. True)\<rparr>"

theorem plan_behind_gates_witness:
  "\<exists>plan. assemblePublicationPlan sample_plan_input = Inr plan
     \<and> plan_intent plan = Recover [CreateTag, CreateGithubRelease] \<and> notes_errors (plan_notes plan) = []"
proof -
  have "is_ok (assemblePublicationPlan sample_plan_input)" by code_simp
  then obtain plan where p: "assemblePublicationPlan sample_plan_input = Inr plan"
    by (auto simp: is_ok_iff)
  have "classifyPublic sample_identity sample_snapshot = Recover [CreateTag, CreateGithubRelease]"
    by code_simp
  with plan_behind_gates [OF p] p show ?thesis by (auto simp: sample_plan_input_def)
qed

end
