(* ===== verification/Release_Execute.thy ===== *)
theory Release_Execute
  imports Release_Plan
begin

text \<open>
  \<^verbatim>\<open>scripts/lib/release/execute.ts\<close>: cutting a release and publishing it. The registries, git and the
  package manager are the interface \<^verbatim>\<open>ReleaseWorld\<close> of \<^verbatim>\<open>world.ts\<close>; here it is a record of functions on
  an arbitrary state \<open>'w\<close>, a parameter of every definition. An asynchronous function is a
  computation on that state that returns a value or throws, and every call of the interface is
  appended with its outcome to a trace, so that what a run did, and in which order, can be stated.
  The calls of a \<^verbatim>\<open>Promise.all\<close> are all made, in the order of its array; when some of them reject, the
  first rejection of that order is the one thrown.
\<close>

section \<open>The world and its trace\<close>

record history_span =
  span_baseline :: "string option"
  span_target :: string

record dispatch_request =
  dr_version :: string
  dr_distTag :: dist_tag
  dr_sha :: string
  dr_branch :: string
  dr_dryRun :: bool

record github_release_request =
  grr_tag :: string
  grr_sha :: string
  grr_notes :: string
  grr_prerelease :: bool

record generated_notes_request =
  gnr_repository :: string
  gnr_gitTag :: string
  gnr_target :: string
  gnr_baseline :: "string option"

record 'w release_world =
  w_packageName :: "'w \<Rightarrow> string release \<times> 'w"
  w_packageVersion :: "'w \<Rightarrow> string release \<times> 'w"
  w_currentBranch :: "'w \<Rightarrow> string release \<times> 'w"
  w_currentSha :: "'w \<Rightarrow> string release \<times> 'w"
  w_workingTreeDirty :: "'w \<Rightarrow> bool release \<times> 'w"
  w_remoteHead :: "string \<Rightarrow> 'w \<Rightarrow> string release \<times> 'w"
  w_listTags :: "'w \<Rightarrow> string list release \<times> 'w"
  w_isAncestor :: "string \<Rightarrow> string \<Rightarrow> 'w \<Rightarrow> bool release \<times> 'w"
  w_firstParentLog :: "history_span \<Rightarrow> 'w \<Rightarrow> history_row list release \<times> 'w"
  w_associatedPulls :: "string \<Rightarrow> 'w \<Rightarrow> associated_pull list release \<times> 'w"
  w_generatedNotes :: "generated_notes_request \<Rightarrow> 'w \<Rightarrow> string release \<times> 'w"
  w_changedFiles :: "history_span \<Rightarrow> 'w \<Rightarrow> string list release \<times> 'w"
  w_npmHasVersion :: "string \<Rightarrow> string \<Rightarrow> 'w \<Rightarrow> bool release \<times> 'w"
  w_npmGitHead :: "string \<Rightarrow> string \<Rightarrow> 'w \<Rightarrow> string option release \<times> 'w"
  w_npmDistTags :: "string \<Rightarrow> 'w \<Rightarrow> (string \<Rightarrow> string option) release \<times> 'w"
  w_remoteTagSha :: "string \<Rightarrow> 'w \<Rightarrow> string option release \<times> 'w"
  w_readGithubRelease :: "string \<Rightarrow> 'w \<Rightarrow> github_release_state option release \<times> 'w"
  w_ciPushUrl :: "string \<Rightarrow> string \<Rightarrow> 'w \<Rightarrow> string option release \<times> 'w"
  w_serviceLifecycleUrl :: "string \<Rightarrow> 'w \<Rightarrow> string option release \<times> 'w"
  w_waitForWorkflow :: "string \<Rightarrow> string \<Rightarrow> string \<Rightarrow> 'w \<Rightarrow> string release \<times> 'w"
  w_runLocalChecks :: "'w \<Rightarrow> unit release \<times> 'w"
  w_bumpPackageVersion :: "string \<Rightarrow> 'w \<Rightarrow> unit release \<times> 'w"
  w_commitAndPush :: "string \<Rightarrow> string \<Rightarrow> 'w \<Rightarrow> string release \<times> 'w"
  w_dispatchRelease :: "dispatch_request \<Rightarrow> 'w \<Rightarrow> unit release \<times> 'w"
  w_watchDispatchedRelease :: "string \<Rightarrow> string \<Rightarrow> 'w \<Rightarrow> unit release \<times> 'w"
  w_preparePackage :: "'w \<Rightarrow> unit release \<times> 'w"
  w_packDryRun :: "'w \<Rightarrow> unit release \<times> 'w"
  w_stageNpm :: "dist_tag \<Rightarrow> 'w \<Rightarrow> unit release \<times> 'w"
  w_createTag :: "string \<Rightarrow> string \<Rightarrow> 'w \<Rightarrow> unit release \<times> 'w"
  w_createGithubRelease :: "github_release_request \<Rightarrow> 'w \<Rightarrow> unit release \<times> 'w"

datatype event =
    EvLog string
  | EvReadText string "string release"
  | EvRemoteHead string "string release"
  | EvCurrentSha "string release"
  | EvTreeDirty "bool release"
  | EvNpmHasVersion string string "bool release"
  | EvNpmGitHead string string "string option release"
  | EvNpmDistTags
  | EvRemoteTagSha string "string option release"
  | EvReadGithubRelease string "github_release_state option release"
  | EvCiPushUrl string string "string option release"
  | EvReadHistory
  | EvWaitForWorkflow string string "string release"
  | EvLocalChecks "unit release"
  | EvBump string
  | EvCommitAndPush string string
  | EvDispatch dispatch_request
  | EvWatch
  | EvPack
  | EvStageNpm dist_tag
  | EvCreateTag string string
  | EvCreateGithubRelease github_release_request

type_synonym 'w wstate = "event list \<times> 'w"
type_synonym ('a, 'w) io = "'w wstate \<Rightarrow> 'a release \<times> 'w wstate"

definition returnIO :: "'a \<Rightarrow> ('a, 'w) io" where
  "returnIO x s = (Inr x, s)"

definition liftIO :: "'a release \<Rightarrow> ('a, 'w) io" where
  "liftIO r s = (r, s)"

definition bindIO :: "('a, 'w) io \<Rightarrow> ('a \<Rightarrow> ('b, 'w) io) \<Rightarrow> ('b, 'w) io" where
  "bindIO m f s = (case m s of (Inl e, t) \<Rightarrow> (Inl e, t) | (Inr x, t) \<Rightarrow> f x t)"

definition perform :: "('a release \<Rightarrow> event) \<Rightarrow> ('w \<Rightarrow> 'a release \<times> 'w) \<Rightarrow> ('a, 'w) io" where
  "perform ev op s = (case op (snd s) of (r, w) \<Rightarrow> (r, (fst s @ [ev r], w)))"

definition logIO :: "string \<Rightarrow> (unit, 'w) io" where
  "logIO msg s = (Inr (), (fst s @ [EvLog msg], snd s))"

text \<open>\<^verbatim>\<open>try { ... } catch { ... }\<close>\<close>

definition catchIO :: "('a, 'w) io \<Rightarrow> ('a, 'w) io \<Rightarrow> ('a, 'w) io" where
  "catchIO m h s = (case m s of (Inl e, t) \<Rightarrow> h t | (Inr x, t) \<Rightarrow> (Inr x, t))"

text \<open>One promise of a \<^verbatim>\<open>Promise.all\<close>: its rejection does not stop the calls after it.\<close>

definition settleIO :: "('a, 'w) io \<Rightarrow> ('a release, 'w) io" where
  "settleIO m s = (case m s of (r, t) \<Rightarrow> (Inr r, t))"

fun mapIO :: "('a \<Rightarrow> ('b, 'w) io) \<Rightarrow> 'a list \<Rightarrow> ('b list, 'w) io" where
  "mapIO f [] = returnIO []"
| "mapIO f (x # xs) = bindIO (f x) (\<lambda>y. bindIO (mapIO f xs) (\<lambda>ys. returnIO (y # ys)))"

section \<open>Waiting for npm\<close>

record npm_identity_probe =
  probe_version :: "string option"
  probe_gitHead :: "string option"

datatype npm_identity_class = Missing | PendingGitHead | Match | Foreign

definition classifyNpmIdentity :: "npm_identity_probe \<Rightarrow> string \<Rightarrow> string \<Rightarrow> npm_identity_class" where
  "classifyNpmIdentity probe expectedVersion expectedSha =
     (if \<not> truthy (probe_version probe) \<or> probe_version probe \<noteq> Some expectedVersion then Missing
      else if \<not> truthy (probe_gitHead probe) then PendingGitHead
      else if probe_gitHead probe = Some expectedSha then Match
      else Foreign)"

text \<open>\<open>left\<close> is the number of attempts still to make, \<open>attempts - left + 1\<close> the current one.\<close>

fun wait_attempts ::
  "(npm_identity_probe, 'w) io \<Rightarrow> (unit, 'w) io \<Rightarrow> string \<Rightarrow> string \<Rightarrow> nat \<Rightarrow> nat \<Rightarrow> (unit, 'w) io" where
  "wait_attempts read sleep vers expectedSha attempts 0 =
     liftIO (Inl (ReleaseError ''npm_verify_failed''
       (''npm '' @ vers @ '' did not show gitHead '' @ expectedSha)))"
| "wait_attempts read sleep vers expectedSha attempts (Suc left) =
     bindIO read (\<lambda>probe.
       let attempt = show_nat (attempts - left) @ ''/'' @ show_nat attempts in
       case classifyNpmIdentity probe vers expectedSha of
         Match \<Rightarrow> returnIO ()
       | Foreign \<Rightarrow> liftIO (Inl (ReleaseError ''npm_githead_mismatch''
           (''npm '' @ vers @ '' is published from a different gitHead than '' @ expectedSha)))
       | PendingGitHead \<Rightarrow>
           bindIO (logIO (''npm '' @ vers @ '' is visible; waiting for gitHead ('' @ attempt @ '')'')) (\<lambda>_.
           bindIO (if left > 0 then sleep else returnIO ()) (\<lambda>_.
           wait_attempts read sleep vers expectedSha attempts left))
       | Missing \<Rightarrow>
           bindIO (logIO (''npm '' @ vers @ '' not visible yet ('' @ attempt @ '')'')) (\<lambda>_.
           bindIO (if left > 0 then sleep else returnIO ()) (\<lambda>_.
           wait_attempts read sleep vers expectedSha attempts left)))"

definition waitForPublishedIdentity ::
  "(npm_identity_probe, 'w) io \<Rightarrow> (unit, 'w) io \<Rightarrow> string \<Rightarrow> string \<Rightarrow> nat \<Rightarrow> (unit, 'w) io" where
  "waitForPublishedIdentity read sleep vers expectedSha attempts =
     wait_attempts read sleep vers expectedSha attempts attempts"

definition ancestorFromExitCode :: "int \<Rightarrow> bool release" where
  "ancestorFromExitCode code =
     (if code = 0 then Inr True
      else if code = 1 then Inr False
      else Inl (ReleaseError ''git_failed'' (''git merge-base --is-ancestor failed (exit '' @ show_int code @ '')'')))"

section \<open>Publishing\<close>

definition readPublicSnapshot :: "'w release_world \<Rightarrow> release_identity \<Rightarrow> (public_snapshot, 'w) io" where
  "readPublicSnapshot W idn =
     bindIO (settleIO (perform (EvNpmHasVersion (packageName idn) (version idn))
              (w_npmHasVersion W (packageName idn) (version idn)))) (\<lambda>hasR.
     bindIO (settleIO (perform (EvNpmGitHead (packageName idn) (version idn))
              (w_npmGitHead W (packageName idn) (version idn)))) (\<lambda>headR.
     bindIO (settleIO (perform (\<lambda>_. EvNpmDistTags) (w_npmDistTags W (packageName idn)))) (\<lambda>tagsR.
     bindIO (settleIO (perform (EvRemoteTagSha (gitTag idn)) (w_remoteTagSha W (gitTag idn)))) (\<lambda>tshaR.
     bindIO (settleIO (perform (EvReadGithubRelease (gitTag idn)) (w_readGithubRelease W (gitTag idn)))) (\<lambda>relR.
     bindIO (settleIO (perform (EvCiPushUrl (sourceSha idn) (branch_name (branch idn)))
              (w_ciPushUrl W (sourceSha idn) (branch_name (branch idn))))) (\<lambda>ciR.
     bindIO (settleIO (perform (\<lambda>_. EvReadHistory) (w_serviceLifecycleUrl W (sourceSha idn)))) (\<lambda>svcR.
     liftIO (bindR hasR (\<lambda>has. bindR headR (\<lambda>head. bindR tagsR (\<lambda>tags. bindR tshaR (\<lambda>tsha.
       bindR relR (\<lambda>rel. bindR ciR (\<lambda>ci. bindR svcR (\<lambda>svc.
       Inr \<lparr>npmHasVersion = has, npmGitHead = head, distTags = tags, tagSha = tsha,
            githubRelease = rel, ciPushUrl = ci, serviceLifecycleUrl = svc\<rparr>)))))))))))))))"

fun run_mutations :: "publication_plan \<Rightarrow> 'w release_world \<Rightarrow> mutation_kind list \<Rightarrow> (string, 'w) io" where
  "run_mutations plan W [] = returnIO (intent_name (plan_intent plan))"
| "run_mutations plan W (StageNpm # ms) =
     bindIO (perform (\<lambda>_. EvStageNpm (distTag (plan_identity plan))) (w_stageNpm W (distTag (plan_identity plan)))) (\<lambda>_.
     bindIO (logIO (''npm staged '' @ packageName (plan_identity plan) @ ''@'' @ version (plan_identity plan) @
       ''. Review and approve the staged package with 2FA, then rerun this exact release workflow to finalize the Git tag and GitHub Release.'')) (\<lambda>_.
     returnIO ''staged-awaiting-approval''))"
| "run_mutations plan W (CreateTag # ms) =
     bindIO (perform (\<lambda>_. EvCreateTag (gitTag (plan_identity plan)) (sourceSha (plan_identity plan)))
              (w_createTag W (gitTag (plan_identity plan)) (sourceSha (plan_identity plan)))) (\<lambda>_.
     run_mutations plan W ms)"
| "run_mutations plan W (CreateGithubRelease # ms) =
     (let req = \<lparr>grr_tag = gitTag (plan_identity plan), grr_sha = sourceSha (plan_identity plan),
                 grr_notes = notes_markdown (plan_notes plan),
                 grr_prerelease = (channel (plan_identity plan) = Preview)\<rparr> in
      bindIO (perform (\<lambda>_. EvCreateGithubRelease req) (w_createGithubRelease W req)) (\<lambda>_.
      bindIO (perform (EvReadGithubRelease (gitTag (plan_identity plan)))
               (w_readGithubRelease W (gitTag (plan_identity plan)))) (\<lambda>release.
      case githubReleaseMismatch (plan_identity plan) release of
        Some mismatch \<Rightarrow> liftIO (Inl (ReleaseError ''github_release_mismatch'' mismatch))
      | None \<Rightarrow> run_mutations plan W ms)))"

definition executePlan :: "publication_plan \<Rightarrow> 'w release_world \<Rightarrow> bool \<Rightarrow> (string, 'w) io" where
  "executePlan plan W dryRun =
     bindIO (logIO (formatPlan plan dryRun)) (\<lambda>_.
     if dryRun
     then
       bindIO (perform (\<lambda>_. EvPack) (w_preparePackage W)) (\<lambda>_.
       bindIO (perform (\<lambda>_. EvPack) (w_packDryRun W)) (\<lambda>_.
       returnIO ''dry-run''))
     else
       (case plan_intent plan of
          Complete \<Rightarrow>
            bindIO (logIO ''Public metadata already matches this SHA; nothing to mutate.'') (\<lambda>_.
            returnIO ''already-complete'')
        | Conflict _ \<Rightarrow>
            liftIO (Inl (ReleaseError ''TypeError'' ''plan.intent.mutations is not iterable''))
        | Fresh ms \<Rightarrow> run_mutations plan W ms
        | Recover ms \<Rightarrow> run_mutations plan W ms))"

definition read_history :: "'w release_world \<Rightarrow> release_identity \<Rightarrow> string list \<Rightarrow> string option \<Rightarrow>
    (history_commit list, 'w) io" where
  "read_history W idn tags baseline =
     bindIO (perform (\<lambda>_. EvReadHistory)
       (w_firstParentLog W \<lparr>span_baseline = baseline, span_target = sourceSha idn\<rparr>)) (\<lambda>rows.
     mapIO (\<lambda>row. bindIO (perform (\<lambda>_. EvReadHistory) (w_associatedPulls W (row_sha row))) (\<lambda>ps.
       returnIO \<lparr>sha = row_sha row, subject = row_subject row, body = row_body row, pulls = ps\<rparr>)) rows)"

definition runPublish :: "'w release_world \<Rightarrow> release_identity \<Rightarrow> string \<Rightarrow> bool \<Rightarrow>
    (publication_plan \<times> string, 'w) io" where
  "runPublish W idn repo dryRun =
     bindIO (perform EvCurrentSha (w_currentSha W)) (\<lambda>observed.
     if observed \<noteq> sourceSha idn
     then liftIO (Inl (ReleaseError ''sha_mismatch''
       (''The branch moved after the audit (expected '' @ sourceSha idn @ '', got '' @ observed @ '')'')))
     else
     bindIO (liftIO (parseRepository repo)) (\<lambda>repository.
     bindIO (readPublicSnapshot W idn) (\<lambda>snapshot.
     bindIO (perform (\<lambda>_. EvReadHistory) (w_listTags W)) (\<lambda>tags.
     bindIO (mapIO (\<lambda>tag. perform (\<lambda>_. EvReadHistory) (w_isAncestor W tag (sourceSha idn))) tags) (\<lambda>flags.
     let isAncestor = (\<lambda>tag. map_of (rev (zip tags flags)) tag = Some True) in
     bindIO (liftIO (selectNotesBaseline (version idn) tags isAncestor)) (\<lambda>baseline.
     bindIO (read_history W idn tags baseline) (\<lambda>commits.
     bindIO (catchIO
       (perform (\<lambda>_. EvReadHistory)
         (w_generatedNotes W \<lparr>gnr_repository = repository, gnr_gitTag = gitTag idn,
            gnr_target = sourceSha idn, gnr_baseline = baseline\<rparr>))
       (bindIO (logIO ''GitHub generate-notes is unavailable; notes continue from git history.'') (\<lambda>_.
        returnIO []))) (\<lambda>generatedNotes.
     bindIO (perform (\<lambda>_. EvReadHistory)
       (w_changedFiles W \<lparr>span_baseline = baseline, span_target = sourceSha idn\<rparr>)) (\<lambda>changedPaths.
     bindIO (perform (EvReadText ''packageVersion'') (w_packageVersion W)) (\<lambda>packageVersion.
     bindIO (liftIO (assemblePublicationPlan
       \<lparr>pi_identity = idn, pi_packageVersion = packageVersion, pi_repository = repository,
        pi_snapshot = snapshot, pi_tags = tags, pi_commits = commits, pi_generatedNotes = generatedNotes,
        pi_changedPaths = changedPaths, pi_isAncestor = isAncestor\<rparr>)) (\<lambda>plan.
     bindIO (executePlan plan W dryRun) (\<lambda>outcome.
     returnIO (plan, outcome)))))))))))))"

section \<open>Cutting\<close>

record cut_input =
  ci_version :: string
  ci_distTag :: "dist_tag option"
  ci_publish :: bool
  ci_planOnly :: bool

definition already_used_error :: "release_identity \<Rightarrow> bool \<Rightarrow> string option \<Rightarrow> bool \<Rightarrow> release_error" where
  "already_used_error idn has tsha rel =
     ReleaseError ''already_used''
       (join_with newline (filter (\<lambda>s. s \<noteq> [])
          [if has then ''npm already has '' @ packageName idn @ ''@'' @ version idn else [],
           if truthy tsha then ''remote tag '' @ gitTag idn @ '' exists at '' @ the tsha else [],
           if rel then ''GitHub Release '' @ gitTag idn @ '' already exists'' else []])
        @ newline @ ''For an approved staged package on this exact branch version, rerun the release command to finalize GitHub metadata.'')"

definition dispatch_cut :: "'w release_world \<Rightarrow> release_identity \<Rightarrow> cut_input \<Rightarrow> string \<Rightarrow>
    (string option \<times> string, 'w) io" where
  "dispatch_cut W idn inp shaV =
     bindIO (perform (EvWaitForWorkflow shaV ''ci.yml'') (w_waitForWorkflow W shaV ''ci.yml'' ''Cross-platform CI'')) (\<lambda>_.
     bindIO (perform (EvRemoteHead (branch_name (branch idn))) (w_remoteHead W (branch_name (branch idn)))) (\<lambda>live.
     if live \<noteq> shaV
     then liftIO (Inl (ReleaseError ''branch_moved''
       (''origin/'' @ branch_name (branch idn) @ '' moved while waiting for CI ('' @ live @ '' != '' @ shaV @ '')'')))
     else
     (let req = \<lparr>dr_version = version idn, dr_distTag = distTag idn, dr_sha = shaV,
                 dr_branch = branch_name (branch idn), dr_dryRun = (\<not> ci_publish inp)\<rparr> in
      bindIO (perform (\<lambda>_. EvDispatch req) (w_dispatchRelease W req)) (\<lambda>_.
      bindIO (perform (\<lambda>_. EvWatch) (w_watchDispatchedRelease W shaV (branch_name (branch idn)))) (\<lambda>_.
      returnIO (Some shaV, if ci_publish inp then ''dispatched-stage-or-finalize'' else ''dispatched-dry-run''))))))"

definition runCut :: "'w release_world \<Rightarrow> cut_input \<Rightarrow> (string option \<times> string, 'w) io" where
  "runCut W inp =
     bindIO (perform (EvReadText ''currentBranch'') (w_currentBranch W)) (\<lambda>ref.
     bindIO (liftIO (branchFromRef ref)) (\<lambda>br.
     bindIO (perform EvTreeDirty (w_workingTreeDirty W)) (\<lambda>dirty.
     if dirty
     then liftIO (Inl (ReleaseError ''dirty_tree''
       (''Working tree is not clean '' @ [CHR 0xE2, CHR 0x80, CHR 0x94] @ '' commit or stash first.'')))
     else
     bindIO (perform (EvReadText ''packageName'') (w_packageName W)) (\<lambda>name.
     bindIO (perform EvCurrentSha (w_currentSha W)) (\<lambda>placeholderSha.
     bindIO (liftIO (resolveIdentity \<lparr>in_packageName = name, in_version = ci_version inp,
        in_sourceSha = placeholderSha, in_branch = branch_name br, in_distTag = ci_distTag inp\<rparr>)) (\<lambda>idn.
     bindIO (logIO (join_with newline
        [''cut '' @ packageName idn @ ''@'' @ version idn, ''branch '' @ branch_name (branch idn),
         ''dist-tag '' @ tag_name (distTag idn),
         ''workflow dry-run '' @ (if ci_publish inp then ''false'' else ''true'')])) (\<lambda>_.
     if ci_planOnly inp then returnIO (None, ''plan-only'')
     else
     bindIO (perform (EvReadText ''packageVersion'') (w_packageVersion W)) (\<lambda>packageVersion.
     bindIO (settleIO (perform (EvNpmHasVersion (packageName idn) (version idn))
              (w_npmHasVersion W (packageName idn) (version idn)))) (\<lambda>hasR.
     bindIO (settleIO (perform (EvRemoteTagSha (gitTag idn)) (w_remoteTagSha W (gitTag idn)))) (\<lambda>tshaR.
     bindIO (settleIO (perform (EvReadGithubRelease (gitTag idn)) (w_readGithubRelease W (gitTag idn)))) (\<lambda>relR.
     bindIO (settleIO (perform (\<lambda>_. EvNpmDistTags) (w_npmDistTags W (packageName idn)))) (\<lambda>tagsR.
     bindIO (liftIO hasR) (\<lambda>has. bindIO (liftIO tshaR) (\<lambda>tsha.
     bindIO (liftIO relR) (\<lambda>rel. bindIO (liftIO tagsR) (\<lambda>tags.
     let alreadyAtVersion = (packageVersion = version idn);
         approved = (alreadyAtVersion \<and> has \<and> \<not> truthy tsha \<and> rel = None)
     in
     if (has \<or> truthy tsha \<or> rel \<noteq> None) \<and> \<not> approved
     then liftIO (Inl (already_used_error idn has tsha (rel \<noteq> None)))
     else
     bindIO (if approved
             then logIO (''npm already has approved '' @ packageName idn @ ''@'' @ version idn @
               ''; dispatching recovery to create the audited Git tag and GitHub Release'')
             else returnIO ()) (\<lambda>_.
     bindIO (liftIO (assertDistTagAdvance idn tags (\<not> has))) (\<lambda>_.
     bindIO (perform EvLocalChecks (w_runLocalChecks W)) (\<lambda>_.
     bindIO (if alreadyAtVersion
             then
               bindIO (logIO (''package.json is already '' @ version idn @
                 ''; dispatching on the current SHA instead of cutting another bump'')) (\<lambda>_.
               perform EvCurrentSha (w_currentSha W))
             else
               bindIO (perform (\<lambda>_. EvBump (version idn)) (w_bumpPackageVersion W (version idn))) (\<lambda>_.
               perform (\<lambda>_. EvCommitAndPush (version idn) (branch_name (branch idn)))
                 (w_commitAndPush W (version idn) (branch_name (branch idn))))) (\<lambda>shaV.
     dispatch_cut W idn inp shaV))))))))))))))))))))"

section \<open>Rules for computations\<close>

text \<open>
  A triple: from a state with \<open>P\<close>, a normal return satisfies \<open>Q\<close> and a thrown error leaves a state
  with \<open>E\<close>. Both the trace and the world may be mentioned.
\<close>

definition triple ::
  "('w wstate \<Rightarrow> bool) \<Rightarrow> ('a, 'w) io \<Rightarrow> ('a \<Rightarrow> 'w wstate \<Rightarrow> bool) \<Rightarrow> ('w wstate \<Rightarrow> bool) \<Rightarrow> bool" where
  "triple P m Q E \<longleftrightarrow>
     (\<forall>s. P s \<longrightarrow> (case m s of (Inl e, t) \<Rightarrow> E t | (Inr x, t) \<Rightarrow> Q x t))"

lemma triple_D:
  assumes "triple P m Q E" "P s"
  shows "m s = (Inl e, t) \<Longrightarrow> E t" and "m s = (Inr x, t) \<Longrightarrow> Q x t"
  using assms(1) [unfolded triple_def, rule_format, OF assms(2)] by simp_all

lemma triple_state:
  assumes "triple P m (\<lambda>_. R) R" "P s"
  shows "R (snd (m s))"
proof -
  obtain r t where "m s = (r, t)" by (rule prod.exhaust)
  with triple_D [OF assms] show ?thesis by (cases r) auto
qed

lemma triple_I [intro?]:
  assumes "\<And>s e t. P s \<Longrightarrow> m s = (Inl e, t) \<Longrightarrow> E t" "\<And>s x t. P s \<Longrightarrow> m s = (Inr x, t) \<Longrightarrow> Q x t"
  shows "triple P m Q E"
  unfolding triple_def
proof (intro allI impI)
  fix s assume "P s"
  then show "case m s of (Inl e, t) \<Rightarrow> E t | (Inr x, t) \<Rightarrow> Q x t"
    using assms by (cases "m s"; cases "fst (m s)") auto
qed

lemma bindIO_Inl:
  "bindIO m f s = (Inl e, t) \<longleftrightarrow> m s = (Inl e, t) \<or> (\<exists>x u. m s = (Inr x, u) \<and> f x u = (Inl e, t))"
  by (auto simp: bindIO_def split: sum.splits prod.splits)

lemma bindIO_Inr:
  "bindIO m f s = (Inr y, t) \<longleftrightarrow> (\<exists>x u. m s = (Inr x, u) \<and> f x u = (Inr y, t))"
  by (auto simp: bindIO_def split: sum.splits prod.splits)

lemma bindIO_lift [simp]: "bindIO (liftIO (Inr x)) f = f x" "bindIO (liftIO (Inl e)) f = liftIO (Inl e)"
  by (auto simp: bindIO_def liftIO_def)

lemma triple_bind:
  assumes "triple P m R E" "\<And>x. triple (R x) (f x) Q E"
  shows "triple P (bindIO m f) Q E"
proof (rule triple_I)
  fix s e t assume "P s" "bindIO m f s = (Inl e, t)"
  then show "E t" unfolding bindIO_Inl using triple_D [OF assms(1)] triple_D(1) [OF assms(2)] by metis
next
  fix s y t assume "P s" "bindIO m f s = (Inr y, t)"
  then show "Q y t" unfolding bindIO_Inr using triple_D(2) [OF assms(1)] triple_D(2) [OF assms(2)] by metis
qed

lemma triple_return: "(\<And>s. P s \<Longrightarrow> Q x s) \<Longrightarrow> triple P (returnIO x) Q E"
  by (simp add: triple_def returnIO_def)

lemma triple_lift:
  "(\<And>s x. P s \<Longrightarrow> r = Inr x \<Longrightarrow> Q x s) \<Longrightarrow> (\<And>s e. P s \<Longrightarrow> r = Inl e \<Longrightarrow> E s) \<Longrightarrow> triple P (liftIO r) Q E"
  by (cases r) (simp_all add: triple_def liftIO_def)

lemma triple_pure: "(A \<Longrightarrow> triple P m Q E) \<Longrightarrow> triple (\<lambda>s. P s \<and> A) m Q E"
  by (auto simp: triple_def)

lemma triple_conseq:
  assumes "triple P m Q E" "\<And>s. P' s \<Longrightarrow> P s" "\<And>x s. Q x s \<Longrightarrow> Q' x s" "\<And>s. E s \<Longrightarrow> E' s"
  shows "triple P' m Q' E'"
  by (rule triple_I) (use assms triple_D [OF assms(1)] in blast)+

text \<open>A property of the trace that the events of a class \<open>quiet\<close> keep.\<close>

definition only_emits :: "(event \<Rightarrow> bool) \<Rightarrow> ('a, 'w) io \<Rightarrow> bool" where
  "only_emits ok m \<longleftrightarrow> (\<forall>s. \<exists>evs. fst (snd (m s)) = fst s @ evs \<and> list_all ok evs)"

named_theorems emits_intros \<open>which events a computation appends to the trace\<close>

lemma only_emits_I [intro?]:
  "(\<And>s. \<exists>evs. fst (snd (m s)) = fst s @ evs \<and> list_all ok evs) \<Longrightarrow> only_emits ok m"
  by (simp add: only_emits_def)

lemma only_emits_return [emits_intros]: "only_emits ok (returnIO x)"
  by (simp add: only_emits_def returnIO_def)

lemma only_emits_lift [emits_intros]: "only_emits ok (liftIO r)"
  by (simp add: only_emits_def liftIO_def)

lemma only_emits_log [emits_intros]: "(\<And>m. ok (EvLog m)) \<Longrightarrow> only_emits ok (logIO msg)"
  by (simp add: only_emits_def logIO_def)

lemma only_emits_perform [emits_intros]: "(\<And>r. ok (ev r)) \<Longrightarrow> only_emits ok (perform ev op)"
  by (simp add: only_emits_def perform_def split: prod.splits)

lemma settleIO_state [simp]: "snd (settleIO m s) = snd (m s)"
  by (simp add: settleIO_def split: prod.splits)

lemma only_emits_settle [emits_intros]: "only_emits ok m \<Longrightarrow> only_emits ok (settleIO m)"
  by (simp add: only_emits_def)

lemma only_emits_bind [emits_intros]:
  assumes "only_emits ok m" "\<And>x. only_emits ok (f x)"
  shows "only_emits ok (bindIO m f)"
proof
  fix s
  obtain r t where m: "m s = (r, t)" by (cases "m s")
  with assms(1) obtain es where es: "fst t = fst s @ es" "list_all ok es"
    unfolding only_emits_def by (metis fst_conv snd_conv)
  show "\<exists>evs. fst (snd (bindIO m f s)) = fst s @ evs \<and> list_all ok evs"
  proof (cases r)
    case (Inl e) with m es show ?thesis by (auto simp: bindIO_def)
  next
    case (Inr x)
    from assms(2) obtain fs where "fst (snd (f x t)) = fst t @ fs" "list_all ok fs"
      unfolding only_emits_def by blast
    with m es Inr show ?thesis by (auto simp: bindIO_def)
  qed
qed

lemma only_emits_catch [emits_intros]:
  assumes "only_emits ok m" "only_emits ok h"
  shows "only_emits ok (catchIO m h)"
proof
  fix s
  obtain r t where m: "m s = (r, t)" by (cases "m s")
  with assms(1) obtain es where es: "fst t = fst s @ es" "list_all ok es"
    unfolding only_emits_def by (metis fst_conv snd_conv)
  from assms(2) obtain fs where "fst (snd (h t)) = fst t @ fs" "list_all ok fs"
    unfolding only_emits_def by blast
  with m es show "\<exists>evs. fst (snd (catchIO m h s)) = fst s @ evs \<and> list_all ok evs"
    by (cases r) (auto simp: catchIO_def)
qed

lemma only_emits_mapIO [emits_intros]: "(\<And>x. only_emits ok (f x)) \<Longrightarrow> only_emits ok (mapIO f xs)"
  by (induction xs) (simp_all add: emits_intros)

lemma triple_quiet:
  assumes "only_emits ok m" "\<And>s evs. P s \<Longrightarrow> list_all ok evs \<Longrightarrow> I (fst s @ evs)"
  shows "triple P m (\<lambda>_ t. I (fst t)) (\<lambda>t. I (fst t))"
proof -
  have "I (fst t)" if "P s" "m s = (r, t)" for s r t
    using assms(1) [unfolded only_emits_def, rule_format, of s] assms(2) [OF that(1)] that(2) by auto
  then show ?thesis by (auto intro!: triple_I)
qed

section \<open>What a publish run may do\<close>

text \<open>
  The three mutations and what has to be read before each of them: the checkout is the audited
  commit, push CI succeeded for it, and npm either lacks the version (staging) or holds it from
  this very commit (tag and GitHub Release), while the artefact about to be created is absent.
\<close>

definition npm_from_source :: "release_identity \<Rightarrow> event set \<Rightarrow> bool" where
  "npm_from_source idn seen \<longleftrightarrow>
     EvNpmHasVersion (packageName idn) (version idn) (Inr True) \<in> seen
     \<and> EvNpmGitHead (packageName idn) (version idn) (Inr (Some (sourceSha idn))) \<in> seen"

definition audited :: "release_identity \<Rightarrow> event set \<Rightarrow> bool" where
  "audited idn seen \<longleftrightarrow>
     EvCurrentSha (Inr (sourceSha idn)) \<in> seen
     \<and> (\<exists>url. url \<noteq> [] \<and> EvCiPushUrl (sourceSha idn) (branch_name (branch idn)) (Inr (Some url)) \<in> seen)"

fun permitted :: "bool \<Rightarrow> release_identity \<Rightarrow> event set \<Rightarrow> event \<Rightarrow> bool" where
  "permitted dryRun idn seen (EvStageNpm t) \<longleftrightarrow>
     \<not> dryRun \<and> audited idn seen \<and> t = distTag idn
     \<and> EvNpmHasVersion (packageName idn) (version idn) (Inr False) \<in> seen"
| "permitted dryRun idn seen (EvCreateTag t h) \<longleftrightarrow>
     \<not> dryRun \<and> audited idn seen \<and> npm_from_source idn seen \<and> t = gitTag idn \<and> h = sourceSha idn
     \<and> (\<exists>v. EvRemoteTagSha (gitTag idn) (Inr v) \<in> seen \<and> \<not> truthy v)"
| "permitted dryRun idn seen (EvCreateGithubRelease req) \<longleftrightarrow>
     \<not> dryRun \<and> audited idn seen \<and> npm_from_source idn seen \<and> grr_tag req = gitTag idn
     \<and> grr_sha req = sourceSha idn \<and> (grr_prerelease req \<longleftrightarrow> channel idn = Preview)
     \<and> EvReadGithubRelease (gitTag idn) (Inr None) \<in> seen"
| "permitted dryRun idn seen (EvDispatch req) \<longleftrightarrow> False"
| "permitted dryRun idn seen (EvBump v) \<longleftrightarrow> False"
| "permitted dryRun idn seen (EvCommitAndPush v b) \<longleftrightarrow> False"
| "permitted dryRun idn seen ev \<longleftrightarrow> True"

definition safe_trace :: "(event set \<Rightarrow> event \<Rightarrow> bool) \<Rightarrow> event list \<Rightarrow> bool" where
  "safe_trace ok tr \<longleftrightarrow> (\<forall>i < length tr. ok (set (take i tr)) (tr ! i))"

lemma safe_trace_Nil [simp]: "safe_trace ok []"
  by (simp add: safe_trace_def)

lemma safe_trace_snoc [simp]: "safe_trace ok (tr @ [e]) \<longleftrightarrow> safe_trace ok tr \<and> ok (set tr) e"
  by (auto simp: safe_trace_def nth_append less_Suc_eq)

lemma safe_trace_append:
  "safe_trace ok tr \<Longrightarrow> list_all (\<lambda>e. \<forall>seen. ok seen e) evs \<Longrightarrow> safe_trace ok (tr @ evs)"
proof (induction evs arbitrary: tr)
  case (Cons e evs)
  then have "safe_trace ok ((tr @ [e]) @ evs)" by (intro Cons.IH) auto
  then show ?case by simp
qed simp

text \<open>The invariant of a run: the trace so far is safe and the events of \<open>F\<close> are in it.\<close>

definition knows :: "(event set \<Rightarrow> event \<Rightarrow> bool) \<Rightarrow> event set \<Rightarrow> 'w wstate \<Rightarrow> bool" where
  "knows ok F s \<longleftrightarrow> safe_trace ok (fst s) \<and> F \<subseteq> set (fst s)"

abbreviation always :: "(event set \<Rightarrow> event \<Rightarrow> bool) \<Rightarrow> event \<Rightarrow> bool" where
  "always ok e \<equiv> \<forall>seen. ok seen e"

lemma knows_quiet:
  assumes "only_emits (always ok) m"
  shows "triple (knows ok F) m (\<lambda>_. knows ok F) (knows ok {})"
proof -
  have "triple (knows ok F) m (\<lambda>_ t. safe_trace ok (fst t) \<and> F \<subseteq> set (fst t))
      (\<lambda>t. safe_trace ok (fst t) \<and> F \<subseteq> set (fst t))"
    using assms
    by (rule triple_quiet [where I = "\<lambda>tr. safe_trace ok tr \<and> F \<subseteq> set tr"])
      (auto simp: knows_def safe_trace_append)
  then show ?thesis by (rule triple_conseq) (simp_all add: knows_def)
qed

lemma knows_weaken: "knows ok F s \<Longrightarrow> G \<subseteq> F \<Longrightarrow> knows ok G s"
  by (auto simp: knows_def)

lemma knows_read:
  assumes "\<And>r. always ok (ev r)"
  shows "triple (knows ok F) (perform ev op) (\<lambda>x. knows ok (insert (ev (Inr x)) F)) (knows ok {})"
  using assms
  by (auto simp: triple_def perform_def knows_def split: prod.splits sum.splits)

lemma knows_settled:
  assumes "\<And>r. always ok (ev r)"
  shows "triple (knows ok F) (settleIO (perform ev op)) (\<lambda>r. knows ok (insert (ev r) F)) (knows ok {})"
  using assms
  by (auto simp: triple_def perform_def settleIO_def knows_def split: prod.splits sum.splits)

lemma knows_emit:
  assumes "\<And>seen. F \<subseteq> seen \<Longrightarrow> ok seen e"
  shows "triple (knows ok F) (perform (\<lambda>_. e) op) (\<lambda>_. knows ok (insert e F)) (knows ok {})"
  using assms
  by (auto simp: triple_def perform_def knows_def split: prod.splits sum.splits)

lemma knows_sub:
  "triple P m (\<lambda>_. knows ok F) (knows ok {}) \<Longrightarrow> G \<subseteq> F \<Longrightarrow> triple P m (\<lambda>_. knows ok G) (knows ok {})"
  by (erule triple_conseq) (auto simp: knows_weaken)

lemma knows_perform:
  assumes "\<And>seen. F \<subseteq> seen \<Longrightarrow> ok seen e"
  shows "triple (knows ok F) (perform (\<lambda>_. e) op) (\<lambda>_. knows ok F) (knows ok {})"
  by (rule knows_sub [OF knows_emit [where ok = ok]]) (use assms in auto)

lemma knows_lift: "triple (knows ok F) (liftIO r) (\<lambda>x s. knows ok F s \<and> r = Inr x) (knows ok {})"
  by (rule triple_lift) (auto simp: knows_def)

text \<open>What the snapshot a run has read says of the trace.\<close>

definition snapshot_events :: "release_identity \<Rightarrow> public_snapshot \<Rightarrow> event set" where
  "snapshot_events idn snap =
     {EvNpmHasVersion (packageName idn) (version idn) (Inr (npmHasVersion snap)),
      EvNpmGitHead (packageName idn) (version idn) (Inr (npmGitHead snap)),
      EvRemoteTagSha (gitTag idn) (Inr (tagSha snap)),
      EvReadGithubRelease (gitTag idn) (Inr (githubRelease snap)),
      EvCiPushUrl (sourceSha idn) (branch_name (branch idn)) (Inr (ciPushUrl snap))}"

lemma readPublicSnapshot_knows:
  assumes "ok = permitted d idn'"
  shows "triple (knows ok F) (readPublicSnapshot W idn)
    (\<lambda>snap. knows ok (F \<union> snapshot_events idn snap)) (knows ok {})"
  unfolding readPublicSnapshot_def assms
  by (rule triple_bind [OF knows_settled], simp)+
    (auto intro!: triple_lift simp: bindR_eq_Inr snapshot_events_def knows_def)

lemma run_mutations_knows:
  assumes "ok = permitted False idn" "plan_identity plan = idn"
    and "audited idn F" "npm_from_source idn F"
    and "CreateTag \<in> set ms \<Longrightarrow> \<exists>v. EvRemoteTagSha (gitTag idn) (Inr v) \<in> F \<and> \<not> truthy v"
    and "CreateGithubRelease \<in> set ms \<Longrightarrow> EvReadGithubRelease (gitTag idn) (Inr None) \<in> F"
    and "StageNpm \<notin> set ms"
  shows "triple (knows ok F) (run_mutations plan W ms) (\<lambda>_. knows ok F) (knows ok {})"
  using assms(5-7)
proof (induction ms)
  case Nil
  show ?case by (simp add: triple_return)
next
  case (Cons m ms)
  note mono = assms(3,4)
  have IH: "triple (knows ok F) (run_mutations plan W ms) (\<lambda>_. knows ok F) (knows ok {})"
    using Cons by simp
  show ?case
  proof (cases m)
    case StageNpm with Cons.prems show ?thesis by simp
  next
    case CreateTag
    have "ok seen (EvCreateTag (gitTag (plan_identity plan)) (sourceSha (plan_identity plan)))"
      if "F \<subseteq> seen" for seen
      using mono Cons.prems(1) CreateTag that assms(1,2)
      by (auto simp: audited_def npm_from_source_def)
    with CreateTag IH show ?thesis
      by (auto intro!: triple_bind knows_perform)
  next
    case CreateGithubRelease
    let ?req = "\<lparr>grr_tag = gitTag (plan_identity plan), grr_sha = sourceSha (plan_identity plan),
                 grr_notes = notes_markdown (plan_notes plan),
                 grr_prerelease = (channel (plan_identity plan) = Preview)\<rparr>"
    have "ok seen (EvCreateGithubRelease ?req)" if "F \<subseteq> seen" for seen
      using mono Cons.prems(2) CreateGithubRelease that assms(1,2)
      by (auto simp: audited_def npm_from_source_def)
    then have create: "triple (knows ok F) (perform (\<lambda>_. EvCreateGithubRelease ?req) (w_createGithubRelease W ?req))
        (\<lambda>_. knows ok F) (knows ok {})"
      by (intro knows_perform)
    have read: "triple (knows ok F) (perform (EvReadGithubRelease t) op) (\<lambda>_. knows ok F) (knows ok {})" for t op
      by (rule knows_quiet) (simp add: assms(1) only_emits_perform)
    have fail: "triple (knows ok F) (liftIO (Inl e)) (\<lambda>_. knows ok F) (knows ok {})" for e
      by (rule triple_lift) (auto simp: knows_def)
    show ?thesis
      unfolding CreateGithubRelease run_mutations.simps Let_def
      by (rule triple_bind [OF create], rule triple_bind [OF read]) (auto split: option.split intro: fail IH)
  qed
qed

lemma stage_knows:
  assumes "ok = permitted False idn" "plan_identity plan = idn" "audited idn F"
    and "EvNpmHasVersion (packageName idn) (version idn) (Inr False) \<in> F"
  shows "triple (knows ok F) (run_mutations plan W (StageNpm # ms)) (\<lambda>_. knows ok F) (knows ok {})"
proof -
  have "ok seen (EvStageNpm (distTag (plan_identity plan)))" if "F \<subseteq> seen" for seen
    using assms that by (auto simp: audited_def)
  then have "triple (knows ok F) (perform (\<lambda>_. EvStageNpm (distTag (plan_identity plan)))
      (w_stageNpm W (distTag (plan_identity plan)))) (\<lambda>_. knows ok F) (knows ok {})"
    by (intro knows_perform)
  moreover have "triple (knows ok F) (bindIO (logIO msg) (\<lambda>_. returnIO x)) (\<lambda>_. knows ok F) (knows ok {})" for msg x
    by (rule knows_quiet) (simp add: assms(1) emits_intros)
  ultimately show ?thesis unfolding run_mutations.simps by (rule triple_bind)
qed

lemma executePlan_knows:
  assumes "ok = permitted dryRun idn" "plan_identity plan = idn" "audited idn F"
    and "snapshot_events idn snap \<subseteq> F" "consistent_public idn snap"
    and "plan_intent plan = classifyPublic idn snap"
  shows "triple (knows ok F) (executePlan plan W dryRun) (\<lambda>_. knows ok F) (knows ok {})"
proof (cases dryRun)
  case True
  then show ?thesis unfolding executePlan_def
    by (intro knows_quiet) (simp add: assms(1) emits_intros)
next
  case False
  have mutate: "triple (knows ok F) (run_mutations plan W (missing_mutations snap)) (\<lambda>_. knows ok F) (knows ok {})"
  proof (cases "npmHasVersion snap")
    case True
    then show ?thesis using assms False
      by (intro run_mutations_knows)
        (auto simp: npm_from_source_def consistent_public_def snapshot_events_def missing_mutations_iff
          intro: exI [of _ "tagSha snap"])
  next
    case f: False
    then have "missing_mutations snap = StageNpm # tl (missing_mutations snap)"
      by (simp add: missing_mutations_def)
    with stage_knows [of ok idn plan F W "tl (missing_mutations snap)"] assms False f show ?thesis
      by (simp add: snapshot_events_def)
  qed
  have i: "plan_intent plan \<in> {Complete, Recover (missing_mutations snap), Fresh (missing_mutations snap)}"
    using classifyPublic_cases [of idn snap] assms(5,6) by (auto split: if_splits)
  have quiet: "triple (knows ok F) (bindIO (logIO msg) (\<lambda>_. returnIO x)) (\<lambda>_. knows ok F) (knows ok {})" for msg x
    by (rule knows_quiet) (simp add: assms(1) emits_intros)
  have log: "triple (knows ok F) (logIO msg) (\<lambda>_. knows ok F) (knows ok {})" for msg
    by (rule knows_quiet) (simp add: assms(1) emits_intros)
  show ?thesis unfolding executePlan_def using i False
    by (intro triple_bind [OF log]) (auto simp: mutate quiet)
qed

lemma runPublish_knows:
  assumes "ok = permitted dryRun idn"
  shows "triple (knows ok {}) (runPublish W idn repo dryRun) (\<lambda>_. knows ok {}) (knows ok {})"
proof -
  have pub: "triple (knows ok F) (bindIO (liftIO (assemblePublicationPlan inp)) (\<lambda>plan.
      bindIO (executePlan plan W dryRun) (\<lambda>out. returnIO (plan, out)))) (\<lambda>_. knows ok {}) (knows ok {})"
    if "insert (EvCurrentSha (Inr (sourceSha idn))) (snapshot_events idn (pi_snapshot inp)) \<subseteq> F"
      "pi_identity inp = idn" for F inp
  proof (cases "assemblePublicationPlan inp")
    case (Inl e)
    then show ?thesis by (auto intro!: triple_lift simp: knows_def)
  next
    case (Inr plan)
    note p = assemblePublicationPlan_cases [OF Inr]
    have "audited idn F" using that p(5) unfolding audited_def
      by (cases "ciPushUrl (pi_snapshot inp)") (auto simp: truthy_def snapshot_events_def)
    then have ex: "triple (knows ok F) (executePlan plan W dryRun) (\<lambda>_. knows ok F) (knows ok {})"
      using p that by (intro executePlan_knows [OF assms]) auto
    have "triple (knows ok F) (bindIO (executePlan plan W dryRun) (\<lambda>out. returnIO (plan, out)))
        (\<lambda>_. knows ok {}) (knows ok {})"
      by (rule triple_bind [OF ex]) (auto intro!: triple_return simp: knows_def)
    with Inr show ?thesis by simp
  qed
  note quiet = triple_bind [OF knows_quiet [of ok]]
  note emits = emits_intros assms
  show ?thesis
    unfolding runPublish_def read_history_def Let_def
    apply (rule triple_bind [OF knows_read], simp add: assms)
    apply (split if_split, intro conjI impI)
     apply (rule triple_lift; simp add: knows_def)
    apply (rule quiet, simp add: emits)
    apply (rule triple_bind [OF readPublicSnapshot_knows [OF assms]])
    apply (rule pub | (rule quiet, simp add: emits))+
     apply simp_all
    done
qed

text \<open>C1: whatever the registries answer, and whether or not the run fails half way, a publish run only
  performs permitted mutations, each after the reads that justify it: a dry run performs none; npm is
  staged only for a checkout of the audited commit with a green push CI and an npm that lacks the
  version; the tag and the GitHub Release are created only for that commit and only after npm was
  seen to hold the version from that same commit; no existing tag or release is overwritten.\<close>

theorem publish_mutations_permitted:
  "safe_trace (permitted dryRun idn) (fst (snd (runPublish W idn repo dryRun ([], w))))"
proof -
  have "knows (permitted dryRun idn) {} ([], w)" by (simp add: knows_def)
  from triple_state [OF runPublish_knows [OF refl] this] show ?thesis by (simp add: knows_def)
qed

section \<open>Finalizing converges\<close>

text \<open>
  The documented behaviour of the registries that finalizing a release relies on: the reads report
  the public state \<open>view\<close> and leave it alone, creating a tag publishes that tag, creating a GitHub
  Release publishes some release object under it, and neither touches anything else.
\<close>

definition keeps :: "('w \<Rightarrow> 'v) \<Rightarrow> ('a, 'w) io \<Rightarrow> bool" where
  "keeps view m \<longleftrightarrow> (\<forall>s. view (snd (snd (m s))) = view (snd s))"

definition op_keeps :: "('w \<Rightarrow> 'v) \<Rightarrow> ('w \<Rightarrow> 'a release \<times> 'w) \<Rightarrow> bool" where
  "op_keeps view op \<longleftrightarrow> (\<forall>w. view (snd (op w)) = view w)"

definition op_reads :: "('w \<Rightarrow> 'v) \<Rightarrow> ('v \<Rightarrow> 'a) \<Rightarrow> ('w \<Rightarrow> 'a release \<times> 'w) \<Rightarrow> bool" where
  "op_reads view field op \<longleftrightarrow> op_keeps view op \<and> (\<forall>w x. fst (op w) = Inr x \<longrightarrow> x = field (view w))"

definition lawful_world :: "'w release_world \<Rightarrow> release_identity \<Rightarrow> ('w \<Rightarrow> public_snapshot) \<Rightarrow> bool" where
  "lawful_world W idn view \<longleftrightarrow>
     op_reads view npmHasVersion (w_npmHasVersion W (packageName idn) (version idn))
     \<and> op_reads view npmGitHead (w_npmGitHead W (packageName idn) (version idn))
     \<and> op_reads view tagSha (w_remoteTagSha W (gitTag idn))
     \<and> op_reads view githubRelease (w_readGithubRelease W (gitTag idn))
     \<and> op_keeps view (w_npmDistTags W (packageName idn))
     \<and> op_keeps view (w_ciPushUrl W (sourceSha idn) (branch_name (branch idn)))
     \<and> op_keeps view (w_serviceLifecycleUrl W (sourceSha idn))
     \<and> op_keeps view (w_currentSha W) \<and> op_keeps view (w_listTags W) \<and> op_keeps view (w_packageVersion W)
     \<and> (\<forall>t h. op_keeps view (w_isAncestor W t h)) \<and> (\<forall>sp. op_keeps view (w_firstParentLog W sp))
     \<and> (\<forall>c. op_keeps view (w_associatedPulls W c)) \<and> (\<forall>r. op_keeps view (w_generatedNotes W r))
     \<and> (\<forall>sp. op_keeps view (w_changedFiles W sp))
     \<and> (\<forall>w w'. w_createTag W (gitTag idn) (sourceSha idn) w = (Inr (), w') \<longrightarrow>
          view w' = (view w)\<lparr>tagSha := Some (sourceSha idn)\<rparr>)
     \<and> (\<forall>req w w'. grr_tag req = gitTag idn \<longrightarrow> w_createGithubRelease W req w = (Inr (), w') \<longrightarrow>
          (\<exists>r. view w' = (view w)\<lparr>githubRelease := Some r\<rparr>))"

lemma keeps_intros [emits_intros]:
  "keeps view (returnIO x)" "keeps view (liftIO r)" "keeps view (logIO msg)"
  "op_keeps view op \<Longrightarrow> keeps view (perform ev op)"
  "keeps view m \<Longrightarrow> keeps view (settleIO m)"
  by (auto simp: keeps_def returnIO_def liftIO_def logIO_def op_keeps_def perform_def settleIO_def
      split: prod.splits) (metis snd_conv)+

lemma keeps_D: "keeps view m \<Longrightarrow> m s = (r, t) \<Longrightarrow> view (snd t) = view (snd s)"
  unfolding keeps_def by (metis snd_conv)

lemma keeps_apply: "keeps view m \<Longrightarrow> view (snd (snd (m s))) = view (snd s)"
  unfolding keeps_def by blast

lemma keeps_bind [emits_intros]:
  assumes "keeps view m" "\<And>x. keeps view (f x)"
  shows "keeps view (bindIO m f)"
  unfolding keeps_def
proof
  fix s
  obtain r t where m: "m s = (r, t)" by (rule prod.exhaust)
  then show "view (snd (snd (bindIO m f s))) = view (snd s)"
    using keeps_apply [OF assms(1), of s] keeps_apply [OF assms(2), of _ t] by (cases r) (auto simp: bindIO_def)
qed

lemma keeps_catch [emits_intros]:
  assumes "keeps view m" "keeps view h"
  shows "keeps view (catchIO m h)"
  unfolding keeps_def
proof
  fix s
  obtain r t where m: "m s = (r, t)" by (rule prod.exhaust)
  then show "view (snd (snd (catchIO m h s))) = view (snd s)"
    using keeps_apply [OF assms(1), of s] keeps_apply [OF assms(2), of t] by (cases r) (auto simp: catchIO_def)
qed

lemma keeps_mapIO [emits_intros]: "(\<And>x. keeps view (f x)) \<Longrightarrow> keeps view (mapIO f xs)"
  by (induction xs) (simp_all add: emits_intros)

lemma keeps_triple:
  "keeps view m \<Longrightarrow> triple (\<lambda>s. view (snd s) = v) m (\<lambda>_ s. view (snd s) = v) (\<lambda>_. True)"
  by (rule triple_I) (auto dest: keeps_D)

lemma reads_triple:
  assumes "op_reads view field op"
  shows "triple (\<lambda>s. view (snd s) = v) (perform ev op) (\<lambda>x s. view (snd s) = v \<and> x = field v) (\<lambda>_. True)"
  using assms unfolding op_reads_def op_keeps_def
  by (intro triple_I) (auto simp: perform_def split: prod.splits, (metis fst_conv snd_conv)+)

lemma reads_settled:
  assumes "op_reads view field op"
  shows "triple (\<lambda>s. view (snd s) = v) (settleIO (perform ev op))
    (\<lambda>r s. view (snd s) = v \<and> (\<forall>x. r = Inr x \<longrightarrow> x = field v)) (\<lambda>_. True)"
  using assms unfolding op_reads_def op_keeps_def
  by (intro triple_I) (auto simp: settleIO_def perform_def split: prod.splits, (metis fst_conv snd_conv)+)

definition same_public :: "public_snapshot \<Rightarrow> public_snapshot \<Rightarrow> bool" where
  "same_public a b \<longleftrightarrow> npmHasVersion a = npmHasVersion b \<and> npmGitHead a = npmGitHead b
     \<and> tagSha a = tagSha b \<and> githubRelease a = githubRelease b"

lemma lawful_reads:
  assumes "lawful_world W idn view"
  shows "op_reads view npmHasVersion (w_npmHasVersion W (packageName idn) (version idn))"
    and "op_reads view npmGitHead (w_npmGitHead W (packageName idn) (version idn))"
    and "op_reads view tagSha (w_remoteTagSha W (gitTag idn))"
    and "op_reads view githubRelease (w_readGithubRelease W (gitTag idn))"
  using assms by (simp_all only: lawful_world_def)

lemma lawful_keeps:
  assumes "lawful_world W idn view"
  shows "op_keeps view (w_npmDistTags W (packageName idn))"
    and "op_keeps view (w_ciPushUrl W (sourceSha idn) (branch_name (branch idn)))"
    and "op_keeps view (w_serviceLifecycleUrl W (sourceSha idn))"
    and "op_keeps view (w_currentSha W)" and "op_keeps view (w_listTags W)"
    and "op_keeps view (w_packageVersion W)" and "op_keeps view (w_isAncestor W t h)"
    and "op_keeps view (w_firstParentLog W sp)" and "op_keeps view (w_associatedPulls W c)"
    and "op_keeps view (w_generatedNotes W r)" and "op_keeps view (w_changedFiles W sp)"
  using assms by (simp_all only: lawful_world_def)

lemma snapshot_reads:
  assumes "lawful_world W idn view"
  shows "triple (\<lambda>s. view (snd s) = v) (readPublicSnapshot W idn)
    (\<lambda>snap s. view (snd s) = v \<and> same_public snap v) (\<lambda>_. True)"
proof -
  note reads = lawful_reads [OF assms] and keeps = lawful_keeps [OF assms] emits_intros
  note kp = triple_bind [OF keeps_triple]
  show ?thesis
    unfolding readPublicSnapshot_def
    apply (rule triple_bind [OF reads_settled [OF reads(1)]], rule triple_pure)
    apply (rule triple_bind [OF reads_settled [OF reads(2)]], rule triple_pure)
    apply (rule kp, simp add: keeps)
    apply (rule triple_bind [OF reads_settled [OF reads(3)]], rule triple_pure)
    apply (rule triple_bind [OF reads_settled [OF reads(4)]], rule triple_pure)
    apply (rule kp, simp add: keeps)+
    apply (rule triple_lift; clarsimp simp: bindR_eq_Inr same_public_def)
    done
qed

definition finalized :: "release_identity \<Rightarrow> public_snapshot \<Rightarrow> mutation_kind list \<Rightarrow> public_snapshot \<Rightarrow> bool" where
  "finalized idn v ms u \<longleftrightarrow>
     npmHasVersion u = npmHasVersion v \<and> npmGitHead u = npmGitHead v
     \<and> tagSha u = (if CreateTag \<in> set ms then Some (sourceSha idn) else tagSha v)
     \<and> (if CreateGithubRelease \<in> set ms
        then githubRelease u \<noteq> None \<and> githubReleaseMismatch idn (githubRelease u) = None
        else githubRelease u = githubRelease v)"

lemma run_mutations_finalize:
  assumes "lawful_world W idn view" "plan_identity plan = idn" "StageNpm \<notin> set ms"
  shows "triple (\<lambda>s. view (snd s) = v) (run_mutations plan W ms)
    (\<lambda>out s. out = intent_name (plan_intent plan) \<and> finalized idn v ms (view (snd s))) (\<lambda>_. True)"
  using assms(3)
proof (induction ms arbitrary: v)
  case Nil
  then show ?case by (auto intro!: triple_return simp: finalized_def)
next
  case (Cons m ms)
  note L = assms(1) [unfolded lawful_world_def]
  have IH: "triple (\<lambda>s. view (snd s) = v) (run_mutations plan W ms)
    (\<lambda>out s. out = intent_name (plan_intent plan) \<and> finalized idn v ms (view (snd s))) (\<lambda>_. True)" for v
    using Cons by simp
  show ?case
  proof (cases m)
    case StageNpm with Cons.prems show ?thesis by simp
  next
    case CreateTag
    let ?v = "v\<lparr>tagSha := Some (sourceSha idn)\<rparr>"
    have "triple (\<lambda>s. view (snd s) = v) (perform ev (w_createTag W (gitTag idn) (sourceSha idn)))
        (\<lambda>_ s. view (snd s) = ?v) (\<lambda>_. True)" for ev
      using L by (intro triple_I) (auto simp: perform_def split: prod.splits)
    moreover have "finalized idn ?v ms u \<Longrightarrow> finalized idn v (m # ms) u" for u
      by (auto simp: finalized_def CreateTag split: if_splits)
    ultimately show ?thesis unfolding CreateTag run_mutations.simps assms(2)
      by (intro triple_bind) (auto intro: triple_conseq [OF IH [of ?v]] simp: CreateTag)
  next
    case CreateGithubRelease
    let ?v = "\<lambda>r. v\<lparr>githubRelease := Some r\<rparr>"
    have create: "triple (\<lambda>s. view (snd s) = v) (perform ev (w_createGithubRelease W req))
        (\<lambda>_ s. \<exists>r. view (snd s) = ?v r) (\<lambda>_. True)" if "grr_tag req = gitTag idn" for ev req
      using L that by (intro triple_I) (auto simp: perform_def split: prod.splits)
    have read: "triple (\<lambda>s. \<exists>r. view (snd s) = ?v r)
        (perform ev (w_readGithubRelease W (gitTag idn)))
        (\<lambda>x s. \<exists>r. x = Some r \<and> view (snd s) = ?v r) (\<lambda>_. True)" for ev
    proof (rule triple_I)
      fix s x t assume "\<exists>r. view (snd s) = ?v r" "perform ev (w_readGithubRelease W (gitTag idn)) s = (Inr x, t)"
      then obtain r where "view (snd s) = ?v r" by blast
      moreover have "op_reads view githubRelease (w_readGithubRelease W (gitTag idn))" using L by blast
      note triple_D(2) [OF reads_triple [OF this, of "?v r" ev], of s x t]
      ultimately show "\<exists>r. x = Some r \<and> view (snd t) = ?v r"
        using \<open>perform ev (w_readGithubRelease W (gitTag idn)) s = (Inr x, t)\<close> by auto
    qed simp
    have fin: "finalized idn (?v r) ms u \<Longrightarrow> githubReleaseMismatch idn (Some r) = None \<Longrightarrow>
        finalized idn v (m # ms) u" for u r
      by (auto simp: finalized_def CreateGithubRelease split: if_splits)
    have rest: "triple (\<lambda>s. \<exists>r. x = Some r \<and> view (snd s) = ?v r)
        (case githubReleaseMismatch idn x of Some e \<Rightarrow> liftIO (Inl (ReleaseError ''github_release_mismatch'' e))
          | None \<Rightarrow> run_mutations plan W ms)
        (\<lambda>out s. out = intent_name (plan_intent plan) \<and> finalized idn v (m # ms) (view (snd s))) (\<lambda>_. True)" for x
    proof (cases "githubReleaseMismatch idn x")
      case None
      then obtain r where x: "x = Some r" by (cases x) (auto simp: githubReleaseMismatch_def)
      from None show ?thesis
        by (auto simp: x intro!: triple_conseq [OF IH [of "?v r"]] fin)
    qed (auto intro!: triple_lift)
    show ?thesis unfolding CreateGithubRelease run_mutations.simps assms(2) Let_def
      by (rule triple_bind [OF create], simp, rule triple_bind [OF read], rule rest [unfolded CreateGithubRelease])
  qed
qed

lemma finalized_complete:
  assumes "consistent_public idn snap" "same_public snap v" "npmHasVersion snap"
    and "finalized idn v (missing_mutations snap) u"
  shows "classifyPublic idn u = Complete"
proof -
  have sha: "truthy (Some (sourceSha idn))" "npmGitHead v = Some (sourceSha idn)" "npmHasVersion v"
    using assms(1-3) by (auto simp: consistent_public_def same_public_def)
  have tag: "tagSha u = Some (sourceSha idn)"
    using assms by (auto simp: finalized_def missing_mutations_iff consistent_public_def same_public_def)
  have rel: "githubRelease u \<noteq> None \<and> githubReleaseMismatch idn (githubRelease u) = None"
    using assms by (auto simp: finalized_def missing_mutations_iff consistent_public_def same_public_def
        split: if_splits)
  have npm: "npmHasVersion u" "npmGitHead u = Some (sourceSha idn)"
    using assms(4) sha by (auto simp: finalized_def)
  have "consistent_public idn u" "missing_mutations u = []"
    using sha tag rel npm by (auto simp: consistent_public_def missing_mutations_iff)
  then show ?thesis using classifyPublic_cases [of idn u] by simp
qed

definition publish_post :: "release_identity \<Rightarrow> string \<Rightarrow> public_snapshot \<Rightarrow> bool" where
  "publish_post idn outcome u \<longleftrightarrow>
     outcome \<in> {''staged-awaiting-approval'', ''already-complete'', ''recover''}
     \<and> (outcome \<noteq> ''staged-awaiting-approval'' \<longrightarrow> classifyPublic idn u = Complete)"

lemma executePlan_post:
  assumes "lawful_world W idn view" "plan_identity plan = idn" "consistent_public idn snap"
    and "plan_intent plan = classifyPublic idn snap" "same_public snap v"
  shows "triple (\<lambda>s. view (snd s) = v) (executePlan plan W False)
    (\<lambda>out s. publish_post idn out (view (snd s))) (\<lambda>_. True)"
proof -
  note log = triple_bind [OF keeps_triple [OF keeps_intros(3)]]
  let ?ms = "missing_mutations snap"
  show ?thesis
  proof (cases "npmHasVersion snap")
    case npm: True
    then have fin: "finalized idn v ?ms u \<Longrightarrow> classifyPublic idn u = Complete" for u
      using finalized_complete assms by blast
    have i: "plan_intent plan = (if ?ms = [] then Complete else Recover ?ms)"
      using classifyPublic_cases [of idn snap] assms(3,4) npm by simp
    have "StageNpm \<notin> set ?ms" using npm by (simp add: missing_mutations_iff)
    from run_mutations_finalize [OF assms(1,2) this, of v]
    have "triple (\<lambda>s. view (snd s) = v) (run_mutations plan W ?ms)
      (\<lambda>out s. out = intent_name (plan_intent plan) \<and> finalized idn v ?ms (view (snd s))) (\<lambda>_. True)" .
    then have "triple (\<lambda>s. view (snd s) = v) (run_mutations plan W ?ms)
        (\<lambda>out s. publish_post idn out (view (snd s))) (\<lambda>_. True)" if "?ms \<noteq> []"
      using that fin i by (auto elim!: triple_conseq simp: publish_post_def intent_name_def)
    moreover have "publish_post idn ''already-complete'' v" if "?ms = []"
      using fin [of v] that by (simp add: finalized_def publish_post_def)
    ultimately show ?thesis unfolding executePlan_def i
      by (intro log) (auto intro!: log triple_return)
  next
    case False
    then obtain ms where ms: "?ms = StageNpm # ms" by (simp add: missing_mutations_def)
    have "triple (\<lambda>s. view (snd s) = v) (run_mutations plan W ?ms)
        (\<lambda>out s. publish_post idn out (view (snd s))) (\<lambda>_. True)"
      unfolding ms run_mutations.simps
      by (intro triple_bind [where R = "\<lambda>_ _. True"] triple_return triple_I) (auto simp: publish_post_def)
    moreover have "plan_intent plan \<in> {Recover ?ms, Fresh ?ms}"
      using classifyPublic_cases [of idn snap] assms(3,4) ms by (auto split: if_splits)
    ultimately show ?thesis unfolding executePlan_def
      by (intro log) auto
  qed
qed

lemma runPublish_post:
  assumes "lawful_world W idn view"
  shows "triple (\<lambda>s. view (snd s) = v) (runPublish W idn repo False)
    (\<lambda>p s. publish_post idn (snd p) (view (snd s))) (\<lambda>_. True)"
proof -
  note keeps = lawful_keeps [OF assms] emits_intros
  note kp = triple_bind [OF keeps_triple]
  have pub: "triple (\<lambda>s. view (snd s) = v) (bindIO (liftIO (assemblePublicationPlan inp)) (\<lambda>plan.
      bindIO (executePlan plan W False) (\<lambda>out. returnIO (plan, out))))
      (\<lambda>p s. publish_post idn (snd p) (view (snd s))) (\<lambda>_. True)"
    if "pi_identity inp = idn" "same_public (pi_snapshot inp) v" for inp
  proof (cases "assemblePublicationPlan inp")
    case (Inl e) then show ?thesis by (auto intro!: triple_lift)
  next
    case (Inr plan)
    note p = assemblePublicationPlan_cases [OF Inr]
    from that p have "triple (\<lambda>s. view (snd s) = v) (executePlan plan W False)
        (\<lambda>out s. publish_post idn out (view (snd s))) (\<lambda>_. True)"
      by (intro executePlan_post [OF assms]) auto
    then have "triple (\<lambda>s. view (snd s) = v)
        (bindIO (executePlan plan W False) (\<lambda>out. returnIO (plan, out)))
        (\<lambda>p s. publish_post idn (snd p) (view (snd s))) (\<lambda>_. True)"
      by (rule triple_bind) (auto intro!: triple_return)
    with Inr show ?thesis by simp
  qed
  show ?thesis
    unfolding runPublish_def read_history_def Let_def
    apply (rule kp, simp add: keeps)
    apply (split if_split, intro conjI impI)
     apply (rule triple_lift; simp)
    apply (rule kp, simp add: keeps)
    apply (rule triple_bind [OF snapshot_reads [OF assms]], rule triple_pure)
    apply (rule pub | (rule kp, simp add: keeps))+
     apply simp_all
    done
qed


text \<open>A world whose state is the public snapshot itself.\<close>

definition memory_world :: "public_snapshot release_world" where
  "memory_world = \<lparr>
     w_packageName = (\<lambda>w. (Inr ''@wibias/benes'', w)), w_packageVersion = (\<lambda>w. (Inr ''1.0.0'', w)),
     w_currentBranch = (\<lambda>w. (Inr ''main'', w)), w_currentSha = (\<lambda>w. (Inr (sourceSha sample_identity), w)),
     w_workingTreeDirty = (\<lambda>w. (Inr False, w)),
     w_remoteHead = (\<lambda>b w. (Inr (sourceSha sample_identity), w)), w_listTags = (\<lambda>w. (Inr [''v0.9.0''], w)),
     w_isAncestor = (\<lambda>t h w. (Inr True, w)),
     w_firstParentLog = (\<lambda>sp w. (Inr [\<lparr>row_sha = ''0123456789abcdef'', row_subject = ''fix: bounds'', row_body = []\<rparr>], w)),
     w_associatedPulls = (\<lambda>c w. (Inr [], w)),
     w_generatedNotes = (\<lambda>r w. (Inl (ReleaseError ''http'' ''unavailable''), w)),
     w_changedFiles = (\<lambda>sp w. (Inr [''gui/src/app.ts''], w)),
     w_npmHasVersion = (\<lambda>n v w. (Inr (npmHasVersion w), w)), w_npmGitHead = (\<lambda>n v w. (Inr (npmGitHead w), w)),
     w_npmDistTags = (\<lambda>n w. (Inr (distTags w), w)), w_remoteTagSha = (\<lambda>t w. (Inr (tagSha w), w)),
     w_readGithubRelease = (\<lambda>t w. (Inr (githubRelease w), w)), w_ciPushUrl = (\<lambda>h b w. (Inr (ciPushUrl w), w)),
     w_serviceLifecycleUrl = (\<lambda>h w. (Inr (serviceLifecycleUrl w), w)),
     w_waitForWorkflow = (\<lambda>h f l w. (Inr ''https://ci'', w)), w_runLocalChecks = (\<lambda>w. (Inr (), w)),
     w_bumpPackageVersion = (\<lambda>v w. (Inr (), w)), w_commitAndPush = (\<lambda>v b w. (Inr (sourceSha sample_identity), w)),
     w_dispatchRelease = (\<lambda>r w. (Inr (), w)), w_watchDispatchedRelease = (\<lambda>h b w. (Inr (), w)),
     w_preparePackage = (\<lambda>w. (Inr (), w)), w_packDryRun = (\<lambda>w. (Inr (), w)), w_stageNpm = (\<lambda>t w. (Inr (), w)),
     w_createTag = (\<lambda>t h w. (Inr (), w\<lparr>tagSha := Some h\<rparr>)),
     w_createGithubRelease = (\<lambda>r w. (Inr (), w\<lparr>githubRelease :=
        Some \<lparr>gr_tag = grr_tag r, gr_draft = False, gr_prerelease = grr_prerelease r\<rparr>\<rparr>))\<rparr>"

lemma memory_world_lawful: "lawful_world memory_world idn (\<lambda>w. w)"
  by (auto simp: lawful_world_def memory_world_def op_reads_def op_keeps_def)

definition outcome_of :: "(publication_plan \<times> string) release \<times> 'w wstate \<Rightarrow> string option" where
  "outcome_of r = (case fst r of Inl _ \<Rightarrow> None | Inr p \<Rightarrow> Some (snd p))"


section \<open>What a cut may do\<close>

text \<open>
  What has to hold before a cut changes anything: the working tree is clean, the identity resolves,
  the version is unused (or is an approved npm package of the version already checked in, still
  without tag and GitHub Release), and the local checks passed.
\<close>

definition cut_cleared :: "cut_input \<Rightarrow> release_identity \<Rightarrow> event set \<Rightarrow> bool" where
  "cut_cleared inp idn seen \<longleftrightarrow>
     \<not> ci_planOnly inp \<and> EvTreeDirty (Inr False) \<in> seen \<and> EvLocalChecks (Inr ()) \<in> seen
     \<and> (\<exists>name h br. resolveIdentity \<lparr>in_packageName = name, in_version = ci_version inp, in_sourceSha = h,
          in_branch = branch_name br, in_distTag = ci_distTag inp\<rparr> = Inr idn)
     \<and> (\<exists>has tsha.
          EvNpmHasVersion (packageName idn) (version idn) (Inr has) \<in> seen
          \<and> EvRemoteTagSha (gitTag idn) (Inr tsha) \<in> seen \<and> \<not> truthy tsha
          \<and> EvReadGithubRelease (gitTag idn) (Inr None) \<in> seen
          \<and> (has \<longrightarrow> EvReadText ''packageVersion'' (Inr (version idn)) \<in> seen))"

fun cut_permitted :: "cut_input \<Rightarrow> event set \<Rightarrow> event \<Rightarrow> bool" where
  "cut_permitted inp seen (EvBump v) \<longleftrightarrow> (\<exists>idn. cut_cleared inp idn seen \<and> v = version idn)"
| "cut_permitted inp seen (EvCommitAndPush v b) \<longleftrightarrow>
     (\<exists>idn. cut_cleared inp idn seen \<and> v = version idn \<and> b = branch_name (branch idn)) \<and> EvBump v \<in> seen"
| "cut_permitted inp seen (EvDispatch req) \<longleftrightarrow>
     (\<exists>idn. cut_cleared inp idn seen \<and> dr_version req = version idn \<and> dr_distTag req = distTag idn
        \<and> dr_branch req = branch_name (branch idn))
     \<and> (\<exists>url. EvWaitForWorkflow (dr_sha req) ''ci.yml'' (Inr url) \<in> seen)
     \<and> EvRemoteHead (dr_branch req) (Inr (dr_sha req)) \<in> seen
     \<and> dr_dryRun req = (\<not> ci_publish inp)"
| "cut_permitted inp seen (EvStageNpm t) \<longleftrightarrow> False"
| "cut_permitted inp seen (EvCreateTag t h) \<longleftrightarrow> False"
| "cut_permitted inp seen (EvCreateGithubRelease req) \<longleftrightarrow> False"
| "cut_permitted inp seen ev \<longleftrightarrow> True"

lemma cut_cleared_mono: "cut_cleared inp idn F \<Longrightarrow> F \<subseteq> seen \<Longrightarrow> cut_cleared inp idn seen"
  unfolding cut_cleared_def by blast

lemma dispatch_cut_knows:
  assumes "ok = cut_permitted inp" "cut_cleared inp idn F"
  shows "triple (knows ok F) (dispatch_cut W idn inp h) (\<lambda>_. knows ok {}) (knows ok {})"
proof -
  let ?b = "branch_name (branch idn)"
  let ?req = "\<lparr>dr_version = version idn, dr_distTag = distTag idn, dr_sha = h, dr_branch = ?b,
    dr_dryRun = (\<not> ci_publish inp)\<rparr>"
  have "ok seen (EvDispatch ?req)"
    if "insert (EvRemoteHead ?b (Inr h)) (insert (EvWaitForWorkflow h ''ci.yml'' (Inr url)) F) \<subseteq> seen" for seen url
    using assms cut_cleared_mono [OF assms(2), of seen] that by auto
  then have fire: "triple (knows ok (insert (EvRemoteHead ?b (Inr h)) (insert (EvWaitForWorkflow h ''ci.yml'' (Inr url)) F)))
      (perform (\<lambda>_. EvDispatch ?req) op) (\<lambda>_. knows ok {}) (knows ok {})" for url op
    by (intro knows_sub [OF knows_perform [where ok = ok]]) auto
  show ?thesis
    unfolding dispatch_cut_def Let_def
    apply (rule triple_bind [OF knows_read], simp add: assms)+
    apply (split if_split, intro conjI impI)
     apply (rule triple_lift; simp add: knows_def)
    apply (simp only: not_not, rule triple_bind [OF fire])
    apply (rule knows_quiet)
    apply (simp add: assms emits_intros)
    done
qed

lemma push_knows:
  assumes "ok = cut_permitted inp" "cut_cleared inp idn F"
  shows "triple (knows ok F)
    (if b then bindIO (logIO msg) (\<lambda>_. perform EvCurrentSha op)
     else bindIO (perform (\<lambda>_. EvBump (version idn)) op1) (\<lambda>_.
       perform (\<lambda>_. EvCommitAndPush (version idn) (branch_name (branch idn))) op2))
    (\<lambda>_. knows ok F) (knows ok {})"
proof (cases b)
  case True
  then show ?thesis by (simp, intro knows_quiet) (simp add: assms emits_intros)
next
  case False
  let ?G = "insert (EvBump (version idn)) F"
  have "ok seen (EvBump (version idn))" if "F \<subseteq> seen" for seen
    using assms(1) cut_cleared_mono [OF assms(2) that] by auto
  then have bump: "triple (knows ok F) (perform (\<lambda>_. EvBump (version idn)) op1) (\<lambda>_. knows ok ?G) (knows ok {})"
    by (intro knows_emit)
  have "ok seen (EvCommitAndPush (version idn) (branch_name (branch idn)))" if "?G \<subseteq> seen" for seen
    using assms(1) cut_cleared_mono [OF assms(2), of seen] that by auto
  then have push: "triple (knows ok ?G) (perform (\<lambda>_. EvCommitAndPush (version idn) (branch_name (branch idn))) op2)
      (\<lambda>_. knows ok F) (knows ok {})"
    by (intro knows_sub [OF knows_perform [where ok = ok]]) auto
  from False show ?thesis by (simp add: triple_bind [OF bump push])
qed

lemma runCut_knows:
  assumes "ok = cut_permitted inp"
  shows "triple (knows ok {}) (runCut W inp) (\<lambda>_. knows ok {}) (knows ok {})"
proof -
  note quiet = triple_bind [OF knows_quiet [of ok]] and emits = emits_intros assms
  have fin: "triple (knows ok F)
     (bindIO (perform EvLocalChecks op0) (\<lambda>_. bindIO (if b then bindIO (logIO msg) (\<lambda>_. perform EvCurrentSha op)
      else bindIO (perform (\<lambda>_. EvBump (version idn)) op1) (\<lambda>_.
        perform (\<lambda>_. EvCommitAndPush (version idn) (branch_name (branch idn))) op2))
      (dispatch_cut W idn inp))) (\<lambda>_. knows ok {}) (knows ok {})"
    if "cut_cleared inp idn (insert (EvLocalChecks (Inr ())) F)" for F idn b msg op op0 op1 op2
    apply (rule triple_bind [OF knows_read], simp add: assms)
    apply (rule triple_bind [OF push_knows [OF assms]], use that in simp)
    apply (rule dispatch_cut_knows [OF assms], use that in simp)
    done
  show ?thesis
    unfolding runCut_def Let_def
    apply (rule quiet, simp add: emits)
    apply (rule quiet, simp add: emits)
    apply (rule triple_bind [OF knows_read], simp add: assms)
    apply (split if_split, intro conjI impI)
     apply (rule triple_lift; simp add: knows_def)
    apply (rule quiet, simp add: emits)
    apply (rule quiet, simp add: emits)
    apply (rule triple_bind [OF knows_lift], rule triple_pure)
    apply (rule quiet, simp add: emits)
    apply (split if_split, intro conjI impI)
     apply (rule triple_return; simp add: knows_def)
    apply (rule triple_bind [OF knows_read], simp add: assms)
    apply (rule triple_bind [OF knows_settled], simp add: assms)+
    apply (rule triple_bind [OF knows_lift], rule triple_pure)+
    apply (split if_split, intro conjI impI)
     apply (rule triple_lift; simp add: knows_def)
    apply (rule quiet, simp add: emits)
    apply (rule quiet, simp add: emits)
    apply (rule fin)
    apply (unfold cut_cleared_def)
    apply (auto simp: truthy_def)
    done
qed


section \<open>The npm wait loop\<close>

text \<open>The loop over a registry that answers \<open>p i\<close> to read \<open>i\<close>; the state counts reads and sleeps.\<close>

definition scripted_read :: "(nat \<Rightarrow> npm_identity_probe) \<Rightarrow> (npm_identity_probe, nat \<times> nat) io" where
  "scripted_read p s = (Inr (p (fst (snd s))), (fst s, (Suc (fst (snd s)), snd (snd s))))"

definition counted_sleep :: "(unit, nat \<times> nat) io" where
  "counted_sleep s = (Inr (), (fst s, (fst (snd s), Suc (snd (snd s)))))"

definition decisive :: "npm_identity_class \<Rightarrow> bool" where
  "decisive c \<longleftrightarrow> c = Match \<or> c = Foreign"

definition wait_outcome :: "(nat \<Rightarrow> npm_identity_class) \<Rightarrow> string \<Rightarrow> string \<Rightarrow> nat option \<Rightarrow> unit release" where
  "wait_outcome c vers h decided =
     (case decided of
        None \<Rightarrow> Inl (ReleaseError ''npm_verify_failed'' (''npm '' @ vers @ '' did not show gitHead '' @ h))
      | Some i \<Rightarrow>
          if c i = Match then Inr ()
          else Inl (ReleaseError ''npm_githead_mismatch''
            (''npm '' @ vers @ '' is published from a different gitHead than '' @ h)))"

lemma wait_attempts_step:
  assumes "\<not> decisive (classifyNpmIdentity (p i) vers h)"
  shows "\<exists>m. wait_attempts (scripted_read p) counted_sleep vers h n (Suc left) (tr, (i, k)) =
    wait_attempts (scripted_read p) counted_sleep vers h n left
      (tr @ [EvLog m], (Suc i, if left > 0 then Suc k else k))"
  using assms
  by (cases "classifyNpmIdentity (p i) vers h")
    (auto simp: decisive_def bindIO_def scripted_read_def logIO_def counted_sleep_def returnIO_def Let_def)

lemma wait_attempts_scripted:
  fixes p :: "nat \<Rightarrow> npm_identity_probe" and vers h :: string and n left :: nat
  assumes "left \<le> n"
  defines "c \<equiv> \<lambda>i. classifyNpmIdentity (p i) vers h"
  defines "decided \<equiv> find (\<lambda>i. decisive (c i)) [n - left ..< n]"
  shows "\<exists>tr'. wait_attempts (scripted_read p) counted_sleep vers h n left (tr, (n - left, n - left)) =
     (wait_outcome c vers h decided,
      (tr', case decided of None \<Rightarrow> (n, if left = 0 then n else n - 1) | Some i \<Rightarrow> (Suc i, i)))"
  using assms(1) unfolding decided_def
proof (induction left arbitrary: tr)
  case 0
  then show ?case by (simp add: wait_outcome_def liftIO_def)
next
  case (Suc left)
  let ?i = "n - Suc left"
  have i: "Suc ?i = n - left" "?i < n" using Suc.prems by auto
  then have r: "[?i ..< n] = ?i # [n - left ..< n]" by (simp add: upt_rec [of ?i])
  note IH = Suc.IH [OF Suc_leD [OF Suc.prems]]
  have undecided: ?case if nd: "\<not> decisive (c ?i)"
  proof -
    from wait_attempts_step [of p ?i vers h n left tr ?i] nd [unfolded c_def] obtain m where
      "wait_attempts (scripted_read p) counted_sleep vers h n (Suc left) (tr, (?i, ?i)) =
        wait_attempts (scripted_read p) counted_sleep vers h n left
          (tr @ [EvLog m], (Suc ?i, if left > 0 then Suc ?i else ?i))" by blast
    note step = this [unfolded i(1)]
    show ?thesis
    proof (cases left)
      case 0 with step nd r i show ?thesis by (simp del: wait_attempts.simps(2) add: wait_outcome_def liftIO_def)
    next
      case (Suc k)
      with IH [of "tr @ [EvLog m]"] step nd r show ?thesis by (simp del: wait_attempts.simps cong: option.case_cong)
    qed
  qed
  show ?case
  proof (cases "c ?i")
    case Match
    then show ?thesis by (simp add: r wait_outcome_def bindIO_def scripted_read_def returnIO_def c_def decisive_def Let_def)
  next
    case Foreign
    then show ?thesis by (simp add: r wait_outcome_def bindIO_def scripted_read_def liftIO_def c_def decisive_def Let_def)
  next
    case Missing then show ?thesis by (intro undecided) (simp add: decisive_def)
  next
    case PendingGitHead then show ?thesis by (intro undecided) (simp add: decisive_def)
  qed
qed

text \<open>Waiting for npm decides by the first decisive answer among the allowed attempts: it returns on
  a matching gitHead, fails at once on a foreign one, fails after the last attempt otherwise, reads
  npm exactly as often as needed and never sleeps after the last read.\<close>

theorem wait_first_decisive:
  "(let c = (\<lambda>i. classifyNpmIdentity (p i) vers h);
        decided = find (\<lambda>i. decisive (c i)) [0 ..< n];
        r = waitForPublishedIdentity (scripted_read p) counted_sleep vers h n (tr, (0, 0))
    in fst r = wait_outcome c vers h decided
       \<and> snd (snd r) = (case decided of None \<Rightarrow> (n, n - 1) | Some i \<Rightarrow> (Suc i, i)))"
  using wait_attempts_scripted [of n n p vers h tr]
  by (auto simp: waitForPublishedIdentity_def Let_def simp del: wait_attempts.simps split: option.splits)

end
