(* ===== verification/Client_Resource.thy ===== *)
theory Client_Resource
  imports Benes_Prelude "HOL-Library.AList"
begin

text \<open>
  \<^verbatim>\<open>gui/src/client-resource-policy.ts\<close> and \<^verbatim>\<open>gui/src/client-resource.ts\<close>: the keyed resource store of
  the dashboard. Functions that the store only passes around are named by a number: a subscriber by
  its \<^verbatim>\<open>notify\<close> callback, a loader by its \<^verbatim>\<open>load\<close>. An attempt is named by its epoch, which is unique
  in its resource. \<^verbatim>\<open>inflight\<close> holds the attempts whose \<^verbatim>\<open>ask\<close> has not returned yet; the outcome of the
  race in \<^verbatim>\<open>ask\<close> (the loader, or the abort of the controller) is an event of the environment, as are
  the timers, the visibility of the page and the clock. \<^verbatim>\<open>emit\<close> appends the notified subscribers to a
  log. Times are finite numbers.
\<close>

section \<open>Policy\<close>

definition DEFAULT_REQUEST_DEADLINE_MS :: rat where
  "DEFAULT_REQUEST_DEADLINE_MS = 30000"

datatype load_error = Thrown nat | ResourceLoadFailed | ResourceTimedOut rat

record 'v snapshot =
  sn_data :: "'v option"
  sn_error :: "load_error option"
  sn_loading :: bool
  sn_refreshing :: bool
  sn_hasSucceeded :: bool
  sn_lastAttemptOk :: bool

record attempt_identity =
  attemptGeneration :: nat
  storeGeneration :: nat
  id_aborted :: bool
  id_timedOut :: bool

datatype 'v fetch_outcome = FetchSuccess 'v | FetchError "load_error option"

datatype 'v fetch_commit = CommitIgnore | CommitSuccess "'v snapshot" | CommitFailure "'v snapshot"

definition resourceReplaceInflight :: "bool option \<Rightarrow> bool" where
  "resourceReplaceInflight replace = (replace \<noteq> Some False)"

definition shouldSkipQuietResourceFetch :: "bool \<Rightarrow> bool \<Rightarrow> bool" where
  "shouldSkipQuietResourceFetch hasInflight replace = (hasInflight \<and> \<not> replace)"

definition resourceShowsBlockingLoad :: "'v option \<Rightarrow> bool option \<Rightarrow> bool" where
  "resourceShowsBlockingLoad data forceLoading = (data = None \<or> forceLoading = Some True)"

definition emptyResourceSnapshot :: "'v snapshot" where
  "emptyResourceSnapshot = \<lparr>sn_data = None, sn_error = None, sn_loading = False, sn_refreshing = False,
     sn_hasSucceeded = False, sn_lastAttemptOk = False\<rparr>"

definition resourceInFlightSnapshot :: "'v snapshot \<Rightarrow> bool option \<Rightarrow> 'v snapshot" where
  "resourceInFlightSnapshot prev forceLoading =
     prev\<lparr>sn_loading := (if resourceShowsBlockingLoad (sn_data prev) forceLoading then True else sn_loading prev),
          sn_refreshing := True\<rparr>"

definition resourceTimeoutError :: "rat \<Rightarrow> load_error" where
  "resourceTimeoutError deadlineMs = ResourceTimedOut deadlineMs"

definition resourceNormalizeLoadError :: "load_error option \<Rightarrow> load_error" where
  "resourceNormalizeLoadError err = (case err of None \<Rightarrow> ResourceLoadFailed | Some e \<Rightarrow> e)"

definition resourceSuccessSnapshot :: "'v \<Rightarrow> 'v snapshot" where
  "resourceSuccessSnapshot data = \<lparr>sn_data = Some data, sn_error = None, sn_loading = False, sn_refreshing = False,
     sn_hasSucceeded = True, sn_lastAttemptOk = True\<rparr>"

definition resourceFailureSnapshot :: "'v snapshot \<Rightarrow> load_error option \<Rightarrow> 'v snapshot" where
  "resourceFailureSnapshot prev err =
     prev\<lparr>sn_error := Some (resourceNormalizeLoadError err), sn_loading := False, sn_refreshing := False,
          sn_lastAttemptOk := False\<rparr>"

fun commitResourceFetch :: "attempt_identity \<Rightarrow> 'v fetch_outcome \<Rightarrow> 'v snapshot \<Rightarrow> 'v fetch_commit" where
  "commitResourceFetch idy (FetchSuccess data) prev =
     (if attemptGeneration idy \<noteq> storeGeneration idy \<or> id_aborted idy then CommitIgnore
      else CommitSuccess (resourceSuccessSnapshot data))"
| "commitResourceFetch idy (FetchError err) prev =
     (if attemptGeneration idy \<noteq> storeGeneration idy then CommitIgnore
      else if id_aborted idy \<and> \<not> id_timedOut idy then CommitIgnore
      else CommitFailure (resourceFailureSnapshot prev err))"

section \<open>One resource\<close>

record watcher =
  wt_load :: nat
  wt_pollMs :: "rat option"
  wt_pauseWhenHidden :: bool
  wt_deadlineMs :: "rat option"

record attempt =
  att_epoch :: nat
  att_owner :: "nat option"
  att_load :: nat
  att_deadlineMs :: rat
  att_aborted :: bool
  att_timedOut :: bool

record 'v resource =
  res_key :: string
  res_id :: nat
  snapshot :: "'v snapshot"
  epoch :: nat
  seedDirty :: bool
  settledAt :: "rat option"
  watchers :: "(nat \<times> watcher) list"
  attempt :: "nat option"
  pulse :: bool
  pulseMs :: "rat option"
  inflight :: "attempt list"
  notified :: "nat list list"

definition new_resource :: "string \<Rightarrow> nat \<Rightarrow> 'v resource" where
  "new_resource key i = \<lparr>res_key = key, res_id = i, snapshot = emptyResourceSnapshot, epoch = 0,
     seedDirty = False, settledAt = None, watchers = [], attempt = None, pulse = False, pulseMs = None,
     inflight = [], notified = []\<rparr>"

definition positiveMs :: "rat option \<Rightarrow> bool" where
  "positiveMs v = (case v of None \<Rightarrow> False | Some ms \<Rightarrow> ms > 0)"

definition watcherCount :: "'v resource \<Rightarrow> nat" where
  "watcherCount r = length (watchers r)"

definition lower_poll :: "rat option \<Rightarrow> nat \<times> watcher \<Rightarrow> rat option" where
  "lower_poll lowest kw =
     (if \<not> positiveMs (wt_pollMs (snd kw)) then lowest
      else (case lowest of
              None \<Rightarrow> wt_pollMs (snd kw)
            | Some l \<Rightarrow> Some (min l (the (wt_pollMs (snd kw))))))"

definition fastestPoll :: "'v resource \<Rightarrow> rat option" where
  "fastestPoll r = foldl lower_poll None (watchers r)"

definition wantsCadence :: "'v resource \<Rightarrow> bool" where
  "wantsCadence r = (fastestPoll r \<noteq> None)"

definition polls_hidden :: "nat \<times> watcher \<Rightarrow> bool" where
  "polls_hidden kw = (positiveMs (wt_pollMs (snd kw)) \<and> \<not> wt_pauseWhenHidden (snd kw))"

definition hiddenOptOut :: "'v resource \<Rightarrow> bool" where
  "hiddenOptOut r = list_ex polls_hidden (watchers r)"

definition pickWatcher :: "bool \<Rightarrow> 'v resource \<Rightarrow> (nat \<times> watcher) option" where
  "pickWatcher hidden r =
     (if hidden then find polls_hidden (watchers r)
      else (case find (\<lambda>kw. positiveMs (wt_pollMs (snd kw))) (watchers r) of
              Some kw \<Rightarrow> Some kw
            | None \<Rightarrow> (case watchers r of [] \<Rightarrow> None | kw # _ \<Rightarrow> Some kw)))"

record resource_inspect =
  ri_key :: string
  ri_subscribers :: nat
  ri_pollMs :: "rat option"
  ri_generation :: nat
  ri_refreshing :: bool
  ri_hasAttempt :: bool
  ri_lastSettledAt :: "rat option"
  ri_seedNeedsRevalidate :: bool
  ri_loaderCount :: nat
  ri_paused :: nat
  ri_running :: nat

definition inspect :: "'v resource \<Rightarrow> resource_inspect" where
  "inspect r = \<lparr>ri_key = res_key r, ri_subscribers = length (watchers r), ri_pollMs = fastestPoll r,
     ri_generation = epoch r, ri_refreshing = sn_refreshing (snapshot r), ri_hasAttempt = (attempt r \<noteq> None),
     ri_lastSettledAt = settledAt r, ri_seedNeedsRevalidate = seedDirty r, ri_loaderCount = length (watchers r),
     ri_paused = length (filter (\<lambda>kw. positiveMs (wt_pollMs (snd kw)) \<and> wt_pauseWhenHidden (snd kw)) (watchers r)),
     ri_running = length (filter polls_hidden (watchers r))\<rparr>"

definition emit :: "'v resource \<Rightarrow> 'v resource" where
  "emit r = r\<lparr>notified := notified r @ [map fst (watchers r)]\<rparr>"

text \<open>\<^verbatim>\<open>this.attempt?.abort.abort()\<close>\<close>

definition abort_attempt :: "'v resource \<Rightarrow> 'v resource" where
  "abort_attempt r = r\<lparr>inflight :=
     map (\<lambda>a. if attempt r = Some (att_epoch a) then a\<lparr>att_aborted := True\<rparr> else a) (inflight r)\<rparr>"

definition openAttempt :: "nat option \<Rightarrow> nat \<Rightarrow> rat \<Rightarrow> bool option \<Rightarrow> 'v resource \<Rightarrow> 'v resource" where
  "openAttempt owner load deadlineMs forceLoading r =
     (let e = Suc (epoch r) in
      emit (r\<lparr>epoch := e, attempt := Some e,
              inflight := inflight r @ [\<lparr>att_epoch = e, att_owner = owner, att_load = load,
                att_deadlineMs = deadlineMs, att_aborted = False, att_timedOut = False\<rparr>],
              snapshot := resourceInFlightSnapshot (snapshot r) forceLoading\<rparr>))"

text \<open>The part of \<^verbatim>\<open>ask\<close> before its \<^verbatim>\<open>await\<close>.\<close>

definition ask :: "bool option \<Rightarrow> nat option \<Rightarrow> nat \<Rightarrow> bool option \<Rightarrow> rat option \<Rightarrow> 'v resource \<Rightarrow> 'v resource" where
  "ask replace owner load forceLoading deadlineMs r =
     (let rep = resourceReplaceInflight replace in
      if shouldSkipQuietResourceFetch (attempt r \<noteq> None) rep then r
      else
        (let r1 = (if rep then abort_attempt r else r) in
         openAttempt owner load
           (case deadlineMs of None \<Rightarrow> DEFAULT_REQUEST_DEADLINE_MS | Some d \<Rightarrow> d) forceLoading r1))"

definition find_attempt :: "nat \<Rightarrow> 'v resource \<Rightarrow> attempt option" where
  "find_attempt e r = find (\<lambda>a. att_epoch a = e) (inflight r)"

definition settle :: "attempt \<Rightarrow> 'v fetch_outcome \<Rightarrow> rat \<Rightarrow> 'v resource \<Rightarrow> 'v resource" where
  "settle handle outcome now r =
     (case commitResourceFetch \<lparr>attemptGeneration = att_epoch handle, storeGeneration = epoch r,
             id_aborted = att_aborted handle, id_timedOut = att_timedOut handle\<rparr> outcome (snapshot r) of
        CommitIgnore \<Rightarrow> r
      | CommitSuccess sn \<Rightarrow> r\<lparr>seedDirty := False, settledAt := Some now, snapshot := sn\<rparr>
      | CommitFailure sn \<Rightarrow> r\<lparr>seedDirty := False, snapshot := sn\<rparr>)"

definition closeAttempt :: "attempt \<Rightarrow> 'v resource \<Rightarrow> 'v resource" where
  "closeAttempt handle r =
     emit (r\<lparr>inflight := filter (\<lambda>a. att_epoch a \<noteq> att_epoch handle) (inflight r),
             attempt := (if attempt r = Some (att_epoch handle) then None else attempt r)\<rparr>)"

text \<open>The part of \<^verbatim>\<open>ask\<close> after its \<^verbatim>\<open>await\<close>.\<close>

definition finish :: "nat \<Rightarrow> 'v fetch_outcome \<Rightarrow> rat \<Rightarrow> 'v resource \<Rightarrow> 'v resource" where
  "finish e outcome now r =
     (case find_attempt e r of
        None \<Rightarrow> r
      | Some handle \<Rightarrow> closeAttempt handle (settle handle outcome now r))"

text \<open>The callback of the deadline timer of an attempt.\<close>

definition expire :: "nat \<Rightarrow> 'v resource \<Rightarrow> 'v resource" where
  "expire e r = r\<lparr>inflight :=
     map (\<lambda>a. if att_epoch a = e then a\<lparr>att_timedOut := True, att_aborted := True\<rparr> else a) (inflight r)\<rparr>"

definition stopPulse :: "'v resource \<Rightarrow> 'v resource" where
  "stopPulse r = r\<lparr>pulse := False, pulseMs := None\<rparr>"

datatype page_request = BindPage | UnbindPageIfIdle | KeepPage

definition retunePulse :: "bool \<Rightarrow> 'v resource \<Rightarrow> 'v resource \<times> page_request" where
  "retunePulse hidden r =
     (case fastestPoll r of
        None \<Rightarrow> (stopPulse r, UnbindPageIfIdle)
      | Some ms \<Rightarrow>
          if \<not> (\<not> hidden \<or> hiddenOptOut r) then (stopPulse r, BindPage)
          else if pulse r \<and> pulseMs r = Some ms then (r, KeepPage)
          else ((stopPulse r)\<lparr>pulseMs := Some ms, pulse := True\<rparr>, BindPage))"

definition ask_watcher :: "bool \<Rightarrow> nat \<times> watcher \<Rightarrow> 'v resource \<Rightarrow> 'v resource" where
  "ask_watcher replace kw r =
     ask (Some replace) (Some (fst kw)) (wt_load (snd kw)) None (wt_deadlineMs (snd kw)) r"

definition catchUp :: "'v resource \<Rightarrow> 'v resource" where
  "catchUp r =
     (if fastestPoll r = None then r
      else (case pickWatcher False r of None \<Rightarrow> r | Some kw \<Rightarrow> ask_watcher False kw r))"

definition quietTick :: "bool \<Rightarrow> 'v resource \<Rightarrow> 'v resource" where
  "quietTick hidden r =
     (case pickWatcher hidden r of None \<Rightarrow> r | Some kw \<Rightarrow> ask_watcher False kw r)"

definition needsOpeningLoad :: "rat option \<Rightarrow> rat \<Rightarrow> 'v resource \<Rightarrow> bool" where
  "needsOpeningLoad staleAfterMs now r =
     (if sn_data (snapshot r) = None then True
      else if seedDirty r then True
      else (case (staleAfterMs, settledAt r) of
              (Some stale, Some settled) \<Rightarrow> now - settled > stale
            | _ \<Rightarrow> False))"

definition join_watchers :: "nat \<Rightarrow> watcher \<Rightarrow> rat option \<Rightarrow> rat \<Rightarrow> 'v resource \<Rightarrow> 'v resource" where
  "join_watchers notify w staleAfterMs now r =
     (let r1 = r\<lparr>watchers := AList.update notify w (watchers r)\<rparr> in
      if length (watchers r1) = 1 \<and> needsOpeningLoad staleAfterMs now r1
      then ask_watcher True (notify, w) r1 else r1)"

definition join :: "bool \<Rightarrow> nat \<Rightarrow> watcher \<Rightarrow> rat option \<Rightarrow> rat \<Rightarrow> 'v resource \<Rightarrow> 'v resource \<times> page_request" where
  "join hidden notify w staleAfterMs now r =
     retunePulse hidden (join_watchers notify w staleAfterMs now r)"

definition publish :: "'v \<Rightarrow> rat \<Rightarrow> 'v resource \<Rightarrow> 'v resource" where
  "publish data now r =
     (let r1 = abort_attempt r in
      emit (r1\<lparr>attempt := None, epoch := Suc (epoch r1),
               snapshot := emptyResourceSnapshot\<lparr>sn_data := Some data, sn_hasSucceeded := True, sn_lastAttemptOk := True\<rparr>,
               seedDirty := (watchers r1 = []), settledAt := Some now\<rparr>))"

definition markFreshSeed :: "rat \<Rightarrow> 'v resource \<Rightarrow> 'v resource" where
  "markFreshSeed cachedAt r = r\<lparr>seedDirty := False, settledAt := Some cachedAt\<rparr>"

definition reload :: "nat \<Rightarrow> nat option \<Rightarrow> bool option \<Rightarrow> rat option \<Rightarrow> 'v resource \<Rightarrow> 'v resource" where
  "reload load owner forceLoading deadlineMs r =
     (let watching = Option.bind owner (map_of (watchers r)) in
      ask (Some True) owner load forceLoading
        (case Option.bind watching wt_deadlineMs of None \<Rightarrow> deadlineMs | Some d \<Rightarrow> Some d) r)"

definition abortOwned :: "'v resource \<Rightarrow> 'v resource" where
  "abortOwned r = stopPulse ((abort_attempt r)\<lparr>attempt := None\<rparr>)"

definition attempt_owner :: "'v resource \<Rightarrow> nat option" where
  "attempt_owner r =
     (case attempt r of
        None \<Rightarrow> None
      | Some e \<Rightarrow> (case find_attempt e r of None \<Rightarrow> None | Some a \<Rightarrow> att_owner a))"

definition cancelOwnedBy :: "nat \<Rightarrow> 'v resource \<Rightarrow> 'v resource \<times> bool" where
  "cancelOwnedBy owner r =
     (if attempt_owner r \<noteq> Some owner then (r, False)
      else
        (let r1 = (abort_attempt r)\<lparr>attempt := None, epoch := Suc (epoch r)\<rparr> in
         if sn_refreshing (snapshot r1)
         then (emit (r1\<lparr>snapshot := (snapshot r1)\<lparr>sn_refreshing := False\<rparr>\<rparr>), True)
         else (r1, True)))"

datatype leave_effect = LeaveEvict | LeavePage page_request

definition leave :: "bool \<Rightarrow> nat \<Rightarrow> 'v resource \<Rightarrow> 'v resource \<times> leave_effect" where
  "leave hidden notify r =
     (let (r1, killed) = cancelOwnedBy notify (r\<lparr>watchers := AList.delete notify (watchers r)\<rparr>) in
      if watchers r1 = [] then (stopPulse r1, LeaveEvict)
      else
        (let r2 = (if killed then (case pickWatcher hidden r1 of None \<Rightarrow> r1 | Some kw \<Rightarrow> ask_watcher True kw r1)
                   else r1);
             (r3, req) = retunePulse hidden r2
         in (r3, LeavePage req)))"

section \<open>The store\<close>

record 'v store =
  st_table :: "(string \<times> 'v resource) list"
  st_pageListener :: bool
  st_hidden :: bool
  st_now :: rat
  st_nextId :: nat
  st_evictions :: "(string \<times> nat) list"

definition empty_store :: "'v store" where
  "empty_store = \<lparr>st_table = [], st_pageListener = False, st_hidden = False, st_now = 0, st_nextId = 0,
     st_evictions = []\<rparr>"

definition unbindPageIfIdle :: "'v store \<Rightarrow> 'v store" where
  "unbindPageIfIdle st =
     (if \<not> st_pageListener st then st
      else if list_ex (\<lambda>kr. wantsCadence (snd kr)) (st_table st) then st
      else st\<lparr>st_pageListener := False\<rparr>)"

definition bindPage :: "'v store \<Rightarrow> 'v store" where
  "bindPage st = st\<lparr>st_pageListener := True\<rparr>"

definition page_effect :: "page_request \<Rightarrow> 'v store \<Rightarrow> 'v store" where
  "page_effect req st =
     (case req of BindPage \<Rightarrow> bindPage st | UnbindPageIfIdle \<Rightarrow> unbindPageIfIdle st | KeepPage \<Rightarrow> st)"

definition put :: "string \<Rightarrow> 'v resource \<Rightarrow> 'v store \<Rightarrow> 'v store" where
  "put key r st = st\<lparr>st_table := AList.update key r (st_table st)\<rparr>"

definition resourceOf :: "string \<Rightarrow> 'v store \<Rightarrow> 'v resource \<times> 'v store" where
  "resourceOf key st =
     (case map_of (st_table st) key of
        Some r \<Rightarrow> (r, st)
      | None \<Rightarrow>
          (let r = new_resource key (st_nextId st) in
           (r, (put key r st)\<lparr>st_nextId := Suc (st_nextId st)\<rparr>)))"

text \<open>Run an operation of the resource in the table, if there is one.\<close>

definition on_resource :: "string \<Rightarrow> ('v resource \<Rightarrow> 'v resource) \<Rightarrow> 'v store \<Rightarrow> 'v store" where
  "on_resource key f st =
     (case map_of (st_table st) key of None \<Rightarrow> st | Some r \<Rightarrow> put key (f r) st)"

definition store_retune :: "string \<Rightarrow> 'v store \<Rightarrow> 'v store" where
  "store_retune key st =
     (case map_of (st_table st) key of
        None \<Rightarrow> st
      | Some r \<Rightarrow> (let (r1, req) = retunePulse (st_hidden st) r in page_effect req (put key r1 st)))"

text \<open>The listener of \<^verbatim>\<open>visibilitychange\<close>.\<close>

definition onChange :: "'v store \<Rightarrow> 'v store" where
  "onChange st =
     foldl (\<lambda>s key. let s1 = store_retune key s in if st_hidden s1 then s1 else on_resource key catchUp s1)
       st (map fst (st_table st))"

definition visibility_event :: "bool \<Rightarrow> 'v store \<Rightarrow> 'v store" where
  "visibility_event hidden st =
     (let s = st\<lparr>st_hidden := hidden\<rparr> in if st_pageListener s then onChange s else s)"

definition setClientResourceData :: "string \<Rightarrow> 'v \<Rightarrow> 'v store \<Rightarrow> 'v store" where
  "setClientResourceData key data st =
     (let (r, s) = resourceOf key st in put key (publish data (st_now s) r) s)"

definition seedVacant :: "string \<Rightarrow> 'v \<Rightarrow> rat option \<Rightarrow> rat option \<Rightarrow> 'v store \<Rightarrow> 'v store" where
  "seedVacant key data cachedAt staleAfterMs st =
     (let (r, s) = resourceOf key st in
      if watcherCount r \<noteq> 0 \<or> sn_data (snapshot r) \<noteq> None then s
      else
        (let r1 = publish data (st_now s) r in
         case (staleAfterMs, cachedAt) of
           (Some stale, Some cached) \<Rightarrow>
             put key (if st_now s - cached < stale then markFreshSeed cached r1 else r1) s
         | _ \<Rightarrow> put key r1 s))"

definition store_join :: "string \<Rightarrow> nat \<Rightarrow> watcher \<Rightarrow> rat option \<Rightarrow> 'v store \<Rightarrow> 'v store" where
  "store_join key notify w staleAfterMs st =
     (let (r, s) = resourceOf key st;
          (r1, req) = join (st_hidden s) notify w staleAfterMs (st_now s) r
      in page_effect req (put key r1 s))"

text \<open>The function \<^verbatim>\<open>join\<close> returns, for a subscriber of the resource in the table.\<close>

definition store_leave :: "string \<Rightarrow> nat \<Rightarrow> 'v store \<Rightarrow> 'v store" where
  "store_leave key notify st =
     (case map_of (st_table st) key of
        None \<Rightarrow> st
      | Some r \<Rightarrow>
          (let (r1, eff) = leave (st_hidden st) notify r; s = put key r1 st in
           case eff of
             LeavePage req \<Rightarrow> page_effect req s
           | LeaveEvict \<Rightarrow>
               (unbindPageIfIdle s)\<lparr>st_evictions := st_evictions s @ [(key, res_id r1)]\<rparr>))"

text \<open>The callback of a scheduled eviction.\<close>

definition run_eviction :: "string \<Rightarrow> nat \<Rightarrow> 'v store \<Rightarrow> 'v store" where
  "run_eviction key i st =
     (let s = st\<lparr>st_evictions := remove1 (key, i) (st_evictions st)\<rparr> in
      case map_of (st_table s) key of
        None \<Rightarrow> s
      | Some r \<Rightarrow>
          if res_id r \<noteq> i \<or> watcherCount r \<noteq> 0 then s
          else
            (let s1 = put key (abortOwned r) s in
             unbindPageIfIdle (s1\<lparr>st_table := AList.delete key (st_table s1)\<rparr>)))"

definition optionalPositive :: "jsnum option \<Rightarrow> rat option" where
  "optionalPositive v = (case v of Some (Fin q) \<Rightarrow> if q \<le> 0 then None else Some q | _ \<Rightarrow> None)"

definition cachedAtFrom :: "jsnum option \<Rightarrow> rat option" where
  "cachedAtFrom v = (case v of Some (Fin q) \<Rightarrow> if q \<le> 0 then None else Some q | _ \<Rightarrow> None)"

record 'v resource_options =
  op_pollMs :: "jsnum option"
  op_enabled :: "bool option"
  op_pauseWhenHidden :: "bool option"
  op_initialData :: "'v option"
  op_deadlineMs :: "rat option"
  op_staleAfterMs :: "jsnum option"
  op_initialDataCachedAt :: "jsnum option"

definition hook_enabled :: "'v resource_options \<Rightarrow> bool" where
  "hook_enabled opts = (op_enabled opts \<noteq> Some False)"

text \<open>The four things a render of \<^verbatim>\<open>useClientResource\<close> does with the store: seed it, subscribe, read, refresh.\<close>

definition hook_render :: "string \<Rightarrow> 'v resource_options \<Rightarrow> 'v store \<Rightarrow> 'v store" where
  "hook_render key opts st =
     (case op_initialData opts of
        Some data \<Rightarrow>
          if hook_enabled opts
          then seedVacant key data (cachedAtFrom (op_initialDataCachedAt opts)) (optionalPositive (op_staleAfterMs opts)) st
          else st
      | None \<Rightarrow> st)"

definition hook_subscribe :: "string \<Rightarrow> nat \<Rightarrow> nat \<Rightarrow> 'v resource_options \<Rightarrow> 'v store \<Rightarrow> 'v store" where
  "hook_subscribe key notify load opts st =
     (if \<not> hook_enabled opts then st
      else store_join key notify
        \<lparr>wt_load = load, wt_pollMs = optionalPositive (op_pollMs opts),
         wt_pauseWhenHidden = (op_pauseWhenHidden opts \<noteq> Some False), wt_deadlineMs = op_deadlineMs opts\<rparr>
        (optionalPositive (op_staleAfterMs opts)) st)"

definition getSnapshot :: "string \<Rightarrow> 'v resource_options \<Rightarrow> 'v store \<Rightarrow> 'v snapshot \<times> 'v store" where
  "getSnapshot key opts st =
     (if hook_enabled opts then (let (r, s) = resourceOf key st in (snapshot r, s))
      else (emptyResourceSnapshot, st))"

definition hook_refresh :: "string \<Rightarrow> nat option \<Rightarrow> nat \<Rightarrow> bool option \<Rightarrow> 'v resource_options \<Rightarrow> 'v store \<Rightarrow> 'v store" where
  "hook_refresh key owner load forceLoading opts st =
     (if \<not> hook_enabled opts then st
      else (let (r, s) = resourceOf key st in put key (reload load owner forceLoading (op_deadlineMs opts) r) s))"

definition keyedResourceShouldForceLoad :: "'d list option \<Rightarrow> string option \<Rightarrow> 'd list \<Rightarrow> string \<Rightarrow> bool" where
  "keyedResourceShouldForceLoad previousDeps previousKey nextDeps nextKey =
     (case previousDeps of
        None \<Rightarrow> False
      | Some deps \<Rightarrow>
          if previousKey \<noteq> None \<and> previousKey \<noteq> Some nextKey then False
          else if length deps \<noteq> length nextDeps then True
          else list_ex (\<lambda>i. deps ! i \<noteq> nextDeps ! i) [0 ..< length deps])"

text \<open>The layout effect of \<^verbatim>\<open>useKeyedClientResource\<close> on its two refs.\<close>

definition revalidateOnDeps :: "'d list option \<times> string option \<Rightarrow> string \<Rightarrow> 'd list \<Rightarrow> nat option \<Rightarrow> nat \<Rightarrow>
    'v resource_options \<Rightarrow> 'v store \<Rightarrow> ('d list option \<times> string option) \<times> 'v store" where
  "revalidateOnDeps refs key deps owner load opts st =
     ((Some deps, Some key),
      if keyedResourceShouldForceLoad (fst refs) (snd refs) deps key
      then hook_refresh key owner load (Some True) opts st else st)"

definition inspectClientResource :: "string \<Rightarrow> 'v store \<Rightarrow> resource_inspect option" where
  "inspectClientResource key st = map_option inspect (map_of (st_table st) key)"

section \<open>The events of the store\<close>

inductive store_step :: "'v store \<Rightarrow> 'v store \<Rightarrow> bool" where
  step_render: "store_step st (hook_render key opts st)"
| step_subscribe: "store_step st (hook_subscribe key notify load opts st)"
| step_read: "store_step st (snd (getSnapshot key opts st))"
| step_refresh: "store_step st (hook_refresh key owner load forceLoading opts st)"
| step_publish: "store_step st (setClientResourceData key data st)"
| step_leave: "map_of (st_table st) key = Some r \<Longrightarrow> notify \<in> fst ` set (watchers r)
    \<Longrightarrow> store_step st (store_leave key notify st)"
| step_tick: "map_of (st_table st) key = Some r \<Longrightarrow> pulse r
    \<Longrightarrow> store_step st (on_resource key (quietTick (st_hidden st)) st)"
| step_deadline: "store_step st (on_resource key (expire e) st)"
| step_finish: "store_step st (on_resource key (finish e outcome (st_now st)) st)"
| step_visibility: "store_step st (visibility_event hidden st)"
| step_evict: "(key, i) \<in> set (st_evictions st) \<Longrightarrow> store_step st (run_eviction key i st)"
| step_clock: "st_now st \<le> t \<Longrightarrow> store_step st (st\<lparr>st_now := t\<rparr>)"

abbreviation reachable_store :: "'v store \<Rightarrow> bool" where
  "reachable_store \<equiv> reach (\<lambda>st. st = empty_store) store_step"

section \<open>Invariants of one resource\<close>

definition snapshot_ok :: "'v snapshot \<Rightarrow> bool" where
  "snapshot_ok sn \<longleftrightarrow>
     (sn_hasSucceeded sn \<longleftrightarrow> sn_data sn \<noteq> None)
     \<and> (sn_lastAttemptOk sn \<longrightarrow> sn_hasSucceeded sn \<and> sn_error sn = None)"

text \<open>
  The attempts: the current one carries the epoch of the resource and is only ever aborted by its
  own deadline; every other attempt in flight is older and aborted.
\<close>

definition attempts_ok :: "nat \<Rightarrow> nat option \<Rightarrow> attempt list \<Rightarrow> bool" where
  "attempts_ok ep cur atts \<longleftrightarrow>
     distinct (map att_epoch atts)
     \<and> (\<forall>e. cur = Some e \<longrightarrow> e = ep \<and> ep \<in> att_epoch ` set atts)
     \<and> (\<forall>a \<in> set atts. if cur = Some (att_epoch a) then att_aborted a \<longrightarrow> att_timedOut a
          else att_aborted a \<and> att_epoch a < ep)"

definition resource_ok :: "'v resource \<Rightarrow> bool" where
  "resource_ok r \<longleftrightarrow>
     snapshot_ok (snapshot r) \<and> attempts_ok (epoch r) (attempt r) (inflight r)
     \<and> (attempt r \<noteq> None \<longrightarrow> sn_refreshing (snapshot r)) \<and> distinct (map fst (watchers r))"

named_theorems resource_defs \<open>unfolding of the operations of a resource\<close>

declare emit_def [resource_defs] abort_attempt_def [resource_defs] openAttempt_def [resource_defs]
  closeAttempt_def [resource_defs] expire_def [resource_defs] stopPulse_def [resource_defs]
  publish_def [resource_defs] markFreshSeed_def [resource_defs] abortOwned_def [resource_defs]

lemma snapshot_ok_intros [simp]:
  "snapshot_ok emptyResourceSnapshot"
  "snapshot_ok sn \<Longrightarrow> snapshot_ok (resourceInFlightSnapshot sn fl)"
  "snapshot_ok (resourceSuccessSnapshot d)"
  "snapshot_ok sn \<Longrightarrow> snapshot_ok (resourceFailureSnapshot sn e)"
  "snapshot_ok (emptyResourceSnapshot\<lparr>sn_data := Some d, sn_hasSucceeded := True, sn_lastAttemptOk := True\<rparr>)"
  "snapshot_ok sn \<Longrightarrow> snapshot_ok (sn\<lparr>sn_refreshing := b\<rparr>)"
  by (auto simp: snapshot_ok_def emptyResourceSnapshot_def resourceInFlightSnapshot_def
      resourceSuccessSnapshot_def resourceFailureSnapshot_def)

lemma att_epoch_mark [simp]:
  "att_epoch (if b then a\<lparr>att_aborted := True\<rparr> else a) = att_epoch a"
  "att_epoch (if b then a\<lparr>att_timedOut := True, att_aborted := True\<rparr> else a) = att_epoch a"
  by simp_all

lemma attempts_ok_open:
  assumes "attempts_ok ep None atts" "att_epoch a = Suc ep" "\<not> att_aborted a"
  shows "attempts_ok (Suc ep) (Some (Suc ep)) (atts @ [a])"
  using assms by (auto simp: attempts_ok_def less_Suc_eq)

lemma attempts_ok_abort:
  assumes "attempts_ok ep cur atts"
  shows "attempts_ok (Suc ep) None (map (\<lambda>a. if cur = Some (att_epoch a) then a\<lparr>att_aborted := True\<rparr> else a) atts)"
  using assms by (auto simp: attempts_ok_def less_Suc_eq o_def image_image split: if_splits)

lemma attempts_ok_replace:
  assumes "attempts_ok ep cur atts" "att_epoch a = Suc ep" "\<not> att_aborted a"
  shows "attempts_ok (Suc ep) (Some (Suc ep))
    (map (\<lambda>a. if cur = Some (att_epoch a) then a\<lparr>att_aborted := True\<rparr> else a) atts @ [a])"
  using assms by (auto simp: attempts_ok_def less_Suc_eq o_def image_image split: if_splits)

lemma attempts_ok_close:
  assumes "attempts_ok ep cur atts"
  shows "attempts_ok ep (if cur = Some e then None else cur) (filter (\<lambda>a. att_epoch a \<noteq> e) atts)"
proof -
  have "distinct (map att_epoch (filter (\<lambda>a. att_epoch a \<noteq> e) atts))"
    using assms by (simp add: attempts_ok_def distinct_map_filter)
  with assms show ?thesis by (auto simp: attempts_ok_def)
qed

lemma attempts_ok_map:
  assumes "attempts_ok ep cur atts" "\<And>a. att_epoch (f a) = att_epoch a"
    and "\<And>a. att_aborted a \<Longrightarrow> att_aborted (f a)" "\<And>a. att_timedOut a \<Longrightarrow> att_timedOut (f a)"
    and "\<And>a. att_aborted (f a) \<Longrightarrow> att_aborted a \<or> att_timedOut (f a)"
  shows "attempts_ok ep cur (map f atts)"
proof -
  have img: "att_epoch ` set (map f atts) = att_epoch ` set atts" by (simp add: image_image assms(2))
  have dis: "distinct (map att_epoch (map f atts))"
    using assms(1,2) by (simp add: attempts_ok_def o_def)
  have "if cur = Some (att_epoch (f a)) then att_aborted (f a) \<longrightarrow> att_timedOut (f a)
      else att_aborted (f a) \<and> att_epoch (f a) < ep" if "a \<in> set atts" for a
    using assms(1) that assms(2-5) [of a] unfolding attempts_ok_def by (auto split: if_splits)
  then show ?thesis using assms(1) dis unfolding attempts_ok_def img by auto
qed

lemma attempts_ok_expire:
  assumes "attempts_ok ep cur atts"
  shows "attempts_ok ep cur
    (map (\<lambda>a. if att_epoch a = e then a\<lparr>att_timedOut := True, att_aborted := True\<rparr> else a) atts)"
  using assms by (rule attempts_ok_map) auto

lemma emit_simps [simp]:
  "snapshot (emit r) = snapshot r" "epoch (emit r) = epoch r" "attempt (emit r) = attempt r"
  "inflight (emit r) = inflight r" "watchers (emit r) = watchers r" "pulse (emit r) = pulse r"
  "pulseMs (emit r) = pulseMs r" "seedDirty (emit r) = seedDirty r" "settledAt (emit r) = settledAt r"
  "res_key (emit r) = res_key r" "res_id (emit r) = res_id r"
  by (simp_all add: emit_def)

lemma refreshing_simps [simp]:
  "sn_refreshing (resourceInFlightSnapshot sn fl)"
  "\<not> sn_refreshing emptyResourceSnapshot"
  by (simp_all add: resourceInFlightSnapshot_def emptyResourceSnapshot_def)

lemma resource_ok_new: "resource_ok (new_resource key i)"
  by (simp add: resource_ok_def new_resource_def attempts_ok_def)

lemma resource_ok_ask:
  assumes "resource_ok r"
  shows "resource_ok (ask replace owner load fl dl r)"
proof (cases "shouldSkipQuietResourceFetch (attempt r \<noteq> None) (resourceReplaceInflight replace)")
  case True
  then show ?thesis using assms by (simp add: ask_def)
next
  case False
  then consider "resourceReplaceInflight replace" | "\<not> resourceReplaceInflight replace" "attempt r = None"
    by (auto simp: shouldSkipQuietResourceFetch_def)
  then show ?thesis
  proof cases
    case 1
    then show ?thesis using assms False
      by (auto simp: ask_def Let_def resource_ok_def openAttempt_def abort_attempt_def intro!: attempts_ok_replace)
  next
    case 2
    then show ?thesis using assms False
      by (auto simp: ask_def Let_def resource_ok_def openAttempt_def intro!: attempts_ok_open)
  qed
qed

lemma resource_ok_publish: "resource_ok r \<Longrightarrow> resource_ok (publish d now r)"
  by (simp add: resource_ok_def publish_def Let_def abort_attempt_def attempts_ok_abort)

lemma resource_ok_expire: "resource_ok r \<Longrightarrow> resource_ok (expire e r)"
  by (simp add: resource_ok_def expire_def attempts_ok_expire)

lemma resource_ok_frame:
  "resource_ok r \<Longrightarrow> resource_ok (r\<lparr>pulse := b, pulseMs := m\<rparr>)"
  "resource_ok r \<Longrightarrow> resource_ok (r\<lparr>pulseMs := m, pulse := b\<rparr>)"
  "resource_ok r \<Longrightarrow> resource_ok (r\<lparr>seedDirty := b, settledAt := t\<rparr>)"
  "resource_ok r \<Longrightarrow> distinct (map fst ws) \<Longrightarrow> resource_ok (r\<lparr>watchers := ws\<rparr>)"
  by (simp_all add: resource_ok_def)

lemma settle_frame [simp]:
  "epoch (settle h out now r) = epoch r" "attempt (settle h out now r) = attempt r"
  "inflight (settle h out now r) = inflight r" "watchers (settle h out now r) = watchers r"
  "pulse (settle h out now r) = pulse r" "pulseMs (settle h out now r) = pulseMs r"
  "res_key (settle h out now r) = res_key r" "res_id (settle h out now r) = res_id r"
  by (simp_all add: settle_def split: fetch_commit.splits)

lemma settle_stale: "att_epoch h \<noteq> epoch r \<Longrightarrow> settle h out now r = r"
  by (cases out) (simp_all add: settle_def)

lemma settle_snapshot_ok: "snapshot_ok (snapshot r) \<Longrightarrow> snapshot_ok (snapshot (settle h out now r))"
  by (cases out) (simp_all add: settle_def)

lemma find_attempt_Some: "find_attempt e r = Some h \<Longrightarrow> h \<in> set (inflight r) \<and> att_epoch h = e"
  by (auto simp: find_attempt_def find_Some_iff)

lemma resource_ok_current:
  assumes "resource_ok r" "h \<in> set (inflight r)" "att_epoch h = epoch r"
  shows "attempt r = Some (epoch r)"
  using assms by (auto simp: resource_ok_def attempts_ok_def split: if_splits)

lemma resource_ok_finish:
  assumes "resource_ok r"
  shows "resource_ok (finish e out now r)"
proof (cases "find_attempt e r")
  case None then show ?thesis using assms by (simp add: finish_def)
next
  case (Some h)
  note h = find_attempt_Some [OF Some]
  have "sn_refreshing (snapshot (settle h out now r))"
    if "attempt r \<noteq> None" "attempt r \<noteq> Some (att_epoch h)"
  proof -
    have "att_epoch h \<noteq> epoch r" using resource_ok_current [OF assms] h that by auto
    then show ?thesis using assms that by (simp add: settle_stale resource_ok_def)
  qed
  moreover have "attempts_ok (epoch r) (if attempt r = Some (att_epoch h) then None else attempt r)
      (filter (\<lambda>a. att_epoch a \<noteq> att_epoch h) (inflight r))"
    using assms by (intro attempts_ok_close) (simp add: resource_ok_def)
  ultimately show ?thesis using assms Some h settle_snapshot_ok [of r h out now]
    by (auto simp: finish_def resource_ok_def closeAttempt_def split: if_splits)
qed

lemma resource_ok_retune: "resource_ok r \<Longrightarrow> resource_ok (fst (retunePulse hidden r))"
  by (auto simp: retunePulse_def stopPulse_def resource_ok_frame split: option.splits)

lemma resource_ok_ask_watcher: "resource_ok r \<Longrightarrow> resource_ok (ask_watcher b kw r)"
  by (simp add: ask_watcher_def resource_ok_ask)

lemma resource_ok_catchUp: "resource_ok r \<Longrightarrow> resource_ok (catchUp r)"
  by (auto simp: catchUp_def resource_ok_ask_watcher split: option.splits)

lemma resource_ok_tick: "resource_ok r \<Longrightarrow> resource_ok (quietTick hidden r)"
  by (auto simp: quietTick_def resource_ok_ask_watcher split: option.splits)

lemma resource_ok_reload: "resource_ok r \<Longrightarrow> resource_ok (reload load owner fl dl r)"
  by (simp add: reload_def Let_def resource_ok_ask)

lemma resource_ok_join:
  assumes "resource_ok r"
  shows "resource_ok (fst (join hidden n w stale now r))"
proof -
  have "resource_ok (r\<lparr>watchers := AList.update n w (watchers r)\<rparr>)"
    using assms by (intro resource_ok_frame) (simp_all add: resource_ok_def distinct_update)
  then show ?thesis
    by (simp add: join_def join_watchers_def Let_def resource_ok_retune resource_ok_ask_watcher)
qed

lemma resource_ok_cancel:
  assumes "resource_ok r"
  shows "resource_ok (fst (cancelOwnedBy n r))"
  using assms
  by (auto simp: cancelOwnedBy_def Let_def resource_ok_def abort_attempt_def attempts_ok_abort)

lemma cancelOwnedBy_frame [simp]:
  "watchers (fst (cancelOwnedBy n r)) = watchers r" "res_key (fst (cancelOwnedBy n r)) = res_key r"
  "res_id (fst (cancelOwnedBy n r)) = res_id r"
  by (simp_all add: cancelOwnedBy_def Let_def abort_attempt_def)

lemma resource_ok_leave:
  assumes "resource_ok r"
  shows "resource_ok (fst (leave hidden n r))"
proof -
  let ?r0 = "r\<lparr>watchers := AList.delete n (watchers r)\<rparr>"
  obtain r1 killed where c: "cancelOwnedBy n ?r0 = (r1, killed)" by (cases "cancelOwnedBy n ?r0")
  have "resource_ok ?r0" using assms by (simp add: resource_ok_def distinct_delete)
  from resource_ok_cancel [OF this, of n] c have r1: "resource_ok r1" by simp
  then have "resource_ok (case pickWatcher hidden r1 of None \<Rightarrow> r1 | Some kw \<Rightarrow> ask_watcher True kw r1)"
    by (auto simp: resource_ok_ask_watcher split: option.splits)
  with r1 show ?thesis
    by (simp add: leave_def c Let_def split_def stopPulse_def resource_ok_frame resource_ok_retune
        cong: option.case_cong)
qed

section \<open>Invariants of the store\<close>

text \<open>
  The pulse of a resource is running exactly when some subscriber polls and the page allows it, at
  the lowest positive interval of its subscribers.
\<close>

definition tuned :: "bool \<Rightarrow> 'v resource \<Rightarrow> bool" where
  "tuned hidden r \<longleftrightarrow>
     (pulse r \<longleftrightarrow> fastestPoll r \<noteq> None \<and> (\<not> hidden \<or> hiddenOptOut r))
     \<and> pulseMs r = (if pulse r then fastestPoll r else None)"

text \<open>
  \<open>T\<close> names the keys whose pulse is tuned; while the page listener sweeps the table after a change of
  visibility, those are the ones already visited.
\<close>

definition store_inv :: "(string \<Rightarrow> bool) \<Rightarrow> 'v store \<Rightarrow> bool" where
  "store_inv T st \<longleftrightarrow>
     distinct (map fst (st_table st))
     \<and> (\<forall>k r. map_of (st_table st) k = Some r \<longrightarrow> res_key r = k \<and> resource_ok r
          \<and> (T k \<longrightarrow> tuned (st_hidden st) r) \<and> (pulse r \<longrightarrow> wantsCadence r)
          \<and> (\<not> wantsCadence r \<longrightarrow> pulseMs r = None) \<and> (wantsCadence r \<longrightarrow> st_pageListener st))"

abbreviation store_ok :: "'v store \<Rightarrow> bool" where
  "store_ok st \<equiv> store_inv (\<lambda>_. True) st"

text \<open>The operations that leave the subscribers and the pulse alone.\<close>

definition steady :: "('v resource \<Rightarrow> 'v resource) \<Rightarrow> bool" where
  "steady f \<longleftrightarrow> (\<forall>r. watchers (f r) = watchers r \<and> pulse (f r) = pulse r \<and> pulseMs (f r) = pulseMs r
     \<and> res_key (f r) = res_key r \<and> res_id (f r) = res_id r)"

lemma poll_cong:
  assumes "watchers r = watchers r'"
  shows "fastestPoll r = fastestPoll r'" "hiddenOptOut r = hiddenOptOut r'" "wantsCadence r = wantsCadence r'"
  using assms by (simp_all add: fastestPoll_def hiddenOptOut_def wantsCadence_def)

lemma steady_tuned: "steady f \<Longrightarrow> tuned hidden (f r) = tuned hidden r"
  using poll_cong [of "f r" r] by (simp add: steady_def tuned_def)

lemma steady_cadence: "steady f \<Longrightarrow> wantsCadence (f r) = wantsCadence r"
  using poll_cong [of "f r" r] by (simp add: steady_def)

lemma abort_attempt_frame [simp]:
  "watchers (abort_attempt r) = watchers r" "pulse (abort_attempt r) = pulse r"
  "pulseMs (abort_attempt r) = pulseMs r" "res_key (abort_attempt r) = res_key r"
  "res_id (abort_attempt r) = res_id r"
  by (simp_all add: abort_attempt_def)

lemma ask_frame [simp]:
  "watchers (ask replace owner load fl dl r) = watchers r" "pulse (ask replace owner load fl dl r) = pulse r"
  "pulseMs (ask replace owner load fl dl r) = pulseMs r" "res_key (ask replace owner load fl dl r) = res_key r"
  "res_id (ask replace owner load fl dl r) = res_id r"
  by (simp_all add: ask_def openAttempt_def Let_def)

lemma steady_ops:
  "steady (ask_watcher b kw)" "steady catchUp" "steady (quietTick hidden)" "steady (reload load owner fl dl)"
  "steady (publish d now)" "steady (markFreshSeed t)" "steady (expire e)" "steady (finish e out now)"
  by (auto simp: steady_def ask_watcher_def catchUp_def quietTick_def reload_def publish_def markFreshSeed_def
      expire_def finish_def closeAttempt_def Let_def split: option.splits)

lemma steady_comp: "steady f \<Longrightarrow> steady g \<Longrightarrow> steady (\<lambda>r. g (f r))"
  by (simp add: steady_def)

lemma retune_frame [simp]:
  "watchers (fst (retunePulse hidden r)) = watchers r" "res_key (fst (retunePulse hidden r)) = res_key r"
  "res_id (fst (retunePulse hidden r)) = res_id r"
  by (auto simp: retunePulse_def stopPulse_def split: option.splits)

lemma retune_tuned: "tuned hidden (fst (retunePulse hidden r))"
proof -
  have w: "fastestPoll (fst (retunePulse hidden r)) = fastestPoll r"
    "hiddenOptOut (fst (retunePulse hidden r)) = hiddenOptOut r"
    using poll_cong [of "fst (retunePulse hidden r)" r] by simp_all
  show ?thesis unfolding tuned_def w
    by (auto simp: retunePulse_def stopPulse_def split: option.splits)
qed

lemma put_simps [simp]:
  "st_table (put key r st) = AList.update key r (st_table st)" "st_pageListener (put key r st) = st_pageListener st"
  "st_hidden (put key r st) = st_hidden st" "st_now (put key r st) = st_now st"
  by (simp_all add: put_def)

lemma store_inv_lookup:
  assumes "store_inv T st" "map_of (st_table st) key = Some r"
  shows "res_key r = key" "resource_ok r" "T key \<Longrightarrow> tuned (st_hidden st) r" "wantsCadence r \<Longrightarrow> st_pageListener st"
    "pulse r \<Longrightarrow> wantsCadence r" "\<not> wantsCadence r \<Longrightarrow> pulseMs r = None"
  using assms by (auto simp: store_inv_def)

lemma tuned_cadence: "tuned hidden r \<Longrightarrow> (pulse r \<longrightarrow> wantsCadence r) \<and> (\<not> wantsCadence r \<longrightarrow> pulseMs r = None)"
  by (auto simp: tuned_def wantsCadence_def split: if_splits)

text \<open>
  Every operation on a resource ends by putting it back, with or without a request to the page. A
  page request keeps the store well formed when it comes from retuning the resource itself.
\<close>

lemma store_inv_put:
  assumes "store_inv T st" "res_key r = key" "resource_ok r" "T' key \<Longrightarrow> tuned (st_hidden st) r"
    and "wantsCadence r \<Longrightarrow> st_pageListener st" "pulse r \<Longrightarrow> wantsCadence r" "\<not> wantsCadence r \<Longrightarrow> pulseMs r = None"
    and "\<And>k. T' k \<Longrightarrow> k \<noteq> key \<Longrightarrow> T k"
  shows "store_inv T' (put key r st)"
  using assms by (auto simp: store_inv_def distinct_update update_conv')

lemma store_inv_listener:
  "store_inv T st \<Longrightarrow> store_inv T (bindPage st)"
  "store_inv T st \<Longrightarrow> store_inv T (unbindPageIfIdle st)"
  by (auto simp: store_inv_def bindPage_def unbindPageIfIdle_def list_ex_iff dest: map_of_SomeD)

lemma store_inv_put_retuned:
  assumes ok: "store_inv T st" and r: "res_key r = key" "resource_ok r" and p: "pulse r \<Longrightarrow> st_pageListener st"
    and ret: "retunePulse (st_hidden st) r = (r1, req)"
  shows "store_inv (T(key := True)) (page_effect req (put key r1 st))"
proof -
  have r1: "res_key r1 = key" "resource_ok r1" "tuned (st_hidden st) r1" "wantsCadence r1 = wantsCadence r"
    using retune_frame [of "st_hidden st" r] resource_ok_retune [OF r(2), of "st_hidden st"]
      retune_tuned [of "st_hidden st" r] poll_cong(3) [of r1 r] ret r(1) by simp_all
  note cad = tuned_cadence [OF r1(3)]
  show ?thesis
  proof (cases req)
    case BindPage
    have "store_inv T (bindPage st)" by (rule store_inv_listener [OF ok])
    from store_inv_put [OF this r1(1,2), where T' = "T(key := True)"] r1(3) cad
    have "store_inv (T(key := True)) (put key r1 (bindPage st))" by (simp add: bindPage_def)
    then show ?thesis by (simp add: BindPage page_effect_def bindPage_def put_def store_inv_def)
  next
    case UnbindPageIfIdle
    then have "\<not> wantsCadence r1"
      using ret r1(4) by (auto simp: retunePulse_def wantsCadence_def split: option.splits if_splits)
    then have "store_inv (T(key := True)) (put key r1 st)"
      using r1 cad by (intro store_inv_put [OF ok]) (auto split: if_splits)
    then show ?thesis by (simp add: UnbindPageIfIdle page_effect_def store_inv_listener)
  next
    case KeepPage
    then have "pulse r" using ret by (auto simp: retunePulse_def split: option.splits if_splits)
    then have "store_inv (T(key := True)) (put key r1 st)"
      using r1 cad p by (intro store_inv_put [OF ok]) (auto split: if_splits)
    then show ?thesis by (simp add: KeepPage page_effect_def)
  qed
qed

lemma store_inv_on_resource:
  assumes "store_inv T st" "steady f" "\<And>r. resource_ok r \<Longrightarrow> resource_ok (f r)"
  shows "store_inv T (on_resource key f st)"
proof (cases "map_of (st_table st) key")
  case (Some r)
  note l = store_inv_lookup [OF assms(1) Some]
  have "store_inv T (put key (f r) st)"
    using l assms(2,3)
    by (intro store_inv_put [OF assms(1)]) (auto simp: steady_tuned steady_cadence, (auto simp: steady_def)?)
  with Some show ?thesis by (simp add: on_resource_def)
qed (simp add: on_resource_def assms(1))

lemma resourceOf_ok:
  assumes "store_ok st" "resourceOf key st = (r, s)"
  shows "store_ok s" "map_of (st_table s) key = Some r" "st_hidden s = st_hidden st" "st_now s = st_now st"
proof -
  have t: "tuned h (new_resource key i)" "\<not> wantsCadence (new_resource key i)" "\<not> pulse (new_resource key i)"
    "pulseMs (new_resource key i) = None" "res_key (new_resource key i) = key" for h i
    by (simp_all add: tuned_def new_resource_def fastestPoll_def wantsCadence_def)
  have "store_ok (put key (new_resource key i) st)" for i
    by (rule store_inv_put [OF assms(1)]) (simp_all add: t resource_ok_new)
  then have new: "store_ok ((put key (new_resource key i) st)\<lparr>st_nextId := n\<rparr>)" for i n
    by (simp add: store_inv_def)
  show "store_ok s" "map_of (st_table s) key = Some r" "st_hidden s = st_hidden st" "st_now s = st_now st"
    using assms new by (auto simp: resourceOf_def Let_def update_conv' split: option.splits)
qed

lemma store_ok_put_resourceOf:
  assumes "store_ok st" "resourceOf key st = (r, s)" "steady f" "\<And>r. resource_ok r \<Longrightarrow> resource_ok (f r)"
  shows "store_ok (put key (f r) s)"
  using store_inv_on_resource [OF resourceOf_ok(1) [OF assms(1,2)] assms(3,4), of key]
    resourceOf_ok(2) [OF assms(1,2)] by (simp add: on_resource_def)

lemma store_ok_publish: "store_ok st \<Longrightarrow> store_ok (setClientResourceData key d st)"
  by (auto simp: setClientResourceData_def split_def Let_def
      intro: store_ok_put_resourceOf steady_ops resource_ok_publish prod.collapse [symmetric])

lemma store_ok_seed:
  assumes "store_ok st"
  shows "store_ok (seedVacant key d cachedAt stale st)"
proof -
  obtain r s where rs: "resourceOf key st = (r, s)" by (cases "resourceOf key st")
  note put = store_ok_put_resourceOf [OF assms rs]
  have "store_ok (put key (publish d t r) s)" for t
    by (rule put) (simp_all add: steady_ops resource_ok_publish)
  moreover have "store_ok (put key (markFreshSeed c (publish d t r)) s)" for t c
  proof (rule put [where f = "\<lambda>r. markFreshSeed c (publish d t r)"])
    show "steady (\<lambda>r. markFreshSeed c (publish d t r))"
      by (rule steady_comp [OF steady_ops(5) steady_ops(6)])
    show "resource_ok (markFreshSeed c (publish d t r))" if "resource_ok r" for r :: "'a resource"
      using resource_ok_publish [OF that] by (simp add: markFreshSeed_def resource_ok_frame)
  qed
  ultimately show ?thesis using resourceOf_ok(1) [OF assms rs]
    by (simp add: seedVacant_def rs Let_def split: option.split)
qed

lemma store_ok_render: "store_ok st \<Longrightarrow> store_ok (hook_render key opts st)"
  by (simp add: hook_render_def store_ok_seed split: option.split)

lemma store_ok_refresh: "store_ok st \<Longrightarrow> store_ok (hook_refresh key owner load fl opts st)"
  by (auto simp: hook_refresh_def split_def Let_def
      intro: store_ok_put_resourceOf steady_ops resource_ok_reload prod.collapse [symmetric])

lemma store_ok_join:
  assumes "store_ok st"
  shows "store_ok (store_join key n w stale st)"
proof -
  obtain r s where rs: "resourceOf key st = (r, s)" by (cases "resourceOf key st")
  note s = resourceOf_ok [OF assms rs]
  let ?j = "join_watchers n w stale (st_now s) r"
  obtain r1 req where ret: "retunePulse (st_hidden s) ?j = (r1, req)" by (cases "retunePulse (st_hidden s) ?j")
  have j: "res_key ?j = res_key r" "pulse ?j = pulse r" "resource_ok ?j"
  proof -
    have "resource_ok (r\<lparr>watchers := AList.update n w (watchers r)\<rparr>)"
      using store_inv_lookup(2) [OF s(1,2)] by (intro resource_ok_frame) (simp_all add: resource_ok_def distinct_update)
    then show "res_key ?j = res_key r" "pulse ?j = pulse r" "resource_ok ?j"
      by (simp_all add: join_watchers_def Let_def resource_ok_ask_watcher ask_watcher_def resource_ok_ask)
  qed
  have "store_inv ((\<lambda>_. True)(key := True)) (page_effect req (put key r1 s))"
    by (rule store_inv_put_retuned [OF s(1) _ _ _ ret]) (use j store_inv_lookup [OF s(1,2)] in simp_all)
  then show ?thesis by (simp add: store_join_def rs join_def ret fun_upd_def)
qed

lemma store_ok_subscribe: "store_ok st \<Longrightarrow> store_ok (hook_subscribe key n load opts st)"
  by (simp add: hook_subscribe_def store_ok_join)


lemma store_inv_frame [simp]:
  "store_inv T (st\<lparr>st_evictions := es\<rparr>) = store_inv T st" "store_inv T (st\<lparr>st_now := t\<rparr>) = store_inv T st"
  by (simp_all add: store_inv_def)

lemma leave_frame [simp]: "res_key (fst (leave hidden n r)) = res_key r" "res_id (fst (leave hidden n r)) = res_id r"
  by (simp_all add: leave_def Let_def split_def stopPulse_def ask_watcher_def split: option.split)

lemma cancelOwnedBy_pulse [simp]:
  "pulse (fst (cancelOwnedBy n r)) = pulse r" "pulseMs (fst (cancelOwnedBy n r)) = pulseMs r"
  by (simp_all add: cancelOwnedBy_def Let_def)

lemma store_ok_leave:
  assumes "store_ok st"
  shows "store_ok (store_leave key n st)"
proof (cases "map_of (st_table st) key")
  case None then show ?thesis by (simp add: store_leave_def assms)
next
  case (Some r)
  note l = store_inv_lookup [OF assms Some]
  let ?r0 = "r\<lparr>watchers := AList.delete n (watchers r)\<rparr>"
  obtain r1 killed where c: "cancelOwnedBy n ?r0 = (r1, killed)" by (cases "cancelOwnedBy n ?r0")
  have "resource_ok ?r0" using l(2) by (simp add: resource_ok_def distinct_delete)
  from resource_ok_cancel [OF this, of n] c have ok1: "resource_ok r1" by simp
  have f1: "res_key r1 = key" "res_id r1 = res_id r" "watchers r1 = AList.delete n (watchers r)" "pulse r1 = pulse r"
    using cancelOwnedBy_frame [of n ?r0] cancelOwnedBy_pulse [of n ?r0] c l(1) by simp_all
  show ?thesis
  proof (cases "watchers r1 = []")
    case True
    then have "store_ok (put key (stopPulse r1) st)"
      using f1 ok1 by (intro store_inv_put [OF assms])
        (simp_all add: stopPulse_def resource_ok_frame wantsCadence_def fastestPoll_def tuned_def)
    from store_inv_listener(2) [OF this] show ?thesis using True
      by (simp add: store_leave_def Some leave_def c Let_def)
  next
    case False
    let ?r2 = "if killed then (case pickWatcher (st_hidden st) r1 of None \<Rightarrow> r1 | Some kw \<Rightarrow> ask_watcher True kw r1) else r1"
    have r2: "res_key ?r2 = key" "resource_ok ?r2" "pulse ?r2 = pulse r"
      using f1 ok1 by (auto simp: resource_ok_ask_watcher split: option.split) (simp_all add: ask_watcher_def)
    obtain r3 req where ret: "retunePulse (st_hidden st) ?r2 = (r3, req)" by (cases "retunePulse (st_hidden st) ?r2")
    have "store_inv ((\<lambda>_. True)(key := True)) (page_effect req (put key r3 st))"
      by (rule store_inv_put_retuned [OF assms r2(1,2) _ ret]) (use l r2 in auto)
    then have "store_ok (page_effect req (put key r3 st))" by (simp add: fun_upd_def)
    with False ret show ?thesis by (simp add: store_leave_def Some leave_def c Let_def)
  qed
qed

lemma store_ok_evict: "store_ok st \<Longrightarrow> store_ok (run_eviction key i st)"
proof -
  assume ok: "store_ok st"
  have "store_ok (st\<lparr>st_evictions := es, st_table := AList.delete key (AList.update key r (st_table st))\<rparr>)" for r es
    using ok by (auto simp: store_inv_def distinct_delete distinct_update delete_conv' update_conv' split: if_splits)
  from store_inv_listener(2) [OF this] show ?thesis using ok
    by (simp add: run_eviction_def Let_def put_def split: option.split)
qed

lemma page_effect_frame [simp]:
  "st_hidden (page_effect req st) = st_hidden st" "st_table (page_effect req st) = st_table st"
  by (simp_all add: page_effect_def bindPage_def unbindPageIfIdle_def split: page_request.split)

lemma store_retune_inv:
  assumes "store_inv T st" "key \<in> fst ` set (st_table st)"
  shows "store_inv (T(key := True)) (store_retune key st)"
proof -
  from assms(2) obtain r where r: "map_of (st_table st) key = Some r"
    by (metis map_of_eq_None_iff option.exhaust_sel)
  note l = store_inv_lookup [OF assms(1) r]
  obtain r1 req where ret: "retunePulse (st_hidden st) r = (r1, req)" by (cases "retunePulse (st_hidden st) r")
  from store_inv_put_retuned [OF assms(1) l(1,2) _ ret] l show ?thesis
    by (simp add: store_retune_def r ret)
qed

lemma sweep_frame:
  "st_hidden (store_retune key st) = st_hidden st"
  "fst ` set (st_table (store_retune key st)) = fst ` set (st_table st)"
  "st_hidden (on_resource key f st) = st_hidden st"
  "fst ` set (st_table (on_resource key f st)) = fst ` set (st_table st)"
  by (auto simp: store_retune_def on_resource_def split_def Let_def dom_update
      dest: map_of_SomeD intro: rev_image_eqI split: option.split)

lemma store_inv_mono: "store_inv T st \<Longrightarrow> (\<And>k. T' k \<Longrightarrow> T k) \<Longrightarrow> store_inv T' st"
  by (simp add: store_inv_def)

lemma sweep_inv:
  assumes "store_inv T st" "set keys \<subseteq> fst ` set (st_table st)"
  shows "store_inv (\<lambda>k. T k \<or> k \<in> set keys)
    (foldl (\<lambda>s key. let s1 = store_retune key s in if st_hidden s1 then s1 else on_resource key catchUp s1) st keys)"
  using assms
proof (induction keys arbitrary: T st)
  case Nil then show ?case by simp
next
  case (Cons key keys)
  let ?s1 = "store_retune key st"
  let ?s2 = "if st_hidden ?s1 then ?s1 else on_resource key catchUp ?s1"
  have "store_inv (T(key := True)) ?s1" using Cons.prems by (intro store_retune_inv) auto
  then have "store_inv (T(key := True)) ?s2"
    by (auto intro: store_inv_on_resource simp: steady_ops resource_ok_catchUp)
  moreover have "set keys \<subseteq> fst ` set (st_table ?s2)" using Cons.prems(2) by (auto simp: sweep_frame)
  ultimately have "store_inv (\<lambda>k. (T(key := True)) k \<or> k \<in> set keys)
    (foldl (\<lambda>s key. let s1 = store_retune key s in if st_hidden s1 then s1 else on_resource key catchUp s1) ?s2 keys)"
    by (rule Cons.IH)
  then have "store_inv (\<lambda>k. T k \<or> k \<in> set (key # keys))
    (foldl (\<lambda>s key. let s1 = store_retune key s in if st_hidden s1 then s1 else on_resource key catchUp s1) ?s2 keys)"
    by (rule store_inv_mono) (auto split: if_splits)
  then show ?case by (simp add: Let_def)
qed

lemma store_ok_visibility:
  assumes "store_ok st"
  shows "store_ok (visibility_event hidden st)"
proof (cases "st_pageListener st")
  case True
  let ?s = "st\<lparr>st_hidden := hidden\<rparr>"
  have "store_inv (\<lambda>_. False) ?s" using assms by (simp add: store_inv_def)
  from sweep_inv [OF this, of "map fst (st_table st)"]
  have sw: "store_inv (\<lambda>k. k \<in> fst ` set (st_table st)) (onChange ?s)" by (simp add: onChange_def)
  have "fst ` set (st_table (foldl (\<lambda>s key. let s1 = store_retune key s in
      if st_hidden s1 then s1 else on_resource key catchUp s1) s keys)) = fst ` set (st_table s)" for s :: "'a store" and keys
    by (induction keys arbitrary: s) (simp_all add: Let_def sweep_frame)
  then have dom: "fst ` set (st_table (onChange ?s)) = fst ` set (st_table st)" by (simp add: onChange_def)
  have "store_ok (onChange ?s)"
    using sw unfolding store_inv_def
    by (metis (no_types, lifting) dom domI dom_map_of_conv_image_fst)
  with True show ?thesis by (simp add: visibility_event_def)
next
  case False
  then show ?thesis using assms
    by (auto simp: visibility_event_def store_inv_def tuned_def wantsCadence_def)
qed

lemma store_ok_read: "store_ok st \<Longrightarrow> store_ok (snd (getSnapshot key opts st))"
  using resourceOf_ok(1) [of st key] by (auto simp: getSnapshot_def split_def Let_def prod_eq_iff)

lemma store_ok_step:
  assumes "store_step st st'" "store_ok st"
  shows "store_ok st'"
  using assms
proof cases
  case step_render then show ?thesis using assms(2) by (simp add: store_ok_render)
next
  case step_subscribe then show ?thesis using assms(2) by (simp add: store_ok_subscribe)
next
  case step_read then show ?thesis using assms(2) by (simp add: store_ok_read)
next
  case step_refresh then show ?thesis using assms(2) by (simp add: store_ok_refresh)
next
  case step_publish then show ?thesis using assms(2) by (simp add: store_ok_publish)
next
  case step_leave then show ?thesis using assms(2) by (simp add: store_ok_leave)
next
  case step_tick then show ?thesis using assms(2) by (simp add: store_inv_on_resource steady_ops resource_ok_tick)
next
  case step_deadline then show ?thesis using assms(2) by (simp add: store_inv_on_resource steady_ops resource_ok_expire)
next
  case step_finish then show ?thesis using assms(2) by (simp add: store_inv_on_resource steady_ops resource_ok_finish)
next
  case step_visibility then show ?thesis using assms(2) by (simp add: store_ok_visibility)
next
  case step_evict then show ?thesis using assms(2) by (simp add: store_ok_evict)
next
  case step_clock then show ?thesis using assms(2) by simp
qed

lemma store_ok_empty: "store_ok empty_store"
  by (simp add: store_inv_def empty_store_def)

interpretation resource_store: machine "\<lambda>st. st = empty_store" store_step store_ok
  by unfold_locales (auto simp: store_ok_empty intro: store_ok_step)

lemma Min_insert_min:
  assumes "finite A"
  shows "Min (insert l (insert m A)) = Min (insert (min l m) A)"
  using assms by (cases "A = {}") (simp_all add: min.assoc)

lemma fastestPoll_min:
  "foldl lower_poll low ws =
     (let ps = {ms. \<exists>kw \<in> set ws. wt_pollMs (snd kw) = Some ms \<and> ms > 0} \<union> set_option low in
      if ps = {} then None else Some (Min ps))"
proof (induction ws arbitrary: low)
  case Nil
  then show ?case by (cases low) auto
next
  case (Cons w ws)
  let ?P = "\<lambda>ws. {ms. \<exists>kw \<in> set ws. wt_pollMs (snd kw) = Some ms \<and> ms > 0}"
  have fin: "finite (?P vs)" for vs
    by (rule finite_subset [of _ "(\<lambda>kw. the (wt_pollMs (snd kw))) ` set vs"]) force+
  show ?case
  proof (cases "positiveMs (wt_pollMs (snd w))")
    case False
    then have "?P (w # ws) = ?P ws" by (auto simp: positiveMs_def)
    with Cons False show ?thesis by (simp add: lower_poll_def)
  next
    case True
    then obtain ms where ms: "wt_pollMs (snd w) = Some ms" "ms > 0" by (auto simp: positiveMs_def split: option.splits)
    then have P: "?P (w # ws) = insert ms (?P ws)" by auto
    show ?thesis
    proof (cases low)
      case None
      with Cons True ms P show ?thesis by (simp add: lower_poll_def)
    next
      case (Some l)
      have "Min (insert ms (?P ws) \<union> {l}) = Min (?P ws \<union> {min l ms})"
        using Min_insert_min [OF fin, of l ms ws] by (simp add: insert_commute)
      with Cons True ms P Some show ?thesis by (simp add: lower_poll_def)
    qed
  qed
qed

section \<open>Properties\<close>

definition plain_options :: "nat resource_options" where
  "plain_options = \<lparr>op_pollMs = None, op_enabled = None, op_pauseWhenHidden = None, op_initialData = None,
     op_deadlineMs = None, op_staleAfterMs = None, op_initialDataCachedAt = None\<rparr>"

definition polling_options :: "nat resource_options" where
  "polling_options = plain_options\<lparr>op_pollMs := Some (Fin 5000)\<rparr>"

definition polled_store :: "nat store" where
  "polled_store = hook_subscribe ''k'' 2 8 polling_options (hook_subscribe ''k'' 1 7 plain_options empty_store)"

lemma polled_store_reachable: "reachable_store polled_store"
  unfolding polled_store_def
  by (rule reach_step, rule reach_step, rule reach_init, rule refl, rule step_subscribe, rule step_subscribe)

lemma polled_store_lookup:
  "map_option inspect (map_of (st_table polled_store) ''k'') =
     Some \<lparr>ri_key = ''k'', ri_subscribers = 2, ri_pollMs = Some 5000, ri_generation = 1, ri_refreshing = True,
       ri_hasAttempt = True, ri_lastSettledAt = None, ri_seedNeedsRevalidate = False, ri_loaderCount = 2,
       ri_paused = 1, ri_running = 0\<rparr>"
  by code_simp

text \<open>C7: one live request per key. In every reachable state of the store the current attempt of a
  resource carries its generation and is only aborted by its own deadline, every other request
  still in flight has been aborted and is older, so at most one request is live; data is present
  exactly when some load has succeeded.\<close>

theorem one_live_request:
  assumes "reachable_store st" "map_of (st_table st) key = Some r"
  shows "length (filter (\<lambda>a. \<not> att_aborted a) (inflight r)) \<le> 1
     \<and> (\<forall>e. attempt r = Some e \<longrightarrow> e = epoch r \<and> sn_refreshing (snapshot r))
     \<and> (\<forall>a \<in> set (inflight r). attempt r \<noteq> Some (att_epoch a) \<longrightarrow> att_aborted a \<and> att_epoch a < epoch r)
     \<and> (sn_hasSucceeded (snapshot r) \<longleftrightarrow> sn_data (snapshot r) \<noteq> None)"
proof -
  have ok: "resource_ok r"
    using store_inv_lookup(2) [OF resource_store.reachable_inv [OF assms(1)] assms(2)] .
  have live: "set (filter (\<lambda>a. \<not> att_aborted a) (inflight r)) \<subseteq> {a \<in> set (inflight r). attempt r = Some (att_epoch a)}"
    using ok by (auto simp: resource_ok_def attempts_ok_def split: if_splits)
  have d: "distinct (map att_epoch (filter (\<lambda>a. \<not> att_aborted a) (inflight r)))"
    using ok by (simp add: resource_ok_def attempts_ok_def distinct_map_filter)
  have "card (att_epoch ` set (filter (\<lambda>a. \<not> att_aborted a) (inflight r))) \<le> card (set_option (attempt r))"
    using live by (intro card_mono) auto
  also have "\<dots> \<le> 1" by (cases "attempt r") auto
  finally have "length (filter (\<lambda>a. \<not> att_aborted a) (inflight r)) \<le> 1"
    using distinct_card [OF d] by simp
  then show ?thesis using ok by (auto simp: resource_ok_def attempts_ok_def snapshot_ok_def split: if_splits)
qed

theorem one_live_request_witness:
  "\<exists>r. reachable_store polled_store \<and> map_of (st_table polled_store) ''k'' = Some r
     \<and> attempt r \<noteq> None \<and> sn_refreshing (snapshot r)"
proof -
  obtain r where r: "map_of (st_table polled_store) ''k'' = Some r" "ri_hasAttempt (inspect r)"
    using polled_store_lookup by (cases "map_of (st_table polled_store) ''k''") auto
  then have a: "attempt r \<noteq> None" by (simp add: inspect_def)
  with one_live_request [OF polled_store_reachable r(1)] polled_store_reachable r(1) show ?thesis by blast
qed

text \<open>C9: the poll timer of a key. In every reachable state it runs exactly when some subscriber polls and
  the page is visible or a polling subscriber opted out of pausing; it ticks at the lowest positive
  interval of the subscribers; and as long as any subscriber polls, the page listener is bound, so a
  change of visibility is never missed.\<close>

theorem pulse_cadence:
  assumes "reachable_store st" "map_of (st_table st) key = Some r"
  defines "polls \<equiv> {ms. \<exists>w \<in> snd ` set (watchers r). wt_pollMs w = Some ms \<and> ms > 0}"
  shows "(pulse r \<longleftrightarrow> polls \<noteq> {} \<and> (\<not> st_hidden st
       \<or> (\<exists>w \<in> snd ` set (watchers r). positiveMs (wt_pollMs w) \<and> \<not> wt_pauseWhenHidden w)))
     \<and> pulseMs r = (if pulse r then Some (Min polls) else None)
     \<and> (polls \<noteq> {} \<longrightarrow> st_pageListener st)"
proof -
  note l = store_inv_lookup [OF resource_store.reachable_inv [OF assms(1)] assms(2)]
  have f: "fastestPoll r = (if polls = {} then None else Some (Min polls))"
    unfolding fastestPoll_def fastestPoll_min [of None "watchers r"] polls_def by (simp add: Let_def)
  have h: "hiddenOptOut r \<longleftrightarrow> (\<exists>w \<in> snd ` set (watchers r). positiveMs (wt_pollMs w) \<and> \<not> wt_pauseWhenHidden w)"
    by (auto simp: hiddenOptOut_def list_ex_iff polls_hidden_def)
  from l(3) have "tuned (st_hidden st) r" by simp
  with l(4) f h show ?thesis by (auto simp: tuned_def wantsCadence_def)
qed

theorem pulse_cadence_witness:
  "\<exists>r. reachable_store polled_store \<and> map_of (st_table polled_store) ''k'' = Some r
     \<and> pulse r \<and> st_pageListener polled_store"
proof -
  have e: "map_option (\<lambda>r. map snd (watchers r)) (map_of (st_table polled_store) ''k'') =
      Some [\<lparr>wt_load = 7, wt_pollMs = None, wt_pauseWhenHidden = True, wt_deadlineMs = None\<rparr>,
            \<lparr>wt_load = 8, wt_pollMs = Some 5000, wt_pauseWhenHidden = True, wt_deadlineMs = None\<rparr>]"
    and h: "\<not> st_hidden polled_store"
    by code_simp+
  from e obtain r where r: "map_of (st_table polled_store) ''k'' = Some r" and w: "map snd (watchers r) =
      [\<lparr>wt_load = 7, wt_pollMs = None, wt_pauseWhenHidden = True, wt_deadlineMs = None\<rparr>,
       \<lparr>wt_load = 8, wt_pollMs = Some 5000, wt_pauseWhenHidden = True, wt_deadlineMs = None\<rparr>]"
    by (cases "map_of (st_table polled_store) ''k''") auto
  have "5000 \<in> {ms. \<exists>w \<in> snd ` set (watchers r). wt_pollMs w = Some ms \<and> ms > 0}"
    using arg_cong [OF w, of set] by simp
  then have "{ms. \<exists>w \<in> snd ` set (watchers r). wt_pollMs w = Some ms \<and> ms > 0} \<noteq> {}" by blast
  with pulse_cadence [OF polled_store_reachable r] polled_store_reachable r h show ?thesis by blast
qed

text \<open>C8: only the current generation paints. When a request in flight comes back in a reachable state, the
  snapshot changes only if it is the current attempt: a success of an attempt that was not aborted
  becomes the snapshot, a failure of the current attempt (its own timeout included) keeps the data
  and records an error; a replaced, cancelled or superseded request changes nothing but its own
  bookkeeping.\<close>

theorem only_current_paints:
  assumes "reachable_store st" "map_of (st_table st) key = Some r" "h \<in> set (inflight r)"
  shows "let r' = finish (att_epoch h) out now r in
     (if attempt r = Some (att_epoch h)
      then attempt r' = None
        \<and> snapshot r' = (case out of
             FetchSuccess v \<Rightarrow> if att_aborted h then snapshot r else resourceSuccessSnapshot v
           | FetchError e \<Rightarrow> resourceFailureSnapshot (snapshot r) e)
      else attempt r' = attempt r \<and> snapshot r' = snapshot r
        \<and> settledAt r' = settledAt r \<and> seedDirty r' = seedDirty r)
     \<and> h \<notin> set (inflight r')"
proof -
  have ok: "resource_ok r"
    using store_inv_lookup(2) [OF resource_store.reachable_inv [OF assms(1)] assms(2)] .
  have d: "distinct (map att_epoch (inflight r))" using ok by (simp add: resource_ok_def attempts_ok_def)
  have "find_attempt (att_epoch h) r = Some h"
  proof -
    obtain a where a: "find_attempt (att_epoch h) r = Some a"
      using assms(3) by (cases "find_attempt (att_epoch h) r") (auto simp: find_attempt_def find_None_iff)
    with find_attempt_Some [OF a] d assms(3) have "a = h" by (metis distinct_map inj_onD)
    with a show ?thesis by simp
  qed
  then have f: "finish (att_epoch h) out now r = closeAttempt h (settle h out now r)" by (simp add: finish_def)
  show ?thesis
  proof (cases "attempt r = Some (att_epoch h)")
    case True
    with ok assms(3) have "att_epoch h = epoch r" "att_aborted h \<longrightarrow> att_timedOut h"
      by (auto simp: resource_ok_def attempts_ok_def split: if_splits)
    then show ?thesis using True unfolding f
      by (cases out) (auto simp: closeAttempt_def settle_def Let_def)
  next
    case False
    with ok assms(3) have "att_epoch h \<noteq> epoch r"
      by (auto simp: resource_ok_def attempts_ok_def split: if_splits)
    then show ?thesis using False unfolding f by (simp add: closeAttempt_def settle_stale Let_def)
  qed
qed

theorem only_current_paints_witness:
  "\<exists>r h. map_of (st_table polled_store) ''k'' = Some r \<and> h \<in> set (inflight r)
     \<and> snapshot (finish (att_epoch h) (FetchSuccess (42 :: nat)) 10 r) = resourceSuccessSnapshot 42"
proof -
  have e: "map_option (\<lambda>r. (attempt r, inflight r)) (map_of (st_table polled_store) ''k'') =
      Some (Some 1, [\<lparr>att_epoch = 1, att_owner = Some 1, att_load = 7, att_deadlineMs = 30000,
        att_aborted = False, att_timedOut = False\<rparr>])" by code_simp
  then obtain r where r: "map_of (st_table polled_store) ''k'' = Some r" and a: "attempt r = Some 1"
    and i: "inflight r = [\<lparr>att_epoch = 1, att_owner = Some 1, att_load = 7, att_deadlineMs = 30000,
        att_aborted = False, att_timedOut = False\<rparr>]"
    by (cases "map_of (st_table polled_store) ''k''") auto
  let ?h = "\<lparr>att_epoch = 1, att_owner = Some 1, att_load = 7, att_deadlineMs = 30000,
        att_aborted = False, att_timedOut = False\<rparr>"
  have h: "?h \<in> set (inflight r)" using i by simp
  from only_current_paints [OF polled_store_reachable r h, of "FetchSuccess 42" 10] r h a
  show ?thesis by (auto simp: Let_def)
qed

definition abandoned_store :: "nat store" where
  "abandoned_store =
     visibility_event False (on_resource ''k'' (finish 1 (FetchSuccess 0) 0)
       (store_leave ''k'' 1 (visibility_event True
         (hook_subscribe ''k'' 2 8 plain_options (hook_subscribe ''k'' 1 7 plain_options empty_store)))))"

text \<open>A subscriber can be left with a blocking load that nothing will finish. Two subscribers share a
  key, the page is hidden, and the one that owns the request leaves: its request is cancelled and the
  generation moves on, but no request is opened for the other one, \<^verbatim>\<open>loading\<close> stays set, no timer
  runs, and making the page visible again starts nothing either.\<close>

theorem hidden_leave_abandons_load:
  "map_option (\<lambda>r. (map fst (watchers r), attempt r, inflight r, pulse r, sn_loading (snapshot r), sn_refreshing (snapshot r)))
       (map_of (st_table abandoned_store) ''k'')
     = Some ([2], None, [], False, True, False)
   \<and> \<not> st_hidden abandoned_store"
  by code_simp

end
