(* ===== verification/Data_Surface.thy ===== *)
theory Data_Surface
  imports Client_Resource
begin

text \<open>
  \<^verbatim>\<open>gui/src/data-surface.ts\<close> and \<^verbatim>\<open>gui/src/data-surface-seed.ts\<close>: what a page shows for a snapshot of the
  resource store. The page's test for an empty payload is a parameter, and so is the entry the
  browser's session storage holds.
\<close>

section \<open>Classification\<close>

datatype surface_kind =
    Disabled | Cold | RetryingCold | LoadingWithStaleData | ReadyEmpty | ReadyPopulated | FailedCold | FailedWithStale

record surface_facts =
  wanted :: bool
  hasPayload :: bool
  inFlight :: bool
  failed :: bool

datatype surface_phase =
    Off | EmptyLoading | EmptyRetry | ContentLoading | ContentRetry | Content | EmptySettled | ColdFailure | StaleFailure

record surface_shape =
  sh_kind :: "surface_kind option"
  sh_showSkeleton :: bool
  sh_refreshing :: bool
  sh_showError :: bool
  sh_carriesPayload :: bool
  sh_carriesError :: bool

definition shape :: "surface_kind option \<Rightarrow> bool \<Rightarrow> bool \<Rightarrow> bool \<Rightarrow> bool \<Rightarrow> bool \<Rightarrow> surface_shape" where
  "shape k skeleton refreshing err payload carriesErr =
     \<lparr>sh_kind = k, sh_showSkeleton = skeleton, sh_refreshing = refreshing, sh_showError = err,
      sh_carriesPayload = payload, sh_carriesError = carriesErr\<rparr>"

fun SURFACE_SHAPES :: "surface_phase \<Rightarrow> surface_shape" where
  "SURFACE_SHAPES Off = shape (Some Disabled) False False False False False"
| "SURFACE_SHAPES EmptyLoading = shape (Some Cold) True True False False False"
| "SURFACE_SHAPES EmptyRetry = shape (Some RetryingCold) True True False False True"
| "SURFACE_SHAPES ContentLoading = shape (Some LoadingWithStaleData) False True False True True"
| "SURFACE_SHAPES ContentRetry = shape (Some LoadingWithStaleData) False True True True True"
| "SURFACE_SHAPES Content = shape None False False False True False"
| "SURFACE_SHAPES EmptySettled = shape (Some Cold) True False False False False"
| "SURFACE_SHAPES ColdFailure = shape (Some FailedCold) False False True False True"
| "SURFACE_SHAPES StaleFailure = shape (Some FailedWithStale) False False True True True"

definition surfaceFacts :: "'v snapshot \<Rightarrow> bool \<Rightarrow> surface_facts" where
  "surfaceFacts view want =
     \<lparr>wanted = want, hasPayload = (sn_data view \<noteq> None), inFlight = sn_refreshing view,
      failed = (\<not> sn_lastAttemptOk view \<and> sn_error view \<noteq> None)\<rparr>"

definition surfacePhase :: "surface_facts \<Rightarrow> surface_phase" where
  "surfacePhase f =
     (if \<not> wanted f then Off
      else if inFlight f
      then (if hasPayload f then (if failed f then ContentRetry else ContentLoading)
            else (if failed f then EmptyRetry else EmptyLoading))
      else if failed f then (if hasPayload f then StaleFailure else ColdFailure)
      else (if hasPayload f then Content else EmptySettled))"

record 'v surface_state =
  ss_kind :: surface_kind
  ss_data :: "'v option"
  ss_error :: "load_error option"
  ss_showSkeleton :: bool
  ss_refreshing :: bool
  ss_showError :: bool

definition surfaceAttempt :: "surface_shape \<Rightarrow> 'v snapshot \<Rightarrow> 'v option \<times> load_error option" where
  "surfaceAttempt sh view =
     (if sh_carriesPayload sh then sn_data view else None, if sh_carriesError sh then sn_error view else None)"

text \<open>\<open>isEmpty\<close> is applied to what the attempt carries, \<^verbatim>\<open>undefined\<close> included, as in the source.\<close>

definition classifyDataSurface :: "'v snapshot \<Rightarrow> ('v option \<Rightarrow> bool) \<Rightarrow> bool \<Rightarrow> 'v surface_state" where
  "classifyDataSurface view isEmpty want =
     (let sh = SURFACE_SHAPES (surfacePhase (surfaceFacts view want));
          att = surfaceAttempt sh view
      in \<lparr>ss_kind = (case sh_kind sh of
                       Some k \<Rightarrow> k
                     | None \<Rightarrow> if isEmpty (fst att) then ReadyEmpty else ReadyPopulated),
          ss_data = fst att, ss_error = snd att, ss_showSkeleton = sh_showSkeleton sh,
          ss_refreshing = sh_refreshing sh, ss_showError = sh_showError sh\<rparr>)"

section \<open>Seeding from the session cache\<close>

record 'v session_entry =
  se_data :: 'v
  se_cachedAt :: "jsnum option"

definition mergeDataSurfaceSeed :: "'v option \<Rightarrow> 'v option \<Rightarrow> 'v option" where
  "mergeDataSurfaceSeed cached initialData = (if cached \<noteq> None then cached else initialData)"

definition cacheSeed :: "'v session_entry option \<Rightarrow> 'v resource_options \<Rightarrow> 'v resource_options" where
  "cacheSeed cachedSeed forwarded =
     forwarded\<lparr>op_initialData := mergeDataSurfaceSeed (map_option se_data cachedSeed) (op_initialData forwarded),
       op_initialDataCachedAt :=
         (case op_initialDataCachedAt forwarded of
            Some t \<Rightarrow> Some t | None \<Rightarrow> Option.bind cachedSeed se_cachedAt)\<rparr>"

text \<open>The options \<^verbatim>\<open>useDataSurface\<close> hands to the resource layer.\<close>

definition surface_options :: "string option \<Rightarrow> 'v session_entry option \<Rightarrow> 'v resource_options \<Rightarrow> 'v resource_options" where
  "surface_options sessionCacheKey cachedSeed options =
     (let enabled = (case op_enabled options of None \<Rightarrow> True | Some b \<Rightarrow> b);
          forwarded = (if sessionCacheKey \<noteq> None \<and> sessionCacheKey \<noteq> Some []
                       then cacheSeed cachedSeed options else options)
      in forwarded\<lparr>op_enabled := Some enabled\<rparr>)"

definition useDataSurface :: "string \<Rightarrow> string option \<Rightarrow> 'v session_entry option \<Rightarrow> ('v option \<Rightarrow> bool) \<Rightarrow>
    'v resource_options \<Rightarrow> 'v store \<Rightarrow> 'v surface_state \<times> 'v store" where
  "useDataSurface key sessionCacheKey cachedSeed isEmpty options st =
     (let opts = surface_options sessionCacheKey cachedSeed options;
          (sn, s) = getSnapshot key opts (hook_render key opts st)
      in (classifyDataSurface sn isEmpty (hook_enabled opts), s))"

section \<open>Properties\<close>

text \<open>What a page shows is decided by the snapshot, exactly: a surface that is wanted shows a skeleton
  only when there is no payload and no settled failure to show, its payload is always passed on, an
  error banner is up exactly when the last settled attempt failed and it is not a first load being
  retried, and the empty and populated states are only reported for a settled, successful payload.\<close>

theorem surface_exact:
  "let s = classifyDataSurface view isEmpty want;
       bad = (\<not> sn_lastAttemptOk view \<and> sn_error view \<noteq> None);
       has = (sn_data view \<noteq> None)
   in ss_data s = (if want then sn_data view else None)
      \<and> ss_refreshing s = (want \<and> sn_refreshing view)
      \<and> ss_showSkeleton s = (want \<and> \<not> has \<and> (sn_refreshing view \<or> \<not> bad))
      \<and> ss_showError s = (want \<and> bad \<and> (has \<or> \<not> sn_refreshing view))
      \<and> (ss_showError s \<longrightarrow> ss_error s = sn_error view)
      \<and> (ss_kind s \<in> {ReadyEmpty, ReadyPopulated} \<longleftrightarrow> want \<and> has \<and> \<not> sn_refreshing view \<and> \<not> bad)
      \<and> (ss_kind s = Disabled \<longleftrightarrow> \<not> want)"
  by (auto simp: classifyDataSurface_def surfaceFacts_def surfacePhase_def surfaceAttempt_def shape_def Let_def)

theorem surface_exact_witness:
  "ss_showError (classifyDataSurface (resourceFailureSnapshot (resourceSuccessSnapshot (1 :: nat)) (Some (Thrown 3)))
      (\<lambda>_. False) True)
   \<and> ss_error (classifyDataSurface (resourceFailureSnapshot (resourceSuccessSnapshot (1 :: nat)) (Some (Thrown 3)))
      (\<lambda>_. False) True) = Some (Thrown 3)"
  using surface_exact [of "resourceFailureSnapshot (resourceSuccessSnapshot (1 :: nat)) (Some (Thrown 3))" "\<lambda>_. False" True]
  by (simp add: Let_def resourceFailureSnapshot_def resourceSuccessSnapshot_def resourceNormalizeLoadError_def)

text \<open>A page over a store that can be reached shows its skeleton only while its key has no data, and
  when it reports a failure without content, no load of the key has ever succeeded. In particular
  content that was loaded once never turns back into a skeleton.\<close>

theorem surface_keeps_content:
  assumes "reachable_store st" "map_of (st_table st) key = Some r"
  shows "let s = classifyDataSurface (snapshot r) isEmpty True in
     (ss_showSkeleton s \<or> ss_kind s = FailedCold \<longrightarrow> \<not> sn_hasSucceeded (snapshot r))
     \<and> (sn_hasSucceeded (snapshot r) \<longrightarrow> ss_data s = sn_data (snapshot r) \<and> ss_data s \<noteq> None)"
proof -
  have "snapshot_ok (snapshot r)"
    using store_inv_lookup(2) [OF resource_store.reachable_inv [OF assms(1)] assms(2)]
    by (simp add: resource_ok_def)
  then show ?thesis
    by (auto simp: snapshot_ok_def classifyDataSurface_def surfaceFacts_def surfacePhase_def surfaceAttempt_def
        shape_def Let_def)
qed

definition published_store :: "nat store" where
  "published_store = hook_refresh ''k'' None 7 (Some True) plain_options (setClientResourceData ''k'' 5 empty_store)"

lemma published_store_reachable: "reachable_store published_store"
  unfolding published_store_def
  by (rule reach_step, rule reach_step, rule reach_init, rule refl, rule step_publish, rule step_refresh)

theorem surface_keeps_content_witness:
  "\<exists>r. map_of (st_table published_store) ''k'' = Some r \<and> sn_loading (snapshot r)
     \<and> ss_data (classifyDataSurface (snapshot r) (\<lambda>_. False) True) = Some 5
     \<and> \<not> ss_showSkeleton (classifyDataSurface (snapshot r) (\<lambda>_. False) True)"
proof -
  have e: "map_option (\<lambda>r. (sn_data (snapshot r), sn_hasSucceeded (snapshot r), sn_loading (snapshot r)))
      (map_of (st_table published_store) ''k'') = Some (Some 5, True, True)" by code_simp
  then obtain r where r: "map_of (st_table published_store) ''k'' = Some r" "sn_data (snapshot r) = Some 5"
      "sn_hasSucceeded (snapshot r)" "sn_loading (snapshot r)"
    by (cases "map_of (st_table published_store) ''k''") auto
  with surface_keeps_content [OF published_store_reachable r(1), of "\<lambda>_. False"] show ?thesis
    by (auto simp: Let_def)
qed

end
