(* ===== verification/Pool_Rotation.thy ===== *)
theory Pool_Rotation
  imports Benes_Prelude
begin

text \<open>
  \<^verbatim>\<open>gui/src/account-pool-strategy.ts\<close> and \<^verbatim>\<open>gui/src/codex-pool-rotation-machine.ts\<close>: the rotation settings
  of an account pool, their one write, and the machine that shows them optimistically. The answer
  of the listener to a write, and every \<^verbatim>\<open>/active\<close> payload, is decoded JSON that comes from outside. The
  hook \<^verbatim>\<open>usePoolRotation\<close> is the step relation at the end; every event is handled after the render
  that follows the previous one, so the state an event handler closes over is the current one.
\<close>

section \<open>The rotation values\<close>

datatype pool_strategy = Quota | RoundRobin | FillFirst | ResetWindow
datatype reset_order = Soonest | Latest

definition STRATEGY_VALUES :: "(string \<times> pool_strategy) list" where
  "STRATEGY_VALUES = [(''quota'', Quota), (''round-robin'', RoundRobin), (''fill-first'', FillFirst),
     (''reset-window'', ResetWindow)]"

definition RESET_ORDER_VALUES :: "(string \<times> reset_order) list" where
  "RESET_ORDER_VALUES = [(''soonest'', Soonest), (''latest'', Latest)]"

definition MIN_ACCOUNT_POOL_STICKY_LIMIT :: nat where "MIN_ACCOUNT_POOL_STICKY_LIMIT = 1"
definition MAX_ACCOUNT_POOL_STICKY_LIMIT :: nat where "MAX_ACCOUNT_POOL_STICKY_LIMIT = 100"
definition DEFAULT_ACCOUNT_POOL_STICKY_LIMIT :: nat where "DEFAULT_ACCOUNT_POOL_STICKY_LIMIT = 1"

definition among :: "(string \<times> 'a) list \<Rightarrow> json option \<Rightarrow> 'a option" where
  "among domain value = (case value of Some (JStr s) \<Rightarrow> map_of domain s | _ \<Rightarrow> None)"

definition withinStickyRange :: "rat \<Rightarrow> bool" where
  "withinStickyRange v \<longleftrightarrow> of_nat MIN_ACCOUNT_POOL_STICKY_LIMIT \<le> v \<and> v \<le> of_nat MAX_ACCOUNT_POOL_STICKY_LIMIT"

definition normalizeAccountPoolStrategy :: "json option \<Rightarrow> pool_strategy" where
  "normalizeAccountPoolStrategy value = (case among STRATEGY_VALUES value of Some s \<Rightarrow> s | None \<Rightarrow> Quota)"

definition normalizeAccountPoolResetOrder :: "json option \<Rightarrow> reset_order" where
  "normalizeAccountPoolResetOrder value = (case among RESET_ORDER_VALUES value of Some s \<Rightarrow> s | None \<Rightarrow> Soonest)"

definition normalizeAccountPoolStickyLimit :: "json option \<Rightarrow> nat" where
  "normalizeAccountPoolStickyLimit value =
     (case value of
        Some (JNum n) \<Rightarrow>
          if \<not> num_is_integer n then DEFAULT_ACCOUNT_POOL_STICKY_LIMIT
          else (case n of Fin q \<Rightarrow> if withinStickyRange q then nat \<lfloor>q\<rfloor> else DEFAULT_ACCOUNT_POOL_STICKY_LIMIT
                | _ \<Rightarrow> DEFAULT_ACCOUNT_POOL_STICKY_LIMIT)
      | _ \<Rightarrow> DEFAULT_ACCOUNT_POOL_STICKY_LIMIT)"

definition parseAccountPoolStickyLimitDraft :: "string \<Rightarrow> nat option" where
  "parseAccountPoolStickyLimitDraft value =
     (let trimmed = trim value in
      if trimmed = [] \<or> \<not> list_all is_digit trimmed then None
      else (let parsed = js_double (read_digits trimmed) in
            if withinStickyRange (of_nat parsed) then Some parsed else None))"

section \<open>The write\<close>

record pool_patch =
  pp_strategy :: "pool_strategy option"
  pp_stickyLimit :: "nat option"
  pp_resetOrder :: "reset_order option"

record pool_rotation =
  strategy :: pool_strategy
  stickyLimit :: nat
  resetOrder :: reset_order

definition name_in :: "(string \<times> 'a) list \<Rightarrow> 'a \<Rightarrow> string" where
  "name_in domain v = (case find (\<lambda>p. snd p = v) domain of Some p \<Rightarrow> fst p | None \<Rightarrow> [])"

definition strategy_json :: "pool_strategy \<Rightarrow> json" where "strategy_json s = JStr (name_in STRATEGY_VALUES s)"
definition reset_order_json :: "reset_order \<Rightarrow> json" where "reset_order_json s = JStr (name_in RESET_ORDER_VALUES s)"
definition limit_json :: "nat \<Rightarrow> json" where "limit_json n = JNum (Fin (of_nat n))"

definition patchFields :: "pool_patch \<Rightarrow> (string \<times> json) list" where
  "patchFields p =
     (case pp_strategy p of None \<Rightarrow> [] | Some s \<Rightarrow> [(''strategy'', strategy_json s)])
     @ (case pp_stickyLimit p of None \<Rightarrow> [] | Some n \<Rightarrow> [(''stickyLimit'', limit_json n)])
     @ (case pp_resetOrder p of None \<Rightarrow> [] | Some s \<Rightarrow> [(''resetOrder'', reset_order_json s)])"

definition storedStrategy :: "json option \<Rightarrow> pool_patch \<Rightarrow> pool_rotation" where
  "storedStrategy payload requested =
     (let reported = (\<lambda>k. Option.bind payload (\<lambda>v. prop_of v k)) in
      \<lparr>strategy = normalizeAccountPoolStrategy
         (nullish_or (reported ''accountPoolStrategy'') (map_option strategy_json (pp_strategy requested))),
       stickyLimit = normalizeAccountPoolStickyLimit
         (nullish_or (reported ''accountPoolStickyLimit'') (map_option limit_json (pp_stickyLimit requested))),
       resetOrder = normalizeAccountPoolResetOrder
         (nullish_or (reported ''accountPoolResetOrder'') (map_option reset_order_json (pp_resetOrder requested)))\<rparr>)"

text \<open>What \<^verbatim>\<open>send\<close> does with the request: it throws, or answers with a status and a body that may not be JSON.\<close>

datatype send_result = SendThrows | Answers bool "json option"

definition putCodexPoolStrategy :: "((string \<times> json) list \<Rightarrow> send_result) \<Rightarrow> pool_patch \<Rightarrow> pool_rotation option" where
  "putCodexPoolStrategy send patch =
     (let body = patchFields patch in
      if body = [] then None
      else (case send body of
              SendThrows \<Rightarrow> None
            | Answers ok payload \<Rightarrow>
                if \<not> ok then None
                else (case payload of None \<Rightarrow> None | Some v \<Rightarrow> Some (storedStrategy (Some v) patch))))"

definition rotationFromActive :: "json option \<Rightarrow> pool_rotation option" where
  "rotationFromActive value =
     (case value of
        Some (JObj ps) \<Rightarrow>
          (let row = map_of ps in
           if row ''accountPoolStrategy'' = None \<and> row ''accountPoolStickyLimit'' = None \<and> row ''accountPoolResetOrder'' = None
           then None
           else Some \<lparr>strategy = normalizeAccountPoolStrategy (row ''accountPoolStrategy''),
                      stickyLimit = normalizeAccountPoolStickyLimit (row ''accountPoolStickyLimit''),
                      resetOrder = normalizeAccountPoolResetOrder (row ''accountPoolResetOrder'')\<rparr>)
      | _ \<Rightarrow> None)"

section \<open>The machine\<close>

datatype rotation_error = InvalidSticky | WriteFailed

record rotation_state =
  confirmed :: pool_rotation
  visible :: pool_rotation
  stickyDraft :: string
  hydrated :: bool
  saving :: bool
  readFailed :: bool
  rot_error :: "rotation_error option"
  revision :: nat
  heldRead :: bool

definition DEFAULT_POOL_ROTATION :: pool_rotation where
  "DEFAULT_POOL_ROTATION = \<lparr>strategy = Quota, stickyLimit = DEFAULT_ACCOUNT_POOL_STICKY_LIMIT, resetOrder = Soonest\<rparr>"

definition INITIAL_POOL_ROTATION_STATE :: rotation_state where
  "INITIAL_POOL_ROTATION_STATE =
     \<lparr>confirmed = DEFAULT_POOL_ROTATION, visible = DEFAULT_POOL_ROTATION,
      stickyDraft = show_nat (stickyLimit DEFAULT_POOL_ROTATION), hydrated = False, saving = False,
      readFailed = False, rot_error = None, revision = 0, heldRead = False\<rparr>"

datatype rotation_event =
    ServerValuesArrived "pool_rotation option" nat
  | ServerReadFailed
  | StrategyChosen pool_strategy
  | ResetOrderChosen reset_order
  | StickyDraftTyped string
  | StickyDraftRejected
  | WriteStarted
  | WriteAccepted pool_rotation
  | WriteRejected
  | HeldReadConsumed

definition controlsLocked :: "rotation_state \<Rightarrow> bool" where
  "controlsLocked m \<longleftrightarrow> saving m \<or> readFailed m \<or> \<not> hydrated m"

definition adopt :: "rotation_state \<Rightarrow> pool_rotation \<Rightarrow> rotation_state" where
  "adopt m rot = m\<lparr>confirmed := rot, visible := rot, stickyDraft := show_nat (stickyLimit rot), hydrated := True,
     readFailed := False, rot_error := None\<rparr>"

fun poolRotationReducer :: "rotation_state \<Rightarrow> rotation_event \<Rightarrow> rotation_state" where
  "poolRotationReducer m (ServerValuesArrived rot startedAt) =
     (if startedAt \<noteq> revision m then m
      else (case rot of
              None \<Rightarrow> m
            | Some r \<Rightarrow> if saving m then m\<lparr>heldRead := True\<rparr> else adopt m r))"
| "poolRotationReducer m ServerReadFailed = (if hydrated m then m else m\<lparr>readFailed := True\<rparr>)"
| "poolRotationReducer m (StrategyChosen s) = m\<lparr>visible := (visible m)\<lparr>strategy := s\<rparr>\<rparr>"
| "poolRotationReducer m (ResetOrderChosen s) = m\<lparr>visible := (visible m)\<lparr>resetOrder := s\<rparr>\<rparr>"
| "poolRotationReducer m (StickyDraftTyped t) = m\<lparr>stickyDraft := t\<rparr>"
| "poolRotationReducer m StickyDraftRejected =
     m\<lparr>stickyDraft := show_nat (stickyLimit (visible m)), rot_error := Some InvalidSticky\<rparr>"
| "poolRotationReducer m WriteStarted =
     (if saving m then m else m\<lparr>saving := True, rot_error := None, revision := revision m + 1\<rparr>)"
| "poolRotationReducer m (WriteAccepted rot) = (adopt m rot)\<lparr>saving := False, revision := revision m + 1\<rparr>"
| "poolRotationReducer m WriteRejected =
     m\<lparr>visible := confirmed m, stickyDraft := show_nat (stickyLimit (confirmed m)), saving := False,
       rot_error := Some WriteFailed, revision := revision m + 1\<rparr>"
| "poolRotationReducer m HeldReadConsumed = (if heldRead m then m\<lparr>heldRead := False\<rparr> else m)"

datatype sticky_commit = CommitInvalid | RewriteDraft string | CommitWrite pool_rotation

definition planStickyCommit :: "rotation_state \<Rightarrow> string \<Rightarrow> sticky_commit" where
  "planStickyCommit m t =
     (case parseAccountPoolStickyLimitDraft t of
        None \<Rightarrow> CommitInvalid
      | Some parsed \<Rightarrow>
          if parsed = stickyLimit (visible m) then RewriteDraft (show_nat parsed)
          else CommitWrite ((visible m)\<lparr>stickyLimit := parsed\<rparr>))"

definition rotationWith :: "rotation_state \<Rightarrow> pool_patch \<Rightarrow> pool_rotation" where
  "rotationWith m p =
     \<lparr>strategy = (case pp_strategy p of None \<Rightarrow> strategy (visible m) | Some s \<Rightarrow> s),
      stickyLimit = (case pp_stickyLimit p of None \<Rightarrow> stickyLimit (visible m) | Some s \<Rightarrow> s),
      resetOrder = (case pp_resetOrder p of None \<Rightarrow> resetOrder (visible m) | Some s \<Rightarrow> s)\<rparr>"

definition errorKeyFor :: "rotation_state \<Rightarrow> string option" where
  "errorKeyFor m =
     (case rot_error m of
        Some WriteFailed \<Rightarrow> Some ''accountPool.strategyUpdateFailed''
      | Some InvalidSticky \<Rightarrow> Some ''accountPool.stickyLimitInvalid''
      | None \<Rightarrow> None)"

section \<open>The hook\<close>

text \<open>
  Around the machine the hook keeps the reads it has begun (each with the revision at its start), the
  write in flight with the values confirmed when it began, and the strategy the parent was last told.
\<close>

record pending_write =
  pw_rotation :: pool_rotation
  pw_confirmed :: pool_rotation

record rotation_hook =
  machine :: rotation_state
  reads :: "nat list"
  writing :: "pending_write option"
  told :: "pool_strategy option"

definition initial_hook :: rotation_hook where
  "initial_hook = \<lparr>machine = INITIAL_POOL_ROTATION_STATE, reads = [], writing = None, told = None\<rparr>"

definition dispatch :: "rotation_event \<Rightarrow> rotation_hook \<Rightarrow> rotation_hook" where
  "dispatch ev h = h\<lparr>machine := poolRotationReducer (machine h) ev\<rparr>"

definition hook_adopt :: "json option \<Rightarrow> nat \<Rightarrow> rotation_hook \<Rightarrow> rotation_hook" where
  "hook_adopt value startedAt h =
     (case rotationFromActive value of
        None \<Rightarrow> h
      | Some rot \<Rightarrow> (dispatch (ServerValuesArrived (Some rot) startedAt) h)\<lparr>told := Some (strategy rot)\<rparr>)"

definition begin_read :: "rotation_hook \<Rightarrow> rotation_hook" where
  "begin_read h = h\<lparr>reads := reads h @ [revision (machine h)]\<rparr>"

definition read_arrives :: "nat \<Rightarrow> json option \<Rightarrow> rotation_hook \<Rightarrow> rotation_hook" where
  "read_arrives startedAt value h = hook_adopt value startedAt (h\<lparr>reads := remove1 startedAt (reads h)\<rparr>)"

definition read_rejected :: "nat \<Rightarrow> rotation_hook \<Rightarrow> rotation_hook" where
  "read_rejected startedAt h = dispatch ServerReadFailed (h\<lparr>reads := remove1 startedAt (reads h)\<rparr>)"

definition replay_held :: "rotation_hook \<Rightarrow> rotation_hook" where
  "replay_held h =
     (if \<not> heldRead (machine h) \<or> saving (machine h) then h else begin_read (dispatch HeldReadConsumed h))"

definition hook_write :: "pool_rotation \<Rightarrow> rotation_hook \<Rightarrow> rotation_hook" where
  "hook_write rot h =
     (if saving (machine h) then h
      else (dispatch WriteStarted h)\<lparr>writing := Some \<lparr>pw_rotation = rot, pw_confirmed = confirmed (machine h)\<rparr>\<rparr>)"

definition full_patch :: "pool_rotation \<Rightarrow> pool_patch" where
  "full_patch rot = \<lparr>pp_strategy = Some (strategy rot), pp_stickyLimit = Some (stickyLimit rot),
     pp_resetOrder = Some (resetOrder rot)\<rparr>"

definition write_settles :: "((string \<times> json) list \<Rightarrow> send_result) \<Rightarrow> rotation_hook \<Rightarrow> rotation_hook" where
  "write_settles send h =
     (case writing h of
        None \<Rightarrow> h
      | Some w \<Rightarrow>
          (case putCodexPoolStrategy send (full_patch (pw_rotation w)) of
             Some rot \<Rightarrow> (dispatch (WriteAccepted rot) h)\<lparr>writing := None, told := Some (strategy rot)\<rparr>
           | None \<Rightarrow> (dispatch WriteRejected h)\<lparr>writing := None, told := Some (strategy (pw_confirmed w))\<rparr>))"

definition chooseStrategy :: "pool_strategy \<Rightarrow> rotation_hook \<Rightarrow> rotation_hook" where
  "chooseStrategy s h =
     (if controlsLocked (machine h) \<or> s = strategy (visible (machine h)) then h
      else hook_write ((visible (machine h))\<lparr>strategy := s\<rparr>)
        ((dispatch (StrategyChosen s) h)\<lparr>told := Some s\<rparr>))"

definition chooseResetOrder :: "reset_order \<Rightarrow> rotation_hook \<Rightarrow> rotation_hook" where
  "chooseResetOrder s h =
     (if controlsLocked (machine h) \<or> s = resetOrder (visible (machine h)) then h
      else hook_write ((visible (machine h))\<lparr>resetOrder := s\<rparr>) (dispatch (ResetOrderChosen s) h))"

definition typeSticky :: "string \<Rightarrow> rotation_hook \<Rightarrow> rotation_hook" where
  "typeSticky t h = dispatch (StickyDraftTyped t) h"

definition commitSticky :: "string option \<Rightarrow> rotation_hook \<Rightarrow> rotation_hook" where
  "commitSticky t h =
     (if controlsLocked (machine h) then h
      else (case planStickyCommit (machine h) (case t of None \<Rightarrow> stickyDraft (machine h) | Some x \<Rightarrow> x) of
              CommitInvalid \<Rightarrow> dispatch StickyDraftRejected h
            | RewriteDraft x \<Rightarrow> dispatch (StickyDraftTyped x) h
            | CommitWrite rot \<Rightarrow> hook_write rot h))"

inductive rotation_step :: "rotation_hook \<Rightarrow> rotation_hook \<Rightarrow> bool" where
  step_begin_read: "rotation_step h (begin_read h)"
| step_read_arrives: "r \<in> set (reads h) \<Longrightarrow> rotation_step h (read_arrives r value h)"
| step_read_rejected: "r \<in> set (reads h) \<Longrightarrow> rotation_step h (read_rejected r h)"
| step_seed: "rotation_step h (hook_adopt value (revision (machine h)) h)"
| step_replay: "rotation_step h (replay_held h)"
| step_choose_strategy: "rotation_step h (chooseStrategy s h)"
| step_choose_order: "rotation_step h (chooseResetOrder d h)"
| step_type: "rotation_step h (typeSticky t h)"
| step_commit: "rotation_step h (commitSticky t' h)"
| step_settle: "writing h \<noteq> None \<Longrightarrow> rotation_step h (write_settles send h)"

abbreviation reachable_rotation :: "rotation_hook \<Rightarrow> bool" where
  "reachable_rotation \<equiv> reach (\<lambda>h. h = initial_hook) rotation_step"

section \<open>Invariants\<close>

definition limit_ok :: "pool_rotation \<Rightarrow> bool" where
  "limit_ok rot \<longleftrightarrow> MIN_ACCOUNT_POOL_STICKY_LIMIT \<le> stickyLimit rot \<and> stickyLimit rot \<le> MAX_ACCOUNT_POOL_STICKY_LIMIT"

definition rotation_ok :: "rotation_hook \<Rightarrow> bool" where
  "rotation_ok h \<longleftrightarrow>
     (let m = machine h in
      (saving m \<longleftrightarrow> writing h \<noteq> None)
      \<and> (\<not> saving m \<longrightarrow> visible m = confirmed m)
      \<and> limit_ok (confirmed m) \<and> limit_ok (visible m)
      \<and> (\<forall>r \<in> set (reads h). r \<le> revision m)
      \<and> (\<forall>w. writing h = Some w \<longrightarrow> pw_confirmed w = confirmed m \<and> limit_ok (pw_rotation w)))"

lemma limit_update [simp]:
  "limit_ok (rot\<lparr>strategy := s\<rparr>) = limit_ok rot" "limit_ok (rot\<lparr>resetOrder := d\<rparr>) = limit_ok rot"
  by (simp_all add: limit_ok_def)

lemma withinStickyRange_nat:
  "withinStickyRange (of_nat n) \<longleftrightarrow> MIN_ACCOUNT_POOL_STICKY_LIMIT \<le> n \<and> n \<le> MAX_ACCOUNT_POOL_STICKY_LIMIT"
  by (simp add: withinStickyRange_def)

lemma normalize_limit:
  "MIN_ACCOUNT_POOL_STICKY_LIMIT \<le> normalizeAccountPoolStickyLimit v
   \<and> normalizeAccountPoolStickyLimit v \<le> MAX_ACCOUNT_POOL_STICKY_LIMIT"
proof -
  have "MIN_ACCOUNT_POOL_STICKY_LIMIT \<le> nat \<lfloor>q\<rfloor> \<and> nat \<lfloor>q\<rfloor> \<le> MAX_ACCOUNT_POOL_STICKY_LIMIT"
    if "withinStickyRange q" for q
  proof -
    from that have "1 \<le> \<lfloor>q\<rfloor>" "\<lfloor>q\<rfloor> \<le> 100"
      by (auto simp: withinStickyRange_def MIN_ACCOUNT_POOL_STICKY_LIMIT_def MAX_ACCOUNT_POOL_STICKY_LIMIT_def
          le_floor_iff floor_le_iff)
    then obtain z where z: "\<lfloor>q\<rfloor> = z" "1 \<le> z" "z \<le> 100" by blast
    show ?thesis unfolding z(1) MIN_ACCOUNT_POOL_STICKY_LIMIT_def MAX_ACCOUNT_POOL_STICKY_LIMIT_def
      using z(2,3) by linarith
  qed
  moreover have "MIN_ACCOUNT_POOL_STICKY_LIMIT \<le> DEFAULT_ACCOUNT_POOL_STICKY_LIMIT
      \<and> DEFAULT_ACCOUNT_POOL_STICKY_LIMIT \<le> MAX_ACCOUNT_POOL_STICKY_LIMIT"
    by (simp add: MIN_ACCOUNT_POOL_STICKY_LIMIT_def MAX_ACCOUNT_POOL_STICKY_LIMIT_def DEFAULT_ACCOUNT_POOL_STICKY_LIMIT_def)
  ultimately show ?thesis
    by (auto simp: normalizeAccountPoolStickyLimit_def split: option.split json.split jsnum.split)
qed

lemma limit_ok_sources:
  "rotationFromActive v = Some rot \<Longrightarrow> limit_ok rot"
  "putCodexPoolStrategy send p = Some rot \<Longrightarrow> limit_ok rot"
  "planStickyCommit m t = CommitWrite rot \<Longrightarrow> limit_ok rot"
  "limit_ok DEFAULT_POOL_ROTATION"
  using normalize_limit
  by (auto simp: rotationFromActive_def putCodexPoolStrategy_def storedStrategy_def planStickyCommit_def
      parseAccountPoolStickyLimitDraft_def withinStickyRange_nat limit_ok_def DEFAULT_POOL_ROTATION_def Let_def
      MIN_ACCOUNT_POOL_STICKY_LIMIT_def MAX_ACCOUNT_POOL_STICKY_LIMIT_def DEFAULT_ACCOUNT_POOL_STICKY_LIMIT_def
      split: option.splits json.splits if_splits send_result.splits)

lemma rotation_ok_initial: "rotation_ok initial_hook"
  using limit_ok_sources(4) by (simp add: rotation_ok_def initial_hook_def INITIAL_POOL_ROTATION_STATE_def)

lemma rotation_ok_reads: "rotation_ok h \<Longrightarrow> rotation_ok (h\<lparr>reads := remove1 r (reads h)\<rparr>)"
  by (auto simp: rotation_ok_def Let_def dest: notin_set_remove1 [rotated] set_remove1_subset [THEN subsetD])

lemma rotation_ok_told [simp]: "rotation_ok (h\<lparr>told := t\<rparr>) = rotation_ok h"
  by (simp add: rotation_ok_def)

lemma rotation_ok_adopt: "rotation_ok h \<Longrightarrow> rotation_ok (hook_adopt v r h)"
  using limit_ok_sources(1)
  by (auto simp: hook_adopt_def rotation_ok_def dispatch_def adopt_def Let_def split: option.splits)

lemma rotation_ok_choose:
  "rotation_ok h \<Longrightarrow> rotation_ok (chooseStrategy s h)"
  "rotation_ok h \<Longrightarrow> rotation_ok (chooseResetOrder d h)"
  by (auto simp: chooseStrategy_def chooseResetOrder_def controlsLocked_def rotation_ok_def hook_write_def dispatch_def Let_def)

lemma rotation_ok_commit: "rotation_ok h \<Longrightarrow> rotation_ok (commitSticky t h)"
  using limit_ok_sources(3)
  by (auto simp: commitSticky_def controlsLocked_def rotation_ok_def hook_write_def dispatch_def Let_def
      split: sticky_commit.split)

lemma rotation_ok_settle: "rotation_ok h \<Longrightarrow> rotation_ok (write_settles send h)"
  using limit_ok_sources(2)
  by (auto simp: write_settles_def rotation_ok_def dispatch_def adopt_def Let_def split: option.splits)

lemma rotation_ok_step:
  assumes "rotation_ok h" "rotation_step h h'"
  shows "rotation_ok h'"
  using assms(2)
proof cases
  case step_begin_read then show ?thesis using assms(1) by (auto simp: rotation_ok_def begin_read_def Let_def)
next
  case step_read_arrives then show ?thesis using assms(1) by (simp add: read_arrives_def rotation_ok_adopt rotation_ok_reads)
next
  case (step_read_rejected r)
  then show ?thesis using rotation_ok_reads [OF assms(1), of r]
    by (auto simp: read_rejected_def rotation_ok_def dispatch_def Let_def)
next
  case step_seed then show ?thesis using assms(1) by (simp add: rotation_ok_adopt)
next
  case step_replay
  then show ?thesis using assms(1) by (auto simp: replay_held_def begin_read_def rotation_ok_def dispatch_def Let_def)
next
  case step_choose_strategy then show ?thesis using assms(1) by (simp add: rotation_ok_choose)
next
  case step_choose_order then show ?thesis using assms(1) by (simp add: rotation_ok_choose)
next
  case step_type then show ?thesis using assms(1) by (auto simp: typeSticky_def rotation_ok_def dispatch_def Let_def)
next
  case step_commit then show ?thesis using assms(1) by (simp add: rotation_ok_commit)
next
  case step_settle then show ?thesis using assms(1) by (simp add: rotation_ok_settle)
qed

interpretation rotation: machine "\<lambda>h. h = initial_hook" rotation_step rotation_ok
  by unfold_locales (auto simp: rotation_ok_initial intro: rotation_ok_step)

section \<open>Properties\<close>

definition active_payload :: "string \<Rightarrow> json" where
  "active_payload name = JObj [(''accountPoolStrategy'', JStr name)]"

definition connected_hook :: rotation_hook where
  "connected_hook = read_arrives 0 (Some (active_payload ''quota'')) (begin_read initial_hook)"

lemma connected_hook_reachable: "reachable_rotation connected_hook"
proof -
  have "reachable_rotation (begin_read initial_hook)"
    by (rule reach_step, rule reach_init, rule refl, rule step_begin_read)
  moreover have "0 \<in> set (reads (begin_read initial_hook))"
    by (simp add: begin_read_def initial_hook_def INITIAL_POOL_ROTATION_STATE_def)
  ultimately show ?thesis unfolding connected_hook_def
    by (blast intro: reach_step step_read_arrives)
qed

text \<open>C10: the optimistic layer of the rotation card. In every reachable state the controls show exactly
  what the server confirmed unless a write is in flight, a write is in flight exactly while the
  machine is saving (and the controls are locked then), the values confirmed when the write began
  are still the confirmed ones, and every sticky limit shown or confirmed lies between 1 and 100.\<close>

theorem rotation_optimism:
  assumes "reachable_rotation h"
  shows "(writing h = None \<longrightarrow> visible (machine h) = confirmed (machine h))
     \<and> (saving (machine h) \<longleftrightarrow> writing h \<noteq> None)
     \<and> (writing h \<noteq> None \<longrightarrow> controlsLocked (machine h))
     \<and> (\<forall>w. writing h = Some w \<longrightarrow> pw_confirmed w = confirmed (machine h))
     \<and> (\<forall>rot \<in> {visible (machine h), confirmed (machine h)}. 1 \<le> stickyLimit rot \<and> stickyLimit rot \<le> 100)"
  using rotation.reachable_inv [OF assms]
  by (auto simp: rotation_ok_def controlsLocked_def limit_ok_def Let_def
      MIN_ACCOUNT_POOL_STICKY_LIMIT_def MAX_ACCOUNT_POOL_STICKY_LIMIT_def)

theorem rotation_optimism_witness:
  "reachable_rotation connected_hook \<and> hydrated (machine connected_hook)
   \<and> visible (machine connected_hook) = confirmed (machine connected_hook)"
proof -
  have "hydrated (machine connected_hook)" "writing connected_hook = None" by code_simp+
  with rotation_optimism [OF connected_hook_reachable] connected_hook_reachable show ?thesis by blast
qed

lemma old_reads_dropped:
  assumes "r < revision (machine h)"
  shows "machine (read_arrives r value h) = machine h"
  using assms by (auto simp: read_arrives_def hook_adopt_def dispatch_def split: option.split)

text \<open>The outcome of a write. An accepted write makes the stored values both confirmed and visible; a
  refused or failed one restores exactly the values confirmed before it; either way the parent is
  told the strategy that is visible, the controls unlock, and no read begun before the write settled
  can undo the outcome, whenever it arrives.\<close>

theorem write_outcome:
  assumes "reachable_rotation h" "writing h = Some w"
  shows "let h' = write_settles send h; m = machine h' in
     (case putCodexPoolStrategy send (full_patch (pw_rotation w)) of
        Some stored \<Rightarrow> visible m = stored \<and> rot_error m = None
      | None \<Rightarrow> visible m = confirmed (machine h) \<and> rot_error m = Some WriteFailed)
     \<and> confirmed m = visible m \<and> stickyDraft m = show_nat (stickyLimit (visible m))
     \<and> \<not> saving m \<and> writing h' = None \<and> told h' = Some (strategy (visible m))
     \<and> (\<forall>r \<in> set (reads h'). \<forall>value. machine (read_arrives r value h') = m)"
proof -
  let ?h = "write_settles send h"
  have ok: "rotation_ok h" by (rule rotation.reachable_inv [OF assms(1)])
  have rev: "revision (machine ?h) = Suc (revision (machine h))" and rd: "reads ?h = reads h"
    using assms(2) by (auto simp: write_settles_def dispatch_def adopt_def split: option.split)
  have "machine (read_arrives r v ?h) = machine ?h" if "r \<in> set (reads ?h)" for r v
    using that ok rd rev by (intro old_reads_dropped) (auto simp: rotation_ok_def Let_def)
  then show ?thesis using ok assms(2)
    by (auto simp: write_settles_def dispatch_def adopt_def rotation_ok_def Let_def split: option.split)
qed

definition writing_hook :: rotation_hook where
  "writing_hook = chooseStrategy RoundRobin (begin_read connected_hook)"

lemma writing_hook_reachable: "reachable_rotation writing_hook"
  unfolding writing_hook_def
  by (rule reach_step, rule reach_step, rule connected_hook_reachable, rule step_begin_read, rule step_choose_strategy)

theorem write_outcome_witness:
  "\<exists>w. writing writing_hook = Some w \<and> strategy (visible (machine writing_hook)) = RoundRobin
     \<and> visible (machine (write_settles (\<lambda>_. SendThrows) writing_hook)) = confirmed (machine writing_hook)
     \<and> strategy (confirmed (machine writing_hook)) = Quota"
proof -
  have e: "writing writing_hook \<noteq> None" "strategy (visible (machine writing_hook)) = RoundRobin"
    "strategy (confirmed (machine writing_hook)) = Quota" by code_simp+
  then obtain w where w: "writing writing_hook = Some w" by blast
  have "putCodexPoolStrategy (\<lambda>_. SendThrows) (full_patch (pw_rotation w)) = None"
    by (simp add: putCodexPoolStrategy_def Let_def)
  with write_outcome [OF writing_hook_reachable w, of "\<lambda>_. SendThrows"] e w show ?thesis
    by (auto simp: Let_def)
qed

text \<open>A write keeps what it was asked to store. When the listener accepts the full triple and its
  answer does not name a field, that field is stored as requested, and the body of the request names
  every field by a value that reads back as itself.\<close>

theorem write_roundtrip:
  assumes "limit_ok rot" "send (patchFields (full_patch rot)) = Answers True (Some (JObj ps))"
    and "map_of ps ''accountPoolStrategy'' = None" "map_of ps ''accountPoolStickyLimit'' = None"
      "map_of ps ''accountPoolResetOrder'' = None"
  shows "putCodexPoolStrategy send (full_patch rot) = Some rot
     \<and> rotationFromActive (Some (JObj [(''accountPoolStrategy'', the (map_of (patchFields (full_patch rot)) ''strategy'')),
          (''accountPoolStickyLimit'', the (map_of (patchFields (full_patch rot)) ''stickyLimit'')),
          (''accountPoolResetOrder'', the (map_of (patchFields (full_patch rot)) ''resetOrder''))])) = Some rot"
proof -
  have s: "normalizeAccountPoolStrategy (Some (strategy_json x)) = x" for x
    by (cases x) (simp_all add: normalizeAccountPoolStrategy_def strategy_json_def name_in_def among_def STRATEGY_VALUES_def)
  have d: "normalizeAccountPoolResetOrder (Some (reset_order_json x)) = x" for x
    by (cases x) (simp_all add: normalizeAccountPoolResetOrder_def reset_order_json_def name_in_def among_def RESET_ORDER_VALUES_def)
  have l: "normalizeAccountPoolStickyLimit (Some (limit_json (stickyLimit rot))) = stickyLimit rot"
    using assms(1) by (simp add: normalizeAccountPoolStickyLimit_def limit_json_def limit_ok_def withinStickyRange_nat)
  have n: "nullish_or None (Some (strategy_json x)) = Some (strategy_json x)"
    "nullish_or None (Some (reset_order_json y)) = Some (reset_order_json y)"
    "nullish_or None (Some (limit_json k)) = Some (limit_json k)" for x y k
    by (simp_all add: nullish_or_def)
  show ?thesis using assms(2-5)
    by (simp add: putCodexPoolStrategy_def patchFields_def full_patch_def storedStrategy_def rotationFromActive_def
        prop_of_def Let_def s d l n)
qed

theorem write_roundtrip_witness:
  "putCodexPoolStrategy (\<lambda>_. Answers True (Some (JObj []))) (full_patch \<lparr>strategy = FillFirst, stickyLimit = 7, resetOrder = Latest\<rparr>)
     = Some \<lparr>strategy = FillFirst, stickyLimit = 7, resetOrder = Latest\<rparr>"
  using write_roundtrip [of "\<lparr>strategy = FillFirst, stickyLimit = 7, resetOrder = Latest\<rparr>"
      "\<lambda>_. Answers True (Some (JObj []))" "[]"]
  by (simp add: limit_ok_def MIN_ACCOUNT_POOL_STICKY_LIMIT_def MAX_ACCOUNT_POOL_STICKY_LIMIT_def)

definition relabelled_hook :: rotation_hook where
  "relabelled_hook = read_arrives 0 (Some (active_payload ''quota''))
     (write_settles (\<lambda>_. Answers True (Some (JObj []))) writing_hook)"

text \<open>A dropped read still renames the pool. A read begun before a write that lands after it is dropped
  by the machine, yet its strategy is reported to the parent: the card shows the accepted strategy
  while the parent's label goes back to the old one.\<close>

theorem dropped_read_relabels:
  "strategy (visible (machine relabelled_hook)) = RoundRobin \<and> \<not> saving (machine relabelled_hook)
   \<and> told relabelled_hook = Some Quota
   \<and> told (write_settles (\<lambda>_. Answers True (Some (JObj []))) writing_hook) = Some RoundRobin"
  by code_simp

end
