(* ===== verification/Account_Pool.thy ===== *)
theory Account_Pool
  imports Benes_Prelude "HOL-Library.AList"
begin

text \<open>
  \<^verbatim>\<open>gui/src/codex-account-pool-domain.ts\<close>, \<^verbatim>\<open>gui/src/account-priority.ts\<close>, the account reading of
  \<^verbatim>\<open>gui/src/oauth-health-display.ts\<close>, \<^verbatim>\<open>gui/src/codex-account-mutation.ts\<close> and the sequencing of
  \<^verbatim>\<open>gui/src/hooks/useCodexAccountPool.ts\<close>. A row of \<^verbatim>\<open>/accounts\<close> is a record; the normalizer of its quota is a
  parameter, the quota itself an arbitrary type. The requests of the pool API are answered by the
  environment: a load is in flight until both of its reads have come back, a mutation until its
  response has. A mutation's continuation (release, apply, start a load) runs as one step.
\<close>

section \<open>Accounts\<close>

definition MIN_ACCOUNT_PRIORITY :: int where "MIN_ACCOUNT_PRIORITY = - 100"
definition MAX_ACCOUNT_PRIORITY :: int where "MAX_ACCOUNT_PRIORITY = 100"
definition DEFAULT_ACCOUNT_PRIORITY :: int where "DEFAULT_ACCOUNT_PRIORITY = 0"

definition normalizeAccountPriority :: "json option \<Rightarrow> int" where
  "normalizeAccountPriority raw =
     (case raw of
        Some (JNum (Fin q)) \<Rightarrow>
          if \<not> num_is_integer (Fin q) then DEFAULT_ACCOUNT_PRIORITY
          else if q < of_int MIN_ACCOUNT_PRIORITY \<or> q > of_int MAX_ACCOUNT_PRIORITY then DEFAULT_ACCOUNT_PRIORITY
          else \<lfloor>q\<rfloor>
      | _ \<Rightarrow> DEFAULT_ACCOUNT_PRIORITY)"

definition formatAccountPriority :: "json option \<Rightarrow> string" where
  "formatAccountPriority raw =
     (let priority = normalizeAccountPriority raw in (if priority > 0 then ''+'' else []) @ show_int priority)"

datatype health_status = Healthy | Cooldown | ReauthRequired | Warning

record account_health =
  ah_status :: health_status
  ah_reason :: "string option"
  ah_until :: "string option"

record usage_row =
  us_accountLogLabel :: string
  us_totalTokens :: jsnum
  us_estimatedCostUsd :: "jsnum option"
  us_usageCoverageRatio :: jsnum

record 'q account =
  ac_id :: string
  ac_email :: string
  ac_alias :: "string option"
  ac_logLabel :: "string option"
  ac_plan :: "string option"
  ac_isMain :: bool
  ac_paused :: bool
  ac_priority :: "json option"
  ac_hasCredential :: bool
  ac_needsReauth :: bool
  ac_health :: "account_health option"
  ac_healthLabel :: "string option"
  ac_healthSummary :: "string option"
  ac_healthAction :: "string option"
  ac_usage30d :: "usage_row option"
  ac_quota :: 'q

definition MAIN_ACCOUNT_ID :: string where "MAIN_ACCOUNT_ID = ''__main__''"

definition num_json :: "int \<Rightarrow> json" where "num_json i = JNum (Fin (of_int i))"

definition non_empty_label :: "string option \<Rightarrow> bool" where
  "non_empty_label l \<longleftrightarrow> l \<noteq> None \<and> l \<noteq> Some []"

definition row_label :: "'q account \<Rightarrow> string option" where
  "row_label row = (if ac_isMain row then Some ''main'' else ac_logLabel row)"

definition normalizeAccountRow :: "('q \<Rightarrow> 'q) \<Rightarrow> 'q account \<Rightarrow> 'q account" where
  "normalizeAccountRow quota raw =
     (let logLabel = row_label raw;
          row = raw\<lparr>ac_quota := quota (ac_quota raw), ac_priority := Some (num_json (normalizeAccountPriority (ac_priority raw)))\<rparr>
      in if non_empty_label logLabel then row\<lparr>ac_logLabel := logLabel\<rparr> else row)"

text \<open>The \<^verbatim>\<open>accounts\<close> field of a payload: a list of rows, or anything else.\<close>

definition normalizeAccountList :: "('q \<Rightarrow> 'q) \<Rightarrow> 'q account list option \<Rightarrow> 'q account list" where
  "normalizeAccountList quota rows = (case rows of None \<Rightarrow> [] | Some rs \<Rightarrow> map (normalizeAccountRow quota) rs)"

definition readActiveId :: "json \<Rightarrow> string option option" where
  "readActiveId payload =
     (case prop_of payload ''activeCodexAccountId'' of
        None \<Rightarrow> None
      | Some (JStr s) \<Rightarrow> Some (Some s)
      | Some _ \<Rightarrow> Some None)"

text \<open>The ids of a bulk pause are strings, as the source types them; anything else is left out.\<close>

definition strings_of :: "json list \<Rightarrow> string list" where
  "strings_of vs = concat (map (\<lambda>v. case v of JStr s \<Rightarrow> [s] | _ \<Rightarrow> []) vs)"

definition readPausedResult :: "json \<Rightarrow> string list \<times> jsnum option" where
  "readPausedResult payload =
     ((case prop_of payload ''pausedAccountIds'' of Some (JArr vs) \<Rightarrow> remdups (strings_of vs) | _ \<Rightarrow> []),
      (case prop_of payload ''pausedCount'' of Some (JNum n) \<Rightarrow> Some n | _ \<Rightarrow> None))"

definition readStoredPriority :: "json \<Rightarrow> int option \<Rightarrow> int" where
  "readStoredPriority payload requested =
     normalizeAccountPriority (nullish_or (prop_of payload ''priority'') (map_option num_json requested))"

definition patchRows :: "'q account list \<Rightarrow> ('q account \<Rightarrow> bool) \<Rightarrow> ('q account \<Rightarrow> 'q account) \<Rightarrow> 'q account list" where
  "patchRows rows selects patch = map (\<lambda>row. if selects row then patch row else row) rows"

definition selectsAccount :: "string \<Rightarrow> 'q account \<Rightarrow> bool" where
  "selectsAccount i row \<longleftrightarrow> ac_id row = i \<or> (i = MAIN_ACCOUNT_ID \<and> ac_isMain row)"

definition withPausedFlag :: "'q account list \<Rightarrow> string \<Rightarrow> bool \<Rightarrow> 'q account list" where
  "withPausedFlag accounts i paused = patchRows accounts (selectsAccount i) (\<lambda>row. row\<lparr>ac_paused := paused\<rparr>)"

definition withPausedIds :: "'q account list \<Rightarrow> string list \<Rightarrow> 'q account list" where
  "withPausedIds accounts pausedIds =
     (if pausedIds = [] then accounts
      else patchRows accounts
        (if MAIN_ACCOUNT_ID \<in> set pausedIds then (\<lambda>row. ac_id row \<in> set pausedIds \<or> ac_isMain row)
         else (\<lambda>row. ac_id row \<in> set pausedIds))
        (\<lambda>row. row\<lparr>ac_paused := True\<rparr>))"

definition withPriority :: "'q account list \<Rightarrow> string \<Rightarrow> int \<Rightarrow> 'q account list" where
  "withPriority accounts i priority =
     patchRows accounts (selectsAccount i) (\<lambda>row. row\<lparr>ac_priority := Some (num_json priority)\<rparr>)"

definition reconcileActiveRead :: "string option \<Rightarrow> string option option \<Rightarrow> bool \<times> string option option" where
  "reconcileActiveRead serverActiveId pending =
     (if pending \<noteq> None \<and> Some serverActiveId \<noteq> pending then (False, pending) else (True, None))"

definition activeReauthTarget :: "'q account list \<Rightarrow> string option \<Rightarrow> 'q account option" where
  "activeReauthTarget accounts activeId =
     (let poolActive = (case activeId of
                          Some i \<Rightarrow> if i \<noteq> MAIN_ACCOUNT_ID then find (\<lambda>a. ac_id a = i) accounts else None
                        | None \<Rightarrow> None)
      in case poolActive of Some a \<Rightarrow> Some a | None \<Rightarrow> find ac_isMain accounts)"

definition oauthHealthShowsReauth :: "health_status option \<Rightarrow> bool" where
  "oauthHealthShowsReauth s \<longleftrightarrow> s = Some ReauthRequired"

definition accountNeedsReauth :: "'q account option \<Rightarrow> bool" where
  "accountNeedsReauth acct =
     (case acct of None \<Rightarrow> False | Some a \<Rightarrow> ac_needsReauth a \<or> oauthHealthShowsReauth (map_option ah_status (ac_health a)))"

definition poolActiveNeedsReauth :: "'q account list \<Rightarrow> string option \<Rightarrow> bool" where
  "poolActiveNeedsReauth accounts activeId =
     (let target = activeReauthTarget accounts activeId in
      \<not> (case target of None \<Rightarrow> False | Some a \<Rightarrow> ac_paused a) \<and> accountNeedsReauth target)"

definition withUsage :: "'q account list \<Rightarrow> usage_row list option \<Rightarrow> 'q account list" where
  "withUsage accounts summary =
     (let byLabel = rev (map (\<lambda>row. (us_accountLogLabel row, row)) (case summary of None \<Rightarrow> [] | Some rs \<Rightarrow> rs)) in
      if byLabel = [] then accounts
      else map (\<lambda>row.
        let logLabel = row_label row;
            usage = (if non_empty_label logLabel then map_of byLabel (the logLabel) else None)
        in case usage of Some u \<Rightarrow> row\<lparr>ac_usage30d := Some u\<rparr> | None \<Rightarrow> row) accounts)"

definition codexAccountMutationCompletion :: "json \<Rightarrow> bool" where
  "codexAccountMutationCompletion v = (prop_of v ''catalogRefreshPending'' = Some (JBool True))"

section \<open>The last good pool\<close>

type_synonym 'q good_pool = "'q account list \<times> string option"

definition readGoodPool :: "string \<Rightarrow> (string \<times> 'q good_pool) list \<Rightarrow> 'q good_pool option" where
  "readGoodPool apiBase goods = map_of goods apiBase"

definition rememberGoodPool :: "string \<Rightarrow> 'q account list option \<Rightarrow> string option option \<Rightarrow>
    (string \<times> 'q good_pool) list \<Rightarrow> (string \<times> 'q good_pool) list" where
  "rememberGoodPool apiBase accounts activeId goods =
     (let prior = map_of goods apiBase in
      AList.update apiBase
        (case accounts of Some rs \<Rightarrow> rs | None \<Rightarrow> (case prior of Some p \<Rightarrow> fst p | None \<Rightarrow> []),
         case activeId of Some a \<Rightarrow> a | None \<Rightarrow> (case prior of Some p \<Rightarrow> snd p | None \<Rightarrow> None)) goods)"

section \<open>Accepted mutations\<close>

definition planSwitchAccepted :: "json \<Rightarrow> string option \<Rightarrow> string option \<times> string" where
  "planSwitchAccepted payload requestedId =
     (let selectedId = (case readActiveId payload of Some (Some s) \<Rightarrow> Some s | _ \<Rightarrow> requestedId) in
      (selectedId, case selectedId of Some s \<Rightarrow> s | None \<Rightarrow> MAIN_ACCOUNT_ID))"

definition planPauseAccepted :: "json \<Rightarrow> string \<Rightarrow> bool \<Rightarrow> ('q account list \<Rightarrow> 'q account list) \<times> string option option" where
  "planPauseAccepted payload i paused = ((\<lambda>rows. withPausedFlag rows i paused), readActiveId payload)"

record 'q bulk_plan =
  bp_accounts :: "'q account list \<Rightarrow> 'q account list"
  bp_pausedIds :: "string list"
  bp_pausedCount :: jsnum
  bp_activeId :: "string option option"

definition planPauseExhaustedAccepted :: "json \<Rightarrow> 'q bulk_plan" where
  "planPauseExhaustedAccepted payload =
     (let (ids, count) = readPausedResult payload in
      \<lparr>bp_accounts = (\<lambda>rows. withPausedIds rows ids), bp_pausedIds = ids,
       bp_pausedCount = (case count of Some n \<Rightarrow> n | None \<Rightarrow> Fin (of_nat (length ids))),
       bp_activeId = readActiveId payload\<rparr>)"

section \<open>The pool controller\<close>

datatype pause_marker = BulkPause | OnePause string

record pool_authority =
  generation :: nat
  pendingActive :: "string option option"
  pauseTokens :: "nat list"
  au_switchTarget :: "string option"
  au_pause :: "pause_marker option"
  au_priority :: "string option"
  lastActive :: "json option"
  hasLoaded :: bool

definition createPoolAuthority :: pool_authority where
  "createPoolAuthority = \<lparr>generation = 0, pendingActive = None, pauseTokens = [], au_switchTarget = None,
     au_pause = None, au_priority = None, lastActive = None, hasLoaded = False\<rparr>"

datatype load_phase = PhaseLoading | PhaseReady | PhaseError

record 'q pool_snapshot =
  accounts :: "'q account list"
  activeId :: "string option"
  pinnedId :: "string option"
  phase :: load_phase
  firstAttemptSettled :: bool

record pool_activity =
  ac_inflight :: nat
  ac_switchTarget :: "string option"
  ac_pause :: "pause_marker option"
  ac_priorityId :: "string option"
  pauseLeases :: nat

text \<open>A load in flight: its generation, and what its two reads have produced so far.\<close>

record 'q load =
  ld_generation :: nat
  ld_listDone :: "bool option"
  ld_activeDone :: "bool option"
  ld_paintedRows :: "'q account list option"
  ld_reconciledActive :: "string option option"

datatype pool_mutation =
    SwitchAccount "string option"
  | SetPaused string bool
  | SetPriority string "int option"
  | PauseExhausted
  | SaveAlias string string
  | RemoveAccount string

record 'q pool =
  authority :: pool_authority
  pool_snap :: "'q pool_snapshot"
  activity :: pool_activity
  loads :: "'q load list"
  mutations :: "pool_mutation list"
  goods :: "(string \<times> 'q good_pool) list"
  observer_log :: "(nat \<times> bool) list"

definition mount_pool :: "('q \<Rightarrow> 'q) \<Rightarrow> string \<Rightarrow> (string \<times> 'q good_pool) list \<Rightarrow> 'q pool" where
  "mount_pool quota apiBase gs =
     (let seed = readGoodPool apiBase gs in
      \<lparr>authority = createPoolAuthority,
       pool_snap = \<lparr>accounts = (case seed of Some p \<Rightarrow> map (normalizeAccountRow quota) (fst p) | None \<Rightarrow> []),
         activeId = (case seed of Some p \<Rightarrow> snd p | None \<Rightarrow> None), pinnedId = None,
         phase = (if seed \<noteq> None then PhaseReady else PhaseLoading), firstAttemptSettled = (seed \<noteq> None)\<rparr>,
       activity = \<lparr>ac_inflight = 0, ac_switchTarget = None, ac_pause = None, ac_priorityId = None, pauseLeases = 0\<rparr>,
       loads = [], mutations = [], goods = gs, observer_log = []\<rparr>)"

definition load_start :: "bool \<Rightarrow> 'q pool \<Rightarrow> 'q pool" where
  "load_start refreshQuota p =
     (let g = Suc (generation (authority p));
          snap = (if \<not> refreshQuota \<and> \<not> hasLoaded (authority p)
                  then (pool_snap p)\<lparr>phase := PhaseLoading\<rparr> else pool_snap p)
      in p\<lparr>authority := (authority p)\<lparr>generation := g\<rparr>,
           activity := (activity p)\<lparr>ac_inflight := ac_inflight (activity p) + 1\<rparr>,
           pool_snap := snap,
           loads := loads p @ [\<lparr>ld_generation = g, ld_listDone = None, ld_activeDone = None,
             ld_paintedRows = None, ld_reconciledActive = None\<rparr>]\<rparr>)"

definition map_load :: "nat \<Rightarrow> ('q load \<Rightarrow> 'q load) \<Rightarrow> 'q pool \<Rightarrow> 'q pool" where
  "map_load g f p = p\<lparr>loads := map (\<lambda>l. if ld_generation l = g then f l else l) (loads p)\<rparr>"

text \<open>\<^verbatim>\<open>listTask\<close>: \<^term>\<open>None\<close> for a request that threw or was answered with an error status.\<close>

definition list_arrives :: "('q \<Rightarrow> 'q) \<Rightarrow> nat \<Rightarrow> 'q account list option option \<Rightarrow> 'q pool \<Rightarrow> 'q pool" where
  "list_arrives quota g response p =
     (case response of
        None \<Rightarrow> map_load g (\<lambda>l. l\<lparr>ld_listDone := Some False\<rparr>) p
      | Some payload \<Rightarrow>
          if generation (authority p) \<noteq> g then map_load g (\<lambda>l. l\<lparr>ld_listDone := Some True\<rparr>) p
          else
            (let rows = normalizeAccountList quota payload;
                 p1 = map_load g (\<lambda>l. l\<lparr>ld_listDone := Some True, ld_paintedRows := Some rows\<rparr>) p
             in p1\<lparr>authority := (authority p1)\<lparr>hasLoaded := True\<rparr>,
                   pool_snap := (pool_snap p1)\<lparr>accounts := rows, phase := PhaseReady\<rparr>\<rparr>))"

text \<open>
  \<^verbatim>\<open>activeReadTask\<close>. Reading \<^verbatim>\<open>pinnedAccountId\<close> of a \<^verbatim>\<open>null\<close> payload throws, after the active id and the last
  payload have been taken over.
\<close>

definition active_failed :: "nat \<Rightarrow> ('q load \<Rightarrow> 'q load) \<Rightarrow> 'q pool \<Rightarrow> 'q pool" where
  "active_failed g note p =
     map_load g (\<lambda>l. (note l)\<lparr>ld_activeDone := Some False\<rparr>)
       (p\<lparr>observer_log := observer_log p @ (if generation (authority p) = g then [(g, False)] else [])\<rparr>)"

definition active_arrives :: "nat \<Rightarrow> json option \<Rightarrow> 'q pool \<Rightarrow> 'q pool" where
  "active_arrives g response p =
     (case response of
        None \<Rightarrow> active_failed g (\<lambda>l. l) p
      | Some payload \<Rightarrow>
          if generation (authority p) \<noteq> g then map_load g (\<lambda>l. l\<lparr>ld_activeDone := Some True\<rparr>) p
          else
            (let serverActiveId = (case readActiveId payload of Some a \<Rightarrow> a | None \<Rightarrow> None);
                 accept = fst (reconcileActiveRead serverActiveId (pendingActive (authority p)));
                 note = (\<lambda>l. if accept then l\<lparr>ld_reconciledActive := Some serverActiveId\<rparr> else l);
                 p1 = (if accept
                       then p\<lparr>authority := (authority p)\<lparr>pendingActive := None\<rparr>,
                              pool_snap := (pool_snap p)\<lparr>activeId := serverActiveId\<rparr>\<rparr>
                       else p);
                 p2 = p1\<lparr>authority := (authority p1)\<lparr>lastActive := Some payload\<rparr>\<rparr>
             in if payload = JNull then active_failed g note p2
                else map_load g (\<lambda>l. (note l)\<lparr>ld_activeDone := Some True\<rparr>)
                  (p2\<lparr>pool_snap := (pool_snap p2)\<lparr>pinnedId :=
                        (case prop_of payload ''pinnedAccountId'' of Some (JStr s) \<Rightarrow> Some s | _ \<Rightarrow> None)\<rparr>,
                      observer_log := observer_log p2 @ [(g, True)]\<rparr>)))"

text \<open>The part of \<^verbatim>\<open>load\<close> after its \<^verbatim>\<open>Promise.all\<close>, with the \<^verbatim>\<open>finally\<close>.\<close>

definition load_settles :: "string \<Rightarrow> 'q load \<Rightarrow> 'q pool \<Rightarrow> 'q pool" where
  "load_settles apiBase l p =
     (let p1 =
        (if generation (authority p) \<noteq> ld_generation l then p
         else if ld_listDone l = Some True
         then p\<lparr>authority := (authority p)\<lparr>hasLoaded := True\<rparr>,
                goods := rememberGoodPool apiBase (ld_paintedRows l) (ld_reconciledActive l) (goods p)\<rparr>
         else if \<not> hasLoaded (authority p) then p\<lparr>pool_snap := (pool_snap p)\<lparr>phase := PhaseError\<rparr>\<rparr>
         else p)
      in p1\<lparr>activity := (activity p1)\<lparr>ac_inflight := ac_inflight (activity p1) - 1\<rparr>,
            pool_snap := (pool_snap p1)\<lparr>firstAttemptSettled := True\<rparr>,
            loads := filter (\<lambda>x. ld_generation x \<noteq> ld_generation l) (loads p1)\<rparr>)"

definition pauseRefresh :: "nat \<Rightarrow> 'q pool \<Rightarrow> 'q pool" where
  "pauseRefresh token p =
     (let ts = (if token \<in> set (pauseTokens (authority p)) then pauseTokens (authority p) else pauseTokens (authority p) @ [token]) in
      p\<lparr>authority := (authority p)\<lparr>pauseTokens := ts\<rparr>, activity := (activity p)\<lparr>pauseLeases := length ts\<rparr>\<rparr>)"

definition resumeRefresh :: "nat \<Rightarrow> 'q pool \<Rightarrow> 'q pool" where
  "resumeRefresh token p =
     (if token \<notin> set (pauseTokens (authority p)) then p
      else (let ts = remove1 token (pauseTokens (authority p)) in
            p\<lparr>authority := (authority p)\<lparr>pauseTokens := ts\<rparr>, activity := (activity p)\<lparr>pauseLeases := length ts\<rparr>\<rparr>))"

section \<open>Mutations\<close>

text \<open>The gate of \<^verbatim>\<open>runPoolMutation\<close>: \<^term>\<open>None\<close> is the \<^verbatim>\<open>busy\<close> refusal.\<close>

fun claim :: "pool_mutation \<Rightarrow> 'q pool \<Rightarrow> 'q pool option" where
  "claim (SwitchAccount i) p =
     (let target = (case i of Some s \<Rightarrow> s | None \<Rightarrow> MAIN_ACCOUNT_ID) in
      if au_switchTarget (authority p) \<noteq> None \<or> au_priority (authority p) \<noteq> None then None
      else Some (p\<lparr>authority := (authority p)\<lparr>au_switchTarget := Some target\<rparr>,
                   activity := (activity p)\<lparr>ac_switchTarget := Some target\<rparr>\<rparr>))"
| "claim (SetPaused i paused) p =
     (if au_pause (authority p) \<noteq> None then None
      else Some (p\<lparr>authority := (authority p)\<lparr>au_pause := Some (OnePause i)\<rparr>,
                   activity := (activity p)\<lparr>ac_pause := Some (OnePause i)\<rparr>\<rparr>))"
| "claim (SetPriority i priority) p =
     (if au_priority (authority p) \<noteq> None \<or> au_switchTarget (authority p) \<noteq> None then None
      else Some (p\<lparr>authority := (authority p)\<lparr>au_priority := Some i\<rparr>,
                   activity := (activity p)\<lparr>ac_priorityId := Some i\<rparr>\<rparr>))"
| "claim PauseExhausted p =
     (if au_pause (authority p) \<noteq> None then None
      else Some (p\<lparr>authority := (authority p)\<lparr>au_pause := Some BulkPause\<rparr>,
                   activity := (activity p)\<lparr>ac_pause := Some BulkPause\<rparr>\<rparr>))"
| "claim (SaveAlias i alias) p = Some p"
| "claim (RemoveAccount i) p = Some p"

fun release :: "pool_mutation \<Rightarrow> 'q pool \<Rightarrow> 'q pool" where
  "release (SwitchAccount i) p = p\<lparr>authority := (authority p)\<lparr>au_switchTarget := None\<rparr>,
     activity := (activity p)\<lparr>ac_switchTarget := None\<rparr>\<rparr>"
| "release (SetPaused i paused) p = p\<lparr>authority := (authority p)\<lparr>au_pause := None\<rparr>,
     activity := (activity p)\<lparr>ac_pause := None\<rparr>\<rparr>"
| "release (SetPriority i priority) p = p\<lparr>authority := (authority p)\<lparr>au_priority := None\<rparr>,
     activity := (activity p)\<lparr>ac_priorityId := None\<rparr>\<rparr>"
| "release PauseExhausted p = p\<lparr>authority := (authority p)\<lparr>au_pause := None\<rparr>,
     activity := (activity p)\<lparr>ac_pause := None\<rparr>\<rparr>"
| "release (SaveAlias i alias) p = p"
| "release (RemoveAccount i) p = p"

definition adopt_active :: "string option option \<Rightarrow> 'q pool \<Rightarrow> 'q pool" where
  "adopt_active a p =
     (case a of
        None \<Rightarrow> p
      | Some i \<Rightarrow> p\<lparr>authority := (authority p)\<lparr>pendingActive := Some i\<rparr>, pool_snap := (pool_snap p)\<lparr>activeId := i\<rparr>\<rparr>)"

text \<open>What an accepted response does to the visible pool, before the reload.\<close>

fun accepted :: "pool_mutation \<Rightarrow> json \<Rightarrow> 'q pool \<Rightarrow> 'q pool" where
  "accepted (SwitchAccount i) payload p =
     (let (selActive, selPinned) = planSwitchAccepted payload i in
      p\<lparr>authority := (authority p)\<lparr>pendingActive := Some selActive\<rparr>,
        pool_snap := (pool_snap p)\<lparr>activeId := selActive, pinnedId := Some selPinned\<rparr>\<rparr>)"
| "accepted (SetPaused i paused) payload p =
     (let (rows, act) = planPauseAccepted payload i paused;
          p1 = adopt_active act (p\<lparr>pool_snap := (pool_snap p)\<lparr>accounts := rows (accounts (pool_snap p))\<rparr>\<rparr>)
      in if paused \<and> pinnedId (pool_snap p1) = Some i then p1\<lparr>pool_snap := (pool_snap p1)\<lparr>pinnedId := None\<rparr>\<rparr> else p1)"
| "accepted (SetPriority i priority) payload p =
     (let stored = readStoredPriority payload priority in
      p\<lparr>authority := (authority p)\<lparr>pendingActive := None\<rparr>,
        pool_snap := (pool_snap p)\<lparr>accounts := withPriority (accounts (pool_snap p)) i stored, pinnedId := None\<rparr>\<rparr>)"
| "accepted PauseExhausted payload p =
     (let bulk = planPauseExhaustedAccepted payload;
          p1 = adopt_active (bp_activeId bulk) (p\<lparr>pool_snap := (pool_snap p)\<lparr>accounts := bp_accounts bulk (accounts (pool_snap p))\<rparr>\<rparr>)
      in case pinnedId (pool_snap p1) of
           Some i \<Rightarrow> if i \<in> set (bp_pausedIds bulk) then p1\<lparr>pool_snap := (pool_snap p1)\<lparr>pinnedId := None\<rparr>\<rparr> else p1
         | None \<Rightarrow> p1)"
| "accepted (SaveAlias i alias) payload p = p"
| "accepted (RemoveAccount i) payload p = p"

definition mutation_start :: "pool_mutation \<Rightarrow> 'q pool \<Rightarrow> 'q pool" where
  "mutation_start m p =
     (case claim m p of None \<Rightarrow> p | Some q \<Rightarrow> q\<lparr>mutations := mutations q @ [m]\<rparr>)"

text \<open>\<^term>\<open>None\<close> is a request that threw or was refused.\<close>

definition mutation_settles :: "pool_mutation \<Rightarrow> json option \<Rightarrow> 'q pool \<Rightarrow> 'q pool" where
  "mutation_settles m response p =
     (let p1 = release m (p\<lparr>mutations := remove1 m (mutations p)\<rparr>) in
      case response of None \<Rightarrow> p1 | Some payload \<Rightarrow> load_start False (accepted m payload p1))"

inductive pool_step :: "('q \<Rightarrow> 'q) \<Rightarrow> string \<Rightarrow> 'q pool \<Rightarrow> 'q pool \<Rightarrow> bool" for quota apiBase where
  pool_load: "pool_step quota apiBase p (load_start refresh p)"
| pool_list: "l \<in> set (loads p) \<Longrightarrow> ld_listDone l = None \<Longrightarrow>
    pool_step quota apiBase p (list_arrives quota (ld_generation l) response p)"
| pool_active: "l \<in> set (loads p) \<Longrightarrow> ld_activeDone l = None \<Longrightarrow>
    pool_step quota apiBase p (active_arrives (ld_generation l) answer p)"
| pool_settle: "l \<in> set (loads p) \<Longrightarrow> ld_listDone l \<noteq> None \<Longrightarrow> ld_activeDone l \<noteq> None \<Longrightarrow>
    pool_step quota apiBase p (load_settles apiBase l p)"
| pool_pause: "pool_step quota apiBase p (pauseRefresh token p)"
| pool_resume: "pool_step quota apiBase p (resumeRefresh token p)"
| pool_mutate: "pool_step quota apiBase p (mutation_start m p)"
| pool_mutated: "m \<in> set (mutations p) \<Longrightarrow> pool_step quota apiBase p (mutation_settles m response' p)"

abbreviation reachable_pool :: "('q \<Rightarrow> 'q) \<Rightarrow> string \<Rightarrow> 'q pool \<Rightarrow> bool" where
  "reachable_pool quota apiBase \<equiv> reach (\<lambda>p. \<exists>gs. p = mount_pool quota apiBase gs) (pool_step quota apiBase)"

section \<open>Invariants\<close>

fun is_switch :: "pool_mutation \<Rightarrow> bool" where
  "is_switch (SwitchAccount _) = True" | "is_switch _ = False"

fun is_priority :: "pool_mutation \<Rightarrow> bool" where
  "is_priority (SetPriority _ _) = True" | "is_priority _ = False"

fun is_pause :: "pool_mutation \<Rightarrow> bool" where
  "is_pause (SetPaused _ _) = True" | "is_pause PauseExhausted = True" | "is_pause _ = False"

definition cnt :: "(pool_mutation \<Rightarrow> bool) \<Rightarrow> pool_mutation list \<Rightarrow> nat" where
  "cnt P ms = length (filter P ms)"

definition held :: "'a option \<Rightarrow> nat" where
  "held marker = (if marker = None then 0 else 1)"

text \<open>The gates: the markers of the authority, their mirror in the activity, and the mutations in flight agree.\<close>

definition gates_ok :: "'q pool \<Rightarrow> bool" where
  "gates_ok p \<longleftrightarrow>
     ac_switchTarget (activity p) = au_switchTarget (authority p)
     \<and> ac_pause (activity p) = au_pause (authority p)
     \<and> ac_priorityId (activity p) = au_priority (authority p)
     \<and> cnt is_switch (mutations p) = held (au_switchTarget (authority p))
     \<and> cnt is_priority (mutations p) = held (au_priority (authority p))
     \<and> cnt is_pause (mutations p) = held (au_pause (authority p))
     \<and> held (au_switchTarget (authority p)) + held (au_priority (authority p)) \<le> 1
     \<and> pauseLeases (activity p) = length (pauseTokens (authority p)) \<and> distinct (pauseTokens (authority p))"

definition loads_ok :: "'q pool \<Rightarrow> bool" where
  "loads_ok p \<longleftrightarrow>
     distinct (map ld_generation (loads p)) \<and> (\<forall>l \<in> set (loads p). ld_generation l \<le> generation (authority p))
     \<and> ac_inflight (activity p) = length (loads p)
     \<and> (\<forall>l \<in> set (loads p). ld_generation l = generation (authority p) \<and> ld_listDone l = Some True \<longrightarrow>
          hasLoaded (authority p))
     \<and> (hasLoaded (authority p) \<longrightarrow> phase (pool_snap p) = PhaseReady)
     \<and> (\<forall>a. pendingActive (authority p) = Some a \<longrightarrow> activeId (pool_snap p) = a)"

definition pool_ok :: "'q pool \<Rightarrow> bool" where
  "pool_ok p \<longleftrightarrow> gates_ok p \<and> loads_ok p"

lemma held_simps [simp]: "held None = 0" "held (Some x) = 1"
  by (simp_all add: held_def)

lemma held_le: "held x \<le> 1"
  by (simp add: held_def)

lemma cnt_snoc [simp]: "cnt P (ms @ [m]) = cnt P ms + (if P m then 1 else 0)"
  by (simp add: cnt_def)

lemma cnt_remove1: "m \<in> set ms \<Longrightarrow> cnt P ms = cnt P (remove1 m ms) + (if P m then 1 else 0)"
  unfolding cnt_def by (induction ms) auto

lemma cnt_Nil [simp]: "cnt P [] = 0"
  by (simp add: cnt_def)

lemma pool_ok_mount: "pool_ok (mount_pool quota apiBase gs)"
  by (simp add: pool_ok_def gates_ok_def loads_ok_def mount_pool_def createPoolAuthority_def Let_def)

lemma pool_ok_load_start: "pool_ok p \<Longrightarrow> pool_ok (load_start refresh p)"
  by (auto simp: pool_ok_def gates_ok_def loads_ok_def load_start_def Let_def)

lemma map_load_gens [simp]:
  assumes "\<And>l. ld_generation (f l) = ld_generation l"
  shows "map ld_generation (loads (map_load g f p)) = map ld_generation (loads p)"
    "length (loads (map_load g f p)) = length (loads p)"
  using assms by (simp_all add: map_load_def o_def if_distrib cong: if_cong)

lemma map_load_frame [simp]:
  "authority (map_load g f p) = authority p" "pool_snap (map_load g f p) = pool_snap p"
  "activity (map_load g f p) = activity p" "mutations (map_load g f p) = mutations p"
  "goods (map_load g f p) = goods p" "observer_log (map_load g f p) = observer_log p"
  by (simp_all add: map_load_def)

lemma gates_ok_frame:
  assumes "gates_ok p" "mutations p' = mutations p"
    and "ac_switchTarget (activity p') = ac_switchTarget (activity p)" "ac_pause (activity p') = ac_pause (activity p)"
    and "ac_priorityId (activity p') = ac_priorityId (activity p)" "pauseLeases (activity p') = pauseLeases (activity p)"
    and "au_switchTarget (authority p') = au_switchTarget (authority p)" "au_pause (authority p') = au_pause (authority p)"
    and "au_priority (authority p') = au_priority (authority p)" "pauseTokens (authority p') = pauseTokens (authority p)"
  shows "gates_ok p'"
  using assms by (simp add: gates_ok_def)

lemma loads_ok_frame:
  assumes "loads_ok p" "loads p' = loads p" "generation (authority p') = generation (authority p)"
    and "hasLoaded (authority p') = hasLoaded (authority p)" "ac_inflight (activity p') = ac_inflight (activity p)"
    and "phase (pool_snap p') = phase (pool_snap p)"
    and "\<And>a. pendingActive (authority p') = Some a \<Longrightarrow> activeId (pool_snap p') = a"
  shows "loads_ok p'"
  using assms by (simp add: loads_ok_def)

lemma loads_ok_same:
  assumes "loads p' = loads p" "generation (authority p') = generation (authority p)"
    and "hasLoaded (authority p') = hasLoaded (authority p)" "ac_inflight (activity p') = ac_inflight (activity p)"
    and "phase (pool_snap p') = phase (pool_snap p)" "activeId (pool_snap p') = activeId (pool_snap p)"
    and "pendingActive (authority p') = pendingActive (authority p)"
  shows "loads_ok p' = loads_ok p"
  unfolding loads_ok_def assms ..

lemma loads_ok_map_load:
  assumes "loads_ok p" "\<And>l. ld_generation (f l) = ld_generation l"
    and "\<And>l. ld_listDone (f l) = Some True \<Longrightarrow> ld_listDone l = Some True \<or> g \<noteq> generation (authority p)
           \<or> hasLoaded (authority p)"
  shows "loads_ok (map_load g f p)"
proof -
  have "ld_generation l \<le> generation (authority p)
      \<and> (ld_generation l = generation (authority p) \<and> ld_listDone l = Some True \<longrightarrow> hasLoaded (authority p))"
    if l: "l \<in> set (loads (map_load g f p))" for l
  proof -
    from l obtain l0 where l0: "l0 \<in> set (loads p)" "l = (if ld_generation l0 = g then f l0 else l0)"
      by (auto simp: map_load_def)
    from assms(1) l0(1) have "ld_generation l0 \<le> generation (authority p)"
      "ld_generation l0 = generation (authority p) \<and> ld_listDone l0 = Some True \<longrightarrow> hasLoaded (authority p)"
      by (auto simp: loads_ok_def)
    then show ?thesis using assms(3) [of l0] l0(2) assms(2) [of l0] by (auto split: if_splits)
  qed
  with assms(1) show ?thesis by (simp add: loads_ok_def assms(2))
qed

lemma pool_ok_list_arrives:
  assumes "pool_ok p"
  shows "pool_ok (list_arrives quota g response p)"
proof -
  have lo: "loads_ok p" and ga: "gates_ok p" using assms by (simp_all add: pool_ok_def)
  show ?thesis
  proof (cases response)
    case None
    then show ?thesis using lo ga
      by (auto simp: list_arrives_def pool_ok_def intro!: loads_ok_map_load gates_ok_frame [OF ga])
  next
    case (Some payload)
    show ?thesis
    proof (cases "generation (authority p) = g")
      case False
      with Some lo ga show ?thesis
        by (auto simp: list_arrives_def pool_ok_def intro!: loads_ok_map_load gates_ok_frame [OF ga])
    next
      case True
      let ?rows = "normalizeAccountList quota payload"
      let ?p0 = "p\<lparr>authority := (authority p)\<lparr>hasLoaded := True\<rparr>,
         pool_snap := (pool_snap p)\<lparr>accounts := ?rows, phase := PhaseReady\<rparr>\<rparr>"
      have "loads_ok ?p0" using lo by (auto simp: loads_ok_def)
      then have "loads_ok (map_load g (\<lambda>l. l\<lparr>ld_listDone := Some True, ld_paintedRows := Some ?rows\<rparr>) ?p0)"
        by (rule loads_ok_map_load) simp_all
      moreover have "list_arrives quota g response p
          = map_load g (\<lambda>l. l\<lparr>ld_listDone := Some True, ld_paintedRows := Some ?rows\<rparr>) ?p0"
        using Some True by (simp add: list_arrives_def map_load_def Let_def)
      moreover have "gates_ok (list_arrives quota g response p)"
        using Some True by (intro gates_ok_frame [OF ga]) (simp_all add: list_arrives_def Let_def)
      ultimately show ?thesis by (simp add: pool_ok_def)
    qed
  qed
qed

lemma pool_ok_map_load:
  assumes "pool_ok p" "\<And>l. ld_generation (f l) = ld_generation l" "\<And>l. ld_listDone (f l) = ld_listDone l"
  shows "pool_ok (map_load g f p)"
  using assms unfolding pool_ok_def
  by (auto intro!: loads_ok_map_load gates_ok_frame [of p])

lemma pool_ok_frame:
  assumes "pool_ok p" "\<And>a. pendingActive (authority p) = Some a \<Longrightarrow> activeId s = a"
    and "phase s = phase (pool_snap p)"
  shows "pool_ok (p\<lparr>pool_snap := s, observer_log := l\<rparr>)" "pool_ok (p\<lparr>observer_log := l\<rparr>)"
    "pool_ok (p\<lparr>pool_snap := s\<rparr>)"
  using assms by (auto simp: pool_ok_def gates_ok_def loads_ok_def)

lemma pool_ok_lastActive: "pool_ok p \<Longrightarrow> pool_ok (p\<lparr>authority := (authority p)\<lparr>lastActive := x\<rparr>\<rparr>)"
  by (auto simp: pool_ok_def gates_ok_def loads_ok_def)

lemma pool_ok_reconcile:
  "pool_ok p \<Longrightarrow> pool_ok (p\<lparr>authority := (authority p)\<lparr>pendingActive := None\<rparr>,
     pool_snap := (pool_snap p)\<lparr>activeId := a\<rparr>\<rparr>)"
  by (auto simp: pool_ok_def gates_ok_def loads_ok_def)

lemma pool_ok_active_failed:
  assumes "pool_ok p" "\<And>l. ld_generation (f l) = ld_generation l" "\<And>l. ld_listDone (f l) = ld_listDone l"
  shows "pool_ok (active_failed g f p)"
  unfolding active_failed_def
proof (rule pool_ok_map_load)
  show "pool_ok (p\<lparr>observer_log := observer_log p @ (if generation (authority p) = g then [(g, False)] else [])\<rparr>)"
    using assms(1) by (intro pool_ok_frame(2) [where s = "pool_snap p"]) (auto simp: pool_ok_def loads_ok_def)
qed (simp_all add: assms)

lemma pool_ok_active_arrives:
  assumes "pool_ok p"
  shows "pool_ok (active_arrives g answer p)"
proof (cases answer)
  case None
  then show ?thesis using assms by (simp add: active_arrives_def pool_ok_active_failed)
next
  case (Some payload)
  show ?thesis
  proof (cases "generation (authority p) = g")
    case False
    with Some assms show ?thesis by (simp add: active_arrives_def pool_ok_map_load)
  next
    case True
    define srv where "srv = (case readActiveId payload of Some a \<Rightarrow> a | None \<Rightarrow> None)"
    define acc where "acc = fst (reconcileActiveRead srv (pendingActive (authority p)))"
    define nt where "nt = (\<lambda>l :: 'a load. if acc then l\<lparr>ld_reconciledActive := Some srv\<rparr> else l)"
    define p1 where "p1 = (if acc then p\<lparr>authority := (authority p)\<lparr>pendingActive := None\<rparr>,
      pool_snap := (pool_snap p)\<lparr>activeId := srv\<rparr>\<rparr> else p)"
    define p2 where "p2 = p1\<lparr>authority := (authority p1)\<lparr>lastActive := Some payload\<rparr>\<rparr>"
    have "pool_ok p1" unfolding p1_def using assms by (simp add: pool_ok_reconcile)
    then have p2: "pool_ok p2" unfolding p2_def by (rule pool_ok_lastActive)
    have nt: "ld_generation (nt l) = ld_generation l" "ld_listDone (nt l) = ld_listDone l" for l
      by (simp_all add: nt_def)
    have pin: "pool_ok (p2\<lparr>pool_snap := (pool_snap p2)\<lparr>pinnedId := x\<rparr>, observer_log := y\<rparr>)" for x y
      using p2 by (intro pool_ok_frame(1)) (auto simp: pool_ok_def loads_ok_def)
    have e: "active_arrives g answer p =
       (if payload = JNull then active_failed g nt p2
        else map_load g (\<lambda>l. (nt l)\<lparr>ld_activeDone := Some True\<rparr>)
          (p2\<lparr>pool_snap := (pool_snap p2)\<lparr>pinnedId :=
              (case prop_of payload ''pinnedAccountId'' of Some (JStr s) \<Rightarrow> Some s | _ \<Rightarrow> None)\<rparr>,
             observer_log := observer_log p2 @ [(g, True)]\<rparr>))"
      unfolding active_arrives_def Some p2_def p1_def nt_def acc_def srv_def Let_def using True by simp
    show ?thesis unfolding e using p2 nt pin by (simp add: pool_ok_active_failed pool_ok_map_load)
  qed
qed

lemma filter_same_key: "distinct (map f xs) \<Longrightarrow> y \<in> set xs \<Longrightarrow> filter (\<lambda>x. f x = f y) xs = [y]"
proof (induction xs)
  case (Cons x xs)
  show ?case
  proof (cases "x = y")
    case True
    with Cons.prems have "\<forall>z \<in> set xs. f z \<noteq> f y" by (metis distinct.simps(2) image_eqI list.set_map list.simps(9))
    with True show ?thesis by (simp add: filter_empty_conv)
  next
    case False
    with Cons.prems have "f x \<noteq> f y" by auto
    with False Cons show ?thesis by simp
  qed
qed simp

lemma pool_ok_load_settles:
  assumes "pool_ok p" "l \<in> set (loads p)"
  shows "pool_ok (load_settles apiBase l p)"
proof -
  have d: "distinct (map ld_generation (loads p))" using assms(1) by (simp add: pool_ok_def loads_ok_def)
  have "filter (\<lambda>x. ld_generation x = ld_generation l) (loads p) = [l]"
    by (rule filter_same_key [OF d assms(2)])
  then have len: "length (filter (\<lambda>x. ld_generation x \<noteq> ld_generation l) (loads p)) = length (loads p) - 1"
    using sum_length_filter_compl [of "\<lambda>x. ld_generation x = ld_generation l" "loads p"] by simp
  show ?thesis using assms len d
    by (auto simp: pool_ok_def gates_ok_def loads_ok_def load_settles_def Let_def distinct_map_filter)
qed

lemma claim_frame:
  "claim m p = Some q \<Longrightarrow> loads q = loads p \<and> pool_snap q = pool_snap p \<and> mutations q = mutations p
     \<and> generation (authority q) = generation (authority p) \<and> hasLoaded (authority q) = hasLoaded (authority p)
     \<and> pendingActive (authority q) = pendingActive (authority p) \<and> ac_inflight (activity q) = ac_inflight (activity p)"
  by (cases m) (auto simp: Let_def split: if_splits)

lemma claim_gates:
  assumes "gates_ok p" "claim m p = Some q"
  shows "gates_ok (q\<lparr>mutations := mutations q @ [m]\<rparr>)"
proof (cases m)
  case (SwitchAccount i)
  then have "au_switchTarget (authority p) = None" "au_priority (authority p) = None"
    and q: "q = p\<lparr>authority := (authority p)\<lparr>au_switchTarget := Some (case i of Some s \<Rightarrow> s | None \<Rightarrow> MAIN_ACCOUNT_ID)\<rparr>,
      activity := (activity p)\<lparr>ac_switchTarget := Some (case i of Some s \<Rightarrow> s | None \<Rightarrow> MAIN_ACCOUNT_ID)\<rparr>\<rparr>"
    using assms(2) by (simp_all add: Let_def split: if_splits)
  then show ?thesis using assms(1) SwitchAccount by (simp add: gates_ok_def)
next
  case (SetPaused i b)
  then have "au_pause (authority p) = None" and q: "q = p\<lparr>authority := (authority p)\<lparr>au_pause := Some (OnePause i)\<rparr>,
      activity := (activity p)\<lparr>ac_pause := Some (OnePause i)\<rparr>\<rparr>"
    using assms(2) by (simp_all split: if_splits)
  then show ?thesis using assms(1) SetPaused by (simp add: gates_ok_def)
next
  case (SetPriority i pr)
  then have "au_switchTarget (authority p) = None" "au_priority (authority p) = None"
    and q: "q = p\<lparr>authority := (authority p)\<lparr>au_priority := Some i\<rparr>,
      activity := (activity p)\<lparr>ac_priorityId := Some i\<rparr>\<rparr>"
    using assms(2) by (simp_all split: if_splits)
  then show ?thesis using assms(1) SetPriority by (simp add: gates_ok_def)
next
  case PauseExhausted
  then have "au_pause (authority p) = None" and q: "q = p\<lparr>authority := (authority p)\<lparr>au_pause := Some BulkPause\<rparr>,
      activity := (activity p)\<lparr>ac_pause := Some BulkPause\<rparr>\<rparr>"
    using assms(2) by (simp_all split: if_splits)
  then show ?thesis using assms(1) PauseExhausted by (simp add: gates_ok_def)
qed (use assms in \<open>simp_all add: gates_ok_def\<close>)

lemma claim_Some:
  assumes "pool_ok p" "claim m p = Some q"
  shows "pool_ok (q\<lparr>mutations := mutations q @ [m]\<rparr>)"
proof -
  have "loads_ok (q\<lparr>mutations := mutations q @ [m]\<rparr>)"
    using assms(1) claim_frame [OF assms(2)] by (subst loads_ok_same [of _ p]) (simp_all add: pool_ok_def)
  moreover have "gates_ok (q\<lparr>mutations := mutations q @ [m]\<rparr>)"
    using assms by (intro claim_gates) (simp_all add: pool_ok_def)
  ultimately show ?thesis by (simp add: pool_ok_def)
qed

lemma pool_ok_mutation_start: "pool_ok p \<Longrightarrow> pool_ok (mutation_start m p)"
  using claim_Some by (auto simp: mutation_start_def split: option.split)

lemma release_frame:
  "loads (release m p) = loads p" "pool_snap (release m p) = pool_snap p" "mutations (release m p) = mutations p"
  "generation (authority (release m p)) = generation (authority p)" "hasLoaded (authority (release m p)) = hasLoaded (authority p)"
  "ac_inflight (activity (release m p)) = ac_inflight (activity p)"
  "pendingActive (authority (release m p)) = pendingActive (authority p)"
  by (cases m; simp)+

lemma release_gates:
  assumes "gates_ok p" "m \<in> set (mutations p)"
  shows "gates_ok (release m (p\<lparr>mutations := remove1 m (mutations p)\<rparr>))"
proof -
  note n = cnt_remove1 [OF assms(2), of is_switch] cnt_remove1 [OF assms(2), of is_priority]
    cnt_remove1 [OF assms(2), of is_pause]
  note b = held_le [of "au_switchTarget (authority p)"] held_le [of "au_priority (authority p)"]
    held_le [of "au_pause (authority p)"]
  show ?thesis
    using assms(1) n b by (cases m) (simp_all add: gates_ok_def)
qed

lemma pool_ok_release:
  assumes "pool_ok p" "m \<in> set (mutations p)"
  shows "pool_ok (release m (p\<lparr>mutations := remove1 m (mutations p)\<rparr>))"
proof -
  have "loads_ok (release m (p\<lparr>mutations := remove1 m (mutations p)\<rparr>)) = loads_ok p"
    by (rule loads_ok_same) (simp_all add: release_frame)
  with release_gates [of p m] assms show ?thesis by (simp add: pool_ok_def)
qed

lemma pool_ok_adopt_active: "pool_ok p \<Longrightarrow> pool_ok (adopt_active a p)"
  by (auto simp: adopt_active_def pool_ok_def gates_ok_def loads_ok_def split: option.split)

lemma pool_ok_snap:
  "pool_ok p \<Longrightarrow> pool_ok (p\<lparr>pool_snap := (pool_snap p)\<lparr>accounts := rs\<rparr>\<rparr>)"
  "pool_ok p \<Longrightarrow> pool_ok (p\<lparr>pool_snap := (pool_snap p)\<lparr>pinnedId := x\<rparr>\<rparr>)"
  by (auto simp: pool_ok_def gates_ok_def loads_ok_def)

lemma pool_ok_accepted:
  assumes "pool_ok p"
  shows "pool_ok (accepted m payload p)"
proof (cases m)
  case (SwitchAccount i)
  then show ?thesis using assms by (auto simp: pool_ok_def gates_ok_def loads_ok_def Let_def split_def)
next
  case (SetPriority i pr)
  then show ?thesis using assms by (auto simp: pool_ok_def gates_ok_def loads_ok_def Let_def)
qed (use assms in \<open>simp_all add: Let_def split_def pool_ok_adopt_active pool_ok_snap split: option.split\<close>)

lemma pool_ok_settles:
  assumes "pool_ok p" "m \<in> set (mutations p)"
  shows "pool_ok (mutation_settles m response p)"
  using pool_ok_release [OF assms]
  by (simp add: mutation_settles_def Let_def pool_ok_accepted pool_ok_load_start split: option.split)

lemma pool_ok_step:
  assumes "pool_ok p" "pool_step quota apiBase p p'"
  shows "pool_ok p'"
  using assms(2)
proof cases
  case pool_load then show ?thesis using assms(1) by (simp add: pool_ok_load_start)
next
  case pool_list then show ?thesis using assms(1) by (simp add: pool_ok_list_arrives)
next
  case pool_active then show ?thesis using assms(1) by (simp add: pool_ok_active_arrives)
next
  case pool_settle then show ?thesis using assms(1) by (simp add: pool_ok_load_settles)
next
  case pool_pause
  then show ?thesis using assms(1)
    by (auto simp: pauseRefresh_def Let_def pool_ok_def gates_ok_def loads_ok_def)
next
  case pool_resume
  then show ?thesis using assms(1)
    by (auto simp: resumeRefresh_def Let_def pool_ok_def gates_ok_def loads_ok_def)
next
  case pool_mutate then show ?thesis using assms(1) by (simp add: pool_ok_mutation_start)
next
  case pool_mutated then show ?thesis using assms(1) by (simp add: pool_ok_settles)
qed

interpretation account_pool: machine "\<lambda>p. \<exists>gs. p = mount_pool quota apiBase gs" "pool_step quota apiBase" pool_ok
  for quota apiBase
  by unfold_locales (auto simp: pool_ok_mount intro: pool_ok_step)

section \<open>Properties\<close>

definition sample_row :: "string \<Rightarrow> bool \<Rightarrow> unit account" where
  "sample_row i main = \<lparr>ac_id = i, ac_email = i, ac_alias = None, ac_logLabel = Some i, ac_plan = None, ac_isMain = main,
     ac_paused = False, ac_priority = None, ac_hasCredential = True, ac_needsReauth = False, ac_health = None,
     ac_healthLabel = None, ac_healthSummary = None, ac_healthAction = None, ac_usage30d = None, ac_quota = ()\<rparr>"

definition loaded_pool :: "unit pool" where
  "loaded_pool = list_arrives id 1 (Some (Some [sample_row ''m'' True, sample_row ''a'' False]))
     (load_start False (mount_pool id ''base'' []))"

definition switched_pool :: "unit pool" where
  "switched_pool = mutation_settles (SwitchAccount (Some ''a'')) (Some (JObj []))
     (mutation_start (SwitchAccount (Some ''a'')) loaded_pool)"

lemma loaded_pool_reachable: "reachable_pool id ''base'' loaded_pool"
proof -
  let ?p0 = "mount_pool id ''base'' [] :: unit pool"
  let ?p1 = "load_start False ?p0"
  have r1: "reachable_pool id ''base'' ?p1"
    by (rule reach_step, rule reach_init, rule exI, rule refl, rule pool_load)
  have "loads ?p1 = [\<lparr>ld_generation = 1, ld_listDone = None, ld_activeDone = None, ld_paintedRows = None,
      ld_reconciledActive = None\<rparr>]"
    by (simp add: load_start_def mount_pool_def createPoolAuthority_def Let_def)
  then have "pool_step id ''base'' ?p1 loaded_pool"
    unfolding loaded_pool_def using pool_list [of _ ?p1 id] by fastforce
  with r1 show ?thesis by (rule reach_step)
qed

lemma switched_pool_reachable: "reachable_pool id ''base'' switched_pool"
proof -
  have r: "reachable_pool id ''base'' (mutation_start (SwitchAccount (Some ''a'')) loaded_pool)"
    by (rule reach_step, rule loaded_pool_reachable, rule pool_mutate)
  have "SwitchAccount (Some ''a'') \<in> set (mutations (mutation_start (SwitchAccount (Some ''a'')) loaded_pool))"
    by (simp add: mutation_start_def loaded_pool_def list_arrives_def load_start_def mount_pool_def
        createPoolAuthority_def Let_def)
  with r show ?thesis unfolding switched_pool_def by (blast intro: reach_step pool_mutated)
qed

text \<open>The mutation gates of the account pool. In every reachable state the spinners mirror the
  in-flight markers, a marker is set exactly while its one mutation is in flight, a switch and an
  order write (which move the pin in opposite directions) are never in flight together, the lease
  count is the number of outstanding pause tokens and the load counter the number of loads.\<close>

theorem pool_gates:
  assumes "reachable_pool quota apiBase p"
  shows "ac_switchTarget (activity p) = au_switchTarget (authority p)
     \<and> ac_pause (activity p) = au_pause (authority p) \<and> ac_priorityId (activity p) = au_priority (authority p)
     \<and> (au_switchTarget (authority p) \<noteq> None \<longleftrightarrow> (\<exists>m \<in> set (mutations p). is_switch m))
     \<and> (au_pause (authority p) \<noteq> None \<longleftrightarrow> (\<exists>m \<in> set (mutations p). is_pause m))
     \<and> length (filter (\<lambda>m. is_switch m \<or> is_priority m) (mutations p)) \<le> 1
     \<and> length (filter is_pause (mutations p)) \<le> 1
     \<and> pauseLeases (activity p) = card (set (pauseTokens (authority p)))
     \<and> ac_inflight (activity p) = length (loads p)"
proof -
  have g: "gates_ok p" "loads_ok p" using account_pool.reachable_inv [OF assms] by (simp_all add: pool_ok_def)
  have some: "(\<exists>m \<in> set (mutations p). P m) \<longleftrightarrow> cnt P (mutations p) \<noteq> 0" for P
    by (simp add: cnt_def filter_empty_conv)
  have disj: "length (filter (\<lambda>m. is_switch m \<or> is_priority m) ms) = cnt is_switch ms + cnt is_priority ms" for ms
  proof (induction ms)
    case (Cons m ms)
    then show ?case by (cases m) (simp_all add: cnt_def)
  qed (simp add: cnt_def)
  show ?thesis
    using g held_le [of "au_pause (authority p)"] unfolding some disj
    by (auto simp: gates_ok_def loads_ok_def cnt_def [symmetric] distinct_card held_def split: if_splits)
qed

theorem pool_gates_witness:
  "reachable_pool id ''base'' (mutation_start (SwitchAccount (Some ''a'')) loaded_pool)
   \<and> ac_switchTarget (activity (mutation_start (SwitchAccount (Some ''a'')) loaded_pool)) = Some ''a''"
proof -
  have r: "reachable_pool id ''base'' (mutation_start (SwitchAccount (Some ''a'')) loaded_pool)"
    by (rule reach_step, rule loaded_pool_reachable, rule pool_mutate)
  have "au_switchTarget (authority (mutation_start (SwitchAccount (Some ''a'')) loaded_pool)) = Some ''a''"
    by code_simp
  with pool_gates [OF r] r show ?thesis by simp
qed

text \<open>C11: an accepted selection is not undone by an older answer. While a switch or pause response is not
  yet confirmed, the pool shows the account it named; a read of the active account that names another
  one leaves it showing, and the first read that agrees confirms it.\<close>

theorem accepted_selection_holds:
  assumes "reachable_pool quota apiBase p" "pendingActive (authority p) = Some a"
  shows "activeId (pool_snap p) = a
     \<and> (let server = (case readActiveId payload of Some x \<Rightarrow> x | None \<Rightarrow> None);
            p' = active_arrives g (Some payload) p
        in activeId (pool_snap p') = a
           \<and> pendingActive (authority p') = (if g = generation (authority p) \<and> server = a then None else Some a))"
proof -
  have "activeId (pool_snap p) = a"
    using account_pool.reachable_inv [OF assms(1)] assms(2) by (simp add: pool_ok_def loads_ok_def)
  then show ?thesis using assms(2)
    by (simp add: active_arrives_def active_failed_def reconcileActiveRead_def Let_def)
qed

theorem accepted_selection_holds_witness:
  "pendingActive (authority switched_pool) = Some (Some ''a'') \<and> activeId (pool_snap switched_pool) = Some ''a''
   \<and> activeId (pool_snap (active_arrives 2 (Some (JObj [(''activeCodexAccountId'', JStr ''b'')])) switched_pool)) = Some ''a''"
proof -
  have "pendingActive (authority switched_pool) = Some (Some ''a'')" by code_simp
  with accepted_selection_holds [OF switched_pool_reachable this,
      of "JObj [(''activeCodexAccountId'', JStr ''b'')]" 2]
  show ?thesis by (simp add: Let_def)
qed

text \<open>Only the newest load paints. In a reachable state at most one load in flight belongs to the
  current generation; the answers and the end of every older load leave the rows, the active and the
  pinned account and the phase alone. Once a list has been loaded the pool stays ready: a later
  failure never turns it back to loading or error.\<close>

theorem newest_load_paints:
  assumes "reachable_pool quota apiBase p" "l \<in> set (loads p)"
  shows "(\<forall>l' \<in> set (loads p). ld_generation l' = ld_generation l \<longrightarrow> l' = l)
     \<and> ld_generation l \<le> generation (authority p)
     \<and> (ld_generation l < generation (authority p) \<longrightarrow>
          pool_snap (list_arrives quota (ld_generation l) resp p) = pool_snap p
          \<and> pool_snap (active_arrives (ld_generation l) ans p) = pool_snap p
          \<and> pool_snap (load_settles apiBase l p) = (pool_snap p)\<lparr>firstAttemptSettled := True\<rparr>
          \<and> goods (load_settles apiBase l p) = goods p)
     \<and> (hasLoaded (authority p) \<longrightarrow> phase (pool_snap p) = PhaseReady
          \<and> phase (pool_snap (list_arrives quota (ld_generation l) None p)) = PhaseReady
          \<and> phase (pool_snap (load_settles apiBase l p)) = PhaseReady)"
proof -
  have lo: "loads_ok p" using account_pool.reachable_inv [OF assms(1)] by (simp add: pool_ok_def)
  have u: "l' = l" if "l' \<in> set (loads p)" "ld_generation l' = ld_generation l" for l'
    using lo that assms(2) unfolding loads_ok_def by (metis distinct_map inj_onD)
  have le: "ld_generation l \<le> generation (authority p)" using lo assms(2) by (simp add: loads_ok_def)
  have old: "pool_snap (list_arrives quota (ld_generation l) resp p) = pool_snap p
      \<and> pool_snap (active_arrives (ld_generation l) ans p) = pool_snap p
      \<and> pool_snap (load_settles apiBase l p) = (pool_snap p)\<lparr>firstAttemptSettled := True\<rparr>
      \<and> goods (load_settles apiBase l p) = goods p" if "ld_generation l < generation (authority p)"
    using that by (simp add: list_arrives_def active_arrives_def active_failed_def load_settles_def Let_def split: option.split)
  have rdy: "phase (pool_snap p) = PhaseReady
      \<and> phase (pool_snap (list_arrives quota (ld_generation l) None p)) = PhaseReady
      \<and> phase (pool_snap (load_settles apiBase l p)) = PhaseReady" if "hasLoaded (authority p)"
    using that lo by (simp add: list_arrives_def load_settles_def Let_def loads_ok_def)
  show ?thesis using u le old rdy by blast
qed

theorem newest_load_paints_witness:
  "\<exists>l \<in> set (loads switched_pool). ld_generation l = 1 \<and> generation (authority switched_pool) = 2
     \<and> pool_snap (list_arrives id 1 (Some (Some [])) switched_pool) = pool_snap switched_pool
     \<and> map ac_id (accounts (pool_snap switched_pool)) = [''m'', ''a'']"
proof -
  have e: "map ld_generation (loads switched_pool) = [1, 2]" "generation (authority switched_pool) = 2"
    "map ac_id (accounts (pool_snap switched_pool)) = [''m'', ''a'']" by code_simp+
  then obtain l where l: "l \<in> set (loads switched_pool)" "ld_generation l = 1" by (metis imageE list.set_intros(1) list.set_map)
  from newest_load_paints [OF switched_pool_reachable l(1), of "Some (Some [])"] l e show ?thesis by auto
qed

text \<open>The row edits of the pool touch exactly the rows they name, \<^verbatim>\<open>__main__\<close> naming the app login: the
  edited rows differ only in the field written, every other row and the order of the rows is
  unchanged; and the normalized priority of a row always lies between -100 and 100.\<close>

theorem row_edits_exact:
  "length (withPausedFlag rows i b) = length rows \<and> length (withPriority rows i n) = length rows
   \<and> length (withPausedIds rows ids) = length rows
   \<and> (\<forall>k < length rows.
        withPausedFlag rows i b ! k =
          (if ac_id (rows ! k) = i \<or> i = ''__main__'' \<and> ac_isMain (rows ! k) then (rows ! k)\<lparr>ac_paused := b\<rparr> else rows ! k)
        \<and> withPriority rows i n ! k =
          (if ac_id (rows ! k) = i \<or> i = ''__main__'' \<and> ac_isMain (rows ! k)
           then (rows ! k)\<lparr>ac_priority := Some (num_json n)\<rparr> else rows ! k)
        \<and> withPausedIds rows ids ! k =
          (if ac_id (rows ! k) \<in> set ids \<or> ''__main__'' \<in> set ids \<and> ac_isMain (rows ! k)
           then (rows ! k)\<lparr>ac_paused := True\<rparr> else rows ! k))
   \<and> - 100 \<le> normalizeAccountPriority raw \<and> normalizeAccountPriority raw \<le> 100"
proof -
  have "- 100 \<le> normalizeAccountPriority raw \<and> normalizeAccountPriority raw \<le> 100"
    by (auto simp: normalizeAccountPriority_def MIN_ACCOUNT_PRIORITY_def MAX_ACCOUNT_PRIORITY_def
        DEFAULT_ACCOUNT_PRIORITY_def le_floor_iff floor_le_iff split: option.split json.split jsnum.split)
  then show ?thesis
    by (auto simp: withPausedFlag_def withPriority_def withPausedIds_def patchRows_def selectsAccount_def MAIN_ACCOUNT_ID_def)
qed

theorem row_edits_exact_witness:
  "withPausedFlag [sample_row ''m'' True, sample_row ''a'' False] ''__main__'' True ! 0
     = (sample_row ''m'' True)\<lparr>ac_paused := True\<rparr>"
  using row_edits_exact [of "[sample_row ''m'' True, sample_row ''a'' False]" "''__main__''" True 0 "[]" None]
  by (simp add: sample_row_def)

end
