(* ===== verification/Js_Sorting.thy ===== *)
theory Js_Sorting
  imports Benes_Prelude "HOL-Library.Multiset"
begin

text \<open>
  The sort of the language as a permutation: what \<^const>\<open>sort_by\<close> of the prelude keeps of its input, counted with
  multiplicity, and the least sum a choice from a sorted list can have. Kept apart from the prelude because the
  theory of multisets is needed only where an allocation or a merged list is counted.
\<close>

lemma mset_insert_by: "mset (insert_by cmp x ys) = add_mset x (mset ys)"
  by (induction ys) auto

lemma mset_sort_by [simp]: "mset (sort_by cmp xs) = mset xs"
  by (induction xs) (auto simp: mset_insert_by)

lemma sorted_prefix_least:
  fixes xs :: "nat list"
  assumes "sorted xs" "mset ys \<subseteq># mset xs"
  shows "sum_list (take (length ys) xs) \<le> sum_list ys"
  using assms
proof (induction xs arbitrary: ys)
  case (Cons x xs)
  show ?case
  proof (cases ys)
    case (Cons y zs)
    obtain v vs where v: "mset ys = add_mset v (mset vs)" "x \<le> v" "mset vs \<subseteq># mset xs"
    proof (cases "x \<in> set ys")
      case True
      then have "mset ys = add_mset x (mset (remove1 x ys))" by simp
      moreover have "mset (remove1 x ys) \<subseteq># mset xs" using Cons.prems(2) True
        by (simp add: subset_eq_diff_conv)
      ultimately show thesis using that by blast
    next
      case False
      have "count (mset ys) a \<le> count (mset xs) a" for a
        using mset_subset_eq_count [OF Cons.prems(2), of a] False by (cases "a = x") (auto simp: count_eq_zero_iff [THEN iffD2])
      then have sub: "mset ys \<subseteq># mset xs" by (simp add: subseteq_mset_def)
      then have "y \<in> set xs" using mset_subset_eqD [OF sub, of y] \<open>ys = y # zs\<close> by simp
      then have "x \<le> y" using Cons.prems(1) by simp
      moreover have "mset zs \<subseteq># mset xs" using sub \<open>ys = y # zs\<close> by (simp add: subset_mset.order_trans [of "mset zs" "mset ys"])
      ultimately show thesis using that [of y zs] \<open>ys = y # zs\<close> by simp
    qed
    have "length ys = Suc (length vs)" using arg_cong [OF v(1), of size] by simp
    moreover have "sum_list ys = v + sum_list vs" using arg_cong [OF v(1), of sum_mset] by (simp add: sum_mset_sum_list)
    moreover have "sum_list (take (length vs) xs) \<le> sum_list vs" using Cons.IH Cons.prems(1) v(3) by simp
    ultimately show ?thesis using v(2) by simp
  qed simp
qed simp

end
