(* ===== verification/Combo_Workspace.thy ===== *)
theory Combo_Workspace
  imports Js_Sorting
begin

text \<open>
  \<^verbatim>\<open>gui/src/combo-workspace-data.ts\<close>, \<^verbatim>\<open>gui/src/lib/native-models.ts\<close>, the outcome of a write in
  \<^verbatim>\<open>gui/src/combo-workspace-mutations.ts\<close> and \<^verbatim>\<open>gui/src/components/combo-workspace-identity.ts\<close>: decoding the rows
  of \<^verbatim>\<open>/api/combos\<close> into drafts, the ordered rules a draft is checked against, the body a draft is
  saved as, and the projections of the rail. The counter behind the list keys of targets is
  passed explicitly. \<^verbatim>\<open>localeCompare\<close> depends on the browser's locale and is a parameter. A field
  that may be missing is an \<^typ>\<open>'a option\<close>; lengths count the characters of ASCII text.
\<close>

section \<open>Data\<close>

datatype combo_strategy = Failover | RoundRobin | Unsupported
datatype combo_effort = Low | Medium | High | Xhigh | Max | Ultra
datatype image_input = Auto | Disabled

fun effort_text :: "combo_effort \<Rightarrow> string" where
  "effort_text Low = ''low''"
| "effort_text Medium = ''medium''"
| "effort_text High = ''high''"
| "effort_text Xhigh = ''xhigh''"
| "effort_text Max = ''max''"
| "effort_text Ultra = ''ultra''"

fun strategy_text :: "combo_strategy \<Rightarrow> string" where
  "strategy_text Failover = ''failover''"
| "strategy_text RoundRobin = ''round-robin''"
| "strategy_text Unsupported = ''unsupported''"

definition COMBO_EFFORTS :: "combo_effort list" where
  "COMBO_EFFORTS = [Low, Medium, High, Xhigh, Max, Ultra]"

definition COMBO_ID_PREFIX :: string where "COMBO_ID_PREFIX = ''combo/''"
definition COMBO_NAMESPACE :: string where "COMBO_NAMESPACE = ''combo''"

record combo_target =
  ct_provider :: string
  ct_model :: string
  ct_weight :: "jsnum option"
  ct_clientKey :: "string option"

record combo_item =
  ci_id :: string
  ci_model :: string
  ci_alias :: "string option"
  ci_nativeAlias :: bool
  ci_displayName :: "string option"
  ci_strategy :: combo_strategy
  ci_storedStrategy :: "string option"
  ci_stickyLimit :: "jsnum option"
  ci_defaultEffort :: "combo_effort option"
  ci_imageInput :: "image_input option"
  ci_targets :: "combo_target list"

record combo_sections =
  sec_failover :: "combo_item list"
  sec_roundRobin :: "combo_item list"
  sec_unsupported :: "combo_item list"

datatype attention_reason = FewTargets | EmptyTargets | CatalogOmitted

record attention_item =
  at_id :: string
  at_model :: string
  at_reason :: attention_reason

definition id_segment :: "string \<Rightarrow> bool" where
  "id_segment s \<longleftrightarrow>
     (case s of [] \<Rightarrow> False
      | c # t \<Rightarrow> is_alnum c \<and> length t \<le> 63
          \<and> list_all (\<lambda>x. is_alnum x \<or> x \<in> {CHR ''.'', CHR ''_'', CHR ''-''}) t)"

definition COMBO_ID_RE :: "string \<Rightarrow> bool" where
  "COMBO_ID_RE s \<longleftrightarrow> id_segment s"

definition COMBO_ALIAS_RE :: "string \<Rightarrow> bool" where
  "COMBO_ALIAS_RE s \<longleftrightarrow> (let segs = split_on CHR ''/'' s in length segs \<le> 2 \<and> list_all id_segment segs)"

definition NATIVE_OPENAI_FAMILY_RE :: "string \<Rightarrow> bool" where
  "NATIVE_OPENAI_FAMILY_RE s \<longleftrightarrow>
     list_ex (starts_with s) [''gpt-'', ''o1-'', ''o3-'', ''o4-'', ''codex-'']"

definition NATIVE_DAYBREAK_BLUE_MODEL :: string where
  "NATIVE_DAYBREAK_BLUE_MODEL = ''gpt-daybreak-blue-latest''"

definition NATIVE_OPENAI_MODELS :: "string list" where
  "NATIVE_OPENAI_MODELS =
     [''gpt-5.5'', ''gpt-5.4'', ''gpt-5.4-mini'', ''gpt-5.3-codex-spark'', ''gpt-5.6-sol'', ''gpt-5.6-terra'',
      ''gpt-5.6-luna'', NATIVE_DAYBREAK_BLUE_MODEL]"

definition SUPPORTED_NATIVE_OPENAI_SLUGS :: "string set" where
  "SUPPORTED_NATIVE_OPENAI_SLUGS = set NATIVE_OPENAI_MODELS"

section \<open>Identity\<close>

definition nextComboTargetKey :: "nat \<Rightarrow> string \<times> nat" where
  "nextComboTargetKey k = (''ct-'' @ show_nat (Suc k), Suc k)"

definition newComboTarget ::
  "string option \<Rightarrow> string option \<Rightarrow> jsnum option \<Rightarrow> string option \<Rightarrow> nat \<Rightarrow> combo_target \<times> nat" where
  "newComboTarget provider model weight clientKey k =
     (let (key, k') = (case clientKey of Some c \<Rightarrow> (c, k) | None \<Rightarrow> nextComboTargetKey k)
      in (\<lparr>ct_provider = case_option [] id provider, ct_model = case_option [] id model,
           ct_weight = weight, ct_clientKey = Some key\<rparr>, k'))"

definition trimmedOrEmpty :: "string option \<Rightarrow> string" where
  "trimmedOrEmpty v = (case v of Some s \<Rightarrow> trim s | None \<Rightarrow> [])"

definition comboModelId :: "string \<Rightarrow> string" where
  "comboModelId i = COMBO_ID_PREFIX @ trim i"

definition comboClientModelId :: "string \<Rightarrow> string option \<Rightarrow> bool \<Rightarrow> string" where
  "comboClientModelId i alias nativeAlias =
     (let nickname = trimmedOrEmpty alias
      in if nativeAlias \<and> nickname \<noteq> [] then nickname else comboModelId i)"

definition comboPublicModelId :: "string \<Rightarrow> string option \<Rightarrow> string" where
  "comboPublicModelId i alias =
     (let nickname = trimmedOrEmpty alias in if nickname \<noteq> [] then nickname else comboModelId i)"

definition comboDisplayTitle :: "combo_item \<Rightarrow> string" where
  "comboDisplayTitle item = comboPublicModelId (ci_id item) (ci_alias item)"

definition comboDisplaySecondaryIdentity :: "combo_item \<Rightarrow> string option" where
  "comboDisplaySecondaryIdentity item =
     (let title = comboDisplayTitle item;
          client = comboClientModelId (ci_id item) (ci_alias item) (ci_nativeAlias item)
      in if client = title then None else Some client)"

definition leavesNativeAliasFamily :: "combo_item \<Rightarrow> string \<Rightarrow> bool" where
  "leavesNativeAliasFamily item rawAlias =
     (if \<not> ci_nativeAlias item then False
      else let nickname = trim rawAlias
           in if nickname = [] \<or> str_includes nickname ''/'' then True
              else \<not> NATIVE_OPENAI_FAMILY_RE nickname)"

definition updateComboAliasDraft :: "combo_item \<Rightarrow> string \<Rightarrow> combo_item" where
  "updateComboAliasDraft item rawAlias =
     (let edited = item\<lparr>ci_alias := (if trim rawAlias \<noteq> [] then Some rawAlias else None),
                        ci_model := comboPublicModelId (ci_id item) (Some rawAlias)\<rparr>
      in if \<not> leavesNativeAliasFamily item rawAlias then edited
         else edited\<lparr>ci_nativeAlias := False, ci_displayName := None\<rparr>)"

section \<open>Reading rows\<close>

definition normalizeStrategy :: "json option \<Rightarrow> combo_strategy" where
  "normalizeStrategy raw =
     (if raw = Some (JStr ''unsupported'') then Unsupported
      else case raw of
        Some (JStr s) \<Rightarrow>
          (let label = trim s
           in if label = ''round-robin'' then RoundRobin
              else if label = [] \<or> label = ''failover'' then Failover else Unsupported)
      | _ \<Rightarrow> Failover)"

definition json_text :: "json option \<Rightarrow> string option" where
  "json_text v = (case v of Some (JStr s) \<Rightarrow> Some s | _ \<Rightarrow> None)"

definition normalizeStoredStrategy :: "json option \<Rightarrow> combo_strategy \<Rightarrow> string option" where
  "normalizeStoredStrategy raw kind =
     (if kind \<noteq> Unsupported then None
      else let wire = trimmedOrEmpty (json_text raw) in if wire \<noteq> [] then Some wire else None)"

definition wireComboStrategy :: "combo_item \<Rightarrow> string" where
  "wireComboStrategy item =
     (if ci_strategy item \<noteq> Unsupported then strategy_text (ci_strategy item)
      else case ci_storedStrategy item of
             Some s \<Rightarrow> if trim s \<noteq> [] then trim s else ''failover''
           | None \<Rightarrow> ''failover'')"

definition boundedInteger :: "json option \<Rightarrow> int \<Rightarrow> int \<Rightarrow> jsnum option" where
  "boundedInteger v minimum maximum =
     (case v of
        Some (JNum (Fin q)) \<Rightarrow>
          if \<not> num_is_integer (Fin q) then None
          else if of_int minimum \<le> q \<and> q \<le> of_int maximum then Some (Fin q) else None
      | _ \<Rightarrow> None)"

definition normalizeStickyLimit :: "json option \<Rightarrow> jsnum option" where
  "normalizeStickyLimit raw = boundedInteger raw 1 100"

definition normalizeWeight :: "json option \<Rightarrow> jsnum option" where
  "normalizeWeight raw = boundedInteger raw 1 10000"

definition normalizeDefaultEffort :: "json option \<Rightarrow> combo_effort option" where
  "normalizeDefaultEffort raw = List.find (\<lambda>e. Some (JStr (effort_text e)) = raw) COMBO_EFFORTS"

definition wireRecord :: "json option \<Rightarrow> json option" where
  "wireRecord v = (case v of Some (JObj ps) \<Rightarrow> Some (JObj ps) | _ \<Rightarrow> None)"

definition wireText :: "json option \<Rightarrow> string" where
  "wireText v = (case v of Some (JStr s) \<Rightarrow> trim s | _ \<Rightarrow> [])"

definition optionalWireText :: "json option \<Rightarrow> string option" where
  "optionalWireText v = (let t = wireText v in if t \<noteq> [] then Some t else None)"

definition imageInputFromWire :: "json option \<Rightarrow> image_input" where
  "imageInputFromWire v = (if v = Some (JStr ''disabled'') then Disabled else Auto)"

definition targetFromWire :: "json \<Rightarrow> nat \<Rightarrow> combo_target option \<times> nat" where
  "targetFromWire v k =
     (case wireRecord (Some v) of
        None \<Rightarrow> (None, k)
      | Some row \<Rightarrow>
          let provider = wireText (prop_of row ''provider''); model = wireText (prop_of row ''model'')
          in if provider = [] \<or> model = [] then (None, k)
             else let (target, k') = newComboTarget (Some provider) (Some model) None None k
                  in (Some (case normalizeWeight (prop_of row ''weight'') of
                              Some w \<Rightarrow> target\<lparr>ct_weight := Some w\<rparr>
                            | None \<Rightarrow> target), k'))"

fun targets_loop :: "json list \<Rightarrow> nat \<Rightarrow> combo_target list \<times> nat" where
  "targets_loop [] k = ([], k)"
| "targets_loop (v # vs) k =
     (let (t, k1) = targetFromWire v k; (ts, k2) = targets_loop vs k1
      in (case t of Some x \<Rightarrow> x # ts | None \<Rightarrow> ts, k2))"

definition targetsFromWire :: "json option \<Rightarrow> nat \<Rightarrow> combo_target list \<times> nat" where
  "targetsFromWire v k = (case v of Some (JArr vs) \<Rightarrow> targets_loop vs k | _ \<Rightarrow> ([], k))"

definition comboFromWire :: "json \<Rightarrow> nat \<Rightarrow> combo_item option \<times> nat" where
  "comboFromWire v k =
     (case wireRecord (Some v) of
        None \<Rightarrow> (None, k)
      | Some row \<Rightarrow>
          let i = wireText (prop_of row ''id'')
          in if i = [] then (None, k)
             else
               let alias = optionalWireText (prop_of row ''alias'');
                   explicitModel = wireText (prop_of row ''model'');
                   strategy = normalizeStrategy (prop_of row ''strategy'');
                   (targets, k') = targetsFromWire (prop_of row ''targets'') k
               in (Some \<lparr>ci_id = i,
                         ci_model = (if explicitModel \<noteq> [] then explicitModel else comboPublicModelId i alias),
                         ci_alias = alias,
                         ci_nativeAlias = (prop_of row ''nativeAlias'' = Some (JBool True)),
                         ci_displayName = optionalWireText (prop_of row ''displayName''),
                         ci_strategy = strategy,
                         ci_storedStrategy = normalizeStoredStrategy (prop_of row ''strategy'') strategy,
                         ci_stickyLimit = normalizeStickyLimit (prop_of row ''stickyLimit''),
                         ci_defaultEffort = normalizeDefaultEffort (prop_of row ''defaultEffort''),
                         ci_imageInput = Some (imageInputFromWire (prop_of row ''imageInput'')),
                         ci_targets = targets\<rparr>, k'))"

definition compareComboIds :: "(string \<Rightarrow> string \<Rightarrow> int) \<Rightarrow> combo_item \<Rightarrow> combo_item \<Rightarrow> int" where
  "compareComboIds localeCompare left right = localeCompare (ci_id left) (ci_id right)"

fun combos_loop :: "json list \<Rightarrow> nat \<Rightarrow> combo_item list \<times> nat" where
  "combos_loop [] k = ([], k)"
| "combos_loop (v # vs) k =
     (let (c, k1) = comboFromWire v k; (cs, k2) = combos_loop vs k1
      in (case c of Some x \<Rightarrow> x # cs | None \<Rightarrow> cs, k2))"

definition parseComboList ::
  "(string \<Rightarrow> string \<Rightarrow> int) \<Rightarrow> json option \<Rightarrow> nat \<Rightarrow> combo_item list \<times> nat" where
  "parseComboList localeCompare payload k =
     (case wireRecord payload of
        None \<Rightarrow> ([], k)
      | Some r \<Rightarrow>
          (case prop_of r ''combos'' of
             Some (JArr rows) \<Rightarrow>
               let (items, k') = combos_loop rows k in (sort_by (compareComboIds localeCompare) items, k')
           | _ \<Rightarrow> ([], k)))"

section \<open>Projections\<close>

definition push_section :: "combo_sections \<Rightarrow> combo_item \<Rightarrow> combo_sections" where
  "push_section s item =
     (case ci_strategy item of
        Failover \<Rightarrow> s\<lparr>sec_failover := sec_failover s @ [item]\<rparr>
      | RoundRobin \<Rightarrow> s\<lparr>sec_roundRobin := sec_roundRobin s @ [item]\<rparr>
      | Unsupported \<Rightarrow> s\<lparr>sec_unsupported := sec_unsupported s @ [item]\<rparr>)"

definition groupCombos :: "combo_item list \<Rightarrow> combo_sections" where
  "groupCombos items =
     foldl push_section \<lparr>sec_failover = [], sec_roundRobin = [], sec_unsupported = []\<rparr> items"

fun num_positive :: "jsnum \<Rightarrow> bool" where
  "num_positive (Fin q) = (0 < q)"
| "num_positive PosInf = True"
| "num_positive _ = False"

definition isWeightedTarget :: "combo_target \<Rightarrow> bool" where
  "isWeightedTarget target = (case ct_weight target of Some w \<Rightarrow> num_positive w | None \<Rightarrow> False)"

definition comboHasLegacyConfig :: "combo_item \<Rightarrow> bool" where
  "comboHasLegacyConfig item =
     (if ci_strategy item \<noteq> Failover then True
      else if ci_stickyLimit item \<noteq> None then True
      else if ci_defaultEffort item \<noteq> None then True
      else if ci_imageInput item = Some Disabled then True
      else list_ex isWeightedTarget (ci_targets item))"

definition identity_fields :: "combo_item \<Rightarrow> string list" where
  "identity_fields item =
     [ci_id item, ci_model item, case_option [] id (ci_alias item), comboDisplayTitle item,
      comboClientModelId (ci_id item) (ci_alias item) (ci_nativeAlias item)]"

definition comboIdentityHaystack :: "combo_item \<Rightarrow> string" where
  "comboIdentityHaystack item = to_lower (join_with [CHR 0x00] (identity_fields item))"

definition filterCombos :: "combo_item list \<Rightarrow> string \<Rightarrow> combo_item list" where
  "filterCombos items query =
     (let needle = to_lower (trim query)
      in if needle = [] then items
         else filter (\<lambda>item. str_includes (comboIdentityHaystack item) needle) items)"

definition attentionReason :: "combo_item \<Rightarrow> string set option \<Rightarrow> attention_reason option" where
  "attentionReason combo catalogued =
     (if ci_targets combo = [] then Some EmptyTargets
      else case catalogued of
             None \<Rightarrow> None
           | Some ids \<Rightarrow> if ci_id combo \<in> ids then None else Some CatalogOmitted)"

fun buildComboAttention :: "combo_item list \<Rightarrow> string set option \<Rightarrow> attention_item list" where
  "buildComboAttention [] scope = []"
| "buildComboAttention (combo # rest) scope =
     (case attentionReason combo scope of
        None \<Rightarrow> buildComboAttention rest scope
      | Some r \<Rightarrow> \<lparr>at_id = ci_id combo, at_model = ci_model combo, at_reason = r\<rparr>
                  # buildComboAttention rest scope)"

definition sameTarget :: "combo_target \<Rightarrow> combo_target \<Rightarrow> bool" where
  "sameTarget left right \<longleftrightarrow>
     ct_provider left = ct_provider right \<and> ct_model left = ct_model right
     \<and> ct_weight left = ct_weight right"

definition sameTargets :: "combo_target list \<Rightarrow> combo_target list \<Rightarrow> bool" where
  "sameTargets left right \<longleftrightarrow>
     length left = length right \<and> list_all (\<lambda>(l, r). sameTarget l r) (zip left right)"

definition sameIdentity :: "combo_item \<Rightarrow> combo_item \<Rightarrow> bool" where
  "sameIdentity left right \<longleftrightarrow>
     ci_id left = ci_id right \<and> ci_alias left = ci_alias right
     \<and> ci_nativeAlias left = ci_nativeAlias right \<and> ci_displayName left = ci_displayName right
     \<and> ci_strategy left = ci_strategy right \<and> ci_storedStrategy left = ci_storedStrategy right
     \<and> ci_stickyLimit left = ci_stickyLimit right \<and> ci_defaultEffort left = ci_defaultEffort right
     \<and> case_option Auto id (ci_imageInput left) = case_option Auto id (ci_imageInput right)"

definition draftEquals :: "combo_item \<Rightarrow> combo_item \<Rightarrow> bool" where
  "draftEquals left right \<longleftrightarrow> sameIdentity left right \<and> sameTargets (ci_targets left) (ci_targets right)"

section \<open>Writing drafts\<close>

record wire_target =
  wt_provider :: string
  wt_model :: string
  wt_weight :: "jsnum option"

record combo_wire_body =
  wb_targets :: "wire_target list"
  wb_strategy :: string
  wb_stickyLimit :: "jsnum option"
  wb_defaultEffort :: "combo_effort option"
  wb_imageInput :: "image_input option"
  wb_alias :: "string option"
  wb_nativeAlias :: "bool option"
  wb_displayName :: "string option"

record combo_put_body =
  pb_id :: string
  pb_renameFrom :: "string option"
  pb_combo :: combo_wire_body

definition wireTarget :: "combo_target \<Rightarrow> wire_target" where
  "wireTarget target =
     \<lparr>wt_provider = trim (ct_provider target), wt_model = trim (ct_model target), wt_weight = ct_weight target\<rparr>"

definition wireCombo :: "combo_item \<Rightarrow> combo_wire_body" where
  "wireCombo item =
     (let alias = trimmedOrEmpty (ci_alias item); displayName = trimmedOrEmpty (ci_displayName item)
      in \<lparr>wb_targets = map wireTarget (ci_targets item), wb_strategy = wireComboStrategy item,
          wb_stickyLimit = ci_stickyLimit item, wb_defaultEffort = ci_defaultEffort item,
          wb_imageInput = (if ci_imageInput item = Some Disabled then Some Disabled else None),
          wb_alias = (if alias \<noteq> [] then Some alias else None),
          wb_nativeAlias = (if ci_nativeAlias item then Some True else None),
          wb_displayName = (if displayName \<noteq> [] then Some displayName else None)\<rparr>)"

definition toPutBody :: "combo_item \<Rightarrow> string option \<Rightarrow> combo_put_body" where
  "toPutBody item renameFrom =
     \<lparr>pb_id = trim (ci_id item),
      pb_renameFrom = (case renameFrom of Some r \<Rightarrow> if r \<noteq> [] then Some r else None | None \<Rightarrow> None),
      pb_combo = wireCombo item\<rparr>"

datatype combo_mutation = MutationOk | MutationFailed "string option"

definition json_truthy_text :: "json option \<Rightarrow> string option" where
  "json_truthy_text v = (case v of Some (JStr s) \<Rightarrow> if trim s \<noteq> [] then Some s else None | _ \<Rightarrow> None)"

definition comboMutationSucceeded :: "json option \<Rightarrow> combo_mutation" where
  "comboMutationSucceeded data =
     (case wireRecord data of
        None \<Rightarrow> MutationFailed None
      | Some r \<Rightarrow>
          (case json_truthy_text (prop_of r ''error'') of
             Some e \<Rightarrow> MutationFailed (Some e)
           | None \<Rightarrow> if prop_of r ''success'' = Some (JBool True) then MutationOk else MutationFailed None))"

text \<open>
  The answer of \<^verbatim>\<open>fetch\<close>: it rejects, or it answers with a status and a body that may fail to
  parse. A non-ok answer with an unreadable body reads as \<^verbatim>\<open>null\<close>; an ok one raises.
\<close>

datatype fetch_result = FetchRejected | Response bool "json option"

fun readComboWrite :: "bool \<Rightarrow> json option \<Rightarrow> (unit, json) result" where
  "readComboWrite True (Some v) = Inr v"
| "readComboWrite True None = Inl ()"
| "readComboWrite False b = Inr (case b of Some v \<Rightarrow> v | None \<Rightarrow> JNull)"

fun runComboWrite :: "fetch_result \<Rightarrow> string \<Rightarrow> (string, unit) result" where
  "runComboWrite FetchRejected failureText = Inl failureText"
| "runComboWrite (Response ok body) failureText =
     (case readComboWrite ok body of
        Inl _ \<Rightarrow> Inl failureText
      | Inr v \<Rightarrow>
          (case comboMutationSucceeded (Some v) of
             MutationOk \<Rightarrow> if ok then Inr () else Inl failureText
           | MutationFailed (Some e) \<Rightarrow> if e \<noteq> [] then Inl e else Inl failureText
           | MutationFailed None \<Rightarrow> Inl failureText))"

section \<open>Checking drafts\<close>

datatype combo_draft_error =
    MissingId | InvalidId | DuplicateId | ReservedNamespace | ProviderCollision
  | InvalidAlias | AliasReservedNamespace | AliasNativeFamily | UnsupportedNativeAlias
  | MissingNativeAliasDisplayName | InvalidDisplayName | DuplicateAlias
  | NoTargets | IncompleteTarget | UnknownProvider | DuplicateTarget
  | InvalidStickyLimit | InvalidWeight | NoEnabledTarget

record draft_options =
  do_existingIds :: "string list"
  do_existingAliases :: "string list option"
  do_isCreate :: bool
  do_providers :: "(string \<times> bool option) list"

abbreviation has_own :: "('k \<times> 'v) list \<Rightarrow> 'k \<Rightarrow> bool" where
  "has_own ps k \<equiv> map_of ps k \<noteq> None"

definition requireAddressableId :: "combo_item \<Rightarrow> draft_options \<Rightarrow> combo_draft_error option" where
  "requireAddressableId item options =
     (let i = trim (ci_id item)
      in if i = [] then Some MissingId
         else if \<not> COMBO_ID_RE i then Some InvalidId
         else if i \<in> set (do_existingIds options) then Some DuplicateId
         else if has_own (do_providers options) COMBO_NAMESPACE then Some ReservedNamespace
         else if has_own (do_providers options) i then Some ProviderCollision
         else None)"

definition requireUsableAlias :: "combo_item \<Rightarrow> draft_options \<Rightarrow> combo_draft_error option" where
  "requireUsableAlias item options =
     (let nickname = trimmedOrEmpty (ci_alias item)
      in if nickname = [] then None
         else if \<not> COMBO_ALIAS_RE nickname then Some InvalidAlias
         else if nickname = COMBO_NAMESPACE \<or> starts_with nickname (COMBO_NAMESPACE @ ''/'')
           then Some AliasReservedNamespace
         else let bareNativeSlug = (\<not> str_includes nickname ''/'' \<and> NATIVE_OPENAI_FAMILY_RE nickname)
              in if bareNativeSlug \<and> \<not> ci_nativeAlias item then Some AliasNativeFamily
                 else if nickname \<in> set (case_option [] id (do_existingAliases options)) then Some DuplicateAlias
                 else None)"

definition hasControlCharacter :: "string \<Rightarrow> bool" where
  "hasControlCharacter s \<longleftrightarrow> list_ex (\<lambda>c. of_char c < (32 :: nat) \<or> of_char c = (127 :: nat)) s"

definition requireSaneDisplayName :: "combo_item \<Rightarrow> draft_options \<Rightarrow> combo_draft_error option" where
  "requireSaneDisplayName item options =
     (if (case ci_displayName item of
            Some l \<Rightarrow> length (trim l) > 128 \<or> hasControlCharacter l
          | None \<Rightarrow> False) then Some InvalidDisplayName
      else if \<not> ci_nativeAlias item then None
      else if trimmedOrEmpty (ci_alias item) \<notin> SUPPORTED_NATIVE_OPENAI_SLUGS then Some UnsupportedNativeAlias
      else if trimmedOrEmpty (ci_displayName item) = [] then Some MissingNativeAliasDisplayName
      else None)"

fun resolvable_loop :: "(string \<times> bool option) list \<Rightarrow> combo_target list \<Rightarrow> combo_draft_error option" where
  "resolvable_loop providers [] = None"
| "resolvable_loop providers (t # ts) =
     (let provider = trim (ct_provider t)
      in if provider = [] \<or> trim (ct_model t) = [] then Some IncompleteTarget
         else if \<not> has_own providers provider then Some UnknownProvider
         else resolvable_loop providers ts)"

definition requireResolvableTargets :: "combo_item \<Rightarrow> draft_options \<Rightarrow> combo_draft_error option" where
  "requireResolvableTargets item options =
     (if ci_targets item = [] then Some NoTargets
      else resolvable_loop (do_providers options) (ci_targets item))"

definition target_key :: "combo_target \<Rightarrow> string" where
  "target_key t = trim (ct_provider t) @ ''/'' @ trim (ct_model t)"

fun distinct_loop :: "string set \<Rightarrow> combo_target list \<Rightarrow> combo_draft_error option" where
  "distinct_loop seen [] = None"
| "distinct_loop seen (t # ts) =
     (if target_key t \<in> seen then Some DuplicateTarget
      else distinct_loop (insert (target_key t) seen) ts)"

definition requireDistinctTargets :: "combo_item \<Rightarrow> draft_options \<Rightarrow> combo_draft_error option" where
  "requireDistinctTargets item options = distinct_loop {} (ci_targets item)"

fun weights_loop :: "combo_target list \<Rightarrow> combo_draft_error option" where
  "weights_loop [] = None"
| "weights_loop (t # ts) =
     (case ct_weight t of
        None \<Rightarrow> weights_loop ts
      | Some w \<Rightarrow> if boundedInteger (Some (JNum w)) 1 10000 = None then Some InvalidWeight
                  else weights_loop ts)"

definition requireLegacyRanges :: "combo_item \<Rightarrow> draft_options \<Rightarrow> combo_draft_error option" where
  "requireLegacyRanges item options =
     (if ci_strategy item \<noteq> RoundRobin then None
      else if (case ci_stickyLimit item of
                 Some n \<Rightarrow> boundedInteger (Some (JNum n)) 1 100 = None
               | None \<Rightarrow> False) then Some InvalidStickyLimit
      else weights_loop (ci_targets item))"

fun enabled_loop :: "(string \<times> bool option) list \<Rightarrow> combo_target list \<Rightarrow> combo_draft_error option" where
  "enabled_loop providers [] = Some NoEnabledTarget"
| "enabled_loop providers (t # ts) =
     (if map_of providers (trim (ct_provider t)) \<noteq> Some (Some True) then None
      else enabled_loop providers ts)"

definition requireEnabledTarget :: "combo_item \<Rightarrow> draft_options \<Rightarrow> combo_draft_error option" where
  "requireEnabledTarget item options = enabled_loop (do_providers options) (ci_targets item)"

definition DRAFT_RULES :: "(combo_item \<Rightarrow> draft_options \<Rightarrow> combo_draft_error option) list" where
  "DRAFT_RULES =
     [requireAddressableId, requireUsableAlias, requireSaneDisplayName, requireResolvableTargets,
      requireDistinctTargets, requireLegacyRanges, requireEnabledTarget]"

fun first_error ::
  "(combo_item \<Rightarrow> draft_options \<Rightarrow> combo_draft_error option) list \<Rightarrow> combo_item \<Rightarrow> draft_options
   \<Rightarrow> combo_draft_error option" where
  "first_error [] item options = None"
| "first_error (rule # rules) item options =
     (case rule item options of Some e \<Rightarrow> Some e | None \<Rightarrow> first_error rules item options)"

definition validateComboDraft :: "combo_item \<Rightarrow> draft_options \<Rightarrow> combo_draft_error option" where
  "validateComboDraft item options = first_error DRAFT_RULES item options"

definition emptyDraft :: "string \<Rightarrow> nat \<Rightarrow> combo_item \<times> nat" where
  "emptyDraft i k =
     (let (target, k') = newComboTarget None None None None k
      in (\<lparr>ci_id = i, ci_model = (if i \<noteq> [] then comboModelId i else COMBO_ID_PREFIX), ci_alias = None,
           ci_nativeAlias = False, ci_displayName = None, ci_strategy = Failover, ci_storedStrategy = None,
           ci_stickyLimit = None, ci_defaultEffort = None, ci_imageInput = Some Auto,
           ci_targets = [target]\<rparr>, k'))"

text \<open>Ids and aliases a draft may not reuse: those of every combo but the one being edited.\<close>

fun otherComboIdentity :: "combo_item list \<Rightarrow> string \<Rightarrow> string list \<times> string list" where
  "otherComboIdentity [] baselineId = ([], [])"
| "otherComboIdentity (combo # rest) baselineId =
     (let (ids, aliases) = otherComboIdentity rest baselineId
      in if ci_id combo = baselineId then (ids, aliases)
         else (ci_id combo # ids,
               case ci_alias combo of Some a \<Rightarrow> if a \<noteq> [] then a # aliases else aliases | None \<Rightarrow> aliases))"

definition followComboAfterSave :: "combo_item \<Rightarrow> string \<Rightarrow> string \<times> combo_item option" where
  "followComboAfterSave saved baselineId =
     (if ci_id saved \<noteq> baselineId then (ci_id saved, None) else (baselineId, Some saved))"

section \<open>Saving and listing\<close>

text \<open>
  The row of a listener that stored a saved body and lists it back: the JSON text of the body's
  fields, a field that the body does not hold being absent.
\<close>

definition opt_prop :: "string \<Rightarrow> ('a \<Rightarrow> json) \<Rightarrow> 'a option \<Rightarrow> (string \<times> json) list" where
  "opt_prop k f v = (case v of Some x \<Rightarrow> [(k, f x)] | None \<Rightarrow> [])"

definition target_json :: "wire_target \<Rightarrow> json" where
  "target_json t =
     JObj ([(''provider'', JStr (wt_provider t)), (''model'', JStr (wt_model t))] @ opt_prop ''weight'' JNum (wt_weight t))"

definition listed_row :: "combo_put_body \<Rightarrow> json" where
  "listed_row b =
     (let c = pb_combo b in
      JObj ([(''id'', JStr (pb_id b)), (''targets'', JArr (map target_json (wb_targets c))),
             (''strategy'', JStr (wb_strategy c)),
             (''defaultEffort'', case wb_defaultEffort c of Some e \<Rightarrow> JStr (effort_text e) | None \<Rightarrow> JNull)]
            @ opt_prop ''stickyLimit'' JNum (wb_stickyLimit c)
            @ opt_prop ''imageInput'' (\<lambda>_. JStr ''disabled'') (wb_imageInput c)
            @ opt_prop ''alias'' JStr (wb_alias c)
            @ opt_prop ''nativeAlias'' JBool (wb_nativeAlias c)
            @ opt_prop ''displayName'' JStr (wb_displayName c)))"

text \<open>What decoding promises of a draft: text is trimmed and present, numbers are in range.\<close>

definition clean_text :: "string \<Rightarrow> bool" where
  "clean_text s \<longleftrightarrow> s \<noteq> [] \<and> trim s = s"

definition int_in :: "int \<Rightarrow> int \<Rightarrow> jsnum \<Rightarrow> bool" where
  "int_in lo hi n \<longleftrightarrow> (\<exists>i. n = Fin (of_int i) \<and> lo \<le> i \<and> i \<le> hi)"

definition wf_target :: "combo_target \<Rightarrow> bool" where
  "wf_target t \<longleftrightarrow>
     clean_text (ct_provider t) \<and> clean_text (ct_model t) \<and> pred_option (int_in 1 10000) (ct_weight t)
     \<and> ct_clientKey t \<noteq> None"

definition wf_strategy :: "combo_strategy \<Rightarrow> string option \<Rightarrow> bool" where
  "wf_strategy kind stored \<longleftrightarrow>
     (case stored of
        None \<Rightarrow> kind \<noteq> Unsupported
      | Some s \<Rightarrow> kind = Unsupported \<and> clean_text s \<and> s \<noteq> ''failover'' \<and> s \<noteq> ''round-robin'')"

definition wf_combo :: "combo_item \<Rightarrow> bool" where
  "wf_combo c \<longleftrightarrow>
     clean_text (ci_id c) \<and> clean_text (ci_model c) \<and> pred_option clean_text (ci_alias c)
     \<and> pred_option clean_text (ci_displayName c) \<and> wf_strategy (ci_strategy c) (ci_storedStrategy c)
     \<and> pred_option (int_in 1 100) (ci_stickyLimit c) \<and> ci_imageInput c \<noteq> None
     \<and> list_all wf_target (ci_targets c)"

section \<open>Lemmas on decoding\<close>

lemma map_of_opt_prop:
  "map_of (opt_prop k f v @ ps) k' =
     (if k = k' then (case v of Some x \<Rightarrow> Some (f x) | None \<Rightarrow> map_of ps k') else map_of ps k')"
  "map_of (opt_prop k f v) k' = (if k = k' then map_option f v else None)"
  by (auto simp: opt_prop_def split: option.split)

lemma boundedInteger_some: "boundedInteger v lo hi = Some n \<Longrightarrow> int_in lo hi n \<and> v = Some (JNum n)"
  unfolding boundedInteger_def int_in_def
  by (auto split: option.splits json.splits jsnum.splits if_splits)

lemma boundedInteger_range: "pred_option (int_in lo hi) (boundedInteger v lo hi)"
  using boundedInteger_some [of v lo hi] by (cases "boundedInteger v lo hi") auto

lemma boundedInteger_in: "int_in lo hi n \<Longrightarrow> boundedInteger (Some (JNum n)) lo hi = Some n"
  by (auto simp: boundedInteger_def int_in_def)

lemma boundedInteger_iff: "boundedInteger (Some (JNum n)) lo hi = None \<longleftrightarrow> \<not> int_in lo hi n"
  using boundedInteger_some [of "Some (JNum n)" lo hi] boundedInteger_in [of lo hi n]
  by (cases "boundedInteger (Some (JNum n)) lo hi") auto

lemma clean_wireText: "wireText v \<noteq> [] \<Longrightarrow> clean_text (wireText v)"
  by (auto simp: wireText_def clean_text_def split: option.splits json.splits)

lemma clean_optionalWireText: "pred_option clean_text (optionalWireText v)"
  using clean_wireText [of v] by (simp add: optionalWireText_def Let_def)

lemma wireText_clean [simp]: "clean_text s \<Longrightarrow> wireText (Some (JStr s)) = s"
  by (simp add: wireText_def clean_text_def)

lemma trimmed_clean [simp]: "clean_text s \<Longrightarrow> trimmedOrEmpty (Some s) = s" "trimmedOrEmpty None = []"
  by (simp_all add: trimmedOrEmpty_def clean_text_def)

lemma optionalWireText_back:
  "pred_option clean_text v \<Longrightarrow>
   optionalWireText (map_option JStr (if trimmedOrEmpty v \<noteq> [] then Some (trimmedOrEmpty v) else None)) = v"
  by (cases v) (auto simp: optionalWireText_def wireText_def clean_text_def trimmedOrEmpty_def)

lemma trim_words:
  "trim ''failover'' = ''failover''" "trim ''round-robin'' = ''round-robin''" "trim ''unsupported'' = ''unsupported''"
  by (rule trim_no_blank, auto simp: is_blank_def blanks_def)+

lemma wf_strategy_decode: "wf_strategy (normalizeStrategy raw) (normalizeStoredStrategy raw (normalizeStrategy raw))"
proof (cases raw)
  case (Some v)
  then show ?thesis
    by (cases v)
       (auto simp: wf_strategy_def normalizeStrategy_def normalizeStoredStrategy_def Let_def
          json_text_def trimmedOrEmpty_def clean_text_def trim_words)
qed (simp add: wf_strategy_def normalizeStrategy_def normalizeStoredStrategy_def)

lemma strategy_back:
  assumes "wf_strategy (ci_strategy c) (ci_storedStrategy c)"
  shows "normalizeStrategy (Some (JStr (wireComboStrategy c))) = ci_strategy c"
    and "normalizeStoredStrategy (Some (JStr (wireComboStrategy c))) (ci_strategy c) = ci_storedStrategy c"
  using assms
  by (cases "ci_strategy c"; cases "ci_storedStrategy c";
      simp add: wf_strategy_def wireComboStrategy_def normalizeStrategy_def normalizeStoredStrategy_def
        json_text_def trim_words clean_text_def trimmedOrEmpty_def Let_def)+

lemma effort_back:
  "normalizeDefaultEffort (Some (case e of Some x \<Rightarrow> JStr (effort_text x) | None \<Rightarrow> JNull)) = e"
proof (cases e)
  case (Some x)
  then show ?thesis by (cases x) (simp_all add: normalizeDefaultEffort_def COMBO_EFFORTS_def)
qed (simp add: normalizeDefaultEffort_def COMBO_EFFORTS_def)

lemma targetFromWire_cases:
  obtains "targetFromWire v k = (None, k)"
  | t where "targetFromWire v k = (Some t, Suc k)" "wf_target t"
      "ct_clientKey t = Some (''ct-'' @ show_nat (Suc k))"
proof (cases "targetFromWire v k = (None, k)")
  case False
  then obtain row where r: "wireRecord (Some v) = Some row"
    and p: "wireText (prop_of row ''provider'') \<noteq> []" and m: "wireText (prop_of row ''model'') \<noteq> []"
    by (auto simp: targetFromWire_def Let_def split: option.splits if_splits)
  define w where "w = normalizeWeight (prop_of row ''weight'')"
  have w: "pred_option (int_in 1 10000) w"
    unfolding w_def normalizeWeight_def by (rule boundedInteger_range)
  have "targetFromWire v k =
      (Some \<lparr>ct_provider = wireText (prop_of row ''provider''), ct_model = wireText (prop_of row ''model''),
             ct_weight = w, ct_clientKey = Some (''ct-'' @ show_nat (Suc k))\<rparr>, Suc k)"
    using r p m by (simp add: targetFromWire_def newComboTarget_def nextComboTargetKey_def w_def [symmetric] Let_def
        split: option.split)
  with w clean_wireText [OF p] clean_wireText [OF m] that(2) show thesis by (simp add: wf_target_def)
qed

lemma targets_loop_keys:
  "targets_loop vs k = (ts, k') \<Longrightarrow>
   k \<le> k' \<and> list_all wf_target ts
   \<and> map ct_clientKey ts = map (\<lambda>n. Some (''ct-'' @ show_nat (Suc n))) [k..<k']"
proof (induction vs arbitrary: k ts)
  case (Cons v vs)
  obtain us where us: "targets_loop vs (snd (targetFromWire v k)) = (us, k')"
    and ts: "ts = (case fst (targetFromWire v k) of Some x \<Rightarrow> x # us | None \<Rightarrow> us)"
    using Cons.prems by (auto simp: Let_def split: prod.splits)
  show ?case
  proof (cases rule: targetFromWire_cases [of v k])
    case 1
    with us ts Cons.IH [OF us] show ?thesis by simp
  next
    case (2 t)
    with us ts Cons.IH [OF us] show ?thesis by (simp add: upt_conv_Cons)
  qed
qed simp

lemma targetsFromWire_keys:
  "targetsFromWire v k = (ts, k') \<Longrightarrow>
   k \<le> k' \<and> list_all wf_target ts
   \<and> map ct_clientKey ts = map (\<lambda>n. Some (''ct-'' @ show_nat (Suc n))) [k..<k']"
  using targets_loop_keys
  by (auto simp: targetsFromWire_def split: option.splits json.splits)

lemma clean_last: "clean_text s \<Longrightarrow> \<not> is_blank (last s)"
proof -
  assume s: "clean_text s"
  then have "rev s = dropWhile is_blank (rev (trim_start s))"
    unfolding clean_text_def trim_def trim_end_def by (metis rev_rev_ident)
  with s have "\<not> is_blank (hd (rev s))"
    by (metis clean_text_def hd_dropWhile rev_is_Nil_conv)
  with s show ?thesis by (simp add: clean_text_def hd_rev)
qed

lemma clean_append:
  assumes "a \<noteq> []" "\<not> is_blank (hd a)" "clean_text s"
  shows "clean_text (a @ s)"
proof -
  have ne: "s \<noteq> []" using assms(3) by (simp add: clean_text_def)
  have "trim_start (a @ s) = a @ s"
    unfolding trim_start_def using assms(1,2) by (intro dropWhile_id) (cases a, auto)
  moreover have "trim_end (a @ s) = a @ s"
  proof -
    have "dropWhile is_blank (rev (a @ s)) = rev (a @ s)"
      using clean_last [OF assms(3)] ne by (intro dropWhile_id) (simp add: hd_append hd_rev)
    then show ?thesis by (simp add: trim_end_def)
  qed
  ultimately show ?thesis using ne by (simp add: clean_text_def trim_def)
qed

lemma clean_public_id:
  "pred_option clean_text a \<Longrightarrow> clean_text i \<Longrightarrow> clean_text (comboPublicModelId i a)"
  using clean_append [of COMBO_ID_PREFIX i]
  by (cases a) (auto simp: comboPublicModelId_def comboModelId_def clean_text_def COMBO_ID_PREFIX_def
      is_blank_def blanks_def Let_def trimmedOrEmpty_def)

lemma comboFromWire_cases:
  obtains "comboFromWire v k = (None, k)"
  | c k' where "comboFromWire v k = (Some c, k')" "wf_combo c" "k \<le> k'"
      "map ct_clientKey (ci_targets c) = map (\<lambda>n. Some (''ct-'' @ show_nat (Suc n))) [k..<k']"
proof (cases "comboFromWire v k = (None, k)")
  case False
  then obtain row where r: "wireRecord (Some v) = Some row" and i: "wireText (prop_of row ''id'') \<noteq> []"
    by (auto simp: comboFromWire_def Let_def split: option.splits if_splits)
  obtain ts k' where ts: "targetsFromWire (prop_of row ''targets'') k = (ts, k')" by fastforce
  obtain c where c: "comboFromWire v k = (Some c, k')" "ci_targets c = ts"
      "ci_id c = wireText (prop_of row ''id'')" "ci_alias c = optionalWireText (prop_of row ''alias'')"
      "ci_model c = (if wireText (prop_of row ''model'') \<noteq> [] then wireText (prop_of row ''model'')
                     else comboPublicModelId (ci_id c) (ci_alias c))"
      "ci_displayName c = optionalWireText (prop_of row ''displayName'')"
      "ci_strategy c = normalizeStrategy (prop_of row ''strategy'')"
      "ci_storedStrategy c = normalizeStoredStrategy (prop_of row ''strategy'') (ci_strategy c)"
      "ci_stickyLimit c = boundedInteger (prop_of row ''stickyLimit'') 1 100" "ci_imageInput c \<noteq> None"
    using r i ts by (simp add: comboFromWire_def Let_def normalizeStickyLimit_def)
  have "pred_option (int_in 1 100) (ci_stickyLimit c)"
    unfolding c(9) by (rule boundedInteger_range)
  then have "wf_combo c"
    using c(3-8) c(10) i wf_strategy_decode targetsFromWire_keys [OF ts] c(2)
    by (auto simp: wf_combo_def clean_wireText clean_optionalWireText clean_public_id)
  with c(1,2) targetsFromWire_keys [OF ts] that(2) show thesis by simp
qed

lemma combos_loop_keys:
  "combos_loop vs k = (cs, k') \<Longrightarrow>
   k \<le> k' \<and> list_all wf_combo cs
   \<and> concat (map (map ct_clientKey \<circ> ci_targets) cs) = map (\<lambda>n. Some (''ct-'' @ show_nat (Suc n))) [k..<k']"
proof (induction vs arbitrary: k cs)
  case (Cons v vs)
  obtain ds where ds: "combos_loop vs (snd (comboFromWire v k)) = (ds, k')"
    and cs: "cs = (case fst (comboFromWire v k) of Some x \<Rightarrow> x # ds | None \<Rightarrow> ds)"
    using Cons.prems by (auto simp: Let_def split: prod.splits)
  show ?case
  proof (cases rule: comboFromWire_cases [of v k])
    case 1
    with ds cs Cons.IH [OF ds] show ?thesis by simp
  next
    case (2 c m)
    with ds cs Cons.IH [OF ds] show ?thesis
      using upt_add_eq_append [of k m "k' - m"] by simp
  qed
qed simp

lemma mset_concat_cong:
  assumes "mset xs = mset ys"
  shows "mset (concat (map f xs)) = mset (concat (map f ys))"
proof -
  have "mset (concat (map f zs)) = sum_mset (image_mset (\<lambda>z. mset (f z)) (mset zs))" for zs
    by (induction zs) auto
  with assms show ?thesis by simp
qed

lemma client_keys_distinct: "distinct (map (\<lambda>n. Some (''ct-'' @ show_nat (Suc n))) [k..<k'])"
  by (simp add: distinct_map inj_on_def) (metis Suc_inject show_nat_inj)

lemma comparator_ids: "comparator localeCompare (\<lambda>_. True) \<Longrightarrow> comparator (compareComboIds localeCompare) (\<lambda>_. True)"
  by (auto simp: comparator_def compareComboIds_def)

lemma push_sections:
  "foldl push_section s items =
     \<lparr>sec_failover = sec_failover s @ filter (\<lambda>c. ci_strategy c = Failover) items,
      sec_roundRobin = sec_roundRobin s @ filter (\<lambda>c. ci_strategy c = RoundRobin) items,
      sec_unsupported = sec_unsupported s @ filter (\<lambda>c. ci_strategy c = Unsupported) items\<rparr>"
  by (induction items arbitrary: s) (auto simp: push_section_def split: combo_strategy.split)

text \<open>C13: whatever the listener sends, the decoded list is fit for the rail: every combo has a trimmed
  id, every target a provider and a model, every weight and sticky limit is absent or an integer
  in range, an unsupported strategy keeps its stored name; the list is sorted by the browser's
  collation of ids; and the list keys of all targets are pairwise different and never handed out
  before.
\<close>

theorem combo_list_wf:
  assumes "comparator localeCompare (\<lambda>_. True)" "parseComboList localeCompare payload k = (items, k')"
  shows "list_all wf_combo items
    \<and> sorted_wrt (\<lambda>a b. localeCompare (ci_id a) (ci_id b) \<le> 0) items
    \<and> distinct (concat (map (map ct_clientKey \<circ> ci_targets) items))
    \<and> set (concat (map (map ct_clientKey \<circ> ci_targets) items))
           = (\<lambda>n. Some (''ct-'' @ show_nat (Suc n))) ` {k..<k'} \<and> k \<le> k'"
proof -
  consider "items = []" "k' = k"
    | rows cs where "combos_loop rows k = (cs, k')" "items = sort_by (compareComboIds localeCompare) cs"
    using assms(2) by (auto simp: parseComboList_def Let_def split: option.splits json.splits prod.splits)
  then show ?thesis
  proof cases
    case 2
    note keys = combos_loop_keys [OF 2(1)]
    have ms: "mset (concat (map (map ct_clientKey \<circ> ci_targets) items))
        = mset (concat (map (map ct_clientKey \<circ> ci_targets) cs))"
      by (rule mset_concat_cong) (simp add: 2)
    have "sorted_wrt (\<lambda>a b. compareComboIds localeCompare a b \<le> 0) items"
      unfolding 2 by (rule comparator.sorted_sort_by [OF comparator_ids [OF assms(1)]]) (simp add: list_all_iff)
    moreover have "distinct (concat (map (map ct_clientKey \<circ> ci_targets) items))"
      using mset_eq_imp_distinct_iff [OF ms] keys client_keys_distinct by simp
    moreover have "list_all wf_combo items" using keys by (simp add: 2 list_all_iff)
    ultimately show ?thesis
      using mset_eq_setD [OF ms] keys by (simp add: compareComboIds_def)
  qed simp
qed

definition sample_collation :: "string \<Rightarrow> string \<Rightarrow> int" where
  "sample_collation a b = (if to_lower a < to_lower b then - 1 else if to_lower a = to_lower b then 0 else 1)"

definition sample_payload :: json where
  "sample_payload =
     JObj [(''combos'', JArr
       [JObj [(''id'', JStr '' b ''), (''strategy'', JStr ''random''),
              (''targets'', JArr [JObj [(''provider'', JStr ''p''), (''model'', JStr ''m''), (''weight'', JNum (Fin 3))]])],
        JNull,
        JObj [(''id'', JStr ''A''), (''stickyLimit'', JNum (Fin 101)),
              (''targets'', JArr [JObj [(''provider'', JStr ''p''), (''model'', JStr ''n''), (''weight'', JNum (Fin 0))]])]])]"

lemma sample_collation_comparator: "comparator sample_collation (\<lambda>_. True)"
  by unfold_locales (auto simp: sample_collation_def split: if_splits)

theorem combo_list_wf_witness:
  "map ci_id (fst (parseComboList sample_collation (Some sample_payload) 4)) = [''A'', ''b'']
   \<and> list_all wf_combo (fst (parseComboList sample_collation (Some sample_payload) 4))
   \<and> snd (parseComboList sample_collation (Some sample_payload) 4) = 6"
proof (intro conjI)
  show "list_all wf_combo (fst (parseComboList sample_collation (Some sample_payload) 4))"
    using combo_list_wf [OF sample_collation_comparator, OF prod.collapse [symmetric]] by blast
qed code_simp+

section \<open>Lemmas on saving\<close>

lemma target_back:
  assumes "wf_target t"
  shows "\<exists>u. targetFromWire (target_json (wireTarget t)) k = (Some u, Suc k) \<and> sameTarget u t"
proof -
  have w: "normalizeWeight (map_option JNum (ct_weight t)) = ct_weight t"
    using assms boundedInteger_in
    by (cases "ct_weight t") (auto simp: wf_target_def normalizeWeight_def boundedInteger_def)
  have p: "trim (ct_provider t) = ct_provider t" "trim (ct_model t) = ct_model t"
      "ct_provider t \<noteq> []" "ct_model t \<noteq> []"
    using assms by (simp_all add: wf_target_def clean_text_def)
  show ?thesis
    using p w
    by (cases "ct_weight t")
       (simp_all add: targetFromWire_def target_json_def wireTarget_def wireRecord_def prop_of_def
          wireText_def opt_prop_def newComboTarget_def nextComboTargetKey_def sameTarget_def Let_def)
qed

lemma targets_back:
  "list_all wf_target ts \<Longrightarrow>
   \<exists>us. targets_loop (map (target_json \<circ> wireTarget) ts) k = (us, k + length ts) \<and> sameTargets us ts"
proof (induction ts arbitrary: k)
  case (Cons t ts)
  from Cons.prems obtain u where u: "targetFromWire (target_json (wireTarget t)) k = (Some u, Suc k)" "sameTarget u t"
    using target_back [of t k] by auto
  from Cons obtain us where us: "targets_loop (map (target_json \<circ> wireTarget) ts) (Suc k) = (us, Suc k + length ts)"
      "sameTargets us ts" by fastforce
  have "targets_loop (map (target_json \<circ> wireTarget) (t # ts)) k = (u # us, k + length (t # ts))"
    using u(1) us(1) by simp
  moreover have "sameTargets (u # us) (t # ts)" using u(2) us(2) by (simp add: sameTargets_def)
  ultimately show ?case by blast
qed (simp add: sameTargets_def)

lemma sameTargets_wire: "sameTargets us ts \<Longrightarrow> map wireTarget us = map wireTarget ts"
proof (induction us arbitrary: ts)
  case (Cons u us)
  then show ?case by (cases ts) (auto simp: sameTargets_def sameTarget_def wireTarget_def)
qed (simp add: sameTargets_def)

lemma draftEquals_body: "draftEquals a b \<Longrightarrow> toPutBody a r = toPutBody b r"
  by (auto simp: draftEquals_def sameIdentity_def toPutBody_def wireCombo_def wireComboStrategy_def Let_def
      sameTargets_wire split: option.splits)

lemma listed_props:
  assumes "b = toPutBody c r"
  shows "prop_of (listed_row b) ''id'' = Some (JStr (trim (ci_id c)))"
    "prop_of (listed_row b) ''targets'' = Some (JArr (map (target_json \<circ> wireTarget) (ci_targets c)))"
    "prop_of (listed_row b) ''strategy'' = Some (JStr (wireComboStrategy c))"
    "prop_of (listed_row b) ''defaultEffort'' =
       Some (case ci_defaultEffort c of Some e \<Rightarrow> JStr (effort_text e) | None \<Rightarrow> JNull)"
    "prop_of (listed_row b) ''stickyLimit'' = map_option JNum (ci_stickyLimit c)"
    "prop_of (listed_row b) ''imageInput'' = (if ci_imageInput c = Some Disabled then Some (JStr ''disabled'') else None)"
    "prop_of (listed_row b) ''alias'' =
       map_option JStr (if trimmedOrEmpty (ci_alias c) \<noteq> [] then Some (trimmedOrEmpty (ci_alias c)) else None)"
    "prop_of (listed_row b) ''nativeAlias'' = (if ci_nativeAlias c then Some (JBool True) else None)"
    "prop_of (listed_row b) ''displayName'' =
       map_option JStr (if trimmedOrEmpty (ci_displayName c) \<noteq> [] then Some (trimmedOrEmpty (ci_displayName c)) else None)"
    "prop_of (listed_row b) ''model'' = None"
  by (simp_all add: assms prop_of_def listed_row_def toPutBody_def wireCombo_def Let_def map_of_opt_prop
      del: map_of_append split: option.split)

lemma saved_draft_back:
  assumes "wf_combo c"
  shows "\<exists>c'. fst (comboFromWire (listed_row (toPutBody c r)) k) = Some c' \<and> draftEquals c' c"
proof -
  obtain us where us: "targets_loop (map (target_json \<circ> wireTarget) (ci_targets c)) k = (us, k + length (ci_targets c))"
      "sameTargets us (ci_targets c)"
    using targets_back assms by (auto simp: wf_combo_def)
  have rec: "wireRecord (Some (listed_row b)) = Some (listed_row b)" for b
    by (simp add: listed_row_def wireRecord_def Let_def)
  have sticky: "normalizeStickyLimit (map_option JNum (ci_stickyLimit c)) = ci_stickyLimit c"
    using assms boundedInteger_in
    by (cases "ci_stickyLimit c") (auto simp: wf_combo_def normalizeStickyLimit_def boundedInteger_def)
  have img: "case_option Auto id (ci_imageInput c) =
      imageInputFromWire (if ci_imageInput c = Some Disabled then Some (JStr ''disabled'') else None)"
    by (auto simp: imageInputFromWire_def split: option.splits image_input.split)
      (metis image_input.exhaust)
  have "clean_text (ci_id c)" "pred_option clean_text (ci_alias c)" "pred_option clean_text (ci_displayName c)"
      "wf_strategy (ci_strategy c) (ci_storedStrategy c)"
    using assms by (simp_all add: wf_combo_def)
  then show ?thesis
    using us sticky img
    by (simp add: comboFromWire_def rec listed_props [OF refl] targetsFromWire_def optionalWireText_back
        strategy_back effort_back draftEquals_def sameIdentity_def Let_def clean_text_def wireText_def)
qed

text \<open>C12: saving an untouched combo changes nothing. A row decoded from the listener, saved, stored
  field for field and listed again decodes to a draft the editor considers equal, and saving that
  one sends the same body: no sticky limit, weight, alias or display name appears or disappears,
  and an unsupported strategy keeps its stored name.
\<close>

theorem combo_untouched_save:
  assumes "fst (comboFromWire row k) = Some c"
  shows "\<exists>c'. fst (comboFromWire (listed_row (toPutBody c r)) k') = Some c'
     \<and> draftEquals c' c \<and> toPutBody c' r = toPutBody c r"
proof -
  from assms have "wf_combo c" by (cases rule: comboFromWire_cases [of row k]) auto
  then show ?thesis using saved_draft_back [of c r k'] draftEquals_body by blast
qed

theorem combo_untouched_save_witness:
  "\<exists>c'. fst (comboFromWire (listed_row (toPutBody
       (the (fst (comboFromWire (JObj [(''id'', JStr ''b''), (''strategy'', JStr '' random '')]) 0))) None)) 9) = Some c'
     \<and> ci_storedStrategy c' = Some ''random'' \<and> ci_stickyLimit c' = None"
proof -
  let ?row = "JObj [(''id'', JStr ''b''), (''strategy'', JStr '' random '')]"
  have some: "fst (comboFromWire ?row 0) = Some (the (fst (comboFromWire ?row 0)))"
    and stored: "ci_storedStrategy (the (fst (comboFromWire ?row 0))) = Some ''random''"
    and sticky: "ci_stickyLimit (the (fst (comboFromWire ?row 0))) = None"
    by code_simp+
  from combo_untouched_save [OF some, of None 9] stored sticky show ?thesis
    unfolding draftEquals_def sameIdentity_def by metis
qed

section \<open>Lemmas on checking\<close>

lemma first_error_None: "first_error rules item options = None \<longleftrightarrow> (\<forall>rule \<in> set rules. rule item options = None)"
  by (induction rules) (auto split: option.split)

lemma resolvable_loop_None:
  "resolvable_loop ps ts = None \<longleftrightarrow>
   (\<forall>t \<in> set ts. trim (ct_provider t) \<in> dom (map_of ps) - {[]} \<and> trim (ct_model t) \<noteq> [])"
  by (induction ts) (auto simp: Let_def)

lemma distinct_loop_None:
  "distinct_loop seen ts = None \<longleftrightarrow> distinct (map target_key ts) \<and> seen \<inter> target_key ` set ts = {}"
  by (induction ts arbitrary: seen) auto

lemma weights_loop_None:
  "weights_loop ts = None \<longleftrightarrow> (\<forall>t \<in> set ts. pred_option (int_in 1 10000) (ct_weight t))"
  by (induction ts) (auto simp: boundedInteger_iff split: option.split)

lemma enabled_loop_None:
  "enabled_loop ps ts = None \<longleftrightarrow> (\<exists>t \<in> set ts. map_of ps (trim (ct_provider t)) \<noteq> Some (Some True))"
  by (induction ts) auto

lemma id_segment_not_Nil: "id_segment s \<Longrightarrow> s \<noteq> []"
  by (auto simp: id_segment_def)

lemma requireAddressableId_None:
  "requireAddressableId item opts = None \<longleftrightarrow>
   COMBO_ID_RE (trim (ci_id item)) \<and> trim (ci_id item) \<notin> set (do_existingIds opts)
   \<and> COMBO_NAMESPACE \<notin> dom (map_of (do_providers opts)) \<and> trim (ci_id item) \<notin> dom (map_of (do_providers opts))"
  by (auto simp: requireAddressableId_def Let_def COMBO_ID_RE_def dest: id_segment_not_Nil)

lemma requireUsableAlias_None:
  "requireUsableAlias item opts = None \<longleftrightarrow>
   trimmedOrEmpty (ci_alias item) = []
   \<or> COMBO_ALIAS_RE (trimmedOrEmpty (ci_alias item))
     \<and> trimmedOrEmpty (ci_alias item) \<noteq> ''combo'' \<and> \<not> prefix ''combo/'' (trimmedOrEmpty (ci_alias item))
     \<and> (NATIVE_OPENAI_FAMILY_RE (trimmedOrEmpty (ci_alias item)) \<longrightarrow>
          sublist ''/'' (trimmedOrEmpty (ci_alias item)) \<or> ci_nativeAlias item)
     \<and> trimmedOrEmpty (ci_alias item) \<notin> set (case_option [] id (do_existingAliases opts))"
  by (auto simp: requireUsableAlias_def Let_def COMBO_NAMESPACE_def starts_with_iff str_includes_iff)

lemma requireSaneDisplayName_None:
  "requireSaneDisplayName item opts = None \<longleftrightarrow>
   pred_option (\<lambda>l. length (trim l) \<le> 128 \<and> \<not> hasControlCharacter l) (ci_displayName item)
   \<and> (ci_nativeAlias item \<longrightarrow>
        trimmedOrEmpty (ci_alias item) \<in> SUPPORTED_NATIVE_OPENAI_SLUGS
        \<and> trimmedOrEmpty (ci_displayName item) \<noteq> [])"
  by (cases "ci_displayName item") (auto simp: requireSaneDisplayName_def)

lemma requireLegacyRanges_None:
  "requireLegacyRanges item opts = None \<longleftrightarrow>
   (ci_strategy item = RoundRobin \<longrightarrow>
      pred_option (int_in 1 100) (ci_stickyLimit item)
      \<and> (\<forall>t \<in> set (ci_targets item). pred_option (int_in 1 10000) (ct_weight t)))"
  by (cases "ci_stickyLimit item") (auto simp: requireLegacyRanges_def boundedInteger_iff weights_loop_None)

lemma requireResolvableTargets_None:
  "requireResolvableTargets item opts = None \<longleftrightarrow>
   ci_targets item \<noteq> []
   \<and> (\<forall>t \<in> set (ci_targets item).
        trim (ct_provider t) \<in> dom (map_of (do_providers opts)) - {[]} \<and> trim (ct_model t) \<noteq> [])"
  by (simp add: requireResolvableTargets_def resolvable_loop_None)

lemma requireDistinctTargets_None:
  "requireDistinctTargets item opts = None \<longleftrightarrow> distinct (map target_key (ci_targets item))"
  by (simp add: requireDistinctTargets_def distinct_loop_None)

lemma requireEnabledTarget_None:
  "requireEnabledTarget item opts = None \<longleftrightarrow>
   (\<exists>t \<in> set (ci_targets item). map_of (do_providers opts) (trim (ct_provider t)) \<noteq> Some (Some True))"
  by (simp add: requireEnabledTarget_def enabled_loop_None)

lemmas rule_None =
  requireAddressableId_None requireUsableAlias_None requireSaneDisplayName_None
  requireResolvableTargets_None requireDistinctTargets_None requireLegacyRanges_None requireEnabledTarget_None

text \<open>The check accepts a draft exactly when all its conditions hold together: the trimmed id is
  id-shaped, unused and no provider's name, and no provider is called \<^verbatim>\<open>combo\<close>; a nickname is
  alias-shaped, outside the reserved namespace, unused, and an OpenAI-native name only for a
  native alias, which must be a supported model and carry a display name; a display name is short
  and printable; there is a target, every target is complete and names a configured provider, no
  two have the same provider and model, a round-robin draft keeps its numbers in range, and at
  least one target's provider is enabled.
\<close>

theorem combo_validate_exact:
  "validateComboDraft item opts = None \<longleftrightarrow>
   (COMBO_ID_RE (trim (ci_id item)) \<and> trim (ci_id item) \<notin> set (do_existingIds opts)
    \<and> COMBO_NAMESPACE \<notin> dom (map_of (do_providers opts)) \<and> trim (ci_id item) \<notin> dom (map_of (do_providers opts)))
   \<and> (trimmedOrEmpty (ci_alias item) = []
      \<or> COMBO_ALIAS_RE (trimmedOrEmpty (ci_alias item))
        \<and> trimmedOrEmpty (ci_alias item) \<noteq> ''combo'' \<and> \<not> prefix ''combo/'' (trimmedOrEmpty (ci_alias item))
        \<and> (NATIVE_OPENAI_FAMILY_RE (trimmedOrEmpty (ci_alias item)) \<longrightarrow>
             sublist ''/'' (trimmedOrEmpty (ci_alias item)) \<or> ci_nativeAlias item)
        \<and> trimmedOrEmpty (ci_alias item) \<notin> set (case_option [] id (do_existingAliases opts)))
   \<and> (pred_option (\<lambda>l. length (trim l) \<le> 128 \<and> \<not> hasControlCharacter l) (ci_displayName item)
      \<and> (ci_nativeAlias item \<longrightarrow>
           trimmedOrEmpty (ci_alias item) \<in> SUPPORTED_NATIVE_OPENAI_SLUGS
           \<and> trimmedOrEmpty (ci_displayName item) \<noteq> []))
   \<and> ci_targets item \<noteq> []
   \<and> (\<forall>t \<in> set (ci_targets item).
        trim (ct_provider t) \<in> dom (map_of (do_providers opts)) - {[]} \<and> trim (ct_model t) \<noteq> [])
   \<and> distinct (map target_key (ci_targets item))
   \<and> (ci_strategy item = RoundRobin \<longrightarrow>
        pred_option (int_in 1 100) (ci_stickyLimit item)
        \<and> (\<forall>t \<in> set (ci_targets item). pred_option (int_in 1 10000) (ct_weight t)))
   \<and> (\<exists>t \<in> set (ci_targets item). map_of (do_providers opts) (trim (ct_provider t)) \<noteq> Some (Some True))"
  by (simp only: validateComboDraft_def DRAFT_RULES_def first_error_None list.set ball_simps
      rule_None conj_assoc HOL.simp_thms)

definition sample_draft :: combo_item where
  "sample_draft =
     \<lparr>ci_id = '' free '', ci_model = ''combo/free'', ci_alias = Some ''gpt-5.5'', ci_nativeAlias = True,
      ci_displayName = Some ''Free'', ci_strategy = RoundRobin, ci_storedStrategy = None,
      ci_stickyLimit = Some (Fin 3), ci_defaultEffort = Some High, ci_imageInput = None,
      ci_targets = [\<lparr>ct_provider = ''p'', ct_model = '' m'', ct_weight = Some (Fin 2), ct_clientKey = None\<rparr>,
                    \<lparr>ct_provider = ''q'', ct_model = ''m'', ct_weight = None, ct_clientKey = None\<rparr>]\<rparr>"

definition sample_options :: draft_options where
  "sample_options =
     \<lparr>do_existingIds = [''other''], do_existingAliases = None, do_isCreate = True,
      do_providers = [(''p'', Some True), (''q'', None)]\<rparr>"

theorem combo_validate_exact_witness:
  "validateComboDraft sample_draft sample_options = None
   \<and> distinct (map target_key (ci_targets sample_draft))
   \<and> validateComboDraft (sample_draft\<lparr>ci_nativeAlias := False\<rparr>) sample_options = Some AliasNativeFamily"
proof (intro conjI)
  show ok: "validateComboDraft sample_draft sample_options = None" by code_simp
  from ok show "distinct (map target_key (ci_targets sample_draft))"
    using combo_validate_exact [of sample_draft sample_options] by blast
qed code_simp

section \<open>Lemmas on search\<close>

lemma to_lower_join: "to_lower (join_with d ws) = join_with (to_lower d) (map to_lower ws)"
  by (induction d ws rule: join_with.induct) (auto simp: to_lower_def)

lemma sublist_around:
  assumes "sublist n (a @ z # b)" "z \<notin> set n"
  shows "sublist n a \<or> sublist n b"
proof -
  from assms(1) obtain p q where e: "a @ z # b = p @ n @ q" by (auto simp: sublist_def)
  then consider u where "a = p @ u" "u @ z # b = n @ q" | u where "z # b = u @ n @ q"
    by (auto simp: append_eq_append_conv2)
  then show ?thesis
  proof cases
    case 1
    then consider v where "u = n @ v" | v where "u @ v = n" "z # b = v @ q"
      by (auto simp: append_eq_append_conv2)
    then show ?thesis
    proof cases
      case (2 v)
      with assms(2) have "v = []" by (cases v) auto
      with 2 1 have "a = p @ n @ []" by simp
      then show ?thesis unfolding sublist_def by blast
    qed (use 1 in \<open>auto simp: sublist_def\<close>)
  next
    case (2 u)
    show ?thesis
    proof (cases u)
      case Nil
      with 2 assms(2) have "n = []" by (cases n) auto
      then show ?thesis by simp
    next
      case (Cons y v)
      with 2 show ?thesis by (auto simp: sublist_def)
    qed
  qed
qed

lemma sublist_join_sep:
  assumes "z \<notin> set n" "ws \<noteq> []"
  shows "sublist n (join_with [z] ws) \<longleftrightarrow> (\<exists>w \<in> set ws. sublist n w)"
proof
  show "sublist n (join_with [z] ws) \<Longrightarrow> \<exists>w \<in> set ws. sublist n w"
    using assms
  proof (induction "[z]" ws rule: join_with.induct)
    case (3 w v ws)
    then show ?case using sublist_around [of n w z "join_with [z] (v # ws)"] by auto
  qed auto
  show "\<exists>w \<in> set ws. sublist n w \<Longrightarrow> sublist n (join_with [z] ws)"
    using sublist_join by (meson sublist_order.order_trans)
qed

lemma to_lower_char_NUL: "to_lower_char c = CHR 0x00 \<longleftrightarrow> c = CHR 0x00"
proof (cases "is_upper c")
  case True
  then have b: "65 \<le> (of_char c :: nat)" "of_char c \<le> (90 :: nat)" by (auto simp: less_eq_char_def)
  then have "of_char (to_lower_char c) = (of_char c + 32 :: nat)" using True by (simp add: to_lower_char_def)
  then have "to_lower_char c \<noteq> CHR 0x00" using b by auto
  moreover have "c \<noteq> CHR 0x00" using b by auto
  ultimately show ?thesis by simp
qed (auto simp: to_lower_char_def)

text \<open>The rail search keeps, in order, exactly the combos one of whose identity fields (id, model,
  nickname, title, client model id) contains the trimmed query, ignoring case; joining the fields
  never produces a match across two of them. The query may not contain the separator, the NUL
  character.
\<close>

theorem combo_search_exact:
  assumes "CHR 0x00 \<notin> set query"
  shows "filterCombos items query =
     filter (\<lambda>c. \<exists>f \<in> set (identity_fields c). sublist (to_lower (trim query)) (to_lower f)) items"
proof -
  have "set (trim query) \<subseteq> set query"
    unfolding trim_def trim_start_def trim_end_def by (auto dest!: set_dropWhileD)
  with assms have "CHR 0x00 \<notin> set (trim query)" by blast
  then have z: "CHR 0x00 \<notin> set (to_lower (trim query))"
    unfolding to_lower_def set_map image_iff using to_lower_char_NUL by metis
  have "str_includes (comboIdentityHaystack c) (to_lower (trim query)) \<longleftrightarrow>
      (\<exists>f \<in> set (identity_fields c). sublist (to_lower (trim query)) (to_lower f))" for c
  proof -
    have ne: "map to_lower (identity_fields c) \<noteq> []" by (simp add: identity_fields_def)
    have sep: "to_lower [CHR 0x00] = [CHR 0x00]" using to_lower_char_NUL [of "CHR 0x00"] by (simp add: to_lower_def)
    show ?thesis
      unfolding comboIdentityHaystack_def str_includes_iff to_lower_join sep sublist_join_sep [OF z ne]
      by simp
  qed
  moreover have "\<exists>f. f \<in> set (identity_fields c)" for c by (auto simp: identity_fields_def)
  ultimately show ?thesis by (simp add: filterCombos_def Let_def)
qed

theorem combo_search_exact_witness:
  "map ci_id (filterCombos [sample_draft, sample_draft\<lparr>ci_id := ''other'', ci_model := ''combo/other''\<rparr>] '' FREE '')
     = ['' free '']
   \<and> filterCombos [sample_draft] ''zz'' =
       filter (\<lambda>c. \<exists>f \<in> set (identity_fields c). sublist (to_lower (trim ''zz'')) (to_lower f)) [sample_draft]"
proof (rule conjI)
  show "filterCombos [sample_draft] ''zz'' =
       filter (\<lambda>c. \<exists>f \<in> set (identity_fields c). sublist (to_lower (trim ''zz'')) (to_lower f)) [sample_draft]"
    by (rule combo_search_exact) simp
qed code_simp

end
