(* ===== verification/App_Routing.thy ===== *)
theory App_Routing
  imports Benes_Prelude
begin

text \<open>
  \<^verbatim>\<open>gui/src/app-routing.ts\<close>, \<^verbatim>\<open>gui/src/hash-routing.ts\<close> and the page-local hash grammars of
  \<^verbatim>\<open>gui/src/pages/logs-session-filter.ts\<close>, \<^verbatim>\<open>gui/src/pages/sessions-hash-filter.ts\<close>,
  \<^verbatim>\<open>gui/src/pages/storage-tab.ts\<close> and \<^verbatim>\<open>gui/src/provider-workspace/provider-access-hash.ts\<close>: which page a hash
  belongs to, what a retired bookmark becomes, and the address bar the two writers share.
  \<^verbatim>\<open>URLSearchParams\<close> is the form-urlencoded codec on bytes: pairs separated by \<^verbatim>\<open>&\<close>, \<^verbatim>\<open>+\<close> for a blank,
  \<^verbatim>\<open>%XX\<close> for every other byte that is not a letter, a digit or one of \<^verbatim>\<open>*-._\<close>. Decoding keeps the
  bytes as they are; the replacement of malformed UTF-8 is outside the model.
\<close>

section \<open>URLSearchParams\<close>

definition hex_value :: "char \<Rightarrow> nat option" where
  "hex_value c =
     (if is_digit c then Some (of_char c - 48)
      else if CHR ''a'' \<le> c \<and> c \<le> CHR ''f'' then Some (of_char c - 87)
      else if CHR ''A'' \<le> c \<and> c \<le> CHR ''F'' then Some (of_char c - 55) else None)"

fun form_decode :: "string \<Rightarrow> string" where
  "form_decode [] = []"
| "form_decode (c # s) =
     (if c = CHR ''+'' then CHR '' '' # form_decode s
      else if c = CHR ''%'' then
        (case s of
           h # l # t \<Rightarrow>
             (case (hex_value h, hex_value l) of
                (Some a, Some b) \<Rightarrow> char_of (16 * a + b) # form_decode t
              | _ \<Rightarrow> c # form_decode s)
         | _ \<Rightarrow> c # form_decode s)
      else c # form_decode s)"

definition upper_hex :: "nat \<Rightarrow> char" where
  "upper_hex n = (if n < 10 then char_of (n + 48) else char_of (n + 55))"

definition form_safe :: "char \<Rightarrow> bool" where
  "form_safe c \<longleftrightarrow> is_alnum c \<or> c \<in> {CHR ''*'', CHR ''-'', CHR ''.'', CHR ''_''}"

definition form_char :: "char \<Rightarrow> string" where
  "form_char c =
     (if form_safe c then [c] else if c = CHR '' '' then ''+''
      else [CHR ''%'', upper_hex (of_char c div 16), upper_hex (of_char c mod 16)])"

definition form_encode :: "string \<Rightarrow> string" where
  "form_encode s = concat (map form_char s)"

definition cut_at :: "char \<Rightarrow> string \<Rightarrow> string \<times> string" where
  "cut_at d s = (takeWhile (\<lambda>c. c \<noteq> d) s, drop 1 (dropWhile (\<lambda>c. c \<noteq> d) s))"

definition query_pair :: "string \<Rightarrow> string \<times> string" where
  "query_pair piece = (let (k, v) = cut_at CHR ''='' piece in (form_decode k, form_decode v))"

definition search_params :: "string \<Rightarrow> (string \<times> string) list" where
  "search_params t =
     (let body = (if starts_with t ''?'' then drop 1 t else t)
      in map query_pair (filter (\<lambda>p. p \<noteq> []) (split_on CHR ''&'' body)))"

definition query_keys :: "(string \<times> string) list \<Rightarrow> string list" where
  "query_keys q = map fst q"

definition params_text :: "string \<Rightarrow> string \<Rightarrow> string" where
  "params_text k v = form_encode k @ ''='' @ form_encode v"

section \<open>Hashes\<close>

definition normalizeHashPath :: "string \<Rightarrow> string" where
  "normalizeHashPath h =
     (if starts_with h ''#/'' then drop 2 h else if starts_with h ''#'' then drop 1 h else h)"

definition splitTarget :: "string \<Rightarrow> string \<times> string" where
  "splitTarget target = cut_at CHR ''?'' target"

definition parseHashRoute :: "string \<Rightarrow> string \<times> (string \<times> string) list" where
  "parseHashRoute h = (let (path, queryText) = splitTarget (normalizeHashPath h) in (path, search_params queryText))"

text \<open>The address bar: the hash it shows and the history entries below it, newest first.\<close>

record address_bar =
  ab_hash :: string
  ab_back :: "string list"

definition pendingTarget :: "string \<Rightarrow> address_bar \<Rightarrow> string option" where
  "pendingTarget h win =
     (let target = normalizeHashPath h in if normalizeHashPath (ab_hash win) = target then None else Some target)"

definition replaceHash :: "string \<Rightarrow> address_bar \<Rightarrow> address_bar" where
  "replaceHash h win =
     (case pendingTarget h win of None \<Rightarrow> win | Some target \<Rightarrow> win\<lparr>ab_hash := ''#'' @ target\<rparr>)"

definition navigateHash :: "string \<Rightarrow> address_bar \<Rightarrow> address_bar" where
  "navigateHash h win =
     (case pendingTarget h win of
        None \<Rightarrow> win
      | Some target \<Rightarrow> \<lparr>ab_hash = ''#'' @ target, ab_back = ab_hash win # ab_back win\<rparr>)"

section \<open>Page-local grammars\<close>

definition logsSessionIdFromHash :: "string \<Rightarrow> string" where
  "logsSessionIdFromHash h =
     (let raw = normalizeHashPath h in
      if CHR ''?'' \<notin> set raw then []
      else let (path, rest) = cut_at CHR ''?'' raw
           in if path \<noteq> ''logs'' then []
              else (case map_of (search_params rest) ''sessionId'' of Some v \<Rightarrow> trim v | None \<Rightarrow> []))"

definition logsHashForSession :: "string \<Rightarrow> string" where
  "logsHashForSession sessionId = join_with ''?'' [''logs'', params_text ''sessionId'' sessionId]"

definition logsHashIsAllowed :: "string \<Rightarrow> (string \<times> string) list \<Rightarrow> bool" where
  "logsHashIsAllowed path query =
     (if path = ''logs/debug'' then query_keys query = []
      else if path \<noteq> ''logs'' then False
      else list_all (\<lambda>key. key = ''sessionId'') (query_keys query))"

definition sessionsPathAndQuery :: "string \<Rightarrow> string \<times> (string \<times> string) list" where
  "sessionsPathAndQuery h =
     (let raw = normalizeHashPath h
      in if CHR ''?'' \<notin> set raw then (raw, [])
         else let (path, rest) = cut_at CHR ''?'' raw in (path, search_params rest))"

definition sessions_param :: "string \<Rightarrow> string \<Rightarrow> string" where
  "sessions_param key h =
     (let (path, query) = sessionsPathAndQuery h
      in if path \<noteq> ''sessions'' then [] else case map_of query key of Some v \<Rightarrow> trim v | None \<Rightarrow> [])"

definition sessionsPolicyFromHash :: "string \<Rightarrow> string" where
  "sessionsPolicyFromHash h = sessions_param ''policy'' h"

definition sessionsComboFromHash :: "string \<Rightarrow> string" where
  "sessionsComboFromHash h = sessions_param ''combo'' h"

definition sessionsHashForPolicy :: "string \<Rightarrow> string" where
  "sessionsHashForPolicy policyId = join_with ''?'' [''sessions'', params_text ''policy'' (trim policyId)]"

definition sessionsHashForCombo :: "string \<Rightarrow> string" where
  "sessionsHashForCombo comboId = join_with ''?'' [''sessions'', params_text ''combo'' (trim comboId)]"

definition sessionsHashIsAllowed :: "string \<Rightarrow> (string \<times> string) list \<Rightarrow> bool" where
  "sessionsHashIsAllowed path query =
     (if path \<noteq> ''sessions'' then False
      else case query_keys query of
             [] \<Rightarrow> True
           | [key] \<Rightarrow>
               if key \<noteq> ''policy'' \<and> key \<noteq> ''combo'' then False
               else (case map_of query key of Some v \<Rightarrow> trim v \<noteq> [] | None \<Rightarrow> False)
           | _ \<Rightarrow> False)"

datatype storage_tab = Overview | Cleanup | Quarantine

definition STORAGE_TAB_HASHES :: "string list" where
  "STORAGE_TAB_HASHES = [''storage/cleanup'', ''storage/quarantine'']"

fun storageTabHash :: "storage_tab \<Rightarrow> string" where
  "storageTabHash Overview = ''storage''"
| "storageTabHash Cleanup = ''storage/cleanup''"
| "storageTabHash Quarantine = ''storage/quarantine''"

definition readStorageTab :: "string \<Rightarrow> storage_tab" where
  "readStorageTab h =
     (let raw = normalizeHashPath h
      in if raw = ''storage/cleanup'' then Cleanup else if raw = ''storage/quarantine'' then Quarantine else Overview)"

definition storageHashIsAllowed :: "string \<Rightarrow> (string \<times> string) list \<Rightarrow> bool" where
  "storageHashIsAllowed path query =
     (if query_keys query \<noteq> [] then False else path = ''storage'' \<or> path \<in> set STORAGE_TAB_HASHES)"

definition CODEX_ACCOUNT_PROVIDER :: string where "CODEX_ACCOUNT_PROVIDER = ''openai''"

definition providerAccessHash :: "string \<Rightarrow> string" where
  "providerAccessHash providerName = ''providers/'' @ providerName @ ''/access''"

definition readProviderAccessHash :: "string \<Rightarrow> string option" where
  "readProviderAccessHash rawHash =
     (let (path, query) = parseHashRoute rawHash
      in if query_keys query \<noteq> [] then None
         else case split_on CHR ''/'' path of
                [a, name, b] \<Rightarrow>
                  if a \<noteq> ''providers'' \<or> b \<noteq> ''access'' then None
                  else if name \<noteq> [] then Some name else None
              | _ \<Rightarrow> None)"

definition OPENAI_ACCOUNT_ACCESS_HASH :: string where
  "OPENAI_ACCOUNT_ACCESS_HASH = providerAccessHash CODEX_ACCOUNT_PROVIDER"

definition resolveProviderAccessHash :: "string \<Rightarrow> string option" where
  "resolveProviderAccessHash rawHash =
     (if rawHash = ''codex-auth'' \<or> starts_with rawHash ''codex-auth/'' then Some OPENAI_ACCOUNT_ACCESS_HASH
      else if readProviderAccessHash rawHash = None then None else Some rawHash)"

definition nextProviderAccessTarget :: "string option \<Rightarrow> string \<Rightarrow> string option \<times> string option" where
  "nextProviderAccessTarget applied rawHash =
     (case resolveProviderAccessHash rawHash of
        None \<Rightarrow> (None, None)
      | Some target \<Rightarrow>
          if applied = Some target then (applied, None) else (Some target, readProviderAccessHash target))"

section \<open>Pages\<close>

datatype page =
    Dashboard | Startup | Routing | Providers | Models | Subagents | Sessions | Logs | Usage | Tasks
  | Storage | Api | Integrations | Harnesses

fun page_name :: "page \<Rightarrow> string" where
  "page_name Dashboard = ''dashboard''"
| "page_name Startup = ''startup''"
| "page_name Routing = ''routing''"
| "page_name Providers = ''providers''"
| "page_name Models = ''models''"
| "page_name Subagents = ''subagents''"
| "page_name Sessions = ''sessions''"
| "page_name Logs = ''logs''"
| "page_name Usage = ''usage''"
| "page_name Tasks = ''tasks''"
| "page_name Storage = ''storage''"
| "page_name Api = ''api''"
| "page_name Integrations = ''integrations''"
| "page_name Harnesses = ''harnesses''"

definition DASHBOARD_TAB_HASHES :: "string list" where
  "DASHBOARD_TAB_HASHES = [''dashboard/providers'', ''dashboard/models'']"

definition ROUTING_SURFACES :: "(string \<times> string) list" where
  "ROUTING_SURFACES =
     [(''combos'', ''routing/combos''), (''evaluation'', ''routing/evaluation''),
      (''analytics'', ''routing/analytics''), (''compatibility'', ''routing/compatibility'')]"

definition ROUTING_ROOT_WORD :: string where "ROUTING_ROOT_WORD = ''routing''"

definition ROUTING_HASHES :: "string list" where "ROUTING_HASHES = map snd ROUTING_SURFACES"

definition API_TAB_HASHES :: "string list" where
  "API_TAB_HASHES = [''api/clients'', ''api/endpoints'', ''api/models'', ''api/examples'']"

definition USAGE_HASHES :: "string list" where
  "USAGE_HASHES =
     [''usage/breakdown'', ''usage/breakdown/providers'', ''usage/breakdown/accounts'', ''usage/coverage'']"

record route_ownership =
  ro_root :: string
  ro_literals :: "string list"
  ro_families :: "string list"
  ro_recognizes :: "(string \<Rightarrow> bool) option"
  ro_validateQuery :: "(string \<Rightarrow> (string \<times> string) list \<Rightarrow> bool) option"

definition plain_route :: "page \<Rightarrow> route_ownership" where
  "plain_route p =
     \<lparr>ro_root = page_name p, ro_literals = [], ro_families = [], ro_recognizes = None, ro_validateQuery = None\<rparr>"

fun PAGE_ROUTES :: "page \<Rightarrow> route_ownership" where
  "PAGE_ROUTES Dashboard = (plain_route Dashboard)\<lparr>ro_literals := DASHBOARD_TAB_HASHES\<rparr>"
| "PAGE_ROUTES Routing = (plain_route Routing)\<lparr>ro_literals := ROUTING_HASHES\<rparr>"
| "PAGE_ROUTES Providers =
     (plain_route Providers)\<lparr>ro_recognizes := Some (\<lambda>path. readProviderAccessHash path \<noteq> None)\<rparr>"
| "PAGE_ROUTES Sessions = (plain_route Sessions)\<lparr>ro_validateQuery := Some sessionsHashIsAllowed\<rparr>"
| "PAGE_ROUTES Logs = (plain_route Logs)\<lparr>ro_validateQuery := Some logsHashIsAllowed\<rparr>"
| "PAGE_ROUTES Usage = (plain_route Usage)\<lparr>ro_literals := USAGE_HASHES\<rparr>"
| "PAGE_ROUTES Storage = (plain_route Storage)\<lparr>ro_validateQuery := Some storageHashIsAllowed\<rparr>"
| "PAGE_ROUTES Api = (plain_route Api)\<lparr>ro_literals := API_TAB_HASHES\<rparr>"
| "PAGE_ROUTES Harnesses = (plain_route Harnesses)\<lparr>ro_families := [''harnesses/'']\<rparr>"
| "PAGE_ROUTES p = plain_route p"

definition VALID_PAGES :: "page list" where
  "VALID_PAGES =
     [Dashboard, Startup, Routing, Providers, Models, Subagents, Sessions, Logs, Usage, Tasks, Storage, Api,
      Integrations, Harnesses]"

definition hasQuery :: "(string \<times> string) list \<Rightarrow> bool" where
  "hasQuery query \<longleftrightarrow> query_keys query \<noteq> []"

definition pageOwnsPath :: "route_ownership \<Rightarrow> string \<Rightarrow> bool" where
  "pageOwnsPath route path =
     (if path = ro_root route then True
      else if path \<in> set (ro_literals route) then True
      else if list_ex (starts_with path) (ro_families route) then True
      else case ro_recognizes route of Some f \<Rightarrow> f path | None \<Rightarrow> False)"

definition hashBelongsToPage :: "string \<Rightarrow> page \<Rightarrow> bool" where
  "hashBelongsToPage rawHash page =
     (let route = PAGE_ROUTES page; (path, query) = parseHashRoute rawHash
      in case ro_validateQuery route of
           Some validate \<Rightarrow> validate path query
         | None \<Rightarrow> if hasQuery query then False else pageOwnsPath route path)"

section \<open>Resolution\<close>

definition routeMatchesPrefix :: "string \<Rightarrow> string \<Rightarrow> bool" where
  "routeMatchesPrefix rawHash prefix' \<longleftrightarrow> rawHash = prefix' \<or> starts_with rawHash (prefix' @ ''/'')"

definition RETIRED_ROOTS :: "(string \<times> page) list" where
  "RETIRED_ROOTS =
     [(''debug'', Logs), (''codex-auth'', Providers), (''combos'', Routing), (''evaluation'', Routing),
      (''analytics'', Routing), (''lab'', Routing), (''claude'', Harnesses), (''grok'', Harnesses)]"

definition FORMER_ROUTING_SURFACES :: "(string \<times> string list) list" where
  "FORMER_ROUTING_SURFACES =
     [(''startup'', [''combos'', ROUTING_ROOT_WORD, ''evaluation'', ''analytics'', ''compatibility'']),
      (''models'', [''combos'', ROUTING_ROOT_WORD, ''compatibility''])]"

definition RETIRED_ROUTING_ROOTS :: "(string \<times> string) list" where
  "RETIRED_ROUTING_ROOTS =
     [(''combos'', ''combos''), (''evaluation'', ''evaluation''), (''analytics'', ''analytics''),
      (''lab'', ''compatibility'')]"

definition RETIRED_HARNESS_ROOTS :: "(string \<times> string) list" where
  "RETIRED_HARNESS_ROOTS = [(''claude'', ''claude''), (''grok'', ''grok'')]"

definition RENAMED_INTEGRATIONS_SURFACES :: "(string \<times> string) list" where
  "RENAMED_INTEGRATIONS_SURFACES = [(''integrations/claude/desktop'', ''claude-desktop'')]"

definition integrationsInheritor :: "string \<Rightarrow> page" where
  "integrationsInheritor raw =
     (if raw = ''integrations/keys'' \<or> starts_with raw ''integrations/keys/'' then Api else Harnesses)"

definition root_and_surface :: "string \<Rightarrow> string \<times> string" where
  "root_and_surface path =
     (case split_on CHR ''/'' path of [] \<Rightarrow> ([], []) | [r] \<Rightarrow> (r, []) | r # s # _ \<Rightarrow> (r, s))"

definition readPageFromHash :: "string \<Rightarrow> page" where
  "readPageFromHash h =
     (let raw = normalizeHashPath h; (root, surface) = root_and_surface (fst (parseHashRoute raw))
      in case map_of RETIRED_ROOTS root of
           Some inherited \<Rightarrow> inherited
         | None \<Rightarrow>
             if (case map_of FORMER_ROUTING_SURFACES root of Some ss \<Rightarrow> surface \<in> set ss | None \<Rightarrow> False)
             then Routing
             else if root = ''integrations'' then integrationsInheritor raw
             else case List.find (\<lambda>p. page_name p = root) VALID_PAGES of Some p \<Rightarrow> p | None \<Rightarrow> Dashboard)"

definition routingHashForSurface :: "string \<Rightarrow> string" where
  "routingHashForSurface surface =
     (if surface = ROUTING_ROOT_WORD then ROUTING_ROOT_WORD
      else case map_of ROUTING_SURFACES surface of Some h \<Rightarrow> h | None \<Rightarrow> ROUTING_ROOT_WORD)"

definition former_pairs :: "(string \<times> string) list" where
  "former_pairs = concat (map (\<lambda>(host, surfaces). map (\<lambda>s. (host @ ''/'' @ s, s)) surfaces) FORMER_ROUTING_SURFACES)"

definition retiredRoutingSurface :: "string \<Rightarrow> string option" where
  "retiredRoutingSurface raw =
     (case List.find (\<lambda>(root, _). routeMatchesPrefix raw root) RETIRED_ROUTING_ROOTS of
        Some (_, surface) \<Rightarrow> Some surface
      | None \<Rightarrow>
          (case List.find (\<lambda>(full, _). routeMatchesPrefix raw full) former_pairs of
             Some (_, surface) \<Rightarrow> Some surface
           | None \<Rightarrow> None))"

definition isRetiredApiSpelling :: "string \<Rightarrow> bool" where
  "isRetiredApiSpelling raw \<longleftrightarrow> raw = ''api/keys'' \<or> routeMatchesPrefix raw ''integrations/keys''"

definition retiredHarnessTarget :: "string \<Rightarrow> string option" where
  "retiredHarnessTarget raw =
     (case map_of RENAMED_INTEGRATIONS_SURFACES raw of
        Some renamed \<Rightarrow> Some (''harnesses/'' @ renamed)
      | None \<Rightarrow>
          if raw = ''integrations'' \<or> raw = ''integrations/'' then Some ''harnesses''
          else if starts_with raw ''integrations/'' then
            (let i = drop (length ''integrations'' + 1) raw
             in Some (if i = [] then ''harnesses'' else ''harnesses/'' @ i))
          else map_option (\<lambda>retired. ''harnesses/'' @ retired) (map_of RETIRED_HARNESS_ROOTS raw))"

record hash_action =
  ha_page :: page
  ha_replaceTo :: "string option"

definition resolveAppHashChange :: "string \<Rightarrow> hash_action" where
  "resolveAppHashChange rawHash =
     (let page = readPageFromHash rawHash in
      if routeMatchesPrefix rawHash ''debug'' then \<lparr>ha_page = Logs, ha_replaceTo = Some ''logs/debug''\<rparr>
      else if routeMatchesPrefix rawHash ''codex-auth''
        then \<lparr>ha_page = Providers, ha_replaceTo = Some OPENAI_ACCOUNT_ACCESS_HASH\<rparr>
      else case retiredRoutingSurface rawHash of
        Some s \<Rightarrow> \<lparr>ha_page = Routing, ha_replaceTo = Some (routingHashForSurface s)\<rparr>
      | None \<Rightarrow>
          if isRetiredApiSpelling rawHash then \<lparr>ha_page = Api, ha_replaceTo = Some ''api''\<rparr>
          else case retiredHarnessTarget rawHash of
            Some t \<Rightarrow> \<lparr>ha_page = Harnesses, ha_replaceTo = Some t\<rparr>
          | None \<Rightarrow>
              if rawHash = ''providers/workspace''
              then \<lparr>ha_page = Providers, ha_replaceTo = Some ''providers''\<rparr>
              else if \<not> hashBelongsToPage rawHash page
              then \<lparr>ha_page = page, ha_replaceTo = Some (page_name page)\<rparr>
              else \<lparr>ha_page = page, ha_replaceTo = None\<rparr>)"

section \<open>Lemmas on hashes\<close>

text \<open>A word of a hash: no marker, query or separator.\<close>

definition hash_word :: "string \<Rightarrow> bool" where
  "hash_word w \<longleftrightarrow> w \<noteq> [] \<and> list_all (\<lambda>c. c \<noteq> CHR ''#'' \<and> c \<noteq> CHR ''?'' \<and> c \<noteq> CHR ''/'') w"

lemma normalize_word [simp]: "hash_word w \<Longrightarrow> normalizeHashPath (w @ s) = w @ s" "hash_word w \<Longrightarrow> normalizeHashPath w = w"
  by (cases w; auto simp: hash_word_def normalizeHashPath_def starts_with_def)+

lemma word_chars: "hash_word w \<Longrightarrow> CHR ''/'' \<notin> set w" "hash_word w \<Longrightarrow> CHR ''?'' \<notin> set w"
  by (auto simp: hash_word_def list_all_iff)

lemma word_before_query [simp]:
  "hash_word w \<Longrightarrow> takeWhile (\<lambda>c. c \<noteq> CHR ''?'') (w @ s) = w @ takeWhile (\<lambda>c. c \<noteq> CHR ''?'') s"
  "hash_word w \<Longrightarrow> takeWhile (\<lambda>c. c \<noteq> CHR ''?'') w = w"
  by (rule takeWhile_append2, use word_chars(2) in blast)
     (simp add: takeWhile_eq_all_conv, use word_chars(2) in blast)

lemma path_word:
  "hash_word w \<Longrightarrow> fst (parseHashRoute (w @ s)) = w @ takeWhile (\<lambda>c. c \<noteq> CHR ''?'') s"
  "hash_word w \<Longrightarrow> fst (parseHashRoute w) = w"
  by (simp_all add: parseHashRoute_def splitTarget_def cut_at_def Let_def split_def)

lemma root_word:
  "hash_word w \<Longrightarrow> root_and_surface w = (w, [])"
  "hash_word w \<Longrightarrow> fst (root_and_surface (w @ CHR ''/'' # s)) = w"
  by (auto simp: root_and_surface_def split_on_none split_on_append word_chars split: list.split)

lemma surface_word:
  "hash_word w \<Longrightarrow> hash_word v \<Longrightarrow> root_and_surface (w @ CHR ''/'' # v) = (w, v)"
  "hash_word w \<Longrightarrow> hash_word v \<Longrightarrow> root_and_surface (w @ CHR ''/'' # v @ CHR ''/'' # s) = (w, v)"
  by (auto simp: root_and_surface_def split_on_none split_on_append word_chars split: list.split)

lemma matches_cases:
  assumes "routeMatchesPrefix raw w"
  obtains "raw = w" | s where "raw = w @ CHR ''/'' # s"
  using assms by (auto simp: routeMatchesPrefix_def starts_with_iff prefix_def)

lemma root_of_match:
  assumes "hash_word w" "routeMatchesPrefix raw w"
  shows "normalizeHashPath raw = raw \<and> fst (root_and_surface (fst (parseHashRoute raw))) = w"
  using assms(2)
proof (cases rule: matches_cases)
  case 1
  with assms(1) show ?thesis by (simp add: path_word root_word)
next
  case (2 s)
  with assms(1) show ?thesis by (simp add: path_word root_word)
qed

lemma surface_of_match:
  assumes "hash_word w" "hash_word v" "routeMatchesPrefix raw (w @ CHR ''/'' # v)"
  shows "normalizeHashPath raw = raw \<and> root_and_surface (fst (parseHashRoute raw)) = (w, v)"
proof -
  from assms(3) show ?thesis
  proof (cases rule: matches_cases)
    case 1
    with assms show ?thesis by (simp add: path_word surface_word)
  next
    case (2 s)
    with assms show ?thesis by (simp add: path_word surface_word)
  qed
qed

lemma readPage_eq:
  assumes "root_and_surface (fst (parseHashRoute (normalizeHashPath h))) = (word, surface)"
  shows "readPageFromHash h =
     (case map_of RETIRED_ROOTS word of
        Some inherited \<Rightarrow> inherited
      | None \<Rightarrow>
          if (case map_of FORMER_ROUTING_SURFACES word of Some ss \<Rightarrow> surface \<in> set ss | None \<Rightarrow> False) then Routing
          else if word = ''integrations'' then integrationsInheritor (normalizeHashPath h)
          else case List.find (\<lambda>p. page_name p = word) VALID_PAGES of Some p \<Rightarrow> p | None \<Rightarrow> Dashboard)"
  using assms by (simp add: readPageFromHash_def Let_def)

lemma retired_root_page:
  assumes "hash_word w" "routeMatchesPrefix raw w" "map_of RETIRED_ROOTS w = Some p"
  shows "readPageFromHash raw = p"
  using root_of_match [OF assms(1,2)] assms(3)
  by (auto simp: readPageFromHash_def Let_def split: prod.split)

lemma former_surface_page:
  assumes "hash_word w" "hash_word v" "routeMatchesPrefix raw (w @ CHR ''/'' # v)"
    and "map_of RETIRED_ROOTS w = None" "map_of FORMER_ROUTING_SURFACES w = Some ss" "v \<in> set ss"
  shows "readPageFromHash raw = Routing"
  using surface_of_match [OF assms(1-3)] assms(4-6) by (simp add: readPageFromHash_def Let_def)

lemma integrations_page:
  assumes "routeMatchesPrefix raw ''integrations''"
  shows "readPageFromHash raw = integrationsInheritor raw"
proof -
  have "hash_word ''integrations''" by code_simp
  from root_of_match [OF this assms] obtain sf where raw: "normalizeHashPath raw = raw"
      "root_and_surface (fst (parseHashRoute raw)) = (''integrations'', sf)"
    by (metis prod.collapse)
  have none: "map_of RETIRED_ROOTS ''integrations'' = None" "map_of FORMER_ROUTING_SURFACES ''integrations'' = None"
    by code_simp+
  show ?thesis by (subst readPage_eq, simp only: raw, simp only: none raw option.case if_False simp_thms if_True)
qed

section \<open>Lemmas on resolution\<close>

definition routing_words :: "string set" where
  "routing_words = {''combos'', ''evaluation'', ''analytics'', ''compatibility'', ''routing''}"

lemma fixed_targets:
  "resolveAppHashChange ''logs/debug'' = \<lparr>ha_page = Logs, ha_replaceTo = None\<rparr>"
  "resolveAppHashChange OPENAI_ACCOUNT_ACCESS_HASH = \<lparr>ha_page = Providers, ha_replaceTo = None\<rparr>"
  "resolveAppHashChange ''api'' = \<lparr>ha_page = Api, ha_replaceTo = None\<rparr>"
  "resolveAppHashChange ''harnesses'' = \<lparr>ha_page = Harnesses, ha_replaceTo = None\<rparr>"
  "resolveAppHashChange ''providers'' = \<lparr>ha_page = Providers, ha_replaceTo = None\<rparr>"
  by code_simp+

lemma page_targets: "p \<noteq> Integrations \<Longrightarrow> resolveAppHashChange (page_name p) = \<lparr>ha_page = p, ha_replaceTo = None\<rparr>"
proof -
  have "list_all (\<lambda>p. p = Integrations \<or> resolveAppHashChange (page_name p) = \<lparr>ha_page = p, ha_replaceTo = None\<rparr>)
      VALID_PAGES"
    by code_simp
  moreover have "p \<in> set VALID_PAGES" by (cases p) (simp_all add: VALID_PAGES_def)
  moreover assume "p \<noteq> Integrations"
  ultimately show ?thesis unfolding list_all_iff by blast
qed

lemma routing_targets:
  assumes "s \<in> routing_words"
  shows "resolveAppHashChange (routingHashForSurface s) = \<lparr>ha_page = Routing, ha_replaceTo = None\<rparr>"
  using assms unfolding routing_words_def by (elim insertE emptyE; hypsubst; code_simp)

lemma page_not_integrations: "readPageFromHash h \<noteq> Integrations"
proof -
  obtain r sf where e: "root_and_surface (fst (parseHashRoute (normalizeHashPath h))) = (r, sf)" by fastforce
  have found: "p \<noteq> Integrations"
    if "r \<noteq> ''integrations''" "List.find (\<lambda>p. page_name p = r) VALID_PAGES = Some p" for p
    using that by (auto simp: find_Some_iff)
  show ?thesis
  proof (cases "map_of RETIRED_ROOTS r")
    case None
    show ?thesis
    proof (cases "r = ''integrations''")
      case False
      show ?thesis
      proof (cases "List.find (\<lambda>p. page_name p = r) VALID_PAGES")
        case (Some p)
        from found [OF False this] show ?thesis
          by (subst readPage_eq [OF e]) (simp only: None False Some option.case if_False page.distinct simp_thms split: if_split)
      qed (subst readPage_eq [OF e], simp only: None False option.case if_False page.distinct simp_thms split: if_split)
    next
      case True
      have "integrationsInheritor raw \<noteq> Integrations" for raw by (simp add: integrationsInheritor_def)
      with True None show ?thesis by (subst readPage_eq [OF e]) (simp split: if_split)
    qed
  next
    case (Some p)
    from map_of_SomeD [OF this] have "p \<noteq> Integrations" by (auto simp: RETIRED_ROOTS_def)
    then show ?thesis by (subst readPage_eq [OF e]) (simp only: Some option.case simp_thms)
  qed
qed

lemma harness_path: "fst (parseHashRoute (''harnesses/'' @ i)) = ''harnesses/'' @ takeWhile (\<lambda>c. c \<noteq> CHR ''?'') i"
  by (simp add: parseHashRoute_def normalizeHashPath_def starts_with_def splitTarget_def cut_at_def Let_def)

lemma other_head [simp]: "c \<noteq> d \<Longrightarrow> routeMatchesPrefix (c # s) (d # w) = False"
  by (auto simp: routeMatchesPrefix_def starts_with_def)

lemma harness_resolves:
  "resolveAppHashChange (''harnesses/'' @ i) =
     \<lparr>ha_page = Harnesses,
      ha_replaceTo = (if hashBelongsToPage (''harnesses/'' @ i) Harnesses then None else Some ''harnesses'')\<rparr>"
proof -
  let ?h = "''harnesses/'' @ i"
  have w: "hash_word ''harnesses''" by code_simp
  have m: "routeMatchesPrefix ?h ''harnesses''" by (simp add: routeMatchesPrefix_def starts_with_def)
  from root_of_match [OF w m] obtain sf where raw: "normalizeHashPath ?h = ?h"
      "root_and_surface (fst (parseHashRoute ?h)) = (''harnesses'', sf)"
    by (metis prod.collapse)
  have none: "map_of RETIRED_ROOTS ''harnesses'' = None" "map_of FORMER_ROUTING_SURFACES ''harnesses'' = None"
      "List.find (\<lambda>p. page_name p = ''harnesses'') VALID_PAGES = Some Harnesses"
      "(''harnesses'' = ''integrations'') = False"
    by code_simp+
  have page: "readPageFromHash ?h = Harnesses"
    by (subst readPage_eq, simp only: raw, simp only: none raw option.case if_False)
  have routing: "retiredRoutingSurface ?h = None"
    unfolding retiredRoutingSurface_def former_pairs_def RETIRED_ROUTING_ROOTS_def FORMER_ROUTING_SURFACES_def
      ROUTING_ROOT_WORD_def
    by simp
  have "\<not> isRetiredApiSpelling ?h" "retiredHarnessTarget ?h = None"
    by (simp_all add: isRetiredApiSpelling_def retiredHarnessTarget_def starts_with_def
        RENAMED_INTEGRATIONS_SURFACES_def RETIRED_HARNESS_ROOTS_def)
  then show ?thesis
    by (simp add: resolveAppHashChange_def page [simplified] routing [simplified])
qed

lemma find_match:
  assumes "List.find (\<lambda>(w, _). P w) ps = Some (w, x)"
  shows "(w, x) \<in> set ps \<and> P w"
  using assms by (auto simp: find_Some_iff dest: nth_mem)

lemma retired_surface:
  assumes "retiredRoutingSurface raw = Some s"
  shows "s \<in> routing_words \<and> readPageFromHash raw = Routing"
proof (cases "List.find (\<lambda>(w, _). routeMatchesPrefix raw w) RETIRED_ROUTING_ROOTS")
  case (Some ws)
  then obtain w where w: "List.find (\<lambda>(w, _). routeMatchesPrefix raw w) RETIRED_ROUTING_ROOTS = Some (w, s)"
    using assms by (cases ws) (simp add: retiredRoutingSurface_def)
  from find_match [OF this] have in_set: "(w, s) \<in> set RETIRED_ROUTING_ROOTS" and m: "routeMatchesPrefix raw w"
    by simp_all
  have all: "list_all (\<lambda>(w, s). hash_word w \<and> map_of RETIRED_ROOTS w = Some Routing
      \<and> s \<in> routing_words) RETIRED_ROUTING_ROOTS"
    by code_simp
  from bspec [OF all [unfolded list_all_iff] in_set]
  have w: "hash_word w" "map_of RETIRED_ROOTS w = Some Routing" "s \<in> routing_words" by simp_all
  show ?thesis using retired_root_page [OF w(1) m w(2)] w(3) by simp
next
  case None
  then obtain full where f: "List.find (\<lambda>(w, _). routeMatchesPrefix raw w) former_pairs = Some (full, s)"
    using assms by (auto simp: retiredRoutingSurface_def split: option.splits)
  from find_match [OF this] have in_set: "(full, s) \<in> set former_pairs" and m: "routeMatchesPrefix raw full"
    by simp_all
  then obtain host ss where host: "(host, ss) \<in> set FORMER_ROUTING_SURFACES" "s \<in> set ss"
      "full = host @ CHR ''/'' # s"
    unfolding former_pairs_def by auto
  have all: "list_all (\<lambda>(host, ss). hash_word host \<and> map_of RETIRED_ROOTS host = None
      \<and> map_of FORMER_ROUTING_SURFACES host = Some ss \<and> list_all (\<lambda>s. hash_word s
      \<and> s \<in> routing_words) ss) FORMER_ROUTING_SURFACES"
    by code_simp
  from bspec [OF all [unfolded list_all_iff] host(1)] host(2)
  have h: "hash_word host" "map_of RETIRED_ROOTS host = None" "map_of FORMER_ROUTING_SURFACES host = Some ss"
      and s: "hash_word s" "s \<in> routing_words"
    by simp_all
  show ?thesis using former_surface_page [OF h(1) s(1) m [unfolded host(3)] h(2,3) host(2)] s(2) by simp
qed

lemma retired_harness:
  assumes "retiredHarnessTarget raw = Some t" "\<not> isRetiredApiSpelling raw"
  shows "readPageFromHash raw = Harnesses
    \<and> (t = ''harnesses'' \<or> (\<exists>i. t = ''harnesses/'' @ i
        \<and> (CHR ''?'' \<in> set i \<longrightarrow> starts_with raw ''integrations/'' \<and> CHR ''?'' \<in> set raw)))"
proof -
  let ?fits = "\<lambda>i. CHR ''?'' \<in> set i \<longrightarrow> starts_with raw ''integrations/'' \<and> CHR ''?'' \<in> set raw"
  have closed: "readPageFromHash ''claude'' = Harnesses" "readPageFromHash ''grok'' = Harnesses"
      "readPageFromHash ''integrations/claude/desktop'' = Harnesses" "readPageFromHash ''integrations'' = Harnesses"
      "readPageFromHash ''integrations/'' = Harnesses"
    by code_simp+
  consider "raw = ''integrations/claude/desktop''" "t = ''harnesses/'' @ ''claude-desktop''"
    | "raw = ''integrations'' \<or> raw = ''integrations/''" "t = ''harnesses''"
    | i where "raw = ''integrations'' @ CHR ''/'' # i" "t = ''harnesses/'' @ i"
    | "raw = ''claude''" "t = ''harnesses/'' @ ''claude''" | "raw = ''grok''" "t = ''harnesses/'' @ ''grok''"
    using assms(1)
    by (auto simp: retiredHarnessTarget_def RENAMED_INTEGRATIONS_SURFACES_def RETIRED_HARNESS_ROOTS_def Let_def
        starts_with_iff prefix_def split: if_splits)
  then show ?thesis
  proof cases
    case (3 i)
    have "routeMatchesPrefix raw ''integrations''" using 3 by (simp add: routeMatchesPrefix_def starts_with_def)
    then have "readPageFromHash raw = integrationsInheritor raw" by (rule integrations_page)
    moreover have "integrationsInheritor raw = Harnesses"
      using assms(2) by (auto simp: integrationsInheritor_def isRetiredApiSpelling_def routeMatchesPrefix_def)
    ultimately have page: "readPageFromHash raw = Harnesses" by simp
    have fits: "?fits i" using 3 by (simp add: starts_with_def)
    show ?thesis by (rule conjI, rule page, rule disjI2, rule exI [of _ i], rule conjI, rule 3(2), rule fits)
  qed (use closed in \<open>auto\<close>)
qed

lemma api_page: "isRetiredApiSpelling raw \<Longrightarrow> readPageFromHash raw = Api"
proof -
  assume r: "isRetiredApiSpelling raw"
  have "readPageFromHash ''api/keys'' = Api" by code_simp
  moreover have "readPageFromHash raw = Api" if m: "routeMatchesPrefix raw ''integrations/keys''"
  proof -
    have "routeMatchesPrefix raw ''integrations''"
      using m by (auto simp: routeMatchesPrefix_def starts_with_iff prefix_def)
    from integrations_page [OF this] m show ?thesis
      by (auto simp: integrationsInheritor_def routeMatchesPrefix_def)
  qed
  ultimately show ?thesis using r by (auto simp: isRetiredApiSpelling_def)
qed

lemma root_pages:
  "routeMatchesPrefix raw ''debug'' \<Longrightarrow> readPageFromHash raw = Logs"
  "routeMatchesPrefix raw ''codex-auth'' \<Longrightarrow> readPageFromHash raw = Providers"
  by (rule retired_root_page [rotated], assumption, code_simp, code_simp)+

section \<open>Properties\<close>

text \<open>What it means that a hash is settled for a page: the router shows the page and leaves the hash alone.\<close>

definition settled :: "string \<Rightarrow> page \<Rightarrow> bool" where
  "settled h p \<longleftrightarrow> resolveAppHashChange h = \<lparr>ha_page = p, ha_replaceTo = None\<rparr>"

lemma settled_simps [simp]:
  "settled ''logs/debug'' Logs" "settled OPENAI_ACCOUNT_ACCESS_HASH Providers" "settled ''api'' Api"
  "settled ''harnesses'' Harnesses" "settled ''providers'' Providers" "p \<noteq> Integrations \<Longrightarrow> settled (page_name p) p"
  "s \<in> routing_words \<Longrightarrow> settled (routingHashForSurface s) Routing"
  unfolding settled_def
  by (rule fixed_targets page_targets routing_targets | assumption)+

lemma harness_settled:
  "settled (''harnesses/'' @ i) Harnesses
   \<or> CHR ''?'' \<in> set i \<and> resolveAppHashChange (''harnesses/'' @ i) = \<lparr>ha_page = Harnesses, ha_replaceTo = Some ''harnesses''\<rparr>"
proof (cases "hashBelongsToPage (''harnesses/'' @ i) Harnesses")
  case True
  then show ?thesis unfolding settled_def harness_resolves by simp
next
  case False
  have "hashBelongsToPage (''harnesses/'' @ i) Harnesses" if "CHR ''?'' \<notin> set i"
  proof -
    have w: "takeWhile (\<lambda>c. c \<noteq> CHR ''?'') i = i" "dropWhile (\<lambda>c. c \<noteq> CHR ''?'') i = []"
      using that by (auto simp: takeWhile_eq_all_conv)
    have "parseHashRoute (''harnesses/'' @ i) = (''harnesses/'' @ i, [])"
      by (simp add: parseHashRoute_def normalizeHashPath_def starts_with_def splitTarget_def cut_at_def w
          search_params_def)
    then show ?thesis
      by (simp add: hashBelongsToPage_def hasQuery_def query_keys_def pageOwnsPath_def plain_route_def starts_with_def)
  qed
  with False show ?thesis unfolding harness_resolves by auto
qed

text \<open>C14: resolution agrees with the page a cold load renders, a hash that is left alone belongs to that page,
  and a correction lands on a hash that the router leaves alone and shows the same page for: a corrected
  address is not corrected again. The one exception is a retired \<^verbatim>\<open>integrations/\<close> bookmark that carries a
  query, which needs a second correction.\<close>

theorem hash_resolution_converges:
  "ha_page (resolveAppHashChange h) = readPageFromHash h
   \<and> (case ha_replaceTo (resolveAppHashChange h) of
        None \<Rightarrow> hashBelongsToPage h (readPageFromHash h)
      | Some t \<Rightarrow>
          settled t (readPageFromHash h)
          \<or> starts_with h ''integrations/'' \<and> CHR ''?'' \<in> set h
            \<and> resolveAppHashChange t = \<lparr>ha_page = readPageFromHash h, ha_replaceTo = Some ''harnesses''\<rparr>
            \<and> settled ''harnesses'' (readPageFromHash h))"
proof (cases "routeMatchesPrefix h ''debug'' \<or> routeMatchesPrefix h ''codex-auth''")
  case True
  then show ?thesis using root_pages [of h] by (auto simp: resolveAppHashChange_def Let_def)
next
  case False
  note start = this
  show ?thesis
  proof (cases "retiredRoutingSurface h")
    case (Some s)
    from retired_surface [OF this] start Some show ?thesis by (simp add: resolveAppHashChange_def Let_def)
  next
    case None
    note noroute = this
    show ?thesis
    proof (cases "isRetiredApiSpelling h")
      case True
      from api_page [OF this] True start noroute show ?thesis by (simp add: resolveAppHashChange_def Let_def)
    next
      case False
      note noapi = this
      show ?thesis
      proof (cases "retiredHarnessTarget h")
        case (Some t)
        have r: "resolveAppHashChange h = \<lparr>ha_page = Harnesses, ha_replaceTo = Some t\<rparr>"
          using start noroute noapi Some by (simp add: resolveAppHashChange_def Let_def)
        from retired_harness [OF Some noapi] harness_settled show ?thesis by (auto simp: r)
      next
        case None
        show ?thesis
        proof (cases "h = ''providers/workspace''")
          case True
          have "readPageFromHash ''providers/workspace'' = Providers" by code_simp
          with True start noroute noapi None show ?thesis by (simp add: resolveAppHashChange_def Let_def)
        next
          case False
          with start noroute noapi None page_not_integrations [of h] show ?thesis
            by (simp add: resolveAppHashChange_def Let_def)
        qed
      qed
    qed
  qed
qed

section \<open>The address bar\<close>

text \<open>
  A correction keeps the history and, done twice, changes nothing more; a navigation pushes one entry
  and is a no-op on the hash already shown. Both need a target that does not itself begin with a
  slash: \<^verbatim>\<open>#//x\<close> loses its second slash to the marker when it is read back.
\<close>

lemma shown_target:
  "\<not> starts_with (normalizeHashPath h) ''/'' \<Longrightarrow> normalizeHashPath (''#'' @ normalizeHashPath h) = normalizeHashPath h"
  by (cases "normalizeHashPath h") (auto simp: normalizeHashPath_def starts_with_def)

lemma replaceHash_passive: "ab_back (replaceHash h win) = ab_back win"
  by (simp add: replaceHash_def split: option.split)

lemma replaceHash_once:
  "\<not> starts_with (normalizeHashPath h) ''/'' \<Longrightarrow> replaceHash h (replaceHash h win) = replaceHash h win"
  using shown_target [of h] by (auto simp: replaceHash_def pendingTarget_def Let_def)

lemma navigateHash_once:
  "\<not> starts_with (normalizeHashPath h) ''/'' \<Longrightarrow> navigateHash h (navigateHash h win) = navigateHash h win"
  using shown_target [of h] by (auto simp: navigateHash_def pendingTarget_def Let_def)

section \<open>Links between pages\<close>

lemma hex_upper_hex: "n < 16 \<Longrightarrow> hex_value (upper_hex n) = Some n"
proof -
  assume "n < 16"
  moreover have "list_all (\<lambda>n. hex_value (upper_hex n) = Some n) [0..<16]" by code_simp
  ultimately show ?thesis by (simp add: list_all_iff)
qed

lemma nibbles: "of_char c div 16 < (16 :: nat)" "of_char c mod 16 < (16 :: nat)"
  by (rule less_mult_imp_div_less, simp) simp

lemma cut_none: "d \<notin> set s \<Longrightarrow> cut_at d s = (s, [])"
  unfolding cut_at_def by (induction s) auto

lemma cut_first: "d \<notin> set a \<Longrightarrow> cut_at d (a @ d # b) = (a, b)"
  unfolding cut_at_def by (induction a) auto

lemma form_decode_char: "form_decode (form_char c @ s) = c # form_decode s"
proof -
  consider "form_safe c" | "c = CHR '' ''" | "\<not> form_safe c" "c \<noteq> CHR '' ''" by blast
  then show ?thesis
  proof cases
    case 1
    then have "c \<noteq> CHR ''+''" "c \<noteq> CHR ''%''" by (auto simp: form_safe_def less_eq_char_def)
    with 1 show ?thesis by (simp add: form_char_def)
  next
    case 2
    then show ?thesis by (simp add: form_char_def form_safe_def less_eq_char_def)
  next
    case 3
    have "16 * (of_char c div 16) + of_char c mod 16 = (of_char c :: nat)" by simp
    then show ?thesis using 3 by (simp add: form_char_def hex_upper_hex nibbles)
  qed
qed

lemma form_roundtrip: "form_decode (form_encode s) = s"
  by (induction s) (simp_all add: form_encode_def form_decode_char)

definition form_text_char :: "char \<Rightarrow> bool" where
  "form_text_char c \<longleftrightarrow> form_safe c \<or> c = CHR ''+'' \<or> c = CHR ''%''"

lemma upper_hex_safe: "n < 16 \<Longrightarrow> form_safe (upper_hex n)"
proof -
  assume "n < 16"
  moreover have "list_all (\<lambda>n. form_safe (upper_hex n)) [0..<16]" by code_simp
  ultimately show ?thesis by (simp add: list_all_iff)
qed

lemma form_encode_chars: "x \<in> set (form_encode s) \<Longrightarrow> form_text_char x"
proof -
  have "form_text_char x" if "x \<in> set (form_char c)" for c
  proof -
    show ?thesis
      using that upper_hex_safe nibbles
      by (auto simp: form_char_def form_text_char_def split: if_splits)
  qed
  then show "x \<in> set (form_encode s) \<Longrightarrow> form_text_char x" by (auto simp: form_encode_def)
qed

lemma form_text_delims:
  "\<not> form_text_char CHR ''&''" "\<not> form_text_char CHR ''=''" "\<not> form_text_char CHR ''?''"
  by (simp_all add: form_text_char_def form_safe_def less_eq_char_def)

lemma form_delims:
  "CHR ''&'' \<notin> set (form_encode s)" "CHR ''='' \<notin> set (form_encode s)" "CHR ''?'' \<notin> set (form_encode s)"
  using form_encode_chars form_text_delims by blast+

lemma params_text_search: "k \<noteq> [] \<Longrightarrow> search_params (params_text k v) = [(k, v)]"
proof -
  assume k: "k \<noteq> []"
  let ?t = "form_encode k @ ''='' @ form_encode v"
  have "form_encode k \<noteq> []" using k form_roundtrip [of k] by auto
  then have "\<not> starts_with ?t ''?''"
    using form_delims(3) [of k] by (cases "form_encode k") (auto simp: starts_with_def)
  moreover have "CHR ''&'' \<notin> set ?t" using form_delims(1) by auto
  moreover have "cut_at CHR ''='' ?t = (form_encode k, form_encode v)"
    using cut_first [OF form_delims(2)] by simp
  ultimately show ?thesis
    by (simp add: params_text_def search_params_def split_on_none query_pair_def form_roundtrip Let_def)
qed

lemma link_parse:
  assumes "hash_word w" "k \<noteq> []"
  shows "parseHashRoute (join_with ''?'' [w, params_text k v]) = (w, [(k, v)])"
    and "cut_at CHR ''?'' (normalizeHashPath (join_with ''?'' [w, params_text k v])) = (w, params_text k v)"
    and "CHR ''?'' \<in> set (normalizeHashPath (join_with ''?'' [w, params_text k v]))"
proof -
  show c: "cut_at CHR ''?'' (normalizeHashPath (join_with ''?'' [w, params_text k v])) = (w, params_text k v)"
    using cut_first [OF word_chars(2) [OF assms(1)]] assms(1) by simp
  show "parseHashRoute (join_with ''?'' [w, params_text k v]) = (w, [(k, v)])"
    unfolding parseHashRoute_def splitTarget_def c using params_text_search [OF assms(2)] by simp
  show "CHR ''?'' \<in> set (normalizeHashPath (join_with ''?'' [w, params_text k v]))"
    using assms(1) by simp
qed

lemma settledI:
  assumes "\<not> routeMatchesPrefix h ''debug''" "\<not> routeMatchesPrefix h ''codex-auth''" "retiredRoutingSurface h = None"
    "\<not> isRetiredApiSpelling h" "retiredHarnessTarget h = None" "h \<noteq> ''providers/workspace''"
    "readPageFromHash h = p" "hashBelongsToPage h p"
  shows "settled h p"
  using assms by (simp add: settled_def resolveAppHashChange_def Let_def)

lemmas resolution_defs =
  retiredRoutingSurface_def former_pairs_def RETIRED_ROUTING_ROOTS_def FORMER_ROUTING_SURFACES_def ROUTING_ROOT_WORD_def
  isRetiredApiSpelling_def retiredHarnessTarget_def RENAMED_INTEGRATIONS_SURFACES_def RETIRED_HARNESS_ROOTS_def
  routeMatchesPrefix_def starts_with_def

lemma not_retired:
  assumes "h = ''logs?'' @ r \<or> h = ''sessions?'' @ r \<or> h = ''providers/'' @ r"
  shows "\<not> routeMatchesPrefix h ''debug'' \<and> \<not> routeMatchesPrefix h ''codex-auth'' \<and> retiredRoutingSurface h = None
    \<and> \<not> isRetiredApiSpelling h \<and> retiredHarnessTarget h = None"
  using assms by (elim disjE; hypsubst; simp add: resolution_defs)

lemma page_of_path:
  assumes "hash_word w" "normalizeHashPath h = h" "fst (parseHashRoute h) = w"
    "map_of RETIRED_ROOTS w = None" "map_of FORMER_ROUTING_SURFACES w = None" "w \<noteq> ''integrations''"
    "List.find (\<lambda>p. page_name p = w) VALID_PAGES = Some p"
  shows "readPageFromHash h = p"
proof -
  have e: "root_and_surface (fst (parseHashRoute (normalizeHashPath h))) = (w, [])"
    unfolding assms(2,3) by (rule root_word(1) [OF assms(1)])
  show ?thesis unfolding readPage_eq [OF e] using assms(4-7) by simp
qed

lemma logs_link: "settled (logsHashForSession i) Logs \<and> logsSessionIdFromHash (logsHashForSession i) = trim i"
proof -
  let ?h = "join_with ''?'' [''logs'', params_text ''sessionId'' i]"
  have w: "hash_word ''logs''" "''sessionId'' \<noteq> []" "map_of RETIRED_ROOTS ''logs'' = None"
      "map_of FORMER_ROUTING_SURFACES ''logs'' = None" "List.find (\<lambda>p. page_name p = ''logs'') VALID_PAGES = Some Logs"
    by code_simp+
  note link = link_parse [OF w(1,2), of i]
  have norm: "normalizeHashPath ?h = ?h" by (simp add: normalizeHashPath_def starts_with_def)
  have "readPageFromHash ?h = Logs"
    using w link(1) norm by (intro page_of_path [of "''logs''"]) (simp_all del: join_with.simps)
  moreover have "hashBelongsToPage ?h Logs"
    unfolding hashBelongsToPage_def link(1) by (simp add: plain_route_def logsHashIsAllowed_def query_keys_def)
  ultimately have "settled ?h Logs"
    using not_retired [of ?h "params_text ''sessionId'' i"] by (intro settledI) simp_all
  moreover have "logsSessionIdFromHash ?h = trim i"
    unfolding logsSessionIdFromHash_def Let_def link(2) using link(3) params_text_search [OF w(2)] by simp
  ultimately show ?thesis by (simp add: logsHashForSession_def)
qed

lemma sessions_link:
  assumes "k = ''policy'' \<or> k = ''combo''"
  shows "(trim i \<noteq> [] \<longrightarrow> settled (join_with ''?'' [''sessions'', params_text k (trim i)]) Sessions)
    \<and> sessions_param k' (join_with ''?'' [''sessions'', params_text k (trim i)]) = (if k' = k then trim i else [])"
proof -
  let ?h = "join_with ''?'' [''sessions'', params_text k (trim i)]"
  have w: "hash_word ''sessions''" "map_of RETIRED_ROOTS ''sessions'' = None"
      "map_of FORMER_ROUTING_SURFACES ''sessions'' = None"
      "List.find (\<lambda>p. page_name p = ''sessions'') VALID_PAGES = Some Sessions"
    by code_simp+
  have k: "k \<noteq> []" using assms by auto
  note link = link_parse [OF w(1) k, of "trim i"]
  have norm: "normalizeHashPath ?h = ?h" by (simp add: normalizeHashPath_def starts_with_def)
  have "readPageFromHash ?h = Sessions"
    using w link(1) norm by (intro page_of_path [of "''sessions''"]) (simp_all del: join_with.simps)
  moreover have "hashBelongsToPage ?h Sessions" if "trim i \<noteq> []"
    unfolding hashBelongsToPage_def link(1) using assms that
    by (auto simp: plain_route_def sessionsHashIsAllowed_def query_keys_def)
  ultimately have "settled ?h Sessions" if "trim i \<noteq> []"
    using not_retired [of ?h "params_text k (trim i)"] that by (intro settledI) simp_all
  moreover have "sessions_param k' ?h = (if k' = k then trim i else [])"
    unfolding sessions_param_def sessionsPathAndQuery_def Let_def link(2)
    using link(3) params_text_search [OF k] by simp
  ultimately show ?thesis by blast
qed

lemma provider_link:
  assumes "n \<noteq> []" "CHR ''/'' \<notin> set n" "CHR ''?'' \<notin> set n"
  shows "settled (providerAccessHash n) Providers \<and> readProviderAccessHash (providerAccessHash n) = Some n"
proof -
  let ?h = "providerAccessHash n"
  have norm: "normalizeHashPath ?h = ?h" by (simp add: providerAccessHash_def normalizeHashPath_def starts_with_def)
  have "CHR ''?'' \<notin> set ?h" using assms(3) by (simp add: providerAccessHash_def)
  then have parse: "parseHashRoute ?h = (?h, [])"
    by (simp add: parseHashRoute_def splitTarget_def cut_none norm search_params_def starts_with_def)
  have form: "?h = ''providers'' @ CHR ''/'' # n @ CHR ''/'' # ''access''" by (simp add: providerAccessHash_def)
  have split: "split_on CHR ''/'' ?h = [''providers'', n, ''access'']"
    unfolding form using assms(2) by (subst split_on_append, simp, subst split_on_append, simp_all add: split_on_none)
  have rd: "readProviderAccessHash ?h = Some n"
    unfolding readProviderAccessHash_def parse using assms(1) by (simp add: query_keys_def split)
  have e: "root_and_surface (fst (parseHashRoute (normalizeHashPath ?h))) = (''providers'', n)"
    unfolding norm parse by (simp add: root_and_surface_def split)
  have none: "map_of RETIRED_ROOTS ''providers'' = None" "map_of FORMER_ROUTING_SURFACES ''providers'' = None"
      "List.find (\<lambda>p. page_name p = ''providers'') VALID_PAGES = Some Providers"
    by code_simp+
  have "readPageFromHash ?h = Providers" unfolding readPage_eq [OF e] none by simp
  moreover have "hashBelongsToPage ?h Providers"
    unfolding hashBelongsToPage_def parse by (simp add: plain_route_def hasQuery_def query_keys_def pageOwnsPath_def rd)
  moreover have "?h \<noteq> ''providers/workspace''"
  proof
    assume "?h = ''providers/workspace''"
    then have "split_on CHR ''/'' ?h = split_on CHR ''/'' ''providers/workspace''" by simp
    then show False unfolding split by simp
  qed
  ultimately have "settled ?h Providers"
    using not_retired [of ?h "n @ ''/access''"] by (intro settledI) (simp_all add: providerAccessHash_def)
  with rd show ?thesis by simp
qed

lemma storage_link: "settled (storageTabHash tab) Storage \<and> readStorageTab (storageTabHash tab) = tab"
  unfolding settled_def by (cases tab; simp only: storageTabHash.simps; code_simp)

text \<open>The links one page writes are read back by the page they lead to, and the router leaves them alone.
  The session id of a Logs link and the policy or combo of a Sessions link survive the form encoding
  whatever characters they hold, a provider name survives as long as it is a plain path segment, and the
  Storage tabs are their hashes.\<close>

theorem page_links_roundtrip:
  "(settled (logsHashForSession i) Logs \<and> logsSessionIdFromHash (logsHashForSession i) = trim i)
   \<and> (trim i \<noteq> [] \<longrightarrow> settled (sessionsHashForPolicy i) Sessions \<and> settled (sessionsHashForCombo i) Sessions)
   \<and> sessionsPolicyFromHash (sessionsHashForPolicy i) = trim i \<and> sessionsComboFromHash (sessionsHashForPolicy i) = []
   \<and> sessionsComboFromHash (sessionsHashForCombo i) = trim i \<and> sessionsPolicyFromHash (sessionsHashForCombo i) = []
   \<and> (n \<noteq> [] \<and> CHR ''/'' \<notin> set n \<and> CHR ''?'' \<notin> set n \<longrightarrow>
        settled (providerAccessHash n) Providers \<and> readProviderAccessHash (providerAccessHash n) = Some n)
   \<and> settled (storageTabHash tab) Storage \<and> readStorageTab (storageTabHash tab) = tab"
  using logs_link [of i] provider_link [of n] storage_link [of tab]
    sessions_link [of "''policy''" i "''policy''"] sessions_link [of "''policy''" i "''combo''"]
    sessions_link [of "''combo''" i "''policy''"] sessions_link [of "''combo''" i "''combo''"]
  unfolding sessionsHashForPolicy_def sessionsHashForCombo_def sessionsPolicyFromHash_def sessionsComboFromHash_def
  by simp

theorem page_links_roundtrip_witness:
  "logsHashForSession ''a&b'' = ''logs?sessionId=a%26b'' \<and> settled (sessionsHashForPolicy ''my policy'') Sessions
   \<and> readProviderAccessHash (providerAccessHash ''openai'') = Some ''openai''"
proof (intro conjI)
  have "trim ''my policy'' \<noteq> []" by code_simp
  then show "settled (sessionsHashForPolicy ''my policy'') Sessions"
    using page_links_roundtrip [of "''my policy''"] by blast
  show "readProviderAccessHash (providerAccessHash ''openai'') = Some ''openai''"
    using page_links_roundtrip [of "[]" "''openai''"] by simp
qed code_simp

end
