(* ===== verification/Auto_Switch.thy ===== *)
theory Auto_Switch
  imports Benes_Prelude
begin

text \<open>
  \<^verbatim>\<open>gui/src/codex-auto-switch.ts\<close> and \<^verbatim>\<open>gui/src/hooks/useCodexAutoSwitch.ts\<close>: the auto-switch threshold of the
  account pool, its card and its one write. The hook is a step relation over the reducer's record,
  the reads begun (each with the revision at its start), the write in flight and the toggles whose
  write was accepted but whose continuation has not run. The answer to a write is free. Numbers are
  integers here: every threshold passed the integer check of the normalizers.
\<close>

section \<open>Policy\<close>

definition DEFAULT_AUTO_SWITCH_THRESHOLD :: int where "DEFAULT_AUTO_SWITCH_THRESHOLD = 80"
definition ENABLED_MIN :: int where "ENABLED_MIN = 1"
definition ENABLED_MAX :: int where "ENABLED_MAX = 100"

datatype read_disposition = Apply | Defer | Ignore

record toggle_plan =
  tp_threshold :: int
  tp_lastEnabled :: int

definition integerOrNull :: "json option \<Rightarrow> int option" where
  "integerOrNull raw =
     (case raw of Some (JNum (Fin q)) \<Rightarrow> if num_is_integer (Fin q) then Some \<lfloor>q\<rfloor> else None | _ \<Rightarrow> None)"

definition enabled_int :: "int \<Rightarrow> int option" where
  "enabled_int whole = (if ENABLED_MIN \<le> whole \<and> whole \<le> ENABLED_MAX then Some whole else None)"

definition enabledValue :: "json option \<Rightarrow> int option" where
  "enabledValue raw = Option.bind (integerOrNull raw) enabled_int"

definition normalizeAutoSwitchThreshold :: "json option \<Rightarrow> int" where
  "normalizeAutoSwitchThreshold raw =
     (case integerOrNull raw of
        None \<Rightarrow> DEFAULT_AUTO_SWITCH_THRESHOLD
      | Some whole \<Rightarrow> if whole < 0 \<or> whole > 100 then DEFAULT_AUTO_SWITCH_THRESHOLD else whole)"

definition parseEnabledAutoSwitchThreshold :: "string \<Rightarrow> int option" where
  "parseEnabledAutoSwitchThreshold typedText =
     (let digits = trim typedText
      in if digits = [] \<or> \<not> list_all is_digit digits then None
         else enabled_int (int (js_double (read_digits digits))))"

definition nextAutoSwitchThreshold :: "int \<Rightarrow> int \<Rightarrow> int" where
  "nextAutoSwitchThreshold active enabledBefore =
     (if active > 0 then 0
      else case enabled_int enabledBefore of Some v \<Rightarrow> v | None \<Rightarrow> DEFAULT_AUTO_SWITCH_THRESHOLD)"

definition autoSwitchThresholdReadDisposition :: "bool \<Rightarrow> bool \<Rightarrow> nat \<Rightarrow> nat \<Rightarrow> read_disposition" where
  "autoSwitchThresholdReadDisposition isEditing isSaving readRevision liveRevision =
     (if readRevision \<noteq> liveRevision then Ignore else if isEditing \<or> isSaving then Defer else Apply)"

definition extractAutoSwitchThresholdPayload :: "json option \<Rightarrow> json option" where
  "extractAutoSwitchThresholdPayload raw =
     (case raw of
        Some (JObj ps) \<Rightarrow>
          (case map_of ps ''autoSwitchThreshold'' of Some v \<Rightarrow> Some v | None \<Rightarrow> raw)
      | _ \<Rightarrow> raw)"

definition planAutoSwitchToggleWrite :: "int \<Rightarrow> string \<Rightarrow> int \<Rightarrow> toggle_plan" where
  "planAutoSwitchToggleWrite active typedText enabledBefore =
     (if active > 0 then
        (let restore = (case parseEnabledAutoSwitchThreshold typedText of
                          Some d \<Rightarrow> d | None \<Rightarrow> nextAutoSwitchThreshold 0 enabledBefore)
         in \<lparr>tp_threshold = 0, tp_lastEnabled = restore\<rparr>)
      else let enableTo = nextAutoSwitchThreshold active enabledBefore
           in \<lparr>tp_threshold = enableTo, tp_lastEnabled = enableTo\<rparr>)"

text \<open>The answer to the request: whether the response is ok, or nothing when it throws or times out.\<close>

definition putAutoSwitchThreshold :: "(int \<Rightarrow> bool option) \<Rightarrow> int \<Rightarrow> bool" where
  "putAutoSwitchThreshold request next =
     (if next < 0 \<or> next > 100 then False
      else case request next of Some ok \<Rightarrow> ok | None \<Rightarrow> False)"

section \<open>Reducer\<close>

datatype tone = Ok | Err

record auto_state =
  threshold :: int
  draft :: string
  lastEnabled :: int
  deferred :: "int option"
  revision :: nat
  hydrated :: bool
  saving :: bool
  loadError :: bool
  editing :: bool
  cancelledDraft :: bool
  notice :: "(tone \<times> string) option"

datatype auto_event =
    ServerValue int
  | ServerValueHeld int
  | HoldFlushed
  | ReadFailed
  | ReadSettled
  | SaveBegan
  | SaveAccepted int
  | SaveRejected int
  | SaveEnded
  | DraftChanged string
  | EditingChanged bool
  | DraftCancelled
  | DraftRejected
  | DraftSynced int
  | CancelledFlagCleared
  | ToggleApplied toggle_plan
  | NoticeRaised string bool
  | NoticeCleared

definition initialAutoSwitchState :: auto_state where
  "initialAutoSwitchState =
     \<lparr>threshold = DEFAULT_AUTO_SWITCH_THRESHOLD, draft = show_int DEFAULT_AUTO_SWITCH_THRESHOLD,
      lastEnabled = DEFAULT_AUTO_SWITCH_THRESHOLD, deferred = None, revision = 0, hydrated = False,
      saving = False, loadError = False, editing = False, cancelledDraft = False, notice = None\<rparr>"

definition confirmThreshold :: "auto_state \<Rightarrow> int \<Rightarrow> auto_state" where
  "confirmThreshold st v =
     (let le = (if v > 0 then v else lastEnabled st)
      in st\<lparr>threshold := v, lastEnabled := le, hydrated := True, draft := show_int (if v > 0 then v else le)\<rparr>)"

definition holdOrConfirm :: "auto_state \<Rightarrow> int \<Rightarrow> auto_state" where
  "holdOrConfirm st v =
     (if editing st \<or> saving st then st\<lparr>deferred := Some v\<rparr> else (confirmThreshold st v)\<lparr>deferred := None\<rparr>)"

definition releaseHold :: "auto_state \<Rightarrow> auto_state" where
  "releaseHold st =
     (case deferred st of
        Some v \<Rightarrow> (confirmThreshold st v)\<lparr>deferred := None\<rparr>
      | None \<Rightarrow> st\<lparr>draft := show_int (if threshold st > 0 then threshold st else lastEnabled st)\<rparr>)"

fun autoSwitchReducer :: "auto_state \<Rightarrow> auto_event \<Rightarrow> auto_state" where
  "autoSwitchReducer st (ServerValue v) = holdOrConfirm st v"
| "autoSwitchReducer st (ServerValueHeld v) = st\<lparr>deferred := Some v\<rparr>"
| "autoSwitchReducer st HoldFlushed =
     (case deferred st of None \<Rightarrow> st | Some v \<Rightarrow> (confirmThreshold st v)\<lparr>deferred := None\<rparr>)"
| "autoSwitchReducer st ReadFailed = (if hydrated st then st else st\<lparr>loadError := True\<rparr>)"
| "autoSwitchReducer st ReadSettled = (if loadError st then st\<lparr>loadError := False\<rparr> else st)"
| "autoSwitchReducer st SaveBegan =
     st\<lparr>saving := True, editing := False, notice := None, revision := revision st + 1\<rparr>"
| "autoSwitchReducer st (SaveAccepted v) =
     (confirmThreshold st v)\<lparr>deferred := None, revision := revision st + 1\<rparr>"
| "autoSwitchReducer st (SaveRejected previous) =
     (let bumped = st\<lparr>revision := revision st + 1\<rparr>
      in case deferred bumped of
           Some v \<Rightarrow> (confirmThreshold bumped v)\<lparr>deferred := None\<rparr>
         | None \<Rightarrow> confirmThreshold bumped previous)"
| "autoSwitchReducer st SaveEnded = st\<lparr>saving := False\<rparr>"
| "autoSwitchReducer st (DraftChanged t) =
     st\<lparr>editing := True, cancelledDraft := False, notice := None, draft := t\<rparr>"
| "autoSwitchReducer st (EditingChanged on) = st\<lparr>editing := on\<rparr>"
| "autoSwitchReducer st DraftCancelled = releaseHold (st\<lparr>editing := False, cancelledDraft := True, notice := None\<rparr>)"
| "autoSwitchReducer st DraftRejected = releaseHold (st\<lparr>editing := False\<rparr>)"
| "autoSwitchReducer st (DraftSynced v) = st\<lparr>draft := show_int v\<rparr>"
| "autoSwitchReducer st CancelledFlagCleared = st\<lparr>cancelledDraft := False\<rparr>"
| "autoSwitchReducer st (ToggleApplied plan) =
     st\<lparr>lastEnabled := tp_lastEnabled plan,
        draft := (if tp_threshold plan = 0 then show_int (tp_lastEnabled plan) else draft st)\<rparr>"
| "autoSwitchReducer st (NoticeRaised message e) = st\<lparr>notice := Some (if e then Err else Ok, message)\<rparr>"
| "autoSwitchReducer st NoticeCleared = (if notice st = None then st else st\<lparr>notice := None\<rparr>)"

section \<open>The hook\<close>

record auto_messages =
  msg_updated :: string
  msg_updateFailed :: string
  msg_invalid :: string

record pending_save =
  ps_next :: int
  ps_previous :: int
  ps_announce :: bool
  ps_toggle :: "toggle_plan option"

record auto_hook =
  st :: auto_state
  reads :: "nat list"
  inflight :: "pending_save list"
  tails :: "toggle_plan list"
  timer :: bool

definition initial_hook :: auto_hook where
  "initial_hook = \<lparr>st = initialAutoSwitchState, reads = [], inflight = [], tails = [], timer = False\<rparr>"

definition send :: "auto_event \<Rightarrow> auto_hook \<Rightarrow> auto_hook" where
  "send ev h = h\<lparr>st := autoSwitchReducer (st h) ev\<rparr>"

definition clearNoticeTimer :: "auto_hook \<Rightarrow> auto_hook" where
  "clearNoticeTimer h = h\<lparr>timer := False\<rparr>"

definition announce :: "string \<Rightarrow> bool \<Rightarrow> auto_hook \<Rightarrow> auto_hook" where
  "announce message e h = (send (NoticeRaised message e) (clearNoticeTimer h))\<lparr>timer := True\<rparr>"

definition notice_timeout :: "auto_hook \<Rightarrow> auto_hook" where
  "notice_timeout h = (send NoticeCleared h)\<lparr>timer := False\<rparr>"

definition beginServerRead :: "auto_hook \<Rightarrow> auto_hook" where
  "beginServerRead h = (let h' = send ReadSettled h in h'\<lparr>reads := reads h' @ [revision (st h')]\<rparr>)"

definition acceptServerRead :: "json option \<Rightarrow> nat \<Rightarrow> auto_hook \<Rightarrow> auto_hook" where
  "acceptServerRead v startedRevision h =
     (let current = st h;
          disposition = autoSwitchThresholdReadDisposition (editing current) (saving current) startedRevision (revision current)
      in if disposition = Ignore then h
         else let incoming = normalizeAutoSwitchThreshold (extractAutoSwitchThresholdPayload v)
              in send (if disposition = Defer then ServerValueHeld incoming else ServerValue incoming)
                   (send ReadSettled h))"

definition hydrateServerValue :: "json option \<Rightarrow> auto_hook \<Rightarrow> auto_hook" where
  "hydrateServerValue v h =
     (let current = st h
      in if hydrated current \<or> editing current \<or> saving current then h
         else let incoming = normalizeAutoSwitchThreshold (extractAutoSwitchThresholdPayload v)
              in send (ServerValue incoming) (send ReadSettled h))"

definition rejectServerRead :: "auto_hook \<Rightarrow> auto_hook" where
  "rejectServerRead h = send ReadFailed h"

definition write_begins :: "pending_save \<Rightarrow> auto_hook \<Rightarrow> auto_hook" where
  "write_begins w h =
     (if saving (st h) then h
      else (send SaveBegan (clearNoticeTimer h))\<lparr>inflight := inflight h @ [w]\<rparr>)"

definition write_settles :: "auto_messages \<Rightarrow> (int \<Rightarrow> bool option) \<Rightarrow> pending_save \<Rightarrow> auto_hook \<Rightarrow> auto_hook" where
  "write_settles messages request w h =
     (let h0 = h\<lparr>inflight := remove1 w (inflight h)\<rparr>
      in if putAutoSwitchThreshold request (ps_next w)
         then let h1 = send (SaveAccepted (ps_next w)) h0;
                  h2 = (if ps_announce w then announce (msg_updated messages) False h1 else h1);
                  h3 = send SaveEnded h2
              in h3\<lparr>tails := tails h3 @ (case ps_toggle w of Some p \<Rightarrow> [p] | None \<Rightarrow> [])\<rparr>
         else send SaveEnded
                (announce (msg_updateFailed messages) True (send (SaveRejected (ps_previous w)) h0)))"

definition toggle_tail :: "toggle_plan \<Rightarrow> auto_hook \<Rightarrow> auto_hook" where
  "toggle_tail p h = send (ToggleApplied p) (h\<lparr>tails := remove1 p (tails h)\<rparr>)"

definition commit :: "auto_messages \<Rightarrow> auto_hook \<Rightarrow> auto_hook" where
  "commit messages h =
     (let current = st h in
      if cancelledDraft current then send CancelledFlagCleared h
      else if \<not> hydrated current \<or> saving current then h
      else let h1 = send (EditingChanged False) h
           in case parseEnabledAutoSwitchThreshold (draft current) of
                None \<Rightarrow> send DraftRejected (announce (msg_invalid messages) True h1)
              | Some parsed \<Rightarrow>
                  if parsed = threshold current
                  then (let held = (deferred (st h1) \<noteq> None); h2 = send HoldFlushed h1
                        in if held then h2 else send (DraftSynced parsed) h2)
                  else write_begins \<lparr>ps_next = parsed, ps_previous = threshold current, ps_announce = True,
                         ps_toggle = None\<rparr> h1)"

definition toggle :: "auto_hook \<Rightarrow> auto_hook" where
  "toggle h =
     (let current = st h in
      if \<not> hydrated current \<or> saving current then h
      else let h1 = send (EditingChanged False) h;
               plan = planAutoSwitchToggleWrite (threshold current) (draft current) (lastEnabled current)
           in write_begins \<lparr>ps_next = tp_threshold plan, ps_previous = threshold current, ps_announce = True,
                ps_toggle = Some plan\<rparr> h1)"

definition setDraft :: "string \<Rightarrow> auto_hook \<Rightarrow> auto_hook" where
  "setDraft v h = (if \<not> hydrated (st h) then h else send (DraftChanged v) (clearNoticeTimer h))"

definition setEditing :: "bool \<Rightarrow> auto_hook \<Rightarrow> auto_hook" where
  "setEditing on h = send (EditingChanged on) h"

definition cancel :: "auto_hook \<Rightarrow> auto_hook" where
  "cancel h = send DraftCancelled (clearNoticeTimer h)"

definition retry :: "auto_hook \<Rightarrow> auto_hook" where
  "retry h = send NoticeCleared (send ReadSettled (clearNoticeTimer h))"

inductive auto_step :: "auto_hook \<Rightarrow> auto_hook \<Rightarrow> bool" where
  step_begin_read: "auto_step h (beginServerRead h)"
| step_accept_read: "r \<in> set (reads h) \<Longrightarrow> auto_step h (acceptServerRead v r (h\<lparr>reads := remove1 r (reads h)\<rparr>))"
| step_reject_read: "r \<in> set (reads h) \<Longrightarrow> auto_step h (rejectServerRead (h\<lparr>reads := remove1 r (reads h)\<rparr>))"
| step_hydrate: "auto_step h (hydrateServerValue v h)"
| step_commit: "auto_step h (commit messages h)"
| step_toggle: "auto_step h (toggle h)"
| step_settle: "w \<in> set (inflight h) \<Longrightarrow> auto_step h (write_settles messages request w h)"
| step_tail: "p \<in> set (tails h) \<Longrightarrow> auto_step h (toggle_tail p h)"
| step_draft: "auto_step h (setDraft t h)"
| step_editing: "auto_step h (setEditing on h)"
| step_cancel: "auto_step h (cancel h)"
| step_retry: "auto_step h (retry h)"
| step_timeout: "timer h \<Longrightarrow> auto_step h (notice_timeout h)"

abbreviation reachable_auto :: "auto_hook \<Rightarrow> bool" where
  "reachable_auto \<equiv> reach (\<lambda>h. h = initial_hook) auto_step"

section \<open>Invariants\<close>

abbreviation percent :: "int \<Rightarrow> bool" where
  "percent v \<equiv> 0 \<le> v \<and> v \<le> 100"

abbreviation enabled_percent :: "int \<Rightarrow> bool" where
  "enabled_percent v \<equiv> 1 \<le> v \<and> v \<le> 100"

definition state_ok :: "auto_state \<Rightarrow> bool" where
  "state_ok s \<longleftrightarrow>
     percent (threshold s) \<and> enabled_percent (lastEnabled s) \<and> pred_option percent (deferred s)
     \<and> (\<not> hydrated s \<longrightarrow> threshold s = DEFAULT_AUTO_SWITCH_THRESHOLD)"

fun event_ok :: "auto_event \<Rightarrow> bool" where
  "event_ok (ServerValue v) = percent v"
| "event_ok (ServerValueHeld v) = percent v"
| "event_ok (SaveAccepted v) = percent v"
| "event_ok (SaveRejected v) = percent v"
| "event_ok (ToggleApplied p) = enabled_percent (tp_lastEnabled p)"
| "event_ok _ = True"

definition save_ok :: "pending_save \<Rightarrow> bool" where
  "save_ok w \<longleftrightarrow>
     percent (ps_next w) \<and> percent (ps_previous w) \<and> ps_next w \<noteq> ps_previous w
     \<and> pred_option (\<lambda>p. enabled_percent (tp_lastEnabled p)) (ps_toggle w)"

definition auto_ok :: "auto_hook \<Rightarrow> bool" where
  "auto_ok h \<longleftrightarrow>
     state_ok (st h) \<and> (saving (st h) \<longleftrightarrow> inflight h \<noteq> []) \<and> length (inflight h) \<le> 1
     \<and> (\<forall>w \<in> set (inflight h). save_ok w \<and> hydrated (st h))
     \<and> (\<forall>p \<in> set (tails h). enabled_percent (tp_lastEnabled p))"

lemma confirm_ok: "state_ok s \<Longrightarrow> percent v \<Longrightarrow> state_ok (confirmThreshold s v)"
  by (auto simp: state_ok_def confirmThreshold_def Let_def)

lemma state_ok_updates [simp]:
  "state_ok (s\<lparr>draft := d\<rparr>) = state_ok s" "state_ok (s\<lparr>revision := n\<rparr>) = state_ok s" "state_ok (s\<lparr>saving := b\<rparr>) = state_ok s"
  "state_ok (s\<lparr>loadError := b\<rparr>) = state_ok s" "state_ok (s\<lparr>editing := b\<rparr>) = state_ok s"
  "state_ok (s\<lparr>cancelledDraft := b\<rparr>) = state_ok s" "state_ok (s\<lparr>notice := n'\<rparr>) = state_ok s"
  by (simp_all add: state_ok_def)

lemma state_ok_deferred: "state_ok s \<Longrightarrow> pred_option percent d \<Longrightarrow> state_ok (s\<lparr>deferred := d\<rparr>)"
  by (simp add: state_ok_def)

lemma deferred_percent: "state_ok s \<Longrightarrow> deferred s = Some v \<Longrightarrow> percent v"
  by (simp add: state_ok_def)

lemma release_ok: "state_ok s \<Longrightarrow> state_ok (releaseHold s)"
  by (auto simp: releaseHold_def intro!: state_ok_deferred confirm_ok dest: deferred_percent split: option.split)

lemma reducer_ok: "state_ok s \<Longrightarrow> event_ok ev \<Longrightarrow> state_ok (autoSwitchReducer s ev)"
  by (cases ev)
     (auto simp: holdOrConfirm_def Let_def intro!: state_ok_deferred confirm_ok release_ok
        dest: deferred_percent split: option.split, auto simp: state_ok_def)

lemma reducer_saving:
  "saving (autoSwitchReducer s ev) =
     (case ev of SaveBegan \<Rightarrow> True | SaveEnded \<Rightarrow> False | _ \<Rightarrow> saving s)"
  by (cases ev) (auto simp: holdOrConfirm_def confirmThreshold_def releaseHold_def Let_def split: option.split)

lemma reducer_hydrated: "hydrated s \<Longrightarrow> hydrated (autoSwitchReducer s ev)"
  by (cases ev) (auto simp: holdOrConfirm_def confirmThreshold_def releaseHold_def Let_def split: option.split)

lemma send_fields [simp]:
  "st (send ev h) = autoSwitchReducer (st h) ev" "inflight (send ev h) = inflight h" "tails (send ev h) = tails h"
  "reads (send ev h) = reads h" "timer (send ev h) = timer h"
  by (simp_all add: send_def)

lemma auto_ok_updates [simp]:
  "auto_ok (h\<lparr>reads := r\<rparr>) = auto_ok h" "auto_ok (h\<lparr>timer := b\<rparr>) = auto_ok h"
  by (simp_all add: auto_ok_def)

text \<open>An event other than the two that bracket a save keeps the invariant.\<close>

lemma send_ok: "auto_ok h \<Longrightarrow> event_ok ev \<Longrightarrow> ev \<noteq> SaveBegan \<Longrightarrow> ev \<noteq> SaveEnded \<Longrightarrow> auto_ok (send ev h)"
  unfolding auto_ok_def
  by (cases ev) (auto simp: reducer_saving reducer_ok reducer_hydrated simp del: autoSwitchReducer.simps)

lemma announce_ok: "auto_ok h \<Longrightarrow> auto_ok (announce m e h)"
  unfolding announce_def clearNoticeTimer_def by (simp add: send_ok)

lemma normalize_percent: "percent (normalizeAutoSwitchThreshold v)"
  by (auto simp: normalizeAutoSwitchThreshold_def DEFAULT_AUTO_SWITCH_THRESHOLD_def split: option.split)

lemma enabled_int_some: "enabled_int n = Some v \<Longrightarrow> v = n \<and> enabled_percent v"
  by (auto simp: enabled_int_def ENABLED_MIN_def ENABLED_MAX_def split: if_splits)

lemma parse_percent: "parseEnabledAutoSwitchThreshold t = Some v \<Longrightarrow> enabled_percent v"
  using enabled_int_some by (auto simp: parseEnabledAutoSwitchThreshold_def Let_def split: if_splits)

lemma next_enabled: "\<not> active > 0 \<Longrightarrow> enabled_percent (nextAutoSwitchThreshold active n)"
  using enabled_int_some by (auto simp: nextAutoSwitchThreshold_def DEFAULT_AUTO_SWITCH_THRESHOLD_def split: option.split)

lemma plan_ok:
  assumes "percent active"
  shows "save_ok \<lparr>ps_next = tp_threshold (planAutoSwitchToggleWrite active t n), ps_previous = active,
    ps_announce = b, ps_toggle = Some (planAutoSwitchToggleWrite active t n)\<rparr>"
proof (cases "active > 0")
  case True
  then show ?thesis
    using assms parse_percent next_enabled [of 0 n]
    by (auto simp: save_ok_def planAutoSwitchToggleWrite_def Let_def split: option.split)
next
  case False
  then show ?thesis
    using assms next_enabled [of active n] by (auto simp: save_ok_def planAutoSwitchToggleWrite_def Let_def)
qed

lemma write_begins_ok: "auto_ok h \<Longrightarrow> save_ok w \<Longrightarrow> hydrated (st h) \<Longrightarrow> auto_ok (write_begins w h)"
  by (auto simp: auto_ok_def write_begins_def clearNoticeTimer_def state_ok_def)

lemma write_settles_ok:
  assumes "auto_ok h" "w \<in> set (inflight h)"
  shows "auto_ok (write_settles m r w h)"
proof -
  have one: "inflight h = [w]" using assms by (cases "inflight h") (auto simp: auto_ok_def)
  have w: "save_ok w" using assms by (simp add: auto_ok_def)
  have tails: "\<forall>p \<in> set (case ps_toggle w of Some p \<Rightarrow> [p] | None \<Rightarrow> []). enabled_percent (tp_lastEnabled p)"
    using w by (cases "ps_toggle w") (auto simp: save_ok_def)
  show ?thesis
  proof (cases "putAutoSwitchThreshold r (ps_next w)")
    case True
    have "state_ok (autoSwitchReducer (st h) (SaveAccepted (ps_next w)))"
      using assms(1) w by (intro reducer_ok) (auto simp: auto_ok_def save_ok_def)
    with True one tails assms(1) show ?thesis
      by (auto simp: write_settles_def Let_def announce_def clearNoticeTimer_def auto_ok_def reducer_ok
          simp del: autoSwitchReducer.simps(7))
  next
    case False
    have "state_ok (autoSwitchReducer (st h) (SaveRejected (ps_previous w)))"
      using assms(1) w by (intro reducer_ok) (auto simp: auto_ok_def save_ok_def)
    with False one assms(1) show ?thesis
      by (auto simp: write_settles_def Let_def announce_def clearNoticeTimer_def auto_ok_def reducer_ok
          simp del: autoSwitchReducer.simps(8))
  qed
qed

lemma accept_ok: "auto_ok h \<Longrightarrow> auto_ok (acceptServerRead v r h)"
  using normalize_percent by (auto simp: acceptServerRead_def Let_def intro!: send_ok)

lemma hydrate_ok: "auto_ok h \<Longrightarrow> auto_ok (hydrateServerValue v h)"
  using normalize_percent by (auto simp: hydrateServerValue_def Let_def intro!: send_ok)

lemma toggle_ok: "auto_ok h \<Longrightarrow> auto_ok (toggle h)"
proof -
  assume h: "auto_ok h"
  then have "percent (threshold (st h))" by (simp add: auto_ok_def state_ok_def)
  note plan = plan_ok [OF this]
  show ?thesis
    using h plan
    by (auto simp: toggle_def Let_def intro!: write_begins_ok send_ok)
qed

lemma commit_ok: "auto_ok h \<Longrightarrow> auto_ok (commit m h)"
proof -
  assume h: "auto_ok h"
  have save: "save_ok \<lparr>ps_next = n, ps_previous = threshold (st h), ps_announce = True, ps_toggle = None\<rparr>"
    if "parseEnabledAutoSwitchThreshold (draft (st h)) = Some n" "n \<noteq> threshold (st h)" for n
    using h parse_percent [OF that(1)] that(2) by (auto simp: save_ok_def auto_ok_def state_ok_def)
  show ?thesis
    using h save
    by (auto simp: commit_def Let_def intro!: write_begins_ok send_ok announce_ok split: option.split)
qed

lemma tail_ok:
  assumes "auto_ok h" "p \<in> set (tails h)"
  shows "auto_ok (toggle_tail p h)"
proof -
  have "enabled_percent (tp_lastEnabled p)" using assms by (simp add: auto_ok_def)
  moreover have "auto_ok (h\<lparr>tails := remove1 p (tails h)\<rparr>)"
    using assms(1) set_remove1_subset [of p "tails h"] by (auto simp: auto_ok_def)
  ultimately show ?thesis by (simp add: toggle_tail_def send_ok)
qed

lemma plain_handlers_ok:
  assumes "auto_ok h"
  shows "auto_ok (beginServerRead h)" "auto_ok (rejectServerRead h)" "auto_ok (setDraft t h)" "auto_ok (setEditing on h)"
    "auto_ok (cancel h)" "auto_ok (retry h)" "auto_ok (notice_timeout h)"
  using assms
  by (simp_all add: beginServerRead_def rejectServerRead_def setDraft_def setEditing_def cancel_def retry_def
      notice_timeout_def clearNoticeTimer_def Let_def send_ok)

lemma auto_ok_step: "auto_ok h \<Longrightarrow> auto_step h h' \<Longrightarrow> auto_ok h'"
  by (erule auto_step.cases)
     (simp_all add: accept_ok hydrate_ok toggle_ok commit_ok tail_ok write_settles_ok plain_handlers_ok)

lemma auto_ok_initial: "auto_ok initial_hook"
  by (simp add: auto_ok_def initial_hook_def initialAutoSwitchState_def state_ok_def DEFAULT_AUTO_SWITCH_THRESHOLD_def)

interpretation auto_switch: machine "\<lambda>h. h = initial_hook" auto_step auto_ok
  by unfold_locales (auto simp: auto_ok_initial intro: auto_ok_step)

section \<open>Properties\<close>

lemma accepted_save:
  "putAutoSwitchThreshold r (ps_next w) \<Longrightarrow>
   threshold (st (write_settles m r w h)) = ps_next w \<and> deferred (st (write_settles m r w h)) = None"
  by (auto simp: write_settles_def announce_def clearNoticeTimer_def confirmThreshold_def Let_def)

lemma rejected_save:
  "\<not> putAutoSwitchThreshold r (ps_next w) \<Longrightarrow>
   threshold (st (write_settles m r w h)) = (case deferred (st h) of Some v \<Rightarrow> v | None \<Rightarrow> ps_previous w)"
  by (auto simp: write_settles_def announce_def clearNoticeTimer_def confirmThreshold_def Let_def split: option.split)

lemma settled_revision: "revision (st (write_settles m r w h)) = Suc (revision (st h))"
  by (auto simp: write_settles_def announce_def clearNoticeTimer_def confirmThreshold_def Let_def split: option.split)

lemma stale_read_dropped: "r \<noteq> revision (st h) \<Longrightarrow> acceptServerRead v r h = h"
  by (simp add: acceptServerRead_def autoSwitchThresholdReadDisposition_def Let_def)

text \<open>The numbers of the auto-switch card stay in range whatever is typed, read or refused. In every
  reachable state the threshold and a held read are within 0..100 and the value a toggle restores within
  1..100; at most one write is in flight, exactly while the card is saving, it asks for a new value in
  range, and it never happens before the listener confirmed a value. When the write settles, an accepted
  value is the threshold, a refused one gives way to the read held during the write or to the threshold
  before it, and every read begun earlier is dropped.\<close>

theorem auto_switch_bounds:
  assumes "reachable_auto h"
  shows "percent (threshold (st h)) \<and> enabled_percent (lastEnabled (st h)) \<and> pred_option percent (deferred (st h))
   \<and> (saving (st h) \<longleftrightarrow> inflight h \<noteq> []) \<and> length (inflight h) \<le> 1
   \<and> (\<forall>w \<in> set (inflight h).
        percent (ps_next w) \<and> ps_next w \<noteq> ps_previous w \<and> hydrated (st h)
        \<and> threshold (st (write_settles m r w h)) =
            (if putAutoSwitchThreshold r (ps_next w) then ps_next w
             else case deferred (st h) of Some v \<Rightarrow> v | None \<Rightarrow> ps_previous w)
        \<and> acceptServerRead v (revision (st h)) (write_settles m r w h) = write_settles m r w h)
   \<and> (\<not> hydrated (st h) \<longrightarrow> threshold (st h) = DEFAULT_AUTO_SWITCH_THRESHOLD)"
  using auto_switch.reachable_inv [OF assms] accepted_save rejected_save
  by (auto simp: auto_ok_def state_ok_def save_ok_def settled_revision intro!: stale_read_dropped)

definition sample_hook :: auto_hook where
  "sample_hook = toggle (hydrateServerValue (Some (JNum (Fin 40))) initial_hook)"

lemma sample_hook_reachable: "reachable_auto sample_hook"
  unfolding sample_hook_def
  by (rule reach_step, rule reach_step, rule reach_init, rule refl, rule step_hydrate, rule step_toggle)

theorem auto_switch_bounds_witness:
  "inflight sample_hook =
     [\<lparr>ps_next = 0, ps_previous = 40, ps_announce = True, ps_toggle = Some \<lparr>tp_threshold = 0, tp_lastEnabled = 40\<rparr>\<rparr>]
   \<and> threshold (st sample_hook) = 40 \<and> percent (threshold (st sample_hook)) \<and> saving (st sample_hook)"
proof (intro conjI)
  show infl: "inflight sample_hook =
     [\<lparr>ps_next = 0, ps_previous = 40, ps_announce = True, ps_toggle = Some \<lparr>tp_threshold = 0, tp_lastEnabled = 40\<rparr>\<rparr>]"
    by code_simp
  show "saving (st sample_hook)" using auto_switch_bounds [OF sample_hook_reachable] infl by simp
  show "0 \<le> threshold (st sample_hook)" "threshold (st sample_hook) \<le> 100"
    using auto_switch_bounds [OF sample_hook_reachable] by blast+
qed code_simp

end
