(* ===== verification/Model_Visibility.thy ===== *)
theory Model_Visibility
  imports Benes_Prelude
begin

text \<open>
  \<^verbatim>\<open>gui/src/model-visibility.ts\<close> and the visibility queue of \<^verbatim>\<open>gui/src/pages/use-models-change-writes.ts\<close>: which
  models a provider's allowlist and the disabled list admit, the two requests that change them, the
  decoders of their reads, and the board that applies changes optimistically and sends them one after
  the other. A JavaScript \<^verbatim>\<open>Set\<close> is the list of its elements in insertion order. The listener is a record
  that stores the body of every request it accepts; which requests it accepts is free. Provider names
  are own properties of the response objects.
\<close>

section \<open>Sets in insertion order\<close>

definition set_add :: "'a \<Rightarrow> 'a list \<Rightarrow> 'a list" where
  "set_add x xs = (if x \<in> set xs then xs else xs @ [x])"

definition set_delete :: "'a \<Rightarrow> 'a list \<Rightarrow> 'a list" where
  "set_delete x xs = filter (\<lambda>y. y \<noteq> x) xs"

definition set_of :: "'a list \<Rightarrow> 'a list" where
  "set_of xs = foldl (\<lambda>acc x. set_add x acc) [] xs"

section \<open>Reading\<close>

datatype preset_mode = Preset | AllModels | Custom
datatype new_model_policy = On | Off
datatype arrival_state = AutoDisabled | Enabled

record preset_row =
  pr_mode :: preset_mode
  pr_available :: bool
  pr_version :: "jsnum option"
  pr_matched :: jsnum
  pr_catalog :: jsnum
  pr_selected :: "string list option"
  pr_warning :: "string option"

record arrival =
  ar_id :: string
  ar_state :: arrival_state

record discovery_row =
  dr_policy :: new_model_policy
  dr_arrivals :: "arrival list"
  dr_skip :: bool

record discovery_state =
  ds_newModelPolicy :: new_model_policy
  ds_providers :: "(string \<times> discovery_row) list"

definition recordOrThrow :: "json option \<Rightarrow> string \<Rightarrow> (string, (string \<times> json) list) result" where
  "recordOrThrow v message = (case v of Some (JObj ps) \<Rightarrow> Inr ps | _ \<Rightarrow> Inl message)"

definition text_item :: "json \<Rightarrow> (string, string) result" where
  "text_item v = (case v of JStr s \<Rightarrow> Inr s | _ \<Rightarrow> Inl ''invalid model list'')"

definition stringArrayOrThrow :: "json \<Rightarrow> (string, string list) result" where
  "stringArrayOrThrow v =
     (case v of
        JArr vs \<Rightarrow> bindR (mapR text_item vs) (\<lambda>items. Inr (set_of items))
      | _ \<Rightarrow> Inl ''invalid model list'')"

text \<open>A response: whether it is ok, its status, and its body when that is JSON.\<close>

datatype response = Response bool nat "json option"

definition getParsed :: "response \<Rightarrow> string \<Rightarrow> (json \<Rightarrow> (string, 'a) result) \<Rightarrow> (string, 'a) result" where
  "getParsed resp label parse =
     (case resp of Response ok status body \<Rightarrow>
        if \<not> ok then Inl (label @ '' HTTP '' @ show_nat status)
        else case body of None \<Rightarrow> Inl ''invalid JSON'' | Some v \<Rightarrow> parse v)"

definition parseSelectedModels :: "json \<Rightarrow> (string, (string \<times> string list) list) result" where
  "parseSelectedModels v =
     bindR (recordOrThrow (Some v) ''invalid selected models response'') (\<lambda>root.
     bindR (recordOrThrow (map_of root ''selected'') ''invalid selected models response'') (\<lambda>providers.
     mapR (\<lambda>(provider, ids). bindR (stringArrayOrThrow ids) (\<lambda>l. Inr (provider, l))) providers))"

definition fetchSelectedModels :: "response \<Rightarrow> (string, (string \<times> string list) list) result" where
  "fetchSelectedModels resp = getParsed resp ''selected models'' parseSelectedModels"

definition presetMode :: "json option \<Rightarrow> preset_mode" where
  "presetMode v =
     (if v = Some (JStr ''preset'') then Preset else if v = Some (JStr ''all'') then AllModels else Custom)"

definition all_text :: "json list \<Rightarrow> string list option" where
  "all_text vs =
     (if list_all (\<lambda>v. case v of JStr _ \<Rightarrow> True | _ \<Rightarrow> False) vs
      then Some (map (\<lambda>v. case v of JStr s \<Rightarrow> s | _ \<Rightarrow> []) vs) else None)"

definition parsePresetRow :: "json \<Rightarrow> (string, preset_row) result" where
  "parsePresetRow v =
     bindR (recordOrThrow (Some v) ''invalid model presets response'') (\<lambda>raw.
     case (map_of raw ''matched'', map_of raw ''catalog'') of
       (Some (JNum m), Some (JNum c)) \<Rightarrow>
         Inr \<lparr>pr_mode = presetMode (map_of raw ''mode''),
              pr_available = (map_of raw ''available'' = Some (JBool True)),
              pr_version = (case map_of raw ''version'' of Some (JNum n) \<Rightarrow> Some n | _ \<Rightarrow> None),
              pr_matched = m, pr_catalog = c,
              pr_selected = (case map_of raw ''selected'' of Some (JArr vs) \<Rightarrow> all_text vs | _ \<Rightarrow> None),
              pr_warning = (case map_of raw ''warning'' of Some (JStr w) \<Rightarrow> if w \<noteq> [] then Some w else None | _ \<Rightarrow> None)\<rparr>
     | _ \<Rightarrow> Inl ''invalid model presets response'')"

definition parseModelPresets :: "json \<Rightarrow> (string, (string \<times> preset_row) list) result" where
  "parseModelPresets v =
     bindR (recordOrThrow (Some v) ''invalid model presets response'') (\<lambda>root.
     bindR (recordOrThrow (map_of root ''providers'') ''invalid model presets response'') (\<lambda>providers.
     mapR (\<lambda>(provider, raw). bindR (parsePresetRow raw) (\<lambda>r. Inr (provider, r))) providers))"

definition fetchModelPresets :: "response \<Rightarrow> (string, (string \<times> preset_row) list) result" where
  "fetchModelPresets resp = getParsed resp ''model presets'' parseModelPresets"

definition discoveryPolicy :: "json option \<Rightarrow> new_model_policy" where
  "discoveryPolicy v = (if v = Some (JStr ''off'') then Off else On)"

definition parseArrival :: "json \<Rightarrow> (string, arrival) result" where
  "parseArrival v =
     bindR (recordOrThrow (Some v) ''invalid model discovery response'') (\<lambda>raw.
     case map_of raw ''id'' of
       Some (JStr i) \<Rightarrow>
         Inr \<lparr>ar_id = i, ar_state = (if map_of raw ''state'' = Some (JStr ''enabled'') then Enabled else AutoDisabled)\<rparr>
     | _ \<Rightarrow> Inl ''invalid model discovery response'')"

definition parseDiscoveryProvider :: "json \<Rightarrow> (string, discovery_row) result" where
  "parseDiscoveryProvider v =
     bindR (recordOrThrow (Some v) ''invalid model discovery response'') (\<lambda>raw.
     case map_of raw ''arrivals'' of
       Some (JArr vs) \<Rightarrow>
         bindR (mapR parseArrival vs) (\<lambda>arrivals.
         Inr \<lparr>dr_policy = discoveryPolicy (map_of raw ''policy''), dr_arrivals = arrivals,
              dr_skip = (map_of raw ''skip'' = Some (JBool True))\<rparr>)
     | _ \<Rightarrow> Inl ''invalid model discovery response'')"

definition parseModelDiscovery :: "json \<Rightarrow> (string, discovery_state) result" where
  "parseModelDiscovery v =
     bindR (recordOrThrow (Some v) ''invalid model discovery response'') (\<lambda>root.
     bindR (recordOrThrow (map_of root ''providers'') ''invalid model discovery response'') (\<lambda>rawProviders.
     bindR (mapR (\<lambda>(provider, raw). bindR (parseDiscoveryProvider raw) (\<lambda>r. Inr (provider, r))) rawProviders) (\<lambda>ps.
     Inr \<lparr>ds_newModelPolicy = discoveryPolicy (map_of root ''newModelPolicy''), ds_providers = ps\<rparr>)))"

definition fetchModelDiscovery :: "response \<Rightarrow> (string, discovery_state) result" where
  "fetchModelDiscovery resp = getParsed resp ''model discovery'' parseModelDiscovery"

definition arrivalOffCount :: "discovery_row option \<Rightarrow> nat" where
  "arrivalOffCount row =
     (case row of None \<Rightarrow> 0 | Some r \<Rightarrow> length (filter (\<lambda>a. ar_state a = AutoDisabled) (dr_arrivals r)))"

section \<open>Visibility\<close>

type_synonym provider_models = "string \<Rightarrow> string list option"

datatype visibility_scope = ScopeModels | ScopeProvider

record visibility_target =
  vt_id :: string
  vt_native :: "bool option"

definition modelIncluded :: "provider_models \<Rightarrow> string \<Rightarrow> string \<Rightarrow> bool \<Rightarrow> bool" where
  "modelIncluded selected provider modelId native =
     (if native then True
      else case selected provider of
             None \<Rightarrow> True
           | Some configured \<Rightarrow> configured = [] \<or> modelId \<in> set configured)"

definition modelVisible :: "provider_models \<Rightarrow> string \<Rightarrow> string \<Rightarrow> bool \<Rightarrow> bool \<Rightarrow> bool" where
  "modelVisible selected provider modelId native blocked =
     (if blocked then False else modelIncluded selected provider modelId native)"

definition canonicalTargetId :: "string \<Rightarrow> string \<Rightarrow> string option" where
  "canonicalTargetId provider modelId =
     (let i = trim modelId
      in if i = [] then None else Some (if CHR ''/'' \<in> set i then i else provider @ ''/'' @ i))"

definition unqualifiedId :: "string \<Rightarrow> string" where
  "unqualifiedId i =
     (let slash = length (takeWhile (\<lambda>c. c \<noteq> CHR ''/'') i)
      in if slash < length i \<and> slash > 0 \<and> slash < length i - 1 then drop (slash + 1) i else i)"

definition normalizedDisabled :: "string list \<Rightarrow> string list" where
  "normalizedDisabled current =
     foldl (\<lambda>acc v. let i = trim v in if i \<noteq> [] then set_add i acc else acc) [] current"

definition disable_target :: "string \<Rightarrow> bool \<Rightarrow> string list \<Rightarrow> visibility_target \<Rightarrow> string list" where
  "disable_target provider enabled acc target =
     (case canonicalTargetId provider (vt_id target) of
        None \<Rightarrow> acc
      | Some canonical \<Rightarrow>
          if \<not> enabled then set_add canonical acc
          else set_delete (trim (vt_id target)) (set_delete (unqualifiedId canonical) (set_delete canonical acc)))"

definition nextDisabledModels :: "string list \<Rightarrow> string \<Rightarrow> visibility_target list \<Rightarrow> bool \<Rightarrow> string list" where
  "nextDisabledModels current provider targets enabled =
     sort (foldl (disable_target provider enabled) (normalizedDisabled current) targets)"

definition customTargetIds :: "visibility_target list \<Rightarrow> string list" where
  "customTargetIds targets =
     foldl (\<lambda>acc target.
       if vt_native target = Some True then acc
       else let i = trim (vt_id target) in if i \<noteq> [] then set_add i acc else acc) [] targets"

definition nextSelectedAllowlist ::
  "provider_models \<Rightarrow> visibility_scope \<Rightarrow> string \<Rightarrow> visibility_target list \<Rightarrow> bool \<Rightarrow> string list option" where
  "nextSelectedAllowlist selected scope provider targets enabled =
     (if \<not> enabled then None
      else let requested = customTargetIds targets
           in if requested = [] then None
              else case selected provider of
                     None \<Rightarrow> None
                   | Some existing \<Rightarrow>
                       if existing = [] then None
                       else if scope = ScopeProvider then Some []
                       else let base = set_of existing; merged = foldl (\<lambda>acc i. set_add i acc) base requested
                            in if length merged = length base then None else Some merged)"

section \<open>Writing\<close>

datatype request = PutDisabled "string list" | PutSelected string "string list"
datatype put_result = PutThrows | PutStatus bool

record visibility_write =
  vw_scope :: visibility_scope
  vw_provider :: string
  vw_targets :: "visibility_target list"
  vw_enabled :: bool
  vw_disabled :: "string list"
  vw_selected :: provider_models

record listener =
  ls_disabled :: "string list"
  ls_selected :: provider_models

fun store :: "request \<Rightarrow> listener \<Rightarrow> listener" where
  "store (PutDisabled l) s = s\<lparr>ls_disabled := l\<rparr>"
| "store (PutSelected p l) s = s\<lparr>ls_selected := (ls_selected s)(p \<mapsto> l)\<rparr>"

definition put :: "(request \<Rightarrow> put_result) \<Rightarrow> request \<Rightarrow> listener \<Rightarrow> put_result \<times> listener" where
  "put answer r s = (answer r, if answer r = PutStatus True then store r s else s)"

definition putModelVisibility :: "(request \<Rightarrow> put_result) \<Rightarrow> visibility_write \<Rightarrow> listener \<Rightarrow> put_result \<times> listener" where
  "putModelVisibility answer w s =
     (let disabled = nextDisabledModels (vw_disabled w) (vw_provider w) (vw_targets w) (vw_enabled w);
          (first, s1) = put answer (PutDisabled disabled) s
      in if first \<noteq> PutStatus True then (first, s1)
         else case nextSelectedAllowlist (vw_selected w) (vw_scope w) (vw_provider w) (vw_targets w) (vw_enabled w) of
                None \<Rightarrow> (first, s1)
              | Some allowlist \<Rightarrow> put answer (PutSelected (vw_provider w) allowlist) s1)"

datatype save_outcome = Saved | Rejected | NetworkError

fun saveOutcome :: "put_result \<Rightarrow> save_outcome" where
  "saveOutcome (PutStatus True) = Saved"
| "saveOutcome (PutStatus False) = Rejected"
| "saveOutcome PutThrows = NetworkError"

section \<open>The board\<close>

record board =
  vb_disabled :: "string list"
  vb_selected :: provider_models
  vb_queue :: "visibility_write list"

definition applyVisibility ::
  "visibility_scope \<Rightarrow> string \<Rightarrow> visibility_target list \<Rightarrow> bool \<Rightarrow> board \<Rightarrow> board" where
  "applyVisibility scope provider targets enabled b =
     (let previousDisabled = vb_disabled b; previousSelected = vb_selected b;
          optimisticDisabled = nextDisabledModels previousDisabled provider targets enabled;
          selectedPatch = nextSelectedAllowlist previousSelected scope provider targets enabled;
          w = \<lparr>vw_scope = scope, vw_provider = provider, vw_targets = targets, vw_enabled = enabled,
               vw_disabled = previousDisabled, vw_selected = previousSelected\<rparr>
      in \<lparr>vb_disabled = optimisticDisabled,
          vb_selected = (case selectedPatch of Some l \<Rightarrow> previousSelected(provider \<mapsto> l) | None \<Rightarrow> previousSelected),
          vb_queue = vb_queue b @ [w]\<rparr>)"

text \<open>The head of the queue is sent; a failed write reloads the board from what the listener lists.\<close>

definition settle_head ::
  "(listener \<Rightarrow> string list \<times> provider_models) \<Rightarrow> (request \<Rightarrow> put_result) \<Rightarrow> board \<times> listener
   \<Rightarrow> save_outcome option \<times> board \<times> listener" where
  "settle_head load answer bs =
     (case bs of (b, s) \<Rightarrow>
        (case vb_queue b of
           [] \<Rightarrow> (None, b, s)
         | w # rest \<Rightarrow>
             (let (r, s1) = putModelVisibility answer w s; b1 = b\<lparr>vb_queue := rest\<rparr>
              in if saveOutcome r = Saved then (Some Saved, b1, s1)
                 else (Some (saveOutcome r),
                       b1\<lparr>vb_disabled := fst (load s1), vb_selected := snd (load s1)\<rparr>, s1))))"

text \<open>A burst of changes made on the board, and the queue being sent with one answer per write.\<close>

type_synonym change = "visibility_scope \<times> string \<times> visibility_target list \<times> bool"

definition apply_change :: "board \<Rightarrow> change \<Rightarrow> board" where
  "apply_change b c = (case c of (scope, provider, targets, enabled) \<Rightarrow> applyVisibility scope provider targets enabled b)"

definition burst :: "change list \<Rightarrow> board \<Rightarrow> board" where
  "burst cs b = foldl apply_change b cs"

fun drain ::
  "(listener \<Rightarrow> string list \<times> provider_models) \<Rightarrow> (request \<Rightarrow> put_result) list \<Rightarrow> board \<times> listener
   \<Rightarrow> save_outcome option list \<times> board \<times> listener" where
  "drain load [] bs = ([], bs)"
| "drain load (a # as) bs =
     (let (o1, bs1) = settle_head load a bs; (os, bs2) = drain load as bs1 in (o1 # os, bs2))"

section \<open>Lemmas on the lists\<close>

lemma set_set_add [simp]: "set (set_add x xs) = insert x (set xs)"
  by (auto simp: set_add_def)

lemma distinct_set_add [simp]: "distinct xs \<Longrightarrow> distinct (set_add x xs)"
  by (simp add: set_add_def)

lemma set_set_delete [simp]: "set (set_delete x xs) = set xs - {x}"
  by (auto simp: set_delete_def)

lemma distinct_set_delete [simp]: "distinct xs \<Longrightarrow> distinct (set_delete x xs)"
  by (simp add: set_delete_def)

lemma fold_set_add:
  "set (foldl (\<lambda>acc x. set_add x acc) acc xs) = set acc \<union> set xs"
  "distinct acc \<Longrightarrow> distinct (foldl (\<lambda>acc x. set_add x acc) acc xs)"
  by (induction xs arbitrary: acc) auto

lemma set_set_of [simp]: "set (set_of xs) = set xs" and distinct_set_of [simp]: "distinct (set_of xs)"
  by (simp_all add: set_of_def fold_set_add)

lemma length_fold_set_add:
  assumes "distinct acc" "length (foldl (\<lambda>acc x. set_add x acc) acc xs) = length acc"
  shows "set xs \<subseteq> set acc"
proof -
  let ?m = "foldl (\<lambda>acc x. set_add x acc) acc xs"
  have "card (set ?m) = card (set acc)"
    using assms fold_set_add(2) [OF assms(1), of xs] by (simp add: distinct_card)
  moreover have "set acc \<subseteq> set ?m" by (simp add: fold_set_add)
  ultimately have "set acc = set ?m" by (metis List.finite_set card_subset_eq)
  then show ?thesis using fold_set_add(1) [of acc xs] by blast
qed

lemma normalizedDisabled_set:
  "set (normalizedDisabled current) = trim ` set current - {[]}" "distinct (normalizedDisabled current)"
proof -
  have "set (foldl (\<lambda>acc v. let i = trim v in if i \<noteq> [] then set_add i acc else acc) acc current)
      = set acc \<union> (trim ` set current - {[]})
    \<and> (distinct acc \<longrightarrow> distinct (foldl (\<lambda>acc v. let i = trim v in if i \<noteq> [] then set_add i acc else acc) acc current))"
    for acc
    by (induction current arbitrary: acc) (auto simp: Let_def)
  from this [of "[]"] show "set (normalizedDisabled current) = trim ` set current - {[]}"
    "distinct (normalizedDisabled current)" by (simp_all add: normalizedDisabled_def)
qed

lemma customTargetIds_set:
  "set (customTargetIds targets) = (\<lambda>t. trim (vt_id t)) ` {t \<in> set targets. vt_native t \<noteq> Some True} - {[]}"
proof -
  have "set (foldl (\<lambda>acc target. if vt_native target = Some True then acc
       else let i = trim (vt_id target) in if i \<noteq> [] then set_add i acc else acc) acc targets)
      = set acc \<union> ((\<lambda>t. trim (vt_id t)) ` {t \<in> set targets. vt_native t \<noteq> Some True} - {[]})" for acc
    by (induction targets arbitrary: acc) (auto simp: Let_def)
  from this [of "[]"] show ?thesis by (simp add: customTargetIds_def)
qed

text \<open>The names a target removes from the disabled list when it is enabled.\<close>

definition touched :: "string \<Rightarrow> visibility_target \<Rightarrow> string set" where
  "touched provider t =
     (case canonicalTargetId provider (vt_id t) of
        None \<Rightarrow> {} | Some c \<Rightarrow> {c, unqualifiedId c, trim (vt_id t)})"

lemma fold_enable:
  "set (foldl (disable_target p True) acc ts) = set acc - \<Union> (touched p ` set ts)"
  "distinct acc \<Longrightarrow> distinct (foldl (disable_target p e) acc ts)"
  by (induction ts arbitrary: acc) (auto simp: disable_target_def touched_def split: option.split)

lemma fold_disable:
  "set (foldl (disable_target p False) acc ts) = set acc \<union> {c. \<exists>t \<in> set ts. canonicalTargetId p (vt_id t) = Some c}"
  by (induction ts arbitrary: acc) (auto simp: disable_target_def split: option.split)

lemma nextDisabled_set:
  "set (nextDisabledModels d p ts True) = trim ` set d - {[]} - \<Union> (touched p ` set ts)"
  "set (nextDisabledModels d p ts False) =
     trim ` set d - {[]} \<union> {c. \<exists>t \<in> set ts. canonicalTargetId p (vt_id t) = Some c}"
  "sorted (nextDisabledModels d p ts e)" "distinct (nextDisabledModels d p ts e)"
  by (simp_all add: nextDisabledModels_def fold_enable fold_disable normalizedDisabled_set)

definition patched :: "provider_models \<Rightarrow> string \<Rightarrow> string list option \<Rightarrow> provider_models" where
  "patched selected provider patch = (case patch of Some l \<Rightarrow> selected(provider \<mapsto> l) | None \<Rightarrow> selected)"

lemma allowlist_admits:
  assumes "t \<in> set ts" "trim (vt_id t) \<noteq> []"
  shows "modelIncluded (patched sel p (nextSelectedAllowlist sel scope p ts True)) p (trim (vt_id t)) (vt_native t = Some True)"
proof (cases "vt_native t = Some True")
  case False
  then have req: "trim (vt_id t) \<in> set (customTargetIds ts)"
    using assms by (auto simp: customTargetIds_set)
  then have ne: "customTargetIds ts \<noteq> []" by auto
  show ?thesis
  proof (cases "sel p")
    case (Some existing)
    let ?base = "set_of existing" and ?merged = "foldl (\<lambda>acc i. set_add i acc) (set_of existing) (customTargetIds ts)"
    have "trim (vt_id t) \<in> set existing" if "length ?merged = length ?base"
      using length_fold_set_add [OF distinct_set_of that] req by auto
    moreover have "trim (vt_id t) \<in> set ?merged" using req by (simp add: fold_set_add)
    ultimately show ?thesis
      using Some False ne by (auto simp: modelIncluded_def patched_def nextSelectedAllowlist_def Let_def)
  qed (simp add: modelIncluded_def patched_def nextSelectedAllowlist_def Let_def)
qed (simp add: modelIncluded_def)

section \<open>Lemmas on the queue\<close>

fun run_writes :: "(request \<Rightarrow> put_result) list \<Rightarrow> visibility_write list \<Rightarrow> listener \<Rightarrow> save_outcome list \<times> listener" where
  "run_writes (a # as) (w # ws) s =
     (let (r, s1) = putModelVisibility a w s; (os, s2) = run_writes as ws s1 in (saveOutcome r # os, s2))"
| "run_writes _ _ s = ([], s)"

lemma run_writes_snoc:
  "length as = length ws \<Longrightarrow>
   run_writes (as @ [a]) (ws @ [w]) s =
     (fst (run_writes as ws s) @ [saveOutcome (fst (putModelVisibility a w (snd (run_writes as ws s))))],
      snd (putModelVisibility a w (snd (run_writes as ws s))))"
  by (induction as ws arbitrary: s rule: list_induct2) (auto simp: Let_def split: prod.splits)

lemma drain_runs:
  "length as = length (vb_queue b) \<Longrightarrow>
   fst (drain load as (b, s)) = map Some (fst (run_writes as (vb_queue b) s))
   \<and> snd (snd (drain load as (b, s))) = snd (run_writes as (vb_queue b) s)"
proof (induction as arbitrary: b s)
  case (Cons a as)
  then obtain w ws where q: "vb_queue b = w # ws" by (cases "vb_queue b") auto
  obtain r s1 where p: "putModelVisibility a w s = (r, s1)" by fastforce
  obtain o1 b1 where h: "settle_head load a (b, s) = (Some o1, b1, s1)" "o1 = saveOutcome r" "vb_queue b1 = ws"
    using q p by (cases "saveOutcome r = Saved") (auto simp: settle_head_def Let_def)
  from Cons.IH [of b1 s1] h q p Cons.prems show ?case by (auto simp: Let_def split: prod.splits)
qed simp

lemma saveOutcome_Saved: "saveOutcome r = Saved \<longleftrightarrow> r = PutStatus True"
  by (cases r rule: saveOutcome.cases) auto

lemma saved_write:
  assumes "saveOutcome (fst (putModelVisibility a w s)) = Saved"
  shows "ls_disabled (snd (putModelVisibility a w s)) =
      nextDisabledModels (vw_disabled w) (vw_provider w) (vw_targets w) (vw_enabled w)"
    and "ls_selected s = vw_selected w \<Longrightarrow> ls_selected (snd (putModelVisibility a w s)) =
      patched (vw_selected w) (vw_provider w)
        (nextSelectedAllowlist (vw_selected w) (vw_scope w) (vw_provider w) (vw_targets w) (vw_enabled w))"
  using assms unfolding saveOutcome_Saved
  by (auto simp: putModelVisibility_def put_def patched_def Let_def split: if_splits option.splits)

lemma burst_snoc: "burst (cs @ [c]) b = apply_change (burst cs b) c"
  by (simp add: burst_def)

lemma burst_queue: "length (vb_queue (burst cs b)) = length (vb_queue b) + length cs"
  by (induction cs rule: rev_induct)
     (auto simp: burst_snoc burst_def [of "[]"] apply_change_def applyVisibility_def Let_def split: prod.split)

lemma apply_change_parts:
  assumes "c = (scope, p, ts, e)"
  shows "vb_disabled (apply_change b c) = nextDisabledModels (vb_disabled b) p ts e"
    and "vb_selected (apply_change b c) = patched (vb_selected b) p (nextSelectedAllowlist (vb_selected b) scope p ts e)"
    and "vb_queue (apply_change b c) = vb_queue b @ [\<lparr>vw_scope = scope, vw_provider = p, vw_targets = ts, vw_enabled = e,
      vw_disabled = vb_disabled b, vw_selected = vb_selected b\<rparr>]"
  by (simp_all add: assms apply_change_def applyVisibility_def patched_def Let_def)

lemma burst_last_saved:
  assumes "vb_queue b = []" "length as = length cs" "cs \<noteq> []"
    and "last (fst (run_writes as (vb_queue (burst cs b)) s)) = Saved"
  shows "ls_disabled (snd (run_writes as (vb_queue (burst cs b)) s)) = vb_disabled (burst cs b)"
proof -
  obtain cs0 c where cs: "cs = cs0 @ [c]" using assms(3) by (cases cs rule: rev_cases) auto
  obtain as0 a where as: "as = as0 @ [a]" using assms(2,3) by (cases as rule: rev_cases) auto
  obtain scope p ts e where c: "c = (scope, p, ts, e)" by (cases c)
  have len: "length as0 = length (vb_queue (burst cs0 b))" using assms(1,2) cs as by (simp add: burst_queue)
  note parts = apply_change_parts [OF c, of "burst cs0 b"]
  have "saveOutcome (fst (putModelVisibility a (last (vb_queue (burst cs b))) (snd (run_writes as0 (vb_queue (burst cs0 b)) s)))) = Saved"
    using assms(4) run_writes_snoc [OF len] by (simp add: cs as burst_snoc parts)
  from saved_write(1) [OF this] show ?thesis
    using run_writes_snoc [OF len] by (simp add: cs as burst_snoc parts)
qed

lemma burst_all_saved:
  assumes "vb_queue b = []" "length as = length cs" "ls_selected s = vb_selected b"
    and "list_all (\<lambda>x. x = Saved) (fst (run_writes as (vb_queue (burst cs b)) s))"
  shows "ls_selected (snd (run_writes as (vb_queue (burst cs b)) s)) = vb_selected (burst cs b)"
  using assms(2,4)
proof (induction cs arbitrary: as rule: rev_induct)
  case Nil
  then show ?case using assms(1,3) by (simp add: burst_def)
next
  case (snoc c cs)
  obtain as0 a where as: "as = as0 @ [a]" using snoc.prems(1) by (cases as rule: rev_cases) auto
  obtain scope p ts e where c: "c = (scope, p, ts, e)" by (cases c)
  have len: "length as0 = length (vb_queue (burst cs b))" using assms(1) snoc.prems(1) as by (simp add: burst_queue)
  note parts = apply_change_parts [OF c, of "burst cs b"] and run = run_writes_snoc [OF len]
  have ih: "ls_selected (snd (run_writes as0 (vb_queue (burst cs b)) s)) = vb_selected (burst cs b)"
    using snoc.prems as run by (intro snoc.IH) (auto simp: burst_snoc parts)
  have "saveOutcome (fst (putModelVisibility a (last (vb_queue (burst (cs @ [c]) b)))
      (snd (run_writes as0 (vb_queue (burst cs b)) s)))) = Saved"
    using snoc.prems(2) run by (simp add: as burst_snoc parts)
  from saved_write(2) [OF this] ih show ?case using run by (simp add: as burst_snoc parts)
qed

section \<open>Properties\<close>

text \<open>A burst of changes made while earlier ones are still being sent reaches the listener as the board
  shows it. Every write carries the whole disabled list of the board at the moment it was made, so
  once the last write of the burst is saved the listener's list is the board's, whatever happened to the
  writes before it; when all are saved, the allowlists agree too.\<close>

theorem visibility_burst_converges:
  assumes "vb_queue b = []" "length answers = length cs" "cs \<noteq> []"
  shows "(last (fst (drain load answers (burst cs b, s))) = Some Saved \<longrightarrow>
      ls_disabled (snd (snd (drain load answers (burst cs b, s)))) = vb_disabled (burst cs b))
   \<and> (ls_selected s = vb_selected b \<and> list_all (\<lambda>x. x = Some Saved) (fst (drain load answers (burst cs b, s))) \<longrightarrow>
      ls_selected (snd (snd (drain load answers (burst cs b, s)))) = vb_selected (burst cs b))"
proof -
  have len: "length answers = length (vb_queue (burst cs b))" using assms(1,2) by (simp add: burst_queue)
  note d = drain_runs [OF len, of load s]
  have "length (fst (run_writes as ws s)) = length as" if "length as = length ws" for as ws s
    using that by (induction as ws arbitrary: s rule: list_induct2) (auto simp: Let_def split_def)
  from this [OF len, of s] assms(2,3) have ne: "fst (run_writes answers (vb_queue (burst cs b)) s) \<noteq> []" by auto
  show ?thesis
    using burst_last_saved [OF assms, of s] burst_all_saved [OF assms(1,2), of s] d ne
    by (auto simp: last_map list_all_iff)
qed

definition sample_board :: board where
  "sample_board = \<lparr>vb_disabled = [], vb_selected = (\<lambda>_. None), vb_queue = []\<rparr>"

definition sample_changes :: "change list" where
  "sample_changes = [(ScopeModels, ''p'', [\<lparr>vt_id = ''a'', vt_native = None\<rparr>], False),
                     (ScopeModels, ''p'', [\<lparr>vt_id = ''b'', vt_native = None\<rparr>], False)]"

definition sample_answers :: "(request \<Rightarrow> put_result) list" where
  "sample_answers = [\<lambda>_. PutStatus False, \<lambda>_. PutStatus True]"

definition sample_load :: "listener \<Rightarrow> string list \<times> provider_models" where
  "sample_load s = (ls_disabled s, ls_selected s)"

definition sample_listener :: listener where
  "sample_listener = \<lparr>ls_disabled = [], ls_selected = (\<lambda>_. None)\<rparr>"

text \<open>
  The witness is the case where the first change is refused and the second saved: the refused change is
  stored with the second one.
\<close>

theorem visibility_burst_converges_witness:
  "fst (drain sample_load sample_answers (burst sample_changes sample_board, sample_listener)) = [Some Rejected, Some Saved]
   \<and> ls_disabled (snd (snd (drain sample_load sample_answers (burst sample_changes sample_board, sample_listener))))
       = [''p/a'', ''p/b'']"
proof (rule conjI)
  show out: "fst (drain sample_load sample_answers (burst sample_changes sample_board, sample_listener))
      = [Some Rejected, Some Saved]" by code_simp
  have "vb_queue sample_board = []" "length sample_answers = length sample_changes" "sample_changes \<noteq> []" by code_simp+
  from visibility_burst_converges [OF this, of sample_load sample_listener] out
  have "ls_disabled (snd (snd (drain sample_load sample_answers (burst sample_changes sample_board, sample_listener))))
      = vb_disabled (burst sample_changes sample_board)" by simp
  also have "\<dots> = [''p/a'', ''p/b'']" by code_simp
  finally show "ls_disabled (snd (snd (drain sample_load sample_answers (burst sample_changes sample_board, sample_listener))))
      = [''p/a'', ''p/b'']" .
qed

text \<open>One change does what it says. For a model whose id has no slash, enabling it makes it visible
  (its name leaves the disabled list and the allowlist admits it) and disabling it hides it; the new
  list is sorted without repetition; and a name that no target stands for is disabled afterwards exactly
  when it was before.\<close>

theorem visibility_change_exact:
  assumes "t \<in> set ts" "trim (vt_id t) \<noteq> []" "CHR ''/'' \<notin> set (trim (vt_id t))"
  shows "modelVisible (patched sel p (nextSelectedAllowlist sel scope p ts True)) p (trim (vt_id t)) (vt_native t = Some True)
       (p @ ''/'' @ trim (vt_id t) \<in> set (nextDisabledModels d p ts True))
   \<and> \<not> modelVisible sel p (trim (vt_id t)) (vt_native t = Some True)
       (p @ ''/'' @ trim (vt_id t) \<in> set (nextDisabledModels d p ts False))
   \<and> sorted (nextDisabledModels d p ts e) \<and> distinct (nextDisabledModels d p ts e)
   \<and> (\<forall>n. n \<notin> \<Union> (touched p ` set ts) \<longrightarrow>
        (n \<in> set (nextDisabledModels d p ts e) \<longleftrightarrow> n \<in> set (normalizedDisabled d)))"
proof -
  have c: "canonicalTargetId p (vt_id t) = Some (p @ ''/'' @ trim (vt_id t))"
    using assms(2,3) by (simp add: canonicalTargetId_def)
  then have "p @ ''/'' @ trim (vt_id t) \<in> \<Union> (touched p ` set ts)"
    using assms(1) by (auto simp: touched_def intro!: bexI [of _ t])
  then have on: "p @ ''/'' @ trim (vt_id t) \<notin> set (nextDisabledModels d p ts True)"
    by (simp only: nextDisabled_set Diff_iff simp_thms)
  have off: "p @ ''/'' @ trim (vt_id t) \<in> set (nextDisabledModels d p ts False)"
    unfolding nextDisabled_set(2) using c assms(1) by blast
  have frame: "n \<in> set (nextDisabledModels d p ts e) \<longleftrightarrow> n \<in> set (normalizedDisabled d)"
    if "n \<notin> \<Union> (touched p ` set ts)" for n
    using that
    by (cases e) (auto simp: nextDisabled_set normalizedDisabled_set touched_def)
  show ?thesis
    using on off frame allowlist_admits [OF assms(1,2), of sel p scope]
    by (simp add: modelVisible_def nextDisabled_set(3,4))
qed

theorem visibility_change_exact_witness:
  "modelVisible (patched [''p'' \<mapsto> [''x'']] ''p''
       (nextSelectedAllowlist [''p'' \<mapsto> [''x'']] ScopeModels ''p'' [\<lparr>vt_id = ''a'', vt_native = None\<rparr>] True)) ''p'' ''a'' False
     (''p/a'' \<in> set (nextDisabledModels [''p/a'', ''q/b''] ''p'' [\<lparr>vt_id = ''a'', vt_native = None\<rparr>] True))
   \<and> nextDisabledModels [''p/a'', ''q/b''] ''p'' [\<lparr>vt_id = ''a'', vt_native = None\<rparr>] True = [''q/b'']"
proof (rule conjI)
  let ?t = "\<lparr>vt_id = ''a'', vt_native = None\<rparr>"
  have tr: "trim ''a'' = ''a''" by code_simp
  have "?t \<in> set [?t]" "trim (vt_id ?t) \<noteq> []" "CHR ''/'' \<notin> set (trim (vt_id ?t))" by (simp_all add: tr)
  from visibility_change_exact [OF this, of "[''p'' \<mapsto> [''x'']]" "''p''" ScopeModels "[''p/a'', ''q/b'']"]
  show "modelVisible (patched [''p'' \<mapsto> [''x'']] ''p''
       (nextSelectedAllowlist [''p'' \<mapsto> [''x'']] ScopeModels ''p'' [?t] True)) ''p'' ''a'' False
     (''p/a'' \<in> set (nextDisabledModels [''p/a'', ''q/b''] ''p'' [?t] True))"
    by (simp add: tr)
qed code_simp

text \<open>A model whose own id holds a slash cannot be switched back on. The listener reports it disabled
  under its namespaced name, the provider before the id; enabling it takes the id itself for the
  namespaced name, so the provider's entry stays in the list that is sent and the model stays hidden.\<close>

theorem slash_id_stays_disabled:
  assumes "CHR ''/'' \<in> set i" "trim i = i" "p @ ''/'' @ i \<in> set (normalizedDisabled d)"
  shows "p @ ''/'' @ i \<in> set (nextDisabledModels d p [\<lparr>vt_id = i, vt_native = native\<rparr>] True)
    \<and> \<not> modelVisible sel p i n (p @ ''/'' @ i \<in> set (nextDisabledModels d p [\<lparr>vt_id = i, vt_native = native\<rparr>] True))"
proof -
  have "i \<noteq> []" using assms(1) by auto
  then have c: "canonicalTargetId p i = Some i" using assms(1,2) by (simp add: canonicalTargetId_def)
  have "length (unqualifiedId i) \<le> length i" by (simp add: unqualifiedId_def Let_def)
  then have "p @ ''/'' @ i \<noteq> unqualifiedId i" by (metis add_less_same_cancel2 append_assoc append_is_Nil_conv
        length_append length_greater_0_conv linorder_not_le not_Cons_self2 less_add_same_cancel2)
  then have "p @ ''/'' @ i \<notin> touched p \<lparr>vt_id = i, vt_native = native\<rparr>"
    using assms(2) by (auto simp: touched_def c)
  then have "p @ ''/'' @ i \<in> set (nextDisabledModels d p [\<lparr>vt_id = i, vt_native = native\<rparr>] True)"
    using assms(3) unfolding nextDisabled_set(1) normalizedDisabled_set(1) by simp
  then show ?thesis by (simp add: modelVisible_def)
qed

theorem slash_id_stays_disabled_witness:
  "nextDisabledModels [''r/a/m''] ''r'' [\<lparr>vt_id = ''a/m'', vt_native = None\<rparr>] True = [''r/a/m'']
   \<and> \<not> modelVisible (\<lambda>_. None) ''r'' ''a/m'' False
       (''r/a/m'' \<in> set (nextDisabledModels [''r/a/m''] ''r'' [\<lparr>vt_id = ''a/m'', vt_native = None\<rparr>] True))"
proof (rule conjI)
  have "CHR ''/'' \<in> set ''a/m''" "trim ''a/m'' = ''a/m''"
      "''r'' @ ''/'' @ ''a/m'' \<in> set (normalizedDisabled [''r/a/m''])"
    by code_simp+
  from slash_id_stays_disabled [OF this, of None "\<lambda>_. None" False]
  show "\<not> modelVisible (\<lambda>_. None) ''r'' ''a/m'' False
       (''r/a/m'' \<in> set (nextDisabledModels [''r/a/m''] ''r'' [\<lparr>vt_id = ''a/m'', vt_native = None\<rparr>] True))"
    unfolding append.simps by (rule conjunct2)
qed code_simp

end
