(* ===== verification/Cdp_Registry.thy ===== *)
theory Cdp_Registry
  imports Benes_Prelude
begin

text \<open>
  \<^verbatim>\<open>scripts/cdp-request-registry.ts\<close>: the registry of requests to the browser that produces evidence. A
  request is open until it is answered, times out, fails to be sent or the registry is closed. The
  registry is a record with the calls it made to the promises' \<^verbatim>\<open>resolve\<close> and \<^verbatim>\<open>reject\<close> as a log; timers
  are the ids that are armed. Results are an arbitrary type; the text of a thrown value is a string.
\<close>

section \<open>The registry\<close>

datatype 'r outcome = Resolved "'r option" | RejectedWith string

record 'r cdp_message =
  msg_id :: "jsnum option"
  msg_result :: "'r option"
  msg_error :: "(string option \<times> int option) option"

record 'r registry =
  nextId :: nat
  pending :: "(nat \<times> string) list"
  timers :: "nat list"
  calls :: "(nat \<times> 'r outcome) list"
  refused :: nat

definition empty_registry :: "'r registry" where
  "empty_registry = \<lparr>nextId = 1, pending = [], timers = [], calls = [], refused = 0\<rparr>"

definition registry_size :: "'r registry \<Rightarrow> nat" where
  "registry_size g = length (pending g)"

definition forget :: "nat \<Rightarrow> 'r registry \<Rightarrow> 'r registry" where
  "forget i g = g\<lparr>pending := filter (\<lambda>p. fst p \<noteq> i) (pending g), timers := filter (\<lambda>j. j \<noteq> i) (timers g)\<rparr>"

definition finish :: "nat \<Rightarrow> 'r outcome \<Rightarrow> 'r registry \<Rightarrow> 'r registry" where
  "finish i r g = g\<lparr>calls := calls g @ [(i, r)]\<rparr>"

text \<open>Sending throws (with the text of what it throws) or returns. A timeout that is not a positive finite
  number is refused before a request exists.\<close>

fun timeout_ok :: "jsnum \<Rightarrow> bool" where
  "timeout_ok (Fin q) = (0 < q)"
| "timeout_ok _ = False"

definition cdp_request :: "string \<Rightarrow> jsnum \<Rightarrow> (nat \<Rightarrow> string option) \<Rightarrow> 'r registry \<Rightarrow> 'r registry" where
  "cdp_request method timeoutMs send_fails g =
     (if \<not> timeout_ok timeoutMs then g\<lparr>refused := refused g + 1\<rparr>
      else let i = nextId g;
               g1 = g\<lparr>nextId := i + 1, pending := pending g @ [(i, method)], timers := timers g @ [i]\<rparr>
           in case send_fails i of
                None \<Rightarrow> g1
              | Some e \<Rightarrow> finish i (RejectedWith e) (forget i g1))"

definition timer_fires :: "string \<Rightarrow> nat \<Rightarrow> 'r registry \<Rightarrow> 'r registry" where
  "timer_fires duration i g =
     (let g1 = g\<lparr>timers := filter (\<lambda>j. j \<noteq> i) (timers g)\<rparr>
      in case map_of (pending g1) i of
           None \<Rightarrow> g1
         | Some method \<Rightarrow>
             finish i (RejectedWith (''CDP '' @ method @ '' request timed out after '' @ duration @ ''ms'')) (forget i g1))"

definition find_pending :: "jsnum \<Rightarrow> 'r registry \<Rightarrow> (nat \<times> string) option" where
  "find_pending x g = List.find (\<lambda>p. Fin (of_nat (fst p)) = x) (pending g)"

definition error_text :: "string \<Rightarrow> string option \<times> int option \<Rightarrow> string" where
  "error_text method e =
     ''CDP '' @ method @ '' failed'' @ (case snd e of None \<Rightarrow> [] | Some c \<Rightarrow> '' ('' @ show_int c @ '')'')
     @ '': '' @ (case fst e of Some m \<Rightarrow> m | None \<Rightarrow> ''unknown error'')"

definition resolveMessage :: "'r cdp_message \<Rightarrow> 'r registry \<Rightarrow> bool \<times> 'r registry" where
  "resolveMessage m g =
     (case msg_id m of
        None \<Rightarrow> (False, g)
      | Some x \<Rightarrow>
          (case find_pending x g of
             None \<Rightarrow> (False, g)
           | Some (i, method) \<Rightarrow>
               (let g1 = forget i g
                in (True, finish i (case msg_error m of
                                      Some e \<Rightarrow> RejectedWith (error_text method e)
                                    | None \<Rightarrow> Resolved (msg_result m)) g1))))"

definition rejectAll :: "string \<Rightarrow> 'r registry \<Rightarrow> 'r registry" where
  "rejectAll reason g =
     foldl (\<lambda>h p. finish (fst p) (RejectedWith reason) (forget (fst p) h)) g (pending g)"

inductive registry_step :: "'r registry \<Rightarrow> 'r registry \<Rightarrow> bool" where
  step_request: "registry_step g (cdp_request method timeoutMs send_fails g)"
| step_timer: "i \<in> set (timers g) \<Longrightarrow> registry_step g (timer_fires duration i g)"
| step_message: "registry_step g (snd (resolveMessage m g))"
| step_rejectAll: "registry_step g (rejectAll reason g)"

section \<open>The contract\<close>

text \<open>
  What callers rely on: ids are handed out one after the other, and a request that was handed out is
  settled at most once, with the outcome of its first settlement.
\<close>

record 'r ledger =
  issued :: nat
  verdict :: "nat \<Rightarrow> 'r outcome option"

inductive ledger_step :: "'r ledger \<Rightarrow> 'r ledger \<Rightarrow> bool" where
  ledger_issue: "ledger_step l (l\<lparr>issued := Suc (issued l)\<rparr>)"
| ledger_settle: "1 \<le> i \<Longrightarrow> i \<le> issued l \<Longrightarrow> verdict l i = None \<Longrightarrow>
    ledger_step l (l\<lparr>verdict := (verdict l)(i \<mapsto> r)\<rparr>)"

definition ledger_of :: "'r registry \<Rightarrow> 'r ledger" where
  "ledger_of g = \<lparr>issued = nextId g - 1, verdict = map_of (calls g)\<rparr>"

section \<open>Invariant\<close>

definition registry_ok :: "'r registry \<Rightarrow> bool" where
  "registry_ok g \<longleftrightarrow>
     1 \<le> nextId g \<and> distinct (map fst (pending g)) \<and> distinct (map fst (calls g))
     \<and> timers g = map fst (pending g)
     \<and> set (map fst (pending g)) \<inter> set (map fst (calls g)) = {}
     \<and> set (map fst (pending g)) \<union> set (map fst (calls g)) = {1..<nextId g}"

lemma map_fst_filter: "map fst (filter (\<lambda>p. fst p \<noteq> i) ps) = filter (\<lambda>j. j \<noteq> i) (map fst ps)"
  by (induction ps) auto

lemma settle_ok:
  assumes "registry_ok g" "i \<in> set (map fst (pending g))"
  shows "registry_ok (finish i r (forget i g))"
proof -
  have "set (filter (\<lambda>j. j \<noteq> i) (map fst (pending g))) = set (map fst (pending g)) - {i}" by auto
  with assms show ?thesis
    by (auto simp: registry_ok_def finish_def forget_def map_fst_filter simp del: set_map)
qed

lemma settle_ledger:
  assumes "registry_ok g" "i \<in> set (map fst (pending g))"
  shows "ledger_step (ledger_of g) (ledger_of (finish i r (forget i g)))"
proof -
  have i: "1 \<le> i" "i < nextId g" "i \<notin> set (map fst (calls g))"
    using assms by (auto simp: registry_ok_def)
  have none: "map_of (calls g) i = None" using i(3) by (simp add: map_of_eq_None_iff)
  have "map_of (calls g @ [(i, r)]) = (map_of (calls g))(i \<mapsto> r)"
    using none by (auto simp: map_add_def fun_eq_iff split: option.split)
  then have "ledger_of (finish i r (forget i g)) = (ledger_of g)\<lparr>verdict := (verdict (ledger_of g))(i \<mapsto> r)\<rparr>"
    by (simp add: ledger_of_def finish_def forget_def)
  then show ?thesis
    using i(1,2) none ledger_settle [of i "ledger_of g" r] by (simp add: ledger_of_def)
qed

lemma issue_ok:
  assumes "registry_ok g"
  shows "registry_ok (g\<lparr>nextId := nextId g + 1, pending := pending g @ [(nextId g, m)], timers := timers g @ [nextId g]\<rparr>)"
proof -
  have "{1..<Suc (nextId g)} = insert (nextId g) {1..<nextId g}" using assms by (auto simp: registry_ok_def)
  with assms show ?thesis by (auto simp: registry_ok_def)
qed

lemma request_good:
  assumes "registry_ok g"
  shows "registry_ok (cdp_request m t f g) \<and> ledger_step\<^sup>*\<^sup>* (ledger_of g) (ledger_of (cdp_request m t f g))"
proof (cases "timeout_ok t")
  case True
  let ?i = "nextId g"
  let ?g1 = "g\<lparr>nextId := ?i + 1, pending := pending g @ [(?i, m)], timers := timers g @ [?i]\<rparr>"
  have ok: "registry_ok ?g1" by (rule issue_ok [OF assms])
  have "ledger_of ?g1 = (ledger_of g)\<lparr>issued := Suc (issued (ledger_of g))\<rparr>"
    using assms by (simp add: ledger_of_def registry_ok_def)
  then have step: "ledger_step (ledger_of g) (ledger_of ?g1)" by (simp add: ledger_issue)
  show ?thesis
  proof (cases "f ?i")
    case None
    with True ok step show ?thesis by (simp add: cdp_request_def Let_def r_into_rtranclp)
  next
    case (Some e)
    have i: "?i \<in> set (map fst (pending ?g1))" by simp
    from settle_ok [OF ok i] settle_ledger [OF ok i] step True Some show ?thesis
      by (simp add: cdp_request_def Let_def rtranclp.rtrancl_into_rtrancl [OF r_into_rtranclp])
  qed
qed (use assms in \<open>simp add: cdp_request_def registry_ok_def ledger_of_def\<close>)

lemma timer_good:
  assumes "registry_ok g" "i \<in> set (timers g)"
  shows "registry_ok (timer_fires d i g) \<and> ledger_step\<^sup>*\<^sup>* (ledger_of g) (ledger_of (timer_fires d i g))"
proof -
  have i: "i \<in> set (map fst (pending g))" using assms by (simp add: registry_ok_def)
  then obtain m where "map_of (pending g) i = Some m" by (metis map_of_eq_None_iff not_Some_eq set_map)
  then have "timer_fires d i g =
      finish i (RejectedWith (''CDP '' @ m @ '' request timed out after '' @ d @ ''ms'')) (forget i g)"
    by (simp add: timer_fires_def forget_def Let_def)
  with settle_ok [OF assms(1) i] settle_ledger [OF assms(1) i] show ?thesis by (simp add: r_into_rtranclp)
qed

lemma message_good:
  assumes "registry_ok g"
  shows "registry_ok (snd (resolveMessage m g)) \<and> ledger_step\<^sup>*\<^sup>* (ledger_of g) (ledger_of (snd (resolveMessage m g)))"
proof (cases "Option.bind (msg_id m) (\<lambda>x. find_pending x g)")
  case None
  with assms show ?thesis by (auto simp: resolveMessage_def split: option.splits)
next
  case (Some p)
  then obtain x where x: "msg_id m = Some x" "find_pending x g = Some p" by (auto simp: bind_eq_Some_conv)
  obtain i verb where p: "p = (i, verb)" by (cases p)
  have "p \<in> set (pending g)" using x(2) by (auto simp: find_pending_def find_Some_iff dest: nth_mem)
  then have i: "i \<in> set (map fst (pending g))" using p by force
  have "\<exists>r. snd (resolveMessage m g) = finish i r (forget i g)"
    using x p by (auto simp: resolveMessage_def Let_def)
  with settle_ok [OF assms i] settle_ledger [OF assms i] show ?thesis by (metis r_into_rtranclp)
qed

lemma reject_fold:
  fixes g h :: "'r registry"
  assumes "registry_ok g" "distinct (map fst ps)" "set (map fst ps) \<subseteq> set (map fst (pending g))"
    and "h = foldl (\<lambda>h p. finish (fst p) (RejectedWith reason) (forget (fst p) h)) g ps"
  shows "registry_ok h \<and> ledger_step\<^sup>*\<^sup>* (ledger_of g) (ledger_of h)
    \<and> set (map fst (pending h)) = set (map fst (pending g)) - set (map fst ps)"
  using assms
proof (induction ps arbitrary: g h)
  case (Cons p ps)
  have i: "fst p \<in> set (map fst (pending g))" using Cons.prems(3) by auto
  let ?g1 = "finish (fst p) (RejectedWith reason) (forget (fst p) g)"
  have p1: "set (map fst (pending ?g1)) = set (map fst (pending g)) - {fst p}"
    by (auto simp: finish_def forget_def)
  have sub: "set (map fst ps) \<subseteq> set (map fst (pending ?g1))" using Cons.prems(2,3) unfolding p1 by (auto simp del: set_map)
  have d: "distinct (map fst ps)" using Cons.prems(2) by simp
  have ok: "registry_ok ?g1" by (rule settle_ok [OF Cons.prems(1) i])
  note ih = Cons.IH [OF ok d sub refl]
  from settle_ledger [OF Cons.prems(1) i] ih p1 Cons.prems(4) show ?case
    by (auto intro: converse_rtranclp_into_rtranclp)
qed auto

lemma rejectAll_good:
  assumes "registry_ok g"
  shows "registry_ok (rejectAll e g) \<and> ledger_step\<^sup>*\<^sup>* (ledger_of g) (ledger_of (rejectAll e g)) \<and> pending (rejectAll e g) = []"
  using reject_fold [OF assms, of "pending g" _ e] assms by (auto simp: rejectAll_def registry_ok_def)

lemma step_good:
  assumes "registry_ok g" "registry_step g g'"
  shows "registry_ok g' \<and> ledger_step\<^sup>*\<^sup>* (ledger_of g) (ledger_of g')"
  using assms(2) by cases (use assms(1) request_good timer_good message_good rejectAll_good in blast)+

interpretation cdp: machine "\<lambda>g. g = empty_registry" registry_step registry_ok
  by unfold_locales (simp add: registry_ok_def empty_registry_def, blast dest: step_good)

abbreviation reachable_registry :: "'r registry \<Rightarrow> bool" where
  "reachable_registry \<equiv> reach (\<lambda>g. g = empty_registry) registry_step"

section \<open>Properties\<close>

text \<open>C15: the registry implements the ledger of requests: whatever sequence of requests, answers, timeouts and
  closings it goes through, every step is a sequence of handing out the next id and of settling an open
  request for the first time. In every reachable state each id handed out is either pending, with its
  timer armed, or settled exactly once, and closing the registry leaves nothing pending.\<close>

theorem registry_refines_ledger:
  assumes "reachable_registry g"
  shows "(registry_step g g' \<longrightarrow> ledger_step\<^sup>*\<^sup>* (ledger_of g) (ledger_of g'))
   \<and> timers g = map fst (pending g) \<and> distinct (map fst (pending g) @ map fst (calls g))
   \<and> set (map fst (pending g)) \<union> dom (verdict (ledger_of g)) = {1..<nextId g}
   \<and> pending (rejectAll e g) = []"
proof -
  have ok: "registry_ok g" by (rule cdp.reachable_inv [OF assms])
  then have "set (map fst (pending g)) \<union> dom (verdict (ledger_of g)) = {1..<nextId g}"
    by (simp add: registry_ok_def ledger_of_def dom_map_of_conv_image_fst)
  moreover have "timers g = map fst (pending g)" "distinct (map fst (pending g) @ map fst (calls g))"
    using ok unfolding registry_ok_def by (blast, simp)
  ultimately show ?thesis using step_good [OF ok] rejectAll_good [OF ok, of e] by blast
qed

definition sample_registry :: "nat registry" where
  "sample_registry =
     timer_fires ''50'' 1 (cdp_request ''Page.navigate'' (Fin 50) (\<lambda>_. None)
       (cdp_request ''Page.enable'' (Fin 50) (\<lambda>_. None) empty_registry))"

lemma sample_registry_reachable: "reachable_registry sample_registry"
  unfolding sample_registry_def
  by (rule reach_step, rule reach_step, rule reach_step, rule reach_init, rule refl, rule step_request,
      rule step_request, rule step_timer, code_simp)

theorem registry_refines_ledger_witness:
  "pending sample_registry = [(2, ''Page.navigate'')]
   \<and> verdict (ledger_of sample_registry) 1 = Some (RejectedWith ''CDP Page.enable request timed out after 50ms'')
   \<and> pending (rejectAll ''closed'' sample_registry) = []"
proof (intro conjI)
  show "pending (rejectAll ''closed'' sample_registry) = []"
    using registry_refines_ledger [OF sample_registry_reachable] by blast
qed code_simp+

end
