(* ===== verification/Usage_Series.thy ===== *)
theory Usage_Series
  imports Benes_Prelude
begin

text \<open>
  \<^verbatim>\<open>gui/src/pages/usage-series.ts\<close>: the series of the usage charts, the daily stacks of tokens and of cost,
  their bucketing by week or month, the axis labels and the head of the cost tooltip. Counts are natural
  numbers and amounts rationals; the rounding of sums of doubles is not modelled. A \<^verbatim>\<open>Map\<close> is an
  association list in insertion order. The week of a day is computed in the proleptic Gregorian calendar.
\<close>

section \<open>Series\<close>

definition USAGE_SERIES_LIMIT :: nat where "USAGE_SERIES_LIMIT = 4"

definition USAGE_SERIES_COLORS :: "string list" where
  "USAGE_SERIES_COLORS =
     [''var(--usage-series-1)'', ''var(--usage-series-2)'', ''var(--usage-series-3)'', ''var(--usage-series-4)'']"

definition USAGE_SERIES_OTHER_COLOR :: string where "USAGE_SERIES_OTHER_COLOR = ''var(--usage-series-other)''"

record usage_model =
  um_provider :: string
  um_model :: string
  um_totalTokens :: nat

record usage_series =
  us_key :: string
  us_model :: string
  us_provider :: string
  us_totalTokens :: nat
  us_share :: rat
  us_color :: string
  us_other :: bool

definition modelSeriesKey :: "string \<Rightarrow> string \<Rightarrow> string" where
  "modelSeriesKey provider model = provider @ ''/'' @ model"

definition by_tokens :: "usage_model \<Rightarrow> usage_model \<Rightarrow> int" where
  "by_tokens a b = int (um_totalTokens b) - int (um_totalTokens a)"

definition share_of :: "nat \<Rightarrow> nat \<Rightarrow> rat" where
  "share_of tokens whole = (if whole > 0 then of_nat tokens / of_nat whole else 0)"

definition head_series :: "nat \<Rightarrow> nat \<times> usage_model \<Rightarrow> usage_series" where
  "head_series whole ir =
     (case ir of (index, row) \<Rightarrow>
        \<lparr>us_key = modelSeriesKey (um_provider row) (um_model row), us_model = um_model row,
         us_provider = um_provider row, us_totalTokens = um_totalTokens row,
         us_share = share_of (um_totalTokens row) whole,
         us_color = (if index < length USAGE_SERIES_COLORS then USAGE_SERIES_COLORS ! index else USAGE_SERIES_OTHER_COLOR),
         us_other = False\<rparr>)"

definition topModelSeries :: "usage_model list \<Rightarrow> nat \<Rightarrow> usage_series list" where
  "topModelSeries models whole =
     (let ranked = sort_by by_tokens models;
          head = take USAGE_SERIES_LIMIT ranked; rest = drop USAGE_SERIES_LIMIT ranked;
          series = map (head_series whole) (enumerate 0 head);
          otherTokens = sum_list (map um_totalTokens rest)
      in if otherTokens > 0
         then series @ [\<lparr>us_key = ''other'', us_model = ''other'', us_provider = [], us_totalTokens = otherTokens,
                         us_share = share_of otherTokens whole, us_color = USAGE_SERIES_OTHER_COLOR, us_other = True\<rparr>]
         else series)"

section \<open>Days\<close>

record day_model =
  dm_model :: string
  dm_provider :: string
  dm_totalTokens :: nat

record cost_summary =
  cs_exact :: rat
  cs_estimated :: rat
  cs_lowerBound :: rat
  cs_stale :: rat
  cs_unpricedRequests :: nat
  cs_unmeteredRequests :: nat
  cs_displayTotalSafe :: bool

record usage_day =
  ud_date :: string
  ud_requests :: nat
  ud_totalTokens :: nat
  ud_cost :: "cost_summary option"
  ud_models :: "day_model list"

record day_segment =
  sg_key :: string
  sg_tokens :: nat
  sg_color :: string
  sg_name :: "string option"

record day_stack =
  st_date :: string
  st_label :: string
  st_requests :: nat
  st_totalTokens :: nat
  st_segments :: "day_segment list"

definition count_row :: "usage_series list \<Rightarrow> (string \<times> nat) list \<Rightarrow> day_model \<Rightarrow> (string \<times> nat) list" where
  "count_row series used row =
     (let key = modelSeriesKey (dm_provider row) (dm_model row)
      in if key \<in> set (map us_key (filter (\<lambda>i. \<not> us_other i) series))
         then map_set key (get_or 0 used key + dm_totalTokens row) used
         else if list_ex us_other series
         then map_set ''other'' (get_or 0 used ''other'' + dm_totalTokens row) used
         else used)"

definition stackDay :: "usage_series list \<Rightarrow> usage_day \<Rightarrow> day_stack" where
  "stackDay series day =
     (let used = foldl (count_row series) [] (ud_models day)
      in \<lparr>st_date = ud_date day, st_label = ud_date day, st_requests = ud_requests day,
          st_totalTokens = ud_totalTokens day,
          st_segments = filter (\<lambda>g. sg_tokens g > 0)
            (map (\<lambda>item. \<lparr>sg_key = us_key item, sg_tokens = get_or 0 used (us_key item), sg_color = us_color item,
                          sg_name = (if us_other item then None else Some (us_model item))\<rparr>) series)\<rparr>)"

section \<open>Weeks and months\<close>

definition days_from_civil :: "int \<Rightarrow> int \<Rightarrow> int \<Rightarrow> int" where
  "days_from_civil y m d =
     (let y' = (if m \<le> 2 then y - 1 else y); era = y' div 400; yoe = y' mod 400;
          doy = (153 * (if m > 2 then m - 3 else m + 9) + 2) div 5 + d - 1;
          doe = yoe * 365 + yoe div 4 - yoe div 100 + doy
      in era * 146097 + doe - 719468)"

definition civil_from_days :: "int \<Rightarrow> int \<times> int \<times> int" where
  "civil_from_days n =
     (let z = n + 719468; era = z div 146097; doe = z mod 146097;
          yoe = (doe - doe div 1460 + doe div 36524 - doe div 146096) div 365;
          doy = doe - (365 * yoe + yoe div 4 - yoe div 100); mp = (5 * doy + 2) div 153;
          d = doy - (153 * mp + 2) div 5 + 1; m = (if mp < 10 then mp + 3 else mp - 9)
      in (yoe + era * 400 + (if m \<le> 2 then 1 else 0), m, d))"

definition weekday :: "int \<Rightarrow> int" where
  "weekday n = (n + 4) mod 7"

definition pad2 :: "int \<Rightarrow> string" where
  "pad2 n = (let s = show_int n in replicate (2 - length s) CHR ''0'' @ s)"

definition isoWeekStart :: "string \<Rightarrow> string" where
  "isoWeekStart dayText =
     (case map (\<lambda>p. int (read_digits p)) (split_on CHR ''-'' dayText) of
        year # month # day # _ \<Rightarrow>
          (let n = days_from_civil year month day; (y, m, d) = civil_from_days (n - weekday n)
           in show_int y @ ''-'' @ pad2 m @ ''-'' @ pad2 d)
      | _ \<Rightarrow> ''NaN-NaN-NaN'')"

definition isoMonth :: "string \<Rightarrow> string" where
  "isoMonth dayText = take 7 dayText"

definition merge_segment ::
  "(string \<times> nat \<times> string \<times> string option) list \<Rightarrow> day_segment \<Rightarrow> (string \<times> nat \<times> string \<times> string option) list" where
  "merge_segment used g =
     (case map_of used (sg_key g) of
        Some (tokens, _, name) \<Rightarrow>
          map_set (sg_key g) (tokens + sg_tokens g, sg_color g, case name of Some n \<Rightarrow> Some n | None \<Rightarrow> sg_name g) used
      | None \<Rightarrow> map_set (sg_key g) (sg_tokens g, sg_color g, sg_name g) used)"

definition mergeStacks :: "day_stack list \<Rightarrow> string \<Rightarrow> day_stack" where
  "mergeStacks rows label =
     (let used = foldl merge_segment [] (concat (map st_segments rows))
      in \<lparr>st_date = (case rows of [] \<Rightarrow> label | r # _ \<Rightarrow> st_date r), st_label = label,
          st_requests = sum_list (map st_requests rows), st_totalTokens = sum_list (map st_totalTokens rows),
          st_segments = map (\<lambda>(k, tokens, color, name).
            \<lparr>sg_key = k, sg_tokens = tokens, sg_color = color, sg_name = name\<rparr>) used\<rparr>)"

definition bucketByRange :: "('a \<Rightarrow> string) \<Rightarrow> ('a list \<Rightarrow> string \<Rightarrow> 'a) \<Rightarrow> 'a list \<Rightarrow> 'a list" where
  "bucketByRange date merge rows =
     (if length rows \<le> 42 then rows
      else let monthly = (length rows > 180);
               groups = foldl (\<lambda>gs row.
                 let key = (if monthly then isoMonth (date row) else isoWeekStart (date row))
                 in map_set key (get_or [] gs key @ [row]) gs) [] rows
           in map (\<lambda>(key, group). merge group key) groups)"

definition bucketDailyStacks :: "usage_day list \<Rightarrow> usage_series list \<Rightarrow> day_stack list" where
  "bucketDailyStacks days series = bucketByRange st_date mergeStacks (map (stackDay series) days)"

section \<open>Axis\<close>

definition axis_step :: "nat \<Rightarrow> nat" where
  "axis_step final = max 1 ((final + 5) div 6)"

function axis_marks :: "nat \<Rightarrow> nat \<Rightarrow> nat \<Rightarrow> nat list" where
  "axis_marks i step final = (if i < final \<and> step > 0 then i # axis_marks (i + step) step final else [])"
  by pat_completeness auto
termination by (relation "measure (\<lambda>(i, _, final). final - i)") auto

declare axis_marks.simps [simp del]

definition sparseAxisLabels :: "nat \<Rightarrow> nat set" where
  "sparseAxisLabels count =
     (if count \<le> 8 then {0..<count}
      else let final = count - 1; step = axis_step final in {0, final} \<union> set (axis_marks step step final))"

section \<open>Cost\<close>

record cost_meta =
  cm_exact :: rat
  cm_estimated :: rat
  cm_lowerBound :: rat
  cm_stale :: rat
  cm_unpriced :: nat
  cm_unmetered :: nat

record cost_stack =
  ck_date :: string
  ck_label :: string
  ck_requests :: nat
  ck_mixed :: bool
  ck_segments :: "(string \<times> rat \<times> string) list"
  ck_cost :: cost_meta

definition costSegmentsFromMeta :: "cost_meta \<Rightarrow> (string \<times> rat \<times> string) list" where
  "costSegmentsFromMeta c =
     filter (\<lambda>(_, amount, _). amount > 0)
       [(''exact'', cm_exact c, ''var(--usage-cost-exact)''), (''estimated'', cm_estimated c, ''var(--usage-cost-estimated)''),
        (''lower_bound'', cm_lowerBound c, ''var(--usage-cost-lower)''), (''stale'', cm_stale c, ''var(--usage-cost-stale)'')]"

definition costMetaFromSummary :: "cost_summary option \<Rightarrow> cost_meta" where
  "costMetaFromSummary cost =
     (case cost of
        None \<Rightarrow> \<lparr>cm_exact = 0, cm_estimated = 0, cm_lowerBound = 0, cm_stale = 0, cm_unpriced = 0, cm_unmetered = 0\<rparr>
      | Some c \<Rightarrow> \<lparr>cm_exact = cs_exact c, cm_estimated = cs_estimated c, cm_lowerBound = cs_lowerBound c,
                  cm_stale = cs_stale c, cm_unpriced = cs_unpricedRequests c, cm_unmetered = cs_unmeteredRequests c\<rparr>)"

definition pricedClassCount :: "cost_meta \<Rightarrow> nat" where
  "pricedClassCount c = length (filter (\<lambda>a. a > 0) [cm_exact c, cm_estimated c, cm_lowerBound c, cm_stale c])"

definition stackCostDay :: "usage_day \<Rightarrow> cost_stack" where
  "stackCostDay day =
     (let cost = costMetaFromSummary (ud_cost day)
      in \<lparr>ck_date = ud_date day, ck_label = ud_date day, ck_requests = ud_requests day,
          ck_mixed = (case ud_cost day of Some c \<Rightarrow> \<not> cs_displayTotalSafe c | None \<Rightarrow> True),
          ck_segments = costSegmentsFromMeta cost, ck_cost = cost\<rparr>)"

definition mergeCostStacks :: "cost_stack list \<Rightarrow> string \<Rightarrow> cost_stack" where
  "mergeCostStacks rows label =
     (let cost = \<lparr>cm_exact = sum_list (map (cm_exact \<circ> ck_cost) rows),
                  cm_estimated = sum_list (map (cm_estimated \<circ> ck_cost) rows),
                  cm_lowerBound = sum_list (map (cm_lowerBound \<circ> ck_cost) rows),
                  cm_stale = sum_list (map (cm_stale \<circ> ck_cost) rows),
                  cm_unpriced = sum_list (map (cm_unpriced \<circ> ck_cost) rows),
                  cm_unmetered = sum_list (map (cm_unmetered \<circ> ck_cost) rows)\<rparr>
      in \<lparr>ck_date = (case rows of [] \<Rightarrow> label | r # _ \<Rightarrow> ck_date r), ck_label = label,
          ck_requests = sum_list (map ck_requests rows),
          ck_mixed = (list_ex ck_mixed rows \<or> pricedClassCount cost > 1),
          ck_segments = costSegmentsFromMeta cost, ck_cost = cost\<rparr>)"

definition dailyCostStacks :: "usage_day list \<Rightarrow> cost_stack list" where
  "dailyCostStacks days = bucketByRange ck_date mergeCostStacks (map stackCostDay days)"

definition pricedCostAmount :: "cost_meta \<Rightarrow> rat" where
  "pricedCostAmount c = cm_exact c + cm_estimated c + cm_lowerBound c + cm_stale c"

datatype cost_status = Exact | Estimated | LowerBound | Stale
datatype tooltip_head = Amount cost_status rat | Mixed | Classes

definition costTooltipHead :: "cost_meta \<Rightarrow> tooltip_head" where
  "costTooltipHead c =
     (let classes = map (\<lambda>(s, a). Amount s a) (filter (\<lambda>(_, a). a > 0)
            [(Exact, cm_exact c), (Estimated, cm_estimated c), (LowerBound, cm_lowerBound c), (Stale, cm_stale c)]);
          gaps = cm_unpriced c + cm_unmetered c
      in if length classes > 1 then Mixed
         else if length classes = 1 \<and> gaps = 0 then hd classes else Classes)"

section \<open>Lemmas on maps\<close>

lemma sum_update_distinct:
  fixes f :: "'k \<Rightarrow> nat"
  shows "distinct ks \<Longrightarrow> k \<in> set ks \<Longrightarrow> sum_list (map (\<lambda>j. if j = k then f j + v else f j) ks) = sum_list (map f ks) + v"
proof (induction ks)
  case (Cons j ks)
  show ?case
  proof (cases "j = k")
    case True
    with Cons.prems(1) have e: "map (\<lambda>j. if j = k then f j + v else f j) ks = map f ks" by auto
    show ?thesis using True by (simp add: e)
  qed (use Cons in simp)
qed simp

text \<open>Totals of a map whose values are read by \<open>f\<close>.\<close>

lemma sum_map_set:
  fixes f :: "'v \<Rightarrow> nat"
  shows "sum_list (map (f \<circ> snd) (map_set k v m)) + (case map_of m k of Some w \<Rightarrow> f w | None \<Rightarrow> 0)
     = sum_list (map (f \<circ> snd) m) + f v"
  by (induction m) auto

section \<open>Lemmas on stacks\<close>

definition stack_tokens :: "day_stack \<Rightarrow> nat" where
  "stack_tokens k = sum_list (map sg_tokens (st_segments k))"

definition day_tokens :: "usage_day \<Rightarrow> nat" where
  "day_tokens d = sum_list (map dm_totalTokens (ud_models d))"

definition row_key :: "usage_series list \<Rightarrow> day_model \<Rightarrow> string" where
  "row_key series row =
     (let key = modelSeriesKey (dm_provider row) (dm_model row)
      in if key \<in> set (map us_key (filter (\<lambda>i. \<not> us_other i) series)) then key else ''other'')"

text \<open>The series have different keys, the rest is called \<^verbatim>\<open>other\<close>, and every row of the day has a series.\<close>

definition series_ok :: "usage_series list \<Rightarrow> bool" where
  "series_ok series \<longleftrightarrow> distinct (map us_key series) \<and> (\<forall>i \<in> set series. us_other i \<longrightarrow> us_key i = ''other'')"

definition row_known :: "usage_series list \<Rightarrow> day_model \<Rightarrow> bool" where
  "row_known series row \<longleftrightarrow>
     list_ex us_other series
     \<or> modelSeriesKey (dm_provider row) (dm_model row) \<in> set (map us_key (filter (\<lambda>i. \<not> us_other i) series))"

definition covered :: "usage_series list \<Rightarrow> usage_day \<Rightarrow> bool" where
  "covered series d \<longleftrightarrow> (\<forall>row \<in> set (ud_models d). row_known series row)"

lemma count_row_eq:
  assumes "row_known series row"
  shows "count_row series used row = map_set (row_key series row) (get_or 0 used (row_key series row) + dm_totalTokens row) used"
  using assms by (auto simp: row_known_def count_row_def row_key_def Let_def)

lemma row_key_in:
  assumes "series_ok series" "row_known series row"
  shows "row_key series row \<in> set (map us_key series)"
proof (cases "modelSeriesKey (dm_provider row) (dm_model row) \<in> set (map us_key (filter (\<lambda>i. \<not> us_other i) series))")
  case True
  then show ?thesis by (auto simp: row_key_def)
next
  case False
  with assms(2) obtain i where "i \<in> set series" "us_other i" by (auto simp: row_known_def list_ex_iff)
  with assms(1) have "''other'' \<in> set (map us_key series)" by (force simp: series_ok_def)
  with False show ?thesis by (simp add: row_key_def Let_def)
qed

lemma count_rows_sum:
  assumes "series_ok series"
    and "\<forall>row \<in> set rows. row_known series row"
  shows "sum_list (map (get_or 0 (foldl (count_row series) used rows)) (map us_key series))
     = sum_list (map (get_or 0 used) (map us_key series)) + sum_list (map dm_totalTokens rows)"
  using assms(2)
proof (induction rows arbitrary: used)
  case (Cons row rows)
  let ?used = "map_set (row_key series row) (get_or 0 used (row_key series row) + dm_totalTokens row) used"
  have c: "row_known series row"
    using Cons.prems by (meson list.set_intros(1))
  have "map (get_or 0 ?used) (map us_key series) =
      map (\<lambda>j. if j = row_key series row then get_or 0 used j + dm_totalTokens row else get_or 0 used j) (map us_key series)"
    by simp
  then have step: "sum_list (map (get_or 0 ?used) (map us_key series)) =
      sum_list (map (get_or 0 used) (map us_key series)) + dm_totalTokens row"
    using sum_update_distinct [of "map us_key series" "row_key series row" "get_or 0 used" "dm_totalTokens row"]
      row_key_in [OF assms(1) c] assms(1) by (simp only: series_ok_def)
  have "\<forall>row \<in> set rows. row_known series row" using Cons.prems by simp
  note ih = Cons.IH [OF this, of ?used]
  show ?case unfolding foldl.simps count_row_eq [OF c] ih step by simp
qed simp

lemma sum_filter_positive: "sum_list (map f (filter (\<lambda>x. f x > 0) xs)) = sum_list (map f xs)" for f :: "'a \<Rightarrow> nat"
  by (induction xs) auto

lemma stackDay_tokens:
  assumes "series_ok series" "covered series d"
  shows "stack_tokens (stackDay series d) = day_tokens d"
proof -
  have "\<forall>row \<in> set (ud_models d). row_known series row" using assms(2) by (simp add: covered_def)
  from count_rows_sum [OF assms(1) this, of "[]"] show ?thesis
    by (simp add: stack_tokens_def stackDay_def day_tokens_def sum_filter_positive comp_def Let_def)
qed

lemma merge_segments_sum:
  "sum_list (map (fst \<circ> snd) (foldl merge_segment used gs)) =
     sum_list (map (fst \<circ> snd) used) + sum_list (map sg_tokens gs)"
proof (induction gs arbitrary: used)
  case (Cons g gs)
  have "sum_list (map (fst \<circ> snd) (merge_segment used g)) = sum_list (map (fst \<circ> snd) used) + sg_tokens g"
  proof (cases "map_of used (sg_key g)")
    case None
    then show ?thesis
      using sum_map_set [of fst "sg_key g" "(sg_tokens g, sg_color g, sg_name g)" used] by (simp add: merge_segment_def)
  next
    case (Some w)
    then obtain v where "merge_segment used g = map_set (sg_key g) v used" "fst v = fst w + sg_tokens g"
      by (cases w) (simp add: merge_segment_def)
    then show ?thesis using sum_map_set [of fst "sg_key g" v used] Some by simp
  qed
  with Cons.IH [of "merge_segment used g"] show ?case by (simp add: comp_def)
qed simp

lemma mergeStacks_sums:
  "stack_tokens (mergeStacks rows label) = sum_list (map stack_tokens rows)"
  "st_requests (mergeStacks rows label) = sum_list (map st_requests rows)"
  "st_totalTokens (mergeStacks rows label) = sum_list (map st_totalTokens rows)"
proof -
  have "sum_list (map sg_tokens (concat (map st_segments rows))) = sum_list (map stack_tokens rows)"
    by (induction rows) (auto simp: stack_tokens_def)
  moreover have m: "map sg_tokens (map (\<lambda>(k, tokens, color, name).
      \<lparr>sg_key = k, sg_tokens = tokens, sg_color = color, sg_name = name\<rparr>) m) = map (fst \<circ> snd) m" for m
    by auto
  ultimately show "stack_tokens (mergeStacks rows label) = sum_list (map stack_tokens rows)"
    using merge_segments_sum [of "[]" "concat (map st_segments rows)"]
    unfolding stack_tokens_def mergeStacks_def Let_def day_stack.simps m by simp
qed (simp_all add: mergeStacks_def Let_def)

text \<open>Bucketing keeps every total that merging adds up.\<close>

lemma bucket_sum:
  fixes f :: "'a \<Rightarrow> 'n :: comm_monoid_add"
  assumes "\<And>group key. f (merge group key) = sum_list (map f group)"
  shows "sum_list (map f (bucketByRange date merge rows)) = sum_list (map f rows)"
proof -
  define gsum where "gsum m = sum_list (map (\<lambda>kg. sum_list (map f (snd kg))) m)" for m :: "(string \<times> 'a list) list"
  have put: "gsum (map_set k (get_or [] m k @ [row]) m) = gsum m + f row" for k m row
    by (induction m) (auto simp: gsum_def get_or_def ac_simps)
  have "gsum (foldl (\<lambda>gs row. let key = g row in map_set key (get_or [] gs key @ [row]) gs) m rows)
      = gsum m + sum_list (map f rows)" for m g
    by (induction rows arbitrary: m) (simp_all add: put Let_def ac_simps)
  from this [of _ "[]"] show ?thesis
    using assms by (simp add: bucketByRange_def gsum_def Let_def comp_def split_def)
qed

section \<open>Lemmas on series\<close>

lemma by_tokens_comparator: "comparator by_tokens (\<lambda>_. True)"
  by unfold_locales (auto simp: by_tokens_def)

abbreviation model_key :: "usage_model \<Rightarrow> string" where
  "model_key m \<equiv> modelSeriesKey (um_provider m) (um_model m)"

lemma head_keys:
  "map us_key (map (head_series w) (enumerate n ms)) = map model_key ms"
  "map us_totalTokens (map (head_series w) (enumerate n ms)) = map um_totalTokens ms"
  "list_ex us_other (map (head_series w) (enumerate n ms)) = False"
  by (induction ms arbitrary: n) (auto simp: head_series_def)

lemma model_key_not_other: "modelSeriesKey p m \<noteq> ''other''"
proof
  assume "modelSeriesKey p m = ''other''"
  moreover have "CHR ''/'' \<in> set (modelSeriesKey p m)" by (simp add: modelSeriesKey_def)
  ultimately show False by simp
qed

lemma topModelSeries_ok:
  assumes "distinct (map model_key models)"
  shows "series_ok (topModelSeries models w)"
proof -
  let ?head = "take USAGE_SERIES_LIMIT (sort_by by_tokens models)"
  have "distinct (map model_key ?head)"
    using assms distinct_take [of "map model_key (sort_by by_tokens models)"] by (simp add: distinct_sort_by take_map)
  moreover have "''other'' \<notin> set (map model_key ?head)"
    unfolding set_map using model_key_not_other [THEN not_sym] by blast
  moreover have "\<not> us_other i" if "i \<in> set (map (head_series w) (enumerate 0 ?head))" for i
    using that head_keys(3) [of w 0 ?head] by (auto simp: list_ex_iff)
  ultimately show ?thesis
    using head_keys(1) [of w 0 ?head] by (auto simp: topModelSeries_def series_ok_def Let_def simp del: map_map)
qed

lemma topModelSeries_sum: "sum_list (map us_totalTokens (topModelSeries models w)) = sum_list (map um_totalTokens models)"
proof -
  let ?r = "sort_by by_tokens models"
  have "sum_list (map um_totalTokens models) = sum_list (map um_totalTokens (take USAGE_SERIES_LIMIT ?r @ drop USAGE_SERIES_LIMIT ?r))"
    by (simp add: sum_sort_by)
  also have "\<dots> = sum_list (map um_totalTokens (take USAGE_SERIES_LIMIT ?r)) + sum_list (map um_totalTokens (drop USAGE_SERIES_LIMIT ?r))"
    by (simp only: map_append sum_list_append)
  finally show ?thesis
    using head_keys(2) [of w 0 "take USAGE_SERIES_LIMIT ?r"]
    by (simp add: topModelSeries_def Let_def del: map_map)
qed

lemma topModelSeries_length: "length (topModelSeries models w) \<le> USAGE_SERIES_LIMIT + 1"
  by (auto simp: topModelSeries_def Let_def)

lemma bucketDailyStacks_sums:
  assumes "series_ok series" "\<forall>d \<in> set days. covered series d"
  shows "sum_list (map stack_tokens (bucketDailyStacks days series)) = sum_list (map day_tokens days)"
    and "sum_list (map st_requests (bucketDailyStacks days series)) = sum_list (map ud_requests days)"
    and "sum_list (map st_totalTokens (bucketDailyStacks days series)) = sum_list (map ud_totalTokens days)"
proof -
  have "map stack_tokens (map (stackDay series) days) = map day_tokens days"
    using assms(2) stackDay_tokens [OF assms(1)] by simp
  then show "sum_list (map stack_tokens (bucketDailyStacks days series)) = sum_list (map day_tokens days)"
    unfolding bucketDailyStacks_def by (simp only: bucket_sum [where f = stack_tokens, OF mergeStacks_sums(1)])
  have "map st_requests (map (stackDay series) days) = map ud_requests days"
      "map st_totalTokens (map (stackDay series) days) = map ud_totalTokens days"
    by (simp_all add: stackDay_def Let_def)
  then show "sum_list (map st_requests (bucketDailyStacks days series)) = sum_list (map ud_requests days)"
    "sum_list (map st_totalTokens (bucketDailyStacks days series)) = sum_list (map ud_totalTokens days)"
    unfolding bucketDailyStacks_def
    by (simp_all only: bucket_sum [where f = st_requests, OF mergeStacks_sums(2)]
        bucket_sum [where f = st_totalTokens, OF mergeStacks_sums(3)])
qed

lemma merge_cost_amount:
  "pricedCostAmount (ck_cost (mergeCostStacks rows label)) = sum_list (map (pricedCostAmount \<circ> ck_cost) rows)"
  by (induction rows) (auto simp: mergeCostStacks_def pricedCostAmount_def Let_def)

section \<open>Properties\<close>

lemma axis_marks_below: "i \<in> set (axis_marks j step final) \<Longrightarrow> i < final"
  by (induction j step final rule: axis_marks.induct) (subst (asm) axis_marks.simps, auto split: if_splits)

lemma axis_marks_length: "0 < step \<Longrightarrow> j \<le> final \<Longrightarrow> length (axis_marks j step final) * step < final - j + step"
proof (induction j step final rule: axis_marks.induct)
  case (1 i step final)
  show ?case
  proof (cases "i < final")
    case True
    show ?thesis
    proof (cases "i + step \<le> final")
      case True
      with 1 \<open>i < final\<close> show ?thesis by (subst axis_marks.simps) auto
    next
      case False
      then have "axis_marks (i + step) step final = []" by (subst axis_marks.simps) simp
      with 1 \<open>i < final\<close> show ?thesis by (subst axis_marks.simps) auto
    qed
  next
    case False
    with 1 show ?thesis by (subst axis_marks.simps) auto
  qed
qed

lemma axis_labels_card: "card (sparseAxisLabels n) \<le> 8"
proof (cases "n \<le> 8")
  case False
  define f where "f = n - 1"
  define k where "k = axis_step f"
  let ?m = "axis_marks k k f"
  have k: "0 < k" "f \<le> 6 * k" "k \<le> f" using False by (auto simp: k_def axis_step_def f_def)
  have "length ?m * k < f - k + k" using axis_marks_length [of k k f] k by simp
  then have "length ?m * k < 6 * k" using k by linarith
  then have "length ?m < 6" using k(1) by (simp only: mult_less_cancel2)
  moreover have "card ({0, f} \<union> set ?m) \<le> card {0, f} + card (set ?m)" by (rule card_Un_le)
  moreover have "card {0, f} \<le> 2" by (simp add: card_insert_if)
  moreover have "card (set ?m) \<le> length ?m" by (rule card_length)
  ultimately show ?thesis using False by (simp add: sparseAxisLabels_def Let_def f_def k_def)
qed (simp add: sparseAxisLabels_def)

text \<open>The usage charts lose nothing and add nothing. The series of the token chart add up to the tokens of
  all models and are at most five; however the days are bucketed, the segments add up to the tokens of
  the days' models, and the requests and totals to those of the days; the cost chart keeps the priced
  amount; and the axis carries at most eight labels, each of them a bar.\<close>

theorem usage_charts_conserve:
  assumes "distinct (map model_key models)" "\<forall>d \<in> set days. covered (topModelSeries models w) d"
  shows "sum_list (map us_totalTokens (topModelSeries models w)) = sum_list (map um_totalTokens models)
   \<and> length (topModelSeries models w) \<le> 5
   \<and> sum_list (map stack_tokens (bucketDailyStacks days (topModelSeries models w))) = sum_list (map day_tokens days)
   \<and> sum_list (map st_requests (bucketDailyStacks days (topModelSeries models w))) = sum_list (map ud_requests days)
   \<and> sum_list (map st_totalTokens (bucketDailyStacks days (topModelSeries models w))) = sum_list (map ud_totalTokens days)
   \<and> sum_list (map (pricedCostAmount \<circ> ck_cost) (dailyCostStacks days)) =
       sum_list (map (pricedCostAmount \<circ> costMetaFromSummary \<circ> ud_cost) days)
   \<and> card (sparseAxisLabels n) \<le> 8 \<and> sparseAxisLabels n \<subseteq> {0..<n}"
proof -
  have "sum_list (map (pricedCostAmount \<circ> ck_cost) (dailyCostStacks days)) =
       sum_list (map (pricedCostAmount \<circ> ck_cost) (map stackCostDay days))"
    unfolding dailyCostStacks_def by (rule bucket_sum) (simp add: merge_cost_amount)
  also have "map (pricedCostAmount \<circ> ck_cost) (map stackCostDay days) =
      map (pricedCostAmount \<circ> costMetaFromSummary \<circ> ud_cost) days"
    by (simp add: stackCostDay_def Let_def)
  finally have cost: "sum_list (map (pricedCostAmount \<circ> ck_cost) (dailyCostStacks days)) =
       sum_list (map (pricedCostAmount \<circ> costMetaFromSummary \<circ> ud_cost) days)" .
  have axis: "sparseAxisLabels n \<subseteq> {0..<n}"
  proof
    fix i assume "i \<in> sparseAxisLabels n"
    then show "i \<in> {0..<n}"
      using axis_marks_below [of i _ _ "n - 1"] by (auto simp: sparseAxisLabels_def Let_def split: if_splits) fastforce
  qed
  show ?thesis
    using topModelSeries_sum [of models w] topModelSeries_length [of models w] cost axis axis_labels_card [of n]
      bucketDailyStacks_sums [OF topModelSeries_ok [OF assms(1)] assms(2)]
    by (simp add: USAGE_SERIES_LIMIT_def)
qed

definition sample_models :: "usage_model list" where
  "sample_models = map (\<lambda>n. \<lparr>um_provider = ''p'', um_model = show_nat n, um_totalTokens = n\<rparr>) [1, 2, 3, 4, 5, 6]"

definition sample_day :: usage_day where
  "sample_day = \<lparr>ud_date = ''2026-03-01'', ud_requests = 2, ud_totalTokens = 21, ud_cost = None,
     ud_models = map (\<lambda>n. \<lparr>dm_model = show_nat n, dm_provider = ''p'', dm_totalTokens = n\<rparr>) [1, 2, 3, 4, 5, 6]\<rparr>"

theorem usage_charts_conserve_witness:
  "map us_totalTokens (topModelSeries sample_models 21) = [6, 5, 4, 3, 3]
   \<and> sum_list (map stack_tokens (bucketDailyStacks [sample_day] (topModelSeries sample_models 21))) = 21
   \<and> isoWeekStart ''2026-03-04'' = ''2026-03-01''"
proof (intro conjI)
  have d: "distinct (map model_key sample_models)" by code_simp
  have "\<forall>d \<in> set [sample_day]. covered (topModelSeries sample_models 21) d" by code_simp
  from usage_charts_conserve [OF d this]
  have "sum_list (map stack_tokens (bucketDailyStacks [sample_day] (topModelSeries sample_models 21)))
      = sum_list (map day_tokens [sample_day])" by blast
  also have "\<dots> = 21" by code_simp
  finally show "sum_list (map stack_tokens (bucketDailyStacks [sample_day] (topModelSeries sample_models 21))) = 21" .
qed code_simp+

end
