(* ===== verification/Js_Numbers.thy ===== *)
theory Js_Numbers
  imports Benes_Prelude
begin

text \<open>
  \<^verbatim>\<open>Number(text)\<close> and \<^verbatim>\<open>String(number)\<close>, as forms that keep numbers as text use them. A finite number is
  its decimal value: for a double, the shortest decimal that denotes it, which is what \<^verbatim>\<open>String\<close>
  prints and what \<^verbatim>\<open>Number\<close> reads back to the same double. Values that a double rounds to infinity are
  infinite here; other rounding is not modelled, and the two zeros are one.

  The result of the theory is that reading undoes printing.
\<close>

section \<open>Reading\<close>

definition digit_span :: "string \<Rightarrow> string \<times> string" where
  "digit_span s = (takeWhile is_digit s, dropWhile is_digit s)"

definition to_jsnum :: "rat \<Rightarrow> jsnum" where
  "to_jsnum r =
     (let bound = 2 ^ 1024 - 2 ^ 970 in if bound \<le> r then PosInf else if r \<le> - bound then NegInf else Fin r)"

definition hex_value :: "char \<Rightarrow> nat option" where
  "hex_value c =
     (if is_digit c then Some (of_char c - 48)
      else if CHR ''a'' \<le> c \<and> c \<le> CHR ''f'' then Some (of_char c - 87)
      else if CHR ''A'' \<le> c \<and> c \<le> CHR ''F'' then Some (of_char c - 55) else None)"

fun read_base :: "nat \<Rightarrow> nat \<Rightarrow> string \<Rightarrow> nat option" where
  "read_base b acc [] = Some acc"
| "read_base b acc (c # s) =
     (case hex_value c of None \<Rightarrow> None | Some d \<Rightarrow> if d < b then read_base b (b * acc + d) s else None)"

definition radix_literal :: "string \<Rightarrow> jsnum option" where
  "radix_literal s =
     (let body = drop 2 s;
          as = (\<lambda>b. if body = [] then NaN else case read_base b 0 body of None \<Rightarrow> NaN | Some n \<Rightarrow> to_jsnum (of_nat n))
      in if take 2 s \<in> {''0x'', ''0X''} then Some (as 16)
         else if take 2 s \<in> {''0o'', ''0O''} then Some (as 8)
         else if take 2 s \<in> {''0b'', ''0B''} then Some (as 2) else None)"

definition split_sign :: "string \<Rightarrow> bool \<times> string" where
  "split_sign s =
     (case s of [] \<Rightarrow> (False, [])
      | c # t \<Rightarrow> if c = CHR ''-'' then (True, t) else if c = CHR ''+'' then (False, t) else (False, s))"

definition pow10 :: "int \<Rightarrow> rat" where
  "pow10 e = (if 0 \<le> e then 10 ^ nat e else 1 / 10 ^ nat (- e))"

definition read_exponent :: "string \<Rightarrow> int option" where
  "read_exponent s =
     (case s of [] \<Rightarrow> Some 0
      | c # t \<Rightarrow>
          if c \<in> {CHR ''e'', CHR ''E''}
          then (let (neg, d) = split_sign t
                in if d \<noteq> [] \<and> list_all is_digit d
                   then Some (if neg then - int (read_digits d) else int (read_digits d)) else None)
          else None)"

definition decimal_literal :: "string \<Rightarrow> rat option" where
  "decimal_literal s =
     (let (ip, r1) = digit_span s;
          (fp, r2) = (case r1 of [] \<Rightarrow> ([], []) | c # r \<Rightarrow> if c = CHR ''.'' then digit_span r else ([], r1))
      in if ip = [] \<and> fp = [] then None
         else map_option (\<lambda>e. of_nat (read_digits (ip @ fp)) * pow10 (e - int (length fp))) (read_exponent r2))"

definition js_number :: "string \<Rightarrow> jsnum" where
  "js_number text =
     (let s = trim text in
      if s = [] then Fin 0
      else case radix_literal s of Some n \<Rightarrow> n
           | None \<Rightarrow>
               (let (neg, u) = split_sign s in
                if u = ''Infinity'' then (if neg then NegInf else PosInf)
                else case decimal_literal u of None \<Rightarrow> NaN
                     | Some r \<Rightarrow> to_jsnum (if neg then - r else r)))"

section \<open>Printing\<close>

text \<open>
  The digits of a positive decimal: the least number of places that makes it an integer, and then
  the trailing zeros moved into the exponent.
\<close>

function decimal_places :: "nat \<Rightarrow> nat" where
  "decimal_places q = (if q = 0 \<or> gcd q 10 = 1 then 0 else Suc (decimal_places (q div gcd q 10)))"
  by pat_completeness auto

termination
proof (relation "measure id")
  fix q :: nat
  assume "\<not> (q = 0 \<or> gcd q 10 = 1)"
  then have "0 < q" "gcd q 10 > 1" by (auto simp: Suc_lessI gcd_pos_nat)
  then have "q div gcd q 10 < q" by (intro div_less_dividend) auto
  then show "(q div gcd q 10, q) \<in> measure id" by simp
qed simp

declare decimal_places.simps [simp del]

function strip_zeros :: "nat \<Rightarrow> int \<Rightarrow> nat \<times> int" where
  "strip_zeros m e = (if m = 0 \<or> m mod 10 \<noteq> 0 then (m, e) else strip_zeros (m div 10) (e + 1))"
  by pat_completeness auto

termination
  by (relation "measure fst") auto

declare strip_zeros.simps [simp del]

definition decimal_digits :: "rat \<Rightarrow> nat \<times> int" where
  "decimal_digits r =
     (let (p, q) = quotient_of r; k = decimal_places (nat q)
      in strip_zeros (nat (p * 10 ^ k div q)) (- int k))"

definition zeros :: "nat \<Rightarrow> string" where
  "zeros n = replicate n (CHR ''0'')"

text \<open>\<^verbatim>\<open>Number::toString\<close>: the five shapes of the standard, for the digits \<open>s\<close> and the exponent \<open>x\<close>.\<close>

definition show_decimal :: "nat \<Rightarrow> int \<Rightarrow> string" where
  "show_decimal s x =
     (let d = show_nat s; k = int (length d); n = k + x;
          ex = (if n - 1 < 0 then ''e-'' @ show_nat (nat (1 - n)) else ''e+'' @ show_nat (nat (n - 1)))
      in if k \<le> n \<and> n \<le> 21 then d @ zeros (nat (n - k))
         else if 0 < n \<and> n \<le> 21 then take (nat n) d @ ''.'' @ drop (nat n) d
         else if - 6 < n \<and> n \<le> 0 then ''0.'' @ zeros (nat (- n)) @ d
         else if length d = 1 then d @ ex
         else take 1 d @ ''.'' @ drop 1 d @ ex)"

definition js_show :: "rat \<Rightarrow> string" where
  "js_show r =
     (if r = 0 then ''0''
      else if r < 0 then CHR ''-'' # (case decimal_digits (- r) of (s, x) \<Rightarrow> show_decimal s x)
      else (case decimal_digits r of (s, x) \<Rightarrow> show_decimal s x))"

fun num_text :: "jsnum \<Rightarrow> string" where
  "num_text (Fin r) = js_show r"
| "num_text PosInf = ''Infinity''"
| "num_text NegInf = ''-Infinity''"
| "num_text NaN = ''NaN''"

text \<open>The finite doubles: a decimal expansion that ends, and a value no double rounds to infinity.\<close>

definition decimal :: "rat \<Rightarrow> bool" where
  "decimal r \<longleftrightarrow> (\<exists>k. snd (quotient_of r) dvd 10 ^ k) \<and> \<bar>r\<bar> < 2 ^ 1024 - 2 ^ 970"

section \<open>Digits\<close>

lemma read_digits_append: "read_digits (a @ b) = read_digits a * 10 ^ length b + read_digits b"
proof (induction b rule: rev_induct)
  case Nil
  show ?case by (simp add: read_digits_def)
next
  case (snoc c b)
  have "read_digits (a @ b @ [c]) = 10 * read_digits (a @ b) + (of_char c - 48)"
    using read_digits_snoc [of "a @ b" c] by simp
  then show ?case by (simp add: snoc.IH read_digits_snoc algebra_simps)
qed

lemma read_zeros [simp]: "read_digits (zeros n) = 0"
proof (induction n)
  case (Suc n)
  have "zeros (Suc n) = zeros n @ [CHR ''0'']" by (simp add: zeros_def replicate_append_same)
  then show ?case by (simp add: read_digits_snoc Suc.IH)
qed (simp add: zeros_def read_digits_def)

lemma zeros_digits: "list_all is_digit (zeros n)"
  by (simp add: zeros_def list_all_iff)

lemma show_digits: "list_all is_digit (show_nat n)"
  by (auto simp: list_all_iff dest: show_nat_digits)

lemma digits_take: "list_all P d \<Longrightarrow> list_all P (take n d)"
  by (auto simp: list_all_iff dest: in_set_takeD)

lemma digits_drop: "list_all P d \<Longrightarrow> list_all P (drop n d)"
  by (auto simp: list_all_iff dest: in_set_dropD)

lemma digit_span_append:
  "list_all is_digit a \<Longrightarrow> b = [] \<or> \<not> is_digit (hd b) \<Longrightarrow> digit_span (a @ b) = (a, b)"
  by (cases b) (auto simp: digit_span_def list_all_iff takeWhile_append2 dropWhile_append2)

lemma pow10_powi: "pow10 e = 10 powi e"
  by (simp add: pow10_def power_int_def inverse_eq_divide power_one_over)

lemma pow10_add: "pow10 (a + b) = pow10 a * pow10 b"
  by (simp add: pow10_powi power_int_add)

lemma pow10_nat [simp]: "pow10 (int n) = 10 ^ n"
  by (simp add: pow10_def)

lemma pow10_pos [simp]: "0 < pow10 e"
  by (simp add: pow10_def)

lemma to_jsnum_in: "\<bar>r\<bar> < 2 ^ 1024 - 2 ^ 970 \<Longrightarrow> to_jsnum r = Fin r"
proof -
  define b :: rat where "b = 2 ^ 1024 - 2 ^ 970"
  assume "\<bar>r\<bar> < 2 ^ 1024 - 2 ^ 970"
  then have "\<bar>r\<bar> < b" by (simp only: b_def)
  then show ?thesis unfolding to_jsnum_def Let_def b_def [symmetric] by auto
qed

section \<open>Reading a printed number\<close>

definition exponent_tail :: "string \<Rightarrow> bool" where
  "exponent_tail s \<longleftrightarrow> s = [] \<or> hd s = CHR ''e''"

lemma decimal_literal_parts:
  assumes "list_all is_digit ip" "list_all is_digit fp" "ip \<noteq> []" "exponent_tail ex"
  shows "decimal_literal (ip @ ex)
      = map_option (\<lambda>e. of_nat (read_digits ip) * pow10 e) (read_exponent ex)"
    and "decimal_literal (ip @ ''.'' @ fp @ ex)
      = map_option (\<lambda>e. of_nat (read_digits (ip @ fp)) * pow10 (e - int (length fp))) (read_exponent ex)"
proof -
  have ex: "ex = [] \<or> \<not> is_digit (hd ex)" using assms(4) by (auto simp: exponent_tail_def less_eq_char_def)
  have "digit_span (ip @ ex) = (ip, ex)" using assms(1) ex by (rule digit_span_append)
  then show "decimal_literal (ip @ ex)
      = map_option (\<lambda>e. of_nat (read_digits ip) * pow10 e) (read_exponent ex)"
    using assms(3,4) by (auto simp: decimal_literal_def exponent_tail_def split: list.split)
  have "digit_span (ip @ ''.'' @ fp @ ex) = (ip, ''.'' @ fp @ ex)"
    by (rule digit_span_append [OF assms(1)]) (simp add: less_eq_char_def)
  moreover have "digit_span (fp @ ex) = (fp, ex)" using assms(2) ex by (rule digit_span_append)
  ultimately show "decimal_literal (ip @ ''.'' @ fp @ ex)
      = map_option (\<lambda>e. of_nat (read_digits (ip @ fp)) * pow10 (e - int (length fp))) (read_exponent ex)"
    using assms(3) by (simp add: decimal_literal_def)
qed

lemma read_exponent_printed:
  "read_exponent (''e-'' @ show_nat m) = Some (- int m)"
  "read_exponent (''e+'' @ show_nat m) = Some (int m)"
  "read_exponent [] = Some 0"
  by (simp_all add: read_exponent_def split_sign_def show_digits read_show_nat)

lemma show_decimal_reads:
  "decimal_literal (show_decimal s x) = Some (of_nat s * pow10 x)"
proof -
  define d where "d = show_nat s"
  define k where "k = length d"
  define n where "n = int k + x"
  define ex where "ex = (if n - 1 < 0 then ''e-'' @ show_nat (nat (1 - n)) else ''e+'' @ show_nat (nat (n - 1)))"
  have sd: "show_decimal s x =
     (if int k \<le> n \<and> n \<le> 21 then d @ zeros (nat (n - int k))
      else if 0 < n \<and> n \<le> 21 then take (nat n) d @ ''.'' @ drop (nat n) d
      else if - 6 < n \<and> n \<le> 0 then ''0.'' @ zeros (nat (- n)) @ d
      else if k = 1 then d @ ex
      else take 1 d @ ''.'' @ drop 1 d @ ex)"
    by (simp add: show_decimal_def d_def k_def n_def ex_def Let_def)
  have d: "list_all is_digit d" "read_digits d = s" "d \<noteq> []" "0 < k"
    by (simp_all add: d_def show_digits read_show_nat k_def)
  have tails: "exponent_tail []" "exponent_tail ex" by (simp_all add: exponent_tail_def ex_def)
  have rex: "read_exponent ex = Some (n - 1)" using read_exponent_printed(1) [of "nat (1 - n)"] read_exponent_printed(2) [of "nat (n - 1)"] by (simp add: ex_def)
  have cut: "read_digits (take j d @ drop j d) = s" for j using d(2) by simp
  note lits = decimal_literal_parts [OF digits_take [OF d(1)] digits_drop [OF d(1)]]
  consider (whole) "int k \<le> n \<and> n \<le> 21" | (point) "\<not> int k \<le> n" "0 < n \<and> n \<le> 21"
    | (small) "- 6 < n \<and> n \<le> 0" | (one) "\<not> (int k \<le> n \<and> n \<le> 21)" "\<not> (0 < n \<and> n \<le> 21)" "\<not> (- 6 < n \<and> n \<le> 0)" "k = 1"
    | (many) "\<not> (int k \<le> n \<and> n \<le> 21)" "\<not> (0 < n \<and> n \<le> 21)" "\<not> (- 6 < n \<and> n \<le> 0)" "k \<noteq> 1" by blast
  then show ?thesis
  proof cases
    case whole
    then have x: "x = int (nat (n - int k))" by (simp add: n_def)
    have "decimal_literal ((d @ zeros (nat (n - int k))) @ []) = Some (of_nat (s * 10 ^ nat (n - int k)))"
      using decimal_literal_parts(1) [of "d @ zeros (nat (n - int k))" "[]" "[]"] d tails
      by (simp add: zeros_digits read_exponent_printed read_digits_append) (simp add: zeros_def pow10_def)
    moreover have "pow10 x = 10 ^ nat (n - int k)" by (subst x) (rule pow10_nat)
    ultimately show ?thesis unfolding sd using whole by simp
  next
    case point
    have "decimal_literal (take (nat n) d @ ''.'' @ drop (nat n) d @ [])
        = Some (of_nat s * pow10 (0 - int (k - nat n)))"
      using lits(2) [of "nat n" "[]" "nat n"] point d tails cut [of "nat n"]
      by (simp add: read_exponent_printed k_def)
    moreover have "0 - int (k - nat n) = x" using point by (simp add: n_def)
    ultimately show ?thesis using point by (simp add: sd)
  next
    case small
    have len: "length (zeros (nat (- n)) @ d) = nat (- n) + k" by (simp add: zeros_def k_def)
    have dig: "list_all is_digit (zeros (nat (- n)) @ d)" "list_all is_digit ''0''"
      using d(1) zeros_digits by simp_all
    have "read_digits ''0'' = 0" by code_simp
    then have rd: "read_digits (''0'' @ zeros (nat (- n)) @ d) = s" using d(2) by (simp only: read_digits_append) simp
    have "decimal_literal (''0'' @ ''.'' @ (zeros (nat (- n)) @ d) @ [])
        = Some (of_nat s * pow10 (0 - int (nat (- n) + k)))"
      using decimal_literal_parts(2) [OF dig(2) dig(1) _ tails(1)]
      unfolding rd len read_exponent_printed(3) by simp
    moreover have "0 - int (nat (- n) + k) = x" using small by (simp add: n_def)
    ultimately show ?thesis using small d(4) by (simp add: sd)
  next
    case one
    have "decimal_literal (d @ ex) = Some (of_nat s * pow10 (n - 1))"
      using decimal_literal_parts(1) [OF d(1) _ d(3) tails(2), of "[]"] d(2) rex by simp
    then show ?thesis using one by (auto simp: sd n_def)
  next
    case many
    have ne: "take 1 d \<noteq> []" using d(3) by simp
    have "decimal_literal (take 1 d @ ''.'' @ drop 1 d @ ex)
        = Some (of_nat s * pow10 ((n - 1) - int (k - 1)))"
      using lits(2) [OF ne tails(2), of 1] cut [of 1] rex by (simp add: k_def)
    moreover have "(n - 1) - int (k - 1) = x" using d(4) by (simp add: n_def)
    ultimately show ?thesis using many by (auto simp: sd)
  qed
qed

section \<open>The digits of a decimal\<close>

lemma decimal_places_enough: "0 < q \<Longrightarrow> q dvd 10 ^ j \<Longrightarrow> q dvd 10 ^ decimal_places q"
proof (induction q arbitrary: j rule: decimal_places.induct)
  case (1 q)
  show ?case
  proof (cases "gcd q 10 = 1")
    case True
    then have "coprime q 10" by (simp only: coprime_iff_gcd_eq_1)
    then have "coprime q (10 ^ j)" by simp
    then have "q = 1" using 1(3) by (metis coprime_absorb_left nat_dvd_1_iff_1)
    then show ?thesis by simp
  next
    case False
    let ?g = "gcd q 10"
    have split: "q = ?g * (q div ?g)" by simp
    from split 1(2) have pos: "0 < q div ?g" by (metis mult_0_right neq0_conv)
    have "q div ?g dvd 10 ^ j" using 1(3) split by (metis dvd_mult_right)
    with 1(1) False 1(2) pos have "q div ?g dvd 10 ^ decimal_places (q div ?g)" by blast
    then have "?g * (q div ?g) dvd 10 * 10 ^ decimal_places (q div ?g)" by (intro mult_dvd_mono) auto
    with split False 1(2) show ?thesis by (simp add: decimal_places.simps [of q])
  qed
qed

lemma strip_zeros_value:
  assumes "0 < m" "strip_zeros m e = (s, x)"
  shows "0 < s \<and> of_nat s * pow10 x = of_nat m * pow10 e"
  using assms
proof (induction m e arbitrary: s x rule: strip_zeros.induct)
  case (1 m e)
  show ?case
  proof (cases "m mod 10 = 0")
    case True
    then have m: "m = 10 * (m div 10)" by presburger
    with 1(2) have pos: "0 < m div 10" by (cases "m div 10") simp_all
    have "strip_zeros (m div 10) (e + 1) = (s, x)" using 1(2,3) True by (subst (asm) strip_zeros.simps) simp
    with 1(1) 1(2) True pos have "0 < s \<and> of_nat s * pow10 x = of_nat (m div 10) * pow10 (e + 1)" by simp
    moreover have "of_nat (m div 10) * pow10 (e + 1) = of_nat (10 * (m div 10)) * pow10 e"
      by (simp add: pow10_add) (simp add: pow10_def)
    ultimately show ?thesis using m by simp
  next
    case False
    with 1(2,3) show ?thesis by (subst (asm) strip_zeros.simps) simp
  qed
qed

lemma decimal_digits_value:
  assumes "0 < r" "decimal r" "decimal_digits r = (s, x)"
  shows "of_nat s * pow10 x = r"
proof -
  obtain p q where pq: "quotient_of r = (p, q)" by (cases "quotient_of r")
  have q: "0 < q" by (rule quotient_of_denom_pos [OF pq])
  have r: "r = of_int p / of_int q" by (rule quotient_of_div [OF pq])
  have p: "0 < p" using assms(1) r q by (simp add: zero_less_divide_iff)
  define k where "k = decimal_places (nat q)"
  from assms(2) pq obtain j where "q dvd 10 ^ j" by (auto simp: decimal_def)
  then have "int (nat q) dvd int (10 ^ j)" using q by simp
  then have "nat q dvd 10 ^ j" by (simp only: int_dvd_int_iff)
  with q have "nat q dvd 10 ^ k" unfolding k_def by (intro decimal_places_enough) auto
  then have "int (nat q) dvd int (10 ^ k)" by (simp only: int_dvd_int_iff)
  then have "q dvd p * 10 ^ k" using q by simp
  then obtain z where z: "p * 10 ^ k = q * z" by (rule dvdE)
  have zp: "0 < z" using z p q by (metis mult_pos_pos zero_less_mult_pos zero_less_power zero_less_numeral)
  have "strip_zeros (nat z) (- int k) = (s, x)"
    using assms(3) pq z q by (simp add: decimal_digits_def k_def [symmetric])
  from strip_zeros_value [OF _ this] zp have "of_nat s * pow10 x = of_nat (nat z) * pow10 (- int k)" by simp
  also have "\<dots> = of_int z / 10 ^ k" using zp by (cases "k = 0") (simp_all add: pow10_def)
  also have "\<dots> = r"
  proof -
    have "(of_int p :: rat) * 10 ^ k = of_int q * of_int z" using z by (metis of_int_mult of_int_numeral of_int_power)
    then show ?thesis using q by (simp add: r field_simps)
  qed
  finally show ?thesis .
qed

section \<open>Reading undoes printing\<close>

definition number_char :: "char \<Rightarrow> bool" where
  "number_char c \<longleftrightarrow> is_digit c \<or> c \<in> set ''.e+-''"

lemma show_decimal_chars: "list_all number_char (show_decimal s x)"
proof -
  have d: "c \<in> set (show_nat m) \<Longrightarrow> number_char c" for c m by (simp add: number_char_def show_nat_digits)
  have z: "c \<in> set (zeros m) \<Longrightarrow> number_char c" for c m by (simp add: number_char_def zeros_def)
  have p: "list_all number_char (''.'' :: string)" "list_all number_char ''0.''" "list_all number_char ''e-''"
    "list_all number_char ''e+''" by (simp_all add: number_char_def)
  have "list_all number_char (show_nat m)" "list_all number_char (zeros m)" for m
    using d z by (auto simp: list_all_iff)
  then show ?thesis unfolding show_decimal_def Let_def
    by (simp only: list_all_append p digits_take digits_drop simp_thms split: if_split)
qed

lemma show_decimal_head: "\<exists>c t. show_decimal s x = c # t \<and> is_digit c"
proof -
  have n: "\<exists>c t. show_nat s = c # t \<and> is_digit c"
    by (metis list.exhaust list.set_intros(1) show_nat_digits show_nat_not_Nil)
  then obtain c t where ct: "show_nat s = c # t" "is_digit c" by blast
  show ?thesis
    using ct(2) unfolding show_decimal_def Let_def ct(1) by (auto simp: take_Cons' nat_less_iff)
qed

lemma number_char_plain: "number_char c \<Longrightarrow> \<not> is_blank c \<and> c \<notin> set ''xXoObB''"
  by (auto simp: number_char_def is_blank_def blanks_def less_eq_char_def)

lemma radix_literal_None:
  assumes "list_all number_char s"
  shows "radix_literal s = None"
proof -
  have "take 2 s \<noteq> [CHR ''0'', c]" if "c \<in> set ''xXoObB''" for c
  proof
    assume "take 2 s = [CHR ''0'', c]"
    then have "c \<in> set s" by (metis in_set_takeD list.set_intros(1,2))
    with assms number_char_plain that show False by (auto simp: list_all_iff)
  qed
  then show ?thesis by (simp add: radix_literal_def Let_def)
qed

lemma js_number_printed:
  assumes "\<bar>of_nat s * pow10 x\<bar> < 2 ^ 1024 - 2 ^ 970"
  shows "js_number (show_decimal s x) = Fin (of_nat s * pow10 x)"
    and "js_number (CHR ''-'' # show_decimal s x) = Fin (- (of_nat s * pow10 x))"
proof -
  let ?u = "show_decimal s x"
  obtain c t where c: "?u = c # t" "is_digit c" using show_decimal_head by blast
  have cs: "c \<noteq> CHR ''-''" "c \<noteq> CHR ''+''" "c \<noteq> CHR ''I''" using c(2) by (auto simp: less_eq_char_def)
  have chars: "list_all number_char ?u" "list_all number_char (CHR ''-'' # ?u)"
    using show_decimal_chars by (simp_all add: number_char_def)
  have trim: "trim v = v" if "list_all number_char v" for v
    using that number_char_plain by (intro trim_no_blank) (auto simp: list_all_iff)
  have inf: "?u \<noteq> ''Infinity''" using c cs by simp
  have sign: "split_sign ?u = (False, ?u)" "split_sign (CHR ''-'' # ?u) = (True, ?u)"
    using c cs by (simp_all add: split_sign_def)
  note rule = show_decimal_reads [of s x] inf sign chars trim radix_literal_None
  show "js_number ?u = Fin (of_nat s * pow10 x)"
    using rule c to_jsnum_in [OF assms] by (simp add: js_number_def)
  show "js_number (CHR ''-'' # ?u) = Fin (- (of_nat s * pow10 x))"
    using rule to_jsnum_in [of "- (of_nat s * pow10 x)"] assms by (simp only: abs_minus_cancel) (simp add: js_number_def)
qed

text \<open>\<^verbatim>\<open>Number(String(x)) === x\<close> for every finite number.\<close>

lemma decimal_minus: "decimal (- r) = decimal r"
  by (cases "quotient_of r") (simp add: decimal_def rat_uminus_code)

lemma number_of_text:
  assumes "decimal r"
  shows "js_number (js_show r) = Fin r"
proof -
  have printed: "js_number (case decimal_digits a of (s, x) \<Rightarrow> show_decimal s x) = Fin a
      \<and> js_number (CHR ''-'' # (case decimal_digits a of (s, x) \<Rightarrow> show_decimal s x)) = Fin (- a)"
    if "0 < a" "decimal a" for a
  proof -
    obtain s x where sx: "decimal_digits a = (s, x)" by (cases "decimal_digits a")
    have v: "of_nat s * pow10 x = a" by (rule decimal_digits_value [OF that sx])
    have "\<bar>of_nat s * pow10 x\<bar> < 2 ^ 1024 - 2 ^ 970" using that(2) unfolding v decimal_def by blast
    from js_number_printed [OF this] show ?thesis unfolding sx v by simp
  qed
  consider "r = 0" | "0 < r" | "r < 0" by linarith
  then show ?thesis
  proof cases
    case 1
    have "js_number (show_decimal 0 0) = Fin (of_nat 0 * pow10 0)" by (rule js_number_printed) simp
    moreover have "show_decimal 0 0 = ''0''" by code_simp
    ultimately show ?thesis using 1 by (simp add: js_show_def)
  next
    case 2
    with printed [OF 2 assms] show ?thesis by (simp add: js_show_def)
  next
    case 3
    with assms have "decimal (- r)" "0 < - r" by (simp_all add: decimal_minus)
    from printed [OF this(2,1)] 3 show ?thesis by (simp add: js_show_def)
  qed
qed

text \<open>A printed number has no blanks, and whole hundredths of a moderate size are printed exactly.\<close>

lemma js_show_plain: "trim (js_show r) = js_show r" "js_show r \<noteq> []"
proof -
  have "list_all number_char (js_show r)"
    by (auto simp: js_show_def number_char_def [of "CHR ''0''"] number_char_def [of "CHR ''-''"] show_decimal_chars
      split: prod.split)
  then show "trim (js_show r) = js_show r"
    using number_char_plain by (intro trim_no_blank) (auto simp: list_all_iff)
  have "\<exists>c t. show_decimal s x = c # t" for s x using show_decimal_head by blast
  then show "js_show r \<noteq> []" by (auto simp: js_show_def split: prod.split) (metis list.distinct(1))
qed

lemma decimal_scaled:
  assumes "r * 10 ^ k = of_int z" "\<bar>r\<bar> < 2 ^ 1024 - 2 ^ 970"
  shows "decimal r"
proof -
  obtain p q where pq: "quotient_of r = (p, q)" by (cases "quotient_of r")
  have q: "0 < q" by (rule quotient_of_denom_pos [OF pq])
  have "(of_int p :: rat) * 10 ^ k = of_int z * of_int q"
    using assms(1) quotient_of_div [OF pq] q by (simp add: field_simps)
  then have "of_int (p * 10 ^ k) = (of_int (z * q) :: rat)" by simp
  then have "p * 10 ^ k = z * q" by (simp only: of_int_eq_iff)
  then have "q dvd p * 10 ^ k" by simp
  moreover have "coprime q p" using quotient_of_coprime [OF pq] by (simp add: coprime_commute)
  ultimately have "q dvd 10 ^ k" by (simp add: coprime_dvd_mult_right_iff)
  with assms(2) pq show ?thesis unfolding decimal_def by auto
qed

lemma pow_bound: "\<bar>r :: rat\<bar> \<le> 2 ^ 64 \<Longrightarrow> \<bar>r\<bar> < 2 ^ 1024 - 2 ^ 970"
proof -
  assume "\<bar>r\<bar> \<le> 2 ^ 64"
  also have "(2 :: rat) ^ 64 < 2 ^ 970" by (rule power_strict_increasing) simp_all
  also have "\<dots> \<le> 2 ^ 1024 - 2 ^ 970"
  proof -
    have "(2 :: rat) * 2 ^ 970 = 2 ^ 971" by (simp only: power_Suc [symmetric]) simp
    also have "\<dots> \<le> 2 ^ 1024" by (rule power_increasing) simp_all
    finally show ?thesis by linarith
  qed
  finally show ?thesis .
qed

lemma decimal_hundredths:
  assumes "\<bar>n\<bar> \<le> 2 ^ 64"
  shows "decimal (of_int n / 100)"
proof (rule decimal_scaled [where k = 2 and z = n])
  show "(of_int n / 100 :: rat) * 10 ^ 2 = of_int n" by simp
  have "\<bar>of_int n / 100 :: rat\<bar> \<le> of_int \<bar>n\<bar>" by simp
  also have "\<dots> \<le> of_int (2 ^ 64)" using assms by (simp only: of_int_le_iff)
  finally show "\<bar>of_int n / 100 :: rat\<bar> < 2 ^ 1024 - 2 ^ 970" by (intro pow_bound) simp
qed

end
