(* ===== verification/Storage_Cleanup.thy ===== *)
theory Storage_Cleanup
  imports Js_Numbers
begin

text \<open>
  \<^verbatim>\<open>gui/src/pages/storage-cleanup-policy.ts\<close>, \<^verbatim>\<open>gui/src/pages/storage-cleanup-run.ts\<close> and
  \<^verbatim>\<open>gui/src/pages/use-cleanup-policy.ts\<close>: the automatic cleanup of archived sessions. The first group is
  the policy, its text drafts and the body that is saved; the second the run that saves, starts and
  polls a cleanup; the third the hook that owns the form, as a step relation in which loads, saves
  and runs are answered in any order. Numbers of a response are finite and exact. The answers of
  the listener, the clock and the abort signal are parameters, and so is the translation \<open>t\<close>.
\<close>

section \<open>Policy and drafts\<close>

definition STORAGE_POLICY_GB :: rat where
  "STORAGE_POLICY_GB = 1073741824"

definition MANUAL_CLEANUP_PERCENT_MIN :: int where
  "MANUAL_CLEANUP_PERCENT_MIN = 1"

definition MANUAL_CLEANUP_PERCENT_MAX :: int where
  "MANUAL_CLEANUP_PERCENT_MAX = 100"

definition MANUAL_CLEANUP_PERCENT_PRESETS :: "int list" where
  "MANUAL_CLEANUP_PERCENT_PRESETS = [10, 25, 50]"

definition MANUAL_CLEANUP_CUSTOM_VALUE :: string where
  "MANUAL_CLEANUP_CUSTOM_VALUE = ''custom''"

definition math_round :: "rat \<Rightarrow> int" where
  "math_round r = \<lfloor>r + 1 / 2\<rfloor>"

record candidate =
  relPath :: string
  cand_bytes :: rat
  physicalRelPaths :: "string list option"

record cleanup_preview =
  pv_percent :: int
  pv_count :: nat
  pv_bytes :: rat
  pv_digest :: string
  pv_candidates :: "candidate list"
  pv_truncated :: "bool option"

record preview_hold =
  hold_preview :: cleanup_preview
  hold_generation :: nat

definition parseManualCleanupPercent :: "string \<Rightarrow> int option" where
  "parseManualCleanupPercent raw =
     (if trim raw = [] then None
      else case js_number (trim raw) of
             Fin r \<Rightarrow> (let rounded = math_round r in
                 if rounded < MANUAL_CLEANUP_PERCENT_MIN \<or> rounded > MANUAL_CLEANUP_PERCENT_MAX then None else Some rounded)
           | _ \<Rightarrow> None)"

fun clampManualCleanupPercent :: "jsnum \<Rightarrow> int" where
  "clampManualCleanupPercent (Fin r) =
     min MANUAL_CLEANUP_PERCENT_MAX (max MANUAL_CLEANUP_PERCENT_MIN (math_round r))"
| "clampManualCleanupPercent _ = MANUAL_CLEANUP_PERCENT_MIN"

definition isManualCleanupPreset :: "int \<Rightarrow> bool" where
  "isManualCleanupPreset percent \<longleftrightarrow> percent \<in> set MANUAL_CLEANUP_PERCENT_PRESETS"

definition manualCleanupSelectValue :: "int \<Rightarrow> bool \<Rightarrow> string" where
  "manualCleanupSelectValue percent customMode =
     (if customMode \<or> \<not> isManualCleanupPreset percent then MANUAL_CLEANUP_CUSTOM_VALUE else show_int percent)"

definition bindManualCleanupPreview :: "cleanup_preview \<Rightarrow> nat \<Rightarrow> preview_hold" where
  "bindManualCleanupPreview preview generation = \<lparr>hold_preview = preview, hold_generation = generation\<rparr>"

definition manualCleanupPreviewReady :: "preview_hold option \<Rightarrow> int \<Rightarrow> nat option \<Rightarrow> bool" where
  "manualCleanupPreviewReady hold percent storageGeneration =
     (case (hold, storageGeneration) of
        (Some h, Some g) \<Rightarrow>
          if hold_generation h \<noteq> g then False
          else if pv_percent (hold_preview h) \<noteq> percent then False
          else pv_digest (hold_preview h) \<noteq> []
      | _ \<Rightarrow> False)"

datatype cleanup_mode = Quarantine | Permanent
datatype cleanup_schedule = Startup | Daily | Weekly | Manual

record job_outcome =
  oc_ok :: bool
  oc_skipped :: "string option"
  oc_deferred :: "string option"
  oc_error :: "string option"
  oc_mode :: "string option"
  oc_freedBytes :: "rat option"
  oc_removed :: "rat option"

record cleanup_job =
  jb_running :: bool
  jb_reason :: "string option"
  jb_startedAt :: "rat option"
  jb_finishedAt :: "rat option"
  jb_lastError :: "string option"
  jb_lastOutcome :: "job_outcome option"

record cleanup_target =
  reduceToBytes :: "rat option"
  removeOldestPercent :: "rat option"

record cleanup_policy =
  cp_enabled :: bool
  archivedBytesOver :: rat
  cp_target :: cleanup_target
  cp_schedule :: cleanup_schedule
  cp_mode :: cleanup_mode
  lastRun :: "(rat \<times> rat \<times> rat) option"
  nextRun :: "rat option"
  cp_job :: "cleanup_job option"

datatype target_mode = Percent | Reduce

record policy_drafts =
  thresholdGb :: string
  targetMode :: target_mode
  dr_percent :: string
  reduceGb :: string

record cached_policy =
  ca_policy :: cleanup_policy
  ca_drafts :: policy_drafts

definition policyFieldsFromResponse :: "cleanup_policy \<Rightarrow> cleanup_policy" where
  "policyFieldsFromResponse json = json\<lparr>cp_job := None\<rparr>"

definition gbDraft :: "rat \<Rightarrow> string" where
  "gbDraft bytes = js_show (of_int (math_round (max 0 (bytes / STORAGE_POLICY_GB) * 100)) / 100)"

definition draftsFromPolicyResponse :: "cleanup_policy \<Rightarrow> cached_policy" where
  "draftsFromPolicyResponse json =
     \<lparr>ca_policy = policyFieldsFromResponse json,
      ca_drafts =
        (case reduceToBytes (cp_target json) of
           Some reduce \<Rightarrow> \<lparr>thresholdGb = gbDraft (archivedBytesOver json), targetMode = Reduce, dr_percent = ''25'', reduceGb = gbDraft reduce\<rparr>
         | None \<Rightarrow>
             (let removeOldest = (case removeOldestPercent (cp_target json) of None \<Rightarrow> 25 | Some r \<Rightarrow> r)
              in \<lparr>thresholdGb = gbDraft (archivedBytesOver json), targetMode = Percent,
                  dr_percent = js_show (of_int (min 100 (max 1 \<lfloor>removeOldest\<rfloor>))), reduceGb = ''4''\<rparr>))\<rparr>"

definition reduceTargetFrom :: "string \<Rightarrow> cleanup_target option" where
  "reduceTargetFrom raw =
     (if trim raw = [] then None
      else case js_number (trim raw) of
             Fin reduce \<Rightarrow> if reduce < 0 then None
               else Some \<lparr>reduceToBytes = Some (of_int \<lfloor>reduce * STORAGE_POLICY_GB\<rfloor>), removeOldestPercent = None\<rparr>
           | _ \<Rightarrow> None)"

definition percentTargetFrom :: "string \<Rightarrow> cleanup_target option" where
  "percentTargetFrom raw =
     (case js_number raw of
        Fin percent \<Rightarrow> if percent < 1 \<or> percent > 100 then None
          else Some \<lparr>reduceToBytes = None, removeOldestPercent = Some (of_int (min 100 (max 1 \<lfloor>percent\<rfloor>)))\<rparr>
      | _ \<Rightarrow> None)"

definition policyTargetFromDrafts :: "policy_drafts \<Rightarrow> cleanup_target option" where
  "policyTargetFromDrafts drafts =
     (case targetMode drafts of Reduce \<Rightarrow> reduceTargetFrom (reduceGb drafts) | Percent \<Rightarrow> percentTargetFrom (dr_percent drafts))"

definition cleanupPolicyBody :: "cleanup_policy option \<Rightarrow> policy_drafts \<Rightarrow> cleanup_policy option" where
  "cleanupPolicyBody policy drafts =
     (case policy of
        None \<Rightarrow> None
      | Some p \<Rightarrow>
          if trim (thresholdGb drafts) = [] then None
          else case js_number (trim (thresholdGb drafts)) of
                 Fin threshold \<Rightarrow>
                   if threshold < 0 then None
                   else map_option (\<lambda>target.
                     \<lparr>cp_enabled = cp_enabled p, archivedBytesOver = of_int \<lfloor>threshold * STORAGE_POLICY_GB\<rfloor>, cp_target = target,
                      cp_schedule = cp_schedule p, cp_mode = cp_mode p, lastRun = None, nextRun = None, cp_job = None\<rparr>)
                     (policyTargetFromDrafts drafts)
               | _ \<Rightarrow> None)"

section \<open>What a run reports\<close>

datatype outcome_view =
    StatusView string
  | ErrorView string
  | DoneView cleanup_mode rat rat

definition SKIPPED_COPY :: "string \<Rightarrow> string option" where
  "SKIPPED_COPY = map_of [(''disabled'', ''storage.policy.skippedDisabled''),
     (''under_threshold'', ''storage.policy.skippedUnder''), (''nothing_selected'', ''storage.policy.skippedEmpty'')]"

definition runOutcomeView :: "job_outcome \<Rightarrow> outcome_view" where
  "runOutcomeView outcome =
     (case Option.bind (oc_skipped outcome) SKIPPED_COPY of
        Some key \<Rightarrow> StatusView key
      | None \<Rightarrow>
          if oc_deferred outcome = Some ''codex_busy'' \<or> oc_error outcome = Some ''codex_busy''
          then ErrorView ''storage.cleanup.err.codex_busy''
          else if \<not> oc_ok outcome then ErrorView ''storage.policy.runFailed''
          else DoneView (if oc_mode outcome = Some ''permanent'' then Permanent else Quarantine)
                 (case oc_removed outcome of None \<Rightarrow> 0 | Some n \<Rightarrow> n) (case oc_freedBytes outcome of None \<Rightarrow> 0 | Some n \<Rightarrow> n))"

definition jobMatchesStart :: "cleanup_job option \<Rightarrow> rat \<Rightarrow> job_outcome option" where
  "jobMatchesStart job startedAt =
     (case job of
        None \<Rightarrow> None
      | Some j \<Rightarrow>
          if jb_running j then None
          else if jb_startedAt j = Some startedAt \<and> jb_lastOutcome j \<noteq> None then jb_lastOutcome j
          else (case jb_finishedAt j of
                  Some f \<Rightarrow> if f \<noteq> 0 \<and> startedAt \<le> f then jb_lastOutcome j else None
                | None \<Rightarrow> None))"

type_synonym copy = "string \<Rightarrow> (string \<times> string) list \<Rightarrow> string"

definition CLEANUP_ERROR_COPY :: "string \<Rightarrow> string option" where
  "CLEANUP_ERROR_COPY = map_of [(''codex_busy'', ''storage.cleanup.err.codex_busy''),
     (''stale_preview'', ''storage.cleanup.err.stale_preview''),
     (''restore_pending_overlap'', ''storage.cleanup.err.restore_pending_overlap''),
     (''referenced_history'', ''storage.cleanup.err.referenced_history''),
     (''invalid_digest'', ''storage.cleanup.err.invalid_digest''),
     (''invalid_mode'', ''storage.cleanup.err.invalid_mode''),
     (''db_reconcile_failed'', ''storage.cleanup.err.db_reconcile_failed''),
     (''cleanup_failed'', ''storage.cleanup.err.cleanup_failed'')]"

definition isTruncatedCleanupRefusal :: "string option \<Rightarrow> bool" where
  "isTruncatedCleanupRefusal message =
     (case message of None \<Rightarrow> False
      | Some m \<Rightarrow> str_includes m ''too large to preview safely'' \<or> str_includes m ''too large to clean safely'')"

definition mapCleanupError :: "copy \<Rightarrow> string option \<Rightarrow> string option \<Rightarrow> string option \<Rightarrow> string option \<Rightarrow> string" where
  "mapCleanupError t code fallback trashDir message =
     (if isTruncatedCleanupRefusal message \<or> isTruncatedCleanupRefusal fallback then t ''storage.cleanup.err.truncated'' []
      else if code = Some ''fs_failed''
      then (case trashDir of
              Some d \<Rightarrow> if d = [] then t ''storage.cleanup.err.fs_failed'' []
                        else t ''storage.cleanup.err.fs_failed_trash'' [(''trashDir'', d)]
            | None \<Rightarrow> t ''storage.cleanup.err.fs_failed'' [])
      else case Option.bind code CLEANUP_ERROR_COPY of
             Some key \<Rightarrow> t key []
           | None \<Rightarrow> (case fallback of Some f \<Rightarrow> f | None \<Rightarrow> t ''storage.cleanup.cleanupFailed'' []))"

definition RESTORE_ERROR_COPY :: "string \<Rightarrow> string option" where
  "RESTORE_ERROR_COPY = map_of (map (\<lambda>code. (code, ''storage.trash.err.'' @ code))
     [''codex_busy'', ''invalid_trash'', ''missing_trash'', ''dest_exists'', ''fs_failed'', ''db_reconcile_failed'',
      ''storage_mutation_busy'', ''restore_failed'', ''restore_worker_timeout'', ''restore_worker_aborted''])"

definition mapRestoreError :: "copy \<Rightarrow> string option \<Rightarrow> string option \<Rightarrow> string" where
  "mapRestoreError t code fallback =
     (if code = Some ''restore_worker_failed''
      then (case fallback of Some f \<Rightarrow> f | None \<Rightarrow> t ''storage.trash.err.restore_worker_failed'' [])
      else case Option.bind code RESTORE_ERROR_COPY of
             Some key \<Rightarrow> t key []
           | None \<Rightarrow> (case fallback of Some f \<Rightarrow> f | None \<Rightarrow> t ''storage.trash.restoreFailed'' []))"

definition EXACT_TRANSPORT_FAILURES :: "string list" where
  "EXACT_TRANSPORT_FAILURES = [''Failed to fetch'']"

definition CONTAINED_TRANSPORT_FAILURES :: "string list" where
  "CONTAINED_TRANSPORT_FAILURES = [''NetworkError'', ''network error'', ''JSON'', ''Unexpected end of'']"

text \<open>The argument is the message of an \<^verbatim>\<open>Error\<close>, or \<^term>\<open>None\<close> for any other thrown value.\<close>

definition localizedCatch :: "string option \<Rightarrow> string \<Rightarrow> string" where
  "localizedCatch error fallback =
     (case error of
        None \<Rightarrow> fallback
      | Some message \<Rightarrow>
          if message \<in> set EXACT_TRANSPORT_FAILURES \<or> list_ex (str_includes message) CONTAINED_TRANSPORT_FAILURES then fallback
          else if message = [] then fallback else message)"

definition shouldApplyLoadedPolicy :: "bool \<Rightarrow> nat \<Rightarrow> nat \<Rightarrow> bool \<Rightarrow> bool \<Rightarrow> bool" where
  "shouldApplyLoadedPolicy aborted generation currentGeneration dirty editing =
     (if aborted \<or> generation \<noteq> currentGeneration then False else \<not> dirty \<and> \<not> editing)"

record run_start_response =
  rs_started :: bool
  rs_error :: "string option"
  rs_job :: "cleanup_job option"
  rs_policy :: "cleanup_policy option"

datatype run_start =
    StartBusy "cleanup_policy option"
  | StartFailed "cleanup_policy option"
  | Started rat "cleanup_policy option"

definition interpretRunStartResponse :: "int \<Rightarrow> run_start_response \<Rightarrow> run_start" where
  "interpretRunStartResponse status json =
     (if status = 409 \<or> rs_error json = Some ''already_running'' then StartBusy (rs_policy json)
      else if status < 200 \<or> status \<ge> 300 then StartFailed (rs_policy json)
      else case Option.bind (rs_job json) jb_startedAt of
             None \<Rightarrow> StartFailed (rs_policy json)
           | Some startedAt \<Rightarrow> if \<not> rs_started json \<or> startedAt = 0 then StartFailed (rs_policy json)
                               else Started startedAt (rs_policy json))"

section \<open>The run\<close>

text \<open>
  What an awaited call gives: it rejects, it answers with a status that is not a success, or it
  answers with a body. One round of the poll is one \<open>poll_tick\<close>: the clock when the loop tests it,
  the abort signal at each of the four places that read it and after the loop was left, and the
  answer. A body that does not parse rejects.
\<close>

datatype 'a reply = Threw | NotOk | Body 'a

record poll_tick =
  tk_now :: rat
  tk_before :: bool
  tk_slept :: bool
  tk_fetched :: bool
  tk_parsed :: bool
  tk_left :: bool
  tk_reply :: "cleanup_policy reply"

record poll_result =
  po_aborted :: bool
  finalPolicy :: "cleanup_policy option"
  po_outcome :: "job_outcome option"
  po_heard :: "cleanup_policy list"

datatype request = PutPolicy cleanup_policy | PostRun | PollPolicy

text \<open>
  The loop may go on for ever when the clock stands still, so it is a partial function: \<^term>\<open>None\<close>
  means that it does not return. \<open>heard\<close> are the policies passed to \<^verbatim>\<open>onPolicy\<close> and \<open>n\<close> counts the polls; the
  outer sum is the rejection of an awaited call.
\<close>

partial_function (option) pollCleanupJob ::
    "rat \<Rightarrow> rat \<Rightarrow> (nat \<Rightarrow> poll_tick) \<Rightarrow> nat \<Rightarrow> cleanup_policy option \<Rightarrow> cleanup_policy list \<Rightarrow> (nat \<times> (cleanup_policy list + poll_result)) option" where
  "pollCleanupJob deadline startedAt env n final heard =
     (let tick = env n;
          stop = (\<lambda>aborted f oc h. \<lparr>po_aborted = aborted, finalPolicy = f, po_outcome = oc, po_heard = h\<rparr>)
      in if \<not> tk_now tick < deadline then Some (n, Inr (stop (tk_left tick) final None heard))
         else if tk_before tick \<or> tk_slept tick then Some (n, Inr (stop True final None heard))
         else case tk_reply tick of
                Threw \<Rightarrow> Some (Suc n, Inl heard)
              | NotOk \<Rightarrow>
                  if tk_fetched tick then Some (Suc n, Inr (stop True final None heard))
                  else pollCleanupJob deadline startedAt env (Suc n) final heard
              | Body body \<Rightarrow>
                  if tk_fetched tick \<or> tk_parsed tick then Some (Suc n, Inr (stop True final None heard))
                  else (case jobMatchesStart (cp_job body) startedAt of
                          None \<Rightarrow> pollCleanupJob deadline startedAt env (Suc n) (Some (policyFieldsFromResponse body)) (heard @ [body])
                        | Some oc \<Rightarrow> Some (Suc n, Inr (stop (tk_left tick) (Some (policyFieldsFromResponse body)) (Some oc) (heard @ [body])))))"

declare pollCleanupJob.simps [code]

fun putCleanupPolicy :: "cleanup_policy option reply \<Rightarrow> unit + (bool \<times> cleanup_policy option)" where
  "putCleanupPolicy Threw = Inl ()"
| "putCleanupPolicy NotOk = Inr (False, None)"
| "putCleanupPolicy (Body policy) = Inr (policy \<noteq> None, policy)"

datatype run_result =
    Aborted
  | SaveFailed
  | AlreadyRunning "cleanup_policy option"
  | RunFailed "cleanup_policy option"
  | Outcome "cleanup_policy option" job_outcome

record run_world =
  rw_put :: "cleanup_policy option reply"
  rw_putAborted :: bool
  rw_post :: "(int \<times> run_start_response) option"
  rw_postAborted :: bool
  rw_now :: rat
  rw_ticks :: "nat \<Rightarrow> poll_tick"

record run_report =
  rr_requests :: "request list"
  rr_heard :: "cleanup_policy list"
  rr_result :: "run_result option"

definition report :: "request list \<Rightarrow> cleanup_policy list \<Rightarrow> run_result option \<Rightarrow> run_report" where
  "report requests heard result = \<lparr>rr_requests = requests, rr_heard = heard, rr_result = result\<rparr>"

definition started_run :: "run_world \<Rightarrow> request list \<Rightarrow> cleanup_policy list \<Rightarrow> rat \<Rightarrow> run_report option" where
  "started_run w sent heard startedAt =
     map_option (\<lambda>(n, polled).
         let requests = sent @ replicate n PollPolicy in
         case polled of
           Inl seen \<Rightarrow> report requests seen None
         | Inr res \<Rightarrow>
             if po_aborted res then report requests (po_heard res) (Some Aborted)
             else let said = po_heard res @ (case finalPolicy res of None \<Rightarrow> [] | Some p \<Rightarrow> [p])
                  in report requests said
                       (Some (case po_outcome res of
                                None \<Rightarrow> RunFailed (finalPolicy res) | Some oc \<Rightarrow> Outcome (finalPolicy res) oc)))
       (pollCleanupJob (rw_now w + 120000) startedAt (rw_ticks w) 0 None heard)"

definition executeCleanupRun :: "cleanup_policy \<Rightarrow> run_world \<Rightarrow> run_report option" where
  "executeCleanupRun body w =
     (case putCleanupPolicy (rw_put w) of
        Inl _ \<Rightarrow> Some (report [PutPolicy body] [] None)
      | Inr (ok, policy) \<Rightarrow>
          if rw_putAborted w then Some (report [PutPolicy body] [] (Some Aborted))
          else case policy of
                 None \<Rightarrow> Some (report [PutPolicy body] [] (Some SaveFailed))
               | Some saved \<Rightarrow>
                   (let sent = [PutPolicy body, PostRun] in
                    case rw_post w of
                      Some (status, json) \<Rightarrow>
                        if rw_postAborted w then Some (report sent [saved] (Some Aborted))
                        else (case interpretRunStartResponse status json of
                                StartBusy p \<Rightarrow> Some (report sent (saved # (case p of None \<Rightarrow> [] | Some q \<Rightarrow> [q])) (Some (AlreadyRunning p)))
                              | StartFailed p \<Rightarrow> Some (report sent (saved # (case p of None \<Rightarrow> [] | Some q \<Rightarrow> [q])) (Some (RunFailed p)))
                              | Started startedAt p \<Rightarrow>
                                  started_run w sent (saved # (case p of None \<Rightarrow> [] | Some q \<Rightarrow> [q])) startedAt)
                    | None \<Rightarrow> Some (report sent [saved] None)))"

section \<open>The hook\<close>

definition openingDrafts :: "cached_policy option \<Rightarrow> policy_drafts" where
  "openingDrafts cached =
     (case cached of
        None \<Rightarrow> \<lparr>thresholdGb = ''5'', targetMode = Percent, dr_percent = ''25'', reduceGb = ''4''\<rparr>
      | Some c \<Rightarrow> ca_drafts c)"

record policy_state =
  ps_policy :: "cleanup_policy option"
  ps_drafts :: policy_drafts
  ps_loading :: bool
  ps_saving :: bool
  ps_running :: bool
  ps_status :: "string option"
  ps_error :: "string option"

datatype policy_event =
    LoadStarted
  | LoadSettled
  | Loaded cached_policy
  | LoadFailed string
  | Drafted "policy_drafts \<Rightarrow> policy_drafts"
  | SaveStarted
  | SaveRefused string
  | Saved cached_policy string
  | RunStarted
  | RunSettled "string option" "string option"
  | FeedbackCleared

fun reducePolicy :: "policy_state \<Rightarrow> policy_event \<Rightarrow> policy_state" where
  "reducePolicy state LoadStarted = state\<lparr>ps_loading := True, ps_error := None\<rparr>"
| "reducePolicy state LoadSettled = state\<lparr>ps_loading := False\<rparr>"
| "reducePolicy state (Loaded cached) =
     state\<lparr>ps_policy := Some (ca_policy cached), ps_drafts := openingDrafts (Some cached), ps_loading := False, ps_error := None\<rparr>"
| "reducePolicy state (LoadFailed text) = state\<lparr>ps_policy := None, ps_loading := False, ps_error := Some text\<rparr>"
| "reducePolicy state (Drafted patch) = state\<lparr>ps_drafts := patch (ps_drafts state)\<rparr>"
| "reducePolicy state SaveStarted = state\<lparr>ps_saving := True, ps_status := None, ps_error := None\<rparr>"
| "reducePolicy state (SaveRefused text) = state\<lparr>ps_saving := False, ps_error := Some text\<rparr>"
| "reducePolicy state (Saved cached text) =
     state\<lparr>ps_policy := Some (ca_policy cached), ps_drafts := openingDrafts (Some cached), ps_saving := False,
       ps_status := Some text, ps_error := None\<rparr>"
| "reducePolicy state RunStarted = state\<lparr>ps_running := True, ps_status := None, ps_error := None\<rparr>"
| "reducePolicy state (RunSettled status error) = state\<lparr>ps_running := False, ps_error := error, ps_status := status\<rparr>"
| "reducePolicy state FeedbackCleared = state\<lparr>ps_status := None, ps_error := None\<rparr>"

text \<open>
  The hook holds the reducer's state, its refs and what it last handed to the session cache, and
  remembers which awaited calls have not been answered: the generations of the loads, and whether a
  save or a run is out. \<open>hk_sent\<close> are the policies it has asked the listener to store. The callback that
  tells the page about a finished run is left out.
\<close>

record policy_hook =
  hk_state :: policy_state
  hk_cache :: "cached_policy option"
  hk_hasCache :: bool
  hk_dirty :: bool
  hk_editing :: bool
  hk_generation :: nat
  hk_loads :: "nat list"
  hk_save :: bool
  hk_run :: bool
  hk_sent :: "cleanup_policy list"

definition mount_policy :: "cached_policy option \<Rightarrow> policy_hook" where
  "mount_policy cached =
     \<lparr>hk_state = \<lparr>ps_policy = map_option ca_policy cached, ps_drafts = openingDrafts cached, ps_loading = (cached = None),
        ps_saving = False, ps_running = False, ps_status = None, ps_error = None\<rparr>,
      hk_cache = cached, hk_hasCache = (cached \<noteq> None), hk_dirty = False, hk_editing = False, hk_generation = 0,
      hk_loads = [], hk_save = False, hk_run = False, hk_sent = []\<rparr>"

definition policy_dispatch :: "policy_event \<Rightarrow> policy_hook \<Rightarrow> policy_hook" where
  "policy_dispatch event h = h\<lparr>hk_state := reducePolicy (hk_state h) event\<rparr>"

definition accept_policy :: "cleanup_policy \<Rightarrow> policy_hook \<Rightarrow> policy_hook" where
  "accept_policy json h =
     h\<lparr>hk_hasCache := True, hk_cache := Some (draftsFromPolicyResponse json), hk_dirty := False\<rparr>"

definition loadPolicy_begins :: "policy_hook \<Rightarrow> policy_hook" where
  "loadPolicy_begins h =
     (let g = hk_generation h + 1;
          h1 = h\<lparr>hk_generation := g, hk_loads := g # hk_loads h\<rparr>
      in if hk_hasCache h then h1 else policy_dispatch LoadStarted h1)"

text \<open>The answer is \<^term>\<open>None\<close> when reading the policy failed.\<close>

definition loadPolicy_settles :: "copy \<Rightarrow> nat \<Rightarrow> bool \<Rightarrow> cleanup_policy option \<Rightarrow> policy_hook \<Rightarrow> policy_hook" where
  "loadPolicy_settles t generation aborted loaded h0 =
     (let h = h0\<lparr>hk_loads := removeAll generation (hk_loads h0)\<rparr>
      in if aborted \<or> generation \<noteq> hk_generation h then h
         else policy_dispatch LoadSettled
           (case loaded of
              Some json \<Rightarrow>
                if shouldApplyLoadedPolicy False generation (hk_generation h) (hk_dirty h) (hk_editing h)
                then policy_dispatch (Loaded (draftsFromPolicyResponse json)) (accept_policy json h) else h
            | None \<Rightarrow> if hk_hasCache h then h else policy_dispatch (LoadFailed (t ''storage.policy.loadFailed'' [])) h))"

definition load_cleanup :: "policy_hook \<Rightarrow> policy_hook" where
  "load_cleanup h = h\<lparr>hk_generation := hk_generation h + 1\<rparr>"

definition markDirty :: "policy_hook \<Rightarrow> policy_hook" where
  "markDirty h = h\<lparr>hk_dirty := True\<rparr>"

definition setPolicyEditing :: "bool \<Rightarrow> policy_hook \<Rightarrow> policy_hook" where
  "setPolicyEditing editing h = h\<lparr>hk_editing := editing\<rparr>"

definition editDrafts :: "(policy_drafts \<Rightarrow> policy_drafts) \<Rightarrow> policy_hook \<Rightarrow> policy_hook" where
  "editDrafts patch h = policy_dispatch (Drafted patch) h"

definition savePolicy_begins :: "copy \<Rightarrow> (cleanup_policy \<Rightarrow> cleanup_policy) \<Rightarrow> policy_hook \<Rightarrow> policy_hook" where
  "savePolicy_begins t patch h =
     (case cleanupPolicyBody (ps_policy (hk_state h)) (ps_drafts (hk_state h)) of
        None \<Rightarrow> policy_dispatch (SaveRefused (t ''storage.policy.invalid'' [])) h
      | Some base \<Rightarrow> (policy_dispatch SaveStarted h)\<lparr>hk_save := True, hk_sent := hk_sent h @ [patch base]\<rparr>)"

definition savePolicy_settles :: "copy \<Rightarrow> cleanup_policy option reply \<Rightarrow> policy_hook \<Rightarrow> policy_hook" where
  "savePolicy_settles t answer h0 =
     (let h = h0\<lparr>hk_save := False\<rparr> in
      case answer of
        Body (Some saved) \<Rightarrow>
          policy_dispatch (Saved (draftsFromPolicyResponse saved) (t ''storage.policy.saved'' [])) (accept_policy saved h)
      | _ \<Rightarrow> policy_dispatch (SaveRefused (t ''storage.policy.saveFailed'' [])) h)"

definition runNow_begins :: "copy \<Rightarrow> policy_hook \<Rightarrow> policy_hook" where
  "runNow_begins t h =
     (case cleanupPolicyBody (ps_policy (hk_state h)) (ps_drafts (hk_state h)) of
        None \<Rightarrow> policy_dispatch (SaveRefused (t ''storage.policy.invalid'' [])) h
      | Some base \<Rightarrow> (policy_dispatch RunStarted h)\<lparr>hk_run := True, hk_sent := hk_sent h @ [base]\<rparr>)"

definition RUN_FAILURE_COPY :: "run_result \<Rightarrow> string" where
  "RUN_FAILURE_COPY r =
     (case r of SaveFailed \<Rightarrow> ''storage.policy.saveFailed'' | AlreadyRunning _ \<Rightarrow> ''storage.policy.alreadyRunning''
      | _ \<Rightarrow> ''storage.policy.runFailed'')"

text \<open>The line of a finished run; \<open>formatBytes\<close> prints a number of bytes.\<close>

definition reportRun :: "copy \<Rightarrow> (rat \<Rightarrow> string) \<Rightarrow> outcome_view \<Rightarrow> policy_hook \<Rightarrow> policy_hook" where
  "reportRun t formatBytes view h =
     (case view of
        StatusView key \<Rightarrow> policy_dispatch (RunSettled None (Some (t key []))) h
      | ErrorView key \<Rightarrow> policy_dispatch (RunSettled None (Some (t key []))) h
      | DoneView mode removed freed \<Rightarrow>
          policy_dispatch (RunSettled
            (Some (case mode of
                     Permanent \<Rightarrow> t ''storage.policy.donePermanent'' [(''count'', js_show removed), (''size'', formatBytes freed)]
                   | Quarantine \<Rightarrow> t ''storage.policy.doneQuarantineCount'' [(''count'', js_show removed)])) None) h)"

text \<open>How the run ended: \<^term>\<open>None\<close> when an awaited call rejected.\<close>

definition runNow_settles :: "copy \<Rightarrow> (rat \<Rightarrow> string) \<Rightarrow> run_result option \<Rightarrow> policy_hook \<Rightarrow> policy_hook" where
  "runNow_settles t formatBytes result h0 =
     (let h = h0\<lparr>hk_run := False\<rparr> in
      case result of
        None \<Rightarrow> policy_dispatch (RunSettled None (Some (t ''storage.policy.runFailed'' []))) h
      | Some Aborted \<Rightarrow> h
      | Some (Outcome _ oc) \<Rightarrow> reportRun t formatBytes (runOutcomeView oc) h
      | Some r \<Rightarrow> policy_dispatch (RunSettled None (Some (t (RUN_FAILURE_COPY r) []))) h)"

definition clearFeedback :: "policy_hook \<Rightarrow> policy_hook" where
  "clearFeedback h = policy_dispatch FeedbackCleared h"

text \<open>
  The events of a mounted form. Its fields and buttons are disabled while a save or a run is out,
  and the form is only rendered over a policy. A run is aborted only when the form goes away, so an
  aborted run is no event here.
\<close>

definition unlocked :: "policy_hook \<Rightarrow> bool" where
  "unlocked h \<longleftrightarrow> \<not> ps_saving (hk_state h) \<and> \<not> ps_running (hk_state h) \<and> ps_policy (hk_state h) \<noteq> None"

inductive policy_step :: "copy \<Rightarrow> (rat \<Rightarrow> string) \<Rightarrow> policy_hook \<Rightarrow> policy_hook \<Rightarrow> bool" for t formatBytes where
  step_load: "policy_step t formatBytes h (loadPolicy_begins h)"
| step_loaded: "g \<in> set (hk_loads h) \<Longrightarrow> policy_step t formatBytes h (loadPolicy_settles t g aborted loaded h)"
| step_reload: "policy_step t formatBytes h (load_cleanup h)"
| step_edit: "unlocked h \<Longrightarrow> policy_step t formatBytes h (editDrafts patch (markDirty h))"
| step_focus: "policy_step t formatBytes h (setPolicyEditing editing h)"
| step_save: "unlocked h \<Longrightarrow> policy_step t formatBytes h (savePolicy_begins t patch h)"
| step_saved: "hk_save h \<Longrightarrow> policy_step t formatBytes h (savePolicy_settles t answer h)"
| step_run: "unlocked h \<Longrightarrow> policy_step t formatBytes h (runNow_begins t h)"
| step_heard: "hk_run h \<Longrightarrow> policy_step t formatBytes h (accept_policy json h)"
| step_ran: "hk_run h \<Longrightarrow> result \<noteq> Some Aborted \<Longrightarrow> policy_step t formatBytes h (runNow_settles t formatBytes result h)"
| step_clear: "policy_step t formatBytes h (clearFeedback h)"

section \<open>Drafts and bytes\<close>

lemma math_round_near: "\<bar>of_int (math_round r) - r\<bar> \<le> 1 / 2"
  unfolding math_round_def using of_int_floor_le [of "r + 1 / 2"] floor_correct [of "r + 1 / 2"] by linarith

lemma math_round_int [simp]: "math_round (of_int n) = n"
  unfolding math_round_def by (rule floor_unique) simp_all

text \<open>The draft of a number of bytes reads as a number of hundredths of a GiB near it.\<close>

lemma gbDraft_reads:
  assumes "0 \<le> b" "b \<le> 2 ^ 53"
  obtains n where "js_number (trim (gbDraft (of_int b))) = Fin (of_int n / 100)" "trim (gbDraft (of_int b)) \<noteq> []"
    "0 \<le> n" "\<bar>of_int n / 100 * STORAGE_POLICY_GB - of_int b\<bar> \<le> 53687092 / 10"
    "\<And>m. b = 268435456 * m \<Longrightarrow> n = 25 * m" "b \<le> 5368709 \<Longrightarrow> n = 0"
proof -
  define r :: rat where "r = of_int b / STORAGE_POLICY_GB * 100"
  define n where "n = math_round r"
  have r0: "0 \<le> r" using assms(1) by (simp add: r_def STORAGE_POLICY_GB_def)
  have bq: "(of_int b :: rat) \<le> of_int (2 ^ 53)" using assms(2) by (simp only: of_int_le_iff)
  then have r1: "r \<le> 2 ^ 63" by (simp add: r_def STORAGE_POLICY_GB_def)
  note near = math_round_near [of r, folded n_def]
  have n0: "0 \<le> n" unfolding n_def math_round_def using r0 by simp
  have "(of_int n :: rat) \<le> r + 1 / 2" using near unfolding abs_le_iff by linarith
  also have "\<dots> \<le> 2 ^ 63 + 1 / 2" using r1 by (rule add_right_mono)
  also have "\<dots> \<le> of_int (2 ^ 64)" by simp
  finally have "(of_int n :: rat) \<le> of_int (2 ^ 64)" .
  then have "n \<le> 2 ^ 64" by (simp only: of_int_le_iff)
  with n0 have dec: "decimal (of_int n / 100)" by (intro decimal_hundredths) simp
  have draft: "gbDraft (of_int b) = js_show (of_int n / 100)"
    using assms(1) by (simp add: gbDraft_def n_def r_def STORAGE_POLICY_GB_def)
  have "\<bar>of_int n / 100 * STORAGE_POLICY_GB - of_int b\<bar> \<le> 53687092 / 10"
    using near unfolding abs_le_iff r_def STORAGE_POLICY_GB_def by linarith
  moreover have "n = 25 * m" if "b = 268435456 * m" for m
  proof -
    have "r = of_int (25 * m)" using that by (simp add: r_def STORAGE_POLICY_GB_def)
    then show ?thesis unfolding n_def by (simp only: math_round_int)
  qed
  moreover have "n = 0" if "b \<le> 5368709"
  proof -
    have "(of_int b :: rat) \<le> of_int 5368709" using that by (simp only: of_int_le_iff)
    then have "r < 1 / 2" by (simp add: r_def STORAGE_POLICY_GB_def)
    with r0 show ?thesis unfolding n_def math_round_def by (intro floor_unique) simp_all
  qed
  ultimately show ?thesis using that [of n] n0 number_of_text [OF dec] by (simp add: draft js_show_plain)
qed

text \<open>
  What saving an untouched draft may send for a number \<open>b\<close> of bytes: a non-negative number within half
  a hundredth of a GiB and one byte of \<open>b\<close>, \<open>b\<close> itself when it is a whole number of quarters of a GiB, and
  zero when \<open>b\<close> is below half a hundredth of a GiB.
\<close>

definition resaved_bytes :: "int \<Rightarrow> rat \<Rightarrow> bool" where
  "resaved_bytes b x \<longleftrightarrow> 0 \<le> x \<and> \<bar>x - of_int b\<bar> < 53687102 / 10 \<and> (268435456 dvd b \<longrightarrow> x = of_int b) \<and> (b \<le> 5368709 \<longrightarrow> x = 0)"

lemma resaved_floor:
  assumes n: "\<bar>of_int n / 100 * STORAGE_POLICY_GB - of_int b\<bar> \<le> 53687092 / 10" "0 \<le> n"
    and m: "\<And>m. b = 268435456 * m \<Longrightarrow> n = 25 * m" and z: "b \<le> 5368709 \<Longrightarrow> n = 0"
  shows "resaved_bytes b (of_int \<lfloor>of_int n / 100 * STORAGE_POLICY_GB\<rfloor>)"
proof -
  let ?y = "of_int n / 100 * STORAGE_POLICY_GB"
  have "0 \<le> \<lfloor>?y\<rfloor>" using n(2) by (simp add: STORAGE_POLICY_GB_def)
  moreover have "\<bar>of_int \<lfloor>?y\<rfloor> - of_int b\<bar> < (53687102 / 10 :: rat)"
    using floor_correct [of ?y] n(1) by linarith
  moreover have "of_int \<lfloor>?y\<rfloor> = (of_int b :: rat)" if "268435456 dvd b"
  proof -
    from that obtain k where k: "b = 268435456 * k" by (rule dvdE)
    have "?y = of_int b" using m [OF k] k by (simp add: STORAGE_POLICY_GB_def)
    then show ?thesis by simp
  qed
  ultimately show ?thesis using z by (auto simp: resaved_bytes_def)
qed

lemma reduceTarget_resaved:
  assumes "0 \<le> c" "c \<le> 2 ^ 53"
  shows "\<exists>x. reduceTargetFrom (gbDraft (of_int c)) = Some \<lparr>reduceToBytes = Some x, removeOldestPercent = None\<rparr> \<and> resaved_bytes c x"
proof -
  obtain n where n: "js_number (trim (gbDraft (of_int c))) = Fin (of_int n / 100)" "trim (gbDraft (of_int c)) \<noteq> []"
    "0 \<le> n" "\<bar>of_int n / 100 * STORAGE_POLICY_GB - of_int c\<bar> \<le> 53687092 / 10"
    "\<And>m. c = 268435456 * m \<Longrightarrow> n = 25 * m" "c \<le> 5368709 \<Longrightarrow> n = 0" using gbDraft_reads [OF assms] by blast
  have "reduceTargetFrom (gbDraft (of_int c)) =
      Some \<lparr>reduceToBytes = Some (of_int \<lfloor>of_int n / 100 * STORAGE_POLICY_GB\<rfloor>), removeOldestPercent = None\<rparr>"
    using n(1-3) by (simp add: reduceTargetFrom_def)
  with resaved_floor [OF n(4,3,5,6)] show ?thesis by blast
qed

lemma percentTarget_resaved:
  assumes "1 \<le> k" "k \<le> 100"
  shows "percentTargetFrom (js_show (of_int k)) = Some \<lparr>reduceToBytes = None, removeOldestPercent = Some (of_int k)\<rparr>"
proof -
  have "decimal (of_int (100 * k) / 100)" using assms by (intro decimal_hundredths) simp
  then have "js_number (js_show (of_int k)) = Fin (of_int k)" using number_of_text by simp
  with assms show ?thesis by (simp add: percentTargetFrom_def)
qed

lemma policyBody_resaved:
  assumes "0 \<le> b" "b \<le> 2 ^ 53" "thresholdGb d = gbDraft (of_int b)" "policyTargetFromDrafts d = Some tg"
  shows "\<exists>x. cleanupPolicyBody (Some p) d = Some \<lparr>cp_enabled = cp_enabled p, archivedBytesOver = x, cp_target = tg,
      cp_schedule = cp_schedule p, cp_mode = cp_mode p, lastRun = None, nextRun = None, cp_job = None\<rparr> \<and> resaved_bytes b x"
proof -
  obtain n where n: "js_number (trim (gbDraft (of_int b))) = Fin (of_int n / 100)" "trim (gbDraft (of_int b)) \<noteq> []"
    "0 \<le> n" "\<bar>of_int n / 100 * STORAGE_POLICY_GB - of_int b\<bar> \<le> 53687092 / 10"
    "\<And>m. b = 268435456 * m \<Longrightarrow> n = 25 * m" "b \<le> 5368709 \<Longrightarrow> n = 0" using gbDraft_reads [OF assms(1,2)] by blast
  have "cleanupPolicyBody (Some p) d = Some \<lparr>cp_enabled = cp_enabled p,
      archivedBytesOver = of_int \<lfloor>of_int n / 100 * STORAGE_POLICY_GB\<rfloor>, cp_target = tg,
      cp_schedule = cp_schedule p, cp_mode = cp_mode p, lastRun = None, nextRun = None, cp_job = None\<rparr>"
    using n(1-3) assms(3,4) by (simp add: cleanupPolicyBody_def)
  with resaved_floor [OF n(4,3,5,6)] show ?thesis by blast
qed

section \<open>The poll\<close>

definition poll_good :: "rat \<Rightarrow> (nat \<Rightarrow> poll_tick) \<Rightarrow> nat \<Rightarrow> (cleanup_policy list + poll_result) \<Rightarrow> bool" where
  "poll_good startedAt env m res \<longleftrightarrow>
     (\<forall>r oc. res = Inr r \<and> po_outcome r = Some oc \<longrightarrow>
        (\<exists>i < m. \<exists>body. tk_reply (env i) = Body body \<and> jobMatchesStart (cp_job body) startedAt = Some oc
           \<and> finalPolicy r = Some (policyFieldsFromResponse body)))"

definition poll_heard :: "cleanup_policy list + poll_result \<Rightarrow> cleanup_policy list" where
  "poll_heard res = (case res of Inl seen \<Rightarrow> seen | Inr r \<Rightarrow> po_heard r)"

lemma poll_returns:
  assumes clock: "\<And>n. tk_now (env n) + 250 \<le> tk_now (env (Suc n))"
  shows "deadline \<le> tk_now (env n) + 250 * of_nat k \<Longrightarrow>
    \<exists>m res. pollCleanupJob deadline startedAt env n final heard = Some (m, res) \<and> m \<le> n + k \<and> poll_good startedAt env m res
      \<and> set heard \<subseteq> set (poll_heard res)"
proof (induction k arbitrary: n final heard)
  case 0
  then show ?case by (subst pollCleanupJob.simps) (simp add: Let_def poll_good_def poll_heard_def)
next
  case (Suc k)
  have "deadline \<le> tk_now (env (Suc n)) + 250 * of_nat k" using Suc.prems clock [of n] by (simp add: algebra_simps)
  note again = Suc.IH [OF this]
  show ?case
  proof (cases "tk_now (env n) < deadline \<and> \<not> tk_before (env n) \<and> \<not> tk_slept (env n)")
    case False
    then show ?thesis by (subst pollCleanupJob.simps) (auto simp: Let_def poll_good_def poll_heard_def)
  next
    case True
    show ?thesis
    proof (cases "tk_reply (env n)")
      case (Body body)
      show ?thesis
      proof (cases "jobMatchesStart (cp_job body) startedAt")
        case None
        with True Body again [of "Some (policyFieldsFromResponse body)" "heard @ [body]"] show ?thesis
          by (subst pollCleanupJob.simps) (auto simp: Let_def poll_good_def poll_heard_def)
      next
        case (Some oc)
        with True Body show ?thesis by (subst pollCleanupJob.simps) (auto simp: Let_def poll_good_def poll_heard_def)
      qed
    qed (use True again [of final heard] in \<open>subst pollCleanupJob.simps, auto simp: Let_def poll_good_def poll_heard_def\<close>)+
  qed
qed

lemma started_run_good:
  assumes "rw_now w \<le> tk_now (rw_ticks w 0)" "\<And>n. tk_now (rw_ticks w n) + 250 \<le> tk_now (rw_ticks w (Suc n))"
    and sent: "PollPolicy \<notin> set sent"
  shows "\<exists>rep. started_run w sent heard startedAt = Some rep
    \<and> count_list (rr_requests rep) PollPolicy \<le> 480 \<and> set heard \<subseteq> set (rr_heard rep)
    \<and> (\<forall>f oc. rr_result rep = Some (Outcome f oc) \<longrightarrow>
         (\<exists>i < 480. \<exists>b. tk_reply (rw_ticks w i) = Body b \<and> jobMatchesStart (cp_job b) startedAt = Some oc))"
proof -
  have "rw_now w + 120000 \<le> tk_now (rw_ticks w 0) + 250 * of_nat 480" using assms(1) by simp
  from poll_returns [OF assms(2) this] obtain m res where
    run: "pollCleanupJob (rw_now w + 120000) startedAt (rw_ticks w) 0 None heard = Some (m, res)"
    and m: "m \<le> 480" and good: "poll_good startedAt (rw_ticks w) m res" and said: "set heard \<subseteq> set (poll_heard res)" by force
  have reqs: "count_list (sent @ replicate m PollPolicy) PollPolicy \<le> 480"
  proof -
    have "count_list (replicate j PollPolicy) PollPolicy = j" for j by (induction j) simp_all
    moreover have "count_list sent PollPolicy = 0" using sent by (simp only: count_list_0_iff not_False_eq_True)
    ultimately show ?thesis using m by simp
  qed
  show ?thesis
  proof (cases res)
    case (Inl seen)
    with run reqs said show ?thesis by (simp add: started_run_def report_def poll_heard_def)
  next
    case (Inr r)
    have "\<exists>i < 480. \<exists>b. tk_reply (rw_ticks w i) = Body b \<and> jobMatchesStart (cp_job b) startedAt = Some oc"
      if "po_outcome r = Some oc" for oc
    proof -
      from good Inr that obtain i b where "i < m" "tk_reply (rw_ticks w i) = Body b"
        "jobMatchesStart (cp_job b) startedAt = Some oc" unfolding poll_good_def by blast
      with m show ?thesis by (meson less_le_trans)
    qed
    with Inr run reqs said show ?thesis
      by (auto simp: started_run_def report_def poll_heard_def Let_def split: option.splits)
  qed
qed

lemma executeCleanupRun_good:
  assumes "rw_now w \<le> tk_now (rw_ticks w 0)" "\<And>n. tk_now (rw_ticks w n) + 250 \<le> tk_now (rw_ticks w (Suc n))"
  shows "\<exists>rep. executeCleanupRun body w = Some rep
    \<and> count_list (rr_requests rep) PollPolicy \<le> 480
    \<and> (PostRun \<in> set (rr_requests rep) \<longrightarrow> (\<exists>saved. rw_put w = Body (Some saved) \<and> saved \<in> set (rr_heard rep)) \<and> \<not> rw_putAborted w)
    \<and> (\<forall>f oc. rr_result rep = Some (Outcome f oc) \<longrightarrow>
         (\<exists>status json startedAt p. rw_post w = Some (status, json)
            \<and> interpretRunStartResponse status json = Started startedAt p
            \<and> (\<exists>i < 480. \<exists>b. tk_reply (rw_ticks w i) = Body b \<and> jobMatchesStart (cp_job b) startedAt = Some oc)))"
proof (cases "\<exists>saved status json. rw_put w = Body (Some saved) \<and> \<not> rw_putAborted w \<and> rw_post w = Some (status, json) \<and> \<not> rw_postAborted w")
  case False
  then show ?thesis
    by (cases "rw_put w") (auto simp: executeCleanupRun_def report_def Let_def split: option.splits)
next
  case True
  then obtain saved status json where w: "rw_put w = Body (Some saved)" "\<not> rw_putAborted w"
    "rw_post w = Some (status, json)" "\<not> rw_postAborted w" by blast
  show ?thesis
  proof (cases "interpretRunStartResponse status json")
    case (Started startedAt p)
    let ?heard = "saved # (case p of None \<Rightarrow> [] | Some q \<Rightarrow> [q])"
    have "executeCleanupRun body w = started_run w [PutPolicy body, PostRun] ?heard startedAt"
      using w Started by (simp add: executeCleanupRun_def Let_def)
    with started_run_good [OF assms, of "[PutPolicy body, PostRun]" ?heard startedAt] w Started show ?thesis
      by fastforce
  qed (use w in \<open>simp_all add: executeCleanupRun_def report_def Let_def\<close>)
qed

section \<open>The form\<close>

definition policy_ok :: "policy_hook \<Rightarrow> bool" where
  "policy_ok h \<longleftrightarrow>
     ps_saving (hk_state h) = hk_save h \<and> ps_running (hk_state h) = hk_run h \<and> \<not> (hk_save h \<and> hk_run h)
     \<and> list_all (\<lambda>g. g \<le> hk_generation h) (hk_loads h) \<and> distinct (hk_loads h)
     \<and> (ps_policy (hk_state h) \<noteq> None \<longrightarrow> hk_hasCache h) \<and> (hk_hasCache h \<longleftrightarrow> hk_cache h \<noteq> None)
     \<and> (hk_dirty h \<longrightarrow> ps_policy (hk_state h) \<noteq> None)"

lemmas policy_hook_defs = policy_dispatch_def accept_policy_def loadPolicy_begins_def loadPolicy_settles_def
  load_cleanup_def markDirty_def setPolicyEditing_def editDrafts_def savePolicy_begins_def savePolicy_settles_def
  runNow_begins_def runNow_settles_def reportRun_def clearFeedback_def

lemma policy_ok_loads:
  assumes "policy_ok h"
  shows "policy_ok (loadPolicy_begins h)" "policy_ok (loadPolicy_settles t g aborted loaded h)" "policy_ok (load_cleanup h)"
proof -
  have "g \<in> set (hk_loads h) \<Longrightarrow> g \<le> hk_generation h" for g using assms by (simp add: policy_ok_def list_all_iff)
  then have new: "hk_generation h + 1 \<notin> set (hk_loads h)" by fastforce
  show "policy_ok (loadPolicy_begins h)"
    using assms new by (auto simp: policy_hook_defs policy_ok_def Let_def list_all_iff)
  show "policy_ok (load_cleanup h)"
    using assms by (auto simp: policy_hook_defs policy_ok_def list_all_iff)
  have ok0: "policy_ok (h\<lparr>hk_loads := removeAll g (hk_loads h)\<rparr>)" (is "policy_ok ?h")
    using assms by (auto simp: policy_ok_def list_all_iff distinct_removeAll)
  have settled: "policy_ok k \<Longrightarrow> policy_ok (policy_dispatch LoadSettled k)" for k
    by (auto simp: policy_dispatch_def policy_ok_def)
  have shown: "policy_ok (policy_dispatch (Loaded (draftsFromPolicyResponse json)) (accept_policy json ?h))" for json
    using ok0 by (auto simp: policy_dispatch_def accept_policy_def policy_ok_def)
  have failed: "\<not> hk_hasCache ?h \<Longrightarrow> policy_ok (policy_dispatch (LoadFailed x) ?h)" for x
    using ok0 by (auto simp: policy_dispatch_def policy_ok_def)
  show "policy_ok (loadPolicy_settles t g aborted loaded h)"
    unfolding loadPolicy_settles_def Let_def
    by (cases loaded) (auto simp only: option.case ok0 simp_thms split: if_split intro!: settled shown failed)
qed

lemma policy_ok_edits:
  assumes "policy_ok h"
  shows "unlocked h \<Longrightarrow> policy_ok (editDrafts patch (markDirty h))" "policy_ok (setPolicyEditing editing h)" "policy_ok (clearFeedback h)"
  using assms by (auto simp: policy_hook_defs policy_ok_def unlocked_def)

lemma policy_ok_save:
  assumes "policy_ok h"
  shows "unlocked h \<Longrightarrow> policy_ok (savePolicy_begins t patch h)" "hk_save h \<Longrightarrow> policy_ok (savePolicy_settles t answer h)"
  using assms by (auto simp: policy_hook_defs policy_ok_def unlocked_def Let_def split: option.splits reply.splits)

lemma policy_ok_run:
  assumes "policy_ok h"
  shows "unlocked h \<Longrightarrow> policy_ok (runNow_begins t h)" "hk_run h \<Longrightarrow> policy_ok (accept_policy json h)"
    "hk_run h \<Longrightarrow> result \<noteq> Some Aborted \<Longrightarrow> policy_ok (runNow_settles t formatBytes result h)"
proof -
  show "unlocked h \<Longrightarrow> policy_ok (runNow_begins t h)"
    using assms by (auto simp: policy_hook_defs policy_ok_def unlocked_def split: option.splits)
  show "hk_run h \<Longrightarrow> policy_ok (accept_policy json h)"
    using assms by (auto simp: policy_hook_defs policy_ok_def)
  assume run: "hk_run h"
  have settled: "policy_ok (policy_dispatch (RunSettled a b) (h\<lparr>hk_run := False\<rparr>))" for a b
    using assms run by (auto simp: policy_dispatch_def policy_ok_def)
  have told: "policy_ok (reportRun t formatBytes view (h\<lparr>hk_run := False\<rparr>))" for view
    by (cases view) (simp_all only: reportRun_def outcome_view.case settled)
  assume "result \<noteq> Some Aborted"
  then show "policy_ok (runNow_settles t formatBytes result h)"
    by (auto simp only: runNow_settles_def Let_def settled told split: option.split run_result.split)
qed

lemma policy_ok_step: "policy_ok h \<Longrightarrow> policy_step t formatBytes h h' \<Longrightarrow> policy_ok h'"
  by (erule policy_step.cases) (simp_all add: policy_ok_loads policy_ok_edits policy_ok_save policy_ok_run)

interpretation policy_form: machine "\<lambda>h. \<exists>cached. h = mount_policy cached" "policy_step t formatBytes" policy_ok
proof
  show "policy_ok s" if "\<exists>cached. s = mount_policy cached" for s
    using that by (auto simp: mount_policy_def policy_ok_def)
qed (rule policy_ok_step)

abbreviation reachable_form :: "copy \<Rightarrow> (rat \<Rightarrow> string) \<Rightarrow> policy_hook \<Rightarrow> bool" where
  "reachable_form t formatBytes \<equiv> reach (\<lambda>h. \<exists>cached. h = mount_policy cached) (policy_step t formatBytes)"

lemma policy_kept:
  assumes "policy_ok h" "policy_step t formatBytes h h'" "ps_policy (hk_state h) \<noteq> None"
  shows "ps_policy (hk_state h') \<noteq> None"
  using assms(2)
proof cases
  case (step_loaded g aborted loaded)
  then show ?thesis using assms(1,3) by (cases loaded) (auto simp: policy_hook_defs policy_ok_def Let_def)
qed (use assms(3) in \<open>auto simp: policy_hook_defs Let_def split: option.splits reply.splits run_result.splits outcome_view.splits\<close>)

section \<open>Properties\<close>

text \<open>A cleanup policy that is loaded into the form and saved untouched keeps everything but the
  precision of its sizes. The switch, the schedule, the mode and a percentage are sent back as they
  were; a size moves by at most half a hundredth of a GiB and one byte, is exact for whole quarters
  of a GiB, and becomes zero when it was below half a hundredth of a GiB.\<close>

theorem cleanup_untouched_save:
  assumes "archivedBytesOver p = of_int b" "0 \<le> b" "b \<le> 2 ^ 53"
    and "(\<exists>c. cp_target p = \<lparr>reduceToBytes = Some (of_int c), removeOldestPercent = None\<rparr> \<and> 0 \<le> c \<and> c \<le> 2 ^ 53)
       \<or> (\<exists>k. cp_target p = \<lparr>reduceToBytes = None, removeOldestPercent = Some (of_int k)\<rparr> \<and> 1 \<le> k \<and> k \<le> 100)"
  shows "\<exists>body. cleanupPolicyBody (Some (ca_policy (draftsFromPolicyResponse p))) (ca_drafts (draftsFromPolicyResponse p)) = Some body
    \<and> cp_enabled body = cp_enabled p \<and> cp_schedule body = cp_schedule p \<and> cp_mode body = cp_mode p
    \<and> resaved_bytes b (archivedBytesOver body)
    \<and> (case reduceToBytes (cp_target p) of
         None \<Rightarrow> cp_target body = cp_target p
       | Some c \<Rightarrow> removeOldestPercent (cp_target body) = None
           \<and> (\<exists>x. reduceToBytes (cp_target body) = Some x \<and> resaved_bytes \<lfloor>c\<rfloor> x))"
proof -
  let ?d = "draftsFromPolicyResponse p"
  have th: "thresholdGb (ca_drafts ?d) = gbDraft (of_int b)"
    using assms(1) by (simp add: draftsFromPolicyResponse_def Let_def split: option.split)
  have tg: "\<exists>tg. policyTargetFromDrafts (ca_drafts ?d) = Some tg
    \<and> (case reduceToBytes (cp_target p) of
         None \<Rightarrow> tg = cp_target p
       | Some c \<Rightarrow> removeOldestPercent tg = None \<and> (\<exists>x. reduceToBytes tg = Some x \<and> resaved_bytes \<lfloor>c\<rfloor> x))"
    using assms(4)
  proof (elim disjE exE conjE)
    fix c
    assume "cp_target p = \<lparr>reduceToBytes = Some (of_int c), removeOldestPercent = None\<rparr>" "0 \<le> c" "c \<le> 2 ^ 53"
    with reduceTarget_resaved [of c] show ?thesis
      by (auto simp: draftsFromPolicyResponse_def policyTargetFromDrafts_def)
  next
    fix k
    assume "cp_target p = \<lparr>reduceToBytes = None, removeOldestPercent = Some (of_int k)\<rparr>" "1 \<le> k" "k \<le> 100"
    with percentTarget_resaved [of k] show ?thesis
      by (simp add: draftsFromPolicyResponse_def policyTargetFromDrafts_def Let_def)
  qed
  from tg obtain tg where tg: "policyTargetFromDrafts (ca_drafts ?d) = Some tg" "case reduceToBytes (cp_target p) of
         None \<Rightarrow> tg = cp_target p
       | Some c \<Rightarrow> removeOldestPercent tg = None \<and> (\<exists>x. reduceToBytes tg = Some x \<and> resaved_bytes \<lfloor>c\<rfloor> x)" by blast
  have "cp_enabled (ca_policy ?d) = cp_enabled p" "cp_schedule (ca_policy ?d) = cp_schedule p" "cp_mode (ca_policy ?d) = cp_mode p"
    by (simp_all add: draftsFromPolicyResponse_def policyFieldsFromResponse_def)
  with policyBody_resaved [OF assms(2,3) th tg(1), of "ca_policy ?d"] tg(2) show ?thesis
    by (cases "reduceToBytes (cp_target p)") auto
qed

definition sample_policy :: "int \<Rightarrow> int \<Rightarrow> cleanup_policy" where
  "sample_policy b c =
     \<lparr>cp_enabled = True, archivedBytesOver = of_int b, cp_target = \<lparr>reduceToBytes = Some (of_int c), removeOldestPercent = None\<rparr>,
      cp_schedule = Daily, cp_mode = Quarantine, lastRun = None, nextRun = None, cp_job = None\<rparr>"

theorem cleanup_untouched_save_witness:
  "\<exists>body. cleanupPolicyBody (Some (ca_policy (draftsFromPolicyResponse (sample_policy 5368709120 5000000))))
      (ca_drafts (draftsFromPolicyResponse (sample_policy 5368709120 5000000))) = Some body
    \<and> archivedBytesOver body = 5368709120 \<and> reduceToBytes (cp_target body) = Some 0"
proof -
  have dv: "(268435456 :: int) dvd 5368709120" by presburger
  have "\<exists>body. cleanupPolicyBody (Some (ca_policy (draftsFromPolicyResponse (sample_policy 5368709120 5000000))))
      (ca_drafts (draftsFromPolicyResponse (sample_policy 5368709120 5000000))) = Some body
    \<and> resaved_bytes 5368709120 (archivedBytesOver body)
    \<and> (\<exists>x. reduceToBytes (cp_target body) = Some x \<and> resaved_bytes 5000000 x)"
    using cleanup_untouched_save [of "sample_policy 5368709120 5000000" 5368709120]
    by (auto simp: sample_policy_def)
  with dv show ?thesis by (auto simp: resaved_bytes_def)
qed

text \<open>A run of the cleanup ends. With a clock that moves on by at least the 250 milliseconds slept in
  every round, the run returns after at most 480 polls, whatever the listener answers; the run is
  posted only after the policy was saved and the answer was passed on; and an outcome is reported
  only when a poll showed that job settled after the start the listener confirmed.\<close>

theorem cleanup_run_ends:
  assumes "rw_now w \<le> tk_now (rw_ticks w 0)" "\<And>n. tk_now (rw_ticks w n) + 250 \<le> tk_now (rw_ticks w (Suc n))"
  shows "\<exists>rep. executeCleanupRun body w = Some rep
    \<and> count_list (rr_requests rep) PollPolicy \<le> 480
    \<and> (PostRun \<in> set (rr_requests rep) \<longrightarrow> (\<exists>saved. rw_put w = Body (Some saved) \<and> saved \<in> set (rr_heard rep)) \<and> \<not> rw_putAborted w)
    \<and> (\<forall>f oc. rr_result rep = Some (Outcome f oc) \<longrightarrow>
         (\<exists>status json startedAt p. rw_post w = Some (status, json)
            \<and> interpretRunStartResponse status json = Started startedAt p
            \<and> (\<exists>i < 480. \<exists>b. tk_reply (rw_ticks w i) = Body b \<and> jobMatchesStart (cp_job b) startedAt = Some oc)))"
  using assms by (rule executeCleanupRun_good)

definition busy_tick :: "nat \<Rightarrow> poll_tick" where
  "busy_tick n = \<lparr>tk_now = 1000 + 250 * of_nat n, tk_before = False, tk_slept = False, tk_fetched = False, tk_parsed = False,
     tk_left = False, tk_reply = NotOk\<rparr>"

definition busy_world :: run_world where
  "busy_world = \<lparr>rw_put = Body (Some (sample_policy 0 0)), rw_putAborted = False,
     rw_post = Some (202, \<lparr>rs_started = True, rs_error = None, rs_job = Some \<lparr>jb_running = True, jb_reason = None, jb_startedAt = Some 900,
       jb_finishedAt = None, jb_lastError = None, jb_lastOutcome = None\<rparr>, rs_policy = None\<rparr>),
     rw_postAborted = False, rw_now = 950, rw_ticks = busy_tick\<rparr>"

theorem cleanup_run_ends_witness:
  "\<exists>rep. executeCleanupRun (sample_policy 0 0) busy_world = Some rep \<and> count_list (rr_requests rep) PollPolicy \<le> 480"
proof -
  have "rw_now busy_world \<le> tk_now (rw_ticks busy_world 0)"
    and "\<And>n. tk_now (rw_ticks busy_world n) + 250 \<le> tk_now (rw_ticks busy_world (Suc n))"
    by (simp_all add: busy_world_def busy_tick_def)
  from cleanup_run_ends [OF this, of "sample_policy 0 0"] show ?thesis by blast
qed

text \<open>The form never loses what the reader is doing. In every reachable state the busy flags say exactly
  which call is out, at most one of save and run is, and no step takes a shown policy away. A load
  that was superseded, that is aborted, or that lands while a draft is dirty or a field has focus
  changes neither the drafts nor the policy, and neither does one that failed; otherwise the form
  shows exactly the answer.\<close>

theorem policy_form_safe:
  assumes "reachable_form t formatBytes h"
  shows "ps_saving (hk_state h) = hk_save h \<and> ps_running (hk_state h) = hk_run h \<and> \<not> (hk_save h \<and> hk_run h)
    \<and> (\<forall>h'. policy_step t formatBytes h h' \<and> ps_policy (hk_state h) \<noteq> None \<longrightarrow> ps_policy (hk_state h') \<noteq> None)
    \<and> (\<forall>g aborted loaded. let s = hk_state h; s' = hk_state (loadPolicy_settles t g aborted loaded h) in
         if aborted \<or> g \<noteq> hk_generation h \<or> hk_dirty h \<or> hk_editing h \<or> loaded = None
         then ps_drafts s' = ps_drafts s \<and> ps_policy s' = ps_policy s
         else Some \<lparr>ca_policy = the (ps_policy s'), ca_drafts = ps_drafts s'\<rparr> = map_option draftsFromPolicyResponse loaded)"
proof -
  have ok: "policy_ok h" by (rule policy_form.reachable_inv [OF assms])
  have "let s = hk_state h; s' = hk_state (loadPolicy_settles t g aborted loaded h) in
         if aborted \<or> g \<noteq> hk_generation h \<or> hk_dirty h \<or> hk_editing h \<or> loaded = None
         then ps_drafts s' = ps_drafts s \<and> ps_policy s' = ps_policy s
         else Some \<lparr>ca_policy = the (ps_policy s'), ca_drafts = ps_drafts s'\<rparr> = map_option draftsFromPolicyResponse loaded"
    for g aborted loaded
    using ok by (cases loaded)
      (auto simp: policy_hook_defs Let_def shouldApplyLoadedPolicy_def openingDrafts_def policy_ok_def)
  with ok policy_kept [OF ok] show ?thesis by (auto simp: policy_ok_def Let_def)
qed

definition edited_form :: policy_hook where
  "edited_form = editDrafts (\<lambda>d. d\<lparr>thresholdGb := ''7''\<rparr>)
     (markDirty (loadPolicy_begins (mount_policy (Some (draftsFromPolicyResponse (sample_policy 0 0))))))"

theorem policy_form_safe_witness:
  "ps_drafts (hk_state (loadPolicy_settles (\<lambda>k _. k) 1 False (Some (sample_policy 1073741824 0)) edited_form)) = ps_drafts (hk_state edited_form)
   \<and> thresholdGb (ps_drafts (hk_state edited_form)) = ''7''"
proof -
  let ?t = "\<lambda>k _. k" and ?h = "loadPolicy_begins (mount_policy (Some (draftsFromPolicyResponse (sample_policy 0 0))))"
  have "reachable_form ?t (\<lambda>_. []) ?h" by (rule reach_step, rule reach_init, blast, rule step_load)
  moreover have "unlocked ?h" by (simp add: unlocked_def loadPolicy_begins_def mount_policy_def Let_def)
  ultimately have r: "reachable_form ?t (\<lambda>_. []) edited_form"
    unfolding edited_form_def by (metis reach_step step_edit)
  have d: "hk_dirty edited_form" by (simp add: edited_form_def policy_hook_defs)
  have s: "thresholdGb (ps_drafts (hk_state edited_form)) = ''7''" by (simp add: edited_form_def policy_hook_defs)
  from policy_form_safe [OF r] d s show ?thesis by (auto simp: Let_def)
qed

text \<open>A load that was begun before a save and answered after it still replaces what was saved.\<close>

lemma stale_load_undoes_save:
  fixes p q :: cleanup_policy
  defines "h1 \<equiv> loadPolicy_begins (mount_policy (Some (draftsFromPolicyResponse p)))"
  assumes "cleanupPolicyBody (ps_policy (hk_state h1)) (ps_drafts (hk_state h1)) \<noteq> None"
  shows "ps_drafts (hk_state (savePolicy_settles t (Body (Some q)) (savePolicy_begins t patch h1))) = ca_drafts (draftsFromPolicyResponse q)
    \<and> ps_drafts (hk_state (loadPolicy_settles t 1 False (Some p) (savePolicy_settles t (Body (Some q)) (savePolicy_begins t patch h1))))
        = ca_drafts (draftsFromPolicyResponse p)"
  using assms(2) unfolding h1_def
  by (auto simp: policy_hook_defs mount_policy_def Let_def shouldApplyLoadedPolicy_def openingDrafts_def)

end
