(* ===== verification/Routing_Profile.thy ===== *)
theory Routing_Profile
  imports Js_Numbers
begin

text \<open>
  \<^verbatim>\<open>gui/src/routing-profile/profile-model.ts\<close>, \<^verbatim>\<open>profile-codec.ts\<close> and \<^verbatim>\<open>profile-response.ts\<close>,
  \<^verbatim>\<open>gui/src/pages/routing-profile-decode.ts\<close> and \<^verbatim>\<open>gui/src/pages/routing-profiles-load.ts\<close>: routing profiles. A
  profile crosses between its wire form and the draft of text fields an editor works on; the
  candidates the editor offers are merged from two sources. Numbers of a profile are finite decimals,
  fields whose values are a closed list of words are datatypes with a function to their words, and the counter of the
  candidate keys is threaded through the definitions that draw keys. \<^verbatim>\<open>localeCompare\<close> is the parameter
  \<open>collate\<close>.
\<close>

section \<open>The profile model\<close>

datatype evidence_mode = Allow | Penalize | Exclude
datatype cost_cap_mode = CapAllow | CapExclude
datatype suite_layer = ProtocolConformance | LiveRouteCompatibility
datatype min_status = Probed | Verified

fun mode_word :: "evidence_mode \<Rightarrow> string" where
  "mode_word Allow = ''allow''"
| "mode_word Penalize = ''penalize''"
| "mode_word Exclude = ''exclude''"

fun cap_word :: "cost_cap_mode \<Rightarrow> string" where
  "cap_word CapAllow = ''allow''"
| "cap_word CapExclude = ''exclude''"

fun layer_word :: "suite_layer \<Rightarrow> string" where
  "layer_word ProtocolConformance = ''protocol_conformance''"
| "layer_word LiveRouteCompatibility = ''live_route_compatibility''"

fun status_word :: "min_status \<Rightarrow> string" where
  "status_word Probed = ''PROBED''"
| "status_word Verified = ''VERIFIED''"

definition UNKNOWN_EVIDENCE_MODES :: "evidence_mode list" where
  "UNKNOWN_EVIDENCE_MODES = [Allow, Penalize, Exclude]"

definition PROFILE_SUITE_LAYERS :: "suite_layer list" where
  "PROFILE_SUITE_LAYERS = [ProtocolConformance, LiveRouteCompatibility]"

definition COMPATIBILITY_MIN_STATUSES :: "min_status list" where
  "COMPATIBILITY_MIN_STATUSES = [Probed, Verified]"

datatype requirement_kind = NumberKind | FlagKind | TextKind

definition PROFILE_REQUIREMENT_FIELDS :: "(string \<times> requirement_kind) list" where
  "PROFILE_REQUIREMENT_FIELDS = [(''minContextWindow'', NumberKind), (''minQuotaHeadroom'', NumberKind), (''tools'', FlagKind),
     (''imageInput'', FlagKind), (''structuredOutput'', FlagKind), (''reasoningEffort'', TextKind), (''serviceTier'', TextKind),
     (''localOnly'', FlagKind), (''remoteAllowed'', FlagKind), (''encryptedCodexTasks'', FlagKind)]"

record suite_draft =
  suiteId :: string
  evidenceLayer :: suite_layer

type_synonym profile_candidate = "string \<times> string"

record draft_candidate =
  dc_provider :: string
  dc_model :: string
  dc_key :: string

record model_option =
  mo_provider :: string
  mo_id :: string

record requirement =
  rq_minContextWindow :: "rat option"
  rq_minQuotaHeadroom :: "rat option"
  rq_tools :: "bool option"
  rq_imageInput :: "bool option"
  rq_structuredOutput :: "bool option"
  rq_reasoningEffort :: "string option"
  rq_serviceTier :: "string option"
  rq_localOnly :: "bool option"
  rq_remoteAllowed :: "bool option"
  rq_encryptedCodexTasks :: "bool option"

record 'n weights =
  wt_latency :: 'n
  wt_health :: 'n
  wt_cost :: 'n
  wt_quota :: 'n

record profile_limits =
  lm_maxEstimatedCostUsd :: "rat option"
  lm_onUnknownCost :: "cost_cap_mode option"

record unknown_evidence =
  ue_capability :: evidence_mode
  ue_health :: evidence_mode
  ue_quota :: evidence_mode
  ue_cost :: evidence_mode

record compatibility =
  cm_requiredSuites :: "suite_draft list"
  cm_minStatus :: "min_status option"
  cm_maxEvidenceAgeMs :: "rat option"
  cm_unknownEvidence :: "evidence_mode option"
  cm_degradedEvidence :: "evidence_mode option"

record profile_dto =
  pd_id :: string
  pd_alias :: "string option"
  pd_icon :: "string option"
  pd_model :: string
  pd_revision :: string
  pd_candidates :: "profile_candidate list"
  pd_require :: requirement
  pd_optimize :: "rat weights"
  pd_limits :: profile_limits
  pd_unknownEvidence :: unknown_evidence
  pd_compatibility :: "compatibility option"

text \<open>The cells of a draft requirement, by field; every field of the table has a cell.\<close>

type_synonym draft_requirement = "string \<Rightarrow> string"

record draft_limits =
  dl_maxEstimatedCostUsd :: string
  dl_onUnknownCost :: cost_cap_mode

record draft_compatibility =
  dk_enabled :: bool
  dk_requiredSuites :: "suite_draft list"
  dk_minStatus :: "min_status option"
  dk_maxEvidenceAgeMs :: string
  dk_unknownEvidence :: evidence_mode
  dk_degradedEvidence :: evidence_mode

record profile_draft =
  df_id :: string
  df_alias :: string
  df_icon :: string
  df_candidates :: "draft_candidate list"
  df_require :: draft_requirement
  df_optimize :: "string weights"
  df_limits :: draft_limits
  df_unknownEvidence :: unknown_evidence
  df_compatibility :: draft_compatibility

definition ROUTING_PROFILE_DEFAULT_ICON :: string where
  "ROUTING_PROFILE_DEFAULT_ICON = ''file-document''"

definition newDraftOptimize :: "string weights" where
  "newDraftOptimize = \<lparr>wt_latency = ''0.55'', wt_health = ''0.25'', wt_cost = ''0.1'', wt_quota = ''0.1''\<rparr>"

definition newDraftUnknownEvidence :: unknown_evidence where
  "newDraftUnknownEvidence = \<lparr>ue_capability = Exclude, ue_health = Penalize, ue_quota = Penalize, ue_cost = Penalize\<rparr>"

definition newDraftRequirement :: draft_requirement where
  "newDraftRequirement = (\<lambda>field. [])"

definition nextCandidateKey :: "nat \<Rightarrow> string \<times> nat" where
  "nextCandidateKey candidateSequence = (''candidate-'' @ show_nat (candidateSequence + 1), candidateSequence + 1)"

definition newDraftCandidate :: "string \<Rightarrow> string \<Rightarrow> nat \<Rightarrow> draft_candidate \<times> nat" where
  "newDraftCandidate provider model candidateSequence =
     (let (key, n) = nextCandidateKey candidateSequence in (\<lparr>dc_provider = provider, dc_model = model, dc_key = key\<rparr>, n))"

fun newDraftCandidates :: "profile_candidate list \<Rightarrow> nat \<Rightarrow> draft_candidate list \<times> nat" where
  "newDraftCandidates [] n = ([], n)"
| "newDraftCandidates (c # cs) n =
     (let (d, n1) = newDraftCandidate (fst c) (snd c) n; (ds, n2) = newDraftCandidates cs n1 in (d # ds, n2))"

definition newRoutingProfileDraft :: "string \<Rightarrow> string \<Rightarrow> nat \<Rightarrow> profile_draft \<times> nat" where
  "newRoutingProfileDraft provider model n =
     (let (c, n1) = newDraftCandidate provider model n in
      (\<lparr>df_id = [], df_alias = [], df_icon = ROUTING_PROFILE_DEFAULT_ICON, df_candidates = [c], df_require = newDraftRequirement,
        df_optimize = newDraftOptimize, df_limits = \<lparr>dl_maxEstimatedCostUsd = [], dl_onUnknownCost = CapAllow\<rparr>,
        df_unknownEvidence = newDraftUnknownEvidence,
        df_compatibility = \<lparr>dk_enabled = False, dk_requiredSuites = [], dk_minStatus = None, dk_maxEvidenceAgeMs = [],
          dk_unknownEvidence = Exclude, dk_degradedEvidence = Penalize\<rparr>\<rparr>, n1))"

section \<open>The codec\<close>

definition is_record :: "json \<Rightarrow> bool" where
  "is_record v = (case v of JObj _ \<Rightarrow> True | _ \<Rightarrow> False)"

definition read_word :: "('a \<Rightarrow> string) \<Rightarrow> 'a list \<Rightarrow> json option \<Rightarrow> 'a option" where
  "read_word word vs v = (case v of Some (JStr s) \<Rightarrow> find (\<lambda>a. word a = s) vs | _ \<Rightarrow> None)"

definition isSuiteLayer :: "json option \<Rightarrow> suite_layer option" where
  "isSuiteLayer v = read_word layer_word PROFILE_SUITE_LAYERS v"

definition isEvidenceMode :: "json option \<Rightarrow> evidence_mode option" where
  "isEvidenceMode v = read_word mode_word UNKNOWN_EVIDENCE_MODES v"

definition isMinStatus :: "json option \<Rightarrow> min_status option" where
  "isMinStatus v = read_word status_word COMPATIBILITY_MIN_STATUSES v"

definition readSuiteRow :: "json \<Rightarrow> suite_draft option" where
  "readSuiteRow row =
     (if \<not> is_record row then None
      else let suite = (case prop_of row ''suiteId'' of Some (JStr s) \<Rightarrow> trim s | _ \<Rightarrow> [])
           in if suite = [] then None
              else map_option (\<lambda>layer. \<lparr>suiteId = suite, evidenceLayer = layer\<rparr>) (isSuiteLayer (prop_of row ''evidenceLayer'')))"

definition normalizeCompatibilitySuites :: "json option \<Rightarrow> suite_draft list" where
  "normalizeCompatibilitySuites raw = (case raw of Some (JArr rows) \<Rightarrow> List.map_filter readSuiteRow rows | _ \<Rightarrow> [])"

definition normalizeCompatibilityDto :: "json option \<Rightarrow> compatibility option" where
  "normalizeCompatibilityDto raw =
     (case raw of
        Some (JObj ps) \<Rightarrow>
          (let v = JObj ps in
           Some \<lparr>cm_requiredSuites = normalizeCompatibilitySuites (prop_of v ''requiredSuites''),
             cm_minStatus = isMinStatus (prop_of v ''minStatus''),
             cm_maxEvidenceAgeMs = (case prop_of v ''maxEvidenceAgeMs'' of
                Some (JNum (Fin r)) \<Rightarrow> if 0 \<le> r then Some r else None | _ \<Rightarrow> None),
             cm_unknownEvidence = isEvidenceMode (prop_of v ''unknownEvidence''),
             cm_degradedEvidence = isEvidenceMode (prop_of v ''degradedEvidence'')\<rparr>)
      | _ \<Rightarrow> None)"

text \<open>A typed compatibility policy as the object it is.\<close>

definition wire_prop :: "string \<Rightarrow> json option \<Rightarrow> (string \<times> json) list" where
  "wire_prop k v = (case v of None \<Rightarrow> [] | Some j \<Rightarrow> [(k, j)])"

definition suite_json :: "suite_draft \<Rightarrow> json" where
  "suite_json s = JObj [(''suiteId'', JStr (suiteId s)), (''evidenceLayer'', JStr (layer_word (evidenceLayer s)))]"

definition compatibility_json :: "compatibility \<Rightarrow> json" where
  "compatibility_json c = JObj ([(''requiredSuites'', JArr (map suite_json (cm_requiredSuites c)))]
     @ wire_prop ''minStatus'' (map_option (\<lambda>m. JStr (status_word m)) (cm_minStatus c))
     @ wire_prop ''maxEvidenceAgeMs'' (map_option (\<lambda>r. JNum (Fin r)) (cm_maxEvidenceAgeMs c))
     @ wire_prop ''unknownEvidence'' (map_option (\<lambda>m. JStr (mode_word m)) (cm_unknownEvidence c))
     @ wire_prop ''degradedEvidence'' (map_option (\<lambda>m. JStr (mode_word m)) (cm_degradedEvidence c)))"

definition draftText :: "rat option \<Rightarrow> string" where
  "draftText v = (case v of None \<Rightarrow> [] | Some r \<Rightarrow> js_show r)"

definition draftTriState :: "bool option \<Rightarrow> string" where
  "draftTriState v = (case v of Some True \<Rightarrow> ''true'' | Some False \<Rightarrow> ''false'' | None \<Rightarrow> [])"

definition omitBlank :: "string \<Rightarrow> string option" where
  "omitBlank v = (if trim v = [] then None else Some (trim v))"

definition wireNumber :: "string \<Rightarrow> jsnum option" where
  "wireNumber v = (if trim v = [] then None else Some (js_number (trim v)))"

definition wireTriState :: "string \<Rightarrow> bool option" where
  "wireTriState v = (if v = ''true'' then Some True else if v = ''false'' then Some False else None)"

definition text_or :: "string option \<Rightarrow> string" where
  "text_or v = (case v of None \<Rightarrow> [] | Some s \<Rightarrow> s)"

definition draftRequirement :: "requirement \<Rightarrow> draft_requirement" where
  "draftRequirement r =
     (\<lambda>field. if field = ''minContextWindow'' then draftText (rq_minContextWindow r)
       else if field = ''minQuotaHeadroom'' then draftText (rq_minQuotaHeadroom r)
       else if field = ''tools'' then draftTriState (rq_tools r)
       else if field = ''imageInput'' then draftTriState (rq_imageInput r)
       else if field = ''structuredOutput'' then draftTriState (rq_structuredOutput r)
       else if field = ''reasoningEffort'' then text_or (rq_reasoningEffort r)
       else if field = ''serviceTier'' then text_or (rq_serviceTier r)
       else if field = ''localOnly'' then draftTriState (rq_localOnly r)
       else if field = ''remoteAllowed'' then draftTriState (rq_remoteAllowed r)
       else if field = ''encryptedCodexTasks'' then draftTriState (rq_encryptedCodexTasks r)
       else [])"

definition draftWeights :: "rat weights \<Rightarrow> string weights" where
  "draftWeights w = \<lparr>wt_latency = js_show (wt_latency w), wt_health = js_show (wt_health w), wt_cost = js_show (wt_cost w), wt_quota = js_show (wt_quota w)\<rparr>"

definition draftLimits :: "profile_limits \<Rightarrow> draft_limits" where
  "draftLimits l = \<lparr>dl_maxEstimatedCostUsd = draftText (lm_maxEstimatedCostUsd l),
     dl_onUnknownCost = (if lm_onUnknownCost l = Some CapExclude then CapExclude else CapAllow)\<rparr>"

definition draftCompatibility :: "compatibility option \<Rightarrow> draft_compatibility" where
  "draftCompatibility c =
     \<lparr>dk_enabled = (c \<noteq> None),
      dk_requiredSuites = (case c of None \<Rightarrow> [] | Some k \<Rightarrow> cm_requiredSuites k),
      dk_minStatus = Option.bind c cm_minStatus,
      dk_maxEvidenceAgeMs = draftText (Option.bind c cm_maxEvidenceAgeMs),
      dk_unknownEvidence = (case Option.bind c cm_unknownEvidence of None \<Rightarrow> Exclude | Some m \<Rightarrow> m),
      dk_degradedEvidence = (case Option.bind c cm_degradedEvidence of None \<Rightarrow> Penalize | Some m \<Rightarrow> m)\<rparr>"

definition icon_or_default :: "string option \<Rightarrow> string" where
  "icon_or_default icon =
     (case icon of None \<Rightarrow> ROUTING_PROFILE_DEFAULT_ICON
      | Some s \<Rightarrow> if trim s = [] then ROUTING_PROFILE_DEFAULT_ICON else trim s)"

definition routingProfileDraftFromDto :: "profile_dto \<Rightarrow> nat \<Rightarrow> profile_draft \<times> nat" where
  "routingProfileDraftFromDto p n =
     (let (cs, n1) = newDraftCandidates (pd_candidates p) n in
      (\<lparr>df_id = pd_id p, df_alias = text_or (pd_alias p), df_icon = icon_or_default (pd_icon p), df_candidates = cs,
        df_require = draftRequirement (pd_require p), df_optimize = draftWeights (pd_optimize p),
        df_limits = draftLimits (pd_limits p), df_unknownEvidence = pd_unknownEvidence p,
        df_compatibility = draftCompatibility (normalizeCompatibilityDto (map_option compatibility_json (pd_compatibility p)))\<rparr>, n1))"

definition isOptionalBoolean :: "string \<Rightarrow> bool" where
  "isOptionalBoolean v \<longleftrightarrow> v = [] \<or> v = ''true'' \<or> v = ''false''"

fun REQUIREMENT_READERS :: "requirement_kind \<Rightarrow> string \<Rightarrow> json option" where
  "REQUIREMENT_READERS NumberKind cell = map_option JNum (wireNumber cell)"
| "REQUIREMENT_READERS FlagKind cell = (if isOptionalBoolean cell then map_option JBool (wireTriState cell) else None)"
| "REQUIREMENT_READERS TextKind cell = map_option JStr (omitBlank cell)"

definition wireRequirement :: "draft_requirement \<Rightarrow> (string \<times> json) list" where
  "wireRequirement draft = concat (map (\<lambda>(field, kind). wire_prop field (REQUIREMENT_READERS kind (draft field))) PROFILE_REQUIREMENT_FIELDS)"

definition wireLimits :: "draft_limits \<Rightarrow> (string \<times> json) list" where
  "wireLimits draft = wire_prop ''maxEstimatedCostUsd'' (map_option JNum (wireNumber (dl_maxEstimatedCostUsd draft)))
     @ (if dl_onUnknownCost draft = CapExclude then [(''onUnknownCost'', JStr ''exclude'')] else [])"

definition wireCandidate :: "draft_candidate \<Rightarrow> profile_candidate" where
  "wireCandidate c = (trim (dc_provider c), trim (dc_model c))"

definition wireCompatibility :: "draft_compatibility \<Rightarrow> json option" where
  "wireCompatibility draft =
     (if \<not> dk_enabled draft then None
      else Some (JObj ([(''requiredSuites'', JArr (map suite_json (dk_requiredSuites draft)))]
        @ wire_prop ''minStatus'' (map_option (\<lambda>m. JStr (status_word m)) (dk_minStatus draft))
        @ wire_prop ''maxEvidenceAgeMs'' (map_option JNum (wireNumber (dk_maxEvidenceAgeMs draft)))
        @ [(''unknownEvidence'', JStr (mode_word (dk_unknownEvidence draft))), (''degradedEvidence'', JStr (mode_word (dk_degradedEvidence draft)))])))"

datatype write_mode = Create | Update

record put_body =
  pb_mode :: write_mode
  pb_id :: string
  pb_expectedRevision :: "string option"
  pb_profile :: json

definition candidate_json :: "profile_candidate \<Rightarrow> json" where
  "candidate_json c = JObj [(''provider'', JStr (fst c)), (''model'', JStr (snd c))]"

definition evidence_json :: "unknown_evidence \<Rightarrow> json" where
  "evidence_json u = JObj [(''capability'', JStr (mode_word (ue_capability u))), (''health'', JStr (mode_word (ue_health u))),
     (''quota'', JStr (mode_word (ue_quota u))), (''cost'', JStr (mode_word (ue_cost u)))]"

definition weights_json :: "string weights \<Rightarrow> json" where
  "weights_json w = JObj [(''latency'', JNum (js_number (wt_latency w))), (''health'', JNum (js_number (wt_health w))),
     (''cost'', JNum (js_number (wt_cost w))), (''quota'', JNum (js_number (wt_quota w)))]"

definition non_empty_object :: "(string \<times> json) list \<Rightarrow> json option" where
  "non_empty_object ps = (if ps = [] then None else Some (JObj ps))"

definition routingProfilePutBody :: "profile_draft \<Rightarrow> write_mode \<Rightarrow> string option \<Rightarrow> put_body" where
  "routingProfilePutBody draft mode expectedRevision =
     \<lparr>pb_mode = mode, pb_id = trim (df_id draft),
      pb_expectedRevision = (if mode = Update \<and> expectedRevision \<noteq> Some [] then expectedRevision else None),
      pb_profile = JObj
        (wire_prop ''alias'' (map_option JStr (omitBlank (df_alias draft)))
         @ [(''icon'', JStr (icon_or_default (Some (df_icon draft)))),
            (''candidates'', JArr (map (\<lambda>c. candidate_json (wireCandidate c)) (df_candidates draft)))]
         @ wire_prop ''require'' (non_empty_object (wireRequirement (df_require draft)))
         @ [(''optimize'', weights_json (df_optimize draft))]
         @ wire_prop ''limits'' (non_empty_object (wireLimits (df_limits draft)))
         @ [(''unknownEvidence'', evidence_json (df_unknownEvidence draft))]
         @ wire_prop ''compatibility'' (wireCompatibility (df_compatibility draft)))\<rparr>"

text \<open>
  Rows of a response stay objects: the code checks their outline and trusts the rest. \<open>obj_set\<close> is a
  property written by an object literal after a spread.
\<close>

fun obj_set :: "string \<Rightarrow> json \<Rightarrow> (string \<times> json) list \<Rightarrow> (string \<times> json) list" where
  "obj_set k v [] = [(k, v)]"
| "obj_set k v (p # ps) = (if fst p = k then (k, v) # ps else p # obj_set k v ps)"

definition is_text :: "json option \<Rightarrow> bool" where
  "is_text v = (case v of Some (JStr _) \<Rightarrow> True | _ \<Rightarrow> False)"

definition is_array :: "json option \<Rightarrow> bool" where
  "is_array v = (case v of Some (JArr _) \<Rightarrow> True | _ \<Rightarrow> False)"

definition isRoutingProfileDto :: "json \<Rightarrow> bool" where
  "isRoutingProfileDto profile =
     (if \<not> is_record profile then False
      else if \<not> list_all (\<lambda>f. is_text (prop_of profile f)) [''id'', ''model'', ''revision''] then False
      else if \<not> is_array (prop_of profile ''candidates'') then False
      else list_all (\<lambda>f. pred_option is_record (prop_of profile f) \<and> prop_of profile f \<noteq> None)
             [''require'', ''optimize'', ''limits'', ''unknownEvidence''])"

definition normalizeRoutingProfileDto :: "json \<Rightarrow> json" where
  "normalizeRoutingProfileDto profile =
     (let rest = filter (\<lambda>p. fst p \<noteq> ''compatibility'') (own_props profile);
          icon = (case prop_of profile ''icon'' of Some (JStr s) \<Rightarrow> if trim s \<noteq> [] then JStr (trim s) else JNull | _ \<Rightarrow> JNull);
          alias = (case prop_of profile ''alias'' of None \<Rightarrow> JNull | Some v \<Rightarrow> v);
          normalized = obj_set ''icon'' icon (obj_set ''alias'' alias rest)
      in JObj (normalized @ wire_prop ''compatibility'' (map_option compatibility_json (normalizeCompatibilityDto (prop_of profile ''compatibility'')))))"

definition parseRoutingProfiles :: "json \<Rightarrow> json list" where
  "parseRoutingProfiles raw =
     (if \<not> is_record raw then []
      else case prop_of raw ''profiles'' of
             Some (JArr entries) \<Rightarrow> map normalizeRoutingProfileDto (filter isRoutingProfileDto entries)
           | _ \<Rightarrow> [])"

section \<open>Write responses\<close>

definition asRecord :: "json option \<Rightarrow> json option" where
  "asRecord v = (case v of Some (JObj ps) \<Rightarrow> Some (JObj ps) | _ \<Rightarrow> None)"

definition nonBlankString :: "json option \<Rightarrow> string option" where
  "nonBlankString v = (case v of Some (JStr s) \<Rightarrow> if trim s = [] then None else Some s | _ \<Rightarrow> None)"

definition routingProfileResponseError :: "json option \<Rightarrow> string option" where
  "routingProfileResponseError data =
     (case asRecord data of
        None \<Rightarrow> None
      | Some body \<Rightarrow>
          (case nonBlankString (prop_of body ''error'') of
             Some s \<Rightarrow> Some s
           | None \<Rightarrow> Option.bind (asRecord (prop_of body ''error'')) (\<lambda>envelope. nonBlankString (prop_of envelope ''message''))))"

definition routingProfileResponseSucceeded :: "json option \<Rightarrow> bool" where
  "routingProfileResponseSucceeded data = (Option.bind (asRecord data) (\<lambda>b. prop_of b ''success'') = Some (JBool True))"

section \<open>The candidates an editor offers\<close>

record provider_config =
  pc_disabled :: bool
  pc_defaultModel :: "json option"
  pc_models :: "json option"

definition ROUTER_NAMESPACES :: "string list" where
  "ROUTER_NAMESPACES = [''combo'', ''policy'']"

definition textOf :: "json \<Rightarrow> string \<Rightarrow> string" where
  "textOf row field = (case prop_of row field of Some (JStr s) \<Rightarrow> trim s | _ \<Rightarrow> [])"

definition modelRowsOf :: "json \<Rightarrow> json list" where
  "modelRowsOf payload =
     (case payload of
        JArr rows \<Rightarrow> rows
      | JObj ps \<Rightarrow> (case prop_of payload ''models'' of Some (JArr rows) \<Rightarrow> rows | _ \<Rightarrow> [])
      | _ \<Rightarrow> [])"

text \<open>Candidates already offered, by provider; a provider that is absent has offered none.\<close>

type_synonym offered_models = "string \<Rightarrow> string list"

definition offerOnce :: "offered_models \<Rightarrow> string \<Rightarrow> string \<Rightarrow> bool \<times> offered_models" where
  "offerOnce offered provider i = (i \<notin> set (offered provider), offered(provider := List.insert i (offered provider)))"

definition candidateOf :: "json \<Rightarrow> model_option option" where
  "candidateOf row =
     (if \<not> is_record row \<or> prop_of row ''disabled'' = Some (JBool True) then None
      else let provider = textOf row ''provider''; i = textOf row ''id''
           in if provider = [] \<or> i = [] \<or> provider \<in> set ROUTER_NAMESPACES then None
              else Some \<lparr>mo_provider = provider, mo_id = i\<rparr>)"

fun offer_rows :: "model_option list \<Rightarrow> offered_models \<Rightarrow> model_option list" where
  "offer_rows [] offered = []"
| "offer_rows (c # cs) offered =
     (case offerOnce offered (mo_provider c) (mo_id c) of
        (fresh, offered') \<Rightarrow> if fresh then c # offer_rows cs offered' else offer_rows cs offered')"

definition parseRoutingModels :: "json \<Rightarrow> model_option list" where
  "parseRoutingModels payload = offer_rows (List.map_filter candidateOf (modelRowsOf payload)) (\<lambda>_. [])"

definition disabled_spellings :: "json \<Rightarrow> string list" where
  "disabled_spellings row =
     (if \<not> is_record row \<or> prop_of row ''disabled'' \<noteq> Some (JBool True) then []
      else let provider = textOf row ''provider''; i = textOf row ''id''
           in filter (\<lambda>s. s \<noteq> [])
                [i, textOf row ''namespaced'', if provider \<noteq> [] \<and> i \<noteq> [] then provider @ ''/'' @ i else []])"

definition disabledModelIds :: "json \<Rightarrow> string list" where
  "disabledModelIds payload = concat (map disabled_spellings (modelRowsOf payload))"

definition storedModelId :: "json \<Rightarrow> string" where
  "storedModelId entry = (case entry of JStr s \<Rightarrow> trim s | JObj ps \<Rightarrow> textOf entry ''id'' | _ \<Rightarrow> [])"

type_synonym providers = "(string \<times> provider_config) list"

definition enabledProviders :: "providers \<Rightarrow> providers" where
  "enabledProviders ps = filter (\<lambda>p. \<not> pc_disabled (snd p)) ps"

definition code_unit_order :: "string \<Rightarrow> string \<Rightarrow> int" where
  "code_unit_order l r = (if l < r then - 1 else if r < l then 1 else 0)"

definition enabledProviderNames :: "providers \<Rightarrow> string list" where
  "enabledProviderNames ps = sort_by code_unit_order (map fst (enabledProviders ps))"

definition enabledProviderDefaults :: "providers \<Rightarrow> (string \<times> string) list" where
  "enabledProviderDefaults ps =
     List.map_filter (\<lambda>p. case pc_defaultModel (snd p) of Some (JStr s) \<Rightarrow> Some (fst p, trim s) | _ \<Rightarrow> None) (enabledProviders ps)"

definition offerable :: "string list \<Rightarrow> model_option \<Rightarrow> bool" where
  "offerable disabled c \<longleftrightarrow>
     \<not> (mo_provider c = [] \<or> mo_id c = [] \<or> mo_provider c \<in> set ROUTER_NAMESPACES)
     \<and> \<not> (mo_id c \<in> set disabled \<or> mo_provider c @ ''/'' @ mo_id c \<in> set disabled)"

definition stored_candidates :: "providers \<Rightarrow> model_option list" where
  "stored_candidates ps =
     concat (map (\<lambda>p. case pc_models (snd p) of
        Some (JArr entries) \<Rightarrow> map (\<lambda>e. \<lparr>mo_provider = trim (fst p), mo_id = storedModelId e\<rparr>) entries | _ \<Rightarrow> []) (enabledProviders ps))"

definition option_order :: "(string \<Rightarrow> string \<Rightarrow> int) \<Rightarrow> model_option \<Rightarrow> model_option \<Rightarrow> int" where
  "option_order collate l r =
     (let c = collate (mo_provider l) (mo_provider r) in if c \<noteq> 0 then c else collate (mo_id l) (mo_id r))"

definition mergeRoutingModels :: "(string \<Rightarrow> string \<Rightarrow> int) \<Rightarrow> json \<Rightarrow> providers \<Rightarrow> model_option list" where
  "mergeRoutingModels collate payload ps =
     (let disabled = disabledModelIds payload;
          named = List.map_filter candidateOf (modelRowsOf payload) @ stored_candidates ps
      in sort_by (option_order collate) (offer_rows (filter (offerable disabled) named) (\<lambda>_. [])))"

definition modelOptionsForProvider :: "(string \<Rightarrow> string \<Rightarrow> int) \<Rightarrow> model_option list \<Rightarrow> string \<Rightarrow> model_option list" where
  "modelOptionsForProvider collate models provider =
     sort_by (\<lambda>l r. collate (mo_id l) (mo_id r)) (filter (\<lambda>m. mo_provider m = trim provider) models)"

definition firstModelForProvider :: "(string \<Rightarrow> string \<Rightarrow> int) \<Rightarrow> model_option list \<Rightarrow> string \<Rightarrow> string" where
  "firstModelForProvider collate models provider =
     (case modelOptionsForProvider collate models provider of [] \<Rightarrow> [] | m # _ \<Rightarrow> mo_id m)"

definition selectedProfileAfterLoad :: "('p \<Rightarrow> string) \<Rightarrow> 'p list \<Rightarrow> string option \<Rightarrow> string option \<Rightarrow> 'p option" where
  "selectedProfileAfterLoad pid profiles currentId preferredId =
     (let named = (case preferredId of Some i \<Rightarrow> Some i | None \<Rightarrow> currentId);
          found = Option.bind named (\<lambda>i. find (\<lambda>p. pid p = i) profiles)
      in case found of Some p \<Rightarrow> Some p | None \<Rightarrow> (case profiles of [] \<Rightarrow> None | p # _ \<Rightarrow> Some p))"

record dry_run_input =
  di_context :: string
  di_tools :: bool
  di_image :: bool
  di_structured :: bool

definition routingDryRunEvidence :: "dry_run_input \<Rightarrow> (string \<times> json) list" where
  "routingDryRunEvidence input =
     (case js_number (trim (di_context input)) of Fin r \<Rightarrow> if 0 < r then [(''contextWindow'', JNum (Fin r))] else [] | _ \<Rightarrow> [])
     @ (if di_tools input then [(''toolsRequired'', JBool True)] else [])
     @ (if di_image input then [(''imageInputRequired'', JBool True)] else [])
     @ (if di_structured input then [(''structuredOutputRequired'', JBool True)] else [])"

section \<open>One load of the editor\<close>

datatype answer = Rejected | Refused nat | Unreadable | Answered json

text \<open>A read of an optional source: \<^term>\<open>Inl\<close> when the request itself was rejected. \<open>read\<close> gives \<^term>\<open>None\<close> for a body it cannot read.\<close>

definition readSource :: "(json \<Rightarrow> 'v option) \<Rightarrow> answer \<Rightarrow> string + 'v option" where
  "readSource read a =
     (case a of Rejected \<Rightarrow> Inl ''fetch'' | Refused _ \<Rightarrow> Inr None | Unreadable \<Rightarrow> Inr None | Answered j \<Rightarrow> Inr (read j))"

definition provider_entry :: "string \<times> json \<Rightarrow> string \<times> provider_config" where
  "provider_entry p = (fst p, \<lparr>pc_disabled = (prop_of (snd p) ''disabled'' = Some (JBool True)),
     pc_defaultModel = prop_of (snd p) ''defaultModel'', pc_models = prop_of (snd p) ''models''\<rparr>)"

definition readProviders :: "json \<Rightarrow> providers" where
  "readProviders payload =
     (if \<not> is_record payload then []
      else case prop_of payload ''providers'' of Some (JObj ps) \<Rightarrow> map provider_entry ps | _ \<Rightarrow> [])"

record ('a, 'c) profile_sources =
  so_profiles :: "json list"
  so_analytics :: "'a option"
  so_providers :: providers
  so_modelsPayload :: json
  so_catalogSuites :: "'c list option"

definition fetchRoutingProfileSources :: "(json \<Rightarrow> 'a option) \<Rightarrow> (json \<Rightarrow> 'c list option) \<Rightarrow>
    answer \<Rightarrow> answer \<Rightarrow> answer \<Rightarrow> answer \<Rightarrow> answer \<Rightarrow> string + ('a, 'c) profile_sources" where
  "fetchRoutingProfileSources parseRoutingAnalytics readLabCatalog listings analytics config models catalog =
     (case listings of
        Rejected \<Rightarrow> Inl ''fetch''
      | Refused status \<Rightarrow> Inl (''load-'' @ show_nat status)
      | Unreadable \<Rightarrow> Inl ''json''
      | Answered profiles \<Rightarrow>
          bindR (readSource parseRoutingAnalytics analytics) (\<lambda>a.
          bindR (readSource (\<lambda>j. Some (readProviders j)) config) (\<lambda>ps.
          bindR (readSource Some models) (\<lambda>m.
          bindR (readSource readLabCatalog catalog) (\<lambda>c.
          Inr \<lparr>so_profiles = parseRoutingProfiles profiles, so_analytics = a,
               so_providers = (case ps of None \<Rightarrow> [] | Some x \<Rightarrow> x),
               so_modelsPayload = (case m of None \<Rightarrow> JNull | Some j \<Rightarrow> j), so_catalogSuites = c\<rparr>)))))"

record ('a, 'c) profiles_data =
  da_profiles :: "json list"
  da_analytics :: "'a option"
  da_providerNames :: "string list"
  da_models :: "model_option list"
  da_catalogSuites :: "'c list"
  da_catalogError :: bool

definition routingProfilesData :: "(string \<Rightarrow> string \<Rightarrow> int) \<Rightarrow> ('a, 'c) profile_sources \<Rightarrow> ('a, 'c) profiles_data" where
  "routingProfilesData collate s =
     \<lparr>da_profiles = so_profiles s, da_analytics = so_analytics s, da_providerNames = enabledProviderNames (so_providers s),
      da_models = mergeRoutingModels collate (so_modelsPayload s) (so_providers s),
      da_catalogSuites = (case so_catalogSuites s of None \<Rightarrow> [] | Some c \<Rightarrow> c), da_catalogError = (so_catalogSuites s = None)\<rparr>"

definition coerce_candidate :: "(string \<Rightarrow> string \<Rightarrow> int) \<Rightarrow> model_option list \<Rightarrow> draft_candidate \<Rightarrow> draft_candidate" where
  "coerce_candidate collate models c =
     (let offered = filter (\<lambda>m. mo_provider m = dc_provider c) models
      in if offered = [] \<or> list_ex (\<lambda>m. mo_id m = dc_model c) offered then c
         else c\<lparr>dc_model := hd (sort_by collate (map mo_id offered))\<rparr>)"

definition draftCoercedToModels :: "(string \<Rightarrow> string \<Rightarrow> int) \<Rightarrow> profile_draft option \<Rightarrow> model_option list \<Rightarrow> profile_draft option" where
  "draftCoercedToModels collate draft models =
     (case draft of
        None \<Rightarrow> None
      | Some d \<Rightarrow> if models = [] then Some d
                  else let cs = map (coerce_candidate collate models) (df_candidates d)
                       in if cs \<noteq> df_candidates d then Some (d\<lparr>df_candidates := cs\<rparr>) else Some d)"

record routing_editor =
  ed_selected :: "profile_dto option"
  ed_draft :: "profile_draft option"
  ed_editing :: bool

definition editorAfterLoad :: "(string \<Rightarrow> string \<Rightarrow> int) \<Rightarrow> routing_editor \<Rightarrow> model_option list \<Rightarrow> profile_dto option \<Rightarrow> bool \<Rightarrow> nat \<Rightarrow> routing_editor \<times> nat" where
  "editorAfterLoad collate editor models settledOn replacesEditor n =
     (let (draft, n1) = (if replacesEditor
            then (case settledOn of None \<Rightarrow> (None, n) | Some p \<Rightarrow> (case routingProfileDraftFromDto p n of (d, m) \<Rightarrow> (Some d, m)))
            else (ed_draft editor, n))
      in (\<lparr>ed_selected = (if replacesEditor then settledOn else ed_selected editor),
           ed_draft = draftCoercedToModels collate draft models,
           ed_editing = (if replacesEditor then False else ed_editing editor)\<rparr>, n1))"

definition dryRunSurvivesReload :: "(string \<times> string) option \<Rightarrow> (string \<times> string) option \<Rightarrow> bool" where
  "dryRunSurvivesReload current refreshed =
     (case (current, refreshed) of (Some c, Some r) \<Rightarrow> fst c = fst r \<and> snd c = snd r | _ \<Rightarrow> False)"

section \<open>Reading a body back\<close>

text \<open>
  The profile a body describes, field by field: what the listener stores when it stores the body as
  written.
\<close>

definition num_in :: "json option \<Rightarrow> rat option" where
  "num_in v = (case v of Some (JNum (Fin r)) \<Rightarrow> Some r | _ \<Rightarrow> None)"

definition flag_in :: "json option \<Rightarrow> bool option" where
  "flag_in v = (case v of Some (JBool b) \<Rightarrow> Some b | _ \<Rightarrow> None)"

definition text_in :: "json option \<Rightarrow> string option" where
  "text_in v = (case v of Some (JStr s) \<Rightarrow> Some s | _ \<Rightarrow> None)"

definition field_in :: "json option \<Rightarrow> string \<Rightarrow> json option" where
  "field_in v k = Option.bind v (\<lambda>j. prop_of j k)"

definition requirement_in :: "json option \<Rightarrow> requirement" where
  "requirement_in v =
     \<lparr>rq_minContextWindow = num_in (field_in v ''minContextWindow''), rq_minQuotaHeadroom = num_in (field_in v ''minQuotaHeadroom''),
      rq_tools = flag_in (field_in v ''tools''), rq_imageInput = flag_in (field_in v ''imageInput''),
      rq_structuredOutput = flag_in (field_in v ''structuredOutput''), rq_reasoningEffort = text_in (field_in v ''reasoningEffort''),
      rq_serviceTier = text_in (field_in v ''serviceTier''), rq_localOnly = flag_in (field_in v ''localOnly''),
      rq_remoteAllowed = flag_in (field_in v ''remoteAllowed''), rq_encryptedCodexTasks = flag_in (field_in v ''encryptedCodexTasks'')\<rparr>"

definition weight_in :: "json option \<Rightarrow> string \<Rightarrow> rat" where
  "weight_in v k = (case num_in (field_in v k) of None \<Rightarrow> 0 | Some r \<Rightarrow> r)"

definition mode_in :: "json option \<Rightarrow> string \<Rightarrow> evidence_mode" where
  "mode_in v k = (case isEvidenceMode (field_in v k) of None \<Rightarrow> Exclude | Some m \<Rightarrow> m)"

definition candidate_in :: "json \<Rightarrow> profile_candidate" where
  "candidate_in j = (text_or (text_in (prop_of j ''provider'')), text_or (text_in (prop_of j ''model'')))"

definition profile_in :: "string \<Rightarrow> string \<Rightarrow> put_body \<Rightarrow> profile_dto" where
  "profile_in model revision body =
     (let f = prop_of (pb_profile body) in
      \<lparr>pd_id = pb_id body, pd_alias = text_in (f ''alias''), pd_icon = text_in (f ''icon''), pd_model = model, pd_revision = revision,
       pd_candidates = (case f ''candidates'' of Some (JArr cs) \<Rightarrow> map candidate_in cs | _ \<Rightarrow> []),
       pd_require = requirement_in (f ''require''),
       pd_optimize = \<lparr>wt_latency = weight_in (f ''optimize'') ''latency'', wt_health = weight_in (f ''optimize'') ''health'',
         wt_cost = weight_in (f ''optimize'') ''cost'', wt_quota = weight_in (f ''optimize'') ''quota''\<rparr>,
       pd_limits = \<lparr>lm_maxEstimatedCostUsd = num_in (field_in (f ''limits'') ''maxEstimatedCostUsd''),
         lm_onUnknownCost = (if text_in (field_in (f ''limits'') ''onUnknownCost'') = Some ''exclude'' then Some CapExclude else None)\<rparr>,
       pd_unknownEvidence = \<lparr>ue_capability = mode_in (f ''unknownEvidence'') ''capability'', ue_health = mode_in (f ''unknownEvidence'') ''health'',
         ue_quota = mode_in (f ''unknownEvidence'') ''quota'', ue_cost = mode_in (f ''unknownEvidence'') ''cost''\<rparr>,
       pd_compatibility = normalizeCompatibilityDto (f ''compatibility'')\<rparr>)"

text \<open>A profile whose text is trimmed and whose numbers are doubles, and the same profile with the defaults written out.\<close>

definition clean_text :: "string \<Rightarrow> bool" where
  "clean_text s \<longleftrightarrow> trim s = s \<and> s \<noteq> []"

definition clean_requirement :: "requirement \<Rightarrow> bool" where
  "clean_requirement r \<longleftrightarrow> pred_option decimal (rq_minContextWindow r) \<and> pred_option decimal (rq_minQuotaHeadroom r)
     \<and> pred_option clean_text (rq_reasoningEffort r) \<and> pred_option clean_text (rq_serviceTier r)"

definition clean_compatibility :: "compatibility \<Rightarrow> bool" where
  "clean_compatibility c \<longleftrightarrow> list_all (\<lambda>s. clean_text (suiteId s)) (cm_requiredSuites c)
     \<and> pred_option (\<lambda>r. decimal r \<and> 0 \<le> r) (cm_maxEvidenceAgeMs c)"

definition clean_dto :: "profile_dto \<Rightarrow> bool" where
  "clean_dto p \<longleftrightarrow> trim (pd_id p) = pd_id p \<and> pred_option clean_text (pd_alias p)
     \<and> list_all (\<lambda>c. trim (fst c) = fst c \<and> trim (snd c) = snd c) (pd_candidates p)
     \<and> clean_requirement (pd_require p)
     \<and> decimal (wt_latency (pd_optimize p)) \<and> decimal (wt_health (pd_optimize p)) \<and> decimal (wt_cost (pd_optimize p)) \<and> decimal (wt_quota (pd_optimize p))
     \<and> pred_option decimal (lm_maxEstimatedCostUsd (pd_limits p)) \<and> pred_option clean_compatibility (pd_compatibility p)"

definition explicit_compatibility :: "compatibility \<Rightarrow> compatibility" where
  "explicit_compatibility c = c
     \<lparr>cm_unknownEvidence := Some (case cm_unknownEvidence c of None \<Rightarrow> Exclude | Some m \<Rightarrow> m),
      cm_degradedEvidence := Some (case cm_degradedEvidence c of None \<Rightarrow> Penalize | Some m \<Rightarrow> m)\<rparr>"

definition explicit_dto :: "profile_dto \<Rightarrow> profile_dto" where
  "explicit_dto p = p
     \<lparr>pd_icon := Some (icon_or_default (pd_icon p)),
      pd_limits := (pd_limits p)\<lparr>lm_onUnknownCost := (if lm_onUnknownCost (pd_limits p) = Some CapExclude then Some CapExclude else None)\<rparr>,
      pd_compatibility := map_option explicit_compatibility (pd_compatibility p)\<rparr>"

lemma map_of_wire_prop: "map_of (wire_prop k v @ ps) f = (if f = k \<and> v \<noteq> None then v else map_of ps f)"
  by (cases v) (auto simp: wire_prop_def)

lemma map_of_wire_last: "map_of (wire_prop k v) f = (if f = k then v else None)"
  by (cases v) (auto simp: wire_prop_def)

lemma prop_of_JObj [simp]: "prop_of (JObj ps) k = map_of ps k"
  by (simp add: prop_of_def)

lemma word_back:
  "isSuiteLayer (Some (JStr (layer_word l))) = Some l"
  "isEvidenceMode (Some (JStr (mode_word m))) = Some m"
  "isMinStatus (Some (JStr (status_word s))) = Some s"
  "isSuiteLayer None = None" "isEvidenceMode None = None" "isMinStatus None = None"
  by (cases l; cases m; cases s; simp add: isSuiteLayer_def isEvidenceMode_def isMinStatus_def read_word_def
    PROFILE_SUITE_LAYERS_def UNKNOWN_EVIDENCE_MODES_def COMPATIBILITY_MIN_STATUSES_def)+

lemma number_back:
  "pred_option decimal v \<Longrightarrow> wireNumber (draftText v) = map_option Fin v"
  by (cases v) (simp_all add: wireNumber_def draftText_def js_show_plain number_of_text)

lemma text_back: "pred_option clean_text v \<Longrightarrow> omitBlank (text_or v) = v"
  by (cases v) (simp_all add: omitBlank_def text_or_def clean_text_def)

lemma flag_back: "REQUIREMENT_READERS FlagKind (draftTriState v) = map_option JBool v"
  by (cases v) (auto simp: draftTriState_def isOptionalBoolean_def wireTriState_def split: bool.splits)

lemma reads_in:
  "num_in (map_option (\<lambda>r. JNum (Fin r)) v) = v" "flag_in (map_option JBool b) = b" "text_in (map_option JStr s) = s"
  by (cases v; cases b; cases s; simp add: num_in_def flag_in_def text_in_def)+

section \<open>Draft and body\<close>

lemma map_of_wire_table:
  "distinct (map fst T) \<Longrightarrow>
   map_of (concat (map (\<lambda>(f, k). wire_prop f (R k (d f))) T)) g = Option.bind (map_of T g) (\<lambda>k. R k (d g))"
proof (induction T)
  case (Cons p T)
  obtain f k where p: "p = (f, k)" by (cases p)
  have "map_of T f = None" using Cons.prems p by (simp add: map_of_eq_None_iff)
  then show ?case using Cons p by (cases "R k (d f)") (auto simp: wire_prop_def)
qed simp

lemma field_in_object: "field_in (non_empty_object ps) k = map_of ps k"
  by (cases ps) (simp_all add: field_in_def non_empty_object_def)

lemma field_in_Some [simp]: "field_in (Some (JObj ps)) k = map_of ps k"
  by (simp add: field_in_def)

lemma wireRequirement_field:
  "map_of (wireRequirement d) g = Option.bind (map_of PROFILE_REQUIREMENT_FIELDS g) (\<lambda>k. REQUIREMENT_READERS k (d g))"
  unfolding wireRequirement_def by (rule map_of_wire_table) (simp add: PROFILE_REQUIREMENT_FIELDS_def)

lemma requirement_kinds:
  "map_of PROFILE_REQUIREMENT_FIELDS ''minContextWindow'' = Some NumberKind"
  "map_of PROFILE_REQUIREMENT_FIELDS ''minQuotaHeadroom'' = Some NumberKind"
  "map_of PROFILE_REQUIREMENT_FIELDS ''tools'' = Some FlagKind"
  "map_of PROFILE_REQUIREMENT_FIELDS ''imageInput'' = Some FlagKind"
  "map_of PROFILE_REQUIREMENT_FIELDS ''structuredOutput'' = Some FlagKind"
  "map_of PROFILE_REQUIREMENT_FIELDS ''reasoningEffort'' = Some TextKind"
  "map_of PROFILE_REQUIREMENT_FIELDS ''serviceTier'' = Some TextKind"
  "map_of PROFILE_REQUIREMENT_FIELDS ''localOnly'' = Some FlagKind"
  "map_of PROFILE_REQUIREMENT_FIELDS ''remoteAllowed'' = Some FlagKind"
  "map_of PROFILE_REQUIREMENT_FIELDS ''encryptedCodexTasks'' = Some FlagKind"
  by (simp_all add: PROFILE_REQUIREMENT_FIELDS_def)

lemma num_reader: "pred_option decimal v \<Longrightarrow> num_in (REQUIREMENT_READERS NumberKind (draftText v)) = v"
  using reads_in(1) [of v] by (simp add: number_back option.map_comp comp_def)

lemma text_reader: "pred_option clean_text v \<Longrightarrow> text_in (REQUIREMENT_READERS TextKind (text_or v)) = v"
  by (simp add: text_back reads_in)

lemma requirement_back:
  assumes "clean_requirement r"
  shows "requirement_in (non_empty_object (wireRequirement (draftRequirement r))) = r"
proof -
  note f = field_in_object wireRequirement_field requirement_kinds
  note c = assms [unfolded clean_requirement_def]
  show ?thesis
    unfolding requirement_in_def f
    by (rule requirement.equality) (simp_all del: REQUIREMENT_READERS.simps
      add: draftRequirement_def num_reader text_reader flag_back reads_in c)
qed

lemma suites_back:
  "list_all (\<lambda>s. clean_text (suiteId s)) ss \<Longrightarrow> normalizeCompatibilitySuites (Some (JArr (map suite_json ss))) = ss"
proof (induction ss)
  case (Cons s ss)
  have "readSuiteRow (suite_json s) = Some s"
    using Cons.prems by (simp add: readSuiteRow_def suite_json_def is_record_def clean_text_def word_back)
  with Cons show ?case by (simp add: normalizeCompatibilitySuites_def map_filter_simps)
qed (simp add: normalizeCompatibilitySuites_def map_filter_simps)

text \<open>The object of a policy whose evidence modes may be absent.\<close>

definition policy_object :: "suite_draft list \<Rightarrow> min_status option \<Rightarrow> rat option \<Rightarrow> evidence_mode option \<Rightarrow> evidence_mode option \<Rightarrow> json" where
  "policy_object ss st age u d = JObj ([(''requiredSuites'', JArr (map suite_json ss))]
     @ wire_prop ''minStatus'' (map_option (\<lambda>m. JStr (status_word m)) st)
     @ wire_prop ''maxEvidenceAgeMs'' (map_option (\<lambda>r. JNum (Fin r)) age)
     @ wire_prop ''unknownEvidence'' (map_option (\<lambda>m. JStr (mode_word m)) u)
     @ wire_prop ''degradedEvidence'' (map_option (\<lambda>m. JStr (mode_word m)) d))"

lemma policy_object_back:
  assumes "list_all (\<lambda>s. clean_text (suiteId s)) ss" "pred_option (\<lambda>r. decimal r \<and> 0 \<le> r) age"
  shows "normalizeCompatibilityDto (Some (policy_object ss st age u d)) =
    Some \<lparr>cm_requiredSuites = ss, cm_minStatus = st, cm_maxEvidenceAgeMs = age, cm_unknownEvidence = u, cm_degradedEvidence = d\<rparr>"
  unfolding policy_object_def normalizeCompatibilityDto_def
  by (cases st; cases age; cases u; cases d) (use assms in \<open>simp_all add: suites_back word_back wire_prop_def\<close>)

lemma compatibility_back:
  assumes "clean_compatibility c"
  shows "normalizeCompatibilityDto (Some (compatibility_json c)) = Some c"
proof -
  have "compatibility_json c = policy_object (cm_requiredSuites c) (cm_minStatus c) (cm_maxEvidenceAgeMs c) (cm_unknownEvidence c) (cm_degradedEvidence c)"
    by (simp add: compatibility_json_def policy_object_def)
  with policy_object_back assms show ?thesis by (simp add: clean_compatibility_def)
qed

lemma wireCompatibility_back:
  assumes "pred_option clean_compatibility c"
  shows "normalizeCompatibilityDto (wireCompatibility (draftCompatibility (normalizeCompatibilityDto (map_option compatibility_json c))))
    = map_option explicit_compatibility c"
proof (cases c)
  case None
  then show ?thesis by (simp add: normalizeCompatibilityDto_def draftCompatibility_def wireCompatibility_def)
next
  case (Some k)
  with assms have k: "clean_compatibility k" by simp
  then have age: "pred_option decimal (cm_maxEvidenceAgeMs k)"
    by (cases "cm_maxEvidenceAgeMs k") (simp_all add: clean_compatibility_def)
  let ?e = "explicit_compatibility k"
  have "wireCompatibility (draftCompatibility (Some k))
      = Some (policy_object (cm_requiredSuites k) (cm_minStatus k) (cm_maxEvidenceAgeMs k) (cm_unknownEvidence ?e) (cm_degradedEvidence ?e))"
    by (simp add: wireCompatibility_def draftCompatibility_def policy_object_def number_back [OF age] option.map_comp comp_def
      explicit_compatibility_def wire_prop_def)
  with k show ?thesis
    by (simp add: Some compatibility_back policy_object_back clean_compatibility_def) (simp add: explicit_compatibility_def)
qed

lemma newDraftCandidates_result:
  "newDraftCandidates cs n = (ds, m) \<Longrightarrow>
   m = n + length cs \<and> map (\<lambda>d. (dc_provider d, dc_model d)) ds = cs
   \<and> map dc_key ds = map (\<lambda>i. ''candidate-'' @ show_nat (Suc i)) [n..<m]"
proof (induction cs arbitrary: n ds m)
  case (Cons c cs)
  obtain es where es: "newDraftCandidates cs (Suc n) = (es, m)"
    and ds: "ds = \<lparr>dc_provider = fst c, dc_model = snd c, dc_key = ''candidate-'' @ show_nat (Suc n)\<rparr> # es"
    using Cons.prems by (auto simp: newDraftCandidate_def nextCandidateKey_def split: prod.splits)
  have m: "m = Suc n + length cs" using Cons.IH [OF es] by blast
  have u: "[n..<m] = n # [Suc n..<m]" by (rule upt_conv_Cons) (simp add: m)
  from Cons.IH [OF es] ds show ?case unfolding u by simp
qed simp

lemma candidates_back:
  assumes "newDraftCandidates cs n = (ds, m)" "list_all (\<lambda>c. trim (fst c) = fst c \<and> trim (snd c) = snd c) cs"
  shows "map candidate_in (map (\<lambda>d. candidate_json (wireCandidate d)) ds) = cs"
proof -
  have cs: "cs = map (\<lambda>d. (dc_provider d, dc_model d)) ds" using newDraftCandidates_result [OF assms(1)] by simp
  have "candidate_in (candidate_json (wireCandidate d)) = (dc_provider d, dc_model d)" if "d \<in> set ds" for d
    using assms(2) that unfolding cs
    by (auto simp: list_all_iff candidate_in_def candidate_json_def wireCandidate_def text_in_def text_or_def)
  then show ?thesis unfolding cs by simp
qed

lemma limits_back:
  assumes "pred_option decimal (lm_maxEstimatedCostUsd l)"
  shows "num_in (field_in (non_empty_object (wireLimits (draftLimits l))) ''maxEstimatedCostUsd'') = lm_maxEstimatedCostUsd l"
    and "text_in (field_in (non_empty_object (wireLimits (draftLimits l))) ''onUnknownCost'')
      = (if lm_onUnknownCost l = Some CapExclude then Some ''exclude'' else None)"
  using assms by (cases "lm_maxEstimatedCostUsd l",
    simp_all add: field_in_object wireLimits_def draftLimits_def number_back wire_prop_def num_in_def text_in_def)+

lemma weights_back:
  assumes "decimal (wt_latency w)" "decimal (wt_health w)" "decimal (wt_cost w)" "decimal (wt_quota w)"
  shows "weight_in (Some (weights_json (draftWeights w))) ''latency'' = wt_latency w"
    "weight_in (Some (weights_json (draftWeights w))) ''health'' = wt_health w"
    "weight_in (Some (weights_json (draftWeights w))) ''cost'' = wt_cost w"
    "weight_in (Some (weights_json (draftWeights w))) ''quota'' = wt_quota w"
  using assms by (simp_all add: weight_in_def weights_json_def draftWeights_def num_in_def number_of_text)

lemma evidence_back:
  "mode_in (Some (evidence_json u)) ''capability'' = ue_capability u" "mode_in (Some (evidence_json u)) ''health'' = ue_health u"
  "mode_in (Some (evidence_json u)) ''quota'' = ue_quota u" "mode_in (Some (evidence_json u)) ''cost'' = ue_cost u"
  by (simp_all add: mode_in_def evidence_json_def word_back)

lemma icon_default_idem: "icon_or_default (Some (icon_or_default i)) = icon_or_default i"
proof -
  have "trim ROUTING_PROFILE_DEFAULT_ICON = ROUTING_PROFILE_DEFAULT_ICON" "ROUTING_PROFILE_DEFAULT_ICON \<noteq> []" by code_simp+
  then show ?thesis by (cases i) (simp_all add: icon_or_default_def)
qed

lemma put_id: "pb_id (routingProfilePutBody d mode expected) = trim (df_id d)"
  by (simp add: routingProfilePutBody_def)

lemma text_in_Some: "text_in (Some (JStr s)) = Some s"
  by (simp add: text_in_def)

lemma profile_fields:
  "prop_of (pb_profile (routingProfilePutBody d mode expected)) ''alias'' = map_option JStr (omitBlank (df_alias d))"
  "prop_of (pb_profile (routingProfilePutBody d mode expected)) ''icon'' = Some (JStr (icon_or_default (Some (df_icon d))))"
  "prop_of (pb_profile (routingProfilePutBody d mode expected)) ''candidates'' = Some (JArr (map (\<lambda>c. candidate_json (wireCandidate c)) (df_candidates d)))"
  "prop_of (pb_profile (routingProfilePutBody d mode expected)) ''require'' = non_empty_object (wireRequirement (df_require d))"
  "prop_of (pb_profile (routingProfilePutBody d mode expected)) ''optimize'' = Some (weights_json (df_optimize d))"
  "prop_of (pb_profile (routingProfilePutBody d mode expected)) ''limits'' = non_empty_object (wireLimits (df_limits d))"
  "prop_of (pb_profile (routingProfilePutBody d mode expected)) ''unknownEvidence'' = Some (evidence_json (df_unknownEvidence d))"
  "prop_of (pb_profile (routingProfilePutBody d mode expected)) ''compatibility'' = wireCompatibility (df_compatibility d)"
  by (auto simp: routingProfilePutBody_def map_of_wire_prop map_of_wire_last simp del: map_of_append)

section \<open>Properties\<close>

text \<open>C16: editing a routing profile without changing anything changes nothing. The body that the untouched
  draft of a profile sends describes the same profile, with the defaults the editor shows (icon, an
  unknown cost that is allowed, the two evidence modes of a compatibility policy) written out; an
  absent requirement stays absent, a number never turns into another number, and a policy that is
  not there is not invented. The keys of the draft's candidates are pairwise different and were
  never handed out before.\<close>

theorem profile_roundtrip:
  assumes "clean_dto p" "routingProfileDraftFromDto p n = (d, m)"
  shows "profile_in (pd_model p) (pd_revision p) (routingProfilePutBody d mode expected) = explicit_dto p
    \<and> distinct (map dc_key (df_candidates d))
    \<and> (\<forall>i \<le> n. ''candidate-'' @ show_nat i \<notin> set (map dc_key (df_candidates d)))"
proof -
  obtain ds where ds: "newDraftCandidates (pd_candidates p) n = (ds, m)"
    and d: "df_candidates d = ds" "df_id d = pd_id p" "df_alias d = text_or (pd_alias p)" "df_icon d = icon_or_default (pd_icon p)"
      "df_require d = draftRequirement (pd_require p)" "df_optimize d = draftWeights (pd_optimize p)"
      "df_limits d = draftLimits (pd_limits p)" "df_unknownEvidence d = pd_unknownEvidence p"
      "df_compatibility d = draftCompatibility (normalizeCompatibilityDto (map_option compatibility_json (pd_compatibility p)))"
    using assms(2) by (auto simp: routingProfileDraftFromDto_def split: prod.splits)
  note keys = newDraftCandidates_result [OF ds]
  have "inj (\<lambda>i. ''candidate-'' @ show_nat (Suc i))" by (auto intro: injI dest: show_nat_inj)
  then have 1: "distinct (map dc_key (df_candidates d))"
    using keys d by (simp add: distinct_map inj_on_subset [OF _ subset_UNIV])
  have 2: "''candidate-'' @ show_nat i \<notin> set (map dc_key (df_candidates d))" if "i \<le> n" for i
    using keys d that by (auto dest!: show_nat_inj)
  note c = assms(1) [unfolded clean_dto_def]
  have 3: "profile_in (pd_model p) (pd_revision p) (routingProfilePutBody d mode expected) = explicit_dto p"
    unfolding profile_in_def Let_def profile_fields d
    using c candidates_back [OF ds]
    by (intro profile_dto.equality profile_limits.equality weights.equality unknown_evidence.equality)
      (simp_all add: explicit_dto_def text_back reads_in icon_default_idem requirement_back weights_back limits_back
        evidence_back wireCompatibility_back d(2) put_id text_in_Some)
  from 1 2 3 show ?thesis by blast
qed

definition sample_dto :: profile_dto where
  "sample_dto =
     \<lparr>pd_id = ''fast'', pd_alias = None, pd_icon = Some '' flash '', pd_model = ''policy/fast'', pd_revision = ''r1'',
      pd_candidates = [(''openai'', ''gpt-5''), (''anthropic'', ''opus'')],
      pd_require = \<lparr>rq_minContextWindow = Some 200000, rq_minQuotaHeadroom = Some (3 / 20), rq_tools = Some False, rq_imageInput = None,
        rq_structuredOutput = None, rq_reasoningEffort = Some ''high'', rq_serviceTier = None, rq_localOnly = None, rq_remoteAllowed = Some True,
        rq_encryptedCodexTasks = None\<rparr>,
      pd_optimize = \<lparr>wt_latency = 11 / 20, wt_health = 1 / 4, wt_cost = 1 / 10, wt_quota = 1 / 10\<rparr>,
      pd_limits = \<lparr>lm_maxEstimatedCostUsd = Some (1 / 2), lm_onUnknownCost = Some CapAllow\<rparr>,
      pd_unknownEvidence = newDraftUnknownEvidence,
      pd_compatibility = Some \<lparr>cm_requiredSuites = [\<lparr>suiteId = ''core'', evidenceLayer = ProtocolConformance\<rparr>], cm_minStatus = Some Probed,
        cm_maxEvidenceAgeMs = Some 60000, cm_unknownEvidence = None, cm_degradedEvidence = Some Allow\<rparr>\<rparr>"

lemma sample_dto_clean: "clean_dto sample_dto"
proof -
  have h: "decimal (of_int n / 100)" if "\<bar>n\<bar> \<le> 2 ^ 64" for n by (rule decimal_hundredths [OF that])
  have "decimal 200000" "decimal (3 / 20)" "decimal (11 / 20)" "decimal (1 / 4)" "decimal (1 / 10)" "decimal (1 / 2)" "decimal 60000"
    using h [of 20000000] h [of 15] h [of 55] h [of 25] h [of 10] h [of 50] h [of 6000000] by simp_all
  moreover have "list_all (\<lambda>s. trim s = s \<and> s \<noteq> []) [''fast'', ''openai'', ''gpt-5'', ''anthropic'', ''opus'', ''high'', ''core'']" by code_simp
  ultimately show ?thesis
    by (simp add: clean_dto_def sample_dto_def clean_requirement_def clean_compatibility_def clean_text_def)
qed

theorem profile_roundtrip_witness:
  "profile_in ''policy/fast'' ''r1'' (routingProfilePutBody (fst (routingProfileDraftFromDto sample_dto 3)) Update (Some ''r1'')) = explicit_dto sample_dto
   \<and> pd_icon (explicit_dto sample_dto) = Some ''flash''"
proof -
  obtain d m where dm: "routingProfileDraftFromDto sample_dto 3 = (d, m)" by (cases "routingProfileDraftFromDto sample_dto 3")
  have "pd_icon (explicit_dto sample_dto) = Some ''flash''" by code_simp
  then show ?thesis
    using profile_roundtrip [OF sample_dto_clean dm, of Update "Some ''r1''"] dm by (simp add: sample_dto_def)
qed

lemma offer_rows_result:
  "set (offer_rows cs offered) = {c \<in> set cs. mo_id c \<notin> set (offered (mo_provider c))} \<and> distinct (offer_rows cs offered)"
proof (induction cs arbitrary: offered)
  case (Cons c cs)
  define o' where "o' = offered(mo_provider c := List.insert (mo_id c) (offered (mo_provider c)))"
  have o': "set (o' q) = (if q = mo_provider c then insert (mo_id c) (set (offered q)) else set (offered q))" for q
    by (simp add: o'_def)
  have eq: "e = c \<longleftrightarrow> mo_provider e = mo_provider c \<and> mo_id e = mo_id c" for e :: model_option by auto
  have step: "offer_rows (c # cs) offered = (if mo_id c \<notin> set (offered (mo_provider c)) then [c] else []) @ offer_rows cs o'"
    by (simp add: offerOnce_def o'_def)
  have rest: "e \<in> set (offer_rows cs o') \<longleftrightarrow> e \<in> set cs \<and> mo_id e \<notin> set (offered (mo_provider e)) \<and> e \<noteq> c" for e
    using Cons.IH [of o'] eq [of e] by (auto simp: o')
  have "set (offer_rows (c # cs) offered) = {e \<in> set (c # cs). mo_id e \<notin> set (offered (mo_provider e))}"
    unfolding step using rest by auto
  moreover have "distinct (offer_rows (c # cs) offered)"
    unfolding step using rest Cons.IH [of o'] by auto
  ultimately show ?case by blast
qed simp

lemma in_map_filter: "y \<in> set (List.map_filter f xs) \<longleftrightarrow> (\<exists>x \<in> set xs. f x = Some y)"
  by (induction xs) (auto simp: map_filter_simps split: option.split)

lemma option_order_comparator: "collation collate \<Longrightarrow> comparator (option_order collate) (\<lambda>_. True)"
proof -
  assume "collation collate"
  moreover have "option_order collate = (\<lambda>l r. if collate (mo_provider l) (mo_provider r) \<noteq> 0
      then collate (mo_provider l) (mo_provider r) else collate (mo_id l) (mo_id r))"
    by (intro ext) (simp add: option_order_def Let_def)
  ultimately show ?thesis using collation.then_by [of collate mo_provider mo_id] by simp
qed

lemma coerced_model:
  assumes "\<exists>m \<in> set models. mo_provider m = dc_provider c"
  shows "\<exists>m \<in> set models. mo_provider m = dc_provider c \<and> mo_id m = dc_model (coerce_candidate collate models c)"
proof -
  let ?off = "filter (\<lambda>m. mo_provider m = dc_provider c) models"
  have "?off \<noteq> []" using assms by (simp add: filter_empty_conv)
  show ?thesis
  proof (cases "list_ex (\<lambda>m. mo_id m = dc_model c) ?off")
    case True
    then show ?thesis by (auto simp: coerce_candidate_def list_ex_iff)
  next
    case False
    have "sort_by collate (map mo_id ?off) \<noteq> []" using \<open>?off \<noteq> []\<close> by (metis length_0_conv length_map length_sort_by)
    then have "hd (sort_by collate (map mo_id ?off)) \<in> set (map mo_id ?off)" by (metis hd_in_set set_sort_by)
    with False \<open>?off \<noteq> []\<close> show ?thesis by (auto simp: coerce_candidate_def)
  qed
qed

lemma coerce_frame:
  "dc_provider (coerce_candidate collate models c) = dc_provider c" "dc_key (coerce_candidate collate models c) = dc_key c"
  "(\<forall>m \<in> set models. mo_provider m \<noteq> dc_provider c) \<or> (\<exists>m \<in> set models. mo_provider m = dc_provider c \<and> mo_id m = dc_model c)
     \<Longrightarrow> coerce_candidate collate models c = c"
  by (auto simp: coerce_candidate_def Let_def filter_empty_conv list_ex_iff)

lemma coerced_draft:
  "\<exists>d'. draftCoercedToModels collate (Some d) models = Some d'
    \<and> map dc_key (df_candidates d') = map dc_key (df_candidates d)
    \<and> map dc_provider (df_candidates d') = map dc_provider (df_candidates d)
    \<and> list_all2 (\<lambda>c c'.
         if \<exists>m \<in> set models. mo_provider m = dc_provider c
         then (\<exists>m \<in> set models. mo_provider m = dc_provider c \<and> mo_id m = dc_model c')
           \<and> ((\<exists>m \<in> set models. mo_provider m = dc_provider c \<and> mo_id m = dc_model c) \<longrightarrow> c' = c)
         else c' = c) (df_candidates d) (df_candidates d')"
proof -
  have 4: "\<exists>d'. draftCoercedToModels collate (Some d) models = Some d'
      \<and> df_candidates d' = map (coerce_candidate collate models) (df_candidates d)"
  proof (cases "models = []")
    case True
    then have "coerce_candidate collate models c = c" for c by (simp add: coerce_candidate_def)
    with True show ?thesis by (simp add: draftCoercedToModels_def map_idI)
  qed (auto simp: draftCoercedToModels_def Let_def)
  have 5: "if \<exists>m \<in> set models. mo_provider m = dc_provider c
           then (\<exists>m \<in> set models. mo_provider m = dc_provider c \<and> mo_id m = dc_model (coerce_candidate collate models c))
             \<and> ((\<exists>m \<in> set models. mo_provider m = dc_provider c \<and> mo_id m = dc_model c) \<longrightarrow> coerce_candidate collate models c = c)
           else coerce_candidate collate models c = c" for c
    using coerced_model [of models c collate] coerce_frame(3) [of models c collate] by auto
  obtain d' where d': "draftCoercedToModels collate (Some d) models = Some d'"
    "df_candidates d' = map (coerce_candidate collate models) (df_candidates d)" using 4 by blast
  show ?thesis by (intro exI [of _ d'] conjI) (use d' 5 in \<open>simp_all add: coerce_frame list_all2_conv_all_nth\<close>)
qed

interpretation unit_order: collation code_unit_order
  by unfold_locales (auto simp: code_unit_order_def split: if_splits)

text \<open>The editor offers exactly the models it may, and keeps its draft inside them. A candidate is offered once,
  in the order of provider and id, precisely when a row of the live catalog or the stored list of an
  enabled provider names it, its provider is not one of the router's own, and no spelling of it is
  disabled. Reconciling a draft with that list keeps every candidate's place, key and provider; a
  candidate whose provider offers models ends up naming one of them, and is left alone when it
  already does or when its provider offers none.\<close>

theorem editor_offers_exact:
  assumes "collation collate"
  shows "(let ms = mergeRoutingModels collate payload ps in
      distinct ms \<and> sorted_wrt (\<lambda>a b. option_order collate a b \<le> 0) ms
      \<and> (\<forall>c. c \<in> set ms \<longleftrightarrow>
           ((\<exists>row \<in> set (modelRowsOf payload). candidateOf row = Some c) \<or> c \<in> set (stored_candidates ps))
           \<and> offerable (disabledModelIds payload) c))
    \<and> (\<forall>models d. \<exists>d'. draftCoercedToModels collate (Some d) models = Some d'
      \<and> map dc_key (df_candidates d') = map dc_key (df_candidates d)
      \<and> map dc_provider (df_candidates d') = map dc_provider (df_candidates d)
      \<and> list_all2 (\<lambda>c c'.
           if \<exists>m \<in> set models. mo_provider m = dc_provider c
           then (\<exists>m \<in> set models. mo_provider m = dc_provider c \<and> mo_id m = dc_model c')
             \<and> ((\<exists>m \<in> set models. mo_provider m = dc_provider c \<and> mo_id m = dc_model c) \<longrightarrow> c' = c)
           else c' = c) (df_candidates d) (df_candidates d'))"
proof -
  let ?named = "List.map_filter candidateOf (modelRowsOf payload) @ stored_candidates ps"
  let ?ms = "mergeRoutingModels collate payload ps"
  have ms: "?ms = sort_by (option_order collate) (offer_rows (filter (offerable (disabledModelIds payload)) ?named) (\<lambda>_. []))"
    by (simp only: mergeRoutingModels_def Let_def)
  have 1: "distinct ?ms"
  proof -
    have "distinct (sort_by cmp xs) = distinct xs" for cmp and xs :: "model_option list" using distinct_sort_by [of id] by simp
    then show ?thesis unfolding ms using offer_rows_result by blast
  qed
  have 2: "sorted_wrt (\<lambda>a b. option_order collate a b \<le> 0) ?ms"
    unfolding ms by (rule comparator.sorted_sort_by [OF option_order_comparator [OF assms]]) (simp add: list_all_iff)
  have 3: "c \<in> set ?ms \<longleftrightarrow> ((\<exists>row \<in> set (modelRowsOf payload). candidateOf row = Some c) \<or> c \<in> set (stored_candidates ps))
      \<and> offerable (disabledModelIds payload) c" for c
    unfolding ms set_sort_by using offer_rows_result [of "filter (offerable (disabledModelIds payload)) ?named" "\<lambda>_. []"]
    by (auto simp: in_map_filter)
  from 1 2 3 coerced_draft show ?thesis unfolding Let_def by blast
qed

theorem editor_offers_exact_witness:
  "\<lparr>mo_provider = ''openai'', mo_id = ''gpt-5''\<rparr> \<in> set (mergeRoutingModels code_unit_order
      (JArr [JObj [(''provider'', JStr ''openai''), (''id'', JStr '' gpt-5 '')], JObj [(''provider'', JStr ''openai''), (''id'', JStr ''old''), (''disabled'', JBool True)]])
      [(''openai'', \<lparr>pc_disabled = False, pc_defaultModel = None, pc_models = Some (JArr [JStr ''gpt-5'', JStr ''old''])\<rparr>)])"
proof -
  let ?payload = "JArr [JObj [(''provider'', JStr ''openai''), (''id'', JStr '' gpt-5 '')], JObj [(''provider'', JStr ''openai''), (''id'', JStr ''old''), (''disabled'', JBool True)]]"
  have rows: "JObj [(''provider'', JStr ''openai''), (''id'', JStr '' gpt-5 '')] \<in> set (modelRowsOf ?payload)" by (simp add: modelRowsOf_def)
  have c: "candidateOf (JObj [(''provider'', JStr ''openai''), (''id'', JStr '' gpt-5 '')]) = Some \<lparr>mo_provider = ''openai'', mo_id = ''gpt-5''\<rparr>" by code_simp
  have o: "offerable (disabledModelIds ?payload) \<lparr>mo_provider = ''openai'', mo_id = ''gpt-5''\<rparr>" by code_simp
  from editor_offers_exact [OF unit_order.collation_axioms, of ?payload] rows c o show ?thesis unfolding Let_def by blast
qed

end
