(* ===== verification/Subagent_Roster.thy ===== *)
theory Subagent_Roster
  imports Benes_Prelude "HOL-Library.Multiset"
begin

text \<open>
  \<^verbatim>\<open>gui/src/components/subagents-workspace/roster.ts\<close>, \<^verbatim>\<open>gui/src/pages/subagents-chosen-persist.ts\<close> and
  \<^verbatim>\<open>gui/src/pages/use-subagents-roster-persist.ts\<close>: the roster of sub-agents. The first group is the roles and
  the order of the roster, the second the geometry of dragging a row, the third the saving of the
  featured models as a step relation in which writes are answered in any order. Coordinates are
  rationals and positions natural numbers.
\<close>

section \<open>Roles and order\<close>

definition FEATURED_MAX :: nat where
  "FEATURED_MAX = 5"

datatype subagent_role = Featured | FirstCall | Fallback | Unassigned
datatype role_choice = AssignedChoice | FallbackChoice | UnassignedChoice

definition ROLE_CHOICES :: "role_choice list" where
  "ROLE_CHOICES = [AssignedChoice, FallbackChoice, UnassignedChoice]"

fun roleChoiceOf :: "subagent_role \<Rightarrow> role_choice" where
  "roleChoiceOf Fallback = FallbackChoice"
| "roleChoiceOf Unassigned = UnassignedChoice"
| "roleChoiceOf _ = AssignedChoice"

fun roleFromChoice :: "role_choice \<Rightarrow> subagent_role \<Rightarrow> subagent_role" where
  "roleFromChoice AssignedChoice current = (if current = FirstCall then FirstCall else Featured)"
| "roleFromChoice FallbackChoice _ = Fallback"
| "roleFromChoice UnassignedChoice _ = Unassigned"

definition providerOf :: "string \<Rightarrow> string" where
  "providerOf i =
     (let slash = length (takeWhile (\<lambda>c. c \<noteq> CHR ''/'') i)
      in if CHR ''/'' \<in> set i \<and> 0 < slash then take slash i else i)"

definition roleOf :: "string \<Rightarrow> string list \<Rightarrow> string \<Rightarrow> string list \<Rightarrow> subagent_role" where
  "roleOf i chosen firstCall fallbacks =
     (if firstCall = i then FirstCall
      else if i \<in> set chosen then Featured
      else if i \<in> set fallbacks then Fallback else Unassigned)"

definition rosterIds :: "string list \<Rightarrow> string list \<Rightarrow> string list" where
  "rosterIds chosen fallbacks = chosen @ filter (\<lambda>i. i \<notin> set chosen) fallbacks"

definition reconcileOrder :: "string list \<Rightarrow> string list \<Rightarrow> string list \<Rightarrow> string list" where
  "reconcileOrder prev chosen fallbacks =
     (let members = rosterIds chosen fallbacks; kept = filter (\<lambda>i. i \<in> set members) prev
      in kept @ filter (\<lambda>i. i \<notin> set kept) members)"

definition availableIds :: "string list \<Rightarrow> string list \<Rightarrow> string list" where
  "availableIds catalog roster = filter (\<lambda>i. i \<notin> set roster) catalog"

definition moveToIndex :: "string list \<Rightarrow> string \<Rightarrow> int \<Rightarrow> string list" where
  "moveToIndex ids i index =
     (if i \<notin> set ids then ids
      else let next = remove1 i ids; to = nat (max 0 (min (int (length next)) index))
           in take to next @ i # drop to next)"

definition splitRosterOrder :: "string list \<Rightarrow> string list \<Rightarrow> string list \<Rightarrow> string list \<times> string list" where
  "splitRosterOrder order chosenSet fallbackSet =
     (filter (\<lambda>i. i \<in> set chosenSet) order, filter (\<lambda>i. i \<in> set fallbackSet \<and> i \<notin> set chosenSet) order)"

record roster =
  ro_chosen :: "string list"
  ro_fallbacks :: "string list"
  ro_firstCall :: string

definition applyRole :: "string \<Rightarrow> subagent_role \<Rightarrow> roster \<Rightarrow> roster" where
  "applyRole i role r =
     (let chosen = ro_chosen r; fallbacks = ro_fallbacks r; firstCall = ro_firstCall r;
          inChosen = (i \<in> set chosen)
      in if role \<in> {Featured, FirstCall} \<and> \<not> inChosen \<and> FEATURED_MAX \<le> length chosen
         then if role = FirstCall
              then \<lparr>ro_chosen = chosen, ro_fallbacks = filter (\<lambda>x. x \<noteq> i) fallbacks, ro_firstCall = i\<rparr>
              else r
         else let nextChosen = filter (\<lambda>x. x \<noteq> i) chosen;
                  nextFallbacks = filter (\<lambda>x. x \<noteq> i) fallbacks;
                  nextFirst = (if firstCall = i then [] else firstCall)
              in if role \<in> {Featured, FirstCall}
                 then \<lparr>ro_chosen = (if inChosen then chosen else nextChosen @ [i]), ro_fallbacks = nextFallbacks,
                       ro_firstCall = (if role = FirstCall then i else nextFirst)\<rparr>
                 else if role = Fallback
                 then \<lparr>ro_chosen = nextChosen, ro_fallbacks = nextFallbacks @ [i], ro_firstCall = nextFirst\<rparr>
                 else \<lparr>ro_chosen = nextChosen, ro_fallbacks = nextFallbacks, ro_firstCall = nextFirst\<rparr>)"

definition effortLabel :: "string \<Rightarrow> string" where
  "effortLabel v = (case v of [] \<Rightarrow> [] | c # s \<Rightarrow> to_upper_char c # s)"

section \<open>Dragging\<close>

text \<open>The loop over the rows; \<open>i\<close> is the position of the first of the remaining rows and \<open>index\<close> the slot found so far.\<close>

fun insert_scan :: "rat \<Rightarrow> nat \<Rightarrow> (rat \<times> rat) list \<Rightarrow> nat \<Rightarrow> nat \<Rightarrow> nat" where
  "insert_scan clientY fromIndex [] i index = index"
| "insert_scan clientY fromIndex ((upper, lower) # rows) i index =
     (if i = fromIndex then insert_scan clientY fromIndex rows (Suc i) index
      else if i < fromIndex \<and> clientY < lower then i
      else insert_scan clientY fromIndex rows (Suc i) (if fromIndex < i \<and> upper \<le> clientY then i else index))"

definition insertIndexFromY :: "rat \<Rightarrow> (rat \<times> rat) list \<Rightarrow> nat \<Rightarrow> nat" where
  "insertIndexFromY clientY rows fromIndex =
     (if rows = [] then 0 else insert_scan clientY fromIndex rows 0 (min fromIndex (length rows - 1)))"

definition reorderShiftY :: "nat \<Rightarrow> nat \<Rightarrow> nat \<Rightarrow> rat \<Rightarrow> rat" where
  "reorderShiftY fromIndex hoverIndex index height =
     (if fromIndex < hoverIndex \<and> fromIndex < index \<and> index \<le> hoverIndex then - height
      else if hoverIndex < fromIndex \<and> hoverIndex \<le> index \<and> index < fromIndex then height else 0)"

definition clampGhostY :: "rat \<Rightarrow> rat \<Rightarrow> rat \<Rightarrow> rat \<Rightarrow> rat" where
  "clampGhostY y boundTop boundBottom height =
     (let maxY = max boundTop (boundBottom - height) in max boundTop (min maxY y))"

definition scrollEdgeDelta :: "rat \<Rightarrow> rat \<Rightarrow> rat \<Rightarrow> rat \<Rightarrow> int \<Rightarrow> int" where
  "scrollEdgeDelta clientY boundTop boundBottom edgePx maxStep =
     (if boundBottom - boundTop \<le> edgePx * 2 then 0
      else if clientY \<le> boundTop + edgePx
      then - max 1 \<lceil>of_int maxStep * min 1 (max 0 ((boundTop + edgePx - clientY) / edgePx))\<rceil>
      else if boundBottom - edgePx \<le> clientY
      then max 1 \<lceil>of_int maxStep * min 1 (max 0 ((clientY - (boundBottom - edgePx)) / edgePx))\<rceil>
      else 0)"

definition shiftSlotsY :: "(rat \<times> rat) list \<Rightarrow> rat \<Rightarrow> (rat \<times> rat) list" where
  "shiftSlotsY slots scrollDelta =
     (if scrollDelta = 0 then slots else map (\<lambda>(upper, lower). (upper - scrollDelta, lower - scrollDelta)) slots)"

section \<open>Saving the featured models\<close>

definition clampFeaturedModels :: "string list \<Rightarrow> string list" where
  "clampFeaturedModels models = take FEATURED_MAX models"

text \<open>
  The page's list, the generation of the newest save, the in-flight flag, the list last handed to the
  session cache, and the saves that were not answered yet with what they sent. An answer that
  throws is \<^term>\<open>None\<close>; a successful one carries the list the listener applied, if it says so. The toast
  and the reload after a failure are counted.
\<close>

record roster_page =
  pg_chosen :: "string list"
  pg_generation :: nat
  pg_inFlight :: bool
  pg_cache :: "string list option"
  pg_pending :: "(nat \<times> string list) list"
  pg_reloads :: nat

definition open_page :: "string list \<Rightarrow> roster_page" where
  "open_page chosen = \<lparr>pg_chosen = chosen, pg_generation = 0, pg_inFlight = False, pg_cache = None, pg_pending = [], pg_reloads = 0\<rparr>"

definition persist_begins :: "string list \<Rightarrow> roster_page \<Rightarrow> roster_page" where
  "persist_begins models p =
     (let next = take FEATURED_MAX models; gen = pg_generation p + 1
      in p\<lparr>pg_generation := gen, pg_inFlight := True, pg_cache := Some next, pg_pending := pg_pending p @ [(gen, next)]\<rparr>)"

definition persist_settles :: "nat \<times> string list \<Rightarrow> string list option option \<Rightarrow> roster_page \<Rightarrow> roster_page" where
  "persist_settles w answer p0 =
     (let p = p0\<lparr>pg_pending := remove1 w (pg_pending p0)\<rparr>
      in if fst w \<noteq> pg_generation p then p
         else case answer of
                Some body \<Rightarrow>
                  (let applied = (case body of None \<Rightarrow> snd w | Some ms \<Rightarrow> ms)
                   in p\<lparr>pg_chosen := applied, pg_cache := Some applied, pg_inFlight := False\<rparr>)
              | None \<Rightarrow> p\<lparr>pg_inFlight := False, pg_reloads := pg_reloads p + 1\<rparr>)"

definition reorder :: "string list \<Rightarrow> roster_page \<Rightarrow> roster_page" where
  "reorder models p = (let next = take FEATURED_MAX models in persist_begins next (p\<lparr>pg_chosen := next\<rparr>))"

inductive roster_step :: "roster_page \<Rightarrow> roster_page \<Rightarrow> bool" where
  step_reorder: "roster_step p (reorder models p)"
| step_persist: "roster_step p (persist_begins models p)"
| step_settles: "w \<in> set (pg_pending p) \<Longrightarrow> roster_step p (persist_settles w answer p)"

section \<open>Order\<close>

definition wf_roster :: "roster \<Rightarrow> bool" where
  "wf_roster r \<longleftrightarrow> distinct (ro_chosen r) \<and> distinct (ro_fallbacks r) \<and> set (ro_chosen r) \<inter> set (ro_fallbacks r) = {}
     \<and> length (ro_chosen r) \<le> FEATURED_MAX"

lemma rosterIds_wf: "distinct c \<Longrightarrow> distinct f \<Longrightarrow> distinct (rosterIds c f) \<and> set (rosterIds c f) = set c \<union> set f"
  by (auto simp: rosterIds_def)

lemma reconcileOrder_wf:
  assumes "distinct prev" "distinct c" "distinct f"
  shows "distinct (reconcileOrder prev c f)" "set (reconcileOrder prev c f) = set c \<union> set f"
    "prefix (filter (\<lambda>i. i \<in> set c \<union> set f) prev) (reconcileOrder prev c f)"
  using assms rosterIds_wf [of c f] by (auto simp: reconcileOrder_def Let_def)

lemma moveToIndex_mset: "mset (moveToIndex ids i index) = mset ids"
proof (cases "i \<in> set ids")
  case True
  let ?n = "remove1 i ids" and ?t = "nat (max 0 (min (int (length (remove1 i ids))) index))"
  have "mset (take ?t ?n) + mset (drop ?t ?n) = mset ids - {#i#}"
    by (metis append_take_drop_id mset_append mset_remove1)
  then show ?thesis using True by (simp add: moveToIndex_def Let_def)
qed (simp add: moveToIndex_def)

lemma moveToIndex_place:
  assumes "i \<in> set ids" "0 \<le> index"
  shows "moveToIndex ids i index ! min (nat index) (length ids - 1) = i"
    and "distinct ids \<Longrightarrow> filter (\<lambda>x. x \<noteq> i) (moveToIndex ids i index) = filter (\<lambda>x. x \<noteq> i) ids"
proof -
  let ?n = "remove1 i ids" and ?t = "nat (max 0 (min (int (length (remove1 i ids))) index))"
  have len: "length ?n = length ids - 1" using assms(1) by (simp add: length_remove1)
  then have t: "?t = min (nat index) (length ids - 1)" using assms(2) by linarith
  have "length (take ?t ?n) = ?t" using t len by simp
  then show "moveToIndex ids i index ! min (nat index) (length ids - 1) = i"
    using assms(1) t by (simp add: moveToIndex_def Let_def nth_append)
  assume "distinct ids"
  then have n: "?n = filter (\<lambda>x. x \<noteq> i) ids" by (rule distinct_remove1_removeAll [THEN trans]) (simp add: removeAll_filter_not_eq eq_commute)
  have "filter (\<lambda>x. x \<noteq> i) (take ?t ?n) @ filter (\<lambda>x. x \<noteq> i) (drop ?t ?n) = filter (\<lambda>x. x \<noteq> i) ?n"
    by (metis append_take_drop_id filter_append)
  then show "filter (\<lambda>x. x \<noteq> i) (moveToIndex ids i index) = filter (\<lambda>x. x \<noteq> i) ids"
    using assms(1) n by (simp add: moveToIndex_def Let_def)
qed

lemma split_reconciled:
  assumes "wf_roster r" "distinct prev"
  shows "case splitRosterOrder (reconcileOrder prev (ro_chosen r) (ro_fallbacks r)) (ro_chosen r) (ro_fallbacks r) of
    (c, f) \<Rightarrow> mset c = mset (ro_chosen r) \<and> mset f = mset (ro_fallbacks r)"
proof -
  let ?o = "reconcileOrder prev (ro_chosen r) (ro_fallbacks r)"
  have wf: "distinct (ro_chosen r)" "distinct (ro_fallbacks r)" "set (ro_chosen r) \<inter> set (ro_fallbacks r) = {}"
    using assms(1) by (simp_all add: wf_roster_def)
  note o = reconcileOrder_wf [OF assms(2) wf(1,2)]
  have "mset (filter (\<lambda>i. i \<in> set (ro_chosen r)) ?o) = mset (ro_chosen r)"
    by (rule set_eq_iff_mset_eq_distinct [THEN iffD1]) (use o wf in auto)
  moreover have "mset (filter (\<lambda>i. i \<in> set (ro_fallbacks r) \<and> i \<notin> set (ro_chosen r)) ?o) = mset (ro_fallbacks r)"
    by (rule set_eq_iff_mset_eq_distinct [THEN iffD1]) (use o wf in auto)
  ultimately show ?thesis by (simp add: splitRosterOrder_def)
qed

section \<open>Dragging stays in bounds\<close>

lemma insert_scan_bound: "index < n \<Longrightarrow> i + length rows \<le> n \<Longrightarrow> insert_scan y from rows i index < n"
  by (induction y "from" rows i index rule: insert_scan.induct) auto

lemma drag_in_bounds:
  "rows \<noteq> [] \<Longrightarrow> insertIndexFromY y rows from < length rows"
  "boundTop \<le> clampGhostY y boundTop boundBottom height"
  "boundTop + height \<le> boundBottom \<Longrightarrow> clampGhostY y boundTop boundBottom height + height \<le> boundBottom"
proof -
  show "insertIndexFromY y rows from < length rows" if "rows \<noteq> []"
  proof -
    have "min from (length rows - 1) < length rows" using that by (cases rows) auto
    with that show ?thesis by (simp add: insertIndexFromY_def insert_scan_bound)
  qed
qed (simp_all add: clampGhostY_def Let_def min_def max_def)

lemma scroll_in_bounds:
  assumes "1 \<le> maxStep"
  shows "\<bar>scrollEdgeDelta y boundTop boundBottom edgePx maxStep\<bar> \<le> maxStep"
proof -
  have "\<lceil>of_int maxStep * min 1 (max 0 q)\<rceil> \<le> maxStep" for q :: rat
  proof -
    have "of_int maxStep * min 1 (max 0 q) \<le> of_int maxStep * 1" using assms by (intro mult_left_mono) auto
    then show ?thesis by (simp add: ceiling_le_iff)
  qed
  then show ?thesis using assms by (auto simp: scrollEdgeDelta_def abs_le_iff)
qed

section \<open>The page\<close>

definition page_ok :: "roster_page \<Rightarrow> bool" where
  "page_ok p \<longleftrightarrow> (pg_inFlight p \<longleftrightarrow> (\<exists>ms. (pg_generation p, ms) \<in> set (pg_pending p)))
     \<and> distinct (map fst (pg_pending p)) \<and> (\<forall>w \<in> set (pg_pending p). fst w \<le> pg_generation p \<and> length (snd w) \<le> FEATURED_MAX)"

lemma page_ok_begins:
  assumes "page_ok p"
  shows "page_ok (persist_begins models p)"
proof -
  have "pg_generation p + 1 \<notin> set (map fst (pg_pending p))" using assms by (fastforce simp: page_ok_def)
  with assms show ?thesis by (auto simp: page_ok_def persist_begins_def Let_def)
qed

lemma page_ok_settles:
  assumes "page_ok p" "w \<in> set (pg_pending p)"
  shows "page_ok (persist_settles w answer p)"
proof -
  have d: "distinct (pg_pending p)" using assms(1) by (auto simp: page_ok_def distinct_map)
  have rest: "set (remove1 w (pg_pending p)) = set (pg_pending p) - {w}" using d by simp
  have "inj_on fst (set (pg_pending p))" using assms(1) by (simp add: page_ok_def distinct_map)
  then have uniq: "v = w" if "v \<in> set (pg_pending p)" "fst v = fst w" for v using that assms(2) by (auto dest: inj_onD)
  have "distinct (map fst (remove1 w (pg_pending p)))"
    using assms(1) by (auto simp: page_ok_def distinct_map distinct_remove1 intro: inj_on_subset)
  moreover have "(\<exists>ms. (pg_generation p, ms) \<in> set (pg_pending p) - {w}) \<longleftrightarrow>
      fst w \<noteq> pg_generation p \<and> (\<exists>ms. (pg_generation p, ms) \<in> set (pg_pending p))"
    using uniq assms(2) by (metis Diff_iff fst_conv singletonD singletonI surjective_pairing)
  ultimately show ?thesis
    using assms(1) rest by (auto simp: page_ok_def persist_settles_def Let_def split: option.split)
qed

interpretation roster_saving: machine "\<lambda>p. \<exists>chosen. p = open_page chosen" roster_step page_ok
proof
  show "page_ok t" if "page_ok s" "roster_step s t" for s t
    using that(2)
  proof cases
    case (step_reorder models)
    have "page_ok (s\<lparr>pg_chosen := take FEATURED_MAX models\<rparr>)" using that(1) by (simp add: page_ok_def)
    then show ?thesis unfolding step_reorder reorder_def Let_def by (rule page_ok_begins)
  qed (use that(1) page_ok_begins page_ok_settles in blast)+
qed (auto simp: open_page_def page_ok_def)

section \<open>Properties\<close>

text \<open>Giving a sub-agent a role does to the roles exactly what it says. On a well-formed roster (no
  duplicates, no model both featured and a fallback, at most five featured) the named model gets the
  role, unless it asks for a sixth featured place, in which case nothing changes; every other model
  keeps its role, except that the previous first call falls back to the list it is in. The roster
  stays well-formed, and putting it into any earlier order neither loses nor adds a model.\<close>

theorem roster_roles_exact:
  assumes "wf_roster r" "i \<noteq> []"
  shows "let r' = applyRole i role r; before = (\<lambda>j. roleOf j (ro_chosen r) (ro_firstCall r) (ro_fallbacks r));
       after = (\<lambda>j. roleOf j (ro_chosen r') (ro_firstCall r') (ro_fallbacks r'))
     in wf_roster r'
      \<and> (if role = Featured \<and> i \<notin> set (ro_chosen r) \<and> length (ro_chosen r) = FEATURED_MAX then r' = r
         else after i = role
           \<and> (\<forall>j. j \<noteq> i \<and> j \<noteq> [] \<longrightarrow> after j = (if role = FirstCall \<and> ro_firstCall r = j
                then roleOf j (ro_chosen r) [] (ro_fallbacks r) else before j)))
      \<and> (\<forall>prev. distinct prev \<longrightarrow>
           (case splitRosterOrder (reconcileOrder prev (ro_chosen r') (ro_fallbacks r')) (ro_chosen r') (ro_fallbacks r') of
              (c, f) \<Rightarrow> mset c = mset (ro_chosen r') \<and> mset f = mset (ro_fallbacks r')))"
proof -
  have wf: "wf_roster (applyRole i role r)"
  proof -
    have "length (filter (\<lambda>x. x \<noteq> i) (ro_chosen r)) \<le> m" if "length (ro_chosen r) \<le> m" for m
      using that by (rule le_trans [OF length_filter_le])
    moreover from this have "Suc (length (filter (\<lambda>x. x \<noteq> i) (ro_chosen r))) \<le> m" if "\<not> m \<le> length (ro_chosen r)" for m
      using that by (metis Suc_leI length_filter_le less_le_trans not_le order.strict_trans1)
    ultimately show ?thesis using assms(1) by (cases role) (auto simp: wf_roster_def applyRole_def Let_def)
  qed
  have full: "applyRole i Featured r = r" if "i \<notin> set (ro_chosen r)" "length (ro_chosen r) = FEATURED_MAX"
    using that by (simp add: applyRole_def)
  have "if role = Featured \<and> i \<notin> set (ro_chosen r) \<and> length (ro_chosen r) = FEATURED_MAX then applyRole i role r = r
     else roleOf i (ro_chosen (applyRole i role r)) (ro_firstCall (applyRole i role r)) (ro_fallbacks (applyRole i role r)) = role
       \<and> (\<forall>j. j \<noteq> i \<and> j \<noteq> [] \<longrightarrow>
            roleOf j (ro_chosen (applyRole i role r)) (ro_firstCall (applyRole i role r)) (ro_fallbacks (applyRole i role r))
            = (if role = FirstCall \<and> ro_firstCall r = j then roleOf j (ro_chosen r) [] (ro_fallbacks r)
               else roleOf j (ro_chosen r) (ro_firstCall r) (ro_fallbacks r)))"
    using assms full by (cases role) (auto simp: wf_roster_def applyRole_def roleOf_def Let_def)
  with wf split_reconciled [OF wf] show ?thesis unfolding Let_def by blast
qed

definition full_roster :: roster where
  "full_roster = \<lparr>ro_chosen = [''a'', ''b'', ''c'', ''d'', ''e''], ro_fallbacks = [''f''], ro_firstCall = ''a''\<rparr>"

theorem roster_roles_exact_witness:
  "applyRole ''f'' Featured full_roster = full_roster
   \<and> roleOf ''f'' (ro_chosen (applyRole ''f'' FirstCall full_roster)) (ro_firstCall (applyRole ''f'' FirstCall full_roster))
        (ro_fallbacks (applyRole ''f'' FirstCall full_roster)) = FirstCall"
proof -
  have wf: "wf_roster full_roster" by code_simp
  have full: "''f'' \<notin> set (ro_chosen full_roster) \<and> length (ro_chosen full_roster) = FEATURED_MAX" by code_simp
  from roster_roles_exact [OF wf, of "''f''" Featured] full have 1: "applyRole ''f'' Featured full_roster = full_roster"
    unfolding Let_def by auto
  from roster_roles_exact [OF wf, of "''f''" FirstCall] have
    "roleOf ''f'' (ro_chosen (applyRole ''f'' FirstCall full_roster)) (ro_firstCall (applyRole ''f'' FirstCall full_roster))
        (ro_fallbacks (applyRole ''f'' FirstCall full_roster)) = FirstCall" unfolding Let_def by auto
  with 1 show ?thesis by blast
qed

text \<open>Only the newest save of the featured models speaks for the page. In every reachable state the page is
  busy exactly while its newest save is unanswered, no save sends more than five models, the answer
  to an older save changes neither the list, nor the cache, nor the busy flag; the answer to the
  newest one ends the wait and shows what the listener applied, or what was sent when it does not
  say; and a failure leaves the list for the reload it asks for.\<close>

theorem newest_roster_save_wins:
  assumes "reach (\<lambda>p. \<exists>chosen. p = open_page chosen) roster_step p" "w \<in> set (pg_pending p)"
  shows "(pg_inFlight p \<longleftrightarrow> (\<exists>ms. (pg_generation p, ms) \<in> set (pg_pending p)))
    \<and> length (snd w) \<le> FEATURED_MAX
    \<and> (let p' = persist_settles w answer p in
       if fst w < pg_generation p
       then pg_chosen p' = pg_chosen p \<and> pg_cache p' = pg_cache p \<and> pg_inFlight p' = pg_inFlight p \<and> pg_reloads p' = pg_reloads p
       else \<not> pg_inFlight p' \<and> (case answer of
              None \<Rightarrow> pg_chosen p' = pg_chosen p \<and> pg_reloads p' = pg_reloads p + 1
            | Some body \<Rightarrow> pg_chosen p' = (case body of None \<Rightarrow> snd w | Some ms \<Rightarrow> ms) \<and> pg_cache p' = Some (pg_chosen p')))"
proof -
  have ok: "page_ok p" by (rule roster_saving.reachable_inv [OF assms(1)])
  then have "fst w \<le> pg_generation p" "length (snd w) \<le> FEATURED_MAX"
    "pg_inFlight p \<longleftrightarrow> (\<exists>ms. (pg_generation p, ms) \<in> set (pg_pending p))" using assms(2) by (auto simp: page_ok_def)
  then show ?thesis by (auto simp: persist_settles_def Let_def split: option.split)
qed

theorem newest_roster_save_wins_witness:
  "pg_chosen (persist_settles (1, [''a'']) (Some None) (reorder [''b''] (reorder [''a''] (open_page [])))) = [''b'']"
proof -
  let ?p = "reorder [''b''] (reorder [''a''] (open_page []))"
  have "reach (\<lambda>p. \<exists>chosen. p = open_page chosen) roster_step ?p"
    by (rule reach_step, rule reach_step, rule reach_init, blast, rule step_reorder, rule step_reorder)
  moreover have "(1, [''a'']) \<in> set (pg_pending ?p)" by code_simp
  moreover have gen: "fst (1 :: nat, [''a'']) < pg_generation ?p" by code_simp
  ultimately have "pg_chosen (persist_settles (1, [''a'']) (Some None) ?p) = pg_chosen ?p"
    using newest_roster_save_wins [of ?p "(1, [''a''])" "Some None"] gen unfolding Let_def by simp
  then show ?thesis by (simp add: reorder_def persist_begins_def open_page_def FEATURED_MAX_def Let_def)
qed

end
