(* ===== verification/Account_Login.thy ===== *)
theory Account_Login
  imports App_Routing Account_Pool
begin

text \<open>
  \<^verbatim>\<open>gui/src/components/add-codex-account-reducer.ts\<close>, \<^verbatim>\<open>gui/src/lib/codex-account-oauth-decode.ts\<close> and
  \<^verbatim>\<open>gui/src/components/use-add-codex-account-oauth.ts\<close>: logging in to a Codex account from the dashboard. The
  first group is the dialog's reducer, the second the decisions taken from answers of the listener, the third
  the attempt record and the handlers that work on it. A handler is split where it awaits: the
  requests that are out (login posts, status reads, submitted codes) are part of the state, and each
  is answered by a step of its own, in any order. An abort controller is a number, aborted
  when it is in the list of aborted ones; the request it belongs to can then only be rejected. The
  requests the listener was sent, the flows it opened and the results handed to the
  dialog's owner are logged.
\<close>

section \<open>The dialog\<close>

datatype manual_code_status = Idle | Submitting | Awaiting
datatype notice_tone = ToneOk | ToneWarn

record add_account_notice =
  nt_message :: string
  nt_tone :: notice_tone

record authorization =
  au_accountId :: string
  au_error :: "string option"
  au_flowId :: "string option"
  au_authUrl :: string
  au_manualCode :: string
  au_manualCodeStatus :: manual_code_status
  au_notice :: "add_account_notice option"

datatype add_account_state = Choosing string "string option" | Authorizing authorization

datatype add_account_event =
    AccountIdChanged string
  | AuthorizationRequested
  | AuthorizationOpened "string option" string
  | AuthorizationFailed string
  | AuthorizationClosed
  | ReturnedToChoosing
  | ManualCodeChanged string
  | ManualCodeSubmitted
  | ManualCodeAwaiting
  | ManualCodeSubmitFailed string
  | ManualCodeReset
  | NoticeRaised add_account_notice
  | NoticeCleared

definition EMPTY_AUTHORIZATION :: "authorization \<Rightarrow> authorization" where
  "EMPTY_AUTHORIZATION a = a\<lparr>au_flowId := None, au_authUrl := [], au_manualCode := [], au_manualCodeStatus := Idle, au_notice := None\<rparr>"

definition new_authorization :: "string \<Rightarrow> authorization" where
  "new_authorization accountId = \<lparr>au_accountId = accountId, au_error = None, au_flowId = None, au_authUrl = [], au_manualCode = [],
     au_manualCodeStatus = Idle, au_notice = None\<rparr>"

definition initialAddAccountState :: "string option \<Rightarrow> add_account_state" where
  "initialAddAccountState reauthAccountId =
     (if reauthAccountId = None \<or> reauthAccountId = Some [] then Choosing [] None else Authorizing (new_authorization []))"

definition authorized :: "(authorization \<Rightarrow> authorization) \<Rightarrow> add_account_state \<Rightarrow> add_account_state" where
  "authorized f state = (case state of Choosing i e \<Rightarrow> Choosing i e | Authorizing a \<Rightarrow> Authorizing (f a))"

fun addAccountReducer :: "add_account_state \<Rightarrow> add_account_event \<Rightarrow> add_account_state" where
  "addAccountReducer (Choosing i e) (AccountIdChanged j) = Choosing j e"
| "addAccountReducer (Authorizing a) (AccountIdChanged j) = Authorizing (a\<lparr>au_accountId := j\<rparr>)"
| "addAccountReducer state AuthorizationRequested = authorized (\<lambda>a. EMPTY_AUTHORIZATION (a\<lparr>au_error := None\<rparr>)) state"
| "addAccountReducer (Choosing i e) (AuthorizationOpened flow url) =
     Authorizing ((new_authorization i)\<lparr>au_flowId := flow, au_authUrl := url\<rparr>)"
| "addAccountReducer (Authorizing a) (AuthorizationOpened flow url) =
     Authorizing (a\<lparr>au_flowId := flow, au_authUrl := url, au_error := None\<rparr>)"
| "addAccountReducer (Choosing i e) (AuthorizationFailed x) = Choosing i (Some x)"
| "addAccountReducer (Authorizing a) (AuthorizationFailed x) = Authorizing (a\<lparr>au_error := Some x\<rparr>)"
| "addAccountReducer state AuthorizationClosed = authorized (\<lambda>a. a\<lparr>au_flowId := None, au_authUrl := []\<rparr>) state"
| "addAccountReducer (Choosing i e) ReturnedToChoosing = Choosing i e"
| "addAccountReducer (Authorizing a) ReturnedToChoosing = Choosing (au_accountId a) (au_error a)"
| "addAccountReducer state (ManualCodeChanged c) = authorized (\<lambda>a. a\<lparr>au_manualCode := c\<rparr>) state"
| "addAccountReducer state ManualCodeSubmitted =
     authorized (\<lambda>a. a\<lparr>au_manualCodeStatus := Submitting, au_notice := None, au_error := None\<rparr>) state"
| "addAccountReducer state ManualCodeAwaiting =
     authorized (\<lambda>a. a\<lparr>au_manualCode := [], au_manualCodeStatus := Awaiting, au_notice := None, au_error := None\<rparr>) state"
| "addAccountReducer state (ManualCodeSubmitFailed x) = authorized (\<lambda>a. a\<lparr>au_manualCodeStatus := Idle, au_error := Some x\<rparr>) state"
| "addAccountReducer state ManualCodeReset =
     authorized (\<lambda>a. a\<lparr>au_manualCode := [], au_manualCodeStatus := Idle, au_notice := None\<rparr>) state"
| "addAccountReducer state (NoticeRaised n) = authorized (\<lambda>a. a\<lparr>au_notice := Some n\<rparr>) state"
| "addAccountReducer state NoticeCleared = authorized (\<lambda>a. a\<lparr>au_notice := None\<rparr>) state"

section \<open>Decisions\<close>

definition codexAuthLoginAccountId :: "string option \<Rightarrow> string option \<Rightarrow> string" where
  "codexAuthLoginAccountId reauthAccountId requestedId =
     (case reauthAccountId of Some i \<Rightarrow> i | None \<Rightarrow> (case requestedId of Some i \<Rightarrow> trim i | None \<Rightarrow> []))"

text \<open>The body of a login post: an account id and the re-authentication flag, each present or not.\<close>

record login_request =
  lr_id :: "string option"
  lr_reauth :: bool

definition given :: "string option \<Rightarrow> bool" where
  "given v \<longleftrightarrow> v \<noteq> None \<and> v \<noteq> Some []"

definition codexAuthLoginRequestBody :: "string option \<Rightarrow> string option \<Rightarrow> login_request" where
  "codexAuthLoginRequestBody reauthAccountId requestedId =
     (let accountId = codexAuthLoginAccountId reauthAccountId requestedId in
      if given reauthAccountId then \<lparr>lr_id = reauthAccountId, lr_reauth = True\<rparr>
      else \<lparr>lr_id = (if accountId = [] then None else Some accountId), lr_reauth = False\<rparr>)"

record login_response =
  re_url :: "string option"
  re_flowId :: "string option"
  re_error :: "string option"

datatype login_opened = Opened string "string option" | OpenError string | OpenNoop

definition decodeCodexAuthLoginOpened :: "login_response option \<Rightarrow> login_opened" where
  "decodeCodexAuthLoginOpened response =
     (case response of
        None \<Rightarrow> OpenNoop
      | Some r \<Rightarrow>
          if given (re_url r) then Opened (the (re_url r)) (re_flowId r)
          else if given (re_error r) then OpenError (the (re_error r)) else OpenNoop)"

datatype conflict_step = ConflictDead | ConflictRetry | AlreadyInProgress | ConflictContinue

definition decodeCodexAuthConflictStep :: "nat \<Rightarrow> bool \<Rightarrow> bool \<Rightarrow> nat option \<Rightarrow> conflict_step" where
  "decodeCodexAuthConflictStep firstStatus alive aborted retryStatus =
     (if firstStatus \<noteq> 409 then ConflictContinue
      else if \<not> alive \<or> aborted then ConflictDead
      else case retryStatus of None \<Rightarrow> ConflictRetry
           | Some s \<Rightarrow> if s = 409 then AlreadyInProgress else ConflictContinue)"

record login_status =
  ls_status :: string
  ls_error :: "string option"
  ls_document :: json

datatype poll_decision =
    PollAbort
  | PollMissing bool nat
  | PollInProgress bool nat
  | PollDone json
  | PollFailed "string option"

definition decodeCodexAuthPollTick :: "bool \<Rightarrow> bool \<Rightarrow> login_status option \<Rightarrow> nat \<Rightarrow> bool \<Rightarrow> poll_decision" where
  "decodeCodexAuthPollTick alive aborted status errorStreak manualCodeWaiting =
     (if \<not> alive \<or> aborted then PollAbort
      else case status of
             None \<Rightarrow> PollMissing (3 \<le> errorStreak + 1) (errorStreak + 1)
           | Some s \<Rightarrow>
               if ls_status s = ''done'' then PollDone (ls_document s)
               else if ls_status s = ''error'' \<or> ls_status s = ''expired'' then PollFailed (ls_error s)
               else PollInProgress manualCodeWaiting 0)"

definition decodeCodexAuthPollCatch :: "bool \<Rightarrow> bool \<Rightarrow> bool \<Rightarrow> nat \<Rightarrow> poll_decision" where
  "decodeCodexAuthPollCatch alive aborted isAbortError errorStreak =
     (if \<not> alive \<or> aborted \<or> isAbortError then PollAbort else PollMissing (3 \<le> errorStreak + 1) (errorStreak + 1))"

definition codexAuthManualCodeBlocked :: "string option \<Rightarrow> string \<Rightarrow> bool \<Rightarrow> bool \<Rightarrow> bool" where
  "codexAuthManualCodeBlocked flowId input busy waiting \<longleftrightarrow> \<not> given flowId \<or> input = [] \<or> busy \<or> waiting"

definition decodeCodexAuthManualCodeFailure :: "string option \<Rightarrow> string \<Rightarrow> string" where
  "decodeCodexAuthManualCodeFailure error statusText = (case error of Some e \<Rightarrow> e | None \<Rightarrow> statusText)"

definition decodeCodexAuthTimeoutApplies :: "bool \<Rightarrow> bool" where
  "decodeCodexAuthTimeoutApplies pollStillRunning = pollStillRunning"

definition decodeCodexAuthStartCatch :: "bool \<Rightarrow> bool \<Rightarrow> bool" where
  "decodeCodexAuthStartCatch alive isAbortError \<longleftrightarrow> alive \<and> \<not> isAbortError"

definition uri_safe :: "char \<Rightarrow> bool" where
  "uri_safe c \<longleftrightarrow> is_alnum c \<or> c \<in> set ''-_.!~*'' \<or> c = CHR 0x27 \<or> c \<in> set ''()''"

text \<open>\<^verbatim>\<open>encodeURIComponent\<close> on the bytes of a text, as \<^verbatim>\<open>form_char\<close> is for \<^verbatim>\<open>URLSearchParams\<close>.\<close>

definition encodeURIComponent_char :: "char \<Rightarrow> string" where
  "encodeURIComponent_char c =
     (if uri_safe c then [c] else [CHR ''%'', upper_hex (of_char c div 16), upper_hex (of_char c mod 16)])"

definition encodeURIComponent :: "string \<Rightarrow> string" where
  "encodeURIComponent s = concat (map encodeURIComponent_char s)"

definition codexAuthLoginStatusUrl :: "string \<Rightarrow> string option \<Rightarrow> string \<Rightarrow> string option \<Rightarrow> string" where
  "codexAuthLoginStatusUrl apiBase flowId accountId reauthAccountId =
     (let reauthQuery = (if given reauthAccountId then ''&reauth=1'' else []);
          fid = (case flowId of Some f \<Rightarrow> f | None \<Rightarrow> []);
          accountQuery = (if accountId = [] then [] else ''&accountId='' @ encodeURIComponent accountId)
      in if fid = [] then apiBase @ ''/api/codex-auth/login-status''
         else apiBase @ ''/api/codex-auth/login-status?flowId='' @ encodeURIComponent fid @ accountQuery @ reauthQuery)"

section \<open>The attempt\<close>

text \<open>A running poll is the closure \<^verbatim>\<open>watchFlow\<close> starts: its controller and the address it reads.\<close>

record login_attempt =
  at_alive :: bool
  at_flow :: "string option"
  at_manualCodePhase :: manual_code_status
  at_errorStreak :: nat
  at_pollInFlight :: bool
  at_stopPoll :: "(nat \<times> string) option"
  at_deadline :: "nat option"
  at_pollAbort :: "nat option"
  at_loginAbort :: "nat option"

definition createLoginAttempt :: login_attempt where
  "createLoginAttempt = \<lparr>at_alive = True, at_flow = None, at_manualCodePhase = Idle, at_errorStreak = 0, at_pollInFlight = False,
     at_stopPoll = None, at_deadline = None, at_pollAbort = None, at_loginAbort = None\<rparr>"

record attempt_context =
  cx_apiBase :: string
  cx_reauthAccountId :: "string option"
  cx_t :: "string \<Rightarrow> string"
  cx_tError :: "string \<Rightarrow> string \<Rightarrow> string"

datatype login_traffic =
    LoginPost login_request
  | CancelPost "string option"
  | StatusGet string
  | CodePost string string

text \<open>Where \<^verbatim>\<open>requestLogin\<close> waits: for its first post, for the cancel that follows a conflict, for its retry.\<close>

datatype login_stage = FirstPost | Cancelling | Retrying

record login_call =
  lc_controller :: nat
  lc_stage :: login_stage
  lc_requestedId :: "string option"

record login_hook =
  lh_dialog :: add_account_state
  lh_attempt :: login_attempt
  lh_startedReauth :: bool
  lh_next :: nat
  lh_aborted :: "nat set"
  lh_logins :: "login_call list"
  lh_ticks :: "nat list"
  lh_codes :: "string list"
  lh_traffic :: "login_traffic list"
  lh_opened :: "string option list"
  lh_ended :: "string option list"
  lh_added :: "bool list"
  lh_closed :: nat

definition dispatch :: "add_account_event \<Rightarrow> login_hook \<Rightarrow> login_hook" where
  "dispatch e h = h\<lparr>lh_dialog := addAccountReducer (lh_dialog h) e\<rparr>"

definition set_attempt :: "(login_attempt \<Rightarrow> login_attempt) \<Rightarrow> login_hook \<Rightarrow> login_hook" where
  "set_attempt f h = h\<lparr>lh_attempt := f (lh_attempt h)\<rparr>"

definition post :: "login_traffic \<Rightarrow> login_hook \<Rightarrow> login_hook" where
  "post r h = h\<lparr>lh_traffic := lh_traffic h @ [r]\<rparr>"

definition abort :: "nat option \<Rightarrow> login_hook \<Rightarrow> login_hook" where
  "abort c h = h\<lparr>lh_aborted := lh_aborted h \<union> set_option c\<rparr>"

definition haltPolling :: "login_hook \<Rightarrow> login_hook" where
  "haltPolling h = set_attempt (\<lambda>a. a\<lparr>at_stopPoll := None, at_deadline := None, at_pollAbort := None, at_pollInFlight := False\<rparr>)
     (abort (at_pollAbort (lh_attempt h)) h)"

definition resetManualCode :: "login_hook \<Rightarrow> login_hook" where
  "resetManualCode h = set_attempt (\<lambda>a. a\<lparr>at_errorStreak := 0\<rparr>) (dispatch ManualCodeReset h)"

definition abandonFlow :: "string option \<Rightarrow> login_hook \<Rightarrow> login_hook" where
  "abandonFlow flow h = post (CancelPost flow) h"

definition abort_login :: "login_hook \<Rightarrow> login_hook" where
  "abort_login h = set_attempt (\<lambda>a. a\<lparr>at_loginAbort := None\<rparr>) (abort (at_loginAbort (lh_attempt h)) h)"

definition cancelLogin :: "login_hook \<Rightarrow> login_hook" where
  "cancelLogin h =
     (let h1 = resetManualCode h;
          flow = at_flow (lh_attempt h1);
          h2 = abort_login (haltPolling (dispatch AuthorizationClosed (set_attempt (\<lambda>a. a\<lparr>at_flow := None\<rparr>) h1)))
      in if flow = None then h2 else abandonFlow flow h2)"

definition requestLogin_begins :: "attempt_context \<Rightarrow> string option \<Rightarrow> login_hook \<Rightarrow> login_hook" where
  "requestLogin_begins cx requestedId h =
     (let controller = lh_next h;
          h1 = set_attempt (\<lambda>a. a\<lparr>at_loginAbort := Some controller\<rparr>) (abort (at_loginAbort (lh_attempt h)) h)
      in post (LoginPost (codexAuthLoginRequestBody (cx_reauthAccountId cx) requestedId))
           (h1\<lparr>lh_next := controller + 1,
               lh_logins := lh_logins h1 @ [\<lparr>lc_controller = controller, lc_stage = FirstPost, lc_requestedId = requestedId\<rparr>]\<rparr>))"

definition startOAuth_begins :: "attempt_context \<Rightarrow> string option \<Rightarrow> login_hook \<Rightarrow> login_hook" where
  "startOAuth_begins cx requestedId h =
     requestLogin_begins cx requestedId
       (dispatch AuthorizationRequested (set_attempt (\<lambda>a. a\<lparr>at_flow := None\<rparr>) (resetManualCode h)))"

definition watchFlow :: "attempt_context \<Rightarrow> string \<Rightarrow> string option \<Rightarrow> string \<Rightarrow> login_hook \<Rightarrow> login_hook" where
  "watchFlow cx url flowId accountId h =
     (let h1 = haltPolling (dispatch (AuthorizationOpened flowId url) (set_attempt (\<lambda>a. a\<lparr>at_flow := flowId\<rparr>) h));
          statusUrl = codexAuthLoginStatusUrl (cx_apiBase cx) (Some (case flowId of Some f \<Rightarrow> f | None \<Rightarrow> [])) accountId
                        (cx_reauthAccountId cx);
          poll = lh_next h1
      in set_attempt (\<lambda>a. a\<lparr>at_pollAbort := Some poll, at_stopPoll := Some (poll, statusUrl), at_deadline := Some poll\<rparr>)
           (h1\<lparr>lh_next := poll + 1, lh_opened := lh_opened h1 @ [flowId]\<rparr>))"

text \<open>What a login post is answered: a status with the copy of a failure or the body of a success, or no
  readable answer, with the message of the error thrown.\<close>

datatype login_answer = Answered nat string "login_response option" | Lost string

definition readJsonOrThrow :: "nat \<Rightarrow> string \<Rightarrow> 'b \<Rightarrow> string + 'b" where
  "readJsonOrThrow status copy body = (if 200 \<le> status \<and> status < 300 then Inr body else Inl copy)"

definition startOAuth_catch :: "string \<Rightarrow> login_hook \<Rightarrow> login_hook" where
  "startOAuth_catch message h =
     (if decodeCodexAuthStartCatch (at_alive (lh_attempt h)) False then dispatch (AuthorizationFailed message) h else h)"

definition startOAuth_ends :: "attempt_context \<Rightarrow> string option \<Rightarrow> string + login_response option \<Rightarrow> login_hook \<Rightarrow> login_hook" where
  "startOAuth_ends cx requestedId body h =
     (case body of
        Inl message \<Rightarrow> startOAuth_catch message h
      | Inr data \<Rightarrow>
          (case decodeCodexAuthLoginOpened data of
             Opened url flowId \<Rightarrow> watchFlow cx url flowId (codexAuthLoginAccountId (cx_reauthAccountId cx) requestedId) h
           | OpenError e \<Rightarrow> dispatch (AuthorizationFailed e) h
           | OpenNoop \<Rightarrow> h))"

definition first_post_answered :: "attempt_context \<Rightarrow> login_call \<Rightarrow> nat \<Rightarrow> string \<Rightarrow> login_response option \<Rightarrow> login_hook \<Rightarrow> login_hook" where
  "first_post_answered cx c status copy body h =
     (if \<not> at_alive (lh_attempt h) then h
      else if status = 409 then abandonFlow None (h\<lparr>lh_logins := lh_logins h @ [c\<lparr>lc_stage := Cancelling\<rparr>]\<rparr>)
      else startOAuth_ends cx (lc_requestedId c) (readJsonOrThrow status copy body) h)"

definition conflict_cancelled :: "attempt_context \<Rightarrow> login_call \<Rightarrow> login_hook \<Rightarrow> login_hook" where
  "conflict_cancelled cx c h =
     (if decodeCodexAuthConflictStep 409 (at_alive (lh_attempt h)) (lc_controller c \<in> lh_aborted h) None = ConflictDead then h
      else post (LoginPost (codexAuthLoginRequestBody (cx_reauthAccountId cx) (lc_requestedId c)))
             (h\<lparr>lh_logins := lh_logins h @ [c\<lparr>lc_stage := Retrying\<rparr>]\<rparr>))"

definition retry_answered :: "attempt_context \<Rightarrow> login_call \<Rightarrow> nat \<Rightarrow> string \<Rightarrow> login_response option \<Rightarrow> login_hook \<Rightarrow> login_hook" where
  "retry_answered cx c status copy body h =
     (if decodeCodexAuthConflictStep 409 True False (Some status) = AlreadyInProgress
      then dispatch (AuthorizationFailed (cx_t cx ''codexAuth.oauthAlreadyInProgress'')) h
      else startOAuth_ends cx (lc_requestedId c) (readJsonOrThrow status copy body) h)"

text \<open>A post whose controller was aborted is rejected with an \<^verbatim>\<open>AbortError\<close>, which the catch drops; the
  cancel between the two posts has no signal and is always answered.\<close>

definition login_settles :: "attempt_context \<Rightarrow> login_call \<Rightarrow> login_answer \<Rightarrow> login_hook \<Rightarrow> login_hook" where
  "login_settles cx c answer h =
     (let h1 = h\<lparr>lh_logins := remove1 c (lh_logins h)\<rparr> in
      if lc_stage c = Cancelling then conflict_cancelled cx c h1
      else if lc_controller c \<in> lh_aborted h then h1
      else case answer of
             Lost message \<Rightarrow> startOAuth_catch message h1
           | Answered status copy body \<Rightarrow>
               if lc_stage c = FirstPost then first_post_answered cx c status copy body h1
               else retry_answered cx c status copy body h1)"

section \<open>Polling\<close>

definition poll_ended :: "login_hook \<Rightarrow> login_hook" where
  "poll_ended h =
     (let h1 = resetManualCode (haltPolling h) in
      dispatch AuthorizationClosed (set_attempt (\<lambda>a. a\<lparr>at_flow := None\<rparr>)
        (h1\<lparr>lh_ended := lh_ended h1 @ [at_flow (lh_attempt h1)]\<rparr>)))"

definition onAdded :: "bool \<Rightarrow> login_hook \<Rightarrow> login_hook" where
  "onAdded completion h = h\<lparr>lh_added := lh_added h @ [completion]\<rparr>"

definition onClose :: "login_hook \<Rightarrow> login_hook" where
  "onClose h = h\<lparr>lh_closed := lh_closed h + 1\<rparr>"

text \<open>Ending with an error: back to the choice unless an account is being re-authenticated.\<close>

definition fail_attempt :: "attempt_context \<Rightarrow> string \<Rightarrow> login_hook \<Rightarrow> login_hook" where
  "fail_attempt cx e h =
     (if \<not> at_alive (lh_attempt h) then h
      else dispatch (AuthorizationFailed e)
             (if given (cx_reauthAccountId cx) then h else dispatch ReturnedToChoosing h))"

definition applyPollDecision :: "attempt_context \<Rightarrow> poll_decision \<Rightarrow> login_hook \<Rightarrow> login_hook" where
  "applyPollDecision cx decision h =
     (case decision of
        PollAbort \<Rightarrow> h
      | PollMissing retrying nextStreak \<Rightarrow>
          (let h1 = set_attempt (\<lambda>a. a\<lparr>at_errorStreak := nextStreak\<rparr>) h in
           if retrying then dispatch (NoticeRaised \<lparr>nt_message = cx_t cx ''codexAuth.oauthStatusRetrying'', nt_tone = ToneWarn\<rparr>) h1
           else h1)
      | PollInProgress waiting nextStreak \<Rightarrow>
          dispatch (if waiting then NoticeRaised \<lparr>nt_message = cx_t cx ''codexAuth.oauthCodeSubmitted'', nt_tone = ToneOk\<rparr>
                    else NoticeCleared)
            (set_attempt (\<lambda>a. a\<lparr>at_errorStreak := nextStreak\<rparr>) h)
      | PollDone payload \<Rightarrow>
          (let h1 = poll_ended h in
           if \<not> at_alive (lh_attempt h1) then h1 else onClose (onAdded (codexAccountMutationCompletion payload) h1))
      | PollFailed e \<Rightarrow> fail_attempt cx (case e of Some m \<Rightarrow> m | None \<Rightarrow> cx_t cx ''codexAuth.loginFailed'') (poll_ended h))"

definition pollStatusOnce_begins :: "nat \<Rightarrow> string \<Rightarrow> login_hook \<Rightarrow> login_hook" where
  "pollStatusOnce_begins poll statusUrl h =
     (if at_pollInFlight (lh_attempt h) \<or> poll \<in> lh_aborted h then h
      else post (StatusGet statusUrl)
             (set_attempt (\<lambda>a. a\<lparr>at_pollInFlight := True\<rparr>) (h\<lparr>lh_ticks := lh_ticks h @ [poll]\<rparr>)))"

text \<open>What a status read comes to: a document (or nothing usable), or a rejection, by an abort or otherwise.\<close>

datatype tick_answer = StatusRead "login_status option" | StatusRejected bool

definition tick_decision :: "nat \<Rightarrow> tick_answer \<Rightarrow> login_hook \<Rightarrow> poll_decision" where
  "tick_decision poll answer h =
     (let a = lh_attempt h in
      case answer of
        StatusRead status \<Rightarrow>
          decodeCodexAuthPollTick (at_alive a) (poll \<in> lh_aborted h) status (at_errorStreak a) (at_manualCodePhase a = Awaiting)
      | StatusRejected isAbortError \<Rightarrow>
          decodeCodexAuthPollCatch (at_alive a) (poll \<in> lh_aborted h) isAbortError (at_errorStreak a))"

definition pollStatusOnce_settles :: "attempt_context \<Rightarrow> nat \<Rightarrow> tick_answer \<Rightarrow> login_hook \<Rightarrow> login_hook" where
  "pollStatusOnce_settles cx poll answer h =
     set_attempt (\<lambda>a. a\<lparr>at_pollInFlight := False\<rparr>)
       (applyPollDecision cx (tick_decision poll answer h) (h\<lparr>lh_ticks := remove1 poll (lh_ticks h)\<rparr>))"

definition onLoginWindowClosed :: "attempt_context \<Rightarrow> login_hook \<Rightarrow> login_hook" where
  "onLoginWindowClosed cx h =
     (if \<not> decodeCodexAuthTimeoutApplies (at_stopPoll (lh_attempt h) \<noteq> None) then h
      else fail_attempt cx (cx_t cx ''modal.loginTimeout'') (cancelLogin (resetManualCode h)))"

section \<open>The hook\<close>

definition manualCode :: "add_account_state \<Rightarrow> string" where
  "manualCode state = (case state of Authorizing a \<Rightarrow> au_manualCode a | Choosing _ _ \<Rightarrow> [])"

definition manualCodeStatus :: "add_account_state \<Rightarrow> manual_code_status" where
  "manualCodeStatus state = (case state of Authorizing a \<Rightarrow> au_manualCodeStatus a | Choosing _ _ \<Rightarrow> Idle)"

definition sync_manualCodePhase :: "login_hook \<Rightarrow> login_hook" where
  "sync_manualCodePhase h = set_attempt (\<lambda>a. a\<lparr>at_manualCodePhase := manualCodeStatus (lh_dialog h)\<rparr>) h"

definition attempt_cleanup :: "login_hook \<Rightarrow> login_hook" where
  "attempt_cleanup h =
     (let h1 = abort_login (set_attempt (\<lambda>a. a\<lparr>at_alive := False\<rparr>) (resetManualCode h)\<lparr>lh_startedReauth := False\<rparr>);
          flow = at_flow (lh_attempt h1);
          h2 = haltPolling (dispatch AuthorizationClosed (set_attempt (\<lambda>a. a\<lparr>at_flow := None\<rparr>) h1))
      in if flow = None then h2 else abandonFlow flow h2)"

definition reauth_effect :: "attempt_context \<Rightarrow> login_hook \<Rightarrow> login_hook" where
  "reauth_effect cx h =
     (if \<not> given (cx_reauthAccountId cx) then h\<lparr>lh_startedReauth := False\<rparr>
      else if lh_startedReauth h then h
      else startOAuth_begins cx None (h\<lparr>lh_startedReauth := True\<rparr>))"

definition attempt_effects :: "attempt_context \<Rightarrow> login_hook \<Rightarrow> login_hook" where
  "attempt_effects cx h = reauth_effect cx (set_attempt (\<lambda>a. a\<lparr>at_alive := True\<rparr>) h)"

definition blank_hook :: "attempt_context \<Rightarrow> login_hook" where
  "blank_hook cx = \<lparr>lh_dialog = initialAddAccountState (cx_reauthAccountId cx), lh_attempt = createLoginAttempt,
     lh_startedReauth = False, lh_next = 0, lh_aborted = {}, lh_logins = [], lh_ticks = [], lh_codes = [], lh_traffic = [],
     lh_opened = [], lh_ended = [], lh_added = [], lh_closed = 0\<rparr>"

definition closeModal :: "login_hook \<Rightarrow> login_hook" where
  "closeModal h = onClose (case lh_dialog h of Authorizing _ \<Rightarrow> cancelLogin h | Choosing _ _ \<Rightarrow> h)"

definition submitManualCode_begins :: "login_hook \<Rightarrow> login_hook" where
  "submitManualCode_begins h =
     (let flow = at_flow (lh_attempt h); input = trim (manualCode (lh_dialog h)); status = manualCodeStatus (lh_dialog h) in
      if codexAuthManualCodeBlocked flow input (status = Submitting) (status = Awaiting) then h
      else post (CodePost (the flow) input) ((dispatch ManualCodeSubmitted h)\<lparr>lh_codes := lh_codes h @ [the flow]\<rparr>))"

text \<open>The answer to a submitted code: accepted, refused with the error of its body and its status text, or lost.\<close>

datatype code_answer = CodeAccepted | CodeRefused "string option" string | CodeLost

definition submitManualCode_settles :: "attempt_context \<Rightarrow> string \<Rightarrow> code_answer \<Rightarrow> login_hook \<Rightarrow> login_hook" where
  "submitManualCode_settles cx flow answer h =
     (let h1 = h\<lparr>lh_codes := remove1 flow (lh_codes h)\<rparr> in
      if \<not> at_alive (lh_attempt h1) then h1
      else case answer of
             CodeLost \<Rightarrow> dispatch (ManualCodeSubmitFailed (cx_t cx ''modal.networkError'')) h1
           | CodeRefused e statusText \<Rightarrow>
               dispatch (ManualCodeSubmitFailed (cx_tError cx ''prov.pasteFail'' (decodeCodexAuthManualCodeFailure e statusText))) h1
           | CodeAccepted \<Rightarrow>
               set_attempt (\<lambda>a. a\<lparr>at_errorStreak := 0\<rparr>)
                 (dispatch (NoticeRaised \<lparr>nt_message = cx_t cx ''codexAuth.oauthCodeSubmitted'', nt_tone = ToneOk\<rparr>)
                   (dispatch ManualCodeAwaiting h1)))"

text \<open>The controls of the dialog exist while the hook is mounted; the account id and the start button belong
  to the choice, the code field to the authorization.\<close>

inductive login_step :: "attempt_context \<Rightarrow> login_hook \<Rightarrow> login_hook \<Rightarrow> bool" for cx where
  step_account_id: "at_alive (lh_attempt h) \<Longrightarrow> lh_dialog h = Choosing i e \<Longrightarrow> login_step cx h (dispatch (AccountIdChanged j) h)"
| step_start: "at_alive (lh_attempt h) \<Longrightarrow> lh_dialog h = Choosing i e \<Longrightarrow> login_step cx h (startOAuth_begins cx (Some i) h)"
| step_login_settles: "c \<in> set (lh_logins h) \<Longrightarrow> login_step cx h (login_settles cx c answer h)"
| step_tick: "at_stopPoll (lh_attempt h) = Some (poll, url) \<Longrightarrow> login_step cx h (pollStatusOnce_begins poll url h)"
| step_tick_settles: "poll \<in> set (lh_ticks h) \<Longrightarrow> login_step cx h (pollStatusOnce_settles cx poll tick h)"
| step_deadline: "at_deadline (lh_attempt h) = Some poll \<Longrightarrow> login_step cx h (onLoginWindowClosed cx h)"
| step_code: "at_alive (lh_attempt h) \<Longrightarrow> login_step cx h (dispatch (ManualCodeChanged text) h)"
| step_submit: "at_alive (lh_attempt h) \<Longrightarrow> login_step cx h (submitManualCode_begins h)"
| step_code_settles: "flow \<in> set (lh_codes h) \<Longrightarrow> login_step cx h (submitManualCode_settles cx flow reply h)"
| step_sync: "login_step cx h (sync_manualCodePhase h)"
| step_close: "at_alive (lh_attempt h) \<Longrightarrow> login_step cx h (closeModal h)"
| step_unmount: "at_alive (lh_attempt h) \<Longrightarrow> login_step cx h (attempt_cleanup h)"
| step_mount: "\<not> at_alive (lh_attempt h) \<Longrightarrow> login_step cx h (attempt_effects cx h)"

section \<open>The invariant\<close>

definition dialog_flow :: "add_account_state \<Rightarrow> string option" where
  "dialog_flow state = (case state of Authorizing a \<Rightarrow> au_flowId a | Choosing _ _ \<Rightarrow> None)"

definition dialog_url :: "add_account_state \<Rightarrow> string" where
  "dialog_url state = (case state of Authorizing a \<Rightarrow> au_authUrl a | Choosing _ _ \<Rightarrow> [])"

definition authorizing :: "add_account_state \<Rightarrow> bool" where
  "authorizing state = (case state of Authorizing _ \<Rightarrow> True | Choosing _ _ \<Rightarrow> False)"

lemmas dialog_defs = dialog_flow_def dialog_url_def authorizing_def authorized_def EMPTY_AUTHORIZATION_def new_authorization_def

fun keeps_flow :: "add_account_event \<Rightarrow> bool" where
  "keeps_flow AuthorizationRequested = False"
| "keeps_flow (AuthorizationOpened _ _) = False"
| "keeps_flow AuthorizationClosed = False"
| "keeps_flow ReturnedToChoosing = False"
| "keeps_flow _ = True"

lemma reducer_keeps_flow [simp]:
  assumes "keeps_flow e"
  shows "dialog_flow (addAccountReducer d e) = dialog_flow d" "dialog_url (addAccountReducer d e) = dialog_url d"
    "authorizing (addAccountReducer d e) = authorizing d"
  using assms by (cases e; cases d; simp add: dialog_defs)+

lemma reducer_requested [simp]:
  "dialog_flow (addAccountReducer d AuthorizationRequested) = None"
  "dialog_url (addAccountReducer d AuthorizationRequested) = []"
  "authorizing (addAccountReducer d AuthorizationRequested) = authorizing d"
  by (cases d; simp add: dialog_defs)+

lemma reducer_closed [simp]:
  "dialog_flow (addAccountReducer d AuthorizationClosed) = None"
  "dialog_url (addAccountReducer d AuthorizationClosed) = []"
  "authorizing (addAccountReducer d AuthorizationClosed) = authorizing d"
  by (cases d; simp add: dialog_defs)+

lemma reducer_opened [simp]:
  "dialog_flow (addAccountReducer d (AuthorizationOpened flow url)) = flow"
  "dialog_url (addAccountReducer d (AuthorizationOpened flow url)) = url"
  "authorizing (addAccountReducer d (AuthorizationOpened flow url))"
  by (cases d; simp add: dialog_defs)+

lemma reducer_returned [simp]:
  "dialog_flow (addAccountReducer d ReturnedToChoosing) = None"
  "dialog_url (addAccountReducer d ReturnedToChoosing) = []"
  "\<not> authorizing (addAccountReducer d ReturnedToChoosing)"
  by (cases d; simp add: dialog_defs)+

declare addAccountReducer.simps [simp del]

text \<open>How often a flow was opened, reported over by the listener, and cancelled.\<close>

definition times_released :: "login_hook \<Rightarrow> string \<Rightarrow> nat" where
  "times_released h f = count_list (lh_ended h) (Some f) + count_list (lh_traffic h) (CancelPost (Some f))"

definition polling :: "login_hook \<Rightarrow> bool" where
  "polling h \<longleftrightarrow> at_stopPoll (lh_attempt h) \<noteq> None"

definition poll_ok :: "login_hook \<Rightarrow> bool" where
  "poll_ok h \<longleftrightarrow> (let a = lh_attempt h in
     map_option fst (at_stopPoll a) = at_pollAbort a \<and> at_deadline a = at_pollAbort a
     \<and> (\<forall>p. at_pollAbort a = Some p \<longrightarrow> p < lh_next h \<and> p \<notin> lh_aborted h \<and> at_loginAbort a \<noteq> Some p)
     \<and> set (lh_ticks h) \<subseteq> lh_aborted h \<union> set_option (at_pollAbort a)
     \<and> (\<not> at_alive a \<longrightarrow> \<not> polling h))"

definition dialog_ok :: "login_hook \<Rightarrow> bool" where
  "dialog_ok h \<longleftrightarrow> (let a = lh_attempt h in
     dialog_flow (lh_dialog h) = at_flow a
     \<and> (dialog_url (lh_dialog h) \<noteq> [] \<or> at_flow a \<noteq> None \<longrightarrow> polling h) \<and> (polling h \<longrightarrow> authorizing (lh_dialog h)))"

definition calls_ok :: "login_hook \<Rightarrow> bool" where
  "calls_ok h \<longleftrightarrow> (let a = lh_attempt h in
     distinct (map lc_controller (lh_logins h))
     \<and> (\<forall>c \<in> set (lh_logins h). lc_controller c < lh_next h \<and>
          (lc_controller c \<in> lh_aborted h \<or> at_loginAbort a = Some (lc_controller c) \<and> \<not> polling h))
     \<and> (\<forall>p \<in> lh_aborted h. p < lh_next h) \<and> (\<forall>p. at_loginAbort a = Some p \<longrightarrow> p < lh_next h)
     \<and> (\<not> at_alive a \<longrightarrow> at_loginAbort a = None))"

definition flows_ok :: "login_hook \<Rightarrow> bool" where
  "flows_ok h \<longleftrightarrow>
     (\<forall>f. count_list (lh_opened h) (Some f) = times_released h f + (if at_flow (lh_attempt h) = Some f then 1 else 0))
     \<and> length (lh_added h) + (if polling h then 1 else 0) \<le> length (lh_opened h)"

definition login_ok :: "login_hook \<Rightarrow> bool" where
  "login_ok h \<longleftrightarrow> poll_ok h \<and> dialog_ok h \<and> calls_ok h \<and> flows_ok h"

lemmas op_defs = dispatch_def set_attempt_def post_def abort_def haltPolling_def resetManualCode_def abandonFlow_def abort_login_def
lemmas part_defs = poll_ok_def dialog_ok_def calls_ok_def flows_ok_def times_released_def polling_def

text \<open>What the invariant reads of a state: a step that keeps all of it keeps the invariant.\<close>

definition same_view :: "login_hook \<Rightarrow> login_hook \<Rightarrow> bool" where
  "same_view h h' \<longleftrightarrow>
     (let a = lh_attempt h; a' = lh_attempt h' in
      at_alive a' = at_alive a \<and> at_flow a' = at_flow a \<and> at_stopPoll a' = at_stopPoll a \<and> at_deadline a' = at_deadline a
      \<and> at_pollAbort a' = at_pollAbort a \<and> at_loginAbort a' = at_loginAbort a)
     \<and> dialog_flow (lh_dialog h') = dialog_flow (lh_dialog h) \<and> dialog_url (lh_dialog h') = dialog_url (lh_dialog h)
     \<and> authorizing (lh_dialog h') = authorizing (lh_dialog h)
     \<and> lh_next h' = lh_next h \<and> lh_aborted h' = lh_aborted h \<and> lh_logins h' = lh_logins h \<and> lh_ticks h' = lh_ticks h
     \<and> lh_opened h' = lh_opened h \<and> lh_added h' = lh_added h \<and> (\<forall>f. times_released h' f = times_released h f)"

lemma same_view_ok: "same_view h h' \<Longrightarrow> login_ok h \<Longrightarrow> login_ok h'"
  unfolding same_view_def login_ok_def poll_ok_def dialog_ok_def calls_ok_def flows_ok_def polling_def Let_def
  by (elim conjE, intro conjI, simp_all only:) (simp_all add: flows_ok_def)

lemma same_view_dispatch: "keeps_flow e \<Longrightarrow> same_view h (dispatch e h)"
  by (simp add: same_view_def dispatch_def times_released_def)

lemma same_view_trans: "same_view h h1 \<Longrightarrow> same_view h1 h2 \<Longrightarrow> same_view h h2"
  by (simp add: same_view_def Let_def)

lemma same_view_attempt:
  "same_view h (set_attempt (\<lambda>a. a\<lparr>at_errorStreak := n\<rparr>) h)"
  "same_view h (set_attempt (\<lambda>a. a\<lparr>at_pollInFlight := b\<rparr>) h)"
  "same_view h (set_attempt (\<lambda>a. a\<lparr>at_manualCodePhase := m\<rparr>) h)"
  by (simp_all add: same_view_def set_attempt_def times_released_def Let_def)

lemma same_view_logs:
  "(\<And>f. r \<noteq> CancelPost (Some f)) \<Longrightarrow> same_view h (post r h)"
  "same_view h (h\<lparr>lh_codes := fs\<rparr>)"
  "same_view h (h\<lparr>lh_startedReauth := started\<rparr>)"
  "same_view h (onClose h)"
  by (auto simp: same_view_def post_def onClose_def times_released_def)

text \<open>An attempt that ends: its poll is stopped and aborted, its flow released, its address no longer shown.\<close>

definition ends_attempt :: "login_hook \<Rightarrow> login_hook \<Rightarrow> bool" where
  "ends_attempt h h' \<longleftrightarrow>
     (let a = lh_attempt h; a' = lh_attempt h' in
      at_flow a' = None \<and> at_stopPoll a' = None \<and> at_deadline a' = None \<and> at_pollAbort a' = None
      \<and> (if at_loginAbort a' = None then lh_aborted h' = lh_aborted h \<union> set_option (at_pollAbort a) \<union> set_option (at_loginAbort a)
         else at_loginAbort a' = at_loginAbort a \<and> at_alive a' \<and> lh_aborted h' = lh_aborted h \<union> set_option (at_pollAbort a)))
     \<and> dialog_flow (lh_dialog h') = None \<and> dialog_url (lh_dialog h') = []
     \<and> lh_next h' = lh_next h \<and> lh_logins h' = lh_logins h \<and> lh_ticks h' = lh_ticks h
     \<and> lh_opened h' = lh_opened h \<and> length (lh_added h') \<le> length (lh_added h) + (if polling h then 1 else 0)
     \<and> (\<forall>f. times_released h' f = times_released h f + (if at_flow (lh_attempt h) = Some f then 1 else 0))"

lemma ends_attempt_ok:
  assumes "ends_attempt h h'" "login_ok h"
  shows "login_ok h'"
proof -
  let ?a = "lh_attempt h" and ?a' = "lh_attempt h'"
  have e: "at_flow ?a' = None" "at_stopPoll ?a' = None" "at_deadline ?a' = None" "at_pollAbort ?a' = None"
      "dialog_flow (lh_dialog h') = None" "dialog_url (lh_dialog h') = []" "lh_next h' = lh_next h" "lh_logins h' = lh_logins h"
      "lh_ticks h' = lh_ticks h" "lh_opened h' = lh_opened h"
      "length (lh_added h') \<le> length (lh_added h) + (if polling h then 1 else 0)"
      "\<And>f. times_released h' f = times_released h f + (if at_flow ?a = Some f then 1 else 0)"
    using assms(1) unfolding ends_attempt_def Let_def by blast+
  have l: "if at_loginAbort ?a' = None then lh_aborted h' = lh_aborted h \<union> set_option (at_pollAbort ?a) \<union> set_option (at_loginAbort ?a)
      else at_loginAbort ?a' = at_loginAbort ?a \<and> at_alive ?a' \<and> lh_aborted h' = lh_aborted h \<union> set_option (at_pollAbort ?a)"
    using assms(1) unfolding ends_attempt_def Let_def by blast
  have p: "\<not> polling h'" using e(2) by (simp add: polling_def)
  have o: "poll_ok h" "calls_ok h" "flows_ok h" using assms(2) by (simp_all add: login_ok_def)
  have sub: "lh_aborted h \<subseteq> lh_aborted h'" "set_option (at_pollAbort ?a) \<subseteq> lh_aborted h'" using l by (auto split: if_splits)
  have "poll_ok h'" using o(1) sub p e(2,3,4,9) unfolding poll_ok_def Let_def by auto
  moreover have "dialog_ok h'" using e p by (simp add: dialog_ok_def)
  moreover have "calls_ok h'" using o(1,2) l p sub e(7,8)
    unfolding calls_ok_def poll_ok_def Let_def by (auto split: if_splits) 
  moreover have "flows_ok h'" using o(3) e p unfolding flows_ok_def by auto
  ultimately show ?thesis by (simp add: login_ok_def)
qed

lemma cancelLogin_ends: "ends_attempt h (cancelLogin h)"
  by (auto simp: cancelLogin_def ends_attempt_def op_defs times_released_def Let_def)

lemma cleanup_ends: "ends_attempt h (attempt_cleanup h)"
  by (auto simp: attempt_cleanup_def ends_attempt_def op_defs times_released_def Let_def)

lemma poll_ended_ends:
  assumes "login_ok h" "at_alive (lh_attempt h)"
  shows "ends_attempt h (poll_ended h)"
  using assms(2) by (auto simp: poll_ended_def ends_attempt_def op_defs times_released_def Let_def)

lemma login_okD:
  assumes "login_ok h"
  shows "poll_ok h" "dialog_ok h" "calls_ok h" "flows_ok h"
  using assms by (simp_all add: login_ok_def)

lemma idle_attempt:
  assumes "login_ok h" "\<not> polling h"
  shows "at_flow (lh_attempt h) = None" "dialog_flow (lh_dialog h) = None" "dialog_url (lh_dialog h) = []"
    "at_stopPoll (lh_attempt h) = None" "at_pollAbort (lh_attempt h) = None" "at_deadline (lh_attempt h) = None"
    "set (lh_ticks h) \<subseteq> lh_aborted h"
proof -
  show "at_stopPoll (lh_attempt h) = None" using assms(2) unfolding polling_def by blast
  then show p: "at_pollAbort (lh_attempt h) = None" using login_okD(1) [OF assms(1)] by (auto simp: poll_ok_def Let_def)
  then show "at_deadline (lh_attempt h) = None" "set (lh_ticks h) \<subseteq> lh_aborted h"
    using login_okD(1) [OF assms(1)] by (simp_all add: poll_ok_def Let_def p)
  show "at_flow (lh_attempt h) = None" "dialog_flow (lh_dialog h) = None" "dialog_url (lh_dialog h) = []"
    using assms by (simp_all add: login_ok_def dialog_ok_def Let_def)
qed

lemma start_ok:
  assumes "login_ok h" "\<not> polling h" "at_alive (lh_attempt h)"
  shows "login_ok (startOAuth_begins cx requestedId h)"
proof -
  let ?h = "startOAuth_begins cx requestedId h"
  note idle = idle_attempt [OF assms(1,2)] and d = startOAuth_begins_def requestLogin_begins_def op_defs Let_def
  have c: "calls_ok h" and f: "flows_ok h" by (rule login_okD [OF assms(1)])+
  have p: "\<not> polling ?h" by (simp add: polling_def d idle)
  have "poll_ok ?h" using idle assms(3) by (auto simp: poll_ok_def p d)
  moreover have "dialog_ok ?h" by (simp add: dialog_ok_def p) (simp add: d)
  moreover have "calls_ok ?h" using c assms(3) p unfolding calls_ok_def Let_def by (auto simp: d intro: less_SucI)
  moreover have "flows_ok ?h" using f assms(2) by (auto simp: flows_ok_def p) (simp_all add: d times_released_def idle)
  ultimately show ?thesis by (simp add: login_ok_def)
qed

lemma watchFlow_ok:
  assumes "login_ok h" "\<not> polling h" "at_alive (lh_attempt h)" "\<forall>c \<in> set (lh_logins h). lc_controller c \<in> lh_aborted h"
  shows "login_ok (watchFlow cx url flowId accountId h)"
proof -
  let ?h = "watchFlow cx url flowId accountId h"
  note idle = idle_attempt [OF assms(1,2)] and d = watchFlow_def op_defs Let_def
  have c: "calls_ok h" and f: "flows_ok h" by (rule login_okD [OF assms(1)])+
  have p: "polling ?h" by (simp add: polling_def d Let_def)
  have "poll_ok ?h" using idle assms(3) c unfolding poll_ok_def calls_ok_def by (auto simp: p d Let_def)
  moreover have "dialog_ok ?h" by (simp add: dialog_ok_def p) (simp add: d Let_def)
  moreover have "calls_ok ?h" using c assms(3,4) p unfolding calls_ok_def Let_def by (auto simp: d Let_def idle intro: less_SucI)
  moreover have "flows_ok ?h" using f assms(2) by (auto simp: flows_ok_def p) (simp_all add: d Let_def times_released_def idle)
  ultimately show ?thesis by (simp add: login_ok_def)
qed

lemma mount_ok:
  assumes "login_ok h"
  shows "login_ok (set_attempt (\<lambda>a. a\<lparr>at_alive := True\<rparr>) h)"
  using assms by (simp add: login_ok_def part_defs set_attempt_def Let_def)

lemma tick_removed_ok:
  assumes "login_ok h"
  shows "login_ok (h\<lparr>lh_ticks := remove1 poll (lh_ticks h)\<rparr>)"
proof -
  have "set (remove1 poll xs) \<subseteq> A" if "set xs \<subseteq> A" for xs :: "nat list" and A using that set_remove1_subset by fast
  then show ?thesis using assms by (simp add: login_ok_def part_defs Let_def)
qed

lemma tick_begins_ok:
  assumes "login_ok h" "at_stopPoll (lh_attempt h) = Some (poll, url)"
  shows "login_ok (pollStatusOnce_begins poll url h)"
proof -
  have "at_pollAbort (lh_attempt h) = Some poll" using assms by (auto simp: login_ok_def poll_ok_def Let_def)
  then have "login_ok (h\<lparr>lh_ticks := lh_ticks h @ [poll]\<rparr>)" using assms(1) by (simp add: login_ok_def part_defs Let_def)
  then show ?thesis unfolding pollStatusOnce_begins_def
    by (auto intro!: same_view_ok [OF same_view_logs(1)] same_view_ok [OF same_view_attempt(2)] simp: assms(1))
qed

lemma logins_changed_ok:
  assumes "login_ok h" "distinct (map lc_controller cs)" "lc_controller ` set cs \<subseteq> lc_controller ` set (lh_logins h)"
  shows "login_ok (h\<lparr>lh_logins := cs\<rparr>)"
proof -
  have q: "Q (lc_controller c)" if "\<forall>c \<in> set (lh_logins h). Q (lc_controller c)" "c \<in> set cs" for Q c
    using that assms(3) by (auto simp: subset_eq image_iff)
  note o = login_okD(3) [OF assms(1), unfolded calls_ok_def Let_def]
  let ?Q = "\<lambda>i. i < lh_next h \<and> (i \<in> lh_aborted h \<or> at_loginAbort (lh_attempt h) = Some i \<and> \<not> polling h)"
  have "\<forall>c \<in> set (lh_logins h). ?Q (lc_controller c)" using o by blast
  then have "?Q (lc_controller c)" if "c \<in> set cs" for c using q [of ?Q c] that by blast
  then have "\<forall>c \<in> set cs. ?Q (lc_controller c)" by blast
  then have "calls_ok (h\<lparr>lh_logins := cs\<rparr>)" using o assms(2) by (simp add: calls_ok_def Let_def polling_def)
  then show ?thesis using assms(1) by (simp add: login_ok_def part_defs)
qed

text \<open>Taking an answered call out of the list, and putting it back at its next stage.\<close>

lemma call_taken:
  assumes "login_ok h" "c \<in> set (lh_logins h)"
  shows "login_ok (h\<lparr>lh_logins := remove1 c (lh_logins h)\<rparr>)"
    "login_ok (h\<lparr>lh_logins := remove1 c (lh_logins h) @ [c\<lparr>lc_stage := stage\<rparr>]\<rparr>)"
    "\<forall>d \<in> set (remove1 c (lh_logins h)). lc_controller d \<noteq> lc_controller c"
proof -
  have d: "distinct (map lc_controller (lh_logins h))" using login_okD(3) [OF assms(1)] by (simp add: calls_ok_def Let_def)
  then have inj: "inj_on lc_controller (set (lh_logins h))" and dl: "distinct (lh_logins h)" by (simp_all add: distinct_map)
  then show o: "\<forall>d \<in> set (remove1 c (lh_logins h)). lc_controller d \<noteq> lc_controller c"
    using assms(2) by (auto dest: inj_onD)
  have r: "distinct (map lc_controller (remove1 c (lh_logins h)))"
    using inj dl by (auto simp: distinct_map distinct_remove1 intro: inj_on_subset)
  have "set (remove1 c (lh_logins h)) \<subseteq> set (lh_logins h)" by (rule set_remove1_subset)
  then have sub: "lc_controller ` set (remove1 c (lh_logins h)) \<subseteq> lc_controller ` set (lh_logins h)" by (rule image_mono)
  show "login_ok (h\<lparr>lh_logins := remove1 c (lh_logins h)\<rparr>)" by (rule logins_changed_ok [OF assms(1) r sub])
  show "login_ok (h\<lparr>lh_logins := remove1 c (lh_logins h) @ [c\<lparr>lc_stage := stage\<rparr>]\<rparr>)"
    by (rule logins_changed_ok [OF assms(1)]) (use r o sub assms(2) in auto)
qed

lemma live_call:
  assumes "login_ok h" "c \<in> set (lh_logins h)" "lc_controller c \<notin> lh_aborted h"
  shows "\<not> polling h" "at_alive (lh_attempt h)" "\<forall>d \<in> set (remove1 c (lh_logins h)). lc_controller d \<in> lh_aborted h"
proof -
  note o = login_okD(3) [OF assms(1), unfolded calls_ok_def Let_def]
  have l: "at_loginAbort (lh_attempt h) = Some (lc_controller c)" and "\<not> polling h" using o assms(2,3) by blast+
  then show "\<not> polling h" "at_alive (lh_attempt h)" using o by auto
  show "\<forall>d \<in> set (remove1 c (lh_logins h)). lc_controller d \<in> lh_aborted h"
  proof
    fix d assume d: "d \<in> set (remove1 c (lh_logins h))"
    then have "d \<in> set (lh_logins h)" using set_remove1_subset by fast
    moreover have "lc_controller d \<noteq> lc_controller c" using call_taken(3) [OF assms(1,2)] d by blast
    ultimately show "lc_controller d \<in> lh_aborted h" using o l by auto
  qed
qed

lemma catch_ok: "login_ok h \<Longrightarrow> login_ok (startOAuth_catch message h)"
  by (simp add: startOAuth_catch_def same_view_ok [OF same_view_dispatch])

lemma startOAuth_ends_ok:
  assumes "login_ok h" "\<not> polling h" "at_alive (lh_attempt h)" "\<forall>c \<in> set (lh_logins h). lc_controller c \<in> lh_aborted h"
  shows "login_ok (startOAuth_ends cx requestedId body h)"
  using assms by (auto simp: startOAuth_ends_def catch_ok watchFlow_ok same_view_ok [OF same_view_dispatch]
      split: sum.split login_opened.split)

lemma login_settles_ok:
  assumes "login_ok h" "c \<in> set (lh_logins h)"
  shows "login_ok (login_settles cx c answer h)"
proof -
  let ?h = "h\<lparr>lh_logins := remove1 c (lh_logins h)\<rparr>"
  note taken = call_taken [OF assms]
  have again: "login_ok (?h\<lparr>lh_logins := lh_logins ?h @ [c\<lparr>lc_stage := stage\<rparr>]\<rparr>)" for stage using taken(2) [of stage] by simp
  show ?thesis
  proof (cases "lc_stage c = Cancelling")
    case True
    have "login_ok (conflict_cancelled cx c ?h)"
      unfolding conflict_cancelled_def using taken(1) again [of Retrying] by (auto intro: same_view_ok [OF same_view_logs(1)])
    with True show ?thesis by (simp add: login_settles_def Let_def)
  next
    case stage: False
    show ?thesis
    proof (cases "lc_controller c \<in> lh_aborted h")
      case True
      with stage taken(1) show ?thesis by (simp add: login_settles_def Let_def)
    next
      case False
      note live = live_call [OF assms False]
      have e: "login_ok (startOAuth_ends cx r body ?h)" for r body
        by (rule startOAuth_ends_ok [OF taken(1)]) (use live in \<open>simp_all add: polling_def\<close>)
      have "login_ok (first_post_answered cx c status copy body ?h)" for status copy body
        unfolding first_post_answered_def abandonFlow_def using taken(1) again [of Cancelling] e
        by (auto intro: same_view_ok [OF same_view_logs(1)])
      moreover have "login_ok (retry_answered cx c status copy body ?h)" for status copy body
        unfolding retry_answered_def using taken(1) e by (auto intro: same_view_ok [OF same_view_dispatch])
      ultimately show ?thesis using stage False catch_ok [OF taken(1)]
        by (simp add: login_settles_def Let_def split: login_answer.split)
    qed
  qed
qed

lemma fail_attempt_ok:
  assumes "login_ok h" "\<not> polling h"
  shows "login_ok (fail_attempt cx e h)"
proof -
  note idle = idle_attempt [OF assms]
  have "login_ok (dispatch ReturnedToChoosing h)"
    using assms idle unfolding login_ok_def by (simp add: part_defs dispatch_def Let_def)
  then show ?thesis using assms(1) by (auto simp: fail_attempt_def intro: same_view_ok [OF same_view_dispatch])
qed

lemma ended_not_polling: "ends_attempt h h' \<Longrightarrow> \<not> polling h'"
  by (simp add: ends_attempt_def polling_def Let_def)

lemma stale_tick: "poll \<in> lh_aborted h \<Longrightarrow> tick_decision poll answer h = PollAbort"
  by (auto simp: tick_decision_def decodeCodexAuthPollTick_def decodeCodexAuthPollCatch_def Let_def split: tick_answer.split)

lemma dead_tick: "\<not> at_alive (lh_attempt h) \<Longrightarrow> tick_decision poll answer h = PollAbort"
  by (auto simp: tick_decision_def decodeCodexAuthPollTick_def decodeCodexAuthPollCatch_def Let_def split: tick_answer.split)

lemma current_tick:
  assumes "login_ok h" "poll \<in> set (lh_ticks h)" "poll \<notin> lh_aborted h"
  shows "at_pollAbort (lh_attempt h) = Some poll" "polling h" "at_alive (lh_attempt h)"
proof -
  note o = login_okD(1) [OF assms(1), unfolded poll_ok_def Let_def]
  show p: "at_pollAbort (lh_attempt h) = Some poll" using o assms(2,3) by auto
  with o show "polling h" unfolding polling_def by auto
  with o show "at_alive (lh_attempt h)" by blast
qed

lemma done_ends:
  assumes "at_alive (lh_attempt h)" "polling h"
  shows "ends_attempt h (onClose (onAdded b (poll_ended h)))"
  using assms by (auto simp: poll_ended_def ends_attempt_def op_defs times_released_def onClose_def onAdded_def Let_def)

lemma applyPollDecision_ok:
  assumes "login_ok h" "decision = PollAbort \<or> at_alive (lh_attempt h) \<and> polling h"
  shows "login_ok (applyPollDecision cx decision h)"
proof -
  note still = same_view_ok [OF same_view_dispatch] same_view_ok [OF same_view_attempt(1)]
  show ?thesis
  proof (cases decision)
    case (PollMissing retrying streak)
    then show ?thesis using assms(1) by (simp add: applyPollDecision_def still Let_def)
  next
    case (PollInProgress waiting streak)
    then show ?thesis using assms(1) by (simp add: applyPollDecision_def still)
  next
    case (PollDone payload)
    then have live: "at_alive (lh_attempt h)" "polling h" using assms(2) by simp_all
    then have "at_alive (lh_attempt (poll_ended h))" by (simp add: poll_ended_def op_defs Let_def)
    then show ?thesis using ends_attempt_ok [OF done_ends [OF live] assms(1)]
      by (simp add: applyPollDecision_def PollDone Let_def)
  next
    case (PollFailed e)
    have ends: "ends_attempt h (poll_ended h)" using assms PollFailed by (auto intro: poll_ended_ends)
    show ?thesis unfolding applyPollDecision_def PollFailed
      using fail_attempt_ok [OF ends_attempt_ok [OF ends assms(1)] ended_not_polling [OF ends]] by simp
  qed (simp add: assms(1) applyPollDecision_def)
qed

lemma tick_settles_ok:
  assumes "login_ok h" "poll \<in> set (lh_ticks h)"
  shows "login_ok (pollStatusOnce_settles cx poll answer h)"
proof -
  have "tick_decision poll answer h = PollAbort \<or> at_alive (lh_attempt h) \<and> polling h"
    using stale_tick current_tick [OF assms] by blast
  then have "login_ok (applyPollDecision cx (tick_decision poll answer h) (h\<lparr>lh_ticks := remove1 poll (lh_ticks h)\<rparr>))"
    by (intro applyPollDecision_ok tick_removed_ok assms(1)) (simp add: polling_def)
  then show ?thesis unfolding pollStatusOnce_settles_def by (rule same_view_ok [OF same_view_attempt(2)])
qed

lemma reset_ok: "login_ok h \<Longrightarrow> login_ok (resetManualCode h)"
  unfolding resetManualCode_def by (intro same_view_ok [OF same_view_attempt(1)] same_view_ok [OF same_view_dispatch]) simp_all

lemma deadline_ok: "login_ok h \<Longrightarrow> login_ok (onLoginWindowClosed cx h)"
  by (auto simp: onLoginWindowClosed_def intro: fail_attempt_ok ends_attempt_ok [OF cancelLogin_ends]
      ended_not_polling [OF cancelLogin_ends, THEN notE] reset_ok)

lemma closeModal_ok: "login_ok h \<Longrightarrow> login_ok (closeModal h)"
  by (auto simp: closeModal_def intro: same_view_ok [OF same_view_logs(4)] ends_attempt_ok [OF cancelLogin_ends] split: add_account_state.split)

lemma submit_ok: "login_ok h \<Longrightarrow> login_ok (submitManualCode_begins h)"
  by (auto simp: submitManualCode_begins_def Let_def intro!: same_view_ok [OF same_view_logs(1)] same_view_ok [OF same_view_logs(2)]
      same_view_ok [OF same_view_dispatch])

lemma code_settles_ok: "login_ok h \<Longrightarrow> login_ok (submitManualCode_settles cx flow answer h)"
  by (auto simp: submitManualCode_settles_def Let_def split: code_answer.split
      intro!: same_view_ok [OF same_view_attempt(1)] same_view_ok [OF same_view_dispatch] same_view_ok [OF same_view_logs(2)])

lemma effects_ok:
  assumes "login_ok h" "\<not> polling h"
  shows "login_ok (attempt_effects cx h)"
proof -
  have "login_ok (startOAuth_begins cx None (set_attempt (\<lambda>a. a\<lparr>at_alive := True\<rparr>) h\<lparr>lh_startedReauth := True\<rparr>))"
    by (rule start_ok [OF same_view_ok [OF same_view_logs(3)]]) (use assms in \<open>simp_all add: mount_ok [unfolded set_attempt_def] polling_def set_attempt_def\<close>)
  then show ?thesis using assms(1)
    by (auto simp: attempt_effects_def reauth_effect_def mount_ok intro: same_view_ok [OF same_view_logs(3)])
qed

lemma blank_ok: "login_ok (blank_hook cx)"
  by (simp add: blank_hook_def login_ok_def part_defs createLoginAttempt_def initialAddAccountState_def dialog_defs Let_def)

interpretation login_machine: machine "\<lambda>h. h = attempt_effects cx (blank_hook cx)" "login_step cx" login_ok for cx
proof
  show "login_ok h" if "h = attempt_effects cx (blank_hook cx)" for h
    using that effects_ok [OF blank_ok] by (simp add: polling_def blank_hook_def createLoginAttempt_def)
  show "login_ok t" if "login_ok s" "login_step cx s t" for s t
    using that(2)
  proof cases
    case (step_start i e)
    then have "\<not> polling s" using login_okD(2) [OF that(1)] by (auto simp: dialog_ok_def authorizing_def Let_def)
    then show ?thesis unfolding step_start by (rule start_ok [OF that(1) _ step_start(2)])
  next
    case step_mount
    then have "\<not> polling s" using login_okD(1) [OF that(1)] by (simp add: poll_ok_def Let_def)
    then show ?thesis unfolding step_mount by (rule effects_ok [OF that(1)])
  qed (use that(1) in \<open>auto simp: sync_manualCodePhase_def intro: same_view_ok [OF same_view_dispatch] login_settles_ok tick_begins_ok
      tick_settles_ok deadline_ok submit_ok code_settles_ok same_view_ok [OF same_view_attempt(3)] closeModal_ok
      ends_attempt_ok [OF cleanup_ends]\<close>)
qed

section \<open>Properties\<close>

abbreviation login_reach :: "attempt_context \<Rightarrow> login_hook \<Rightarrow> bool" where
  "login_reach cx \<equiv> reach (\<lambda>h. h = attempt_effects cx (blank_hook cx)) (login_step cx)"

lemma abandoned_call:
  assumes "lc_controller c \<in> lh_aborted h"
  shows "login_settles cx c answer h = h\<lparr>lh_logins := remove1 c (lh_logins h)\<rparr>"
  using assms by (simp add: login_settles_def conflict_cancelled_def decodeCodexAuthConflictStep_def Let_def)

lemma abandoned_tick:
  assumes "poll \<in> lh_aborted h"
  shows "pollStatusOnce_settles cx poll answer h =
    h\<lparr>lh_ticks := remove1 poll (lh_ticks h), lh_attempt := (lh_attempt h)\<lparr>at_pollInFlight := False\<rparr>\<rparr>"
  using assms by (simp add: pollStatusOnce_settles_def stale_tick applyPollDecision_def set_attempt_def)

lemma cancelled_dialog:
  assumes "lh_dialog h = Authorizing a"
  shows "lh_dialog (cancelLogin (resetManualCode h)) =
    Authorizing (a\<lparr>au_flowId := None, au_authUrl := [], au_manualCode := [], au_manualCodeStatus := Idle, au_notice := None\<rparr>)"
  using assms by (simp add: cancelLogin_def op_defs authorized_def addAccountReducer.simps Let_def)

lemma deadline_outcome:
  assumes ok: "login_ok h" and "polling h"
  shows "let h' = onLoginWindowClosed cx h in
      \<not> polling h' \<and> at_flow (lh_attempt h') = None \<and> set (lh_ticks h') \<subseteq> lh_aborted h' \<and> lh_added h' = lh_added h
      \<and> lh_traffic h' = lh_traffic h @ map (\<lambda>f. CancelPost (Some f)) (case at_flow (lh_attempt h) of None \<Rightarrow> [] | Some f \<Rightarrow> [f])
      \<and> (case lh_dialog h' of
            Choosing i e \<Rightarrow> \<not> given (cx_reauthAccountId cx) \<and> e = Some (cx_t cx ''modal.loginTimeout'')
          | Authorizing a \<Rightarrow> given (cx_reauthAccountId cx) \<and> au_error a = Some (cx_t cx ''modal.loginTimeout'') \<and> au_authUrl a = [])"
proof -
  have alive: "at_alive (lh_attempt h)" using login_okD(1) [OF ok] assms(2) by (auto simp: poll_ok_def Let_def)
  have "authorizing (lh_dialog h)" using login_okD(2) [OF ok] assms(2) by (simp add: dialog_ok_def Let_def)
  then obtain a where a: "lh_dialog h = Authorizing a" by (auto simp: authorizing_def split: add_account_state.splits)
  let ?c = "cancelLogin (resetManualCode h)"
  have c: "at_alive (lh_attempt ?c)" "lh_added ?c = lh_added h"
    "lh_traffic ?c = lh_traffic h @ map (\<lambda>f. CancelPost (Some f)) (case at_flow (lh_attempt h) of None \<Rightarrow> [] | Some f \<Rightarrow> [f])"
    using alive by (simp_all add: cancelLogin_def op_defs Let_def split: option.split)
  have w: "onLoginWindowClosed cx h = fail_attempt cx (cx_t cx ''modal.loginTimeout'') ?c"
    using assms(2) by (simp add: onLoginWindowClosed_def decodeCodexAuthTimeoutApplies_def polling_def)
  have f: "lh_attempt (fail_attempt cx e k) = lh_attempt k" "lh_traffic (fail_attempt cx e k) = lh_traffic k"
    "lh_added (fail_attempt cx e k) = lh_added k" for e k by (simp_all add: fail_attempt_def dispatch_def)
  have p: "\<not> polling (onLoginWindowClosed cx h)"
    using ended_not_polling [OF cancelLogin_ends] by (simp add: w polling_def f)
  show ?thesis
    using p idle_attempt [OF deadline_ok [OF ok] p] c cancelled_dialog [OF a] unfolding Let_def
    by (simp add: w f) (simp add: fail_attempt_def dispatch_def addAccountReducer.simps)
qed

lemma done_outcome:
  assumes ok: "login_ok h" and t: "poll \<in> set (lh_ticks h)" "poll \<notin> lh_aborted h" "ls_status s = ''done''"
  shows "let h' = pollStatusOnce_settles cx poll (StatusRead (Some s)) h in
      \<not> polling h' \<and> at_flow (lh_attempt h') = None \<and> set (lh_ticks h') \<subseteq> lh_aborted h' \<and> lh_traffic h' = lh_traffic h
      \<and> lh_added h' = lh_added h @ [codexAccountMutationCompletion (ls_document s)] \<and> lh_closed h' = lh_closed h + 1"
proof -
  let ?h = "pollStatusOnce_settles cx poll (StatusRead (Some s)) h"
  have alive: "at_alive (lh_attempt h)" by (rule current_tick(3) [OF ok t(1,2)])
  have d: "tick_decision poll (StatusRead (Some s)) h = PollDone (ls_document s)"
    using t alive by (simp add: tick_decision_def decodeCodexAuthPollTick_def)
  note u = pollStatusOnce_settles_def d applyPollDecision_def poll_ended_def op_defs Let_def onAdded_def onClose_def
  have "\<not> polling ?h" by (simp add: u alive polling_def)
  moreover from this have "set (lh_ticks ?h) \<subseteq> lh_aborted ?h" by (rule idle_attempt(7) [OF tick_settles_ok [OF ok t(1)]])
  moreover have "at_flow (lh_attempt ?h) = None \<and> lh_traffic ?h = lh_traffic h \<and> lh_closed ?h = lh_closed h + 1
      \<and> lh_added ?h = lh_added h @ [codexAccountMutationCompletion (ls_document s)]" by (simp add: u alive)
  ultimately show ?thesis by (simp add: Let_def)
qed

text \<open>A login on a fresh dialog: two starts, the second opened and polled, then closed.\<close>

definition demo_cx :: attempt_context where
  "demo_cx = \<lparr>cx_apiBase = [], cx_reauthAccountId = None, cx_t = (\<lambda>k. k), cx_tError = (\<lambda>k e. e)\<rparr>"

definition demo_call :: "nat \<Rightarrow> login_call" where
  "demo_call i = \<lparr>lc_controller = i, lc_stage = FirstPost, lc_requestedId = Some []\<rparr>"

definition demo_opened :: "string \<Rightarrow> login_answer" where
  "demo_opened flow = Answered 200 [] (Some \<lparr>re_url = Some ''u'', re_flowId = Some flow, re_error = None\<rparr>)"

definition demo_started :: login_hook where
  "demo_started = startOAuth_begins demo_cx (Some []) (startOAuth_begins demo_cx (Some []) (attempt_effects demo_cx (blank_hook demo_cx)))"

definition demo_watching :: login_hook where
  "demo_watching = login_settles demo_cx (demo_call 1) (demo_opened ''A'') demo_started"

definition demo_polled :: login_hook where
  "demo_polled = pollStatusOnce_begins 2 ''/api/codex-auth/login-status?flowId=A'' demo_watching"

definition demo_left :: login_hook where
  "demo_left = closeModal demo_polled"

lemmas demo_defs = op_defs demo_cx_def demo_call_def demo_opened_def attempt_effects_def reauth_effect_def blank_hook_def
  createLoginAttempt_def initialAddAccountState_def given_def startOAuth_begins_def requestLogin_begins_def
  codexAuthLoginRequestBody_def codexAuthLoginAccountId_def addAccountReducer.simps authorized_def new_authorization_def
  EMPTY_AUTHORIZATION_def Let_def

lemmas demo_answer_defs = login_settles_def first_post_answered_def retry_answered_def startOAuth_ends_def readJsonOrThrow_def
  decodeCodexAuthLoginOpened_def watchFlow_def codexAuthLoginStatusUrl_def encodeURIComponent_def encodeURIComponent_char_def
  uri_safe_def pollStatusOnce_begins_def closeModal_def cancelLogin_def onClose_def

lemma demo_started_simps:
  "lh_dialog demo_started = Choosing [] None" "at_alive (lh_attempt demo_started)" "lh_logins demo_started = [demo_call 0, demo_call 1]"
  by (simp_all add: demo_started_def demo_defs trim_def trim_start_def trim_end_def)

lemma demo_watching_simps:
  "at_stopPoll (lh_attempt demo_watching) = Some (2, ''/api/codex-auth/login-status?flowId=A'')"
  "at_alive (lh_attempt demo_watching)"
  by (simp_all add: demo_watching_def demo_started_def demo_answer_defs demo_defs trim_def trim_start_def trim_end_def)

lemma demo_polled_simps:
  "at_alive (lh_attempt demo_polled)" "polling demo_polled" "lh_ticks demo_polled = [2]" "lh_aborted demo_polled = {0}"
  "lh_opened demo_polled = [Some ''A'']" "at_flow (lh_attempt demo_polled) = Some ''A''"
  by (simp_all add: polling_def demo_polled_def demo_watching_def demo_started_def demo_answer_defs demo_defs
      trim_def trim_start_def trim_end_def)

lemma demo_left_simps:
  "lh_ticks demo_left = [2]" "lh_aborted demo_left = {0, 1, 2}" "lh_logins demo_left = [demo_call 0]"
  "at_pollAbort (lh_attempt demo_left) = None" "at_loginAbort (lh_attempt demo_left) = None"
  by (auto simp: demo_left_def demo_polled_def demo_watching_def demo_started_def demo_answer_defs demo_defs
      trim_def trim_start_def trim_end_def)

lemma demo_reach:
  "login_reach demo_cx demo_started" "login_reach demo_cx demo_watching" "login_reach demo_cx demo_polled" "login_reach demo_cx demo_left"
proof -
  let ?h = "attempt_effects demo_cx (blank_hook demo_cx)"
  have fresh: "lh_dialog ?h = Choosing [] None" "at_alive (lh_attempt ?h)"
    "lh_dialog (startOAuth_begins demo_cx (Some []) ?h) = Choosing [] None" "at_alive (lh_attempt (startOAuth_begins demo_cx (Some []) ?h))"
    by (simp_all add: demo_defs)
  have "login_reach demo_cx (startOAuth_begins demo_cx (Some []) ?h)"
    by (rule reach_step, rule reach_init, rule refl, rule step_start [OF fresh(2,1)])
  then show s: "login_reach demo_cx demo_started"
    unfolding demo_started_def by (rule reach_step) (rule step_start [OF fresh(4,3)])
  show w: "login_reach demo_cx demo_watching"
    unfolding demo_watching_def by (rule reach_step [OF s]) (rule step_login_settles, simp add: demo_started_simps)
  show p: "login_reach demo_cx demo_polled"
    unfolding demo_polled_def by (rule reach_step [OF w]) (rule step_tick, rule demo_watching_simps)
  show "login_reach demo_cx demo_left"
    unfolding demo_left_def by (rule reach_step [OF p]) (rule step_close, rule demo_polled_simps)
qed

section \<open>A code answered late\<close>

text \<open>\<^verbatim>\<open>submitManualCode\<close> does not compare the flow its code went to with the flow being authorized when the
  answer arrives. A code for one flow, accepted after that flow failed and the next was opened, marks the
  next flow's code as awaited, and its own code can then not be submitted.\<close>

definition demo_submitted :: login_hook where
  "demo_submitted = submitManualCode_begins (dispatch (ManualCodeChanged ''x'') demo_polled)"

definition demo_failed :: login_hook where
  "demo_failed = pollStatusOnce_settles demo_cx 2
     (StatusRead (Some \<lparr>ls_status = ''error'', ls_error = None, ls_document = JNull\<rparr>)) demo_submitted"

definition demo_again :: login_hook where
  "demo_again = login_settles demo_cx (demo_call 3) (demo_opened ''B'') (startOAuth_begins demo_cx (Some []) demo_failed)"

definition demo_late :: login_hook where
  "demo_late = submitManualCode_settles demo_cx ''A'' CodeAccepted demo_again"

lemma demo_late_simps:
  "lh_ticks demo_submitted = [2]" "lh_codes demo_submitted = [''A'']"
  "lh_dialog demo_failed = Choosing [] (Some ''codexAuth.loginFailed'')" "at_alive (lh_attempt demo_failed)"
  "lh_logins (startOAuth_begins demo_cx (Some []) demo_failed) = [demo_call 0, demo_call 3]" "lh_codes demo_again = [''A'']"
  by code_simp+

lemma late_code_blocks_next_flow:
  "login_reach demo_cx demo_late \<and> at_flow (lh_attempt demo_late) = Some ''B'' \<and> lh_codes demo_late = []
   \<and> list_all (\<lambda>r. case r of CodePost f _ \<Rightarrow> f \<noteq> ''B'' | _ \<Rightarrow> True) (lh_traffic demo_late)
   \<and> manualCodeStatus (lh_dialog demo_late) = Awaiting \<and> submitManualCode_begins demo_late = demo_late"
proof -
  have "login_reach demo_cx (dispatch (ManualCodeChanged ''x'') demo_polled)"
    by (rule reach_step [OF demo_reach(3)]) (rule step_code, rule demo_polled_simps)
  then have "login_reach demo_cx demo_submitted"
    unfolding demo_submitted_def by (rule reach_step) (rule step_submit, simp add: dispatch_def demo_polled_simps)
  then have "login_reach demo_cx demo_failed"
    unfolding demo_failed_def by (rule reach_step) (rule step_tick_settles, simp add: demo_late_simps)
  then have "login_reach demo_cx (startOAuth_begins demo_cx (Some []) demo_failed)"
    by (rule reach_step) (rule step_start [OF demo_late_simps(4,3)])
  then have "login_reach demo_cx demo_again"
    unfolding demo_again_def by (rule reach_step) (rule step_login_settles, simp add: demo_late_simps)
  then have "login_reach demo_cx demo_late"
    unfolding demo_late_def by (rule reach_step) (rule step_code_settles, simp add: demo_late_simps)
  moreover have "at_flow (lh_attempt demo_late) = Some ''B''" "lh_codes demo_late = []"
      "manualCodeStatus (lh_dialog demo_late) = Awaiting"
      "list_all (\<lambda>r. case r of CodePost f _ \<Rightarrow> f \<noteq> ''B'' | _ \<Rightarrow> True) (lh_traffic demo_late)"
    by code_simp+
  moreover from this(3) have "submitManualCode_begins demo_late = demo_late"
    by (simp add: submitManualCode_begins_def codexAuthManualCodeBlocked_def)
  ultimately show ?thesis by blast
qed

section \<open>What the login guarantees\<close>

text \<open>C17: no login flow is leaked or released twice. In every state the login dialog can reach, in whatever order the
  listener answers, the timers fire and the operator clicks, each flow was opened exactly as often as
  it was cancelled or reported over by the listener, plus once while it is the current one. The dialog shows the
  flow the attempt holds; while it shows an address or holds a flow, one poll that was not aborted is
  running with its deadline armed; and once unmounted nothing of the attempt is left.\<close>

theorem login_flows_released:
  assumes "login_reach cx h"
  shows "let a = lh_attempt h in
     (\<forall>f. count_list (lh_opened h) (Some f) =
        count_list (lh_ended h) (Some f) + count_list (lh_traffic h) (CancelPost (Some f)) + (if at_flow a = Some f then 1 else 0))
     \<and> length (lh_added h) \<le> length (lh_opened h) \<and> dialog_flow (lh_dialog h) = at_flow a
     \<and> (dialog_url (lh_dialog h) \<noteq> [] \<or> at_flow a \<noteq> None \<longrightarrow>
          (\<exists>poll url. at_stopPoll a = Some (poll, url) \<and> at_deadline a = Some poll \<and> at_pollAbort a = Some poll \<and> poll \<notin> lh_aborted h))
     \<and> (\<not> at_alive a \<longrightarrow> at_flow a = None \<and> at_stopPoll a = None \<and> at_deadline a = None \<and> at_loginAbort a = None
          \<and> dialog_url (lh_dialog h) = [])"
proof -
  have ok: "login_ok h" using assms by (rule login_machine.reachable_inv)
  note o = login_okD [OF ok]
  have "\<exists>poll url. at_stopPoll (lh_attempt h) = Some (poll, url) \<and> at_deadline (lh_attempt h) = Some poll
      \<and> at_pollAbort (lh_attempt h) = Some poll \<and> poll \<notin> lh_aborted h" if "polling h"
    using o(1) that unfolding poll_ok_def polling_def Let_def by auto
  moreover have "at_flow (lh_attempt h) = None \<and> at_stopPoll (lh_attempt h) = None \<and> at_deadline (lh_attempt h) = None
      \<and> at_loginAbort (lh_attempt h) = None \<and> dialog_url (lh_dialog h) = []" if "\<not> at_alive (lh_attempt h)"
    using o(1,3) that idle_attempt [OF ok] by (simp add: poll_ok_def calls_ok_def Let_def)
  ultimately show ?thesis using o(2,4) by (simp add: dialog_ok_def flows_ok_def times_released_def Let_def)
qed

theorem login_flows_released_witness:
  "count_list (lh_opened demo_polled) (Some ''A'') = 1
   \<and> (\<exists>poll url. at_stopPoll (lh_attempt demo_polled) = Some (poll, url) \<and> poll \<notin> lh_aborted demo_polled)
   \<and> count_list (lh_ended demo_left) (Some ''A'') + count_list (lh_traffic demo_left) (CancelPost (Some ''A'')) \<le> count_list (lh_opened demo_left) (Some ''A'')"
  using login_flows_released [OF demo_reach(3)] login_flows_released [OF demo_reach(4)]
  by (auto simp: Let_def demo_polled_simps)

text \<open>A late answer of an earlier login changes nothing. In every reachable state, a status read that belongs to any poll
  but the running one, and a login request that is not the newest or was withdrawn, can be answered in any
  way: neither the dialog, nor the attempt's flow, timers and counters, nor the requests sent and the
  results handed over are touched.\<close>

theorem late_login_answers_inert:
  assumes "login_reach cx h"
  shows "(poll \<in> set (lh_ticks h) \<and> at_pollAbort (lh_attempt h) \<noteq> Some poll \<longrightarrow>
        pollStatusOnce_settles cx poll answer h =
          h\<lparr>lh_ticks := remove1 poll (lh_ticks h), lh_attempt := (lh_attempt h)\<lparr>at_pollInFlight := False\<rparr>\<rparr>)
    \<and> (c \<in> set (lh_logins h) \<and> (at_loginAbort (lh_attempt h) \<noteq> Some (lc_controller c) \<or> polling h) \<longrightarrow>
        login_settles cx c reply h = h\<lparr>lh_logins := remove1 c (lh_logins h)\<rparr>)"
proof -
  have ok: "login_ok h" using assms by (rule login_machine.reachable_inv)
  have "poll \<in> lh_aborted h" if "poll \<in> set (lh_ticks h)" "at_pollAbort (lh_attempt h) \<noteq> Some poll"
    using current_tick(1) [OF ok that(1)] that(2) by blast
  moreover have "lc_controller c \<in> lh_aborted h"
    if "c \<in> set (lh_logins h)" "at_loginAbort (lh_attempt h) \<noteq> Some (lc_controller c) \<or> polling h"
    using login_okD(3) [OF ok] that unfolding calls_ok_def Let_def by blast
  ultimately show ?thesis using abandoned_tick abandoned_call by blast
qed

theorem late_login_answers_inert_witness:
  "pollStatusOnce_settles demo_cx 2 (StatusRead None) demo_left =
      demo_left\<lparr>lh_ticks := [], lh_attempt := (lh_attempt demo_left)\<lparr>at_pollInFlight := False\<rparr>\<rparr>
   \<and> login_settles demo_cx (demo_call 0) (demo_opened ''B'') demo_left = demo_left\<lparr>lh_logins := []\<rparr>"
  using late_login_answers_inert [OF demo_reach(4), of 2 "StatusRead None" "demo_call 0" "demo_opened ''B''"]
  by (simp add: demo_left_simps)

text \<open>A watched login ends, and in one way. While a poll runs, the deadline stops it, cancels the flow with the last
  request sent, hands nothing over and shows the timeout, on the choice or, when an account is re-authenticated,
  on the authorization without an address. A status that says done hands over exactly one
  completion and closes the dialog; either way no timer is left and every read still out is aborted.\<close>

theorem watched_login_ends:
  assumes "login_reach cx h" "polling h"
  shows "(let h' = onLoginWindowClosed cx h in
      \<not> polling h' \<and> at_flow (lh_attempt h') = None \<and> set (lh_ticks h') \<subseteq> lh_aborted h' \<and> lh_added h' = lh_added h
      \<and> lh_traffic h' = lh_traffic h @ map (\<lambda>f. CancelPost (Some f)) (case at_flow (lh_attempt h) of None \<Rightarrow> [] | Some f \<Rightarrow> [f])
      \<and> (case lh_dialog h' of
            Choosing i e \<Rightarrow> \<not> given (cx_reauthAccountId cx) \<and> e = Some (cx_t cx ''modal.loginTimeout'')
          | Authorizing a \<Rightarrow> given (cx_reauthAccountId cx) \<and> au_error a = Some (cx_t cx ''modal.loginTimeout'') \<and> au_authUrl a = []))
    \<and> (poll \<in> set (lh_ticks h) \<and> poll \<notin> lh_aborted h \<and> ls_status s = ''done'' \<longrightarrow>
      (let h' = pollStatusOnce_settles cx poll (StatusRead (Some s)) h in
      \<not> polling h' \<and> at_flow (lh_attempt h') = None \<and> set (lh_ticks h') \<subseteq> lh_aborted h' \<and> lh_traffic h' = lh_traffic h
      \<and> lh_added h' = lh_added h @ [codexAccountMutationCompletion (ls_document s)] \<and> lh_closed h' = lh_closed h + 1))"
proof -
  have ok: "login_ok h" using assms(1) by (rule login_machine.reachable_inv)
  then show ?thesis using deadline_outcome [OF ok assms(2)] done_outcome [OF ok] by blast
qed

theorem watched_login_ends_witness:
  "lh_traffic (onLoginWindowClosed demo_cx demo_polled) = lh_traffic demo_polled @ [CancelPost (Some ''A'')]
   \<and> (\<forall>doc. lh_added (pollStatusOnce_settles demo_cx 2 (StatusRead (Some \<lparr>ls_status = ''done'', ls_error = None, ls_document = doc\<rparr>)) demo_polled)
        = lh_added demo_polled @ [codexAccountMutationCompletion doc])"
proof -
  have "lh_added (pollStatusOnce_settles demo_cx 2 (StatusRead (Some \<lparr>ls_status = ''done'', ls_error = None, ls_document = doc\<rparr>)) demo_polled)
      = lh_added demo_polled @ [codexAccountMutationCompletion doc]" for doc
    using watched_login_ends [OF demo_reach(3) demo_polled_simps(2), of 2 "\<lparr>ls_status = ''done'', ls_error = None, ls_document = doc\<rparr>"]
    by (simp add: Let_def demo_polled_simps)
  moreover have "lh_traffic (onLoginWindowClosed demo_cx demo_polled) = lh_traffic demo_polled @ [CancelPost (Some ''A'')]"
    using watched_login_ends [OF demo_reach(3) demo_polled_simps(2)] by (simp add: Let_def demo_polled_simps)
  ultimately show ?thesis by blast
qed

end
