(* ===== verification/Models_Catalog.thy ===== *)
theory Models_Catalog
  imports Model_Visibility Js_Numbers "HOL-Library.AList" "HOL-Library.Multiset"
begin

text \<open>
  \<^verbatim>\<open>gui/src/models-groups.ts\<close>, \<^verbatim>\<open>gui/src/pages/models-catalog-filter.ts\<close>, \<^verbatim>\<open>gui/src/pages/models-provider-grp-data.ts\<close>,
  the data of \<^verbatim>\<open>gui/src/pages/models-shared.ts\<close>, the plan of \<^verbatim>\<open>gui/src/pages/models-page-orchestration.ts\<close> and
  \<^verbatim>\<open>saveModelContexts\<close> of \<^verbatim>\<open>gui/src/pages/Models.tsx\<close>: how the models board groups its rows by provider, filters
  and pages them, and keeps the context windows that were changed but not read back yet.

  An object used as a dictionary is an association list in insertion order; \<open>object_entries\<close> gives the order
  in which JavaScript lists it. A key that a plain object inherits is found by a read, which matters where
  the groups are collected and is modelled there; elsewhere names are own properties. \<^verbatim>\<open>localeCompare\<close>,
  \<^verbatim>\<open>toLocaleString\<close> and the translations are parameters. The order of two token counts is that of
  JavaScript numbers.
\<close>

section \<open>Dictionaries and numbers\<close>

definition array_index :: "string \<Rightarrow> bool" where
  "array_index s \<longleftrightarrow> s \<noteq> [] \<and> list_all is_digit s \<and> (s = ''0'' \<or> hd s \<noteq> CHR ''0'') \<and> int (read_digits s) < 4294967295"

text \<open>\<^verbatim>\<open>Object.entries\<close>: array indices first, in ascending order, then the other keys as they were added.\<close>

definition object_entries :: "(string \<times> 'a) list \<Rightarrow> (string \<times> 'a) list" where
  "object_entries ps =
     sort_key (\<lambda>p. read_digits (fst p)) (filter (\<lambda>p. array_index (fst p)) ps) @ filter (\<lambda>p. \<not> array_index (fst p)) ps"

text \<open>\<^verbatim>\<open>Object.fromEntries\<close>: a later entry replaces the value of an earlier one with its key.\<close>

definition from_entries :: "(string \<times> 'a) list \<Rightarrow> (string \<times> 'a) list" where
  "from_entries ps = foldl (\<lambda>acc p. AList.update (fst p) (snd p) acc) [] ps"

definition inherited_names :: "string list" where
  "inherited_names = [''constructor'', ''__defineGetter__'', ''__defineSetter__'', ''hasOwnProperty'', ''__lookupGetter__'',
     ''__lookupSetter__'', ''isPrototypeOf'', ''propertyIsEnumerable'', ''toString'', ''valueOf'', ''__proto__'', ''toLocaleString'']"

fun num_less :: "jsnum \<Rightarrow> jsnum \<Rightarrow> bool" where
  "num_less (Fin a) (Fin b) = (a < b)"
| "num_less (Fin _) PosInf = True"
| "num_less NegInf (Fin _) = True"
| "num_less NegInf PosInf = True"
| "num_less _ _ = False"

definition num_same :: "jsnum \<Rightarrow> jsnum \<Rightarrow> bool" where
  "num_same a b \<longleftrightarrow> a = b \<and> a \<noteq> NaN"

abbreviation above_zero :: "jsnum \<Rightarrow> bool" where
  "above_zero n \<equiv> num_less (Fin 0) n"

definition positive_finite :: "jsnum \<Rightarrow> bool" where
  "positive_finite n \<longleftrightarrow> num_is_finite n \<and> above_zero n"

definition safe_positive :: "jsnum \<Rightarrow> bool" where
  "safe_positive n \<longleftrightarrow> num_is_integer n \<and> above_zero n \<and> num_less n (Fin (2 ^ 53))"

definition by_number :: "jsnum \<Rightarrow> jsnum \<Rightarrow> int" where
  "by_number a b = (if num_less a b then -1 else if num_less b a then 1 else 0)"

section \<open>Rows and providers\<close>

record model_row =
  mr_provider :: string
  mr_id :: string
  mr_namespaced :: string
  mr_displayName :: "string option"
  mr_contextWindow :: "jsnum option"
  mr_standardContextWindow :: "jsnum option"
  mr_inputModalities :: "string list option"
  mr_contextCap :: "jsnum option"
  mr_contextCapped :: "bool option"
  mr_native :: "bool option"
  mr_custom :: "bool option"
  mr_customId :: "string option"
  mr_disabled :: bool
  mr_reasoningEfforts :: "string list option"

datatype discovery_summary = DiscoveryOk | DiscoveryFailed string "nat option"

type_synonym windows = "(string \<times> jsnum) list"
type_synonym window_patch = "(string \<times> jsnum option) list"

record provider_summary =
  ps_name :: string
  ps_authMode :: "string option"
  ps_disabled :: "bool option"
  ps_liveModels :: "bool option"
  ps_models :: "string list option"
  ps_contextWindow :: "jsnum option"
  ps_modelContextWindows :: "windows option"
  ps_discovery :: "discovery_summary option"

record provider_group =
  gr_provider :: string
  gr_rows :: "model_row list"
  gr_native :: bool
  gr_nativeProviderGroup :: bool
  gr_liveModels :: bool
  gr_catalogProbe :: bool
  gr_configuredModels :: "string list"
  gr_contextWindow :: "jsnum option"
  gr_modelContextWindows :: "windows option"
  gr_discovery :: "discovery_summary option"

record context_patch =
  cp_provider :: string
  cp_windows :: window_patch

record config_overlay =
  ov_authMode :: "string option"
  ov_liveModels :: "bool option"
  ov_modelContextWindows :: "windows option"

section \<open>Reading the configuration\<close>

definition asRecord :: "json option \<Rightarrow> (string \<times> json) list option" where
  "asRecord v = (case v of Some (JObj ps) \<Rightarrow> Some ps | _ \<Rightarrow> None)"

definition accept_window :: "windows \<Rightarrow> string \<times> json \<Rightarrow> windows" where
  "accept_window accepted entry =
     (let i = trim (fst entry) in
      if i = [] then accepted
      else case snd entry of JNum n \<Rightarrow> if positive_finite n then AList.update i n accepted else accepted | _ \<Rightarrow> accepted)"

definition readContextWindows :: "json option \<Rightarrow> windows option" where
  "readContextWindows v =
     (case asRecord v of
        None \<Rightarrow> None
      | Some record \<Rightarrow>
          (let accepted = foldl accept_window [] (object_entries record) in if accepted = [] then None else Some accepted))"

definition readProviderOverlay :: "json option \<Rightarrow> config_overlay option" where
  "readProviderOverlay v =
     (case asRecord v of
        None \<Rightarrow> None
      | Some record \<Rightarrow> Some
          \<lparr>ov_authMode = (case map_of record ''authMode'' of Some (JStr s) \<Rightarrow> Some s | _ \<Rightarrow> None),
           ov_liveModels = (case map_of record ''liveModels'' of Some (JBool b) \<Rightarrow> Some b | _ \<Rightarrow> None),
           ov_modelContextWindows = readContextWindows (map_of record ''modelContextWindows'')\<rparr>)"

definition catalogProbeSupported :: "string option \<Rightarrow> bool \<Rightarrow> bool" where
  "catalogProbeSupported authMode liveModels =
     (if \<not> liveModels then False
      else to_lower (trim (case authMode of Some s \<Rightarrow> s | None \<Rightarrow> [])) \<noteq> ''forward'')"

definition or_else :: "'a option \<Rightarrow> 'a option \<Rightarrow> 'a option" where
  "or_else a b = (case a of Some x \<Rightarrow> Some x | None \<Rightarrow> b)"

definition apply_overlay :: "config_overlay \<Rightarrow> provider_summary \<Rightarrow> provider_summary" where
  "apply_overlay ov p =
     p\<lparr>ps_authMode := or_else (ov_authMode ov) (ps_authMode p), ps_liveModels := or_else (ov_liveModels ov) (ps_liveModels p),
       ps_modelContextWindows := or_else (ov_modelContextWindows ov) (ps_modelContextWindows p)\<rparr>"

definition mergeProviderCatalogMeta :: "provider_summary list \<Rightarrow> (string \<times> json) list option \<Rightarrow> provider_summary list" where
  "mergeProviderCatalogMeta listed configProviders =
     (case configProviders of
        None \<Rightarrow> listed
      | Some config \<Rightarrow>
          map (\<lambda>p. case readProviderOverlay (map_of config (ps_name p)) of None \<Rightarrow> p | Some ov \<Rightarrow> apply_overlay ov p) listed)"

section \<open>Context windows not read back yet\<close>

definition patch_window :: "windows \<Rightarrow> string \<times> jsnum option \<Rightarrow> windows" where
  "patch_window next_windows entry =
     (let i = trim (fst entry) in
      if i = [] then next_windows
      else case snd entry of
             None \<Rightarrow> AList.delete i next_windows
           | Some v \<Rightarrow> if positive_finite v then AList.update i v next_windows else next_windows)"

definition applyWindowPatch :: "provider_summary \<Rightarrow> window_patch \<Rightarrow> provider_summary" where
  "applyWindowPatch provider ws =
     (let changed = foldl patch_window (case ps_modelContextWindows provider of Some w \<Rightarrow> w | None \<Rightarrow> []) (object_entries ws)
      in provider\<lparr>ps_modelContextWindows := (if changed = [] then None else Some changed)\<rparr>)"

definition applyProviderModelContextWindows :: "provider_summary list \<Rightarrow> string \<Rightarrow> window_patch \<Rightarrow> provider_summary list" where
  "applyProviderModelContextWindows providers provider ws =
     map (\<lambda>item. if ps_name item = provider then applyWindowPatch item ws else item) providers"

definition overlayPendingModelContextWindows :: "provider_summary list \<Rightarrow> context_patch list \<Rightarrow> provider_summary list" where
  "overlayPendingModelContextWindows providers pending =
     foldl (\<lambda>state patch. applyProviderModelContextWindows state (cp_provider patch) (cp_windows patch)) providers pending"

definition modelContextWindowsPatchApplied :: "provider_summary list \<Rightarrow> string \<Rightarrow> window_patch \<Rightarrow> bool" where
  "modelContextWindowsPatchApplied providers provider ws =
     (case find (\<lambda>item. ps_name item = provider) providers of
        None \<Rightarrow> False
      | Some row \<Rightarrow>
          (let current = (case ps_modelContextWindows row of Some w \<Rightarrow> w | None \<Rightarrow> []) in
           list_all (\<lambda>(i, v). case v of None \<Rightarrow> map_of current i = None
                                | Some n \<Rightarrow> (case map_of current i of Some c \<Rightarrow> num_same c n | None \<Rightarrow> False))
             (object_entries ws)))"

definition remainingModelContextWindowPatches :: "provider_summary list \<Rightarrow> context_patch list \<Rightarrow> context_patch list" where
  "remainingModelContextWindowPatches providers pending =
     filter (\<lambda>patch. \<not> modelContextWindowsPatchApplied providers (cp_provider patch) (cp_windows patch)) pending"

section \<open>Groups\<close>

definition projectProviderGroup :: "string \<Rightarrow> model_row list \<Rightarrow> provider_summary option \<Rightarrow> provider_group" where
  "projectProviderGroup provider rows configured =
     (let nativeProviderGroup = list_ex (\<lambda>row. mr_native row = Some True) rows;
          liveModels = (Option.bind configured ps_liveModels \<noteq> Some False)
      in \<lparr>gr_provider = provider, gr_rows = rows,
          gr_native = (rows \<noteq> [] \<and> list_all (\<lambda>row. mr_native row = Some True) rows),
          gr_nativeProviderGroup = nativeProviderGroup, gr_liveModels = liveModels,
          gr_catalogProbe = (\<not> nativeProviderGroup \<and> catalogProbeSupported (Option.bind configured ps_authMode) liveModels),
          gr_configuredModels = (case Option.bind configured ps_models of Some ms \<Rightarrow> ms | None \<Rightarrow> []),
          gr_contextWindow = Option.bind configured ps_contextWindow,
          gr_modelContextWindows = Option.bind configured ps_modelContextWindows,
          gr_discovery = Option.bind configured ps_discovery\<rparr>)"

definition compareProviderGroups :: "(string \<Rightarrow> string \<Rightarrow> int) \<Rightarrow> provider_group \<Rightarrow> provider_group \<Rightarrow> int" where
  "compareProviderGroups localeCompare a b =
     (if gr_nativeProviderGroup a \<noteq> gr_nativeProviderGroup b then (if gr_nativeProviderGroup a then -1 else 1)
      else localeCompare (gr_provider a) (gr_provider b))"

type_synonym rows_by_provider = "(string \<times> model_row list) list"

text \<open>A read of a name the object inherits is not nullish, so nothing is assigned, and a row cannot be pushed
  onto what was found.\<close>

fun collect_rows :: "string set \<Rightarrow> rows_by_provider \<Rightarrow> model_row list \<Rightarrow> (string, rows_by_provider) result" where
  "collect_rows disabled acc [] = Inr acc"
| "collect_rows disabled acc (row # rows) =
     (let provider = mr_provider row in
      if provider \<in> disabled then collect_rows disabled acc rows
      else case map_of acc provider of
             Some found \<Rightarrow> collect_rows disabled (AList.update provider (found @ [row]) acc) rows
           | None \<Rightarrow> if provider \<in> set inherited_names then Inl ''TypeError''
                     else collect_rows disabled (AList.update provider [row] acc) rows)"

definition add_empty_group :: "rows_by_provider \<Rightarrow> provider_summary \<Rightarrow> rows_by_provider" where
  "add_empty_group acc p =
     (if ps_disabled p = Some True then acc
      else if map_of acc (ps_name p) \<noteq> None \<or> ps_name p \<in> set inherited_names then acc
      else AList.update (ps_name p) [] acc)"

definition buildProviderModelGroups ::
  "(string \<Rightarrow> string \<Rightarrow> int) \<Rightarrow> model_row list \<Rightarrow> provider_summary list \<Rightarrow> (string, provider_group list) result" where
  "buildProviderModelGroups localeCompare rows providers =
     (let disabled = ps_name ` set (filter (\<lambda>p. ps_disabled p = Some True) providers);
          configured = from_entries (map (\<lambda>p. (ps_name p, p)) providers)
      in bindR (collect_rows disabled [] rows) (\<lambda>collected.
           Inr (sort_by (compareProviderGroups localeCompare)
             (map (\<lambda>(provider, rs). projectProviderGroup provider rs (map_of configured provider))
               (object_entries (foldl add_empty_group collected providers))))))"

section \<open>Filters and counts\<close>

datatype visibility_filter = ShowAll | ShowVisible | ShowHidden

record catalog_filter =
  cf_provider :: "string option"
  cf_query :: string
  cf_visibility :: visibility_filter
  cf_providerLabel :: "string \<Rightarrow> string"
  cf_isVisible :: "string \<Rightarrow> model_row \<Rightarrow> bool"

definition provider_hit :: "catalog_filter \<Rightarrow> provider_group \<Rightarrow> bool" where
  "provider_hit f grp =
     (let query = to_lower (trim (cf_query f)) in
      query = [] \<or> str_includes (to_lower (gr_provider grp)) query
      \<or> str_includes (to_lower (cf_providerLabel f (gr_provider grp))) query)"

definition row_shown :: "catalog_filter \<Rightarrow> provider_group \<Rightarrow> model_row \<Rightarrow> bool" where
  "row_shown f grp model =
     (let query = to_lower (trim (cf_query f)) in
      if cf_visibility f = ShowVisible \<and> \<not> cf_isVisible f (gr_provider grp) model then False
      else if cf_visibility f = ShowHidden \<and> cf_isVisible f (gr_provider grp) model then False
      else if query = [] then True
      else if provider_hit f grp then True
      else str_includes (to_lower (mr_id model)) query)"

fun filterCatalogGroups :: "provider_group list \<Rightarrow> catalog_filter \<Rightarrow> provider_group list" where
  "filterCatalogGroups [] f = []"
| "filterCatalogGroups (grp # groups) f =
     (if cf_provider f \<noteq> None \<and> cf_provider f \<noteq> Some (gr_provider grp) then filterCatalogGroups groups f
      else if gr_rows grp = [] then
        (if to_lower (trim (cf_query f)) \<noteq> [] \<and> \<not> provider_hit f grp then filterCatalogGroups groups f
         else if cf_visibility f \<noteq> ShowAll then filterCatalogGroups groups f
         else grp # filterCatalogGroups groups f)
      else let rows = filter (row_shown f grp) (gr_rows grp) in
           if rows = [] then filterCatalogGroups groups f
           else grp\<lparr>gr_rows := rows\<rparr> # filterCatalogGroups groups f)"

record footer_counts =
  fc_providers :: nat
  fc_models :: nat
  fc_visible :: nat

definition count_group :: "(string \<Rightarrow> model_row \<Rightarrow> bool) \<Rightarrow> footer_counts \<Rightarrow> provider_group \<Rightarrow> footer_counts" where
  "count_group isVisible c grp =
     c\<lparr>fc_models := fc_models c + length (gr_rows grp),
       fc_visible := foldl (\<lambda>n row. if isVisible (gr_provider grp) row then n + 1 else n) (fc_visible c) (gr_rows grp)\<rparr>"

definition catalogFooterCounts :: "provider_group list \<Rightarrow> (string \<Rightarrow> model_row \<Rightarrow> bool) \<Rightarrow> footer_counts" where
  "catalogFooterCounts groups isVisible =
     foldl (count_group isVisible) \<lparr>fc_providers = length groups, fc_models = 0, fc_visible = 0\<rparr> groups"

definition gpt56Family :: "string \<Rightarrow> bool" where
  "gpt56Family i = (let key = to_lower (trim i) in key = ''gpt-5.6'' \<or> starts_with key ''gpt-5.6-'')"

section \<open>Context windows offered\<close>

definition CATALOG_CONTEXT_PRESETS :: "jsnum list" where
  "CATALOG_CONTEXT_PRESETS = [Fin 32000, Fin 64000, Fin 128000, Fin 256000]"

definition CONTEXT_MAX_VALUE :: string where "CONTEXT_MAX_VALUE = ''max''"
definition CONTEXT_MIXED_VALUE :: string where "CONTEXT_MIXED_VALUE = ''mixed''"

definition staleCatalogPresetOverrides :: "windows option \<Rightarrow> windows \<Rightarrow> window_patch option" where
  "staleCatalogPresetOverrides overrides advertisedById =
     (let ids = map fst (object_entries advertisedById) in
      case overrides of
        None \<Rightarrow> None
      | Some ov \<Rightarrow>
          if ids = [] then None
          else case map_of ov (hd ids) of
                 None \<Rightarrow> None
               | Some chosen \<Rightarrow>
                   if chosen \<notin> set CATALOG_CONTEXT_PRESETS then None
                   else if \<not> list_all (\<lambda>i. map_of ov i = Some chosen) ids then None
                   else if \<not> list_ex (\<lambda>i. num_less chosen (case map_of advertisedById i of Some n \<Rightarrow> n | None \<Rightarrow> Fin 0)) ids then None
                   else Some (from_entries (map (\<lambda>i. (i, None)) ids)))"

definition given_window :: "jsnum option \<Rightarrow> bool" where
  "given_window v = (case v of Some n \<Rightarrow> above_zero n | None \<Rightarrow> False)"

definition modelContextDisplayValue :: "jsnum option \<Rightarrow> jsnum option \<Rightarrow> jsnum \<Rightarrow> jsnum" where
  "modelContextDisplayValue override advertised providerCap =
     (if given_window override then the override else if given_window advertised then the advertised else providerCap)"

definition modelAdvertisedMax :: "jsnum option \<Rightarrow> jsnum \<Rightarrow> jsnum option \<Rightarrow> jsnum" where
  "modelAdvertisedMax advertised providerCap nativeFloor =
     (let shown = (if given_window advertised then the advertised else providerCap) in
      case nativeFloor of Some n \<Rightarrow> if num_less shown n then n else shown | None \<Rightarrow> shown)"

datatype context_summary = ContextEmpty | ContextMixed | ContextValue jsnum

definition providerContextSummary :: "jsnum list \<Rightarrow> context_summary" where
  "providerContextSummary values =
     (case values of [] \<Rightarrow> ContextEmpty
      | chosen # _ \<Rightarrow> if list_all (\<lambda>v. num_same v chosen) values then ContextValue chosen else ContextMixed)"

definition allowedContextPresets :: "jsnum \<Rightarrow> jsnum list" where
  "allowedContextPresets advertisedMax =
     (if \<not> positive_finite advertisedMax then CATALOG_CONTEXT_PRESETS
      else filter (\<lambda>preset. \<not> num_less advertisedMax preset) CATALOG_CONTEXT_PRESETS)"

definition modelContextChoices :: "jsnum \<Rightarrow> jsnum option \<Rightarrow> jsnum list" where
  "modelContextChoices advertisedMax standard =
     (let choices = set_of (filter (\<lambda>preset. num_less preset advertisedMax) (allowedContextPresets advertisedMax));
          added = (case standard of
                     Some s \<Rightarrow> if above_zero s \<and> num_less s advertisedMax then set_add s choices else choices
                   | None \<Rightarrow> choices)
      in sort_by by_number added)"

definition providerAllowedContextPresets :: "jsnum list \<Rightarrow> jsnum list" where
  "providerAllowedContextPresets advertisedMaxes =
     (if advertisedMaxes = [] then CATALOG_CONTEXT_PRESETS
      else filter (\<lambda>preset. list_all (\<lambda>m. \<not> positive_finite m \<or> \<not> num_less m preset) advertisedMaxes) CATALOG_CONTEXT_PRESETS)"

definition providerContextChoices :: "jsnum list \<Rightarrow> jsnum option list \<Rightarrow> jsnum list" where
  "providerContextChoices advertisedMaxes standards =
     (let choices = set_of (filter (\<lambda>preset. list_all (\<lambda>m. \<not> positive_finite m \<or> num_less preset m) advertisedMaxes)
                             (providerAllowedContextPresets advertisedMaxes));
          added = (if length standards = length advertisedMaxes \<and> standards \<noteq> []
                   then case hd standards of
                          Some s \<Rightarrow>
                            if above_zero s \<and> list_all (\<lambda>(v, m). v = Some s \<and> num_less s m) (zip standards advertisedMaxes)
                            then set_add s choices else choices
                        | None \<Rightarrow> choices
                   else choices)
      in sort_by by_number added)"

definition contextSelectValue :: "jsnum \<Rightarrow> jsnum \<Rightarrow> jsnum option \<Rightarrow> string" where
  "contextSelectValue display advertisedMax override =
     (if \<not> given_window override \<and> num_same display advertisedMax \<and> above_zero advertisedMax then CONTEXT_MAX_VALUE
      else num_text display)"

definition isAdvertisedContextSelection :: "string \<Rightarrow> jsnum \<Rightarrow> bool" where
  "isAdvertisedContextSelection raw advertisedMax =
     (raw = CONTEXT_MAX_VALUE \<or> (let v = js_number raw in safe_positive v \<and> v = advertisedMax))"

definition catalogContextSelectOptions ::
  "(jsnum \<Rightarrow> string) \<Rightarrow> jsnum list \<Rightarrow> jsnum option \<Rightarrow> bool \<Rightarrow> string \<Rightarrow> string \<Rightarrow> (string \<times> string) list" where
  "catalogContextSelectOptions contextOptionLabel presets current mixed mixedLabel maxLabel =
     (if mixed then [(CONTEXT_MIXED_VALUE, mixedLabel)] else [])
     @ (case current of
          Some c \<Rightarrow> if \<not> mixed \<and> above_zero c \<and> c \<notin> set presets then [(num_text c, contextOptionLabel c)] else []
        | None \<Rightarrow> [])
     @ map (\<lambda>preset. (num_text preset, contextOptionLabel preset)) presets @ [(CONTEXT_MAX_VALUE, maxLabel)]"

definition providerContextBulkWindows :: "string \<Rightarrow> string list \<Rightarrow> window_patch option" where
  "providerContextBulkWindows raw modelIds =
     (if raw = CONTEXT_MIXED_VALUE \<or> modelIds = [] then None
      else if raw = CONTEXT_MAX_VALUE then Some (from_entries (map (\<lambda>i. (i, None)) modelIds))
      else let v = js_number raw in
           if \<not> safe_positive v then None else Some (from_entries (map (\<lambda>i. (i, Some v)) modelIds)))"

section \<open>Provider cards\<close>

definition DISCOVERY_FAILURE_KEYS :: "(string \<times> string) list" where
  "DISCOVERY_FAILURE_KEYS =
     [(''http'', ''models.discoveryFailedHttp''), (''blocked'', ''models.discoveryFailedBlocked''),
      (''invalid_response'', ''models.discoveryFailedInvalidResponse''), (''network'', ''models.discoveryFailedNetwork''),
      (''provider'', ''models.discoveryFailedProvider'')]"

definition discoveryFailureLabel :: "(string \<Rightarrow> nat option \<Rightarrow> string) \<Rightarrow> string \<Rightarrow> nat option \<Rightarrow> string" where
  "discoveryFailureLabel translate reason httpStatus =
     (let key = (case map_of DISCOVERY_FAILURE_KEYS reason of Some k \<Rightarrow> k | None \<Rightarrow> ''models.discoveryFailedGeneric'')
      in translate key httpStatus)"

definition CAP_OPTIONS :: "jsnum list" where
  "CAP_OPTIONS = map (\<lambda>index. Fin (100000 + of_nat index * 50000)) [0..<18]"

definition NATIVE_GPT56_DEFAULT_WINDOW :: jsnum where
  "NATIVE_GPT56_DEFAULT_WINDOW = Fin 1050000"

definition NATIVE_CAP_OPTIONS :: "jsnum list" where
  "NATIVE_CAP_OPTIONS = [Fin 272000, Fin 400000, Fin 922000, NATIVE_GPT56_DEFAULT_WINDOW]"

definition collectDisabledNamespaced :: "model_row list \<Rightarrow> string list" where
  "collectDisabledNamespaced rows = set_of (map mr_namespaced (filter mr_disabled rows))"

definition PAGE :: nat where "PAGE = 60"

text \<open>A stored preference: none, a text that cannot be read or parsed, or a parsed document.\<close>

datatype stored_document = StoredNothing | StoredUnreadable | Stored json

definition readCollapsedProviders :: "stored_document \<Rightarrow> string list option" where
  "readCollapsedProviders saved =
     (case saved of
        Stored (JArr entries) \<Rightarrow> Some (set_of (concat (map (\<lambda>e. case e of JStr s \<Rightarrow> [s] | _ \<Rightarrow> []) entries)))
      | _ \<Rightarrow> None)"

definition writeCollapsedProviders :: "string list \<Rightarrow> stored_document" where
  "writeCollapsedProviders collapsed = Stored (JArr (map JStr collapsed))"

fun widest_window :: "jsnum option \<Rightarrow> model_row list \<Rightarrow> jsnum option" where
  "widest_window widest [] = widest"
| "widest_window widest (row # rows) =
     (case mr_contextWindow row of
        None \<Rightarrow> widest_window widest rows
      | Some n \<Rightarrow>
          if n \<noteq> NaN \<and> \<not> above_zero n then widest_window widest rows
          else case widest of
                 None \<Rightarrow> widest_window (Some n) rows
               | Some w \<Rightarrow> widest_window (if num_less w n then Some n else widest) rows)"

definition widestAdvertisedWindow :: "model_row list \<Rightarrow> jsnum option" where
  "widestAdvertisedWindow rows = widest_window None rows"

definition providerCapDisplayValue :: "bool \<Rightarrow> jsnum \<Rightarrow> bool \<Rightarrow> model_row list \<Rightarrow> jsnum" where
  "providerCapDisplayValue capOn providerCap nativeProviderGroup rows =
     (if capOn then providerCap
      else if nativeProviderGroup then NATIVE_GPT56_DEFAULT_WINDOW
      else case widestAdvertisedWindow rows of Some n \<Rightarrow> n | None \<Rightarrow> providerCap)"

record card_rows =
  cr_shown :: "model_row list"
  cr_matched :: nat
  cr_remaining :: nat

definition hidden_rank :: "(model_row \<Rightarrow> bool) \<Rightarrow> model_row \<Rightarrow> model_row \<Rightarrow> int" where
  "hidden_rank isHidden a b = (if isHidden a then 1 else 0) - (if isHidden b then 1 else 0)"

definition providerCardRows :: "model_row list \<Rightarrow> string \<Rightarrow> nat \<Rightarrow> (model_row \<Rightarrow> bool) \<Rightarrow> card_rows" where
  "providerCardRows rows query pageSize isHidden =
     (let needle = to_lower (trim query);
          matched = filter (\<lambda>model. needle = [] \<or> str_includes (to_lower (mr_id model)) needle) rows;
          ordered = sort_by (hidden_rank isHidden) matched;
          shown = take pageSize ordered
      in \<lparr>cr_shown = shown, cr_matched = length matched, cr_remaining = length matched - length shown\<rparr>)"

record card_input =
  ki_collapsed :: "string list"
  ki_selectedModelMap :: provider_models
  ki_disabled :: "string list"
  ki_contextCaps :: "(string \<times> jsnum) list"
  ki_contextCapValue :: jsnum
  ki_search :: "(string \<times> string) list"
  ki_limit :: "(string \<times> nat) list"

record card_state =
  ks_isCollapsed :: bool
  ks_activeCount :: nat
  ks_capOn :: bool
  ks_providerCap :: jsnum
  ks_capDisplayValue :: jsnum
  ks_capOptions :: "jsnum list"
  ks_discoveryFailure :: "discovery_summary option"
  ks_visible :: "model_row list"
  ks_remaining :: nat
  ks_shown :: nat
  ks_hasRows :: bool
  ks_allOn :: bool
  ks_allOff :: bool

definition card_isVisible :: "card_input \<Rightarrow> string \<Rightarrow> model_row \<Rightarrow> bool" where
  "card_isVisible input provider model =
     modelVisible (ki_selectedModelMap input) provider (mr_id model) (mr_native model = Some True)
       (mr_namespaced model \<in> set (ki_disabled input))"

definition modelsProviderCardState :: "provider_group \<Rightarrow> card_input \<Rightarrow> card_state" where
  "modelsProviderCardState grp input =
     (let provider = gr_provider grp; rows = gr_rows grp; native = gr_nativeProviderGroup grp;
          isVisible = card_isVisible input provider;
          capOn = (map_of (ki_contextCaps input) provider \<noteq> None);
          providerCap = (case map_of (ki_contextCaps input) provider of Some n \<Rightarrow> n | None \<Rightarrow> ki_contextCapValue input);
          limit = (case map_of (ki_limit input) provider of Some n \<Rightarrow> n | None \<Rightarrow> PAGE);
          page = providerCardRows rows (case map_of (ki_search input) provider of Some q \<Rightarrow> q | None \<Rightarrow> []) limit (\<lambda>m. \<not> isVisible m);
          hasRows = (rows \<noteq> []);
          on = length (filter isVisible rows)
      in \<lparr>ks_isCollapsed = (provider \<in> set (ki_collapsed input)), ks_activeCount = on, ks_capOn = capOn, ks_providerCap = providerCap,
          ks_capDisplayValue = providerCapDisplayValue capOn providerCap native rows,
          ks_capOptions = (if native then NATIVE_CAP_OPTIONS else CAP_OPTIONS),
          ks_discoveryFailure = (case gr_discovery grp of
             Some (DiscoveryFailed r s) \<Rightarrow> if gr_liveModels grp then Some (DiscoveryFailed r s) else None | _ \<Rightarrow> None),
          ks_visible = cr_shown page, ks_remaining = cr_remaining page, ks_shown = limit, ks_hasRows = hasRows,
          ks_allOn = (\<not> hasRows \<or> on = length rows), ks_allOff = (\<not> hasRows \<or> on = 0)\<rparr>)"

section \<open>Applying a loaded catalog\<close>

definition advertisedWindows :: "model_row list \<Rightarrow> windows" where
  "advertisedWindows rows = from_entries (map (\<lambda>row. (mr_id row, case mr_contextWindow row of Some n \<Rightarrow> n | None \<Rightarrow> Fin 0)) rows)"

record application_plan =
  pl_selectedProvider :: "string option"
  pl_providers :: "provider_summary list"
  pl_pendingContextWrites :: "context_patch list"
  pl_staleContextWrites :: "context_patch list"

definition drop_stale :: "application_plan \<Rightarrow> provider_group \<Rightarrow> application_plan" where
  "drop_stale plan grp =
     (case staleCatalogPresetOverrides (gr_modelContextWindows grp) (advertisedWindows (gr_rows grp)) of
        None \<Rightarrow> plan
      | Some stale \<Rightarrow>
          (let patch = \<lparr>cp_provider = gr_provider grp, cp_windows = stale\<rparr> in
           plan\<lparr>pl_providers := applyProviderModelContextWindows (pl_providers plan) (cp_provider patch) (cp_windows patch),
                pl_pendingContextWrites := pl_pendingContextWrites plan @ [patch],
                pl_staleContextWrites := pl_staleContextWrites plan @ [patch]\<rparr>))"

definition planCatalogApplication ::
  "(string \<Rightarrow> string \<Rightarrow> int) \<Rightarrow> model_row list \<Rightarrow> provider_summary list \<Rightarrow> string option \<Rightarrow> context_patch list
     \<Rightarrow> (string, application_plan) result" where
  "planCatalogApplication localeCompare models providers selectedProvider pendingContextWrites =
     (let pending = remainingModelContextWindowPatches providers pendingContextWrites;
          overlaid = overlayPendingModelContextWindows providers pending
      in bindR (buildProviderModelGroups localeCompare models overlaid) (\<lambda>groups.
           Inr (foldl drop_stale
             \<lparr>pl_selectedProvider = (case selectedProvider of
                 Some p \<Rightarrow> if list_ex (\<lambda>g. gr_provider g = p) groups then Some p else None | None \<Rightarrow> None),
              pl_providers = overlaid, pl_pendingContextWrites = pending, pl_staleContextWrites = []\<rparr> groups)))"

definition DEFAULT_CONTEXT_CAP :: jsnum where "DEFAULT_CONTEXT_CAP = Fin 350000"

definition contextCapValue :: "jsnum option \<Rightarrow> jsnum option \<Rightarrow> jsnum" where
  "contextCapValue payload_value cap =
     (case payload_value of
        Some v \<Rightarrow> if positive_finite v then v
                  else (case cap of Some c \<Rightarrow> if positive_finite c then c else DEFAULT_CONTEXT_CAP | None \<Rightarrow> DEFAULT_CONTEXT_CAP)
      | None \<Rightarrow> (case cap of Some c \<Rightarrow> if positive_finite c then c else DEFAULT_CONTEXT_CAP | None \<Rightarrow> DEFAULT_CONTEXT_CAP))"

definition saveModelContexts_begins ::
  "string \<Rightarrow> window_patch \<Rightarrow> context_patch list \<times> provider_summary list \<Rightarrow> context_patch list \<times> provider_summary list" where
  "saveModelContexts_begins provider ws page =
     (fst page @ [\<lparr>cp_provider = provider, cp_windows = ws\<rparr>], applyProviderModelContextWindows (snd page) provider ws)"

section \<open>Dictionaries\<close>

lemma object_entries_mset: "mset (object_entries ps) = mset ps"
  by (induction ps) (auto simp: object_entries_def)

lemma set_object_entries [simp]: "set (object_entries ps) = set ps"
  by (metis object_entries_mset set_mset_mset)

lemma map_of_object_entries:
  assumes "distinct (map fst ps)"
  shows "map_of (object_entries ps) = map_of ps" "distinct (map fst (object_entries ps))"
proof -
  have "mset (map fst (object_entries ps)) = mset (map fst ps)" by (simp add: object_entries_mset)
  then show d: "distinct (map fst (object_entries ps))" using assms by (metis mset_eq_imp_distinct_iff)
  show "map_of (object_entries ps) = map_of ps" using assms d by (intro map_of_inject_set [THEN iffD2]) auto
qed

lemma from_entries_snoc: "from_entries (ps @ [p]) = AList.update (fst p) (snd p) (from_entries ps)"
  by (simp add: from_entries_def)

lemma map_of_from_entries: "map_of (from_entries ps) = map_of (rev ps)"
  by (induction ps rule: rev_induct) (auto simp: from_entries_snoc update_conv' from_entries_def [of "[]"])

lemma distinct_from_entries: "distinct (map fst (from_entries ps))"
  by (induction ps rule: rev_induct) (auto simp: from_entries_snoc distinct_update from_entries_def [of "[]"])

section \<open>Context windows\<close>

text \<open>The window a board stores for a model, and what the pending changes say of it.\<close>

definition window_of :: "provider_summary list \<Rightarrow> string \<Rightarrow> string \<Rightarrow> jsnum option" where
  "window_of ps p i =
     (case find (\<lambda>item. ps_name item = p) ps of
        None \<Rightarrow> None | Some row \<Rightarrow> map_of (case ps_modelContextWindows row of Some w \<Rightarrow> w | None \<Rightarrow> []) i)"

definition listed :: "provider_summary list \<Rightarrow> string \<Rightarrow> bool" where
  "listed ps p \<longleftrightarrow> p \<in> ps_name ` set ps"

definition clean_windows :: "window_patch \<Rightarrow> bool" where
  "clean_windows ws \<longleftrightarrow> distinct (map fst ws) \<and> list_all (\<lambda>(i, v). i \<noteq> [] \<and> trim i = i \<and> pred_option positive_finite v) ws"

fun clean_pending :: "context_patch list \<Rightarrow> bool" where
  "clean_pending [] = True"
| "clean_pending (c # cs) =
     (clean_windows (cp_windows c)
      \<and> list_all (\<lambda>d. cp_provider d = cp_provider c \<longrightarrow> fst ` set (cp_windows d) \<inter> fst ` set (cp_windows c) = {}) cs
      \<and> clean_pending cs)"

fun pending_value :: "context_patch list \<Rightarrow> string \<Rightarrow> string \<Rightarrow> jsnum option option" where
  "pending_value [] p i = None"
| "pending_value (c # cs) p i =
     (if cp_provider c = p \<and> map_of (cp_windows c) i \<noteq> None then map_of (cp_windows c) i else pending_value cs p i)"

lemma fold_patch_window:
  assumes "distinct (map fst ws)" "list_all (\<lambda>(i, v). i \<noteq> [] \<and> trim i = i \<and> pred_option positive_finite v) ws"
  shows "map_of (foldl patch_window w ws) i = (case map_of ws i of Some v \<Rightarrow> v | None \<Rightarrow> map_of w i)"
  using assms
proof (induction ws arbitrary: w)
  case (Cons e ws)
  obtain k v where e: "e = (k, v)" by (cases e)
  have k: "k \<noteq> []" "trim k = k" "pred_option positive_finite v" "map_of ws k = None"
    using Cons.prems by (auto simp: e map_of_eq_None_iff)
  have "map_of (patch_window w e) i = (if i = k then v else map_of w i)"
    using k(1-3) by (cases v) (auto simp: e patch_window_def Let_def update_conv' delete_conv')
  then show ?case using Cons k(4) by (auto simp: e split: option.split)
qed simp

lemma window_of_Cons:
  "window_of (r # ps) q i =
     (if ps_name r = q then map_of (case ps_modelContextWindows r of Some w \<Rightarrow> w | None \<Rightarrow> []) i else window_of ps q i)"
  by (simp add: window_of_def)

lemma patched_row:
  assumes "clean_windows ws"
  shows "map_of (case ps_modelContextWindows (applyWindowPatch r ws) of Some w \<Rightarrow> w | None \<Rightarrow> []) i =
    (case map_of ws i of Some v \<Rightarrow> v | None \<Rightarrow> map_of (case ps_modelContextWindows r of Some w \<Rightarrow> w | None \<Rightarrow> []) i)"
proof -
  have d: "distinct (map fst ws)" and c: "list_all (\<lambda>(i, v). i \<noteq> [] \<and> trim i = i \<and> pred_option positive_finite v) ws"
    using assms by (simp_all add: clean_windows_def)
  have "list_all (\<lambda>(i, v). i \<noteq> [] \<and> trim i = i \<and> pred_option positive_finite v) (object_entries ws)"
    using c by (simp add: list_all_iff)
  note f = fold_patch_window [OF map_of_object_entries(2) [OF d] this, unfolded map_of_object_entries(1) [OF d]]
  have "(case if changed = [] then None else Some changed of Some w \<Rightarrow> w | None \<Rightarrow> []) = changed" for changed :: windows by simp
  then show ?thesis using f [of "case ps_modelContextWindows r of Some w \<Rightarrow> w | None \<Rightarrow> []" i]
    by (simp add: applyWindowPatch_def Let_def)
qed

lemma applied_frame [simp]: "ps_name (applyWindowPatch r ws) = ps_name r"
  by (simp add: applyWindowPatch_def Let_def)

lemma applied_names [simp]: "map ps_name (applyProviderModelContextWindows ps p ws) = map ps_name ps"
  by (induction ps) (auto simp: applyProviderModelContextWindows_def)

lemma listed_applied [simp]: "listed (applyProviderModelContextWindows ps p ws) q = listed ps q"
  by (metis applied_names listed_def list.set_map)

lemma window_of_applied:
  assumes "clean_windows ws"
  shows "window_of (applyProviderModelContextWindows ps p ws) q i =
    (if q = p \<and> listed ps p then case map_of ws i of Some v \<Rightarrow> v | None \<Rightarrow> window_of ps q i else window_of ps q i)"
proof (induction ps)
  case (Cons r ps)
  then show ?case using patched_row [OF assms]
    by (auto simp: applyProviderModelContextWindows_def window_of_Cons listed_def split: option.splits)
qed (simp add: applyProviderModelContextWindows_def window_of_def listed_def)

lemma pending_value_none:
  "list_all (\<lambda>d. cp_provider d = p \<longrightarrow> fst ` set (cp_windows d) \<inter> fst ` set ws = {}) cs \<Longrightarrow> map_of ws i \<noteq> None \<Longrightarrow>
     pending_value cs p i = None"
proof (induction cs)
  case (Cons d cs)
  have "i \<in> fst ` set ws" using Cons.prems(2) by (metis map_of_eq_None_iff)
  then have "cp_provider d = p \<Longrightarrow> map_of (cp_windows d) i = None" using Cons.prems(1) by (auto simp: map_of_eq_None_iff)
  with Cons show ?case by auto
qed simp

lemma overlay_Cons:
  "overlayPendingModelContextWindows ps (c # cs) =
     overlayPendingModelContextWindows (applyProviderModelContextWindows ps (cp_provider c) (cp_windows c)) cs"
  by (simp add: overlayPendingModelContextWindows_def)

lemma overlay_Nil: "overlayPendingModelContextWindows ps [] = ps"
  by (simp add: overlayPendingModelContextWindows_def)

lemma listed_overlay [simp]: "listed (overlayPendingModelContextWindows ps cs) p = listed ps p"
  by (induction cs arbitrary: ps) (simp_all add: overlay_Nil overlay_Cons)

lemma window_of_unlisted: "\<not> listed ps p \<Longrightarrow> window_of ps p i = None"
  by (auto simp: window_of_def listed_def find_Some_iff split: option.split)

lemma overlay_window:
  "clean_pending cs \<Longrightarrow> window_of (overlayPendingModelContextWindows ps cs) p i =
     (case pending_value cs p i of Some v \<Rightarrow> if listed ps p then v else None | None \<Rightarrow> window_of ps p i)"
proof (induction cs arbitrary: ps)
  case (Cons c cs)
  let ?ps = "applyProviderModelContextWindows ps (cp_provider c) (cp_windows c)"
  have c: "clean_windows (cp_windows c)" "clean_pending cs"
    "list_all (\<lambda>d. cp_provider d = cp_provider c \<longrightarrow> fst ` set (cp_windows d) \<inter> fst ` set (cp_windows c) = {}) cs"
    using Cons.prems by simp_all
  have v: "pending_value cs p i = None" if "cp_provider c = p" "map_of (cp_windows c) i \<noteq> None"
    using pending_value_none [OF c(3) that(2)] that(1) by simp
  show ?case using Cons.IH [OF c(2), of ?ps] v window_of_unlisted [of ps p i]
    by (auto simp: overlay_Cons window_of_applied [OF c(1)] split: option.splits)
qed (simp add: overlay_Nil)

lemma window_matches:
  assumes "pred_option positive_finite v"
  shows "(case v of None \<Rightarrow> map_of w i = None | Some n \<Rightarrow> (case map_of w i of Some c \<Rightarrow> num_same c n | None \<Rightarrow> False))
    \<longleftrightarrow> map_of w i = v"
proof -
  have "n \<noteq> NaN" if "positive_finite n" for n using that by (cases n) (auto simp: positive_finite_def)
  then show ?thesis using assms by (cases v; cases "map_of w i") (auto simp: num_same_def)
qed

lemma applied_iff:
  assumes "clean_windows ws"
  shows "modelContextWindowsPatchApplied ps p ws \<longleftrightarrow> listed ps p \<and> (\<forall>(i, v) \<in> set ws. window_of ps p i = v)"
proof (cases "find (\<lambda>item. ps_name item = p) ps")
  case None
  then have "\<not> listed ps p" by (auto simp: listed_def find_None_iff)
  with None show ?thesis by (simp add: modelContextWindowsPatchApplied_def)
next
  case (Some row)
  then have l: "listed ps p" by (auto simp: listed_def find_Some_iff image_iff in_set_conv_nth) (metis nth_mem)
  have c: "pred_option positive_finite v" if "(i, v) \<in> set ws" for i v using assms that by (auto simp: clean_windows_def list_all_iff)
  show ?thesis using c
    by (auto simp: modelContextWindowsPatchApplied_def window_of_def Some Let_def l list_all_iff window_matches split del: option.split)
qed

lemma clean_pending_filter: "clean_pending cs \<Longrightarrow> clean_pending (filter P cs)"
  by (induction cs) (auto simp: list_all_iff)

lemma pending_value_Some:
  "clean_pending cs \<Longrightarrow> pending_value cs p i = Some v \<longleftrightarrow> (\<exists>c \<in> set cs. cp_provider c = p \<and> map_of (cp_windows c) i = Some v)"
proof (induction cs)
  case (Cons c cs)
  have v: "pending_value cs p i = None" if "cp_provider c = p" "map_of (cp_windows c) i \<noteq> None"
    by (rule pending_value_none) (use Cons.prems that in \<open>auto simp: list_all_iff\<close>)
  show ?case
  proof (cases "cp_provider c = p \<and> map_of (cp_windows c) i \<noteq> None")
    case True
    then have "\<not> (\<exists>d \<in> set cs. cp_provider d = p \<and> map_of (cp_windows d) i = Some v)" using v Cons by simp
    with True show ?thesis by auto
  next
    case False
    then show ?thesis using Cons by auto
  qed
qed simp

lemma remaining_overlay:
  assumes "clean_pending cs"
  shows "window_of (overlayPendingModelContextWindows ps (remainingModelContextWindowPatches ps cs)) p i =
     (case pending_value cs p i of Some v \<Rightarrow> if listed ps p then v else None | None \<Rightarrow> window_of ps p i)"
proof -
  let ?r = "remainingModelContextWindowPatches ps cs"
  have cr: "clean_pending ?r" unfolding remainingModelContextWindowPatches_def by (rule clean_pending_filter [OF assms])
  have clean: "clean_windows (cp_windows c)" if "c \<in> set cs" for c using assms that by (induction cs) auto
  have sub: "pending_value ?r p i = Some v \<Longrightarrow> pending_value cs p i = Some v" for v
  proof -
    assume "pending_value ?r p i = Some v"
    from pending_value_Some [OF cr, THEN iffD1, OF this]
    obtain c where "c \<in> set ?r" "cp_provider c = p" "map_of (cp_windows c) i = Some v" by blast
    then show ?thesis using pending_value_Some [OF assms] by (auto simp: remainingModelContextWindowPatches_def)
  qed
  have dropped: "listed ps p \<and> window_of ps p i = v" if "pending_value cs p i = Some v" "pending_value ?r p i = None" for v
  proof -
    from pending_value_Some [OF assms, THEN iffD1, OF that(1)]
    obtain c where c: "c \<in> set cs" "cp_provider c = p" "map_of (cp_windows c) i = Some v" by blast
    then have "c \<notin> set ?r" using that(2) pending_value_Some [OF cr, of p i v] by auto
    then have "modelContextWindowsPatchApplied ps p (cp_windows c)" using c by (auto simp: remainingModelContextWindowPatches_def)
    then show ?thesis using c(3) by (auto simp: applied_iff [OF clean [OF c(1)]] dest: map_of_SomeD)
  qed
  show ?thesis using sub dropped by (auto simp: overlay_window [OF cr] split: option.splits)
qed

lemma drop_stale_prefix: "\<exists>xs. pl_staleContextWrites (foldl drop_stale plan gs) = pl_staleContextWrites plan @ xs"
proof (induction gs arbitrary: plan)
  case (Cons g gs)
  have "\<exists>xs. pl_staleContextWrites (drop_stale plan g) = pl_staleContextWrites plan @ xs"
    by (cases "staleCatalogPresetOverrides (gr_modelContextWindows g) (advertisedWindows (gr_rows g))")
      (simp_all add: drop_stale_def Let_def)
  then obtain xs where "pl_staleContextWrites (drop_stale plan g) = pl_staleContextWrites plan @ xs" by blast
  with Cons [of "drop_stale plan g"] show ?case by auto
qed simp

lemma no_stale:
  "pl_staleContextWrites (foldl drop_stale plan gs) = [] \<Longrightarrow> foldl drop_stale plan gs = plan"
proof (induction gs arbitrary: plan)
  case (Cons g gs)
  have "pl_staleContextWrites (drop_stale plan g) = []" using Cons.prems drop_stale_prefix [of "drop_stale plan g" gs] by auto
  then have "drop_stale plan g = plan" by (auto simp: drop_stale_def Let_def split: option.splits)
  with Cons show ?case by simp
qed simp

lemma planned:
  assumes "planCatalogApplication lc models ps sel pending = Inr plan" "pl_staleContextWrites plan = []"
  shows "pl_pendingContextWrites plan = remainingModelContextWindowPatches ps pending"
    "pl_providers plan = overlayPendingModelContextWindows ps (remainingModelContextWindowPatches ps pending)"
  using assms by (auto simp: planCatalogApplication_def Let_def bindR_eq_Inr dest!: no_stale)

lemma adopted_nothing_pending:
  assumes "clean_pending cs" "\<forall>c \<in> set cs. listed ps (cp_provider c)"
  shows "remainingModelContextWindowPatches (overlayPendingModelContextWindows ps cs) cs = []"
proof -
  have clean: "clean_windows (cp_windows c)" if "c \<in> set cs" for c using assms(1) that by (induction cs) auto
  have "window_of (overlayPendingModelContextWindows ps cs) (cp_provider c) i = v"
    if "c \<in> set cs" "(i, v) \<in> set (cp_windows c)" for c i v
  proof -
    have "map_of (cp_windows c) i = Some v" using that clean [OF that(1)] by (simp add: clean_windows_def)
    then have "pending_value cs (cp_provider c) i = Some v" using that(1) by (auto simp: pending_value_Some [OF assms(1)])
    then show ?thesis using assms that(1) by (simp add: overlay_window [OF assms(1)])
  qed
  then show ?thesis using assms(2) clean
    by (auto simp: remainingModelContextWindowPatches_def filter_empty_conv applied_iff)
qed

section \<open>Grouping\<close>

lemma collect_rows_Inr:
  assumes "collect_rows disabled acc rows = Inr acc'"
  shows "map_of acc' p = (let found = filter (\<lambda>r. mr_provider r = p \<and> p \<notin> disabled) rows in
      if found = [] then map_of acc p else Some ((case map_of acc p of Some f \<Rightarrow> f | None \<Rightarrow> []) @ found))"
  using assms
proof (induction disabled acc rows rule: collect_rows.induct)
  case (2 disabled acc row rows)
  show ?case
  proof (cases "mr_provider row \<in> disabled")
    case True
    then have "filter (\<lambda>r. mr_provider r = p \<and> p \<notin> disabled) (row # rows) = filter (\<lambda>r. mr_provider r = p \<and> p \<notin> disabled) rows"
      by auto
    then show ?thesis using 2 True by (simp only: collect_rows.simps Let_def if_True)
  next
    case False
    then show ?thesis using 2 by (auto simp: Let_def update_conv' split: option.splits if_splits)
  qed
qed simp

lemma collect_rows_distinct:
  "collect_rows disabled acc rows = Inr acc' \<Longrightarrow> distinct (map fst acc) \<Longrightarrow> distinct (map fst acc')"
  by (induction disabled acc rows rule: collect_rows.induct)
    (auto simp: Let_def distinct_update split: option.splits if_splits)

lemma collect_rows_ok:
  "list_all (\<lambda>r. mr_provider r \<in> disabled \<or> mr_provider r \<notin> set inherited_names) rows \<Longrightarrow> \<exists>acc'. collect_rows disabled acc rows = Inr acc'"
  by (induction disabled acc rows rule: collect_rows.induct) (auto simp: Let_def split: option.split)

lemma add_empty_groups:
  "map_of (foldl add_empty_group acc ps) p =
     (case map_of acc p of Some rs \<Rightarrow> Some rs
      | None \<Rightarrow> if p \<notin> set inherited_names \<and> (\<exists>s \<in> set ps. ps_name s = p \<and> ps_disabled s \<noteq> Some True) then Some [] else None)"
  by (induction ps arbitrary: acc) (auto simp: add_empty_group_def update_conv' split: option.split)

lemma add_empty_groups_distinct: "distinct (map fst acc) \<Longrightarrow> distinct (map fst (foldl add_empty_group acc ps))"
  by (induction ps arbitrary: acc) (auto simp: add_empty_group_def distinct_update)

lemma project_fields [simp]:
  "gr_provider (projectProviderGroup p rows c) = p" "gr_rows (projectProviderGroup p rows c) = rows"
  "gr_nativeProviderGroup (projectProviderGroup p rows c) = list_ex (\<lambda>row. mr_native row = Some True) rows"
  by (simp_all add: projectProviderGroup_def Let_def)

lemma group_comparator:
  assumes "collation lc"
  shows "comparator (compareProviderGroups lc) (\<lambda>_. True)"
proof -
  have c: "comparator lc (\<lambda>_. True)" using assms by (simp add: collation_def)
  show ?thesis
  proof
    fix a b :: provider_group
    show "compareProviderGroups lc a b \<le> 0 \<or> compareProviderGroups lc b a \<le> 0"
      using comparator.total [OF c] by (auto simp: compareProviderGroups_def)
  next
    fix a b d :: provider_group
    assume "compareProviderGroups lc a b \<le> 0" "compareProviderGroups lc b d \<le> 0"
    then show "compareProviderGroups lc a d \<le> 0"
      using comparator.trans [OF c, of "gr_provider a" "gr_provider b" "gr_provider d"]
      by (auto simp: compareProviderGroups_def split: if_splits)
  qed
qed

definition group_rows :: "model_row list \<Rightarrow> provider_summary list \<Rightarrow> string \<Rightarrow> model_row list option" where
  "group_rows rows providers p =
     (let disabled = (\<exists>s \<in> set providers. ps_name s = p \<and> ps_disabled s = Some True);
          found = filter (\<lambda>r. mr_provider r = p) rows
      in if \<not> disabled \<and> found \<noteq> [] then Some found
         else if p \<notin> set inherited_names \<and> (\<exists>s \<in> set providers. ps_name s = p \<and> ps_disabled s \<noteq> Some True) then Some [] else None)"

lemma grouped_rows:
  assumes "collect_rows (ps_name ` set (filter (\<lambda>p. ps_disabled p = Some True) providers)) [] rows = Inr acc"
  shows "map_of (foldl add_empty_group acc providers) p = group_rows rows providers p"
proof -
  have f: "filter (\<lambda>r. mr_provider r = p \<and> P) rows = (if P then filter (\<lambda>r. mr_provider r = p) rows else [])" for P by simp
  have "p \<notin> ps_name ` set (filter (\<lambda>p. ps_disabled p = Some True) providers) \<longleftrightarrow>
      \<not> (\<exists>s \<in> set providers. ps_name s = p \<and> ps_disabled s = Some True)" by auto
  then show ?thesis using collect_rows_Inr [OF assms, of p]
    by (simp only: add_empty_groups group_rows_def f Let_def) (simp split: if_splits)
qed

lemma built_groups:
  assumes "buildProviderModelGroups lc rows providers = Inr gs"
  shows "distinct (map gr_provider gs)" "\<And>g. g \<in> set gs \<Longrightarrow> group_rows rows providers (gr_provider g) = Some (gr_rows g)"
    "\<And>p rs. group_rows rows providers p = Some rs \<Longrightarrow> \<exists>g \<in> set gs. gr_provider g = p"
proof -
  let ?dis = "ps_name ` set (filter (\<lambda>p. ps_disabled p = Some True) providers)"
  let ?proj = "\<lambda>(p, rs). projectProviderGroup p rs (map_of (from_entries (map (\<lambda>p. (ps_name p, p)) providers)) p)"
  obtain acc where acc: "collect_rows ?dis [] rows = Inr acc"
    and gs: "gs = sort_by (compareProviderGroups lc) (map ?proj (object_entries (foldl add_empty_group acc providers)))"
    using assms by (auto simp: buildProviderModelGroups_def Let_def bindR_eq_Inr)
  let ?e = "foldl add_empty_group acc providers"
  have d: "distinct (map fst ?e)" by (rule add_empty_groups_distinct [OF collect_rows_distinct [OF acc]]) simp
  have names: "map gr_provider (map ?proj (object_entries ?e)) = map fst (object_entries ?e)" by (simp add: case_prod_beta)
  show "distinct (map gr_provider gs)"
    unfolding gs by (simp only: distinct_sort_by names map_of_object_entries(2) [OF d])
  have im: "g \<in> f ` A \<longleftrightarrow> (\<exists>p rs. (p, rs) \<in> A \<and> g = f (p, rs))" for g :: provider_group and f and A :: "(string \<times> model_row list) set"
    by auto
  have "set gs = ?proj ` set ?e" by (simp add: gs)
  then have in_gs: "g \<in> set gs \<longleftrightarrow> (\<exists>p rs. (p, rs) \<in> set ?e \<and> g = ?proj (p, rs))" for g by (simp only: im)
  show "group_rows rows providers (gr_provider g) = Some (gr_rows g)" if "g \<in> set gs" for g
    using that d by (auto simp: in_gs grouped_rows [OF acc, symmetric])
  show "\<exists>g \<in> set gs. gr_provider g = p" if "group_rows rows providers p = Some rs" for p rs
  proof -
    have "(p, rs) \<in> set ?e" using that by (auto simp: grouped_rows [OF acc, symmetric] dest: map_of_SomeD)
    then have "?proj (p, rs) \<in> set gs" by (auto simp: in_gs)
    then show ?thesis by (rule bexI [rotated]) simp
  qed
qed

lemma inherited_provider_fails:
  assumes "mr_provider row \<in> set inherited_names" "row \<in> set rows" "\<forall>s \<in> set providers. ps_name s = mr_provider row \<longrightarrow> ps_disabled s \<noteq> Some True"
  shows "buildProviderModelGroups lc rows providers = Inl ''TypeError''"
proof -
  have fresh: "\<forall>p \<in> set inherited_names. map_of (AList.update k v acc) p = None"
    if "\<forall>p \<in> set inherited_names. map_of acc p = None" "k \<notin> set inherited_names" for k v and acc :: rows_by_provider
    using that by (auto simp: update_conv')
  have "collect_rows disabled acc rows = Inl ''TypeError''"
    if "\<forall>p \<in> set inherited_names. map_of acc p = None" "mr_provider row \<notin> disabled" "row \<in> set rows" for disabled acc rows
    using that
  proof (induction rows arbitrary: acc)
    case (Cons r rows)
    show ?case
    proof (cases "r = row")
      case True
      with Cons.prems assms(1) show ?thesis by simp
    next
      case False
      then have rest: "row \<in> set rows" using Cons.prems by simp
      show ?thesis using Cons.IH [OF _ Cons.prems(2) rest] Cons.prems(1) fresh [OF Cons.prems(1), of "mr_provider r"]
        by (auto simp: Let_def split: option.split)
    qed
  qed simp
  moreover have "mr_provider row \<notin> ps_name ` set (filter (\<lambda>p. ps_disabled p = Some True) providers)" using assms(3) by auto
  ultimately show ?thesis using assms(2) by (simp add: buildProviderModelGroups_def Let_def del: set_filter)
qed

section \<open>Filters, counts and choices\<close>

definition group_pairs :: "provider_group \<Rightarrow> (string \<times> model_row) list" where
  "group_pairs g = map (Pair (gr_provider g)) (gr_rows g)"

lemma filtered_rows:
  "concat (map group_pairs (filterCatalogGroups gs f)) =
   concat (map (\<lambda>g. if cf_provider f = None \<or> cf_provider f = Some (gr_provider g)
     then map (Pair (gr_provider g)) (filter (row_shown f g) (gr_rows g)) else []) gs)"
  by (induction gs) (simp_all add: group_pairs_def Let_def)

lemma footer_counts_exact:
  "catalogFooterCounts gs isVisible =
     \<lparr>fc_providers = length gs, fc_models = sum_list (map (length \<circ> gr_rows) gs),
      fc_visible = sum_list (map (\<lambda>g. length (filter (isVisible (gr_provider g)) (gr_rows g))) gs)\<rparr>"
proof -
  have v: "foldl (\<lambda>n row. if P row then n + 1 else n) k rows = k + length (filter P rows)" for P k and rows :: "model_row list"
    by (induction rows arbitrary: k) auto
  have "foldl (count_group isVisible) c gs =
      c\<lparr>fc_models := fc_models c + sum_list (map (length \<circ> gr_rows) gs),
        fc_visible := fc_visible c + sum_list (map (\<lambda>g. length (filter (isVisible (gr_provider g)) (gr_rows g))) gs)\<rparr>" for c
    by (induction gs arbitrary: c) (simp_all add: count_group_def v add.assoc)
  then show ?thesis by (simp add: catalogFooterCounts_def)
qed

lemma num_less_trans: "num_less a b \<Longrightarrow> num_less b c \<Longrightarrow> num_less a c"
  by (cases a; cases b; cases c) auto

lemma by_number_comparator: "comparator by_number num_is_finite"
proof
  fix a b assume "num_is_finite a" "num_is_finite b"
  then show "by_number a b \<le> 0 \<or> by_number b a \<le> 0" by (cases a; cases b) (auto simp: by_number_def)
next
  fix a b c assume "num_is_finite a" "num_is_finite b" "num_is_finite c" "by_number a b \<le> 0" "by_number b c \<le> 0"
  then show "by_number a c \<le> 0" by (cases a; cases b; cases c) (auto simp: by_number_def split: if_splits)
qed

lemma choices_in_bounds:
  assumes "positive_finite m"
  shows "distinct (modelContextChoices m standard)" "sorted_wrt (\<lambda>a b. by_number a b \<le> 0) (modelContextChoices m standard)"
    "c \<in> set (modelContextChoices m standard) \<longleftrightarrow>
       num_less c m \<and> above_zero c \<and> (c \<in> set CATALOG_CONTEXT_PRESETS \<or> standard = Some c)"
proof -
  have fin: "num_is_finite c" if "num_less c m" "above_zero c" for c using that assms by (cases c; cases m) (auto simp: positive_finite_def)
  have pre: "above_zero c" if "c \<in> set CATALOG_CONTEXT_PRESETS" for c using that by (auto simp: CATALOG_CONTEXT_PRESETS_def)
  let ?added = "case standard of Some s \<Rightarrow> if above_zero s \<and> num_less s m
      then set_add s (set_of (filter (\<lambda>preset. num_less preset m) (allowedContextPresets m)))
      else set_of (filter (\<lambda>preset. num_less preset m) (allowedContextPresets m))
    | None \<Rightarrow> set_of (filter (\<lambda>preset. num_less preset m) (allowedContextPresets m))"
  have e: "modelContextChoices m standard = sort_by by_number ?added" by (simp add: modelContextChoices_def Let_def)
  have not_above: "\<not> num_less m c" if "num_less c m" for c using that by (cases c; cases m) auto
  have s: "c \<in> set ?added \<longleftrightarrow> num_less c m \<and> above_zero c \<and> (c \<in> set CATALOG_CONTEXT_PRESETS \<or> standard = Some c)" for c
    using assms pre not_above by (auto simp: set_set_add set_set_of allowedContextPresets_def split: option.split)
  then show "c \<in> set (modelContextChoices m standard) \<longleftrightarrow>
      num_less c m \<and> above_zero c \<and> (c \<in> set CATALOG_CONTEXT_PRESETS \<or> standard = Some c)" by (simp add: e)
  have "distinct ?added" by (auto simp: distinct_set_add distinct_set_of split: option.split)
  then show "distinct (modelContextChoices m standard)" using distinct_sort_by [of id by_number ?added] by (simp add: e)
  show "sorted_wrt (\<lambda>a b. by_number a b \<le> 0) (modelContextChoices m standard)"
    unfolding e by (rule comparator.sorted_sort_by [OF by_number_comparator]) (use s fin in \<open>auto simp: list_all_iff\<close>)
qed

lemma select_shows_option:
  assumes "above_zero display"
  shows "contextSelectValue display m None \<in>
    fst ` set (catalogContextSelectOptions label presets (if num_same display m then None else Some display) False mixedLabel maxLabel)"
proof (cases "num_same display m")
  case True
  then show ?thesis using assms by (auto simp: contextSelectValue_def given_window_def catalogContextSelectOptions_def num_same_def)
next
  case False
  then show ?thesis using assms by (force simp: contextSelectValue_def catalogContextSelectOptions_def)
qed

lemma collapsed_roundtrip: "distinct collapsed \<Longrightarrow> readCollapsedProviders (writeCollapsedProviders collapsed) = Some collapsed"
proof -
  assume "distinct collapsed"
  moreover have "distinct (acc @ xs) \<Longrightarrow> foldl (\<lambda>acc x. set_add x acc) acc xs = acc @ xs" for acc xs :: "string list"
    by (induction xs arbitrary: acc) (auto simp: set_add_def)
  moreover have "concat (map (\<lambda>e. case e of JStr s \<Rightarrow> [s] | _ \<Rightarrow> []) (map JStr collapsed)) = collapsed"
    by (induction collapsed) auto
  ultimately show ?thesis by (simp add: readCollapsedProviders_def writeCollapsedProviders_def set_of_def)
qed

definition sample_row :: "string \<Rightarrow> string \<Rightarrow> bool \<Rightarrow> model_row" where
  "sample_row p i native = \<lparr>mr_provider = p, mr_id = i, mr_namespaced = p @ ''/'' @ i, mr_displayName = None, mr_contextWindow = None,
     mr_standardContextWindow = None, mr_inputModalities = None, mr_contextCap = None, mr_contextCapped = None, mr_native = Some native,
     mr_custom = None, mr_customId = None, mr_disabled = False, mr_reasoningEfforts = None\<rparr>"

definition sample_provider :: "string \<Rightarrow> bool \<Rightarrow> windows option \<Rightarrow> provider_summary" where
  "sample_provider p off ws = \<lparr>ps_name = p, ps_authMode = None, ps_disabled = Some off, ps_liveModels = None, ps_models = None,
     ps_contextWindow = None, ps_modelContextWindows = ws, ps_discovery = None\<rparr>"

definition by_length :: "string \<Rightarrow> string \<Rightarrow> int" where
  "by_length a b = int (length a) - int (length b)"

lemma by_length_collation: "collation by_length"
  by unfold_locales (auto simp: by_length_def sgn_if)

definition sample_listing :: "provider_summary list" where
  "sample_listing = [sample_provider ''p'' False (Some [(''m'', Fin 8)])]"

definition sample_patch :: "jsnum \<Rightarrow> context_patch" where
  "sample_patch v = \<lparr>cp_provider = ''p'', cp_windows = [(''m'', Some v)]\<rparr>"

lemma sample_plans:
  "case planCatalogApplication by_length [] sample_listing None [sample_patch (Fin 4)] of Inl _ \<Rightarrow> False | Inr plan \<Rightarrow> pl_staleContextWrites plan = []"
  "case planCatalogApplication by_length [] sample_listing None [sample_patch (Fin 4), sample_patch (Fin 8)] of
     Inl _ \<Rightarrow> False | Inr plan \<Rightarrow> pl_staleContextWrites plan = [] \<and> pl_pendingContextWrites plan = [sample_patch (Fin 4)]"
  by code_simp+

lemma sample_facts:
  "trim ''m'' = ''m''" "listed sample_listing ''p''" "window_of sample_listing ''p'' ''m'' = Some (Fin 8)"
  by (code_simp, simp_all add: listed_def window_of_def sample_listing_def sample_provider_def)

lemma sample_clean: "clean_pending [sample_patch (Fin 4)]"
  by (simp add: sample_patch_def clean_windows_def positive_finite_def sample_facts)

lemma sample_plan:
  obtains plan where "planCatalogApplication by_length [] sample_listing None [sample_patch (Fin 4)] = Inr plan"
    "pl_staleContextWrites plan = []"
  using sample_plans(1) by (auto split: sum.splits)

lemma sample_superseded:
  obtains plan where "planCatalogApplication by_length [] sample_listing None [sample_patch (Fin 4), sample_patch (Fin 8)] = Inr plan"
    "pl_staleContextWrites plan = []" "pl_pendingContextWrites plan = [sample_patch (Fin 4)]"
  using sample_plans(2) by (auto split: sum.splits)

section \<open>Properties\<close>

text \<open>The board groups the catalog without losing or repeating a model. For providers with different names, and rows
  whose providers are not names a plain object inherits, there is one group for every enabled provider that is
  configured or has rows, it holds exactly the rows of that provider in the order they were listed, and the
  groups are sorted, those with native models first.\<close>

theorem models_groups_exact:
  assumes "collation lc" "distinct (map ps_name providers)"
    "\<forall>r \<in> set rows. mr_provider r \<notin> set inherited_names"
  shows "\<exists>gs. buildProviderModelGroups lc rows providers = Inr gs
     \<and> distinct (map gr_provider gs)
     \<and> gr_provider ` set gs = {p. (\<forall>s \<in> set providers. ps_name s = p \<longrightarrow> ps_disabled s \<noteq> Some True)
          \<and> (p \<in> ps_name ` set providers \<and> p \<notin> set inherited_names \<or> p \<in> mr_provider ` set rows)}
     \<and> (\<forall>g \<in> set gs. gr_rows g = filter (\<lambda>r. mr_provider r = gr_provider g) rows)
     \<and> sorted_wrt (\<lambda>a b. compareProviderGroups lc a b \<le> 0) gs
     \<and> sorted_wrt (\<lambda>a b. gr_nativeProviderGroup b \<longrightarrow> gr_nativeProviderGroup a) gs"
proof -
  obtain gs where gs: "buildProviderModelGroups lc rows providers = Inr gs"
    using collect_rows_ok [of "ps_name ` set (filter (\<lambda>p. ps_disabled p = Some True) providers)" rows "[]"] assms(3)
    by (auto simp: buildProviderModelGroups_def Let_def list_all_iff)
  note b = built_groups [OF gs]
  have once: "s = s'" if "s \<in> set providers" "s' \<in> set providers" "ps_name s = ps_name s'" for s s'
    using assms(2) that by (auto simp: distinct_map dest: inj_onD)
  have rows: "gr_rows g = filter (\<lambda>r. mr_provider r = gr_provider g) rows" if "g \<in> set gs" for g
    using b(2) [OF that] by (auto simp: group_rows_def Let_def split: if_splits) (metis once)
  have "gr_provider ` set gs = {p. group_rows rows providers p \<noteq> None}" using b(2,3) by (auto simp: image_iff) metis
  also have "\<dots> = {p. (\<forall>s \<in> set providers. ps_name s = p \<longrightarrow> ps_disabled s \<noteq> Some True)
      \<and> (p \<in> ps_name ` set providers \<and> p \<notin> set inherited_names \<or> p \<in> mr_provider ` set rows)}"
    using once by (fastforce simp: group_rows_def Let_def filter_empty_conv split: if_splits)
  finally have names: "gr_provider ` set gs = \<dots>" .
  have sorted: "sorted_wrt (\<lambda>a b. compareProviderGroups lc a b \<le> 0) gs"
    using gs comparator.sorted_sort_by [OF group_comparator [OF assms(1)]]
    by (auto simp: buildProviderModelGroups_def Let_def bindR_eq_Inr list_all_iff)
  moreover have "sorted_wrt (\<lambda>a b. gr_nativeProviderGroup b \<longrightarrow> gr_nativeProviderGroup a) gs"
    by (rule sorted_wrt_mono_rel [OF _ sorted]) (auto simp: compareProviderGroups_def split: if_splits)
  ultimately show ?thesis using gs b(1) names rows by blast
qed

theorem models_groups_exact_witness:
  "\<exists>gs. buildProviderModelGroups by_length [sample_row ''aa'' ''m'' False, sample_row ''b'' ''n'' True, sample_row ''aa'' ''k'' False]
       [sample_provider ''aa'' False None, sample_provider ''c'' False None] = Inr gs
     \<and> gr_provider ` set gs = {''aa'', ''b'', ''c''}
     \<and> (\<forall>g \<in> set gs. gr_provider g = ''aa'' \<longrightarrow> map mr_id (gr_rows g) = [''m'', ''k''])"
proof -
  let ?rows = "[sample_row ''aa'' ''m'' False, sample_row ''b'' ''n'' True, sample_row ''aa'' ''k'' False]"
  let ?ps = "[sample_provider ''aa'' False None, sample_provider ''c'' False None]"
  have "distinct (map ps_name ?ps)" "\<forall>r \<in> set ?rows. mr_provider r \<notin> set inherited_names"
    by (simp_all add: sample_provider_def sample_row_def inherited_names_def)
  from models_groups_exact [OF by_length_collation this] obtain gs where
    gs: "buildProviderModelGroups by_length ?rows ?ps = Inr gs" "\<forall>g \<in> set gs. gr_rows g = filter (\<lambda>r. mr_provider r = gr_provider g) ?rows"
    and names: "gr_provider ` set gs = {p. (\<forall>s \<in> set ?ps. ps_name s = p \<longrightarrow> ps_disabled s \<noteq> Some True)
          \<and> (p \<in> ps_name ` set ?ps \<and> p \<notin> set inherited_names \<or> p \<in> mr_provider ` set ?rows)}" by blast
  have "gr_provider ` set gs = {''aa'', ''b'', ''c''}"
    unfolding names by (auto simp: sample_provider_def sample_row_def inherited_names_def)
  moreover have "\<forall>g \<in> set gs. gr_provider g = ''aa'' \<longrightarrow> map mr_id (gr_rows g) = [''m'', ''k'']"
    using gs(2) by (simp add: sample_row_def)
  ultimately show ?thesis using gs(1) by blast
qed



text \<open>C19: a context window changed twice before the next load goes back to the first value. After both changes are saved the
  listener lists the second; the first change is then taken as still pending, so the board shows the first value,
  and every further load of that listing does the same.\<close>

theorem superseded_window_returns:
  assumes "fst (saveModelContexts_begins p [(i, Some v2)] (saveModelContexts_begins p [(i, Some v1)] ([], shown))) = pending"
    "i \<noteq> []" "trim i = i" "positive_finite v1" "positive_finite v2" "v1 \<noteq> v2"
    "listed ps p" "window_of ps p i = Some v2"
    "planCatalogApplication lc models ps sel pending = Inr plan" "pl_staleContextWrites plan = []"
    "planCatalogApplication lc models ps sel (pl_pendingContextWrites plan) = Inr plan'" "pl_staleContextWrites plan' = []"
  shows "(listed shown p \<longrightarrow> window_of (snd (saveModelContexts_begins p [(i, Some v2)] (saveModelContexts_begins p [(i, Some v1)] ([], shown)))) p i = Some v2)
     \<and> window_of (pl_providers plan) p i = Some v1 \<and> pl_pendingContextWrites plan = [\<lparr>cp_provider = p, cp_windows = [(i, Some v1)]\<rparr>]
     \<and> pl_providers plan' = pl_providers plan \<and> pl_pendingContextWrites plan' = pl_pendingContextWrites plan"
proof -
  have c: "clean_windows [(i, Some v1)]" "clean_windows [(i, Some v2)]" using assms(2-5) by (simp_all add: clean_windows_def)
  have r: "remainingModelContextWindowPatches ps pending = [\<lparr>cp_provider = p, cp_windows = [(i, Some v1)]\<rparr>]"
    "remainingModelContextWindowPatches ps [\<lparr>cp_provider = p, cp_windows = [(i, Some v1)]\<rparr>] = [\<lparr>cp_provider = p, cp_windows = [(i, Some v1)]\<rparr>]"
    using assms(6-8) unfolding assms(1) [symmetric]
    by (simp_all add: saveModelContexts_begins_def remainingModelContextWindowPatches_def applied_iff c)
  note o = planned [OF assms(9,10), unfolded r(1)]
  show ?thesis using o planned [OF assms(11,12), unfolded o(1) r(2)] assms(7)
    by (simp add: overlay_Cons overlay_Nil window_of_applied c saveModelContexts_begins_def)
qed

theorem superseded_window_returns_witness:
  "\<exists>plan. planCatalogApplication by_length [] sample_listing None [sample_patch (Fin 4), sample_patch (Fin 8)] = Inr plan
     \<and> window_of sample_listing ''p'' ''m'' = Some (Fin 8) \<and> window_of (pl_providers plan) ''p'' ''m'' = Some (Fin 4)"
proof -
  obtain plan' where plan': "planCatalogApplication by_length [] sample_listing None [sample_patch (Fin 4)] = Inr plan'"
    "pl_staleContextWrites plan' = []" by (rule sample_plan)
  obtain plan where plan: "planCatalogApplication by_length [] sample_listing None [sample_patch (Fin 4), sample_patch (Fin 8)] = Inr plan"
    "pl_staleContextWrites plan = []" "pl_pendingContextWrites plan = [sample_patch (Fin 4)]" by (rule sample_superseded)
  have "fst (saveModelContexts_begins ''p'' [(''m'', Some (Fin 8))] (saveModelContexts_begins ''p'' [(''m'', Some (Fin 4))] ([], [])))
      = [sample_patch (Fin 4), sample_patch (Fin 8)]" by (simp add: saveModelContexts_begins_def sample_patch_def)
  then show ?thesis
    using superseded_window_returns [of "''p''" "''m''" "Fin 8" "Fin 4" "[]" "[sample_patch (Fin 4), sample_patch (Fin 8)]" sample_listing
        by_length "[]" None plan plan'] plan plan' sample_facts
    by (auto simp: positive_finite_def)
qed

end
