(* ===== verification/Combo_Catalog.thy ===== *)
theory Combo_Catalog
  imports Combo_Workspace Models_Catalog
begin

text \<open>
  \<^verbatim>\<open>gui/src/components/combo-workspace-utils.ts\<close> with the shapes of \<^verbatim>\<open>combo-workspace-types.ts\<close>: what the pickers of
  the combo editor offer, the edits of the ordered target list, the notes of the rail, the key by which the editor
  tells a new baseline, the body of a save and the catalog page decoded from the models endpoint. A partial
  target of \<^verbatim>\<open>comboPatchTarget\<close> is the function that spreads it over a target; \<^verbatim>\<open>localeCompare\<close> is a parameter.
\<close>

section \<open>Pickers\<close>

record provider_option =
  po_name :: string
  po_hiddenFromPicker :: "bool option"
  po_disabled :: "bool option"
  po_authMode :: "string option"
  po_adapter :: "string option"
  po_baseUrl :: "string option"

record combo_model =
  cm_provider :: string
  cm_id :: string
  cm_namespaced :: "string option"
  cm_reasoningEfforts :: "string list option"
  cm_inputModalities :: "string list option"

definition FORWARD_BACKEND_MARKER :: string where
  "FORWARD_BACKEND_MARKER = ''chatgpt.com/backend-api/codex''"

definition FORWARD_PASSTHROUGH_PROVIDER_IDS :: "string list" where
  "FORWARD_PASSTHROUGH_PROVIDER_IDS = [''openai'', ''chatgpt'']"

definition text_or_empty :: "string option \<Rightarrow> string" where
  "text_or_empty v = (case v of Some s \<Rightarrow> s | None \<Rightarrow> [])"

definition strip_slashes :: "string \<Rightarrow> string" where
  "strip_slashes s = rev (dropWhile (\<lambda>c. c = CHR ''/'') (rev s))"

definition isForwardPassthrough :: "provider_option option \<Rightarrow> bool" where
  "isForwardPassthrough provider =
     (case provider of
        None \<Rightarrow> False
      | Some p \<Rightarrow>
          if to_lower (po_name p) \<notin> set FORWARD_PASSTHROUGH_PROVIDER_IDS then False
          else if to_lower (text_or_empty (po_authMode p)) \<noteq> ''forward'' then False
          else if to_lower (text_or_empty (po_adapter p)) \<noteq> ''openai-responses'' then False
          else let base = strip_slashes (text_or_empty (po_baseUrl p)) in base = [] \<or> str_includes base FORWARD_BACKEND_MARKER)"

definition catalogProviderKeys :: "string \<Rightarrow> provider_option list \<Rightarrow> string list" where
  "catalogProviderKeys provider providers =
     (let configured = find (\<lambda>row. po_name row = provider) providers in
      if to_lower provider = ''chatgpt'' \<or> isForwardPassthrough configured then set_add ''openai'' [provider] else [provider])"

definition by_option_name :: "(string \<Rightarrow> string \<Rightarrow> int) \<Rightarrow> provider_option \<Rightarrow> provider_option \<Rightarrow> int" where
  "by_option_name localeCompare left right = localeCompare (po_name left) (po_name right)"

definition comboPickerProviders :: "(string \<Rightarrow> string \<Rightarrow> int) \<Rightarrow> provider_option list \<Rightarrow> provider_option list" where
  "comboPickerProviders localeCompare providers =
     sort_by (by_option_name localeCompare)
       (filter (\<lambda>p. po_disabled p \<noteq> Some True \<and> po_hiddenFromPicker p \<noteq> Some True) providers)"

definition comboProviderChoices :: "(string \<Rightarrow> string \<Rightarrow> int) \<Rightarrow> provider_option list \<Rightarrow> string \<Rightarrow> provider_option list" where
  "comboProviderChoices localeCompare providers current =
     (let pickable = comboPickerProviders localeCompare providers in
      if current = [] \<or> list_ex (\<lambda>p. po_name p = current) pickable then pickable
      else case find (\<lambda>p. po_name p = current) providers of Some stored \<Rightarrow> pickable @ [stored] | None \<Rightarrow> pickable)"

definition comboModelIds :: "(string \<Rightarrow> string \<Rightarrow> int) \<Rightarrow> combo_model list \<Rightarrow> string \<Rightarrow> provider_option list \<Rightarrow> string list" where
  "comboModelIds localeCompare models provider providers =
     (if provider = [] then []
      else let keys = catalogProviderKeys provider providers in
           sort_by localeCompare
             (foldl (\<lambda>ids model. if cm_id model \<noteq> [] \<and> cm_provider model \<in> set keys then set_add (cm_id model) ids else ids) [] models))"

definition comboModelChoices ::
  "(string \<Rightarrow> string \<Rightarrow> int) \<Rightarrow> combo_model list \<Rightarrow> combo_target \<Rightarrow> provider_option list \<Rightarrow> string list" where
  "comboModelChoices localeCompare models target providers =
     (let ids = comboModelIds localeCompare models (ct_provider target) providers; stored = ct_model target in
      if stored = [] \<or> stored \<in> set ids then ids else stored # ids)"

definition comboFirstModelId :: "(string \<Rightarrow> string \<Rightarrow> int) \<Rightarrow> combo_model list \<Rightarrow> string \<Rightarrow> provider_option list \<Rightarrow> string" where
  "comboFirstModelId localeCompare models provider providers =
     (case comboModelIds localeCompare models provider providers of [] \<Rightarrow> [] | i # _ \<Rightarrow> i)"

section \<open>Targets\<close>

definition comboMoveTarget :: "combo_target list \<Rightarrow> int \<Rightarrow> int \<Rightarrow> combo_target list" where
  "comboMoveTarget targets from to =
     (let inRange = (0 \<le> from \<and> 0 \<le> to \<and> from < int (length targets) \<and> to < int (length targets)) in
      if \<not> inRange \<or> from = to then targets
      else let moved = targets ! nat from; rest = take (nat from) targets @ drop (nat from + 1) targets
           in take (nat to) rest @ [moved] @ drop (nat to) rest)"

definition comboPatchTarget :: "combo_target list \<Rightarrow> int \<Rightarrow> (combo_target \<Rightarrow> combo_target) \<Rightarrow> combo_target list" where
  "comboPatchTarget targets index patch =
     (if index < 0 \<or> int (length targets) \<le> index then targets
      else map (\<lambda>(position, target). if int position = index then patch target else target) (enumerate 0 targets))"

definition comboRemoveTarget :: "combo_target list \<Rightarrow> int \<Rightarrow> combo_target list" where
  "comboRemoveTarget targets index =
     (if length targets \<le> 1 \<or> index < 0 \<or> int (length targets) \<le> index then targets
      else map snd (filter (\<lambda>(position, _). int position \<noteq> index) (enumerate 0 targets)))"

datatype model_placeholder = PickProviderFirst | NoModels | PickModel

definition modelPlaceholder :: "combo_target \<Rightarrow> string list \<Rightarrow> model_placeholder" where
  "modelPlaceholder target choices =
     (if ct_provider target = [] then PickProviderFirst else if choices = [] then NoModels else PickModel)"

record target_row =
  tr_index :: nat
  tr_target :: combo_target
  tr_key :: string
  tr_providerChoices :: "provider_option list"
  tr_modelChoices :: "string list"
  tr_modelPlaceholder :: model_placeholder
  tr_canMoveUp :: bool
  tr_canMoveDown :: bool
  tr_canRemove :: bool

definition comboTargetRows ::
  "(string \<Rightarrow> string \<Rightarrow> int) \<Rightarrow> combo_target list \<Rightarrow> provider_option list \<Rightarrow> combo_model list \<Rightarrow> target_row list" where
  "comboTargetRows localeCompare targets providers models =
     map (\<lambda>(index, target).
       let modelChoices = comboModelChoices localeCompare models target providers in
       \<lparr>tr_index = index, tr_target = target,
        tr_key = (case ct_clientKey target of Some k \<Rightarrow> k | None \<Rightarrow> ct_provider target @ '':'' @ ct_model target),
        tr_providerChoices = comboProviderChoices localeCompare providers (ct_provider target),
        tr_modelChoices = modelChoices, tr_modelPlaceholder = modelPlaceholder target modelChoices,
        tr_canMoveUp = (0 < index), tr_canMoveDown = (index + 1 < length targets), tr_canRemove = (1 < length targets)\<rparr>)
     (enumerate 0 targets)"

definition comboTargetRowClass :: "bool \<Rightarrow> bool \<Rightarrow> string" where
  "comboTargetRowClass dragging dropping =
     join_with '' '' ([''cwi-target-row'', ''cwi-target-row--failover'']
       @ (if dragging then [''cwi-target-row--dragging''] else []) @ (if dropping then [''cwi-target-row--drop''] else []))"

section \<open>Rail and panes\<close>

record overview_copy =
  oc_title :: string
  oc_body :: string
  oc_footer :: "string option"

definition combosOverviewCopy :: "bool \<Rightarrow> overview_copy" where
  "combosOverviewCopy hasCombos =
     (if hasCombos then \<lparr>oc_title = ''cws.selectTitle'', oc_body = ''cws.selectBody'', oc_footer = None\<rparr>
      else \<lparr>oc_title = ''cws.emptyTitle'', oc_body = ''cws.emptyBody'', oc_footer = Some ''cws.emptyFooter''\<rparr>)"

datatype rail_note = NoteNoTargets | NoteNotInCatalog | NoteLegacyStrategy | NoteUnsupportedStrategy | NoteLegacyConfig

definition comboRailNote :: "combo_item \<Rightarrow> attention_reason option \<Rightarrow> rail_note option" where
  "comboRailNote item attention =
     (if attention = Some EmptyTargets then Some NoteNoTargets
      else if attention = Some CatalogOmitted then Some NoteNotInCatalog
      else if ci_strategy item = RoundRobin then Some NoteLegacyStrategy
      else if ci_strategy item = Unsupported then Some NoteUnsupportedStrategy
      else if comboHasLegacyConfig item then Some NoteLegacyConfig else None)"

datatype target_count_copy = TargetCountOne | TargetCount nat

definition comboTargetCountCopy :: "nat \<Rightarrow> target_count_copy" where
  "comboTargetCountCopy targets = (if targets = 1 then TargetCountOne else TargetCount targets)"

definition legacyTargetNote :: "combo_item \<Rightarrow> (string \<Rightarrow> string) \<Rightarrow> string option" where
  "legacyTargetNote item t =
     (if ci_strategy item = RoundRobin then Some (t ''cws.legacy.editRoundRobin'')
      else if ci_strategy item = Unsupported then Some (t ''cws.strategy.unsupportedHint'') else None)"

section \<open>Editor\<close>

definition bool_text :: "bool \<Rightarrow> string" where
  "bool_text b = (if b then ''true'' else ''false'')"

fun image_text :: "image_input \<Rightarrow> string" where
  "image_text Auto = ''auto''"
| "image_text Disabled = ''disabled''"

definition sync_target :: "combo_target \<Rightarrow> string" where
  "sync_target row =
     ct_provider row @ ''/'' @ ct_model row @ '':'' @ num_text (case ct_weight row of Some w \<Rightarrow> w | None \<Rightarrow> Fin 1)"

text \<open>\<^verbatim>\<open>join\<close> writes nothing for a missing value.\<close>

definition sync_policy :: "combo_item \<Rightarrow> string list" where
  "sync_policy baseline =
     [text_or_empty (ci_alias baseline), bool_text (ci_nativeAlias baseline), text_or_empty (ci_displayName baseline),
      strategy_text (ci_strategy baseline), (case ci_stickyLimit baseline of Some n \<Rightarrow> num_text n | None \<Rightarrow> []),
      (case ci_defaultEffort baseline of Some e \<Rightarrow> effort_text e | None \<Rightarrow> []),
      (case ci_imageInput baseline of Some i \<Rightarrow> image_text i | None \<Rightarrow> ''auto'')]"

definition comboEditorSyncKey :: "combo_item \<Rightarrow> string" where
  "comboEditorSyncKey baseline =
     join_with ''|'' (ci_id baseline # sync_policy baseline @ [join_with '','' (map sync_target (ci_targets baseline))])"

definition trimmed_or_none :: "string option \<Rightarrow> string option" where
  "trimmed_or_none v = (case v of Some s \<Rightarrow> if trim s = [] then None else Some (trim s) | None \<Rightarrow> None)"

definition comboSavePayload :: "combo_item \<Rightarrow> bool \<Rightarrow> combo_item" where
  "comboSavePayload draft isCreate =
     (let i = trim (ci_id draft); alias = trimmed_or_none (ci_alias draft) in
      draft\<lparr>ci_id := i, ci_alias := alias, ci_displayName := trimmed_or_none (ci_displayName draft),
            ci_strategy := (if isCreate then Failover else ci_strategy draft),
            ci_model := comboClientModelId i alias (ci_nativeAlias draft)\<rparr>)"

definition comboEditorTitle :: "bool \<Rightarrow> combo_item \<Rightarrow> combo_item \<Rightarrow> string \<Rightarrow> string" where
  "comboEditorTitle isCreate draft baseline createTitle =
     (if \<not> isCreate then comboDisplayTitle baseline
      else if trim (ci_id draft) \<noteq> [] then comboPublicModelId (ci_id draft) (ci_alias draft) else createTitle)"

section \<open>The catalog page\<close>

record provider_facts =
  pf_disabled :: "bool option"
  pf_defaultModel :: "string option"
  pf_authMode :: "string option"
  pf_adapter :: string
  pf_baseUrl :: string

record catalog_page =
  cg_models :: "combo_model list"
  cg_cataloguedComboIds :: "string list"

definition asFields :: "json \<Rightarrow> (string \<times> json) list option" where
  "asFields v = (case v of JObj ps \<Rightarrow> Some ps | _ \<Rightarrow> None)"

definition textOf :: "json option \<Rightarrow> string" where
  "textOf v = (case v of Some (JStr s) \<Rightarrow> trim s | _ \<Rightarrow> [])"

definition stringsOf :: "json option \<Rightarrow> string list option" where
  "stringsOf v =
     (case v of Some (JArr entries) \<Rightarrow> Some (concat (map (\<lambda>e. case e of JStr s \<Rightarrow> [s] | _ \<Rightarrow> []) entries)) | _ \<Rightarrow> None)"

definition modalitiesOf :: "json option \<Rightarrow> string list option" where
  "modalitiesOf v =
     (case stringsOf v of
        None \<Rightarrow> None
      | Some entries \<Rightarrow> (let kept = filter (\<lambda>e. e \<noteq> []) (map trim entries) in if kept = [] then None else Some kept))"

definition modelOptionOf :: "string \<Rightarrow> string \<Rightarrow> (string \<times> json) list \<Rightarrow> combo_model" where
  "modelOptionOf provider i props =
     \<lparr>cm_provider = provider, cm_id = i,
      cm_namespaced = (case map_of props ''namespaced'' of Some (JStr s) \<Rightarrow> Some s | _ \<Rightarrow> None),
      cm_reasoningEfforts = stringsOf (map_of props ''reasoningEfforts''),
      cm_inputModalities = modalitiesOf (map_of props ''inputModalities'')\<rparr>"

datatype catalog_row = ComboRow string | ModelRow combo_model

definition catalogRowsOf :: "json \<Rightarrow> json list" where
  "catalogRowsOf payload =
     (case payload of
        JArr rows \<Rightarrow> rows
      | JObj props \<Rightarrow> (case map_of props ''models'' of Some (JArr rows) \<Rightarrow> rows | _ \<Rightarrow> [])
      | _ \<Rightarrow> [])"

definition catalogRowOf :: "json \<Rightarrow> catalog_row option" where
  "catalogRowOf v =
     (case asFields v of
        None \<Rightarrow> None
      | Some props \<Rightarrow>
          (let provider = textOf (map_of props ''provider''); i = textOf (map_of props ''id'') in
           if provider = [] \<or> i = [] then None
           else if provider = COMBO_NAMESPACE then Some (ComboRow i)
           else if map_of props ''disabled'' = Some (JBool True) then None
           else Some (ModelRow (modelOptionOf provider i props))))"

definition append_default :: "combo_model list \<Rightarrow> string \<times> provider_facts \<Rightarrow> combo_model list" where
  "append_default models entry =
     (let name = fst entry; provider = snd entry; i = trim (text_or_empty (pf_defaultModel provider)) in
      if pf_disabled provider = Some True then models
      else if i = [] then models
      else if list_ex (\<lambda>model. cm_provider model = name \<and> cm_id model = i) models then models
      else models @ [\<lparr>cm_provider = name, cm_id = i, cm_namespaced = Some (name @ ''/'' @ i), cm_reasoningEfforts = None,
                      cm_inputModalities = None\<rparr>])"

definition appendConfiguredDefaults :: "combo_model list \<Rightarrow> (string \<times> provider_facts) list \<Rightarrow> combo_model list" where
  "appendConfiguredDefaults models allProviders = foldl append_default models (object_entries allProviders)"

definition add_catalog_row :: "catalog_page \<Rightarrow> json \<Rightarrow> catalog_page" where
  "add_catalog_row page row =
     (case catalogRowOf row of
        None \<Rightarrow> page
      | Some (ComboRow i) \<Rightarrow> page\<lparr>cg_cataloguedComboIds := set_add i (cg_cataloguedComboIds page)\<rparr>
      | Some (ModelRow m) \<Rightarrow> page\<lparr>cg_models := cg_models page @ [m]\<rparr>)"

definition parseComboWorkspaceModels :: "json \<Rightarrow> (string \<times> provider_facts) list \<Rightarrow> catalog_page" where
  "parseComboWorkspaceModels raw allProviders =
     (let page = foldl add_catalog_row \<lparr>cg_models = [], cg_cataloguedComboIds = []\<rparr> (catalogRowsOf raw)
      in page\<lparr>cg_models := appendConfiguredDefaults (cg_models page) allProviders\<rparr>)"

definition parseComboWorkspaceProviders :: "(string \<times> provider_facts) list \<Rightarrow> string set \<Rightarrow> provider_option list" where
  "parseComboWorkspaceProviders allProviders visibleProviders =
     map (\<lambda>(name, provider).
       \<lparr>po_name = name, po_hiddenFromPicker = Some (name \<notin> visibleProviders), po_disabled = Some (pf_disabled provider = Some True),
        po_authMode = pf_authMode provider, po_adapter = Some (pf_adapter provider), po_baseUrl = Some (pf_baseUrl provider)\<rparr>)
     (object_entries allProviders)"

record page_notices =
  pn_loadError :: "string option"
  pn_staleRefreshWarning :: "string option"

definition combosPageNotices :: "string \<Rightarrow> string option \<Rightarrow> string \<Rightarrow> string \<Rightarrow> page_notices" where
  "combosPageNotices surfaceKind errorMessage loadFailedLabel refreshFailedStaleLabel =
     (if surfaceKind = ''failed-cold''
      then let reason = text_or_empty errorMessage in
           \<lparr>pn_loadError = Some (if reason \<noteq> [] then reason else loadFailedLabel), pn_staleRefreshWarning = None\<rparr>
      else if surfaceKind = ''failed-with-stale''
      then \<lparr>pn_loadError = None, pn_staleRefreshWarning = Some refreshFailedStaleLabel\<rparr>
      else \<lparr>pn_loadError = None, pn_staleRefreshWarning = None\<rparr>)"

section \<open>What the pickers offer\<close>

lemma collected_ids:
  "set (foldl (\<lambda>ids model. if P model then set_add (f model) ids else ids) acc models) = set acc \<union> f ` set (filter P models)"
  "distinct acc \<Longrightarrow> distinct (foldl (\<lambda>ids model. if P model then set_add (f model) ids else ids) acc models)"
  by (induction models arbitrary: acc) (auto simp: distinct_set_add)

lemma comboModelIds_set:
  assumes "provider \<noteq> []"
  shows "set (comboModelIds lc models provider providers) =
    {cm_id m | m. m \<in> set models \<and> cm_id m \<noteq> [] \<and> cm_provider m \<in> set (catalogProviderKeys provider providers)}"
  using assms by (auto simp: comboModelIds_def Let_def collected_ids)

lemma comboModelIds_distinct: "distinct (comboModelIds lc models provider providers)"
  using distinct_sort_by [of id lc] by (simp add: comboModelIds_def Let_def collected_ids(2))

lemma comboModelIds_sorted:
  assumes "comparator lc (\<lambda>_. True)"
  shows "sorted_wrt (\<lambda>a b. lc a b \<le> 0) (comboModelIds lc models provider providers)"
  by (simp add: comboModelIds_def Let_def comparator.sorted_sort_by [OF assms] list_all_iff)

lemma picker_sorted:
  assumes "comparator lc (\<lambda>_. True)"
  shows "sorted_wrt (\<lambda>a b. by_option_name lc a b \<le> 0) (comboPickerProviders lc providers)"
proof -
  have "comparator (by_option_name lc) (\<lambda>_. True)"
  proof
    show "by_option_name lc x y \<le> 0 \<or> by_option_name lc y x \<le> 0" for x y
      unfolding by_option_name_def by (rule comparator.total [OF assms]) simp_all
    show "by_option_name lc x z \<le> 0" if "by_option_name lc x y \<le> 0" "by_option_name lc y z \<le> 0" for x y z
      using that unfolding by_option_name_def by (rule comparator.trans [OF assms, rotated -2]) simp_all
  qed
  then show ?thesis unfolding comboPickerProviders_def by (rule comparator.sorted_sort_by) (simp add: list_all_iff)
qed

lemma append_default_keeps: "set models \<subseteq> set (foldl append_default models ps)"
proof (induction ps arbitrary: models)
  case (Cons p ps)
  have "set models \<subseteq> set (append_default models p)" by (auto simp: append_default_def Let_def)
  then show ?case using Cons [of "append_default models p"] by auto
qed simp

lemma configured_default_pickable:
  assumes "(name, facts) \<in> set allProviders" "pf_disabled facts \<noteq> Some True" "trim (text_or_empty (pf_defaultModel facts)) \<noteq> []"
  shows "\<exists>m \<in> set (cg_models (parseComboWorkspaceModels raw allProviders)).
    cm_provider m = name \<and> cm_id m = trim (text_or_empty (pf_defaultModel facts))"
proof -
  have "\<exists>m \<in> set (foldl append_default models ps). cm_provider m = name \<and> cm_id m = trim (text_or_empty (pf_defaultModel facts))"
    if "(name, facts) \<in> set ps" for models ps
    using that
  proof (induction ps arbitrary: models)
    case (Cons p ps)
    show ?case
    proof (cases "p = (name, facts)")
      case True
      have "\<exists>m \<in> set (append_default models p). cm_provider m = name \<and> cm_id m = trim (text_or_empty (pf_defaultModel facts))"
        using assms(2,3) by (auto simp: True append_default_def Let_def list_ex_iff)
      then show ?thesis using append_default_keeps [of "append_default models p" ps] by (auto simp: subset_eq)
    qed (use Cons in simp)
  qed simp
  then show ?thesis using assms(1) by (simp add: parseComboWorkspaceModels_def Let_def appendConfiguredDefaults_def)
qed

lemma save_payload_settled: "comboSavePayload (comboSavePayload draft c) c = comboSavePayload draft c"
proof -
  have "trimmed_or_none (trimmed_or_none v) = trimmed_or_none v" for v by (auto simp: trimmed_or_none_def split: option.split)
  then show ?thesis by (simp add: comboSavePayload_def Let_def)
qed

section \<open>Editing targets\<close>

lemma splice_exact:
  assumes "f < length xs" "t < length xs"
  defines "rest \<equiv> take f xs @ drop (f + 1) xs"
  shows "mset (take t rest @ [xs ! f] @ drop t rest) = mset xs" "(take t rest @ [xs ! f] @ drop t rest) ! t = xs ! f"
proof -
  have "mset xs = mset (take f xs @ xs ! f # drop (f + 1) xs)" using id_take_nth_drop [OF assms(1)] by simp
  then have m: "mset xs = add_mset (xs ! f) (mset rest)" by (simp add: rest_def)
  have "mset rest = mset (take t rest) + mset (drop t rest)" by (metis append_take_drop_id mset_append)
  then show "mset (take t rest @ [xs ! f] @ drop t rest) = mset xs" using m by simp
  have "length rest = length xs - 1" using assms(1) by (simp add: rest_def)
  then have "length (take t rest) = t" using assms(2) by simp
  then show "(take t rest @ [xs ! f] @ drop t rest) ! t = xs ! f" by (metis append_Cons nth_append_length)
qed

lemma move_exact:
  assumes "f < length targets" "t < length targets"
  shows "mset (comboMoveTarget targets (int f) (int t)) = mset targets" "comboMoveTarget targets (int f) (int t) ! t = targets ! f"
  using splice_exact [OF assms] assms by (auto simp only: comboMoveTarget_def Let_def of_nat_eq_iff nat_int split: if_splits)

lemma move_out_of_range:
  "\<not> (0 \<le> from \<and> 0 \<le> to \<and> from < int (length targets) \<and> to < int (length targets)) \<Longrightarrow> comboMoveTarget targets from to = targets"
  by (simp only: comboMoveTarget_def Let_def if_True simp_thms)

lemma patch_exact:
  assumes "i < length targets"
  shows "comboPatchTarget targets (int i) patch = targets[i := patch (targets ! i)]"
proof (rule nth_equalityI)
  fix j assume "j < length (comboPatchTarget targets (int i) patch)"
  then have "j < length targets" using assms by (simp add: comboPatchTarget_def)
  then show "comboPatchTarget targets (int i) patch ! j = targets[i := patch (targets ! i)] ! j"
    using assms by (simp add: comboPatchTarget_def nth_list_update nth_enumerate_eq)
qed (use assms in \<open>simp add: comboPatchTarget_def\<close>)

lemma remove_exact:
  assumes "1 < length targets" "i < length targets"
  shows "comboRemoveTarget targets (int i) = take i targets @ drop (Suc i) targets"
proof -
  have e: "filter (\<lambda>(k, _). k \<noteq> i) (enumerate n xs) = enumerate n xs" if "i < n \<or> n + length xs \<le> i" for n and xs :: "combo_target list"
    using that by (auto simp: filter_id_conv in_set_enumerate_eq)
  have t: "targets = take i targets @ targets ! i # drop (Suc i) targets" using id_take_nth_drop [OF assms(2)] by simp
  have "enumerate 0 targets = enumerate 0 (take i targets) @ (i, targets ! i) # enumerate (Suc i) (drop (Suc i) targets)"
    by (subst t) (use assms in \<open>simp add: enumerate_append_eq\<close>)
  then have "filter (\<lambda>(k, _). k \<noteq> i) (enumerate 0 targets) = enumerate 0 (take i targets) @ enumerate (Suc i) (drop (Suc i) targets)"
    using e [of 0 "take i targets"] e [of "Suc i" "drop (Suc i) targets"] assms by simp
  then have "map snd (filter (\<lambda>(k, _). k \<noteq> i) (enumerate 0 targets)) = take i targets @ drop (Suc i) targets" by simp
  then show ?thesis using assms by (simp add: comboRemoveTarget_def)
qed

section \<open>The key of a baseline\<close>

lemma sep_first:
  fixes d :: char
  assumes "a @ d # b = a' @ d # b'" "d \<notin> set a" "d \<notin> set a'"
  shows "a = a' \<and> b = b'"
proof -
  have "a # split_on d b = a' # split_on d b'"
    using arg_cong [OF assms(1), of "split_on d"] by (simp only: split_on_append [OF assms(2)] split_on_append [OF assms(3)])
  then show ?thesis using assms(1) by simp
qed

lemma sep_last:
  fixes d :: char
  assumes "a @ d # b = a' @ d # b'" "d \<notin> set b" "d \<notin> set b'"
  shows "a = a' \<and> b = b'"
proof -
  have "rev b @ d # rev a = rev b' @ d # rev a'" using arg_cong [OF assms(1), of rev] by simp
  from sep_first [OF this] assms(2,3) show ?thesis by simp
qed

lemma number_text_chars: "c \<in> set (js_show r) \<Longrightarrow> number_char c"
proof -
  have "list_all number_char (js_show r)"
    by (auto simp: js_show_def number_char_def [of "CHR ''0''"] number_char_def [of "CHR ''-''"] show_decimal_chars split: prod.split)
  then show "c \<in> set (js_show r) \<Longrightarrow> number_char c" by (simp add: list_all_iff)
qed

lemma decimal_int:
  assumes "\<bar>i\<bar> \<le> 10000"
  shows "decimal (of_int i)"
proof -
  have "\<bar>of_int i :: rat\<bar> \<le> 10000" using assms by linarith
  moreover have "(10000 :: rat) < 2 ^ 1024 - 2 ^ 970" by simp
  ultimately have "\<bar>of_int i :: rat\<bar> < 2 ^ 1024 - 2 ^ 970" by (rule le_less_trans)
  moreover have "snd (quotient_of (of_int i)) dvd 10 ^ 0" by (simp add: quotient_of_int)
  ultimately show ?thesis unfolding decimal_def by blast
qed

lemma bounded_text:
  assumes "int_in lo hi n" "1 \<le> lo" "hi \<le> 10000"
  shows "\<exists>r. n = Fin r \<and> decimal r" "c \<in> set (num_text n) \<Longrightarrow> number_char c" "num_text n \<noteq> []"
proof -
  obtain i where i: "n = Fin (of_int i)" "lo \<le> i" "i \<le> hi" using assms(1) by (auto simp: int_in_def)
  then show "\<exists>r. n = Fin r \<and> decimal r" using assms(2,3) decimal_int [of i] by auto
  show "c \<in> set (num_text n) \<Longrightarrow> number_char c" using number_text_chars by (simp add: i)
  show "num_text n \<noteq> []" using js_show_plain(2) by (simp add: i)
qed

lemma bounded_text_inj:
  assumes "int_in lo hi n" "int_in lo' hi' m" "1 \<le> lo" "hi \<le> 10000" "1 \<le> lo'" "hi' \<le> 10000" "num_text n = num_text m"
  shows "n = m"
proof -
  obtain r where r: "n = Fin r" "decimal r" using bounded_text(1) [OF assms(1,3,4)] by blast
  obtain q where q: "m = Fin q" "decimal q" using bounded_text(1) [OF assms(2,5,6)] by blast
  have "js_show r = js_show q" using assms(7) by (simp only: r(1) q(1) num_text.simps)
  then have "Fin r = Fin q" by (simp only: number_of_text [OF r(2), symmetric] number_of_text [OF q(2), symmetric])
  then show ?thesis by (simp only: r(1) q(1))
qed

lemma bounded_text_separators:
  assumes "int_in lo hi n" "1 \<le> lo" "hi \<le> 10000"
  shows "CHR ''|'' \<notin> set (num_text n)" "CHR '','' \<notin> set (num_text n)" "CHR '':'' \<notin> set (num_text n)"
proof -
  have "\<not> number_char (CHR ''|'')" "\<not> number_char (CHR '','')" "\<not> number_char (CHR '':'')" by code_simp+
  then show "CHR ''|'' \<notin> set (num_text n)" "CHR '','' \<notin> set (num_text n)" "CHR '':'' \<notin> set (num_text n)"
    using bounded_text(2) [OF assms] by blast+
qed

text \<open>What the key records of a combo, with the defaults it writes for missing values.\<close>

definition sync_weight :: "combo_target \<Rightarrow> jsnum" where
  "sync_weight t = (case ct_weight t of Some w \<Rightarrow> w | None \<Rightarrow> Fin 1)"

definition sync_view :: "combo_item \<Rightarrow> combo_item" where
  "sync_view c = c\<lparr>ci_model := [], ci_storedStrategy := None, ci_imageInput := Some (case ci_imageInput c of Some i \<Rightarrow> i | None \<Rightarrow> Auto),
     ci_targets := map (\<lambda>t. t\<lparr>ct_weight := Some (sync_weight t), ct_clientKey := None\<rparr>) (ci_targets c)\<rparr>"

definition plain_text :: "string \<Rightarrow> bool" where
  "plain_text s \<longleftrightarrow> CHR ''|'' \<notin> set s \<and> CHR '','' \<notin> set s"

definition plain_combo :: "combo_item \<Rightarrow> bool" where
  "plain_combo c \<longleftrightarrow> wf_combo c \<and> CHR ''|'' \<notin> set (ci_id c) \<and> CHR ''|'' \<notin> set (text_or_empty (ci_alias c))
     \<and> CHR ''|'' \<notin> set (text_or_empty (ci_displayName c))
     \<and> list_all (\<lambda>t. plain_text (ct_provider t) \<and> plain_text (ct_model t) \<and> CHR ''/'' \<notin> set (ct_provider t)) (ci_targets c)"

lemma sync_weight_in: "wf_target t \<Longrightarrow> int_in 1 10000 (sync_weight t)"
proof -
  have "int_in 1 10000 (Fin 1)" unfolding int_in_def by (intro exI [of _ 1]) simp
  then show "wf_target t \<Longrightarrow> int_in 1 10000 (sync_weight t)" by (auto simp: wf_target_def sync_weight_def split: option.split)
qed

lemma sync_target_alt: "sync_target t = ct_provider t @ CHR ''/'' # ct_model t @ CHR '':'' # num_text (sync_weight t)"
  by (simp add: sync_target_def sync_weight_def)

lemma sync_target_inj:
  assumes "sync_target t = sync_target u" "wf_target t" "wf_target u" "CHR ''/'' \<notin> set (ct_provider t)" "CHR ''/'' \<notin> set (ct_provider u)"
  shows "t\<lparr>ct_weight := Some (sync_weight t), ct_clientKey := None\<rparr> = u\<lparr>ct_weight := Some (sync_weight u), ct_clientKey := None\<rparr>"
proof -
  note w = sync_weight_in [OF assms(2)] sync_weight_in [OF assms(3)]
  have p: "ct_provider t = ct_provider u" "ct_model t @ CHR '':'' # num_text (sync_weight t) = ct_model u @ CHR '':'' # num_text (sync_weight u)"
    using sep_first [OF assms(1) [unfolded sync_target_alt] assms(4,5)] by simp_all
  have "CHR '':'' \<notin> set (num_text (sync_weight t))" "CHR '':'' \<notin> set (num_text (sync_weight u))"
    using bounded_text_separators(3) [OF w(1)] bounded_text_separators(3) [OF w(2)] by simp_all
  from sep_last [OF p(2) this] have m: "ct_model t = ct_model u" "num_text (sync_weight t) = num_text (sync_weight u)" by simp_all
  have "sync_weight t = sync_weight u" by (rule bounded_text_inj [OF w _ _ _ _ m(2)]) simp_all
  then show ?thesis using p(1) m(1) by (cases t; cases u) simp
qed

lemma sync_target_plain:
  assumes "wf_target t" "plain_text (ct_provider t)" "plain_text (ct_model t)"
  shows "CHR ''|'' \<notin> set (sync_target t)" "CHR '','' \<notin> set (sync_target t)" "sync_target t \<noteq> []"
  using assms bounded_text_separators [OF sync_weight_in [OF assms(1)]] by (simp_all add: sync_target_alt plain_text_def)

lemma join_targets_inj:
  assumes "join_with '','' xs = join_with '','' ys" "\<forall>x \<in> set xs. CHR '','' \<notin> set x \<and> x \<noteq> []" "\<forall>y \<in> set ys. CHR '','' \<notin> set y \<and> y \<noteq> []"
  shows "xs = ys"
proof -
  have ne: "join_with '','' zs \<noteq> []" if "zs \<noteq> []" "\<forall>z \<in> set zs. z \<noteq> []" for zs using that by (cases "('','', zs)" rule: join_with.cases) auto
  show ?thesis
  proof (cases "xs = [] \<or> ys = []")
    case True
    then have "join_with '','' xs = []" using assms(1) by auto
    then have "xs = []" "ys = []" using ne [of xs] ne [of ys] assms by auto
    then show ?thesis by simp
  next
    case False
    then have 3: "xs \<noteq> []" "ys \<noteq> []" by simp_all
    have x: "split_on (CHR '','') (join_with '','' xs) = xs" by (rule split_join [OF 3(1)]) (use assms(2) in blast)
    have y: "split_on (CHR '','') (join_with '','' ys) = ys" by (rule split_join [OF 3(2)]) (use assms(3) in blast)
    show ?thesis by (rule box_equals [OF arg_cong [OF assms(1), of "split_on (CHR '','')"] x y])
  qed
qed

lemma word_texts:
  "CHR ''|'' \<notin> set (bool_text b)" "CHR ''|'' \<notin> set (strategy_text st)" "CHR ''|'' \<notin> set (effort_text e)" "CHR ''|'' \<notin> set (image_text im)"
  "effort_text e \<noteq> []"
  by (simp add: bool_text_def) ((cases st; simp), (cases e; simp), (cases im; simp), (cases e; simp))

lemma word_texts_inj:
  "bool_text b = bool_text b' \<longleftrightarrow> b = b'" "strategy_text st = strategy_text st' \<longleftrightarrow> st = st'" "effort_text e = effort_text e' \<longleftrightarrow> e = e'"
  "image_text im = image_text im' \<longleftrightarrow> im = im'"
  by (simp add: bool_text_def) ((cases st; cases st'; simp), (cases e; cases e'; simp), (cases im; cases im'; simp))

lemma text_or_empty_inj:
  "pred_option clean_text a \<Longrightarrow> pred_option clean_text b \<Longrightarrow> text_or_empty a = text_or_empty b \<longleftrightarrow> a = b"
  by (cases a; cases b) (auto simp: text_or_empty_def clean_text_def)

lemma join_plain: "(\<forall>w \<in> set ws. d \<notin> set w) \<Longrightarrow> c \<noteq> d \<Longrightarrow> d \<notin> set (join_with [c] ws)"
  by (induction "[c]" ws rule: join_with.induct) auto

definition sync_parts :: "combo_item \<Rightarrow> string list" where
  "sync_parts c = ci_id c # sync_policy c @ [join_with '','' (map sync_target (ci_targets c))]"

lemma plain_targets:
  assumes "plain_combo c" "t \<in> set (ci_targets c)"
  shows "wf_target t" "plain_text (ct_provider t)" "plain_text (ct_model t)" "CHR ''/'' \<notin> set (ct_provider t)"
  using assms by (auto simp: plain_combo_def wf_combo_def list_all_iff)

lemma sync_parts_plain:
  assumes "plain_combo c"
  shows "\<forall>w \<in> set (sync_parts c). CHR ''|'' \<notin> set w"
proof -
  have "CHR ''|'' \<notin> set (join_with '','' (map sync_target (ci_targets c)))"
    by (rule join_plain) (auto dest: sync_target_plain(1) [OF plain_targets(1-3) [OF assms]])
  moreover have "CHR ''|'' \<notin> set (case ci_stickyLimit c of Some n \<Rightarrow> num_text n | None \<Rightarrow> [])"
    using assms bounded_text_separators(1) [of 1 100] by (cases "ci_stickyLimit c") (simp_all add: plain_combo_def wf_combo_def)
  moreover have "CHR ''|'' \<notin> set (case ci_defaultEffort c of Some e \<Rightarrow> effort_text e | None \<Rightarrow> [])"
    by (simp add: word_texts split: option.split)
  moreover have "CHR ''|'' \<notin> set (case ci_imageInput c of Some i \<Rightarrow> image_text i | None \<Rightarrow> ''auto'')"
    by (simp add: word_texts split: option.split)
  ultimately show ?thesis using assms by (simp add: sync_parts_def sync_policy_def word_texts plain_combo_def)
qed

lemma sync_key_parts:
  assumes "plain_combo a" "plain_combo b" "comboEditorSyncKey a = comboEditorSyncKey b"
  shows "sync_parts a = sync_parts b"
proof -
  have s: "split_on (CHR ''|'') (comboEditorSyncKey c) = sync_parts c" if "plain_combo c" for c
    unfolding comboEditorSyncKey_def sync_parts_def [symmetric] by (rule split_join [OF _ sync_parts_plain [OF that]]) (simp add: sync_parts_def)
  show ?thesis using assms(3) s [OF assms(1)] s [OF assms(2)] by simp
qed

lemma sync_targets_inj:
  assumes "plain_combo a" "plain_combo b"
    "join_with '','' (map sync_target (ci_targets a)) = join_with '','' (map sync_target (ci_targets b))"
  shows "map (\<lambda>t. t\<lparr>ct_weight := Some (sync_weight t), ct_clientKey := None\<rparr>) (ci_targets a) =
    map (\<lambda>t. t\<lparr>ct_weight := Some (sync_weight t), ct_clientKey := None\<rparr>) (ci_targets b)"
proof -
  have "map sync_target (ci_targets a) = map sync_target (ci_targets b)"
    by (rule join_targets_inj [OF assms(3)])
      (auto dest: sync_target_plain(2,3) [OF plain_targets(1-3) [OF assms(1)]] sync_target_plain(2,3) [OF plain_targets(1-3) [OF assms(2)]])
  then have "list_all2 (\<lambda>t u. sync_target t = sync_target u) (ci_targets a) (ci_targets b)"
    by (simp add: list.rel_map list.rel_eq [symmetric])
  then have "list_all2 (\<lambda>t u. t\<lparr>ct_weight := Some (sync_weight t), ct_clientKey := None\<rparr> = u\<lparr>ct_weight := Some (sync_weight u), ct_clientKey := None\<rparr>)
      (ci_targets a) (ci_targets b)"
    by (rule list.rel_mono_strong) (rule sync_target_inj, auto dest: plain_targets [OF assms(1)] plain_targets [OF assms(2)])
  then show ?thesis by (simp add: list.rel_map list.rel_eq [symmetric])
qed

lemma key_of_view: "comboEditorSyncKey (sync_view c) = comboEditorSyncKey c"
proof -
  have t: "sync_target (t\<lparr>ct_weight := Some (sync_weight t), ct_clientKey := None\<rparr>) = sync_target t" for t
    by (simp add: sync_target_def sync_weight_def)
  show ?thesis by (simp add: comboEditorSyncKey_def sync_policy_def sync_view_def t comp_def split: option.split)
qed

lemma sticky_text_inj:
  assumes "pred_option (int_in 1 100) a" "pred_option (int_in 1 100) b"
    "(case a of Some n \<Rightarrow> num_text n | None \<Rightarrow> []) = (case b of Some n \<Rightarrow> num_text n | None \<Rightarrow> [])"
  shows "a = b"
  using assms bounded_text(3) [of 1 100] bounded_text_inj [of 1 100 _ 1 100] by (cases a; cases b) (simp_all, metis)

lemma effort_text_opt_inj:
  "(case a of Some e \<Rightarrow> effort_text e | None \<Rightarrow> []) = (case b of Some e \<Rightarrow> effort_text e | None \<Rightarrow> []) \<Longrightarrow> a = b"
  using word_texts(5) word_texts(5) [symmetric] by (cases a; cases b) (simp_all add: word_texts_inj)

lemma parts_view:
  assumes "plain_combo a" "plain_combo b" "sync_parts a = sync_parts b"
  shows "sync_view a = sync_view b"
proof -
  have p: "ci_id a = ci_id b" "text_or_empty (ci_alias a) = text_or_empty (ci_alias b)" "bool_text (ci_nativeAlias a) = bool_text (ci_nativeAlias b)"
    "text_or_empty (ci_displayName a) = text_or_empty (ci_displayName b)" "strategy_text (ci_strategy a) = strategy_text (ci_strategy b)"
    "(case ci_stickyLimit a of Some n \<Rightarrow> num_text n | None \<Rightarrow> []) = (case ci_stickyLimit b of Some n \<Rightarrow> num_text n | None \<Rightarrow> [])"
    "(case ci_defaultEffort a of Some e \<Rightarrow> effort_text e | None \<Rightarrow> []) = (case ci_defaultEffort b of Some e \<Rightarrow> effort_text e | None \<Rightarrow> [])"
    "(case ci_imageInput a of Some i \<Rightarrow> image_text i | None \<Rightarrow> ''auto'') = (case ci_imageInput b of Some i \<Rightarrow> image_text i | None \<Rightarrow> ''auto'')"
    "join_with '','' (map sync_target (ci_targets a)) = join_with '','' (map sync_target (ci_targets b))"
    using assms(3) by (simp_all add: sync_parts_def sync_policy_def)
  have wa: "wf_combo a" and wb: "wf_combo b" using assms by (simp_all add: plain_combo_def)
  have img: "(case ci_imageInput a of Some i \<Rightarrow> i | None \<Rightarrow> Auto) = (case ci_imageInput b of Some i \<Rightarrow> i | None \<Rightarrow> Auto)"
    using p(8) wa wb by (auto simp: wf_combo_def word_texts_inj)
  have "ci_alias a = ci_alias b" "ci_displayName a = ci_displayName b" "ci_nativeAlias a = ci_nativeAlias b" "ci_strategy a = ci_strategy b"
    using p(2-5) wa wb by (auto simp: wf_combo_def word_texts_inj text_or_empty_inj)
  moreover have "ci_stickyLimit a = ci_stickyLimit b" by (rule sticky_text_inj [OF _ _ p(6)]) (use wa wb in \<open>simp_all add: wf_combo_def\<close>)
  moreover have "ci_defaultEffort a = ci_defaultEffort b" by (rule effort_text_opt_inj [OF p(7)])
  ultimately show ?thesis using p(1) img sync_targets_inj [OF assms(1,2) p(9)] by (cases a; cases b) (simp add: sync_view_def)
qed

section \<open>Properties\<close>

definition sample_target :: "string \<Rightarrow> string \<Rightarrow> jsnum option \<Rightarrow> combo_target" where
  "sample_target p m w = \<lparr>ct_provider = p, ct_model = m, ct_weight = w, ct_clientKey = Some ''ct-1''\<rparr>"

definition sample_combo :: "combo_target list \<Rightarrow> combo_item" where
  "sample_combo ts = \<lparr>ci_id = ''fast'', ci_model = ''combo/fast'', ci_alias = None, ci_nativeAlias = False, ci_displayName = Some ''Fast'',
     ci_strategy = Failover, ci_storedStrategy = None, ci_stickyLimit = None, ci_defaultEffort = None, ci_imageInput = Some Auto,
     ci_targets = ts\<rparr>"

lemma sample_combo_plain: "plain_combo (sample_combo [sample_target ''p'' ''a:free'' (if weighted then Some (Fin 2) else None)])"
proof -
  have w: "int_in 1 10000 (Fin 2)" unfolding int_in_def by (intro exI [of _ 2]) simp
  have t: "trim ''fast'' = ''fast''" "trim ''combo/fast'' = ''combo/fast''" "trim ''Fast'' = ''Fast''" "trim ''p'' = ''p''"
    "trim ''a:free'' = ''a:free''" by code_simp+
  show ?thesis by (simp add: plain_combo_def wf_combo_def sample_combo_def sample_target_def clean_text_def wf_strategy_def wf_target_def
      plain_text_def text_or_empty_def w t)
qed

text \<open>The editor's key tells stored combos apart. For well-formed combos whose texts hold none of the separators (a model may
  still hold slashes and colons), two baselines have the same key exactly when they agree in id, nickname,
  native alias, display name, strategy, sticky limit, effort and image policy and in their targets with the default
  weight written out: a refresh that changes any of these is noticed, and no other is.\<close>

theorem sync_key_exact:
  assumes "plain_combo a" "plain_combo b"
  shows "comboEditorSyncKey a = comboEditorSyncKey b \<longleftrightarrow> sync_view a = sync_view b"
proof
  assume "comboEditorSyncKey a = comboEditorSyncKey b"
  then show "sync_view a = sync_view b" by (rule parts_view [OF assms sync_key_parts [OF assms]])
next
  assume "sync_view a = sync_view b"
  then show "comboEditorSyncKey a = comboEditorSyncKey b" by (metis key_of_view)
qed

theorem sync_key_exact_witness:
  "comboEditorSyncKey (sample_combo [sample_target ''p'' ''a:free'' None]) \<noteq> comboEditorSyncKey (sample_combo [sample_target ''p'' ''a:free'' (Some (Fin 2))])"
  using sync_key_exact [OF sample_combo_plain [of False] sample_combo_plain [of True]]
  by (simp add: sync_view_def sample_combo_def sample_target_def sync_weight_def)

text \<open>The pickers of a combo target offer what can be routed to and never lose what is stored. For a collation, the
  provider list holds the enabled, visible providers in order, followed by the stored provider when it is
  configured but not among them; the model list holds exactly the catalog ids of the provider (for a forwarded
  account also those of the OpenAI preset), each once and in order, preceded by the stored model when the catalog
  does not list it; switching the provider selects one of them.\<close>

theorem combo_pickers_exact:
  assumes "comparator lc (\<lambda>_. True)" "ct_provider target \<noteq> []"
  shows "let pickable = comboPickerProviders lc providers; choices = comboProviderChoices lc providers (ct_provider target);
       ids = comboModelIds lc models (ct_provider target) providers; offered = comboModelChoices lc models target providers in
     set pickable = {p \<in> set providers. po_disabled p \<noteq> Some True \<and> po_hiddenFromPicker p \<noteq> Some True}
     \<and> sorted_wrt (\<lambda>a b. by_option_name lc a b \<le> 0) pickable \<and> pickable = take (length pickable) choices
     \<and> (\<forall>p \<in> set (drop (length pickable) choices). po_name p = ct_provider target)
     \<and> ((\<exists>p \<in> set choices. po_name p = ct_provider target) \<longleftrightarrow> (\<exists>p \<in> set providers. po_name p = ct_provider target))
     \<and> set ids = {cm_id m | m. m \<in> set models \<and> cm_id m \<noteq> [] \<and> cm_provider m \<in> set (catalogProviderKeys (ct_provider target) providers)}
     \<and> distinct offered \<and> sorted_wrt (\<lambda>a b. lc a b \<le> 0) ids
     \<and> set offered = set ids \<union> ({ct_model target} - {[]})
     \<and> (let first = comboFirstModelId lc models (ct_provider target) providers in if ids = [] then first = [] else first \<in> set ids)"
proof -
  let ?pick = "comboPickerProviders lc providers" and ?ch = "comboProviderChoices lc providers (ct_provider target)"
  have ids: "set (comboModelIds lc models (ct_provider target) providers) =
      {cm_id m | m. m \<in> set models \<and> cm_id m \<noteq> [] \<and> cm_provider m \<in> set (catalogProviderKeys (ct_provider target) providers)}"
    by (rule comboModelIds_set [OF assms(2)])
  then have ne: "[] \<notin> set (comboModelIds lc models (ct_provider target) providers)" by auto
  have pick: "set ?pick = {p \<in> set providers. po_disabled p \<noteq> Some True \<and> po_hiddenFromPicker p \<noteq> Some True}"
    by (auto simp: comboPickerProviders_def)
  have ch: "?ch = ?pick \<and> ((\<exists>p \<in> set ?pick. po_name p = ct_provider target) \<or> (\<forall>p \<in> set providers. po_name p \<noteq> ct_provider target))
      \<or> (\<exists>p \<in> set providers. ?ch = ?pick @ [p] \<and> po_name p = ct_provider target)"
  proof (cases "find (\<lambda>p. po_name p = ct_provider target) providers")
    case None
    then have "\<forall>p \<in> set providers. po_name p \<noteq> ct_provider target" by (auto simp: find_None_iff)
    with None show ?thesis by (simp add: comboProviderChoices_def Let_def)
  next
    case (Some p)
    then have "p \<in> set providers" "po_name p = ct_provider target" by (auto simp: find_Some_iff)
    with Some show ?thesis using assms(2) by (auto simp: comboProviderChoices_def Let_def list_ex_iff)
  qed
  then have "?pick = take (length ?pick) ?ch \<and> (\<forall>p \<in> set (drop (length ?pick) ?ch). po_name p = ct_provider target)
      \<and> ((\<exists>p \<in> set ?ch. po_name p = ct_provider target) \<longleftrightarrow> (\<exists>p \<in> set providers. po_name p = ct_provider target))"
    using pick by auto
  moreover have "distinct (comboModelChoices lc models target providers)"
    using comboModelIds_distinct [of lc models "ct_provider target" providers] by (simp add: comboModelChoices_def Let_def)
  moreover have "set (comboModelChoices lc models target providers) =
      set (comboModelIds lc models (ct_provider target) providers) \<union> ({ct_model target} - {[]})"
    using ne by (auto simp: comboModelChoices_def Let_def)
  moreover have "if comboModelIds lc models (ct_provider target) providers = [] then comboFirstModelId lc models (ct_provider target) providers = []
      else comboFirstModelId lc models (ct_provider target) providers \<in> set (comboModelIds lc models (ct_provider target) providers)"
    by (simp add: comboFirstModelId_def split: list.split)
  ultimately show ?thesis
    using pick ids picker_sorted [OF assms(1), of providers] comboModelIds_sorted [OF assms(1), of models "ct_provider target" providers]
    unfolding Let_def by (elim conjE, intro conjI) assumption+
qed

theorem combo_pickers_exact_witness:
  "comboModelChoices by_length [\<lparr>cm_provider = ''p'', cm_id = ''bb'', cm_namespaced = None, cm_reasoningEfforts = None, cm_inputModalities = None\<rparr>]
     (sample_target ''p'' ''a'' None) [] = [''a'', ''bb'']
   \<and> set (comboModelChoices by_length [\<lparr>cm_provider = ''p'', cm_id = ''bb'', cm_namespaced = None, cm_reasoningEfforts = None, cm_inputModalities = None\<rparr>]
     (sample_target ''p'' ''a'' None) []) = {''bb''} \<union> {''a''}"
proof -
  have c: "comparator by_length (\<lambda>_. True)" using by_length_collation by (simp add: collation_def)
  have p: "ct_provider (sample_target ''p'' ''a'' None) \<noteq> []" by (simp add: sample_target_def)
  have k: "catalogProviderKeys ''p'' [] = [''p'']" by code_simp
  show ?thesis
    using combo_pickers_exact [OF c p, of "[]" "[\<lparr>cm_provider = ''p'', cm_id = ''bb'', cm_namespaced = None, cm_reasoningEfforts = None, cm_inputModalities = None\<rparr>]"]
    by (simp add: Let_def sample_target_def k comboModelChoices_def comboModelIds_def set_add_def)
qed

end
