(* ===== verification/Workflow_Cleanup.thy ===== *)
theory Workflow_Cleanup
  imports Account_Login Models_Catalog Js_Sorting
begin

text \<open>
  \<^verbatim>\<open>scripts/ci/cleanup-orphaned-workflows.ts\<close>: the job that deletes the runs of workflows whose file is gone. GitHub is
  a parameter: a function from what was asked and answered so far to the answer of the next request, so a
  repository that changes between two requests is covered. Every request is logged with its answer. The
  loop over pages ends with the first short page and need not end; it is a \<^theory_text>\<open>partial_function\<close>. A request is the
  data its path is built from, and \<open>request_path\<close> builds the path. Messages written to the console are left out;
  errors are values.
\<close>

section \<open>GitHub\<close>

definition YAML_PREFIX :: string where "YAML_PREFIX = ''.github/workflows/''"
definition DELETE_CAP :: int where "DELETE_CAP = 500"
definition PAGE_ROWS :: nat where "PAGE_ROWS = 100"

datatype gh_request =
    GetRepository
  | GetListing json
  | GetWorkflows nat
  | GetRuns "json option" nat
  | GetContents string string string string
  | DeleteRun "json option"

datatype gh_body = NoText | NotJson | Parsed json

record gh_reply =
  gh_status :: nat
  gh_body :: gh_body

type_synonym traffic = "(gh_request \<times> gh_reply) list"
type_synonym github_server = "traffic \<Rightarrow> gh_request \<Rightarrow> gh_reply"

datatype cleanup_error =
    MissingToken
  | BadRepository string
  | HttpError gh_request nat
  | NotJsonError gh_request nat
  | NotRows gh_request string
  | PropertyOfNull
  | OmittedDefaultBranch
  | NotListing
  | InvalidHead string
  | BadLimit int
  | DeletesFailed "(string \<times> json option \<times> nat) list"

definition response_ok :: "gh_reply \<Rightarrow> bool" where
  "response_ok r \<longleftrightarrow> 200 \<le> gh_status r \<and> gh_status r < 300"

definition ownerRepo :: "string \<Rightarrow> cleanup_error + string \<times> string" where
  "ownerRepo repository =
     (case split_on CHR ''/'' repository of
        [owner, repo] \<Rightarrow> if owner = [] \<or> repo = [] then Inl (BadRepository repository) else Inr (owner, repo)
      | _ \<Rightarrow> Inl (BadRepository repository))"

definition encodeSegments :: "string \<Rightarrow> string" where
  "encodeSegments path = join_with ''/'' (map encodeURIComponent (split_on CHR ''/'' path))"

text \<open>\<^verbatim>\<open>String(v)\<close>: an element of an array that is \<^verbatim>\<open>null\<close> prints as nothing.\<close>

fun js_string :: "json \<Rightarrow> string" where
  "js_string JNull = ''null''"
| "js_string (JBool b) = (if b then ''true'' else ''false'')"
| "js_string (JNum n) = num_text n"
| "js_string (JStr s) = s"
| "js_string (JArr vs) = join_with '','' (map (\<lambda>v. if v = JNull then [] else js_string v) vs)"
| "js_string (JObj ps) = ''[object Object]''"

definition id_text :: "json option \<Rightarrow> string" where
  "id_text v = (case v of None \<Rightarrow> ''undefined'' | Some j \<Rightarrow> js_string j)"

definition page_query :: "nat \<Rightarrow> string" where
  "page_query page = ''per_page='' @ show_nat PAGE_ROWS @ ''&page='' @ show_nat page"

definition request_path :: "string \<Rightarrow> string \<Rightarrow> gh_request \<Rightarrow> string" where
  "request_path owner repo r =
     (let repoPath = ''/repos/'' @ encodeURIComponent owner @ ''/'' @ encodeURIComponent repo in
      case r of
        GetRepository \<Rightarrow> repoPath
      | GetListing branch \<Rightarrow> repoPath @ ''/contents/.github/workflows?ref='' @ encodeURIComponent (js_string branch)
      | GetWorkflows page \<Rightarrow> repoPath @ ''/actions/workflows?'' @ page_query page
      | GetRuns i page \<Rightarrow> repoPath @ ''/actions/workflows/'' @ id_text i @ ''/runs?'' @ page_query page
      | GetContents headOwner headRepo path branch \<Rightarrow>
          ''/repos/'' @ encodeURIComponent headOwner @ ''/'' @ encodeURIComponent headRepo @ ''/contents/'' @ encodeSegments path
          @ ''?ref='' @ encodeURIComponent branch
      | DeleteRun i \<Rightarrow> repoPath @ ''/actions/runs/'' @ id_text i)"

section \<open>Requests\<close>

definition github :: "github_server \<Rightarrow> gh_request \<Rightarrow> traffic \<Rightarrow> gh_reply \<times> traffic" where
  "github gh r tr = (let reply = gh tr r in (reply, tr @ [(r, reply)]))"

definition parseJson :: "gh_request \<Rightarrow> gh_reply \<Rightarrow> cleanup_error + json option" where
  "parseJson r reply =
     (case gh_body reply of NoText \<Rightarrow> Inr None | NotJson \<Rightarrow> Inl (NotJsonError r (gh_status reply)) | Parsed j \<Rightarrow> Inr (Some j))"

definition read_json :: "gh_request \<Rightarrow> gh_reply \<Rightarrow> cleanup_error + json option" where
  "read_json r reply = (if \<not> response_ok reply then Inl (HttpError r (gh_status reply)) else parseJson r reply)"

definition requireJson :: "github_server \<Rightarrow> gh_request \<Rightarrow> traffic \<Rightarrow> (cleanup_error + json option) \<times> traffic" where
  "requireJson gh r tr = (let (reply, tr') = github gh r tr in (read_json r reply, tr'))"

definition batch_of :: "string \<Rightarrow> json option \<Rightarrow> json list option" where
  "batch_of field payload = (case Option.bind payload (\<lambda>j. prop_of j field) of Some (JArr rows) \<Rightarrow> Some rows | _ \<Rightarrow> None)"

partial_function (option) collect_from ::
  "github_server \<Rightarrow> (nat \<Rightarrow> gh_request) \<Rightarrow> string \<Rightarrow> nat \<Rightarrow> json list \<Rightarrow> traffic \<Rightarrow> ((cleanup_error + json list) \<times> traffic) option" where
  "collect_from gh request field page items tr =
     (case requireJson gh (request page) tr of
        (Inl e, tr') \<Rightarrow> Some (Inl e, tr')
      | (Inr payload, tr') \<Rightarrow>
          (case batch_of field payload of
             None \<Rightarrow> Some (Inl (NotRows (request page) field), tr')
           | Some batch \<Rightarrow>
               if length batch < PAGE_ROWS then Some (Inr (items @ batch), tr')
               else collect_from gh request field (page + 1) (items @ batch) tr'))"

declare collect_from.simps [code]

definition collectPages ::
  "github_server \<Rightarrow> (nat \<Rightarrow> gh_request) \<Rightarrow> string \<Rightarrow> traffic \<Rightarrow> ((cleanup_error + json list) \<times> traffic) option" where
  "collectPages gh request field tr = collect_from gh request field 1 [] tr"

definition bindG ::
  "((cleanup_error + 'a) \<times> traffic) option \<Rightarrow> ('a \<Rightarrow> traffic \<Rightarrow> ((cleanup_error + 'b) \<times> traffic) option) \<Rightarrow> ((cleanup_error + 'b) \<times> traffic) option" where
  "bindG m f = (case m of None \<Rightarrow> None | Some (Inl e, tr) \<Rightarrow> Some (Inl e, tr) | Some (Inr x, tr) \<Rightarrow> f x tr)"

section \<open>Which histories may go\<close>

type_synonym head = "string \<times> string"

definition text_prop :: "json option \<Rightarrow> string \<Rightarrow> string option" where
  "text_prop v k = (case Option.bind v (\<lambda>j. prop_of j k) of Some (JStr s) \<Rightarrow> Some s | _ \<Rightarrow> None)"

definition head_of :: "json \<Rightarrow> head option" where
  "head_of run =
     (case (text_prop (prop_of run ''head_repository'') ''full_name'', text_prop (Some run) ''head_branch'') of
        (Some fullName, Some branch) \<Rightarrow> if branch = [] then None else Some (fullName, branch)
      | _ \<Rightarrow> None)"

definition otherHeads :: "json list \<Rightarrow> string \<Rightarrow> json \<Rightarrow> head list" where
  "otherHeads runs origin defaultBranch =
     foldl (\<lambda>unique run. case head_of run of
              None \<Rightarrow> unique
            | Some head \<Rightarrow> if fst head = origin \<and> JStr (snd head) = defaultBranch then unique else set_add head unique) [] runs"

record history =
  hi_path :: string
  hi_workflowId :: jsnum
  hi_runIds :: "json option list"

definition by_history :: "history \<Rightarrow> history \<Rightarrow> int" where
  "by_history left right =
     (let byCount = int (length (hi_runIds left)) - int (length (hi_runIds right)) in
      if byCount \<noteq> 0 then byCount else by_number (hi_workflowId left) (hi_workflowId right))"

type_synonym pick = "string \<times> json option"

fun take_picks :: "int \<Rightarrow> pick list \<Rightarrow> pick list \<Rightarrow> pick list \<times> bool" where
  "take_picks limit picks [] = (picks, False)"
| "take_picks limit picks (p # ps) = (if limit \<le> int (length picks) then (picks, True) else take_picks limit (picks @ [p]) ps)"

definition history_picks :: "history \<Rightarrow> pick list" where
  "history_picks h = map (\<lambda>i. (hi_path h, i)) (hi_runIds h)"

definition allocateDeletionBudget :: "history list \<Rightarrow> int \<Rightarrow> cleanup_error + pick list \<times> bool" where
  "allocateDeletionBudget histories limit =
     (if limit < 1 then Inl (BadLimit limit)
      else Inr (take_picks limit [] (concat (map history_picks (sort_by by_history histories)))))"

definition live_paths :: "json list \<Rightarrow> string list" where
  "live_paths listing =
     set_of (concat (map (\<lambda>entry. if prop_of entry ''type'' = Some (JStr ''file'')
                                 then case text_prop (Some entry) ''path'' of Some p \<Rightarrow> [p] | None \<Rightarrow> [] else []) listing))"

definition stale_workflow :: "string list \<Rightarrow> json \<Rightarrow> bool" where
  "stale_workflow liveYaml workflow =
     (case text_prop (Some workflow) ''path'' of Some path \<Rightarrow> starts_with path YAML_PREFIX \<and> path \<notin> set liveYaml | None \<Rightarrow> False)"

definition completed :: "json \<Rightarrow> bool" where
  "completed run \<longleftrightarrow> prop_of run ''status'' = Some (JStr ''completed'')"

fun yaml_elsewhere :: "github_server \<Rightarrow> string \<Rightarrow> head list \<Rightarrow> traffic \<Rightarrow> ((cleanup_error + bool) \<times> traffic) option" where
  "yaml_elsewhere gh path [] tr = Some (Inr False, tr)"
| "yaml_elsewhere gh path ((fullName, branch) # heads) tr =
     (case split_on CHR ''/'' fullName of
        [headOwner, headRepo] \<Rightarrow>
          if headOwner = [] \<or> headRepo = [] then Some (Inl (InvalidHead fullName), tr)
          else let r = GetContents headOwner headRepo path branch; (reply, tr') = github gh r tr in
               if gh_status reply = 404 then yaml_elsewhere gh path heads tr'
               else if \<not> response_ok reply then Some (Inl (HttpError r (gh_status reply)), tr')
               else Some (Inr True, tr')
      | _ \<Rightarrow> Some (Inl (InvalidHead fullName), tr))"

definition number_of_json :: "json option \<Rightarrow> jsnum" where
  "number_of_json v = (case v of Some (JNum n) \<Rightarrow> n | Some JNull \<Rightarrow> Fin 0 | Some (JBool b) \<Rightarrow> Fin (if b then 1 else 0)
     | Some j \<Rightarrow> js_number (js_string j) | None \<Rightarrow> NaN)"

definition review_workflow ::
  "github_server \<Rightarrow> string \<Rightarrow> json \<Rightarrow> json \<Rightarrow> traffic \<Rightarrow> ((cleanup_error + history option) \<times> traffic) option" where
  "review_workflow gh origin defaultBranch workflow tr =
     (let i = prop_of workflow ''id''; path = the (text_prop (Some workflow) ''path'') in
      bindG (collectPages gh (GetRuns i) ''workflow_runs'' tr) (\<lambda>runs tr1.
        if JNull \<in> set runs then Some (Inl PropertyOfNull, tr1)
        else if \<not> list_all completed runs then Some (Inr None, tr1)
        else bindG (yaml_elsewhere gh path (otherHeads runs origin defaultBranch) tr1) (\<lambda>elsewhere tr2.
          Some (Inr (if elsewhere then None
                     else Some \<lparr>hi_path = path, hi_workflowId = number_of_json i, hi_runIds = map (\<lambda>run. prop_of run ''id'') runs\<rparr>), tr2))))"

fun review_all ::
  "github_server \<Rightarrow> string \<Rightarrow> json \<Rightarrow> json list \<Rightarrow> history list \<Rightarrow> traffic \<Rightarrow> ((cleanup_error + history list) \<times> traffic) option" where
  "review_all gh origin defaultBranch [] kept tr = Some (Inr kept, tr)"
| "review_all gh origin defaultBranch (workflow # stale) kept tr =
     bindG (review_workflow gh origin defaultBranch workflow tr) (\<lambda>h tr'.
       review_all gh origin defaultBranch stale (case h of Some x \<Rightarrow> kept @ [x] | None \<Rightarrow> kept) tr')"

section \<open>Deleting\<close>

record delete_tally =
  dt_deleted :: nat
  dt_failures :: "(string \<times> json option \<times> nat) list"

definition delete_one :: "github_server \<Rightarrow> delete_tally \<times> traffic \<Rightarrow> pick \<Rightarrow> delete_tally \<times> traffic" where
  "delete_one gh s p =
     (let (reply, tr') = github gh (DeleteRun (snd p)) (snd s); tally = fst s in
      if gh_status reply = 204 \<or> response_ok reply then (tally\<lparr>dt_deleted := dt_deleted tally + 1\<rparr>, tr')
      else if gh_status reply = 404 then (tally, tr')
      else (tally\<lparr>dt_failures := dt_failures tally @ [(fst p, snd p, gh_status reply)]\<rparr>, tr'))"

record cleanup_summary =
  sm_registered :: nat
  sm_liveYaml :: nat
  sm_stale :: nat
  sm_accepted :: nat
  sm_runCount :: nat
  sm_deleted :: nat
  sm_hitCap :: bool

definition delete_picked ::
  "github_server \<Rightarrow> int \<Rightarrow> json list \<Rightarrow> json list \<Rightarrow> json list \<Rightarrow> history list \<Rightarrow> traffic \<Rightarrow> ((cleanup_error + cleanup_summary) \<times> traffic) option" where
  "delete_picked gh maxDeletions listing registered stale kept tr =
     (case allocateDeletionBudget kept maxDeletions of
        Inl e \<Rightarrow> Some (Inl e, tr)
      | Inr (picks, capped) \<Rightarrow>
          (let (tally, tr') = foldl (delete_one gh) (\<lparr>dt_deleted = 0, dt_failures = []\<rparr>, tr) picks in
           if dt_failures tally \<noteq> [] then Some (Inl (DeletesFailed (dt_failures tally)), tr')
           else Some (Inr \<lparr>sm_registered = length registered, sm_liveYaml = length (live_paths listing), sm_stale = length stale,
                  sm_accepted = length kept, sm_runCount = sum_list (map (length \<circ> hi_runIds) kept),
                  sm_deleted = dt_deleted tally, sm_hitCap = capped\<rparr>, tr')))"

definition after_listing ::
  "github_server \<Rightarrow> int \<Rightarrow> string \<Rightarrow> json \<Rightarrow> json list \<Rightarrow> traffic \<Rightarrow> ((cleanup_error + cleanup_summary) \<times> traffic) option" where
  "after_listing gh maxDeletions origin defaultBranch listing tr =
     bindG (collectPages gh GetWorkflows ''workflows'' tr) (\<lambda>registered tr1.
       let stale = filter (stale_workflow (live_paths listing)) registered in
       bindG (review_all gh origin defaultBranch stale [] tr1) (delete_picked gh maxDeletions listing registered stale))"

definition removeStaleWorkflowRuns ::
  "github_server \<Rightarrow> string \<Rightarrow> string \<Rightarrow> int \<Rightarrow> ((cleanup_error + cleanup_summary) \<times> traffic) option" where
  "removeStaleWorkflowRuns gh token repository maxDeletions =
     (if token = [] then Some (Inl MissingToken, [])
      else case ownerRepo repository of
             Inl e \<Rightarrow> Some (Inl e, [])
           | Inr (owner, repo) \<Rightarrow>
               (case requireJson gh GetRepository [] of
                  (Inl e, tr) \<Rightarrow> Some (Inl e, tr)
                | (Inr repoInfo, tr) \<Rightarrow>
                    if repoInfo = None \<or> repoInfo = Some JNull then Some (Inl PropertyOfNull, tr)
                    else (case Option.bind repoInfo (\<lambda>j. prop_of j ''default_branch'') of
                            None \<Rightarrow> Some (Inl OmittedDefaultBranch, tr)
                          | Some defaultBranch \<Rightarrow>
                              if \<not> json_truthy defaultBranch then Some (Inl OmittedDefaultBranch, tr)
                              else (case requireJson gh (GetListing defaultBranch) tr of
                                      (Inl e, tr1) \<Rightarrow> Some (Inl e, tr1)
                                    | (Inr (Some (JArr listing)), tr1) \<Rightarrow>
                                        after_listing gh maxDeletions (owner @ ''/'' @ repo) defaultBranch listing tr1
                                    | (Inr _, tr1) \<Rightarrow> Some (Inl NotListing, tr1)))))"

section \<open>What was read\<close>

definition rows_in :: "string \<Rightarrow> gh_reply \<Rightarrow> json list option" where
  "rows_in field reply = (if response_ok reply then case gh_body reply of NoText \<Rightarrow> None | NotJson \<Rightarrow> None | Parsed j \<Rightarrow> batch_of field (Some j) else None)"

text \<open>The block of requests a paged listing made: consecutive pages, all full but the last, with the rows they held.\<close>

fun page_block :: "(nat \<Rightarrow> gh_request) \<Rightarrow> string \<Rightarrow> nat \<Rightarrow> traffic \<Rightarrow> json list \<Rightarrow> bool" where
  "page_block request field page [] items = False"
| "page_block request field page ((r, reply) # blk) items =
     (r = request page \<and> (case rows_in field reply of
        None \<Rightarrow> False
      | Some b \<Rightarrow> if length b < PAGE_ROWS then blk = [] \<and> items = b
                  else \<exists>rest. items = b @ rest \<and> page_block request field (page + 1) blk rest))"

fun is_delete :: "gh_request \<times> gh_reply \<Rightarrow> bool" where
  "is_delete (DeleteRun _, _) = True"
| "is_delete _ = False"

definition reads :: "traffic \<Rightarrow> bool" where
  "reads tr \<longleftrightarrow> list_all (\<lambda>e. \<not> is_delete e) tr"

lemma reads_append [simp]: "reads (a @ b) \<longleftrightarrow> reads a \<and> reads b" "reads []" "reads [e] \<longleftrightarrow> \<not> is_delete e"
  by (simp_all add: reads_def)

lemma requireJson_cases:
  "requireJson gh r tr = (res, tr') \<longleftrightarrow> tr' = tr @ [(r, gh tr r)] \<and> res = read_json r (gh tr r)"
  by (auto simp: requireJson_def github_def Let_def)

lemma read_rows: "read_json r reply = Inr payload \<Longrightarrow> batch_of field payload = Some b \<Longrightarrow> rows_in field reply = Some b"
  by (auto simp: read_json_def parseJson_def rows_in_def batch_of_def split: if_splits gh_body.splits)

text \<open>What a paged listing leaves: only reads are added, and a complete answer is the rows of a block of pages.\<close>

definition collected ::
  "(nat \<Rightarrow> gh_request) \<Rightarrow> string \<Rightarrow> nat \<Rightarrow> json list \<Rightarrow> traffic \<Rightarrow> (cleanup_error + json list) \<times> traffic \<Rightarrow> bool" where
  "collected request field page items tr y \<longleftrightarrow>
     (\<forall>p reply. \<not> is_delete (request p, reply)) \<longrightarrow> (\<exists>blk. snd y = tr @ blk \<and> reads blk
       \<and> (\<forall>all. fst y = Inr all \<longrightarrow> (\<exists>new. all = items @ new \<and> page_block request field page blk new)))"

lemma collected_more:
  assumes "collected rq f (page + 1) (items @ b) (tr @ [one]) y"
    and "fst one = rq page" "rows_in f (snd one) = Some b" "\<not> length b < PAGE_ROWS"
  shows "collected rq f page items tr y"
  unfolding collected_def
proof
  assume nd: "\<forall>p reply. \<not> is_delete (rq p, reply)"
  from assms(1) nd obtain blk where "snd y = (tr @ [one]) @ blk" "reads blk"
    "\<forall>all. fst y = Inr all \<longrightarrow> (\<exists>new. all = (items @ b) @ new \<and> page_block rq f (page + 1) blk new)"
    unfolding collected_def by blast
  then show "\<exists>blk. snd y = tr @ blk \<and> reads blk
       \<and> (\<forall>all. fst y = Inr all \<longrightarrow> (\<exists>new. all = items @ new \<and> page_block rq f page blk new))"
    using nd assms(2-4) by (cases one, intro exI [of _ "one # blk"]) (auto simp: reads_def)
qed

lemma collect_block: "collect_from gh request field page items tr = Some y \<Longrightarrow> collected request field page items tr y"
proof (rule collect_from.raw_induct [where P = "\<lambda>gh. collected"])
  fix rec gh rq f page items tr y
  assume step: "\<And>gh rq f page items tr y. rec gh rq f page items tr = Some y \<Longrightarrow> collected rq f page items tr y"
    and body: "(case requireJson gh (rq page) tr of (Inl e, tr') \<Rightarrow> Some (Inl e, tr')
      | (Inr payload, tr') \<Rightarrow>
          (case batch_of f payload of None \<Rightarrow> Some (Inl (NotRows (rq page) f), tr')
           | Some batch \<Rightarrow> if length batch < PAGE_ROWS then Some (Inr (items @ batch), tr')
               else rec gh rq f (page + 1) (items @ batch) tr')) = Some y"
  define one where "one = (rq page, gh tr (rq page))"
  have req: "requireJson gh (rq page) tr = (read_json (rq page) (snd one), tr @ [one])" by (simp add: requireJson_cases one_def)
  consider e where "y = (Inl e, tr @ [one])"
    | b where "rows_in f (snd one) = Some b" "length b < PAGE_ROWS" "y = (Inr (items @ b), tr @ [one])"
    | b where "rows_in f (snd one) = Some b" "\<not> length b < PAGE_ROWS" "rec gh rq f (page + 1) (items @ b) (tr @ [one]) = Some y"
    using body by (auto simp: req dest: read_rows split: sum.splits option.splits if_splits)
  then show "collected rq f page items tr y"
  proof cases
    case 3
    show ?thesis by (rule collected_more [OF step [OF 3(3)] _ 3(1,2)]) (simp add: one_def)
  qed (auto simp: one_def collected_def)
qed

lemma collectPages_block:
  assumes "collectPages gh request field tr = Some (res, tr')" "\<forall>p reply. \<not> is_delete (request p, reply)"
  shows "\<exists>blk. tr' = tr @ blk \<and> reads blk \<and> (\<forall>rows. res = Inr rows \<longrightarrow> page_block request field 1 blk rows)"
  using collect_block [of gh request field 1 "[]" tr "(res, tr')"] assms
  by (auto simp: collectPages_def collected_def)

lemma bindG_Some:
  "bindG m f = Some y \<longleftrightarrow> (\<exists>e tr. m = Some (Inl e, tr) \<and> y = (Inl e, tr)) \<or> (\<exists>x tr. m = Some (Inr x, tr) \<and> f x tr = Some y)"
  by (auto simp: bindG_def split: option.split sum.split prod.split)

section \<open>Evidence\<close>

definition head_gone :: "string \<Rightarrow> traffic \<Rightarrow> head \<Rightarrow> bool" where
  "head_gone path tr head \<longleftrightarrow> (\<exists>owner repo reply. split_on CHR ''/'' (fst head) = [owner, repo]
     \<and> (GetContents owner repo path (snd head), reply) \<in> set tr \<and> gh_status reply = 404)"

lemma head_gone_mono: "head_gone path tr head \<Longrightarrow> set tr \<subseteq> set tr' \<Longrightarrow> head_gone path tr' head"
  by (auto simp: head_gone_def)

lemma yaml_elsewhere_reads:
  "yaml_elsewhere gh path heads tr = Some (res, tr') \<Longrightarrow>
     \<exists>blk. tr' = tr @ blk \<and> reads blk \<and> (res = Inr False \<longrightarrow> (\<forall>head \<in> set heads. head_gone path blk head))"
proof (induction heads arbitrary: tr)
  case (Cons head heads)
  obtain fullName branch where h: "head = (fullName, branch)" by fastforce
  show ?case
  proof (cases "\<exists>o1 r1. split_on CHR ''/'' fullName = [o1, r1] \<and> o1 \<noteq> [] \<and> r1 \<noteq> []")
    case False
    then have "res \<noteq> Inr False" "tr' = tr" using Cons.prems by (auto simp: h split: list.splits if_splits)
    then show ?thesis by simp
  next
    case True
    then obtain o1 r1 where s: "split_on CHR ''/'' fullName = [o1, r1]" "o1 \<noteq> []" "r1 \<noteq> []" by blast
    define one where "one = (GetContents o1 r1 path branch, gh tr (GetContents o1 r1 path branch))"
    show ?thesis
    proof (cases "gh_status (snd one) = 404")
      case True
      then have "yaml_elsewhere gh path heads (tr @ [one]) = Some (res, tr')"
        using Cons.prems s by (simp add: h github_def Let_def one_def)
      from Cons.IH [OF this] obtain blk where
        "tr' = (tr @ [one]) @ blk" "reads blk" "res = Inr False \<longrightarrow> (\<forall>head \<in> set heads. head_gone path blk head)" by blast
      moreover have "head_gone path (one # blk) head" using s(1) True by (auto simp: head_gone_def h one_def)
      ultimately show ?thesis
        by (intro exI [of _ "one # blk"]) (auto simp: reads_def one_def intro: head_gone_mono)
    next
      case False
      then have "res \<noteq> Inr False" "tr' = tr @ [one]"
        using Cons.prems s by (auto simp: h github_def Let_def one_def split: if_splits)
      then show ?thesis by (simp add: one_def)
    qed
  qed
qed simp

text \<open>What has to have been read before a history may go: its workflow is registered and stale, all its runs were listed
  and are completed, and the file was missing on every other head of theirs.\<close>

definition orphan_evidence :: "string \<Rightarrow> json \<Rightarrow> traffic \<Rightarrow> json \<Rightarrow> history \<Rightarrow> bool" where
  "orphan_evidence origin defaultBranch tr workflow h \<longleftrightarrow>
     (\<exists>runs pre blk post. tr = pre @ blk @ post \<and> page_block (GetRuns (prop_of workflow ''id'')) ''workflow_runs'' 1 blk runs
        \<and> list_all completed runs \<and> hi_runIds h = map (\<lambda>run. prop_of run ''id'') runs
        \<and> hi_path h = the (text_prop (Some workflow) ''path'')
        \<and> (\<forall>head \<in> set (otherHeads runs origin defaultBranch). head_gone (hi_path h) tr head))"

lemma orphan_evidence_mono:
  assumes "orphan_evidence origin branch tr workflow h"
  shows "orphan_evidence origin branch (a @ tr @ b) workflow h"
proof -
  from assms obtain runs pre blk post where e: "tr = pre @ blk @ post"
    "page_block (GetRuns (prop_of workflow ''id'')) ''workflow_runs'' 1 blk runs"
    "list_all completed runs" "hi_runIds h = map (\<lambda>run. prop_of run ''id'') runs" "hi_path h = the (text_prop (Some workflow) ''path'')"
    "\<forall>head \<in> set (otherHeads runs origin branch). head_gone (hi_path h) tr head"
    unfolding orphan_evidence_def by blast
  have "a @ tr @ b = (a @ pre) @ blk @ (post @ b)" by (simp add: e(1))
  moreover have "\<forall>head \<in> set (otherHeads runs origin branch). head_gone (hi_path h) (a @ tr @ b) head"
    using e(6) head_gone_mono [of "hi_path h" tr _ "a @ tr @ b"] by auto
  ultimately show ?thesis unfolding orphan_evidence_def using e(2-5) by blast
qed

lemma review_workflow_reads:
  assumes "review_workflow gh origin branch workflow tr = Some (res, tr')"
  shows "\<exists>blk. tr' = tr @ blk \<and> reads blk \<and> (\<forall>h. res = Inr (Some h) \<longrightarrow> orphan_evidence origin branch blk workflow h)"
proof -
  define i where "i = prop_of workflow ''id''"
  define path where "path = the (text_prop (Some workflow) ''path'')"
  from assms obtain runs_res tr1 where pages: "collectPages gh (GetRuns i) ''workflow_runs'' tr = Some (runs_res, tr1)"
    by (auto simp: review_workflow_def Let_def bindG_Some i_def)
  from collectPages_block [OF pages] obtain blk1 where b1: "tr1 = tr @ blk1" "reads blk1"
    "\<And>rows. runs_res = Inr rows \<Longrightarrow> page_block (GetRuns i) ''workflow_runs'' 1 blk1 rows" by auto
  consider "tr' = tr1" "\<forall>h. res \<noteq> Inr (Some h)"
    | runs elsewhere where "runs_res = Inr runs" "list_all completed runs"
      "yaml_elsewhere gh path (otherHeads runs origin branch) tr1 = Some (elsewhere, tr')"
      "\<forall>h. res = Inr (Some h) \<longrightarrow> elsewhere = Inr False \<and> h = \<lparr>hi_path = path, hi_workflowId = number_of_json i, hi_runIds = map (\<lambda>run. prop_of run ''id'') runs\<rparr>"
    using assms pages by (auto simp: review_workflow_def Let_def bindG_Some i_def [symmetric] path_def [symmetric] split: if_splits)
  then show ?thesis
  proof cases
    case 1
    then show ?thesis using b1(1,2) by auto
  next
    case 2
    from yaml_elsewhere_reads [OF 2(3)] obtain blk2 where b2: "tr' = tr1 @ blk2" "reads blk2"
      "elsewhere = Inr False \<longrightarrow> (\<forall>head \<in> set (otherHeads runs origin branch). head_gone path blk2 head)" by blast
    have "orphan_evidence origin branch (blk1 @ blk2) workflow h" if "res = Inr (Some h)" for h
      unfolding orphan_evidence_def
      using 2(2,4) that b2(3) b1(3) [OF 2(1)]
      by (intro exI [of _ runs] exI [of _ "[]"] exI [of _ blk1] exI [of _ blk2])
         (auto simp: i_def path_def intro: head_gone_mono)
    then show ?thesis using b1(1,2) b2(1,2) by (intro exI [of _ "blk1 @ blk2"]) auto
  qed
qed

lemma review_all_reads:
  assumes "review_all gh origin branch stale kept tr = Some (res, tr')"
    and "\<forall>h \<in> set kept. \<exists>w \<in> set seen. orphan_evidence origin branch tr w h"
  shows "\<exists>blk. tr' = tr @ blk \<and> reads blk \<and> (\<forall>hs. res = Inr hs \<longrightarrow>
    (\<forall>h \<in> set hs. \<exists>w \<in> set (seen @ stale). orphan_evidence origin branch tr' w h))"
  using assms
proof (induction stale arbitrary: kept tr seen)
  case (Cons workflow stale)
  from Cons.prems(1) obtain one tr1 where one: "review_workflow gh origin branch workflow tr = Some (one, tr1)"
    by (auto simp: bindG_Some)
  from review_workflow_reads [OF one] obtain blk1 where b1: "tr1 = tr @ blk1" "reads blk1"
    "\<And>h. one = Inr (Some h) \<Longrightarrow> orphan_evidence origin branch blk1 workflow h" by blast
  show ?case
  proof (cases one)
    case (Inl e)
    then show ?thesis using Cons.prems(1) one b1 by (auto simp: bindG_def)
  next
    case (Inr h)
    let ?kept = "case h of Some x \<Rightarrow> kept @ [x] | None \<Rightarrow> kept"
    have kept: "\<exists>w \<in> set (seen @ [workflow]). orphan_evidence origin branch tr1 w x" if x: "x \<in> set ?kept" for x
    proof (cases "x \<in> set kept")
      case True
      with Cons.prems(2) obtain w where "w \<in> set seen" "orphan_evidence origin branch tr w x" by blast
      then show ?thesis using orphan_evidence_mono [of origin branch tr w x "[]" blk1] by (simp add: b1(1)) blast
    next
      case False
      then have "h = Some x" using x by (auto split: option.splits)
      then show ?thesis using orphan_evidence_mono [OF b1(3), of x tr "[]"] Inr by (simp add: b1(1))
    qed
    have rest: "review_all gh origin branch stale ?kept tr1 = Some (res, tr')"
      using Cons.prems(1) one Inr by (simp add: bindG_def)
    obtain blk2 where b2: "tr' = tr1 @ blk2" "reads blk2" "\<forall>hs. res = Inr hs \<longrightarrow>
      (\<forall>h \<in> set hs. \<exists>w \<in> set ((seen @ [workflow]) @ stale). orphan_evidence origin branch tr' w h)"
      using Cons.IH [OF rest, of "seen @ [workflow]"] kept by auto
    then show ?thesis using b1(1,2) by (intro exI [of _ "blk1 @ blk2"]) auto
  qed
qed auto

section \<open>The budget\<close>

lemma take_picks_prefix:
  "int (length picks) \<le> limit \<Longrightarrow>
     take_picks limit picks ps = (picks @ take (nat limit - length picks) ps, limit < int (length picks + length ps))"
proof (induction ps arbitrary: picks)
  case (Cons p ps)
  show ?case
  proof (cases "limit \<le> int (length picks)")
    case True
    then have "nat limit - length picks = 0" using Cons.prems by simp
    then show ?thesis using True Cons.prems by simp
  next
    case False
    then have "nat limit - length picks = Suc (nat limit - length (picks @ [p]))" by simp
    then show ?thesis using False Cons.IH [of "picks @ [p]"] by simp
  qed
qed simp

definition ranked_picks :: "history list \<Rightarrow> pick list" where
  "ranked_picks hs = concat (map history_picks (sort_by by_history hs))"

lemma budget_prefix:
  "1 \<le> limit \<Longrightarrow> allocateDeletionBudget hs limit = Inr (take (nat limit) (ranked_picks hs), nat limit < length (ranked_picks hs))"
  using take_picks_prefix [of "[]" limit] by (auto simp: allocateDeletionBudget_def ranked_picks_def)

lemma ranked_picks_from: "(path, i) \<in> set (ranked_picks hs) \<Longrightarrow> \<exists>h \<in> set hs. path = hi_path h \<and> i \<in> set (hi_runIds h)"
  by (auto simp: ranked_picks_def history_picks_def)

text \<open>A deletion that counts as done: the server removed the run, or no longer had it.\<close>

definition run_gone :: "gh_reply \<Rightarrow> bool" where
  "run_gone reply \<longleftrightarrow> response_ok reply \<or> gh_status reply = 404"

lemma delete_fold:
  assumes "foldl (delete_one gh) (t, tr) picks = (t', tr')"
  shows "\<exists>del. tr' = tr @ del \<and> map fst del = map (DeleteRun \<circ> snd) picks
    \<and> dt_deleted t' = dt_deleted t + length (filter (response_ok \<circ> snd) del)
    \<and> (dt_failures t' = [] \<longleftrightarrow> dt_failures t = [] \<and> list_all (run_gone \<circ> snd) del)"
  using assms
proof (induction picks arbitrary: t tr)
  case (Cons p picks)
  define one where "one = (DeleteRun (snd p), gh tr (DeleteRun (snd p)))"
  define t1 where "t1 = fst (delete_one gh (t, tr) p)"
  have t1: "delete_one gh (t, tr) p = (t1, tr @ [one])"
    "dt_deleted t1 = dt_deleted t + (if response_ok (snd one) then 1 else 0)"
    "dt_failures t1 = [] \<longleftrightarrow> dt_failures t = [] \<and> run_gone (snd one)"
    by (auto simp: t1_def delete_one_def github_def Let_def one_def run_gone_def response_ok_def)
  with Cons.prems have "foldl (delete_one gh) (t1, tr @ [one]) picks = (t', tr')" by simp
  from Cons.IH [OF this] obtain del where "tr' = (tr @ [one]) @ del" "map fst del = map (DeleteRun \<circ> snd) picks"
    "dt_deleted t' = dt_deleted t1 + length (filter (response_ok \<circ> snd) del)"
    "dt_failures t' = [] \<longleftrightarrow> dt_failures t1 = [] \<and> list_all (run_gone \<circ> snd) del" by blast
  then show ?case using t1(2,3) by (intro exI [of _ "one # del"]) (auto simp: one_def comp_def)
qed simp

text \<open>A run that reports a summary met no failed deletion, and the summary tells what was done.\<close>

definition summary_exact :: "int \<Rightarrow> cleanup_error + cleanup_summary \<Rightarrow> traffic \<Rightarrow> bool" where
  "summary_exact limit res del \<longleftrightarrow> (\<forall>sm. res = Inr sm \<longrightarrow>
     list_all (run_gone \<circ> snd) del \<and> sm_deleted sm = length (filter (response_ok \<circ> snd) del)
     \<and> sm_hitCap sm = (nat limit < sm_runCount sm))"

lemma delete_picked_traffic:
  assumes "delete_picked gh limit listing registered stale kept tr = Some (res, tr')"
  shows "\<exists>del. tr' = tr @ del \<and> (limit < 1 \<longrightarrow> del = [] \<and> res = Inl (BadLimit limit))
    \<and> (1 \<le> limit \<longrightarrow> map fst del = map (DeleteRun \<circ> snd) (take (nat limit) (ranked_picks kept))
        \<and> summary_exact limit res del)"
proof (cases "limit < 1")
  case True
  then show ?thesis using assms by (simp add: delete_picked_def allocateDeletionBudget_def)
next
  case False
  let ?picks = "take (nat limit) (ranked_picks kept)"
  obtain t tr1 where fold: "foldl (delete_one gh) (\<lparr>dt_deleted = 0, dt_failures = []\<rparr>, tr) ?picks = (t, tr1)" by fastforce
  from delete_fold [OF fold] obtain del where del: "tr1 = tr @ del" "map fst del = map (DeleteRun \<circ> snd) ?picks"
    "dt_deleted t = length (filter (response_ok \<circ> snd) del)" "dt_failures t = [] \<longleftrightarrow> list_all (run_gone \<circ> snd) del" by auto
  have count: "length (ranked_picks kept) = sum_list (map (length \<circ> hi_runIds) kept)"
    by (simp add: ranked_picks_def length_concat comp_def history_picks_def sum_sort_by)
  show ?thesis using assms False del by (auto simp: delete_picked_def budget_prefix fold Let_def count summary_exact_def split: if_splits)
qed

section \<open>The run as a whole\<close>

text \<open>What the run knew when it deleted: the default branch and the files on it, the registered workflows, and for
  the deleted run a registered workflow whose file is not among them.\<close>

definition cleanup_knowledge :: "traffic \<Rightarrow> json \<Rightarrow> json list \<Rightarrow> json list \<Rightarrow> bool" where
  "cleanup_knowledge rd branch listing registered \<longleftrightarrow>
     (\<exists>info files blk post. rd = (GetRepository, info) # (GetListing branch, files) # blk @ post
        \<and> read_json GetRepository info \<in> Inr ` {Some j |j. prop_of j ''default_branch'' = Some branch}
        \<and> read_json (GetListing branch) files = Inr (Some (JArr listing))
        \<and> page_block GetWorkflows ''workflows'' 1 blk registered)"

definition orphaned_run :: "traffic \<Rightarrow> string \<Rightarrow> json \<Rightarrow> json list \<Rightarrow> json list \<Rightarrow> json option \<Rightarrow> bool" where
  "orphaned_run rd origin branch listing registered i \<longleftrightarrow>
     (\<exists>w h. w \<in> set registered \<and> stale_workflow (live_paths listing) w \<and> orphan_evidence origin branch rd w h \<and> i \<in> set (hi_runIds h))"

lemma after_listing_traffic:
  assumes "after_listing gh limit origin branch listing tr = Some (res, tr')"
  shows "\<exists>blk1 blk2 del. tr' = tr @ (blk1 @ blk2) @ del \<and> reads (blk1 @ blk2)
    \<and> (del \<noteq> [] \<or> (\<exists>sm. res = Inr sm) \<longrightarrow> (\<exists>registered hs. page_block GetWorkflows ''workflows'' 1 blk1 registered
        \<and> (\<forall>h \<in> set hs. \<exists>w \<in> set registered. stale_workflow (live_paths listing) w \<and> orphan_evidence origin branch (tr @ blk1 @ blk2) w h)
        \<and> 1 \<le> limit \<and> map fst del = map (DeleteRun \<circ> snd) (take (nat limit) (ranked_picks hs))
        \<and> summary_exact limit res del))"
proof -
  from assms obtain pages tr1 where pages: "collectPages gh GetWorkflows ''workflows'' tr = Some (pages, tr1)"
    by (auto simp: after_listing_def bindG_Some)
  from collectPages_block [OF pages] obtain blk1 where b1: "tr1 = tr @ blk1" "reads blk1"
    "\<And>rows. pages = Inr rows \<Longrightarrow> page_block GetWorkflows ''workflows'' 1 blk1 rows" by auto
  show ?thesis
  proof (cases pages)
    case (Inl e)
    then show ?thesis using assms pages b1 by - (rule exI [of _ blk1], rule exI [of _ "[]"], rule exI [of _ "[]"], auto simp: after_listing_def bindG_def summary_exact_def)
  next
    case (Inr registered)
    let ?stale = "filter (stale_workflow (live_paths listing)) registered"
    have rest: "bindG (review_all gh origin branch ?stale [] tr1) (delete_picked gh limit listing registered ?stale) = Some (res, tr')"
      using assms pages Inr by (simp add: after_listing_def bindG_def Let_def)
    then obtain kept tr2 where kept: "review_all gh origin branch ?stale [] tr1 = Some (kept, tr2)" by (auto simp: bindG_Some)
    obtain blk2 where b2: "tr2 = tr1 @ blk2" "reads blk2" "\<And>hs. kept = Inr hs \<Longrightarrow>
        (\<forall>h \<in> set hs. \<exists>w \<in> set ?stale. orphan_evidence origin branch tr2 w h)"
      using review_all_reads [OF kept, of "[]"] by auto
    show ?thesis
    proof (cases kept)
      case (Inl e)
      then show ?thesis using rest kept b1 b2 by - (rule exI [of _ blk1], rule exI [of _ blk2], rule exI [of _ "[]"], auto simp: bindG_def summary_exact_def)
    next
      case kept': (Inr hs)
      have "delete_picked gh limit listing registered ?stale hs tr2 = Some (res, tr')" using rest kept kept' by (simp add: bindG_def)
      from delete_picked_traffic [OF this] obtain del where del: "tr' = tr2 @ del" "limit < 1 \<longrightarrow> del = [] \<and> res = Inl (BadLimit limit)"
        "1 \<le> limit \<longrightarrow> map fst del = map (DeleteRun \<circ> snd) (take (nat limit) (ranked_picks hs))
          \<and> summary_exact limit res del" by blast
      have "\<forall>h \<in> set hs. \<exists>w \<in> set registered. stale_workflow (live_paths listing) w \<and> orphan_evidence origin branch (tr @ blk1 @ blk2) w h"
        using b2(3) [OF kept'] by (auto simp: b1(1) b2(1))
      then show ?thesis using b1(2) b1(3) [OF Inr] b2(2) del
        by - (rule exI [of _ blk1], rule exI [of _ blk2], rule exI [of _ del], cases "limit < 1"; auto simp: b1(1) b2(1))
    qed
  qed
qed

lemma cleanup_start:
  assumes "removeStaleWorkflowRuns gh token repository limit = Some (res, tr)"
  shows "(reads tr \<and> (\<exists>e. res = Inl e)) \<or> (\<exists>owner repo info branch files listing. ownerRepo repository = Inr (owner, repo)
    \<and> read_json GetRepository info \<in> Inr ` {Some j |j. prop_of j ''default_branch'' = Some branch}
    \<and> read_json (GetListing branch) files = Inr (Some (JArr listing))
    \<and> after_listing gh limit (owner @ ''/'' @ repo) branch listing [(GetRepository, info), (GetListing branch, files)] = Some (res, tr))"
proof -
  define info where "info = gh [] GetRepository"
  have req: "requireJson gh GetRepository [] = (read_json GetRepository info, [(GetRepository, info)])" by (simp add: requireJson_cases info_def)
  consider "reads tr" "\<exists>e. res = Inl e"
    | owner repo j branch where "ownerRepo repository = Inr (owner, repo)" "read_json GetRepository info = Inr (Some j)" "prop_of j ''default_branch'' = Some branch"
      "(case requireJson gh (GetListing branch) [(GetRepository, info)] of (Inl e, tr1) \<Rightarrow> Some (Inl e, tr1)
        | (Inr (Some (JArr listing)), tr1) \<Rightarrow> after_listing gh limit (owner @ ''/'' @ repo) branch listing tr1
        | (Inr _, tr1) \<Rightarrow> Some (Inl NotListing, tr1)) = Some (res, tr)"
    using assms by (auto simp: removeStaleWorkflowRuns_def req split: if_splits sum.splits option.splits)
  then show ?thesis
  proof cases
    case 2
    define files where "files = gh [(GetRepository, info)] (GetListing branch)"
    have lst: "requireJson gh (GetListing branch) [(GetRepository, info)]
        = (read_json (GetListing branch) files, [(GetRepository, info), (GetListing branch, files)])" by (simp add: requireJson_cases files_def)
    consider "reads tr" "\<exists>e. res = Inl e" | listing where "read_json (GetListing branch) files = Inr (Some (JArr listing))"
      "after_listing gh limit (owner @ ''/'' @ repo) branch listing [(GetRepository, info), (GetListing branch, files)] = Some (res, tr)"
      using 2(4) by (auto simp: lst reads_def split: sum.splits option.splits json.splits)
    then show ?thesis using 2(1-3) by cases blast+
  qed blast
qed


text \<open>A repository with one registered workflow, whose file is gone and whose only run is completed.\<close>

definition sample_github :: github_server where
  "sample_github tr r = (case r of
     GetRepository \<Rightarrow> \<lparr>gh_status = 200, gh_body = Parsed (JObj [(''default_branch'', JStr ''main'')])\<rparr>
   | GetListing _ \<Rightarrow> \<lparr>gh_status = 200, gh_body = Parsed (JArr [])\<rparr>
   | GetWorkflows _ \<Rightarrow> \<lparr>gh_status = 200, gh_body = Parsed (JObj [(''workflows'',
       JArr [JObj [(''id'', JNum (Fin 7)), (''path'', JStr ''.github/workflows/a.yml'')]])])\<rparr>
   | GetRuns _ _ \<Rightarrow> \<lparr>gh_status = 200, gh_body = Parsed (JObj [(''workflow_runs'',
       JArr [JObj [(''id'', JNum (Fin 9)), (''status'', JStr ''completed''), (''head_branch'', JStr ''b''),
                   (''head_repository'', JObj [(''full_name'', JStr ''o/r'')])]])])\<rparr>
   | GetContents _ _ _ _ \<Rightarrow> \<lparr>gh_status = 404, gh_body = NoText\<rparr>
   | DeleteRun _ \<Rightarrow> \<lparr>gh_status = 204, gh_body = NoText\<rparr>)"


section \<open>The budget finishes the most histories\<close>

lemma by_history_comparator: "comparator by_history (num_is_finite \<circ> hi_workflowId)"
proof
  fix a b :: history assume "(num_is_finite \<circ> hi_workflowId) a" "(num_is_finite \<circ> hi_workflowId) b"
  then show "by_history a b \<le> 0 \<or> by_history b a \<le> 0"
    using comparator.total [OF by_number_comparator, of "hi_workflowId a" "hi_workflowId b"] by (auto simp: by_history_def Let_def)
next
  fix a b c :: history assume "(num_is_finite \<circ> hi_workflowId) a" "(num_is_finite \<circ> hi_workflowId) b" "(num_is_finite \<circ> hi_workflowId) c"
    "by_history a b \<le> 0" "by_history b c \<le> 0"
  then show "by_history a c \<le> 0"
    using comparator.trans [OF by_number_comparator, of "hi_workflowId a" "hi_workflowId b" "hi_workflowId c"]
    by (auto simp: by_history_def Let_def split: if_splits)
qed

lemma ranked_by_count:
  assumes "list_all (num_is_finite \<circ> hi_workflowId) hs"
  shows "sorted (map (length \<circ> hi_runIds) (sort_by by_history hs))"
  using comparator.sorted_sort_by [OF by_history_comparator assms] unfolding sorted_map
  by (rule sorted_wrt_mono_rel [rotated]) (auto simp: by_history_def Let_def split: if_splits)

lemma take_concat_prefix:
  "sum_list (map length (take k xss)) \<le> n \<Longrightarrow> set (concat (take k xss)) \<subseteq> set (take n (concat xss))"
  by (subst append_take_drop_id [of k xss, symmetric], subst concat_append) (simp add: length_concat)

text \<open>C21: The deletion budget removes as many stale workflow identities as it can. Let the workflow ids be finite numbers. For every
  choice of histories whose runs together fit the limit, the allocation finishes at least as many histories (every run
  of theirs is picked); it never picks more runs than the limit, and it says that it was capped exactly when some run is left over.\<close>

theorem budget_finishes_most:
  assumes ids: "list_all (num_is_finite \<circ> hi_workflowId) hs"
    and run: "allocateDeletionBudget hs limit = Inr (picks, capped)"
    and choice: "mset C \<subseteq># mset hs" "int (sum_list (map (length \<circ> hi_runIds) C)) \<le> limit"
  shows "length C \<le> length (filter (\<lambda>h. set (history_picks h) \<subseteq> set picks) hs)
    \<and> int (length picks) \<le> limit
    \<and> capped = (limit < int (sum_list (map (length \<circ> hi_runIds) hs)))"
proof -
  let ?r = "sort_by by_history hs"
  let ?done = "\<lambda>h. set (history_picks h) \<subseteq> set picks"
  from run have "1 \<le> limit" by (auto simp: allocateDeletionBudget_def split: if_splits)
  note b = budget_prefix [OF this, of hs]
  have p: "picks = take (nat limit) (ranked_picks hs)" "capped = (nat limit < length (ranked_picks hs))" using run b by auto
  have count: "length (ranked_picks hs) = sum_list (map (length \<circ> hi_runIds) hs)"
    by (simp add: ranked_picks_def length_concat comp_def history_picks_def sum_sort_by)
  have "mset (map (length \<circ> hi_runIds) C) \<subseteq># mset (map (length \<circ> hi_runIds) ?r)"
    using image_mset_subseteq_mono [OF choice(1), of "length \<circ> hi_runIds"] by simp
  from sorted_prefix_least [OF ranked_by_count [OF ids] this]
  have "sum_list (take (length C) (map (length \<circ> hi_runIds) ?r)) \<le> nat limit" using choice(2) by simp
  then have "sum_list (map length (take (length C) (map history_picks ?r))) \<le> nat limit"
    by (simp add: take_map comp_def history_picks_def)
  from take_concat_prefix [OF this] have "\<forall>h \<in> set (take (length C) ?r). ?done h"
    by (auto simp: p(1) ranked_picks_def take_map)
  then have "length (take (length C) ?r) \<le> length (filter ?done ?r)"
    by (subst append_take_drop_id [of "length C" ?r, symmetric]) (simp del: append_take_drop_id)
  also have "length (filter ?done ?r) = length (filter ?done hs)"
    by (metis mset_filter mset_sort_by size_mset)
  finally have "length (take (length C) ?r) \<le> length (filter ?done hs)" .
  moreover have "length C \<le> length hs" using size_mset_mono [OF choice(1)] by simp
  ultimately show ?thesis using p \<open>1 \<le> limit\<close> by (auto simp: count)
qed

definition sample_histories :: "history list" where
  "sample_histories =
    [\<lparr>hi_path = ''a'', hi_workflowId = Fin 1, hi_runIds = [Some (JNum (Fin 10)), Some (JNum (Fin 11))]\<rparr>,
     \<lparr>hi_path = ''b'', hi_workflowId = Fin 2, hi_runIds = [Some (JNum (Fin 20))]\<rparr>,
     \<lparr>hi_path = ''c'', hi_workflowId = Fin 3, hi_runIds = [Some (JNum (Fin 30))]\<rparr>]"

theorem budget_finishes_most_witness:
  "\<exists>picks capped. allocateDeletionBudget sample_histories 2 = Inr (picks, capped) \<and> capped
     \<and> length (tl sample_histories) \<le> length (filter (\<lambda>h. set (history_picks h) \<subseteq> set picks) sample_histories)"
proof -
  have run: "allocateDeletionBudget sample_histories 2
      = Inr ([(''b'', Some (JNum (Fin 20))), (''c'', Some (JNum (Fin 30)))], True)" by code_simp
  have ids: "list_all (num_is_finite \<circ> hi_workflowId) sample_histories" by (simp add: sample_histories_def)
  have sub: "mset (tl sample_histories) \<subseteq># mset sample_histories" by (simp add: sample_histories_def)
  have fit: "int (sum_list (map (length \<circ> hi_runIds) (tl sample_histories))) \<le> 2" by (simp add: sample_histories_def)
  show ?thesis using budget_finishes_most [OF ids run sub fit] run by blast
qed

section \<open>The run ends\<close>

text \<open>Listings are finite: from some page on, a page is never full. This is the documented behaviour of GitHub's paged
  listings, whatever happens between two requests.\<close>

definition finite_listings :: "github_server \<Rightarrow> nat \<Rightarrow> bool" where
  "finite_listings gh N \<longleftrightarrow> (\<forall>tr page b. N \<le> page \<longrightarrow>
     (rows_in ''workflows'' (gh tr (GetWorkflows page)) = Some b \<longrightarrow> length b < PAGE_ROWS)
     \<and> (\<forall>i. rows_in ''workflow_runs'' (gh tr (GetRuns i page)) = Some b \<longrightarrow> length b < PAGE_ROWS))"

lemma bindG_returns: "m \<noteq> None \<Longrightarrow> (\<And>x tr. f x tr \<noteq> None) \<Longrightarrow> bindG m f \<noteq> None"
  by (auto simp: bindG_def split: sum.split)

lemma collect_returns:
  assumes "\<And>tr page b. N \<le> page \<Longrightarrow> rows_in f (gh tr (rq page)) = Some b \<Longrightarrow> length b < PAGE_ROWS"
  shows "collect_from gh rq f page items tr \<noteq> None"
proof (induction "N - page" arbitrary: page items tr rule: less_induct)
  case less
  define one where "one = (rq page, gh tr (rq page))"
  have req: "requireJson gh (rq page) tr = (read_json (rq page) (snd one), tr @ [one])" by (simp add: requireJson_cases one_def)
  have more: "collect_from gh rq f (page + 1) (items @ b) (tr @ [one]) \<noteq> None"
    if "rows_in f (snd one) = Some b" "\<not> length b < PAGE_ROWS" for b
  proof (rule less.hyps)
    show "N - (page + 1) < N - page" using assms [of page tr b] that by (cases "N \<le> page") (auto simp: one_def)
  qed
  show ?case
    by (subst collect_from.simps) (use more [OF read_rows] in \<open>auto simp: req simp del: not_None_eq split: sum.splits option.splits\<close>)
qed

lemma yaml_elsewhere_returns: "yaml_elsewhere gh path heads tr \<noteq> None"
  by (induction gh path heads tr rule: yaml_elsewhere.induct) (auto simp: github_def Let_def simp del: not_None_eq split: list.splits)

lemma pages_return:
  assumes "finite_listings gh N"
  shows "collectPages gh GetWorkflows ''workflows'' tr \<noteq> None" "collectPages gh (GetRuns i) ''workflow_runs'' tr \<noteq> None"
  unfolding collectPages_def using assms
  by - (rule collect_returns [of N], simp add: finite_listings_def, rule collect_returns [of N], auto simp: finite_listings_def)

lemma review_all_returns:
  assumes "finite_listings gh N"
  shows "review_all gh origin branch stale kept tr \<noteq> None"
proof (induction stale arbitrary: kept tr)
  case (Cons w stale)
  have elsewhere: "bindG (yaml_elsewhere gh path heads tr) (\<lambda>e tr2. Some (g e, tr2)) \<noteq> None" for path heads tr g
    by (rule bindG_returns [OF yaml_elsewhere_returns]) simp
  have "review_workflow gh origin branch w tr \<noteq> None"
    unfolding review_workflow_def Let_def
    by (rule bindG_returns [OF pages_return(2) [OF assms]], split if_split, split if_split) (intro conjI impI elsewhere option.distinct)
  then show ?case unfolding review_all.simps by (rule bindG_returns) (rule Cons)
qed simp

lemma delete_picked_returns: "delete_picked gh limit listing registered stale kept tr \<noteq> None"
  by (simp add: delete_picked_def Let_def del: not_None_eq split: sum.split prod.split)

lemma after_listing_returns:
  assumes "finite_listings gh N"
  shows "after_listing gh limit origin branch listing tr \<noteq> None"
  unfolding after_listing_def Let_def
  by (rule bindG_returns [OF pages_return(1) [OF assms]], rule bindG_returns [OF review_all_returns [OF assms]])
     (rule delete_picked_returns)

text \<open>The other side: pages that are all full are read for ever.\<close>

definition all_full :: "github_server \<Rightarrow> (nat \<Rightarrow> gh_request) \<Rightarrow> string \<Rightarrow> bool" where
  "all_full gh rq f \<longleftrightarrow> (\<forall>tr page. \<exists>b. rows_in f (gh tr (rq page)) = Some b \<and> PAGE_ROWS \<le> length b)"

lemma rows_read: "rows_in f reply = Some b \<Longrightarrow> \<exists>payload. read_json r reply = Inr payload \<and> batch_of f payload = Some b"
  by (auto simp: read_json_def parseJson_def rows_in_def split: if_splits gh_body.splits)

lemma collect_full: "collect_from gh rq f page items tr = Some y \<Longrightarrow> \<not> all_full gh rq f"
proof (rule collect_from.raw_induct [where P = "\<lambda>gh rq f page items tr y. \<not> all_full gh rq f"])
  fix rec gh rq f page items tr y
  assume step: "\<And>gh rq f page items tr y. rec gh rq f page items tr = Some y \<Longrightarrow> \<not> all_full gh rq f"
    and body: "(case requireJson gh (rq page) tr of (Inl e, tr') \<Rightarrow> Some (Inl e, tr')
      | (Inr payload, tr') \<Rightarrow>
          (case batch_of f payload of None \<Rightarrow> Some (Inl (NotRows (rq page) f), tr')
           | Some batch \<Rightarrow> if length batch < PAGE_ROWS then Some (Inr (items @ batch), tr')
               else rec gh rq f (page + 1) (items @ batch) tr')) = Some y"
  show "\<not> all_full gh rq f"
  proof
    assume full: "all_full gh rq f"
    then obtain b where b: "rows_in f (gh tr (rq page)) = Some b" "PAGE_ROWS \<le> length b" unfolding all_full_def by blast
    from rows_read [OF b(1), of "rq page"] obtain payload where "read_json (rq page) (gh tr (rq page)) = Inr payload" "batch_of f payload = Some b" by blast
    then have "rec gh rq f (page + 1) (items @ b) (tr @ [(rq page, gh tr (rq page))]) = Some y"
      using body b(2) by (simp add: requireJson_def github_def Let_def)
    from step [OF this] full show False by simp
  qed
qed

text \<open>The cleanup ends. The loops over the pages of the registry and of each workflow's runs have no bound of their own; when from some
  page on no listing is full, every run returns, with a summary or an error, whatever else GitHub answers. Without that
  it may not: against a server whose registry pages are always full the registry is never read to its end.\<close>

theorem cleanup_returns:
  "(finite_listings gh N \<longrightarrow> (\<exists>y. removeStaleWorkflowRuns gh token repository limit = Some y))
   \<and> (all_full gh GetWorkflows ''workflows'' \<longrightarrow> collectPages gh GetWorkflows ''workflows'' tr = None)"
proof (intro conjI impI)
  assume "finite_listings gh N"
  from after_listing_returns [OF this] have "removeStaleWorkflowRuns gh token repository limit \<noteq> None"
    unfolding removeStaleWorkflowRuns_def by (simp del: not_None_eq split: sum.split prod.split option.split json.split)
  then show "\<exists>y. removeStaleWorkflowRuns gh token repository limit = Some y" by simp
next
  assume "all_full gh GetWorkflows ''workflows''"
  then show "collectPages gh GetWorkflows ''workflows'' tr = None"
    using collect_full [of gh GetWorkflows "''workflows''" 1 "[]" tr] by (cases "collectPages gh GetWorkflows ''workflows'' tr") (auto simp: collectPages_def)
qed

theorem cleanup_returns_witness:
  "finite_listings sample_github 1 \<and> (\<exists>y. removeStaleWorkflowRuns sample_github ''t'' ''o/r'' 0 = Some y)"
proof -
  have "finite_listings sample_github 1"
    by (auto simp: finite_listings_def sample_github_def rows_in_def response_ok_def batch_of_def prop_of_def PAGE_ROWS_def)
  then show ?thesis using cleanup_returns [of sample_github 1 "''t''" "''o/r''" 0 "[]"] by simp
qed

end
