(* ===== verification/CI_Scope.thy ===== *)
theory CI_Scope
  imports Model_Visibility
begin

text \<open>
  \<^verbatim>\<open>scripts/ci-pr-scope.ts\<close> and \<^verbatim>\<open>scripts/gui-if-changed.ts\<close>: which checks the files of a pull request ask for. The
  buckets are a record; a statement \<^verbatim>\<open>if (c) buckets.x = true\<close> is \<open>turn_on\<close>, and the body of the loop is the
  sequence of its statements. What git answers is a parameter of the second script.
\<close>

section \<open>Buckets\<close>

record pr_buckets =
  pb_docs :: bool
  pb_gui :: bool
  pb_go :: bool
  pb_automation :: bool
  pb_privacy :: bool
  pb_keyring :: bool
  pb_packaging :: bool
  pb_linux :: bool
  pb_darwin :: bool
  pb_windows :: bool
  pb_full :: bool

definition IGNORE_EXACT :: "string list" where
  "IGNORE_EXACT = [''AGENTS.md'', ''MAINTAINERS.md'', ''CONTRIBUTING.md'', ''SECURITY.md'', ''CODEOWNERS'', ''.gitignore'']"

definition FULL_SELF :: "string list" where
  "FULL_SELF =
     [''scripts/local-pr.ps1'', ''scripts/ci-local.ps1'', ''scripts/ci-local-linux.sh'', ''scripts/ci-local-macos.sh'',
      ''scripts/ci-pr-scope.ts'', ''scripts/ci-scope.sh'', ''.github/workflows/ci.yml'', ''.github/workflows/go-core.yml'']"

definition SHARED_NATIVE_GO_ROOTS :: "string list" where
  "SHARED_NATIVE_GO_ROOTS =
     [''cmd/benes'', ''internal/bootstrap'', ''internal/config'', ''internal/credentials'', ''internal/managedfs'',
      ''internal/nativemain'', ''internal/platform'', ''internal/servicectl'', ''internal/storage'', ''internal/store'']"

definition under :: "string \<Rightarrow> string \<Rightarrow> bool" where
  "under file dir \<longleftrightarrow> file = dir \<or> starts_with file (dir @ ''/'')"

definition ends_in :: "string \<Rightarrow> string \<Rightarrow> bool" where
  "ends_in s t \<longleftrightarrow> length t \<le> length s \<and> drop (length s - length t) s = t"

definition isIgnored :: "string \<Rightarrow> bool" where
  "isIgnored file \<longleftrightarrow>
     (if file \<in> set IGNORE_EXACT then True else if under file ''notes'' then True
      else if under file ''.agents'' then True else if under file ''.cursor'' then True else False)"

definition known_roots :: "string list" where
  "known_roots = [''docs'', ''gui'', ''cmd'', ''internal'', ''bin'', ''scripts'', ''.github'', ''assets'']"

definition known_files :: "string list" where
  "known_files = [''go.mod'', ''go.sum'', ''package.json'', ''package-lock.json'', ''.npmignore'', ''.gitattributes'', ''README.md'', ''LICENSE'']"

definition isKnown :: "string \<Rightarrow> bool" where
  "isKnown file \<longleftrightarrow> (if isIgnored file then True else if list_ex (under file) known_roots then True else file \<in> set known_files)"

definition emptyBuckets :: pr_buckets where
  "emptyBuckets = \<lparr>pb_docs = False, pb_gui = False, pb_go = False, pb_automation = False, pb_privacy = False, pb_keyring = False,
     pb_packaging = False, pb_linux = False, pb_darwin = False, pb_windows = False, pb_full = False\<rparr>"

definition allBuckets :: pr_buckets where
  "allBuckets = \<lparr>pb_docs = True, pb_gui = True, pb_go = True, pb_automation = True, pb_privacy = True, pb_keyring = True,
     pb_packaging = True, pb_linux = True, pb_darwin = True, pb_windows = True, pb_full = True\<rparr>"

definition sharedNativeGoPath :: "string \<Rightarrow> bool" where
  "sharedNativeGoPath file \<longleftrightarrow> (if file = ''go.mod'' \<or> file = ''go.sum'' then True else list_ex (under file) SHARED_NATIVE_GO_ROOTS)"

definition needsWindowsGo :: "string \<Rightarrow> bool" where
  "needsWindowsGo file \<longleftrightarrow>
     (if sharedNativeGoPath file then True else if under file ''internal/winsw'' \<or> under file ''internal/wintray'' then True
      else ends_in (to_lower file) ''_windows.go'')"

definition needsDarwinGo :: "string \<Rightarrow> bool" where
  "needsDarwinGo file \<longleftrightarrow>
     (if sharedNativeGoPath file then True else ends_in (to_lower file) ''_darwin.go'' \<or> ends_in (to_lower file) ''_unix.go'')"

section \<open>Classification\<close>

definition turn_on :: "bool \<Rightarrow> (pr_buckets \<Rightarrow> pr_buckets) \<Rightarrow> pr_buckets \<Rightarrow> pr_buckets" where
  "turn_on c set_bucket b = (if c then set_bucket b else b)"

definition go_file :: "string \<Rightarrow> bool" where
  "go_file file \<longleftrightarrow> under file ''cmd'' \<or> under file ''internal'' \<or> file = ''go.mod'' \<or> file = ''go.sum''"

definition packaging_file :: "string \<Rightarrow> bool" where
  "packaging_file file \<longleftrightarrow> file = ''package.json'' \<or> file = ''package-lock.json'' \<or> file = ''.npmignore'' \<or> file = ''.gitattributes''
     \<or> file = ''README.md'' \<or> file = ''LICENSE'' \<or> under file ''bin'' \<or> under file ''assets''
     \<or> file = ''scripts/prepare-package.ts'' \<or> file = ''.github/scripts/npm-pack-json.cjs''"

definition mark_file :: "pr_buckets \<Rightarrow> string \<Rightarrow> pr_buckets" where
  "mark_file b file =
     (let b = turn_on (under file ''docs'') (\<lambda>b. b\<lparr>pb_docs := True\<rparr>) b;
          b = turn_on (under file ''gui'') (\<lambda>b. b\<lparr>pb_gui := True\<rparr>) b;
          b = turn_on (go_file file) (\<lambda>b.
                let b = b\<lparr>pb_go := True\<rparr>;
                    b = turn_on (needsWindowsGo file) (\<lambda>b. b\<lparr>pb_windows := True\<rparr>) b
                in turn_on (needsDarwinGo file) (\<lambda>b. b\<lparr>pb_darwin := True\<rparr>) b) b;
          b = turn_on (under file ''.github'') (\<lambda>b. b\<lparr>pb_automation := True\<rparr>) b;
          b = turn_on (ends_in file ''.test.ts'' \<and> under file ''scripts'') (\<lambda>b. b\<lparr>pb_automation := True\<rparr>) b;
          b = turn_on (under file ''.github/scripts'' \<and> ends_in file ''.test.cjs'') (\<lambda>b. b\<lparr>pb_automation := True\<rparr>) b;
          b = turn_on (file = ''scripts/keyring-smoke.ts'') (\<lambda>b. b\<lparr>pb_keyring := True\<rparr>) b;
          b = turn_on (packaging_file file) (\<lambda>b. b\<lparr>pb_packaging := True\<rparr>) b
      in turn_on (under file ''scripts'' \<and> file \<noteq> ''scripts/keyring-smoke.ts'') (\<lambda>b. b\<lparr>pb_automation := True, pb_privacy := True\<rparr>) b)"

definition close_buckets :: "pr_buckets \<Rightarrow> pr_buckets" where
  "close_buckets b =
     (let b = turn_on (pb_gui b \<or> pb_go b \<or> pb_packaging b \<or> pb_automation b) (\<lambda>b. b\<lparr>pb_privacy := True\<rparr>) b;
          b = turn_on (pb_go b) (\<lambda>b. b\<lparr>pb_linux := True\<rparr>) b;
          b = turn_on (pb_packaging b) (\<lambda>b. b\<lparr>pb_linux := True\<rparr>) b
      in turn_on (pb_keyring b) (\<lambda>b. b\<lparr>pb_linux := True\<rparr>) b)"

definition self_buckets :: "pr_buckets \<Rightarrow> pr_buckets" where
  "self_buckets b = b\<lparr>pb_go := True, pb_linux := True, pb_darwin := True, pb_windows := True, pb_automation := True, pb_privacy := True\<rparr>"

definition unix_path :: "string \<Rightarrow> string" where
  "unix_path file = trim (map (\<lambda>c. if c = CHR 0x5C then CHR ''/'' else c) file)"

definition pr_paths :: "string list \<Rightarrow> string list" where
  "pr_paths files = set_of (filter (\<lambda>p. p \<noteq> []) (map unix_path files))"

definition classifyPrCiPaths :: "string list \<Rightarrow> bool \<Rightarrow> pr_buckets" where
  "classifyPrCiPaths files forceFull =
     (if forceFull then allBuckets
      else let paths = pr_paths files in
        if length paths = 0 then emptyBuckets
        else if list_ex (\<lambda>f. \<not> isKnown f) paths then allBuckets
        else let relevant = filter (\<lambda>f. \<not> isIgnored f) paths in
          if length relevant = 0 then emptyBuckets
          else turn_on (list_ex (\<lambda>f. f \<in> set FULL_SELF) paths) self_buckets (close_buckets (foldl mark_file emptyBuckets relevant)))"

definition scopeEnvValue :: "pr_buckets \<Rightarrow> string" where
  "scopeEnvValue b =
     (if pb_full b then ''all''
      else join_with '','' (map fst (filter snd
        [(''docs'', pb_docs b), (''gui'', pb_gui b), (''go'', pb_go b), (''automation'', pb_automation b), (''privacy'', pb_privacy b),
         (''keyring'', pb_keyring b), (''packaging'', pb_packaging b)])))"

definition needsCiLocal :: "pr_buckets \<Rightarrow> bool" where
  "needsCiLocal b \<longleftrightarrow>
     (if pb_full b then True else pb_go b \<or> pb_packaging b \<or> pb_keyring b \<or> pb_linux b \<or> pb_darwin b \<or> pb_windows b)"

section \<open>The dashboard gates\<close>

datatype gate = Lint | Build
datatype gate_decision = Run | Skip

record git_answers =
  ga_ref :: "string \<Rightarrow> bool"
  ga_diff :: "string \<Rightarrow> string option"

definition isGuiPath :: "string \<Rightarrow> bool" where
  "isGuiPath relPath \<longleftrightarrow> relPath = ''gui'' \<or> starts_with relPath ''gui/''"

definition decide :: "gate \<Rightarrow> string list option \<Rightarrow> gate_decision" where
  "decide gate changed =
     (if gate = Lint then (case changed of None \<Rightarrow> Run | Some paths \<Rightarrow> if list_ex isGuiPath paths then Run else Skip)
      else (case changed of None \<Rightarrow> Skip | Some paths \<Rightarrow> if list_ex isGuiPath paths then Run else Skip))"

definition namesInRange :: "git_answers \<Rightarrow> string \<Rightarrow> string list" where
  "namesInRange g commits =
     (case ga_diff g commits of None \<Rightarrow> [] | Some out \<Rightarrow> filter (\<lambda>l. l \<noteq> []) (map trim (split_on CHR 0x0A out)))"

definition UPSTREAM :: string where
  "UPSTREAM = CHR ''@'' # ''{u}''"

definition lintChangedPaths :: "git_answers \<Rightarrow> string list option" where
  "lintChangedPaths g =
     (let commits = if ga_ref g UPSTREAM then Some (UPSTREAM @ ''...HEAD'')
                  else if ga_ref g ''origin/dev'' then Some ''origin/dev...HEAD''
                  else if ga_ref g ''dev'' then Some ''dev...HEAD'' else None
      in map_option (namesInRange g) commits)"

definition buildChangedPaths :: "git_answers \<Rightarrow> string list option" where
  "buildChangedPaths g = (if \<not> ga_ref g ''ORIG_HEAD'' then None else Some (namesInRange g ''ORIG_HEAD...HEAD''))"

definition gate_run :: "git_answers \<Rightarrow> gate \<Rightarrow> gate_decision" where
  "gate_run g gate = decide gate (if gate = Lint then lintChangedPaths g else buildChangedPaths g)"

section \<open>Buckets as a union\<close>

definition either :: "pr_buckets \<Rightarrow> pr_buckets \<Rightarrow> pr_buckets" where
  "either a b = \<lparr>pb_docs = pb_docs a \<or> pb_docs b, pb_gui = pb_gui a \<or> pb_gui b, pb_go = pb_go a \<or> pb_go b,
     pb_automation = pb_automation a \<or> pb_automation b, pb_privacy = pb_privacy a \<or> pb_privacy b, pb_keyring = pb_keyring a \<or> pb_keyring b,
     pb_packaging = pb_packaging a \<or> pb_packaging b, pb_linux = pb_linux a \<or> pb_linux b, pb_darwin = pb_darwin a \<or> pb_darwin b,
     pb_windows = pb_windows a \<or> pb_windows b, pb_full = pb_full a \<or> pb_full b\<rparr>"

lemma either_laws:
  "either a emptyBuckets = a" "either emptyBuckets a = a" "either a a = a"
  "either (either a b) c = either a (either b c)" "either a b = either b a"
  "either allBuckets a = allBuckets" "either a allBuckets = allBuckets"
  by (auto simp: either_def emptyBuckets_def allBuckets_def)

lemma turn_on_or:
  "turn_on c (\<lambda>b. b\<lparr>pb_docs := True\<rparr>) b = b\<lparr>pb_docs := pb_docs b \<or> c\<rparr>"
  "turn_on c (\<lambda>b. b\<lparr>pb_gui := True\<rparr>) b = b\<lparr>pb_gui := pb_gui b \<or> c\<rparr>"
  "turn_on c (\<lambda>b. b\<lparr>pb_automation := True\<rparr>) b = b\<lparr>pb_automation := pb_automation b \<or> c\<rparr>"
  "turn_on c (\<lambda>b. b\<lparr>pb_privacy := True\<rparr>) b = b\<lparr>pb_privacy := pb_privacy b \<or> c\<rparr>"
  "turn_on c (\<lambda>b. b\<lparr>pb_keyring := True\<rparr>) b = b\<lparr>pb_keyring := pb_keyring b \<or> c\<rparr>"
  "turn_on c (\<lambda>b. b\<lparr>pb_packaging := True\<rparr>) b = b\<lparr>pb_packaging := pb_packaging b \<or> c\<rparr>"
  "turn_on c (\<lambda>b. b\<lparr>pb_linux := True\<rparr>) b = b\<lparr>pb_linux := pb_linux b \<or> c\<rparr>"
  "turn_on c (\<lambda>b. b\<lparr>pb_darwin := True\<rparr>) b = b\<lparr>pb_darwin := pb_darwin b \<or> c\<rparr>"
  "turn_on c (\<lambda>b. b\<lparr>pb_windows := True\<rparr>) b = b\<lparr>pb_windows := pb_windows b \<or> c\<rparr>"
  "turn_on c (\<lambda>b. b\<lparr>pb_automation := True, pb_privacy := True\<rparr>) b = b\<lparr>pb_automation := pb_automation b \<or> c, pb_privacy := pb_privacy b \<or> c\<rparr>"
  "turn_on c (\<lambda>b. b\<lparr>pb_go := True, pb_windows := pb_windows b \<or> w, pb_darwin := pb_darwin b \<or> d\<rparr>) b
     = b\<lparr>pb_go := pb_go b \<or> c, pb_windows := pb_windows b \<or> c \<and> w, pb_darwin := pb_darwin b \<or> c \<and> d\<rparr>"
  by (simp_all add: turn_on_def)

lemma mark_select:
  "pb_docs (mark_file b f) \<longleftrightarrow> pb_docs b \<or> under f ''docs''"
  "pb_gui (mark_file b f) \<longleftrightarrow> pb_gui b \<or> under f ''gui''"
  "pb_go (mark_file b f) \<longleftrightarrow> pb_go b \<or> go_file f"
  "pb_automation (mark_file b f) \<longleftrightarrow> pb_automation b \<or> under f ''.github'' \<or> ends_in f ''.test.ts'' \<and> under f ''scripts''
     \<or> under f ''.github/scripts'' \<and> ends_in f ''.test.cjs'' \<or> under f ''scripts'' \<and> f \<noteq> ''scripts/keyring-smoke.ts''"
  "pb_privacy (mark_file b f) \<longleftrightarrow> pb_privacy b \<or> under f ''scripts'' \<and> f \<noteq> ''scripts/keyring-smoke.ts''"
  "pb_keyring (mark_file b f) \<longleftrightarrow> pb_keyring b \<or> f = ''scripts/keyring-smoke.ts''"
  "pb_packaging (mark_file b f) \<longleftrightarrow> pb_packaging b \<or> packaging_file f"
  "pb_linux (mark_file b f) \<longleftrightarrow> pb_linux b"
  "pb_darwin (mark_file b f) \<longleftrightarrow> pb_darwin b \<or> go_file f \<and> needsDarwinGo f"
  "pb_windows (mark_file b f) \<longleftrightarrow> pb_windows b \<or> go_file f \<and> needsWindowsGo f"
  "pb_full (mark_file b f) \<longleftrightarrow> pb_full b"
  by (simp_all add: mark_file_def Let_def turn_on_or disj_assoc)

lemma mark_file_either: "mark_file b f = either b (mark_file emptyBuckets f)"
  by (rule pr_buckets.equality) (simp_all add: mark_select either_def emptyBuckets_def)

lemma marks_either: "foldl mark_file b fs = either b (foldl mark_file emptyBuckets fs)"
proof (induction fs arbitrary: b)
  case (Cons f fs)
  show ?case
    by (simp, subst Cons.IH, subst (2) Cons.IH, subst mark_file_either) (simp add: either_laws(4))
qed (simp add: either_laws)

lemma close_either: "close_buckets (either a b) = either (close_buckets a) (close_buckets b)"
  by (rule pr_buckets.equality) (auto simp: close_buckets_def either_def Let_def turn_on_or)

lemma self_either: "self_buckets (either a b) = either (self_buckets a) b" "self_buckets (either a b) = either a (self_buckets b)"
  by (rule pr_buckets.equality; auto simp: self_buckets_def either_def)+

text \<open>The marks of a list depend on the set of its files only.\<close>

lemma marks_member: "f \<in> set fs \<Longrightarrow> either (mark_file emptyBuckets f) (foldl mark_file emptyBuckets fs) = foldl mark_file emptyBuckets fs"
proof (induction fs)
  case (Cons g fs)
  have split: "foldl mark_file emptyBuckets (g # fs) = either (mark_file emptyBuckets g) (foldl mark_file emptyBuckets fs)"
    by (simp add: marks_either [of "mark_file emptyBuckets g"])
  show ?case
  proof (cases "f = g")
    case True
    show ?thesis unfolding True split by (simp add: either_laws(3) flip: either_laws(4))
  next
    case False
    then have "either (mark_file emptyBuckets f) (foldl mark_file emptyBuckets fs) = foldl mark_file emptyBuckets fs" using Cons by simp
    then show ?thesis unfolding split by (metis either_laws(4,5))
  qed
qed simp

lemma marks_subset:
  "set fs \<subseteq> set gs \<Longrightarrow> either (foldl mark_file emptyBuckets fs) (foldl mark_file emptyBuckets gs) = foldl mark_file emptyBuckets gs"
proof (induction fs)
  case (Cons f fs)
  then show ?case
    by (simp add: marks_either [of "mark_file emptyBuckets f"] either_laws(4) marks_member)
qed (simp add: either_laws)

lemma marks_set: "set fs = set gs \<Longrightarrow> foldl mark_file emptyBuckets fs = foldl mark_file emptyBuckets gs"
  by (metis either_laws(5) marks_subset subset_refl)

definition relevant_paths :: "string list \<Rightarrow> string list" where
  "relevant_paths files = filter (\<lambda>f. \<not> isIgnored f) (pr_paths files)"

lemma full_self_relevant: "f \<in> set FULL_SELF \<Longrightarrow> \<not> isIgnored f"
proof -
  have "list_all (\<lambda>f. \<not> isIgnored f) FULL_SELF" by code_simp
  then show "f \<in> set FULL_SELF \<Longrightarrow> \<not> isIgnored f" by (simp add: list_all_iff)
qed

lemma close_empty: "close_buckets emptyBuckets = emptyBuckets"
  by (simp add: close_buckets_def emptyBuckets_def turn_on_def)

lemma classify_scope:
  "classifyPrCiPaths files False =
     (if \<exists>f \<in> set (pr_paths files). \<not> isKnown f then allBuckets
      else turn_on (\<exists>f \<in> set (pr_paths files). f \<in> set FULL_SELF) self_buckets
        (close_buckets (foldl mark_file emptyBuckets (relevant_paths files))))"
proof (cases "relevant_paths files = []")
  case True
  then have "\<not> (\<exists>f \<in> set (pr_paths files). f \<in> set FULL_SELF)"
    using full_self_relevant by (auto simp: relevant_paths_def filter_empty_conv)
  then show ?thesis using True
    by (auto simp: classifyPrCiPaths_def Let_def relevant_paths_def list_ex_iff close_empty turn_on_def)
next
  case False
  then have "pr_paths files \<noteq> []" by (auto simp: relevant_paths_def)
  then show ?thesis using False by (simp add: classifyPrCiPaths_def Let_def relevant_paths_def list_ex_iff)
qed

lemma paths_append: "set (pr_paths (xs @ ys)) = set (pr_paths xs) \<union> set (pr_paths ys)"
  by (auto simp: pr_paths_def)

lemma marks_append:
  "foldl mark_file emptyBuckets (relevant_paths (xs @ ys))
     = either (foldl mark_file emptyBuckets (relevant_paths xs)) (foldl mark_file emptyBuckets (relevant_paths ys))"
proof -
  have "foldl mark_file emptyBuckets (relevant_paths (xs @ ys)) = foldl mark_file emptyBuckets (relevant_paths xs @ relevant_paths ys)"
    by (rule marks_set) (auto simp: relevant_paths_def paths_append)
  also have "\<dots> = either (foldl mark_file emptyBuckets (relevant_paths xs)) (foldl mark_file emptyBuckets (relevant_paths ys))"
    by (simp add: marks_either [of "foldl mark_file emptyBuckets (relevant_paths xs)"])
  finally show ?thesis .
qed

lemma turn_on_self: "turn_on (c \<or> d) self_buckets (either a b) = either (turn_on c self_buckets a) (turn_on d self_buckets b)"
  by (rule pr_buckets.equality) (auto simp: turn_on_def self_buckets_def either_def)

lemma classify_append: "classifyPrCiPaths (xs @ ys) False = either (classifyPrCiPaths xs False) (classifyPrCiPaths ys False)"
proof (cases "\<exists>f \<in> set (pr_paths (xs @ ys)). \<not> isKnown f")
  case True
  then show ?thesis unfolding classify_scope [of "xs @ ys"] by (auto simp: paths_append classify_scope either_laws)
next
  case False
  then show ?thesis
    by (simp add: classify_scope paths_append bex_Un marks_append close_either turn_on_self)
qed

lemma known_relevant_marked:
  assumes "isKnown f" "\<not> isIgnored f"
  shows "mark_file emptyBuckets f \<noteq> emptyBuckets"
proof
  assume e: "mark_file emptyBuckets f = emptyBuckets"
  have "\<not> under f ''docs''" using arg_cong [OF e, of pb_docs] by (simp add: mark_select emptyBuckets_def)
  moreover have "\<not> under f ''gui''" using arg_cong [OF e, of pb_gui] by (simp add: mark_select emptyBuckets_def)
  moreover have "\<not> go_file f" using arg_cong [OF e, of pb_go] by (simp add: mark_select emptyBuckets_def)
  moreover have "\<not> packaging_file f" using arg_cong [OF e, of pb_packaging] by (simp add: mark_select emptyBuckets_def)
  moreover have "f \<noteq> ''scripts/keyring-smoke.ts''" using arg_cong [OF e, of pb_keyring] by (simp only: mark_select(6)) (simp add: emptyBuckets_def)
  moreover have "\<not> under f ''.github''" "\<not> (under f ''scripts'' \<and> f \<noteq> ''scripts/keyring-smoke.ts'')"
    using arg_cong [OF e, of pb_automation] by (simp_all only: mark_select(4)) (auto simp: emptyBuckets_def)
  ultimately show False using assms
    unfolding isKnown_def known_roots_def known_files_def go_file_def packaging_file_def by (auto split: if_splits)
qed

lemma scope_grows: "turn_on c self_buckets (close_buckets b) = emptyBuckets \<Longrightarrow> b = emptyBuckets"
  by (cases b) (auto simp: close_buckets_def emptyBuckets_def self_buckets_def turn_on_def Let_def split: if_splits)

lemma classify_empty: "classifyPrCiPaths files False = emptyBuckets \<longleftrightarrow> relevant_paths files = [] \<and> (\<forall>f \<in> set (pr_paths files). isKnown f)"
proof
  assume none: "classifyPrCiPaths files False = emptyBuckets"
  have "allBuckets \<noteq> emptyBuckets" by (simp add: allBuckets_def emptyBuckets_def)
  with none have known: "\<forall>f \<in> set (pr_paths files). isKnown f" by (auto simp: classify_scope split: if_splits)
  with none have marks: "foldl mark_file emptyBuckets (relevant_paths files) = emptyBuckets" by (auto simp: classify_scope intro: scope_grows)
  have False if "f \<in> set (relevant_paths files)" for f
  proof -
    have "mark_file emptyBuckets f = emptyBuckets" using marks_member [OF that] by (simp add: marks either_laws(1))
    then show False using known_relevant_marked [of f] known that by (auto simp: relevant_paths_def)
  qed
  then show "relevant_paths files = [] \<and> (\<forall>f \<in> set (pr_paths files). isKnown f)" using known by (cases "relevant_paths files") auto
qed (use full_self_relevant in \<open>auto simp: classify_scope close_empty turn_on_def relevant_paths_def filter_empty_conv\<close>)

lemma ignored_known: "isIgnored f \<Longrightarrow> isKnown f"
  by (simp add: isKnown_def)

lemma full_select: "pb_full (classifyPrCiPaths files False) \<longleftrightarrow> (\<exists>f \<in> set (pr_paths files). \<not> isKnown f)"
proof -
  have "\<not> pb_full (foldl mark_file emptyBuckets fs)" for fs
    by (induction fs rule: rev_induct) (simp_all add: mark_select emptyBuckets_def)
  then show ?thesis
    by (auto simp: classify_scope close_buckets_def turn_on_def self_buckets_def allBuckets_def Let_def)
qed

text \<open>C22: The checks a pull request gets are exactly the union of the checks its files ask for. Whatever the order and the
  repetitions of the files, a split of them into two lists gives the union of the two answers; the full suite is asked for
  exactly when some path lies outside the known tree; and no check at all is asked for exactly when every path is blank or on
  the list of ignored files, so no change to the code goes unchecked. Forcing the full suite turns every bucket on.\<close>

theorem scope_is_union:
  "classifyPrCiPaths (xs @ ys) False = either (classifyPrCiPaths xs False) (classifyPrCiPaths ys False)
   \<and> (set xs = set ys \<longrightarrow> classifyPrCiPaths xs False = classifyPrCiPaths ys False)
   \<and> (pb_full (classifyPrCiPaths xs False) \<longleftrightarrow> (\<exists>f \<in> set xs. unix_path f \<noteq> [] \<and> \<not> isKnown (unix_path f)))
   \<and> (classifyPrCiPaths xs False = emptyBuckets \<longleftrightarrow> (\<forall>f \<in> set xs. unix_path f = [] \<or> isIgnored (unix_path f)))
   \<and> classifyPrCiPaths xs True = allBuckets"
proof (intro conjI impI)
  show "classifyPrCiPaths (xs @ ys) False = either (classifyPrCiPaths xs False) (classifyPrCiPaths ys False)" by (rule classify_append)
  show "pb_full (classifyPrCiPaths xs False) \<longleftrightarrow> (\<exists>f \<in> set xs. unix_path f \<noteq> [] \<and> \<not> isKnown (unix_path f))"
    unfolding full_select by (auto simp: pr_paths_def)
  show "classifyPrCiPaths xs False = emptyBuckets \<longleftrightarrow> (\<forall>f \<in> set xs. unix_path f = [] \<or> isIgnored (unix_path f))"
    unfolding classify_empty by (auto simp: pr_paths_def relevant_paths_def filter_empty_conv ignored_known)
  show "classifyPrCiPaths xs True = allBuckets" by (simp add: classifyPrCiPaths_def)
  assume same: "set xs = set ys"
  then have paths: "set (pr_paths xs) = set (pr_paths ys)" by (simp add: pr_paths_def)
  then have "foldl mark_file emptyBuckets (relevant_paths xs) = foldl mark_file emptyBuckets (relevant_paths ys)"
    by (intro marks_set) (simp add: relevant_paths_def)
  then show "classifyPrCiPaths xs False = classifyPrCiPaths ys False" by (simp add: classify_scope paths)
qed

theorem scope_is_union_witness:
  "classifyPrCiPaths [''docs/a.md'', ''gui/b.ts''] False = classifyPrCiPaths [''gui/b.ts'', ''docs/a.md'', ''docs/a.md''] False
   \<and> scopeEnvValue (classifyPrCiPaths [''gui/b.ts''] False) = ''gui,privacy''"
proof
  show "classifyPrCiPaths [''docs/a.md'', ''gui/b.ts''] False = classifyPrCiPaths [''gui/b.ts'', ''docs/a.md'', ''docs/a.md''] False"
    using scope_is_union [of "[''docs/a.md'', ''gui/b.ts'']" "[''gui/b.ts'', ''docs/a.md'', ''docs/a.md'']"] by auto
  show "scopeEnvValue (classifyPrCiPaths [''gui/b.ts''] False) = ''gui,privacy''" by code_simp
qed

text \<open>Every Go file runs the Go suite on Linux and the privacy scan, but a test file that only Windows builds does not run
  the Windows suite: its name ends in \<^verbatim>\<open>_windows_test.go\<close>, which the pattern for Windows files does not accept.\<close>

lemma windows_test_skips_windows:
  "\<not> pb_windows (classifyPrCiPaths [''internal/requesthistory/replace_windows_test.go''] False)
   \<and> pb_windows (classifyPrCiPaths [''internal/requesthistory/replace_windows.go''] False)"
  by code_simp

text \<open>The lint gate runs when there is nothing to compare with, but not when the comparison fails: the names of a failed
  diff are no names.\<close>

lemma failed_diff_skips_lint:
  "ga_ref g UPSTREAM \<Longrightarrow> ga_diff g (UPSTREAM @ ''...HEAD'') = None \<Longrightarrow> gate_run g Lint = Skip"
  by (simp add: gate_run_def decide_def lintChangedPaths_def namesInRange_def)

lemma lint_without_base: "\<not> ga_ref g UPSTREAM \<Longrightarrow> \<not> ga_ref g ''origin/dev'' \<Longrightarrow> \<not> ga_ref g ''dev'' \<Longrightarrow> gate_run g Lint = Run"
  by (simp add: gate_run_def decide_def lintChangedPaths_def)

end
