(* ===== verification/Privacy_Scan.thy ===== *)
theory Privacy_Scan
  imports CI_Scope
begin

text \<open>
  \<^verbatim>\<open>scripts/privacy-scan.ts\<close>: the scan of the tracked text for material that must not be published. A pattern is a function
  that tries a match at one place of a line, given the character before it, and \<open>match_all\<close> is \<^verbatim>\<open>matchAll\<close>: leftmost
  matches, each as long as the pattern's greedy repetitions make it, continuing after the match. Repetitions that can
  give characters back (the domain of an address, the tail of a key before a word boundary) try their lengths
  from the longest on. The file system and \<^verbatim>\<open>git ls-files\<close> are parameters.
\<close>

section \<open>Patterns\<close>

type_synonym pattern = "char option \<Rightarrow> string \<Rightarrow> (string \<times> string) option"

definition is_word :: "char \<Rightarrow> bool" where
  "is_word c \<longleftrightarrow> is_alnum c \<or> c = CHR ''_''"

definition boundary :: "char option \<Rightarrow> char option \<Rightarrow> bool" where
  "boundary before behind \<longleftrightarrow> (case before of None \<Rightarrow> False | Some c \<Rightarrow> is_word c) \<noteq> (case behind of None \<Rightarrow> False | Some c \<Rightarrow> is_word c)"

definition head_char :: "string \<Rightarrow> char option" where
  "head_char s = (case s of [] \<Rightarrow> None | c # _ \<Rightarrow> Some c)"

definition key_char :: "char \<Rightarrow> bool" where
  "key_char c \<longleftrightarrow> is_alnum c \<or> c = CHR ''_'' \<or> c = CHR ''-''"

definition MAC_HOME_PATH :: pattern where
  "MAC_HOME_PATH prev s =
     (if \<not> starts_with s ''/Users/'' then None
      else let user = takeWhile key_char (drop 7 s); rest = dropWhile key_char (drop 7 s) in
        if user \<noteq> [] \<and> head_char rest = Some CHR ''/'' then Some (''/Users/'' @ user @ ''/'', user) else None)"

definition local_char :: "char \<Rightarrow> bool" where
  "local_char c \<longleftrightarrow> is_alnum c \<or> c \<in> set ''._%+-''"

definition domain_char :: "char \<Rightarrow> bool" where
  "domain_char c \<longleftrightarrow> is_alnum c \<or> c \<in> set ''.-''"

definition is_letter :: "char \<Rightarrow> bool" where
  "is_letter c \<longleftrightarrow> is_lower c \<or> is_upper c"

definition top_domain :: "string \<Rightarrow> nat \<Rightarrow> string option" where
  "top_domain s k =
     (case drop k s of [] \<Rightarrow> None
      | c # cs \<Rightarrow> if c = CHR ''.'' \<and> 2 \<le> length (takeWhile is_letter cs) then Some (take k s @ c # takeWhile is_letter cs) else None)"

fun longest_domain :: "string \<Rightarrow> nat \<Rightarrow> string option" where
  "longest_domain s 0 = None"
| "longest_domain s (Suc k) = (case top_domain s (Suc k) of Some d \<Rightarrow> Some d | None \<Rightarrow> longest_domain s k)"

definition EMAIL_ADDR :: pattern where
  "EMAIL_ADDR prev s =
     (let mailbox = takeWhile local_char s; rest = dropWhile local_char s in
      if mailbox = [] \<or> head_char rest \<noteq> Some CHR ''@'' then None
      else case longest_domain (tl rest) (length (takeWhile domain_char (tl rest))) of
             None \<Rightarrow> None
           | Some d \<Rightarrow> Some (mailbox @ CHR ''@'' # d, mailbox @ CHR ''@'' # d))"

definition bearer_char :: "char \<Rightarrow> bool" where
  "bearer_char c \<longleftrightarrow> is_alnum c \<or> c \<in> set ''._-''"

definition BEARER_TOKEN :: pattern where
  "BEARER_TOKEN prev s =
     (if \<not> starts_with s ''Bearer'' then None
      else let gap = takeWhile is_blank (drop 6 s); token = takeWhile bearer_char (dropWhile is_blank (drop 6 s)) in
        if gap \<noteq> [] \<and> 24 \<le> length token then Some (''Bearer'' @ gap @ token, token) else None)"

fun longest_key :: "string \<Rightarrow> nat \<Rightarrow> string option" where
  "longest_key s 0 = None"
| "longest_key s (Suc k) =
     (if Suc k < 20 then None
      else if boundary (Some (s ! k)) (head_char (drop (Suc k) s)) then Some (take (Suc k) s) else longest_key s k)"

definition OPENAI_STYLE :: pattern where
  "OPENAI_STYLE prev s =
     (if boundary prev (head_char s) \<and> starts_with s ''sk-''
      then (case longest_key (drop 3 s) (length (takeWhile key_char (drop 3 s))) of
              None \<Rightarrow> None | Some k \<Rightarrow> Some (''sk-'' @ k, ''sk-'' @ k))
      else None)"

definition GITHUB_PAT :: pattern where
  "GITHUB_PAT prev s =
     (if boundary prev (head_char s) \<and> starts_with s ''ghp_''
      then let run = takeWhile is_word (drop 4 s) in
        if 20 \<le> length run \<and> boundary (Some (List.last run)) (head_char (dropWhile is_word (drop 4 s))) then Some (''ghp_'' @ run, ''ghp_'' @ run) else None
      else None)"

definition JWT_PREFIX :: pattern where
  "JWT_PREFIX prev s =
     (if boundary prev (head_char s) \<and> starts_with s ''eyJ''
      then let first = takeWhile key_char (drop 3 s); rest = dropWhile key_char (drop 3 s); second = takeWhile key_char (tl rest) in
        if 20 \<le> length first \<and> head_char rest = Some CHR ''.'' \<and> 20 \<le> length second
        then Some (''eyJ'' @ first @ ''.'' @ second, ''eyJ'' @ first @ ''.'' @ second) else None
      else None)"

function match_all :: "pattern \<Rightarrow> char option \<Rightarrow> string \<Rightarrow> (string \<times> string) list" where
  "match_all m prev [] = []"
| "match_all m prev (c # cs) =
     (case m prev (c # cs) of
        None \<Rightarrow> match_all m (Some c) cs
      | Some (t, grp) \<Rightarrow> (t, grp) # (if t = [] then match_all m (Some c) cs else match_all m (Some (List.last t)) (drop (length t) (c # cs))))"
  by pat_completeness auto
termination by (relation "measure (\<lambda>(m, prev, s). length s)") auto

section \<open>Files and exceptions\<close>

definition SCANNABLE :: "string list" where
  "SCANNABLE = [''.cjs'', ''.css'', ''.html'', ''.js'', ''.json'', ''.jsonc'', ''.md'', ''.mjs'', ''.ps1'', ''.sh'', ''.toml'', ''.ts'', ''.tsx'',
     ''.txt'', ''.yml'', ''.yaml'']"

definition SKIP_PREFIX :: "string list" where "SKIP_PREFIX = [''gui/dist/'', ''node_modules/'', ''tests/.tmp-'']"
definition SKIP_SUFFIX :: "string list" where "SKIP_SUFFIX = [''package-lock.json'']"

definition shouldScan :: "string \<Rightarrow> bool" where
  "shouldScan file \<longleftrightarrow>
     (if \<not> list_ex (ends_in file) SCANNABLE then False
      else if list_ex (starts_with file) SKIP_PREFIX then False
      else if list_ex (ends_in file) SKIP_SUFFIX then False else True)"

definition inTests :: "string \<Rightarrow> bool" where
  "inTests file = starts_with file ''tests/''"

definition emailAllowed :: "string \<Rightarrow> bool" where
  "emailAllowed email \<longleftrightarrow>
     (let domain = to_lower (case split_on CHR ''@'' email of _ # d # _ \<Rightarrow> d | _ \<Rightarrow> []) in
      if domain = ''example.test'' \<or> domain = ''example.com'' \<or> domain = ''test.com'' then True else ends_in domain ''.test'')"

definition homeAllowed :: "string \<Rightarrow> string \<Rightarrow> bool" where
  "homeAllowed file user \<longleftrightarrow>
     (if inTests file \<and> (user = ''example'' \<or> user = ''test'' \<or> user = ''x'') then True else starts_with file ''docs/'' \<and> user = ''example'')"

definition fixture_tail :: "string \<Rightarrow> bool" where
  "fixture_tail s \<longleftrightarrow> (case s of c # x \<Rightarrow> c = CHR ''-'' \<and> x \<noteq> [] \<and> list_all (\<lambda>c. is_alnum c \<or> c = CHR ''-'') x | [] \<Rightarrow> False)"

definition bearerAllowed :: "string \<Rightarrow> string \<Rightarrow> bool" where
  "bearerAllowed file token \<longleftrightarrow> inTests file \<and>
     list_ex (\<lambda>p. starts_with token p \<and>
        (let s = drop (length p) token in fixture_tail s \<or> starts_with s ''-value'' \<and> fixture_tail (drop 6 s)))
       [''access-token'', ''stack-token'', ''usage-debug-token'']"

definition openaiAllowed :: "string \<Rightarrow> string \<Rightarrow> bool" where
  "openaiAllowed file token \<longleftrightarrow> inTests file \<and>
     list_ex (\<lambda>p. starts_with token p \<and>
        (let s = drop (length p) token in takeWhile is_digit s \<noteq> [] \<and> list_all is_lower (dropWhile is_digit s)))
       [''sk-rawsentinel'', ''sk-test-'']"

definition emailFixtureAllowed :: "string \<Rightarrow> string \<Rightarrow> bool" where
  "emailFixtureAllowed file email \<longleftrightarrow>
     (if emailAllowed email then True else if \<not> inTests file then False
      else email = join_with ''@'' [''pw'', ''chatgpt.com''] \<or> email = join_with ''@'' [''a'', ''b.com''])"

section \<open>The scan\<close>

record finding =
  fi_file :: string
  fi_line :: nat
  fi_kind :: string

definition split_lines :: "string \<Rightarrow> string list" where
  "split_lines text =
     (let parts = split_on CHR 0x0A text in
      map (\<lambda>l. if l \<noteq> [] \<and> List.last l = CHR 0x0D then butlast l else l) (butlast parts) @ [List.last parts])"

definition collect :: "pattern \<Rightarrow> string \<Rightarrow> (string \<times> string) list" where
  "collect m line = match_all m None line"

definition report_matches :: "string \<Rightarrow> nat \<Rightarrow> string \<Rightarrow> (string \<Rightarrow> bool) \<Rightarrow> pattern \<Rightarrow> string \<Rightarrow> finding list" where
  "report_matches file n kind allowed m line =
     map (\<lambda>_. \<lparr>fi_file = file, fi_line = n, fi_kind = kind\<rparr>) (filter (\<lambda>h. \<not> allowed (snd h)) (collect m line))"

definition scan_line :: "string \<Rightarrow> nat \<Rightarrow> string \<Rightarrow> finding list" where
  "scan_line file n line =
     report_matches file n ''home-path'' (homeAllowed file) MAC_HOME_PATH line
     @ report_matches file n ''email'' (emailFixtureAllowed file) EMAIL_ADDR line
     @ report_matches file n ''bearer-token'' (bearerAllowed file) BEARER_TOKEN line
     @ report_matches file n ''token-looking'' (openaiAllowed file) OPENAI_STYLE line
     @ report_matches file n ''token-looking'' (\<lambda>_. False) GITHUB_PAT line
     @ report_matches file n ''token-looking'' (\<lambda>_. False) JWT_PREFIX line"

definition scanText :: "string \<Rightarrow> string \<Rightarrow> finding list" where
  "scanText file text = concat (map (\<lambda>(i, line). scan_line file (i + 1) line) (enumerate 0 (split_lines text)))"

definition formatFinding :: "finding \<Rightarrow> string" where
  "formatFinding f = fi_file f @ '':'' @ show_nat (fi_line f) @ '' '' @ fi_kind f @ '': [redacted]''"

record tree =
  tr_tracked :: "string option"
  tr_files :: "string \<rightharpoonup> string"

definition trackedFiles :: "tree \<Rightarrow> string list option" where
  "trackedFiles t = map_option (\<lambda>out. filter (\<lambda>l. l \<noteq> []) (split_lines out)) (tr_tracked t)"

definition scanFile :: "tree \<Rightarrow> string \<Rightarrow> finding list" where
  "scanFile t path = scanText path (the (tr_files t path))"

definition scanTrackedFiles :: "tree \<Rightarrow> finding list option" where
  "scanTrackedFiles t =
     map_option (\<lambda>files. concat (map (scanFile t) (filter shouldScan (filter (\<lambda>p. tr_files t p \<noteq> None) files)))) (trackedFiles t)"

definition reportFindings :: "finding list \<Rightarrow> nat \<times> string list" where
  "reportFindings findings = (if length findings = 0 then (0, []) else (1, ''Privacy scan failed:'' # map formatFinding findings))"

definition privacy_main :: "tree \<Rightarrow> (nat \<times> string list) option" where
  "privacy_main t = map_option reportFindings (scanTrackedFiles t)"

section \<open>Leftmost matches\<close>

definition before :: "char option \<Rightarrow> string \<Rightarrow> char option" where
  "before prev a = (if a = [] then prev else Some (List.last a))"

definition occurs_from :: "pattern \<Rightarrow> char option \<Rightarrow> string \<Rightarrow> bool" where
  "occurs_from m prev s \<longleftrightarrow> (\<exists>a b. s = a @ b \<and> b \<noteq> [] \<and> m (before prev a) b \<noteq> None)"

abbreviation occurs :: "pattern \<Rightarrow> string \<Rightarrow> bool" where
  "occurs m line \<equiv> occurs_from m None line"

lemma occurs_from_Cons: "occurs_from m prev (c # cs) \<longleftrightarrow> m prev (c # cs) \<noteq> None \<or> occurs_from m (Some c) cs"
proof
  assume "occurs_from m prev (c # cs)"
  then obtain a b where ab: "c # cs = a @ b" "b \<noteq> []" "m (before prev a) b \<noteq> None" unfolding occurs_from_def by blast
  show "m prev (c # cs) \<noteq> None \<or> occurs_from m (Some c) cs"
  proof (cases a)
    case Nil
    then show ?thesis using ab by (simp add: before_def)
  next
    case (Cons d a')
    then have "before prev a = before (Some c) a'" using ab(1) by (auto simp: before_def)
    moreover have "cs = a' @ b" using ab(1) Cons by simp
    ultimately show ?thesis unfolding occurs_from_def using ab(2,3) by (intro disjI2 exI [of _ a'] exI [of _ b]) simp
  qed
next
  have "occurs_from m prev (c # cs)" if "m prev (c # cs) \<noteq> None"
    unfolding occurs_from_def using that by (intro exI [of _ "[]"] exI [of _ "c # cs"]) (simp add: before_def)
  moreover have "occurs_from m prev (c # cs)" if "occurs_from m (Some c) cs"
  proof -
    from that obtain a b where "cs = a @ b" "b \<noteq> []" "m (before (Some c) a) b \<noteq> None" unfolding occurs_from_def by blast
    then show ?thesis unfolding occurs_from_def by (intro exI [of _ "c # a"] exI [of _ b]) (auto simp: before_def split: if_splits)
  qed
  ultimately show "m prev (c # cs) \<noteq> None \<or> occurs_from m (Some c) cs \<Longrightarrow> occurs_from m prev (c # cs)" by blast
qed

text \<open>The first place where a pattern matches is always found.\<close>

lemma match_all_occurs: "match_all m prev s \<noteq> [] \<longleftrightarrow> occurs_from m prev s"
proof (induction s arbitrary: prev)
  case Nil
  then show ?case by (simp add: occurs_from_def)
next
  case (Cons c cs)
  then show ?case by (auto simp: occurs_from_Cons split: option.splits)
qed

section \<open>What the patterns accept\<close>

lemma starts_with_split: "starts_with s p \<longleftrightarrow> (\<exists>r. s = p @ r)"
  by (auto simp: starts_with_def) (metis append_take_drop_id)

lemma takeWhile_long: "list_all P t \<Longrightarrow> length t \<le> length (takeWhile P (t @ b))"
  by (simp add: list_all_iff)

definition word_start :: "string \<Rightarrow> bool" where
  "word_start a \<longleftrightarrow> a = [] \<or> \<not> is_word (List.last a)"

lemma boundary_start: "is_word c \<Longrightarrow> boundary (before None a) (Some c) \<longleftrightarrow> word_start a"
  by (simp add: boundary_def before_def word_start_def)

definition has_github_pat :: "string \<Rightarrow> bool" where
  "has_github_pat line \<longleftrightarrow> (\<exists>a t b. line = a @ ''ghp_'' @ t @ b \<and> word_start a \<and> list_all is_word t \<and> 20 \<le> length t)"

definition has_jwt :: "string \<Rightarrow> bool" where
  "has_jwt line \<longleftrightarrow> (\<exists>a t u b. line = a @ ''eyJ'' @ t @ ''.'' @ u @ b \<and> word_start a \<and> list_all key_char t \<and> 20 \<le> length t
     \<and> list_all key_char u \<and> 20 \<le> length u)"

definition has_bearer :: "string \<Rightarrow> bool" where
  "has_bearer line \<longleftrightarrow> (\<exists>a g t b. line = a @ ''Bearer'' @ g @ t @ b \<and> g \<noteq> [] \<and> list_all is_blank g \<and> list_all bearer_char t \<and> 24 \<le> length t)"

definition has_openai_key :: "string \<Rightarrow> bool" where
  "has_openai_key line \<longleftrightarrow> (\<exists>a t b. line = a @ ''sk-'' @ t @ b \<and> word_start a \<and> list_all key_char t \<and> 20 \<le> length t
     \<and> boundary (Some (List.last t)) (head_char b))"

definition has_home_path :: "string \<Rightarrow> bool" where
  "has_home_path line \<longleftrightarrow> (\<exists>a u b. line = a @ ''/Users/'' @ u @ ''/'' @ b \<and> u \<noteq> [] \<and> list_all key_char u)"

lemma key_char_facts: "\<not> key_char CHR ''/''" "\<not> key_char CHR ''.''" "is_word CHR ''g''" "is_word CHR ''e''" "is_word CHR ''s''"
  by (simp_all add: key_char_def is_word_def)

lemma takeWhile_stop: "list_all P t \<Longrightarrow> \<not> P c \<Longrightarrow> takeWhile P (t @ c # b) = t"
  by (simp add: list_all_iff takeWhile_tail)

lemma occursI: "line = a @ b \<Longrightarrow> b \<noteq> [] \<Longrightarrow> m (before None a) b \<noteq> None \<Longrightarrow> occurs m line"
  unfolding occurs_from_def by blast

lemma all_takeWhile: "list_all P (takeWhile P s)"
  by (auto simp: list_all_iff dest: set_takeWhileD)

lemma head_char_Some: "head_char s = Some c \<longleftrightarrow> (\<exists>x. s = c # x)"
  by (auto simp: head_char_def split: list.splits)

lemma head_char_Cons: "head_char (c # x) = Some c"
  by (simp add: head_char_def)

lemma occurs_home: "occurs MAC_HOME_PATH line \<longleftrightarrow> has_home_path line"
proof
  assume "occurs MAC_HOME_PATH line"
  then obtain a b where ab: "line = a @ b" "MAC_HOME_PATH (before None a) b \<noteq> None" unfolding occurs_from_def by blast
  from ab(2) obtain r x where r: "b = ''/Users/'' @ r" "takeWhile key_char r \<noteq> []" "dropWhile key_char r = CHR ''/'' # x"
    by (auto simp: MAC_HOME_PATH_def starts_with_split Let_def head_char_Some split: if_splits)
  have "r = takeWhile key_char r @ ''/'' @ x" using takeWhile_dropWhile_id [of key_char r] r(3) by simp
  then have "line = a @ ''/Users/'' @ takeWhile key_char r @ ''/'' @ x" using ab(1) r(1) by simp
  then show "has_home_path line" unfolding has_home_path_def using r(2) all_takeWhile by blast
next
  assume "has_home_path line"
  then obtain a u b where l: "line = a @ ''/Users/'' @ u @ ''/'' @ b" "u \<noteq> []" "list_all key_char u" unfolding has_home_path_def by blast
  have "dropWhile key_char (u @ CHR ''/'' # b) = CHR ''/'' # b" using l(3) key_char_facts(1) by (simp add: dropWhile_append3 list_all_iff)
  then show "occurs MAC_HOME_PATH line"
    using l(2) takeWhile_stop [OF l(3) key_char_facts(1), of b]
    by (intro occursI [OF l(1)]) (simp_all add: MAC_HOME_PATH_def starts_with_def head_char_def)
qed

lemma occurs_github: "occurs GITHUB_PAT line \<longleftrightarrow> has_github_pat line"
proof
  assume "occurs GITHUB_PAT line"
  then obtain a b where ab: "line = a @ b" "GITHUB_PAT (before None a) b \<noteq> None" unfolding occurs_from_def by blast
  from ab(2) obtain r where r: "b = ''ghp_'' @ r" "word_start a" "20 \<le> length (takeWhile is_word r)"
    by (auto simp: GITHUB_PAT_def starts_with_split Let_def head_char_def boundary_start key_char_facts split: if_splits)
  have "line = a @ ''ghp_'' @ takeWhile is_word r @ dropWhile is_word r" using ab(1) r(1) by simp
  then show "has_github_pat line" unfolding has_github_pat_def using r(2,3) all_takeWhile by blast
next
  assume "has_github_pat line"
  then obtain a t b where l: "line = a @ ''ghp_'' @ t @ b" "word_start a" "list_all is_word t" "20 \<le> length t" unfolding has_github_pat_def by blast
  define run where "run = takeWhile is_word (t @ b)"
  have len: "20 \<le> length run" using takeWhile_long [OF l(3), of b] l(4) by (simp add: run_def)
  then have "run \<noteq> []" by auto
  then have "is_word (List.last run)" using all_takeWhile [of is_word "t @ b"] by (simp add: run_def [symmetric] list_all_iff)
  moreover have "\<not> (case head_char (dropWhile is_word (t @ b)) of None \<Rightarrow> False | Some c \<Rightarrow> is_word c)"
    using dropWhile_eq_Cons_conv [of is_word "t @ b"] by (auto simp: head_char_def split: list.splits)
  ultimately have "boundary (Some (List.last run)) (head_char (dropWhile is_word (t @ b)))" by (simp add: boundary_def)
  then show "occurs GITHUB_PAT line" using len l(2)
    by (intro occursI [OF l(1)]) (simp_all add: GITHUB_PAT_def starts_with_def head_char_def boundary_start key_char_facts run_def [symmetric] Let_def)
qed

lemma occurs_bearer: "occurs BEARER_TOKEN line \<longleftrightarrow> has_bearer line"
proof
  assume "occurs BEARER_TOKEN line"
  then obtain a b where ab: "line = a @ b" "BEARER_TOKEN (before None a) b \<noteq> None" unfolding occurs_from_def by blast
  from ab(2) obtain r where r: "b = ''Bearer'' @ r" "takeWhile is_blank r \<noteq> []" "24 \<le> length (takeWhile bearer_char (dropWhile is_blank r))"
    by (auto simp: BEARER_TOKEN_def starts_with_split Let_def split: if_splits)
  let ?d = "dropWhile is_blank r"
  have "line = a @ ''Bearer'' @ takeWhile is_blank r @ takeWhile bearer_char ?d @ dropWhile bearer_char ?d" using ab(1) r(1) by simp
  then show "has_bearer line" unfolding has_bearer_def using r(2,3) all_takeWhile by blast
next
  assume "has_bearer line"
  then obtain a g t b where l: "line = a @ ''Bearer'' @ g @ t @ b" "g \<noteq> []" "list_all is_blank g" "list_all bearer_char t" "24 \<le> length t"
    unfolding has_bearer_def by blast
  then obtain c t' where t: "t = c # t'" by (cases t) auto
  have "\<not> is_blank c" using l(4) unfolding t by (auto simp: bearer_char_def is_blank_def blanks_def)
  then have "takeWhile is_blank (g @ t @ b) = g" "dropWhile is_blank (g @ t @ b) = t @ b"
    using l(3) by (simp_all add: t takeWhile_stop list_all_iff dropWhile_append3)
  then show "occurs BEARER_TOKEN line" using l(2,5) takeWhile_long [OF l(4), of b]
    by (intro occursI [OF l(1)]) (simp_all add: BEARER_TOKEN_def starts_with_def Let_def)
qed

lemma occurs_jwt: "occurs JWT_PREFIX line \<longleftrightarrow> has_jwt line"
proof
  assume "occurs JWT_PREFIX line"
  then obtain a b where ab: "line = a @ b" "JWT_PREFIX (before None a) b \<noteq> None" unfolding occurs_from_def by blast
  from ab(2) obtain r x where r: "b = ''eyJ'' @ r" "word_start a" "20 \<le> length (takeWhile key_char r)"
      "dropWhile key_char r = CHR ''.'' # x" "20 \<le> length (takeWhile key_char x)"
    by (auto simp: JWT_PREFIX_def starts_with_split Let_def head_char_Some head_char_Cons boundary_start key_char_facts split: if_splits)
  have "r = takeWhile key_char r @ ''.'' @ x" using takeWhile_dropWhile_id [of key_char r] r(4) by simp
  then have "line = a @ ''eyJ'' @ takeWhile key_char r @ ''.'' @ takeWhile key_char x @ dropWhile key_char x" using ab(1) r(1) by simp
  then show "has_jwt line" unfolding has_jwt_def using r(2,3,5) all_takeWhile by blast
next
  assume "has_jwt line"
  then obtain a t u b where l: "line = a @ ''eyJ'' @ t @ ''.'' @ u @ b" "word_start a" "list_all key_char t" "20 \<le> length t"
    "list_all key_char u" "20 \<le> length u" unfolding has_jwt_def by blast
  have "dropWhile key_char (t @ CHR ''.'' # u @ b) = CHR ''.'' # u @ b" using l(3) key_char_facts(2) by (simp add: dropWhile_append3 list_all_iff)
  moreover have "takeWhile key_char (t @ CHR ''.'' # u @ b) = t" by (rule takeWhile_stop [OF l(3) key_char_facts(2)])
  ultimately show "occurs JWT_PREFIX line" using l(2,4,6) takeWhile_long [OF l(5), of b]
    by (intro occursI [OF l(1)]) (simp_all add: JWT_PREFIX_def starts_with_def head_char_def boundary_start key_char_facts Let_def)
qed

lemma longest_key_exists:
  "longest_key s n \<noteq> None \<longleftrightarrow> (\<exists>k. 20 \<le> k \<and> k \<le> n \<and> boundary (Some (s ! (k - 1))) (head_char (drop k s)))"
proof (induction n)
  case (Suc n)
  show ?case
  proof (cases "Suc n < 20 \<or> \<not> boundary (Some (s ! n)) (head_char (drop (Suc n) s))")
    case True
    then have "longest_key s (Suc n) \<noteq> None \<longleftrightarrow> longest_key s n \<noteq> None \<and> \<not> Suc n < 20" by auto
    moreover have "longest_key s n = None" if "Suc n < 20" using that Suc by (cases "longest_key s n") auto
    ultimately show ?thesis using True Suc by (auto simp: le_Suc_eq)
  next
    case False
    then have "longest_key s (Suc n) \<noteq> None" by simp
    moreover have "20 \<le> Suc n \<and> Suc n \<le> Suc n \<and> boundary (Some (s ! (Suc n - 1))) (head_char (drop (Suc n) s))" using False by simp
    ultimately show ?thesis by blast
  qed
qed simp

lemma occurs_openai: "occurs OPENAI_STYLE line \<longleftrightarrow> has_openai_key line"
proof
  assume "occurs OPENAI_STYLE line"
  then obtain a b where ab: "line = a @ b" "OPENAI_STYLE (before None a) b \<noteq> None" unfolding occurs_from_def by blast
  from ab(2) obtain r where r: "b = ''sk-'' @ r" "word_start a" "longest_key r (length (takeWhile key_char r)) \<noteq> None"
    by (auto simp: OPENAI_STYLE_def starts_with_split head_char_def boundary_start key_char_facts split: if_splits option.splits)
  from r(3) obtain k where k: "20 \<le> k" "k \<le> length (takeWhile key_char r)" "boundary (Some (r ! (k - 1))) (head_char (drop k r))"
    unfolding longest_key_exists by blast
  have len: "k \<le> length r" using k(2) length_takeWhile_le [of key_char r] by simp
  have "take k r = take k (takeWhile key_char r)" using k(2) by (metis append_take_drop_id takeWhile_eq_take take_take min.absorb1)
  then have "list_all key_char (take k r)" using all_takeWhile [of key_char r] by (auto simp: list_all_iff dest: in_set_takeD)
  moreover have "List.last (take k r) = r ! (k - 1)" using k(1) len by (subst last_conv_nth) auto
  moreover have "line = a @ ''sk-'' @ take k r @ drop k r" using ab(1) r(1) by simp
  ultimately show "has_openai_key line" unfolding has_openai_key_def using r(2) k(1,3) len
    by (intro exI [of _ a] exI [of _ "take k r"] exI [of _ "drop k r"]) simp
next
  assume "has_openai_key line"
  then obtain a t b where l: "line = a @ ''sk-'' @ t @ b" "word_start a" "list_all key_char t" "20 \<le> length t"
    "boundary (Some (List.last t)) (head_char b)" unfolding has_openai_key_def by blast
  have "(t @ b) ! (length t - 1) = List.last t" using l(4) by (cases t) (auto simp: nth_append last_conv_nth)
  then have "longest_key (t @ b) (length (takeWhile key_char (t @ b))) \<noteq> None"
    unfolding longest_key_exists using l(4,5) takeWhile_long [OF l(3), of b] by (intro exI [of _ "length t"]) simp
  then show "occurs OPENAI_STYLE line" using l(2)
    by (intro occursI [OF l(1)]) (auto simp: OPENAI_STYLE_def starts_with_def head_char_def boundary_start key_char_facts)
qed

section \<open>The verdict\<close>

lemma report_empty: "report_matches file n kind (\<lambda>_. False) m line = [] \<longleftrightarrow> \<not> occurs m line"
  using match_all_occurs [of m None line] by (auto simp: report_matches_def collect_def)

lemma report_strict: "(\<And>g. \<not> allowed g) \<Longrightarrow> report_matches file n kind allowed m line = [] \<longleftrightarrow> \<not> occurs m line"
  using match_all_occurs [of m None line] by (auto simp: report_matches_def collect_def)

lemma scan_clean: "scanText file text = [] \<longleftrightarrow> (\<forall>n line. (n, line) \<in> set (enumerate 0 (split_lines text)) \<longrightarrow> scan_line file (n + 1) line = [])"
  by (auto simp: scanText_def)

definition clean_line :: "string \<Rightarrow> string \<Rightarrow> bool" where
  "clean_line path line \<longleftrightarrow> \<not> has_github_pat line \<and> \<not> has_jwt line
     \<and> (inTests path \<or> \<not> has_bearer line \<and> \<not> has_openai_key line)
     \<and> (inTests path \<or> starts_with path ''docs/'' \<or> \<not> has_home_path line)
     \<and> (\<forall>h \<in> set (collect EMAIL_ADDR line). emailFixtureAllowed path (snd h))"

lemma scan_line_clean:
  assumes "scan_line path n line = []"
  shows "clean_line path line"
proof -
  have p: "report_matches path n ''home-path'' (homeAllowed path) MAC_HOME_PATH line = []"
    "report_matches path n ''email'' (emailFixtureAllowed path) EMAIL_ADDR line = []"
    "report_matches path n ''bearer-token'' (bearerAllowed path) BEARER_TOKEN line = []"
    "report_matches path n ''token-looking'' (openaiAllowed path) OPENAI_STYLE line = []"
    "report_matches path n ''token-looking'' (\<lambda>_. False) GITHUB_PAT line = []"
    "report_matches path n ''token-looking'' (\<lambda>_. False) JWT_PREFIX line = []"
    using assms by (simp_all add: scan_line_def)
  have "\<not> has_bearer line \<and> \<not> has_openai_key line" if "\<not> inTests path"
    using p(3,4) that report_strict [of "bearerAllowed path"] report_strict [of "openaiAllowed path"]
    by (simp add: bearerAllowed_def openaiAllowed_def occurs_bearer occurs_openai)
  moreover have "\<not> has_home_path line" if "\<not> inTests path" "\<not> starts_with path ''docs/''"
    using p(1) that report_strict [of "homeAllowed path"] by (simp add: homeAllowed_def occurs_home)
  moreover have "\<forall>h \<in> set (collect EMAIL_ADDR line). emailFixtureAllowed path (snd h)"
    using p(2) by (auto simp: report_matches_def filter_empty_conv)
  ultimately show ?thesis using p(5,6) unfolding clean_line_def report_empty occurs_github occurs_jwt by blast
qed

text \<open>C23: A privacy scan that passes is a clean tree. If the scan returns status 0, then in every tracked, existing file it scans no
  line holds a GitHub token or a signed web token; outside the tests no line holds a bearer token or an OpenAI-style key, outside
  tests and documentation no line holds a home directory, and every address found is an allowed one. If it returns another status it
  is 1, and what it prints is file, line number and kind of the findings and nothing else of the text.\<close>

theorem privacy_pass_clean:
  assumes "privacy_main t = Some (status, out)" "tr_tracked t = Some listing"
  shows "(status = 0 \<longrightarrow> (\<forall>path text. path \<in> set (split_lines listing) \<and> tr_files t path = Some text \<and> shouldScan path
      \<longrightarrow> list_all (clean_line path) (split_lines text)))
    \<and> (status \<noteq> 0 \<longrightarrow> status = 1 \<and> (\<exists>fs. fs \<noteq> [] \<and> out = ''Privacy scan failed:'' # map formatFinding fs
         \<and> (\<forall>f \<in> set fs. fi_file f \<in> set (split_lines listing) \<and> fi_kind f \<in> {''home-path'', ''email'', ''bearer-token'', ''token-looking''})))"
proof -
  let ?files = "filter shouldScan (filter (\<lambda>p. tr_files t p \<noteq> None) (filter (\<lambda>l. l \<noteq> []) (split_lines listing)))"
  let ?fs = "concat (map (scanFile t) ?files)"
  have main: "(status, out) = reportFindings ?fs"
    using assms by (simp add: privacy_main_def scanTrackedFiles_def trackedFiles_def)
  have skip: "\<not> shouldScan []" by code_simp
  show ?thesis
  proof (intro conjI impI allI)
    fix path content assume s: "status = 0" and p: "path \<in> set (split_lines listing) \<and> tr_files t path = Some content \<and> shouldScan path"
    from main s have "?fs = []" by (auto simp: reportFindings_def split: if_splits)
    then have "scanText path content = []" using p skip by (auto simp: scanFile_def)
    then have "scan_line path (n + 1) line = []" if "(n, line) \<in> set (enumerate 0 (split_lines content))" for n line
      using that unfolding scan_clean by blast
    then have "clean_line path (split_lines content ! i)" if "i < length (split_lines content)" for i
      using that scan_line_clean [of path "i + 1"] by (auto simp: in_set_enumerate_eq)
    then show "list_all (clean_line path) (split_lines content)" by (simp add: list_all_length)
  next
    assume s: "status \<noteq> 0"
    then have fs: "?fs \<noteq> []" "status = 1" "out = ''Privacy scan failed:'' # map formatFinding ?fs"
      using main by (auto simp: reportFindings_def split: if_splits)
    show "status = 1" by (rule fs(2))
    have "fi_file f \<in> set (split_lines listing) \<and> fi_kind f \<in> {''home-path'', ''email'', ''bearer-token'', ''token-looking''}" if "f \<in> set ?fs" for f
      using that by (auto simp: scanFile_def scanText_def scan_line_def report_matches_def)
    then show "\<exists>fs. fs \<noteq> [] \<and> out = ''Privacy scan failed:'' # map formatFinding fs
         \<and> (\<forall>f \<in> set fs. fi_file f \<in> set (split_lines listing) \<and> fi_kind f \<in> {''home-path'', ''email'', ''bearer-token'', ''token-looking''})"
      using fs(1,3) by blast
  qed
qed

definition sample_tree :: "string \<Rightarrow> tree" where
  "sample_tree text = \<lparr>tr_tracked = Some ''a.ts'', tr_files = [''a.ts'' \<mapsto> text]\<rparr>"

theorem privacy_pass_clean_witness:
  "privacy_main (sample_tree ''let x = 1;'') = Some (0, []) \<and> list_all (clean_line ''a.ts'') [''let x = 1;'']"
proof -
  have run: "privacy_main (sample_tree ''let x = 1;'') = Some (0, [])" by code_simp
  have lines: "split_lines ''a.ts'' = [''a.ts'']" "split_lines ''let x = 1;'' = [''let x = 1;'']" "shouldScan ''a.ts''" by code_simp+
  have "tr_tracked (sample_tree ''let x = 1;'') = Some ''a.ts''" "tr_files (sample_tree ''let x = 1;'') ''a.ts'' = Some ''let x = 1;''"
    by (simp_all add: sample_tree_def)
  then show ?thesis using privacy_pass_clean [OF run] lines run by fastforce
qed

end
