(* ===== verification/Models_Sync.thy ===== *)
theory Models_Sync
  imports Models_Catalog
begin

text \<open>
  The writes of the models page against its reads: \<^verbatim>\<open>pages/models-change-sync.ts\<close>, the writers of
  \<^verbatim>\<open>pages/use-models-change-writes.ts\<close> and the catalog refs of \<^verbatim>\<open>pages/Models.tsx\<close>. The state holds what the refs hold, what
  the page shows and everything that is out: loads and polls with the counters they captured, the queue of
  visibility writes, policy and cap writes. Each asynchronous function is cut where it awaits, so every order of
  answers is a path of \<open>desk_step\<close>. What a load does after its answer (the code behind \<^verbatim>\<open>await load(true)\<close>) is the tag it
  carries. The plan of a catalog and the optimistic visibility come from \<open>Models_Catalog\<close> and \<open>Model_Visibility\<close>.
\<close>

section \<open>The trailing debounce\<close>

definition MODELS_CHANGE_SYNC_DEBOUNCE_MS :: nat where "MODELS_CHANGE_SYNC_DEBOUNCE_MS = 5000"

record 'r debounce =
  db_timer :: bool
  db_pending :: "'r option"

definition createTrailingDebounce :: "'r debounce" where
  "createTrailingDebounce = \<lparr>db_timer = False, db_pending = None\<rparr>"

definition debounce_clear :: "'r debounce \<Rightarrow> 'r debounce" where
  "debounce_clear d = d\<lparr>db_timer := False\<rparr>"

definition debounce_schedule :: "'r \<Rightarrow> 'r debounce \<Rightarrow> 'r debounce" where
  "debounce_schedule run d = (debounce_clear (d\<lparr>db_pending := Some run\<rparr>))\<lparr>db_timer := True\<rparr>"

definition debounce_cancel :: "'r debounce \<Rightarrow> 'r debounce" where
  "debounce_cancel d = (debounce_clear d)\<lparr>db_pending := None\<rparr>"

definition debounce_flush :: "'r debounce \<Rightarrow> 'r option \<times> 'r debounce" where
  "debounce_flush d = (let d1 = debounce_clear d in (db_pending d1, d1\<lparr>db_pending := None\<rparr>))"

definition debounce_fires :: "'r debounce \<Rightarrow> 'r option \<times> 'r debounce" where
  "debounce_fires d = (let d1 = d\<lparr>db_timer := False\<rparr> in (db_pending d1, d1\<lparr>db_pending := None\<rparr>))"

definition modelsCatalogMutationStable :: "nat \<Rightarrow> nat \<Rightarrow> nat \<Rightarrow> bool" where
  "modelsCatalogMutationStable mutationEpochAtStart currentMutationEpoch pendingMutations \<longleftrightarrow>
     mutationEpochAtStart = currentMutationEpoch \<and> pendingMutations = 0"

definition shouldApplyModelsCatalogLoad :: "nat \<Rightarrow> nat \<Rightarrow> nat \<Rightarrow> nat \<Rightarrow> nat \<Rightarrow> bool" where
  "shouldApplyModelsCatalogLoad loadGeneration currentLoadGeneration mutationEpochAtStart currentMutationEpoch pendingMutations \<longleftrightarrow>
     loadGeneration = currentLoadGeneration \<and> modelsCatalogMutationStable mutationEpochAtStart currentMutationEpoch pendingMutations"

section \<open>The page\<close>

record catalog_snapshot =
  sn_models :: "model_row list"
  sn_providers :: "provider_summary list"
  sn_selectedModels :: provider_models
  sn_modelPresets :: "(string \<times> preset_row) list"
  sn_discovery :: discovery_state
  sn_disabled :: "string list"
  sn_contextCaps :: windows
  sn_contextCapValue :: jsnum

record mutation_patch =
  mp_disabled :: "string list option"
  mp_selectedModels :: "provider_models option"
  mp_discovery :: "discovery_state option"
  mp_contextCaps :: "windows option"
  mp_contextCapValue :: "jsnum option"

definition no_patch :: mutation_patch where
  "no_patch = \<lparr>mp_disabled = None, mp_selectedModels = None, mp_discovery = None, mp_contextCaps = None, mp_contextCapValue = None\<rparr>"

definition patch_snapshot :: "mutation_patch \<Rightarrow> catalog_snapshot \<Rightarrow> catalog_snapshot" where
  "patch_snapshot p s = s\<lparr>
     sn_disabled := (case mp_disabled p of Some x \<Rightarrow> x | None \<Rightarrow> sn_disabled s),
     sn_selectedModels := (case mp_selectedModels p of Some x \<Rightarrow> x | None \<Rightarrow> sn_selectedModels s),
     sn_discovery := (case mp_discovery p of Some x \<Rightarrow> x | None \<Rightarrow> sn_discovery s),
     sn_contextCaps := (case mp_contextCaps p of Some x \<Rightarrow> x | None \<Rightarrow> sn_contextCaps s),
     sn_contextCapValue := (case mp_contextCapValue p of Some x \<Rightarrow> x | None \<Rightarrow> sn_contextCapValue s)\<rparr>"

datatype load_after = AfterVisibility save_outcome | AfterPolicy save_outcome | AfterCap | AfterNothing

record catalog_load =
  ld_generation :: nat
  ld_epoch :: nat
  ld_after :: load_after

datatype write_phase = Idle | Sending | Reloading

datatype page_status = NoStatus | Applied | NewPolicyApplied | CapApplied | SaveFailed | StatusNetworkError | CapSaveFailed string

record desk =
  dk_snapshot :: "catalog_snapshot option"
  dk_resource :: "catalog_snapshot option"
  dk_provider :: "string option"
  dk_contextWrites :: "context_patch list"
  dk_models :: "model_row list"
  dk_providers :: "provider_summary list"
  dk_disabled :: "string list"
  dk_selected :: provider_models
  dk_discovery :: discovery_state
  dk_caps :: windows
  dk_capValue :: jsnum
  dk_patched :: "context_patch list"
  dk_epoch :: nat
  dk_pending :: nat
  dk_generation :: nat
  dk_loadPending :: bool
  dk_debounce :: "unit debounce"
  dk_busy :: bool
  dk_ok :: bool
  dk_status :: page_status
  dk_loads :: "catalog_load list"
  dk_polls :: "nat list"
  dk_queue :: "visibility_write list"
  dk_phase :: write_phase
  dk_policyWrites :: nat
  dk_capWrites :: nat

definition applyCatalog :: "(string \<Rightarrow> string \<Rightarrow> int) \<Rightarrow> catalog_snapshot \<Rightarrow> desk \<Rightarrow> bool \<times> desk" where
  "applyCatalog localeCompare snap d =
     (let d1 = d\<lparr>dk_snapshot := Some snap\<rparr> in
      case planCatalogApplication localeCompare (sn_models snap) (sn_providers snap) (dk_provider d1) (dk_contextWrites d1) of
        Inl e \<Rightarrow> (False, d1)
      | Inr plan \<Rightarrow>
          (True, d1\<lparr>dk_contextWrites := pl_pendingContextWrites plan, dk_provider := pl_selectedProvider plan,
             dk_disabled := sn_disabled snap, dk_selected := sn_selectedModels snap, dk_models := sn_models snap,
             dk_providers := pl_providers plan, dk_discovery := sn_discovery snap, dk_caps := sn_contextCaps snap,
             dk_capValue := sn_contextCapValue snap, dk_patched := dk_patched d1 @ pl_staleContextWrites plan\<rparr>))"

definition publishCatalogMutation :: "mutation_patch \<Rightarrow> desk \<Rightarrow> desk" where
  "publishCatalogMutation patch d =
     (let d1 = d\<lparr>dk_pending := dk_pending d + 1, dk_epoch := dk_epoch d + 1\<rparr> in
      case dk_snapshot d1 of
        None \<Rightarrow> d1
      | Some current \<Rightarrow> d1\<lparr>dk_snapshot := Some (patch_snapshot patch current), dk_resource := Some (patch_snapshot patch current)\<rparr>)"

definition settleCatalogMutation :: "desk \<Rightarrow> desk" where
  "settleCatalogMutation d =
     (let d1 = (if 0 < dk_pending d then d\<lparr>dk_pending := dk_pending d - 1\<rparr> else d) in d1\<lparr>dk_epoch := dk_epoch d1 + 1\<rparr>)"

section \<open>Loads and polls\<close>

fun failed_status :: "save_outcome \<Rightarrow> page_status" where
  "failed_status Rejected = SaveFailed"
| "failed_status _ = StatusNetworkError"

fun load_returns :: "load_after \<Rightarrow> desk \<Rightarrow> desk" where
  "load_returns (AfterVisibility outcome) d =
     d\<lparr>dk_ok := False, dk_status := failed_status outcome, dk_phase := Idle, dk_queue := tl (dk_queue d)\<rparr>"
| "load_returns (AfterPolicy outcome) d = d\<lparr>dk_ok := False, dk_status := failed_status outcome, dk_busy := False\<rparr>"
| "load_returns AfterCap d = d\<lparr>dk_busy := False\<rparr>"
| "load_returns AfterNothing d = d"

definition load_begins :: "bool \<Rightarrow> load_after \<Rightarrow> desk \<Rightarrow> desk" where
  "load_begins force after d =
     (if dk_loadPending d \<and> \<not> force then load_returns after d
      else d\<lparr>dk_loadPending := True, dk_generation := dk_generation d + 1,
             dk_loads := dk_loads d @ [\<lparr>ld_generation = dk_generation d + 1, ld_epoch = dk_epoch d, ld_after = after\<rparr>]\<rparr>)"

definition load_accepted :: "catalog_load \<Rightarrow> desk \<Rightarrow> bool" where
  "load_accepted l d \<longleftrightarrow> shouldApplyModelsCatalogLoad (ld_generation l) (dk_generation d) (ld_epoch l) (dk_epoch d) (dk_pending d)"

definition load_answers :: "(string \<Rightarrow> string \<Rightarrow> int) \<Rightarrow> catalog_load \<Rightarrow> catalog_snapshot option \<Rightarrow> desk \<Rightarrow> desk" where
  "load_answers localeCompare l answer d =
     (let d1 = d\<lparr>dk_loads := remove1 l (dk_loads d)\<rparr>;
          d2 = (case answer of
                  None \<Rightarrow> d1
                | Some snap \<Rightarrow>
                    if \<not> load_accepted l d1 then d1
                    else let (finished, d') = applyCatalog localeCompare snap d1 in if finished then d'\<lparr>dk_resource := Some snap\<rparr> else d');
          d3 = (if ld_generation l = dk_generation d2 then d2\<lparr>dk_loadPending := False\<rparr> else d2)
      in load_returns (ld_after l) d3)"

definition poll_begins :: "desk \<Rightarrow> desk" where
  "poll_begins d = d\<lparr>dk_polls := dk_polls d @ [dk_epoch d]\<rparr>"

definition poll_answers :: "(string \<Rightarrow> string \<Rightarrow> int) \<Rightarrow> nat \<Rightarrow> catalog_snapshot option \<Rightarrow> desk \<Rightarrow> desk" where
  "poll_answers localeCompare epochAtStart answer d =
     (let d1 = d\<lparr>dk_polls := remove1 epochAtStart (dk_polls d)\<rparr> in
      case answer of
        None \<Rightarrow> d1
      | Some snapshot \<Rightarrow>
          if \<not> modelsCatalogMutationStable epochAtStart (dk_epoch d1) (dk_pending d1)
          then d1\<lparr>dk_resource := (case dk_snapshot d1 of Some s \<Rightarrow> Some s | None \<Rightarrow> Some snapshot)\<rparr>
          else let (finished, d') = applyCatalog localeCompare snapshot d1 in if finished then d'\<lparr>dk_resource := Some snapshot\<rparr> else d')"

section \<open>Writes\<close>

definition sync_schedule :: "desk \<Rightarrow> desk" where
  "sync_schedule d = d\<lparr>dk_debounce := debounce_schedule () (dk_debounce d)\<rparr>"

definition sync_cancel :: "desk \<Rightarrow> desk" where
  "sync_cancel d = d\<lparr>dk_debounce := debounce_cancel (dk_debounce d)\<rparr>"

definition sync_fires :: "desk \<Rightarrow> desk" where
  "sync_fires d =
     (let (run, db) = debounce_fires (dk_debounce d); d1 = d\<lparr>dk_debounce := db\<rparr> in
      case run of Some _ \<Rightarrow> load_begins True AfterNothing d1 | None \<Rightarrow> d1)"

definition applyVisibility_begins ::
  "visibility_scope \<Rightarrow> string \<Rightarrow> visibility_target list \<Rightarrow> bool \<Rightarrow> desk \<Rightarrow> desk" where
  "applyVisibility_begins scope provider targets enabled d =
     (let b = applyVisibility scope provider targets enabled
                \<lparr>vb_disabled = dk_disabled d, vb_selected = dk_selected d, vb_queue = dk_queue d\<rparr>
      in publishCatalogMutation (no_patch\<lparr>mp_disabled := Some (vb_disabled b), mp_selectedModels := Some (vb_selected b)\<rparr>)
           (d\<lparr>dk_disabled := vb_disabled b, dk_selected := vb_selected b, dk_queue := vb_queue b\<rparr>))"

definition visibility_sends :: "desk \<Rightarrow> desk" where
  "visibility_sends d = d\<lparr>dk_status := NoStatus, dk_phase := Sending\<rparr>"

definition visibility_answers :: "save_outcome \<Rightarrow> desk \<Rightarrow> desk" where
  "visibility_answers outcome d =
     (let d1 = settleCatalogMutation d in
      if outcome \<noteq> Saved then load_begins True (AfterVisibility outcome) ((sync_cancel d1)\<lparr>dk_phase := Reloading\<rparr>)
      else sync_schedule (d1\<lparr>dk_ok := True, dk_status := Applied, dk_phase := Idle, dk_queue := tl (dk_queue d1)\<rparr>))"

definition applyNewModelPolicy_begins :: "new_model_policy \<Rightarrow> desk \<Rightarrow> desk" where
  "applyNewModelPolicy_begins policy d =
     (let optimisticDiscovery = (dk_discovery d)\<lparr>ds_newModelPolicy := policy\<rparr>;
          d1 = publishCatalogMutation (no_patch\<lparr>mp_discovery := Some optimisticDiscovery\<rparr>) (d\<lparr>dk_discovery := optimisticDiscovery\<rparr>)
      in d1\<lparr>dk_busy := True, dk_status := NoStatus, dk_policyWrites := dk_policyWrites d1 + 1\<rparr>)"

definition applyNewModelPolicy_answers :: "save_outcome \<Rightarrow> desk \<Rightarrow> desk" where
  "applyNewModelPolicy_answers outcome d =
     (let d1 = settleCatalogMutation (d\<lparr>dk_policyWrites := dk_policyWrites d - 1\<rparr>) in
      if outcome \<noteq> Saved then load_begins True (AfterPolicy outcome) (sync_cancel d1)
      else (sync_schedule (d1\<lparr>dk_ok := True, dk_status := NewPolicyApplied\<rparr>))\<lparr>dk_busy := False\<rparr>)"

datatype cap_answer = CapThrows | CapUnreadable string | CapSaved "windows option" "jsnum option"

definition putCap_begins :: "desk \<Rightarrow> desk" where
  "putCap_begins d = d\<lparr>dk_busy := True, dk_status := NoStatus, dk_capWrites := dk_capWrites d + 1\<rparr>"

definition putCap_answers :: "cap_answer \<Rightarrow> desk \<Rightarrow> desk" where
  "putCap_answers answer d =
     (let d0 = d\<lparr>dk_capWrites := dk_capWrites d - 1\<rparr> in
      case answer of
        CapThrows \<Rightarrow> (sync_cancel d0)\<lparr>dk_ok := False, dk_status := StatusNetworkError, dk_busy := False\<rparr>
      | CapUnreadable message \<Rightarrow> load_begins True AfterCap ((sync_cancel d0)\<lparr>dk_ok := False, dk_status := CapSaveFailed message\<rparr>)
      | CapSaved caps cap_value \<Rightarrow>
          (let nextCaps = (case caps of Some c \<Rightarrow> c | None \<Rightarrow> []);
               given = (case cap_value of Some v \<Rightarrow> if positive_finite v then Some v else None | None \<Rightarrow> None);
               d1 = (case given of Some v \<Rightarrow> d0\<lparr>dk_capValue := v\<rparr> | None \<Rightarrow> d0);
               d2 = publishCatalogMutation (no_patch\<lparr>mp_contextCaps := Some nextCaps, mp_contextCapValue := given\<rparr>) (d1\<lparr>dk_caps := nextCaps\<rparr>);
               d3 = settleCatalogMutation d2
           in (sync_schedule (d3\<lparr>dk_ok := True, dk_status := CapApplied\<rparr>))\<lparr>dk_busy := False\<rparr>))"

section \<open>Every order of answers\<close>

definition desk_init :: "desk \<Rightarrow> bool" where
  "desk_init d \<longleftrightarrow> dk_epoch d = 0 \<and> dk_pending d = 0 \<and> dk_generation d = 0 \<and> \<not> dk_loadPending d \<and> dk_debounce d = createTrailingDebounce
     \<and> dk_resource d = dk_snapshot d \<and> dk_loads d = [] \<and> dk_polls d = [] \<and> dk_queue d = [] \<and> dk_phase d = Idle
     \<and> dk_policyWrites d = 0 \<and> dk_capWrites d = 0"

inductive desk_step :: "(string \<Rightarrow> string \<Rightarrow> int) \<Rightarrow> desk \<Rightarrow> desk \<Rightarrow> bool" for lc where
  ds_load: "desk_step lc d (load_begins force AfterNothing d)"
| ds_load_answer: "l \<in> set (dk_loads d) \<Longrightarrow> desk_step lc d (load_answers lc l answer d)"
| ds_poll: "desk_step lc d (poll_begins d)"
| ds_poll_answer: "e \<in> set (dk_polls d) \<Longrightarrow> desk_step lc d (poll_answers lc e answer d)"
| ds_visibility: "desk_step lc d (applyVisibility_begins scope provider targets enabled d)"
| ds_visibility_send: "dk_phase d = Idle \<Longrightarrow> dk_queue d \<noteq> [] \<Longrightarrow> desk_step lc d (visibility_sends d)"
| ds_visibility_answer: "dk_phase d = Sending \<Longrightarrow> desk_step lc d (visibility_answers outcome d)"
| ds_policy: "desk_step lc d (applyNewModelPolicy_begins policy d)"
| ds_policy_answer: "0 < dk_policyWrites d \<Longrightarrow> desk_step lc d (applyNewModelPolicy_answers outcome d)"
| ds_cap: "desk_step lc d (putCap_begins d)"
| ds_cap_answer: "0 < dk_capWrites d \<Longrightarrow> desk_step lc d (putCap_answers answer d)"
| ds_fire: "db_timer (dk_debounce d) \<Longrightarrow> desk_step lc d (sync_fires d)"
| ds_cancel: "desk_step lc d (sync_cancel d)"

section \<open>What each operation leaves alone\<close>

lemma applyCatalog_frame [simp]:
  "dk_epoch (snd (applyCatalog lc snap d)) = dk_epoch d"
  "dk_pending (snd (applyCatalog lc snap d)) = dk_pending d"
  "dk_generation (snd (applyCatalog lc snap d)) = dk_generation d"
  "dk_loadPending (snd (applyCatalog lc snap d)) = dk_loadPending d"
  "dk_debounce (snd (applyCatalog lc snap d)) = dk_debounce d"
  "dk_loads (snd (applyCatalog lc snap d)) = dk_loads d"
  "dk_queue (snd (applyCatalog lc snap d)) = dk_queue d"
  "dk_phase (snd (applyCatalog lc snap d)) = dk_phase d"
  "dk_policyWrites (snd (applyCatalog lc snap d)) = dk_policyWrites d"
  by (simp_all add: applyCatalog_def Let_def split: sum.split)

lemma publish_frame [simp]:
  "dk_epoch (publishCatalogMutation p d) = dk_epoch d + 1" "dk_pending (publishCatalogMutation p d) = dk_pending d + 1"
  "dk_generation (publishCatalogMutation p d) = dk_generation d"
  "dk_loadPending (publishCatalogMutation p d) = dk_loadPending d"
  "dk_debounce (publishCatalogMutation p d) = dk_debounce d"
  "dk_loads (publishCatalogMutation p d) = dk_loads d"
  "dk_queue (publishCatalogMutation p d) = dk_queue d"
  "dk_phase (publishCatalogMutation p d) = dk_phase d"
  "dk_policyWrites (publishCatalogMutation p d) = dk_policyWrites d"
  by (simp_all add: publishCatalogMutation_def Let_def split: option.split)

lemma settle_mutation_frame [simp]:
  "dk_epoch (settleCatalogMutation d) = dk_epoch d + 1" "dk_pending (settleCatalogMutation d) = dk_pending d - 1"
  "dk_generation (settleCatalogMutation d) = dk_generation d"
  "dk_loadPending (settleCatalogMutation d) = dk_loadPending d"
  "dk_debounce (settleCatalogMutation d) = dk_debounce d"
  "dk_loads (settleCatalogMutation d) = dk_loads d"
  "dk_queue (settleCatalogMutation d) = dk_queue d"
  "dk_phase (settleCatalogMutation d) = dk_phase d"
  "dk_policyWrites (settleCatalogMutation d) = dk_policyWrites d"
  by (simp_all add: settleCatalogMutation_def Let_def)

lemma sync_frame [simp]:
  "dk_epoch (sync_cancel d) = dk_epoch d"
  "dk_pending (sync_cancel d) = dk_pending d"
  "dk_generation (sync_cancel d) = dk_generation d"
  "dk_loadPending (sync_cancel d) = dk_loadPending d"
  "dk_loads (sync_cancel d) = dk_loads d"
  "dk_queue (sync_cancel d) = dk_queue d"
  "dk_phase (sync_cancel d) = dk_phase d"
  "dk_policyWrites (sync_cancel d) = dk_policyWrites d"
  "dk_epoch (sync_schedule d) = dk_epoch d"
  "dk_pending (sync_schedule d) = dk_pending d"
  "dk_generation (sync_schedule d) = dk_generation d"
  "dk_loadPending (sync_schedule d) = dk_loadPending d"
  "dk_loads (sync_schedule d) = dk_loads d"
  "dk_queue (sync_schedule d) = dk_queue d"
  "dk_phase (sync_schedule d) = dk_phase d"
  "dk_policyWrites (sync_schedule d) = dk_policyWrites d"
  by (simp_all add: sync_cancel_def sync_schedule_def)

section \<open>The invariant\<close>

fun reloads_visibility :: "catalog_load \<Rightarrow> bool" where
  "reloads_visibility l = (case ld_after l of AfterVisibility _ \<Rightarrow> True | _ \<Rightarrow> False)"

text \<open>The writes whose answer is still out: everything in the queue but a head that is being reloaded, and the policy writes.\<close>

definition unsettled :: "desk \<Rightarrow> nat" where
  "unsettled d = length (dk_queue d) - (if dk_phase d = Reloading then 1 else 0) + dk_policyWrites d"

definition reads_ok :: "desk \<Rightarrow> bool" where
  "reads_ok d \<longleftrightarrow> distinct (map ld_generation (dk_loads d))
     \<and> (\<forall>l \<in> set (dk_loads d). ld_generation l \<le> dk_generation d)
     \<and> (dk_loadPending d \<longleftrightarrow> dk_generation d \<in> ld_generation ` set (dk_loads d))"

definition writes_ok :: "desk \<Rightarrow> bool" where
  "writes_ok d \<longleftrightarrow> dk_pending d = unsettled d \<and> (dk_phase d \<noteq> Idle \<longrightarrow> dk_queue d \<noteq> [])
     \<and> length (filter reloads_visibility (dk_loads d)) = (if dk_phase d = Reloading then 1 else 0)
     \<and> (db_timer (dk_debounce d) \<longleftrightarrow> db_pending (dk_debounce d) \<noteq> None)"

definition desk_ok :: "desk \<Rightarrow> bool" where
  "desk_ok d \<longleftrightarrow> reads_ok d \<and> writes_ok d"

lemma load_returns_frame [simp]:
  "dk_epoch (load_returns a d) = dk_epoch d"
  "dk_pending (load_returns a d) = dk_pending d"
  "dk_generation (load_returns a d) = dk_generation d"
  "dk_loadPending (load_returns a d) = dk_loadPending d"
  "dk_debounce (load_returns a d) = dk_debounce d"
  "dk_loads (load_returns a d) = dk_loads d"
  "dk_policyWrites (load_returns a d) = dk_policyWrites d"
  by (cases a; simp)+

lemma reads_begin: "reads_ok d \<Longrightarrow> reads_ok (load_begins force a d)"
  by (auto simp: reads_ok_def load_begins_def)

lemma begins_frame [simp]:
  "dk_epoch (load_begins force a d) = dk_epoch d" "dk_pending (load_begins force a d) = dk_pending d"
  "dk_debounce (load_begins force a d) = dk_debounce d" "dk_policyWrites (load_begins force a d) = dk_policyWrites d"
  by (simp_all add: load_begins_def)

lemma begins_forced [simp]:
  "dk_queue (load_begins True a d) = dk_queue d" "dk_phase (load_begins True a d) = dk_phase d"
  "dk_loads (load_begins True a d) = dk_loads d @ [\<lparr>ld_generation = dk_generation d + 1, ld_epoch = dk_epoch d, ld_after = a\<rparr>]"
  by (simp_all add: load_begins_def)

text \<open>A load's answer before its continuation: only the list of loads and the flag change among the counters.\<close>

definition load_painted :: "(string \<Rightarrow> string \<Rightarrow> int) \<Rightarrow> catalog_load \<Rightarrow> catalog_snapshot option \<Rightarrow> desk \<Rightarrow> desk" where
  "load_painted lc l answer d =
     (let d1 = d\<lparr>dk_loads := remove1 l (dk_loads d)\<rparr> in
      case answer of None \<Rightarrow> d1
      | Some snap \<Rightarrow> if \<not> load_accepted l d1 then d1
          else if fst (applyCatalog lc snap d1) then (snd (applyCatalog lc snap d1))\<lparr>dk_resource := Some snap\<rparr> else snd (applyCatalog lc snap d1))"

lemma painted_frame [simp]:
  "dk_epoch (load_painted lc l answer d) = dk_epoch d" "dk_pending (load_painted lc l answer d) = dk_pending d"
  "dk_generation (load_painted lc l answer d) = dk_generation d" "dk_loadPending (load_painted lc l answer d) = dk_loadPending d"
  "dk_debounce (load_painted lc l answer d) = dk_debounce d" "dk_queue (load_painted lc l answer d) = dk_queue d"
  "dk_phase (load_painted lc l answer d) = dk_phase d" "dk_policyWrites (load_painted lc l answer d) = dk_policyWrites d"
  "dk_loads (load_painted lc l answer d) = remove1 l (dk_loads d)"
  by (simp_all add: load_painted_def Let_def split: option.split)

lemma load_answers_painted:
  "load_answers lc l answer d = load_returns (ld_after l)
     (if ld_generation l = dk_generation d then (load_painted lc l answer d)\<lparr>dk_loadPending := False\<rparr> else load_painted lc l answer d)"
proof -
  have "load_answers lc l answer d = load_returns (ld_after l)
     (if ld_generation l = dk_generation (load_painted lc l answer d) then (load_painted lc l answer d)\<lparr>dk_loadPending := False\<rparr> else load_painted lc l answer d)"
    by (simp only: load_answers_def load_painted_def Let_def case_prod_beta)
  then show ?thesis by simp
qed

lemma reads_answer:
  assumes "reads_ok d" "l \<in> set (dk_loads d)"
  shows "reads_ok (load_answers lc l answer d)"
proof -
  have d: "distinct (map ld_generation (dk_loads d))" using assms(1) by (simp add: reads_ok_def)
  then have set: "set (remove1 l (dk_loads d)) = set (dk_loads d) - {l}" by (simp add: distinct_map)
  have gens: "distinct (map ld_generation (remove1 l (dk_loads d)))"
    using d by (auto simp: distinct_map intro: inj_on_subset)
  have "ld_generation ` set (remove1 l (dk_loads d)) = ld_generation ` set (dk_loads d) - {ld_generation l}"
    unfolding set using d assms(2) by (auto simp: distinct_map dest: inj_onD)
  then show ?thesis using assms gens
    by (auto simp: load_answers_painted reads_ok_def set)
qed

lemma writes_answer:
  assumes "writes_ok d" "l \<in> set (dk_loads d)"
  shows "writes_ok (load_answers lc l answer d)"
proof (cases "reloads_visibility l")
  case True
  then obtain outcome where a: "ld_after l = AfterVisibility outcome" by (auto split: load_after.splits)
  have "l \<in> set (filter reloads_visibility (dk_loads d))" using True assms(2) by simp
  then have "filter reloads_visibility (dk_loads d) \<noteq> []" by (metis empty_iff empty_set)
  then have r: "dk_phase d = Reloading" and one: "length (filter reloads_visibility (dk_loads d)) = 1"
    using assms(1) by (auto simp: writes_ok_def split: if_splits)
  have "length (filter reloads_visibility (remove1 l (dk_loads d))) = 0"
    using one True assms(2) by (simp add: filter_remove1 length_remove1)
  then show ?thesis using assms(1) r by (simp add: load_answers_painted a writes_ok_def unsettled_def del: reloads_visibility.simps)
next
  case False
  then have "filter reloads_visibility (remove1 l (dk_loads d)) = filter reloads_visibility (dk_loads d)" by (simp add: filter_remove1 remove1_idem)
  then show ?thesis using assms(1) False
    by (cases "ld_after l") (simp_all add: load_answers_painted writes_ok_def unsettled_def del: reloads_visibility.simps, auto)
qed

lemma queue_grows: "vb_queue (applyVisibility scope p ts e b) \<noteq> []" "length (vb_queue (applyVisibility scope p ts e b)) = length (vb_queue b) + 1"
  by (simp_all add: applyVisibility_def Let_def)

lemma begins_unforced: "writes_ok d \<Longrightarrow> writes_ok (load_begins force AfterNothing d)"
  by (cases "dk_loadPending d \<and> \<not> force") (simp_all add: load_begins_def writes_ok_def unsettled_def)

lemma writes_visibility: "writes_ok d \<Longrightarrow> writes_ok (applyVisibility_begins scope p ts e d)"
  by (cases "dk_phase d") (auto simp: applyVisibility_begins_def Let_def writes_ok_def unsettled_def queue_grows neq_Nil_conv)

lemma writes_visibility_answer:
  assumes "writes_ok d" "dk_phase d = Sending"
  shows "writes_ok (visibility_answers outcome d)"
proof -
  obtain w ws where q: "dk_queue d = w # ws" using assms by (cases "dk_queue d") (auto simp: writes_ok_def)
  show ?thesis using assms q
    by (simp add: visibility_answers_def Let_def writes_ok_def unsettled_def sync_cancel_def sync_schedule_def
        debounce_cancel_def debounce_schedule_def debounce_clear_def)
qed

lemma writes_policy: "writes_ok d \<Longrightarrow> writes_ok (applyNewModelPolicy_begins policy d)"
  by (auto simp: applyNewModelPolicy_begins_def Let_def writes_ok_def unsettled_def)

lemma writes_policy_answer: "writes_ok d \<Longrightarrow> 0 < dk_policyWrites d \<Longrightarrow> writes_ok (applyNewModelPolicy_answers outcome d)"
  by (auto simp: applyNewModelPolicy_answers_def Let_def writes_ok_def unsettled_def sync_cancel_def sync_schedule_def
      debounce_cancel_def debounce_schedule_def debounce_clear_def)

lemma writes_cap_answer: "writes_ok d \<Longrightarrow> writes_ok (putCap_answers answer d)"
  by (cases answer) (auto simp: putCap_answers_def Let_def writes_ok_def unsettled_def sync_cancel_def sync_schedule_def
      debounce_cancel_def debounce_schedule_def debounce_clear_def split: option.split)

lemma poll_frame [simp]:
  "reads_ok (poll_answers lc e answer d) = reads_ok d" "writes_ok (poll_answers lc e answer d) = writes_ok d"
  "dk_epoch (poll_answers lc e answer d) = dk_epoch d" "dk_pending (poll_answers lc e answer d) = dk_pending d"
  by (simp_all add: poll_answers_def Let_def reads_ok_def writes_ok_def unsettled_def case_prod_beta split: option.split)

lemma writes_fire: "writes_ok d \<Longrightarrow> writes_ok (sync_fires d)"
  by (auto simp: sync_fires_def debounce_fires_def Let_def writes_ok_def unsettled_def split: option.split)

lemma reads_same:
  "dk_loads d' = dk_loads d \<Longrightarrow> dk_generation d' = dk_generation d \<Longrightarrow> dk_loadPending d' = dk_loadPending d \<Longrightarrow> reads_ok d \<Longrightarrow> reads_ok d'"
  by (simp add: reads_ok_def)

lemma reads_step:
  assumes "desk_step lc d d'" "reads_ok d"
  shows "reads_ok d'"
  using assms(1)
proof cases
  case (ds_load force)
  then show ?thesis using reads_begin [OF assms(2)] by simp
next
  case (ds_load_answer l answer)
  then show ?thesis using reads_answer [OF assms(2)] by simp
next
  case (ds_visibility_answer outcome)
  have "reads_ok ((sync_cancel (settleCatalogMutation d))\<lparr>dk_phase := Reloading\<rparr>)" by (rule reads_same [OF _ _ _ assms(2)]) simp_all
  then show ?thesis unfolding ds_visibility_answer visibility_answers_def Let_def
    by (auto intro!: reads_begin reads_same [OF _ _ _ assms(2)])
next
  case (ds_policy_answer outcome)
  have "reads_ok (sync_cancel (settleCatalogMutation (d\<lparr>dk_policyWrites := dk_policyWrites d - 1\<rparr>)))" by (rule reads_same [OF _ _ _ assms(2)]) simp_all
  then show ?thesis unfolding ds_policy_answer applyNewModelPolicy_answers_def Let_def
    by (auto intro!: reads_begin reads_same [OF _ _ _ assms(2)])
next
  case (ds_cap_answer answer)
  show ?thesis unfolding ds_cap_answer putCap_answers_def Let_def
    by (cases answer) (auto intro!: reads_begin reads_same [OF _ _ _ assms(2)] split: option.split)
next
  case ds_fire
  show ?thesis unfolding ds_fire sync_fires_def Let_def case_prod_beta
    by (auto intro!: reads_begin reads_same [OF _ _ _ assms(2)] split: option.split)
qed (use assms(2) in \<open>auto simp: applyVisibility_begins_def applyNewModelPolicy_begins_def putCap_begins_def visibility_sends_def poll_begins_def Let_def
       intro!: reads_same [OF _ _ _ assms(2)]\<close>)

lemma writes_step:
  assumes "desk_step lc d d'" "writes_ok d"
  shows "writes_ok d'"
  using assms(1)
proof cases
  case ds_cancel
  then show ?thesis using assms(2)
    by (simp add: writes_ok_def unsettled_def sync_cancel_def debounce_cancel_def debounce_clear_def)
next
  case ds_poll
  then show ?thesis using assms(2) by (simp add: poll_begins_def writes_ok_def unsettled_def)
next
  case ds_visibility_send
  then show ?thesis using assms(2) by (simp add: visibility_sends_def writes_ok_def unsettled_def)
next
  case ds_cap
  then show ?thesis using assms(2) by (simp add: putCap_begins_def writes_ok_def unsettled_def)
qed (use assms(2) in \<open>simp_all add: begins_unforced writes_answer writes_visibility writes_visibility_answer writes_policy writes_policy_answer
       writes_cap_answer writes_fire\<close>)

interpretation desk_machine: machine desk_init "desk_step lc" desk_ok for lc
proof
  fix d assume "desk_init d"
  then show "desk_ok d" by (auto simp: desk_init_def desk_ok_def reads_ok_def writes_ok_def unsettled_def createTrailingDebounce_def)
next
  fix d d' assume "desk_ok d" "desk_step lc d d'"
  then show "desk_ok d'" using reads_step writes_step by (auto simp: desk_ok_def)
qed

section \<open>Reads and writes apart\<close>

lemma epoch_step:
  assumes "desk_step lc d d'"
  shows "dk_epoch d \<le> dk_epoch d' \<and> (dk_epoch d' = dk_epoch d \<longrightarrow> dk_pending d' = dk_pending d)"
  using assms
proof cases
  case (ds_load_answer l answer)
  then show ?thesis by (simp add: load_answers_painted)
qed (auto simp: poll_begins_def applyVisibility_begins_def visibility_sends_def visibility_answers_def applyNewModelPolicy_begins_def
      applyNewModelPolicy_answers_def putCap_begins_def putCap_answers_def sync_fires_def Let_def split: prod.split option.split cap_answer.split)

lemma epoch_path: "(desk_step lc)\<^sup>*\<^sup>* d d' \<Longrightarrow> dk_epoch d \<le> dk_epoch d' \<and> (dk_epoch d' = dk_epoch d \<longrightarrow> dk_pending d' = dk_pending d)"
proof (induction rule: rtranclp_induct)
  case (step e f)
  then show ?case using epoch_step [OF step(2)] by (metis le_antisym order_trans)
qed simp

text \<open>What the page shows of the catalog.\<close>

definition shown_catalog :: "desk \<Rightarrow> catalog_snapshot option \<times> string list \<times> provider_models \<times> discovery_state \<times> windows \<times> jsnum" where
  "shown_catalog d = (dk_snapshot d, dk_disabled d, dk_selected d, dk_discovery d, dk_caps d, dk_capValue d)"

lemma shown_returns: "shown_catalog (load_returns a d) = shown_catalog d"
  by (cases a) (simp_all add: shown_catalog_def)

lemma accepted_iff: "load_accepted l d \<longleftrightarrow> ld_generation l = dk_generation d \<and> ld_epoch l = dk_epoch d \<and> dk_pending d = 0"
  by (simp add: load_accepted_def shouldApplyModelsCatalogLoad_def modelsCatalogMutationStable_def)

lemma rejected_load: "\<not> load_accepted l d \<Longrightarrow> shown_catalog (load_answers lc l answer d) = shown_catalog d"
proof -
  assume "\<not> load_accepted l d"
  then have "\<not> load_accepted l (d\<lparr>dk_loads := remove1 l (dk_loads d)\<rparr>)" by (simp add: accepted_iff)
  then have "load_painted lc l answer d = d\<lparr>dk_loads := remove1 l (dk_loads d)\<rparr>" by (simp add: load_painted_def Let_def split: option.split)
  then show ?thesis by (simp add: load_answers_painted shown_returns) (simp add: shown_catalog_def)
qed

lemma rejected_poll: "\<not> (e = dk_epoch d \<and> dk_pending d = 0) \<Longrightarrow> shown_catalog (poll_answers lc e answer d) = shown_catalog d"
  by (auto simp: poll_answers_def modelsCatalogMutationStable_def Let_def shown_catalog_def split: option.split)

lemma quiet_between:
  assumes "reach desk_init (desk_step lc) d1" "(desk_step lc)\<^sup>*\<^sup>* d1 d" "(desk_step lc)\<^sup>*\<^sup>* d d2" "dk_epoch d2 = dk_epoch d1" "dk_pending d2 = 0"
  shows "unsettled d = 0"
proof -
  have e: "dk_epoch d = dk_epoch d2" using epoch_path [OF assms(2)] epoch_path [OF assms(3)] assms(4) by simp
  then have "dk_pending d = 0" using epoch_path [OF assms(3)] assms(5) by simp
  moreover have "desk_ok d" using desk_machine.steps_inv [OF assms(2) desk_machine.reachable_inv [OF assms(1)]] .
  ultimately show ?thesis by (simp add: desk_ok_def writes_ok_def)
qed


definition blank_snapshot :: "string list \<Rightarrow> catalog_snapshot" where
  "blank_snapshot disabled = \<lparr>sn_models = [], sn_providers = [], sn_selectedModels = (\<lambda>_. None), sn_modelPresets = [],
     sn_discovery = \<lparr>ds_newModelPolicy = On, ds_providers = []\<rparr>, sn_disabled = disabled, sn_contextCaps = [], sn_contextCapValue = Fin 1\<rparr>"

definition blank_desk :: desk where
  "blank_desk = \<lparr>dk_snapshot = None, dk_resource = None, dk_provider = None, dk_contextWrites = [], dk_models = [], dk_providers = [],
     dk_disabled = [], dk_selected = (\<lambda>_. None), dk_discovery = \<lparr>ds_newModelPolicy = On, ds_providers = []\<rparr>, dk_caps = [], dk_capValue = Fin 1,
     dk_patched = [], dk_epoch = 0, dk_pending = 0, dk_generation = 0, dk_loadPending = False, dk_debounce = createTrailingDebounce,
     dk_busy = False, dk_ok = False, dk_status = NoStatus, dk_loads = [], dk_polls = [], dk_queue = [], dk_phase = Idle,
     dk_policyWrites = 0, dk_capWrites = 0\<rparr>"

lemma blank_desk_reach: "reach desk_init (desk_step lc) blank_desk"
  by (rule reach_init) (simp add: desk_init_def blank_desk_def)




end
