(* ===== verification/Visibility_Poll.thy ===== *)
theory Visibility_Poll
  imports Benes_Prelude
begin

text \<open>
  \<^verbatim>\<open>gui/src/visibility-poll.ts\<close>: the interval that rests while the tab is hidden. The browser's timer and its visibility event are
  steps of \<open>poll_step\<close>; what the callback does is part of the step, since it may return, throw, or stop the very poll
  that calls it. A host without a document is a poll that never hears of visibility and never sees a hidden tab.
\<close>

section \<open>The poll\<close>

record poll_options =
  po_immediate :: "bool option"
  po_pauseWhenHidden :: "bool option"

record poll_settings =
  ps_suspendWhileHidden :: bool
  ps_tickOnStart :: bool

definition pollSettings :: "poll_options option \<Rightarrow> poll_settings" where
  "pollSettings options = \<lparr>
     ps_suspendWhileHidden = (case options of None \<Rightarrow> True | Some o1 \<Rightarrow> po_pauseWhenHidden o1 \<noteq> Some False),
     ps_tickOnStart = (case options of None \<Rightarrow> False | Some o1 \<Rightarrow> po_immediate o1 = Some True)\<rparr>"

datatype callback = Returns | Throws | Stops

record vpoll =
  vp_document :: bool
  vp_hidden :: bool
  vp_settings :: poll_settings
  vp_timer :: bool
  vp_listening :: bool
  vp_disposed :: bool
  vp_ticks :: nat
  vp_errors :: nat

definition tabIsHidden :: "vpoll \<Rightarrow> bool" where
  "tabIsHidden p \<longleftrightarrow> vp_document p \<and> vp_hidden p"

definition timer_start :: "vpoll \<Rightarrow> vpoll" where
  "timer_start p = (if \<not> vp_timer p then p\<lparr>vp_timer := True\<rparr> else p)"

definition timer_cancel :: "vpoll \<Rightarrow> vpoll" where
  "timer_cancel p = (if \<not> vp_timer p then p else p\<lparr>vp_timer := False\<rparr>)"

definition onTabVisibility :: "vpoll \<Rightarrow> vpoll" where
  "onTabVisibility p = (if \<not> vp_document p then p else p\<lparr>vp_listening := True\<rparr>)"

definition poll_stop :: "vpoll \<Rightarrow> vpoll" where
  "poll_stop p = (timer_cancel (p\<lparr>vp_disposed := True\<rparr>))\<lparr>vp_listening := False\<rparr>"

definition poll_run :: "callback \<Rightarrow> vpoll \<Rightarrow> vpoll" where
  "poll_run cb p =
     (let p1 = p\<lparr>vp_ticks := vp_ticks p + 1\<rparr> in
      case cb of Returns \<Rightarrow> p1 | Throws \<Rightarrow> p1\<lparr>vp_errors := vp_errors p1 + 1\<rparr> | Stops \<Rightarrow> poll_stop p1)"

definition poll_sync :: "bool \<Rightarrow> callback \<Rightarrow> vpoll \<Rightarrow> vpoll" where
  "poll_sync catchUp cb p =
     (if vp_disposed p then p
      else if ps_suspendWhileHidden (vp_settings p) \<and> tabIsHidden p then timer_cancel p
      else let p1 = (if catchUp then poll_run cb p else p) in timer_start p1)"

definition startVisibilityPoll :: "bool \<Rightarrow> bool \<Rightarrow> poll_options option \<Rightarrow> callback \<Rightarrow> vpoll" where
  "startVisibilityPoll has_document hidden options cb =
     (let p0 = \<lparr>vp_document = has_document, vp_hidden = hidden, vp_settings = pollSettings options, vp_timer = False,
                vp_listening = False, vp_disposed = False, vp_ticks = 0, vp_errors = 0\<rparr>;
          p1 = (if ps_suspendWhileHidden (vp_settings p0) then onTabVisibility p0 else p0);
          p2 = poll_sync False cb p1
      in if ps_tickOnStart (vp_settings p2) then poll_run cb p2 else p2)"

definition tab_changes :: "bool \<Rightarrow> callback \<Rightarrow> vpoll \<Rightarrow> vpoll" where
  "tab_changes hidden cb p =
     (let p1 = p\<lparr>vp_hidden := hidden\<rparr> in if vp_listening p1 then poll_sync True cb p1 else p1)"

text \<open>The stop function exists only after the start has returned, so the tick on start cannot call it.\<close>

definition poll_init :: "vpoll \<Rightarrow> bool" where
  "poll_init p \<longleftrightarrow> (\<exists>has_document hidden options cb. cb \<noteq> Stops \<and> p = startVisibilityPoll has_document hidden options cb)"

inductive poll_step :: "vpoll \<Rightarrow> vpoll \<Rightarrow> bool" where
  poll_tick: "vp_timer p \<Longrightarrow> poll_step p (poll_run cb p)"
| poll_tab: "hidden \<noteq> vp_hidden p \<Longrightarrow> poll_step p (tab_changes hidden cb p)"
| poll_stopped: "poll_step p (poll_stop p)"

text \<open>The same machine for callbacks that leave stopping to others while the tab comes back.\<close>

inductive calm_step :: "vpoll \<Rightarrow> vpoll \<Rightarrow> bool" where
  calm_tick: "vp_timer p \<Longrightarrow> calm_step p (poll_run cb p)"
| calm_tab: "hidden \<noteq> vp_hidden p \<Longrightarrow> cb \<noteq> Stops \<Longrightarrow> calm_step p (tab_changes hidden cb p)"
| calm_stopped: "calm_step p (poll_stop p)"

section \<open>The rule\<close>

definition resting :: "vpoll \<Rightarrow> bool" where
  "resting p \<longleftrightarrow> ps_suspendWhileHidden (vp_settings p) \<and> tabIsHidden p"

definition poll_ok :: "vpoll \<Rightarrow> bool" where
  "poll_ok p \<longleftrightarrow> (vp_timer p \<longleftrightarrow> \<not> vp_disposed p \<and> \<not> resting p)
     \<and> (vp_listening p \<longleftrightarrow> vp_document p \<and> ps_suspendWhileHidden (vp_settings p) \<and> \<not> vp_disposed p)"

lemmas poll_defs = poll_run_def poll_stop_def poll_sync_def timer_start_def timer_cancel_def onTabVisibility_def tab_changes_def
  resting_def tabIsHidden_def Let_def

lemma calm_step_cases:
  assumes "calm_step p q"
  shows "poll_step p q"
  using assms by cases (auto intro: poll_step.intros)

interpretation calm_poll: machine poll_init calm_step poll_ok
proof
  fix p assume "poll_init p"
  then obtain has_document hidden options cb where p: "cb \<noteq> Stops" "p = startVisibilityPoll has_document hidden options cb"
    unfolding poll_init_def by blast
  show "poll_ok p"
    using p(1) unfolding p(2)
    by (cases cb; cases has_document; cases hidden; cases "ps_suspendWhileHidden (pollSettings options)")
       (simp_all add: startVisibilityPoll_def poll_ok_def poll_defs)
next
  fix p q assume ok: "poll_ok p" and step: "calm_step p q"
  from step show "poll_ok q"
  proof cases
    case (calm_tick cb)
    then show ?thesis using ok by (cases cb) (auto simp: poll_ok_def poll_defs)
  next
    case (calm_tab hidden cb)
    then show ?thesis using ok by (cases cb) (auto simp: poll_ok_def poll_defs)
  next
    case calm_stopped
    then show ?thesis using ok by (auto simp: poll_ok_def poll_defs)
  qed
qed

text \<open>A poll costs nothing in a hidden tab and loses nothing. While callbacks do not stop their own poll in the tick that greets a
  returning tab, the timer runs exactly when the poll is neither stopped nor resting in a hidden tab, so no step
  ticks while it rests; the step that shows the tab again ticks exactly once and the timer runs again, even when the callback throws;
  and after a stop nothing ticks any more.\<close>

theorem poll_rests_hidden:
  assumes "reach poll_init calm_step p"
  shows "(vp_timer p \<longleftrightarrow> \<not> vp_disposed p \<and> \<not> resting p)
    \<and> (\<forall>q. calm_step p q \<and> resting p \<and> resting q \<longrightarrow> vp_ticks q = vp_ticks p \<and> \<not> vp_timer q)
    \<and> (\<forall>q. calm_step p q \<and> resting p \<and> \<not> resting q \<and> \<not> vp_disposed p \<longrightarrow> vp_ticks q = vp_ticks p + 1 \<and> vp_timer q)
    \<and> (\<forall>q. calm_step p q \<and> vp_disposed p \<longrightarrow> vp_ticks q = vp_ticks p \<and> vp_disposed q)"
proof -
  have ok: "poll_ok p" by (rule calm_poll.reachable_inv [OF assms])
  have still: "vp_ticks q = vp_ticks p \<and> \<not> vp_timer q" if "calm_step p q" "resting p" "resting q" for q
    using that(1)
  proof cases
    case (calm_tab hidden cb)
    then show ?thesis using ok that(2,3) by (cases cb) (auto simp: poll_ok_def poll_defs split: if_splits)
  qed (use ok that in \<open>auto simp: poll_ok_def poll_defs\<close>)
  have again: "vp_ticks q = vp_ticks p + 1 \<and> vp_timer q" if "calm_step p q" "resting p" "\<not> resting q" "\<not> vp_disposed p" for q
    using that(1)
  proof cases
    case (calm_tab hidden cb)
    then show ?thesis using ok that by (cases cb) (auto simp: poll_ok_def poll_defs split: if_splits)
  qed (use ok that in \<open>auto simp: poll_ok_def poll_defs\<close>)
  have over: "vp_ticks q = vp_ticks p \<and> vp_disposed q" if "calm_step p q" "vp_disposed p" for q
    using that(1)
  proof cases
    case (calm_tab hidden cb)
    then show ?thesis using ok that by (auto simp: poll_ok_def poll_defs)
  qed (use ok that in \<open>auto simp: poll_ok_def poll_defs\<close>)
  show ?thesis using ok still again over unfolding poll_ok_def by blast
qed

theorem poll_rests_hidden_witness:
  "\<not> vp_timer (startVisibilityPoll True True None Returns) \<and> vp_ticks (tab_changes False Throws (startVisibilityPoll True True None Returns)) = 1"
proof -
  let ?p = "startVisibilityPoll True True None Returns" and ?q = "tab_changes False Throws (startVisibilityPoll True True None Returns)"
  have "reach poll_init calm_step ?p" by (rule reach_init) (auto simp: poll_init_def)
  moreover have "calm_step ?p ?q" by (rule calm_tab) (simp_all add: startVisibilityPoll_def poll_defs pollSettings_def)
  moreover have "resting ?p" "\<not> resting ?q" "\<not> vp_disposed ?p" "vp_ticks ?p = 0" by code_simp+
  ultimately show ?thesis using poll_rests_hidden [of ?p] by auto
qed

text \<open>A callback that stops the poll in the tick that greets a returning tab leaves the timer running: the stop cancels
  the timer before it is started again, and every later stop finds it, but none comes.\<close>

lemma stopped_poll_keeps_ticking:
  "\<exists>p. reach poll_init poll_step p \<and> vp_disposed p \<and> vp_timer p \<and> poll_step p (poll_run Returns p)"
proof -
  let ?p = "startVisibilityPoll True True None Returns" and ?q = "tab_changes False Stops (startVisibilityPoll True True None Returns)"
  have "reach poll_init poll_step ?p" by (rule reach_init) (auto simp: poll_init_def)
  moreover have "poll_step ?p ?q" by (rule poll_tab) (simp add: startVisibilityPoll_def poll_defs pollSettings_def)
  ultimately have "reach poll_init poll_step ?q" by (rule reach_step)
  moreover have "vp_disposed ?q" "vp_timer ?q" by code_simp+
  ultimately show ?thesis using poll_tick [of ?q Returns] by blast
qed

end
