(* ===== verification/Provider_Login.thy ===== *)
theory Provider_Login
  imports Benes_Prelude
begin

text \<open>
  The add-provider dialog and its browser login: \<^verbatim>\<open>components/add-provider-session.ts\<close>, \<^verbatim>\<open>lib/add-provider-oauth-decode.ts\<close>,
  \<^verbatim>\<open>components/use-add-provider-oauth.ts\<close> and the handlers of \<^verbatim>\<open>components/AddProviderModal.tsx\<close> that use them. A login attempt that is
  out is a \<open>run\<close>, cut where \<open>runOAuthAttempt\<close> awaits; answers arrive in any order. The translator is the parameter \<open>t\<close>. Requests are
  logged, and a popup is known by the number of its attempt.
\<close>

section \<open>The session\<close>

datatype auth_kind = AuthOauth | AuthForward | AuthKey | AuthLocal
datatype link_tone = ToneOk | ToneWarn

record catalog_preset =
  cp_id :: string
  cp_label :: string
  cp_adapter :: string
  cp_baseUrl :: string
  cp_responsesPath :: "string option"
  cp_defaultModel :: "string option"
  cp_auth :: auth_kind
  cp_oauthProvider :: "string option"

record provider_draft =
  pf_name :: string
  pf_adapter :: string
  pf_baseUrl :: string
  pf_responsesPath :: "string option"
  pf_authMode :: auth_kind
  pf_apiKey :: string
  pf_apiKeyTransport :: "string option"
  pf_defaultModel :: string
  pf_allowPrivateNetwork :: "bool option"

record session_selection =
  sl_preset :: "catalog_preset option"
  sl_form :: "provider_draft option"
  sl_endpointChoice :: string

record session_save =
  sv_inFlight :: bool
  sv_error :: string

record session_oauth =
  oa_busy :: bool
  oa_notice :: string
  oa_noticeTone :: link_tone
  oa_authorizeUrl :: string
  oa_authorizeFor :: "string option"
  oa_tosFor :: "string option"

record session_manual =
  ma_value :: string
  ma_inFlight :: bool
  ma_notice :: string
  ma_accepted :: bool

record provider_session =
  ss_selection :: session_selection
  ss_save :: session_save
  ss_oauth :: session_oauth
  ss_manual :: session_manual

datatype provider_command =
    SelectPreset catalog_preset provider_draft string
  | ReturnToCatalog
  | UpdateDraft provider_draft
  | ChooseEndpoint string
  | StartSaving
  | FinishSaving "string option"
  | SetSaveError string
  | StartAuthorization bool
  | SetAuthorizationNotice string "link_tone option"
  | SetAuthorizationTone link_tone
  | ReceiveAuthorizationUrl string string
  | UpdateManualCode string
  | SetManualCodeBusy bool
  | SetManualCodeNotice string "bool option"
  | ResolveTos "string option"
  | SwitchToOauth provider_draft
  | SwitchToApiKey provider_draft
  | CancelAuthorization

definition customDraft :: "string \<Rightarrow> catalog_preset \<times> provider_draft" where
  "customDraft label =
     (\<lparr>cp_id = ''custom'', cp_label = label, cp_adapter = ''openai-chat'', cp_baseUrl = [], cp_responsesPath = None, cp_defaultModel = None,
       cp_auth = AuthKey, cp_oauthProvider = None\<rparr>,
      \<lparr>pf_name = [], pf_adapter = ''openai-chat'', pf_baseUrl = [], pf_responsesPath = None, pf_authMode = AuthKey, pf_apiKey = [],
       pf_apiKeyTransport = None, pf_defaultModel = [], pf_allowPrivateNetwork = Some False\<rparr>)"

definition clearAuthorization :: "string option \<Rightarrow> session_oauth" where
  "clearAuthorization tosFor = \<lparr>oa_busy = False, oa_notice = [], oa_noticeTone = ToneOk, oa_authorizeUrl = [], oa_authorizeFor = None, oa_tosFor = tosFor\<rparr>"

definition clearManual :: "bool \<Rightarrow> session_manual" where
  "clearManual inFlight = \<lparr>ma_value = [], ma_inFlight = inFlight, ma_notice = [], ma_accepted = True\<rparr>"

definition createAddProviderSession :: "bool \<Rightarrow> string \<Rightarrow> provider_session" where
  "createAddProviderSession initialCustom customLabel =
     \<lparr>ss_selection = (if initialCustom
        then \<lparr>sl_preset = Some (fst (customDraft customLabel)), sl_form = Some (snd (customDraft customLabel)), sl_endpointChoice = ''custom''\<rparr>
        else \<lparr>sl_preset = None, sl_form = None, sl_endpointChoice = ''custom''\<rparr>),
      ss_save = \<lparr>sv_inFlight = False, sv_error = []\<rparr>, ss_oauth = clearAuthorization None, ss_manual = clearManual False\<rparr>"

definition default_to :: "'a option \<Rightarrow> 'a \<Rightarrow> 'a" where
  "default_to v d = (case v of Some x \<Rightarrow> x | None \<Rightarrow> d)"

fun applyAddProviderCommand :: "provider_session \<Rightarrow> provider_command \<Rightarrow> provider_session" where
  "applyAddProviderCommand s (SelectPreset preset form choice) =
     s\<lparr>ss_selection := \<lparr>sl_preset = Some preset, sl_form = Some form, sl_endpointChoice = choice\<rparr>, ss_save := (ss_save s)\<lparr>sv_error := []\<rparr>,
       ss_oauth := clearAuthorization (oa_tosFor (ss_oauth s)), ss_manual := clearManual (ma_inFlight (ss_manual s))\<rparr>"
| "applyAddProviderCommand s ReturnToCatalog =
     s\<lparr>ss_selection := \<lparr>sl_preset = None, sl_form = None, sl_endpointChoice = ''custom''\<rparr>, ss_save := (ss_save s)\<lparr>sv_error := []\<rparr>,
       ss_oauth := clearAuthorization (oa_tosFor (ss_oauth s)), ss_manual := clearManual (ma_inFlight (ss_manual s))\<rparr>"
| "applyAddProviderCommand s (UpdateDraft form) = s\<lparr>ss_selection := (ss_selection s)\<lparr>sl_form := Some form\<rparr>\<rparr>"
| "applyAddProviderCommand s (ChooseEndpoint choice) = s\<lparr>ss_selection := (ss_selection s)\<lparr>sl_endpointChoice := choice\<rparr>\<rparr>"
| "applyAddProviderCommand s StartSaving = s\<lparr>ss_save := (ss_save s)\<lparr>sv_inFlight := True\<rparr>\<rparr>"
| "applyAddProviderCommand s (FinishSaving err) = s\<lparr>ss_save := \<lparr>sv_inFlight = False, sv_error = default_to err (sv_error (ss_save s))\<rparr>\<rparr>"
| "applyAddProviderCommand s (SetSaveError err) = s\<lparr>ss_save := (ss_save s)\<lparr>sv_error := err\<rparr>\<rparr>"
| "applyAddProviderCommand s (StartAuthorization busy) = s\<lparr>ss_oauth := (ss_oauth s)\<lparr>oa_busy := busy\<rparr>\<rparr>"
| "applyAddProviderCommand s (SetAuthorizationNotice notice tn) =
     s\<lparr>ss_oauth := (ss_oauth s)\<lparr>oa_notice := notice, oa_noticeTone := default_to tn (oa_noticeTone (ss_oauth s))\<rparr>\<rparr>"
| "applyAddProviderCommand s (SetAuthorizationTone tn) = s\<lparr>ss_oauth := (ss_oauth s)\<lparr>oa_noticeTone := tn\<rparr>\<rparr>"
| "applyAddProviderCommand s (ReceiveAuthorizationUrl url providerId) =
     (if Option.bind (sl_preset (ss_selection s)) cp_oauthProvider \<noteq> Some providerId then s
      else s\<lparr>ss_oauth := (ss_oauth s)\<lparr>oa_authorizeUrl := url, oa_authorizeFor := Some providerId\<rparr>\<rparr>)"
| "applyAddProviderCommand s (UpdateManualCode code) = s\<lparr>ss_manual := (ss_manual s)\<lparr>ma_value := code\<rparr>\<rparr>"
| "applyAddProviderCommand s (SetManualCodeBusy busy) = s\<lparr>ss_manual := (ss_manual s)\<lparr>ma_inFlight := busy\<rparr>\<rparr>"
| "applyAddProviderCommand s (SetManualCodeNotice notice ok) =
     s\<lparr>ss_manual := (ss_manual s)\<lparr>ma_notice := notice, ma_accepted := default_to ok (ma_accepted (ss_manual s))\<rparr>\<rparr>"
| "applyAddProviderCommand s (ResolveTos providerId) = s\<lparr>ss_oauth := (ss_oauth s)\<lparr>oa_tosFor := providerId\<rparr>\<rparr>"
| "applyAddProviderCommand s (SwitchToOauth form) =
     s\<lparr>ss_selection := (ss_selection s)\<lparr>sl_form := Some form\<rparr>, ss_save := (ss_save s)\<lparr>sv_error := []\<rparr>,
       ss_oauth := (ss_oauth s)\<lparr>oa_authorizeUrl := [], oa_authorizeFor := None\<rparr>\<rparr>"
| "applyAddProviderCommand s (SwitchToApiKey form) =
     s\<lparr>ss_selection := (ss_selection s)\<lparr>sl_form := Some form\<rparr>, ss_oauth := clearAuthorization (oa_tosFor (ss_oauth s)),
       ss_manual := clearManual (ma_inFlight (ss_manual s))\<rparr>"
| "applyAddProviderCommand s CancelAuthorization =
     s\<lparr>ss_oauth := clearAuthorization (oa_tosFor (ss_oauth s)), ss_manual := clearManual (ma_inFlight (ss_manual s))\<rparr>"

section \<open>Answers\<close>

definition UNKNOWN_OAUTH_PROVIDER_ERROR :: string where "UNKNOWN_OAUTH_PROVIDER_ERROR = ''unknown oauth provider''"

record start_payload =
  sp_error :: "string option"
  sp_url :: "string option"
  sp_instructions :: "string option"

definition no_payload :: start_payload where
  "no_payload = \<lparr>sp_error = None, sp_url = None, sp_instructions = None\<rparr>"

datatype oauth_start = UnknownProvider | StartFailed "string option" | OauthOpened string | Instructions "string option"

definition decodeAddProviderOAuthStart :: "bool \<Rightarrow> start_payload \<Rightarrow> oauth_start" where
  "decodeAddProviderOAuthStart ok data =
     (if \<not> ok then (if sp_error data = Some UNKNOWN_OAUTH_PROVIDER_ERROR then UnknownProvider else StartFailed (sp_error data))
      else case sp_url data of
             Some url \<Rightarrow> if url \<noteq> [] then OauthOpened url else Instructions (sp_instructions data)
           | None \<Rightarrow> Instructions (sp_instructions data))"

record status_payload =
  st_loggedIn :: bool
  st_error :: "string option"
  st_pending :: bool

datatype login_tick = TickError string | TickLoggedIn | TickContinue

definition decodeAddProviderOAuthPollTick :: "status_payload option \<Rightarrow> login_tick" where
  "decodeAddProviderOAuthPollTick status =
     (case status of
        None \<Rightarrow> TickContinue
      | Some p \<Rightarrow>
          (case st_error p of
             Some e \<Rightarrow> if e \<noteq> [] then TickError e else if st_pending p then TickContinue else if st_loggedIn p then TickLoggedIn else TickContinue
           | None \<Rightarrow> if st_pending p then TickContinue else if st_loggedIn p then TickLoggedIn else TickContinue))"

definition decodeAddProviderManualCodeFailure :: "string option \<Rightarrow> string \<Rightarrow> string" where
  "decodeAddProviderManualCodeFailure err statusText = (case err of Some e \<Rightarrow> if e \<noteq> [] then e else statusText | None \<Rightarrow> statusText)"

definition busy_from :: "string \<Rightarrow> bool" where
  "busy_from s \<longleftrightarrow> starts_with s ''login for '' \<and>
     (let rest = drop 10 s in
      list_ex (\<lambda>k. starts_with (drop k rest) '' is already in progress'' \<and> CHR 0x0A \<notin> set (take k rest) \<and> CHR 0x0D \<notin> set (take k rest))
        [1..<Suc (length rest)])"

definition isOAuthLoginBusyError :: "string option \<Rightarrow> bool" where
  "isOAuthLoginBusyError err = (case err of None \<Rightarrow> False | Some e \<Rightarrow> list_ex (\<lambda>k. busy_from (drop k (to_lower e))) [0..<Suc (length e)])"

definition addProviderOAuthAttemptStale :: "nat \<Rightarrow> nat \<Rightarrow> bool" where
  "addProviderOAuthAttemptStale started current \<longleftrightarrow> started \<noteq> current"

section \<open>The login hook\<close>

definition OAUTH_LOGIN_POLL_TICKS :: nat where "OAUTH_LOGIN_POLL_TICKS = 100"

datatype run_phase = Starting | CancellingBusy | Restarting | DroppingStale | Aborting | Sleeping nat | Polling nat

record login_run =
  rn_attempt :: nat
  rn_provider :: string
  rn_phase :: run_phase

datatype login_post = PostLogin string | PostCancel string | PostCode string string

record login_desk =
  pd_session :: provider_session
  pd_alive :: bool
  pd_attempt :: nat
  pd_pending :: "string option"
  pd_popup :: "nat option"
  pd_windows :: "nat list"
  pd_runs :: "login_run list"
  pd_codes :: "string list"
  pd_added :: "string list"
  pd_posts :: "login_post list"

type_synonym translator = "string \<Rightarrow> string list \<Rightarrow> string"

definition dispatch_session :: "provider_command list \<Rightarrow> login_desk \<Rightarrow> login_desk" where
  "dispatch_session cs d = d\<lparr>pd_session := foldl applyAddProviderCommand (pd_session d) cs\<rparr>"

definition attemptIsCurrent :: "login_run \<Rightarrow> login_desk \<Rightarrow> bool" where
  "attemptIsCurrent r d \<longleftrightarrow> \<not> addProviderOAuthAttemptStale (rn_attempt r) (pd_attempt d)"

definition popup_close :: "nat \<Rightarrow> login_desk \<Rightarrow> login_desk" where
  "popup_close w d = d\<lparr>pd_windows := removeAll w (pd_windows d)\<rparr>"

definition close_current :: "login_desk \<Rightarrow> login_desk" where
  "close_current d = (case pd_popup d of Some w \<Rightarrow> popup_close w d | None \<Rightarrow> d)"

text \<open>\<^verbatim>\<open>cancelPendingLogin\<close> up to its request, which nobody waits for.\<close>

definition cancelPendingLogin :: "login_desk \<Rightarrow> login_desk" where
  "cancelPendingLogin d =
     (let d1 = (close_current (d\<lparr>pd_attempt := pd_attempt d + 1, pd_pending := None\<rparr>))\<lparr>pd_popup := None\<rparr> in
      case pd_pending d of None \<Rightarrow> d1 | Some provider \<Rightarrow> d1\<lparr>pd_posts := pd_posts d1 @ [PostCancel provider]\<rparr>)"

definition resetOAuthAttemptFields :: "string \<Rightarrow> string \<Rightarrow> login_desk \<Rightarrow> login_desk" where
  "resetOAuthAttemptFields currentManualNotice providerId d =
     dispatch_session [StartAuthorization True, SetAuthorizationNotice [] None, SetAuthorizationTone ToneOk, ReceiveAuthorizationUrl [] providerId,
           UpdateManualCode [], SetManualCodeNotice [] None, SetManualCodeNotice currentManualNotice (Some True)] d"

definition loginOAuth :: "string \<Rightarrow> login_desk \<Rightarrow> login_desk" where
  "loginOAuth providerId d =
     (let d1 = resetOAuthAttemptFields (ma_notice (ss_manual (pd_session d))) providerId d;
          d2 = close_current d1;
          n = pd_attempt d2 + 1
      in d2\<lparr>pd_attempt := n, pd_popup := Some n, pd_windows := n # pd_windows d2,
            pd_runs := pd_runs d2 @ [\<lparr>rn_attempt = n, rn_provider = providerId, rn_phase = Starting\<rparr>],
            pd_posts := pd_posts d2 @ [PostLogin providerId]\<rparr>)"

definition run_moves :: "login_run \<Rightarrow> run_phase \<Rightarrow> login_desk \<Rightarrow> login_desk" where
  "run_moves r ph d = d\<lparr>pd_runs := map (\<lambda>x. if x = r then r\<lparr>rn_phase := ph\<rparr> else x) (pd_runs d)\<rparr>"

text \<open>The \<^verbatim>\<open>finally\<close> block; the run is over.\<close>

definition run_ends :: "login_run \<Rightarrow> login_desk \<Rightarrow> login_desk" where
  "run_ends r d =
     (let d1 = d\<lparr>pd_runs := removeAll r (pd_runs d)\<rparr> in
      if pd_alive d1 \<and> attemptIsCurrent r d1 then dispatch_session [StartAuthorization False] (d1\<lparr>pd_pending := None\<rparr>) else d1)"

definition drop_popup :: "login_run \<Rightarrow> login_desk \<Rightarrow> login_desk" where
  "drop_popup r d = (popup_close (rn_attempt r) d)\<lparr>pd_popup := None\<rparr>"

definition run_fails :: "translator \<Rightarrow> login_run \<Rightarrow> login_desk \<Rightarrow> login_desk" where
  "run_fails t r d =
     (if \<not> attemptIsCurrent r d then run_ends r d
      else let d1 = drop_popup r d;
               d2 = (if pd_alive d1 then dispatch_session [SetAuthorizationTone ToneWarn, SetAuthorizationNotice (t ''modal.networkError'' []) None] d1 else d1)
           in run_ends r d2)"

definition publishOAuthStart :: "translator \<Rightarrow> login_run \<Rightarrow> bool \<Rightarrow> start_payload \<Rightarrow> login_desk \<Rightarrow> bool \<times> login_desk" where
  "publishOAuthStart t r ok data d =
     (case decodeAddProviderOAuthStart ok data of
        UnknownProvider \<Rightarrow> (False, dispatch_session [SetAuthorizationTone ToneWarn, SetAuthorizationNotice (t ''modal.oauthComingSoonShort'' []) None] d)
      | StartFailed err \<Rightarrow>
          (False, dispatch_session [SetAuthorizationTone ToneWarn,
             SetAuthorizationNotice (case err of Some e \<Rightarrow> if e \<noteq> [] then e else t ''modal.loginFailStart'' [] | None \<Rightarrow> t ''modal.loginFailStart'' []) None] d)
      | OauthOpened url \<Rightarrow> (True, dispatch_session [ReceiveAuthorizationUrl url (rn_provider r), SetAuthorizationNotice (t ''modal.waitingLogin'' []) None] d)
      | Instructions ins \<Rightarrow>
          (True, dispatch_session [SetAuthorizationNotice (case ins of Some i \<Rightarrow> if i \<noteq> [] then i else t ''modal.loggingIn'' [] | None \<Rightarrow> t ''modal.loggingIn'' []) None] d))"

definition run_started :: "translator \<Rightarrow> login_run \<Rightarrow> bool \<Rightarrow> start_payload \<Rightarrow> login_desk \<Rightarrow> login_desk" where
  "run_started t r ok data d =
     (if \<not> attemptIsCurrent r d
      then (if ok then (run_moves r DroppingStale d)\<lparr>pd_posts := pd_posts d @ [PostCancel (rn_provider r)]\<rparr> else run_ends r (drop_popup r d))
      else let d1 = (if ok then d\<lparr>pd_pending := Some (rn_provider r)\<rparr> else d) in
        if \<not> pd_alive d1 then run_moves r Aborting (cancelPendingLogin d1)
        else let (going, d2) = publishOAuthStart t r ok data d1 in
          if \<not> going then run_ends r (drop_popup r d2)
          else run_moves r (Sleeping 0) (if trim (default_to (sp_url data) []) \<noteq> [] then d2\<lparr>pd_windows := List.insert (rn_attempt r) (pd_windows d2)\<rparr> else d2))"

datatype start_answer = StartThrows | StartAnswers bool start_payload

definition start_answers :: "translator \<Rightarrow> login_run \<Rightarrow> start_answer \<Rightarrow> login_desk \<Rightarrow> login_desk" where
  "start_answers t r answer d =
     (case answer of
        StartThrows \<Rightarrow> run_fails t r d
      | StartAnswers ok data \<Rightarrow>
          if \<not> ok \<and> rn_phase r = Starting \<and> isOAuthLoginBusyError (sp_error data)
          then (run_moves r CancellingBusy d)\<lparr>pd_posts := pd_posts d @ [PostCancel (rn_provider r)]\<rparr>
          else run_started t r ok data d)"

definition busy_cancelled :: "login_run \<Rightarrow> login_desk \<Rightarrow> login_desk" where
  "busy_cancelled r d = (run_moves r Restarting d)\<lparr>pd_posts := pd_posts d @ [PostLogin (rn_provider r)]\<rparr>"

definition stale_dropped :: "login_run \<Rightarrow> login_desk \<Rightarrow> login_desk" where
  "stale_dropped r d = run_ends r (drop_popup r d)"

definition run_settled :: "login_run \<Rightarrow> bool \<Rightarrow> login_desk \<Rightarrow> login_desk" where
  "run_settled r logged_in d =
     (if attemptIsCurrent r d \<and> logged_in then run_ends r (d\<lparr>pd_pending := None, pd_added := pd_added d @ [rn_provider r]\<rparr>) else run_ends r d)"

definition await_tick :: "translator \<Rightarrow> login_run \<Rightarrow> nat \<Rightarrow> login_desk \<Rightarrow> login_desk" where
  "await_tick t r tick d =
     (if tick < OAUTH_LOGIN_POLL_TICKS then run_moves r (Sleeping tick) d
      else if \<not> pd_alive d \<or> \<not> attemptIsCurrent r d then run_settled r False d
      else run_settled r False (dispatch_session [SetAuthorizationTone ToneWarn, SetAuthorizationNotice (t ''modal.loginTimeout'' []) None] d))"

definition run_wakes :: "login_run \<Rightarrow> nat \<Rightarrow> login_desk \<Rightarrow> login_desk" where
  "run_wakes r tick d = (if \<not> pd_alive d \<or> \<not> attemptIsCurrent r d then run_settled r False d else run_moves r (Polling tick) d)"

definition status_answers :: "translator \<Rightarrow> login_run \<Rightarrow> nat \<Rightarrow> status_payload option \<Rightarrow> login_desk \<Rightarrow> login_desk" where
  "status_answers t r tick payload d =
     (if \<not> attemptIsCurrent r d \<or> \<not> pd_alive d then await_tick t r (tick + 1) d
      else case decodeAddProviderOAuthPollTick payload of
             TickError e \<Rightarrow> run_settled r False (dispatch_session [SetAuthorizationTone ToneWarn, SetAuthorizationNotice (t ''modal.loginError'' [e]) None] d)
           | TickLoggedIn \<Rightarrow> run_settled r True d
           | TickContinue \<Rightarrow> await_tick t r (tick + 1) d)"

section \<open>Pasted codes\<close>

datatype paste_answer = CodeThrows | CodeAnswers bool "string option" string

definition submitManualCode_begins :: "string \<Rightarrow> login_desk \<Rightarrow> login_desk" where
  "submitManualCode_begins providerId d =
     (let m = ss_manual (pd_session d); input = trim (ma_value m) in
      if input = [] \<or> ma_inFlight m then d
      else (dispatch_session [SetManualCodeBusy True, SetManualCodeNotice [] None] d)\<lparr>pd_codes := pd_codes d @ [ma_notice m], pd_posts := pd_posts d @ [PostCode providerId input]\<rparr>)"

definition submitManualCode_answers :: "translator \<Rightarrow> string \<Rightarrow> paste_answer \<Rightarrow> login_desk \<Rightarrow> login_desk" where
  "submitManualCode_answers t captured answer d =
     (let d1 = d\<lparr>pd_codes := remove1 captured (pd_codes d)\<rparr> in
      if \<not> pd_alive d1 then d1
      else case answer of
             CodeThrows \<Rightarrow> dispatch_session [SetManualCodeNotice captured (Some False), SetManualCodeNotice (t ''modal.networkError'' []) None, SetManualCodeBusy False] d1
           | CodeAnswers ok err statusText \<Rightarrow>
               if \<not> ok then dispatch_session [SetManualCodeNotice captured (Some False),
                  SetManualCodeNotice (t ''prov.pasteFail'' [decodeAddProviderManualCodeFailure err statusText]) None, SetManualCodeBusy False] d1
               else dispatch_session [UpdateManualCode [], SetManualCodeNotice captured (Some True), SetManualCodeNotice (t ''prov.pasteOk'' []) None, SetManualCodeBusy False] d1)"

section \<open>The dialog\<close>

definition choosePreset :: "catalog_preset \<Rightarrow> provider_draft \<Rightarrow> string \<Rightarrow> login_desk \<Rightarrow> login_desk" where
  "choosePreset candidate form choiceId d = dispatch_session [SelectPreset candidate form choiceId] (cancelPendingLogin d)"

definition requestLoginOAuth :: "(string \<Rightarrow> bool) \<Rightarrow> string \<Rightarrow> login_desk \<Rightarrow> login_desk" where
  "requestLoginOAuth oauthTosRisk providerId d =
     (if oa_busy (ss_oauth (pd_session d)) then d
      else if oauthTosRisk providerId then dispatch_session [ResolveTos (Some providerId)] d
      else loginOAuth providerId d)"

definition tos_continue :: "string \<Rightarrow> login_desk \<Rightarrow> login_desk" where
  "tos_continue providerId d = loginOAuth providerId (dispatch_session [ResolveTos None] d)"

definition onCancelLogin :: "login_desk \<Rightarrow> login_desk" where
  "onCancelLogin d = dispatch_session [CancelAuthorization] (cancelPendingLogin d)"

definition runBack :: "login_desk \<Rightarrow> login_desk" where
  "runBack d = cancelPendingLogin d"

definition dialog_closes :: "login_desk \<Rightarrow> login_desk" where
  "dialog_closes d = cancelPendingLogin (d\<lparr>pd_alive := False\<rparr>)"

section \<open>Every order of answers\<close>

inductive run_step :: "translator \<Rightarrow> login_run \<Rightarrow> login_desk \<Rightarrow> login_desk \<Rightarrow> bool" for t r d where
  rs_start: "rn_phase r = Starting \<or> rn_phase r = Restarting \<Longrightarrow> run_step t r d (start_answers t r answer d)"
| rs_cancelled: "rn_phase r = CancellingBusy \<Longrightarrow> run_step t r d (busy_cancelled r d)"
| rs_stale: "rn_phase r = DroppingStale \<Longrightarrow> run_step t r d (stale_dropped r d)"
| rs_abort: "rn_phase r = Aborting \<Longrightarrow> run_step t r d (run_ends r d)"
| rs_wake: "rn_phase r = Sleeping n \<Longrightarrow> run_step t r d (run_wakes r n d)"
| rs_status: "rn_phase r = Polling n \<Longrightarrow> run_step t r d (status_answers t r n payload d)"

fun dialog_command :: "provider_command \<Rightarrow> bool" where
  "dialog_command (StartAuthorization _) = False"
| "dialog_command (SetAuthorizationNotice _ _) = False"
| "dialog_command (SetAuthorizationTone _) = False"
| "dialog_command (ReceiveAuthorizationUrl _ _) = False"
| "dialog_command (SelectPreset _ _ _) = False"
| "dialog_command CancelAuthorization = False"
| "dialog_command _ = True"

inductive provider_step :: "translator \<Rightarrow> login_desk \<Rightarrow> login_desk \<Rightarrow> bool" for t where
  pv_run: "r \<in> set (pd_runs d) \<Longrightarrow> run_step t r d d' \<Longrightarrow> provider_step t d d'"
| pv_command: "pd_alive d \<Longrightarrow> dialog_command c \<Longrightarrow> provider_step t d (dispatch_session [c] d)"
| pv_choose: "pd_alive d \<Longrightarrow> provider_step t d (choosePreset candidate form choice d)"
| pv_request: "pd_alive d \<Longrightarrow> provider_step t d (requestLoginOAuth risk p d)"
| pv_tos: "pd_alive d \<Longrightarrow> oa_tosFor (ss_oauth (pd_session d)) = Some p \<Longrightarrow> provider_step t d (tos_continue p d)"
| pv_cancel: "pd_alive d \<Longrightarrow> provider_step t d (onCancelLogin d)"
| pv_code: "pd_alive d \<Longrightarrow> provider_step t d (submitManualCode_begins p d)"
| pv_code_answer: "c \<in> set (pd_codes d) \<Longrightarrow> provider_step t d (submitManualCode_answers t c answer d)"
| pv_close: "pd_alive d \<Longrightarrow> provider_step t d (dialog_closes d)"
| pv_back: "pd_alive d \<Longrightarrow> \<not> oa_busy (ss_oauth (pd_session d)) \<Longrightarrow> provider_step t d (runBack d)"

definition provider_init :: "login_desk \<Rightarrow> bool" where
  "provider_init d \<longleftrightarrow> (\<exists>initialCustom label. pd_session d = createAddProviderSession initialCustom label) \<and> pd_alive d \<and> pd_attempt d = 0
     \<and> pd_pending d = None \<and> pd_popup d = None \<and> pd_windows d = [] \<and> pd_runs d = [] \<and> pd_codes d = [] \<and> pd_added d = [] \<and> pd_posts d = []"

section \<open>Superseded attempts\<close>

definition owned :: "login_desk \<Rightarrow> provider_session \<times> bool \<times> nat \<times> string option \<times> string list" where
  "owned d = (pd_session d, pd_alive d, pd_attempt d, pd_pending d, pd_added d)"

lemma close_frame [simp]:
  "owned (popup_close w d) = owned d" "pd_runs (popup_close w d) = pd_runs d" "owned (drop_popup r d) = owned d" "pd_runs (drop_popup r d) = pd_runs d"
  "pd_session (close_current d) = pd_session d" "pd_attempt (close_current d) = pd_attempt d" "pd_runs (close_current d) = pd_runs d"
  "pd_alive (close_current d) = pd_alive d" "pd_pending (close_current d) = pd_pending d" "pd_added (close_current d) = pd_added d"
  by (auto simp: owned_def popup_close_def drop_popup_def close_current_def split: option.split)

lemma send_frame [simp]:
  "pd_runs (dispatch_session cs d) = pd_runs d" "pd_alive (dispatch_session cs d) = pd_alive d" "pd_attempt (dispatch_session cs d) = pd_attempt d"
  "pd_pending (dispatch_session cs d) = pd_pending d" "pd_added (dispatch_session cs d) = pd_added d"
  by (simp_all add: dispatch_session_def)

lemma current_iff: "attemptIsCurrent r d \<longleftrightarrow> rn_attempt r = pd_attempt d"
  by (simp add: attemptIsCurrent_def addProviderOAuthAttemptStale_def)

lemma stale_ends: "rn_attempt r \<noteq> pd_attempt d \<Longrightarrow> owned (run_ends r d) = owned d"
  by (simp add: run_ends_def owned_def current_iff Let_def)

lemma owned_attempt: "owned d = owned d' \<Longrightarrow> pd_attempt d = pd_attempt d'"
  by (simp add: owned_def)

lemma stale_settled: "rn_attempt r \<noteq> pd_attempt d \<Longrightarrow> owned (run_settled r logged d) = owned d"
  by (simp add: run_settled_def stale_ends current_iff)

lemma stale_dropped_ends: "rn_attempt r \<noteq> pd_attempt d \<Longrightarrow> owned (run_ends r (drop_popup r d)) = owned d"
  using stale_ends [of r "drop_popup r d"] owned_attempt [of "drop_popup r d" d] by simp

lemma stale_await: "rn_attempt r \<noteq> pd_attempt d \<Longrightarrow> owned (await_tick t r tick d) = owned d"
  by (simp add: await_tick_def current_iff stale_settled) (simp add: run_moves_def owned_def)

lemma stale_run_inert:
  assumes "run_step t r d d'" "rn_attempt r \<noteq> pd_attempt d"
  shows "owned d' = owned d"
  using assms(1)
proof cases
  case (rs_start answer)
  then show ?thesis using assms(2)
    by (auto simp: start_answers_def run_fails_def run_started_def current_iff stale_ends stale_dropped_ends run_moves_def split: start_answer.split)
       (simp_all add: owned_def)
next
  case rs_cancelled
  then show ?thesis by (simp add: busy_cancelled_def run_moves_def owned_def)
next
  case (rs_wake n)
  then show ?thesis using assms(2) by (simp add: run_wakes_def current_iff stale_settled)
next
  case (rs_status n payload)
  then show ?thesis using assms(2) by (simp add: status_answers_def current_iff stale_await)
qed (use assms(2) in \<open>simp_all add: stale_dropped_def stale_ends stale_dropped_ends\<close>)

section \<open>Attempts end\<close>

fun phase_rank :: "run_phase \<Rightarrow> nat" where
  "phase_rank Starting = 2 * OAUTH_LOGIN_POLL_TICKS + 5"
| "phase_rank CancellingBusy = 2 * OAUTH_LOGIN_POLL_TICKS + 4"
| "phase_rank Restarting = 2 * OAUTH_LOGIN_POLL_TICKS + 3"
| "phase_rank DroppingStale = 1"
| "phase_rank Aborting = 1"
| "phase_rank (Sleeping n) = 2 * (OAUTH_LOGIN_POLL_TICKS - n) + 2"
| "phase_rank (Polling n) = 2 * (OAUTH_LOGIN_POLL_TICKS - n) + 1"

definition moved :: "login_run \<Rightarrow> run_phase \<Rightarrow> login_run list \<Rightarrow> login_run list" where
  "moved r ph runs = map (\<lambda>x. if x = r then r\<lparr>rn_phase := ph\<rparr> else x) runs"

definition progress :: "login_run \<Rightarrow> login_desk \<Rightarrow> login_desk \<Rightarrow> bool" where
  "progress r d d' \<longleftrightarrow> pd_runs d' = removeAll r (pd_runs d) \<or> (\<exists>ph. phase_rank ph < phase_rank (rn_phase r) \<and> pd_runs d' = moved r ph (pd_runs d))"

lemma runs_frame [simp]:
  "pd_runs (run_ends r d) = removeAll r (pd_runs d)" "pd_runs (run_moves r ph d) = moved r ph (pd_runs d)"
  "pd_runs (run_settled r l d) = removeAll r (pd_runs d)" "pd_runs (run_fails t r d) = removeAll r (pd_runs d)"
  "pd_runs (cancelPendingLogin d) = pd_runs d" "pd_runs (snd (publishOAuthStart t r ok data d)) = pd_runs d"
  by (auto simp: run_ends_def run_moves_def moved_def run_settled_def run_fails_def cancelPendingLogin_def publishOAuthStart_def Let_def
      split: option.split oauth_start.split)

lemma ticks_pos: "0 < OAUTH_LOGIN_POLL_TICKS"
  by (simp add: OAUTH_LOGIN_POLL_TICKS_def)

lemma progress_end: "pd_runs d' = removeAll r (pd_runs d) \<Longrightarrow> progress r d d'"
  by (simp add: progress_def)

lemma progress_move: "phase_rank ph < phase_rank (rn_phase r) \<Longrightarrow> pd_runs d' = moved r ph (pd_runs d) \<Longrightarrow> progress r d d'"
  by (auto simp: progress_def)

lemma started_runs:
  "pd_runs (run_started t r ok data d) \<in> {removeAll r (pd_runs d), moved r DroppingStale (pd_runs d), moved r Aborting (pd_runs d), moved r (Sleeping 0) (pd_runs d)}"
  unfolding run_started_def Let_def case_prod_beta by (simp split: if_split)

lemma started_progress:
  assumes "rn_phase r = Starting \<or> rn_phase r = Restarting"
  shows "progress r d (run_started t r ok data d)"
proof -
  have rank: "phase_rank ph < phase_rank (rn_phase r)" if "ph \<in> {DroppingStale, Aborting, Sleeping 0}" for ph
    using assms that by auto
  from started_runs [of t r ok data d] show ?thesis
    using progress_end [of _ r d] progress_move [OF rank, of DroppingStale] progress_move [OF rank, of Aborting] progress_move [OF rank, of "Sleeping 0"]
    by auto
qed

lemma run_progress: "run_step t r d d' \<Longrightarrow> progress r d d'"
proof (induction rule: run_step.induct)
  case (rs_start answer)
  show ?case
  proof (cases answer)
    case (StartAnswers ok data)
    then show ?thesis using rs_start started_progress [OF rs_start]
      by (auto simp: start_answers_def intro!: progress_move [of CancellingBusy])
  qed (auto simp: start_answers_def intro: progress_end)
next
  case rs_cancelled
  then show ?case by (auto simp: busy_cancelled_def intro!: progress_move [of Restarting])
next
  case (rs_wake n)
  then have "phase_rank (Polling n) < phase_rank (rn_phase r)" by simp
  then show ?case by (simp add: run_wakes_def progress_end progress_move [of "Polling n"])
next
  case (rs_status n payload)
  have "phase_rank (Sleeping (n + 1)) < phase_rank (rn_phase r)" if "n + 1 < OAUTH_LOGIN_POLL_TICKS"
    using that rs_status by (simp add: OAUTH_LOGIN_POLL_TICKS_def)
  then have "progress r d (await_tick t r (n + 1) d)"
    by (simp add: await_tick_def progress_end progress_move [of "Sleeping (n + 1)"])
  then show ?case by (simp add: status_answers_def progress_end split: login_tick.split)
qed (auto simp: stale_dropped_def intro: progress_end)

text \<open>C26: A login of the add-provider dialog ends and, once superseded, touches nothing. Every answer to an attempt either finishes it or
  lowers a rank that starts at most at 205, so it waits through at most a hundred status checks; and an attempt that was cancelled or
  replaced leaves the dialog's session, the pending login and the list of added providers exactly as they are, whatever it
  is answered.\<close>

theorem superseded_login_inert:
  assumes "run_step t r d d'"
  shows "(pd_runs d' = removeAll r (pd_runs d) \<or> (\<exists>ph. phase_rank ph < phase_rank (rn_phase r) \<and> pd_runs d' = moved r ph (pd_runs d)))
    \<and> phase_rank (rn_phase r) \<le> 205
    \<and> (rn_attempt r \<noteq> pd_attempt d \<longrightarrow> pd_session d' = pd_session d \<and> pd_pending d' = pd_pending d \<and> pd_added d' = pd_added d)"
proof (intro conjI impI)
  show "pd_runs d' = removeAll r (pd_runs d) \<or> (\<exists>ph. phase_rank ph < phase_rank (rn_phase r) \<and> pd_runs d' = moved r ph (pd_runs d))"
    using run_progress [OF assms] by (simp add: progress_def)
  show "phase_rank (rn_phase r) \<le> 205" by (cases "rn_phase r") (simp_all add: OAUTH_LOGIN_POLL_TICKS_def)
  assume "rn_attempt r \<noteq> pd_attempt d"
  from stale_run_inert [OF assms this] show "pd_session d' = pd_session d" "pd_pending d' = pd_pending d" "pd_added d' = pd_added d"
    by (simp_all add: owned_def)
qed

section \<open>The dialog's state\<close>

definition login_busy :: "login_desk \<Rightarrow> bool" where
  "login_busy d = oa_busy (ss_oauth (pd_session d))"

definition own_link :: "provider_session \<Rightarrow> bool" where
  "own_link s \<longleftrightarrow> (\<forall>p. oa_authorizeFor (ss_oauth s) = Some p \<longrightarrow> Option.bind (sl_preset (ss_selection s)) cp_oauthProvider = Some p)"

lemma own_link_command: "own_link s \<Longrightarrow> own_link (applyAddProviderCommand s c)"
  by (cases c) (auto simp: own_link_def clearAuthorization_def)

lemma own_link_fold: "own_link s \<Longrightarrow> own_link (foldl applyAddProviderCommand s cs)"
  by (induction cs arbitrary: s) (simp_all add: own_link_command)

definition by_commands :: "login_desk \<Rightarrow> login_desk \<Rightarrow> bool" where
  "by_commands d d' \<longleftrightarrow> (\<exists>cs. pd_session d' = foldl applyAddProviderCommand (pd_session d) cs)"

lemma by_commands_same: "pd_session d' = pd_session d \<Longrightarrow> by_commands d d'"
  unfolding by_commands_def by (rule exI [of _ "[]"]) simp

lemma by_commands_send: "by_commands d d' \<Longrightarrow> by_commands d (dispatch_session cs d')"
  unfolding by_commands_def dispatch_session_def by (metis foldl_append login_desk.select_convs(1) login_desk.surjective login_desk.update_convs(1))

lemma by_commands_trans: "by_commands d e \<Longrightarrow> pd_session e' = pd_session e \<Longrightarrow> by_commands d e'"
  by (simp add: by_commands_def)

lemma session_frame [simp]:
  "pd_session (popup_close w d) = pd_session d" "pd_session (drop_popup r d) = pd_session d" "pd_session (run_moves r ph d) = pd_session d"
  "pd_session (cancelPendingLogin d) = pd_session d"
  by (simp_all add: popup_close_def drop_popup_def run_moves_def cancelPendingLogin_def Let_def split: option.split)

lemma by_commands_ends: "by_commands d e \<Longrightarrow> by_commands d (run_ends r e)"
  by (auto simp: run_ends_def Let_def intro!: by_commands_send intro: by_commands_trans)

lemma by_commands_frame:
  "by_commands d d"
  "by_commands d e \<Longrightarrow> by_commands d (run_moves r ph e)" "by_commands d e \<Longrightarrow> by_commands d (drop_popup r e)"
  "by_commands d e \<Longrightarrow> by_commands d (cancelPendingLogin e)" "by_commands d e \<Longrightarrow> by_commands d (close_current e)"
  "by_commands d e \<Longrightarrow> by_commands d (e\<lparr>pd_posts := ps\<rparr>)" "by_commands d e \<Longrightarrow> by_commands d (e\<lparr>pd_pending := p\<rparr>)"
  "by_commands d e \<Longrightarrow> by_commands d (e\<lparr>pd_windows := ws\<rparr>)" "by_commands d e \<Longrightarrow> by_commands d (e\<lparr>pd_added := as\<rparr>)"
  "by_commands d e \<Longrightarrow> by_commands d (e\<lparr>pd_runs := rs\<rparr>)" "by_commands d e \<Longrightarrow> by_commands d (e\<lparr>pd_codes := cs\<rparr>)"
  "by_commands d e \<Longrightarrow> by_commands d (e\<lparr>pd_alive := b\<rparr>)" "by_commands d e \<Longrightarrow> by_commands d (e\<lparr>pd_attempt := n\<rparr>)"
  "by_commands d e \<Longrightarrow> by_commands d (e\<lparr>pd_popup := w\<rparr>)"
  by (auto intro: by_commands_trans by_commands_same)

lemmas commands_intros = by_commands_frame by_commands_send by_commands_ends

lemma by_commands_publish: "by_commands d e \<Longrightarrow> by_commands d (snd (publishOAuthStart t r ok data e))"
  by (simp add: publishOAuthStart_def by_commands_send split: oauth_start.split)

lemma by_commands_settled: "by_commands d e \<Longrightarrow> by_commands d (run_settled r l e)"
  by (simp add: run_settled_def commands_intros)

lemma by_commands_await: "by_commands d e \<Longrightarrow> by_commands d (await_tick t r n e)"
  by (simp add: await_tick_def commands_intros by_commands_settled)

lemma run_by_commands: "run_step t r d d' \<Longrightarrow> by_commands d d'"
proof (induction rule: run_step.induct)
  case (rs_start answer)
  show ?case
    by (cases answer) (auto simp: start_answers_def run_fails_def run_started_def Let_def case_prod_beta intro!: commands_intros by_commands_publish)
next
  case (rs_status n payload)
  show ?case by (simp add: status_answers_def commands_intros by_commands_settled by_commands_await split: login_tick.split)
qed (auto simp: busy_cancelled_def stale_dropped_def run_wakes_def intro!: commands_intros by_commands_settled)

lemma login_by_commands: "by_commands d e \<Longrightarrow> by_commands d (loginOAuth p e)"
  by (simp add: loginOAuth_def Let_def resetOAuthAttemptFields_def commands_intros)

lemma step_by_commands: "provider_step t d d' \<Longrightarrow> by_commands d d'"
proof (induction rule: provider_step.induct)
  case (pv_run r d d')
  then show ?case using run_by_commands by blast
qed (auto simp: choosePreset_def requestLoginOAuth_def tos_continue_def onCancelLogin_def submitManualCode_begins_def submitManualCode_answers_def
      dialog_closes_def runBack_def Let_def intro!: commands_intros login_by_commands split: paste_answer.split)

lemma own_link_step: "provider_step t d d' \<Longrightarrow> own_link (pd_session d) \<Longrightarrow> own_link (pd_session d')"
  using step_by_commands [of t d d'] own_link_fold by (auto simp: by_commands_def)

section \<open>Busy and pending\<close>

definition current_run :: "login_desk \<Rightarrow> login_run \<Rightarrow> bool" where
  "current_run d r \<longleftrightarrow> r \<in> set (pd_runs d) \<and> rn_attempt r = pd_attempt d"

definition dialog_ok :: "login_desk \<Rightarrow> bool" where
  "dialog_ok d \<longleftrightarrow> (\<forall>r \<in> set (pd_runs d). rn_attempt r \<le> pd_attempt d) \<and> distinct (map rn_attempt (pd_runs d))
     \<and> (pd_alive d \<and> login_busy d \<longrightarrow> (\<exists>r. current_run d r))
     \<and> (pd_pending d \<noteq> None \<longrightarrow> (\<exists>r. current_run d r))
     \<and> (\<not> pd_alive d \<longrightarrow> (\<forall>r. \<not> current_run d r))"

text \<open>The current attempt's own answer: it goes on, or it ends and releases the flag and the pending login.\<close>

definition released :: "login_run \<Rightarrow> login_desk \<Rightarrow> login_desk \<Rightarrow> bool" where
  "released r d d' \<longleftrightarrow> pd_attempt d' = pd_attempt d \<and> pd_alive d' \<and>
     (pd_runs d' = removeAll r (pd_runs d) \<and> \<not> login_busy d' \<and> pd_pending d' = None
      \<or> (\<exists>ph. pd_runs d' = moved r ph (pd_runs d)) \<and> (pd_pending d' = pd_pending d \<or> pd_pending d' = Some (rn_provider r)))"

lemma popup_frame [simp]:
  "pd_attempt (drop_popup r d) = pd_attempt d" "pd_alive (drop_popup r d) = pd_alive d" "pd_pending (drop_popup r d) = pd_pending d"
  "pd_attempt (run_moves r ph d) = pd_attempt d" "pd_alive (run_moves r ph d) = pd_alive d" "pd_pending (run_moves r ph d) = pd_pending d"
  by (simp_all add: drop_popup_def popup_close_def run_moves_def)

lemma ends_released:
  assumes "rn_attempt r = pd_attempt d" "pd_alive e" "pd_attempt e = pd_attempt d" "pd_runs e = pd_runs d"
  shows "released r d (run_ends r e)"
  using assms by (simp add: released_def run_ends_def current_iff login_busy_def dispatch_session_def)

lemma settled_released:
  assumes "rn_attempt r = pd_attempt d" "pd_alive e" "pd_attempt e = pd_attempt d" "pd_runs e = pd_runs d"
  shows "released r d (run_settled r l e)"
  using assms by (simp add: run_settled_def ends_released)

lemma moves_released:
  assumes "pd_alive e" "pd_attempt e = pd_attempt d" "pd_runs e = moved r ph (pd_runs d)" "pd_pending e = pd_pending d \<or> pd_pending e = Some (rn_provider r)"
  shows "released r d e"
  using assms by (auto simp: released_def)

lemma publish_start_frame [simp]:
  "pd_attempt (snd (publishOAuthStart t r ok data d)) = pd_attempt d" "pd_alive (snd (publishOAuthStart t r ok data d)) = pd_alive d"
  "pd_pending (snd (publishOAuthStart t r ok data d)) = pd_pending d"
  by (simp_all add: publishOAuthStart_def split: oauth_start.split)

lemma current_released:
  assumes "run_step t r d d'" "rn_attempt r = pd_attempt d" "pd_alive d"
  shows "released r d d'"
  using assms(1)
proof cases
  case (rs_start answer)
  show ?thesis
  proof (cases answer)
    case StartThrows
    then show ?thesis using rs_start assms(2,3)
      by (simp add: start_answers_def run_fails_def current_iff Let_def ends_released)
  next
    case (StartAnswers ok data)
    have "released r d (run_started t r ok data d)"
      unfolding run_started_def Let_def case_prod_beta using assms(2,3)
      by (auto simp: current_iff intro!: ends_released intro: moves_released)
    then show ?thesis using rs_start StartAnswers assms(2,3) by (auto simp: start_answers_def intro: moves_released)
  qed
next
  case rs_cancelled
  then show ?thesis using assms(3) by (auto simp: busy_cancelled_def intro: moves_released)
next
  case (rs_wake n)
  then show ?thesis using assms(2,3) by (auto simp: run_wakes_def current_iff intro: moves_released)
next
  case (rs_status n payload)
  have "released r d (await_tick t r k d)" for k
    using assms(2,3) by (auto simp: await_tick_def current_iff intro: moves_released settled_released)
  then show ?thesis using rs_status assms(2,3)
    by (auto simp: status_answers_def current_iff intro: settled_released split: login_tick.split)
qed (use assms(2,3) in \<open>auto simp: stale_dropped_def intro: ends_released\<close>)

lemma moved_facts:
  assumes "distinct (map rn_attempt runs)" "r \<in> set runs"
  shows "map rn_attempt (moved r ph runs) = map rn_attempt runs" "set (moved r ph runs) = insert (r\<lparr>rn_phase := ph\<rparr>) (set runs - {r})"
  using assms by (auto simp: moved_def)

lemma removed_facts:
  assumes "distinct (map rn_attempt runs)"
  shows "distinct (map rn_attempt (removeAll r runs))"
  using assms by (auto simp: distinct_map intro: inj_on_subset distinct_removeAll)

lemma run_step_ok:
  assumes ok: "dialog_ok d" and mem: "r \<in> set (pd_runs d)" and step: "run_step t r d d'"
  shows "dialog_ok d'"
proof (cases "rn_attempt r = pd_attempt d")
  case False
  then have same: "owned d' = owned d" by (rule stale_run_inert [OF step])
  have d: "distinct (map rn_attempt (pd_runs d))" using ok by (simp add: dialog_ok_def)
  have cur: "current_run d' x \<longleftrightarrow> current_run d x" if "x \<noteq> r" "rn_attempt x = pd_attempt d" for x
    using run_progress [OF step] same that False moved_facts [OF d mem] by (auto simp: progress_def current_run_def owned_def)
  have no_r: "rn_attempt x \<noteq> rn_attempt r" if "current_run d x \<or> current_run d' x" for x
    using that False same by (auto simp: current_run_def owned_def)
  then have iff: "current_run d' x \<longleftrightarrow> current_run d x" for x
    using cur [of x] same by (auto simp: current_run_def owned_def)
  have "(\<forall>x \<in> set (pd_runs d'). rn_attempt x \<le> pd_attempt d') \<and> distinct (map rn_attempt (pd_runs d'))"
    using run_progress [OF step] same ok moved_facts [OF d mem] removed_facts [OF d, of r] mem by (auto simp: progress_def dialog_ok_def owned_def)
  then show ?thesis using ok same by (simp add: dialog_ok_def iff owned_def login_busy_def)
next
  case True
  then have alive: "pd_alive d" using ok mem by (auto simp: dialog_ok_def current_run_def)
  have rel: "released r d d'" by (rule current_released [OF step True alive])
  have d: "distinct (map rn_attempt (pd_runs d))" using ok by (simp add: dialog_ok_def)
  from rel consider "pd_runs d' = removeAll r (pd_runs d)" "\<not> login_busy d'" "pd_pending d' = None"
    | ph where "pd_runs d' = moved r ph (pd_runs d)" "pd_pending d' = pd_pending d \<or> pd_pending d' = Some (rn_provider r)"
    unfolding released_def by metis
  then show ?thesis
  proof cases
    case 1
    then show ?thesis using ok rel removed_facts [OF d, of r] by (auto simp: dialog_ok_def released_def current_run_def)
  next
    case 2
    have "current_run d' (r\<lparr>rn_phase := ph\<rparr>)" using 2(1) rel True moved_facts [OF d mem] by (simp add: current_run_def released_def)
    then show ?thesis using ok 2 rel True mem moved_facts [OF d mem]
      by (auto simp: dialog_ok_def released_def intro!: exI [of _ "r\<lparr>rn_phase := ph\<rparr>"])
  qed
qed

lemma cancel_frame [simp]:
  "pd_attempt (cancelPendingLogin d) = pd_attempt d + 1" "pd_alive (cancelPendingLogin d) = pd_alive d" "pd_pending (cancelPendingLogin d) = None"
  by (simp_all add: cancelPendingLogin_def Let_def split: option.split)

lemma cancelled_ok:
  assumes "dialog_ok d" "pd_attempt e = pd_attempt d + 1" "pd_runs e = pd_runs d" "pd_pending e = None" "pd_alive e \<longrightarrow> \<not> login_busy e"
  shows "dialog_ok e"
  using assms by (auto simp: dialog_ok_def current_run_def)

lemma kept_ok:
  assumes "dialog_ok d" "pd_attempt e = pd_attempt d" "pd_runs e = pd_runs d" "pd_pending e = pd_pending d" "pd_alive e = pd_alive d"
    "login_busy e \<longrightarrow> login_busy d"
  shows "dialog_ok e"
  using assms by (auto simp: dialog_ok_def current_run_def)

lemma dialog_command_busy: "dialog_command c \<Longrightarrow> oa_busy (ss_oauth (applyAddProviderCommand s c)) \<Longrightarrow> oa_busy (ss_oauth s)"
  by (cases c) (auto simp: clearAuthorization_def)

lemma manual_busy: "login_busy (dispatch_session [SetManualCodeNotice a b, SetManualCodeNotice e f, SetManualCodeBusy g] d) = login_busy d"
  "login_busy (dispatch_session [UpdateManualCode x, SetManualCodeNotice a b, SetManualCodeNotice e f, SetManualCodeBusy g] d) = login_busy d"
  "login_busy (dispatch_session [SetManualCodeBusy g, SetManualCodeNotice a b] d) = login_busy d"
  by (simp_all add: login_busy_def dispatch_session_def)

lemma login_starts_ok:
  assumes "dialog_ok d" "pd_alive d"
  shows "dialog_ok (loginOAuth p d)"
proof -
  let ?n = "pd_attempt d + 1" and ?e = "loginOAuth p d"
  have e: "pd_attempt ?e = ?n" "pd_alive ?e = pd_alive d" "pd_pending ?e = pd_pending d"
    "pd_runs ?e = pd_runs d @ [\<lparr>rn_attempt = ?n, rn_provider = p, rn_phase = Starting\<rparr>]"
    by (simp_all add: loginOAuth_def resetOAuthAttemptFields_def Let_def)
  have le: "\<forall>r \<in> set (pd_runs d). rn_attempt r \<le> pd_attempt d" using assms(1) by (simp add: dialog_ok_def)
  have "current_run ?e \<lparr>rn_attempt = ?n, rn_provider = p, rn_phase = Starting\<rparr>" by (simp add: current_run_def e)
  then show ?thesis using assms le by (auto simp: dialog_ok_def e)
qed

lemma send_busy:
  "login_busy (dispatch_session cs d) = oa_busy (ss_oauth (foldl applyAddProviderCommand (pd_session d) cs))"
  by (simp add: login_busy_def dispatch_session_def)

lemma kept_send:
  assumes "dialog_ok d" "oa_busy (ss_oauth (foldl applyAddProviderCommand (pd_session d) cs)) \<Longrightarrow> login_busy d"
  shows "dialog_ok (dispatch_session cs d)"
  by (rule kept_ok [OF assms(1)]) (use assms(2) in \<open>simp_all add: send_busy\<close>)

lemma command_busy:
  "oa_busy (ss_oauth (applyAddProviderCommand s (ResolveTos x))) = oa_busy (ss_oauth s)"
  "oa_busy (ss_oauth (applyAddProviderCommand s (SetManualCodeBusy b))) = oa_busy (ss_oauth s)"
  "oa_busy (ss_oauth (applyAddProviderCommand s (SetManualCodeNotice n ok))) = oa_busy (ss_oauth s)"
  "oa_busy (ss_oauth (applyAddProviderCommand s (UpdateManualCode c))) = oa_busy (ss_oauth s)"
  "\<not> oa_busy (ss_oauth (applyAddProviderCommand s CancelAuthorization))"
  "\<not> oa_busy (ss_oauth (applyAddProviderCommand s (SelectPreset p f ch)))"
  by (simp_all add: clearAuthorization_def)

lemma code_frame:
  "dialog_ok (d\<lparr>pd_codes := cs\<rparr>) = dialog_ok d" "dialog_ok (d\<lparr>pd_codes := cs, pd_posts := ps\<rparr>) = dialog_ok d"
  by (simp_all add: dialog_ok_def current_run_def login_busy_def)

lemma code_begins_ok: "dialog_ok d \<Longrightarrow> dialog_ok (submitManualCode_begins p d)"
proof -
  assume d: "dialog_ok d"
  have "dialog_ok (dispatch_session [SetManualCodeBusy True, SetManualCodeNotice [] None] d)"
    by (rule kept_send [OF d]) (simp only: foldl.simps command_busy login_busy_def)
  then show ?thesis using d by (simp only: submitManualCode_begins_def Let_def code_frame split: if_split) blast
qed

lemma code_answers_ok: "dialog_ok d \<Longrightarrow> dialog_ok (submitManualCode_answers t c answer d)"
proof -
  assume "dialog_ok d"
  then have e: "dialog_ok (d\<lparr>pd_codes := remove1 c (pd_codes d)\<rparr>)" (is "dialog_ok ?e") by (simp only: code_frame)
  have "dialog_ok (dispatch_session [SetManualCodeNotice a b, SetManualCodeNotice a' b', SetManualCodeBusy False] ?e)"
    "dialog_ok (dispatch_session [UpdateManualCode [], SetManualCodeNotice a b, SetManualCodeNotice a' b', SetManualCodeBusy False] ?e)" for a b a' b'
    by (rule kept_send [OF e]; simp only: foldl.simps command_busy login_busy_def)+
  then show ?thesis using e by (simp only: submitManualCode_answers_def Let_def split: if_split paste_answer.split) blast
qed

lemma cancelling_ok:
  assumes "dialog_ok d" "\<And>s. \<not> oa_busy (ss_oauth (foldl applyAddProviderCommand s cs))"
  shows "dialog_ok (dispatch_session cs (cancelPendingLogin d))"
  by (rule cancelled_ok [OF assms(1)]) (simp_all add: send_busy assms(2))

lemma tos_ok: "dialog_ok d \<Longrightarrow> dialog_ok (dispatch_session [ResolveTos x] d)"
  by (rule kept_send) (simp_all only: foldl.simps command_busy login_busy_def)

lemma provider_step_ok: "provider_step t d d' \<Longrightarrow> dialog_ok d \<Longrightarrow> dialog_ok d'"
proof (induction rule: provider_step.induct)
  case (pv_run r d d')
  then show ?case using run_step_ok by blast
next
  case (pv_command d c)
  then show ?case using dialog_command_busy by (intro kept_send) (simp_all only: foldl.simps login_busy_def)
next
  case (pv_choose d candidate form choice)
  then show ?case unfolding choosePreset_def by (intro cancelling_ok) (simp_all only: foldl.simps command_busy not_False_eq_True)
next
  case (pv_request d risk p)
  then show ?case using tos_ok login_starts_ok by (simp add: requestLoginOAuth_def)
next
  case (pv_tos d p)
  then show ?case using login_starts_ok [OF tos_ok, of d None] by (simp add: tos_continue_def)
next
  case (pv_cancel d)
  then show ?case unfolding onCancelLogin_def by (intro cancelling_ok) (simp_all only: foldl.simps command_busy not_False_eq_True)
next
  case (pv_close d)
  then show ?case unfolding dialog_closes_def by (rule_tac cancelled_ok) simp_all
next
  case (pv_back d)
  have "login_busy (cancelPendingLogin d) = login_busy d" by (simp add: login_busy_def)
  then show ?case using pv_back unfolding runBack_def by (rule_tac cancelled_ok) (simp_all add: login_busy_def)
qed (simp_all only: code_begins_ok code_answers_ok)

interpretation dialog_machine: machine provider_init "provider_step t" "\<lambda>d. dialog_ok d \<and> own_link (pd_session d)" for t
proof
  fix d assume "provider_init d"
  then show "dialog_ok d \<and> own_link (pd_session d)"
    by (auto simp: provider_init_def dialog_ok_def current_run_def own_link_def createAddProviderSession_def clearAuthorization_def login_busy_def)
next
  fix d d' assume "dialog_ok d \<and> own_link (pd_session d)" "provider_step t d d'"
  then show "dialog_ok d' \<and> own_link (pd_session d')" using provider_step_ok own_link_step by blast
qed


definition sample_dialog :: login_desk where
  "sample_dialog = \<lparr>pd_session = createAddProviderSession False [], pd_alive = True, pd_attempt = 0, pd_pending = None, pd_popup = None,
     pd_windows = [], pd_runs = [], pd_codes = [], pd_added = [], pd_posts = []\<rparr>"

definition sample_preset :: catalog_preset where
  "sample_preset = (fst (customDraft ''p''))\<lparr>cp_id := ''p'', cp_auth := AuthOauth, cp_oauthProvider := Some ''p''\<rparr>"

definition sample_waiting :: login_desk where
  "sample_waiting = requestLoginOAuth (\<lambda>_. False) ''p'' (choosePreset sample_preset (snd (customDraft ''p'')) ''custom'' sample_dialog)"

lemma sample_waiting_reach: "reach provider_init (provider_step t) sample_waiting"
proof -
  let ?c = "choosePreset sample_preset (snd (customDraft ''p'')) ''custom'' sample_dialog"
  have i: "reach provider_init (provider_step t) sample_dialog" by (rule reach_init) (auto simp: provider_init_def sample_dialog_def)
  have c: "reach provider_init (provider_step t) ?c" by (rule reach_step [OF i pv_choose]) (simp add: sample_dialog_def)
  have "pd_alive ?c" by code_simp
  then show ?thesis unfolding sample_waiting_def by (intro reach_step [OF c] pv_request)
qed


definition sample_run :: login_run where
  "sample_run = \<lparr>rn_attempt = 2, rn_provider = ''p'', rn_phase = Starting\<rparr>"

theorem superseded_login_inert_witness:
  "sample_run \<in> set (pd_runs sample_waiting)
   \<and> pd_session (start_answers (\<lambda>k _. k) sample_run StartThrows (onCancelLogin sample_waiting)) = pd_session (onCancelLogin sample_waiting)"
proof -
  have "run_step (\<lambda>k _. k) sample_run (onCancelLogin sample_waiting) (start_answers (\<lambda>k _. k) sample_run StartThrows (onCancelLogin sample_waiting))"
    by (rule rs_start) (simp add: sample_run_def)
  moreover have "rn_attempt sample_run \<noteq> pd_attempt (onCancelLogin sample_waiting)" "sample_run \<in> set (pd_runs sample_waiting)" by code_simp+
  ultimately show ?thesis using superseded_login_inert by blast
qed

section \<open>What goes wrong\<close>

text \<open>Going back from the connection step cancels the login but not the flag: the dialog shows a login that nobody runs, and a new
  request is refused.\<close>

lemma back_leaves_busy:
  "login_busy (runBack sample_waiting) \<and> (\<forall>r \<in> set (pd_runs (runBack sample_waiting)). rn_attempt r \<noteq> pd_attempt (runBack sample_waiting))
   \<and> requestLoginOAuth risk p (runBack sample_waiting) = runBack sample_waiting"
proof -
  have busy: "login_busy (runBack sample_waiting)" by code_simp
  have "list_all (\<lambda>r. rn_attempt r \<noteq> pd_attempt (runBack sample_waiting)) (pd_runs (runBack sample_waiting))" by code_simp
  then show ?thesis using busy by (simp add: list_all_iff requestLoginOAuth_def login_busy_def)
qed

text \<open>The late success of a superseded attempt cancels by provider, and so cancels the login that replaced it, and it forgets the popup
  of that login.\<close>

lemma late_start_cancels_successor:
  "let d = requestLoginOAuth (\<lambda>_. False) ''p'' (onCancelLogin sample_waiting);
       d1 = start_answers (\<lambda>k _. k) sample_run (StartAnswers True no_payload) d;
       d2 = stale_dropped (sample_run\<lparr>rn_phase := DroppingStale\<rparr>) d1
   in pd_posts d1 = pd_posts d @ [PostCancel ''p''] \<and> pd_popup d = Some (pd_attempt d) \<and> pd_popup d2 = None \<and> pd_attempt d \<in> set (pd_windows d2)"
  by code_simp

text \<open>A new login clears the notice of the last pasted code and then writes it back, as an accepted one.\<close>

lemma reset_restores_notice:
  "ma_notice (ss_manual (pd_session (resetOAuthAttemptFields notice p d))) = notice
   \<and> ma_accepted (ss_manual (pd_session (resetOAuthAttemptFields notice p d)))"
  by (simp add: resetOAuthAttemptFields_def dispatch_session_def default_to_def)

end
