(* ===== verification/Providers_Flow.thy ===== *)
theory Providers_Flow
  imports Benes_Prelude
begin

text \<open>
  Logging in to a provider from the providers page: \<^verbatim>\<open>pages/use-providers-oauth.ts\<close> and \<^verbatim>\<open>lib/providers-oauth-policy.ts\<close>. A login that
  is out is a \<open>flow\<close>, cut where \<open>loginOAuth\<close> awaits; a cancel or a logout that waits for its answer is kept in a list. Answers arrive
  in any order. The page is rendered between two events, so a functional update reads the value the page shows. The
  translator is the parameter \<open>t\<close>; notices and requests are logged.
\<close>

section \<open>Policy\<close>

record pool_account =
  ax_id :: string
  ax_alias :: "string option"
  ax_email :: "string option"
  ax_active :: bool
  ax_needsReauth :: bool
  ax_expiresAt :: "nat option"

record account_set =
  ys_active :: "string option"
  ys_accounts :: "pool_account list"

record oauth_login_status =
  sx_loggedIn :: bool
  sx_needsReauth :: bool
  sx_pending :: bool
  sx_done :: bool
  sx_error :: "string option"
  sx_email :: "string option"
  sx_activeAccountId :: "string option"
  sx_accounts :: "pool_account list option"

record login_hint =
  hx_provider :: string
  hx_url :: "string option"
  hx_instructions :: "string option"
  hx_deviceCode :: "string option"

record oauth_login_answer =
  lx_error :: "string option"
  lx_url :: "string option"
  lx_instructions :: "string option"
  lx_deviceCode :: "string option"

definition filled :: "string option \<Rightarrow> bool" where
  "filled v \<longleftrightarrow> v \<noteq> None \<and> v \<noteq> Some []"

definition OAUTH_PROVIDER_LABELS :: "(string \<times> string) list" where
  "OAUTH_PROVIDER_LABELS = [(''xai'', ''xAI (Grok)''), (''anthropic'', ''Anthropic (Claude)''), (''kimi'', ''Kimi (Moonshot)''),
     (''google-antigravity'', ''Google Antigravity''), (''github-copilot'', ''GitHub Copilot''), (''cursor'', ''Cursor'')]"

definition oauthLabel :: "string \<Rightarrow> string" where
  "oauthLabel p = (case map_of OAUTH_PROVIDER_LABELS p of Some l \<Rightarrow> l | None \<Rightarrow> p)"

definition providersOAuthReauthTargetId :: "string option \<Rightarrow> string option" where
  "providersOAuthReauthTargetId accountId =
     (case accountId of None \<Rightarrow> None | Some a \<Rightarrow> if trim a \<noteq> [] then Some (trim a) else None)"

datatype oauth_request =
    LoginPost string bool "string option"
  | CancelPost string
  | LogoutPost string
  | ReadAccountSets "string list"
  | ReadConfig
  | ReadOauth
  | ReadQuotas bool

text \<open>The body of a login: the provider, whether an account is added, and the account that logs in again.\<close>

definition providersOAuthLoginBody :: "string \<Rightarrow> bool \<Rightarrow> string option \<Rightarrow> oauth_request" where
  "providersOAuthLoginBody provider addAccount accountId =
     (let target = providersOAuthReauthTargetId accountId in LoginPost provider (addAccount \<or> target \<noteq> None) target)"

definition providersOAuthLoginInfo :: "oauth_login_answer \<Rightarrow> string \<Rightarrow> login_hint option" where
  "providersOAuthLoginInfo a provider =
     (if filled (lx_url a) \<or> filled (lx_instructions a) \<or> filled (lx_deviceCode a)
      then Some \<lparr>hx_provider = provider, hx_url = lx_url a, hx_instructions = lx_instructions a, hx_deviceCode = lx_deviceCode a\<rparr> else None)"

definition providersOAuthErrorIsCancelled :: "string \<Rightarrow> bool" where
  "providersOAuthErrorIsCancelled e = str_includes (to_lower e) ''cancel''"

datatype poll_progress = PollContinue | StatusError string bool | PollCompleted nat

definition providersOAuthPollProgress :: "oauth_login_status option \<Rightarrow> bool \<Rightarrow> string option \<Rightarrow> nat \<Rightarrow> poll_progress" where
  "providersOAuthPollProgress status addAccount target baselineCount =
     (case status of
        None \<Rightarrow> PollContinue
      | Some s \<Rightarrow>
          if filled (sx_error s) then StatusError (the (sx_error s)) (providersOAuthErrorIsCancelled (the (sx_error s)))
          else if sx_pending s then PollContinue
          else let statusCount = (case sx_accounts s of Some as \<Rightarrow> length as | None \<Rightarrow> 0);
                   completed = (if addAccount \<or> target \<noteq> None then statusCount > baselineCount \<or> sx_done s else sx_loggedIn s \<or> sx_done s)
               in if completed then PollCompleted statusCount else PollContinue)"

definition accounts_of :: "oauth_login_status \<Rightarrow> pool_account list" where
  "accounts_of s = (case sx_accounts s of Some as \<Rightarrow> as | None \<Rightarrow> [])"

definition providersOAuthCompletedTarget :: "oauth_login_status \<Rightarrow> string option \<Rightarrow> pool_account option" where
  "providersOAuthCompletedTarget s target =
     (case target of
        Some a \<Rightarrow> List.find (\<lambda>x. ax_id x = a) (accounts_of s)
      | None \<Rightarrow> (case List.find ax_active (accounts_of s) of
                   Some x \<Rightarrow> Some x
                 | None \<Rightarrow> List.find (\<lambda>x. Some (ax_id x) = sx_activeAccountId s) (accounts_of s)))"

datatype identity_outcome = IdentityMissing | IdentityMismatch | IdentityOk

definition providersOAuthIdentityOutcome :: "string option \<Rightarrow> pool_account option \<Rightarrow> identity_outcome" where
  "providersOAuthIdentityOutcome target found =
     (if target \<noteq> None \<and> found = None then IdentityMissing
      else case found of Some x \<Rightarrow> if ax_needsReauth x then IdentityMismatch else IdentityOk | None \<Rightarrow> IdentityOk)"

definition providersOAuthSeededAccountSet :: "oauth_login_status \<Rightarrow> account_set option" where
  "providersOAuthSeededAccountSet s =
     (case sx_accounts s of
        None \<Rightarrow> None
      | Some as \<Rightarrow> Some \<lparr>ys_active = (case sx_activeAccountId s of Some a \<Rightarrow> Some a | None \<Rightarrow> map_option ax_id (List.find ax_active as)), ys_accounts = as\<rparr>)"

definition providersOAuthSameIdentityAdd :: "bool \<Rightarrow> string option \<Rightarrow> nat \<Rightarrow> nat \<Rightarrow> bool" where
  "providersOAuthSameIdentityAdd addAccount target statusCount baselineCount \<longleftrightarrow> addAccount \<and> target = None \<and> statusCount \<le> baselineCount"

definition providersOAuthAccountFetchList :: "string list \<Rightarrow> string \<Rightarrow> string list" where
  "providersOAuthAccountFetchList known provider = (if provider \<in> set known then known else known @ [provider])"

definition providersOAuthStartFailedMessage :: "string option \<Rightarrow> string \<Rightarrow> string" where
  "providersOAuthStartFailedMessage err fallback = (if filled err then the err else fallback)"

section \<open>The board\<close>

definition PROVIDERS_OAUTH_POLL_TICKS :: nat where "PROVIDERS_OAUTH_POLL_TICKS = 150"

datatype flow_phase = Opening | Waiting nat | Asking nat | Settling bool | TimingOut

record oauth_flow =
  fw_provider :: string
  fw_generation :: nat
  fw_addAccount :: bool
  fw_target :: "string option"
  fw_sets :: "(string \<times> account_set) list"
  fw_phase :: flow_phase

record accounts_board =
  bx_alive :: bool
  bx_generations :: "string \<Rightarrow> nat option"
  bx_busy :: "string option"
  bx_hint :: "login_hint option"
  bx_status :: "string \<Rightarrow> oauth_login_status option"
  bx_sets :: "(string \<times> account_set) list"
  bx_flows :: "oauth_flow list"
  bx_cancels :: "(string \<times> nat) list"
  bx_logouts :: "(string \<times> bool) list"
  bx_notices :: "(string \<times> bool) list"
  bx_requests :: "oauth_request list"
  bx_revealed :: "string list"
  bx_bumps :: nat

type_synonym wording = "string \<Rightarrow> (string \<times> string) list \<Rightarrow> string"

definition flowIsCurrent :: "oauth_flow \<Rightarrow> accounts_board \<Rightarrow> bool" where
  "flowIsCurrent f d \<longleftrightarrow> bx_generations d (fw_provider f) = Some (fw_generation f) \<and> bx_alive d"

definition clearProviderLoginState :: "string \<Rightarrow> accounts_board \<Rightarrow> accounts_board" where
  "clearProviderLoginState p d =
     d\<lparr>bx_busy := (if bx_busy d = Some p then None else bx_busy d),
       bx_hint := (if map_option hx_provider (bx_hint d) = Some p then None else bx_hint d)\<rparr>"

definition board_notify :: "string \<Rightarrow> bool \<Rightarrow> accounts_board \<Rightarrow> accounts_board" where
  "board_notify msg ok d = d\<lparr>bx_notices := bx_notices d @ [(msg, ok)]\<rparr>"

definition notifyProvider :: "wording \<Rightarrow> string \<Rightarrow> string \<Rightarrow> bool \<Rightarrow> (string \<times> string) list \<Rightarrow> accounts_board \<Rightarrow> accounts_board" where
  "notifyProvider t p key ok extra = board_notify (t key ((''provider'', oauthLabel p) # extra)) ok"

definition notifyProviderError :: "wording \<Rightarrow> string \<Rightarrow> string \<Rightarrow> accounts_board \<Rightarrow> accounts_board" where
  "notifyProviderError t p err = notifyProvider t p ''prov.loginError'' False [(''error'', err)]"

definition request_all :: "oauth_request list \<Rightarrow> accounts_board \<Rightarrow> accounts_board" where
  "request_all rs d = d\<lparr>bx_requests := bx_requests d @ rs\<rparr>"

definition bumpGeneration :: "string \<Rightarrow> accounts_board \<Rightarrow> nat \<times> accounts_board" where
  "bumpGeneration p d =
     (let n = (case bx_generations d p of Some g \<Rightarrow> g | None \<Rightarrow> 0) + 1 in (n, d\<lparr>bx_generations := (bx_generations d)(p \<mapsto> n)\<rparr>))"

definition flow_moves :: "oauth_flow \<Rightarrow> flow_phase \<Rightarrow> accounts_board \<Rightarrow> accounts_board" where
  "flow_moves f ph d = d\<lparr>bx_flows := map (\<lambda>x. if x = f then f\<lparr>fw_phase := ph\<rparr> else x) (bx_flows d)\<rparr>"

text \<open>The \<^verbatim>\<open>finally\<close> block of \<^verbatim>\<open>loginOAuth\<close>.\<close>

definition flow_ends :: "oauth_flow \<Rightarrow> accounts_board \<Rightarrow> accounts_board" where
  "flow_ends f d =
     (let d1 = d\<lparr>bx_flows := removeAll f (bx_flows d)\<rparr> in
      if bx_alive d1 \<and> bx_generations d1 (fw_provider f) = Some (fw_generation f) then d1\<lparr>bx_busy := None\<rparr> else d1)"

text \<open>Its \<^verbatim>\<open>catch\<close> block.\<close>

definition flow_fails :: "wording \<Rightarrow> oauth_flow \<Rightarrow> accounts_board \<Rightarrow> accounts_board" where
  "flow_fails t f d =
     flow_ends f (if bx_generations d (fw_provider f) = Some (fw_generation f) then notifyProvider t (fw_provider f) ''prov.loginRequestFail'' False [] d else d)"

section \<open>One login\<close>

definition baselineCount :: "oauth_flow \<Rightarrow> nat" where
  "baselineCount f = (case map_of (fw_sets f) (fw_provider f) of Some y \<Rightarrow> length (ys_accounts y) | None \<Rightarrow> 0)"

text \<open>The head of the polling loop, and the time-out behind it.\<close>

definition watch_loop :: "oauth_flow \<Rightarrow> nat \<Rightarrow> accounts_board \<Rightarrow> accounts_board" where
  "watch_loop f tick d =
     (if \<not> flowIsCurrent f d then flow_ends f d
      else if tick < PROVIDERS_OAUTH_POLL_TICKS then flow_moves f (Waiting tick) d
      else flow_moves f TimingOut (request_all [CancelPost (fw_provider f)] d))"

datatype open_answer = OpenThrows | OpenAnswers bool "oauth_login_answer option"

definition openProvidersOAuthLogin :: "wording \<Rightarrow> oauth_flow \<Rightarrow> open_answer \<Rightarrow> accounts_board \<Rightarrow> accounts_board" where
  "openProvidersOAuthLogin t f answer d =
     (case answer of
        OpenThrows \<Rightarrow> flow_fails t f d
      | OpenAnswers ok body \<Rightarrow>
          if \<not> flowIsCurrent f d then flow_ends f d
          else if \<not> ok then flow_ends f (board_notify (providersOAuthStartFailedMessage (Option.bind body lx_error)
                                          (t ''prov.loginFailStart'' [(''provider'', oauthLabel (fw_provider f))])) False d)
          else case body of
                 None \<Rightarrow> flow_fails t f d
               | Some a \<Rightarrow> watch_loop f 0
                   (case providersOAuthLoginInfo a (fw_provider f) of Some h \<Rightarrow> d\<lparr>bx_hint := Some h\<rparr> | None \<Rightarrow> d))"

definition publishProvidersOAuthStatus :: "oauth_flow \<Rightarrow> oauth_login_status \<Rightarrow> accounts_board \<Rightarrow> accounts_board" where
  "publishProvidersOAuthStatus f s d = d\<lparr>bx_status := (bx_status d)(fw_provider f \<mapsto> s)\<rparr>"

definition reportProvidersOAuthRefusal :: "wording \<Rightarrow> oauth_flow \<Rightarrow> oauth_login_status \<Rightarrow> bool \<Rightarrow> string \<Rightarrow> accounts_board \<Rightarrow> accounts_board" where
  "reportProvidersOAuthRefusal t f s cancelled err d =
     (let d1 = publishProvidersOAuthStatus f s d;
          d2 = (if cancelled then notifyProvider t (fw_provider f) ''prov.loginCancelled'' False [] d1 else notifyProviderError t (fw_provider f) err d1)
      in d2\<lparr>bx_hint := None\<rparr>)"

definition flow_identity :: "oauth_flow \<Rightarrow> oauth_login_status \<Rightarrow> identity_outcome" where
  "flow_identity f s = providersOAuthIdentityOutcome (fw_target f) (providersOAuthCompletedTarget s (fw_target f))"

definition providersOAuthIdentityRefusal :: "wording \<Rightarrow> oauth_flow \<Rightarrow> oauth_login_status \<Rightarrow> accounts_board \<Rightarrow> accounts_board option" where
  "providersOAuthIdentityRefusal t f s d =
     (let refuse = (\<lambda>key. Some ((notifyProviderError t (fw_provider f) (t key []) d)\<lparr>bx_hint := None\<rparr>)) in
      case flow_identity f s of
        IdentityOk \<Rightarrow> None
      | IdentityMissing \<Rightarrow> refuse ''prov.reauthAccountMissing''
      | IdentityMismatch \<Rightarrow> refuse ''prov.reauthIdentityMismatch'')"

fun sets_put :: "string \<Rightarrow> account_set \<Rightarrow> (string \<times> account_set) list \<Rightarrow> (string \<times> account_set) list" where
  "sets_put k v [] = [(k, v)]"
| "sets_put k v ((k', v') # m) = (if k' = k then (k, v) # m else (k', v') # sets_put k v m)"

definition acceptProvidersOAuthCompletion :: "wording \<Rightarrow> oauth_flow \<Rightarrow> oauth_login_status \<Rightarrow> nat \<Rightarrow> accounts_board \<Rightarrow> accounts_board" where
  "acceptProvidersOAuthCompletion t f s statusCount d =
     (let d1 = publishProvidersOAuthStatus f s d in
      case providersOAuthIdentityRefusal t f s d1 of
        Some d2 \<Rightarrow> flow_ends f d2
      | None \<Rightarrow>
          let d2 = (case providersOAuthSeededAccountSet s of Some y \<Rightarrow> d1\<lparr>bx_sets := sets_put (fw_provider f) y (bx_sets d1)\<rparr> | None \<Rightarrow> d1);
              d3 = d2\<lparr>bx_hint := None, bx_revealed := bx_revealed d2 @ [fw_provider f]\<rparr>;
              d4 = request_all [ReadAccountSets (providersOAuthAccountFetchList (map fst (fw_sets f)) (fw_provider f))] d3
          in flow_moves f (Settling (providersOAuthSameIdentityAdd (fw_addAccount f) (fw_target f) statusCount (baselineCount f))) d4)"

definition accounts_settled :: "wording \<Rightarrow> oauth_flow \<Rightarrow> bool \<Rightarrow> bool \<Rightarrow> accounts_board \<Rightarrow> accounts_board" where
  "accounts_settled t f same returned d =
     (if \<not> returned then flow_fails t f d
      else if \<not> flowIsCurrent f d then flow_ends f d
      else let d1 = (if same then notifyProvider t (fw_provider f) ''prov.loginSameAccount'' False [] d
                     else notifyProvider t (fw_provider f) ''prov.loginOk'' True [(''cmd'', ''benes sync'')] d);
               d2 = request_all [ReadConfig, ReadQuotas True] d1
           in flow_ends f (d2\<lparr>bx_bumps := bx_bumps d2 + 1\<rparr>))"

definition watch_wakes :: "oauth_flow \<Rightarrow> nat \<Rightarrow> accounts_board \<Rightarrow> accounts_board" where
  "watch_wakes f tick d = (if \<not> flowIsCurrent f d then flow_ends f d else flow_moves f (Asking tick) d)"

definition watch_answers :: "wording \<Rightarrow> oauth_flow \<Rightarrow> nat \<Rightarrow> oauth_login_status option \<Rightarrow> accounts_board \<Rightarrow> accounts_board" where
  "watch_answers t f tick status d =
     (case providersOAuthPollProgress status (fw_addAccount f) (fw_target f) (baselineCount f) of
        PollContinue \<Rightarrow> watch_loop f (tick + 1) d
      | StatusError err cancelled \<Rightarrow> flow_ends f (reportProvidersOAuthRefusal t f (the status) cancelled err d)
      | PollCompleted statusCount \<Rightarrow> acceptProvidersOAuthCompletion t f (the status) statusCount d)"

definition timeOutProvidersOAuthLogin :: "wording \<Rightarrow> oauth_flow \<Rightarrow> accounts_board \<Rightarrow> accounts_board" where
  "timeOutProvidersOAuthLogin t f d = flow_ends f ((notifyProvider t (fw_provider f) ''prov.loginTimeout'' False [] d)\<lparr>bx_hint := None\<rparr>)"

section \<open>Handlers\<close>

definition loginOAuth_begins :: "string \<Rightarrow> bool \<Rightarrow> string option \<Rightarrow> accounts_board \<Rightarrow> accounts_board" where
  "loginOAuth_begins p addAccount accountId d =
     (let (n, d1) = bumpGeneration p d;
          d2 = board_notify [] False (d1\<lparr>bx_busy := Some p\<rparr>);
          d3 = d2\<lparr>bx_hint := None\<rparr>;
          f = \<lparr>fw_provider = p, fw_generation = n, fw_addAccount = addAccount, fw_target = providersOAuthReauthTargetId accountId,
               fw_sets = bx_sets d, fw_phase = Opening\<rparr>
      in request_all [providersOAuthLoginBody p addAccount (fw_target f)] (d3\<lparr>bx_flows := bx_flows d3 @ [f]\<rparr>))"

definition cancelLoginOAuth_begins :: "string \<Rightarrow> accounts_board \<Rightarrow> accounts_board" where
  "cancelLoginOAuth_begins p d =
     (let (n, d1) = bumpGeneration p d in request_all [CancelPost p] (d1\<lparr>bx_cancels := bx_cancels d1 @ [(p, n)]\<rparr>))"

definition cancelLoginOAuth_answers :: "wording \<Rightarrow> string \<Rightarrow> nat \<Rightarrow> accounts_board \<Rightarrow> accounts_board" where
  "cancelLoginOAuth_answers t p n d =
     (let d1 = d\<lparr>bx_cancels := remove1 (p, n) (bx_cancels d)\<rparr> in
      if \<not> bx_alive d1 then d1
      else notifyProvider t p ''prov.loginCancelled'' False [] (if bx_generations d1 p = Some n then clearProviderLoginState p d1 else d1))"

definition logoutOAuth_begins :: "string \<Rightarrow> accounts_board \<Rightarrow> accounts_board" where
  "logoutOAuth_begins p d =
     (let d1 = clearProviderLoginState p (snd (bumpGeneration p d)) in request_all [LogoutPost p] (d1\<lparr>bx_logouts := bx_logouts d1 @ [(p, False)]\<rparr>))"

datatype logout_answer = LogoutThrows | LogoutRefused | LogoutDone

definition logoutOAuth_answers :: "wording \<Rightarrow> string \<Rightarrow> logout_answer \<Rightarrow> accounts_board \<Rightarrow> accounts_board" where
  "logoutOAuth_answers t p answer d =
     (let d1 = d\<lparr>bx_logouts := remove1 (p, False) (bx_logouts d)\<rparr> in
      if answer = LogoutDone
      then request_all [ReadAccountSets [p], ReadOauth, ReadConfig, ReadQuotas True] (d1\<lparr>bx_logouts := bx_logouts d1 @ [(p, True)]\<rparr>)
      else notifyProvider t p ''prov.logoutFail'' False [] d1)"

definition logoutOAuth_read :: "wording \<Rightarrow> string \<Rightarrow> bool \<Rightarrow> accounts_board \<Rightarrow> accounts_board" where
  "logoutOAuth_read t p returned d =
     (let d1 = d\<lparr>bx_logouts := remove1 (p, True) (bx_logouts d)\<rparr> in
      if returned then notifyProvider t p ''prov.logoutOk'' True [] (d1\<lparr>bx_bumps := bx_bumps d1 + 1\<rparr>)
      else notifyProvider t p ''prov.logoutFail'' False [] d1)"

section \<open>Every order of answers\<close>

inductive flow_step :: "wording \<Rightarrow> oauth_flow \<Rightarrow> accounts_board \<Rightarrow> accounts_board \<Rightarrow> bool" for t f d where
  fs_open: "fw_phase f = Opening \<Longrightarrow> flow_step t f d (openProvidersOAuthLogin t f answer d)"
| fs_wake: "fw_phase f = Waiting n \<Longrightarrow> flow_step t f d (watch_wakes f n d)"
| fs_status: "fw_phase f = Asking n \<Longrightarrow> flow_step t f d (watch_answers t f n status d)"
| fs_settled: "fw_phase f = Settling same \<Longrightarrow> flow_step t f d (accounts_settled t f same returned d)"
| fs_timeout: "fw_phase f = TimingOut \<Longrightarrow> flow_step t f d (timeOutProvidersOAuthLogin t f d)"

inductive board_step :: "wording \<Rightarrow> accounts_board \<Rightarrow> accounts_board \<Rightarrow> bool" for t where
  bd_flow: "f \<in> set (bx_flows d) \<Longrightarrow> flow_step t f d d' \<Longrightarrow> board_step t d d'"
| bd_login: "bx_alive d \<Longrightarrow> board_step t d (loginOAuth_begins p addAccount accountId d)"
| bd_cancel: "bx_alive d \<Longrightarrow> board_step t d (cancelLoginOAuth_begins p d)"
| bd_cancelled: "(p, n) \<in> set (bx_cancels d) \<Longrightarrow> board_step t d (cancelLoginOAuth_answers t p n d)"
| bd_logout: "bx_alive d \<Longrightarrow> board_step t d (logoutOAuth_begins p d)"
| bd_logged_out: "(p, False) \<in> set (bx_logouts d) \<Longrightarrow> board_step t d (logoutOAuth_answers t p answer d)"
| bd_logout_read: "(p, True) \<in> set (bx_logouts d) \<Longrightarrow> board_step t d (logoutOAuth_read t p returned d)"
| bd_unmount: "board_step t d (d\<lparr>bx_alive := False\<rparr>)"

definition board_init :: "accounts_board \<Rightarrow> bool" where
  "board_init d \<longleftrightarrow> bx_alive d \<and> bx_generations d = (\<lambda>_. None) \<and> bx_busy d = None \<and> bx_hint d = None \<and> bx_flows d = [] \<and> bx_cancels d = []
     \<and> bx_logouts d = []"

section \<open>Superseded logins\<close>

fun flow_rank :: "flow_phase \<Rightarrow> nat" where
  "flow_rank Opening = 2 * PROVIDERS_OAUTH_POLL_TICKS + 4"
| "flow_rank (Waiting n) = 2 * (PROVIDERS_OAUTH_POLL_TICKS - n) + 3"
| "flow_rank (Asking n) = 2 * (PROVIDERS_OAUTH_POLL_TICKS - n) + 2"
| "flow_rank (Settling _) = 1"
| "flow_rank TimingOut = 1"

definition flow_moved :: "oauth_flow \<Rightarrow> flow_phase \<Rightarrow> oauth_flow list \<Rightarrow> oauth_flow list" where
  "flow_moved f ph fs = map (\<lambda>x. if x = f then f\<lparr>fw_phase := ph\<rparr> else x) fs"

lemma flow_frames [simp]:
  "bx_flows (flow_ends f d) = removeAll f (bx_flows d)" "bx_flows (flow_fails t f d) = removeAll f (bx_flows d)"
  "bx_flows (flow_moves f ph d) = flow_moved f ph (bx_flows d)" "bx_flows (request_all rs d) = bx_flows d"
  "bx_flows (board_notify m ok d) = bx_flows d" "bx_flows (notifyProvider t p k ok ex d) = bx_flows d"
  "bx_flows (reportProvidersOAuthRefusal t f s c e d) = bx_flows d" "bx_flows (publishProvidersOAuthStatus f s d) = bx_flows d"
  by (simp_all add: flow_ends_def flow_fails_def flow_moves_def flow_moved_def request_all_def board_notify_def notifyProvider_def notifyProviderError_def
      reportProvidersOAuthRefusal_def publishProvidersOAuthStatus_def Let_def)

lemma note_frames [simp]:
  "bx_alive (board_notify m ok d) = bx_alive d" "bx_generations (board_notify m ok d) = bx_generations d" "bx_busy (board_notify m ok d) = bx_busy d"
  "bx_sets (board_notify m ok d) = bx_sets d" "bx_status (board_notify m ok d) = bx_status d" "bx_cancels (board_notify m ok d) = bx_cancels d"
  "bx_alive (request_all rs d) = bx_alive d" "bx_generations (request_all rs d) = bx_generations d" "bx_busy (request_all rs d) = bx_busy d"
  "bx_sets (request_all rs d) = bx_sets d" "bx_status (request_all rs d) = bx_status d" "bx_cancels (request_all rs d) = bx_cancels d"
  "bx_alive (flow_moves f ph d) = bx_alive d" "bx_generations (flow_moves f ph d) = bx_generations d" "bx_busy (flow_moves f ph d) = bx_busy d"
  "bx_sets (flow_moves f ph d) = bx_sets d" "bx_status (flow_moves f ph d) = bx_status d" "bx_cancels (flow_moves f ph d) = bx_cancels d"
  by (simp_all add: board_notify_def request_all_def flow_moves_def)

lemma provider_note_frames [simp]:
  "bx_alive (notifyProvider t p k ok ex d) = bx_alive d" "bx_generations (notifyProvider t p k ok ex d) = bx_generations d"
  "bx_busy (notifyProvider t p k ok ex d) = bx_busy d" "bx_sets (notifyProvider t p k ok ex d) = bx_sets d"
  "bx_status (notifyProvider t p k ok ex d) = bx_status d" "bx_cancels (notifyProvider t p k ok ex d) = bx_cancels d"
  by (simp_all add: notifyProvider_def)

lemma status_frames [simp]:
  "bx_alive (publishProvidersOAuthStatus f s d) = bx_alive d" "bx_generations (publishProvidersOAuthStatus f s d) = bx_generations d"
  "bx_busy (publishProvidersOAuthStatus f s d) = bx_busy d" "bx_sets (publishProvidersOAuthStatus f s d) = bx_sets d"
  "bx_cancels (publishProvidersOAuthStatus f s d) = bx_cancels d"
  "bx_alive (reportProvidersOAuthRefusal t f s c e d) = bx_alive d" "bx_generations (reportProvidersOAuthRefusal t f s c e d) = bx_generations d"
  "bx_busy (reportProvidersOAuthRefusal t f s c e d) = bx_busy d" "bx_sets (reportProvidersOAuthRefusal t f s c e d) = bx_sets d"
  "bx_cancels (reportProvidersOAuthRefusal t f s c e d) = bx_cancels d"
  by (simp_all add: publishProvidersOAuthStatus_def reportProvidersOAuthRefusal_def notifyProviderError_def Let_def)

lemma end_frames [simp]:
  "bx_alive (flow_ends f d) = bx_alive d" "bx_generations (flow_ends f d) = bx_generations d" "bx_sets (flow_ends f d) = bx_sets d"
  "bx_cancels (flow_ends f d) = bx_cancels d" "bx_status (flow_ends f d) = bx_status d"
  "bx_alive (flow_fails t f d) = bx_alive d" "bx_generations (flow_fails t f d) = bx_generations d" "bx_sets (flow_fails t f d) = bx_sets d"
  "bx_cancels (flow_fails t f d) = bx_cancels d" "bx_status (flow_fails t f d) = bx_status d"
  by (simp_all add: flow_ends_def flow_fails_def Let_def)

lemma ends_busy:
  "bx_busy (flow_ends f d) = (if bx_alive d \<and> bx_generations d (fw_provider f) = Some (fw_generation f) then None else bx_busy d)"
  "bx_busy (flow_fails t f d) = (if bx_alive d \<and> bx_generations d (fw_provider f) = Some (fw_generation f) then None else bx_busy d)"
  by (simp_all add: flow_ends_def flow_fails_def Let_def)

text \<open>What one answer does to the flows, the flag and the fields that only handlers write.\<close>

definition flow_effect :: "oauth_flow \<Rightarrow> accounts_board \<Rightarrow> accounts_board \<Rightarrow> bool" where
  "flow_effect f d d' \<longleftrightarrow> bx_alive d' = bx_alive d \<and> bx_generations d' = bx_generations d \<and> bx_cancels d' = bx_cancels d
     \<and> (bx_flows d' = removeAll f (bx_flows d)
           \<and> bx_busy d' = (if bx_alive d \<and> bx_generations d (fw_provider f) = Some (fw_generation f) then None else bx_busy d)
        \<or> (\<exists>ph. flow_rank ph < flow_rank (fw_phase f) \<and> bx_flows d' = flow_moved f ph (bx_flows d)) \<and> bx_busy d' = bx_busy d)"

lemma effect_ends:
  assumes "bx_alive e = bx_alive d" "bx_generations e = bx_generations d" "bx_cancels e = bx_cancels d" "bx_flows e = bx_flows d" "bx_busy e = bx_busy d"
  shows "flow_effect f d (flow_ends f e)" "flow_effect f d (flow_fails t f e)"
  using assms by (simp_all add: flow_effect_def ends_busy)

lemma effect_moves:
  assumes "bx_alive e = bx_alive d" "bx_generations e = bx_generations d" "bx_cancels e = bx_cancels d" "bx_flows e = bx_flows d" "bx_busy e = bx_busy d"
    "flow_rank ph < flow_rank (fw_phase f)"
  shows "flow_effect f d (flow_moves f ph e)"
  using assms by (auto simp: flow_effect_def)

lemma effect_loop:
  assumes "bx_alive e = bx_alive d" "bx_generations e = bx_generations d" "bx_cancels e = bx_cancels d" "bx_flows e = bx_flows d" "bx_busy e = bx_busy d"
    "n < PROVIDERS_OAUTH_POLL_TICKS \<Longrightarrow> flow_rank (Waiting n) < flow_rank (fw_phase f)" "1 < flow_rank (fw_phase f)"
  shows "flow_effect f d (watch_loop f n e)"
  using assms by (simp add: watch_loop_def effect_ends effect_moves)

lemma effect_accept:
  assumes "fw_phase f = Asking n"
  shows "flow_effect f d (acceptProvidersOAuthCompletion t f s c d)"
proof (cases "providersOAuthIdentityRefusal t f s (publishProvidersOAuthStatus f s d)")
  case None
  then show ?thesis using assms
    by (auto simp: acceptProvidersOAuthCompletion_def Let_def intro!: effect_moves split: option.split)
next
  case (Some e)
  then have "e = (notifyProviderError t (fw_provider f) (t (if flow_identity f s = IdentityMissing then ''prov.reauthAccountMissing'' else ''prov.reauthIdentityMismatch'') [])
      (publishProvidersOAuthStatus f s d))\<lparr>bx_hint := None\<rparr>"
    by (auto simp: providersOAuthIdentityRefusal_def Let_def split: identity_outcome.splits)
  then show ?thesis using Some by (auto simp: acceptProvidersOAuthCompletion_def notifyProviderError_def Let_def intro!: effect_ends)
qed

lemma effect_open:
  assumes "fw_phase f = Opening"
  shows "flow_effect f d (openProvidersOAuthLogin t f answer d)"
proof (cases answer)
  case (OpenAnswers ok body)
  have "flow_effect f d (watch_loop f 0 (case providersOAuthLoginInfo a (fw_provider f) of Some h \<Rightarrow> d\<lparr>bx_hint := Some h\<rparr> | None \<Rightarrow> d))" for a
    using assms by (cases "providersOAuthLoginInfo a (fw_provider f)") (auto intro!: effect_loop)
  then show ?thesis using OpenAnswers by (auto simp: openProvidersOAuthLogin_def intro!: effect_ends split: option.split)
qed (simp add: openProvidersOAuthLogin_def effect_ends)

lemma effect_answers:
  assumes "fw_phase f = Asking n"
  shows "flow_effect f d (watch_answers t f n status d)"
proof -
  have "flow_effect f d (watch_loop f (n + 1) d)" using assms by (intro effect_loop) (auto simp: PROVIDERS_OAUTH_POLL_TICKS_def)
  then show ?thesis using assms by (auto simp: watch_answers_def intro!: effect_ends effect_accept split: poll_progress.split)
qed

lemma flow_step_effect: "flow_step t f d d' \<Longrightarrow> flow_effect f d d'"
proof (induction rule: flow_step.induct)
  case (fs_wake n)
  then show ?case by (simp add: watch_wakes_def effect_ends effect_moves)
next
  case (fs_settled same returned)
  then show ?case by (auto simp: accounts_settled_def Let_def intro!: effect_ends)
next
  case fs_timeout
  then show ?case by (auto simp: timeOutProvidersOAuthLogin_def intro!: effect_ends)
qed (simp_all add: effect_open effect_answers)

lemma superseded_ends:
  assumes "bx_generations d (fw_provider f) \<noteq> Some (fw_generation f)"
  shows "flow_ends f d = d\<lparr>bx_flows := removeAll f (bx_flows d)\<rparr>" "flow_fails t f d = d\<lparr>bx_flows := removeAll f (bx_flows d)\<rparr>" "\<not> flowIsCurrent f d"
  using assms by (simp_all add: flow_ends_def flow_fails_def flowIsCurrent_def Let_def)

lemma superseded_step:
  assumes "flow_step t f d d'" "bx_generations d (fw_provider f) \<noteq> Some (fw_generation f)" "\<And>n. fw_phase f \<noteq> Asking n" "fw_phase f \<noteq> TimingOut"
  shows "d' = d\<lparr>bx_flows := removeAll f (bx_flows d)\<rparr>"
  using assms(1)
proof cases
  case (fs_open answer)
  then show ?thesis using superseded_ends [OF assms(2)] by (simp add: openProvidersOAuthLogin_def split: open_answer.split)
next
  case (fs_wake n)
  then show ?thesis using superseded_ends [OF assms(2)] by (simp add: watch_wakes_def)
next
  case (fs_settled same returned)
  then show ?thesis using superseded_ends [OF assms(2)] by (simp add: accounts_settled_def)
qed (use assms in auto)


section \<open>The busy flag\<close>

definition busy_owned :: "accounts_board \<Rightarrow> bool" where
  "busy_owned d \<longleftrightarrow> (\<forall>p. bx_alive d \<and> bx_busy d = Some p \<longrightarrow>
     (\<exists>f \<in> set (bx_flows d). fw_provider f = p \<and> bx_generations d p = Some (fw_generation f))
     \<or> (\<exists>n. (p, n) \<in> set (bx_cancels d) \<and> bx_generations d p = Some n))"

lemma moved_owner:
  "g \<in> set fs \<Longrightarrow> \<exists>h \<in> set (flow_moved f ph fs). fw_provider h = fw_provider g \<and> fw_generation h = fw_generation g"
  by (cases "g = f") (auto simp: flow_moved_def image_iff intro: bexI [of _ g])

lemma effect_owned:
  assumes "flow_effect f d d'" "busy_owned d"
  shows "busy_owned d'"
proof -
  have *: "fw_provider g = p \<Longrightarrow> bx_generations d p = Some (fw_generation g) \<Longrightarrow> g \<in> set (bx_flows d) \<Longrightarrow>
     \<exists>h \<in> set (flow_moved f ph (bx_flows d)). fw_provider h = p \<and> bx_generations d p = Some (fw_generation h)" for g p ph
    using moved_owner by metis
  from assms(1) consider
    (gone) "bx_flows d' = removeAll f (bx_flows d)" "bx_busy d' = (if bx_alive d \<and> bx_generations d (fw_provider f) = Some (fw_generation f) then None else bx_busy d)"
    | (stays) ph where "bx_flows d' = flow_moved f ph (bx_flows d)" "bx_busy d' = bx_busy d"
    unfolding flow_effect_def by blast
  then show ?thesis
  proof cases
    case gone
    then show ?thesis using assms unfolding flow_effect_def busy_owned_def by (auto split: if_splits)
  next
    case stays
    then show ?thesis using assms * unfolding flow_effect_def busy_owned_def by metis
  qed
qed

lemma bump_frames [simp]:
  "bx_generations (snd (bumpGeneration p d)) = (bx_generations d)(p \<mapsto> fst (bumpGeneration p d))" "bx_busy (snd (bumpGeneration p d)) = bx_busy d"
  "bx_alive (snd (bumpGeneration p d)) = bx_alive d" "bx_flows (snd (bumpGeneration p d)) = bx_flows d" "bx_cancels (snd (bumpGeneration p d)) = bx_cancels d"
  "bx_sets (snd (bumpGeneration p d)) = bx_sets d" "bx_status (snd (bumpGeneration p d)) = bx_status d"
  by (simp_all add: bumpGeneration_def Let_def)

lemma clear_frames [simp]:
  "bx_generations (clearProviderLoginState p d) = bx_generations d" "bx_alive (clearProviderLoginState p d) = bx_alive d"
  "bx_flows (clearProviderLoginState p d) = bx_flows d" "bx_cancels (clearProviderLoginState p d) = bx_cancels d"
  "bx_busy (clearProviderLoginState p d) = (if bx_busy d = Some p then None else bx_busy d)" "bx_sets (clearProviderLoginState p d) = bx_sets d"
  "bx_status (clearProviderLoginState p d) = bx_status d"
  by (simp_all add: clearProviderLoginState_def)

lemma login_owned: "busy_owned (loginOAuth_begins p a i d)"
  by (simp add: busy_owned_def loginOAuth_begins_def case_prod_beta Let_def)

lemma cancel_owned: "busy_owned d \<Longrightarrow> busy_owned (cancelLoginOAuth_begins p d)"
  by (auto simp: busy_owned_def cancelLoginOAuth_begins_def case_prod_beta Let_def)

lemma cancelled_owned:
  assumes "busy_owned d"
  shows "busy_owned (cancelLoginOAuth_answers t p n d)" (is "busy_owned ?e")
proof -
  have e: "bx_alive ?e = bx_alive d" "bx_generations ?e = bx_generations d" "bx_flows ?e = bx_flows d" "bx_cancels ?e = remove1 (p, n) (bx_cancels d)"
    "bx_busy ?e = (if bx_alive d \<and> bx_generations d p = Some n \<and> bx_busy d = Some p then None else bx_busy d)"
    by (simp_all add: cancelLoginOAuth_answers_def Let_def)
  have left: "(q, m) \<in> set (remove1 (p, n) (bx_cancels d))" if "(q, m) \<in> set (bx_cancels d)" "(q, m) \<noteq> (p, n)" for q m
    using that by (simp add: in_set_remove1)
  show ?thesis unfolding busy_owned_def e
  proof (intro allI impI)
    fix q
    assume b: "bx_alive d \<and> (if bx_alive d \<and> bx_generations d p = Some n \<and> bx_busy d = Some p then None else bx_busy d) = Some q"
    then have "bx_busy d = Some q" "bx_generations d q = Some n \<Longrightarrow> q \<noteq> p" by (auto split: if_splits)
    with b assms left show "(\<exists>f \<in> set (bx_flows d). fw_provider f = q \<and> bx_generations d q = Some (fw_generation f))
        \<or> (\<exists>m. (q, m) \<in> set (remove1 (p, n) (bx_cancels d)) \<and> bx_generations d q = Some m)"
      unfolding busy_owned_def by blast
  qed
qed

lemma logout_owned: "busy_owned d \<Longrightarrow> busy_owned (logoutOAuth_begins p d)"
  by (auto simp: busy_owned_def logoutOAuth_begins_def Let_def)

lemma logged_out_owned: "busy_owned d \<Longrightarrow> busy_owned (logoutOAuth_answers t p ans d)" "busy_owned d \<Longrightarrow> busy_owned (logoutOAuth_read t p returned d)"
  by (simp_all add: busy_owned_def logoutOAuth_answers_def logoutOAuth_read_def Let_def)

lemma board_step_owned: "board_step t d d' \<Longrightarrow> busy_owned d \<Longrightarrow> busy_owned d'"
proof (induction rule: board_step.induct)
  case (bd_flow f d d')
  then show ?case using effect_owned flow_step_effect by blast
next
  case (bd_unmount d)
  then show ?case by (simp add: busy_owned_def)
qed (simp_all add: login_owned cancel_owned cancelled_owned logout_owned logged_out_owned)

interpretation providers_board: machine board_init "board_step t" busy_owned for t
proof
  fix d assume "board_init d"
  then show "busy_owned d" by (simp add: board_init_def busy_owned_def)
next
  fix d d' assume "busy_owned d" "board_step t d d'"
  then show "busy_owned d'" using board_step_owned by blast
qed

text \<open>The providers page never stays busy for nobody. In every state that logins, cancels, logouts and their answers lead to, in any
  order, a mounted page that shows a provider as busy has the newest login of that provider out, or its newest cancel; so the
  page is free when neither is out.\<close>

theorem providers_busy_owned:
  assumes "reach board_init (board_step t) d" "bx_alive d" "bx_busy d = Some p"
  shows "(\<exists>f \<in> set (bx_flows d). fw_provider f = p \<and> bx_generations d p = Some (fw_generation f))
    \<or> (\<exists>n. (p, n) \<in> set (bx_cancels d) \<and> bx_generations d p = Some n)"
  using providers_board.reachable_inv [OF assms(1)] assms(2,3) by (simp add: busy_owned_def)

section \<open>Taking over accounts\<close>

lemma loop_sets [simp]: "bx_sets (watch_loop f n d) = bx_sets d"
  by (simp add: watch_loop_def)

lemma accept_sets:
  "bx_sets (acceptProvidersOAuthCompletion t f s c d) =
     (if flow_identity f s = IdentityOk then (case providersOAuthSeededAccountSet s of Some y \<Rightarrow> sets_put (fw_provider f) y (bx_sets d) | None \<Rightarrow> bx_sets d)
      else bx_sets d)"
  "bx_status (acceptProvidersOAuthCompletion t f s c d) = (bx_status d)(fw_provider f \<mapsto> s)"
proof -
  have p: "bx_status (publishProvidersOAuthStatus f s d) = (bx_status d)(fw_provider f \<mapsto> s)" by (simp add: publishProvidersOAuthStatus_def)
  show "bx_sets (acceptProvidersOAuthCompletion t f s c d) =
     (if flow_identity f s = IdentityOk then (case providersOAuthSeededAccountSet s of Some y \<Rightarrow> sets_put (fw_provider f) y (bx_sets d) | None \<Rightarrow> bx_sets d)
      else bx_sets d)"
    by (cases "flow_identity f s") (simp_all add: acceptProvidersOAuthCompletion_def providersOAuthIdentityRefusal_def notifyProviderError_def Let_def split: option.split)
  show "bx_status (acceptProvidersOAuthCompletion t f s c d) = (bx_status d)(fw_provider f \<mapsto> s)"
    by (cases "flow_identity f s")
      (simp_all add: acceptProvidersOAuthCompletion_def providersOAuthIdentityRefusal_def notifyProviderError_def Let_def p split: option.split)
qed

lemma answers_sets:
  assumes "bx_sets (watch_answers t f n status d) \<noteq> bx_sets d"
  obtains s as where "status = Some s" "\<not> filled (sx_error s)" "\<not> sx_pending s" "flow_identity f s = IdentityOk" "sx_accounts s = Some as"
    "bx_sets (watch_answers t f n status d) = sets_put (fw_provider f) (the (providersOAuthSeededAccountSet s)) (bx_sets d)"
    "bx_status (watch_answers t f n status d) = (bx_status d)(fw_provider f \<mapsto> s)"
proof (cases "providersOAuthPollProgress status (fw_addAccount f) (fw_target f) (baselineCount f)")
  case (PollCompleted c)
  then obtain s where s: "status = Some s" "\<not> filled (sx_error s)" "\<not> sx_pending s"
    by (auto simp: providersOAuthPollProgress_def Let_def split: option.splits if_splits)
  have w: "watch_answers t f n status d = acceptProvidersOAuthCompletion t f s c d" using PollCompleted s(1) by (simp add: watch_answers_def)
  then have i: "flow_identity f s = IdentityOk" "providersOAuthSeededAccountSet s \<noteq> None"
    using assms accept_sets(1) [of t f s c d] by (auto split: if_splits option.splits)
  then obtain as where "sx_accounts s = Some as" by (auto simp: providersOAuthSeededAccountSet_def split: option.splits)
  with s i w accept_sets [of t f s c d] show ?thesis by (intro that) (auto split: option.split)
qed (use assms in \<open>simp_all add: watch_answers_def\<close>)

lemma step_sets:
  assumes "flow_step t f d d'" "bx_sets d' \<noteq> bx_sets d"
  obtains n status where "fw_phase f = Asking n" "d' = watch_answers t f n status d"
  using assms(1)
proof cases
  case (fs_open answer)
  have "bx_sets d' = bx_sets d" unfolding fs_open by (simp add: openProvidersOAuthLogin_def split: open_answer.split option.split)
  with assms(2) show ?thesis by simp
next
  case (fs_settled same returned)
  have "bx_sets d' = bx_sets d" unfolding fs_settled by (simp add: accounts_settled_def Let_def)
  with assms(2) show ?thesis by simp
qed (use assms(2) that in \<open>auto simp: watch_wakes_def timeOutProvidersOAuthLogin_def split: if_split_asm\<close>)

lemma handler_sets [simp]:
  "bx_sets (loginOAuth_begins p a i d) = bx_sets d" "bx_sets (cancelLoginOAuth_begins p d) = bx_sets d" "bx_sets (cancelLoginOAuth_answers t p n d) = bx_sets d"
  "bx_sets (logoutOAuth_begins p d) = bx_sets d" "bx_sets (logoutOAuth_answers t p ans d) = bx_sets d" "bx_sets (logoutOAuth_read t p r d) = bx_sets d"
  by (simp_all add: loginOAuth_begins_def cancelLoginOAuth_begins_def cancelLoginOAuth_answers_def logoutOAuth_begins_def logoutOAuth_answers_def
      logoutOAuth_read_def case_prod_beta Let_def)

lemma identity_ok:
  assumes "flow_identity f s = IdentityOk" "sx_accounts s = Some as" "fw_target f = Some a"
  obtains x where "x \<in> set as" "ax_id x = a" "\<not> ax_needsReauth x"
  using assms that
  by (auto simp: flow_identity_def providersOAuthIdentityOutcome_def providersOAuthCompletedTarget_def accounts_of_def find_Some_iff
      split: option.splits if_splits) (metis nth_mem)

text \<open>The page takes over accounts only from a completed status answer without an error. Whatever step changes the account sets, it is
  an answer of a flow that asked for the status; the answer carries no error, is not pending and lists the accounts; they are filed under
  the provider of the flow and nowhere else, and the answer is published with them. A flow that was to log in again to one account finds
  that account in the list, no longer asking for a login.\<close>

theorem accounts_taken_over_exact:
  assumes "board_step t d d'" "bx_sets d' \<noteq> bx_sets d"
  shows "\<exists>f \<in> set (bx_flows d). \<exists>n s as. fw_phase f = Asking n \<and> \<not> filled (sx_error s) \<and> \<not> sx_pending s \<and> sx_accounts s = Some as
    \<and> bx_sets d' = sets_put (fw_provider f) \<lparr>ys_active = (case sx_activeAccountId s of Some a \<Rightarrow> Some a | None \<Rightarrow> map_option ax_id (List.find ax_active as)),
        ys_accounts = as\<rparr> (bx_sets d)
    \<and> bx_status d' (fw_provider f) = Some s
    \<and> (\<forall>a. fw_target f = Some a \<longrightarrow> (\<exists>x \<in> set as. ax_id x = a \<and> \<not> ax_needsReauth x))"
  using assms(1)
proof cases
  case (bd_flow f)
  from step_sets [OF bd_flow(2) assms(2)] obtain n status where f: "fw_phase f = Asking n" "d' = watch_answers t f n status d" .
  from assms(2) have "bx_sets (watch_answers t f n status d) \<noteq> bx_sets d" by (simp add: f(2))
  then obtain s as where s: "\<not> filled (sx_error s)" "\<not> sx_pending s" "flow_identity f s = IdentityOk" "sx_accounts s = Some as"
    "bx_sets d' = sets_put (fw_provider f) (the (providersOAuthSeededAccountSet s)) (bx_sets d)" "bx_status d' = (bx_status d)(fw_provider f \<mapsto> s)"
    using answers_sets f(2) by metis
  have "\<exists>x \<in> set as. ax_id x = a \<and> \<not> ax_needsReauth x" if "fw_target f = Some a" for a
    using identity_ok [OF s(3,4) that] by blast
  then show ?thesis using bd_flow(1) f(1) s by (intro bexI [of _ f] exI [of _ n] exI [of _ s] exI [of _ as]) (auto simp: providersOAuthSeededAccountSet_def)
qed (use assms(2) in simp_all)

section \<open>Two logins\<close>

definition plain_wording :: wording where
  "plain_wording k _ = k"

definition sample_board :: accounts_board where
  "sample_board = \<lparr>bx_alive = True, bx_generations = (\<lambda>_. None), bx_busy = None, bx_hint = None, bx_status = (\<lambda>_. None), bx_sets = [], bx_flows = [],
     bx_cancels = [], bx_logouts = [], bx_notices = [], bx_requests = [], bx_revealed = [], bx_bumps = 0\<rparr>"

definition sample_login :: accounts_board where
  "sample_login = loginOAuth_begins ''xai'' False None sample_board"

definition sample_flow :: "flow_phase \<Rightarrow> oauth_flow" where
  "sample_flow ph = \<lparr>fw_provider = ''xai'', fw_generation = 1, fw_addAccount = False, fw_target = None, fw_sets = [], fw_phase = ph\<rparr>"

definition sample_asking :: accounts_board where
  "sample_asking = watch_wakes (sample_flow (Waiting 0)) 0
     (openProvidersOAuthLogin plain_wording (sample_flow Opening) (OpenAnswers True (Some \<lparr>lx_error = None, lx_url = None, lx_instructions = None, lx_deviceCode = None\<rparr>)) sample_login)"

definition sample_status :: oauth_login_status where
  "sample_status = \<lparr>sx_loggedIn = True, sx_needsReauth = False, sx_pending = False, sx_done = True, sx_error = None, sx_email = None, sx_activeAccountId = None,
     sx_accounts = Some [\<lparr>ax_id = ''a'', ax_alias = None, ax_email = None, ax_active = True, ax_needsReauth = False, ax_expiresAt = None\<rparr>]\<rparr>"

theorem providers_busy_owned_witness:
  "\<exists>f \<in> set (bx_flows sample_login). fw_provider f = ''xai'' \<and> bx_generations sample_login ''xai'' = Some (fw_generation f)"
proof -
  have "reach board_init (board_step plain_wording) sample_board" by (rule reach_init) (simp add: board_init_def sample_board_def)
  moreover have "board_step plain_wording sample_board sample_login" unfolding sample_login_def by (rule bd_login) (simp add: sample_board_def)
  ultimately have "reach board_init (board_step plain_wording) sample_login" by (rule reach_step)
  moreover have "bx_alive sample_login" "bx_busy sample_login = Some ''xai''" "bx_cancels sample_login = []" by code_simp+
  ultimately show ?thesis using providers_busy_owned [of plain_wording sample_login "''xai''"] by simp
qed


theorem accounts_taken_over_exact_witness:
  "\<exists>f \<in> set (bx_flows sample_asking). \<exists>n. fw_phase f = Asking n \<and> bx_sets (watch_answers plain_wording (sample_flow (Asking 0)) 0 (Some sample_status) sample_asking) \<noteq> []"
proof -
  let ?e = "watch_answers plain_wording (sample_flow (Asking 0)) 0 (Some sample_status) sample_asking"
  have "bx_flows sample_asking = [sample_flow (Asking 0)]" by code_simp
  then have "board_step plain_wording sample_asking ?e"
    by (intro bd_flow [of "sample_flow (Asking 0)"] fs_status) (simp_all add: sample_flow_def)
  moreover have "map fst (bx_sets ?e) = [''xai'']" "bx_sets sample_asking = []" by code_simp+
  ultimately show ?thesis using accounts_taken_over_exact [of plain_wording sample_asking ?e] by fastforce
qed

text \<open>A login that ends frees the page although the page is busy with the login of another provider.\<close>

lemma other_login_frees_page:
  "let d = loginOAuth_begins ''kimi'' False None sample_login;
       e = openProvidersOAuthLogin plain_wording (sample_flow Opening) (OpenAnswers False None) d
   in bx_busy d = Some ''kimi'' \<and> bx_busy e = None \<and> map fw_provider (bx_flows e) = [''kimi'']"
  by code_simp

text \<open>A status answer that comes after the cancel is still taken over, and so is the end of a time-out.\<close>

lemma late_status_paints:
  "let d = cancelLoginOAuth_answers plain_wording ''xai'' 2 (cancelLoginOAuth_begins ''xai'' sample_asking);
       e = watch_answers plain_wording (sample_flow (Asking 0)) 0 (Some sample_status) d
   in \<not> flowIsCurrent (sample_flow (Asking 0)) d \<and> bx_sets d = [] \<and> map fst (bx_sets e) = [''xai''] \<and> bx_revealed e = [''xai'']"
  by code_simp

lemma late_timeout_paints:
  "let d = (cancelLoginOAuth_begins ''xai'' sample_login)\<lparr>bx_hint := Some \<lparr>hx_provider = ''kimi'', hx_url = None, hx_instructions = None, hx_deviceCode = None\<rparr>\<rparr>
   in \<not> flowIsCurrent (sample_flow TimingOut) d \<and> bx_hint (timeOutProvidersOAuthLogin plain_wording (sample_flow TimingOut) d) = None"
  by code_simp

end
