(* ===== verification/Select_Control.thy ===== *)
theory Select_Control
  imports Benes_Prelude
begin

text \<open>
  The dashboard's select control: \<^verbatim>\<open>select-policy.ts\<close>, \<^verbatim>\<open>components/ui/select-controller.ts\<close> with the handlers of
  \<^verbatim>\<open>components/ui/select-view.tsx\<close>, and the geometry of its menu, \<^verbatim>\<open>select-position.ts\<close>. The owner of the control may change
  value, options and the disabled flag between any two events; what the control publishes is logged. Indices are
  \<^typ>\<open>int\<close>, lengths on the screen are rationals.
\<close>

section \<open>Policy\<close>

record select_option =
  so_value :: string
  so_label :: string

datatype key_command = KeyMove int | KeyOpen int | KeyCommit int | KeyClose | KeyTab int | KeyNoop

record key_input =
  ki_key :: string
  ki_open :: bool
  ki_disabled :: bool
  ki_activeIndex :: int
  ki_selectedIndex :: int
  ki_optionCount :: int

definition selectSelectedIndex :: "int \<Rightarrow> int \<Rightarrow> int" where
  "selectSelectedIndex optionCount foundIndex = (if optionCount = 0 then 0 else max 0 foundIndex)"

definition selectActiveIndex :: "bool \<Rightarrow> int \<Rightarrow> int option \<Rightarrow> int \<Rightarrow> int" where
  "selectActiveIndex shown optionCount highlight selectedIndex =
     (if \<not> shown \<or> optionCount = 0 then selectedIndex
      else min (case highlight of Some i \<Rightarrow> i | None \<Rightarrow> selectedIndex) (optionCount - 1))"

definition selectShouldRenderMenu :: "bool \<Rightarrow> bool \<Rightarrow> bool" where
  "selectShouldRenderMenu shown disabled \<longleftrightarrow> shown \<and> \<not> disabled"

definition selectOptionClassName :: "bool \<Rightarrow> bool \<Rightarrow> string" where
  "selectOptionClassName selected active =
     ''select-option'' @ (if selected then '' active'' else []) @ (if active then '' select-option-active'' else [])"

definition selectListboxControls :: "bool \<Rightarrow> string \<Rightarrow> string option" where
  "selectListboxControls shown listboxId = (if shown then Some listboxId else None)"

definition selectActiveOptionId :: "bool \<Rightarrow> bool \<Rightarrow> string \<Rightarrow> string option" where
  "selectActiveOptionId shown hasActiveOption optionId = (if \<not> shown \<or> \<not> hasActiveOption then None else Some optionId)"

definition lastOptionIndex :: "key_input \<Rightarrow> int" where
  "lastOptionIndex k = ki_optionCount k - 1"

definition commitOrOpen :: "key_input \<Rightarrow> key_command" where
  "commitOrOpen k = (if ki_open k then KeyCommit (ki_activeIndex k) else KeyOpen (ki_selectedIndex k))"

definition SELECT_KEY_COMMANDS :: "key_input \<Rightarrow> key_command option" where
  "SELECT_KEY_COMMANDS k =
     (if ki_key k = ''ArrowDown'' then Some (KeyMove (if ki_open k then min (lastOptionIndex k) (ki_activeIndex k + 1) else ki_selectedIndex k))
      else if ki_key k = ''ArrowUp'' then Some (KeyMove (if ki_open k then max 0 (ki_activeIndex k - 1) else ki_selectedIndex k))
      else if ki_key k = ''Home'' then Some (KeyMove 0)
      else if ki_key k = ''End'' then Some (KeyMove (lastOptionIndex k))
      else if ki_key k = ''Enter'' \<or> ki_key k = '' '' then Some (commitOrOpen k)
      else if ki_key k = ''Escape'' then Some (if ki_open k then KeyClose else KeyNoop)
      else if ki_key k = ''Tab'' then Some (if ki_open k then KeyTab (ki_activeIndex k) else KeyNoop)
      else None)"

definition selectTriggerKeyCommand :: "key_input \<Rightarrow> key_command" where
  "selectTriggerKeyCommand k = (if ki_disabled k then KeyNoop else case SELECT_KEY_COMMANDS k of Some c \<Rightarrow> c | None \<Rightarrow> KeyNoop)"

section \<open>The control\<close>

record select_menu =
  me_open :: bool
  me_highlight :: "int option"

definition CLOSED_SELECT_MENU :: select_menu where
  "CLOSED_SELECT_MENU = \<lparr>me_open = False, me_highlight = None\<rparr>"

datatype menu_event = OpenAt int | Highlight int | HideMenu | CloseMenu

fun selectMenuState :: "select_menu \<Rightarrow> menu_event \<Rightarrow> select_menu" where
  "selectMenuState m (OpenAt i) = \<lparr>me_open = True, me_highlight = Some i\<rparr>"
| "selectMenuState m (Highlight i) = \<lparr>me_open = me_open m, me_highlight = Some i\<rparr>"
| "selectMenuState m HideMenu = \<lparr>me_open = False, me_highlight = me_highlight m\<rparr>"
| "selectMenuState m CloseMenu = CLOSED_SELECT_MENU"

record select_control =
  sc_value :: string
  sc_options :: "select_option list"
  sc_disabled :: bool
  sc_menu :: select_menu
  sc_published :: "string list"
  sc_focused :: nat
  sc_prevented :: nat

definition option_at :: "select_option list \<Rightarrow> int \<Rightarrow> select_option option" where
  "option_at os i = (if 0 \<le> i \<and> i < int (length os) then Some (os ! nat i) else None)"

fun found_index :: "string \<Rightarrow> select_option list \<Rightarrow> int" where
  "found_index v [] = -1"
| "found_index v (x # os) = (if so_value x = v then 0 else let i = found_index v os in if i < 0 then -1 else i + 1)"

definition option_count :: "select_control \<Rightarrow> int" where
  "option_count s = int (length (sc_options s))"

definition selectedIndex :: "select_control \<Rightarrow> int" where
  "selectedIndex s = selectSelectedIndex (option_count s) (found_index (sc_value s) (sc_options s))"

definition activeIndex :: "select_control \<Rightarrow> int" where
  "activeIndex s = selectActiveIndex (me_open (sc_menu s)) (option_count s) (me_highlight (sc_menu s)) (selectedIndex s)"

record select_row =
  rw_index :: int
  rw_value :: string
  rw_label :: string
  rw_id :: string
  rw_selected :: bool
  rw_className :: string
  rw_disabled :: bool

definition selectRows :: "select_option list \<Rightarrow> string \<Rightarrow> int \<Rightarrow> bool \<Rightarrow> (int \<Rightarrow> string) \<Rightarrow> select_row list" where
  "selectRows os v act disabled optionId =
     map (\<lambda>i. let x = os ! i; selected = (so_value x = v) in
            \<lparr>rw_index = int i, rw_value = so_value x, rw_label = so_label x, rw_id = optionId (int i), rw_selected = selected,
             rw_className = selectOptionClassName selected (int i = act), rw_disabled = disabled\<rparr>) [0..<length os]"

record trigger_relations =
  rl_expanded :: bool
  rl_controls :: "string option"
  rl_activedescendant :: "string option"
  rl_label :: "string option"
  rl_describedby :: "string option"
  rl_title :: "string option"

definition selectTriggerRelations :: "bool \<Rightarrow> string \<Rightarrow> string option \<Rightarrow> string option \<Rightarrow> string option \<Rightarrow> string option \<Rightarrow> trigger_relations" where
  "selectTriggerRelations shown listboxId activeOptionId label describedBy title =
     \<lparr>rl_expanded = shown, rl_controls = selectListboxControls shown listboxId, rl_activedescendant = activeOptionId,
      rl_label = label, rl_describedby = describedBy, rl_title = title\<rparr>"

text \<open>\<^verbatim>\<open>useId\<close> is the argument \<open>listboxId\<close>.\<close>

definition optionId :: "string \<Rightarrow> int \<Rightarrow> string" where
  "optionId listboxId i = listboxId @ ''-'' @ show_int i"

definition control_rows :: "string \<Rightarrow> select_control \<Rightarrow> select_row list" where
  "control_rows listboxId s = selectRows (sc_options s) (sc_value s) (activeIndex s) (sc_disabled s) (optionId listboxId)"

definition activeDescendant :: "string \<Rightarrow> select_control \<Rightarrow> string option" where
  "activeDescendant listboxId s =
     selectActiveOptionId (me_open (sc_menu s)) (option_at (sc_options s) (activeIndex s) \<noteq> None) (optionId listboxId (activeIndex s))"

definition selectedLabel :: "select_control \<Rightarrow> string" where
  "selectedLabel s = (case List.find (\<lambda>x. so_value x = sc_value s) (sc_options s) of Some x \<Rightarrow> so_label x | None \<Rightarrow> sc_value s)"

definition menu_dispatch :: "menu_event \<Rightarrow> select_control \<Rightarrow> select_control" where
  "menu_dispatch e s = s\<lparr>sc_menu := selectMenuState (sc_menu s) e\<rparr>"

definition closeMenu :: "bool \<Rightarrow> select_control \<Rightarrow> select_control" where
  "closeMenu restoreFocus s = (let s1 = menu_dispatch CloseMenu s in if restoreFocus then s1\<lparr>sc_focused := sc_focused s1 + 1\<rparr> else s1)"

definition openMenu :: "int \<Rightarrow> select_control \<Rightarrow> select_control" where
  "openMenu i s = (if sc_disabled s \<or> option_count s = 0 then s else menu_dispatch (OpenAt (max 0 (min (option_count s - 1) i))) s)"

definition publish_value :: "string \<Rightarrow> select_control \<Rightarrow> select_control" where
  "publish_value v s = s\<lparr>sc_published := sc_published s @ [v]\<rparr>"

definition commit_option :: "int \<Rightarrow> select_control \<Rightarrow> select_control" where
  "commit_option i s =
     (if sc_disabled s then s
      else case option_at (sc_options s) i of None \<Rightarrow> s | Some x \<Rightarrow> closeMenu True (publish_value (so_value x) s))"

definition toggle_menu :: "select_control \<Rightarrow> select_control" where
  "toggle_menu s = (if sc_disabled s then s else if me_open (sc_menu s) then closeMenu False s else openMenu (selectedIndex s) s)"

definition prevent :: "select_control \<Rightarrow> select_control" where
  "prevent s = s\<lparr>sc_prevented := sc_prevented s + 1\<rparr>"

definition applyIndexedSelectCommand :: "key_command \<Rightarrow> select_control \<Rightarrow> select_control" where
  "applyIndexedSelectCommand c s =
     (case c of
        KeyCommit i \<Rightarrow> commit_option i (prevent s)
      | KeyTab i \<Rightarrow> menu_dispatch HideMenu (case option_at (sc_options s) i of Some x \<Rightarrow> publish_value (so_value x) s | None \<Rightarrow> s)
      | KeyMove i \<Rightarrow> openMenu i (prevent s)
      | KeyOpen i \<Rightarrow> openMenu i (prevent s)
      | _ \<Rightarrow> s)"

definition applySelectTriggerKey :: "string \<Rightarrow> select_control \<Rightarrow> select_control" where
  "applySelectTriggerKey key s =
     (let c = selectTriggerKeyCommand \<lparr>ki_key = key, ki_open = me_open (sc_menu s), ki_disabled = sc_disabled s, ki_activeIndex = activeIndex s,
                ki_selectedIndex = selectedIndex s, ki_optionCount = option_count s\<rparr> in
      if c = KeyNoop then s else if c = KeyClose then closeMenu True (prevent s) else applyIndexedSelectCommand c s)"

section \<open>Its events\<close>

datatype select_event =
    PressKey string
  | PressTrigger
  | PressOutside
  | HoverRow nat
  | PressRow nat
  | OwnerSets string "select_option list" bool

text \<open>A row can be reached only while the menu is rendered and the row exists; a row of a disabled control is inert.\<close>

fun select_handles :: "select_control \<Rightarrow> select_event \<Rightarrow> select_control" where
  "select_handles s (PressKey k) = applySelectTriggerKey k s"
| "select_handles s PressTrigger = toggle_menu s"
| "select_handles s PressOutside = (if me_open (sc_menu s) then closeMenu False s else s)"
| "select_handles s (HoverRow i) =
     (if selectShouldRenderMenu (me_open (sc_menu s)) (sc_disabled s) \<and> i < length (sc_options s) then menu_dispatch (Highlight (int i)) s else s)"
| "select_handles s (PressRow i) =
     (if selectShouldRenderMenu (me_open (sc_menu s)) (sc_disabled s) \<and> i < length (sc_options s) then commit_option (int i) s else s)"
| "select_handles s (OwnerSets v os disabled) = s\<lparr>sc_value := v, sc_options := os, sc_disabled := disabled\<rparr>"

definition select_start :: "string \<Rightarrow> select_option list \<Rightarrow> bool \<Rightarrow> select_control" where
  "select_start v os disabled =
     \<lparr>sc_value = v, sc_options = os, sc_disabled = disabled, sc_menu = CLOSED_SELECT_MENU, sc_published = [], sc_focused = 0, sc_prevented = 0\<rparr>"

definition select_run :: "select_event list \<Rightarrow> select_control \<Rightarrow> select_control" where
  "select_run es s = foldl select_handles s es"

section \<open>The highlighted option\<close>

definition highlight_ok :: "select_control \<Rightarrow> bool" where
  "highlight_ok s \<longleftrightarrow> (\<forall>i. me_highlight (sc_menu s) = Some i \<longrightarrow> 0 \<le> i)"

lemma found_bounds: "-1 \<le> found_index v os" "found_index v os < int (length os)"
  by (induction os) (auto simp: Let_def)

lemma selected_bounds: "0 \<le> selectedIndex s" "option_count s \<noteq> 0 \<Longrightarrow> selectedIndex s < option_count s"
  using found_bounds [of "sc_value s" "sc_options s"] by (auto simp: selectedIndex_def selectSelectedIndex_def option_count_def)

lemma active_bounds:
  assumes "highlight_ok s"
  shows "0 \<le> activeIndex s" "option_count s \<noteq> 0 \<Longrightarrow> activeIndex s < option_count s"
  using assms selected_bounds [of s]
  by (auto simp: activeIndex_def selectActiveIndex_def highlight_ok_def option_count_def split: option.split)

lemma open_highlight: "highlight_ok s \<Longrightarrow> highlight_ok (openMenu i s)"
  by (auto simp: openMenu_def menu_dispatch_def highlight_ok_def)

lemma close_highlight: "highlight_ok (closeMenu b s)"
  by (simp add: closeMenu_def menu_dispatch_def CLOSED_SELECT_MENU_def highlight_ok_def Let_def)

lemma menu_frame [simp]:
  "sc_menu (prevent s) = sc_menu s" "sc_menu (publish_value v s) = sc_menu s" "sc_options (prevent s) = sc_options s"
  "sc_disabled (prevent s) = sc_disabled s" "sc_published (prevent s) = sc_published s" "sc_value (prevent s) = sc_value s"
  by (simp_all add: prevent_def publish_value_def)

lemma highlight_prevent [simp]: "highlight_ok (prevent s) = highlight_ok s"
  by (simp add: highlight_ok_def)

lemma commit_highlight: "highlight_ok s \<Longrightarrow> highlight_ok (commit_option i s)"
  by (simp add: commit_option_def close_highlight split: option.split)

lemma key_highlight: "highlight_ok s \<Longrightarrow> highlight_ok (applySelectTriggerKey k s)"
  unfolding applySelectTriggerKey_def applyIndexedSelectCommand_def Let_def
  by (auto simp: close_highlight open_highlight commit_highlight split: key_command.split)
     (auto simp: highlight_ok_def menu_dispatch_def split: option.split)

lemma event_highlight: "highlight_ok s \<Longrightarrow> highlight_ok (select_handles s e)"
proof (cases e)
  case PressTrigger
  then show "highlight_ok s \<Longrightarrow> highlight_ok (select_handles s e)" by (simp add: toggle_menu_def close_highlight open_highlight)
qed (auto simp: key_highlight close_highlight commit_highlight, auto simp: highlight_ok_def menu_dispatch_def)

lemma run_highlight: "highlight_ok (select_run es (select_start v os b))"
proof (induction es rule: rev_induct)
  case Nil
  then show ?case by (simp add: select_run_def select_start_def highlight_ok_def CLOSED_SELECT_MENU_def)
qed (simp add: select_run_def event_highlight)

section \<open>What is published\<close>

lemma active_open:
  assumes "highlight_ok s" "option_count s \<noteq> 0"
  obtains i where "i < length (sc_options s)" "activeIndex s = int i" "option_at (sc_options s) (activeIndex s) = Some (sc_options s ! i)"
proof -
  have "0 \<le> activeIndex s" "activeIndex s < int (length (sc_options s))" using active_bounds [OF assms(1)] assms(2) by (simp_all add: option_count_def)
  then show ?thesis by (intro that [of "nat (activeIndex s)"]) (auto simp: option_at_def nat_less_iff)
qed

lemma option_at_Some: "option_at os i = Some x \<Longrightarrow> \<exists>k < length os. i = int k \<and> x = os ! k"
  by (auto simp: option_at_def nat_less_iff split: if_splits intro: exI [of _ "nat i"])

lemma quiet [simp]:
  "sc_published (closeMenu b s) = sc_published s" "sc_published (openMenu i s) = sc_published s" "sc_published (menu_dispatch e s) = sc_published s"
  "sc_published (toggle_menu s) = sc_published s" "sc_published (publish_value v s) = sc_published s @ [v]"
  by (simp_all add: closeMenu_def openMenu_def menu_dispatch_def toggle_menu_def publish_value_def Let_def)

lemma commit_published:
  "sc_published (commit_option i s) = sc_published s @
     (if sc_disabled s then [] else case option_at (sc_options s) i of Some x \<Rightarrow> [so_value x] | None \<Rightarrow> [])"
  by (simp add: commit_option_def split: option.split)

definition trigger_command :: "string \<Rightarrow> select_control \<Rightarrow> key_command" where
  "trigger_command key s = selectTriggerKeyCommand \<lparr>ki_key = key, ki_open = me_open (sc_menu s), ki_disabled = sc_disabled s, ki_activeIndex = activeIndex s,
     ki_selectedIndex = selectedIndex s, ki_optionCount = option_count s\<rparr>"

lemma trigger_key: "applySelectTriggerKey key s =
    (if trigger_command key s = KeyNoop then s else if trigger_command key s = KeyClose then closeMenu True (prevent s)
     else applyIndexedSelectCommand (trigger_command key s) s)"
  by (simp add: applySelectTriggerKey_def trigger_command_def Let_def)

lemma trigger_commits:
  assumes "trigger_command key s = KeyCommit i \<or> trigger_command key s = KeyTab i"
  shows "me_open (sc_menu s) \<and> \<not> sc_disabled s \<and> i = activeIndex s"
  using assms by (auto simp: trigger_command_def selectTriggerKeyCommand_def SELECT_KEY_COMMANDS_def commitOrOpen_def split: if_splits)

lemma key_published:
  "sc_published (applySelectTriggerKey key s) = sc_published s @
     (if (\<exists>i. trigger_command key s = KeyCommit i \<or> trigger_command key s = KeyTab i)
      then (case option_at (sc_options s) (activeIndex s) of Some x \<Rightarrow> [so_value x] | None \<Rightarrow> []) else [])"
proof (cases "trigger_command key s")
  case (KeyCommit i)
  then show ?thesis using trigger_commits [of key s i] by (simp add: trigger_key applyIndexedSelectCommand_def commit_published)
next
  case (KeyTab i)
  then show ?thesis using trigger_commits [of key s i] by (simp add: trigger_key applyIndexedSelectCommand_def split: option.split)
qed (simp_all add: trigger_key applyIndexedSelectCommand_def)

text \<open>C29: The select publishes what it announces. In every state of the control, whatever its owner did to the options meanwhile, an event
  publishes nothing, or exactly one value of an option on offer, and then the control is enabled and its menu open: a pressed row
  publishes its own value, and a key publishes the option at the active index, which is the one named to assistive technology as
  the active descendant.\<close>

theorem select_publishes_announced:
  assumes "s = select_run es (select_start v os b)"
  shows "sc_published (select_handles s e) = sc_published s \<or>
    (\<not> sc_disabled s \<and> me_open (sc_menu s) \<and> (\<exists>i < length (sc_options s).
       sc_published (select_handles s e) = sc_published s @ [so_value (sc_options s ! i)]
       \<and> (e = PressRow i \<or> (\<exists>k. e = PressKey k) \<and> activeIndex s = int i \<and> activeDescendant listboxId s = Some (optionId listboxId (int i)))))"
proof (cases e)
  case (PressKey k)
  show ?thesis
  proof (cases "(\<exists>i. trigger_command k s = KeyCommit i \<or> trigger_command k s = KeyTab i) \<and> option_at (sc_options s) (activeIndex s) \<noteq> None")
    case True
    then obtain x where x: "option_at (sc_options s) (activeIndex s) = Some x" by auto
    have open_: "me_open (sc_menu s)" "\<not> sc_disabled s" using True trigger_commits [of k s] by blast+
    from option_at_Some [OF x] obtain i where "i < length (sc_options s)" "activeIndex s = int i" "x = sc_options s ! i" by auto
    then show ?thesis using open_ True x PressKey by (auto simp: key_published activeDescendant_def selectActiveOptionId_def)
  qed (auto simp: PressKey key_published split: option.split)
next
  case (PressRow i)
  then show ?thesis by (auto simp: commit_published option_at_def selectShouldRenderMenu_def split: option.split)
qed simp_all

section \<open>Every option can be reached by keyboard\<close>

lemma key_home:
  assumes "\<not> sc_disabled s" "option_count s \<noteq> 0"
  shows "applySelectTriggerKey ''Home'' s = (prevent s)\<lparr>sc_menu := \<lparr>me_open = True, me_highlight = Some 0\<rparr>\<rparr>"
proof -
  have "trigger_command ''Home'' s = KeyMove 0" using assms by (simp add: trigger_command_def selectTriggerKeyCommand_def SELECT_KEY_COMMANDS_def)
  moreover have "option_count (prevent s) = option_count s" by (simp add: option_count_def)
  ultimately show ?thesis using assms by (auto simp: trigger_key applyIndexedSelectCommand_def openMenu_def menu_dispatch_def option_count_def)
qed

lemma key_down:
  assumes "\<not> sc_disabled s" "sc_menu s = \<lparr>me_open = True, me_highlight = Some (int j)\<rparr>" "Suc j < length (sc_options s)"
  shows "applySelectTriggerKey ''ArrowDown'' s = (prevent s)\<lparr>sc_menu := \<lparr>me_open = True, me_highlight = Some (int (Suc j))\<rparr>\<rparr>"
proof -
  have "activeIndex s = int j" using assms by (auto simp: activeIndex_def selectActiveIndex_def option_count_def)
  then have "trigger_command ''ArrowDown'' s = KeyMove (int (Suc j))"
    using assms by (simp add: trigger_command_def selectTriggerKeyCommand_def SELECT_KEY_COMMANDS_def lastOptionIndex_def option_count_def)
  moreover have "option_count (prevent s) = option_count s" by (simp add: option_count_def)
  ultimately show ?thesis using assms by (auto simp: trigger_key applyIndexedSelectCommand_def openMenu_def menu_dispatch_def option_count_def)
qed

lemma key_enter:
  assumes "\<not> sc_disabled s" "sc_menu s = \<lparr>me_open = True, me_highlight = Some (int j)\<rparr>" "j < length (sc_options s)"
  shows "sc_published (applySelectTriggerKey ''Enter'' s) = sc_published s @ [so_value (sc_options s ! j)] \<and> sc_menu (applySelectTriggerKey ''Enter'' s) = CLOSED_SELECT_MENU"
proof -
  have "activeIndex s = int j" using assms by (auto simp: activeIndex_def selectActiveIndex_def option_count_def)
  then have "trigger_command ''Enter'' s = KeyCommit (int j)"
    using assms by (simp add: trigger_command_def selectTriggerKeyCommand_def SELECT_KEY_COMMANDS_def commitOrOpen_def)
  then show ?thesis using assms
    by (simp add: trigger_key applyIndexedSelectCommand_def commit_option_def option_at_def closeMenu_def menu_dispatch_def publish_value_def Let_def)
qed

lemma keys_down:
  assumes "\<not> sc_disabled s" "sc_menu s = \<lparr>me_open = True, me_highlight = Some (int j)\<rparr>" "j + k < length (sc_options s)"
  shows "let s' = select_run (replicate k (PressKey ''ArrowDown'')) s in
     \<not> sc_disabled s' \<and> sc_options s' = sc_options s \<and> sc_published s' = sc_published s \<and> sc_menu s' = \<lparr>me_open = True, me_highlight = Some (int (j + k))\<rparr>"
  using assms
proof (induction k arbitrary: s j)
  case (Suc k)
  let ?s = "(prevent s)\<lparr>sc_menu := \<lparr>me_open = True, me_highlight = Some (int (Suc j))\<rparr>\<rparr>"
  have "select_handles s (PressKey ''ArrowDown'') = ?s" using key_down [of s j] Suc.prems by simp
  then show ?case using Suc.IH [of ?s "Suc j"] Suc.prems by (simp add: select_run_def Let_def)
qed (simp add: select_run_def)

text \<open>The keyboard reaches every option. From every state of an enabled control, with its menu open or closed, \<^verbatim>\<open>Home\<close>, then
  \<^verbatim>\<open>ArrowDown\<close> as often as the index says, then \<^verbatim>\<open>Enter\<close> publishes exactly the value of that option and leaves the menu closed.\<close>

theorem select_reaches_every_option:
  assumes "\<not> sc_disabled s" "i < length (sc_options s)"
  shows "sc_published (select_run (PressKey ''Home'' # replicate i (PressKey ''ArrowDown'') @ [PressKey ''Enter'']) s)
      = sc_published s @ [so_value (sc_options s ! i)]
    \<and> sc_menu (select_run (PressKey ''Home'' # replicate i (PressKey ''ArrowDown'') @ [PressKey ''Enter'']) s) = CLOSED_SELECT_MENU"
proof -
  define s1 where "s1 = (prevent s)\<lparr>sc_menu := \<lparr>me_open = True, me_highlight = Some (int 0)\<rparr>\<rparr>"
  define s2 where "s2 = select_run (replicate i (PressKey ''ArrowDown'')) s1"
  have "select_handles s (PressKey ''Home'') = s1" using key_home [of s] assms by (cases "sc_options s") (simp_all add: s1_def option_count_def)
  then have run: "select_run (PressKey ''Home'' # replicate i (PressKey ''ArrowDown'') @ [PressKey ''Enter'']) s = applySelectTriggerKey ''Enter'' s2"
    by (simp add: select_run_def s2_def)
  have s1: "\<not> sc_disabled s1" "sc_menu s1 = \<lparr>me_open = True, me_highlight = Some (int 0)\<rparr>" "sc_options s1 = sc_options s" "sc_published s1 = sc_published s"
    using assms by (simp_all add: s1_def)
  have "\<not> sc_disabled s2" "sc_options s2 = sc_options s" "sc_published s2 = sc_published s" "sc_menu s2 = \<lparr>me_open = True, me_highlight = Some (int i)\<rparr>"
    using keys_down [of s1 0 i] s1 assms(2) by (simp_all add: s2_def Let_def)
  then show ?thesis using key_enter [of s2 i] assms(2) by (simp add: run)
qed

definition sample_options :: "select_option list" where
  "sample_options = [\<lparr>so_value = ''a'', so_label = ''A''\<rparr>, \<lparr>so_value = ''b'', so_label = ''B''\<rparr>]"

theorem select_publishes_announced_witness:
  "sc_published (select_handles (select_run [PressTrigger, PressKey ''ArrowDown'', OwnerSets ''b'' (take 1 sample_options) False] (select_start ''a'' sample_options False)) (PressKey ''Tab'')) = [''a'']
   \<and> activeDescendant ''x'' (select_run [PressTrigger, PressKey ''ArrowDown'', OwnerSets ''b'' (take 1 sample_options) False] (select_start ''a'' sample_options False)) = Some ''x-0''"
proof -
  define s where "s = select_run [PressTrigger, PressKey ''ArrowDown'', OwnerSets ''b'' (take 1 sample_options) False] (select_start ''a'' sample_options False)"
  have e: "sc_published (select_handles s (PressKey ''Tab'')) = [''a'']" "sc_published s = []" "activeDescendant ''x'' s = Some ''x-0''"
    unfolding s_def by code_simp+
  have "sc_published (select_handles s (PressKey ''Tab'')) = sc_published s \<or> me_open (sc_menu s)"
    using select_publishes_announced [OF s_def] by blast
  with e show ?thesis by (simp add: s_def)
qed

theorem select_reaches_every_option_witness:
  "sc_published (select_run (PressKey ''Home'' # replicate 1 (PressKey ''ArrowDown'') @ [PressKey ''Enter'']) (select_start ''a'' sample_options False)) = [''b'']"
  using select_reaches_every_option [of "select_start ''a'' sample_options False" 1] by (simp add: select_start_def sample_options_def)

text \<open>A control that is disabled while its menu is open renders no menu but still says that it controls one.\<close>

lemma disabled_open_controls_nothing:
  "let s = select_run [PressTrigger, OwnerSets ''a'' sample_options True] (select_start ''a'' sample_options False)
   in \<not> selectShouldRenderMenu (me_open (sc_menu s)) (sc_disabled s)
      \<and> rl_controls (selectTriggerRelations (me_open (sc_menu s)) ''x'' (activeDescendant ''x'' s) None None None) = Some ''x''
      \<and> select_handles s (PressKey ''Escape'') = s"
  by code_simp

text \<open>The highlight that a Tab keeps is never read: whatever opens the menu next sets it.\<close>

lemma kept_highlight_unused: "me_highlight (sc_menu (openMenu i s)) = me_highlight (sc_menu (openMenu i (s\<lparr>sc_menu := (sc_menu s)\<lparr>me_highlight := h\<rparr>\<rparr>)))
    \<or> sc_disabled s \<or> option_count s = 0"
  by (auto simp: openMenu_def menu_dispatch_def option_count_def)

end
