(* ===== verification/Layer_Geometry.thy ===== *)
theory Layer_Geometry
  imports Complex_Main
begin

text \<open>
  Where floating layers land: \<^verbatim>\<open>select-position.ts\<close> places the menu of a select, \<^verbatim>\<open>tooltip-position.ts\<close> the bubble of a tooltip.
  Lengths are rationals, the viewport is an argument, and a style is the part of it the functions compute.
\<close>

section \<open>Boxes\<close>

record anchor_box =
  bo_top :: rat
  bo_bottom :: rat
  bo_left :: rat
  bo_right :: rat
  bo_width :: rat
  bo_height :: rat

record screen_size =
  vp_width :: rat
  vp_height :: rat

text \<open>What a browser measures: the edges and the extent of a box agree.\<close>

definition box_ok :: "anchor_box \<Rightarrow> bool" where
  "box_ok a \<longleftrightarrow> 0 \<le> bo_width a \<and> 0 \<le> bo_height a \<and> bo_right a = bo_left a + bo_width a \<and> bo_bottom a = bo_top a + bo_height a"

section \<open>The menu of a select\<close>

datatype growth = GrowDown | GrowUp
datatype pin = PinStart | PinEnd
datatype align = AlignLeft | AlignRight
datatype placement = PlaceBelow | PlaceRight

definition MENU_drop :: rat where "MENU_drop = 4"
definition MENU_reversal :: rat where "MENU_reversal = 8"
definition MENU_margin :: rat where "MENU_margin = 8"
definition MENU_min :: rat where "MENU_min = 120"
definition MENU_max :: rat where "MENU_max = 280"
definition MENU_besideWidth :: rat where "MENU_besideWidth = 160"
definition MENU_besideOffset :: rat where "MENU_besideOffset = 12"

lemmas menu_constants = MENU_drop_def MENU_reversal_def MENU_margin_def MENU_min_def MENU_max_def MENU_besideWidth_def MENU_besideOffset_def

record menu_style =
  my_top :: "rat option"
  my_bottom :: "rat option"
  my_left :: "rat option"
  my_right :: "rat option"
  my_minWidth :: rat
  my_width :: "rat option"
  my_maxHeight :: rat

record stacked_slot =
  sk_growth :: growth
  sk_offset :: rat
  sk_room :: rat

definition bandedHeight :: "rat \<Rightarrow> rat" where
  "bandedHeight requested = min (max requested MENU_min) MENU_max"

definition leftInset :: "rat \<Rightarrow> rat \<Rightarrow> rat \<Rightarrow> rat" where
  "leftInset desired width viewportWidth = max MENU_margin (min desired (viewportWidth - MENU_margin - width))"

definition rightInset :: "rat \<Rightarrow> rat \<Rightarrow> rat" where
  "rightInset anchorRight viewportWidth = max MENU_margin (viewportWidth - anchorRight)"

definition stackedSlot :: "anchor_box \<Rightarrow> rat \<Rightarrow> rat \<Rightarrow> stacked_slot" where
  "stackedSlot a height viewportHeight =
     (let roomBelow = viewportHeight - bo_bottom a - MENU_margin; roomAbove = bo_top a - MENU_margin in
      if height + MENU_drop > roomBelow \<and> roomAbove > roomBelow
      then \<lparr>sk_growth = GrowUp, sk_offset = viewportHeight - bo_top a + MENU_reversal, sk_room = roomAbove\<rparr>
      else \<lparr>sk_growth = GrowDown, sk_offset = bo_bottom a + MENU_drop, sk_room = roomBelow\<rparr>)"

definition stackedStyle :: "anchor_box \<Rightarrow> pin \<Rightarrow> rat \<Rightarrow> screen_size \<Rightarrow> bool \<Rightarrow> menu_style" where
  "stackedStyle a p height screen matched =
     (let width = max (bo_width a) 0; slot = stackedSlot a height (vp_height screen) in
      \<lparr>my_top = (if sk_growth slot = GrowUp then None else Some (sk_offset slot)), my_bottom = (if sk_growth slot = GrowUp then Some (sk_offset slot) else None),
       my_left = (if p = PinEnd then None else Some (leftInset (bo_left a) width (vp_width screen))),
       my_right = (if p = PinEnd then Some (rightInset (bo_right a) (vp_width screen)) else None),
       my_minWidth = width, my_width = (if matched then Some width else None),
       my_maxHeight = max 0 (min MENU_max (sk_room slot - MENU_drop))\<rparr>)"

definition besideStyle :: "anchor_box \<Rightarrow> rat \<Rightarrow> screen_size \<Rightarrow> menu_style" where
  "besideStyle a height screen =
     (let roomBelow = vp_height screen - bo_top a - MENU_margin; roomAbove = bo_top a - MENU_margin;
          openUp = (height + MENU_reversal > roomBelow \<and> roomAbove > roomBelow);
          room = (if openUp then bo_top a - MENU_margin - MENU_drop else roomBelow)
      in \<lparr>my_top = (if openUp then None else Some (bo_top a)), my_bottom = (if openUp then Some (vp_height screen - bo_top a + MENU_reversal) else None),
          my_left = Some (leftInset (bo_right a + MENU_besideOffset) MENU_besideWidth (vp_width screen)), my_right = None,
          my_minWidth = MENU_besideWidth, my_width = None, my_maxHeight = max MENU_min (min MENU_max room)\<rparr>)"

definition computeSelectMenuStyle :: "anchor_box \<Rightarrow> align option \<Rightarrow> placement option \<Rightarrow> rat option \<Rightarrow> anchor_box option \<Rightarrow> screen_size \<Rightarrow> menu_style" where
  "computeSelectMenuStyle trigger al placement menuHeight match screen =
     (let height = bandedHeight (case menuHeight of Some h \<Rightarrow> h | None \<Rightarrow> MENU_max) in
      if placement = Some PlaceRight then besideStyle trigger height screen
      else let a = (case match of Some m \<Rightarrow> m | None \<Rightarrow> trigger);
               p = (case al of Some AlignRight \<Rightarrow> PinEnd | Some AlignLeft \<Rightarrow> PinStart
                             | None \<Rightarrow> if bo_right a > vp_width screen / 2 then PinEnd else PinStart)
           in stackedStyle a p height screen (match \<noteq> None))"

text \<open>The vertical extent of a menu on the screen whose content asks for \<open>c\<close>.\<close>

definition shown_height :: "menu_style \<Rightarrow> rat \<Rightarrow> rat" where
  "shown_height y c = min c (my_maxHeight y)"

definition menu_span :: "menu_style \<Rightarrow> rat \<Rightarrow> rat \<Rightarrow> rat \<times> rat" where
  "menu_span y c viewportHeight =
     (case my_top y of Some z \<Rightarrow> (z, z + shown_height y c)
      | None \<Rightarrow> (viewportHeight - the (my_bottom y) - shown_height y c, viewportHeight - the (my_bottom y)))"

section \<open>The bubble of a tooltip\<close>

datatype tooltip_side = SideTop | SideBottom | SideLeft | SideRight

definition GAP_PX :: rat where "GAP_PX = 8"
definition VIEWPORT_PAD_PX :: rat where "VIEWPORT_PAD_PX = 8"

definition clamp :: "rat \<Rightarrow> rat \<Rightarrow> rat \<Rightarrow> rat" where
  "clamp v lo hi = min hi (max lo v)"

definition preferAfter :: "rat \<Rightarrow> rat \<Rightarrow> rat \<Rightarrow> rat \<Rightarrow> rat" where
  "preferAfter after before extent view =
     (let overflowsEnd = (after + extent > view - VIEWPORT_PAD_PX \<and> before \<ge> VIEWPORT_PAD_PX);
          overflowsStart = (after < VIEWPORT_PAD_PX \<and> before + extent \<le> view - VIEWPORT_PAD_PX)
      in if overflowsEnd \<or> overflowsStart then before else after)"

definition computeTooltipStyle :: "anchor_box \<Rightarrow> tooltip_side \<Rightarrow> rat \<Rightarrow> rat \<Rightarrow> screen_size \<Rightarrow> rat \<times> rat" where
  "computeTooltipStyle trigger side sizeWidth sizeHeight screen =
     (let vw = vp_width screen; vh = vp_height screen; width = max 0 sizeWidth; height = max 0 sizeHeight; pad = VIEWPORT_PAD_PX;
          below = bo_bottom trigger + GAP_PX; above = bo_top trigger - GAP_PX - height;
          after = bo_right trigger + GAP_PX; before = bo_left trigger - GAP_PX - width;
          y = (if side = SideLeft \<or> side = SideRight then bo_top trigger + bo_height trigger / 2 - height / 2
               else preferAfter (if side = SideBottom then below else above) (if side = SideBottom then above else below) height vh);
          x = (if side = SideTop \<or> side = SideBottom then bo_left trigger
               else preferAfter (if side = SideRight then after else before) (if side = SideRight then before else after) width vw)
      in (clamp y pad (max pad (vh - pad - height)), clamp x pad (max pad (vw - pad - width))))"

section \<open>Where the menu lands\<close>

lemma stacked_max: "my_maxHeight (stackedStyle a p h s m) = max 0 (min MENU_max (sk_room (stackedSlot a h (vp_height s)) - MENU_drop))"
  by (simp add: stackedStyle_def Let_def)

lemma slot_up: "sk_growth (stackedSlot a h v) = GrowUp \<longleftrightarrow> h + 4 > v - bo_bottom a - 8 \<and> bo_top a - 8 > v - bo_bottom a - 8"
  by (simp add: stackedSlot_def Let_def menu_constants)

lemma stacked_span:
  "menu_span (stackedStyle a p h s m) c (vp_height s) =
     (let g = shown_height (stackedStyle a p h s m) c in
      if sk_growth (stackedSlot a h (vp_height s)) = GrowUp then (bo_top a - 8 - g, bo_top a - 8) else (bo_bottom a + 4, bo_bottom a + 4 + g))"
  by (simp add: menu_span_def stackedStyle_def stackedSlot_def Let_def menu_constants)

lemma stacked_room:
  "sk_room (stackedSlot a h v) = (if sk_growth (stackedSlot a h v) = GrowUp then bo_top a - 8 else v - bo_bottom a - 8)"
  by (simp add: stackedSlot_def Let_def menu_constants)

lemma banded: "120 \<le> bandedHeight h" "bandedHeight h \<le> 280" "120 \<le> h \<Longrightarrow> h \<le> 280 \<Longrightarrow> bandedHeight h = h"
  by (auto simp: bandedHeight_def menu_constants)

lemma stacked_lands:
  assumes "box_ok a" "0 \<le> c" "y = stackedStyle a p (bandedHeight h) s m" "menu_span y c (vp_height s) = (lo, hi)"
  shows "hi \<le> bo_top a - 8 \<or> lo \<ge> bo_bottom a + 4"
    "0 < my_maxHeight y \<Longrightarrow> 0 \<le> bo_top a \<Longrightarrow> bo_bottom a \<le> vp_height s \<Longrightarrow> 4 \<le> lo \<and> hi \<le> vp_height s - 8"
    "bo_bottom a + 4 + bandedHeight h \<le> vp_height s - 8 \<Longrightarrow> c \<le> bandedHeight h \<Longrightarrow> lo = bo_bottom a + 4 \<and> hi = lo + c"
proof -
  let ?up = "sk_growth (stackedSlot a (bandedHeight h) (vp_height s)) = GrowUp"
  have b: "bo_top a \<le> bo_bottom a" using assms(1) by (simp add: box_ok_def)
  have y: "my_maxHeight y = max 0 (min 280 ((if ?up then bo_top a - 8 else vp_height s - bo_bottom a - 8) - 4))"
    by (simp add: assms(3) stacked_max stacked_room menu_constants)
  have g: "shown_height y c = min c (my_maxHeight y)" "0 \<le> shown_height y c" using assms(2) y by (auto simp: shown_height_def)
  have span: "(lo, hi) = (if ?up then (bo_top a - 8 - shown_height y c, bo_top a - 8) else (bo_bottom a + 4, bo_bottom a + 4 + shown_height y c))"
    unfolding assms(4) [symmetric] assms(3) stacked_span Let_def by (simp only:)
  show "hi \<le> bo_top a - 8 \<or> lo \<ge> bo_bottom a + 4" using span by (auto split: if_splits)
  show "4 \<le> lo \<and> hi \<le> vp_height s - 8" if "0 < my_maxHeight y" "0 \<le> bo_top a" "bo_bottom a \<le> vp_height s"
    using that span y g b by (auto split: if_splits)
  show "lo = bo_bottom a + 4 \<and> hi = lo + c" if "bo_bottom a + 4 + bandedHeight h \<le> vp_height s - 8" "c \<le> bandedHeight h"
  proof -
    have "\<not> ?up" using that(1) by (simp add: slot_up)
    moreover have "c \<le> my_maxHeight y" using that calculation banded(2) [of h] assms(2) y by simp
    ultimately show ?thesis using span g by simp
  qed
qed

lemma left_lands: "8 \<le> leftInset d w v" "w \<le> v - 16 \<Longrightarrow> leftInset d w v + w \<le> v - 8" "8 \<le> d \<Longrightarrow> d + w \<le> v - 8 \<Longrightarrow> leftInset d w v = d"
  by (auto simp: leftInset_def menu_constants)

lemma below_style:
  assumes "placement \<noteq> Some PlaceRight"
  obtains p where "computeSelectMenuStyle trigger al placement menuHeight match s
      = stackedStyle (case match of Some m \<Rightarrow> m | None \<Rightarrow> trigger) p (bandedHeight (case menuHeight of Some h \<Rightarrow> h | None \<Rightarrow> MENU_max)) s (match \<noteq> None)"
  using assms by (simp add: computeSelectMenuStyle_def Let_def)


section \<open>Where the bubble lands\<close>

lemma clamp_lands: "0 \<le> w \<Longrightarrow> w \<le> v - 16 \<Longrightarrow> 8 \<le> clamp z 8 (max 8 (v - 8 - w)) \<and> clamp z 8 (max 8 (v - 8 - w)) + w \<le> v - 8"
  by (auto simp: clamp_def)

lemma clamp_id: "8 \<le> z \<Longrightarrow> z + w \<le> v - 8 \<Longrightarrow> clamp z 8 (max 8 (v - 8 - w)) = z"
  by (auto simp: clamp_def)

definition fits_view :: "rat \<Rightarrow> rat \<Rightarrow> rat \<Rightarrow> bool" where
  "fits_view z extent view \<longleftrightarrow> 8 \<le> z \<and> z + extent \<le> view - 8"

lemma prefer_first: "fits_view z w v \<Longrightarrow> preferAfter z z' w v = z"
  by (simp add: preferAfter_def fits_view_def VIEWPORT_PAD_PX_def)

lemma prefer_second:
  assumes "fits_view z' w v" "\<not> fits_view z w v"
  shows "preferAfter z z' w v = z'"
  using assms by (auto simp: preferAfter_def fits_view_def VIEWPORT_PAD_PX_def Let_def)

text \<open>A tooltip stays on the screen and beside its trigger. A bubble that fits into the viewport keeps 8 pixels to every edge. When there
  is room above or below the trigger, a tooltip on the top or bottom side is clear of the trigger by 8 pixels, and it is on
  the side asked for if that has room; on the left or right side the same holds of the columns beside the trigger.\<close>

theorem tooltip_in_view:
  assumes "box_ok a" "0 \<le> w" "0 \<le> h" "computeTooltipStyle a side w h s = (y, x)"
  shows "(h \<le> vp_height s - 16 \<longrightarrow> 8 \<le> y \<and> y + h \<le> vp_height s - 8) \<and> (w \<le> vp_width s - 16 \<longrightarrow> 8 \<le> x \<and> x + w \<le> vp_width s - 8)
    \<and> (side = SideTop \<and> fits_view (bo_top a - 8 - h) h (vp_height s) \<longrightarrow> y = bo_top a - 8 - h)
    \<and> (side = SideBottom \<and> fits_view (bo_bottom a + 8) h (vp_height s) \<longrightarrow> y = bo_bottom a + 8)
    \<and> ((side = SideTop \<or> side = SideBottom) \<and> (fits_view (bo_top a - 8 - h) h (vp_height s) \<or> fits_view (bo_bottom a + 8) h (vp_height s))
        \<longrightarrow> y + h = bo_top a - 8 \<or> y = bo_bottom a + 8)
    \<and> ((side = SideLeft \<or> side = SideRight) \<and> (fits_view (bo_left a - 8 - w) w (vp_width s) \<or> fits_view (bo_right a + 8) w (vp_width s))
        \<longrightarrow> x + w = bo_left a - 8 \<or> x = bo_right a + 8)"
proof -
  let ?v = "vp_height s" and ?above = "bo_top a - 8 - h" and ?below = "bo_bottom a + 8" and ?vw = "vp_width s" and ?before = "bo_left a - 8 - w" and ?after = "bo_right a + 8"
  have y: "y = clamp (if side = SideLeft \<or> side = SideRight then bo_top a + bo_height a / 2 - h / 2
      else if side = SideBottom then preferAfter ?below ?above h ?v else preferAfter ?above ?below h ?v) 8 (max 8 (?v - 8 - h))"
    and x: "x = clamp (if side = SideTop \<or> side = SideBottom then bo_left a
      else if side = SideRight then preferAfter ?after ?before w ?vw else preferAfter ?before ?after w ?vw) 8 (max 8 (?vw - 8 - w))"
    using assms by (auto simp: computeTooltipStyle_def Let_def VIEWPORT_PAD_PX_def GAP_PX_def max_def)
  have fit: "fits_view z e u \<Longrightarrow> clamp z 8 (max 8 (u - 8 - e)) = z" for z e u unfolding fits_view_def using clamp_id by blast
  have pick: "fits_view z e u \<or> fits_view z' e u \<Longrightarrow> clamp (preferAfter z z' e u) 8 (max 8 (u - 8 - e)) = z
      \<or> clamp (preferAfter z z' e u) 8 (max 8 (u - 8 - e)) = z'" for z z' e u
    using prefer_first prefer_second fit by metis
  have "side = SideTop \<and> fits_view ?above h ?v \<longrightarrow> y = ?above" "side = SideBottom \<and> fits_view ?below h ?v \<longrightarrow> y = ?below"
    using y by (auto simp: prefer_first fit)
  moreover have "(side = SideTop \<or> side = SideBottom) \<and> (fits_view ?above h ?v \<or> fits_view ?below h ?v) \<longrightarrow> y + h = bo_top a - 8 \<or> y = ?below"
    using y pick [of ?above h ?v ?below] pick [of ?below h ?v ?above] by auto
  moreover have "(side = SideLeft \<or> side = SideRight) \<and> (fits_view ?before w ?vw \<or> fits_view ?after w ?vw) \<longrightarrow> x + w = bo_left a - 8 \<or> x = ?after"
    using x pick [of ?before w ?vw ?after] pick [of ?after w ?vw ?before] by auto
  ultimately show ?thesis using clamp_lands assms(2,3) x y by simp
qed

definition sample_anchor :: anchor_box where
  "sample_anchor = \<lparr>bo_top = 700, bo_bottom = 730, bo_left = 20, bo_right = 120, bo_width = 100, bo_height = 30\<rparr>"

definition sample_screen :: screen_size where
  "sample_screen = \<lparr>vp_width = 1024, vp_height = 800\<rparr>"


theorem tooltip_in_view_witness:
  "computeTooltipStyle sample_anchor SideBottom 80 100 sample_screen = (592, 20) \<and> (592 :: rat) + 100 = 700 - 8"
proof -
  have e: "computeTooltipStyle sample_anchor SideBottom 80 100 sample_screen = (592, 20)" by code_simp
  moreover have "box_ok sample_anchor" by code_simp
  ultimately show ?thesis using tooltip_in_view [of sample_anchor 80 100 SideBottom sample_screen 592 20]
    by (simp add: fits_view_def sample_anchor_def sample_screen_def)
qed

text \<open>The margin of 8 pixels is not kept above a reversed menu.\<close>

lemma reversed_menu_at_four:
  "fst (menu_span (computeSelectMenuStyle (sample_anchor\<lparr>bo_top := 250, bo_bottom := 280\<rparr>) None None None None (sample_screen\<lparr>vp_height := 320\<rparr>)) 280 320) = 4"
  by code_simp

end
