(* ===== verification/Owned_Process.thy ===== *)
theory Owned_Process
  imports Benes_Prelude
begin

text \<open>
  The processes the evidence tooling starts and has to get rid of again: \<^verbatim>\<open>scripts/evidence-process.ts\<close>. The child process, its
  signals and the clock are outside; what they report (output, \<^verbatim>\<open>error\<close>, \<^verbatim>\<open>close\<close>, a timer that fires, an answer of the terminating
  command) is an event, in any order. A timer can fire only while it is pending. Durations are \<^typ>\<open>jsnum\<close>s.
\<close>

section \<open>Arguments\<close>

record owned_result =
  or_pid :: nat
  or_stdout :: string
  or_stderr :: string
  or_exitCode :: int
  or_timedOut :: bool

record owned_options =
  oo_timeoutMs :: jsnum
  oo_killGraceMs :: "jsnum option"
  oo_terminationTimeoutMs :: "jsnum option"
  oo_platform :: string

definition positive_ms :: "jsnum \<Rightarrow> bool" where
  "positive_ms v = (case v of Fin r \<Rightarrow> r > 0 | _ \<Rightarrow> False)"

definition termination_ms :: "owned_options \<Rightarrow> jsnum" where
  "termination_ms opts = (case oo_terminationTimeoutMs opts of Some v \<Rightarrow> v | None \<Rightarrow> Fin 5000)"

definition grace_ms :: "owned_options \<Rightarrow> jsnum" where
  "grace_ms opts = (case oo_killGraceMs opts of Some v \<Rightarrow> v | None \<Rightarrow> Fin 1000)"

definition helperTimeoutMs :: "rat \<Rightarrow> int" where
  "helperTimeoutMs terminationTimeoutMs = max 1 \<lfloor>terminationTimeoutMs * (4 / 5)\<rfloor>"

section \<open>Killing a tree\<close>

definition windowsTerminationArgs :: "int \<Rightarrow> (string, string list) result" where
  "windowsTerminationArgs pid =
     (if pid > 0 \<and> pid < 2 ^ 53 then Inr [''/PID'', show_int pid, ''/T'', ''/F''] else Inl ''owned process pid must be a positive integer'')"

text \<open>The command that kills a tree on Windows, with a timer of its own.\<close>

record bounded_command =
  bc_timer :: bool
  bc_settled :: "(string, int option) result option"
  bc_killed :: bool
  bc_unref :: bool

datatype bounded_event = BoundedTimeout "string option" string | BoundedError string | BoundedClose "int option"

definition runBoundedTerminationCommand :: "jsnum \<Rightarrow> (string, bounded_command) result" where
  "runBoundedTerminationCommand timeoutMs =
     (if \<not> positive_ms timeoutMs then Inl ''termination command timeout must be greater than zero''
      else Inr \<lparr>bc_timer = True, bc_settled = None, bc_killed = False, bc_unref = False\<rparr>)"

text \<open>The first argument of \<open>BoundedTimeout\<close> is what went wrong with the kill (\<open>Some []\<close> when it was not delivered), the second the timeout as text.\<close>

fun bounded_event_step :: "bounded_command \<Rightarrow> bounded_event \<Rightarrow> bounded_command" where
  "bounded_event_step b (BoundedTimeout failure ms) =
     (if \<not> bc_timer b then b
      else if bc_settled b \<noteq> None then b\<lparr>bc_timer := False\<rparr>
      else b\<lparr>bc_timer := False, bc_killed := True, bc_unref := True,
             bc_settled := Some (Inl (''termination command timed out after '' @ ms @ ''ms'' @
               (case failure of None \<Rightarrow> [] | Some [] \<Rightarrow> ''; termination helper could not be killed''
                | Some e \<Rightarrow> ''; termination helper kill failed: '' @ e)))\<rparr>)"
| "bounded_event_step b (BoundedError e) = (if bc_settled b \<noteq> None then b else b\<lparr>bc_timer := False, bc_settled := Some (Inl e)\<rparr>)"
| "bounded_event_step b (BoundedClose code) = (if bc_settled b \<noteq> None then b else b\<lparr>bc_timer := False, bc_settled := Some (Inr code)\<rparr>)"

definition terminateWindowsTree :: "nat \<Rightarrow> (string, int option) result \<Rightarrow> bool \<Rightarrow> (string, unit) result" where
  "terminateWindowsTree pid command alive =
     bindR command (\<lambda>code. if code = Some 0 \<or> \<not> alive then Inr ()
       else Inl (''taskkill failed for owned pid '' @ show_nat pid @ '' with exit code '' @ show_int (case code of Some c \<Rightarrow> c | None \<Rightarrow> 1)))"

datatype posix_act = KillGroup string | Sleep jsnum

text \<open>\<^verbatim>\<open>process.kill\<close> of the group answers with an error code or not at all.\<close>

definition killGroup :: "string option \<Rightarrow> (string, unit) result" where
  "killGroup code = (case code of None \<Rightarrow> Inr () | Some c \<Rightarrow> if c = ''ESRCH'' then Inr () else Inl c)"

definition terminatePosixTree :: "jsnum \<Rightarrow> string option \<Rightarrow> string option \<Rightarrow> posix_act list \<times> (string, unit) result" where
  "terminatePosixTree killGraceMs term kill =
     (let asked = [KillGroup ''SIGTERM'']; waits = (if killGraceMs = PosInf \<or> positive_ms killGraceMs then [Sleep killGraceMs] else []) in
      case killGroup term of
        Inl e \<Rightarrow> (asked, Inl e)
      | Inr _ \<Rightarrow> (asked @ waits @ [KillGroup ''SIGKILL''], killGroup kill))"

section \<open>Running to the end\<close>

record owned_run =
  ow_pid :: nat
  ow_ms :: string
  ow_stdout :: string
  ow_stderr :: string
  ow_timer :: bool
  ow_terminationTimer :: bool
  ow_terminating :: bool
  ow_timedOut :: bool
  ow_terminationError :: "string option"
  ow_kills :: nat
  ow_trees :: nat
  ow_settled :: "(string, owned_result) result option"

definition runOwnedProcess :: "owned_options \<Rightarrow> string \<Rightarrow> string \<Rightarrow> nat option \<Rightarrow> (string, owned_run) result" where
  "runOwnedProcess opts command ms spawned =
     (if \<not> positive_ms (oo_timeoutMs opts) then Inl ''owned process timeout must be greater than zero''
      else if \<not> positive_ms (termination_ms opts) then Inl ''owned process termination timeout must be greater than zero''
      else case spawned of
             None \<Rightarrow> Inl (''failed to start owned process: '' @ command)
           | Some pid \<Rightarrow>
               if pid = 0 then Inl (''failed to start owned process: '' @ command)
               else Inr \<lparr>ow_pid = pid, ow_ms = ms, ow_stdout = [], ow_stderr = [], ow_timer = True, ow_terminationTimer = False, ow_terminating = False,
                     ow_timedOut = False, ow_terminationError = None, ow_kills = 0, ow_trees = 0, ow_settled = None\<rparr>)"

datatype owned_event =
    ChunkOut string
  | ChunkErr string
  | TimerFires
  | TerminationTimerFires
  | TreeTerminated
  | TreeFailed string
  | ChildError string
  | ChildClose "int option"

definition clearTimers :: "owned_run \<Rightarrow> owned_run" where
  "clearTimers r = r\<lparr>ow_timer := False, ow_terminationTimer := False\<rparr>"

definition bestEffortDirectKill :: "owned_run \<Rightarrow> owned_run" where
  "bestEffortDirectKill r = r\<lparr>ow_kills := ow_kills r + 1\<rparr>"

definition finishReject :: "string \<Rightarrow> owned_run \<Rightarrow> owned_run" where
  "finishReject err r = (if ow_settled r \<noteq> None then r else (clearTimers r)\<lparr>ow_settled := Some (Inl err)\<rparr>)"

definition owned_timeout :: "owned_run \<Rightarrow> owned_run" where
  "owned_timeout r =
     (let r1 = r\<lparr>ow_timer := False\<rparr> in
      if ow_settled r \<noteq> None then r1
      else r1\<lparr>ow_timedOut := True, ow_terminationTimer := True, ow_terminating := True, ow_trees := ow_trees r1 + 1\<rparr>)"

definition owned_termination_timeout :: "owned_run \<Rightarrow> owned_run" where
  "owned_termination_timeout r =
     (let r1 = r\<lparr>ow_terminationTimer := False\<rparr> in
      if ow_settled r \<noteq> None then r1
      else finishReject (''owned process termination timed out after '' @ ow_ms r @ ''ms'' @
             (case ow_terminationError r of Some e \<Rightarrow> ''; prior termination failure: '' @ e | None \<Rightarrow> [])) (bestEffortDirectKill r1))"

definition owned_tree_failed :: "string \<Rightarrow> owned_run \<Rightarrow> owned_run" where
  "owned_tree_failed e r =
     (let r1 = r\<lparr>ow_terminating := False\<rparr> in if ow_settled r \<noteq> None then r1 else bestEffortDirectKill (r1\<lparr>ow_terminationError := Some e\<rparr>))"

definition owned_close :: "int option \<Rightarrow> owned_run \<Rightarrow> owned_run" where
  "owned_close code r =
     (if ow_settled r \<noteq> None then r
      else (clearTimers r)\<lparr>ow_settled := Some (case ow_terminationError r of
             Some e \<Rightarrow> Inl e
           | None \<Rightarrow> Inr \<lparr>or_pid = ow_pid r, or_stdout = ow_stdout r, or_stderr = ow_stderr r, or_exitCode = (case code of Some c \<Rightarrow> c | None \<Rightarrow> 1),
                          or_timedOut = ow_timedOut r\<rparr>)\<rparr>)"

fun owned_event_step :: "owned_run \<Rightarrow> owned_event \<Rightarrow> owned_run" where
  "owned_event_step r (ChunkOut c) = r\<lparr>ow_stdout := ow_stdout r @ c\<rparr>"
| "owned_event_step r (ChunkErr c) = r\<lparr>ow_stderr := ow_stderr r @ c\<rparr>"
| "owned_event_step r TimerFires = (if ow_timer r then owned_timeout r else r)"
| "owned_event_step r TerminationTimerFires = (if ow_terminationTimer r then owned_termination_timeout r else r)"
| "owned_event_step r TreeTerminated = (if ow_terminating r then r\<lparr>ow_terminating := False\<rparr> else r)"
| "owned_event_step r (TreeFailed e) = (if ow_terminating r then owned_tree_failed e r else r)"
| "owned_event_step r (ChildError e) = finishReject e r"
| "owned_event_step r (ChildClose code) = owned_close code r"

definition owned_events :: "owned_event list \<Rightarrow> owned_run \<Rightarrow> owned_run" where
  "owned_events es r = foldl owned_event_step r es"

section \<open>Handles\<close>

datatype termination_state = NotAsked | Terminating | Terminated | TerminationFailed string

record owned_handle =
  hd_pid :: nat
  hd_ms :: string
  hd_stdout :: string
  hd_stderr :: string
  hd_exit :: "(string, owned_result) result option"
  hd_termination :: termination_state
  hd_timer :: bool
  hd_trees :: nat
  hd_kills :: nat
  hd_answers :: "termination_state list"

definition startOwnedProcess :: "owned_options \<Rightarrow> string \<Rightarrow> string \<Rightarrow> nat option \<Rightarrow> (string, owned_handle) result" where
  "startOwnedProcess opts command ms spawned =
     (if \<not> positive_ms (termination_ms opts) then Inl ''owned process termination timeout must be greater than zero''
      else case spawned of
             None \<Rightarrow> Inl (''failed to start owned process: '' @ command)
           | Some pid \<Rightarrow>
               if pid = 0 then Inl (''failed to start owned process: '' @ command)
               else Inr \<lparr>hd_pid = pid, hd_ms = ms, hd_stdout = [], hd_stderr = [], hd_exit = None, hd_termination = NotAsked, hd_timer = False,
                     hd_trees = 0, hd_kills = 0, hd_answers = []\<rparr>)"

datatype handle_event =
    HandleOut string
  | HandleErr string
  | HandleError string
  | HandleClose "int option"
  | ForceTerminate bool
  | HandleTimer
  | HandleTreeDone
  | HandleTreeFailed string

text \<open>\<^verbatim>\<open>forceTerminate\<close> answers with the state of the promise it returns; the flag tells whether the process is alive.\<close>

definition forceTerminate :: "bool \<Rightarrow> owned_handle \<Rightarrow> owned_handle" where
  "forceTerminate alive h =
     (if \<not> alive then h\<lparr>hd_answers := hd_answers h @ [Terminated]\<rparr>
      else if hd_termination h \<noteq> NotAsked then h\<lparr>hd_answers := hd_answers h @ [hd_termination h]\<rparr>
      else h\<lparr>hd_termination := Terminating, hd_timer := True, hd_trees := hd_trees h + 1, hd_answers := hd_answers h @ [Terminating]\<rparr>)"

definition handle_exit :: "(string, owned_result) result \<Rightarrow> owned_handle \<Rightarrow> owned_handle" where
  "handle_exit v h = (if hd_exit h \<noteq> None then h else h\<lparr>hd_exit := Some v\<rparr>)"

fun handle_event_step :: "owned_handle \<Rightarrow> handle_event \<Rightarrow> owned_handle" where
  "handle_event_step h (HandleOut c) = h\<lparr>hd_stdout := hd_stdout h @ c\<rparr>"
| "handle_event_step h (HandleErr c) = h\<lparr>hd_stderr := hd_stderr h @ c\<rparr>"
| "handle_event_step h (HandleError e) = handle_exit (Inl e) h"
| "handle_event_step h (HandleClose code) =
     handle_exit (Inr \<lparr>or_pid = hd_pid h, or_stdout = hd_stdout h, or_stderr = hd_stderr h, or_exitCode = (case code of Some c \<Rightarrow> c | None \<Rightarrow> 1),
                       or_timedOut = False\<rparr>) h"
| "handle_event_step h (ForceTerminate alive) = forceTerminate alive h"
| "handle_event_step h HandleTimer =
     (if \<not> hd_timer h then h
      else if hd_termination h \<noteq> Terminating then h\<lparr>hd_timer := False\<rparr>
      else h\<lparr>hd_timer := False, hd_kills := hd_kills h + 1,
             hd_termination := TerminationFailed (''owned process termination timed out after '' @ hd_ms h @ ''ms'')\<rparr>)"
| "handle_event_step h HandleTreeDone = (if hd_termination h \<noteq> Terminating then h else h\<lparr>hd_timer := False, hd_termination := Terminated\<rparr>)"
| "handle_event_step h (HandleTreeFailed e) =
     (if hd_termination h \<noteq> Terminating then h else h\<lparr>hd_timer := False, hd_kills := hd_kills h + 1, hd_termination := TerminationFailed e\<rparr>)"

definition handle_events :: "handle_event list \<Rightarrow> owned_handle \<Rightarrow> owned_handle" where
  "handle_events es h = foldl handle_event_step h es"

section \<open>A run settles\<close>

definition run_ok :: "owned_run \<Rightarrow> bool" where
  "run_ok r \<longleftrightarrow> (ow_settled r = None \<longrightarrow> ow_timer r \<noteq> ow_terminationTimer r)
     \<and> (ow_settled r \<noteq> None \<longrightarrow> \<not> ow_timer r \<and> \<not> ow_terminationTimer r)
     \<and> (ow_timer r \<longrightarrow> \<not> ow_timedOut r) \<and> (ow_timedOut r \<longrightarrow> ow_trees r = 1) \<and> (\<not> ow_timedOut r \<longrightarrow> ow_trees r = 0 \<and> ow_kills r = 0)
     \<and> (ow_terminationError r \<noteq> None \<longrightarrow> ow_timedOut r) \<and> (ow_terminating r \<longrightarrow> ow_timedOut r)
     \<and> (ow_settled r = None \<longrightarrow> ow_timedOut r = ow_terminationTimer r)"

lemmas owned_steps = owned_timeout_def owned_termination_timeout_def owned_tree_failed_def owned_close_def finishReject_def clearTimers_def
  bestEffortDirectKill_def Let_def

lemma started_ok: "runOwnedProcess opts command ms spawned = Inr r \<Longrightarrow> run_ok r"
  by (auto simp: runOwnedProcess_def run_ok_def split: if_splits option.splits)

lemma event_ok: "run_ok r \<Longrightarrow> run_ok (owned_event_step r e)"
  by (cases e) (auto simp: run_ok_def owned_steps)

lemma events_ok: "run_ok r \<Longrightarrow> run_ok (owned_events es r)"
  by (induction es arbitrary: r) (simp_all add: owned_events_def event_ok)

lemma settled_event: "ow_settled r \<noteq> None \<Longrightarrow> run_ok r \<Longrightarrow> ow_settled (owned_event_step r e) = ow_settled r \<and> ow_kills (owned_event_step r e) = ow_kills r"
  by (cases e) (auto simp: run_ok_def owned_steps)

lemma settled_events:
  "ow_settled r \<noteq> None \<Longrightarrow> run_ok r \<Longrightarrow> ow_settled (owned_events es r) = ow_settled r \<and> ow_kills (owned_events es r) = ow_kills r"
proof (induction es arbitrary: r)
  case (Cons e es)
  then show ?case using settled_event [of r e] event_ok [of r e] by (simp add: owned_events_def)
qed (simp add: owned_events_def)

lemma owned_events_append: "owned_events (es @ fs) r = owned_events fs (owned_events es r)"
  by (simp add: owned_events_def)

lemma timer_gone: "\<not> ow_timer q \<Longrightarrow> \<not> ow_timer (owned_events gs q)"
proof -
  have "\<not> ow_timer p \<Longrightarrow> \<not> ow_timer (owned_event_step p e)" for p e by (cases e) (simp_all add: owned_steps)
  then show "\<not> ow_timer q \<Longrightarrow> \<not> ow_timer (owned_events gs q)" by (induction gs arbitrary: q) (simp_all add: owned_events_def)
qed

lemma timer_fired: "run_ok q \<Longrightarrow> \<not> ow_timer (owned_events (TimerFires # gs) q)"
  using timer_gone [of "owned_event_step q TimerFires" gs] by (auto simp: owned_events_def owned_steps run_ok_def)

text \<open>C31: A process that was started is always accounted for. After any events the promise of \<^verbatim>\<open>runOwnedProcess\<close> is settled with no timer
  left, or exactly one of its two timers is pending; and whatever the process does meanwhile, once the first timer and then the
  second have had their turn it is settled. Once settled its value never changes and nothing is killed any more, and the
  tree is terminated at most once.\<close>

theorem owned_process_settles:
  assumes "runOwnedProcess opts command ms spawned = Inr r0" "r = owned_events es r0"
  shows "(if ow_settled r = None then ow_timer r \<noteq> ow_terminationTimer r else \<not> ow_timer r \<and> \<not> ow_terminationTimer r)
    \<and> ow_settled (owned_events (TimerFires # fs @ [TerminationTimerFires]) r) \<noteq> None
    \<and> (ow_settled r \<noteq> None \<longrightarrow> ow_settled (owned_events fs r) = ow_settled r \<and> ow_kills (owned_events fs r) = ow_kills r)
    \<and> ow_trees r \<le> 1"
proof -
  have ok: "run_ok r" using events_ok started_ok assms by blast
  let ?r1 = "owned_event_step r TimerFires"
  have ok1: "run_ok ?r1" and ok2: "run_ok (owned_events fs ?r1)" using ok event_ok events_ok by blast+
  have "\<not> ow_timer ?r1" using ok by (auto simp: run_ok_def owned_steps)
  then have "ow_settled (owned_events fs ?r1) = None \<Longrightarrow> ow_terminationTimer (owned_events fs ?r1)"
    using ok2 timer_gone [of ?r1 fs] by (simp add: run_ok_def)
  then have "ow_settled (owned_event_step (owned_events fs ?r1) TerminationTimerFires) \<noteq> None" by (auto simp: owned_steps)
  then have "ow_settled (owned_events (TimerFires # fs @ [TerminationTimerFires]) r) \<noteq> None" by (simp add: owned_events_def)
  moreover have "ow_trees r \<le> 1" using ok by (cases "ow_timedOut r") (simp_all add: run_ok_def)
  ultimately show ?thesis using ok settled_events [of r fs] by (auto simp: run_ok_def)
qed

section \<open>What a result says\<close>

definition outs :: "owned_event list \<Rightarrow> string" where
  "outs es = concat (map (\<lambda>e. case e of ChunkOut c \<Rightarrow> c | _ \<Rightarrow> []) es)"

definition errs :: "owned_event list \<Rightarrow> string" where
  "errs es = concat (map (\<lambda>e. case e of ChunkErr c \<Rightarrow> c | _ \<Rightarrow> []) es)"

lemma collected:
  "ow_stdout (owned_events es r) = ow_stdout r @ outs es" "ow_stderr (owned_events es r) = ow_stderr r @ errs es" "ow_pid (owned_events es r) = ow_pid r"
proof -
  have "ow_stdout (owned_event_step p e) = ow_stdout p @ outs [e]" "ow_stderr (owned_event_step p e) = ow_stderr p @ errs [e]"
    "ow_pid (owned_event_step p e) = ow_pid p" for p e by (cases e; simp add: owned_steps outs_def errs_def)+
  then show "ow_stdout (owned_events es r) = ow_stdout r @ outs es" "ow_stderr (owned_events es r) = ow_stderr r @ errs es"
    "ow_pid (owned_events es r) = ow_pid r"
    by (induction es arbitrary: r) (simp_all add: owned_events_def outs_def errs_def)
qed

lemma settles_by:
  assumes "ow_settled r = None" "ow_settled (owned_event_step r e) = Some (Inr v)" "run_ok r"
  obtains code where "e = ChildClose code" "ow_terminationError r = None"
    "v = \<lparr>or_pid = ow_pid r, or_stdout = ow_stdout r, or_stderr = ow_stderr r, or_exitCode = (case code of Some c \<Rightarrow> c | None \<Rightarrow> 1), or_timedOut = ow_timedOut r\<rparr>"
  using assms by (cases e) (auto simp: owned_steps split: if_splits option.splits)

lemma first_settles:
  assumes "ow_settled r = None" "ow_settled (owned_events es r) = Some (Inr v)" "run_ok r"
  shows "\<exists>us code vs. es = us @ ChildClose code # vs \<and> ow_settled (owned_events us r) = None \<and> ow_terminationError (owned_events us r) = None
    \<and> v = \<lparr>or_pid = ow_pid r, or_stdout = ow_stdout r @ outs us, or_stderr = ow_stderr r @ errs us, or_exitCode = (case code of Some c \<Rightarrow> c | None \<Rightarrow> 1),
           or_timedOut = ow_timedOut (owned_events us r)\<rparr>"
  using assms
proof (induction es rule: rev_induct)
  case Nil
  then show ?case by (simp add: owned_events_def)
next
  case (snoc e es)
  have ok: "run_ok (owned_events es r)" using snoc.prems(3) events_ok by blast
  show ?case
  proof (cases "ow_settled (owned_events es r) = None")
    case True
    have "ow_settled (owned_event_step (owned_events es r) e) = Some (Inr v)" using snoc.prems(2) by (simp add: owned_events_append owned_events_def)
    from settles_by [OF True this ok] show ?thesis using True collected [of es r]
      by (intro exI [of _ es]) (auto intro!: exI [of _ "[]"])
  next
    case False
    then have "ow_settled (owned_events es r) = Some (Inr v)" using snoc.prems(2) settled_event [of "owned_events es r" e] ok
      by (simp add: owned_events_append owned_events_def)
    from snoc.IH [OF snoc.prems(1) this snoc.prems(3)] show ?thesis by fastforce
  qed
qed

lemma timed_out_event: "e \<noteq> TimerFires \<Longrightarrow> ow_timedOut (owned_event_step r e) = ow_timedOut r"
  by (cases e) (auto simp: owned_steps split: option.split)

lemma timed_out_events: "\<not> ow_timedOut r \<Longrightarrow> TimerFires \<notin> set es \<Longrightarrow> \<not> ow_timedOut (owned_events es r)"
proof (induction es arbitrary: r)
  case (Cons e es)
  then show ?case using timed_out_event [of e r] by (auto simp: owned_events_def)
qed (simp add: owned_events_def)

text \<open>C32: A result that is handed out is the truth about the process. If \<^verbatim>\<open>runOwnedProcess\<close> resolves, the process has closed, with the exit code that is
  reported (1 when there was none) and exactly the output that came before; no termination had failed by then; and the
  result says timed out exactly if the timer had fired, which is also the only case in which anything was killed.\<close>

theorem owned_result_truthful:
  assumes "runOwnedProcess opts command ms spawned = Inr r0" "ow_settled (owned_events es r0) = Some (Inr v)"
  shows "\<exists>us code vs. es = us @ ChildClose code # vs \<and> spawned = Some (or_pid v) \<and> or_stdout v = outs us \<and> or_stderr v = errs us
    \<and> or_exitCode v = (case code of Some c \<Rightarrow> c | None \<Rightarrow> 1) \<and> (or_timedOut v \<longleftrightarrow> TimerFires \<in> set us)
    \<and> ow_terminationError (owned_events us r0) = None \<and> (\<not> or_timedOut v \<longrightarrow> ow_kills (owned_events es r0) = 0 \<and> ow_trees (owned_events us r0) = 0)"
proof -
  have r0: "ow_settled r0 = None" "ow_stdout r0 = []" "ow_stderr r0 = []" "spawned = Some (ow_pid r0)" "\<not> ow_timedOut r0" "ow_timer r0"
    using assms(1) by (auto simp: runOwnedProcess_def split: if_splits option.splits)
  have ok: "run_ok r0" using started_ok assms(1) by blast
  obtain us code vs where u: "es = us @ ChildClose code # vs" "ow_settled (owned_events us r0) = None" "ow_terminationError (owned_events us r0) = None"
    "v = \<lparr>or_pid = ow_pid r0, or_stdout = outs us, or_stderr = errs us, or_exitCode = (case code of Some c \<Rightarrow> c | None \<Rightarrow> 1),
          or_timedOut = ow_timedOut (owned_events us r0)\<rparr>"
    using first_settles [OF r0(1) assms(2) ok] by (auto simp: r0)
  let ?u = "owned_events us r0" and ?c = "owned_event_step (owned_events us r0) (ChildClose code)"
  have oku: "run_ok ?u" using ok events_ok by blast
  have timer: "ow_timedOut ?u \<longleftrightarrow> TimerFires \<in> set us"
  proof
    show "ow_timedOut ?u \<Longrightarrow> TimerFires \<in> set us" using timed_out_events [OF r0(5)] by blast
    assume "TimerFires \<in> set us"
    then obtain as bs where "us = as @ TimerFires # bs" by (meson split_list)
    then have "\<not> ow_timer ?u" using timer_fired [OF events_ok [OF ok], of bs as] by (simp add: owned_events_append)
    then show "ow_timedOut ?u" using oku u(2) by (simp add: run_ok_def)
  qed
  have "ow_kills (owned_events es r0) = ow_kills ?u" if "\<not> ow_timedOut ?u"
  proof -
    have "ow_settled ?c \<noteq> None" "ow_kills ?c = ow_kills ?u" "run_ok ?c"
      using u(2) event_ok [OF oku] by (simp_all add: owned_steps del: owned_event_step.simps) (simp_all add: owned_steps)
    then have "ow_kills (owned_events vs ?c) = ow_kills ?u" using settled_events [of ?c vs] by simp
    then show ?thesis by (simp add: u(1) owned_events_append) (simp add: owned_events_def)
  qed
  then have "\<not> or_timedOut v \<longrightarrow> ow_kills (owned_events es r0) = 0 \<and> ow_trees ?u = 0" using oku u(4) by (simp add: run_ok_def)
  then show ?thesis using u timer r0(4) by (intro exI [of _ us] exI [of _ code] exI [of _ vs]) simp
qed

section \<open>Handles terminate once\<close>

definition handle_ok :: "owned_handle \<Rightarrow> bool" where
  "handle_ok h \<longleftrightarrow> hd_timer h = (hd_termination h = Terminating) \<and> hd_trees h = (if hd_termination h = NotAsked then 0 else 1)
     \<and> hd_kills h = (case hd_termination h of TerminationFailed _ \<Rightarrow> 1 | _ \<Rightarrow> 0)"

lemma handle_event_ok: "handle_ok h \<Longrightarrow> handle_ok (handle_event_step h e)"
  by (cases e) (auto simp: handle_ok_def forceTerminate_def handle_exit_def split: termination_state.splits)

lemma handle_events_ok: "handle_ok h \<Longrightarrow> handle_ok (handle_events es h)"
  by (induction es arbitrary: h) (simp_all add: handle_events_def handle_event_ok)

lemma termination_final:
  "hd_termination h \<notin> {NotAsked, Terminating} \<Longrightarrow> hd_termination (handle_events es h) = hd_termination h"
proof (induction es arbitrary: h)
  case (Cons e es)
  have "hd_termination (handle_event_step h e) = hd_termination h" using Cons.prems
    by (cases e) (auto simp: forceTerminate_def handle_exit_def)
  then show ?case using Cons by (simp add: handle_events_def)
qed (simp add: handle_events_def)

lemma exit_final: "hd_exit h \<noteq> None \<Longrightarrow> hd_exit (handle_events es h) = hd_exit h"
proof (induction es arbitrary: h)
  case (Cons e es)
  have "hd_exit (handle_event_step h e) = hd_exit h" using Cons.prems by (cases e) (auto simp: forceTerminate_def handle_exit_def)
  then show ?case using Cons by (simp add: handle_events_def)
qed (simp add: handle_events_def)

text \<open>However often it is asked, a handle terminates its tree once: the timer runs exactly while that is out, it is killed directly only when that failed, and
  the promise keeps its value, as the exit does.\<close>

lemma handle_terminates_once:
  assumes "startOwnedProcess opts command ms spawned = Inr h0" "h = handle_events es h0"
  shows "hd_trees h \<le> 1 \<and> hd_kills h \<le> 1 \<and> hd_timer h = (hd_termination h = Terminating)
    \<and> (hd_termination h \<notin> {NotAsked, Terminating} \<longrightarrow> hd_termination (handle_events fs h) = hd_termination h)
    \<and> (hd_exit h \<noteq> None \<longrightarrow> hd_exit (handle_events fs h) = hd_exit h)"
proof -
  have "handle_ok h0" using assms(1) by (auto simp: startOwnedProcess_def handle_ok_def split: if_splits option.splits)
  then have "handle_ok h" using handle_events_ok assms(2) by blast
  then show ?thesis using termination_final exit_final by (auto simp: handle_ok_def split: termination_state.splits)
qed

definition bounded_events :: "bounded_event list \<Rightarrow> bounded_command \<Rightarrow> bounded_command" where
  "bounded_events es b = foldl bounded_event_step b es"

text \<open>The terminating command settles once, at the latest when its timer fires, and is killed only by that.\<close>

lemma bounded_inv:
  assumes "bc_timer b = (bc_settled b = None)"
  shows "let b' = bounded_events es b in bc_timer b' = (bc_settled b' = None) \<and> (bc_settled b \<noteq> None \<longrightarrow> b' = b)"
  using assms
proof (induction es arbitrary: b)
  case (Cons e es)
  have "bc_timer (bounded_event_step b e) = (bc_settled (bounded_event_step b e) = None)" "bc_settled b \<noteq> None \<Longrightarrow> bounded_event_step b e = b"
    using Cons.prems by (cases e; auto)+
  then show ?case using Cons.IH [of "bounded_event_step b e"] by (auto simp: bounded_events_def Let_def)
qed (simp add: bounded_events_def)

lemma bounded_settles: "runBoundedTerminationCommand v = Inr b \<Longrightarrow> bc_settled (bounded_events (es @ [BoundedTimeout f t]) b) \<noteq> None"
  using bounded_inv [of b es] by (auto simp: runBoundedTerminationCommand_def bounded_events_def Let_def split: if_splits)

section \<open>Samples\<close>

definition sample_owned :: owned_options where
  "sample_owned = \<lparr>oo_timeoutMs = Fin 100, oo_killGraceMs = None, oo_terminationTimeoutMs = None, oo_platform = ''linux''\<rparr>"

definition sample_running :: owned_run where
  "sample_running = \<lparr>ow_pid = 7, ow_ms = ''5000'', ow_stdout = [], ow_stderr = [], ow_timer = True, ow_terminationTimer = False, ow_terminating = False,
     ow_timedOut = False, ow_terminationError = None, ow_kills = 0, ow_trees = 0, ow_settled = None\<rparr>"

lemma sample_started: "runOwnedProcess sample_owned ''node'' ''5000'' (Some 7) = Inr sample_running"
  by (simp add: runOwnedProcess_def sample_owned_def sample_running_def positive_ms_def termination_ms_def)

theorem owned_process_settles_witness:
  "ow_settled (owned_events [TimerFires, TreeFailed ''e'', TerminationTimerFires] (owned_events [ChunkOut ''a''] sample_running)) \<noteq> None"
  using owned_process_settles [OF sample_started refl, of "[ChunkOut ''a'']" "[TreeFailed ''e'']"] by simp

theorem owned_result_truthful_witness:
  "\<exists>us code vs. [ChunkOut ''a'', TimerFires, TreeTerminated, ChildClose None, ChunkOut ''b''] = us @ ChildClose code # vs \<and> outs us = ''a'' \<and> TimerFires \<in> set us"
proof -
  let ?es = "[ChunkOut ''a'', TimerFires, TreeTerminated, ChildClose None, ChunkOut ''b'']"
  have "ow_settled (owned_events ?es sample_running) = Some (Inr \<lparr>or_pid = 7, or_stdout = ''a'', or_stderr = [], or_exitCode = 1, or_timedOut = True\<rparr>)"
    by code_simp
  from owned_result_truthful [OF sample_started this] show ?thesis by (elim exE conjE) (simp only: owned_result.simps, metis)
qed

text \<open>A termination that failed is never tried again: later requests get the same rejected promise although the process lives on.\<close>

lemma failed_termination_is_final:
  "let h = handle_events [ForceTerminate True, HandleTreeFailed ''e''] \<lparr>hd_pid = 7, hd_ms = ''5000'', hd_stdout = [], hd_stderr = [], hd_exit = None,
             hd_termination = NotAsked, hd_timer = False, hd_trees = 0, hd_kills = 0, hd_answers = []\<rparr>
   in hd_answers (forceTerminate True h) = [Terminating, TerminationFailed ''e''] \<and> hd_trees (forceTerminate True h) = 1 \<and> hd_exit h = None"
  by code_simp

end
