(* ===== verification/Startup_Page.thy ===== *)
theory Startup_Page
  imports Benes_Prelude
begin

text \<open>
  The start-up page: \<^verbatim>\<open>pages/startup-shared.ts\<close> and \<^verbatim>\<open>startup-health-ui.ts\<close> read the listener's rows, \<^verbatim>\<open>pages/startup-page-state.ts\<close>
  decides what the page says about them, \<^verbatim>\<open>pages/startup-page-runtime.ts\<close> reads, writes and caches, and
  \<^verbatim>\<open>pages/startup-page-controller.ts\<close> puts the reads and actions behind one reducer. A diagnostic row is kept as the JSON it is: the code
  casts it. Responses, the session storage and the browser's agent string are arguments; an aborted read fails. The
  translator is the parameter \<open>t\<close>.
\<close>

section \<open>Rows of the listener\<close>

definition flag :: "json \<Rightarrow> string \<Rightarrow> bool" where
  "flag row k = (case prop_of row k of Some v \<Rightarrow> json_truthy v | None \<Rightarrow> False)"

definition asRecord :: "json option \<Rightarrow> json option" where
  "asRecord v = (case v of Some (JObj ps) \<Rightarrow> Some (JObj ps) | Some (JArr xs) \<Rightarrow> Some (JArr xs) | _ \<Rightarrow> None)"

definition readText :: "json \<Rightarrow> string \<Rightarrow> string option" where
  "readText row k = (case prop_of row k of Some (JStr s) \<Rightarrow> Some s | _ \<Rightarrow> None)"

definition isDiagnosticRow :: "json \<Rightarrow> bool" where
  "isDiagnosticRow row =
     (case asRecord (prop_of row ''commands'') of
        None \<Rightarrow> False
      | Some commands \<Rightarrow> readText row ''status'' \<noteq> None \<and> readText row ''routingKind'' \<noteq> None \<and> readText row ''platform'' \<noteq> None
          \<and> readText commands ''restoreNative'' \<noteq> None)"

definition LEGACY_COMMANDS :: json where
  "LEGACY_COMMANDS = JObj [(''installService'', JStr ''benes service install''), (''repairService'', JStr ''benes service repair''),
     (''installShim'', JStr ''benes codex-shim install''), (''restoreNative'', JStr ''benes restore'')]"

definition legacyFlagValues :: "bool \<Rightarrow> bool \<Rightarrow> bool \<Rightarrow> (string \<times> json) list" where
  "legacyFlagValues okay serving shimInstalled =
     [(''routingInjected'', JBool serving), (''localRoutingDependency'', JBool serving), (''autostartEnabled'', JBool True), (''rebootSafe'', JBool okay),
      (''serviceInstalled'', JBool serving), (''serviceViable'', JBool serving), (''serviceEnabled'', JBool serving), (''serviceRunning'', JBool serving),
      (''serviceStale'', JBool False), (''serviceConflict'', JBool False), (''serviceSupported'', JBool True), (''shimInstalled'', JBool shimInstalled),
      (''shimHealthy'', JBool shimInstalled), (''diagnosticStale'', JBool False)]"

definition readLegacyHealth :: "string \<Rightarrow> json \<Rightarrow> json option" where
  "readLegacyHealth agent row =
     (case (prop_of row ''ok'', prop_of row ''proxy'') of
        (Some (JBool okay), Some (JStr proxy)) \<Rightarrow>
          let serving = (proxy = ''running'');
              shimInstalled = (case asRecord (prop_of row ''shim'') of Some s \<Rightarrow> prop_of s ''installed'' = Some (JBool True) | None \<Rightarrow> False)
          in Some (JObj (legacyFlagValues okay serving shimInstalled @
               [(''status'', JStr (if okay \<and> serving then ''protected'' else ''at-risk'')), (''routingKind'', JStr (if serving then ''benes-local'' else ''unknown'')),
                (''protection'', JStr (if shimInstalled then ''shim'' else ''none'')), (''shimCoverage'', JStr (if shimInstalled then ''cli-only'' else ''none'')),
                (''platform'', JStr (if str_includes (to_lower agent) ''windows'' then ''win32'' else ''linux'')), (''recommendedCommand'', JNull),
                (''commands'', LEGACY_COMMANDS)]))
      | _ \<Rightarrow> None)"

definition parseStartupHealthData :: "string \<Rightarrow> json \<Rightarrow> json option" where
  "parseStartupHealthData agent v =
     (case asRecord (Some v) of None \<Rightarrow> None | Some row \<Rightarrow> if isDiagnosticRow row then Some row else readLegacyHealth agent row)"

definition TRAY_FLAGS :: "string list" where
  "TRAY_FLAGS = [''supported'', ''installed'', ''running'', ''stale'']"

record tray_status =
  ty_supported :: bool
  ty_installed :: bool
  ty_running :: bool
  ty_stale :: bool
  ty_summary :: string

definition isTrayStatusData :: "json \<Rightarrow> bool" where
  "isTrayStatusData v =
     (case asRecord (Some v) of
        None \<Rightarrow> False
      | Some row \<Rightarrow> list_all (\<lambda>k. case prop_of row k of Some (JBool _) \<Rightarrow> True | _ \<Rightarrow> False) TRAY_FLAGS \<and> readText row ''summary'' \<noteq> None)"

definition tray_of :: "json \<Rightarrow> tray_status" where
  "tray_of row = \<lparr>ty_supported = flag row ''supported'', ty_installed = flag row ''installed'', ty_running = flag row ''running'', ty_stale = flag row ''stale'',
     ty_summary = (case readText row ''summary'' of Some s \<Rightarrow> s | None \<Rightarrow> [])\<rparr>"

text \<open>The chip of the dashboard reads the same endpoint.\<close>

definition CHIP_STATUSES :: "string list" where
  "CHIP_STATUSES = [''native'', ''protected'', ''at-risk'']"

definition isChipStatus :: "json option \<Rightarrow> bool" where
  "isChipStatus v = (case v of Some (JStr s) \<Rightarrow> s \<in> set CHIP_STATUSES | _ \<Rightarrow> False)"

definition legacyProxyStatus :: "json option \<Rightarrow> string" where
  "legacyProxyStatus proxy = (if proxy = Some (JStr ''running'') then ''protected'' else ''at-risk'')"

definition mapStartupHealthProbe :: "json \<Rightarrow> string option" where
  "mapStartupHealthProbe payload =
     (if isChipStatus (prop_of payload ''status'') then readText payload ''status''
      else if prop_of payload ''ok'' = Some (JBool True) then Some (legacyProxyStatus (prop_of payload ''proxy'')) else None)"

definition probeNeedsFastRetry :: "(string \<times> bool) option \<Rightarrow> bool" where
  "probeNeedsFastRetry latest = (case latest of None \<Rightarrow> False | Some (status, stale) \<Rightarrow> stale \<and> status \<in> set CHIP_STATUSES)"

definition startupRiskDetailKey :: "json \<Rightarrow> string" where
  "startupRiskDetailKey risk =
     (if readText risk ''routingKind'' = Some ''custom-local'' then ''startup.riskDetailCustomLocal''
      else if readText risk ''shimCoverage'' = Some ''cli-only'' then ''startup.riskDetailWindowsShim'' else ''startup.riskDetail'')"

section \<open>What the page says\<close>

datatype install_action = InstallService | InstallShim
datatype tray_action = TrayInstall | TrayStart | TrayStop | TrayUninstall
datatype tray_badge = BadgeLoading | BadgeUnavailable | BadgeRunning | BadgeStale | BadgeStopped | BadgeNotInstalled
datatype hero_tone = ToneRisk | ToneSafe | ToneNative

record codex_runtime =
  xr_version :: "string option"
  xr_newerAvailable :: bool
  xr_clampActive :: bool
  xr_removedEfforts :: "string list"
  xr_clampVersion :: "string option"

record install_result =
  ir_success :: bool
  ir_action :: install_action
  ir_repair :: bool
  ir_detail :: "string option"
  ir_forLocalRouting :: bool

definition shellChain :: "string list \<Rightarrow> string \<Rightarrow> string" where
  "shellChain commands platform = join_with (if platform = ''win32'' then ''; '' else '' && '') commands"

definition startupHeroTone :: "bool \<Rightarrow> string \<Rightarrow> hero_tone option" where
  "startupHeroTone failed status =
     (if failed then Some ToneRisk
      else if status = ''native'' then Some ToneNative else if status = ''protected'' then Some ToneSafe else if status = ''at-risk'' then Some ToneRisk else None)"

definition startupHeroDetailKey :: "bool \<Rightarrow> json \<Rightarrow> string" where
  "startupHeroDetailKey failed row =
     (if failed then ''startup.staleData'' else if readText row ''status'' = Some ''at-risk'' then startupRiskDetailKey row else ''startup.safeDetail'')"

definition serviceStateKey :: "json \<Rightarrow> string" where
  "serviceStateKey row =
     (if flag row ''serviceConflict'' then ''startup.conflict'' else if flag row ''serviceStale'' then ''startup.stale''
      else if flag row ''serviceInstalled'' then ''startup.unhealthy'' else if flag row ''serviceSupported'' then ''startup.notInstalled'' else ''startup.unsupported'')"

definition shimYesKey :: "json \<Rightarrow> string" where
  "shimYesKey row = (if readText row ''shimCoverage'' = Some ''cli-only'' then ''startup.cliOnly'' else ''startup.healthy'')"

definition shimNoKey :: "json \<Rightarrow> string" where
  "shimNoKey row =
     (if \<not> flag row ''shimInstalled'' then ''startup.notInstalled''
      else if flag row ''shimHealthy'' \<and> \<not> flag row ''autostartEnabled'' then ''startup.installedDisabled'' else ''startup.stale'')"

definition installResultMessageKey :: "install_result \<Rightarrow> string" where
  "installResultMessageKey r =
     (if \<not> ir_success r then ''startup.installFailed''
      else case ir_action r of
             InstallService \<Rightarrow> if ir_repair r then ''startup.serviceRepaired'' else ''startup.serviceInstalled''
           | InstallShim \<Rightarrow> if ir_repair r then ''startup.shimRepaired'' else ''startup.shimInstalled'')"

definition SATISFIED_INSTALLS :: "install_action \<Rightarrow> json \<Rightarrow> bool" where
  "SATISFIED_INSTALLS a next_row = (case a of InstallService \<Rightarrow> flag next_row ''serviceViable'' | InstallShim \<Rightarrow> flag next_row ''shimInstalled'' \<and> flag next_row ''shimHealthy'')"

definition retireFailedInstallResult :: "install_result option \<Rightarrow> json \<Rightarrow> install_result option" where
  "retireFailedInstallResult current next_row =
     (case current of
        None \<Rightarrow> None
      | Some r \<Rightarrow> if ir_success r then Some r
          else if readText next_row ''status'' = Some ''native'' \<and> ir_forLocalRouting r then None
          else if SATISFIED_INSTALLS (ir_action r) next_row then None else Some r)"

definition startupTrayActions :: "tray_status option \<Rightarrow> bool \<Rightarrow> bool \<Rightarrow> tray_action \<Rightarrow> bool" where
  "startupTrayActions tray trayLoading trayError a =
     (if trayLoading \<or> trayError then False
      else case tray of
             None \<Rightarrow> False
           | Some y \<Rightarrow> (case a of TrayInstall \<Rightarrow> \<not> ty_installed y \<and> \<not> ty_stale y | TrayStart \<Rightarrow> ty_installed y \<and> \<not> ty_stale y \<and> \<not> ty_running y
                        | TrayStop \<Rightarrow> ty_running y \<and> \<not> ty_stale y | TrayUninstall \<Rightarrow> ty_installed y \<or> ty_stale y))"

definition trayBadgeFor :: "tray_status \<Rightarrow> tray_badge" where
  "trayBadgeFor y = (if ty_running y \<and> \<not> ty_stale y then BadgeRunning else if ty_stale y then BadgeStale else if ty_installed y then BadgeStopped else BadgeNotInstalled)"

definition startupTrayBadgeKind :: "tray_status option \<Rightarrow> bool \<Rightarrow> bool \<Rightarrow> tray_badge" where
  "startupTrayBadgeKind tray trayLoading trayError =
     (if trayLoading then BadgeLoading else if trayError then BadgeUnavailable else case tray of None \<Rightarrow> BadgeUnavailable | Some y \<Rightarrow> trayBadgeFor y)"

type_synonym page_wording = "string \<Rightarrow> (string \<times> string) list \<Rightarrow> string"

record runtime_notice =
  rc_warning :: "string option"
  rc_fix :: "string option"

definition runtimeVersion :: "codex_runtime \<Rightarrow> bool \<Rightarrow> string" where
  "runtimeVersion x clamped =
     (case (if clamped then xr_clampVersion x else xr_version x) of Some v \<Rightarrow> v | None \<Rightarrow> (case xr_version x of Some v \<Rightarrow> v | None \<Rightarrow> ''unknown''))"

definition doctorSyncFix :: "string \<Rightarrow> string" where
  "doctorSyncFix platform = shellChain [''benes doctor --fix-codex-runtime'', ''benes sync''] platform"

definition deriveCodexRuntimeNotice :: "codex_runtime option \<Rightarrow> page_wording \<Rightarrow> string \<Rightarrow> runtime_notice" where
  "deriveCodexRuntimeNotice runtime t platform =
     (case runtime of
        None \<Rightarrow> \<lparr>rc_warning = None, rc_fix = None\<rparr>
      | Some x \<Rightarrow>
          if \<not> xr_clampActive x \<and> \<not> xr_newerAvailable x then \<lparr>rc_warning = None, rc_fix = None\<rparr>
          else let version = runtimeVersion x (xr_clampActive x) in
            if \<not> xr_clampActive x then \<lparr>rc_warning = Some (t ''startup.codexRuntime.olderBinary'' [(''version'', version)]), rc_fix = Some (doctorSyncFix platform)\<rparr>
            else let efforts = join_with '', '' (xr_removedEfforts x) in
              \<lparr>rc_warning = Some (if efforts \<noteq> [] then t ''startup.codexRuntime.clampHiddenWithEfforts'' [(''version'', version), (''efforts'', efforts)]
                                  else t ''startup.codexRuntime.clampHidden'' [(''version'', version)]),
               rc_fix = Some (if xr_newerAvailable x then doctorSyncFix platform else ''benes sync'')\<rparr>)"

section \<open>Reads and the cache\<close>

record page_cache =
  pk_data :: json
  pk_warning :: "string option"
  pk_fix :: "string option"
  pk_tray :: "tray_status option"

text \<open>A field of a patch is left out (\<open>None\<close>) or given, possibly as \<^verbatim>\<open>null\<close> (\<open>Some None\<close>).\<close>

definition carried :: "'a option option \<Rightarrow> 'a option \<Rightarrow> 'a option" where
  "carried patch previous = (case patch of None \<Rightarrow> previous | Some v \<Rightarrow> v)"

definition writeStartupPageCache :: "page_cache option \<Rightarrow> json \<Rightarrow> tray_status option option \<Rightarrow> runtime_notice option \<Rightarrow> page_cache" where
  "writeStartupPageCache previous row tray notice =
     \<lparr>pk_data = row, pk_warning = carried (map_option rc_warning notice) (Option.bind previous pk_warning),
      pk_fix = carried (map_option rc_fix notice) (Option.bind previous pk_fix), pk_tray = carried tray (Option.bind previous pk_tray)\<rparr>"

text \<open>A response: the request fails (\<open>None\<close>), or it answers with a status flag and a body that may not be JSON.\<close>

type_synonym 'b listener_answer = "(bool \<times> 'b option) option"

definition readCodexRuntime :: "codex_runtime option listener_answer \<Rightarrow> bool \<times> codex_runtime option" where
  "readCodexRuntime a = (case a of Some (True, Some runtime) \<Rightarrow> (False, runtime) | _ \<Rightarrow> (True, None))"

definition readTrayStatus :: "json listener_answer \<Rightarrow> string \<Rightarrow> tray_status option \<times> bool" where
  "readTrayStatus a platform =
     (if platform \<noteq> ''win32'' then (None, False)
      else case a of Some (True, Some body) \<Rightarrow> if isTrayStatusData body then (Some (tray_of body), False) else (None, True) | _ \<Rightarrow> (None, True))"

record startup_snapshot =
  sn_health :: json
  sn_tray :: "tray_status option"
  sn_trayError :: bool
  sn_notice :: "runtime_notice option"

definition platform_of :: "json \<Rightarrow> string" where
  "platform_of row = (case readText row ''platform'' of Some p \<Rightarrow> p | None \<Rightarrow> [])"

definition loadStartupSnapshot :: "page_wording \<Rightarrow> string \<Rightarrow> json listener_answer \<Rightarrow> codex_runtime option listener_answer \<Rightarrow> json listener_answer \<Rightarrow> startup_snapshot option" where
  "loadStartupSnapshot t agent healthAnswer runtimeAnswer trayAnswer =
     (case healthAnswer of
        Some (True, Some body) \<Rightarrow>
          (case parseStartupHealthData agent body of
             None \<Rightarrow> None
           | Some row \<Rightarrow>
               let (readFailed, runtime) = readCodexRuntime runtimeAnswer; (tray, trayError) = readTrayStatus trayAnswer (platform_of row)
               in Some \<lparr>sn_health = row, sn_tray = tray, sn_trayError = trayError,
                        sn_notice = (if readFailed then None else Some (deriveCodexRuntimeNotice runtime t (platform_of row)))\<rparr>)
      | _ \<Rightarrow> None)"

datatype post_outcome = PostThrows string | PostAnswers bool "json option"

definition postTrayAction :: "post_outcome \<Rightarrow> tray_status option" where
  "postTrayAction a =
     (case a of PostAnswers True (Some body) \<Rightarrow> (case prop_of body ''status'' of Some s \<Rightarrow> if isTrayStatusData s then Some (tray_of s) else None | None \<Rightarrow> None)
      | _ \<Rightarrow> None)"

definition postInstallAction :: "post_outcome \<Rightarrow> (string, unit) result" where
  "postInstallAction a =
     (case a of
        PostThrows e \<Rightarrow> Inl e
      | PostAnswers ok body \<Rightarrow> if ok then Inr ()
          else Inl (case Option.bind body (\<lambda>b. readText b ''error'') of Some e \<Rightarrow> trim e | None \<Rightarrow> ''installation failed''))"

record board_toast =
  tt_ok :: bool
  tt_text :: string

definition startupBoardToast :: "page_wording \<Rightarrow> install_result option \<Rightarrow> string option \<Rightarrow> board_toast option" where
  "startupBoardToast t installResult copied =
     (case installResult of
        Some r \<Rightarrow> Some (if ir_success r then \<lparr>tt_ok = True, tt_text = t (installResultMessageKey r) []\<rparr>
          else \<lparr>tt_ok = False, tt_text = t ''startup.installFailed'' [] @ '' '' @ (case ir_detail r of Some e \<Rightarrow> e | None \<Rightarrow> [])\<rparr>)
      | None \<Rightarrow> (case copied of Some c \<Rightarrow> if c \<noteq> [] then Some \<lparr>tt_ok = True, tt_text = t ''startup.copied'' []\<rparr> else None | None \<Rightarrow> None))"

datatype startup_surface = SurfaceLoading | SurfaceCold "string option" | SurfaceBoard bool bool

definition startupSurfaceFor :: "string \<Rightarrow> string option \<Rightarrow> bool \<Rightarrow> json option \<Rightarrow> bool \<Rightarrow> startup_surface" where
  "startupSurfaceFor loadKind errorMessage showError row failed =
     (if loadKind = ''failed-cold'' then SurfaceCold errorMessage
      else case row of None \<Rightarrow> SurfaceLoading
           | Some r \<Rightarrow> if flag r ''commands'' then SurfaceBoard failed showError else SurfaceLoading)"

section \<open>The reducer\<close>

record notice_slot =
  ns_pending :: bool
  ns_warning :: "string option"
  ns_fix :: "string option"

record page_slots =
  pg_tray :: "tray_status option"
  pg_trayBusy :: bool
  pg_trayError :: bool
  pg_installBusy :: "install_action option"
  pg_installResult :: "install_result option"
  pg_restoreBusy :: bool
  pg_copied :: "string option"
  pg_notice :: notice_slot

datatype page_event =
    ReadStarted bool
  | ReadSucceeded "tray_status option" bool "runtime_notice option"
  | ReadFailed bool
  | InstallStarted install_action
  | InstallSettled "install_result option"
  | InstallRetired json
  | RestoreStarted
  | RestoreSettled
  | TrayStarted
  | TraySucceeded tray_status
  | TrayFailed
  | Copied "string option"
  | Dismissed

definition idleSlots :: "page_cache option \<Rightarrow> page_slots" where
  "idleSlots cached =
     \<lparr>pg_tray = Option.bind cached pk_tray, pg_trayBusy = False, pg_trayError = False, pg_installBusy = None, pg_installResult = None, pg_restoreBusy = False,
      pg_copied = None,
      pg_notice = \<lparr>ns_pending = (case cached of Some c \<Rightarrow> \<not> json_truthy (pk_data c) | None \<Rightarrow> True), ns_warning = Option.bind cached pk_warning,
                   ns_fix = Option.bind cached pk_fix\<rparr>\<rparr>"

fun reduceSlots :: "page_slots \<Rightarrow> page_event \<Rightarrow> page_slots" where
  "reduceSlots s (ReadStarted firstPaint) = (if firstPaint then s\<lparr>pg_notice := (pg_notice s)\<lparr>ns_pending := True\<rparr>\<rparr> else s)"
| "reduceSlots s (ReadSucceeded tray trayError notice) =
     s\<lparr>pg_tray := tray, pg_trayError := trayError,
       pg_notice := \<lparr>ns_pending = False, ns_warning = (case notice of Some n \<Rightarrow> rc_warning n | None \<Rightarrow> ns_warning (pg_notice s)),
                     ns_fix = (case notice of Some n \<Rightarrow> rc_fix n | None \<Rightarrow> ns_fix (pg_notice s))\<rparr>\<rparr>"
| "reduceSlots s (ReadFailed firstPaint) =
     (if firstPaint then s\<lparr>pg_tray := None, pg_trayError := True, pg_notice := \<lparr>ns_pending = False, ns_warning = None, ns_fix = None\<rparr>\<rparr>
      else s\<lparr>pg_notice := (pg_notice s)\<lparr>ns_pending := False\<rparr>\<rparr>)"
| "reduceSlots s (InstallStarted a) = s\<lparr>pg_installBusy := Some a, pg_installResult := None\<rparr>"
| "reduceSlots s (InstallSettled r) = s\<lparr>pg_installBusy := None, pg_installResult := r\<rparr>"
| "reduceSlots s (InstallRetired row) = s\<lparr>pg_installResult := retireFailedInstallResult (pg_installResult s) row\<rparr>"
| "reduceSlots s RestoreStarted = s\<lparr>pg_restoreBusy := True\<rparr>"
| "reduceSlots s RestoreSettled = s\<lparr>pg_restoreBusy := False\<rparr>"
| "reduceSlots s TrayStarted = s\<lparr>pg_trayBusy := True, pg_trayError := False\<rparr>"
| "reduceSlots s (TraySucceeded y) = s\<lparr>pg_tray := Some y, pg_trayBusy := False, pg_trayError := False\<rparr>"
| "reduceSlots s TrayFailed = s\<lparr>pg_tray := None, pg_trayBusy := False, pg_trayError := True\<rparr>"
| "reduceSlots s (Copied c) = s\<lparr>pg_copied := c\<rparr>"
| "reduceSlots s Dismissed = s\<lparr>pg_installResult := None, pg_copied := None\<rparr>"

section \<open>The page\<close>

text \<open>A read that is out knows whether it was started before the first paint. Starting a read aborts the one before (see \<open>Client_Resource\<close>).\<close>

record startup_page =
  sp_slots :: page_slots
  sp_painted :: bool
  sp_read :: "bool option"
  sp_aborted :: "bool list"
  sp_cache :: "page_cache option"

definition page_mounts :: "page_cache option \<Rightarrow> startup_page" where
  "page_mounts cached =
     \<lparr>sp_slots = idleSlots cached, sp_painted = (case cached of Some c \<Rightarrow> json_truthy (pk_data c) | None \<Rightarrow> False), sp_read = None, sp_aborted = [],
      sp_cache = cached\<rparr>"

definition slots_event :: "page_event \<Rightarrow> startup_page \<Rightarrow> startup_page" where
  "slots_event e p = p\<lparr>sp_slots := reduceSlots (sp_slots p) e\<rparr>"

definition read_begins :: "startup_page \<Rightarrow> startup_page" where
  "read_begins p =
     (let firstPaint = \<not> sp_painted p; p1 = slots_event (ReadStarted firstPaint) p
      in p1\<lparr>sp_read := Some firstPaint, sp_aborted := (case sp_read p of Some b \<Rightarrow> [b] | None \<Rightarrow> []) @ sp_aborted p\<rparr>)"

definition read_returns :: "startup_snapshot option \<Rightarrow> startup_page \<Rightarrow> startup_page" where
  "read_returns snapshot p =
     (case sp_read p of
        None \<Rightarrow> p
      | Some firstPaint \<Rightarrow>
          let p0 = p\<lparr>sp_read := None\<rparr> in
          (case snapshot of
             None \<Rightarrow> slots_event (ReadFailed firstPaint) p0
           | Some n \<Rightarrow>
               let p1 = (slots_event (InstallRetired (sn_health n)) p0)\<lparr>sp_painted := True\<rparr>;
                   p2 = slots_event (ReadSucceeded (sn_tray n) (if platform_of (sn_health n) = ''win32'' then sn_trayError n else False) (sn_notice n)) p1
               in p2\<lparr>sp_cache := Some (writeStartupPageCache (sp_cache p2) (sn_health n) (Some (sn_tray n)) (sn_notice n))\<rparr>))"

definition aborted_fails :: "startup_page \<Rightarrow> startup_page" where
  "aborted_fails p = p\<lparr>sp_aborted := tl (sp_aborted p)\<rparr>"

definition install_settles :: "install_action \<Rightarrow> bool \<Rightarrow> json option \<Rightarrow> post_outcome \<Rightarrow> page_event" where
  "install_settles a repair row answer =
     (case postInstallAction answer of
        Inr _ \<Rightarrow> InstallSettled (Some \<lparr>ir_success = True, ir_action = a, ir_repair = repair, ir_detail = None, ir_forLocalRouting = False\<rparr>)
      | Inl e \<Rightarrow> InstallSettled (Some \<lparr>ir_success = False, ir_action = a, ir_repair = repair, ir_detail = Some e,
                   ir_forLocalRouting = (Option.bind row (\<lambda>r. prop_of r ''localRoutingDependency'') = Some (JBool True))\<rparr>))"

definition tray_settles :: "post_outcome \<Rightarrow> page_event" where
  "tray_settles answer = (case postTrayAction answer of Some y \<Rightarrow> TraySucceeded y | None \<Rightarrow> TrayFailed)"

definition page_sees :: "page_event \<Rightarrow> bool" where
  "page_sees e = (case e of ReadStarted _ \<Rightarrow> False | ReadSucceeded _ _ _ \<Rightarrow> False | ReadFailed _ \<Rightarrow> False | InstallRetired _ \<Rightarrow> False | _ \<Rightarrow> True)"

inductive startup_step :: "startup_page \<Rightarrow> startup_page \<Rightarrow> bool" where
  st_begin: "startup_step p (read_begins p)"
| st_return: "sp_read p \<noteq> None \<Longrightarrow> startup_step p (read_returns snapshot p)"
| st_aborted: "sp_aborted p \<noteq> [] \<Longrightarrow> startup_step p (aborted_fails p)"
| st_event: "page_sees e \<Longrightarrow> startup_step p (slots_event e p)"

section \<open>What a reload shows\<close>

definition page_ok :: "startup_page \<Rightarrow> bool" where
  "page_ok p \<longleftrightarrow> ns_warning (pg_notice (sp_slots p)) = Option.bind (sp_cache p) pk_warning \<and> ns_fix (pg_notice (sp_slots p)) = Option.bind (sp_cache p) pk_fix
     \<and> sp_painted p = (sp_cache p \<noteq> None) \<and> (sp_read p = Some True \<longrightarrow> sp_cache p = None)"

definition startup_init :: "startup_page \<Rightarrow> bool" where
  "startup_init p \<longleftrightarrow> (\<exists>cached. (\<forall>c. cached = Some c \<longrightarrow> json_truthy (pk_data c)) \<and> p = page_mounts cached)"

lemma mounts_ok: "(\<forall>c. cached = Some c \<longrightarrow> json_truthy (pk_data c)) \<Longrightarrow> page_ok (page_mounts cached)"
  by (cases cached) (simp_all add: page_ok_def page_mounts_def idleSlots_def)

lemma slots_frame [simp]:
  "sp_painted (slots_event e p) = sp_painted p" "sp_read (slots_event e p) = sp_read p" "sp_cache (slots_event e p) = sp_cache p"
  "sp_aborted (slots_event e p) = sp_aborted p" "sp_slots (slots_event e p) = reduceSlots (sp_slots p) e"
  by (simp_all add: slots_event_def)

lemma begins_ok: "page_ok p \<Longrightarrow> page_ok (read_begins p)"
  by (simp add: page_ok_def read_begins_def Let_def)

lemma returns_Some:
  assumes "sp_read p \<noteq> None"
  shows "pg_tray (sp_slots (read_returns (Some n) p)) = sn_tray n"
    "pg_notice (sp_slots (read_returns (Some n) p)) = \<lparr>ns_pending = False,
       ns_warning = (case sn_notice n of Some x \<Rightarrow> rc_warning x | None \<Rightarrow> ns_warning (pg_notice (sp_slots p))),
       ns_fix = (case sn_notice n of Some x \<Rightarrow> rc_fix x | None \<Rightarrow> ns_fix (pg_notice (sp_slots p)))\<rparr>"
    "sp_cache (read_returns (Some n) p) = Some (writeStartupPageCache (sp_cache p) (sn_health n) (Some (sn_tray n)) (sn_notice n))"
    "sp_painted (read_returns (Some n) p)" "sp_read (read_returns (Some n) p) = None"
    "pg_installResult (sp_slots (read_returns (Some n) p)) = retireFailedInstallResult (pg_installResult (sp_slots p)) (sn_health n)"
  using assms by (auto simp: read_returns_def Let_def split: option.split)

lemma carried_notice: "carried (map_option f notice) previous = (case notice of Some x \<Rightarrow> f x | None \<Rightarrow> previous)"
  by (simp add: carried_def split: option.split)

lemma returns_ok: "page_ok p \<Longrightarrow> page_ok (read_returns snapshot p)"
proof (cases snapshot)
  case None
  then show "page_ok p \<Longrightarrow> page_ok (read_returns snapshot p)" by (auto simp: page_ok_def read_returns_def Let_def split: option.split)
next
  case (Some n)
  then show "page_ok p \<Longrightarrow> page_ok (read_returns snapshot p)"
    by (cases "sp_read p") (simp add: read_returns_def, simp add: page_ok_def returns_Some writeStartupPageCache_def carried_notice split: option.split)
qed

lemma sees_notice: "page_sees e \<Longrightarrow> pg_notice (reduceSlots s e) = pg_notice s"
  by (cases e) (simp_all add: page_sees_def)

lemma startup_step_ok: "startup_step p p' \<Longrightarrow> page_ok p \<Longrightarrow> page_ok p'"
proof (induction rule: startup_step.induct)
  case (st_aborted p)
  then show ?case by (simp add: page_ok_def aborted_fails_def)
next
  case (st_event e p)
  then show ?case by (simp add: page_ok_def sees_notice)
qed (simp_all add: begins_ok returns_ok)

interpretation startup_machine: machine startup_init startup_step page_ok
proof
  show "startup_init p \<Longrightarrow> page_ok p" for p using mounts_ok by (auto simp: startup_init_def)
  show "page_ok p \<Longrightarrow> startup_step p p' \<Longrightarrow> page_ok p'" for p p' using startup_step_ok by blast
qed

lemma legacy_object: "readLegacyHealth agent row = Some d \<Longrightarrow> \<exists>ps. d = JObj ps"
  unfolding readLegacyHealth_def Let_def by (auto split: option.splits json.splits)

lemma parse_truthy: "parseStartupHealthData agent v = Some d \<Longrightarrow> json_truthy d"
  using legacy_object by (cases v) (fastforce simp: parseStartupHealthData_def asRecord_def split: if_splits)+

lemma snapshot_truthy: "loadStartupSnapshot t agent h x y = Some n \<Longrightarrow> json_truthy (sn_health n)"
  unfolding loadStartupSnapshot_def Let_def case_prod_beta by (auto split: option.splits bool.splits prod.splits dest: parse_truthy)


section \<open>Failed installs\<close>

lemma retire_keeps:
  assumes "retireFailedInstallResult (Some r) row \<noteq> Some r" "\<not> ir_success r"
  shows "SATISFIED_INSTALLS (ir_action r) row \<or> readText row ''status'' = Some ''native'' \<and> ir_forLocalRouting r"
  using assms by (auto simp: retireFailedInstallResult_def split: if_splits)

text \<open>A failed install stays on the page until the user acts or a read proves it landed. If a step takes a failed install off the
  page, it was another install, its settling or a dismissal; or a read that came back with a row in which what was to be installed is there, or, for a
  failure under local routing, with native routing. A read that fails never retires it.\<close>

theorem failed_install_stays:
  assumes "startup_step p p'" "pg_installResult (sp_slots p) = Some r" "\<not> ir_success r" "pg_installResult (sp_slots p') \<noteq> Some r"
  shows "(\<exists>e. p' = slots_event e p \<and> (e = Dismissed \<or> (\<exists>a. e = InstallStarted a) \<or> (\<exists>x. e = InstallSettled x)))
    \<or> (\<exists>n. p' = read_returns (Some n) p
         \<and> (SATISFIED_INSTALLS (ir_action r) (sn_health n) \<or> readText (sn_health n) ''status'' = Some ''native'' \<and> ir_forLocalRouting r))"
  using assms(1)
proof cases
  case st_begin
  have "pg_installResult (sp_slots (read_begins p)) = pg_installResult (sp_slots p)" by (simp add: read_begins_def Let_def)
  then show ?thesis using st_begin assms by simp
next
  case (st_return snapshot)
  then show ?thesis
  proof (cases snapshot)
    case None
    have "pg_installResult (sp_slots (read_returns None p)) = pg_installResult (sp_slots p)" by (simp add: read_returns_def Let_def split: option.split)
    then show ?thesis using st_return None assms by simp
  next
    case (Some n)
    then have "retireFailedInstallResult (Some r) (sn_health n) \<noteq> Some r" using st_return assms returns_Some(6) [of p n] by simp
    then show ?thesis using st_return(1) Some retire_keeps assms(3) by blast
  qed
next
  case st_aborted
  then show ?thesis using assms by (simp add: aborted_fails_def)
next
  case (st_event e)
  then show ?thesis using assms by (cases e) (auto simp: page_sees_def)
qed

section \<open>Tray and chip\<close>

text \<open>The badge and the buttons agree: a tray can be started exactly when it shows as stopped, stopped when it shows as running, and installed and uninstalled never
  at once.\<close>

lemma tray_buttons_match_badge:
  "startupTrayActions tray loading failed TrayStart \<Longrightarrow> startupTrayBadgeKind tray loading failed = BadgeStopped"
  "startupTrayBadgeKind tray loading failed = BadgeStopped \<Longrightarrow> startupTrayActions tray loading failed TrayStart"
  "startupTrayActions tray loading failed TrayStop = (startupTrayBadgeKind tray loading failed = BadgeRunning)"
  "\<not> (startupTrayActions tray loading failed TrayInstall \<and> startupTrayActions tray loading failed TrayUninstall)"
  by (auto simp: startupTrayActions_def startupTrayBadgeKind_def trayBadgeFor_def split: option.splits if_splits)

lemma chip_and_page_agree:
  assumes "isChipStatus (prop_of (JObj ps) ''status'')" "isDiagnosticRow (JObj ps)"
  shows "mapStartupHealthProbe (JObj ps) = readText (JObj ps) ''status'' \<and> parseStartupHealthData agent (JObj ps) = Some (JObj ps)"
  using assms by (simp add: mapStartupHealthProbe_def parseStartupHealthData_def asRecord_def)

definition plain_page :: page_wording where
  "plain_page k _ = k"

definition sample_row :: json where
  "sample_row = JObj [(''ok'', JBool True), (''proxy'', JStr ''running'')]"

definition sample_snapshot :: startup_snapshot where
  "sample_snapshot = the (loadStartupSnapshot plain_page [] (Some (True, Some sample_row)) (Some (True, Some None)) None)"

definition sample_cached :: page_cache where
  "sample_cached = \<lparr>pk_data = sample_row, pk_warning = Some ''w'', pk_fix = None, pk_tray = None\<rparr>"


definition sample_failure :: install_result where
  "sample_failure = \<lparr>ir_success = False, ir_action = InstallService, ir_repair = False, ir_detail = None, ir_forLocalRouting = False\<rparr>"

definition sample_failed :: startup_page where
  "sample_failed = read_begins (slots_event (InstallSettled (Some sample_failure)) (page_mounts None))"

theorem failed_install_stays_witness:
  "pg_installResult (sp_slots sample_failed) = Some sample_failure \<and> SATISFIED_INSTALLS InstallService (sn_health sample_snapshot)
   \<and> pg_installResult (sp_slots (read_returns (Some sample_snapshot) sample_failed)) = None"
proof -
  let ?p' = "read_returns (Some sample_snapshot) sample_failed"
  have "sp_read sample_failed \<noteq> None" by code_simp
  then have "startup_step sample_failed ?p'" by (rule st_return)
  moreover have f: "pg_installResult (sp_slots sample_failed) = Some sample_failure" "\<not> ir_success sample_failure" "pg_installResult (sp_slots ?p') = None"
    "SATISFIED_INSTALLS InstallService (sn_health sample_snapshot)" by code_simp+
  ultimately have "(\<exists>e. ?p' = slots_event e sample_failed \<and> (e = Dismissed \<or> (\<exists>a. e = InstallStarted a) \<or> (\<exists>x. e = InstallSettled x)))
    \<or> (\<exists>n. ?p' = read_returns (Some n) sample_failed
         \<and> (SATISFIED_INSTALLS (ir_action sample_failure) (sn_health n) \<or> readText (sn_health n) ''status'' = Some ''native'' \<and> ir_forLocalRouting sample_failure))"
    using failed_install_stays [of sample_failed ?p' sample_failure] by simp
  then show ?thesis using f by simp
qed

text \<open>A tray action that fails drops the row the page had.\<close>

lemma failed_tray_drops_row: "pg_tray (reduceSlots s TrayFailed) = None"
  by simp

text \<open>The chip cannot read an older listener that reports a problem; the page can.\<close>

lemma chip_misses_legacy_trouble:
  "let row = JObj [(''ok'', JBool False), (''proxy'', JStr ''running'')]
   in mapStartupHealthProbe row = None \<and> (\<exists>d. parseStartupHealthData [] row = Some d \<and> readText d ''status'' = Some ''at-risk'')"
proof -
  let ?row = "JObj [(''ok'', JBool False), (''proxy'', JStr ''running'')]"
  have "mapStartupHealthProbe ?row = None" by code_simp
  moreover have "map_option (\<lambda>d. readText d ''status'') (parseStartupHealthData [] ?row) = Some (Some ''at-risk'')" by code_simp
  ultimately show ?thesis by (auto simp: Let_def)
qed

end
