(* ===== verification/Lab_Records.thy ===== *)
theory Lab_Records
  imports Benes_Prelude
begin

text \<open>
  The records of the Lab: \<^verbatim>\<open>lab/evidence-vocabulary.ts\<close> and \<^verbatim>\<open>lab/lab-records.ts\<close>. A payload is checked against a declarative
  shape and handed on as the object it is, so a parsed record is the JSON object itself; \<open>verdict_of\<close> and the other readers
  give the fields the type promises. An own property named \<^verbatim>\<open>__proto__\<close> is not modelled.
\<close>

section \<open>Vocabulary\<close>

datatype evidence_layer = Protocol | LiveRoute | TaskEffectiveness

fun layer_name :: "evidence_layer \<Rightarrow> string" where
  "layer_name Protocol = ''protocol_conformance''"
| "layer_name LiveRoute = ''live_route_compatibility''"
| "layer_name TaskEffectiveness = ''task_effectiveness''"

datatype compat_verdict = UNKNOWN | CLAIMED | PROBED | VERIFIED | DEGRADED | BLOCKED | UNSUPPORTED

fun verdict_name :: "compat_verdict \<Rightarrow> string" where
  "verdict_name UNKNOWN = ''UNKNOWN''"
| "verdict_name CLAIMED = ''CLAIMED''"
| "verdict_name PROBED = ''PROBED''"
| "verdict_name VERIFIED = ''VERIFIED''"
| "verdict_name DEGRADED = ''DEGRADED''"
| "verdict_name BLOCKED = ''BLOCKED''"
| "verdict_name UNSUPPORTED = ''UNSUPPORTED''"

datatype artifact_status = ArtPresent | ArtCorrupt | ArtPurged

fun artifact_name :: "artifact_status \<Rightarrow> string" where
  "artifact_name ArtPresent = ''present''"
| "artifact_name ArtCorrupt = ''corrupt''"
| "artifact_name ArtPurged = ''purged_unavailable''"

definition EVIDENCE_LAYERS :: "evidence_layer list" where
  "EVIDENCE_LAYERS = [Protocol, LiveRoute, TaskEffectiveness]"

definition PRODUCT_EVIDENCE_LAYERS :: "evidence_layer list" where
  "PRODUCT_EVIDENCE_LAYERS = [Protocol, LiveRoute]"

definition COMPATIBILITY_VERDICTS :: "compat_verdict list" where
  "COMPATIBILITY_VERDICTS = [UNKNOWN, CLAIMED, PROBED, VERIFIED, DEGRADED, BLOCKED, UNSUPPORTED]"

definition ARTIFACT_STATUSES :: "artifact_status list" where
  "ARTIFACT_STATUSES = [ArtPresent, ArtCorrupt, ArtPurged]"

definition isEvidenceLayer :: "json \<Rightarrow> bool" where
  "isEvidenceLayer v = (case v of JStr s \<Rightarrow> s \<in> set (map layer_name EVIDENCE_LAYERS) | _ \<Rightarrow> False)"

definition isCompatibilityVerdict :: "json \<Rightarrow> bool" where
  "isCompatibilityVerdict v = (case v of JStr s \<Rightarrow> s \<in> set (map verdict_name COMPATIBILITY_VERDICTS) | _ \<Rightarrow> False)"

definition isArtifactStatus :: "json \<Rightarrow> bool" where
  "isArtifactStatus v = (case v of JStr s \<Rightarrow> s \<in> set (map artifact_name ARTIFACT_STATUSES) | _ \<Rightarrow> False)"

definition COMMUNITY_TRUST_CLASS :: string where
  "COMMUNITY_TRUST_CLASS = ''community_untrusted_v1''"

definition COMMUNITY_ROW_STATUS :: string where
  "COMMUNITY_ROW_STATUS = ''cryptographically_valid''"

definition isCommunityTrustClass :: "json \<Rightarrow> bool" where
  "isCommunityTrustClass v \<longleftrightarrow> v = JStr COMMUNITY_TRUST_CLASS"

definition isCommunityRowStatus :: "json \<Rightarrow> bool" where
  "isCommunityRowStatus v \<longleftrightarrow> v = JStr COMMUNITY_ROW_STATUS"

definition hex_lower :: "char \<Rightarrow> bool" where
  "hex_lower c \<longleftrightarrow> is_digit c \<or> CHR ''a'' \<le> c \<and> c \<le> CHR ''f''"

definition isSha256Hex :: "json \<Rightarrow> bool" where
  "isSha256Hex v = (case v of JStr s \<Rightarrow> length s = 64 \<and> list_all hex_lower s | _ \<Rightarrow> False)"

definition isRecordCount :: "json \<Rightarrow> bool" where
  "isRecordCount v = (case v of JNum (Fin r) \<Rightarrow> safe_integer (Fin r) \<and> 0 \<le> r | _ \<Rightarrow> False)"

section \<open>Shapes\<close>

datatype field_kind =
    KText | KFilled | KTextOrNull | KFlag | KNumber | KNumberOrNull | KTextList | KLayer | KVerdict | KArtifact
  | KCommunityTrust | KCommunityStatus | KSha256 | KCount | KExactlyFalse | KCommunityEvidence

record record_shape =
  rs_required :: "(string \<times> field_kind) list"
  rs_optional :: "(string \<times> field_kind) list"
  rs_passthrough :: "(string \<times> field_kind) list"
  rs_closed :: bool

definition open_shape :: "(string \<times> field_kind) list \<Rightarrow> record_shape" where
  "open_shape required = \<lparr>rs_required = required, rs_optional = [], rs_passthrough = [], rs_closed = False\<rparr>"

definition LAB_STATUS_SHAPE :: record_shape where
  "LAB_STATUS_SHAPE = (open_shape [(''projectionAvailable'', KFlag)])
     \<lparr>rs_optional := [(''projectionIncompatible'', KFlag), (''projectionSpecVersion'', KText), (''sqliteSchemaVersion'', KNumber),
        (''builtAtMs'', KNumber), (''eventCount'', KNumber), (''subjectCount'', KNumber), (''observationCount'', KNumber),
        (''claimCount'', KNumber), (''verdictCount'', KNumber), (''artifactCount'', KNumber), (''corruptionCount'', KNumber)]\<rparr>"

definition VERDICT_SHAPE :: record_shape where
  "VERDICT_SHAPE = open_shape
     [(''projectionKey'', KFilled), (''subjectId'', KFilled), (''evidenceLayer'', KLayer), (''suiteId'', KFilled),
      (''suiteVersion'', KText), (''suiteManifestDigest'', KText), (''projectionSpecVersion'', KText), (''verdict'', KVerdict),
      (''asOf'', KNumber), (''scenarioManifestDigests'', KTextList), (''claimSourceDigest'', KTextOrNull),
      (''contributingEventIds'', KTextList), (''contradictingEventIds'', KTextList), (''notes'', KTextList)]"

definition SUBJECT_ROW_SHAPE :: record_shape where
  "SUBJECT_ROW_SHAPE = open_shape [(''subjectId'', KText), (''subjectKind'', KText)]"

definition SUBJECT_DETAIL_SHAPE :: record_shape where
  "SUBJECT_DETAIL_SHAPE = open_shape [(''subjectKind'', KText)]"

definition OBSERVATION_SHAPE :: record_shape where
  "OBSERVATION_SHAPE = open_shape
     [(''eventId'', KText), (''subjectId'', KText), (''evidenceLayer'', KLayer), (''suiteId'', KText), (''suiteVersion'', KText),
      (''suiteManifestDigest'', KText), (''scenarioId'', KText), (''scenarioVersion'', KText), (''scenarioManifestDigest'', KText),
      (''outcome'', KText), (''completedAt'', KNumber), (''executionMode'', KText), (''excluded'', KFlag),
      (''exclusionReason'', KTextOrNull)]"

definition EVENT_SHAPE :: record_shape where
  "EVENT_SHAPE = (open_shape
     [(''eventKind'', KText), (''eventId'', KText), (''recordedAt'', KNumber), (''producer'', KText), (''producerVersion'', KText),
      (''excluded'', KFlag), (''exclusionReason'', KTextOrNull)])
     \<lparr>rs_passthrough := [(''subjectId'', KText), (''evidenceLayer'', KLayer), (''suiteId'', KText), (''outcome'', KText)]\<rparr>"

definition ARTIFACT_SHAPE :: record_shape where
  "ARTIFACT_SHAPE = open_shape
     [(''digest'', KText), (''artifactClass'', KTextOrNull), (''mediaType'', KTextOrNull), (''byteCount'', KNumberOrNull),
      (''status'', KArtifact), (''lastError'', KTextOrNull)]"

definition PRODUCTION_SHAPE :: record_shape where
  "PRODUCTION_SHAPE = (open_shape
     [(''subjectId'', KText), (''verificationStatus'', KText), (''recentProductionAttempts'', KNumber),
      (''recentSuccessfulAttempts'', KNumber), (''recentRouteErrorSignals'', KNumber)])
     \<lparr>rs_optional := [(''lastObservedProductionAttempt'', KNumber)]\<rparr>"

definition COMMUNITY_ROW_SHAPE :: record_shape where
  "COMMUNITY_ROW_SHAPE = (open_shape
     [(''trustClass'', KCommunityTrust), (''status'', KCommunityStatus), (''bundleId'', KSha256), (''publisherKeyId'', KSha256),
      (''activeRecordCount'', KCount), (''revokedRecordCount'', KCount)])\<lparr>rs_closed := True\<rparr>"

definition COMMUNITY_EVIDENCE_LIMIT :: nat where
  "COMMUNITY_EVIDENCE_LIMIT = 4096"

definition COMMUNITY_ENVELOPE_SHAPE :: record_shape where
  "COMMUNITY_ENVELOPE_SHAPE = (open_shape
     [(''evidence'', KCommunityEvidence), (''trustClass'', KCommunityTrust), (''locallyVerified'', KExactlyFalse)])
     \<lparr>rs_closed := True\<rparr>"

definition EVENT_DETAIL_OMISSIONS :: "string list" where
  "EVENT_DETAIL_OMISSIONS = [''payload_json'']"

section \<open>Checking a record\<close>

fun isPlainObject :: "json \<Rightarrow> bool" where
  "isPlainObject (JObj ps) = True"
| "isPlainObject _ = False"

definition admitsOnly :: "json \<Rightarrow> record_shape \<Rightarrow> bool" where
  "admitsOnly cells shape =
     list_all (\<lambda>key. key \<in> set (map fst (rs_required shape @ rs_optional shape @ rs_passthrough shape)))
       (map fst (own_props cells))"

definition finite_number :: "json \<Rightarrow> bool" where
  "finite_number v = (case v of JNum n \<Rightarrow> num_is_finite n | _ \<Rightarrow> False)"

definition is_string :: "json \<Rightarrow> bool" where
  "is_string v = (case v of JStr _ \<Rightarrow> True | _ \<Rightarrow> False)"

lemma size_own: "(k, v) \<in> set ps \<Longrightarrow> size v < size (JObj ps)"
  by (induction ps) auto

lemma size_prop_of: "prop_of cells key = Some v \<Longrightarrow> size v < size cells"
  using size_own by (cases cells) (fastforce simp: prop_of_def dest: map_of_SomeD)+

lemma size_entry: "entry \<in> set vs \<Longrightarrow> size entry < size (JArr vs)"
  by (induction vs) auto

function (sequential) accepts :: "field_kind \<Rightarrow> json \<Rightarrow> bool" and conforms :: "json \<Rightarrow> record_shape \<Rightarrow> bool" where
  "accepts KText v = is_string v"
| "accepts KFilled v = (is_string v \<and> v \<noteq> JStr [])"
| "accepts KTextOrNull v = (v = JNull \<or> is_string v)"
| "accepts KFlag v = (case v of JBool _ \<Rightarrow> True | _ \<Rightarrow> False)"
| "accepts KNumber v = finite_number v"
| "accepts KNumberOrNull v = (v = JNull \<or> finite_number v)"
| "accepts KTextList v = (case v of JArr vs \<Rightarrow> list_all is_string vs | _ \<Rightarrow> False)"
| "accepts KLayer v = isEvidenceLayer v"
| "accepts KVerdict v = isCompatibilityVerdict v"
| "accepts KArtifact v = isArtifactStatus v"
| "accepts KCommunityTrust v = isCommunityTrustClass v"
| "accepts KCommunityStatus v = isCommunityRowStatus v"
| "accepts KSha256 v = isSha256Hex v"
| "accepts KCount v = isRecordCount v"
| "accepts KExactlyFalse v = (v = JBool False)"
| "accepts KCommunityEvidence v =
     (case v of
        JArr vs \<Rightarrow> length vs \<le> COMMUNITY_EVIDENCE_LIMIT \<and> list_all (\<lambda>entry. isPlainObject entry \<and> conforms entry COMMUNITY_ROW_SHAPE) vs
      | _ \<Rightarrow> False)"
| "conforms cells shape =
     (list_all (\<lambda>(key, kind). case prop_of cells key of None \<Rightarrow> False | Some v \<Rightarrow> accepts kind v) (rs_required shape)
      \<and> list_all (\<lambda>(key, kind). case prop_of cells key of None \<Rightarrow> True | Some v \<Rightarrow> accepts kind v) (rs_optional shape)
      \<and> (rs_closed shape \<longrightarrow> admitsOnly cells shape))"
  by pat_completeness auto

termination
  by (relation "measure (\<lambda>x. case x of Inl (k, v) \<Rightarrow> 2 * size v | Inr (c, s) \<Rightarrow> 2 * size c + 1)")
     (auto dest: size_prop_of size_entry)

declare conforms.simps [simp del]

definition asDto :: "json \<Rightarrow> record_shape \<Rightarrow> json option" where
  "asDto cells shape = (if conforms cells shape then Some cells else None)"

definition unwrap :: "json \<Rightarrow> string \<Rightarrow> json option" where
  "unwrap raw key =
     (if \<not> isPlainObject raw then None
      else case prop_of raw key of Some v \<Rightarrow> if isPlainObject v then Some v else None | None \<Rightarrow> None)"

definition withoutOmitted :: "json \<Rightarrow> string list \<Rightarrow> json" where
  "withoutOmitted cells omissions = JObj (filter (\<lambda>(key, v). key \<notin> set omissions) (own_props cells))"

definition parse_object :: "record_shape \<Rightarrow> json \<Rightarrow> json option" where
  "parse_object shape raw = (if isPlainObject raw then asDto raw shape else None)"

definition parseLabStatus :: "json \<Rightarrow> json option" where
  "parseLabStatus raw = parse_object LAB_STATUS_SHAPE raw"

definition parseVerdictDto :: "json \<Rightarrow> json option" where
  "parseVerdictDto raw = parse_object VERDICT_SHAPE raw"

definition parseSubjectRow :: "json \<Rightarrow> json option" where
  "parseSubjectRow raw = parse_object SUBJECT_ROW_SHAPE raw"

definition parseSubjectDetail :: "json \<Rightarrow> json option" where
  "parseSubjectDetail raw = Option.bind (unwrap raw ''subject'') (\<lambda>subject. asDto subject SUBJECT_DETAIL_SHAPE)"

definition parseObservationDto :: "json \<Rightarrow> json option" where
  "parseObservationDto raw = parse_object OBSERVATION_SHAPE raw"

definition parseLabEvent :: "json \<Rightarrow> json option" where
  "parseLabEvent raw =
     Option.bind (unwrap raw ''event'') (\<lambda>event. asDto (withoutOmitted event EVENT_DETAIL_OMISSIONS) EVENT_SHAPE)"

definition parseArtifactMetadata :: "json \<Rightarrow> json option" where
  "parseArtifactMetadata raw = Option.bind (unwrap raw ''artifact'') (\<lambda>artifact. asDto artifact ARTIFACT_SHAPE)"

definition parsePassiveProductionSummary :: "json \<Rightarrow> json option" where
  "parsePassiveProductionSummary raw =
     (if \<not> isPlainObject raw \<or> prop_of raw ''verificationStatus'' \<noteq> Some (JStr ''not_verification'') then None
      else case unwrap raw ''summary'' of
        None \<Rightarrow> None
      | Some summary \<Rightarrow>
          if prop_of summary ''verificationStatus'' \<noteq> Some (JStr ''not_verification'') then None
          else if \<not> conforms summary PRODUCTION_SHAPE then None
          else Some (JObj [(''verificationStatus'', JStr ''not_verification''), (''summary'', summary)]))"

definition parseCommunityEvidenceContext :: "json \<Rightarrow> json option" where
  "parseCommunityEvidenceContext raw = parse_object COMMUNITY_ENVELOPE_SHAPE raw"

section \<open>The fields a parsed record promises\<close>

definition text_at :: "json \<Rightarrow> string \<Rightarrow> string option" where
  "text_at cells k = (case prop_of cells k of Some (JStr s) \<Rightarrow> Some s | _ \<Rightarrow> None)"

definition null_text_at :: "json \<Rightarrow> string \<Rightarrow> string option option" where
  "null_text_at cells k = (case prop_of cells k of Some (JStr s) \<Rightarrow> Some (Some s) | Some JNull \<Rightarrow> Some None | _ \<Rightarrow> None)"

definition number_at :: "json \<Rightarrow> string \<Rightarrow> rat option" where
  "number_at cells k = (case prop_of cells k of Some (JNum (Fin r)) \<Rightarrow> Some r | _ \<Rightarrow> None)"

definition named_at :: "('a \<Rightarrow> string) \<Rightarrow> 'a list \<Rightarrow> json \<Rightarrow> string \<Rightarrow> 'a option" where
  "named_at name values cells k = Option.bind (text_at cells k) (\<lambda>s. List.find (\<lambda>a. name a = s) values)"

fun texts_of :: "json list \<Rightarrow> string list option" where
  "texts_of [] = Some []"
| "texts_of (v # vs) = (case v of JStr s \<Rightarrow> map_option (\<lambda>ss. s # ss) (texts_of vs) | _ \<Rightarrow> None)"

definition texts_at :: "json \<Rightarrow> string \<Rightarrow> string list option" where
  "texts_at cells k = (case prop_of cells k of Some (JArr vs) \<Rightarrow> texts_of vs | _ \<Rightarrow> None)"

record verdict_dto =
  vd_projectionKey :: string
  vd_subjectId :: string
  vd_evidenceLayer :: evidence_layer
  vd_suiteId :: string
  vd_suiteVersion :: string
  vd_suiteManifestDigest :: string
  vd_projectionSpecVersion :: string
  vd_verdict :: compat_verdict
  vd_asOf :: rat
  vd_scenarioManifestDigests :: "string list"
  vd_claimSourceDigest :: "string option"
  vd_contributingEventIds :: "string list"
  vd_contradictingEventIds :: "string list"
  vd_notes :: "string list"

definition verdict_of :: "json \<Rightarrow> verdict_dto option" where
  "verdict_of c =
     (case (text_at c ''projectionKey'', text_at c ''subjectId'', named_at layer_name EVIDENCE_LAYERS c ''evidenceLayer'', text_at c ''suiteId'') of
        (Some a, Some b, Some l, Some d) \<Rightarrow>
          (case (text_at c ''suiteVersion'', text_at c ''suiteManifestDigest'', text_at c ''projectionSpecVersion'',
                 named_at verdict_name COMPATIBILITY_VERDICTS c ''verdict'', number_at c ''asOf'') of
             (Some e, Some f, Some g, Some v, Some n) \<Rightarrow>
               (case (texts_at c ''scenarioManifestDigests'', null_text_at c ''claimSourceDigest'', texts_at c ''contributingEventIds'',
                      texts_at c ''contradictingEventIds'', texts_at c ''notes'') of
                  (Some h, Some i, Some j, Some k, Some m) \<Rightarrow> Some (verdict_dto.make a b l d e f g v n h i j k m)
                | _ \<Rightarrow> None)
           | _ \<Rightarrow> None)
      | _ \<Rightarrow> None)"

record subject_row =
  sj_subjectId :: string
  sj_subjectKind :: string

definition subject_row_of :: "json \<Rightarrow> subject_row option" where
  "subject_row_of c = (case (text_at c ''subjectId'', text_at c ''subjectKind'') of
     (Some a, Some b) \<Rightarrow> Some \<lparr>sj_subjectId = a, sj_subjectKind = b\<rparr> | _ \<Rightarrow> None)"

text \<open>A row as its publisher signed it, and nothing else beside it.\<close>

definition published_row :: "json \<Rightarrow> bool" where
  "published_row row \<longleftrightarrow>
     (\<exists>ps bundle publisher active revoked.
        row = JObj ps
        \<and> fst ` set ps = {''trustClass'', ''status'', ''bundleId'', ''publisherKeyId'', ''activeRecordCount'', ''revokedRecordCount''}
        \<and> map_of ps ''trustClass'' = Some (JStr ''community_untrusted_v1'')
        \<and> map_of ps ''status'' = Some (JStr ''cryptographically_valid'')
        \<and> map_of ps ''bundleId'' = Some (JStr bundle) \<and> length bundle = 64 \<and> list_all hex_lower bundle
        \<and> map_of ps ''publisherKeyId'' = Some (JStr publisher) \<and> length publisher = 64 \<and> list_all hex_lower publisher
        \<and> map_of ps ''activeRecordCount'' = Some (JNum (Fin (of_nat active))) \<and> active < 2 ^ 53
        \<and> map_of ps ''revokedRecordCount'' = Some (JNum (Fin (of_nat revoked))) \<and> revoked < 2 ^ 53)"

section \<open>Lemmas on kinds\<close>

lemma is_string_iff: "is_string v \<longleftrightarrow> (\<exists>s. v = JStr s)"
  by (cases v) (simp_all add: is_string_def)

lemma finite_number_iff: "finite_number v \<longleftrightarrow> (\<exists>r. v = JNum (Fin r))"
proof (cases v)
  case (JNum n)
  then show ?thesis by (cases n) (simp_all add: finite_number_def)
qed (simp_all add: finite_number_def)

lemma record_count_iff: "isRecordCount v \<longleftrightarrow> (\<exists>n. v = JNum (Fin (of_nat n)) \<and> n < 2 ^ 53)"
proof
  assume "isRecordCount v"
  then obtain r where r: "v = JNum (Fin r)" "of_int \<lfloor>r\<rfloor> = r" "\<bar>r\<bar> \<le> 2 ^ 53 - 1" "0 \<le> r"
    by (auto simp: isRecordCount_def split: json.splits jsnum.splits)
  define n where "n = nat \<lfloor>r\<rfloor>"
  have i: "0 \<le> \<lfloor>r\<rfloor>" using r(4) by simp
  have n: "of_nat n = r" using r(2) i by (simp add: n_def)
  have "(of_nat n :: rat) < of_nat (2 ^ 53)" using r(3,4) n by simp
  then have "n < 2 ^ 53" by (simp only: of_nat_less_iff)
  with r(1) n show "\<exists>n. v = JNum (Fin (of_nat n)) \<and> n < 2 ^ 53" by blast
next
  assume "\<exists>n. v = JNum (Fin (of_nat n)) \<and> n < 2 ^ 53"
  then obtain n where v: "v = JNum (Fin (of_nat n))" and b: "n \<le> 2 ^ 53 - 1" by auto
  from b have "(of_nat n :: rat) \<le> of_nat (2 ^ 53 - 1)" by (simp only: of_nat_le_iff)
  with v show "isRecordCount v" by (simp add: isRecordCount_def)
qed

lemma texts_of_iff: "list_all is_string vs \<longleftrightarrow> (\<exists>ss. texts_of vs = Some ss)"
  by (induction vs) (auto simp: is_string_def split: json.split)

lemma find_named: "(\<exists>a. List.find (\<lambda>a. name a = s) values = Some a) \<longleftrightarrow> s \<in> set (map name values)"
proof
  assume "s \<in> set (map name values)"
  then have "List.find (\<lambda>a. name a = s) values \<noteq> None" by (auto simp: find_None_iff)
  then show "\<exists>a. List.find (\<lambda>a. name a = s) values = Some a" by blast
qed (auto simp: find_Some_iff)

text \<open>A required field is accepted exactly when its reader reads it.\<close>

definition field_ok :: "json \<Rightarrow> string \<Rightarrow> field_kind \<Rightarrow> bool" where
  "field_ok cells k kind = (case prop_of cells k of None \<Rightarrow> False | Some v \<Rightarrow> accepts kind v)"

lemma conforms_open: "conforms cells (open_shape required) = list_all (\<lambda>(k, kind). field_ok cells k kind) required"
  by (simp add: conforms.simps open_shape_def field_ok_def)

lemma field_readers:
  "field_ok c k KText \<longleftrightarrow> (\<exists>s. text_at c k = Some s)"
  "field_ok c k KFilled \<longleftrightarrow> (\<exists>s. text_at c k = Some s \<and> s \<noteq> [])"
  "field_ok c k KTextOrNull \<longleftrightarrow> (\<exists>s. null_text_at c k = Some s)"
  "field_ok c k KNumber \<longleftrightarrow> (\<exists>r. number_at c k = Some r)"
  "field_ok c k KTextList \<longleftrightarrow> (\<exists>ss. texts_at c k = Some ss)"
  by (auto simp: field_ok_def text_at_def null_text_at_def number_at_def texts_at_def is_string_iff finite_number_iff
      texts_of_iff split: option.split json.split jsnum.split)

lemma field_named:
  "field_ok c k KLayer \<longleftrightarrow> (\<exists>l. named_at layer_name EVIDENCE_LAYERS c k = Some l)"
  "field_ok c k KVerdict \<longleftrightarrow> (\<exists>v. named_at verdict_name COMPATIBILITY_VERDICTS c k = Some v)"
  by (simp_all add: field_ok_def named_at_def text_at_def find_named isEvidenceLayer_def isCompatibilityVerdict_def del: set_map
      split: option.split json.split)

section \<open>What a parsed record is\<close>

lemma parse_object_iff: "parse_object shape raw = Some c \<longleftrightarrow> c = raw \<and> isPlainObject raw \<and> conforms raw shape"
  by (auto simp: parse_object_def asDto_def)

lemma reader_needs_object: "text_at c k = Some s \<Longrightarrow> isPlainObject c"
  by (cases c) (simp_all add: text_at_def prop_of_def)

text \<open>A verdict is accepted exactly when it can be read field by field, with three fields that are not empty.\<close>

theorem lab_verdict_typed:
  "parseVerdictDto raw = Some c \<longleftrightarrow>
     c = raw \<and> (\<exists>v. verdict_of raw = Some v \<and> vd_projectionKey v \<noteq> [] \<and> vd_subjectId v \<noteq> [] \<and> vd_suiteId v \<noteq> [])"
proof -
  have "conforms raw VERDICT_SHAPE \<longleftrightarrow>
      (\<exists>v. verdict_of raw = Some v \<and> vd_projectionKey v \<noteq> [] \<and> vd_subjectId v \<noteq> [] \<and> vd_suiteId v \<noteq> [])"
    unfolding VERDICT_SHAPE_def conforms_open
    by (auto simp: field_readers field_named verdict_of_def verdict_dto.make_def split: option.splits)
  moreover have "verdict_of raw = Some v \<Longrightarrow> isPlainObject raw" for v
    using reader_needs_object [of raw "''projectionKey''"] by (auto simp: verdict_of_def split: option.splits)
  ultimately show ?thesis by (auto simp: parseVerdictDto_def parse_object_iff)
qed

theorem lab_subject_typed: "parseSubjectRow raw = Some c \<longleftrightarrow> c = raw \<and> (\<exists>s. subject_row_of raw = Some s)"
  using reader_needs_object [of raw "''subjectId''"]
  by (auto simp: parseSubjectRow_def parse_object_iff SUBJECT_ROW_SHAPE_def conforms_open field_readers subject_row_of_def
      split: option.splits)

lemma closed_conforms:
  "conforms cells ((open_shape required)\<lparr>rs_closed := True\<rparr>) \<longleftrightarrow>
     list_all (\<lambda>(k, kind). field_ok cells k kind) required \<and> fst ` set (own_props cells) = fst ` set required"
proof -
  have "list_all (\<lambda>(k, kind). field_ok cells k kind) required \<Longrightarrow> fst ` set required \<subseteq> fst ` set (own_props cells)"
  proof
    fix k assume "list_all (\<lambda>(k, kind). field_ok cells k kind) required" "k \<in> fst ` set required"
    then obtain kind where "field_ok cells k kind" by (auto simp: list_all_iff)
    then obtain v where "map_of (own_props cells) k = Some v" by (auto simp: field_ok_def prop_of_def split: option.splits)
    then show "k \<in> fst ` set (own_props cells)" by (force dest: map_of_SomeD)
  qed
  then show ?thesis
    by (auto simp: conforms.simps open_shape_def field_ok_def [symmetric] admitsOnly_def list_all_iff)
qed

lemma published_row_iff: "isPlainObject row \<and> conforms row COMMUNITY_ROW_SHAPE \<longleftrightarrow> published_row row"
proof (cases row)
  case (JObj ps)
  have sha: "isSha256Hex v \<longleftrightarrow> (\<exists>s. v = JStr s \<and> length s = 64 \<and> list_all hex_lower s)" for v
    by (simp add: isSha256Hex_def split: json.split)
  have fields: "field_ok row k KCommunityTrust \<longleftrightarrow> map_of ps k = Some (JStr ''community_untrusted_v1'')"
    "field_ok row k KCommunityStatus \<longleftrightarrow> map_of ps k = Some (JStr ''cryptographically_valid'')"
    "field_ok row k KSha256 \<longleftrightarrow> (\<exists>s. map_of ps k = Some (JStr s) \<and> length s = 64 \<and> list_all hex_lower s)"
    "field_ok row k KCount \<longleftrightarrow> (\<exists>n. map_of ps k = Some (JNum (Fin (of_nat n))) \<and> n < 2 ^ 53)" for k
    unfolding field_ok_def prop_of_def JObj own_props.simps accepts.simps isCommunityTrustClass_def isCommunityRowStatus_def
      COMMUNITY_TRUST_CLASS_def COMMUNITY_ROW_STATUS_def sha record_count_iff
    by (auto split: option.splits)
  have conf: "conforms row COMMUNITY_ROW_SHAPE \<longleftrightarrow>
      (map_of ps ''trustClass'' = Some (JStr ''community_untrusted_v1'') \<and> map_of ps ''status'' = Some (JStr ''cryptographically_valid'')
       \<and> (\<exists>s. map_of ps ''bundleId'' = Some (JStr s) \<and> length s = 64 \<and> list_all hex_lower s)
       \<and> (\<exists>s. map_of ps ''publisherKeyId'' = Some (JStr s) \<and> length s = 64 \<and> list_all hex_lower s)
       \<and> (\<exists>n. map_of ps ''activeRecordCount'' = Some (JNum (Fin (of_nat n))) \<and> n < 2 ^ 53)
       \<and> (\<exists>n. map_of ps ''revokedRecordCount'' = Some (JNum (Fin (of_nat n))) \<and> n < 2 ^ 53))
      \<and> fst ` set ps = {''trustClass'', ''status'', ''bundleId'', ''publisherKeyId'', ''activeRecordCount'', ''revokedRecordCount''}"
    unfolding COMMUNITY_ROW_SHAPE_def closed_conforms list.pred_inject prod.case fields
    by (simp only: JObj own_props.simps list.pred_inject list.set image_insert image_empty fst_conv simp_thms)
  show ?thesis
    unfolding conf published_row_def
    by (simp only: JObj isPlainObject.simps json.inject simp_thms, rule iffI; elim conjE exE, intro exI conjI;
        (assumption | rule refl | simp only:))
qed (simp_all add: published_row_def)

text \<open>C34: the community read answers with what it was given, or not at all: the envelope has its three fields and no other, every
  one of its at most 4096 rows is a published row, and it says that nothing in it was verified here. One bad row fails it.\<close>

theorem community_evidence_exact:
  "parseCommunityEvidenceContext raw = Some c \<longleftrightarrow>
     c = raw \<and> (\<exists>ps rows. raw = JObj ps
       \<and> fst ` set ps = {''evidence'', ''trustClass'', ''locallyVerified''}
       \<and> map_of ps ''locallyVerified'' = Some (JBool False)
       \<and> map_of ps ''trustClass'' = Some (JStr ''community_untrusted_v1'')
       \<and> map_of ps ''evidence'' = Some (JArr rows) \<and> length rows \<le> 4096 \<and> (\<forall>row \<in> set rows. published_row row))"
proof (cases raw)
  case (JObj ps)
  have fields: "field_ok raw k KCommunityTrust \<longleftrightarrow> map_of ps k = Some (JStr ''community_untrusted_v1'')"
    "field_ok raw k KExactlyFalse \<longleftrightarrow> map_of ps k = Some (JBool False)"
    "field_ok raw k KCommunityEvidence \<longleftrightarrow>
       (\<exists>rows. map_of ps k = Some (JArr rows) \<and> length rows \<le> 4096 \<and> (\<forall>row \<in> set rows. published_row row))" for k
    unfolding field_ok_def prop_of_def JObj own_props.simps accepts.simps isCommunityTrustClass_def
      COMMUNITY_TRUST_CLASS_def COMMUNITY_EVIDENCE_LIMIT_def published_row_iff
    by (auto simp: list_all_iff split: option.splits json.splits)
  show ?thesis
    unfolding parseCommunityEvidenceContext_def parse_object_iff COMMUNITY_ENVELOPE_SHAPE_def closed_conforms
      JObj list.pred_inject prod.case fields [unfolded JObj] own_props.simps
    by (auto simp: insert_commute)
qed (simp_all add: parseCommunityEvidenceContext_def parse_object_iff)

definition published_sample :: json where
  "published_sample = JObj
     [(''trustClass'', JStr ''community_untrusted_v1''), (''status'', JStr ''cryptographically_valid''),
      (''bundleId'', JStr (replicate 64 CHR ''a'')), (''publisherKeyId'', JStr (replicate 64 CHR ''0'')),
      (''activeRecordCount'', JNum (Fin (of_nat 3))), (''revokedRecordCount'', JNum (Fin (of_nat 0)))]"

definition community_sample :: json where
  "community_sample = JObj
     [(''evidence'', JArr [published_sample]), (''trustClass'', JStr ''community_untrusted_v1''), (''locallyVerified'', JBool False)]"

lemma published_sample_ok: "published_row published_sample"
proof -
  have h: "list_all hex_lower (replicate 64 CHR ''a'')" "list_all hex_lower (replicate 64 CHR ''0'')"
    by (simp_all add: list_all_iff hex_lower_def less_eq_char_def)
  show ?thesis
    unfolding published_row_def published_sample_def
    by (intro exI conjI, rule refl, simp, simp, simp, simp, simp, rule h(1), simp, simp, rule h(2), simp, simp, simp, simp)
qed

theorem community_evidence_exact_witness:
  "parseCommunityEvidenceContext community_sample = Some community_sample"
  by (rule community_evidence_exact [THEN iffD2]) (use published_sample_ok in \<open>simp add: community_sample_def insert_commute\<close>)

lemma event_drops_payload: "parseLabEvent raw = Some c \<Longrightarrow> prop_of c ''payload_json'' = None"
  by (auto simp: parseLabEvent_def asDto_def withoutOmitted_def EVENT_DETAIL_OMISSIONS_def prop_of_def map_of_eq_None_iff
      split: Option.bind_splits if_splits)

lemma event_keeps_rest:
  assumes "parseLabEvent raw = Some c" "k \<noteq> ''payload_json''"
  obtains event where "unwrap raw ''event'' = Some event" "prop_of c k = prop_of event k"
proof -
  from assms obtain event where u: "unwrap raw ''event'' = Some event" and c: "c = withoutOmitted event EVENT_DETAIL_OMISSIONS"
    by (auto simp: parseLabEvent_def asDto_def split: Option.bind_splits if_splits)
  have "map_of (filter (\<lambda>(key, v). key \<notin> set [''payload_json'']) ps) k = map_of ps k" for ps :: "(string \<times> json) list"
    using assms(2) by (induction ps) auto
  with c have "prop_of c k = prop_of event k"
    by (simp add: withoutOmitted_def prop_of_def EVENT_DETAIL_OMISSIONS_def)
  with u that show ?thesis by blast
qed

lemma production_is_no_verification:
  "parsePassiveProductionSummary raw = Some c \<Longrightarrow>
     prop_of c ''verificationStatus'' = Some (JStr ''not_verification'')
     \<and> (\<exists>s. prop_of c ''summary'' = Some s \<and> prop_of s ''verificationStatus'' = Some (JStr ''not_verification''))"
  by (auto simp: parsePassiveProductionSummary_def prop_of_def split: if_splits option.splits)

end
