(* ===== verification/Lab_Pages.thy ===== *)
theory Lab_Pages
  imports Lab_Records
begin

text \<open>
  Collections that come in pages: \<^verbatim>\<open>lab/lab-pages.ts\<close>. A page is read in full or rejected, and a list is collected by following
  cursors for at most 200 pages. The listener is an argument: its answer may depend on how many requests came before and on
  the cursor.
\<close>

section \<open>One page\<close>

datatype lab_failure = LabDataContractError string | ReadFailure string

datatype 'r lab_page = LastPage "'r list" | MorePage "'r list" string

fun page_rows :: "'r lab_page \<Rightarrow> 'r list" where
  "page_rows (LastPage rows) = rows"
| "page_rows (MorePage rows _) = rows"

fun page_cursor :: "'r lab_page \<Rightarrow> string option" where
  "page_cursor (LastPage _) = None"
| "page_cursor (MorePage _ cursor) = Some cursor"

definition LAB_PAGE_SIZE :: nat where
  "LAB_PAGE_SIZE = 50"

definition LAB_PAGE_WALK_MAX :: nat where
  "LAB_PAGE_WALK_MAX = 200"

definition readPageContract :: "json \<Rightarrow> (lab_failure, string option) result" where
  "readPageContract cells =
     bindR (case prop_of cells ''hasMore'' of
              None \<Rightarrow> Inr False
            | Some v \<Rightarrow> (case v of JBool b \<Rightarrow> Inr b | _ \<Rightarrow> Inl (LabDataContractError ''hasMore is not a boolean'')))
       (\<lambda>rawHasMore.
     bindR (case prop_of cells ''nextCursor'' of
              None \<Rightarrow> Inr []
            | Some v \<Rightarrow> (case v of JStr s \<Rightarrow> Inr s | _ \<Rightarrow> Inl (LabDataContractError ''nextCursor is not a string'')))
       (\<lambda>rawCursor.
     if \<not> rawHasMore then Inr None
     else if rawCursor = [] then Inl (LabDataContractError ''hasMore without nextCursor'')
     else Inr (Some rawCursor)))"

definition readLabPage :: "string \<Rightarrow> (json \<Rightarrow> 'r option) \<Rightarrow> json \<Rightarrow> (lab_failure, 'r lab_page) result" where
  "readLabPage key readRow raw =
     (if \<not> isPlainObject raw then Inl (LabDataContractError ''Lab page is not an object'')
      else case prop_of raw key of
        Some (JArr entries) \<Rightarrow>
          bindR (mapR (\<lambda>entry. case readRow entry of
                   None \<Rightarrow> Inl (LabDataContractError (''unreadable '' @ key @ '' row'')) | Some row \<Rightarrow> Inr row) entries)
            (\<lambda>rows. bindR (readPageContract raw)
              (\<lambda>contract. Inr (case contract of None \<Rightarrow> LastPage rows | Some cursor \<Rightarrow> MorePage rows cursor)))
      | _ \<Rightarrow> Inl (LabDataContractError (''missing '' @ key @ '' collection'')))"

section \<open>The walk\<close>

text \<open>The cursors a walk has visited; the cursor of the next page has to be a new one.\<close>

definition advance :: "string list \<Rightarrow> string option \<Rightarrow> string \<Rightarrow> (lab_failure, string list) result" where
  "advance visited from to =
     (if to = [] \<or> Some to = from then Inl (LabDataContractError ''pagination cursor did not advance'')
      else if to \<in> set visited then Inl (LabDataContractError ''pagination cursor repeated'')
      else Inr (visited @ [to]))"

record 'r collected_rows =
  cl_rows :: "'r list"
  cl_truncated :: bool

text \<open>The walk returns the cursors it asked for, in order, and its result.\<close>

fun walk_from ::
  "(nat \<Rightarrow> string option \<Rightarrow> (lab_failure, 'r lab_page) result) \<Rightarrow> nat \<Rightarrow> nat \<Rightarrow> string option \<Rightarrow> string list \<Rightarrow> 'r list
   \<Rightarrow> string option list \<times> (lab_failure, 'r collected_rows) result" where
  "walk_from load 0 hop cursor visited rows = ([], Inr \<lparr>cl_rows = rows, cl_truncated = True\<rparr>)"
| "walk_from load (Suc left) hop cursor visited rows =
     (case load hop cursor of
        Inl e \<Rightarrow> ([cursor], Inl e)
      | Inr (LastPage new) \<Rightarrow> ([cursor], Inr \<lparr>cl_rows = rows @ new, cl_truncated = False\<rparr>)
      | Inr (MorePage new onward) \<Rightarrow>
          (case advance visited cursor onward of
             Inl e \<Rightarrow> ([cursor], Inl e)
           | Inr visited' \<Rightarrow>
               (let (asked, r) = walk_from load left (Suc hop) (Some onward) visited' (rows @ new) in (cursor # asked, r))))"

definition walkPages ::
  "(nat \<Rightarrow> string option \<Rightarrow> (lab_failure, 'r lab_page) result) \<Rightarrow> string option list \<times> (lab_failure, 'r collected_rows) result" where
  "walkPages load = walk_from load LAB_PAGE_WALK_MAX 0 None [] []"

section \<open>Lemmas on pages\<close>

lemma mapR_nth: "mapR f xs = Inr ys \<Longrightarrow> length ys = length xs \<and> (\<forall>i < length xs. f (xs ! i) = Inr (ys ! i))"
proof (induction xs arbitrary: ys)
  case (Cons x xs)
  then obtain y ys' where "ys = y # ys'" "f x = Inr y" "mapR f xs = Inr ys'" by (auto simp: bindR_eq_Inr)
  with Cons.IH show ?case by (auto simp: nth_Cons split: nat.split)
qed simp

text \<open>No row of a page is dropped, and a page that goes on says where.\<close>

lemma page_all_or_nothing:
  assumes "readLabPage key readRow raw = Inr p"
  obtains entries where "prop_of raw key = Some (JArr entries)" "map readRow entries = map Some (page_rows p)"
    "page_cursor p \<noteq> Some []" "page_cursor p \<noteq> None \<longleftrightarrow> prop_of raw ''hasMore'' = Some (JBool True)"
    "page_cursor p \<noteq> None \<Longrightarrow> prop_of raw ''nextCursor'' = Some (JStr (the (page_cursor p)))"
proof -
  from assms obtain entries rows contract where e: "prop_of raw key = Some (JArr entries)"
    and m: "mapR (\<lambda>entry. case readRow entry of None \<Rightarrow> Inl (LabDataContractError (''unreadable '' @ key @ '' row'')) | Some row \<Rightarrow> Inr row)
              entries = Inr rows"
    and c: "readPageContract raw = Inr contract"
    and p: "p = (case contract of None \<Rightarrow> LastPage rows | Some cursor \<Rightarrow> MorePage rows cursor)"
    by (auto simp: readLabPage_def bindR_eq_Inr split: if_splits option.splits json.splits)
  have "map readRow entries = map Some rows"
    using mapR_nth [OF m] by (auto simp: list_eq_iff_nth_eq split: option.splits)
  moreover have "page_rows p = rows" "page_cursor p = contract" using p by (auto split: option.splits)
  moreover have "contract \<noteq> Some []" "contract \<noteq> None \<longleftrightarrow> prop_of raw ''hasMore'' = Some (JBool True)"
    "contract \<noteq> None \<Longrightarrow> prop_of raw ''nextCursor'' = Some (JStr (the contract))"
    using c by (auto simp: readPageContract_def bindR_eq_Inr split: option.splits json.splits if_splits)
  ultimately show ?thesis using that [OF e] by simp
qed

section \<open>What a walk has read\<close>

text \<open>
  Each request but the first follows the cursor of the page before it, no cursor is asked twice, and the rows are those of the
  pages read, in order.
\<close>

definition page_chain ::
  "(nat \<Rightarrow> string option \<Rightarrow> (lab_failure, 'r lab_page) result) \<Rightarrow> nat \<Rightarrow> string option list \<Rightarrow> 'r lab_page list \<Rightarrow> bool" where
  "page_chain load hop asked pages \<longleftrightarrow> length pages = length asked
     \<and> (\<forall>i < length asked. load (hop + i) (asked ! i) = Inr (pages ! i))
     \<and> (\<forall>i. Suc i < length asked \<longrightarrow> page_cursor (pages ! i) = asked ! Suc i \<and> asked ! Suc i \<noteq> None)"

lemma page_chain_Nil: "page_chain load hop [] []"
  by (simp add: page_chain_def)

lemma page_chain_Cons:
  assumes "load hop cursor = Inr p" "page_chain load (Suc hop) asked pages"
    and "asked \<noteq> [] \<Longrightarrow> hd asked \<noteq> None \<and> page_cursor p = hd asked"
  shows "page_chain load hop (cursor # asked) (p # pages)"
  using assms unfolding page_chain_def
  by (auto simp: nth_Cons hd_conv_nth split: nat.split)

lemma walk_asks: "walk_from load n hop cursor visited rows = (asked, r) \<Longrightarrow>
   length asked \<le> n \<and> (asked \<noteq> [] \<longrightarrow> hd asked = cursor) \<and> (n \<noteq> 0 \<longrightarrow> asked \<noteq> [])"
  by (induction load n hop cursor visited rows arbitrary: asked r rule: walk_from.induct)
    (auto split: sum.splits lab_page.splits prod.splits)

lemma walk_new_cursors:
  "walk_from load n hop cursor visited rows = (asked, r) \<Longrightarrow> set_option cursor \<subseteq> set visited \<Longrightarrow>
   distinct asked \<and> (\<forall>c \<in> set (tl asked). c \<noteq> None \<and> the c \<notin> set visited)"
proof (induction load n hop cursor visited rows arbitrary: asked r rule: walk_from.induct)
  case (2 load left hop cursor visited rows)
  show ?case
  proof (cases "\<exists>new onward visited'. load hop cursor = Inr (MorePage new onward) \<and> advance visited cursor onward = Inr visited'")
    case True
    then obtain new onward visited' where l: "load hop cursor = Inr (MorePage new onward)"
      and a: "advance visited cursor onward = Inr visited'" by blast
    obtain asked' where w: "walk_from load left (Suc hop) (Some onward) visited' (rows @ new) = (asked', r)"
      and asked: "asked = cursor # asked'" using "2.prems"(1) l a by (auto split: prod.splits)
    have v: "visited' = visited @ [onward]" "onward \<notin> set visited" using a by (auto simp: advance_def split: if_splits)
    have ih: "distinct asked'" "\<forall>c \<in> set (tl asked'). c \<noteq> None \<and> the c \<notin> set visited'"
      using "2.IH" [OF l refl a w] v by auto
    have hd: "asked' \<noteq> [] \<Longrightarrow> hd asked' = Some onward" using walk_asks [OF w] by simp
    have all: "\<forall>c \<in> set asked'. c \<noteq> None \<and> the c \<notin> set visited"
      using ih(2) hd v by (cases asked') auto
    then have "cursor \<notin> set asked'" using "2.prems"(2) by (cases cursor) auto
    with ih(1) all asked show ?thesis by simp
  next
    case False
    with "2.prems" have "asked = [cursor]" by (auto split: sum.splits lab_page.splits)
    then show ?thesis by simp
  qed
qed simp

lemma walk_reads:
  "walk_from load n hop cursor visited rows = (asked, Inr c) \<Longrightarrow>
   \<exists>pages. page_chain load hop asked pages \<and> cl_rows c = rows @ concat (map page_rows pages)
     \<and> (if cl_truncated c then length asked = n \<and> list_all (\<lambda>p. page_cursor p \<noteq> None) pages
        else pages \<noteq> [] \<and> page_cursor (last pages) = None)"
proof (induction load n hop cursor visited rows arbitrary: asked c rule: walk_from.induct)
  case (1 load hop cursor visited rows)
  then show ?case using page_chain_Nil by (intro exI [of _ "[]"]) auto
next
  case (2 load left hop cursor visited rows)
  show ?case
  proof (cases "load hop cursor")
    case (Inl e)
    with "2.prems" show ?thesis by simp
  next
    case (Inr p)
    show ?thesis
    proof (cases p)
      case (LastPage new)
      with Inr "2.prems" have "asked = [cursor]" "c = \<lparr>cl_rows = rows @ new, cl_truncated = False\<rparr>" by simp_all
      moreover have "page_chain load hop [cursor] [p]"
        using page_chain_Cons [of load hop cursor p "[]" "[]"] Inr page_chain_Nil [of load "Suc hop"] by simp
      ultimately show ?thesis using LastPage by (intro exI [of _ "[p]"]) simp
    next
      case (MorePage new onward)
      with Inr "2.prems" obtain visited' asked' where a: "advance visited cursor onward = Inr visited'"
        and w: "walk_from load left (Suc hop) (Some onward) visited' (rows @ new) = (asked', Inr c)"
        and asked: "asked = cursor # asked'" by (auto split: sum.splits prod.splits)
      from "2.IH" [OF Inr MorePage a w] obtain pages where chain: "page_chain load (Suc hop) asked' pages"
        and rest: "cl_rows c = (rows @ new) @ concat (map page_rows pages)"
          "if cl_truncated c then length asked' = left \<and> list_all (\<lambda>p. page_cursor p \<noteq> None) pages
           else pages \<noteq> [] \<and> page_cursor (last pages) = None"
        by blast
      have "page_chain load hop asked (p # pages)"
        unfolding asked using walk_asks [OF w] MorePage by (intro page_chain_Cons [where p = p] Inr chain) auto
      with rest asked MorePage show ?thesis by (intro exI [of _ "p # pages"]) (auto split: if_splits)
    qed
  qed
qed

text \<open>C35: whatever the listener answers, a walk makes at least one and at most 200 requests and never asks for a cursor twice. When it
  returns rows, they are the rows of the pages it read, in order, where each request follows the cursor of the page before
  it; it calls the list complete only when the page it read last was the last one, and truncated only after 200 pages that all
  went on.\<close>

theorem lab_walk_sound:
  assumes "walkPages load = (asked, r)"
  shows "asked \<noteq> [] \<and> hd asked = None \<and> length asked \<le> 200 \<and> distinct asked
    \<and> (case r of Inl e \<Rightarrow> True | Inr c \<Rightarrow>
        (\<exists>pages. page_chain load 0 asked pages \<and> cl_rows c = concat (map page_rows pages)
          \<and> (if cl_truncated c then length asked = 200 \<and> list_all (\<lambda>p. page_cursor p \<noteq> None) pages
             else page_cursor (last pages) = None)))"
proof -
  have w: "walk_from load 200 0 None [] [] = (asked, r)" using assms by (simp only: walkPages_def LAB_PAGE_WALK_MAX_def)
  have "asked \<noteq> [] \<and> hd asked = None \<and> length asked \<le> 200 \<and> distinct asked"
    using walk_asks [OF w] walk_new_cursors [OF w] by simp
  moreover have "case r of Inl e \<Rightarrow> True | Inr c \<Rightarrow>
        (\<exists>pages. page_chain load 0 asked pages \<and> cl_rows c = concat (map page_rows pages)
          \<and> (if cl_truncated c then length asked = 200 \<and> list_all (\<lambda>p. page_cursor p \<noteq> None) pages
             else page_cursor (last pages) = None))"
  proof (cases r)
    case (Inr c)
    with walk_reads [of load 200 0 None "[]" "[]" asked c] w show ?thesis by (fastforce split: if_splits)
  qed simp
  ultimately show ?thesis by blast
qed

definition looping_listener :: "nat \<Rightarrow> string option \<Rightarrow> (lab_failure, nat lab_page) result" where
  "looping_listener hop cursor = Inr (if cursor = None then MorePage [hop] ''a'' else LastPage [hop])"

lemma looping_walk: "walkPages looping_listener = ([None, Some ''a''], Inr \<lparr>cl_rows = [0, 1], cl_truncated = False\<rparr>)"
  by (simp add: walkPages_def LAB_PAGE_WALK_MAX_def looping_listener_def advance_def eval_nat_numeral)

theorem lab_walk_sound_witness:
  "walkPages looping_listener = ([None, Some ''a''], Inr \<lparr>cl_rows = [0, 1], cl_truncated = False\<rparr>)
   \<and> (\<exists>pages. page_chain looping_listener 0 [None, Some ''a''] pages \<and> concat (map page_rows pages) = [0, 1]
        \<and> page_cursor (last pages) = None)"
  using lab_walk_sound [OF looping_walk] looping_walk by fastforce

section \<open>A listener that serves a list\<close>

definition cursor_at :: "(nat \<Rightarrow> string) \<Rightarrow> nat \<Rightarrow> string option" where
  "cursor_at token i = (if i = 0 then None else Some (token i))"

definition served_page :: "(nat \<Rightarrow> string) \<Rightarrow> nat \<Rightarrow> 'r list \<Rightarrow> nat \<Rightarrow> 'r lab_page" where
  "served_page token chunk xs i =
     (let part = take chunk (drop (i * chunk) xs)
      in if Suc i * chunk < length xs then MorePage part (token (Suc i)) else LastPage part)"

lemma walk_served:
  assumes "0 < chunk" "inj token" "\<And>i. token i \<noteq> []"
    and serves: "\<And>i. i < m \<Longrightarrow> load i (cursor_at token i) = Inr (served_page token chunk xs i)"
  shows "hop + left = m \<Longrightarrow> hop = 0 \<or> hop * chunk < length xs \<Longrightarrow> 0 < m \<Longrightarrow>
    snd (walk_from load left hop (cursor_at token hop) (map token [1..<Suc hop]) (take (hop * chunk) xs)) =
      Inr \<lparr>cl_rows = take (m * chunk) xs, cl_truncated = m * chunk < length xs\<rparr>"
proof (induction left arbitrary: hop)
  case 0
  then show ?case by simp
next
  case (Suc left)
  have l: "load hop (cursor_at token hop) = Inr (served_page token chunk xs hop)" using serves Suc.prems by simp
  have rows: "take (hop * chunk) xs @ take chunk (drop (hop * chunk) xs) = take (Suc hop * chunk) xs"
    by (metis add.commute mult_Suc take_add)
  show ?case
  proof (cases "Suc hop * chunk < length xs")
    case True
    have new: "token (Suc hop) \<notin> set (map token [1..<Suc hop])"
      using injD [OF assms(2), of "Suc hop"] by fastforce
    have other: "Some (token (Suc hop)) \<noteq> cursor_at token hop"
      using injD [OF assms(2), of "Suc hop" hop] by (auto simp: cursor_at_def)
    from new other assms(3) have a: "advance (map token [1..<Suc hop]) (cursor_at token hop) (token (Suc hop)) =
        Inr (map token [1..<Suc (Suc hop)])"
      by (simp add: advance_def)
    have c: "Some (token (Suc hop)) = cursor_at token (Suc hop)" by (simp add: cursor_at_def)
    have "served_page token chunk xs hop = MorePage (take chunk (drop (hop * chunk) xs)) (token (Suc hop))"
      using True by (simp add: served_page_def Let_def)
    then show ?thesis
      using l a Suc.IH [of "Suc hop"] Suc.prems True
      by (simp only: walk_from.simps sum.case lab_page.case rows c) (simp add: case_prod_beta)
  next
    case False
    then have "served_page token chunk xs hop = LastPage (take chunk (drop (hop * chunk) xs))"
      by (simp add: served_page_def Let_def)
    moreover have "Suc hop * chunk \<le> m * chunk" using Suc.prems by (intro mult_le_mono1) simp
    then have "length xs \<le> m * chunk" "take (Suc hop * chunk) xs = take (m * chunk) xs" using False by (simp_all only: take_all)
    ultimately show ?thesis using l rows by simp
  qed
qed

text \<open>From a listener that hands out a list in pages, a walk collects the list, up to 200 pages of it, and says that it stopped
  exactly when rows are left.\<close>

theorem lab_walk_complete:
  assumes "0 < chunk" "inj token" "\<And>i. token i \<noteq> []"
    and "\<And>i. i < 200 \<Longrightarrow> load i (cursor_at token i) = Inr (served_page token chunk xs i)"
  shows "snd (walkPages load) = Inr \<lparr>cl_rows = take (200 * chunk) xs, cl_truncated = 200 * chunk < length xs\<rparr>"
  using walk_served [OF assms(1,2,3), of 200 load xs 0 200] assms(4)
  by (simp add: walkPages_def LAB_PAGE_WALK_MAX_def cursor_at_def)

definition chunk_listener :: "nat \<Rightarrow> string option \<Rightarrow> (lab_failure, nat lab_page) result" where
  "chunk_listener hop cursor = Inr (served_page show_nat 2 [10, 20, 30, 40, 50] hop)"

lemma lab_walk_complete_sample: "snd (walkPages chunk_listener) = Inr \<lparr>cl_rows = [10, 20, 30, 40, 50], cl_truncated = False\<rparr>"
proof -
  have "inj show_nat" by (rule injI) (rule show_nat_inj)
  then have "snd (walkPages chunk_listener) =
      Inr \<lparr>cl_rows = take (200 * 2) [10, 20, 30, 40, 50], cl_truncated = 200 * 2 < length [10 :: nat, 20, 30, 40, 50]\<rparr>"
    by (rule lab_walk_complete [rotated]) (simp_all add: chunk_listener_def)
  then show ?thesis by simp
qed

end
