(* ===== verification/Lab_Matrix.thy ===== *)
theory Lab_Matrix
  imports Lab_Records
begin

text \<open>
  The compatibility matrix: \<^verbatim>\<open>lab/evidence-matrix.ts\<close> folds verdicts into one row per subject and suite and filters them,
  \<^verbatim>\<open>lab/lab-catalog.ts\<close> reads the suites a profile may require, and \<^verbatim>\<open>pages/compatibility-matrix-view.ts\<close> with
  \<^verbatim>\<open>pages/compatibility-matrix-labels.ts\<close> decides what the page says. The order of ids is the parameter \<open>loc\<close>,
  \<^verbatim>\<open>localeCompare\<close>; dates are printed by the browser and are left out, and the length of an id counts bytes.
\<close>

section \<open>Rows\<close>

record matrix_row =
  mr_subjectId :: string
  mr_subjectKind :: string
  mr_suiteId :: string
  mr_showSubject :: bool
  mr_byLayer :: "evidence_layer \<Rightarrow> verdict_dto option"

definition sortIds :: "(string \<Rightarrow> string \<Rightarrow> int) \<Rightarrow> string list \<Rightarrow> string list" where
  "sortIds loc ids = sort_by loc ids"

definition emptyLayerSlots :: "evidence_layer \<Rightarrow> verdict_dto option" where
  "emptyLayerSlots = (\<lambda>_. None)"

definition newerVerdict :: "verdict_dto option \<Rightarrow> verdict_dto \<Rightarrow> verdict_dto" where
  "newerVerdict held candidate =
     (case held of None \<Rightarrow> candidate | Some h \<Rightarrow> if vd_asOf candidate \<ge> vd_asOf h then candidate else h)"

definition matrixRowKey :: "string \<Rightarrow> string \<Rightarrow> string" where
  "matrixRowKey subjectId suiteId = ''['' @ json_quote subjectId @ '','' @ json_quote suiteId @ '']''"

type_synonym suite_slots = "(string \<times> (evidence_layer \<Rightarrow> verdict_dto option)) list"

definition put_verdict :: "(string \<times> suite_slots) list \<Rightarrow> verdict_dto \<Rightarrow> (string \<times> suite_slots) list" where
  "put_verdict groups v =
     (let suites = get_or [] groups (vd_subjectId v);
          slots = get_or emptyLayerSlots suites (vd_suiteId v);
          slots' = slots(vd_evidenceLayer v := Some (newerVerdict (slots (vd_evidenceLayer v)) v))
      in map_set (vd_subjectId v) (map_set (vd_suiteId v) slots' suites) groups)"

definition subject_kinds :: "subject_row list \<Rightarrow> (string \<times> string) list" where
  "subject_kinds subjects = foldl (\<lambda>m s. map_set (sj_subjectId s) (sj_subjectKind s) m) [] subjects"

definition subject_rows :: "(string \<Rightarrow> string \<Rightarrow> int) \<Rightarrow> (string \<times> string) list \<Rightarrow> string \<Rightarrow> suite_slots \<Rightarrow> matrix_row list" where
  "subject_rows loc kinds subjectId suites =
     map (\<lambda>(index, suiteId).
            \<lparr>mr_subjectId = subjectId, mr_subjectKind = get_or [] kinds subjectId, mr_suiteId = suiteId, mr_showSubject = (index = 0),
             mr_byLayer = get_or emptyLayerSlots suites suiteId\<rparr>)
         (enumerate 0 (sortIds loc (map fst suites)))"

definition buildMatrixRows :: "(string \<Rightarrow> string \<Rightarrow> int) \<Rightarrow> verdict_dto list \<Rightarrow> subject_row list \<Rightarrow> matrix_row list" where
  "buildMatrixRows loc verdicts subjects =
     (let kinds = subject_kinds subjects; groups = foldl put_verdict [] verdicts
      in concat (map (\<lambda>subjectId. subject_rows loc kinds subjectId (get_or [] groups subjectId)) (sortIds loc (map fst groups))))"

definition preferredMatrixVerdict :: "matrix_row \<Rightarrow> verdict_dto option" where
  "preferredMatrixVerdict row =
     (case mr_byLayer row LiveRoute of Some v \<Rightarrow> Some v
      | None \<Rightarrow> (case mr_byLayer row Protocol of Some v \<Rightarrow> Some v | None \<Rightarrow> mr_byLayer row TaskEffectiveness))"

section \<open>Filters\<close>

text \<open>The empty choice of a filter is \<open>None\<close>.\<close>

record verdict_filters =
  vf_layer :: "evidence_layer option"
  vf_verdict :: "compat_verdict option"
  vf_subjectQuery :: string
  vf_suiteId :: string

definition UNFILTERED_VERDICT_FILTERS :: verdict_filters where
  "UNFILTERED_VERDICT_FILTERS = \<lparr>vf_layer = None, vf_verdict = None, vf_subjectQuery = [], vf_suiteId = []\<rparr>"

record verdict_query =
  vq_layer :: "evidence_layer option"
  vq_verdict :: "compat_verdict option"
  vq_subjectId :: "string option"
  vq_suiteId :: "string option"

definition verdictPredicates :: "verdict_filters \<Rightarrow> (verdict_dto \<Rightarrow> bool) list" where
  "verdictPredicates f =
     (case vf_layer f of None \<Rightarrow> [] | Some l \<Rightarrow> [\<lambda>v. vd_evidenceLayer v = l])
     @ (case vf_verdict f of None \<Rightarrow> [] | Some w \<Rightarrow> [\<lambda>v. vd_verdict v = w])
     @ (if vf_suiteId f = [] then [] else [\<lambda>v. vd_suiteId v = vf_suiteId f])
     @ (let needle = to_lower (trim (vf_subjectQuery f))
        in if needle = [] then [] else [\<lambda>v. str_includes (to_lower (vd_subjectId v)) needle])"

definition filterVerdicts :: "verdict_dto list \<Rightarrow> verdict_filters \<Rightarrow> verdict_dto list" where
  "filterVerdicts verdicts f = (let ps = verdictPredicates f in filter (\<lambda>v. list_all (\<lambda>p. p v) ps) verdicts)"

text \<open>\<^verbatim>\<open>Set.add\<close>: a member keeps its place.\<close>

definition js_set_add :: "'a list \<Rightarrow> 'a \<Rightarrow> 'a list" where
  "js_set_add xs x = (if x \<in> set xs then xs else xs @ [x])"

definition suiteIdsFromVerdicts :: "(string \<Rightarrow> string \<Rightarrow> int) \<Rightarrow> verdict_dto list \<Rightarrow> string list" where
  "suiteIdsFromVerdicts loc verdicts =
     sortIds loc (foldl (\<lambda>ids v. let trimmed = trim (vd_suiteId v) in if trimmed \<noteq> [] then js_set_add ids trimmed else ids) [] verdicts)"

definition verdictQueryFromFilters :: "verdict_filters \<Rightarrow> verdict_query" where
  "verdictQueryFromFilters f =
     \<lparr>vq_layer = vf_layer f, vq_verdict = vf_verdict f, vq_subjectId = None,
      vq_suiteId = (let suiteId = trim (vf_suiteId f) in if suiteId = [] then None else Some suiteId)\<rparr>"

definition shortSubjectId :: "string \<Rightarrow> string" where
  "shortSubjectId subjectId =
     (if length subjectId \<le> 16 then subjectId else take 8 subjectId @ ''.'' @ drop (length subjectId - 6) subjectId)"

section \<open>The suites of the catalog\<close>

record catalog_suite =
  cs_suiteId :: string
  cs_evidenceLayer :: evidence_layer
  cs_key :: string

definition suiteKey :: "evidence_layer \<Rightarrow> string \<Rightarrow> string" where
  "suiteKey evidenceLayer suiteId = layer_name evidenceLayer @ '':'' @ suiteId"

definition readSuite :: "json \<Rightarrow> catalog_suite option" where
  "readSuite row =
     (if \<not> isPlainObject row then None
      else let suiteId = (case prop_of row ''suiteId'' of Some (JStr s) \<Rightarrow> trim s | _ \<Rightarrow> [])
           in if suiteId = [] then None
              else case List.find (\<lambda>l. Some (JStr (layer_name l)) = prop_of row ''evidenceLayer'') PRODUCT_EVIDENCE_LAYERS of
                None \<Rightarrow> None
              | Some l \<Rightarrow> Some \<lparr>cs_suiteId = suiteId, cs_evidenceLayer = l, cs_key = suiteKey l suiteId\<rparr>)"

definition add_suite :: "(string \<times> catalog_suite) list \<Rightarrow> json \<Rightarrow> (string \<times> catalog_suite) list" where
  "add_suite suites row =
     (case readSuite row of
        Some s \<Rightarrow> if cs_key s \<in> fst ` set suites then suites else map_set (cs_key s) s suites
      | None \<Rightarrow> suites)"

definition readLabCatalog :: "(string \<Rightarrow> string \<Rightarrow> int) \<Rightarrow> json \<Rightarrow> catalog_suite list option" where
  "readLabCatalog loc payload =
     (if \<not> isPlainObject payload then None
      else case prop_of payload ''scenarios'' of
        Some (JArr rows) \<Rightarrow> Some (sort_by (\<lambda>a b. loc (cs_key a) (cs_key b)) (map snd (foldl add_suite [] rows)))
      | _ \<Rightarrow> None)"

section \<open>What the page says\<close>

definition filtersAreActive :: "verdict_filters \<Rightarrow> bool" where
  "filtersAreActive f \<longleftrightarrow> vf_layer f \<noteq> None \<or> vf_verdict f \<noteq> None \<or> trim (vf_subjectQuery f) \<noteq> [] \<or> trim (vf_suiteId f) \<noteq> []"

record ('d, 'x) page_extra =
  pe_baseData :: 'd
  pe_queryKey :: string
  pe_extra :: 'x

definition pageScopedExtra :: "('d, 'x) page_extra option \<Rightarrow> 'd \<Rightarrow> string \<Rightarrow> ('d, 'x) page_extra option" where
  "pageScopedExtra extra baseData queryKey =
     (case extra of None \<Rightarrow> None
      | Some e \<Rightarrow> if pe_baseData e \<noteq> baseData \<or> pe_queryKey e \<noteq> queryKey then None else Some e)"

definition scopedFailureMessage :: "('d, string) page_extra option \<Rightarrow> 'd \<Rightarrow> string \<Rightarrow> string option" where
  "scopedFailureMessage failure baseData queryKey = map_option pe_extra (pageScopedExtra failure baseData queryKey)"

definition pageHasMoreVerdicts :: "bool option \<Rightarrow> bool option \<Rightarrow> bool" where
  "pageHasMoreVerdicts extraHasMore dataHasMore =
     (case extraHasMore of Some b \<Rightarrow> b | None \<Rightarrow> (case dataHasMore of Some b \<Rightarrow> b | None \<Rightarrow> False))"

definition browser_failure :: "string \<Rightarrow> bool" where
  "browser_failure message \<longleftrightarrow>
     message = ''Failed to fetch'' \<or> str_includes message ''NetworkError'' \<or> str_includes message ''network error''"

text \<open>The error is \<open>None\<close> when what was thrown is not an \<^verbatim>\<open>Error\<close>, its message otherwise.\<close>

definition labFailureMessage :: "string option \<Rightarrow> string \<Rightarrow> string" where
  "labFailureMessage error fallback =
     (let message = trim (case error of Some m \<Rightarrow> m | None \<Rightarrow> [])
      in if message = [] \<or> browser_failure message then fallback else message)"

definition compatibilityPageNotices :: "string \<Rightarrow> string option \<Rightarrow> string \<Rightarrow> string \<Rightarrow> string option \<times> string option" where
  "compatibilityPageNotices surfaceKind surfaceError loadFailedLabel refreshFailedStaleLabel =
     (if surfaceKind = ''failed-cold'' then (Some (labFailureMessage surfaceError loadFailedLabel), None)
      else if surfaceKind = ''failed-with-stale'' then (None, Some refreshFailedStaleLabel)
      else (None, None))"

fun layer_text :: "evidence_layer \<Rightarrow> string \<times> string" where
  "layer_text Protocol = (''lab.layer.protocol_conformance'', ''lab.col.protocol'')"
| "layer_text LiveRoute = (''lab.layer.live_route_compatibility'', ''lab.col.live'')"
| "layer_text TaskEffectiveness = (''lab.layer.task_effectiveness'', ''lab.col.task'')"

definition verdictText :: "compat_verdict \<Rightarrow> string" where
  "verdictText v = ''lab.verdict.'' @ verdict_name v"

section \<open>Row keys\<close>

lemma hex_digit_inj: "m < 16 \<Longrightarrow> n < 16 \<Longrightarrow> hex_digit m = hex_digit n \<Longrightarrow> m = n"
proof -
  have "list_all (\<lambda>m. list_all (\<lambda>n. hex_digit m = hex_digit n \<longrightarrow> m = n) [0..<16]) [0..<16]" by code_simp
  then show "m < 16 \<Longrightarrow> n < 16 \<Longrightarrow> hex_digit m = hex_digit n \<Longrightarrow> m = n" by (auto simp: list_all_iff)
qed

text \<open>The first two bytes of an escaped character tell how many there are, and the bytes tell the character.\<close>

lemma escape_shape:
  "json_escape c = (if c \<in> {CHR 34, CHR 92, CHR 8, CHR 9, CHR 10, CHR 12, CHR 13}
     then [CHR 92, if c = CHR 8 then CHR ''b'' else if c = CHR 9 then CHR ''t'' else if c = CHR 10 then CHR ''n''
                   else if c = CHR 12 then CHR ''f'' else if c = CHR 13 then CHR ''r'' else c]
     else if of_char c < (32 :: nat)
     then [CHR 92, CHR ''u'', CHR ''0'', CHR ''0'', hex_digit (of_char c div 16), hex_digit (of_char c mod 16)] else [c])"
  by (auto simp: json_escape_def)

lemma control_code: "of_char c < (32 :: nat) \<Longrightarrow> of_char d < (32 :: nat) \<Longrightarrow>
   hex_digit (of_char c div 16) = hex_digit (of_char d div 16) \<Longrightarrow> hex_digit (of_char c mod 16) = hex_digit (of_char d mod 16) \<Longrightarrow> c = d"
proof -
  assume b: "of_char c < (32 :: nat)" "of_char d < (32 :: nat)"
    and h: "hex_digit (of_char c div 16) = hex_digit (of_char d div 16)" "hex_digit (of_char c mod 16) = hex_digit (of_char d mod 16)"
  have "of_char c div 16 = (of_char d div 16 :: nat)" by (rule hex_digit_inj) (use b h in auto)
  moreover have "of_char c mod 16 = (of_char d mod 16 :: nat)" by (rule hex_digit_inj) (use b h in auto)
  ultimately have "of_char c = (of_char d :: nat)" by (metis div_mult_mod_eq)
  then show "c = d" by (simp only: of_char_eq_iff)
qed

lemma escape_apart: "json_escape c @ A = json_escape d @ B \<Longrightarrow> c = d \<and> A = B"
  unfolding escape_shape by (auto split: if_splits dest: control_code)

lemma escape_no_quote: "json_escape c @ A \<noteq> CHR 34 # B"
  by (auto simp: json_escape_def)

lemma quote_apart: "json_quote s @ A = json_quote t @ B \<Longrightarrow> s = t \<and> A = B"
proof -
  have "concat (map json_escape s) @ CHR 34 # A = concat (map json_escape t) @ CHR 34 # B \<Longrightarrow> s = t \<and> A = B"
  proof (induction s arbitrary: t)
    case Nil
    then show ?case using escape_no_quote by (cases t) (auto, metis append_assoc)
  next
    case (Cons c s)
    show ?case
    proof (cases t)
      case Nil
      with Cons.prems escape_no_quote [of c "concat (map json_escape s) @ CHR 34 # A" B] show ?thesis by simp
    next
      case (Cons d u)
      with Cons.prems have "json_escape c @ concat (map json_escape s) @ CHR 34 # A = json_escape d @ concat (map json_escape u) @ CHR 34 # B"
        by simp
      from escape_apart [OF this] Cons.IH [of u] Cons show ?thesis by simp
    qed
  qed
  then show "json_quote s @ A = json_quote t @ B \<Longrightarrow> s = t \<and> A = B" by (simp add: json_quote_def)
qed

text \<open>The key of a row is as good as the pair it is built from, whatever the ids contain.\<close>

theorem matrixRowKey_inj: "matrixRowKey s t = matrixRowKey s' t' \<longleftrightarrow> s = s' \<and> t = t'"
proof
  assume "matrixRowKey s t = matrixRowKey s' t'"
  then have "json_quote s @ '','' @ json_quote t @ '']'' = json_quote s' @ '','' @ json_quote t' @ '']''"
    by (simp add: matrixRowKey_def)
  from quote_apart [OF this] have "s = s'" "json_quote t @ '']'' = json_quote t' @ '']''" by simp_all
  with quote_apart [of t "'']''" t' "'']''"] show "s = s' \<and> t = t'" by simp
qed simp

section \<open>What the groups hold\<close>

text \<open>The newest of a list of verdicts; of equally new ones the last.\<close>

definition newest :: "verdict_dto list \<Rightarrow> verdict_dto option" where
  "newest vs = foldl (\<lambda>held v. Some (newerVerdict held v)) None vs"

definition is_newest :: "verdict_dto list \<Rightarrow> verdict_dto \<Rightarrow> bool" where
  "is_newest vs v \<longleftrightarrow>
     (\<exists>before after. vs = before @ v # after \<and> (\<forall>w \<in> set before. vd_asOf w \<le> vd_asOf v) \<and> (\<forall>w \<in> set after. vd_asOf w < vd_asOf v))"

lemma newest_snoc: "newest (vs @ [v]) = Some (newerVerdict (newest vs) v)"
  by (simp add: newest_def)

lemma newest_exact: "case newest vs of None \<Rightarrow> vs = [] | Some v \<Rightarrow> is_newest vs v"
proof (induction vs rule: rev_induct)
  case (snoc w vs)
  show ?case
  proof (cases "newest vs")
    case None
    with snoc have "vs = []" by simp
    moreover have "newest [w] = Some w" by (simp add: newest_def newerVerdict_def)
    moreover have "is_newest [w] w" unfolding is_newest_def by (intro exI [of _ "[]"]) simp
    ultimately show ?thesis by simp
  next
    case (Some h)
    with snoc obtain before after where vs: "vs = before @ h # after"
      and b: "\<forall>w \<in> set before. vd_asOf w \<le> vd_asOf h" and a: "\<forall>w \<in> set after. vd_asOf w < vd_asOf h"
      by (auto simp: is_newest_def)
    show ?thesis
    proof (cases "vd_asOf w \<ge> vd_asOf h")
      case True
      then have "\<forall>u \<in> set vs. vd_asOf u \<le> vd_asOf w" using a b vs by fastforce
      then have "is_newest (vs @ [w]) w" unfolding is_newest_def by - (rule exI [of _ vs], rule exI [of _ "[]"], simp)
      with True Some show ?thesis by (simp add: newest_snoc newerVerdict_def)
    next
      case False
      then have "is_newest (vs @ [w]) h"
        unfolding is_newest_def vs using a b by (intro exI [of _ before] exI [of _ "after @ [w]"]) auto
      with False Some show ?thesis by (simp add: newest_snoc newerVerdict_def)
    qed
  qed
qed (simp add: newest_def)

definition of_pair :: "string \<Rightarrow> string \<Rightarrow> evidence_layer \<Rightarrow> verdict_dto \<Rightarrow> bool" where
  "of_pair s t l v \<longleftrightarrow> vd_subjectId v = s \<and> vd_suiteId v = t \<and> vd_evidenceLayer v = l"

definition groups_ok :: "verdict_dto list \<Rightarrow> (string \<times> suite_slots) list \<Rightarrow> bool" where
  "groups_ok vs groups \<longleftrightarrow> distinct (map fst groups) \<and> set (map fst groups) = vd_subjectId ` set vs
     \<and> (\<forall>s. distinct (map fst (get_or [] groups s)) \<and> set (map fst (get_or [] groups s)) = vd_suiteId ` {v \<in> set vs. vd_subjectId v = s})
     \<and> (\<forall>s t l. get_or emptyLayerSlots (get_or [] groups s) t l = newest (filter (of_pair s t l) vs))"

lemma keys_set_map_set: "set (map fst (map_set k v m)) = insert k (set (map fst m))"
  by (auto simp: keys_map_set)

lemma put_verdict_ok:
  assumes "groups_ok vs groups"
  shows "groups_ok (vs @ [v]) (put_verdict groups v)"
proof -
  let ?s = "vd_subjectId v" and ?t = "vd_suiteId v" and ?l = "vd_evidenceLayer v"
  let ?suites = "get_or [] groups ?s"
  let ?slots = "get_or emptyLayerSlots ?suites ?t"
  let ?new = "?slots(?l := Some (newerVerdict (?slots ?l) v))"
  have put: "put_verdict groups v = map_set ?s (map_set ?t ?new ?suites) groups" by (simp add: put_verdict_def Let_def)
  have g: "distinct (map fst groups)" "set (map fst groups) = vd_subjectId ` set vs"
    "\<And>s. distinct (map fst (get_or [] groups s))"
    "\<And>s. set (map fst (get_or [] groups s)) = vd_suiteId ` {v \<in> set vs. vd_subjectId v = s}"
    "\<And>s t l. get_or emptyLayerSlots (get_or [] groups s) t l = newest (filter (of_pair s t l) vs)"
    using assms unfolding groups_ok_def by blast+
  show ?thesis
    unfolding groups_ok_def put
  proof (intro conjI allI)
    show "distinct (map fst (map_set ?s (map_set ?t ?new ?suites) groups))" by (rule distinct_map_set [OF g(1)])
    show "set (map fst (map_set ?s (map_set ?t ?new ?suites) groups)) = vd_subjectId ` set (vs @ [v])"
      unfolding keys_set_map_set g(2) by simp
    fix s
    show "distinct (map fst (get_or [] (map_set ?s (map_set ?t ?new ?suites) groups) s))"
      using g(3) distinct_map_set [OF g(3)] by simp
    show "set (map fst (get_or [] (map_set ?s (map_set ?t ?new ?suites) groups) s)) =
        vd_suiteId ` {w \<in> set (vs @ [v]). vd_subjectId w = s}"
      unfolding get_or_map_set if_distrib [of "\<lambda>m. set (map fst m)"] keys_set_map_set g(4) by auto
    fix t l
    show "get_or emptyLayerSlots (get_or [] (map_set ?s (map_set ?t ?new ?suites) groups) s) t l =
        newest (filter (of_pair s t l) (vs @ [v]))"
    proof (cases "of_pair s t l v")
      case True
      then have "s = ?s" "t = ?t" "l = ?l" by (simp_all add: of_pair_def)
      with True show ?thesis by (simp add: newest_snoc g(5))
    next
      case False
      then have "newest (filter (of_pair s t l) (vs @ [v])) = newest (filter (of_pair s t l) vs)" by simp
      with False show ?thesis by (auto simp: of_pair_def g(5))
    qed
  qed
qed

lemma all_groups_ok: "groups_ok vs (foldl put_verdict [] vs)"
proof (induction vs rule: rev_induct)
  case Nil
  then show ?case by (simp add: groups_ok_def newest_def emptyLayerSlots_def)
qed (simp add: put_verdict_ok)

lemma kinds_last: "get_or [] (subject_kinds subjects) s =
   (case List.find (\<lambda>j. sj_subjectId j = s) (rev subjects) of None \<Rightarrow> [] | Some j \<Rightarrow> sj_subjectKind j)"
  unfolding subject_kinds_def by (induction subjects rule: rev_induct) simp_all

section \<open>The rows of a subject\<close>

lemma subject_rows_simps:
  "map mr_subjectId (subject_rows loc kinds s suites) = replicate (length suites) s"
  "map mr_suiteId (subject_rows loc kinds s suites) = sortIds loc (map fst suites)"
  "map mr_showSubject (subject_rows loc kinds s suites) = map (\<lambda>i. i = 0) [0..<length suites]"
proof -
  have e: "map fst (enumerate 0 xs) = [0..<length xs]" "map snd (enumerate 0 xs) = xs" for xs :: "string list"
    by (simp_all add: enumerate_eq_zip)
  let ?ids = "sortIds loc (map fst suites)"
  have l: "length ?ids = length suites" by (simp add: sortIds_def)
  show "map mr_subjectId (subject_rows loc kinds s suites) = replicate (length suites) s"
    by (simp add: subject_rows_def l case_prod_beta map_replicate_const o_def)
  have "map mr_suiteId (subject_rows loc kinds s suites) = map snd (enumerate 0 ?ids)"
    by (simp add: subject_rows_def case_prod_beta o_def)
  then show "map mr_suiteId (subject_rows loc kinds s suites) = ?ids" by (simp only: e)
  have "map mr_showSubject (subject_rows loc kinds s suites) = map (\<lambda>i. i = 0) (map fst (enumerate 0 ?ids))"
    unfolding subject_rows_def map_map by (simp add: case_prod_beta o_def del: map_eq_conv)
  then show "map mr_showSubject (subject_rows loc kinds s suites) = map (\<lambda>i. i = 0) [0..<length suites]" unfolding e l .
qed

lemma subject_rows_of: "r \<in> set (subject_rows loc kinds s suites) \<Longrightarrow>
   mr_subjectId r = s \<and> mr_subjectKind r = get_or [] kinds s \<and> mr_suiteId r \<in> fst ` set suites
   \<and> mr_byLayer r = get_or emptyLayerSlots suites (mr_suiteId r)"
proof -
  assume "r \<in> set (subject_rows loc kinds s suites)"
  then obtain i t where "(i, t) \<in> set (enumerate 0 (sortIds loc (map fst suites)))"
    and r: "r = \<lparr>mr_subjectId = s, mr_subjectKind = get_or [] kinds s, mr_suiteId = t, mr_showSubject = (i = 0),
                 mr_byLayer = get_or emptyLayerSlots suites t\<rparr>"
    by (auto simp: subject_rows_def)
  then have "t \<in> set (map snd (enumerate 0 (sortIds loc (map fst suites))))"
    by (metis image_eqI image_set snd_conv)
  then have "t \<in> fst ` set suites" by (simp add: enumerate_eq_zip sortIds_def)
  with r show ?thesis by simp
qed

lemma concat_only: "distinct ks \<Longrightarrow> s \<in> set ks \<Longrightarrow> concat (map (\<lambda>u. if u = s then f u else []) ks) = f s"
proof (induction ks)
  case (Cons k ks)
  have "concat (map (\<lambda>u. if u = s then f u else []) ks) = []" if "s \<notin> set ks" using that by (induction ks) auto
  with Cons show ?case by auto
qed simp

lemma rows_of_subject:
  fixes R :: "string \<Rightarrow> matrix_row list"
  assumes "\<And>s r. r \<in> set (R s) \<Longrightarrow> mr_subjectId r = s" "distinct order" "s \<in> set order"
  shows "filter (\<lambda>r. mr_subjectId r = s) (concat (map R order)) = R s"
proof -
  have "filter (\<lambda>r. mr_subjectId r = s) (R u) = (if u = s then R u else [])" for u
    using assms(1) by (auto simp: filter_id_conv filter_empty_conv)
  then have "filter (\<lambda>r. mr_subjectId r = s) (concat (map R order)) = concat (map (\<lambda>u. if u = s then R u else []) order)"
    by (simp add: filter_concat o_def)
  with concat_only [OF assms(2,3)] show ?thesis by simp
qed

lemma first_shown: "0 < n \<Longrightarrow> map (\<lambda>i. i = 0) [0..<n] = True # replicate (n - 1) False"
proof (cases n)
  case (Suc m)
  have "[0..<Suc m] = 0 # map Suc [0..<m]" by (simp add: map_Suc_upt upt_conv_Cons del: upt_Suc)
  then show ?thesis by (simp add: Suc o_def map_replicate_const del: upt_Suc)
qed simp

text \<open>C37: for any collation of ids the matrix has the rows of one subject after those of another, subjects and the suites of
  a subject in order, one row for each pair of a subject and a suite that some verdict names, and shows the subject on the first of its
  rows only. Each layer of a row holds the newest of the verdicts for that pair and layer, the later one of equally new ones, and
  nothing when there is none; the kind is that of the last subject row with that id.\<close>

theorem matrix_rows_exact:
  assumes "comparator loc (\<lambda>_. True)"
  shows "let rows = buildMatrixRows loc verdicts subjects; group = (\<lambda>s. filter (\<lambda>r. mr_subjectId r = s) rows) in
    (\<exists>order. distinct order \<and> set order = vd_subjectId ` set verdicts \<and> sorted_wrt (\<lambda>a b. loc a b \<le> 0) order
       \<and> rows = concat (map group order))
    \<and> (\<forall>s \<in> vd_subjectId ` set verdicts. distinct (map mr_suiteId (group s))
       \<and> set (map mr_suiteId (group s)) = vd_suiteId ` {v \<in> set verdicts. vd_subjectId v = s}
       \<and> sorted_wrt (\<lambda>a b. loc a b \<le> 0) (map mr_suiteId (group s))
       \<and> map mr_showSubject (group s) = True # replicate (length (group s) - 1) False)
    \<and> (\<forall>r \<in> set rows.
       mr_subjectKind r = (case List.find (\<lambda>j. sj_subjectId j = mr_subjectId r) (rev subjects) of None \<Rightarrow> [] | Some j \<Rightarrow> sj_subjectKind j)
       \<and> (\<forall>l. let those = filter (of_pair (mr_subjectId r) (mr_suiteId r) l) verdicts
              in case mr_byLayer r l of None \<Rightarrow> those = [] | Some v \<Rightarrow> is_newest those v))"
proof -
  let ?groups = "foldl put_verdict [] verdicts"
  let ?order = "sortIds loc (map fst ?groups)"
  let ?suites = "\<lambda>s. get_or [] ?groups s"
  let ?R = "\<lambda>s. subject_rows loc (subject_kinds subjects) s (?suites s)"
  let ?rows = "buildMatrixRows loc verdicts subjects"
  let ?group = "\<lambda>s. filter (\<lambda>r. mr_subjectId r = s) ?rows"
  have g: "distinct (map fst ?groups)" "set (map fst ?groups) = vd_subjectId ` set verdicts"
    "\<And>s. distinct (map fst (?suites s))" "\<And>s. set (map fst (?suites s)) = vd_suiteId ` {v \<in> set verdicts. vd_subjectId v = s}"
    "\<And>s t l. get_or emptyLayerSlots (?suites s) t l = newest (filter (of_pair s t l) verdicts)"
    using all_groups_ok [of verdicts] unfolding groups_ok_def by blast+
  have sorted: "sorted_wrt (\<lambda>a b. loc a b \<le> 0) (sortIds loc xs)" for xs
    unfolding sortIds_def by (rule comparator.sorted_sort_by [OF assms]) (simp add: list_all_iff)
  have set_ids: "set (sortIds loc xs) = set xs" for xs by (simp add: sortIds_def)
  have dist_ids: "distinct (sortIds loc xs) = distinct xs" for xs using distinct_sort_by [of id loc xs] by (simp add: sortIds_def)
  have rows: "?rows = concat (map ?R ?order)" by (simp add: buildMatrixRows_def Let_def)
  have d: "distinct ?order" "set ?order = vd_subjectId ` set verdicts" using g(1,2) by (simp_all only: dist_ids set_ids)
  have grp: "?group s = ?R s" if "s \<in> vd_subjectId ` set verdicts" for s
    unfolding rows using that d(2) by (intro rows_of_subject [OF _ d(1)]) (auto dest: subject_rows_of)
  have "?rows = concat (map ?group ?order)"
    by (subst rows, rule arg_cong [where f = concat], rule map_cong [OF refl]) (use grp d(2) in simp)
  then have A: "\<exists>order. distinct order \<and> set order = vd_subjectId ` set verdicts \<and> sorted_wrt (\<lambda>a b. loc a b \<le> 0) order
       \<and> ?rows = concat (map ?group order)"
    using d sorted by blast
  have B: "distinct (map mr_suiteId (?group s)) \<and> set (map mr_suiteId (?group s)) = vd_suiteId ` {v \<in> set verdicts. vd_subjectId v = s}
       \<and> sorted_wrt (\<lambda>a b. loc a b \<le> 0) (map mr_suiteId (?group s))
       \<and> map mr_showSubject (?group s) = True # replicate (length (?group s) - 1) False"
    if s: "s \<in> vd_subjectId ` set verdicts" for s
  proof -
    have "set (map fst (?suites s)) \<noteq> {}" using s unfolding g(4) by auto
    then have ne: "0 < length (?suites s)" by auto
    have "length (?R s) = length (?suites s)" by (simp add: subject_rows_def sortIds_def)
    then show ?thesis
      unfolding grp [OF s] subject_rows_simps set_ids dist_ids g(4) using g(3) sorted first_shown [OF ne] by simp
  qed
  have C: "mr_subjectKind r = (case List.find (\<lambda>j. sj_subjectId j = mr_subjectId r) (rev subjects) of None \<Rightarrow> [] | Some j \<Rightarrow> sj_subjectKind j)
       \<and> (\<forall>l. let those = filter (of_pair (mr_subjectId r) (mr_suiteId r) l) verdicts
              in case mr_byLayer r l of None \<Rightarrow> those = [] | Some v \<Rightarrow> is_newest those v)"
    if r: "r \<in> set ?rows" for r
  proof -
    from r obtain s where "r \<in> set (?R s)" unfolding rows by auto
    from subject_rows_of [OF this] have "mr_subjectKind r = get_or [] (subject_kinds subjects) (mr_subjectId r)"
      "mr_byLayer r = get_or emptyLayerSlots (?suites (mr_subjectId r)) (mr_suiteId r)" by simp_all
    then show ?thesis using newest_exact by (simp add: kinds_last g(5) Let_def)
  qed
  from A B C show ?thesis unfolding Let_def by blast
qed

definition length_order :: "string \<Rightarrow> string \<Rightarrow> int" where
  "length_order a b = int (length a) - int (length b)"

lemma length_order_comparator: "comparator length_order (\<lambda>_. True)"
  by unfold_locales (auto simp: length_order_def)

definition sample_verdict :: "string \<Rightarrow> string \<Rightarrow> compat_verdict \<Rightarrow> rat \<Rightarrow> verdict_dto" where
  "sample_verdict s t w n = verdict_dto.make ''k'' s LiveRoute t ''1'' ''d'' ''1'' w n [] None [] [] []"

definition sample_verdicts :: "verdict_dto list" where
  "sample_verdicts = [sample_verdict ''bb'' ''t'' VERIFIED 5, sample_verdict ''a'' ''u'' PROBED 1, sample_verdict ''bb'' ''t'' BLOCKED 5]"

theorem matrix_rows_exact_witness:
  "map (\<lambda>r. (mr_subjectId r, mr_suiteId r)) (buildMatrixRows length_order sample_verdicts []) = [(''a'', ''u''), (''bb'', ''t'')]
   \<and> mr_byLayer (buildMatrixRows length_order sample_verdicts [] ! 1) LiveRoute = Some (sample_verdict ''bb'' ''t'' BLOCKED 5)
   \<and> is_newest (filter (of_pair ''bb'' ''t'' LiveRoute) sample_verdicts) (sample_verdict ''bb'' ''t'' BLOCKED 5)"
proof -
  let ?rows = "buildMatrixRows length_order sample_verdicts []"
  have rows: "map (\<lambda>r. (mr_subjectId r, mr_suiteId r)) ?rows = [(''a'', ''u''), (''bb'', ''t'')]"
    and slot: "mr_byLayer (?rows ! 1) LiveRoute = Some (sample_verdict ''bb'' ''t'' BLOCKED 5)"
    and second: "mr_subjectId (?rows ! 1) = ''bb''" "mr_suiteId (?rows ! 1) = ''t''" "length ?rows = 2"
    by (simp_all add: buildMatrixRows_def sample_verdicts_def sample_verdict_def verdict_dto.make_def put_verdict_def get_or_def
        sortIds_def length_order_def subject_rows_def subject_kinds_def newerVerdict_def emptyLayerSlots_def Let_def)
  have each: "\<forall>r \<in> set ?rows. \<forall>l.
      case mr_byLayer r l of None \<Rightarrow> filter (of_pair (mr_subjectId r) (mr_suiteId r) l) sample_verdicts = []
      | Some v \<Rightarrow> is_newest (filter (of_pair (mr_subjectId r) (mr_suiteId r) l) sample_verdicts) v"
    using matrix_rows_exact [OF length_order_comparator, of sample_verdicts "[]"] unfolding Let_def by blast
  have "?rows ! 1 \<in> set ?rows" using second(3) by (intro nth_mem) simp
  from each [rule_format, OF this, of LiveRoute] slot second rows show ?thesis by simp
qed

section \<open>What the filters show\<close>

definition shows_verdict :: "verdict_filters \<Rightarrow> verdict_dto \<Rightarrow> bool" where
  "shows_verdict f v \<longleftrightarrow> (vf_layer f \<noteq> None \<longrightarrow> vf_layer f = Some (vd_evidenceLayer v))
     \<and> (vf_verdict f \<noteq> None \<longrightarrow> vf_verdict f = Some (vd_verdict v)) \<and> (vf_suiteId f \<noteq> [] \<longrightarrow> vd_suiteId v = vf_suiteId f)
     \<and> sublist (to_lower (trim (vf_subjectQuery f))) (to_lower (vd_subjectId v))"

lemma filter_exact: "filterVerdicts vs f = filter (shows_verdict f) vs"
  unfolding filterVerdicts_def verdictPredicates_def shows_verdict_def Let_def
  by (intro filter_cong refl) (auto simp: str_includes_iff split: option.split)

lemma unfiltered_shows_all: "filterVerdicts vs UNFILTERED_VERDICT_FILTERS = vs"
  by (simp add: filter_exact shows_verdict_def UNFILTERED_VERDICT_FILTERS_def to_lower_def)

text \<open>What the listener is asked for covers what is shown, as long as the suite has no blanks around it.\<close>

definition asked_for :: "verdict_query \<Rightarrow> verdict_dto \<Rightarrow> bool" where
  "asked_for q v \<longleftrightarrow> pred_option (\<lambda>l. vd_evidenceLayer v = l) (vq_layer q) \<and> pred_option (\<lambda>w. vd_verdict v = w) (vq_verdict q)
     \<and> pred_option (\<lambda>s. vd_subjectId v = s) (vq_subjectId q) \<and> pred_option (\<lambda>s. vd_suiteId v = s) (vq_suiteId q)"

lemma asked_covers_shown:
  "trim (vf_suiteId f) = vf_suiteId f \<Longrightarrow> shows_verdict f v \<Longrightarrow> asked_for (verdictQueryFromFilters f) v"
  by (auto simp: asked_for_def shows_verdict_def verdictQueryFromFilters_def Let_def split: option.splits)

text \<open>A suite id with blanks around it is offered trimmed, and choosing it shows nothing.\<close>

lemma padded_suite_vanishes:
  "suiteIdsFromVerdicts loc [sample_verdict ''a'' '' t'' VERIFIED 1] = [''t'']
   \<and> filterVerdicts [sample_verdict ''a'' '' t'' VERIFIED 1] (UNFILTERED_VERDICT_FILTERS\<lparr>vf_suiteId := ''t''\<rparr>) = []"
proof -
  have "trim '' t'' = ''t''" by code_simp
  then show ?thesis
    by (simp add: suiteIdsFromVerdicts_def sample_verdict_def verdict_dto.make_def sortIds_def js_set_add_def filter_exact
        shows_verdict_def UNFILTERED_VERDICT_FILTERS_def)
qed

section \<open>What the catalog offers\<close>

lemma suiteKey_inj: "suiteKey l s = suiteKey l' s' \<Longrightarrow> l = l' \<and> s = s'"
  by (cases l; cases l') (simp_all add: suiteKey_def)

lemma read_suite_key: "readSuite row = Some s \<Longrightarrow>
   cs_key s = suiteKey (cs_evidenceLayer s) (cs_suiteId s) \<and> cs_evidenceLayer s \<in> set PRODUCT_EVIDENCE_LAYERS
   \<and> cs_suiteId s \<noteq> [] \<and> trim (cs_suiteId s) = cs_suiteId s"
  by (auto simp: readSuite_def Let_def find_Some_iff split: if_splits option.splits json.splits)

lemma suites_kept:
  "distinct (map fst (foldl add_suite [] rows)) \<and> (\<forall>(k, s) \<in> set (foldl add_suite [] rows). k = cs_key s)
   \<and> map_of (foldl add_suite [] rows) = (\<lambda>k. List.find (\<lambda>s. cs_key s = k) (List.map_filter readSuite rows))"
proof (induction rows rule: rev_induct)
  case Nil
  then show ?case by (simp add: map_filter_def fun_eq_iff)
next
  case (snoc row rows)
  have app: "List.find P (xs @ [y]) = (case List.find P xs of Some x \<Rightarrow> Some x | None \<Rightarrow> if P y then Some y else None)" for P :: "catalog_suite \<Rightarrow> bool" and xs y
    by (induction xs) auto
  show ?case
  proof (cases "readSuite row")
    case None
    with snoc show ?thesis by (simp add: add_suite_def map_filter_def)
  next
    case (Some s)
    let ?m = "foldl add_suite [] rows"
    have f: "List.map_filter readSuite (rows @ [row]) = List.map_filter readSuite rows @ [s]" using Some by (simp add: map_filter_def)
    show ?thesis
    proof (cases "cs_key s \<in> fst ` set ?m")
      case True
      then have "map_of ?m (cs_key s) \<noteq> None" by (simp add: map_of_eq_None_iff)
      then have "List.find (\<lambda>t. cs_key t = cs_key s) (List.map_filter readSuite rows) \<noteq> None" using snoc by simp
      then have "(\<lambda>k. List.find (\<lambda>t. cs_key t = k) (List.map_filter readSuite rows @ [s])) =
          (\<lambda>k. List.find (\<lambda>t. cs_key t = k) (List.map_filter readSuite rows))"
        by (auto simp: app fun_eq_iff split: option.split)
      moreover have "foldl add_suite [] (rows @ [row]) = ?m" using True Some by (simp add: add_suite_def)
      ultimately show ?thesis unfolding f using snoc by simp
    next
      case False
      then have n: "map_of ?m (cs_key s) = None" by (simp add: map_of_eq_None_iff)
      have e: "foldl add_suite [] (rows @ [row]) = map_set (cs_key s) s ?m" using False Some by (simp add: add_suite_def)
      have m: "set (map_set k v m) \<subseteq> insert (k, v) (set m)" for k v and m :: "(string \<times> catalog_suite) list"
        by (induction k v m rule: map_set.induct) auto
      have "\<forall>(k, t) \<in> set (map_set (cs_key s) s ?m). k = cs_key t" using m [of "cs_key s" s ?m] snoc by blast
      moreover have "map_of (map_set (cs_key s) s ?m) = (\<lambda>k. List.find (\<lambda>t. cs_key t = k) (List.map_filter readSuite rows @ [s]))"
        using n snoc by (auto simp: app fun_eq_iff split: option.split)
      ultimately show ?thesis unfolding e f using snoc distinct_map_set [of ?m "cs_key s" s] by blast
    qed
  qed
qed

text \<open>The catalog offers each suite of each layer once, as the first row that names it has it, and nothing else.\<close>

theorem catalog_exact:
  assumes "readLabCatalog loc payload = Some suites" "prop_of payload ''scenarios'' = Some (JArr rows)"
  shows "distinct (map (\<lambda>s. (cs_evidenceLayer s, cs_suiteId s)) suites)
    \<and> set suites = {s. List.find (\<lambda>t. cs_key t = cs_key s) (List.map_filter readSuite rows) = Some s}
    \<and> cs_key ` set suites = cs_key ` set (List.map_filter readSuite rows)"
proof -
  let ?m = "foldl add_suite [] rows"
  have s: "suites = sort_by (\<lambda>a b. loc (cs_key a) (cs_key b)) (map snd ?m)"
    using assms by (simp add: readLabCatalog_def split: if_splits)
  have k: "distinct (map fst ?m)" "\<And>k s. (k, s) \<in> set ?m \<Longrightarrow> k = cs_key s"
    "map_of ?m = (\<lambda>k. List.find (\<lambda>s. cs_key s = k) (List.map_filter readSuite rows))"
    using suites_kept [of rows] by auto
  have keys: "map cs_key (map snd ?m) = map fst ?m" using k(2) by (auto simp: map_eq_conv)
  have "t \<in> set (map snd ?m) \<longleftrightarrow> map_of ?m (cs_key t) = Some t" for t
    using k(1,2) by (force simp: map_of_eq_Some_iff)
  then have set: "set suites = {s. List.find (\<lambda>t. cs_key t = cs_key s) (List.map_filter readSuite rows) = Some s}"
    unfolding s set_sort_by k(3) by blast
  have "distinct (map cs_key suites)" unfolding s distinct_sort_by keys by (rule k(1))
  moreover have "\<forall>t \<in> set suites. cs_key t = suiteKey (cs_evidenceLayer t) (cs_suiteId t)"
    unfolding set using read_suite_key by (fastforce simp: find_Some_iff map_filter_def dest: nth_mem)
  then have "map cs_key suites = map (\<lambda>(l, t). suiteKey l t) (map (\<lambda>t. (cs_evidenceLayer t, cs_suiteId t)) suites)" by simp
  ultimately have "distinct (map (\<lambda>t. (cs_evidenceLayer t, cs_suiteId t)) suites)" by (metis distinct_map)
  moreover have "cs_key ` set suites = cs_key ` set (List.map_filter readSuite rows)"
  proof
    show "cs_key ` set suites \<subseteq> cs_key ` set (List.map_filter readSuite rows)"
      unfolding set by (fastforce simp: find_Some_iff dest: nth_mem)
    show "cs_key ` set (List.map_filter readSuite rows) \<subseteq> cs_key ` set suites"
    proof
      fix key assume "key \<in> cs_key ` set (List.map_filter readSuite rows)"
      then have "List.find (\<lambda>t. cs_key t = key) (List.map_filter readSuite rows) \<noteq> None" by (auto simp: find_None_iff)
      then obtain t where "List.find (\<lambda>t. cs_key t = key) (List.map_filter readSuite rows) = Some t" by blast
      moreover from this have "cs_key t = key" by (simp add: find_Some_iff) blast
      ultimately show "key \<in> cs_key ` set suites" unfolding set by blast
    qed
  qed
  ultimately show ?thesis using set by blast
qed

end
