(* ===== verification/Lab_Client.thy ===== *)
theory Lab_Client
  imports Lab_Pages Lab_Matrix Account_Login
begin

text \<open>
  The read client of the Lab, \<^verbatim>\<open>lab/lab-client.ts\<close>: the addresses it reads, the pool of lanes that loads the events a verdict refers
  to, and what one read of the page or of a verdict gives from the answers. The lanes are a step relation: each step is what
  happens between two awaits of one lane, so every order in which answers can arrive is a path.
\<close>

section \<open>Addresses\<close>

record lab_query =
  lq_filters :: "(string \<times> string option) list"
  lq_cursor :: "string option"

record lab_read =
  lr_route :: string
  lr_query :: "lab_query option"

definition EVENT_FETCH_WIDTH :: nat where
  "EVENT_FETCH_WIDTH = 6"

definition EVENT_REFERENCE_LIMIT :: nat where
  "EVENT_REFERENCE_LIMIT = 200"

definition byId :: "string \<Rightarrow> string \<Rightarrow> lab_read" where
  "byId routeBase ident = \<lparr>lr_route = routeBase @ encodeURIComponent ident, lr_query = None\<rparr>"

definition withQuery :: "string \<Rightarrow> (string \<times> string option) list \<Rightarrow> string option \<Rightarrow> lab_read" where
  "withQuery route filters cursor = \<lparr>lr_route = route, lr_query = Some \<lparr>lq_filters = filters, lq_cursor = cursor\<rparr>\<rparr>"

text \<open>A filter that is absent or empty is not sent.\<close>

definition query_pairs :: "lab_query \<Rightarrow> (string \<times> string) list" where
  "query_pairs q =
     (''limit'', show_nat LAB_PAGE_SIZE)
     # List.map_filter (\<lambda>(k, v). case v of Some s \<Rightarrow> if s = [] then None else Some (k, s) | None \<Rightarrow> None) (lq_filters q)
     @ (case lq_cursor q of Some c \<Rightarrow> if c = [] then [] else [(''cursor'', c)] | None \<Rightarrow> [])"

definition query_text :: "(string \<times> string) list \<Rightarrow> string" where
  "query_text pairs = join_with ''&'' (map (\<lambda>(k, v). params_text k v) pairs)"

definition readUrl :: "lab_read \<Rightarrow> string" where
  "readUrl r = (case lr_query r of None \<Rightarrow> lr_route r | Some q \<Rightarrow> lr_route r @ ''?'' @ query_text (query_pairs q))"

definition verdictsPage :: "verdict_query \<Rightarrow> string option \<Rightarrow> lab_read" where
  "verdictsPage filters cursor = withQuery ''/api/lab/verdicts''
     [(''layer'', map_option layer_name (vq_layer filters)), (''verdict'', map_option verdict_name (vq_verdict filters)),
      (''subjectId'', vq_subjectId filters), (''suiteId'', vq_suiteId filters)] cursor"

definition subjectsPage :: "string option \<Rightarrow> lab_read" where
  "subjectsPage cursor = withQuery ''/api/lab/subjects'' [] cursor"

definition observationsPage :: "string \<Rightarrow> string option \<Rightarrow> string option \<Rightarrow> string option \<Rightarrow> lab_read" where
  "observationsPage subjectId layer suiteId cursor = withQuery ''/api/lab/observations''
     [(''subjectId'', Some subjectId), (''layer'', layer), (''suiteId'', suiteId)] cursor"

definition subjectDetail :: "string \<Rightarrow> lab_read" where
  "subjectDetail subjectId = byId ''/api/lab/subjects/'' subjectId"

definition eventDetail :: "string \<Rightarrow> lab_read" where
  "eventDetail eventId = byId ''/api/lab/events/'' eventId"

definition productionSignals :: "string \<Rightarrow> lab_read" where
  "productionSignals subjectId = withQuery ''/api/lab/production-signals'' [(''subjectId'', Some subjectId)] None"

section \<open>The lanes that load events\<close>

datatype lane = Loading nat | LaneDone | LaneThrew

record 'e event_pool =
  ep_next :: nat
  ep_lanes :: "lane list"
  ep_settled :: "'e list"
  ep_aborted :: bool

text \<open>The head of the loop of a lane: it ends, stops because the read was aborted, or takes the next reference.\<close>

definition lane_continues :: "nat \<Rightarrow> nat \<Rightarrow> 'e event_pool \<Rightarrow> 'e event_pool" where
  "lane_continues n i s =
     (if ep_next s < n
      then if ep_aborted s then s\<lparr>ep_lanes := (ep_lanes s)[i := LaneThrew]\<rparr>
           else s\<lparr>ep_lanes := (ep_lanes s)[i := Loading (ep_next s)], ep_next := Suc (ep_next s)\<rparr>
      else s\<lparr>ep_lanes := (ep_lanes s)[i := LaneDone]\<rparr>)"

fun start_lanes :: "nat \<Rightarrow> nat list \<Rightarrow> 'e event_pool \<Rightarrow> 'e event_pool" where
  "start_lanes n [] s = s"
| "start_lanes n (i # is) s = start_lanes n is (lane_continues n i s)"

definition pool_starts :: "nat \<Rightarrow> bool \<Rightarrow> 'e event_pool" where
  "pool_starts n aborted =
     (let width = min EVENT_FETCH_WIDTH n
      in start_lanes n [0..<width]
           \<lparr>ep_next = 0, ep_lanes = replicate width LaneDone, ep_settled = [], ep_aborted = aborted\<rparr>)"

definition event_arrives :: "nat \<Rightarrow> nat \<Rightarrow> 'e \<Rightarrow> 'e event_pool \<Rightarrow> 'e event_pool" where
  "event_arrives n i e s = lane_continues n i (s\<lparr>ep_settled := ep_settled s @ [e]\<rparr>)"

definition event_fails :: "nat \<Rightarrow> nat \<Rightarrow> 'e event_pool \<Rightarrow> 'e event_pool" where
  "event_fails n i s =
     (if ep_aborted s then s\<lparr>ep_lanes := (ep_lanes s)[i := LaneThrew]\<rparr> else lane_continues n i s)"

text \<open>The answer to a reference is an event or a failure; a read that was aborted may fail in any case.\<close>

inductive lanes_step :: "nat \<Rightarrow> (nat \<Rightarrow> 'e option) \<Rightarrow> 'e event_pool \<Rightarrow> 'e event_pool \<Rightarrow> bool" for n answer where
  arrives: "\<lbrakk>i < length (ep_lanes s); ep_lanes s ! i = Loading k; answer k = Some e\<rbrakk>
    \<Longrightarrow> lanes_step n answer s (event_arrives n i e s)"
| fails: "\<lbrakk>i < length (ep_lanes s); ep_lanes s ! i = Loading k; answer k = None \<or> ep_aborted s\<rbrakk>
    \<Longrightarrow> lanes_step n answer s (event_fails n i s)"
| aborts: "lanes_step n answer s (s\<lparr>ep_aborted := True\<rparr>)"

definition pool_init :: "nat \<Rightarrow> 'e event_pool \<Rightarrow> bool" where
  "pool_init n s \<longleftrightarrow> (\<exists>aborted. s = pool_starts n aborted)"

text \<open>\<^verbatim>\<open>Promise.all\<close> over the lanes: it rejects once a lane threw, and resolves when all have returned.\<close>

definition pool_result :: "'e event_pool \<Rightarrow> (unit, 'e list) result option" where
  "pool_result s =
     (if LaneThrew \<in> set (ep_lanes s) then Some (Inl ())
      else if list_all (\<lambda>l. l = LaneDone) (ep_lanes s) then Some (Inr (ep_settled s))
      else None)"

section \<open>The lanes keep their books\<close>

fun loading_of :: "lane list \<Rightarrow> nat list" where
  "loading_of [] = []"
| "loading_of (Loading k # ls) = k # loading_of ls"
| "loading_of (_ # ls) = loading_of ls"

lemma loading_append [simp]: "loading_of (ls @ ms) = loading_of ls @ loading_of ms"
  by (induction ls rule: loading_of.induct) simp_all

lemma length_loading: "length (loading_of ls) \<le> length ls"
  by (induction ls rule: loading_of.induct) simp_all

lemma loading_split:
  assumes "i < length ls"
  obtains A B where "\<And>l. loading_of (ls[i := l]) = A @ loading_of [l] @ B" "loading_of ls = A @ loading_of [ls ! i] @ B"
proof -
  have u: "loading_of (ls[i := l]) = loading_of (take i ls) @ loading_of [l] @ loading_of (drop (Suc i) ls)" for l
    using assms by (simp add: upd_conv_take_nth_drop) (metis append_Cons append_Nil loading_append)
  from u [of "ls ! i"] have "loading_of ls = loading_of (take i ls) @ loading_of [ls ! i] @ loading_of (drop (Suc i) ls)" by simp
  with u that show ?thesis by blast
qed

lemma loading_none: "\<forall>k. Loading k \<notin> set ls \<Longrightarrow> loading_of ls = []"
  by (induction ls rule: loading_of.induct) auto

lemma in_loading: "k \<in> set (loading_of ls) \<longleftrightarrow> Loading k \<in> set ls"
  by (induction ls rule: loading_of.induct) auto

text \<open>\<open>order\<close> lists the references whose event has arrived, in the order they did; \<open>busy\<close> those whose answer is out.\<close>

definition books :: "nat \<Rightarrow> (nat \<Rightarrow> 'e option) \<Rightarrow> 'e event_pool \<Rightarrow> nat list \<Rightarrow> nat list \<Rightarrow> bool" where
  "books n answer s busy order \<longleftrightarrow> length (ep_lanes s) = min EVENT_FETCH_WIDTH n \<and> ep_next s \<le> n
     \<and> distinct (busy @ order) \<and> set (busy @ order) \<subseteq> {..<ep_next s}
     \<and> ep_settled s = map (\<lambda>k. the (answer k)) order \<and> (\<forall>k \<in> set order. answer k \<noteq> None)
     \<and> (LaneThrew \<notin> set (ep_lanes s) \<longrightarrow> (\<forall>k < ep_next s. k \<in> set busy \<or> k \<in> set order \<or> answer k = None))
     \<and> (LaneDone \<in> set (ep_lanes s) \<longrightarrow> ep_next s = n)"

definition lanes_ok :: "nat \<Rightarrow> (nat \<Rightarrow> 'e option) \<Rightarrow> 'e event_pool \<Rightarrow> bool" where
  "lanes_ok n answer s \<longleftrightarrow> (\<exists>order. books n answer s (loading_of (ep_lanes s)) order)"

lemma lane_kept: "i < length ls \<Longrightarrow> ls ! i = Loading k \<Longrightarrow> x \<in> set ls \<Longrightarrow> x \<noteq> Loading k \<Longrightarrow> x \<in> set (ls[i := l])"
  by (metis in_set_conv_nth length_list_update nth_list_update_neq)

lemma lane_new: "x \<in> set (ls[i := l]) \<Longrightarrow> x = l \<or> x \<in> set ls"
  using set_update_subset_insert [of ls i l] by blast

lemma throws_ok:
  assumes b: "books n answer s (A @ B) order" and i: "i < length (ep_lanes s)"
    and u: "\<And>l. loading_of ((ep_lanes s)[i := l]) = A @ loading_of [l] @ B"
  shows "lanes_ok n answer (s\<lparr>ep_lanes := (ep_lanes s)[i := LaneThrew]\<rparr>)"
proof -
  have t: "LaneThrew \<in> set ((ep_lanes s)[i := LaneThrew])" using i by (rule set_update_memI)
  have d: "LaneDone \<in> set ((ep_lanes s)[i := LaneThrew]) \<Longrightarrow> LaneDone \<in> set (ep_lanes s)" by (auto dest: lane_new)
  show ?thesis
    unfolding lanes_ok_def using b t d u by (intro exI [of _ order]) (auto simp: books_def)
qed

lemma continues_ok:
  assumes b: "books n answer s (A @ B) order" and i: "i < length (ep_lanes s)" "ep_lanes s ! i = Loading k"
    and u: "\<And>l. loading_of ((ep_lanes s)[i := l]) = A @ loading_of [l] @ B"
  shows "lanes_ok n answer (lane_continues n i s)"
proof -
  have threw: "LaneThrew \<notin> set ((ep_lanes s)[i := l]) \<Longrightarrow> LaneThrew \<notin> set (ep_lanes s)" for l
    using lane_kept [OF i] by blast
  consider "\<not> ep_next s < n" | "ep_next s < n" "ep_aborted s" | "ep_next s < n" "\<not> ep_aborted s" by blast
  then show ?thesis
  proof cases
    case 1
    then have n: "ep_next s = n" using b by (simp add: books_def)
    from 1 have c: "lane_continues n i s = s\<lparr>ep_lanes := (ep_lanes s)[i := LaneDone]\<rparr>" by (simp add: lane_continues_def)
    show ?thesis unfolding c lanes_ok_def using b n threw u by (intro exI [of _ order]) (auto simp: books_def)
  next
    case 2
    then show ?thesis using throws_ok [OF b i(1) u] by (simp add: lane_continues_def)
  next
    case 3
    then have c: "lane_continues n i s = s\<lparr>ep_lanes := (ep_lanes s)[i := Loading (ep_next s)], ep_next := Suc (ep_next s)\<rparr>"
      by (simp add: lane_continues_def)
    have "ep_next s \<noteq> n" using 3 by simp
    then have d: "LaneDone \<notin> set ((ep_lanes s)[i := Loading (ep_next s)])" using b by (auto simp: books_def dest: lane_new)
    have f: "ep_next s \<notin> set (A @ B @ order)" using b by (auto simp: books_def)
    show ?thesis
      unfolding c lanes_ok_def using b 3 d f threw [of "Loading (ep_next s)"] u
      by (intro exI [of _ order]) (auto simp: books_def less_Suc_eq)
  qed
qed

lemma arrives_ok:
  assumes "lanes_ok n answer s" and i: "i < length (ep_lanes s)" "ep_lanes s ! i = Loading k" and e: "answer k = Some e"
  shows "lanes_ok n answer (event_arrives n i e s)"
proof -
  from assms(1) obtain order where b: "books n answer s (loading_of (ep_lanes s)) order" unfolding lanes_ok_def by blast
  obtain A B where u: "\<And>l. loading_of ((ep_lanes s)[i := l]) = A @ loading_of [l] @ B" and l: "loading_of (ep_lanes s) = A @ k # B"
    using loading_split [OF i(1)] i(2) by (metis append_Cons append_Nil loading_of.simps(1,2))
  have "books n answer (s\<lparr>ep_settled := ep_settled s @ [e]\<rparr>) (A @ B) (order @ [k])"
    using b e unfolding l books_def by auto
  from continues_ok [OF this] i u show ?thesis by (simp add: event_arrives_def)
qed

lemma fails_ok:
  assumes "lanes_ok n answer s" and i: "i < length (ep_lanes s)" "ep_lanes s ! i = Loading k" and e: "answer k = None \<or> ep_aborted s"
  shows "lanes_ok n answer (event_fails n i s)"
proof -
  from assms(1) obtain order where b: "books n answer s (loading_of (ep_lanes s)) order" unfolding lanes_ok_def by blast
  obtain A B where u: "\<And>l. loading_of ((ep_lanes s)[i := l]) = A @ loading_of [l] @ B" and l: "loading_of (ep_lanes s) = A @ k # B"
    using loading_split [OF i(1)] i(2) by (metis append_Cons append_Nil loading_of.simps(1,2))
  show ?thesis
  proof (cases "ep_aborted s")
    case True
    have t: "LaneThrew \<in> set ((ep_lanes s)[i := LaneThrew])" using i(1) by (rule set_update_memI)
    have d: "LaneDone \<in> set ((ep_lanes s)[i := LaneThrew]) \<Longrightarrow> LaneDone \<in> set (ep_lanes s)" by (auto dest: lane_new)
    have "books n answer (s\<lparr>ep_lanes := (ep_lanes s)[i := LaneThrew]\<rparr>) (A @ B) order"
      using b t d unfolding l books_def by auto
    then show ?thesis using True u unfolding lanes_ok_def by (intro exI [of _ order]) (simp add: event_fails_def)
  next
    case False
    with e have "answer k = None" by blast
    then have "books n answer s (A @ B) order" using b unfolding l books_def by auto
    from continues_ok [OF this i u] False show ?thesis by (simp add: event_fails_def)
  qed
qed

lemma pool_starts_eq:
  "pool_starts n aborted =
     (if aborted then \<lparr>ep_next = 0, ep_lanes = replicate (min 6 n) LaneThrew, ep_settled = [], ep_aborted = True\<rparr>
      else \<lparr>ep_next = min 6 n, ep_lanes = map Loading [0..<min 6 n], ep_settled = [], ep_aborted = False\<rparr>)"
proof -
  have "n = 0 \<or> n = 1 \<or> n = 2 \<or> n = 3 \<or> n = 4 \<or> n = 5 \<or> 6 \<le> n" by arith
  then show ?thesis
    by (elim disjE; cases aborted) (simp_all add: pool_starts_def EVENT_FETCH_WIDTH_def lane_continues_def eval_nat_numeral upt_rec)
qed

lemma loading_map [simp]: "loading_of (map Loading ks) = ks"
  by (induction ks) simp_all

lemma loading_replicate [simp]: "loading_of (replicate m LaneThrew) = []"
  by (induction m) simp_all

lemma starts_ok: "lanes_ok n answer (pool_starts n aborted)"
  unfolding lanes_ok_def
  by (rule exI [of _ "[]"]) (auto simp: pool_starts_eq books_def EVENT_FETCH_WIDTH_def)

interpretation events: machine "pool_init n" "lanes_step n answer" "lanes_ok n answer" for n answer
proof
  show "pool_init n s \<Longrightarrow> lanes_ok n answer s" for s using starts_ok by (auto simp: pool_init_def)
  fix s t
  assume ok: "lanes_ok n answer s" and step: "lanes_step n answer s t"
  from step show "lanes_ok n answer t"
  proof cases
    case (arrives i k e)
    then show ?thesis using arrives_ok [OF ok] by simp
  next
    case (fails i k)
    then show ?thesis using fails_ok [OF ok fails(2-4)] by simp
  next
    case aborts
    then show ?thesis using ok by (simp add: lanes_ok_def books_def)
  qed
qed

text \<open>What is still to be asked, and what is out.\<close>

definition pool_rank :: "nat \<Rightarrow> 'e event_pool \<Rightarrow> nat" where
  "pool_rank n s = (n - ep_next s) + length (loading_of (ep_lanes s))"

lemma rank_settles:
  assumes "i < length (ep_lanes s)" "ep_lanes s ! i = Loading k"
  shows "pool_rank n (lane_continues n i s) < pool_rank n s"
    and "pool_rank n (s\<lparr>ep_lanes := (ep_lanes s)[i := LaneThrew]\<rparr>) < pool_rank n s"
proof -
  obtain A B where u: "\<And>l. loading_of ((ep_lanes s)[i := l]) = A @ loading_of [l] @ B" and l: "loading_of (ep_lanes s) = A @ k # B"
    using loading_split [OF assms(1)] assms(2) by (metis append_Cons append_Nil loading_of.simps(1,2))
  show "pool_rank n (lane_continues n i s) < pool_rank n s"
    and "pool_rank n (s\<lparr>ep_lanes := (ep_lanes s)[i := LaneThrew]\<rparr>) < pool_rank n s"
    by (auto simp: pool_rank_def lane_continues_def u l)
qed

lemma rank_answers:
  assumes "i < length (ep_lanes s)" "ep_lanes s ! i = Loading k"
  shows "pool_rank n (event_arrives n i e s) < pool_rank n s" "pool_rank n (event_fails n i s) < pool_rank n s"
proof -
  have "pool_rank n (event_arrives n i e s) < pool_rank n (s\<lparr>ep_settled := ep_settled s @ [e]\<rparr>)"
    unfolding event_arrives_def by (rule rank_settles) (use assms in simp_all)
  then show "pool_rank n (event_arrives n i e s) < pool_rank n s" by (simp add: pool_rank_def)
  show "pool_rank n (event_fails n i s) < pool_rank n s" using rank_settles [OF assms] by (simp add: event_fails_def)
qed

text \<open>C36: in every order of answers at most six loads are out and no reference is loaded twice; as long as there is no result some
  load is out, and each answer brings the pool closer to one. When it resolves, the events are those of all the references that could be loaded,
  each once, even though any of the loads may have failed.\<close>

theorem event_pool_complete:
  assumes "reach (pool_init n) (lanes_step n answer) s"
  shows "length (loading_of (ep_lanes s)) \<le> 6 \<and> distinct (loading_of (ep_lanes s))
    \<and> (\<forall>k \<in> set (loading_of (ep_lanes s)). k < ep_next s \<and> ep_next s \<le> n)
    \<and> (case pool_result s of
         None \<Rightarrow> \<exists>i k. i < length (ep_lanes s) \<and> ep_lanes s ! i = Loading k
           \<and> (\<forall>e. pool_rank n (event_arrives n i e s) < pool_rank n s) \<and> pool_rank n (event_fails n i s) < pool_rank n s
       | Some (Inl u) \<Rightarrow> True
       | Some (Inr es) \<Rightarrow> \<exists>order. distinct order \<and> set order = {k. k < n \<and> answer k \<noteq> None} \<and> es = map (\<lambda>k. the (answer k)) order)"
proof -
  from events.reachable_inv [OF assms] obtain order where b: "books n answer s (loading_of (ep_lanes s)) order"
    unfolding lanes_ok_def by blast
  have "length (loading_of (ep_lanes s)) \<le> 6"
    using length_loading [of "ep_lanes s"] b by (simp add: books_def EVENT_FETCH_WIDTH_def)
  moreover have "case pool_result s of
         None \<Rightarrow> \<exists>i k. i < length (ep_lanes s) \<and> ep_lanes s ! i = Loading k
           \<and> (\<forall>e. pool_rank n (event_arrives n i e s) < pool_rank n s) \<and> pool_rank n (event_fails n i s) < pool_rank n s
       | Some (Inl u) \<Rightarrow> True
       | Some (Inr es) \<Rightarrow> \<exists>order. distinct order \<and> set order = {k. k < n \<and> answer k \<noteq> None} \<and> es = map (\<lambda>k. the (answer k)) order"
  proof (cases "pool_result s")
    case None
    then obtain l where "l \<in> set (ep_lanes s)" "l \<noteq> LaneThrew" "l \<noteq> LaneDone"
      by (auto simp: pool_result_def list_all_iff split: if_splits)
    then obtain i k where "i < length (ep_lanes s)" "ep_lanes s ! i = Loading k" by (metis in_set_conv_nth lane.exhaust)
    with None rank_answers [OF this] show ?thesis by auto
  next
    case (Some r)
    show ?thesis
    proof (cases r)
      case (Inr es)
      with Some have nothrow: "LaneThrew \<notin> set (ep_lanes s)" and fin: "\<forall>l \<in> set (ep_lanes s). l = LaneDone"
        and es: "es = ep_settled s"
        by (auto simp: pool_result_def list_all_iff split: if_splits)
      have idle: "loading_of (ep_lanes s) = []" using fin by (intro loading_none) auto
      have "ep_next s = n"
      proof (cases "ep_lanes s")
        case Nil
        then show ?thesis using b by (simp add: books_def EVENT_FETCH_WIDTH_def min_def split: if_splits)
      next
        case (Cons l ls)
        then show ?thesis using b fin by (auto simp: books_def)
      qed
      then have "set order = {k. k < n \<and> answer k \<noteq> None}" using b nothrow unfolding idle books_def by auto
      then show ?thesis using b Some Inr es unfolding books_def by auto
    qed (simp add: Some)
  qed
  ultimately show ?thesis using b by (auto simp: books_def)
qed

definition sample_answer :: "nat \<Rightarrow> string option" where
  "sample_answer k = (if k = 0 then Some ''a'' else if k = 2 then Some ''b'' else None)"

definition sample_pool :: "string event_pool" where
  "sample_pool = event_arrives 3 2 ''b'' (event_fails 3 1 (event_arrives 3 0 ''a'' (pool_starts 3 False)))"

lemma sample_pool_value:
  "event_arrives 3 0 ''a'' (pool_starts 3 False) = \<lparr>ep_next = 3, ep_lanes = [LaneDone, Loading 1, Loading 2], ep_settled = [''a''], ep_aborted = False\<rparr>"
  "event_fails 3 1 (event_arrives 3 0 ''a'' (pool_starts 3 False)) =
     \<lparr>ep_next = 3, ep_lanes = [LaneDone, LaneDone, Loading 2], ep_settled = [''a''], ep_aborted = False\<rparr>"
  "sample_pool = \<lparr>ep_next = 3, ep_lanes = [LaneDone, LaneDone, LaneDone], ep_settled = [''a'', ''b''], ep_aborted = False\<rparr>"
  by (simp_all add: sample_pool_def pool_starts_eq event_arrives_def event_fails_def lane_continues_def eval_nat_numeral)

lemma sample_pool_reached: "reach (pool_init 3) (lanes_step 3 sample_answer) sample_pool"
proof -
  have s: "sample_answer 0 = Some ''a''" "sample_answer 1 = None" "sample_answer (Suc 0) = None" "sample_answer 2 = Some ''b''"
    by (simp_all add: sample_answer_def)
  have r: "reach (pool_init 3) (lanes_step 3 sample_answer) (pool_starts 3 False)" by (intro reach_init) (auto simp: pool_init_def)
  have "lanes_step 3 sample_answer (pool_starts 3 False) (event_arrives 3 0 ''a'' (pool_starts 3 False))"
    by (rule arrives [where k = 0]) (simp_all add: s pool_starts_eq eval_nat_numeral)
  from reach_step [OF r this] have r: "reach (pool_init 3) (lanes_step 3 sample_answer) (event_arrives 3 0 ''a'' (pool_starts 3 False))" .
  have "lanes_step 3 sample_answer (event_arrives 3 0 ''a'' (pool_starts 3 False)) (event_fails 3 1 (event_arrives 3 0 ''a'' (pool_starts 3 False)))"
    by (rule fails [where k = 1]) (simp_all only: sample_pool_value(1), simp_all add: s)
  from reach_step [OF r this]
  have r: "reach (pool_init 3) (lanes_step 3 sample_answer) (event_fails 3 1 (event_arrives 3 0 ''a'' (pool_starts 3 False)))" .
  have "lanes_step 3 sample_answer (event_fails 3 1 (event_arrives 3 0 ''a'' (pool_starts 3 False))) sample_pool"
    unfolding sample_pool_def by (rule arrives [where k = 2]) (simp_all only: sample_pool_value(2), simp_all add: s)
  from reach_step [OF r this] show ?thesis .
qed

theorem event_pool_complete_witness:
  "pool_result sample_pool = Some (Inr [''a'', ''b''])
   \<and> (\<exists>order. distinct order \<and> set order = {k. k < 3 \<and> sample_answer k \<noteq> None} \<and> [''a'', ''b''] = map (\<lambda>k. the (sample_answer k)) order)"
proof -
  have r: "pool_result sample_pool = Some (Inr [''a'', ''b''])" by (simp add: sample_pool_value pool_result_def)
  with event_pool_complete [OF sample_pool_reached] show ?thesis by simp
qed

section \<open>What a read gives\<close>

definition required :: "(json \<Rightarrow> 'r option) \<Rightarrow> json \<Rightarrow> (lab_failure, 'r) result" where
  "required parse raw =
     (case parse raw of None \<Rightarrow> Inl (LabDataContractError ''Lab record did not match its shape'') | Some v \<Rightarrow> Inr v)"

text \<open>An optional read that fails is left out; only an abort lets its failure out. \<open>None\<close>: the promise is rejected.\<close>

definition bestEffort :: "bool \<Rightarrow> (lab_failure, 'r) result \<Rightarrow> 'r option option" where
  "bestEffort aborted r = (case r of Inr v \<Rightarrow> Some (Some v) | Inl _ \<Rightarrow> if aborted then None else Some None)"

definition resolved :: "('e, 'r) result \<Rightarrow> 'r option" where
  "resolved r = (case r of Inr v \<Rightarrow> Some v | Inl _ \<Rightarrow> None)"

record lab_page_data =
  pd_status :: json
  pd_verdicts :: "json list"
  pd_subjects :: "json list"
  pd_subjectsTruncated :: bool
  pd_hasMore :: bool
  pd_nextCursor :: "string option"
  pd_community :: "json option"

definition fetchLabPageData ::
  "bool \<Rightarrow> (lab_failure, json) result \<Rightarrow> (lab_failure, json) result \<Rightarrow> (lab_failure, json lab_page) result
   \<Rightarrow> (lab_failure, json collected_rows) result \<Rightarrow> lab_page_data option" where
  "fetchLabPageData aborted statusRead communityRead verdictsRead subjectsRead =
     Option.bind (resolved statusRead) (\<lambda>status.
     Option.bind (bestEffort aborted communityRead) (\<lambda>community.
     if prop_of status ''projectionAvailable'' \<noteq> Some (JBool True)
     then Some \<lparr>pd_status = status, pd_verdicts = [], pd_subjects = [], pd_subjectsTruncated = False, pd_hasMore = False,
                pd_nextCursor = None, pd_community = community\<rparr>
     else
       Option.bind (resolved verdictsRead) (\<lambda>verdicts.
       Option.bind (resolved subjectsRead) (\<lambda>subjects.
         Some \<lparr>pd_status = status, pd_verdicts = page_rows verdicts, pd_subjects = cl_rows subjects,
               pd_subjectsTruncated = cl_truncated subjects, pd_hasMore = page_cursor verdicts \<noteq> None,
               pd_nextCursor = page_cursor verdicts, pd_community = community\<rparr>))))"

record verdict_detail =
  dt_subject :: json
  dt_observations :: "json list"
  dt_observationsTruncated :: bool
  dt_events :: "json list"
  dt_production :: "json option"

text \<open>\<^verbatim>\<open>[...new Set(ids)]\<close>: the ids in the order of their first occurrence.\<close>

definition event_references :: "verdict_dto \<Rightarrow> string list" where
  "event_references v = rev (remdups (rev (vd_contributingEventIds v @ vd_contradictingEventIds v)))"

definition pending_references :: "string list \<Rightarrow> string list" where
  "pending_references references = take EVENT_REFERENCE_LIMIT references"

definition fetchVerdictDetail ::
  "bool \<Rightarrow> (lab_failure, json) result \<Rightarrow> (lab_failure, json collected_rows) result \<Rightarrow> (unit, json list) result
   \<Rightarrow> (lab_failure, json) result \<Rightarrow> verdict_detail option" where
  "fetchVerdictDetail aborted subjectRead observationsRead eventsRead productionRead =
     Option.bind (resolved subjectRead) (\<lambda>subject.
     Option.bind (resolved observationsRead) (\<lambda>observations.
     Option.bind (resolved eventsRead) (\<lambda>events.
     Option.bind (bestEffort aborted productionRead) (\<lambda>production.
       Some \<lparr>dt_subject = subject, dt_observations = cl_rows observations, dt_observationsTruncated = cl_truncated observations,
             dt_events = events, dt_production = production\<rparr>))))"

text \<open>The page says that there is more exactly when it can say where.\<close>

lemma more_has_cursor: "fetchLabPageData a st cm vs sj = Some d \<Longrightarrow> pd_hasMore d \<longleftrightarrow> pd_nextCursor d \<noteq> None"
  by (auto simp: fetchLabPageData_def split: Option.bind_splits if_splits)

text \<open>The community read decides about nothing but its own part of the page, unless the page was left.\<close>

lemma community_never_sinks:
  assumes "fetchLabPageData False st cm vs sj = Some d"
  shows "\<exists>d'. fetchLabPageData False st cm' vs sj = Some d' \<and> d'\<lparr>pd_community := pd_community d\<rparr> = d"
  using assms by (auto simp: fetchLabPageData_def bestEffort_def split: Option.bind_splits if_splits sum.splits)

lemma references_once: "distinct (event_references v)"
    "set (event_references v) = set (vd_contributingEventIds v) \<union> set (vd_contradictingEventIds v)"
  by (auto simp: event_references_def)

section \<open>The query a listener reads\<close>

lemma query_pair_text: "query_pair (params_text k v) = (k, v)"
  using cut_first [OF form_delims(2)] by (simp add: query_pair_def params_text_def form_roundtrip)

lemma query_text_reads_back:
  assumes "\<forall>(k, v) \<in> set pairs. k \<noteq> []"
  shows "search_params (query_text pairs) = pairs"
proof (cases pairs)
  case Nil
  then show ?thesis by (simp add: query_text_def search_params_def starts_with_def)
next
  case (Cons p ps)
  let ?ws = "map (\<lambda>(k, v). params_text k v) pairs"
  have amp: "CHR ''&'' \<notin> set w" if "w \<in> set ?ws" for w
    using that form_delims(1) by (auto simp: params_text_def)
  have some: "w \<noteq> []" if "w \<in> set ?ws" for w using that by (auto simp: params_text_def)
  have "split_on CHR ''&'' (query_text pairs) = ?ws"
    unfolding query_text_def using amp Cons by (intro split_join) auto
  moreover have "\<not> starts_with (query_text pairs) ''?''"
  proof -
    obtain k v where p: "p = (k, v)" by fastforce
    with assms Cons have "k \<noteq> []" by simp
    then have "form_encode k \<noteq> []" using form_roundtrip [of k] by auto
    then obtain c e where e: "form_encode k = c # e" by (cases "form_encode k") auto
    then have c: "c \<noteq> CHR ''?''" using form_delims(3) [of k] by auto
    have "\<exists>r. query_text pairs = c # r"
      unfolding query_text_def Cons p by (cases ps) (auto simp: params_text_def e)
    with c show ?thesis by (auto simp: starts_with_def)
  qed
  moreover have "filter (\<lambda>w. w \<noteq> []) ?ws = ?ws" using some by (simp add: filter_id_conv)
  ultimately show ?thesis by (simp add: search_params_def o_def case_prod_beta query_pair_text)
qed

lemma sent_query:
  assumes "lr_query r = Some q" "\<forall>(k, v) \<in> set (lq_filters q). k \<noteq> []"
  shows "search_params (drop (Suc (length (lr_route r))) (readUrl r)) = query_pairs q"
proof -
  have "\<forall>(k, v) \<in> set (query_pairs q). k \<noteq> []"
    using assms(2) by (fastforce simp: query_pairs_def map_filter_def split: option.splits if_splits)
  with assms(1) show ?thesis by (simp add: readUrl_def query_text_reads_back)
qed

text \<open>The listener is asked for exactly the filters that are set, with the page size before them.\<close>

theorem verdicts_query_exact:
  "search_params (drop (Suc (length ''/api/lab/verdicts'')) (readUrl (verdictsPage f cursor))) =
     (''limit'', ''50'') # List.map_filter (\<lambda>(k, v). case v of Some s \<Rightarrow> if s = [] then None else Some (k, s) | None \<Rightarrow> None)
       [(''layer'', map_option layer_name (vq_layer f)), (''verdict'', map_option verdict_name (vq_verdict f)),
        (''subjectId'', vq_subjectId f), (''suiteId'', vq_suiteId f), (''cursor'', cursor)]"
proof -
  have l: "show_nat LAB_PAGE_SIZE = ''50''" by (simp add: LAB_PAGE_SIZE_def show_nat.simps) code_simp
  have "search_params (drop (Suc (length (lr_route (verdictsPage f cursor)))) (readUrl (verdictsPage f cursor))) =
      query_pairs (the (lr_query (verdictsPage f cursor)))"
    by (rule sent_query) (simp_all add: verdictsPage_def withQuery_def)
  then show ?thesis
    by (simp add: verdictsPage_def withQuery_def query_pairs_def l map_filter_simps split: option.split)
qed

end
