(* ===== verification/Control_Settings.thy ===== *)
theory Control_Settings
  imports Benes_Prelude
begin

text \<open>
  The settings of the control board: \<^verbatim>\<open>pages/control-board-settings.ts\<close>, \<^verbatim>\<open>pages/dashboard-sidecar-merge.ts\<close> and
  \<^verbatim>\<open>pages/dashboard-model-views.ts\<close>. Five settings are written optimistically, each in a lane of its own, over an overlay that
  hides what the listener last answered. Requests and answers are events; a handler sees the state as it is rendered. The rows of
  the listener are taken with the types the code casts them to.
\<close>

section \<open>Data\<close>

record settings_data =
  sd_codexAutoStart :: bool
  sd_port :: int
  sd_hostname :: string

record sidecar_setting =
  ss_backend :: "string option"
  ss_model :: string
  ss_enabled :: "bool option"
  ss_streamRoutedModelOutput :: "bool option"
  ss_reasoning :: "string option"
  ss_timeoutMs :: "rat option"
  ss_maxDescriptionsPerTurn :: "rat option"

record sidecar_data =
  sc_webSearch :: sidecar_setting
  sc_vision :: sidecar_setting
  sc_visionModels :: "string list option"

text \<open>An absent field of an update keeps the stored value; a backend that is \<^verbatim>\<open>null\<close>, \<open>Some None\<close>, is forgotten.\<close>

record sidecar_update =
  su_model :: "string option"
  su_enabled :: "bool option"
  su_backend :: "string option option"

type_synonym sidecar_patch = "sidecar_update option"

record shadow_data =
  sh_enabled :: bool
  sh_model :: string
  sh_sourceModels :: "string list option"

record shadow_patch =
  sp_enabled :: "bool option"
  sp_model :: "string option"
  sp_sourceModels :: "string list option"

record dash_model =
  dm_provider :: string
  dm_id :: string
  dm_namespaced :: string

record control_extras =
  ce_settings :: "settings_data option"
  ce_shadowCall :: "shadow_data option"
  ce_sidecar :: "sidecar_data option"
  ce_contextProjection :: "string option"
  ce_fabric :: "bool option"
  ce_models :: "dash_model list"

definition normalizeProjectionMode :: "string option \<Rightarrow> string" where
  "normalizeProjectionMode mode =
     (if mode = Some ''shadow'' \<or> mode = Some ''duplicate'' \<or> mode = Some ''recovery'' then the mode
      else if mode = Some ''on'' then ''recovery'' else ''off'')"

text \<open>The six answers of a load; \<open>None\<close> is an answer that is not ok.\<close>

definition fetchControlExtras ::
  "settings_data option \<Rightarrow> shadow_data option \<Rightarrow> sidecar_data option \<Rightarrow> string option option \<Rightarrow> dash_model list option
   \<Rightarrow> bool option \<Rightarrow> control_extras" where
  "fetchControlExtras settings shadow sidecar projection models fabric =
     \<lparr>ce_settings = settings, ce_shadowCall = shadow, ce_sidecar = sidecar,
      ce_contextProjection = map_option normalizeProjectionMode projection, ce_fabric = fabric,
      ce_models = (case models of Some ms \<Rightarrow> ms | None \<Rightarrow> [])\<rparr>"

section \<open>The vision sidecar\<close>

definition replacementScalars :: "sidecar_update \<Rightarrow> sidecar_setting \<Rightarrow> sidecar_setting" where
  "replacementScalars u s =
     s\<lparr>ss_model := (case su_model u of Some m \<Rightarrow> m | None \<Rightarrow> ss_model s),
       ss_enabled := (case su_enabled u of Some e \<Rightarrow> Some e | None \<Rightarrow> ss_enabled s)\<rparr>"

definition mergeSidecarSetting :: "sidecar_setting \<Rightarrow> sidecar_patch \<Rightarrow> sidecar_setting" where
  "mergeSidecarSetting current update =
     (case update of
        None \<Rightarrow> current
      | Some u \<Rightarrow>
          (let merged = replacementScalars u current
           in case su_backend u of
                Some None \<Rightarrow> merged\<lparr>ss_backend := None\<rparr>
              | Some (Some b) \<Rightarrow> merged\<lparr>ss_backend := Some b\<rparr>
              | None \<Rightarrow> merged))"

definition patchedSidecar :: "sidecar_data \<Rightarrow> sidecar_patch \<Rightarrow> sidecar_data" where
  "patchedSidecar current patch = current\<lparr>sc_vision := mergeSidecarSetting (sc_vision current) patch\<rparr>"

definition visionActivationFields :: "string \<Rightarrow> bool \<Rightarrow> bool option" where
  "visionActivationFields model currentlyEnabled =
     (if model = [] then Some False else if \<not> currentlyEnabled then Some True else None)"

definition visionEnabledPatch :: "bool \<Rightarrow> sidecar_patch" where
  "visionEnabledPatch enabled = Some \<lparr>su_model = None, su_enabled = Some enabled, su_backend = None\<rparr>"

definition visionModelChangePatch :: "string \<Rightarrow> bool \<Rightarrow> sidecar_patch" where
  "visionModelChangePatch model visionEnabled =
     (if model = [] then visionEnabledPatch False
      else Some \<lparr>su_model = Some model, su_enabled = visionActivationFields model visionEnabled, su_backend = Some (Some ''vision_describe'')\<rparr>)"

definition visionOn :: "sidecar_data option \<Rightarrow> bool" where
  "visionOn sidecar \<longleftrightarrow>
     (case sidecar of None \<Rightarrow> False | Some d \<Rightarrow> ss_enabled (sc_vision d) \<noteq> Some False \<and> ss_model (sc_vision d) \<noteq> [])"

section \<open>Lanes\<close>

text \<open>
  A lane holds the local value over the listener's, and the write that is out: its input and the live value it was started from. \<open>saving\<close> of the
  source is whether a write is out.
\<close>

record ('p, 'v) lane_state =
  la_local :: "'v option"
  la_write :: "('p \<times> 'v) option"

definition pickLive :: "'v option \<Rightarrow> 'v option \<Rightarrow> 'v option" where
  "pickLive local_value server = (case local_value of Some v \<Rightarrow> Some v | None \<Rightarrow> server)"

definition busyGuard :: "'v option \<Rightarrow> bool \<Rightarrow> bool" where
  "busyGuard v busy \<longleftrightarrow> v \<noteq> None \<and> \<not> busy"

definition lane_begins :: "('p \<Rightarrow> 'v \<Rightarrow> 'v) \<Rightarrow> 'v option \<Rightarrow> 'p \<Rightarrow> ('p, 'v) lane_state \<Rightarrow> ('p, 'v) lane_state" where
  "lane_begins optimistic server p l =
     (let live = pickLive (la_local l) server
      in if busyGuard live (la_write l \<noteq> None) then l\<lparr>la_local := Some (optimistic p (the live)), la_write := Some (p, the live)\<rparr> else l)"

definition lane_settles :: "('p \<Rightarrow> 'v \<Rightarrow> 'v option \<Rightarrow> 'v option) \<Rightarrow> ('p, 'v) lane_state \<Rightarrow> ('p, 'v) lane_state" where
  "lane_settles f l = (case la_write l of None \<Rightarrow> l | Some (p, live) \<Rightarrow> l\<lparr>la_local := f p live (la_local l), la_write := None\<rparr>)"

definition lane_reset :: "('p, 'v) lane_state \<Rightarrow> ('p, 'v) lane_state" where
  "lane_reset l = l\<lparr>la_local := None\<rparr>"

section \<open>What each write does to its lane\<close>

definition autostart_optimistic :: "unit \<Rightarrow> settings_data \<Rightarrow> settings_data" where
  "autostart_optimistic _ live = live\<lparr>sd_codexAutoStart := \<not> sd_codexAutoStart live\<rparr>"

definition autostart_saved :: "bool \<Rightarrow> unit \<Rightarrow> settings_data \<Rightarrow> settings_data option \<Rightarrow> settings_data option" where
  "autostart_saved saved _ live current =
     Some ((case current of Some c \<Rightarrow> c | None \<Rightarrow> live)\<lparr>sd_codexAutoStart := saved\<rparr>)"

definition autostart_failed :: "unit \<Rightarrow> settings_data \<Rightarrow> settings_data option \<Rightarrow> settings_data option" where
  "autostart_failed _ live current =
     (let going = \<not> sd_codexAutoStart live
      in Some ((case current of Some c \<Rightarrow> c | None \<Rightarrow> live)\<lparr>sd_codexAutoStart := \<not> going\<rparr>))"

definition shadow_optimistic :: "shadow_patch \<Rightarrow> shadow_data \<Rightarrow> shadow_data" where
  "shadow_optimistic p live =
     \<lparr>sh_enabled = (case sp_enabled p of Some e \<Rightarrow> e | None \<Rightarrow> sh_enabled live),
      sh_model = (case sp_model p of Some m \<Rightarrow> m | None \<Rightarrow> sh_model live),
      sh_sourceModels = (case sp_sourceModels p of Some ms \<Rightarrow> Some ms | None \<Rightarrow> sh_sourceModels live)\<rparr>"

definition sidecar_optimistic :: "sidecar_patch \<Rightarrow> sidecar_data \<Rightarrow> sidecar_data" where
  "sidecar_optimistic p live = patchedSidecar live p"

definition projection_optimistic :: "string \<Rightarrow> string \<Rightarrow> string" where
  "projection_optimistic mode live = normalizeProjectionMode (Some mode)"

text \<open>The answer to a projection write; the body need not name a mode.\<close>

definition projection_saved :: "string option \<Rightarrow> string \<Rightarrow> string \<Rightarrow> string option \<Rightarrow> string option" where
  "projection_saved body mode live current =
     (let asked = normalizeProjectionMode (Some mode)
      in Some (normalizeProjectionMode (Some (case body of Some m \<Rightarrow> m | None \<Rightarrow> asked))))"

definition fabric_optimistic :: "bool \<Rightarrow> bool \<Rightarrow> bool" where
  "fabric_optimistic enabled live = enabled"

text \<open>Three lanes answer a success by nothing, a new body or nothing; four go back to the live value they started from.\<close>

definition keeps_local :: "'p \<Rightarrow> 'v \<Rightarrow> 'v option \<Rightarrow> 'v option" where
  "keeps_local p live current = current"

definition takes_body :: "'v \<Rightarrow> 'p \<Rightarrow> 'v \<Rightarrow> 'v option \<Rightarrow> 'v option" where
  "takes_body body p live current = Some body"

definition back_to_live :: "'p \<Rightarrow> 'v \<Rightarrow> 'v option \<Rightarrow> 'v option" where
  "back_to_live p live current = Some live"

section \<open>The board\<close>

record control_state =
  ct_server :: "control_extras option"
  ct_settings :: "(unit, settings_data) lane_state"
  ct_shadow :: "(shadow_patch, shadow_data) lane_state"
  ct_sidecar :: "(sidecar_patch, sidecar_data) lane_state"
  ct_projection :: "(string, string) lane_state"
  ct_fabric :: "(bool, bool) lane_state"

abbreviation idle_lane :: "('p, 'v) lane_state" where
  "idle_lane \<equiv> \<lparr>la_local = None, la_write = None\<rparr>"

definition control_mounts :: control_state where
  "control_mounts = \<lparr>ct_server = None, ct_settings = idle_lane, ct_shadow = idle_lane, ct_sidecar = idle_lane,
     ct_projection = idle_lane, ct_fabric = idle_lane\<rparr>"

definition server_of :: "(control_extras \<Rightarrow> 'v option) \<Rightarrow> control_state \<Rightarrow> 'v option" where
  "server_of field s = Option.bind (ct_server s) field"

definition liveSettings :: "control_state \<Rightarrow> settings_data option" where
  "liveSettings s = pickLive (la_local (ct_settings s)) (server_of ce_settings s)"

definition liveShadow :: "control_state \<Rightarrow> shadow_data option" where
  "liveShadow s = pickLive (la_local (ct_shadow s)) (server_of ce_shadowCall s)"

definition liveSidecar :: "control_state \<Rightarrow> sidecar_data option" where
  "liveSidecar s = pickLive (la_local (ct_sidecar s)) (server_of ce_sidecar s)"

definition liveProjection :: "control_state \<Rightarrow> string option" where
  "liveProjection s = pickLive (la_local (ct_projection s)) (server_of ce_contextProjection s)"

definition liveFabric :: "control_state \<Rightarrow> bool option" where
  "liveFabric s = pickLive (la_local (ct_fabric s)) (server_of ce_fabric s)"

datatype control_event =
    ServerAnswers control_extras
  | BoardRefreshed
  | ToggleAutostart | AutostartSaved bool | AutostartFailed
  | SaveShadow shadow_patch | ShadowSaved | ShadowFailed
  | SaveSidecar sidecar_patch | SidecarSaved sidecar_data | SidecarFailed
  | SaveVisionModel string | ToggleVision
  | SaveProjection string | ProjectionSaved "string option" | ProjectionFailed
  | SaveFabric bool | FabricSaved | FabricFailed

definition saveSidecar :: "sidecar_patch \<Rightarrow> control_state \<Rightarrow> control_state" where
  "saveSidecar p s = s\<lparr>ct_sidecar := lane_begins sidecar_optimistic (server_of ce_sidecar s) p (ct_sidecar s)\<rparr>"

fun board_event :: "control_state \<Rightarrow> control_event \<Rightarrow> control_state" where
  "board_event s (ServerAnswers e) = s\<lparr>ct_server := Some e\<rparr>"
| "board_event s BoardRefreshed =
     s\<lparr>ct_settings := lane_reset (ct_settings s), ct_shadow := lane_reset (ct_shadow s), ct_sidecar := lane_reset (ct_sidecar s),
       ct_projection := lane_reset (ct_projection s), ct_fabric := lane_reset (ct_fabric s)\<rparr>"
| "board_event s ToggleAutostart =
     s\<lparr>ct_settings := lane_begins autostart_optimistic (server_of ce_settings s) () (ct_settings s)\<rparr>"
| "board_event s (AutostartSaved b) = s\<lparr>ct_settings := lane_settles (autostart_saved b) (ct_settings s)\<rparr>"
| "board_event s AutostartFailed = s\<lparr>ct_settings := lane_settles autostart_failed (ct_settings s)\<rparr>"
| "board_event s (SaveShadow p) = s\<lparr>ct_shadow := lane_begins shadow_optimistic (server_of ce_shadowCall s) p (ct_shadow s)\<rparr>"
| "board_event s ShadowSaved = s\<lparr>ct_shadow := lane_settles keeps_local (ct_shadow s)\<rparr>"
| "board_event s ShadowFailed = s\<lparr>ct_shadow := lane_settles back_to_live (ct_shadow s)\<rparr>"
| "board_event s (SaveSidecar p) = saveSidecar p s"
| "board_event s (SidecarSaved body) = s\<lparr>ct_sidecar := lane_settles (takes_body body) (ct_sidecar s)\<rparr>"
| "board_event s SidecarFailed = s\<lparr>ct_sidecar := lane_settles back_to_live (ct_sidecar s)\<rparr>"
| "board_event s (SaveVisionModel m) = saveSidecar (visionModelChangePatch m (visionOn (liveSidecar s))) s"
| "board_event s ToggleVision = saveSidecar (visionEnabledPatch (\<not> visionOn (liveSidecar s))) s"
| "board_event s (SaveProjection m) =
     s\<lparr>ct_projection := lane_begins projection_optimistic (server_of ce_contextProjection s) m (ct_projection s)\<rparr>"
| "board_event s (ProjectionSaved b) = s\<lparr>ct_projection := lane_settles (projection_saved b) (ct_projection s)\<rparr>"
| "board_event s ProjectionFailed = s\<lparr>ct_projection := lane_settles back_to_live (ct_projection s)\<rparr>"
| "board_event s (SaveFabric b) = s\<lparr>ct_fabric := lane_begins fabric_optimistic (server_of ce_fabric s) b (ct_fabric s)\<rparr>"
| "board_event s FabricSaved = s\<lparr>ct_fabric := lane_settles keeps_local (ct_fabric s)\<rparr>"
| "board_event s FabricFailed = s\<lparr>ct_fabric := lane_settles back_to_live (ct_fabric s)\<rparr>"

section \<open>Lists of models\<close>

definition groupDashboardModels :: "(string \<Rightarrow> string \<Rightarrow> int) \<Rightarrow> dash_model list \<Rightarrow> (string \<times> dash_model list) list" where
  "groupDashboardModels loc models =
     sort_by (\<lambda>a b. loc (fst a) (fst b))
       (foldl (\<lambda>m model. map_set (dm_provider model) (get_or [] m (dm_provider model) @ [model]) m) [] models)"

definition matchesQuery :: "string \<Rightarrow> dash_model \<Rightarrow> string \<Rightarrow> bool" where
  "matchesQuery provider model needle \<longleftrightarrow>
     str_includes (to_lower (dm_id model)) needle \<or> str_includes (to_lower provider) needle"

definition filterDashboardModelGroups :: "(string \<times> dash_model list) list \<Rightarrow> string \<Rightarrow> (string \<times> dash_model list) list" where
  "filterDashboardModelGroups grouped query =
     (let needle = to_lower (trim query)
      in if needle = [] then grouped
         else filter (\<lambda>g. snd g \<noteq> [])
           (map (\<lambda>(provider, rows). (provider, filter (\<lambda>m. matchesQuery provider m needle) rows)) grouped))"

definition dashboardModelGroupExpanded :: "string \<Rightarrow> string set \<Rightarrow> string \<Rightarrow> bool" where
  "dashboardModelGroupExpanded query expanded provider \<longleftrightarrow> trim query \<noteq> [] \<or> provider \<in> expanded"

definition toggleExpandedProvider :: "string set \<Rightarrow> string \<Rightarrow> string set" where
  "toggleExpandedProvider expanded provider = (if provider \<in> expanded then expanded - {provider} else insert provider expanded)"

definition sidecarModelIds :: "dash_model list \<Rightarrow> string list" where
  "sidecarModelIds models = map dm_namespaced (filter (\<lambda>m. dm_provider m = ''openai'' \<or> dm_provider m = ''anthropic'') models)"

definition visionModelOptions :: "string list option \<Rightarrow> dash_model list \<Rightarrow> string option \<Rightarrow> string list" where
  "visionModelOptions serverIds models current =
     (let ids = (case serverIds of Some is \<Rightarrow> is | None \<Rightarrow> sidecarModelIds models)
      in case current of
           Some c \<Rightarrow> if c \<noteq> [] \<and> c \<notin> set ids then c # ids else ids
         | None \<Rightarrow> ids)"

definition visionSelectOptions :: "dash_model list \<Rightarrow> sidecar_data option \<Rightarrow> string list" where
  "visionSelectOptions models sidecar =
     visionModelOptions (Option.bind sidecar sc_visionModels) models (map_option (\<lambda>d. ss_model (sc_vision d)) sidecar)"

text \<open>The values of the options; the empty one turns the replacement off.\<close>

definition shadowCallModelOptions :: "dash_model list \<Rightarrow> string option \<Rightarrow> string list" where
  "shadowCallModelOptions models current =
     (let ids = map dm_namespaced models
      in [] # (case current of Some c \<Rightarrow> if c \<noteq> [] \<and> c \<notin> set ids then ids @ [c] else ids | None \<Rightarrow> ids))"

section \<open>A lane on its own\<close>

text \<open>What makes a lane optimistic rather than wrong: taking the optimistic value back gives the value it was made from.\<close>

locale optimistic_lane =
  fixes optimistic :: "'p \<Rightarrow> 'v \<Rightarrow> 'v" and failed :: "'p \<Rightarrow> 'v \<Rightarrow> 'v option \<Rightarrow> 'v option"
  assumes failed_restores: "failed p live (Some (optimistic p live)) = Some live"
begin

lemma begun: "la_write l = None \<Longrightarrow> pickLive (la_local l) server = Some v \<Longrightarrow>
   lane_begins optimistic server p l = l\<lparr>la_local := Some (optimistic p v), la_write := Some (p, v)\<rparr>"
  by (simp add: lane_begins_def busyGuard_def Let_def)

lemma one_write: "la_write l \<noteq> None \<Longrightarrow> lane_begins optimistic server p l = l"
  by (simp add: lane_begins_def busyGuard_def Let_def)

lemma rolled_back: "la_write l = None \<Longrightarrow> pickLive (la_local l) server = Some v \<Longrightarrow>
   lane_settles failed (lane_begins optimistic server p l) = l\<lparr>la_local := Some v, la_write := None\<rparr>"
  by (simp add: begun lane_settles_def failed_restores)

lemma settled: "la_write l = None \<Longrightarrow> pickLive (la_local l) server = Some v \<Longrightarrow>
   lane_settles f (lane_begins optimistic server p l) = l\<lparr>la_local := f p v (Some (optimistic p v)), la_write := None\<rparr>"
  by (simp add: begun lane_settles_def)

lemma pending: "la_write l = None \<Longrightarrow> pickLive (la_local l) server = Some v \<Longrightarrow> la_write (lane_begins optimistic server p l) \<noteq> None"
  by (simp add: begun)

end

interpretation autostart: optimistic_lane autostart_optimistic autostart_failed
  by unfold_locales (simp add: autostart_optimistic_def autostart_failed_def Let_def)

interpretation shadow: optimistic_lane shadow_optimistic back_to_live
  by unfold_locales (simp add: back_to_live_def)

interpretation sidecar: optimistic_lane sidecar_optimistic back_to_live
  by unfold_locales (simp add: back_to_live_def)

interpretation projection: optimistic_lane projection_optimistic back_to_live
  by unfold_locales (simp add: back_to_live_def)

interpretation fabric: optimistic_lane fabric_optimistic back_to_live
  by unfold_locales (simp add: back_to_live_def)

lemma pick_local [simp]: "pickLive (Some v) server = Some v"
  by (simp add: pickLive_def)

section \<open>Lanes do not meet\<close>

text \<open>Everything that can happen while a write of a lane is out, but for its answer and a refresh of the board.\<close>

definition autostart_quiet :: "control_event \<Rightarrow> bool" where
  "autostart_quiet e \<longleftrightarrow> (case e of BoardRefreshed \<Rightarrow> False | AutostartSaved _ \<Rightarrow> False | AutostartFailed \<Rightarrow> False | _ \<Rightarrow> True)"

definition shadow_quiet :: "control_event \<Rightarrow> bool" where
  "shadow_quiet e \<longleftrightarrow> (case e of BoardRefreshed \<Rightarrow> False | ShadowSaved \<Rightarrow> False | ShadowFailed \<Rightarrow> False | _ \<Rightarrow> True)"

definition sidecar_quiet :: "control_event \<Rightarrow> bool" where
  "sidecar_quiet e \<longleftrightarrow> (case e of BoardRefreshed \<Rightarrow> False | SidecarSaved _ \<Rightarrow> False | SidecarFailed \<Rightarrow> False | _ \<Rightarrow> True)"

definition projection_quiet :: "control_event \<Rightarrow> bool" where
  "projection_quiet e \<longleftrightarrow> (case e of BoardRefreshed \<Rightarrow> False | ProjectionSaved _ \<Rightarrow> False | ProjectionFailed \<Rightarrow> False | _ \<Rightarrow> True)"

definition fabric_quiet :: "control_event \<Rightarrow> bool" where
  "fabric_quiet e \<longleftrightarrow> (case e of BoardRefreshed \<Rightarrow> False | FabricSaved \<Rightarrow> False | FabricFailed \<Rightarrow> False | _ \<Rightarrow> True)"

lemma autostart_kept: "la_write (ct_settings s) \<noteq> None \<Longrightarrow> autostart_quiet e \<Longrightarrow> ct_settings (board_event s e) = ct_settings s"
  by (cases e) (simp_all add: autostart_quiet_def saveSidecar_def autostart.one_write)

lemma shadow_kept: "la_write (ct_shadow s) \<noteq> None \<Longrightarrow> shadow_quiet e \<Longrightarrow> ct_shadow (board_event s e) = ct_shadow s"
  by (cases e) (simp_all add: shadow_quiet_def saveSidecar_def shadow.one_write)

lemma sidecar_kept: "la_write (ct_sidecar s) \<noteq> None \<Longrightarrow> sidecar_quiet e \<Longrightarrow> ct_sidecar (board_event s e) = ct_sidecar s"
  by (cases e) (simp_all add: sidecar_quiet_def saveSidecar_def sidecar.one_write)

lemma projection_kept: "la_write (ct_projection s) \<noteq> None \<Longrightarrow> projection_quiet e \<Longrightarrow> ct_projection (board_event s e) = ct_projection s"
  by (cases e) (simp_all add: projection_quiet_def saveSidecar_def projection.one_write)

lemma fabric_kept: "la_write (ct_fabric s) \<noteq> None \<Longrightarrow> fabric_quiet e \<Longrightarrow> ct_fabric (board_event s e) = ct_fabric s"
  by (cases e) (simp_all add: fabric_quiet_def saveSidecar_def fabric.one_write)

lemma kept_along:
  assumes "\<And>s e. la_write (lane s) \<noteq> None \<Longrightarrow> quiet e \<Longrightarrow> lane (board_event s e) = lane s"
  shows "la_write (lane s) \<noteq> None \<Longrightarrow> list_all quiet es \<Longrightarrow> lane (foldl board_event s es) = lane s"
  using assms by (induction es arbitrary: s) auto

text \<open>The boards after a write, anything quiet, and its answer.\<close>

definition after_write :: "(control_event \<Rightarrow> bool) \<Rightarrow> control_event \<Rightarrow> control_event \<Rightarrow> control_state \<Rightarrow> control_state set" where
  "after_write quiet begins answer s =
     {t. \<exists>es. list_all quiet es \<and> t = board_event (foldl board_event (board_event s begins) es) answer}"

lemma write_settles:
  assumes idle: "la_write (lane s) = None" "pickLive (la_local (lane s)) server = Some v"
    and begins: "lane (board_event s begins) = lane_begins opt server p (lane s)"
    and answers: "\<And>u. lane (board_event u answer) = lane_settles f (lane u)"
    and kept: "\<And>s e. la_write (lane s) \<noteq> None \<Longrightarrow> quiet e \<Longrightarrow> lane (board_event s e) = lane s"
    and t: "t \<in> after_write quiet begins answer s"
  shows "la_local (lane t) = f p v (Some (opt p v))"
proof -
  from t obtain es where es: "list_all quiet es" and t: "t = board_event (foldl board_event (board_event s begins) es) answer"
    unfolding after_write_def by blast
  have w: "lane (board_event s begins) = (lane s)\<lparr>la_local := Some (opt p v), la_write := Some (p, v)\<rparr>"
    using idle unfolding begins by (simp add: lane_begins_def busyGuard_def Let_def)
  then have "lane (foldl board_event (board_event s begins) es) = lane (board_event s begins)"
    by (intro kept_along [OF kept _ es]) simp_all
  then show ?thesis unfolding t answers w by (simp add: lane_settles_def)
qed

lemma autostart_answers:
  assumes "la_write (ct_settings s) = None" "liveSettings s = Some v"
  shows "t \<in> after_write autostart_quiet ToggleAutostart AutostartFailed s \<Longrightarrow> liveSettings t = Some v"
    and "t \<in> after_write autostart_quiet ToggleAutostart (AutostartSaved b) s \<Longrightarrow> liveSettings t = Some (v\<lparr>sd_codexAutoStart := b\<rparr>)"
  using assms write_settles [of ct_settings s "server_of ce_settings s" v "ToggleAutostart" autostart_optimistic "()" "AutostartFailed" autostart_failed autostart_quiet t]
    write_settles [of ct_settings s "server_of ce_settings s" v "ToggleAutostart" autostart_optimistic "()" "AutostartSaved b" "(autostart_saved b)" autostart_quiet t]
    autostart_kept autostart.failed_restores
  by (simp_all add: liveSettings_def saveSidecar_def autostart_saved_def autostart_optimistic_def)

lemma shadow_answers:
  assumes "la_write (ct_shadow s) = None" "liveShadow s = Some v"
  shows "t \<in> after_write shadow_quiet (SaveShadow p) ShadowFailed s \<Longrightarrow> liveShadow t = Some v"
    and "t \<in> after_write shadow_quiet (SaveShadow p) ShadowSaved s \<Longrightarrow> liveShadow t = Some (shadow_optimistic p v)"
  using assms write_settles [of ct_shadow s "server_of ce_shadowCall s" v "SaveShadow p" shadow_optimistic p "ShadowFailed" back_to_live shadow_quiet t]
    write_settles [of ct_shadow s "server_of ce_shadowCall s" v "SaveShadow p" shadow_optimistic p ShadowSaved "keeps_local" shadow_quiet t]
    shadow_kept shadow.failed_restores
  by (simp_all add: liveShadow_def saveSidecar_def keeps_local_def)

lemma sidecar_answers:
  assumes "la_write (ct_sidecar s) = None" "liveSidecar s = Some v"
  shows "t \<in> after_write sidecar_quiet (SaveSidecar p) SidecarFailed s \<Longrightarrow> liveSidecar t = Some v"
    and "t \<in> after_write sidecar_quiet (SaveSidecar p) (SidecarSaved body) s \<Longrightarrow> liveSidecar t = Some body"
  using assms write_settles [of ct_sidecar s "server_of ce_sidecar s" v "SaveSidecar p" sidecar_optimistic p "SidecarFailed" back_to_live sidecar_quiet t]
    write_settles [of ct_sidecar s "server_of ce_sidecar s" v "SaveSidecar p" sidecar_optimistic p "SidecarSaved body" "(takes_body body)" sidecar_quiet t]
    sidecar_kept sidecar.failed_restores
  by (simp_all add: liveSidecar_def saveSidecar_def takes_body_def)

lemma projection_answers:
  assumes "la_write (ct_projection s) = None" "liveProjection s = Some v"
  shows "t \<in> after_write projection_quiet (SaveProjection p) ProjectionFailed s \<Longrightarrow> liveProjection t = Some v"
    and "t \<in> after_write projection_quiet (SaveProjection p) (ProjectionSaved (Some body)) s \<Longrightarrow> liveProjection t = Some (normalizeProjectionMode (Some body))"
  using assms write_settles [of ct_projection s "server_of ce_contextProjection s" v "SaveProjection p" projection_optimistic p "ProjectionFailed" back_to_live projection_quiet t]
    write_settles [of ct_projection s "server_of ce_contextProjection s" v "SaveProjection p" projection_optimistic p "ProjectionSaved (Some body)" "(projection_saved (Some body))" projection_quiet t]
    projection_kept projection.failed_restores
  by (simp_all add: liveProjection_def saveSidecar_def projection_saved_def)

lemma fabric_answers:
  assumes "la_write (ct_fabric s) = None" "liveFabric s = Some v"
  shows "t \<in> after_write fabric_quiet (SaveFabric p) FabricFailed s \<Longrightarrow> liveFabric t = Some v"
    and "t \<in> after_write fabric_quiet (SaveFabric p) FabricSaved s \<Longrightarrow> liveFabric t = Some p"
  using assms write_settles [of ct_fabric s "server_of ce_fabric s" v "SaveFabric p" fabric_optimistic p "FabricFailed" back_to_live fabric_quiet t]
    write_settles [of ct_fabric s "server_of ce_fabric s" v "SaveFabric p" fabric_optimistic p FabricSaved "keeps_local" fabric_quiet t]
    fabric_kept fabric.failed_restores
  by (simp_all add: liveFabric_def saveSidecar_def keeps_local_def fabric_optimistic_def)


definition sample_extras :: control_extras where
  "sample_extras = fetchControlExtras (Some \<lparr>sd_codexAutoStart = False, sd_port = 8080, sd_hostname = ''localhost''\<rparr>) None None
     (Some (Some ''on'')) (Some []) (Some False)"

definition sample_board :: control_state where
  "sample_board = board_event control_mounts (ServerAnswers sample_extras)"

lemmas board_simps = sample_board_def sample_extras_def control_mounts_def fetchControlExtras_def normalizeProjectionMode_def
  liveSettings_def liveShadow_def liveSidecar_def liveProjection_def liveFabric_def server_of_def pickLive_def


section \<open>A refresh during a write\<close>

text \<open>
  A refresh drops the overlay, and a write that was out then fails: its rollback puts the old value over everything the listener answers
  from then on.
\<close>

lemma rollback_masks_listener:
  assumes "la_write (ct_fabric s) = None" "liveFabric s = Some f"
    and "t = board_event (board_event (board_event s (SaveFabric g)) BoardRefreshed) FabricFailed"
  shows "liveFabric (foldl board_event t (map ServerAnswers answers)) = Some f"
proof -
  have "la_local (ct_fabric t) = Some f" using assms
    by (simp add: liveFabric_def lane_begins_def busyGuard_def Let_def lane_reset_def lane_settles_def back_to_live_def)
  moreover have "ct_fabric (foldl board_event u (map ServerAnswers answers)) = ct_fabric u" for u
    by (induction answers arbitrary: u) simp_all
  ultimately show ?thesis by (simp add: liveFabric_def)
qed

section \<open>Vision\<close>

lemma live_after_choice:
  assumes "la_write (ct_sidecar s) = None" "liveSidecar s = Some d"
  shows "liveSidecar (saveSidecar p s) = Some (patchedSidecar d p)"
  using assms by (simp add: liveSidecar_def saveSidecar_def sidecar.begun sidecar_optimistic_def)

text \<open>Choosing a model turns vision on, choosing none turns it off and keeps the model, and the toggle flips it when there is a model.\<close>

theorem vision_follows_choice:
  assumes "la_write (ct_sidecar s) = None" "liveSidecar s = Some d"
  shows "visionOn (liveSidecar (board_event s (SaveVisionModel m))) \<longleftrightarrow> m \<noteq> []"
    and "\<exists>d'. liveSidecar (board_event s (SaveVisionModel m)) = Some d' \<and> sc_webSearch d' = sc_webSearch d
       \<and> ss_model (sc_vision d') = (if m = [] then ss_model (sc_vision d) else m)"
    and "ss_model (sc_vision d) \<noteq> [] \<Longrightarrow> visionOn (liveSidecar (board_event s ToggleVision)) \<longleftrightarrow> \<not> visionOn (liveSidecar s)"
  using live_after_choice [OF assms] assms(2)
  by (auto simp: visionOn_def visionModelChangePatch_def visionEnabledPatch_def visionActivationFields_def patchedSidecar_def
      mergeSidecarSetting_def replacementScalars_def Let_def split: option.split)

text \<open>An update replaces what it names and nothing else.\<close>

lemma merge_keeps:
  "ss_reasoning (mergeSidecarSetting c u) = ss_reasoning c" "ss_timeoutMs (mergeSidecarSetting c u) = ss_timeoutMs c"
  "ss_maxDescriptionsPerTurn (mergeSidecarSetting c u) = ss_maxDescriptionsPerTurn c"
  "ss_streamRoutedModelOutput (mergeSidecarSetting c u) = ss_streamRoutedModelOutput c"
  by (simp_all add: mergeSidecarSetting_def replacementScalars_def Let_def split: option.split)

lemma projection_normal: "normalizeProjectionMode (Some (normalizeProjectionMode m)) = normalizeProjectionMode m"
  by (simp add: normalizeProjectionMode_def)

section \<open>Groups and options\<close>

lemma groups_collect:
  "map_of (foldl (\<lambda>m model. map_set (dm_provider model) (get_or [] m (dm_provider model) @ [model]) m) [] models) p =
     (if p \<in> dm_provider ` set models then Some (filter (\<lambda>m. dm_provider m = p) models) else None)
   \<and> distinct (map fst (foldl (\<lambda>m model. map_set (dm_provider model) (get_or [] m (dm_provider model) @ [model]) m) [] models))"
proof (induction models arbitrary: p rule: rev_induct)
  case (snoc x models)
  have e: "filter (\<lambda>m. dm_provider m = dm_provider x) models = []" if "dm_provider x \<notin> dm_provider ` set models"
    using that by (force simp: filter_empty_conv image_iff)
  show ?case using snoc.IH [of p] snoc.IH [of "dm_provider x"] e
    by (auto simp: get_or_def distinct_map_set)
qed simp

text \<open>Each provider has one group, with all of its models in catalog order, and the groups are sorted.\<close>

theorem dashboard_groups_exact:
  assumes "comparator loc (\<lambda>_. True)"
  shows "distinct (map fst (groupDashboardModels loc models))
    \<and> set (groupDashboardModels loc models) = (\<lambda>p. (p, filter (\<lambda>m. dm_provider m = p) models)) ` dm_provider ` set models
    \<and> sorted_wrt (\<lambda>a b. loc (fst a) (fst b) \<le> 0) (groupDashboardModels loc models)"
proof -
  let ?g = "foldl (\<lambda>m model. map_set (dm_provider model) (get_or [] m (dm_provider model) @ [model]) m) [] models"
  have d: "distinct (map fst ?g)" using groups_collect by blast
  have in_g: "(p, rows) \<in> set ?g \<longleftrightarrow> p \<in> dm_provider ` set models \<and> rows = filter (\<lambda>m. dm_provider m = p) models" for p rows
    using groups_collect [of models p] map_of_eq_Some_iff [OF d, of p rows] by (auto split: if_splits)
  have "set ?g = (\<lambda>p. (p, filter (\<lambda>m. dm_provider m = p) models)) ` dm_provider ` set models"
  proof
    show "set ?g \<subseteq> (\<lambda>p. (p, filter (\<lambda>m. dm_provider m = p) models)) ` dm_provider ` set models" using in_g by fastforce
    show "(\<lambda>p. (p, filter (\<lambda>m. dm_provider m = p) models)) ` dm_provider ` set models \<subseteq> set ?g" using in_g by fastforce
  qed
  moreover have "comparator (\<lambda>a b. loc (fst a) (fst b)) (\<lambda>_ :: string \<times> dash_model list. True)"
    using assms unfolding comparator_def by blast
  then have "sorted_wrt (\<lambda>a b. loc (fst a) (fst b) \<le> 0) (sort_by (\<lambda>a b. loc (fst a) (fst b)) ?g)"
    by (rule comparator.sorted_sort_by) (simp add: list_all_iff)
  ultimately show ?thesis using d by (simp add: groupDashboardModels_def distinct_sort_by)
qed

text \<open>A search drops groups and rows, and never changes the order of those it keeps.\<close>

lemma search_keeps: "to_lower (trim q) \<noteq> [] \<Longrightarrow> (p, rows) \<in> set (filterDashboardModelGroups gs q) \<longleftrightarrow>
   rows \<noteq> [] \<and> (\<exists>all. (p, all) \<in> set gs \<and> rows = filter (\<lambda>m. matchesQuery p m (to_lower (trim q))) all)"
  by (auto simp: filterDashboardModelGroups_def Let_def)

text \<open>What is stored can always be chosen again.\<close>

lemma vision_current_offered: "current = Some c \<Longrightarrow> c \<noteq> [] \<Longrightarrow> c \<in> set (visionModelOptions ids models current)"
  by (simp add: visionModelOptions_def Let_def)

lemma vision_server_list_kept: "serverIds = Some ids \<Longrightarrow> set ids \<subseteq> set (visionModelOptions serverIds models current)
   \<and> set (visionModelOptions serverIds models current) \<subseteq> insert (the current) (set ids)"
  by (auto simp: visionModelOptions_def Let_def split: option.split)

lemma shadow_current_offered: "current = Some c \<Longrightarrow> c \<in> set (shadowCallModelOptions models current)"
  by (simp add: shadowCallModelOptions_def Let_def)

end
