(* ===== verification/Provider_Setup.thy ===== *)
theory Provider_Setup
  imports Js_Numbers
begin

text \<open>
  Adding a provider and changing its settings, without the dialogs: \<^verbatim>\<open>provider-workspace/provider-create-request.ts\<close> writes the request,
  \<^verbatim>\<open>lib/add-provider-submit-policy.ts\<close> and \<^verbatim>\<open>lib/add-provider-form-policy.ts\<close> decide what the wizard offers,
  \<^verbatim>\<open>provider-workspace/settings-form.ts\<close> and \<^verbatim>\<open>provider-workspace/config-pacing.ts\<close> turn drafts into patches. What the browser
  makes of a URL is the parameter \<open>origin_path\<close>. Drafts of numbers are text and go through \<open>Js_Numbers\<close>.
\<close>

section \<open>The request that adds a provider\<close>

datatype auth_mode = AuthKey | AuthForward | AuthOauth | AuthLocal

record payload_form =
  pf_name :: string
  pf_adapter :: string
  pf_baseUrl :: string
  pf_responsesPath :: "string option"
  pf_authMode :: auth_mode
  pf_apiKey :: string
  pf_apiKeyTransport :: "string option"
  pf_defaultModel :: string
  pf_allowPrivateNetwork :: "bool option"

record provider_payload =
  py_adapter :: string
  py_baseUrl :: string
  py_responsesPath :: "string option"
  py_apiKey :: "string option"
  py_apiKeyTransport :: "string option"
  py_defaultModel :: "string option"
  py_authMode :: "auth_mode option"
  py_codexAccountMode :: "string option"
  py_allowPrivateNetwork :: "bool option"

record post_preset =
  pp_id :: string
  pp_codexAccountMode :: "string option"
  pp_provider :: "provider_payload option"

datatype provider_write = CloneSeed string provider_payload | Draft string payload_form

definition RESERVED_OPENAI_FORWARD_ID :: string where
  "RESERVED_OPENAI_FORWARD_ID = ''openai''"

definition isReservedCodexForwardPreset :: "post_preset \<Rightarrow> bool" where
  "isReservedCodexForwardPreset preset \<longleftrightarrow> pp_id preset = RESERVED_OPENAI_FORWARD_ID"

definition keep_text :: "string option \<Rightarrow> string option" where
  "keep_text v = (case v of None \<Rightarrow> None | Some s \<Rightarrow> if trim s = [] then None else Some (trim s))"

definition encodeProviderDraft :: "payload_form \<Rightarrow> provider_payload" where
  "encodeProviderDraft draft =
     (let adapter = trim (pf_adapter draft);
          auth = (if pf_authMode draft = AuthLocal then None else Some (pf_authMode draft));
          secret = (if auth = Some AuthKey then keep_text (Some (pf_apiKey draft)) else None);
          bearer = (adapter = ''anthropic'' \<and> auth = Some AuthKey \<and> pf_apiKeyTransport draft = Some ''bearer'')
      in \<lparr>py_adapter = adapter, py_baseUrl = trim (pf_baseUrl draft), py_responsesPath = keep_text (pf_responsesPath draft),
          py_apiKey = secret, py_apiKeyTransport = (if bearer then Some ''bearer'' else None),
          py_defaultModel = keep_text (Some (pf_defaultModel draft)), py_authMode = auth, py_codexAccountMode = None,
          py_allowPrivateNetwork = (if pf_allowPrivateNetwork draft = Some True then Some True else None)\<rparr>)"

definition toProviderWrite :: "post_preset \<Rightarrow> payload_form \<Rightarrow> (string, provider_write) result" where
  "toProviderWrite preset draft =
     (if \<not> isReservedCodexForwardPreset preset then Inr (Draft (trim (pf_name draft)) draft)
      else case pp_provider preset of
        None \<Rightarrow> Inl (''Missing canonical provider seed for '' @ pp_id preset)
      | Some seed \<Rightarrow> Inr (CloneSeed (pp_id preset) seed))"

fun encodeProviderWrite :: "provider_write \<Rightarrow> string \<times> provider_payload" where
  "encodeProviderWrite (CloneSeed i seed) = (i, seed)"
| "encodeProviderWrite (Draft i draft) = (i, encodeProviderDraft draft)"

definition encodeProviderCreate :: "post_preset \<Rightarrow> payload_form \<Rightarrow> (string, string \<times> provider_payload) result" where
  "encodeProviderCreate preset draft = bindR (toProviderWrite preset draft) (\<lambda>w. Inr (encodeProviderWrite w))"

section \<open>The reserved row\<close>

definition CODEX_FORWARD_BASE_URL :: string where
  "CODEX_FORWARD_BASE_URL = ''https://chatgpt.com/backend-api/codex''"

record forward_row =
  fr_adapter :: "string option"
  fr_authMode :: "string option"
  fr_baseUrl :: "string option"
  fr_disabled :: "bool option"

definition isCanonicalCodexForwardUrl :: "(string \<Rightarrow> string option) \<Rightarrow> string option \<Rightarrow> bool" where
  "isCanonicalCodexForwardUrl origin_path baseUrl \<longleftrightarrow> (case baseUrl of None \<Rightarrow> False | Some u \<Rightarrow> origin_path u = Some CODEX_FORWARD_BASE_URL)"

definition isCanonicalCodexForwardShape :: "(string \<Rightarrow> string option) \<Rightarrow> forward_row \<Rightarrow> bool" where
  "isCanonicalCodexForwardShape origin_path r \<longleftrightarrow>
     fr_adapter r = Some ''openai-responses'' \<and> fr_authMode r = Some ''forward'' \<and> isCanonicalCodexForwardUrl origin_path (fr_baseUrl r)"

datatype account_state = AccAbsent | AccDisabled | AccReady | AccInvalid

definition openAiAccountProviderState :: "(string \<Rightarrow> string option) \<Rightarrow> forward_row option \<Rightarrow> account_state" where
  "openAiAccountProviderState origin_path provider =
     (case provider of None \<Rightarrow> AccAbsent
      | Some r \<Rightarrow> if \<not> isCanonicalCodexForwardShape origin_path r then AccInvalid
                 else if fr_disabled r = Some True then AccDisabled else AccReady)"

definition codexAccountProviderNames :: "(string \<Rightarrow> string \<Rightarrow> int) \<Rightarrow> (string \<times> string option) list \<Rightarrow> string list" where
  "codexAccountProviderNames loc providers =
     RESERVED_OPENAI_FORWARD_ID
     # sort_by loc (filter (\<lambda>n. n \<noteq> RESERVED_OPENAI_FORWARD_ID \<and> map_of providers n = Some (Some ''forward'')) (map fst providers))"

section \<open>The wizard\<close>

datatype wizard_step = WProvider | WConnection | WVerify

datatype submit_validation = SubmitOk | SubmitError string

text \<open>\<open>/\{[^}]*\}/\<close>: an opening brace with a closing one after it.\<close>

definition has_placeholder :: "string \<Rightarrow> bool" where
  "has_placeholder u \<longleftrightarrow> CHR ''}'' \<in> set (dropWhile (\<lambda>c. c \<noteq> CHR ''{'') u)"

definition validateAddProviderSubmit :: "bool \<Rightarrow> string \<Rightarrow> string \<Rightarrow> submit_validation" where
  "validateAddProviderSubmit reserved nm resolvedBaseUrl =
     (if \<not> reserved \<and> trim nm = [] then SubmitError ''modal.nameRequired''
      else if \<not> reserved \<and> resolvedBaseUrl = [] then SubmitError ''modal.baseUrlRequired''
      else if \<not> reserved \<and> has_placeholder resolvedBaseUrl then SubmitError ''modal.baseUrlPlaceholderError''
      else SubmitOk)"

definition addProviderPostErrorMessage :: "string option \<Rightarrow> nat \<Rightarrow> (nat \<Rightarrow> string) \<Rightarrow> string" where
  "addProviderPostErrorMessage error status failedStatus =
     (case error of Some e \<Rightarrow> if e = [] then failedStatus status else e | None \<Rightarrow> failedStatus status)"

datatype test_message = TestRaw string | TestNotApplicable | TestOk

record test_answer =
  ta_ok :: "bool option"
  ta_applicable :: "bool option"
  ta_message :: "string option"
  ta_error :: "string option"

definition truthy_text :: "string option \<Rightarrow> string option" where
  "truthy_text v = (case v of Some s \<Rightarrow> if s = [] then None else Some s | None \<Rightarrow> None)"

definition decodeProviderTestOutcome :: "bool \<Rightarrow> test_answer \<Rightarrow> bool \<times> test_message" where
  "decodeProviderTestOutcome testResOk a =
     (let ok = (ta_ok a \<noteq> Some False \<and> testResOk);
          raw = (case truthy_text (ta_message a) of Some m \<Rightarrow> Some m | None \<Rightarrow> truthy_text (ta_error a))
      in case raw of Some m \<Rightarrow> (ok, TestRaw m)
         | None \<Rightarrow> if ta_applicable a = Some False then (ok, TestNotApplicable) else (ok, TestOk))"

definition addProviderWizardStep :: "wizard_step \<Rightarrow> bool \<Rightarrow> wizard_step" where
  "addProviderWizardStep phase hasVerify = (if hasVerify then WVerify else phase)"

definition addProviderWizardRetreat :: "wizard_step \<Rightarrow> wizard_step" where
  "addProviderWizardRetreat step = (if step = WVerify then WConnection else WProvider)"

definition addProviderShowBack :: "wizard_step \<Rightarrow> bool" where
  "addProviderShowBack step \<longleftrightarrow> step \<noteq> WProvider"

definition addProviderHidePrimary :: "wizard_step \<Rightarrow> bool \<Rightarrow> bool" where
  "addProviderHidePrimary step hasAccount \<longleftrightarrow> step = WConnection \<and> hasAccount"

definition addProviderProviderChoiceReady :: "bool \<Rightarrow> bool \<Rightarrow> bool" where
  "addProviderProviderChoiceReady hasPreset hasAccount \<longleftrightarrow> hasPreset \<or> hasAccount"

text \<open>A verification: whether it is running, and its outcome.\<close>

type_synonym verify_state = "bool \<times> bool option"

definition addProviderVerifyAllowsBack :: "verify_state option \<Rightarrow> bool" where
  "addProviderVerifyAllowsBack v \<longleftrightarrow> (case v of None \<Rightarrow> True | Some (testing, _) \<Rightarrow> \<not> testing)"

definition addProviderVerifyPrimaryEnabled :: "verify_state option \<Rightarrow> bool" where
  "addProviderVerifyPrimaryEnabled v \<longleftrightarrow> (case v of None \<Rightarrow> False | Some (testing, ok) \<Rightarrow> \<not> testing \<and> ok = Some True)"

record wizard_input =
  wi_saving :: bool
  wi_oauthBusy :: bool
  wi_verifyTesting :: "bool option"
  wi_verifyOk :: "bool option"
  wi_hasForm :: bool
  wi_hasVerify :: bool
  wi_hasAccount :: "bool option"
  wi_oauthMode :: bool
  wi_oauthProvider :: "string option"
  wi_oauthSupported :: "string list"
  wi_phase :: wizard_step
  wi_authMode :: "auth_mode option"
  wi_apiKey :: "string option"
  wi_keyOptional :: "bool option"

definition addProviderConnectionKeyLocked :: "wizard_input \<Rightarrow> bool" where
  "addProviderConnectionKeyLocked i \<longleftrightarrow>
     wi_authMode i = Some AuthKey \<and> wi_keyOptional i \<noteq> Some True \<and> trim (case wi_apiKey i of Some k \<Rightarrow> k | None \<Rightarrow> []) = []"

definition addProviderPrimaryDisabled :: "wizard_input \<Rightarrow> bool" where
  "addProviderPrimaryDisabled i =
     (if wi_phase i = WProvider then \<not> addProviderProviderChoiceReady (wi_hasForm i) (wi_hasAccount i = Some True)
      else if wi_phase i = WVerify \<or> wi_hasVerify i
      then \<not> addProviderVerifyPrimaryEnabled (Some (wi_verifyTesting i = Some True \<or> wi_saving i, wi_verifyOk i))
      else if wi_phase i = WConnection \<and> wi_oauthMode i then True
      else if addProviderConnectionKeyLocked i then True
      else wi_saving i \<or> wi_oauthBusy i \<or> (\<not> wi_hasForm i \<and> \<not> wi_hasVerify i)
        \<or> (wi_oauthMode i \<and> \<not> wi_hasVerify i
            \<and> \<not> (case truthy_text (wi_oauthProvider i) of Some p \<Rightarrow> p \<in> set (wi_oauthSupported i) | None \<Rightarrow> False)))"

text \<open>The last two lines of the source follow a return for each of the three steps.\<close>

datatype primary_label = LWaiting | LConnectOauth | LAdding | LConnect | LContinue | LDone

definition addProviderPrimaryLabelKind :: "bool \<Rightarrow> bool \<Rightarrow> bool \<Rightarrow> wizard_step \<Rightarrow> primary_label" where
  "addProviderPrimaryLabelKind oauthMode oauthBusy saving phase =
     (case phase of WProvider \<Rightarrow> LContinue
      | WVerify \<Rightarrow> if saving then LAdding else LDone
      | WConnection \<Rightarrow> if saving then LAdding else LContinue)"

datatype primary_action = FinishVerify | OauthLogin | Submit | AdvanceProvider

definition addProviderPrimaryAction :: "wizard_input \<Rightarrow> primary_action" where
  "addProviderPrimaryAction i =
     (if wi_phase i = WProvider then AdvanceProvider
      else if wi_hasVerify i then FinishVerify
      else if wi_oauthMode i \<and> truthy_text (wi_oauthProvider i) \<noteq> None then OauthLogin
      else Submit)"

datatype initial_selection = SelWait | SelFirstAccount | SelFirstPreset

definition addProviderInitialSelection :: "bool \<Rightarrow> bool \<Rightarrow> bool \<Rightarrow> bool \<Rightarrow> string option \<Rightarrow> initial_selection" where
  "addProviderInitialSelection hasPreset hasSelectedAccount initialCustom presetsLoading initialTier =
     (if hasPreset \<or> hasSelectedAccount \<or> initialCustom \<or> presetsLoading then SelWait
      else if initialTier = Some ''accounts'' then SelFirstAccount else SelFirstPreset)"

definition firstFeaturedCatalogPreset :: "string list \<Rightarrow> string list \<Rightarrow> string option" where
  "firstFeaturedCatalogPreset presets featured =
     (case List.find (\<lambda>i. i \<in> set presets) featured of Some i \<Rightarrow> Some i | None \<Rightarrow> List.find (\<lambda>i. i \<noteq> ''custom'') presets)"

record choose_preset =
  cp_id :: string
  cp_adapter :: string
  cp_responsesPath :: "string option"
  cp_auth :: auth_mode
  cp_defaultModel :: "string option"

definition addProviderChoosePresetForm :: "choose_preset \<Rightarrow> string \<Rightarrow> payload_form" where
  "addProviderChoosePresetForm p resolvedBaseUrl =
     \<lparr>pf_name = (if cp_id p = ''custom'' then [] else cp_id p), pf_adapter = cp_adapter p, pf_baseUrl = resolvedBaseUrl,
      pf_responsesPath = cp_responsesPath p, pf_authMode = cp_auth p, pf_apiKey = [], pf_apiKeyTransport = None,
      pf_defaultModel = (case cp_defaultModel p of Some m \<Rightarrow> m | None \<Rightarrow> []), pf_allowPrivateNetwork = Some False\<rparr>"

text \<open>The panel under the key field, and the inline button.\<close>

datatype auth_panel = PanelForward | PanelLocal | PanelFreeTier | PanelApiKey bool bool

definition addProviderAuthPanel :: "auth_mode \<Rightarrow> bool option \<Rightarrow> string option \<Rightarrow> string \<Rightarrow> auth_panel" where
  "addProviderAuthPanel authMode keyOptional dashboardUrl adapter =
     (if authMode = AuthForward then PanelForward
      else if authMode = AuthLocal then PanelLocal
      else if keyOptional = Some True then PanelFreeTier
      else PanelApiKey (truthy_text dashboardUrl \<noteq> None) (adapter = ''anthropic'' \<and> authMode = AuthKey))"

definition addProviderKeyConnectEnabled :: "auth_mode \<Rightarrow> string \<Rightarrow> bool option \<Rightarrow> bool option \<Rightarrow> bool" where
  "addProviderKeyConnectEnabled authMode apiKey saving keyOptional =
     (if saving = Some True then False
      else if authMode \<noteq> AuthKey then False
      else if keyOptional = Some True then True
      else trim apiKey \<noteq> [])"

definition addProviderConnectionCapabilities ::
  "auth_mode \<Rightarrow> string option \<Rightarrow> string list \<Rightarrow> bool option \<Rightarrow> bool \<times> bool \<times> string \<times> bool" where
  "addProviderConnectionCapabilities auth oauthProvider oauthSupported keyOnOauth =
     (let canOauth = (auth = AuthOauth);
          canKey = (auth = AuthKey \<or> canOauth \<and> keyOnOauth \<noteq> Some False);
          oauthId = (case oauthProvider of Some p \<Rightarrow> p | None \<Rightarrow> [])
      in (canOauth, canKey, oauthId, canOauth \<and> oauthId \<in> set oauthSupported))"

section \<open>Request pacing\<close>

record pacing_rule =
  pr_requestsPerMinute :: "rat option"
  pr_minIntervalMs :: "rat option"

record pacing =
  pc_enabled :: bool
  pc_requestsPerMinute :: "rat option"
  pc_minIntervalMs :: "rat option"
  pc_models :: "(string \<times> pacing_rule) list option"

definition numberDraft :: "rat option \<Rightarrow> string" where
  "numberDraft v = (case v of None \<Rightarrow> [] | Some r \<Rightarrow> js_show r)"

definition positiveRpm :: "string \<Rightarrow> rat option" where
  "positiveRpm v = (if trim v = [] then None else case js_number v of Fin r \<Rightarrow> if r \<ge> 1 / 60 then Some r else None | _ \<Rightarrow> None)"

definition positiveInteger :: "string \<Rightarrow> rat option" where
  "positiveInteger v =
     (if trim v = [] then None
      else case js_number v of Fin r \<Rightarrow> if safe_integer (Fin r) \<and> r > 0 then Some r else None | _ \<Rightarrow> None)"

definition settingsPacingDraft :: "bool \<Rightarrow> string \<Rightarrow> string \<Rightarrow> (string \<times> pacing_rule) list \<Rightarrow> pacing" where
  "settingsPacingDraft enabled rpm delay models =
     \<lparr>pc_enabled = enabled, pc_requestsPerMinute = positiveRpm rpm, pc_minIntervalMs = positiveInteger delay,
      pc_models = (if models \<noteq> [] then Some models else None)\<rparr>"

definition settingsOverrideRule :: "string \<Rightarrow> string \<Rightarrow> string \<Rightarrow> (string \<times> pacing_rule) option" where
  "settingsOverrideRule modelId rpmDraft delayDraft =
     (let i = trim modelId; rpm = positiveRpm rpmDraft; delay = positiveInteger delayDraft
      in if i = [] \<or> (rpm = None \<and> delay = None) then None
         else Some (i, \<lparr>pr_requestsPerMinute = rpm, pr_minIntervalMs = delay\<rparr>))"

record pacing_source =
  ps_requestPacing :: "(bool option \<times> rat option \<times> rat option \<times> (string \<times> pacing_rule) list option) option"
  ps_requestPacingMs :: "rat option"

record pacing_view =
  pv_enabled :: bool
  pv_rpm :: "rat option"
  pv_minMs :: "rat option"
  pv_models :: "(string \<times> pacing_rule) list"

definition some_positive :: "rat option \<Rightarrow> bool" where
  "some_positive v \<longleftrightarrow> (case v of Some r \<Rightarrow> r > 0 | None \<Rightarrow> False)"

definition pacingFromItem :: "pacing_source \<Rightarrow> pacing_view" where
  "pacingFromItem item =
     (let (en, rpm, ms, models) = (case ps_requestPacing item of Some p \<Rightarrow> p | None \<Rightarrow> (None, None, None, None));
          minMs = (case ms of Some m \<Rightarrow> Some m | None \<Rightarrow> ps_requestPacingMs item);
          ms' = (case models of Some m \<Rightarrow> m | None \<Rightarrow> []);
          hasLimit = (some_positive rpm \<or> some_positive minMs \<or> ms' \<noteq> [])
      in \<lparr>pv_enabled = (en = Some True \<or> (en \<noteq> Some False \<and> hasLimit)), pv_rpm = rpm, pv_minMs = minMs, pv_models = ms'\<rparr>)"

definition positive_number :: "string \<Rightarrow> rat option" where
  "positive_number s = (case js_number s of Fin r \<Rightarrow> if r > 0 then Some r else None | _ \<Rightarrow> None)"

definition positive_safe :: "string \<Rightarrow> rat option" where
  "positive_safe s = (case js_number s of Fin r \<Rightarrow> if safe_integer (Fin r) \<and> r > 0 then Some r else None | _ \<Rightarrow> None)"

definition configPacingPayload :: "bool \<Rightarrow> string \<Rightarrow> string \<Rightarrow> (string \<times> pacing_rule) list \<Rightarrow> pacing" where
  "configPacingPayload enabled rpm delay models =
     \<lparr>pc_enabled = enabled, pc_requestsPerMinute = positive_number rpm, pc_minIntervalMs = positive_safe delay,
      pc_models = (if models \<noteq> [] then Some models else None)\<rparr>"

text \<open>A limit of zero counts as absent, as it does in a condition of the source.\<close>

definition no_limit :: "rat option \<Rightarrow> bool" where
  "no_limit v \<longleftrightarrow> v = None \<or> v = Some 0"

definition configPacingMissingRule :: "pacing \<Rightarrow> bool" where
  "configPacingMissingRule b \<longleftrightarrow>
     pc_enabled b \<and> no_limit (pc_requestsPerMinute b) \<and> no_limit (pc_minIntervalMs b) \<and> pc_models b = None"

definition configOverrideRule :: "string \<Rightarrow> string \<Rightarrow> pacing_rule option" where
  "configOverrideRule rpmDraft delayDraft =
     (let rule = \<lparr>pr_requestsPerMinute = positive_number rpmDraft, pr_minIntervalMs = positive_safe delayDraft\<rparr>
      in if pr_requestsPerMinute rule = None \<and> pr_minIntervalMs rule = None then None else Some rule)"

section \<open>The settings form\<close>

record settings_item =
  si_adapter :: string
  si_baseUrl :: string
  si_defaultModel :: "string option"
  si_authMode :: "string option"
  si_keyOptional :: "bool option"
  si_apiKeyTransport :: "string option"
  si_note :: "string option"
  si_allowPrivateNetwork :: "bool option"
  si_liveModels :: "bool option"

record settings_draft =
  df_adapter :: string
  df_baseUrl :: string
  df_defaultModel :: string
  df_authMode :: string
  df_apiKeyTransport :: string
  df_note :: string
  df_allowPrivateNetwork :: bool
  df_liveModels :: bool

record save_patch =
  sv_adapter :: "string option"
  sv_baseUrl :: "string option"
  sv_defaultModel :: "string option"
  sv_authMode :: "string option"
  sv_note :: "string option"
  sv_allowPrivateNetwork :: "bool option"
  sv_liveModels :: "bool option"
  sv_apiKeyTransport :: "string option"
  sv_requestPacing :: "pacing option"

definition settingsSupportsApiKeyTransport :: "string \<Rightarrow> string \<Rightarrow> bool" where
  "settingsSupportsApiKeyTransport adapter authMode \<longleftrightarrow> trim adapter = ''anthropic'' \<and> authMode = ''key''"

definition settingsInitialAuthMode :: "string option \<Rightarrow> bool option \<Rightarrow> string" where
  "settingsInitialAuthMode authMode keyOptional =
     (case authMode of Some m \<Rightarrow> m | None \<Rightarrow> if keyOptional = Some True then ''local'' else ''key'')"

definition or_text :: "string option \<Rightarrow> string \<Rightarrow> string" where
  "or_text v d = (case v of Some s \<Rightarrow> s | None \<Rightarrow> d)"

definition settingsFormDirty :: "settings_draft \<Rightarrow> settings_item \<Rightarrow> bool \<Rightarrow> bool" where
  "settingsFormDirty d item savedLiveModels \<longleftrightarrow>
     trim (df_adapter d) \<noteq> si_adapter item
     \<or> trim (df_baseUrl d) \<noteq> si_baseUrl item
     \<or> trim (df_defaultModel d) \<noteq> or_text (si_defaultModel item) []
     \<or> df_authMode d \<noteq> settingsInitialAuthMode (si_authMode item) (si_keyOptional item)
     \<or> (settingsSupportsApiKeyTransport (df_adapter d) (df_authMode d)
         \<and> df_apiKeyTransport d \<noteq> or_text (si_apiKeyTransport item) ''x-api-key'')
     \<or> trim (df_note d) \<noteq> or_text (si_note item) []
     \<or> df_allowPrivateNetwork d \<noteq> (si_allowPrivateNetwork item = Some True)
     \<or> df_liveModels d \<noteq> savedLiveModels"

abbreviation empty_patch :: save_patch where
  "empty_patch \<equiv> \<lparr>sv_adapter = None, sv_baseUrl = None, sv_defaultModel = None, sv_authMode = None, sv_note = None,
     sv_allowPrivateNetwork = None, sv_liveModels = None, sv_apiKeyTransport = None, sv_requestPacing = None\<rparr>"

definition settingsSavePatch ::
  "settings_draft \<Rightarrow> string \<Rightarrow> bool \<Rightarrow> settings_item \<Rightarrow> bool \<Rightarrow> pacing \<Rightarrow> bool \<Rightarrow> bool \<Rightarrow> (string, save_patch) result" where
  "settingsSavePatch d nextBaseUrl discoverySupported item pacingEnabled pacingDraft dirty pacingDirty =
     (if trim (df_adapter d) = [] \<or> nextBaseUrl = [] then Inl ''pws.adapterBaseRequired''
      else if pacingEnabled \<and> no_limit (pc_requestsPerMinute pacingDraft) \<and> no_limit (pc_minIntervalMs pacingDraft)
        \<and> pc_models pacingDraft = None then Inl ''pws.pacingRuleRequired''
      else if pacingDirty \<and> \<not> dirty then Inr (empty_patch\<lparr>sv_requestPacing := Some pacingDraft\<rparr>)
      else Inr \<lparr>sv_adapter = Some (trim (df_adapter d)), sv_baseUrl = Some nextBaseUrl, sv_defaultModel = Some (trim (df_defaultModel d)),
             sv_authMode = Some (df_authMode d), sv_note = Some (trim (df_note d)),
             sv_allowPrivateNetwork = Some (df_allowPrivateNetwork d),
             sv_liveModels =
               (if discoverySupported \<and> df_liveModels d \<noteq> (si_liveModels item \<noteq> Some False) then Some (df_liveModels d) else None),
             sv_apiKeyTransport =
               (if settingsSupportsApiKeyTransport (df_adapter d) (df_authMode d) then Some (df_apiKeyTransport d)
                else if si_apiKeyTransport item \<noteq> None then Some [] else None),
             sv_requestPacing = (if pacingDirty then Some pacingDraft else None)\<rparr>)"

definition configGeneralPatch :: "bool \<Rightarrow> settings_draft \<Rightarrow> settings_item \<Rightarrow> save_patch" where
  "configGeneralPatch openaiLogical d item =
     empty_patch\<lparr>sv_adapter := (if openaiLogical then None else Some (if trim (df_adapter d) = [] then si_adapter item else trim (df_adapter d))),
       sv_baseUrl := (if openaiLogical then None else Some (if trim (df_baseUrl d) = [] then si_baseUrl item else trim (df_baseUrl d))),
       sv_defaultModel := Some (trim (df_defaultModel d)), sv_note := Some (trim (df_note d))\<rparr>"

definition configDiscoveryPatch :: "bool \<Rightarrow> bool \<Rightarrow> bool \<Rightarrow> bool \<Rightarrow> save_patch" where
  "configDiscoveryPatch allowPrivateNetwork discoverySupported liveModels savedLiveModels =
     empty_patch\<lparr>sv_allowPrivateNetwork := Some allowPrivateNetwork,
       sv_liveModels := (if discoverySupported \<and> liveModels \<noteq> savedLiveModels then Some liveModels else None)\<rparr>"

definition settingsOpenAiView :: "string \<Rightarrow> account_state \<Rightarrow> account_state \<times> bool" where
  "settingsOpenAiView itemName state =
     (if itemName \<noteq> ''openai'' then (AccInvalid, False) else (state, state = AccReady \<or> state = AccDisabled))"

definition settingsHasEndpointPicker :: "string \<Rightarrow> nat \<Rightarrow> bool" where
  "settingsHasEndpointPicker choicesStatus choiceCount \<longleftrightarrow> choicesStatus = ''ready'' \<and> choiceCount > 0"

definition settingsPlainBaseUrlLocked :: "bool \<Rightarrow> string \<Rightarrow> bool" where
  "settingsPlainBaseUrlLocked isPreset choicesStatus \<longleftrightarrow> isPreset \<and> choicesStatus \<noteq> ''error''"

definition savedLiveModels :: "bool \<Rightarrow> settings_item \<Rightarrow> bool" where
  "savedLiveModels discoverySupported item = (if discoverySupported then si_liveModels item \<noteq> Some False else False)"

section \<open>What a request carries\<close>

lemma keep_text_Some: "keep_text v = Some s \<longleftrightarrow> (\<exists>r. v = Some r \<and> trim r = s \<and> s \<noteq> [])"
  by (auto simp: keep_text_def split: option.split)


definition sample_preset :: post_preset where
  "sample_preset = \<lparr>pp_id = ''custom'', pp_codexAccountMode = None, pp_provider = None\<rparr>"

definition sample_form :: payload_form where
  "sample_form = \<lparr>pf_name = '' acme '', pf_adapter = ''anthropic'', pf_baseUrl = ''https://a.example'', pf_responsesPath = Some '' '',
     pf_authMode = AuthKey, pf_apiKey = '' k '', pf_apiKeyTransport = Some ''bearer'', pf_defaultModel = [], pf_allowPrivateNetwork = None\<rparr>"

definition sample_payload_of :: provider_payload where
  "sample_payload_of = encodeProviderDraft sample_form"


section \<open>What the wizard lets through\<close>

text \<open>
  The primary button of the connection step is disabled for a sign-in, so an enabled primary never starts one, and an enabled
  primary that submits a provider with a mandatory key has the key in its request.
\<close>

theorem enabled_primary_submits:
  assumes "\<not> addProviderPrimaryDisabled i" "wi_phase i = WVerify \<Longrightarrow> wi_hasVerify i"
  shows "addProviderPrimaryAction i \<noteq> OauthLogin"
    and "addProviderPrimaryAction i = Submit \<Longrightarrow> wi_phase i = WConnection \<and> wi_hasForm i \<and> \<not> wi_saving i \<and> \<not> wi_oauthBusy i"
    and "addProviderPrimaryAction i = Submit \<Longrightarrow> wi_authMode i = Some (pf_authMode draft) \<Longrightarrow> wi_apiKey i = Some (pf_apiKey draft)
      \<Longrightarrow> pf_authMode draft = AuthKey \<Longrightarrow> wi_keyOptional i \<noteq> Some True
      \<Longrightarrow> py_apiKey (encodeProviderDraft draft) = Some (trim (pf_apiKey draft))"
proof -
  show "addProviderPrimaryAction i \<noteq> OauthLogin"
    using assms by (cases "wi_phase i") (auto simp: addProviderPrimaryDisabled_def addProviderPrimaryAction_def split: if_splits)
  show s: "addProviderPrimaryAction i = Submit \<Longrightarrow> wi_phase i = WConnection \<and> wi_hasForm i \<and> \<not> wi_saving i \<and> \<not> wi_oauthBusy i"
    using assms by (cases "wi_phase i") (auto simp: addProviderPrimaryDisabled_def addProviderPrimaryAction_def split: if_splits)
  assume a: "addProviderPrimaryAction i = Submit" "wi_authMode i = Some (pf_authMode draft)" "wi_apiKey i = Some (pf_apiKey draft)"
    "pf_authMode draft = AuthKey" "wi_keyOptional i \<noteq> Some True"
  have "\<not> addProviderConnectionKeyLocked i"
    using assms s [OF a(1)] a(1) by (auto simp: addProviderPrimaryDisabled_def addProviderPrimaryAction_def split: if_splits)
  with a have "trim (pf_apiKey draft) \<noteq> []" by (simp add: addProviderConnectionKeyLocked_def)
  with a show "py_apiKey (encodeProviderDraft draft) = Some (trim (pf_apiKey draft))"
    by (simp add: encodeProviderDraft_def Let_def keep_text_Some)
qed

lemma retreat_leads_back: "(addProviderWizardRetreat ^^ 2) step = WProvider"
  by (cases step) (simp_all add: addProviderWizardRetreat_def eval_nat_numeral)

lemma chosen_preset_keeps_no_key: "py_apiKey (encodeProviderDraft (addProviderChoosePresetForm p u)) = None"
  by (simp add: encodeProviderDraft_def addProviderChoosePresetForm_def Let_def keep_text_def)

section \<open>Drafts of numbers\<close>

definition pacing_number :: "rat option \<Rightarrow> (rat \<Rightarrow> bool) \<Rightarrow> bool" where
  "pacing_number v P \<longleftrightarrow> (case v of Some r \<Rightarrow> decimal r \<and> P r | None \<Rightarrow> True)"

text \<open>Limits that are shown and not touched are written as they were, by both forms.\<close>

theorem pacing_untouched:
  assumes "pacing_number rpm (\<lambda>r. r \<ge> 1 / 60)" "pacing_number delay (\<lambda>r. safe_integer (Fin r) \<and> r > 0)"
  shows "settingsPacingDraft e (numberDraft rpm) (numberDraft delay) models =
      \<lparr>pc_enabled = e, pc_requestsPerMinute = rpm, pc_minIntervalMs = delay, pc_models = (if models \<noteq> [] then Some models else None)\<rparr>"
    and "configPacingPayload e (numberDraft rpm) (numberDraft delay) models =
      settingsPacingDraft e (numberDraft rpm) (numberDraft delay) models"
proof -
  have n: "js_number [] = Fin 0" by code_simp
  have r: "positiveRpm (numberDraft rpm) = rpm" "positive_number (numberDraft rpm) = rpm"
    using assms(1) by (auto simp: pacing_number_def numberDraft_def positiveRpm_def positive_number_def number_of_text js_show_plain n split: option.splits)
  have d: "positiveInteger (numberDraft delay) = delay" "positive_safe (numberDraft delay) = delay"
    using assms(2) by (auto simp: pacing_number_def numberDraft_def positiveInteger_def positive_safe_def number_of_text js_show_plain n
        simp del: safe_integer.simps split: option.splits)
  from r d show "settingsPacingDraft e (numberDraft rpm) (numberDraft delay) models =
      \<lparr>pc_enabled = e, pc_requestsPerMinute = rpm, pc_minIntervalMs = delay, pc_models = (if models \<noteq> [] then Some models else None)\<rparr>"
    and "configPacingPayload e (numberDraft rpm) (numberDraft delay) models =
      settingsPacingDraft e (numberDraft rpm) (numberDraft delay) models"
    by (simp_all add: settingsPacingDraft_def configPacingPayload_def)
qed

text \<open>A rule that is written has a positive limit.\<close>

lemma override_has_limit: "settingsOverrideRule m a b = Some (i, r) \<Longrightarrow>
   i \<noteq> [] \<and> trim i = i \<and> (some_positive (pr_requestsPerMinute r) \<or> some_positive (pr_minIntervalMs r))"
  by (auto simp: settingsOverrideRule_def Let_def positiveRpm_def positiveInteger_def some_positive_def
      split: if_splits jsnum.splits)

section \<open>Saving the form\<close>

text \<open>What the listener keeps of a patch: the fields it names; the empty transport removes it.\<close>

definition stored :: "save_patch \<Rightarrow> settings_item \<Rightarrow> settings_item" where
  "stored p item =
     item\<lparr>si_adapter := or_text (sv_adapter p) (si_adapter item), si_baseUrl := or_text (sv_baseUrl p) (si_baseUrl item),
       si_defaultModel := (if sv_defaultModel p = None then si_defaultModel item else sv_defaultModel p),
       si_authMode := (if sv_authMode p = None then si_authMode item else sv_authMode p),
       si_note := (if sv_note p = None then si_note item else sv_note p),
       si_allowPrivateNetwork := (if sv_allowPrivateNetwork p = None then si_allowPrivateNetwork item else sv_allowPrivateNetwork p),
       si_liveModels := (if sv_liveModels p = None then si_liveModels item else sv_liveModels p),
       si_apiKeyTransport :=
         (case sv_apiKeyTransport p of None \<Rightarrow> si_apiKeyTransport item | Some s \<Rightarrow> if s = [] then None else Some s)\<rparr>"

text \<open>A patch of the settings form leaves nothing to save: over a listener that keeps the fields a patch names, the
  form is clean against the item it was saved to. A patch for the pacing alone touches no other field, and there is no
  patch for an enabled pacing without a limit.\<close>

theorem saved_form_clean:
  assumes "settingsSavePatch d (trim (df_baseUrl d)) supported item pacingEnabled pacing dirty pacingDirty = Inr p"
    and "dirty \<longleftrightarrow> settingsFormDirty d item (savedLiveModels supported item)"
    and "\<not> supported \<longrightarrow> \<not> df_liveModels d" "df_apiKeyTransport d \<noteq> []"
  shows "\<not> settingsFormDirty d (stored p item) (savedLiveModels supported (stored p item))
    \<and> (pacingDirty \<longrightarrow> sv_requestPacing p = Some pacing)
    \<and> (pacingDirty \<and> \<not> dirty \<longrightarrow> stored p item = item)
    \<and> (pacingEnabled \<longrightarrow> \<not> no_limit (pc_requestsPerMinute pacing) \<or> \<not> no_limit (pc_minIntervalMs pacing) \<or> pc_models pacing \<noteq> None)"
proof -
  have lim: "pacingEnabled \<longrightarrow> \<not> no_limit (pc_requestsPerMinute pacing) \<or> \<not> no_limit (pc_minIntervalMs pacing) \<or> pc_models pacing \<noteq> None"
    using assms(1) by (auto simp: settingsSavePatch_def split: if_splits)
  show ?thesis
  proof (cases "pacingDirty \<and> \<not> dirty")
    case True
    then have p: "p = empty_patch\<lparr>sv_requestPacing := Some pacing\<rparr>"
      using assms(1) by (auto simp: settingsSavePatch_def split: if_splits)
    have "stored p item = item" unfolding p by (simp add: stored_def or_text_def)
    then show ?thesis using True assms(2) lim p by simp
  next
    case False
    then have p: "p = \<lparr>sv_adapter = Some (trim (df_adapter d)), sv_baseUrl = Some (trim (df_baseUrl d)), sv_defaultModel = Some (trim (df_defaultModel d)),
             sv_authMode = Some (df_authMode d), sv_note = Some (trim (df_note d)),
             sv_allowPrivateNetwork = Some (df_allowPrivateNetwork d),
             sv_liveModels =
               (if supported \<and> df_liveModels d \<noteq> (si_liveModels item \<noteq> Some False) then Some (df_liveModels d) else None),
             sv_apiKeyTransport =
               (if settingsSupportsApiKeyTransport (df_adapter d) (df_authMode d) then Some (df_apiKeyTransport d)
                else if si_apiKeyTransport item \<noteq> None then Some [] else None),
             sv_requestPacing = (if pacingDirty then Some pacing else None)\<rparr>"
      using assms(1) by (auto simp: settingsSavePatch_def split: if_splits)
    have "\<not> settingsFormDirty d (stored p item) (savedLiveModels supported (stored p item))"
      unfolding p using assms(3,4) by (auto simp: settingsFormDirty_def stored_def or_text_def settingsInitialAuthMode_def savedLiveModels_def)
    moreover have "pacingDirty \<longrightarrow> sv_requestPacing p = Some pacing" by (simp add: p)
    ultimately show ?thesis using False lim by blast
  qed
qed

definition sample_item :: settings_item where
  "sample_item = \<lparr>si_adapter = ''anthropic'', si_baseUrl = ''https://a.example'', si_defaultModel = None, si_authMode = Some ''key'',
     si_keyOptional = None, si_apiKeyTransport = None, si_note = None, si_allowPrivateNetwork = None, si_liveModels = None\<rparr>"

definition sample_draft :: settings_draft where
  "sample_draft = \<lparr>df_adapter = ''anthropic '', df_baseUrl = ''https://b.example'', df_defaultModel = ''m'', df_authMode = ''key'',
     df_apiKeyTransport = ''bearer'', df_note = [], df_allowPrivateNetwork = False, df_liveModels = False\<rparr>"

definition sample_pacing :: pacing where
  "sample_pacing = \<lparr>pc_enabled = False, pc_requestsPerMinute = None, pc_minIntervalMs = None, pc_models = None\<rparr>"

definition sample_patch :: save_patch where
  "sample_patch = empty_patch\<lparr>sv_adapter := Some ''anthropic'', sv_baseUrl := Some ''https://b.example'', sv_defaultModel := Some ''m'',
     sv_authMode := Some ''key'', sv_note := Some [], sv_allowPrivateNetwork := Some False, sv_liveModels := Some False,
     sv_apiKeyTransport := Some ''bearer''\<rparr>"

theorem saved_form_clean_witness:
  "settingsSavePatch sample_draft (trim (df_baseUrl sample_draft)) True sample_item False sample_pacing True False = Inr sample_patch
   \<and> settingsFormDirty sample_draft sample_item True
   \<and> \<not> settingsFormDirty sample_draft (stored sample_patch sample_item) (savedLiveModels True (stored sample_patch sample_item))"
proof -
  have p: "settingsSavePatch sample_draft (trim (df_baseUrl sample_draft)) True sample_item False sample_pacing True False = Inr sample_patch"
    by code_simp
  have d: "True \<longleftrightarrow> settingsFormDirty sample_draft sample_item (savedLiveModels True sample_item)" by code_simp
  have l: "savedLiveModels True sample_item = True" by code_simp
  have k: "df_apiKeyTransport sample_draft \<noteq> []" by code_simp
  have f: "\<not> True \<longrightarrow> \<not> df_liveModels sample_draft" by simp
  from d l have "settingsFormDirty sample_draft sample_item True" by (simp only: l)
  with saved_form_clean [OF p d f k] p show ?thesis by blast
qed

section \<open>The OpenAI row\<close>

lemma openai_first: "hd (codexAccountProviderNames loc ps) = ''openai''"
  by (simp add: codexAccountProviderNames_def RESERVED_OPENAI_FORWARD_ID_def)

lemma openai_names: "distinct (map fst ps) \<Longrightarrow> distinct (codexAccountProviderNames loc ps)
   \<and> set (codexAccountProviderNames loc ps) = insert ''openai'' {n. map_of ps n = Some (Some ''forward'')}"
proof -
  assume d: "distinct (map fst ps)"
  have "distinct (sort_by loc (filter (\<lambda>n. n \<noteq> ''openai'' \<and> map_of ps n = Some (Some ''forward'')) (map fst ps)))"
    using distinct_sort_by [of id loc "filter (\<lambda>n. n \<noteq> ''openai'' \<and> map_of ps n = Some (Some ''forward'')) (map fst ps)"] d by simp
  then show ?thesis by (auto simp: codexAccountProviderNames_def RESERVED_OPENAI_FORWARD_ID_def dest: map_of_SomeD intro: rev_image_eqI)
qed

end
