(* ===== verification/Provider_Workspace.thy ===== *)
theory Provider_Workspace
  imports Lab_Records
begin

text \<open>
  The aggregate of the provider workspace, \<^verbatim>\<open>provider-workspace/workspace.ts\<close>: what the page takes from the listener's answer, all of it or
  nothing. The access descriptor of a provider is handed on as the object it is.
\<close>

section \<open>Data\<close>

datatype lifecycle = Healthy | Attention | Disabled

fun lifecycle_name :: "lifecycle \<Rightarrow> string" where
  "lifecycle_name Healthy = ''healthy''"
| "lifecycle_name Attention = ''attention''"
| "lifecycle_name Disabled = ''disabled''"

record workspace_issue =
  is_provider :: string
  is_code :: string
  is_severity :: string
  is_detail :: "string option"
  is_timestamp :: "rat option"

record workspace_event =
  we_provider :: string
  we_type :: string
  we_severity :: string
  we_detail :: "string option"
  we_timestamp :: rat

record provider_downstream =
  pd_harnesses :: "nat option"
  pd_routes :: nat
  pd_subagents :: nat

record workspace_row =
  wr_id :: string
  wr_connections :: "string list"
  wr_hidden :: "string list"
  wr_lifecycle :: lifecycle
  wr_modelCount :: nat
  wr_access :: json
  wr_disabled :: bool
  wr_lastValidated :: "rat option"
  wr_downstream :: provider_downstream

record workspace_summary =
  wm_totalProviders :: nat
  wm_healthy :: nat
  wm_attention :: nat
  wm_disabled :: nat
  wm_exposedModels :: nat

record workspace_availability =
  wa_modelsAvailable :: nat
  wa_modelsUnavailable :: nat
  wa_staleProviderCatalogues :: "nat option"
  wa_lastModelSync :: "rat option"

record workspace_downstream =
  wd_harnessCount :: "nat option"
  wd_routeCount :: nat
  wd_subAgentModelCount :: nat
  wd_affectedRouteCount :: nat

record workspace_aggregate =
  wg_summary :: workspace_summary
  wg_providers :: "workspace_row list"
  wg_attention :: "workspace_issue list"
  wg_availability :: workspace_availability
  wg_downstream :: workspace_downstream
  wg_recentEvents :: "workspace_event list"

section \<open>Reading\<close>

definition finiteCount :: "json \<Rightarrow> nat option" where
  "finiteCount v = (case v of JNum (Fin r) \<Rightarrow> if of_int \<lfloor>r\<rfloor> = r \<and> 0 \<le> r then Some (nat \<lfloor>r\<rfloor>) else None | _ \<Rightarrow> None)"

definition finiteNumber :: "json \<Rightarrow> rat option" where
  "finiteNumber v = (case v of JNum (Fin r) \<Rightarrow> Some r | _ \<Rightarrow> None)"

text \<open>A nullable reader accepts \<^verbatim>\<open>null\<close>, not an absent field.\<close>

definition nullable :: "(json \<Rightarrow> 'a option) \<Rightarrow> json \<Rightarrow> 'a option option" where
  "nullable read v = (if v = JNull then Some None else map_option Some (read v))"

definition field_of :: "(json \<Rightarrow> 'a option) \<Rightarrow> json \<Rightarrow> string \<Rightarrow> 'a option" where
  "field_of read row k = Option.bind (prop_of row k) read"

text \<open>An absent field is left out of the result; one that is there has to be read.\<close>

definition optional_of :: "(json \<Rightarrow> 'a option) \<Rightarrow> json \<Rightarrow> string \<Rightarrow> 'a option option" where
  "optional_of read row k = (case prop_of row k of None \<Rightarrow> Some None | Some v \<Rightarrow> map_option Some (read v))"

definition recordFromUnknown :: "json option \<Rightarrow> json option" where
  "recordFromUnknown v = (case v of Some (JObj ps) \<Rightarrow> Some (JObj ps) | _ \<Rightarrow> None)"

definition read_text :: "json \<Rightarrow> string option" where
  "read_text v = (case v of JStr s \<Rightarrow> Some s | _ \<Rightarrow> None)"

definition read_flag :: "json \<Rightarrow> bool option" where
  "read_flag v = (case v of JBool b \<Rightarrow> Some b | _ \<Rightarrow> None)"

definition stringArrayFromUnknown :: "json option \<Rightarrow> string list option" where
  "stringArrayFromUnknown v =
     (case v of None \<Rightarrow> Some [] | Some JNull \<Rightarrow> Some [] | Some (JArr vs) \<Rightarrow> texts_of vs | _ \<Rightarrow> None)"

definition lifecycleFromUnknown :: "json \<Rightarrow> lifecycle option" where
  "lifecycleFromUnknown v = List.find (\<lambda>l. v = JStr (lifecycle_name l)) [Healthy, Attention, Disabled]"

definition parseSummary :: "json option \<Rightarrow> workspace_summary option" where
  "parseSummary v =
     Option.bind (recordFromUnknown v) (\<lambda>row.
     Option.bind (field_of finiteCount row ''totalProviders'') (\<lambda>totalProviders.
     Option.bind (field_of finiteCount row ''healthy'') (\<lambda>healthy.
     Option.bind (field_of finiteCount row ''attention'') (\<lambda>attention.
     Option.bind (field_of finiteCount row ''disabled'') (\<lambda>disabled.
     Option.bind (field_of finiteCount row ''exposedModels'') (\<lambda>exposedModels.
     if totalProviders \<noteq> healthy + attention + disabled then None
     else Some \<lparr>wm_totalProviders = totalProviders, wm_healthy = healthy, wm_attention = attention, wm_disabled = disabled,
                wm_exposedModels = exposedModels\<rparr>))))))"

definition parseAvailability :: "json option \<Rightarrow> workspace_availability option" where
  "parseAvailability v =
     Option.bind (recordFromUnknown v) (\<lambda>row.
     Option.bind (field_of finiteCount row ''modelsAvailable'') (\<lambda>available.
     Option.bind (field_of finiteCount row ''modelsUnavailable'') (\<lambda>unavailable.
     Option.bind (field_of (nullable finiteCount) row ''staleProviderCatalogues'') (\<lambda>stale.
     Option.bind (field_of (nullable finiteNumber) row ''lastModelSync'') (\<lambda>sync.
     Some \<lparr>wa_modelsAvailable = available, wa_modelsUnavailable = unavailable, wa_staleProviderCatalogues = stale,
           wa_lastModelSync = sync\<rparr>)))))"

definition parseAggregateDownstream :: "json option \<Rightarrow> workspace_downstream option" where
  "parseAggregateDownstream v =
     Option.bind (recordFromUnknown v) (\<lambda>row.
     Option.bind (field_of (nullable finiteCount) row ''harnessCount'') (\<lambda>harnessCount.
     Option.bind (field_of finiteCount row ''routeCount'') (\<lambda>routeCount.
     Option.bind (field_of finiteCount row ''subAgentModelCount'') (\<lambda>subAgentModelCount.
     Option.bind (field_of finiteCount row ''affectedRouteCount'') (\<lambda>affectedRouteCount.
     Some \<lparr>wd_harnessCount = harnessCount, wd_routeCount = routeCount, wd_subAgentModelCount = subAgentModelCount,
           wd_affectedRouteCount = affectedRouteCount\<rparr>)))))"

definition parseProviderDownstream :: "json option \<Rightarrow> provider_downstream option" where
  "parseProviderDownstream v =
     Option.bind (recordFromUnknown v) (\<lambda>row.
     Option.bind (field_of (nullable finiteCount) row ''harnesses'') (\<lambda>harnesses.
     Option.bind (field_of finiteCount row ''routes'') (\<lambda>routes.
     Option.bind (field_of finiteCount row ''subagents'') (\<lambda>subagents.
     Some \<lparr>pd_harnesses = harnesses, pd_routes = routes, pd_subagents = subagents\<rparr>))))"

definition parseProviderRow :: "json \<Rightarrow> workspace_row option" where
  "parseProviderRow value =
     Option.bind (recordFromUnknown (Some value)) (\<lambda>row.
     Option.bind (field_of read_text row ''id'') (\<lambda>ident.
     if trim ident = [] then None else
     Option.bind (stringArrayFromUnknown (prop_of row ''connections'')) (\<lambda>connections.
     Option.bind (stringArrayFromUnknown (prop_of row ''hidden'')) (\<lambda>hidden.
     Option.bind (field_of lifecycleFromUnknown row ''lifecycle'') (\<lambda>cycle.
     Option.bind (field_of finiteCount row ''modelCount'') (\<lambda>modelCount.
     Option.bind (field_of read_flag row ''disabled'') (\<lambda>disabled.
     Option.bind (field_of (nullable finiteNumber) row ''lastValidated'') (\<lambda>lastValidated.
     Option.bind (recordFromUnknown (prop_of row ''access'')) (\<lambda>access.
     Option.bind (parseProviderDownstream (prop_of row ''downstream'')) (\<lambda>downstream.
     Some \<lparr>wr_id = ident, wr_connections = connections, wr_hidden = hidden, wr_lifecycle = cycle, wr_modelCount = modelCount,
           wr_access = access, wr_disabled = disabled, wr_lastValidated = lastValidated, wr_downstream = downstream\<rparr>))))))))))"

definition parseIssue :: "json \<Rightarrow> workspace_issue option" where
  "parseIssue value =
     Option.bind (recordFromUnknown (Some value)) (\<lambda>row.
     Option.bind (field_of read_text row ''provider'') (\<lambda>provider.
     Option.bind (field_of read_text row ''code'') (\<lambda>code.
     Option.bind (field_of read_text row ''severity'') (\<lambda>severity.
     Option.bind (optional_of read_text row ''detail'') (\<lambda>detail.
     Option.bind (optional_of finiteNumber row ''timestamp'') (\<lambda>timestamp.
     Some \<lparr>is_provider = provider, is_code = code, is_severity = severity, is_detail = detail, is_timestamp = timestamp\<rparr>))))))"

definition parseEvent :: "json \<Rightarrow> workspace_event option" where
  "parseEvent value =
     Option.bind (recordFromUnknown (Some value)) (\<lambda>row.
     Option.bind (field_of read_text row ''provider'') (\<lambda>provider.
     Option.bind (field_of read_text row ''type'') (\<lambda>kind.
     Option.bind (field_of read_text row ''severity'') (\<lambda>severity.
     Option.bind (field_of finiteNumber row ''timestamp'') (\<lambda>timestamp.
     Option.bind (optional_of read_text row ''detail'') (\<lambda>detail.
     Some \<lparr>we_provider = provider, we_type = kind, we_severity = severity, we_detail = detail, we_timestamp = timestamp\<rparr>))))))"

fun parse_all :: "(json \<Rightarrow> 'a option) \<Rightarrow> json list \<Rightarrow> 'a list option" where
  "parse_all parser [] = Some []"
| "parse_all parser (entry # entries) =
     (case parser entry of None \<Rightarrow> None | Some x \<Rightarrow> map_option (\<lambda>xs. x # xs) (parse_all parser entries))"

definition parseArray :: "(json \<Rightarrow> 'a option) \<Rightarrow> json option \<Rightarrow> 'a list option" where
  "parseArray parser v = (case v of Some (JArr entries) \<Rightarrow> parse_all parser entries | _ \<Rightarrow> None)"

definition parseRecentEvents :: "json option \<Rightarrow> workspace_event list option" where
  "parseRecentEvents v = (if v = Some JNull then Some [] else parseArray parseEvent v)"

definition parseProviderWorkspaceAggregate :: "json \<Rightarrow> workspace_aggregate option" where
  "parseProviderWorkspaceAggregate value =
     Option.bind (recordFromUnknown (Some value)) (\<lambda>root.
     Option.bind (parseSummary (prop_of root ''summary'')) (\<lambda>summary.
     Option.bind (parseAvailability (prop_of root ''availability'')) (\<lambda>availability.
     Option.bind (parseAggregateDownstream (prop_of root ''downstream'')) (\<lambda>downstream.
     Option.bind (parseArray parseProviderRow (prop_of root ''providers'')) (\<lambda>providers.
     Option.bind (parseArray parseIssue (prop_of root ''attention'')) (\<lambda>attention.
     Option.bind (parseRecentEvents (prop_of root ''recentEvents'')) (\<lambda>recentEvents.
     Some \<lparr>wg_summary = summary, wg_providers = providers, wg_attention = attention, wg_availability = availability,
           wg_downstream = downstream, wg_recentEvents = recentEvents\<rparr>)))))))"

section \<open>The wire form\<close>

definition num_of :: "rat \<Rightarrow> json" where
  "num_of r = JNum (Fin r)"

definition nat_of :: "nat \<Rightarrow> json" where
  "nat_of n = JNum (Fin (of_nat n))"

definition or_null :: "('a \<Rightarrow> json) \<Rightarrow> 'a option \<Rightarrow> json" where
  "or_null f v = (case v of None \<Rightarrow> JNull | Some x \<Rightarrow> f x)"

definition maybe :: "string \<Rightarrow> ('a \<Rightarrow> json) \<Rightarrow> 'a option \<Rightarrow> (string \<times> json) list" where
  "maybe k f v = (case v of None \<Rightarrow> [] | Some x \<Rightarrow> [(k, f x)])"

definition issue_json :: "workspace_issue \<Rightarrow> json" where
  "issue_json i = JObj ([(''provider'', JStr (is_provider i)), (''code'', JStr (is_code i)), (''severity'', JStr (is_severity i))]
     @ maybe ''detail'' JStr (is_detail i) @ maybe ''timestamp'' num_of (is_timestamp i))"

definition event_json :: "workspace_event \<Rightarrow> json" where
  "event_json e = JObj ([(''provider'', JStr (we_provider e)), (''type'', JStr (we_type e)), (''severity'', JStr (we_severity e)),
     (''timestamp'', num_of (we_timestamp e))] @ maybe ''detail'' JStr (we_detail e))"

definition row_json :: "workspace_row \<Rightarrow> json" where
  "row_json r = JObj
     [(''id'', JStr (wr_id r)), (''connections'', JArr (map JStr (wr_connections r))), (''hidden'', JArr (map JStr (wr_hidden r))),
      (''lifecycle'', JStr (lifecycle_name (wr_lifecycle r))), (''modelCount'', nat_of (wr_modelCount r)), (''access'', wr_access r),
      (''disabled'', JBool (wr_disabled r)), (''lastValidated'', or_null num_of (wr_lastValidated r)),
      (''downstream'', JObj [(''harnesses'', or_null nat_of (pd_harnesses (wr_downstream r))),
         (''routes'', nat_of (pd_routes (wr_downstream r))), (''subagents'', nat_of (pd_subagents (wr_downstream r)))])]"

definition aggregate_json :: "workspace_aggregate \<Rightarrow> json" where
  "aggregate_json a = JObj
     [(''summary'', JObj [(''totalProviders'', nat_of (wm_totalProviders (wg_summary a))), (''healthy'', nat_of (wm_healthy (wg_summary a))),
         (''attention'', nat_of (wm_attention (wg_summary a))), (''disabled'', nat_of (wm_disabled (wg_summary a))),
         (''exposedModels'', nat_of (wm_exposedModels (wg_summary a)))]),
      (''availability'', JObj [(''modelsAvailable'', nat_of (wa_modelsAvailable (wg_availability a))),
         (''modelsUnavailable'', nat_of (wa_modelsUnavailable (wg_availability a))),
         (''staleProviderCatalogues'', or_null nat_of (wa_staleProviderCatalogues (wg_availability a))),
         (''lastModelSync'', or_null num_of (wa_lastModelSync (wg_availability a)))]),
      (''downstream'', JObj [(''harnessCount'', or_null nat_of (wd_harnessCount (wg_downstream a))),
         (''routeCount'', nat_of (wd_routeCount (wg_downstream a))),
         (''subAgentModelCount'', nat_of (wd_subAgentModelCount (wg_downstream a))),
         (''affectedRouteCount'', nat_of (wd_affectedRouteCount (wg_downstream a)))]),
      (''providers'', JArr (map row_json (wg_providers a))), (''attention'', JArr (map issue_json (wg_attention a))),
      (''recentEvents'', JArr (map event_json (wg_recentEvents a)))]"

definition wf_aggregate :: "workspace_aggregate \<Rightarrow> bool" where
  "wf_aggregate a \<longleftrightarrow>
     wm_totalProviders (wg_summary a) = wm_healthy (wg_summary a) + wm_attention (wg_summary a) + wm_disabled (wg_summary a)
     \<and> (\<forall>r \<in> set (wg_providers a). trim (wr_id r) \<noteq> [] \<and> isPlainObject (wr_access r))"

section \<open>Readers of the wire form\<close>

lemma read_simps [simp]:
  "finiteCount (nat_of n) = Some n" "finiteNumber (num_of r) = Some r" "read_text (JStr s) = Some s" "read_flag (JBool b) = Some b"
  "nat_of n \<noteq> JNull" "num_of r \<noteq> JNull"
  by (simp_all add: finiteCount_def nat_of_def finiteNumber_def num_of_def read_text_def read_flag_def)

lemma nullable_simps [simp]:
  "nullable finiteCount (or_null nat_of n) = Some n" "nullable finiteNumber (or_null num_of r) = Some r"
  by (cases n; simp add: nullable_def or_null_def) (cases r; simp add: nullable_def or_null_def)

lemma lifecycle_reads [simp]: "lifecycleFromUnknown (JStr (lifecycle_name l)) = Some l"
  by (cases l) (simp_all add: lifecycleFromUnknown_def)

lemma texts_read [simp]: "stringArrayFromUnknown (Some (JArr (map JStr ss))) = Some ss"
proof -
  have "texts_of (map JStr ss) = Some ss" by (induction ss) simp_all
  then show ?thesis by (simp add: stringArrayFromUnknown_def)
qed

lemma record_reads [simp]: "recordFromUnknown (Some (JObj ps)) = Some (JObj ps)"
  by (simp add: recordFromUnknown_def)

lemma record_iff: "recordFromUnknown v = Some c \<longleftrightarrow> v = Some c \<and> isPlainObject c"
  by (auto simp: recordFromUnknown_def split: option.splits json.splits elim: isPlainObject.elims)

lemma row_reads: "trim (wr_id r) \<noteq> [] \<Longrightarrow> isPlainObject (wr_access r) \<Longrightarrow> parseProviderRow (row_json r) = Some r"
proof -
  assume "trim (wr_id r) \<noteq> []" "isPlainObject (wr_access r)"
  moreover from this have "recordFromUnknown (Some (wr_access r)) = Some (wr_access r)" by (simp add: record_iff)
  ultimately show ?thesis
    by (simp add: row_json_def parseProviderRow_def parseProviderDownstream_def field_of_def prop_of_def)
qed

lemma issue_reads: "parseIssue (issue_json i) = Some i"
  by (cases "is_detail i"; cases "is_timestamp i")
    (simp_all add: issue_json_def parseIssue_def field_of_def optional_of_def prop_of_def maybe_def)

lemma event_reads: "parseEvent (event_json e) = Some e"
  by (cases "we_detail e") (simp_all add: event_json_def parseEvent_def field_of_def optional_of_def prop_of_def maybe_def)

lemma all_read: "(\<And>x. x \<in> set xs \<Longrightarrow> parser (f x) = Some x) \<Longrightarrow> parse_all parser (map f xs) = Some xs"
  by (induction xs) simp_all

lemma parse_all_exact: "parse_all parser entries = Some xs \<longleftrightarrow> map parser entries = map Some xs"
  by (induction entries arbitrary: xs) (auto simp: Cons_eq_map_conv split: option.split)

lemma array_exact: "parseArray parser w = Some xs \<longleftrightarrow> (\<exists>entries. w = Some (JArr entries) \<and> map parser entries = map Some xs)"
  by (auto simp: parseArray_def parse_all_exact split: option.splits json.splits)

lemma summary_adds_up: "parseSummary v = Some s \<Longrightarrow> wm_totalProviders s = wm_healthy s + wm_attention s + wm_disabled s"
  by (auto simp: parseSummary_def split: Option.bind_splits if_splits)

lemma row_names: "parseProviderRow x = Some r \<Longrightarrow> trim (wr_id r) \<noteq> [] \<and> isPlainObject (wr_access r)"
  by (auto simp: parseProviderRow_def record_iff split: Option.bind_splits if_splits)

section \<open>What is read\<close>

text \<open>C40: every aggregate whose totals add up is read back from its wire form, and whatever is read has totals that add up, names every
  provider and has an access object for each: one row, issue or event that cannot be read fails the whole read, so the lists
  are as long as the ones that were sent.\<close>

theorem aggregate_roundtrip:
  "(wf_aggregate a \<longrightarrow> parseProviderWorkspaceAggregate (aggregate_json a) = Some a)
   \<and> (parseProviderWorkspaceAggregate v = Some b \<longrightarrow> wf_aggregate b
      \<and> (\<exists>rows issues. prop_of v ''providers'' = Some (JArr rows) \<and> map parseProviderRow rows = map Some (wg_providers b)
           \<and> prop_of v ''attention'' = Some (JArr issues) \<and> map parseIssue issues = map Some (wg_attention b))
      \<and> (prop_of v ''recentEvents'' = Some JNull \<and> wg_recentEvents b = []
         \<or> (\<exists>events. prop_of v ''recentEvents'' = Some (JArr events) \<and> map parseEvent events = map Some (wg_recentEvents b))))"
proof (intro conjI impI)
  assume wf: "wf_aggregate a"
  have p: "parse_all parseProviderRow (map row_json (wg_providers a)) = Some (wg_providers a)"
    using wf by (intro all_read row_reads) (auto simp: wf_aggregate_def)
  have i: "parse_all parseIssue (map issue_json (wg_attention a)) = Some (wg_attention a)" by (intro all_read issue_reads)
  have e: "parse_all parseEvent (map event_json (wg_recentEvents a)) = Some (wg_recentEvents a)" by (intro all_read event_reads)
  have t: "wm_totalProviders (wg_summary a) = wm_healthy (wg_summary a) + wm_attention (wg_summary a) + wm_disabled (wg_summary a)"
    using wf by (simp add: wf_aggregate_def)
  show "parseProviderWorkspaceAggregate (aggregate_json a) = Some a"
    by (simp add: aggregate_json_def parseProviderWorkspaceAggregate_def parseSummary_def parseAvailability_def
        parseAggregateDownstream_def parseArray_def parseRecentEvents_def field_of_def prop_of_def p i e t)
next
  assume b: "parseProviderWorkspaceAggregate v = Some b"
  then obtain root where root: "recordFromUnknown (Some v) = Some root" "parseSummary (prop_of root ''summary'') = Some (wg_summary b)"
    "parseArray parseProviderRow (prop_of root ''providers'') = Some (wg_providers b)"
    "parseArray parseIssue (prop_of root ''attention'') = Some (wg_attention b)"
    "parseRecentEvents (prop_of root ''recentEvents'') = Some (wg_recentEvents b)"
    by (auto simp: parseProviderWorkspaceAggregate_def split: Option.bind_splits)
  then have v: "root = v" by (simp add: record_iff)
  obtain rows where rows: "prop_of v ''providers'' = Some (JArr rows)" "map parseProviderRow rows = map Some (wg_providers b)"
    using root(3) unfolding v array_exact by blast
  have "trim (wr_id r) \<noteq> [] \<and> isPlainObject (wr_access r)" if "r \<in> set (wg_providers b)" for r
  proof -
    from that have "Some r \<in> set (map parseProviderRow rows)" unfolding rows(2) by simp
    then show ?thesis using row_names by auto
  qed
  with summary_adds_up [OF root(2)] show "wf_aggregate b" by (simp add: wf_aggregate_def)
  show "\<exists>rows issues. prop_of v ''providers'' = Some (JArr rows) \<and> map parseProviderRow rows = map Some (wg_providers b)
           \<and> prop_of v ''attention'' = Some (JArr issues) \<and> map parseIssue issues = map Some (wg_attention b)"
    using rows root(4) unfolding v array_exact by blast
  show "prop_of v ''recentEvents'' = Some JNull \<and> wg_recentEvents b = []
         \<or> (\<exists>events. prop_of v ''recentEvents'' = Some (JArr events) \<and> map parseEvent events = map Some (wg_recentEvents b))"
    using root(5) unfolding v parseRecentEvents_def by (auto simp: array_exact split: if_splits)
qed

definition sample_aggregate :: workspace_aggregate where
  "sample_aggregate = \<lparr>wg_summary = \<lparr>wm_totalProviders = 1, wm_healthy = 1, wm_attention = 0, wm_disabled = 0, wm_exposedModels = 2\<rparr>,
     wg_providers = [\<lparr>wr_id = ''acme'', wr_connections = [''a''], wr_hidden = [], wr_lifecycle = Healthy, wr_modelCount = 2,
        wr_access = JObj [], wr_disabled = False, wr_lastValidated = None,
        wr_downstream = \<lparr>pd_harnesses = None, pd_routes = 1, pd_subagents = 0\<rparr>\<rparr>],
     wg_attention = [\<lparr>is_provider = ''acme'', is_code = ''slow'', is_severity = ''low'', is_detail = None, is_timestamp = Some 5\<rparr>],
     wg_availability = \<lparr>wa_modelsAvailable = 2, wa_modelsUnavailable = 0, wa_staleProviderCatalogues = None, wa_lastModelSync = None\<rparr>,
     wg_downstream = \<lparr>wd_harnessCount = Some 1, wd_routeCount = 1, wd_subAgentModelCount = 0, wd_affectedRouteCount = 0\<rparr>,
     wg_recentEvents = []\<rparr>"

theorem aggregate_roundtrip_witness:
  "wf_aggregate sample_aggregate \<and> parseProviderWorkspaceAggregate (aggregate_json sample_aggregate) = Some sample_aggregate"
proof -
  have "wf_aggregate sample_aggregate" by code_simp
  with aggregate_roundtrip [of sample_aggregate "aggregate_json sample_aggregate" sample_aggregate] show ?thesis by blast
qed

end
