(* ===== verification/Spec2Isabelle.thy ===== *)
theory Spec2Isabelle
  imports Release_Execute Data_Surface Pool_Rotation Account_Pool Combo_Workspace App_Routing
    Auto_Switch Model_Visibility Cdp_Registry Usage_Series Storage_Cleanup Routing_Profile
    Subagent_Roster Account_Login Combo_Catalog Workflow_Cleanup Privacy_Scan
    Models_Sync Visibility_Poll Provider_Login Providers_Flow Select_Control Layer_Geometry
    Owned_Process Startup_Page Lab_Client Control_Settings Provider_Setup Provider_Workspace
begin

text \<open>
  \<^bold>\<open>Verification development of Benes.\<close>

  Benes is a proxy between coding agents and model providers. The repository holds the proxy itself
  (Go, under \<^verbatim>\<open>cmd/\<close> and \<^verbatim>\<open>internal/\<close>) and, in TypeScript, the tooling that cuts and publishes its
  releases (\<^verbatim>\<open>scripts/lib/release/\<close>), the tooling that runs a browser for pull-request evidence
  (\<^verbatim>\<open>scripts/\<close>), and the dashboard (\<^verbatim>\<open>gui/src/\<close>). This development models the TypeScript: the decisions
  of the release tooling and the state machines, decoders and policies of the dashboard.

  \<^bold>\<open>The release tooling.\<close> A release is planned from a snapshot of the world (tags, npm, GitHub) and is
  executed one mutation at a time against the same world.

  \<^item> \<open>Release_Semver\<close> is \<^verbatim>\<open>semver.ts\<close>: \<^const>\<open>readVersion\<close>, \<^const>\<open>parsePublishVersion\<close>,
    \<^const>\<open>compareReleaseVersions\<close>, \<^const>\<open>releaseChannel\<close> and \<^const>\<open>assertVersionForChannel\<close>. The order is a comparator in the sense of the locale
    \<open>comparator\<close>, versions that compare equal differ in build metadata only, and the version
    published under a dist-tag reads back.
  \<^item> \<open>Release_Identity\<close> is \<^verbatim>\<open>identity.ts\<close> and \<^verbatim>\<open>args.ts\<close>: what a release is, and the command line that
    asks for it; publishing happens only when it was asked for.
  \<^item> \<open>Release_Notes\<close> is \<^verbatim>\<open>notes.ts\<close>: baselines, the reading of GitHub's generated notes, categories, the
    sanitized text and the coverage check. The coverage theorem says that a change is never lost
    between the commits and the rendered notes.
  \<^item> \<open>Release_Plan\<close> is \<^verbatim>\<open>plan.ts\<close> with the types of \<^verbatim>\<open>world.ts\<close>: the classification of a public
    snapshot and the plan it gives.
  \<^item> \<open>Release_Execute\<close> is \<^verbatim>\<open>execute.ts\<close>: \<open>publish\<close>, \<open>cut\<close> and the bounded waiting loop. The world is a
    value that every effect reads and updates; the answers of the services are a parameter of the
    definitions. Its theorems say which effects can happen at all, in which order, and that a
    publish that is run again converges.

  \<^bold>\<open>The dashboard.\<close> Pages subscribe to keyed resources, render a surface from their snapshots, and
  write changes optimistically. Each stateful hook is a record with one definition per handler and
  an \<^theory_text>\<open>inductive\<close> step relation over them, and is an interpretation of the locale \<open>machine\<close> of the
  prelude, which turns the preservation of an invariant into a fact about reachable states.

  \<^item> \<open>Client_Resource\<close> is \<^verbatim>\<open>client-resource-policy.ts\<close> and \<^verbatim>\<open>client-resource.ts\<close>: the store of entries with
    subscriptions, the polling pulse, retries, timeouts, page visibility and the fence that lets only
    the current attempt paint.
  \<^item> \<open>Data_Surface\<close> is \<^verbatim>\<open>data-surface.ts\<close> and \<^verbatim>\<open>data-surface-seed.ts\<close>, on top of the store: what a page
    shows for a snapshot.
  \<^item> \<open>Pool_Rotation\<close> is \<^verbatim>\<open>account-pool-strategy.ts\<close> and \<^verbatim>\<open>codex-pool-rotation-machine.ts\<close>;
    \<open>Account_Pool\<close> is \<^verbatim>\<open>codex-account-pool-domain.ts\<close>, \<^verbatim>\<open>account-priority.ts\<close> and
    \<^verbatim>\<open>hooks/useCodexAccountPool.ts\<close>; \<open>Auto_Switch\<close> is \<^verbatim>\<open>codex-auto-switch.ts\<close> and
    \<^verbatim>\<open>hooks/useCodexAutoSwitch.ts\<close>. All three keep optimistic values apart from confirmed ones, and
    their theorems say what a late or failed answer may change.
  \<^item> \<open>Combo_Workspace\<close> is \<^verbatim>\<open>combo-workspace-data.ts\<close> with the parts of \<^verbatim>\<open>lib/native-models.ts\<close>,
    \<^verbatim>\<open>combo-workspace-mutations.ts\<close> and \<^verbatim>\<open>components/combo-workspace-identity.ts\<close> it works with: decoding,
    draft, validation, payload and search of the combos page.
  \<^item> \<open>App_Routing\<close> is \<^verbatim>\<open>app-routing.ts\<close>, \<^verbatim>\<open>hash-routing.ts\<close> and the hash grammars of the pages: which page
    owns a hash, and where retired bookmarks lead.
  \<^item> \<open>Model_Visibility\<close> is \<^verbatim>\<open>model-visibility.ts\<close> and the visibility queue of
    \<^verbatim>\<open>pages/use-models-change-writes.ts\<close>.
  \<^item> \<open>Usage_Series\<close> is \<^verbatim>\<open>pages/usage-series.ts\<close>: the arithmetic of the usage charts.
  \<^item> \<open>Storage_Cleanup\<close> is \<^verbatim>\<open>pages/storage-cleanup-policy.ts\<close>, \<^verbatim>\<open>pages/storage-cleanup-run.ts\<close> and
    \<^verbatim>\<open>pages/use-cleanup-policy.ts\<close>: the cleanup policy as text drafts, the run that saves, starts and polls
    a cleanup, and the form around them.
  \<^item> \<open>Routing_Profile\<close> is \<^verbatim>\<open>routing-profile/\<close>, \<^verbatim>\<open>pages/routing-profile-decode.ts\<close> and
    \<^verbatim>\<open>pages/routing-profiles-load.ts\<close>: the codec between a profile and its draft, the models the editor offers,
    and what one load leaves in the editor.
  \<^item> \<open>Subagent_Roster\<close> is \<^verbatim>\<open>components/subagents-workspace/roster.ts\<close>, \<^verbatim>\<open>pages/subagents-chosen-persist.ts\<close> and
    \<^verbatim>\<open>pages/use-subagents-roster-persist.ts\<close>: roles and order of the sub-agents, dragging, and saving.
  \<^item> \<open>Account_Login\<close> is \<^verbatim>\<open>components/add-codex-account-reducer.ts\<close>, \<^verbatim>\<open>lib/codex-account-oauth-decode.ts\<close> and
    \<^verbatim>\<open>components/use-add-codex-account-oauth.ts\<close>: logging in to an account, with the requests that are out, the
    poll and the deadline as part of the state, and the conservation of the flows opened.
  \<^item> \<open>Provider_Login\<close> is \<^verbatim>\<open>components/add-provider-session.ts\<close>, \<^verbatim>\<open>lib/add-provider-oauth-decode.ts\<close>,
    \<^verbatim>\<open>components/use-add-provider-oauth.ts\<close> and the handlers of \<^verbatim>\<open>components/AddProviderModal.tsx\<close> that start and stop a login:
    attempts, pasted codes and the session as one step relation. A superseded attempt touches nothing, every attempt ends, and an open
    dialog never waits for nobody.
  \<^item> \<open>Providers_Flow\<close> is \<^verbatim>\<open>pages/use-providers-oauth.ts\<close> and \<^verbatim>\<open>lib/providers-oauth-policy.ts\<close>: login, cancel and logout of the
    providers page, in any order of answers, with the generations by which one supersedes another; who owns the busy flag, and
    which answers may replace the list of accounts.
  \<^item> \<open>Select_Control\<close> is \<^verbatim>\<open>select-policy.ts\<close> and \<^verbatim>\<open>components/ui/select-controller.ts\<close>: the select control as a state machine whose owner
    may change the options at any time. \<open>Layer_Geometry\<close> is \<^verbatim>\<open>select-position.ts\<close> and \<^verbatim>\<open>tooltip-position.ts\<close>, over the rationals.
  \<^item> \<open>Models_Catalog\<close> is \<^verbatim>\<open>models-groups.ts\<close>, \<^verbatim>\<open>pages/models-catalog-filter.ts\<close>, \<^verbatim>\<open>pages/models-provider-group-data.ts\<close>
    and the plan of \<^verbatim>\<open>pages/models-page-orchestration.ts\<close>: the rows of the models board by provider, its filters and
    cards, and the context windows that were changed but not read back yet.
  \<^item> \<open>Models_Sync\<close> is \<^verbatim>\<open>pages/models-change-sync.ts\<close> with the writers of \<^verbatim>\<open>pages/use-models-change-writes.ts\<close> and the catalog refs of
    \<^verbatim>\<open>pages/Models.tsx\<close>: loads, polls and writes of the models page as one step relation. Reads never paint over a change, and the page
    recovers whenever nothing is out.
  \<^item> \<open>Visibility_Poll\<close> is \<^verbatim>\<open>visibility-poll.ts\<close>, the interval that rests while the tab is hidden.
  \<^item> \<open>Startup_Page\<close> is \<^verbatim>\<open>pages/startup-shared.ts\<close>, \<^verbatim>\<open>startup-health-ui.ts\<close>, \<^verbatim>\<open>pages/startup-page-state.ts\<close>,
    \<^verbatim>\<open>pages/startup-page-runtime.ts\<close> and \<^verbatim>\<open>pages/startup-page-controller.ts\<close>: what the listener answers, what the page says about it, the
    cached copy a reload starts from, and the reducer behind the install and tray actions.
  \<^item> \<open>Combo_Catalog\<close> is \<^verbatim>\<open>components/combo-workspace-utils.ts\<close>: the pickers, target edits and catalog page of the combo
    editor, and the key by which it notices a changed baseline.
  \<^item> \<open>Control_Settings\<close> is \<^verbatim>\<open>pages/control-board-settings.ts\<close>, \<^verbatim>\<open>pages/dashboard-sidecar-merge.ts\<close> and
    \<^verbatim>\<open>pages/dashboard-model-views.ts\<close>: five optimistic settings, each a lane of its own and an interpretation of the locale
    \<open>optimistic_lane\<close>, the vision sidecar and the lists of models.
  \<^item> \<open>Provider_Setup\<close> is \<^verbatim>\<open>provider-workspace/provider-create-request.ts\<close>, \<^verbatim>\<open>openai-forward-policy.ts\<close>, \<^verbatim>\<open>settings-form.ts\<close> and
    \<^verbatim>\<open>config-pacing.ts\<close> with \<^verbatim>\<open>lib/add-provider-submit-policy.ts\<close> and \<^verbatim>\<open>lib/add-provider-form-policy.ts\<close>: what is sent when a provider
    is added or changed. \<open>Provider_Workspace\<close> is \<^verbatim>\<open>provider-workspace/workspace.ts\<close>, shown to read back every aggregate that adds up.
  \<^item> \<open>Lab_Records\<close> is \<^verbatim>\<open>lab/evidence-vocabulary.ts\<close> and \<^verbatim>\<open>lab/lab-records.ts\<close>, the shapes every answer of the Lab is checked
    against; what they accept is given by direct descriptions of a verdict, a subject and a community read. \<open>Lab_Pages\<close> is
    \<^verbatim>\<open>lab/lab-pages.ts\<close>, the walk over the pages of a collection, for any listener and for one that serves a list.
    \<open>Lab_Client\<close> is \<^verbatim>\<open>lab/lab-client.ts\<close>: its addresses, what a read gives, and the lanes that load events as a step relation.
    \<open>Lab_Matrix\<close> is \<^verbatim>\<open>lab/evidence-matrix.ts\<close>, \<^verbatim>\<open>lab/lab-catalog.ts\<close>, \<^verbatim>\<open>pages/compatibility-matrix-view.ts\<close> and
    \<^verbatim>\<open>pages/compatibility-matrix-labels.ts\<close>: the rows of the compatibility matrix and its filters.
  \<^item> \<open>Cdp_Registry\<close> is \<^verbatim>\<open>scripts/cdp-request-registry.ts\<close>, the registry of pending browser requests,
    shown to refine a ledger in which every request is settled once.
  \<^item> \<open>Owned_Process\<close> is \<^verbatim>\<open>scripts/evidence-process.ts\<close>: running a process with a time-out and getting rid of its tree. Every run settles, and a
    result that is handed out tells the truth about the process.
  \<^item> \<open>Workflow_Cleanup\<close> is \<^verbatim>\<open>scripts/ci/cleanup-orphaned-workflows.ts\<close>: the job that deletes the runs of workflows whose file is
    gone. GitHub is a parameter and every request is logged with its answer; the theorems say what was read before
    a run is deleted, that the budget finishes as many histories as any choice could, and when the job ends.
  \<^item> \<open>CI_Scope\<close> is \<^verbatim>\<open>scripts/ci-pr-scope.ts\<close> and \<^verbatim>\<open>scripts/gui-if-changed.ts\<close>: which checks a set of changed files asks for.
    \<open>Privacy_Scan\<close> is \<^verbatim>\<open>scripts/privacy-scan.ts\<close>: its patterns are matchers over character lists, shown equivalent to what a
    line must contain, and a scan that passes leaves no such line.

  \<^bold>\<open>Modelling choices.\<close> Text is the list of the UTF-8 bytes of a JavaScript string; the operations of
  the language the sources use on it are in \<open>Benes_Prelude\<close>, restricted to what ASCII patterns can
  see. Numbers that the code only counts with are \<^typ>\<open>nat\<close> or \<^typ>\<open>int\<close>, amounts of money are rationals:
  rounding of doubles is not modelled. JSON is a datatype, and decoders are total functions on it
  whose failure is a value. What the sources take from outside the repository (fetch, timers, the
  clock, \<^verbatim>\<open>localeCompare\<close>, the services behind the release world) is an argument of the definitions or
  an event of a step relation, and every order in which such events can arrive is a path of the
  relation. Loops are structural recursions or carry a measure; the waiting loop of the release
  tooling runs for the number of attempts the code gives it. Two loops need not end and are \<^theory_text>\<open>partial_function\<close>s: the poll of a
  cleanup run watches the clock, and ends when sleeping moves the clock; the loop over the pages of a listing of
  GitHub's ends when the listing has a last page. Numbers that are kept as text go
  through \<open>Js_Numbers\<close>, which gives \<^verbatim>\<open>Number\<close> and \<^verbatim>\<open>String\<close> on decimals and shows that reading undoes printing.

  \<^bold>\<open>Not modelled.\<close> The Go proxy; the shell and HTTP adapters of the release tooling
  (\<^verbatim>\<open>live.ts\<close>, \<^verbatim>\<open>release.ts\<close>), which only spawn processes; the translation tables; the React components
  (\<^verbatim>\<open>.tsx\<close>), whose content is markup; the browser and process runners of the evidence tooling, whose
  behaviour is that of the operating system. Still to be modelled, in this order: the decoders of usage and
  diagnostics responses, the quota reports and the shell of the provider workspace, the polls of the dashboard, the harness pages.
\<close>

end
